(* ===== verification/Prelude.thy ===== *)
theory Prelude
  imports Main "HOL-Library.Word"
begin

unbundle bit_operations_syntax

text \<open>
  Shared vocabulary of the development: bytes, the exceptions the Python code
  raises as values of one datatype, sequencing of fallible computations,
  Python's \<open>or\<close> on optional values, and the two locales that lift a one-step
  fact (an invariant, a monotone measure) to a whole run of a machine.

  Conventions. A Python \<open>int\<close> is \<open>int\<close>, a \<open>bytes\<close> object is a list of
  \<open>8 word\<close>, an exception that leaves a function is \<open>Inl\<close> of a
  \<open>py_error\<close>. The human-readable text of an exception is not modelled; its
  class and, where the code branches on it, its cause are.
\<close>

section \<open>Bytes\<close>

type_synonym byte = "8 word"
type_synonym bytes = "byte list"

text \<open>\<open>int_of_byte\<close> reads an element of a \<open>bytes\<close> object, which Python
  presents as an \<open>int\<close> between 0 and 255; \<open>byte_of_int\<close> is the element
  stored by \<open>bytes((n,))\<close> for a value already known to be in that range.\<close>

abbreviation int_of_byte :: "byte \<Rightarrow> int" where
  "int_of_byte b \<equiv> uint b"

abbreviation byte_of_int :: "int \<Rightarrow> byte" where
  "byte_of_int n \<equiv> word_of_int n"

lemma int_of_byte_range [simp]: "0 \<le> int_of_byte b" "int_of_byte b \<le> 255"
proof -
  show "0 \<le> int_of_byte b" by simp
  have "uint b < 2 ^ 8" using uint_lt2p [of b] by simp
  then show "int_of_byte b \<le> 255" by simp
qed

lemma int_of_byte_of_int:
  "0 \<le> n \<Longrightarrow> n \<le> 255 \<Longrightarrow> int_of_byte (byte_of_int n) = n"
  by (simp add: uint_word_of_int)

lemma byte_of_int_of_byte [simp]: "byte_of_int (int_of_byte b) = b"
  by simp

lemma byte_of_int_inj:
  "0 \<le> m \<Longrightarrow> m \<le> 255 \<Longrightarrow> 0 \<le> n \<Longrightarrow> n \<le> 255 \<Longrightarrow>
   byte_of_int m = byte_of_int n \<longleftrightarrow> m = n"
  by (metis int_of_byte_of_int)

section \<open>Exceptions\<close>

datatype dle_cause = Truncated_escape | Unescaped_SF

datatype py_error =
    ValueError
  | IndexError
  | KeyError
  | LookupError
  | AssertionError
  | BcdError
  | DleEscapeError dle_cause
  | FrameBuildError
  | InvalidOperation
  | ZeroDivisionError
  | DuplicateEntityError
  | QueueFullError
  | RuntimeError
  | TypeError
  | OverflowError
  | TransportNotOpenError
  | IntegrityError
  | AuditChainError
  | TopicError
  | MqttError
  | MqttNotConnectedError
  | MqttPublishError
  | SchemaError
  | PendingRollbackError

type_synonym 'a result = "py_error + 'a"

definition bind_result :: "('e + 'a) \<Rightarrow> ('a \<Rightarrow> 'e + 'b) \<Rightarrow> 'e + 'b" where
  "bind_result m f = (case m of Inl e \<Rightarrow> Inl e | Inr x \<Rightarrow> f x)"

lemma bind_result_simps [simp]:
  "bind_result (Inl e) f = Inl e"
  "bind_result (Inr x) f = f x"
  by (simp_all add: bind_result_def)

lemma bind_result_Inr_iff:
  "bind_result m f = Inr y \<longleftrightarrow> (\<exists>x. m = Inr x \<and> f x = Inr y)"
  by (cases m) simp_all

lemma bind_result_Inl_iff:
  "bind_result m f = Inl e \<longleftrightarrow> m = Inl e \<or> (\<exists>x. m = Inr x \<and> f x = Inl e)"
  by (cases m) auto

lemma bind_result_assoc:
  "bind_result (bind_result m f) g = bind_result m (\<lambda>x. bind_result (f x) g)"
  by (cases m) simp_all

lemma bind_result_cong [fundef_cong]:
  "m = m' \<Longrightarrow> (\<And>x. m' = Inr x \<Longrightarrow> f x = f' x) \<Longrightarrow> bind_result m f = bind_result m' f'"
  by (cases m') auto

section \<open>Optional values\<close>

text \<open>\<open>x or y\<close> where \<open>x\<close> is \<open>None\<close> or always truthy (a date, an object).\<close>

definition or_else :: "'a option \<Rightarrow> 'a option \<Rightarrow> 'a option" where
  "or_else x y = (case x of None \<Rightarrow> y | Some v \<Rightarrow> Some v)"

lemma or_else_simps [simp]:
  "or_else None y = y"
  "or_else (Some v) y = Some v"
  by (simp_all add: or_else_def)

text \<open>The truth value of an optional string: \<open>None\<close> and \<open>''''\<close> are false.\<close>

definition truthy_string :: "string option \<Rightarrow> bool" where
  "truthy_string s = (case s of None \<Rightarrow> False | Some t \<Rightarrow> t \<noteq> [])"

lemma truthy_string_simps [simp]:
  "truthy_string None = False"
  "truthy_string (Some t) \<longleftrightarrow> t \<noteq> []"
  by (simp_all add: truthy_string_def)

section \<open>Hexadecimal text\<close>

definition hex_digit :: "nat \<Rightarrow> char" where
  "hex_digit n = ''0123456789abcdef'' ! n"

definition hex_byte :: "byte \<Rightarrow> string" where
  "hex_byte b = [hex_digit (unat b div 16), hex_digit (unat b mod 16)]"

text \<open>\<open>data.hex(" ")\<close>: two lower-case digits a byte, separated by blanks.\<close>

fun hex_text :: "bytes \<Rightarrow> string" where
  "hex_text [] = ''''"
| "hex_text [b] = hex_byte b"
| "hex_text (b # c # bs) = hex_byte b @ '' '' @ hex_text (c # bs)"

lemma hex_text_nonempty: "bs \<noteq> [] \<Longrightarrow> hex_text bs \<noteq> []"
  by (cases bs rule: hex_text.cases) (simp_all add: hex_byte_def)

lemma hex_digit_inj: "m < 16 \<Longrightarrow> n < 16 \<Longrightarrow> hex_digit m = hex_digit n \<longleftrightarrow> m = n"
proof -
  have "distinct ''0123456789abcdef''" by simp
  moreover assume "m < 16" "n < 16"
  ultimately show ?thesis
    unfolding hex_digit_def by (intro nth_eq_iff_index_eq) simp_all
qed

lemma hex_byte_inj [simp]: "hex_byte a = hex_byte b \<longleftrightarrow> a = b"
proof
  assume "hex_byte a = hex_byte b"
  moreover have "unat a < 256" "unat b < 256"
    using unsigned_less [of a] unsigned_less [of b] by simp_all
  ultimately have "unat a div 16 = unat b div 16" "unat a mod 16 = unat b mod 16"
    by (simp_all add: hex_byte_def hex_digit_inj)
  then have "unat a = unat b" by (metis div_mult_mod_eq)
  then show "a = b" by (simp add: word_unat_eq_iff)
qed simp

lemma length_hex_byte [simp]: "length (hex_byte b) = 2"
  by (simp add: hex_byte_def)

lemma length_hex_text: "length (hex_text bs) = 3 * length bs - 1"
  by (induction bs rule: hex_text.induct) simp_all

lemma hex_text_inj: "hex_text xs = hex_text ys \<Longrightarrow> xs = ys"
proof (induction xs arbitrary: ys rule: hex_text.induct)
  case 1
  then show ?case by (cases ys rule: hex_text.cases) (simp_all add: hex_byte_def)
next
  case (2 b)
  then show ?case
  proof (cases ys rule: hex_text.cases)
    case (3 b' c' bs')
    with "2.prems" have "length (hex_byte b) = length (hex_text ys)" by simp
    with 3 show ?thesis by (simp add: length_hex_text)
  next
    case (2 b')
    with "2.prems" have "hex_byte b = hex_byte b'" by simp
    with 2 show ?thesis by simp
  qed (use "2.prems" in \<open>auto simp: hex_byte_def\<close>)
next
  case (3 b c bs)
  show ?case
  proof (cases ys rule: hex_text.cases)
    case (3 b' c' bs')
    with "3.prems" have "hex_byte b = hex_byte b'" "hex_text (c # bs) = hex_text (c' # bs')"
      by simp_all
    with "3.IH" 3 show ?thesis by simp
  next
    case (2 b')
    with "3.prems" have "length (hex_text (b # c # bs)) = length (hex_byte b')" by simp
    then show ?thesis by (simp add: length_hex_text)
  qed (use "3.prems" in \<open>auto simp: hex_byte_def\<close>)
qed

section \<open>Decimal text\<close>

text \<open>\<open>str(n)\<close> of an integer.\<close>

fun nat_text :: "nat \<Rightarrow> string" where
  "nat_text n = (if n < 10 then [hex_digit n] else nat_text (n div 10) @ [hex_digit (n mod 10)])"

declare nat_text.simps [simp del]

definition int_text :: "int \<Rightarrow> string" where
  "int_text n = (if n < 0 then ''-'' @ nat_text (nat (- n)) else nat_text (nat n))"

lemma nat_text_nonempty [simp]: "nat_text n \<noteq> []"
  by (subst nat_text.simps) simp

lemma nat_text_inj: "nat_text m = nat_text n \<Longrightarrow> m = n"
proof (induction m arbitrary: n rule: nat_text.induct)
  case (1 m)
  show ?case
  proof (cases "m < 10")
    case True
    then have "nat_text m = [hex_digit m]" by (subst nat_text.simps) simp
    with "1.prems" have single: "nat_text n = [hex_digit m]" by simp
    have "n < 10"
    proof (rule ccontr)
      assume "\<not> n < 10"
      then have "nat_text n = nat_text (n div 10) @ [hex_digit (n mod 10)]" by (subst nat_text.simps) simp
      with single show False by simp
    qed
    then have "nat_text n = [hex_digit n]" by (subst nat_text.simps) simp
    with single have "hex_digit n = hex_digit m" by simp
    with True \<open>n < 10\<close> show ?thesis by (simp add: hex_digit_inj)
  next
    case False
    then have "nat_text m = nat_text (m div 10) @ [hex_digit (m mod 10)]" by (subst nat_text.simps) simp
    with "1.prems" have big: "nat_text n = nat_text (m div 10) @ [hex_digit (m mod 10)]" by simp
    have "\<not> n < 10"
    proof
      assume "n < 10"
      then have "nat_text n = [hex_digit n]" by (subst nat_text.simps) simp
      with big nat_text_nonempty [of "m div 10"] show False by (auto simp: Cons_eq_append_conv simp del: nat_text_nonempty)
    qed
    then have "nat_text n = nat_text (n div 10) @ [hex_digit (n mod 10)]" by (subst nat_text.simps) simp
    with big have "nat_text (m div 10) = nat_text (n div 10)" "hex_digit (m mod 10) = hex_digit (n mod 10)" by simp_all
    moreover have "m mod 10 < 16" "n mod 10 < 16" by simp_all
    ultimately have "m div 10 = n div 10" "m mod 10 = n mod 10" using "1.IH" [OF False] hex_digit_inj by blast+
    then show ?thesis by (metis div_mult_mod_eq)
  qed
qed

section \<open>Text\<close>

text \<open>\<open>text.upper()\<close> on ASCII letters, \<open>part in text\<close>, and \<open>text.strip()\<close> on code points below 256.\<close>

definition upper_char :: "char \<Rightarrow> char" where
  "upper_char c = (if 97 \<le> (of_char c :: nat) \<and> (of_char c :: nat) \<le> 122 then char_of ((of_char c :: nat) - 32) else c)"

definition upper :: "string \<Rightarrow> string" where
  "upper s = map upper_char s"

fun contains_text :: "string \<Rightarrow> string \<Rightarrow> bool" where
  "contains_text part [] \<longleftrightarrow> part = []"
| "contains_text part (c # cs) \<longleftrightarrow> take (length part) (c # cs) = part \<or> contains_text part cs"

definition is_blank :: "char \<Rightarrow> bool" where
  "is_blank c \<longleftrightarrow> (let n = (of_char c :: nat) in 9 \<le> n \<and> n \<le> 13 \<or> 28 \<le> n \<and> n \<le> 32 \<or> n = 133 \<or> n = 160)"

definition strip :: "string \<Rightarrow> string" where
  "strip s = rev (dropWhile is_blank (rev (dropWhile is_blank s)))"

section \<open>Lifting one-step facts to runs\<close>

text \<open>A machine is a step function; a run folds it over a list of inputs.\<close>

locale preserved =
  fixes step :: "'s \<Rightarrow> 'e \<Rightarrow> 's"
    and inv :: "'s \<Rightarrow> bool"
  assumes step_preserves: "inv s \<Longrightarrow> inv (step s e)"
begin

lemma run_preserves: "inv s \<Longrightarrow> inv (foldl step s es)"
  by (induction es arbitrary: s) (auto intro: step_preserves)

lemma prefix_preserves: "inv s \<Longrightarrow> inv (foldl step s (take n es))"
  by (rule run_preserves)

end

locale monotone_measure =
  fixes step :: "'s \<Rightarrow> 'e \<Rightarrow> 's"
    and measure_of :: "'s \<Rightarrow> 'm::order"
  assumes step_mono: "measure_of s \<le> measure_of (step s e)"
begin

lemma run_mono: "measure_of s \<le> measure_of (foldl step s es)"
proof (induction es arbitrary: s)
  case Nil
  then show ?case by simp
next
  case (Cons e es)
  have "measure_of s \<le> measure_of (step s e)" by (rule step_mono)
  also have "\<dots> \<le> measure_of (foldl step (step s e) es)" by (rule Cons.IH)
  finally show ?case by simp
qed

end

section \<open>Codecs\<close>

text \<open>An encoder and a decoder of which the decoder inverts the encoder.\<close>

locale codec =
  fixes enc :: "'a \<Rightarrow> 'b result"
    and dec :: "'b \<Rightarrow> 'a result"
  assumes dec_enc: "enc x = Inr y \<Longrightarrow> dec y = Inr x"
begin

lemma enc_inj: "enc x = Inr z \<Longrightarrow> enc y = Inr z \<Longrightarrow> x = y"
  using dec_enc [of x z] dec_enc [of y z] by simp

lemma enc_then_dec: "enc x = Inr y \<Longrightarrow> bind_result (enc x) dec = Inr x"
  using dec_enc by simp

end

text \<open>
  A detailed machine implements an abstract one: on the states that are \<open>ok\<close>, and for the inputs that are \<open>legal\<close>, a
  detailed step is an abstract step of the view.
\<close>

locale simulation =
  fixes detailed :: "'c \<Rightarrow> 'i \<Rightarrow> 'c"
    and abstracted :: "'a \<Rightarrow> 'i \<Rightarrow> 'a"
    and view :: "'c \<Rightarrow> 'a"
    and ok :: "'c \<Rightarrow> bool"
    and legal :: "'i \<Rightarrow> bool"
  assumes step_ok: "ok c \<Longrightarrow> legal i \<Longrightarrow> ok (detailed c i)"
    and step_view: "ok c \<Longrightarrow> legal i \<Longrightarrow> view (detailed c i) = abstracted (view c) i"
begin

lemma run_simulated:
  "ok c \<Longrightarrow> list_all legal is \<Longrightarrow>
    ok (foldl detailed c is) \<and> view (foldl detailed c is) = foldl abstracted (view c) is"
  by (induction "is" arbitrary: c) (simp_all add: step_ok step_view)

end

section \<open>Indexing and slicing\<close>

text \<open>\<open>xs[i]\<close> for a non-negative index, and the slice \<open>xs[i:j]\<close>, which never raises.\<close>

definition py_index :: "'a list \<Rightarrow> nat \<Rightarrow> 'a result" where
  "py_index xs i = (if i < length xs then Inr (xs ! i) else Inl IndexError)"

definition slice :: "nat \<Rightarrow> nat \<Rightarrow> 'a list \<Rightarrow> 'a list" where
  "slice i j xs = take (j - i) (drop i xs)"

lemma length_slice: "j \<le> length xs \<Longrightarrow> length (slice i j xs) = j - i"
  by (simp add: slice_def)

lemma slice_append_drop: "i \<le> j \<Longrightarrow> slice i j xs @ drop j xs = drop i xs"
  by (simp add: slice_def) (metis append_take_drop_id drop_drop le_add_diff_inverse2)

section \<open>Actions\<close>

text \<open>
  A method of a mutable object: it may raise, and what it changed before it raised stays
  changed, so the new state comes back beside the result.
\<close>

type_synonym ('s, 'a) action = "'s \<Rightarrow> 'a result \<times> 's"

definition return_act :: "'a \<Rightarrow> ('s, 'a) action" where
  "return_act x s = (Inr x, s)"

definition bind_act :: "('s, 'a) action \<Rightarrow> ('a \<Rightarrow> ('s, 'b) action) \<Rightarrow> ('s, 'b) action" where
  "bind_act m f s = (case m s of (Inl e, s') \<Rightarrow> (Inl e, s') | (Inr x, s') \<Rightarrow> f x s')"

definition then_act :: "('s, unit) action \<Rightarrow> ('s, 'b) action \<Rightarrow> ('s, 'b) action" where
  "then_act m n = bind_act m (\<lambda>_. n)"

definition modify_act :: "('s \<Rightarrow> 's) \<Rightarrow> ('s, unit) action" where
  "modify_act g s = (Inr (), g s)"

definition read_act :: "('s \<Rightarrow> ('s, 'a) action) \<Rightarrow> ('s, 'a) action" where
  "read_act f s = f s s"

definition result_act :: "'a result \<Rightarrow> ('s, 'a) action" where
  "result_act r s = (r, s)"

lemma action_simps [simp]:
  "return_act x s = (Inr x, s)"
  "modify_act g s = (Inr (), g s)"
  "read_act f s = f s s"
  "result_act r s = (r, s)"
  by (simp_all add: return_act_def modify_act_def read_act_def result_act_def)

lemma bind_act_cases:
  "m s = (Inl e, s') \<Longrightarrow> bind_act m f s = (Inl e, s')"
  "m s = (Inr x, s') \<Longrightarrow> bind_act m f s = f x s'"
  by (simp_all add: bind_act_def)

lemma then_act_simp [simp]: "then_act m n s = (case m s of (Inl e, s') \<Rightarrow> (Inl e, s') | (Inr _, s') \<Rightarrow> n s')"
  by (simp add: then_act_def bind_act_def)

text \<open>An action that keeps a predicate, also when it raises.\<close>

definition keeps :: "('s \<Rightarrow> bool) \<Rightarrow> ('s, 'a) action \<Rightarrow> bool" where
  "keeps P m \<longleftrightarrow> (\<forall>s. P s \<longrightarrow> P (snd (m s)))"

named_theorems keeps_intros

lemma keepsD: "keeps P m \<Longrightarrow> P s \<Longrightarrow> P (snd (m s))"
  by (simp add: keeps_def)

lemma keeps_return [keeps_intros]: "keeps P (return_act x)"
  by (simp add: keeps_def)

lemma keeps_result [keeps_intros]: "keeps P (result_act r)"
  by (simp add: keeps_def)

lemma keeps_modify [keeps_intros]: "(\<And>s. P s \<Longrightarrow> P (g s)) \<Longrightarrow> keeps P (modify_act g)"
  by (simp add: keeps_def)

lemma keeps_bind [keeps_intros]: "keeps P m \<Longrightarrow> (\<And>x. keeps P (f x)) \<Longrightarrow> keeps P (bind_act m f)"
  by (fastforce simp: keeps_def bind_act_def split: prod.splits sum.splits)

lemma keeps_then [keeps_intros]: "keeps P m \<Longrightarrow> keeps P n \<Longrightarrow> keeps P (then_act m n)"
  unfolding then_act_def by (rule keeps_bind)

lemma keeps_read [keeps_intros]: "(\<And>s. P s \<Longrightarrow> P (snd (f s s))) \<Longrightarrow> keeps P (read_act f)"
  by (simp add: keeps_def)

lemma keeps_read_each: "(\<And>s. keeps P (f s)) \<Longrightarrow> keeps P (read_act f)"
  by (simp add: keeps_def)

lemma keeps_if [keeps_intros]: "(b \<Longrightarrow> keeps P m) \<Longrightarrow> (\<not> b \<Longrightarrow> keeps P n) \<Longrightarrow> keeps P (if b then m else n)"
  by simp

lemma keeps_bind_value:
  "keeps P m \<Longrightarrow> (\<And>s x. P s \<Longrightarrow> fst (m s) = Inr x \<Longrightarrow> keeps P (f x)) \<Longrightarrow> keeps P (bind_act m f)"
  by (fastforce simp: keeps_def bind_act_def split: prod.splits sum.splits)

lemma keeps_case_option: "(x = None \<Longrightarrow> keeps P m) \<Longrightarrow> (\<And>y. x = Some y \<Longrightarrow> keeps P (f y)) \<Longrightarrow>
    keeps P (case x of None \<Rightarrow> m | Some y \<Rightarrow> f y)"
  by (cases x) simp_all

end
