(* ===== verification/App_Bcd.thy ===== *)
theory App_Bcd
  imports Prelude
begin

text \<open>
  \<open>protocol/dart/application/bcd.py\<close> and \<open>fields.py\<close>: packed BCD, the number format of
  every volume, amount, price and counter on the line. Encoding and decoding are inverse
  in both directions; each error of the source is a branch.

  A \<open>Decimal\<close> is its coefficient and exponent. \<open>Decimal(scaled).scaleb(-decimals)\<close>
  is exact in Python's default context while \<open>decimals\<close> is below 999999, far above
  the decimal places a pump has.
\<close>

section \<open>Digits\<close>

definition high_nibble :: "byte \<Rightarrow> int" where
  "high_nibble b = uint (drop_bit 4 b AND 0x0F)"

definition low_nibble :: "byte \<Rightarrow> int" where
  "low_nibble b = uint (b AND 0x0F)"

fun decode_bcd_from :: "int \<Rightarrow> bytes \<Rightarrow> int result" where
  "decode_bcd_from value [] = Inr value"
| "decode_bcd_from value (b # bs) =
    (if high_nibble b > 9 \<or> low_nibble b > 9 then Inl BcdError
     else decode_bcd_from (value * 100 + high_nibble b * 10 + low_nibble b) bs)"

definition decode_packed_bcd :: "bytes \<Rightarrow> int result" where
  "decode_packed_bcd data = (if data = [] then Inl BcdError else decode_bcd_from 0 data)"

text \<open>The decimal digits of \<open>f"{value:d}"\<close>, most significant first.\<close>

fun decimal_digits :: "nat \<Rightarrow> nat list" where
  "decimal_digits n = (if n < 10 then [n] else decimal_digits (n div 10) @ [n mod 10])"

declare decimal_digits.simps [simp del]

fun pack_digits :: "nat list \<Rightarrow> bytes" where
  "pack_digits (d # e # ds) = of_nat (push_bit 4 d OR e) # pack_digits ds"
| "pack_digits _ = []"

definition encode_packed_bcd :: "int \<Rightarrow> int option \<Rightarrow> bytes result" where
  "encode_packed_bcd value width =
    (if value < 0 then Inl BcdError
     else if (case width of None \<Rightarrow> False | Some n \<Rightarrow> n < 0) then Inl BcdError
     else
       let digits = decimal_digits (nat value);
           digits = (if length digits mod 2 = 1 then 0 # digits else digits);
           raw = pack_digits digits
       in case width of
            None \<Rightarrow> Inr (if raw \<noteq> [] then raw else [0])
          | Some n \<Rightarrow> if int (length raw) > n then Inl BcdError
                      else Inr (replicate (nat (n - int (length raw))) 0 @ raw))"

definition is_valid_packed_bcd :: "bytes \<Rightarrow> bool" where
  "is_valid_packed_bcd data = (case decode_packed_bcd data of Inl _ \<Rightarrow> False | Inr _ \<Rightarrow> True)"

section \<open>Decoding\<close>

lemma word_mask_nibble: "(b :: byte) AND 0x0F = take_bit 4 b"
  by (simp add: take_bit_eq_mask mask_eq_exp_minus_1)

lemma high_nibble_eq: "high_nibble b = uint b div 16"
proof -
  have self: "take_bit 8 (uint b) = uint b"
    using int_of_byte_range [of b] by (intro take_bit_int_eq_self) (simp_all del: int_of_byte_range)
  have "high_nibble b = take_bit 4 (drop_bit 4 (uint b))"
    by (simp add: high_nibble_def word_mask_nibble unsigned_take_bit_eq unsigned_drop_bit_eq self)
  moreover have "uint b div 16 < 16" using int_of_byte_range(2) [of b] by linarith
  ultimately show ?thesis
    using int_of_byte_range(1) [of b]
    by (simp add: take_bit_eq_mod drop_bit_eq_div div_int_pos_iff mod_pos_pos_trivial)
qed

lemma low_nibble_eq: "low_nibble b = uint b mod 16"
  unfolding low_nibble_def word_mask_nibble
  by (simp only: unsigned_take_bit_eq take_bit_eq_mod [where 'a = int]) simp

lemma nibble_bounds [simp]: "0 \<le> high_nibble b" "0 \<le> low_nibble b"
  by (simp_all add: high_nibble_def low_nibble_def)

lemma nibbles_determine: "high_nibble a = high_nibble b \<Longrightarrow> low_nibble a = low_nibble b \<Longrightarrow> a = b"
  unfolding high_nibble_eq low_nibble_eq
  by (metis div_mult_mod_eq word_uint_eq_iff)

lemma or_nibbles: "e < 16 \<Longrightarrow> push_bit 4 d OR e = 16 * d + (e :: nat)"
proof -
  assume e: "e < 16"
  have "push_bit 4 d AND e = 0"
  proof (rule bit_eqI)
    fix n
    show "bit (push_bit 4 d AND e) n = bit 0 n"
    proof (cases "n < 4")
      case False
      then have "(2::nat) ^ 4 \<le> 2 ^ n" by (intro power_increasing) simp_all
      with e have "e < 2 ^ n" by simp
      then have "e div 2 ^ n = 0" by (rule div_less)
      then have "\<not> bit e n" by (simp add: bit_iff_odd)
      then show ?thesis by (simp add: bit_and_iff)
    qed (simp add: bit_and_iff bit_push_bit_iff_nat)
  qed
  then show ?thesis by (simp add: disjunctive_add_eq_or [symmetric] push_bit_eq_mult)
qed

lemma packed_nibbles:
  assumes "d < 10" "e < 10"
  shows "high_nibble (of_nat (push_bit 4 d OR e)) = int d"
    "low_nibble (of_nat (push_bit 4 d OR e)) = int e"
proof -
  have "uint (of_nat (16 * d + e) :: byte) = int (16 * d + e)"
    using assms by (simp only: unsigned_of_nat take_bit_eq_mod) simp
  then show "high_nibble (of_nat (push_bit 4 d OR e)) = int d"
    "low_nibble (of_nat (push_bit 4 d OR e)) = int e"
    using assms unfolding high_nibble_eq low_nibble_eq by (simp_all add: or_nibbles)
qed

text \<open>The value of a digit list, on top of a value already read.\<close>

definition digits_value :: "int \<Rightarrow> nat list \<Rightarrow> int" where
  "digits_value v ds = foldl (\<lambda>v d. v * 10 + int d) v ds"

lemma digits_value_simps [simp]:
  "digits_value v [] = v"
  "digits_value v (d # ds) = digits_value (v * 10 + int d) ds"
  "digits_value v (ds @ es) = digits_value (digits_value v ds) es"
  by (simp_all add: digits_value_def)

lemma decode_packed_digits:
  "even (length ds) \<Longrightarrow> \<forall>d\<in>set ds. d < 10 \<Longrightarrow>
   decode_bcd_from v (pack_digits ds) = Inr (digits_value v ds)"
  by (induction ds arbitrary: v rule: pack_digits.induct)
    (simp_all add: packed_nibbles algebra_simps)

lemma length_pack_digits: "length (pack_digits ds) = length ds div 2"
  by (induction ds rule: pack_digits.induct) simp_all

lemma decimal_digits_props:
  "digits_value 0 (decimal_digits n) = int n"
  "\<forall>d\<in>set (decimal_digits n). d < 10"
  "decimal_digits n \<noteq> []"
proof (induction n rule: decimal_digits.induct)
  case (1 n)
  show "digits_value 0 (decimal_digits n) = int n"
  proof (cases "n < 10")
    case False
    then have "digits_value 0 (decimal_digits n) = int (n div 10) * 10 + int (n mod 10)"
      using 1(1) by (subst decimal_digits.simps) simp
    also have "\<dots> = int n" by presburger
    finally show ?thesis .
  qed (simp add: decimal_digits.simps)
  show "\<forall>d\<in>set (decimal_digits n). d < 10"
    using 1(2) by (subst decimal_digits.simps) auto
  show "decimal_digits n \<noteq> []"
    by (subst decimal_digits.simps) simp
qed

lemma digits_in_range: "set ds \<subseteq> {..<10} \<Longrightarrow> \<forall>d\<in>set ds. d < (10::nat)"
  by auto

lemma decode_zeros: "decode_bcd_from 0 (replicate k 0 @ raw) = decode_bcd_from 0 raw"
  by (induction k) (simp_all add: high_nibble_def low_nibble_def)

lemma length_decimal_digits: "0 < k \<Longrightarrow> n < 10 ^ k \<Longrightarrow> length (decimal_digits n) \<le> k"
proof (induction n arbitrary: k rule: decimal_digits.induct)
  case (1 n)
  show ?case
  proof (cases "n < 10")
    case False
    then obtain j where k: "k = Suc j" "0 < j"
      using 1(2,3) by (cases k; cases "k - 1") auto
    then have "n div 10 < 10 ^ j" using 1(3) by (simp add: less_mult_imp_div_less mult.commute)
    then have "length (decimal_digits (n div 10)) \<le> j" using 1(1) False k by blast
    then show ?thesis using False k by (subst decimal_digits.simps) simp
  qed (use 1(2) in \<open>simp add: decimal_digits.simps\<close>)
qed

lemma even_digits:
  fixes n :: nat
  defines "ds \<equiv> (if length (decimal_digits n) mod 2 = 1 then 0 # decimal_digits n else decimal_digits n)"
  shows "even (length ds)" "\<forall>d\<in>set ds. d < 10" "digits_value 0 ds = int n" "ds \<noteq> []"
    "length ds = 2 * ((length (decimal_digits n) + 1) div 2)"
  using decimal_digits_props [of n] unfolding ds_def
  by (auto simp: even_iff_mod_2_eq_zero) presburger+

definition encoded_digits :: "nat \<Rightarrow> bytes" where
  "encoded_digits n = pack_digits
    (if length (decimal_digits n) mod 2 = 1 then 0 # decimal_digits n else decimal_digits n)"

lemma encoded_digits_props:
  "decode_bcd_from 0 (encoded_digits n) = Inr (int n)"
  "encoded_digits n \<noteq> []"
  "length (encoded_digits n) = (length (decimal_digits n) + 1) div 2"
proof -
  note ds = even_digits [of n]
  show "decode_bcd_from 0 (encoded_digits n) = Inr (int n)"
    unfolding encoded_digits_def decode_packed_digits [OF ds(1,2)] ds(3) ..
  show len: "length (encoded_digits n) = (length (decimal_digits n) + 1) div 2"
    unfolding encoded_digits_def length_pack_digits ds(5) by simp
  show "encoded_digits n \<noteq> []"
    using len decimal_digits_props(3) [of n] by (cases "decimal_digits n") auto
qed

lemma encode_eq:
  "encode_packed_bcd v w =
    (if v < 0 then Inl BcdError
     else case w of None \<Rightarrow> Inr (encoded_digits (nat v))
       | Some n \<Rightarrow> if int (length (encoded_digits (nat v))) > n then Inl BcdError
           else Inr (replicate (nat (n - int (length (encoded_digits (nat v))))) 0 @ encoded_digits (nat v)))"
  using encoded_digits_props(2) [of "nat v"]
  by (cases w) (simp_all add: encode_packed_bcd_def Let_def encoded_digits_def)

lemma encode_decodes: "encode_packed_bcd v w = Inr raw \<Longrightarrow> decode_packed_bcd raw = Inr v"
  using encoded_digits_props(1,2) [of "nat v"]
  by (auto simp: encode_eq decode_packed_bcd_def decode_zeros split: if_splits option.splits)

lemma encode_width: "encode_packed_bcd v (Some n) = Inr raw \<Longrightarrow> int (length raw) = n \<and> 0 < n"
proof -
  have "0 < length (encoded_digits (nat v))" using encoded_digits_props(2) by blast
  then have "\<not> n < int (length (encoded_digits (nat v))) \<Longrightarrow> 0 < n" by linarith
  then show "encode_packed_bcd v (Some n) = Inr raw \<Longrightarrow> int (length raw) = n \<and> 0 < n"
    by (cases "v < 0"; cases "n < int (length (encoded_digits (nat v)))")
      (auto simp: encode_eq)
qed

lemma decode_bounds:
  "decode_bcd_from v bs = Inr r \<Longrightarrow> v * 100 ^ length bs \<le> r \<and> r < (v + 1) * 100 ^ length bs"
proof (induction bs arbitrary: v)
  case (Cons b bs)
  let ?P = "(100::int) ^ length bs" and ?d = "high_nibble b * 10 + low_nibble b"
  have d: "0 \<le> ?d" "?d \<le> 99" using Cons.prems by (auto split: if_splits)
  have "(v * 100 + ?d) * ?P \<le> r \<and> r < (v * 100 + ?d + 1) * ?P"
    using Cons.IH [of "v * 100 + ?d"] Cons.prems by (auto split: if_splits simp: add.assoc)
  moreover have "v * 100 * ?P \<le> (v * 100 + ?d) * ?P" "(v * 100 + ?d + 1) * ?P \<le> (v + 1) * 100 * ?P"
    using d by (intro mult_right_mono; simp)+
  ultimately have "v * 100 * ?P \<le> r \<and> r < (v + 1) * 100 * ?P" by linarith
  then show ?case by (simp only: list.size power_add power_one_right mult.assoc mult.commute [of "100 :: int"] One_nat_def add_0_right plus_nat.simps power.simps add_Suc_right)
qed simp

lemma digits_determine:
  fixes v w hx lx hy ly :: int
  assumes eq: "(v - w) * 100 = (hy - hx) * 10 + ly - lx"
    and "hx \<le> 9" "lx \<le> 9" "hy \<le> 9" "ly \<le> 9" "0 \<le> hx" "0 \<le> lx" "0 \<le> hy" "0 \<le> ly"
  shows "v = w \<and> hy = hx \<and> ly = lx"
proof -
  define D where "D = v - w"
  define H where "H = hy - hx"
  define L where "L = ly - lx"
  have b: "D * 100 = H * 10 + L" "- 9 \<le> H" "H \<le> 9" "- 9 \<le> L" "L \<le> 9"
    using assms by (simp_all add: D_def H_def L_def)
  then have "D = 0" by presburger
  with b have "H = 0" by presburger
  with b \<open>D = 0\<close> have "L = 0" by simp
  with \<open>D = 0\<close> \<open>H = 0\<close> show ?thesis by (simp add: D_def H_def L_def)
qed

lemma decode_determines:
  "decode_bcd_from v xs = Inr r \<Longrightarrow> decode_bcd_from w ys = Inr r \<Longrightarrow> length xs = length ys \<Longrightarrow>
   v = w \<and> xs = ys"
proof (induction xs arbitrary: v w ys)
  case (Cons x xs)
  then obtain y ys' where ys: "ys = y # ys'" "length xs = length ys'" by (cases ys) auto
  have n: "high_nibble x \<le> 9" "low_nibble x \<le> 9" "high_nibble y \<le> 9" "low_nibble y \<le> 9"
    using Cons.prems unfolding ys by (auto split: if_splits)
  have "v * 100 + high_nibble x * 10 + low_nibble x = w * 100 + high_nibble y * 10 + low_nibble y \<and> xs = ys'"
    using Cons.prems n ys by (intro Cons.IH) (auto split: if_splits)
  then have eq: "(v - w) * 100 = (high_nibble y - high_nibble x) * 10 + low_nibble y - low_nibble x"
    and "xs = ys'" by (simp_all add: algebra_simps)
  have "v = w" "high_nibble y = high_nibble x" "low_nibble y = low_nibble x"
    using digits_determine [OF eq n nibble_bounds nibble_bounds] by simp_all
  with nibbles_determine [of x y] \<open>xs = ys'\<close> ys show ?case by simp
qed simp

lemma encodes: "0 \<le> v \<Longrightarrow> 0 < n \<Longrightarrow> v < 100 ^ nat n \<Longrightarrow> \<exists>raw. encode_packed_bcd v (Some n) = Inr raw"
proof -
  assume v: "0 \<le> v" and n: "0 < n" "v < 100 ^ nat n"
  have "int (nat v) < int (10 ^ (2 * nat n))" using v n(2) by (simp add: power_mult)
  then have "nat v < 10 ^ (2 * nat n)" by (simp only: of_nat_less_iff)
  then have "length (decimal_digits (nat v)) \<le> 2 * nat n"
    using n(1) by (intro length_decimal_digits) simp_all
  then have "int (length (encoded_digits (nat v))) \<le> n"
    using n(1) by (simp add: encoded_digits_props(3))
  then show ?thesis using v by (simp add: encode_eq)
qed

text \<open>
  Packed BCD is a codec in both directions: a value is encoded to a byte string of
  width \<open>n\<close> if and only if that string has length \<open>n\<close> and decodes to the value. So nothing is
  lost or invented on the way to the wire and back, and every field has one image.
\<close>

theorem encode_packed_bcd_iff:
  "encode_packed_bcd v (Some n) = Inr raw \<longleftrightarrow>
     int (length raw) = n \<and> decode_packed_bcd raw = Inr v"
proof
  assume "encode_packed_bcd v (Some n) = Inr raw"
  then show "int (length raw) = n \<and> decode_packed_bcd raw = Inr v"
    using encode_width encode_decodes by blast
next
  assume r: "int (length raw) = n \<and> decode_packed_bcd raw = Inr v"
  then have d: "raw \<noteq> []" "decode_bcd_from 0 raw = Inr v"
    by (auto simp: decode_packed_bcd_def split: if_splits)
  then obtain raw' where e: "encode_packed_bcd v (Some n) = Inr raw'"
    using r decode_bounds [OF d(2)] encodes [of v n] by auto
  then have "decode_bcd_from 0 raw' = Inr v" "length raw' = length raw"
    using encode_decodes [OF e] encode_width [OF e] r
    by (auto simp: decode_packed_bcd_def split: if_splits)
  then show "encode_packed_bcd v (Some n) = Inr raw"
    using decode_determines [OF _ d(2), of 0 raw'] e by simp
qed

text \<open>
  The encoder's errors are exactly the values that do not fit: negative values, widths
  below one byte, and values of more than two digits a byte; all raise \<open>BcdError\<close>.
\<close>

theorem encode_packed_bcd_error_iff:
  "encode_packed_bcd v (Some n) = Inl BcdError \<longleftrightarrow> v < 0 \<or> n \<le> 0 \<or> 100 ^ nat n \<le> v"
proof -
  have "(\<exists>raw. encode_packed_bcd v (Some n) = Inr raw) \<longleftrightarrow> 0 \<le> v \<and> 0 < n \<and> v < 100 ^ nat n"
  proof
    assume "\<exists>raw. encode_packed_bcd v (Some n) = Inr raw"
    then obtain raw where e: "encode_packed_bcd v (Some n) = Inr raw" ..
    have "decode_bcd_from 0 raw = Inr v"
      using encode_decodes [OF e] by (auto simp: decode_packed_bcd_def split: if_splits)
    from decode_bounds [OF this] encode_width [OF e]
    show "0 \<le> v \<and> 0 < n \<and> v < 100 ^ nat n" by auto
  qed (use encodes in blast)
  moreover have "encode_packed_bcd v (Some n) = Inl BcdError \<longleftrightarrow>
      \<not> (\<exists>raw. encode_packed_bcd v (Some n) = Inr raw)"
    by (auto simp: encode_eq)
  ultimately show ?thesis by (auto simp: not_less not_le)
qed

section \<open>Scaled fields\<close>

record decimal =
  dec_coefficient :: int
  dec_exponent :: int

record scaled_bcd =
  sb_raw :: bytes
  sb_scaled :: int
  sb_decimals :: "int option"
  sb_value :: "decimal option"

definition decode_scaled_bcd :: "bytes \<Rightarrow> int option \<Rightarrow> scaled_bcd result" where
  "decode_scaled_bcd raw decimals =
    bind_result (decode_packed_bcd raw) (\<lambda>scaled.
      case decimals of
        None \<Rightarrow> Inr \<lparr>sb_raw = raw, sb_scaled = scaled, sb_decimals = None, sb_value = None\<rparr>
      | Some d \<Rightarrow>
          if d < 0 then Inl BcdError
          else Inr \<lparr>sb_raw = raw, sb_scaled = scaled, sb_decimals = decimals,
                    sb_value = Some \<lparr>dec_coefficient = scaled, dec_exponent = - d\<rparr>\<rparr>)"

interpretation bcd_codec: codec "\<lambda>(v, n). encode_packed_bcd v (Some n)"
    "\<lambda>raw. bind_result (decode_packed_bcd raw) (\<lambda>v. Inr (v, int (length raw)))"
  by unfold_locales (use encode_decodes encode_width in fastforce)

lemma decode_scaled_bcd_None:
  "decode_scaled_bcd raw None = Inr r \<longleftrightarrow>
    (\<exists>v. decode_packed_bcd raw = Inr v \<and>
      r = \<lparr>sb_raw = raw, sb_scaled = v, sb_decimals = None, sb_value = None\<rparr>)"
  by (auto simp: decode_scaled_bcd_def bind_result_Inr_iff)

lemma decode_scaled_bcd_error: "decode_scaled_bcd raw d = Inl e \<Longrightarrow> e = BcdError"
proof -
  have "decode_bcd_from v bs = Inl e \<Longrightarrow> e = BcdError" for v bs
    by (induction bs arbitrary: v) (auto split: if_splits)
  then show "decode_scaled_bcd raw d = Inl e \<Longrightarrow> e = BcdError"
    by (auto simp: decode_scaled_bcd_def decode_packed_bcd_def bind_result_Inl_iff
        split: option.splits if_splits)
qed

end
