(* ===== verification/App_Transactions.thy ===== *)
theory App_Transactions
  imports App_Bcd
begin

text \<open>
  The application layer's data and framing: \<open>application/constants.py\<close>, \<open>status.py\<close>,
  \<open>models.py\<close>, \<open>registry.py\<close> and \<open>splitter.py\<close>, with the transaction encoders of
  \<open>simulator/encoding.py\<close>, which write what the decoders read. A DATA payload is a
  sequence of TRANS, LNG, DATA units; splitting loses no byte and inverts concatenation.
\<close>

section \<open>Constants\<close>

datatype message_direction = MASTER_TO_SLAVE | SLAVE_TO_MASTER | Direction_UNKNOWN

datatype decode_status = DECODED | PARTIAL | Status_UNKNOWN | MALFORMED

datatype transaction_type =
    CD1_COMMAND | CD2_ALLOWED_NOZZLES | CD3_PRESET_VOLUME | CD4_PRESET_AMOUNT
  | CD5_PRICE_UPDATE | CD14_SUSPEND | CD15_RESUME | CD101_REQUEST_TOTALS
  | DC1_PUMP_STATUS | DC2_FILLED_VOLUME_AMOUNT | DC3_NOZZLE_STATUS_PRICE | DC5_ALARM
  | DC7_PUMP_PARAMETERS | DC9_PUMP_IDENTITY | DC101_TOTAL_COUNTERS
  | DC102_IFSF_STANDALONE | DC103_PUMP_UNIT_PRICES
  | Transaction_UNKNOWN | AMBIGUOUS_CD1_OR_DC1

datatype pump_control_command =
    RETURN_STATUS | RETURN_PUMP_PARAMETERS | RETURN_PUMP_IDENTITY
  | RETURN_FILLING_INFORMATION | Command_RESET | Command_AUTHORIZE | Command_STOP
  | Command_SWITCH_OFF | SUSPEND_FUELLING_POINT | RESUME_FUELLING_POINT
  | RETURN_PRICES_OF_ALL_CURRENT_GRADES

fun dcc_of :: "pump_control_command \<Rightarrow> int" where
  "dcc_of RETURN_STATUS = 0x00"
| "dcc_of RETURN_PUMP_PARAMETERS = 0x02"
| "dcc_of RETURN_PUMP_IDENTITY = 0x03"
| "dcc_of RETURN_FILLING_INFORMATION = 0x04"
| "dcc_of Command_RESET = 0x05"
| "dcc_of Command_AUTHORIZE = 0x06"
| "dcc_of Command_STOP = 0x08"
| "dcc_of Command_SWITCH_OFF = 0x0A"
| "dcc_of SUSPEND_FUELLING_POINT = 0x0D"
| "dcc_of RESUME_FUELLING_POINT = 0x0E"
| "dcc_of RETURN_PRICES_OF_ALL_CURRENT_GRADES = 0x0F"

text \<open>\<open>PumpControlCommand(code)\<close>: the member with that value, or \<open>ValueError\<close>.\<close>

definition pump_control_command_of :: "int \<Rightarrow> pump_control_command result" where
  "pump_control_command_of code =
    (if code = 0x00 then Inr RETURN_STATUS
     else if code = 0x02 then Inr RETURN_PUMP_PARAMETERS
     else if code = 0x03 then Inr RETURN_PUMP_IDENTITY
     else if code = 0x04 then Inr RETURN_FILLING_INFORMATION
     else if code = 0x05 then Inr Command_RESET
     else if code = 0x06 then Inr Command_AUTHORIZE
     else if code = 0x08 then Inr Command_STOP
     else if code = 0x0A then Inr Command_SWITCH_OFF
     else if code = 0x0D then Inr SUSPEND_FUELLING_POINT
     else if code = 0x0E then Inr RESUME_FUELLING_POINT
     else if code = 0x0F then Inr RETURN_PRICES_OF_ALL_CURRENT_GRADES
     else Inl ValueError)"

definition HEADER_SIZE :: nat where "HEADER_SIZE = 2"

interpretation dcc_codec: codec "\<lambda>c. Inr (dcc_of c)" pump_control_command_of
proof
  show "Inr (dcc_of c) = Inr n \<Longrightarrow> pump_control_command_of n = Inr c" for c and n :: int
    by (cases c) (auto simp: pump_control_command_of_def)
qed

section \<open>Wayne status codes\<close>

datatype wayne_status =
    Wayne_PUMP_NOT_PROGRAMMED | Wayne_RESET | Wayne_AUTHORIZED | Wayne_FILLING
  | Wayne_FILLING_COMPLETED | Wayne_MAX_AMOUNT_VOLUME_REACHED | Wayne_SWITCHED_OFF
  | Wayne_SUSPENDED

fun wayne_code :: "wayne_status \<Rightarrow> int" where
  "wayne_code Wayne_PUMP_NOT_PROGRAMMED = 0"
| "wayne_code Wayne_RESET = 1"
| "wayne_code Wayne_AUTHORIZED = 2"
| "wayne_code Wayne_FILLING = 4"
| "wayne_code Wayne_FILLING_COMPLETED = 5"
| "wayne_code Wayne_MAX_AMOUNT_VOLUME_REACHED = 6"
| "wayne_code Wayne_SWITCHED_OFF = 7"
| "wayne_code Wayne_SUSPENDED = 8"

definition wayne_status_of :: "int \<Rightarrow> wayne_status option" where
  "wayne_status_of code =
    (if code = 0 then Some Wayne_PUMP_NOT_PROGRAMMED
     else if code = 1 then Some Wayne_RESET
     else if code = 2 then Some Wayne_AUTHORIZED
     else if code = 4 then Some Wayne_FILLING
     else if code = 5 then Some Wayne_FILLING_COMPLETED
     else if code = 6 then Some Wayne_MAX_AMOUNT_VOLUME_REACHED
     else if code = 7 then Some Wayne_SWITCHED_OFF
     else if code = 8 then Some Wayne_SUSPENDED
     else None)"

lemma wayne_status_of_code [simp]: "wayne_status_of (wayne_code w) = Some w"
  by (cases w) (simp_all add: wayne_status_of_def)

lemma wayne_status_of_iff: "wayne_status_of code = Some w \<longleftrightarrow> wayne_code w = code"
proof
  show "wayne_status_of code = Some w \<Longrightarrow> wayne_code w = code"
    by (auto simp: wayne_status_of_def split: if_splits)
qed auto

text \<open>Statuses are ordered by their wire code.\<close>

instantiation wayne_status :: linorder
begin

definition less_eq_wayne_status :: "wayne_status \<Rightarrow> wayne_status \<Rightarrow> bool" where
  "less_eq_wayne_status a b \<longleftrightarrow> wayne_code a \<le> wayne_code b"

definition less_wayne_status :: "wayne_status \<Rightarrow> wayne_status \<Rightarrow> bool" where
  "less_wayne_status a b \<longleftrightarrow> wayne_code a < wayne_code b"

instance
proof
  fix a b c :: wayne_status
  show "a < b \<longleftrightarrow> a \<le> b \<and> \<not> b \<le> a" "a \<le> a" "a \<le> b \<or> b \<le> a"
    "a \<le> b \<Longrightarrow> b \<le> c \<Longrightarrow> a \<le> c"
    unfolding less_eq_wayne_status_def less_wayne_status_def by linarith+
  assume "a \<le> b" "b \<le> a"
  then have "wayne_code a = wayne_code b"
    unfolding less_eq_wayne_status_def by linarith
  then have "wayne_status_of (wayne_code a) = wayne_status_of (wayne_code b)" by (rule arg_cong)
  then show "a = b" unfolding wayne_status_of_code by (rule option.inject [THEN iffD1])
qed

end

datatype status_description = Known_description string | Unknown_status int

definition STATUS_DESCRIPTIONS :: "int \<Rightarrow> string option" where
  "STATUS_DESCRIPTIONS =
    [0 \<mapsto> ''PUMP NOT PROGRAMMED'', 1 \<mapsto> ''RESET'', 2 \<mapsto> ''AUTHORIZED'', 4 \<mapsto> ''FILLING'',
     5 \<mapsto> ''FILLING COMPLETED'', 6 \<mapsto> ''MAX AMOUNT/VOLUME REACHED'', 7 \<mapsto> ''SWITCHED OFF'',
     8 \<mapsto> ''SUSPENDED'']"

record wayne_status_info =
  wi_raw_code :: int
  wi_known :: bool
  wi_name :: "wayne_status option"
  wi_description :: status_description

definition describe_wayne_status :: "int \<Rightarrow> wayne_status_info" where
  "describe_wayne_status code =
    (case STATUS_DESCRIPTIONS code of
       Some text \<Rightarrow> \<lparr>wi_raw_code = code, wi_known = True, wi_name = wayne_status_of code,
                     wi_description = Known_description text\<rparr>
     | None \<Rightarrow> \<lparr>wi_raw_code = code, wi_known = False, wi_name = None,
                wi_description = Unknown_status code\<rparr>)"

lemma describe_wayne_status_name: "wi_name (describe_wayne_status code) = wayne_status_of code"
  by (simp add: describe_wayne_status_def STATUS_DESCRIPTIONS_def wayne_status_of_def)

section \<open>Splitting a payload\<close>

record raw_transaction =
  rt_id :: int
  rt_length :: nat
  rt_data :: bytes
  rt_raw :: bytes
  rt_offset :: nat

datatype split_warning =
    Truncated_header nat nat
  | Truncated_data nat int nat nat

record split_result =
  sr_transactions :: "raw_transaction list"
  sr_trailing :: bytes
  sr_warnings :: "split_warning list"

text \<open>The loop at offset \<open>index\<close>, where \<open>rest\<close> is \<open>payload[index:]\<close>.\<close>

fun split_from :: "nat \<Rightarrow> bytes \<Rightarrow> split_result" where
  "split_from index [] = \<lparr>sr_transactions = [], sr_trailing = [], sr_warnings = []\<rparr>"
| "split_from index [b] =
    \<lparr>sr_transactions = [], sr_trailing = [b], sr_warnings = [Truncated_header index 1]\<rparr>"
| "split_from index (tid # lng # rest) =
    (let data_len = unat lng; total = HEADER_SIZE + data_len in
     if total > length (tid # lng # rest) then
       \<lparr>sr_transactions = [], sr_trailing = tid # lng # rest,
        sr_warnings = [Truncated_data index (uint tid) data_len (length rest)]\<rparr>
     else
       let tx = \<lparr>rt_id = uint tid, rt_length = data_len, rt_data = slice 0 data_len rest,
                 rt_raw = slice 0 total (tid # lng # rest), rt_offset = index\<rparr>;
           r = split_from (index + total) (drop data_len rest)
       in r\<lparr>sr_transactions := tx # sr_transactions r\<rparr>)"

definition split_transactions :: "bytes \<Rightarrow> split_result" where
  "split_transactions payload = split_from 0 payload"

text \<open>What the splitter promises of each unit: its pieces agree with each other.\<close>

definition well_formed_transaction :: "raw_transaction \<Rightarrow> bool" where
  "well_formed_transaction t \<longleftrightarrow>
     0 \<le> rt_id t \<and> rt_id t \<le> 255 \<and> rt_length t = length (rt_data t) \<and> rt_length t \<le> 255 \<and>
     rt_raw t = [word_of_int (rt_id t), of_nat (rt_length t)] @ rt_data t"

lemma unat_byte_le: "unat (b :: byte) \<le> 255"
  using unsigned_less [of b, where 'a = nat] by simp

lemma split_from_lossless:
  "concat (map rt_raw (sr_transactions (split_from i payload))) @ sr_trailing (split_from i payload) = payload"
  by (induction i payload rule: split_from.induct) (simp_all add: Let_def HEADER_SIZE_def slice_def)

lemma well_formed_unit:
  "unat lng \<le> length rest \<Longrightarrow> well_formed_transaction
     \<lparr>rt_id = uint tid, rt_length = unat lng, rt_data = slice 0 (unat lng) rest,
      rt_raw = slice 0 (HEADER_SIZE + unat lng) (tid # lng # rest), rt_offset = i\<rparr>"
  using unat_byte_le [of lng] int_of_byte_range [of tid]
  by (simp add: well_formed_transaction_def HEADER_SIZE_def slice_def)

lemma split_from_well_formed:
  "list_all well_formed_transaction (sr_transactions (split_from i payload))"
proof (induction i payload rule: split_from.induct)
  case (3 i tid lng rest)
  show ?case
  proof (cases "unat lng \<le> length rest")
    case True
    with 3 show ?thesis by (simp add: Let_def HEADER_SIZE_def well_formed_unit [simplified HEADER_SIZE_def, simplified])
  qed (simp add: Let_def HEADER_SIZE_def)
qed simp_all

text \<open>
  Splitting is lossless and sound: the raw units followed by the trailing bytes are the
  payload again, every unit's length byte, data and raw image agree, and bytes are left over
  only with a warning that names them.
\<close>

theorem split_transactions_lossless:
  "concat (map rt_raw (sr_transactions (split_transactions p))) @ sr_trailing (split_transactions p) = p \<and>
   list_all well_formed_transaction (sr_transactions (split_transactions p)) \<and>
   (sr_warnings (split_transactions p) = [] \<longleftrightarrow> sr_trailing (split_transactions p) = [])"
proof -
  have "sr_warnings (split_from i q) = [] \<longleftrightarrow> sr_trailing (split_from i q) = []" for i q
    by (induction i q rule: split_from.induct) (simp_all add: Let_def)
  then show ?thesis
    using split_from_lossless split_from_well_formed
    by (simp add: split_transactions_def)
qed

section \<open>Encoding a transaction\<close>

definition bytes_of_int :: "int \<Rightarrow> bytes result" where
  "bytes_of_int n = (if 0 \<le> n \<and> n \<le> 255 then Inr [word_of_int n] else Inl ValueError)"

definition encode_tx :: "int \<Rightarrow> bytes \<Rightarrow> bytes result" where
  "encode_tx tid data =
    (if length data > 255 then Inl ValueError
     else bind_result (bytes_of_int tid) (\<lambda>t.
       bind_result (bytes_of_int (int (length data))) (\<lambda>l. Inr (t @ l @ data))))"

definition encode_cd1_command :: "int \<Rightarrow> bytes result" where
  "encode_cd1_command code = bind_result (bytes_of_int code) (encode_tx 0x01)"

definition encode_dc1_status :: "int \<Rightarrow> bytes result" where
  "encode_dc1_status status = encode_tx 0x01 [word_of_int (status AND 0xFF)]"

definition encode_dc2_volume_amount :: "int \<Rightarrow> int \<Rightarrow> bytes result" where
  "encode_dc2_volume_amount volume_raw amount_raw =
    bind_result (encode_packed_bcd volume_raw (Some 4)) (\<lambda>v.
    bind_result (encode_packed_bcd amount_raw (Some 4)) (\<lambda>a.
    encode_tx 0x02 (v @ a)))"

definition encode_dc3_nozzle_price :: "int \<Rightarrow> int \<Rightarrow> bool \<Rightarrow> bytes result" where
  "encode_dc3_nozzle_price price_raw logical_nozzle nozzle_out =
    (let nozio = (logical_nozzle AND 0x0F) OR (if nozzle_out then 0x10 else 0x00) in
     bind_result (encode_packed_bcd price_raw (Some 3)) (\<lambda>p.
     bind_result (bytes_of_int nozio) (\<lambda>n. encode_tx 0x03 (p @ n))))"

definition encode_cd3_preset_volume :: "int \<Rightarrow> bytes result" where
  "encode_cd3_preset_volume volume_raw =
    bind_result (encode_packed_bcd volume_raw (Some 4)) (encode_tx 0x03)"

definition encode_cd4_preset_amount :: "int \<Rightarrow> bytes result" where
  "encode_cd4_preset_amount amount_raw =
    bind_result (encode_packed_bcd amount_raw (Some 4)) (encode_tx 0x04)"

definition encode_cd5_price_update :: "int \<Rightarrow> int \<Rightarrow> bytes result" where
  "encode_cd5_price_update logical_nozzle price_raw =
    bind_result (encode_packed_bcd price_raw (Some 3)) (encode_tx 0x05)"

definition encode_dc5_alarm :: "int \<Rightarrow> bytes result" where
  "encode_dc5_alarm alarm_code = encode_tx 0x05 [word_of_int (alarm_code AND 0xFF)]"

definition encode_cd101_request_totals :: "int \<Rightarrow> bytes result" where
  "encode_cd101_request_totals counter_select =
    encode_tx 0x65 [word_of_int (counter_select AND 0xFF)]"

definition encode_dc101_totals :: "int \<Rightarrow> int \<Rightarrow> int \<Rightarrow> int \<Rightarrow> bytes result" where
  "encode_dc101_totals counter_select total_value_raw total_meter1_raw total_meter2_raw =
    bind_result (encode_packed_bcd total_value_raw (Some 5)) (\<lambda>t.
    bind_result (encode_packed_bcd total_meter1_raw (Some 5)) (\<lambda>m1.
    bind_result (encode_packed_bcd total_meter2_raw (Some 5)) (\<lambda>m2.
    encode_tx 0x65 ([word_of_int (counter_select AND 0xFF)] @ t @ m1 @ m2))))"

definition encode_dc9_identity :: "bytes \<Rightarrow> bytes result" where
  "encode_dc9_identity identity =
    (let d = slice 0 16 identity in encode_tx 0x09 (d @ replicate (8 - length d) 0))"

text \<open>The unit that \<open>encode_tx\<close> writes, as the splitter reports it at an offset.\<close>

definition unit_at :: "nat \<Rightarrow> int \<Rightarrow> bytes \<Rightarrow> raw_transaction" where
  "unit_at i t data = \<lparr>rt_id = t, rt_length = length data, rt_data = data,
     rt_raw = [word_of_int t, of_nat (length data)] @ data, rt_offset = i\<rparr>"

lemma encode_tx_Inr:
  "encode_tx t data = Inr raw \<longleftrightarrow>
    length data \<le> 255 \<and> 0 \<le> t \<and> t \<le> 255 \<and> raw = [word_of_int t, of_nat (length data)] @ data"
  by (auto simp: encode_tx_def bytes_of_int_def bind_result_Inr_iff split: if_splits)

lemma unat_length_byte: "n \<le> 255 \<Longrightarrow> unat (of_nat n :: byte) = n"
  by (simp add: unat_of_nat)

lemma split_encoded:
  assumes "encode_tx t data = Inr raw"
  shows "split_from i (raw @ rest) =
    (let r = split_from (i + length raw) rest in r\<lparr>sr_transactions := unit_at i t data # sr_transactions r\<rparr>)"
  using assms
  by (auto simp: encode_tx_Inr HEADER_SIZE_def unat_length_byte slice_def unit_at_def
      int_of_byte_of_int Let_def simp del: int_of_byte_range)

fun encode_units :: "(int \<times> bytes) list \<Rightarrow> bytes result" where
  "encode_units [] = Inr []"
| "encode_units ((t, d) # us) =
    bind_result (encode_tx t d) (\<lambda>raw. bind_result (encode_units us) (\<lambda>rest. Inr (raw @ rest)))"

lemma split_units:
  "encode_units us = Inr p \<Longrightarrow>
    map (\<lambda>r. (rt_id r, rt_data r)) (sr_transactions (split_from i p)) = us \<and>
    sr_trailing (split_from i p) = [] \<and> sr_warnings (split_from i p) = []"
proof (induction us arbitrary: i p)
  case (Cons u us)
  obtain t d where u: "u = (t, d)" by (cases u)
  from Cons.prems obtain raw rest where
    e: "encode_tx t d = Inr raw" "encode_units us = Inr rest" "p = raw @ rest"
    unfolding u by (auto simp: bind_result_Inr_iff)
  from Cons.IH [OF e(2)] show ?case
    unfolding u e(3) split_encoded [OF e(1)] by (simp add: Let_def unit_at_def)
qed simp

text \<open>
  Encoding a sequence of transactions into one payload and splitting it gives back
  exactly those transactions, in order, with no trailing bytes and no warning.
\<close>

theorem split_inverts_encoding:
  assumes "encode_units us = Inr p"
  shows "map (\<lambda>r. (rt_id r, rt_data r)) (sr_transactions (split_transactions p)) = us \<and>
    sr_trailing (split_transactions p) = [] \<and> sr_warnings (split_transactions p) = []"
  unfolding split_transactions_def using assms by (rule split_units)

theorem split_inverts_encoding_witness:
  "map (\<lambda>r. (rt_id r, rt_data r)) (sr_transactions (split_transactions [1, 1, 4, 5, 1, 9])) =
     [(1, [4]), (5, [9])] \<and>
   sr_trailing (split_transactions [1, 1, 4, 5, 1, 9]) = [] \<and>
   sr_warnings (split_transactions [1, 1, 4, 5, 1, 9]) = []"
  by (rule split_inverts_encoding) (simp add: encode_tx_def bytes_of_int_def)

end
