(* ===== verification/Pump_Domain.thy ===== *)
theory Pump_Domain
  imports App_Transactions "HOL-Library.Option_ord"
begin

text \<open>
  \<open>domain/pump_state.py\<close>, \<open>pump_event.py\<close>, \<open>pump_command.py\<close>, \<open>state_machine/models.py\<close>,
  \<open>errors.py\<close> and \<open>transitions.py\<close>: the normalized pump states and events, the pump context
  and the transition table. A \<open>datetime\<close> is an \<open>int\<close> (its instant), always truthy.
\<close>

section \<open>States, events and commands\<close>

datatype pump_state =
    DISCONNECTED | DISCOVERING | NOT_PROGRAMMED | RESET | READY | NOZZLE_UP | AUTHORIZED
  | FILLING | FILLING_COMPLETE | SUSPENDED | LIMIT_REACHED | FAULTED | MAINTENANCE

datatype pump_event =
    COMMUNICATION_STARTED | COMMUNICATION_LOST | PUMP_DISCOVERED | CONFIGURATION_MISSING
  | RESET_OBSERVED | READY_OBSERVED | NOZZLE_LIFTED | NOZZLE_RETURNED | AUTHORIZATION_CONFIRMED
  | FILLING_STARTED | FILLING_UPDATED | FILLING_COMPLETED | Limit_reached_event
  | SUSPENDED_OBSERVED | RESUMED_OBSERVED | FAULT_OBSERVED | FAULT_CLEARED
  | MAINTENANCE_ENTERED | MAINTENANCE_EXITED | UNKNOWN_OBSERVATION

datatype pump_command =
    READ_STATUS | READ_TOTALS | SET_PRICE | Cmd_RESET | AUTHORIZE | STOP | SUSPEND | RESUME
  | PRESET_AMOUNT | PRESET_VOLUME

instantiation pump_state :: enum
begin

definition enum_pump_state :: "pump_state list" where
  "enum_pump_state = [DISCONNECTED, DISCOVERING, NOT_PROGRAMMED, RESET, READY, NOZZLE_UP, AUTHORIZED,
     FILLING, FILLING_COMPLETE, SUSPENDED, LIMIT_REACHED, FAULTED, MAINTENANCE]"

definition enum_all_pump_state :: "(pump_state \<Rightarrow> bool) \<Rightarrow> bool" where
  "enum_all_pump_state P = list_all P (enum_class.enum :: pump_state list)"

definition enum_ex_pump_state :: "(pump_state \<Rightarrow> bool) \<Rightarrow> bool" where
  "enum_ex_pump_state P = list_ex P (enum_class.enum :: pump_state list)"

instance
proof
  show univ: "UNIV = set (enum_class.enum :: pump_state list)"
    unfolding enum_pump_state_def by (auto intro: pump_state.exhaust)
  show "distinct (enum_class.enum :: pump_state list)" by (simp add: enum_pump_state_def)
  fix P :: "pump_state \<Rightarrow> bool"
  show "enum_class.enum_all P = Ball UNIV P"
    by (simp only: enum_all_pump_state_def univ list_all_iff)
  show "enum_class.enum_ex P = Bex UNIV P"
    by (simp only: enum_ex_pump_state_def univ list_ex_iff)
qed

end

definition OPERATIONAL_STATES :: "pump_state list" where
  "OPERATIONAL_STATES = [DISCOVERING, NOT_PROGRAMMED, RESET, READY, NOZZLE_UP, AUTHORIZED,
     FILLING, FILLING_COMPLETE, SUSPENDED, LIMIT_REACHED, FAULTED, MAINTENANCE]"

definition NON_IDEMPOTENT_COMMANDS :: "pump_command set" where
  "NON_IDEMPOTENT_COMMANDS = {AUTHORIZE, STOP, SUSPEND, RESUME, Cmd_RESET, SET_PRICE, PRESET_AMOUNT,
     PRESET_VOLUME}"

datatype transition_severity = Sev_INFO | Sev_WARNING | Sev_ERROR | Sev_CRITICAL

section \<open>Context and results\<close>

datatype pump_warning =
    Stale_observation_ignored pump_event int int
  | Identical_source_frame
  | Duplicate_completion_ignored string
  | Unknown_observation_preserved
  | Implicit_authorization_rejected
  | Invalid_transition_warning pump_state pump_event
  | Live_state_preferred
  | Never_automatically_authorize
  | Discarded_non_idempotent pump_command
  | Discarded_pending pump_command
  | Pending_authorize_discarded
  | Preserving_unresolved_transaction
  | No_communication_after_restart
  | Live_state_unknown
  | Recovered_into_filling
  | Recovered_into_filling_complete
  | Persisted_filling_live_wins pump_state
  | Recovering_to_authorized_from_live
  | Restart_during_filling
  | Restart_during_idle

record observation_ref =
  or_source_hex :: "string option"
  or_transaction_id :: "int option"
  or_transaction_type :: "transaction_type option"
  or_raw_status :: "int option"

record pump_context =
  pc_pump_id :: string
  pc_dart_address :: int
  pc_current_state :: pump_state
  pc_previous_state :: "pump_state option"
  pc_selected_nozzle :: "int option"
  pc_active_transaction :: "string option"
  pc_last_observation_at :: "int option"
  pc_last_transition_at :: "int option"
  pc_last_raw_status :: "int option"
  pc_communication_healthy :: bool
  pc_price_verified :: bool
  pc_fault_code :: "int option"
  pc_warnings :: "pump_warning list"
  pc_state_version :: nat
  pc_completed_keys :: "string set"
  pc_last_source_hex :: "string option"

definition new_context :: "string \<Rightarrow> int \<Rightarrow> pump_context" where
  "new_context pump_id address =
    \<lparr>pc_pump_id = pump_id, pc_dart_address = address, pc_current_state = DISCONNECTED,
     pc_previous_state = None, pc_selected_nozzle = None, pc_active_transaction = None,
     pc_last_observation_at = None, pc_last_transition_at = None, pc_last_raw_status = None,
     pc_communication_healthy = False, pc_price_verified = False, pc_fault_code = None,
     pc_warnings = [], pc_state_version = 0, pc_completed_keys = {}, pc_last_source_hex = None\<rparr>"

datatype transition_reason =
    Stale_observation | Duplicate_source_frame | Duplicate_completion_evidence
  | Unknown_preserved | Implicit_authorize_not_supported | Same_state_noop
  | Invalid_transition | Transition_applied

record transition_result =
  tr_accepted :: bool
  tr_context :: pump_context
  tr_current_state :: pump_state
  tr_previous_state :: "pump_state option"
  tr_attempted_event :: pump_event
  tr_reason :: transition_reason
  tr_severity :: transition_severity
  tr_noop :: bool
  tr_observation :: "observation_ref option"
  tr_warnings :: "pump_warning list"

section \<open>The transition table\<close>

definition BASE_TRANSITIONS :: "((pump_state \<times> pump_event) \<times> pump_state) list" where
  "BASE_TRANSITIONS =
    [((DISCONNECTED, COMMUNICATION_STARTED), DISCOVERING),
     ((DISCOVERING, CONFIGURATION_MISSING), NOT_PROGRAMMED),
     ((DISCOVERING, RESET_OBSERVED), RESET),
     ((DISCOVERING, READY_OBSERVED), READY),
     ((NOT_PROGRAMMED, RESET_OBSERVED), RESET),
     ((NOT_PROGRAMMED, READY_OBSERVED), READY),
     ((RESET, READY_OBSERVED), READY),
     ((RESET, CONFIGURATION_MISSING), NOT_PROGRAMMED),
     ((READY, NOZZLE_LIFTED), NOZZLE_UP),
     ((READY, RESET_OBSERVED), RESET),
     ((NOZZLE_UP, AUTHORIZATION_CONFIRMED), AUTHORIZED),
     ((NOZZLE_UP, NOZZLE_RETURNED), READY),
     ((NOZZLE_UP, FILLING_STARTED), FILLING),
     ((AUTHORIZED, FILLING_STARTED), FILLING),
     ((AUTHORIZED, NOZZLE_RETURNED), READY),
     ((FILLING, FILLING_UPDATED), FILLING),
     ((FILLING, FILLING_COMPLETED), FILLING_COMPLETE),
     ((FILLING, SUSPENDED_OBSERVED), SUSPENDED),
     ((FILLING, Limit_reached_event), LIMIT_REACHED),
     ((SUSPENDED, RESUMED_OBSERVED), FILLING),
     ((SUSPENDED, FILLING_COMPLETED), FILLING_COMPLETE),
     ((SUSPENDED, Limit_reached_event), LIMIT_REACHED),
     ((LIMIT_REACHED, FILLING_COMPLETED), FILLING_COMPLETE),
     ((LIMIT_REACHED, RESET_OBSERVED), RESET),
     ((FILLING_COMPLETE, RESET_OBSERVED), RESET),
     ((FAULTED, FAULT_CLEARED), DISCOVERING),
     ((MAINTENANCE, MAINTENANCE_EXITED), DISCOVERING)]"

text \<open>The assignments that follow the literal, in the order of the module.\<close>

definition TRANSITIONS :: "((pump_state \<times> pump_event) \<times> pump_state) list" where
  "TRANSITIONS = BASE_TRANSITIONS
    @ [((DISCOVERING, PUMP_DISCOVERED), RESET)]
    @ map (\<lambda>s. ((s, COMMUNICATION_LOST), DISCONNECTED)) (enum_class.enum :: pump_state list)
    @ map (\<lambda>s. ((s, FAULT_OBSERVED), FAULTED)) OPERATIONAL_STATES
    @ map (\<lambda>s. ((s, MAINTENANCE_ENTERED), MAINTENANCE))
        (filter (\<lambda>s. s \<noteq> MAINTENANCE) (enum_class.enum :: pump_state list))"

definition lookup_transition :: "pump_state \<Rightarrow> pump_event \<Rightarrow> pump_state option" where
  "lookup_transition s e = map_of (rev TRANSITIONS) (s, e)"

definition SAME_STATE_NOOP_EVENTS :: "(pump_state \<times> pump_event) list" where
  "SAME_STATE_NOOP_EVENTS =
    [(READY, READY_OBSERVED), (RESET, RESET_OBSERVED), (FILLING, FILLING_UPDATED),
     (FILLING, FILLING_STARTED), (AUTHORIZED, AUTHORIZATION_CONFIRMED),
     (NOZZLE_UP, NOZZLE_LIFTED), (FILLING_COMPLETE, FILLING_COMPLETED),
     (SUSPENDED, SUSPENDED_OBSERVED), (LIMIT_REACHED, Limit_reached_event),
     (FAULTED, FAULT_OBSERVED), (DISCONNECTED, COMMUNICATION_LOST),
     (DISCOVERING, COMMUNICATION_STARTED), (MAINTENANCE, MAINTENANCE_ENTERED),
     (NOT_PROGRAMMED, CONFIGURATION_MISSING)]"

definition is_same_state_noop :: "pump_state \<Rightarrow> pump_event \<Rightarrow> bool" where
  "is_same_state_noop s e \<longleftrightarrow> (s, e) \<in> set SAME_STATE_NOOP_EVENTS"

text \<open>The table as facts: its complete list of entries, and which states an event can enter.\<close>

lemma lookup_iff_listed: "lookup_transition s e = Some t \<longleftrightarrow> ((s, e), t) \<in> set TRANSITIONS"
proof -
  have "distinct (map fst TRANSITIONS)"
    by (simp add: TRANSITIONS_def BASE_TRANSITIONS_def OPERATIONAL_STATES_def enum_pump_state_def)
  then have "distinct (map fst (rev TRANSITIONS))"
    by (simp only: rev_map [symmetric] distinct_rev)
  from map_of_eq_Some_iff [OF this] show ?thesis
    by (simp add: lookup_transition_def)
qed

lemma enter_DISCONNECTED: "lookup_transition s e = Some DISCONNECTED \<Longrightarrow> e = COMMUNICATION_LOST"
  by (auto simp: lookup_iff_listed TRANSITIONS_def BASE_TRANSITIONS_def OPERATIONAL_STATES_def)

lemma enter_AUTHORIZED:
  "lookup_transition s e = Some AUTHORIZED \<Longrightarrow> s = NOZZLE_UP \<and> e = AUTHORIZATION_CONFIRMED"
  by (auto simp: lookup_iff_listed TRANSITIONS_def BASE_TRANSITIONS_def OPERATIONAL_STATES_def)

lemma enter_FILLING:
  "lookup_transition s e = Some FILLING \<Longrightarrow>
    s = NOZZLE_UP \<and> e = FILLING_STARTED \<or> s = AUTHORIZED \<and> e = FILLING_STARTED \<or>
    s = FILLING \<and> e = FILLING_UPDATED \<or> s = SUSPENDED \<and> e = RESUMED_OBSERVED"
  by (auto simp: lookup_iff_listed TRANSITIONS_def BASE_TRANSITIONS_def OPERATIONAL_STATES_def)

lemma enter_FILLING_COMPLETE:
  "lookup_transition s e = Some FILLING_COMPLETE \<Longrightarrow>
    e = FILLING_COMPLETED \<and> s \<in> {FILLING, SUSPENDED, LIMIT_REACHED}"
  by (auto simp: lookup_iff_listed TRANSITIONS_def BASE_TRANSITIONS_def OPERATIONAL_STATES_def)

lemma enter_SUSPENDED:
  "lookup_transition s e = Some SUSPENDED \<Longrightarrow> s = FILLING \<and> e = SUSPENDED_OBSERVED"
  by (auto simp: lookup_iff_listed TRANSITIONS_def BASE_TRANSITIONS_def OPERATIONAL_STATES_def)

lemma enter_LIMIT_REACHED:
  "lookup_transition s e = Some LIMIT_REACHED \<Longrightarrow> s \<in> {FILLING, SUSPENDED}"
  by (auto simp: lookup_iff_listed TRANSITIONS_def BASE_TRANSITIONS_def OPERATIONAL_STATES_def)

lemma communication_started_target:
  "lookup_transition s COMMUNICATION_STARTED = Some t \<Longrightarrow> t = DISCOVERING"
  by (auto simp: lookup_iff_listed TRANSITIONS_def BASE_TRANSITIONS_def OPERATIONAL_STATES_def)

lemmas table_facts = enter_DISCONNECTED enter_AUTHORIZED enter_FILLING enter_FILLING_COMPLETE
  enter_SUSPENDED enter_LIMIT_REACHED communication_started_target

lemma lookup_loss: "lookup_transition s COMMUNICATION_LOST = Some DISCONNECTED"
  by (cases s) (simp_all add: lookup_iff_listed TRANSITIONS_def enum_pump_state_def)

text \<open>
  Safe reaction from anywhere: losing communication leads every state to DISCONNECTED, and a
  fault or entering maintenance is accepted in every state but DISCONNECTED and MAINTENANCE
  itself, so that no state traps the pump outside these paths.
\<close>

theorem escape_paths:
  "lookup_transition s COMMUNICATION_LOST = Some DISCONNECTED \<and>
   (lookup_transition s FAULT_OBSERVED = (if s = DISCONNECTED then None else Some FAULTED)) \<and>
   (lookup_transition s MAINTENANCE_ENTERED = (if s = MAINTENANCE then None else Some MAINTENANCE)) \<and>
   (is_same_state_noop s MAINTENANCE_ENTERED \<longleftrightarrow> s = MAINTENANCE)"
proof -
  have "lookup_transition DISCONNECTED FAULT_OBSERVED = None"
    "lookup_transition MAINTENANCE MAINTENANCE_ENTERED = None"
    by (simp_all add: lookup_transition_def TRANSITIONS_def BASE_TRANSITIONS_def OPERATIONAL_STATES_def
        enum_pump_state_def)
  moreover have "s \<noteq> DISCONNECTED \<Longrightarrow> lookup_transition s FAULT_OBSERVED = Some FAULTED"
    "s \<noteq> MAINTENANCE \<Longrightarrow> lookup_transition s MAINTENANCE_ENTERED = Some MAINTENANCE"
    by (cases s; simp add: lookup_iff_listed TRANSITIONS_def OPERATIONAL_STATES_def enum_pump_state_def)+
  ultimately show ?thesis
    using lookup_loss [of s] by (auto simp: is_same_state_noop_def SAME_STATE_NOOP_EVENTS_def)
qed

end
