(* ===== verification/Pump_Machine.thy ===== *)
theory Pump_Machine
  imports Pump_Domain
begin

text \<open>
  \<open>state_machine/machine.py\<close>: \<open>PumpStateMachine.apply\<close> as a function from a context, an
  event and the keyword arguments to a transition result whose context is the new one.
  The tests come in the source's order: staleness, replay of a frame, duplicate completion,
  unknown observation, implicit authorization, same-state repetition, table lookup.
\<close>

record apply_args =
  ap_observation :: "observation_ref option"
  ap_observed_at :: "int option"
  ap_selected_nozzle :: "int option"
  ap_active_transaction :: "string option"
  ap_raw_status :: "int option"
  ap_price_verified :: "bool option"
  ap_fault_code :: "int option"
  ap_completion_key :: "string option"
  ap_allow_implicit :: bool

definition no_args :: apply_args where
  "no_args = \<lparr>ap_observation = None, ap_observed_at = None, ap_selected_nozzle = None,
     ap_active_transaction = None, ap_raw_status = None, ap_price_verified = None,
     ap_fault_code = None, ap_completion_key = None, ap_allow_implicit = False\<rparr>"

definition source_hex :: "apply_args \<Rightarrow> string option" where
  "source_hex args = (case ap_observation args of None \<Rightarrow> None | Some ob \<Rightarrow> or_source_hex ob)"

text \<open>\<open>observation.source_frame_raw_hex if observation and observation.source_frame_raw_hex else old\<close>.\<close>

definition next_source_hex :: "pump_context \<Rightarrow> apply_args \<Rightarrow> string option" where
  "next_source_hex ctx args =
    (if truthy_string (source_hex args) then source_hex args else pc_last_source_hex ctx)"

definition is_stale :: "pump_context \<Rightarrow> apply_args \<Rightarrow> bool" where
  "is_stale ctx args \<longleftrightarrow>
     (case (ap_observed_at args, pc_last_observation_at ctx) of
        (Some t, Some seen) \<Rightarrow> t < seen | _ \<Rightarrow> False)"

definition is_replay :: "pump_context \<Rightarrow> apply_args \<Rightarrow> bool" where
  "is_replay ctx args \<longleftrightarrow> source_hex args \<noteq> None \<and> source_hex args = pc_last_source_hex ctx"

definition is_duplicate_completion :: "pump_context \<Rightarrow> pump_event \<Rightarrow> apply_args \<Rightarrow> bool" where
  "is_duplicate_completion ctx ev args \<longleftrightarrow>
     ev = FILLING_COMPLETED \<and>
     (case ap_completion_key args of None \<Rightarrow> False | Some k \<Rightarrow> k \<in> pc_completed_keys ctx)"

text \<open>The parameter differs from \<open>None\<close> and from the stored value.\<close>

definition differs :: "'a option \<Rightarrow> 'a option \<Rightarrow> bool" where
  "differs new old \<longleftrightarrow> new \<noteq> None \<and> new \<noteq> old"

definition apply_context_fields ::
  "pump_context \<Rightarrow> apply_args \<Rightarrow> string option \<Rightarrow> bool \<Rightarrow> pump_context" where
  "apply_context_fields ctx args completion_key bump =
    (let nozzle = differs (ap_selected_nozzle args) (pc_selected_nozzle ctx);
         txn = differs (ap_active_transaction args) (pc_active_transaction ctx);
         raw = differs (ap_raw_status args) (pc_last_raw_status ctx);
         price = differs (ap_price_verified args) (Some (pc_price_verified ctx));
         fault = differs (ap_fault_code args) (pc_fault_code ctx);
         meaningful = (nozzle \<or> txn \<or> raw \<or> price \<or> fault \<or> completion_key \<noteq> None)
     in ctx\<lparr>pc_last_observation_at := or_else (ap_observed_at args) (pc_last_observation_at ctx),
            pc_selected_nozzle := (if nozzle then ap_selected_nozzle args else pc_selected_nozzle ctx),
            pc_active_transaction := (if txn then ap_active_transaction args else pc_active_transaction ctx),
            pc_last_raw_status := (if raw then ap_raw_status args else pc_last_raw_status ctx),
            pc_price_verified := (if price then ap_price_verified args = Some True else pc_price_verified ctx),
            pc_fault_code := (if fault then ap_fault_code args else pc_fault_code ctx),
            pc_last_source_hex := next_source_hex ctx args,
            pc_completed_keys := (case completion_key of None \<Rightarrow> pc_completed_keys ctx
                                  | Some k \<Rightarrow> insert k (pc_completed_keys ctx)),
            pc_state_version := (if bump \<and> meaningful then pc_state_version ctx + 1
                                 else pc_state_version ctx)\<rparr>)"

definition transition_context ::
  "pump_context \<Rightarrow> pump_event \<Rightarrow> apply_args \<Rightarrow> pump_state \<Rightarrow> pump_context" where
  "transition_context ctx ev args target =
    (let completed = (case ap_completion_key args of
             Some k \<Rightarrow> if ev = FILLING_COMPLETED then insert k (pc_completed_keys ctx) else pc_completed_keys ctx
           | None \<Rightarrow> pc_completed_keys ctx);
         healthy = (if ev = COMMUNICATION_STARTED then True
                    else if ev = COMMUNICATION_LOST then False else pc_communication_healthy ctx);
         new_fault = (if ev = FAULT_CLEARED then None else or_else (ap_fault_code args) (pc_fault_code ctx));
         new_fault = (if ev = FAULT_OBSERVED \<and> ap_fault_code args \<noteq> None then ap_fault_code args else new_fault);
         new_ctx = ctx\<lparr>pc_previous_state := Some (pc_current_state ctx),
           pc_current_state := target,
           pc_state_version := pc_state_version ctx + 1,
           pc_last_transition_at := or_else (ap_observed_at args) (pc_last_transition_at ctx),
           pc_last_observation_at := or_else (ap_observed_at args) (pc_last_observation_at ctx),
           pc_communication_healthy := healthy,
           pc_selected_nozzle := or_else (ap_selected_nozzle args) (pc_selected_nozzle ctx),
           pc_active_transaction := or_else (ap_active_transaction args) (pc_active_transaction ctx),
           pc_last_raw_status := or_else (ap_raw_status args) (pc_last_raw_status ctx),
           pc_price_verified := (case ap_price_verified args of None \<Rightarrow> pc_price_verified ctx | Some p \<Rightarrow> p),
           pc_fault_code := new_fault,
           pc_completed_keys := completed,
           pc_last_source_hex := next_source_hex ctx args\<rparr>
     in if target \<in> {RESET, READY, DISCONNECTED, DISCOVERING} \<and>
           ev \<in> {RESET_OBSERVED, COMMUNICATION_LOST, FAULT_CLEARED, MAINTENANCE_EXITED}
        then new_ctx\<lparr>pc_active_transaction := None\<rparr> else new_ctx)"

text \<open>A result that leaves the state as it was, with the context given.\<close>

definition unchanged_result ::
  "pump_context \<Rightarrow> pump_context \<Rightarrow> pump_event \<Rightarrow> apply_args \<Rightarrow> bool \<Rightarrow> bool \<Rightarrow> transition_reason \<Rightarrow>
   transition_severity \<Rightarrow> pump_warning list \<Rightarrow> transition_result" where
  "unchanged_result ctx new_ctx ev args accepted noop reason severity warnings =
    \<lparr>tr_accepted = accepted, tr_context = new_ctx, tr_current_state = pc_current_state ctx,
     tr_previous_state = pc_previous_state ctx, tr_attempted_event = ev, tr_reason = reason,
     tr_severity = severity, tr_noop = noop, tr_observation = ap_observation args,
     tr_warnings = warnings\<rparr>"

definition apply_event :: "pump_context \<Rightarrow> pump_event \<Rightarrow> apply_args \<Rightarrow> transition_result" where
  "apply_event ctx ev args =
    (let observed = or_else (ap_observed_at args) (pc_last_observation_at ctx) in
     if is_stale ctx args then
       let warn = Stale_observation_ignored ev (the (ap_observed_at args)) (the (pc_last_observation_at ctx))
       in unchanged_result ctx (ctx\<lparr>pc_warnings := pc_warnings ctx @ [warn]\<rparr>) ev args
            False False Stale_observation Sev_WARNING [warn]
     else if is_replay ctx args then
       let warn = Identical_source_frame
       in unchanged_result ctx
            (ctx\<lparr>pc_last_observation_at := observed, pc_warnings := pc_warnings ctx @ [warn]\<rparr>) ev args
            True True Duplicate_source_frame Sev_INFO [warn]
     else if is_duplicate_completion ctx ev args then
       let warn = Duplicate_completion_ignored (the (ap_completion_key args))
       in unchanged_result ctx
            (ctx\<lparr>pc_last_observation_at := observed, pc_warnings := pc_warnings ctx @ [warn]\<rparr>) ev args
            True True Duplicate_completion_evidence Sev_WARNING [warn]
     else if ev = UNKNOWN_OBSERVATION then
       let warn = Unknown_observation_preserved;
           new_ctx = ctx\<lparr>pc_last_observation_at := observed,
             pc_last_raw_status := or_else (ap_raw_status args) (pc_last_raw_status ctx),
             pc_last_source_hex := next_source_hex ctx args,
             pc_warnings := pc_warnings ctx @ [warn]\<rparr>;
           new_ctx = (if differs (ap_raw_status args) (pc_last_raw_status ctx)
                      then new_ctx\<lparr>pc_state_version := pc_state_version ctx + 1\<rparr> else new_ctx)
       in unchanged_result ctx new_ctx ev args True True Unknown_preserved Sev_WARNING [warn]
     else if pc_current_state ctx = NOZZLE_UP \<and> ev = FILLING_STARTED \<and> \<not> ap_allow_implicit args then
       let warn = Implicit_authorization_rejected
       in unchanged_result ctx (ctx\<lparr>pc_warnings := pc_warnings ctx @ [warn]\<rparr>) ev args
            False False Implicit_authorize_not_supported Sev_WARNING [warn]
     else if is_same_state_noop (pc_current_state ctx) ev then
       let new_ctx = apply_context_fields ctx args None True;
           new_ctx = (if ev = COMMUNICATION_LOST then new_ctx\<lparr>pc_communication_healthy := False\<rparr>
                      else if ev = COMMUNICATION_STARTED then new_ctx\<lparr>pc_communication_healthy := True\<rparr>
                      else new_ctx)
       in unchanged_result ctx new_ctx ev args True True Same_state_noop Sev_INFO []
     else (case lookup_transition (pc_current_state ctx) ev of
         None \<Rightarrow>
           let warn = Invalid_transition_warning (pc_current_state ctx) ev
           in unchanged_result ctx (ctx\<lparr>pc_warnings := pc_warnings ctx @ [warn]\<rparr>) ev args
                False False Invalid_transition Sev_ERROR [warn]
       | Some target \<Rightarrow>
           let new_ctx = transition_context ctx ev args target
           in \<lparr>tr_accepted = True, tr_context = new_ctx, tr_current_state = target,
               tr_previous_state = Some (pc_current_state ctx), tr_attempted_event = ev,
               tr_reason = Transition_applied, tr_severity = Sev_INFO, tr_noop = False,
               tr_observation = ap_observation args, tr_warnings = []\<rparr>))"

section \<open>What a step does\<close>

text \<open>One case rule for all the proofs: a step either keeps the pump state, or applies a row of the table.\<close>

lemma transition_context_fields [simp]:
  "pc_current_state (transition_context ctx ev args t) = t"
  "pc_previous_state (transition_context ctx ev args t) = Some (pc_current_state ctx)"
  "pc_state_version (transition_context ctx ev args t) = Suc (pc_state_version ctx)"
  "pc_last_observation_at (transition_context ctx ev args t) =
     or_else (ap_observed_at args) (pc_last_observation_at ctx)"
  "pc_communication_healthy (transition_context ctx ev args t) \<longleftrightarrow>
     (if ev = COMMUNICATION_STARTED then True
      else if ev = COMMUNICATION_LOST then False else pc_communication_healthy ctx)"
  "pc_completed_keys (transition_context ctx ev args t) =
     (case ap_completion_key args of
        Some k \<Rightarrow> if ev = FILLING_COMPLETED then insert k (pc_completed_keys ctx) else pc_completed_keys ctx
      | None \<Rightarrow> pc_completed_keys ctx)"
  by (simp_all add: transition_context_def Let_def)

lemma apply_context_fields_simps [simp]:
  "pc_current_state (apply_context_fields ctx args key bump) = pc_current_state ctx"
  "pc_previous_state (apply_context_fields ctx args key bump) = pc_previous_state ctx"
  "pc_communication_healthy (apply_context_fields ctx args key bump) = pc_communication_healthy ctx"
  "pc_last_observation_at (apply_context_fields ctx args key bump) =
     or_else (ap_observed_at args) (pc_last_observation_at ctx)"
  "pc_completed_keys (apply_context_fields ctx args None bump) = pc_completed_keys ctx"
  by (simp_all add: apply_context_fields_def Let_def)

lemma unchanged_result_fields [simp]:
  "tr_context (unchanged_result c c' ev args a n r sv w) = c'"
  "tr_reason (unchanged_result c c' ev args a n r sv w) = r"
  "tr_accepted (unchanged_result c c' ev args a n r sv w) = a"
  "tr_noop (unchanged_result c c' ev args a n r sv w) = n"
  "tr_current_state (unchanged_result c c' ev args a n r sv w) = pc_current_state c"
  "tr_attempted_event (unchanged_result c c' ev args a n r sv w) = ev"
  by (simp_all add: unchanged_result_def)

definition step_context :: "pump_context \<Rightarrow> pump_event \<times> apply_args \<Rightarrow> pump_context" where
  "step_context ctx i = (case i of (ev, args) \<Rightarrow> tr_context (apply_event ctx ev args))"

lemma step_context_pair: "step_context ctx (ev, args) = tr_context (apply_event ctx ev args)"
  by (simp add: step_context_def)

lemma apply_event_cases:
  obtains (kept) "tr_reason (apply_event ctx ev args) \<noteq> Transition_applied"
      "pc_current_state (tr_context (apply_event ctx ev args)) = pc_current_state ctx"
      "pc_previous_state (tr_context (apply_event ctx ev args)) = pc_previous_state ctx"
      "pc_completed_keys (tr_context (apply_event ctx ev args)) = pc_completed_keys ctx"
  | (applied) t where "\<not> is_stale ctx args" "\<not> is_replay ctx args" "\<not> is_duplicate_completion ctx ev args"
      "pc_current_state ctx = NOZZLE_UP \<Longrightarrow> ev = FILLING_STARTED \<Longrightarrow> ap_allow_implicit args"
      "\<not> is_same_state_noop (pc_current_state ctx) ev"
      "lookup_transition (pc_current_state ctx) ev = Some t"
      "tr_reason (apply_event ctx ev args) = Transition_applied"
      "tr_accepted (apply_event ctx ev args)" "tr_current_state (apply_event ctx ev args) = t"
      "tr_context (apply_event ctx ev args) = transition_context ctx ev args t"
proof (cases "is_stale ctx args \<or> is_replay ctx args \<or> is_duplicate_completion ctx ev args \<or>
    ev = UNKNOWN_OBSERVATION \<or> (pc_current_state ctx = NOZZLE_UP \<and> ev = FILLING_STARTED \<and> \<not> ap_allow_implicit args) \<or>
    is_same_state_noop (pc_current_state ctx) ev \<or> lookup_transition (pc_current_state ctx) ev = None")
  case True
  then have "tr_reason (apply_event ctx ev args) \<noteq> Transition_applied \<and>
      pc_current_state (tr_context (apply_event ctx ev args)) = pc_current_state ctx \<and>
      pc_previous_state (tr_context (apply_event ctx ev args)) = pc_previous_state ctx \<and>
      pc_completed_keys (tr_context (apply_event ctx ev args)) = pc_completed_keys ctx"
    unfolding apply_event_def Let_def by (elim disjE conjE) simp_all
  then show thesis using kept by blast
next
  case False
  then obtain t where "lookup_transition (pc_current_state ctx) ev = Some t" by blast
  with False show thesis
    by (intro applied [of t]) (auto simp: apply_event_def Let_def)
qed

text \<open>
  Only the table moves the pump. One call of \<open>apply\<close> either applies a row of the transition
  table, accepted, with the version raised by one and the old state recorded, or leaves
  current and previous state exactly as they were.
\<close>

theorem apply_follows_table:
  "(let r = apply_event ctx ev args; new = tr_context r in
    if tr_reason r = Transition_applied
    then lookup_transition (pc_current_state ctx) ev = Some (pc_current_state new) \<and> tr_accepted r \<and>
      pc_previous_state new = Some (pc_current_state ctx) \<and>
      pc_state_version new = pc_state_version ctx + 1
    else pc_current_state new = pc_current_state ctx \<and> pc_previous_state new = pc_previous_state ctx)"
  by (cases rule: apply_event_cases [of ctx ev args]) (simp_all add: Let_def)

section \<open>Runs\<close>

lemma step_context_version: "pc_state_version ctx \<le> pc_state_version (step_context ctx i)"
  by (cases i) (simp add: step_context_def apply_event_def Let_def transition_context_def
      apply_context_fields_def split: option.split)

interpretation version: monotone_measure step_context pc_state_version
  by unfold_locales (rule step_context_version)

lemma or_else_later: "\<not> is_stale ctx args \<Longrightarrow>
    pc_last_observation_at ctx \<le> or_else (ap_observed_at args) (pc_last_observation_at ctx)"
  by (auto simp: is_stale_def or_else_def split: option.splits)

lemma step_context_clock: "pc_last_observation_at ctx \<le> pc_last_observation_at (step_context ctx i)"
proof (cases i)
  case (Pair ev args)
  show ?thesis
  proof (cases "is_stale ctx args")
    case False
    with or_else_later [OF False] show ?thesis
      by (simp add: Pair step_context_def apply_event_def Let_def split: option.split)
  qed (simp add: Pair step_context_def apply_event_def Let_def)
qed

interpretation clock: monotone_measure step_context pc_last_observation_at
  by unfold_locales (rule step_context_clock)

text \<open>
  Time and versions never run backward: along any sequence of events, stale ones included, the
  state version and the time of the last observation only grow.
\<close>

theorem run_is_monotone:
  "pc_state_version ctx \<le> pc_state_version (foldl step_context ctx is) \<and>
   pc_last_observation_at ctx \<le> pc_last_observation_at (foldl step_context ctx is)"
  using version.run_mono clock.run_mono by blast

definition disconnected_unhealthy :: "pump_context \<Rightarrow> bool" where
  "disconnected_unhealthy ctx \<longleftrightarrow> \<not> (pc_current_state ctx = DISCONNECTED \<and> pc_communication_healthy ctx)"

lemma step_context_health: "disconnected_unhealthy ctx \<Longrightarrow> disconnected_unhealthy (step_context ctx i)"
proof (cases i)
  case (Pair ev args)
  assume inv: "disconnected_unhealthy ctx"
  have noop: "pc_current_state ctx \<noteq> DISCONNECTED \<or> ev = COMMUNICATION_LOST"
    if "is_same_state_noop (pc_current_state ctx) ev"
    using that by (auto simp: is_same_state_noop_def SAME_STATE_NOOP_EVENTS_def)
  show ?thesis
  proof (cases rule: apply_event_cases [of ctx ev args])
    case kept
    with inv noop show ?thesis
      by (auto simp: Pair disconnected_unhealthy_def step_context_def apply_event_def Let_def split: option.splits if_splits)
  next
    case (applied t)
    then show ?thesis
      using table_facts(1) [of "pc_current_state ctx" ev]
      by (auto simp: Pair disconnected_unhealthy_def step_context_def)
  qed
qed

interpretation health: preserved step_context disconnected_unhealthy
  by unfold_locales (rule step_context_health)

text \<open>
  A disconnected pump is never reported as healthy, after any sequence of events.
\<close>

theorem disconnected_is_unhealthy:
  "\<not> (pc_current_state (foldl step_context (new_context pid addr) is) = DISCONNECTED \<and>
      pc_communication_healthy (foldl step_context (new_context pid addr) is))"
proof -
  have "disconnected_unhealthy (new_context pid addr)"
    by (simp add: disconnected_unhealthy_def new_context_def)
  from health.run_preserves [OF this] show ?thesis
    by (simp add: disconnected_unhealthy_def)
qed

section \<open>No fuel without authorization\<close>

text \<open>Runs as a relation, with the history of inputs.\<close>

inductive pump_run :: "pump_context \<Rightarrow> (pump_event \<times> apply_args) list \<Rightarrow> pump_context \<Rightarrow> bool" where
  pump_run_start: "pump_run c [] c"
| pump_run_step: "pump_run c is c' \<Longrightarrow> pump_run c (is @ [(ev, args)]) (tr_context (apply_event c' ev args))"

inductive_cases pump_run_NilE: "pump_run c [] c'"

lemma pump_run_iff: "pump_run c is c' \<longleftrightarrow> c' = foldl step_context c is"
proof
  show "pump_run c is c' \<Longrightarrow> c' = foldl step_context c is"
    by (induction rule: pump_run.induct) (simp_all add: step_context_def)
  have "pump_run c is (foldl step_context c is)"
  proof (induction "is" rule: rev_induct)
    case (snoc i "is")
    then show ?case
      using pump_run_step [of c "is" "foldl step_context c is" "fst i" "snd i"]
      by (cases i) (simp add: step_context_pair)
  qed (simp add: pump_run_start)
  then show "c' = foldl step_context c is \<Longrightarrow> pump_run c is c'" by simp
qed

definition dispensing :: "pump_state \<Rightarrow> bool" where
  "dispensing s \<longleftrightarrow> s \<in> {AUTHORIZED, FILLING, FILLING_COMPLETE, SUSPENDED, LIMIT_REACHED}"

text \<open>Somewhere in the history an authorization was confirmed while the nozzle was up.\<close>

definition authorized_in :: "pump_context \<Rightarrow> (pump_event \<times> apply_args) list \<Rightarrow> bool" where
  "authorized_in c is \<longleftrightarrow>
    (\<exists>before args after. is = before @ (AUTHORIZATION_CONFIRMED, args) # after \<and>
       pc_current_state (foldl step_context c before) = NOZZLE_UP)"

lemma authorized_in_append: "authorized_in c is \<Longrightarrow> authorized_in c (is @ js)"
  by (auto simp: authorized_in_def) (metis append.assoc append_Cons)

lemma run_authorized:
  assumes "pump_run c is c'" "\<forall>i\<in>set is. \<not> ap_allow_implicit (snd i)" "\<not> dispensing (pc_current_state c)"
  shows "dispensing (pc_current_state c') \<longrightarrow> authorized_in c is"
  using assms
proof (induction rule: pump_run.induct)
  case (pump_run_start c)
  then show ?case by simp
next
  case (pump_run_step c "is" c' ev args)
  then have IH: "dispensing (pc_current_state c') \<longrightarrow> authorized_in c is"
    and ni: "\<not> ap_allow_implicit args" by simp_all
  show ?case
  proof
    assume disp: "dispensing (pc_current_state (tr_context (apply_event c' ev args)))"
    show "authorized_in c (is @ [(ev, args)])"
    proof (cases "dispensing (pc_current_state c')")
      case True
      with IH show ?thesis by (simp add: authorized_in_append)
    next
      case False
      have "pc_current_state c' = NOZZLE_UP \<and> ev = AUTHORIZATION_CONFIRMED"
      proof (cases rule: apply_event_cases [of c' ev args])
        case kept
        with disp False show ?thesis by simp
      next
        case (applied t)
        with disp False ni show ?thesis
          using table_facts(2-6) [of "pc_current_state c'" ev] by (auto simp: dispensing_def)
      qed
      moreover have "c' = foldl step_context c is"
        using pump_run_step.hyps by (simp add: pump_run_iff)
      ultimately show ?thesis unfolding authorized_in_def by blast
    qed
  qed
qed

text \<open>
  C2. No fuel flows without an authorization: starting from a state outside the dispensing ones, if no caller
  allows implicit authorization, a pump that is authorized, filling, suspended, at its limit or complete got
  there through an AUTHORIZATION_CONFIRMED event that arrived while the nozzle was up.
\<close>

theorem no_fuel_without_authorization:
  assumes "\<forall>i\<in>set is. \<not> ap_allow_implicit (snd i)"
    and "\<not> dispensing (pc_current_state c)"
    and "dispensing (pc_current_state (foldl step_context c is))"
  shows "\<exists>before args after. is = before @ (AUTHORIZATION_CONFIRMED, args) # after \<and>
    pc_current_state (foldl step_context c before) = NOZZLE_UP"
  using run_authorized [of c "is" "foldl step_context c is"] assms
  by (simp add: pump_run_iff authorized_in_def)

lemma authorize_run:
  "dispensing (pc_current_state (foldl step_context (new_context ''fp-1'' 1)
     [(COMMUNICATION_STARTED, no_args), (READY_OBSERVED, no_args), (NOZZLE_LIFTED, no_args),
      (AUTHORIZATION_CONFIRMED, no_args), (FILLING_STARTED, no_args)]))"
proof -
  have t: "lookup_transition DISCONNECTED COMMUNICATION_STARTED = Some DISCOVERING"
    "lookup_transition DISCOVERING READY_OBSERVED = Some READY"
    "lookup_transition READY NOZZLE_LIFTED = Some NOZZLE_UP"
    "lookup_transition NOZZLE_UP AUTHORIZATION_CONFIRMED = Some AUTHORIZED"
    "lookup_transition AUTHORIZED FILLING_STARTED = Some FILLING"
    by (simp_all add: lookup_iff_listed TRANSITIONS_def BASE_TRANSITIONS_def)
  show ?thesis
    by (simp add: step_context_def apply_event_def new_context_def no_args_def is_stale_def is_replay_def
        source_hex_def is_duplicate_completion_def is_same_state_noop_def SAME_STATE_NOOP_EVENTS_def
        transition_context_def next_source_hex_def Let_def t dispensing_def)
qed

theorem no_fuel_without_authorization_witness:
  "\<exists>before args after.
     [(COMMUNICATION_STARTED, no_args), (READY_OBSERVED, no_args), (NOZZLE_LIFTED, no_args),
      (AUTHORIZATION_CONFIRMED, no_args), (FILLING_STARTED, no_args)] =
       before @ (AUTHORIZATION_CONFIRMED, args) # after \<and>
     pc_current_state (foldl step_context (new_context ''fp-1'' 1) before) = NOZZLE_UP"
  by (rule no_fuel_without_authorization [OF _ _ authorize_run])
    (simp_all add: no_args_def new_context_def dispensing_def)

section \<open>Completions\<close>

fun run_results :: "pump_context \<Rightarrow> (pump_event \<times> apply_args) list \<Rightarrow> transition_result list" where
  "run_results c [] = []"
| "run_results c ((ev, args) # is) =
    (let r = apply_event c ev args in r # run_results (tr_context r) is)"

text \<open>The applied completions that carry an evidence key.\<close>

definition completions_of ::
  "string \<Rightarrow> pump_context \<Rightarrow> (pump_event \<times> apply_args) list \<Rightarrow> transition_result list" where
  "completions_of k c is = map snd
    (filter (\<lambda>((ev, args), r). ev = FILLING_COMPLETED \<and> ap_completion_key args = Some k \<and>
        tr_reason r = Transition_applied) (zip is (run_results c is)))"

lemma completed_keys_grow: "pc_completed_keys c \<subseteq> pc_completed_keys (tr_context (apply_event c ev args))"
  by (cases rule: apply_event_cases [of c ev args]) (auto split: option.split)

lemma known_key_not_applied:
  "k \<in> pc_completed_keys c \<Longrightarrow> ap_completion_key args = Some k \<Longrightarrow>
   tr_reason (apply_event c FILLING_COMPLETED args) \<noteq> Transition_applied"
  by (cases rule: apply_event_cases [of c FILLING_COMPLETED args]) (simp_all add: is_duplicate_completion_def)

lemma applied_key_known:
  "tr_reason (apply_event c FILLING_COMPLETED args) = Transition_applied \<Longrightarrow> ap_completion_key args = Some k \<Longrightarrow>
   k \<in> pc_completed_keys (tr_context (apply_event c FILLING_COMPLETED args))"
  by (cases rule: apply_event_cases [of c FILLING_COMPLETED args]) simp_all

lemma completions_of_Cons:
  "completions_of k c ((ev, args) # is) =
    (let r = apply_event c ev args in
     (if ev = FILLING_COMPLETED \<and> ap_completion_key args = Some k \<and> tr_reason r = Transition_applied
      then [r] else []) @ completions_of k (tr_context r) is)"
  by (cases "ev = FILLING_COMPLETED") (simp_all add: completions_of_def Let_def)

lemma no_more_completions: "k \<in> pc_completed_keys c \<Longrightarrow> completions_of k c is = []"
proof (induction "is" arbitrary: c)
  case (Cons i "is")
  obtain ev args where i: "i = (ev, args)" by (cases i)
  from Cons.prems completed_keys_grow [of c ev args]
  have "completions_of k (tr_context (apply_event c ev args)) is = []"
    by (intro Cons.IH) blast
  with known_key_not_applied [OF Cons.prems, of args] show ?case
    by (auto simp: i completions_of_Cons Let_def)
qed (simp add: completions_of_def)

text \<open>
  C5. Exactly-once completion: along any sequence of events, replays and reorderings included, at most one
  FILLING_COMPLETED with a given evidence key takes effect.
\<close>

theorem completion_at_most_once: "length (completions_of k c is) \<le> 1"
proof (induction "is" arbitrary: c)
  case (Cons i "is")
  obtain ev args where i: "i = (ev, args)" by (cases i)
  show ?case
  proof (cases "ev = FILLING_COMPLETED \<and> ap_completion_key args = Some k \<and>
      tr_reason (apply_event c ev args) = Transition_applied")
    case True
    then have "k \<in> pc_completed_keys (tr_context (apply_event c ev args))"
      using applied_key_known by blast
    with no_more_completions show ?thesis by (simp add: i completions_of_Cons Let_def)
  next
    case False
    then show ?thesis using Cons.IH by (auto simp: i completions_of_Cons Let_def)
  qed
qed (simp add: completions_of_def)

end
