(* ===== verification/Pump_Guards.thy ===== *)
theory Pump_Guards
  imports Pump_Machine
begin

text \<open>
  \<open>state_machine/guards.py\<close> and \<open>state_machine/reconciliation.py\<close>: which command is eligible in which
  context, with every blocking reason, and how a context persisted before a restart is reconciled
  with the first live evidence. A blocking reason is a constructor for its string.
\<close>

section \<open>Eligibility\<close>

datatype blocking_reason =
    Communication_unhealthy
  | State_not_eligible_for_set_price pump_state
  | Active_or_completed_transaction_window
  | Active_unresolved_transaction
  | State_not_nozzle_up
  | Selected_nozzle_unknown
  | Price_not_verified
  | Fault_present
  | State_not_eligible_for_stop
  | State_not_filling
  | State_not_suspended
  | Reset_not_allowed_during_filling
  | State_not_explicitly_reset_eligible pump_state
  | Preset_only_before_filling
  | Preset_not_during_filling
  | Preset_value_missing
  | Preset_value_invalid
  | Preset_value_not_positive

datatype eligibility_warning =
    Active_commands_disabled
  | Physical_enable_missing
  | No_status_poll_transmitted
  | No_totals_request_transmitted
  | Authorize_eligibility_only
  | Requires_active_commands_enabled
  | Requires_physical_enable

record eligibility =
  el_eligible :: bool
  el_command :: pump_command
  el_current_state :: pump_state
  el_blocking :: "blocking_reason list"
  el_warnings :: "eligibility_warning list"
  el_requires_physical :: bool
  el_requires_active :: bool

definition ACTIVE_EXECUTION_COMMANDS :: "pump_command set" where
  "ACTIVE_EXECUTION_COMMANDS =
    {SET_PRICE, Cmd_RESET, AUTHORIZE, STOP, SUSPEND, RESUME, PRESET_AMOUNT, PRESET_VOLUME}"

definition SET_PRICE_STATES :: "pump_state set" where
  "SET_PRICE_STATES = {READY, RESET, NOT_PROGRAMMED}"

definition RESET_ELIGIBLE_STATES :: "pump_state set" where
  "RESET_ELIGIBLE_STATES =
    {FILLING_COMPLETE, LIMIT_REACHED, READY, RESET, NOT_PROGRAMMED, NOZZLE_UP, AUTHORIZED, FAULTED, DISCOVERING}"

definition PRESET_STATES :: "pump_state set" where
  "PRESET_STATES = {READY, RESET, NOZZLE_UP, AUTHORIZED}"

definition STOP_STATES :: "pump_state set" where
  "STOP_STATES = {AUTHORIZED, FILLING, SUSPENDED}"

text \<open>
  A preset value as \<open>Decimal(str(value))\<close> reads it: a finite decimal, an infinity with its sign, a
  NaN, or text that does not parse. Comparing a NaN with \<open><=\<close> raises \<open>InvalidOperation\<close>.
\<close>

datatype preset_value =
    Preset_finite decimal
  | Preset_infinity bool
  | Preset_nan
  | Preset_unparsable

fun decimal_not_positive :: "preset_value \<Rightarrow> bool result" where
  "decimal_not_positive (Preset_finite d) = Inr (dec_coefficient d \<le> 0)"
| "decimal_not_positive (Preset_infinity negative) = Inr negative"
| "decimal_not_positive Preset_nan = Inl InvalidOperation"
| "decimal_not_positive Preset_unparsable = Inr False"

definition reason_if :: "bool \<Rightarrow> blocking_reason \<Rightarrow> blocking_reason list" where
  "reason_if b r = (if b then [r] else [])"

definition preset_reasons :: "preset_value option \<Rightarrow> blocking_reason list result" where
  "preset_reasons value =
    (case value of
       None \<Rightarrow> Inr [Preset_value_missing]
     | Some Preset_unparsable \<Rightarrow> Inr [Preset_value_invalid]
     | Some v \<Rightarrow> bind_result (decimal_not_positive v) (\<lambda>bad. Inr (reason_if bad Preset_value_not_positive)))"

text \<open>The blocking reasons of each command, in the order in which they are appended.\<close>

definition blocking_reasons ::
  "pump_command \<Rightarrow> pump_context \<Rightarrow> preset_value option \<Rightarrow> blocking_reason list result" where
  "blocking_reasons command ctx preset =
    (let s = pc_current_state ctx;
         unhealthy = reason_if (\<not> pc_communication_healthy ctx) Communication_unhealthy;
         active = reason_if (pc_active_transaction ctx \<noteq> None) Active_unresolved_transaction;
         nozzle = reason_if (pc_selected_nozzle ctx = None) Selected_nozzle_unknown;
         price = reason_if (\<not> pc_price_verified ctx) Price_not_verified
     in case command of
          READ_STATUS \<Rightarrow> Inr []
        | READ_TOTALS \<Rightarrow> Inr unhealthy
        | SET_PRICE \<Rightarrow> Inr (unhealthy
            @ reason_if (s \<notin> SET_PRICE_STATES) (State_not_eligible_for_set_price s)
            @ reason_if (s \<in> {FILLING, AUTHORIZED, SUSPENDED, FILLING_COMPLETE}) Active_or_completed_transaction_window
            @ active)
        | AUTHORIZE \<Rightarrow> Inr (reason_if (s \<noteq> NOZZLE_UP) State_not_nozzle_up @ nozzle @ price @ unhealthy @ active
            @ reason_if (pc_fault_code ctx \<noteq> None \<or> s = FAULTED) Fault_present)
        | STOP \<Rightarrow> Inr (reason_if (s \<notin> STOP_STATES) State_not_eligible_for_stop @ unhealthy)
        | SUSPEND \<Rightarrow> Inr (reason_if (s \<noteq> FILLING) State_not_filling @ unhealthy)
        | RESUME \<Rightarrow> Inr (reason_if (s \<noteq> SUSPENDED) State_not_suspended @ unhealthy)
        | Cmd_RESET \<Rightarrow> Inr ((if s = FILLING then [Reset_not_allowed_during_filling]
              else reason_if (s \<notin> RESET_ELIGIBLE_STATES) (State_not_explicitly_reset_eligible s)) @ unhealthy)
        | _ \<Rightarrow> bind_result (preset_reasons preset) (\<lambda>p.
            Inr (reason_if (s \<notin> PRESET_STATES) Preset_only_before_filling
              @ reason_if (s = FILLING) Preset_not_during_filling
              @ p @ nozzle @ price @ unhealthy)))"

text \<open>\<open>seen\<close> and \<open>unique_blocking\<close>: the first occurrence of each reason, in order.\<close>

fun first_occurrences :: "'a list \<Rightarrow> 'a set \<Rightarrow> 'a list" where
  "first_occurrences [] seen = []"
| "first_occurrences (x # xs) seen =
    (if x \<in> seen then first_occurrences xs seen else x # first_occurrences xs (insert x seen))"

definition warning_if :: "bool \<Rightarrow> eligibility_warning \<Rightarrow> eligibility_warning list" where
  "warning_if b w = (if b then [w] else [])"

definition evaluate_command_eligibility ::
  "pump_command \<Rightarrow> pump_context \<Rightarrow> preset_value option \<Rightarrow> bool \<Rightarrow> bool \<Rightarrow> eligibility result" where
  "evaluate_command_eligibility command ctx preset physical active_enabled =
    (let requires = (command \<in> ACTIVE_EXECUTION_COMMANDS);
         before = warning_if (requires \<and> \<not> active_enabled) Active_commands_disabled
                @ warning_if (requires \<and> \<not> physical) Physical_enable_missing;
         after = warning_if requires Requires_active_commands_enabled
               @ warning_if requires Requires_physical_enable
     in bind_result (blocking_reasons command ctx preset) (\<lambda>blocking.
       let unique = first_occurrences blocking {} in
       Inr (case command of
          READ_STATUS \<Rightarrow>
            \<lparr>el_eligible = True, el_command = command, el_current_state = pc_current_state ctx,
             el_blocking = [], el_warnings = [No_status_poll_transmitted],
             el_requires_physical = False, el_requires_active = False\<rparr>
        | READ_TOTALS \<Rightarrow>
            \<lparr>el_eligible = (blocking = []), el_command = command, el_current_state = pc_current_state ctx,
             el_blocking = blocking, el_warnings = [No_totals_request_transmitted],
             el_requires_physical = False, el_requires_active = False\<rparr>
        | _ \<Rightarrow>
            \<lparr>el_eligible = (length unique = 0), el_command = command, el_current_state = pc_current_state ctx,
             el_blocking = unique,
             el_warnings = before @ warning_if (command = AUTHORIZE) Authorize_eligibility_only @ after,
             el_requires_physical = requires, el_requires_active = requires\<rparr>)))"

definition is_eligible :: "pump_command \<Rightarrow> pump_context \<Rightarrow> preset_value option \<Rightarrow> bool" where
  "is_eligible command ctx preset \<longleftrightarrow> blocking_reasons command ctx preset = Inr []"

lemma first_occurrences_Nil_iff [simp]: "first_occurrences xs {} = [] \<longleftrightarrow> xs = []"
  by (cases xs) simp_all

lemma set_first_occurrences: "set (first_occurrences xs seen) = set xs - seen"
  by (induction xs arbitrary: seen) auto

lemma distinct_first_occurrences: "distinct (first_occurrences xs seen)"
  by (induction xs arbitrary: seen) (auto simp: set_first_occurrences)

lemma reason_if_Nil [simp]: "reason_if b r = [] \<longleftrightarrow> \<not> b"
  by (simp add: reason_if_def)

lemma eligibility_iff:
  "(case evaluate_command_eligibility command ctx preset ph act of Inl _ \<Rightarrow> False | Inr r \<Rightarrow> el_eligible r) \<longleftrightarrow>
   is_eligible command ctx preset"
  by (cases "blocking_reasons command ctx preset"; cases command)
    (simp_all add: evaluate_command_eligibility_def Let_def is_eligible_def, simp_all add: blocking_reasons_def Let_def)

text \<open>
  Authorization is eligible exactly when the nozzle is up and known, the price is verified, the line is healthy,
  no transaction is unresolved and no fault is present; the enable flags only add warnings and the evaluation never
  raises.
\<close>

theorem authorize_eligible_iff:
  "\<exists>r. evaluate_command_eligibility AUTHORIZE ctx preset ph act = Inr r \<and>
    (el_eligible r \<longleftrightarrow> pc_current_state ctx = NOZZLE_UP \<and> pc_selected_nozzle ctx \<noteq> None \<and> pc_price_verified ctx \<and>
       pc_communication_healthy ctx \<and> pc_active_transaction ctx = None \<and> pc_fault_code ctx = None)"
  by (auto simp: evaluate_command_eligibility_def blocking_reasons_def Let_def)

text \<open>
  An eligible command fits the state: every command but a status read needs a healthy line, and each active command
  is eligible only in the states whose transition it causes.
\<close>

theorem eligible_state_matches:
  "is_eligible command ctx preset \<longrightarrow>
    (case command of
       READ_STATUS \<Rightarrow> True
     | READ_TOTALS \<Rightarrow> pc_communication_healthy ctx
     | SET_PRICE \<Rightarrow> pc_communication_healthy ctx \<and> pc_current_state ctx \<in> SET_PRICE_STATES \<and> pc_active_transaction ctx = None
     | AUTHORIZE \<Rightarrow> pc_communication_healthy ctx \<and> lookup_transition (pc_current_state ctx) AUTHORIZATION_CONFIRMED = Some AUTHORIZED
     | STOP \<Rightarrow> pc_communication_healthy ctx \<and> pc_current_state ctx \<in> {AUTHORIZED, FILLING, SUSPENDED}
     | SUSPEND \<Rightarrow> pc_communication_healthy ctx \<and> lookup_transition (pc_current_state ctx) SUSPENDED_OBSERVED = Some SUSPENDED
     | RESUME \<Rightarrow> pc_communication_healthy ctx \<and> lookup_transition (pc_current_state ctx) RESUMED_OBSERVED = Some FILLING
     | Cmd_RESET \<Rightarrow> pc_communication_healthy ctx \<and> pc_current_state ctx \<notin> {FILLING, SUSPENDED, DISCONNECTED, MAINTENANCE}
     | _ \<Rightarrow> pc_communication_healthy ctx \<and> pc_price_verified ctx \<and> pc_current_state ctx \<in> {READY, RESET, NOZZLE_UP, AUTHORIZED})"
proof -
  have "lookup_transition NOZZLE_UP AUTHORIZATION_CONFIRMED = Some AUTHORIZED"
    "lookup_transition FILLING SUSPENDED_OBSERVED = Some SUSPENDED"
    "lookup_transition SUSPENDED RESUMED_OBSERVED = Some FILLING"
    by (simp_all add: lookup_iff_listed TRANSITIONS_def BASE_TRANSITIONS_def)
  then show ?thesis
    by (cases command)
      (auto simp: is_eligible_def blocking_reasons_def Let_def bind_result_Inr_iff SET_PRICE_STATES_def STOP_STATES_def
        RESET_ELIGIBLE_STATES_def PRESET_STATES_def split: if_splits)
qed

definition sample_context :: pump_context where
  "sample_context = (new_context ''fp-1'' 1)\<lparr>pc_current_state := NOZZLE_UP, pc_selected_nozzle := Some 1,
     pc_price_verified := True, pc_communication_healthy := True\<rparr>"

theorem eligible_state_matches_witness:
  "is_eligible AUTHORIZE sample_context None \<and>
   lookup_transition (pc_current_state sample_context) AUTHORIZATION_CONFIRMED = Some AUTHORIZED"
proof -
  have "is_eligible AUTHORIZE sample_context None"
    by (simp add: is_eligible_def blocking_reasons_def sample_context_def new_context_def)
  with eligible_state_matches [of AUTHORIZE sample_context None] show ?thesis by simp
qed

text \<open>
  The evaluation is total except for one input: it raises exactly when a preset command carries a NaN, because the
  comparison with zero is outside the \<open>try\<close> that guards the conversion.
\<close>

theorem eligibility_raises_iff:
  "(\<exists>e. evaluate_command_eligibility command ctx preset ph act = Inl e) \<longleftrightarrow>
     command \<in> {PRESET_AMOUNT, PRESET_VOLUME} \<and> preset = Some Preset_nan"
proof -
  have "(\<exists>e. preset_reasons preset = Inl e) \<longleftrightarrow> preset = Some Preset_nan"
    by (auto simp: preset_reasons_def bind_result_Inl_iff split: option.splits preset_value.splits)
  then show ?thesis
    by (cases command) (auto simp: evaluate_command_eligibility_def blocking_reasons_def Let_def bind_result_Inl_iff)
qed

section \<open>Reconciliation after a restart\<close>

record live_observation =
  lo_healthy :: bool
  lo_wayne_status :: "int option"
  lo_normalized_hint :: "pump_state option"
  lo_observed_at :: "int option"
  lo_selected_nozzle :: "int option"
  lo_raw_source_hex :: "string option"

record reconciliation =
  rc_context :: pump_context
  rc_warnings :: "pump_warning list"
  rc_recovered_state :: pump_state
  rc_preserved_transaction :: "string option"
  rc_discarded :: "pump_command list"
  rc_auto_authorize_attempted :: bool
  rc_pending_replayed :: bool

definition infer_live_state :: "live_observation \<Rightarrow> pump_state option" where
  "infer_live_state live =
    (case lo_normalized_hint live of
       Some hint \<Rightarrow> Some hint
     | None \<Rightarrow> (case lo_wayne_status live of
         None \<Rightarrow> None
       | Some code \<Rightarrow> (case wayne_status_of code of
           None \<Rightarrow> None
         | Some Wayne_PUMP_NOT_PROGRAMMED \<Rightarrow> Some NOT_PROGRAMMED
         | Some Wayne_RESET \<Rightarrow> Some RESET
         | Some Wayne_AUTHORIZED \<Rightarrow> Some AUTHORIZED
         | Some Wayne_FILLING \<Rightarrow> Some FILLING
         | Some Wayne_FILLING_COMPLETED \<Rightarrow> Some FILLING_COMPLETE
         | Some Wayne_MAX_AMOUNT_VOLUME_REACHED \<Rightarrow> Some LIMIT_REACHED
         | Some Wayne_SWITCHED_OFF \<Rightarrow> None
         | Some Wayne_SUSPENDED \<Rightarrow> Some SUSPENDED)))"

text \<open>\<open>live.selected_nozzle or persisted.selected_nozzle\<close>: nozzle 0 counts as absent.\<close>

definition live_nozzle :: "live_observation \<Rightarrow> pump_context \<Rightarrow> int option" where
  "live_nozzle live persisted =
    (case lo_selected_nozzle live of
       Some n \<Rightarrow> if n \<noteq> 0 then Some n else pc_selected_nozzle persisted
     | None \<Rightarrow> pc_selected_nozzle persisted)"

definition discard_warnings :: "pump_command list \<Rightarrow> pump_warning list" where
  "discard_warnings pending =
     map (\<lambda>c. if c \<in> NON_IDEMPOTENT_COMMANDS then Discarded_non_idempotent c else Discarded_pending c) pending
     @ (if AUTHORIZE \<in> set pending then [Pending_authorize_discarded] else [])"

definition recovered_context ::
  "pump_context \<Rightarrow> live_observation \<Rightarrow> pump_state \<Rightarrow> pump_warning list \<Rightarrow> pump_context" where
  "recovered_context persisted live state warnings =
    persisted\<lparr>pc_previous_state := Some (pc_current_state persisted), pc_current_state := state,
      pc_communication_healthy := True, pc_state_version := pc_state_version persisted + 1,
      pc_last_observation_at := lo_observed_at live, pc_last_transition_at := lo_observed_at live,
      pc_last_raw_status := lo_wayne_status live, pc_selected_nozzle := live_nozzle live persisted,
      pc_warnings := pc_warnings persisted @ warnings, pc_price_verified := False\<rparr>"

definition reconcile_after_restart ::
  "pump_context \<Rightarrow> live_observation \<Rightarrow> bool option \<Rightarrow> pump_command list \<Rightarrow> reconciliation" where
  "reconcile_after_restart persisted live had_active pending =
    (let unresolved = pc_active_transaction persisted;
         warnings = [Live_state_preferred, Never_automatically_authorize] @ discard_warnings pending
           @ (if had_active = Some True \<or> unresolved \<noteq> None then [Preserving_unresolved_transaction] else []);
         result = (\<lambda>ctx ws state. \<lparr>rc_context = ctx, rc_warnings = ws, rc_recovered_state = state,
           rc_preserved_transaction = unresolved, rc_discarded = pending,
           rc_auto_authorize_attempted = False, rc_pending_replayed = False\<rparr>)
     in if \<not> lo_healthy live then
          result (persisted\<lparr>pc_previous_state := Some (pc_current_state persisted),
              pc_current_state := DISCONNECTED, pc_communication_healthy := False,
              pc_state_version := pc_state_version persisted + 1,
              pc_last_observation_at := lo_observed_at live, pc_last_transition_at := lo_observed_at live,
              pc_warnings := pc_warnings persisted @ warnings\<rparr>)
            (warnings @ [No_communication_after_restart]) DISCONNECTED
        else (case infer_live_state live of
            None \<Rightarrow> result (recovered_context persisted live DISCOVERING warnings)
                      (warnings @ [Live_state_unknown]) DISCOVERING
          | Some s \<Rightarrow>
              let ws = warnings
                    @ (if s = FILLING then [Recovered_into_filling] else [])
                    @ (if s = FILLING_COMPLETE then [Recovered_into_filling_complete] else [])
                    @ (if pc_current_state persisted = FILLING \<and> s \<noteq> FILLING then [Persisted_filling_live_wins s] else [])
                    @ (if s = AUTHORIZED then [Recovering_to_authorized_from_live] else [])
              in result ((recovered_context persisted live s ws)
                    \<lparr>pc_fault_code := (if s = FAULTED then pc_fault_code persisted else None)\<rparr>) ws s))"

text \<open>
  A restart authorizes nothing: whatever was persisted and pending, AUTHORIZED is entered only when the live
  evidence itself says so over a healthy line, nothing pending is replayed, every pending command is discarded, the
  unresolved transaction is kept, and no command of the context is eligible to authorize until the price is verified again.
\<close>

theorem reconcile_never_authorizes:
  "(let r = reconcile_after_restart persisted live had_active pending in
    (rc_recovered_state r = AUTHORIZED \<longleftrightarrow> lo_healthy live \<and> infer_live_state live = Some AUTHORIZED) \<and>
    pc_current_state (rc_context r) = rc_recovered_state r \<and>
    \<not> rc_auto_authorize_attempted r \<and> \<not> rc_pending_replayed r \<and> rc_discarded r = pending \<and>
    pc_active_transaction (rc_context r) = pc_active_transaction persisted \<and>
    \<not> is_eligible AUTHORIZE (rc_context r) preset)"
  by (auto simp: reconcile_after_restart_def Let_def recovered_context_def is_eligible_def blocking_reasons_def
      split: option.split)

text \<open>
  The live evidence wins over the persisted state, on every branch: an unhealthy line gives DISCONNECTED, an
  inferable state is adopted, anything else is DISCOVERING; the version always advances by one.
\<close>

theorem reconcile_prefers_live:
  "rc_recovered_state (reconcile_after_restart persisted live had_active pending) =
     (if \<not> lo_healthy live then DISCONNECTED
      else case infer_live_state live of None \<Rightarrow> DISCOVERING | Some s \<Rightarrow> s) \<and>
   pc_state_version (rc_context (reconcile_after_restart persisted live had_active pending)) =
     pc_state_version persisted + 1"
  by (simp add: reconcile_after_restart_def Let_def recovered_context_def split: option.split)

text \<open>
  On the unhealthy branch the persisted price survives: after a restart without communication the context still
  claims a verified price, although the other branches drop it because a price is never assumed after a restart.
\<close>

theorem unhealthy_restart_keeps_price:
  assumes "\<not> lo_healthy live"
  shows "pc_price_verified (rc_context (reconcile_after_restart persisted live had_active pending)) =
    pc_price_verified persisted"
  using assms by (simp add: reconcile_after_restart_def Let_def)

theorem unhealthy_restart_keeps_price_witness:
  "pc_price_verified (rc_context (reconcile_after_restart sample_context
     \<lparr>lo_healthy = False, lo_wayne_status = None, lo_normalized_hint = None, lo_observed_at = None,
      lo_selected_nozzle = None, lo_raw_source_hex = None\<rparr> None [])) = pc_price_verified sample_context"
  by (rule unhealthy_restart_keeps_price) simp

end
