(* ===== verification/Line_Control.thy ===== *)
theory Line_Control
  imports Prelude
begin

text \<open>
  \<open>protocol/dart/line/constants.py\<close>, \<open>control.py\<close> and \<open>sequence.py\<close>: the
  framing bytes, the classification and composition of the control byte, and the
  block sequence number.
\<close>

named_theorems line_consts

definition ETX :: byte where [line_consts]: "ETX = 0x03"
definition DLE :: byte where [line_consts]: "DLE = 0x10"
definition SF :: byte where [line_consts]: "SF = 0xFA"

definition POLL :: int where [line_consts]: "POLL = 0x20"
definition DATA_BASE :: int where [line_consts]: "DATA_BASE = 0x30"
definition IAP :: int where [line_consts]: "IAP = 0x40"
definition NAK_BASE :: int where [line_consts]: "NAK_BASE = 0x50"
definition EOT_BASE :: int where [line_consts]: "EOT_BASE = 0x70"
definition ACK_BASE :: int where [line_consts]: "ACK_BASE = 0xC0"
definition ACKPOLL_BASE :: int where [line_consts]: "ACKPOLL_BASE = 0xE0"

definition SEQUENCE_MASK :: int where [line_consts]: "SEQUENCE_MASK = 0x0F"
definition CONTROL_TYPE_MASK :: int where [line_consts]: "CONTROL_TYPE_MASK = 0xF0"

definition MAX_BUFFER_SIZE :: nat where [line_consts]: "MAX_BUFFER_SIZE = 256"
definition MIN_DATA_FRAME_SIZE :: nat where [line_consts]: "MIN_DATA_FRAME_SIZE = 5"

lemma framing_bytes_distinct [simp]:
  "ETX \<noteq> DLE" "DLE \<noteq> ETX" "ETX \<noteq> SF" "SF \<noteq> ETX" "DLE \<noteq> SF" "SF \<noteq> DLE"
  by (simp_all add: line_consts)

section \<open>The control byte\<close>

datatype control_type =
  CtPOLL | CtDATA | CtIAP | CtNAK | CtEOT | CtACK | CtACKPOLL | CtUNKNOWN

fun control_type_base :: "control_type \<Rightarrow> int result" where
  "control_type_base CtPOLL = Inr POLL"
| "control_type_base CtDATA = Inr DATA_BASE"
| "control_type_base CtIAP = Inr IAP"
| "control_type_base CtNAK = Inr NAK_BASE"
| "control_type_base CtEOT = Inr EOT_BASE"
| "control_type_base CtACK = Inr ACK_BASE"
| "control_type_base CtACKPOLL = Inr ACKPOLL_BASE"
| "control_type_base CtUNKNOWN = Inl ValueError"

definition classify_control :: "int \<Rightarrow> control_type result" where
  "classify_control control =
    (if \<not> (0 \<le> control \<and> control \<le> 0xFF) then Inl ValueError
     else if control = POLL then Inr CtPOLL
     else if control = IAP then Inr CtIAP
     else let high = control AND CONTROL_TYPE_MASK in
       if high = DATA_BASE then Inr CtDATA
       else if high = NAK_BASE then Inr CtNAK
       else if high = EOT_BASE then Inr CtEOT
       else if high = ACK_BASE then Inr CtACK
       else if high = ACKPOLL_BASE then Inr CtACKPOLL
       else Inr CtUNKNOWN)"

definition extract_sequence :: "int \<Rightarrow> int result" where
  "extract_sequence control =
    (if \<not> (0 \<le> control \<and> control \<le> 0xFF) then Inl ValueError
     else Inr (control AND SEQUENCE_MASK))"

definition compose_control :: "control_type \<Rightarrow> int \<Rightarrow> int result" where
  "compose_control ct sequence =
    (if \<not> (0 \<le> sequence \<and> sequence \<le> 0x0F) then Inl ValueError
     else if ct = CtUNKNOWN then Inl ValueError
     else if ct \<in> {CtPOLL, CtIAP} \<and> sequence \<noteq> 0 then Inl ValueError
     else bind_result (control_type_base ct) (\<lambda>base. Inr (base OR sequence)))"

text \<open>When a control byte can be composed at all.\<close>

definition composable :: "control_type \<Rightarrow> int \<Rightarrow> bool" where
  "composable ct sequence \<longleftrightarrow>
     0 \<le> sequence \<and> sequence \<le> 15 \<and> ct \<noteq> CtUNKNOWN \<and>
     (ct \<in> {CtPOLL, CtIAP} \<longrightarrow> sequence = 0)"

lemma sequence_cases:
  assumes "0 \<le> s" "s \<le> (15::int)"
  obtains "s = 0" | "s = 1" | "s = 2" | "s = 3" | "s = 4" | "s = 5" | "s = 6" | "s = 7"
    | "s = 8" | "s = 9" | "s = 10" | "s = 11" | "s = 12" | "s = 13" | "s = 14" | "s = 15"
proof -
  have "s = 0 \<or> s = 1 \<or> s = 2 \<or> s = 3 \<or> s = 4 \<or> s = 5 \<or> s = 6 \<or> s = 7 \<or>
      s = 8 \<or> s = 9 \<or> s = 10 \<or> s = 11 \<or> s = 12 \<or> s = 13 \<or> s = 14 \<or> s = 15"
    using assms by presburger
  with that show ?thesis by blast
qed

lemma compose_control_ok_iff:
  "(\<exists>c. compose_control ct s = Inr c) \<longleftrightarrow> composable ct s"
  by (cases ct) (auto simp: compose_control_def composable_def)

lemma compose_control_spec:
  assumes "composable ct s"
  obtains c where "compose_control ct s = Inr c" "0x20 \<le> c" "c \<le> 0xEF"
    "classify_control c = Inr ct" "extract_sequence c = Inr s"
proof -
  have rng: "0 \<le> s" "s \<le> 15" using assms by (simp_all add: composable_def)
  have "\<exists>c. compose_control ct s = Inr c \<and> 0x20 \<le> c \<and> c \<le> 0xEF \<and>
      classify_control c = Inr ct \<and> extract_sequence c = Inr s"
    using rng
    by (rule sequence_cases; use assms in \<open>cases ct;
        simp add: composable_def compose_control_def classify_control_def extract_sequence_def
          line_consts Let_def\<close>)
  with that show ?thesis by blast
qed

lemma classify_control_byte: "\<exists>ct. classify_control (int_of_byte b) = Inr ct"
  by (simp add: classify_control_def Let_def)

lemma extract_sequence_byte: "\<exists>s. extract_sequence (int_of_byte b) = Inr s \<and> 0 \<le> s \<and> s \<le> 15"
proof -
  have "int_of_byte b AND 15 \<le> 15" by (rule AND_upper2) simp
  then show ?thesis by (simp add: extract_sequence_def SEQUENCE_MASK_def)
qed

section \<open>Block sequence numbers\<close>

definition validate_sequence :: "int \<Rightarrow> int result" where
  "validate_sequence sequence =
    (if \<not> (0 \<le> sequence \<and> sequence \<le> 0x0F) then Inl ValueError else Inr sequence)"

definition next_tx_sequence :: "int \<Rightarrow> int result" where
  "next_tx_sequence sequence =
    bind_result (validate_sequence sequence)
      (\<lambda>_. if sequence = 0x0F then Inr 0x01 else Inr (sequence + 1))"

end
