(* ===== verification/Line_Crc.thy ===== *)
theory Line_Crc
  imports Line_Control
begin

text \<open>
  \<open>protocol/dart/line/crc.py\<close>: the two bitwise CRC-16 loops, the named
  candidates, and the little-endian CRC trailer. The register is a \<open>16 word\<close>,
  so the masks \<open>& 0xFFFF\<close> of the Python loops hold by type. The locale
  \<open>crc_register\<close> collects what makes a shift register detect errors; both loops
  are interpretations of it.
\<close>

section \<open>The loops\<close>

definition crc_shift_lsb :: "16 word \<Rightarrow> 16 word \<Rightarrow> 16 word" where
  "crc_shift_lsb poly crc =
    (if crc AND 0x0001 \<noteq> 0 then drop_bit 1 crc XOR poly else drop_bit 1 crc)"

definition crc_shift_msb :: "16 word \<Rightarrow> 16 word \<Rightarrow> 16 word" where
  "crc_shift_msb poly crc =
    (if crc AND 0x8000 \<noteq> 0 then push_bit 1 crc XOR poly else push_bit 1 crc)"

definition crc_byte_lsb :: "16 word \<Rightarrow> 16 word \<Rightarrow> byte \<Rightarrow> 16 word" where
  "crc_byte_lsb poly crc b = (crc_shift_lsb poly ^^ 8) (crc XOR ucast b)"

definition crc_byte_msb :: "16 word \<Rightarrow> 16 word \<Rightarrow> byte \<Rightarrow> 16 word" where
  "crc_byte_msb poly crc b = (crc_shift_msb poly ^^ 8) (crc XOR push_bit 8 (ucast b))"

definition crc16_lsb_first :: "16 word \<Rightarrow> 16 word \<Rightarrow> 16 word \<Rightarrow> bytes \<Rightarrow> int" where
  "crc16_lsb_first poly init xorout data =
     uint (foldl (crc_byte_lsb poly) init data XOR xorout)"

definition crc16_msb_first :: "16 word \<Rightarrow> 16 word \<Rightarrow> 16 word \<Rightarrow> bytes \<Rightarrow> int" where
  "crc16_msb_first poly init xorout data =
     uint (foldl (crc_byte_msb poly) init data XOR xorout)"

section \<open>The named candidates\<close>

definition crc16_dart_ibm_ansi_init_0000 :: "bytes \<Rightarrow> int" where
  "crc16_dart_ibm_ansi_init_0000 = crc16_lsb_first 0xA001 0x0000 0x0000"

definition crc16_ccitt_false_init_0000 :: "bytes \<Rightarrow> int" where
  "crc16_ccitt_false_init_0000 = crc16_msb_first 0x1021 0x0000 0x0000"

definition crc16_ccitt_false_init_0000_xor_ffff :: "bytes \<Rightarrow> int" where
  "crc16_ccitt_false_init_0000_xor_ffff = crc16_msb_first 0x1021 0x0000 0xFFFF"

definition crc16_ccitt_true_init_0000 :: "bytes \<Rightarrow> int" where
  "crc16_ccitt_true_init_0000 = crc16_lsb_first 0x8408 0x0000 0x0000"

definition crc16_ccitt_true_init_0000_xor_ffff :: "bytes \<Rightarrow> int" where
  "crc16_ccitt_true_init_0000_xor_ffff = crc16_lsb_first 0x8408 0x0000 0xFFFF"

datatype crc_candidate =
    DART_IBM_ANSI_INIT_0000
  | CCITT_FALSE_INIT_0000
  | CCITT_FALSE_INIT_0000_XOR_FFFF
  | CCITT_TRUE_INIT_0000
  | CCITT_TRUE_INIT_0000_XOR_FFFF

text \<open>\<open>CRC_CANDIDATES\<close> has a key for every candidate, so \<open>get_crc_fn\<close> is total.\<close>

fun get_crc_fn :: "crc_candidate \<Rightarrow> bytes \<Rightarrow> int" where
  "get_crc_fn DART_IBM_ANSI_INIT_0000 = crc16_dart_ibm_ansi_init_0000"
| "get_crc_fn CCITT_FALSE_INIT_0000 = crc16_ccitt_false_init_0000"
| "get_crc_fn CCITT_FALSE_INIT_0000_XOR_FFFF = crc16_ccitt_false_init_0000_xor_ffff"
| "get_crc_fn CCITT_TRUE_INIT_0000 = crc16_ccitt_true_init_0000"
| "get_crc_fn CCITT_TRUE_INIT_0000_XOR_FFFF = crc16_ccitt_true_init_0000_xor_ffff"

definition DEFAULT_CRC_CANDIDATE :: crc_candidate where
  "DEFAULT_CRC_CANDIDATE = DART_IBM_ANSI_INIT_0000"

definition crc_bytes_le :: "int \<Rightarrow> bytes result" where
  "crc_bytes_le crc =
    (if \<not> (0 \<le> crc \<and> crc \<le> 0xFFFF) then Inl ValueError
     else Inr [byte_of_int (crc AND 0xFF), byte_of_int (drop_bit 8 crc AND 0xFF)])"

definition crc_from_le_bytes :: "int \<Rightarrow> int \<Rightarrow> int result" where
  "crc_from_le_bytes crc1 crc2 =
    (if \<not> (0 \<le> crc1 \<and> crc1 \<le> 0xFF) \<or> \<not> (0 \<le> crc2 \<and> crc2 \<le> 0xFF) then Inl ValueError
     else Inr (crc1 OR push_bit 8 crc2))"

section \<open>Error-detecting shift registers\<close>

lemma xor_zero_iff: "a XOR b = 0 \<longleftrightarrow> a = (b :: 16 word)"
  by (auto simp: bit_eq_iff bit_xor_iff)

lemma xor_left_cancel: "c XOR a = c XOR b \<longleftrightarrow> a = (b :: 16 word)"
  by (auto simp: bit_eq_iff bit_xor_iff)

lemma xor_right_cancel: "a XOR c = b XOR c \<longleftrightarrow> a = (b :: 16 word)"
  by (auto simp: bit_eq_iff bit_xor_iff)

text \<open>
  \<open>shift\<close> is one linear, invertible step; \<open>place\<close> is where a byte enters the
  register; \<open>ahead\<close> is where the following byte would have to sit now in order to
  be at its place eight steps later. A pair of neighbouring bytes then occupies the
  register without overlap, so any change of the pair changes the register, for good.
\<close>

locale crc_register =
  fixes shift :: "16 word \<Rightarrow> 16 word"
    and place :: "byte \<Rightarrow> 16 word"
    and ahead :: "byte \<Rightarrow> 16 word"
    and feed :: "16 word \<Rightarrow> byte \<Rightarrow> 16 word"
  assumes shift_xor: "shift (x XOR y) = shift x XOR shift y"
    and shift_kernel: "shift x = 0 \<Longrightarrow> x = 0"
    and shift_ahead: "(shift ^^ 8) (ahead b) = place b"
    and pair_inj: "place a XOR ahead b = place a' XOR ahead b' \<Longrightarrow> a = a' \<and> b = b'"
    and feed_eq: "feed c b = (shift ^^ 8) (c XOR place b)"
begin

lemma shift_inj: "shift a = shift b \<Longrightarrow> a = b"
  using shift_kernel [of "a XOR b"] by (simp add: shift_xor xor_zero_iff)

lemma shifts_inj: "(shift ^^ n) a = (shift ^^ n) b \<Longrightarrow> a = b"
  by (induction n) (auto dest: shift_inj)

lemma shifts_xor: "(shift ^^ n) (a XOR b) = (shift ^^ n) a XOR (shift ^^ n) b"
  by (induction n) (simp_all add: shift_xor)

lemma shifts_zero: "(shift ^^ n) 0 = 0"
  using shifts_xor [of n 0 0] by simp

lemma feed_inj: "feed c b = feed c' b \<Longrightarrow> c = c'"
  by (auto simp: feed_eq xor_right_cancel dest: shifts_inj)

lemma run_inj: "foldl feed c ys = foldl feed c' ys \<Longrightarrow> c = c'"
  by (induction ys arbitrary: c c') (auto dest: feed_inj)

lemma feed_two: "feed (feed c a) b = (shift ^^ 16) (c XOR (place a XOR ahead b))"
proof -
  have "feed (feed c a) b = (shift ^^ 8) ((shift ^^ 8) (c XOR place a) XOR (shift ^^ 8) (ahead b))"
    by (simp add: feed_eq shift_ahead)
  also have "\<dots> = (shift ^^ (8 + 8)) (c XOR (place a XOR ahead b))"
    by (simp only: shifts_xor [symmetric] funpow_add comp_apply xor.assoc)
  also have "\<dots> = (shift ^^ 16) (c XOR (place a XOR ahead b))" by simp
  finally show ?thesis .
qed

lemma burst_changes_register:
  assumes "(a, b) \<noteq> (a', b')"
  shows "foldl feed c (xs @ [a, b] @ ys) \<noteq> foldl feed c (xs @ [a', b'] @ ys)"
proof
  let ?c = "foldl feed c xs"
  assume "foldl feed c (xs @ [a, b] @ ys) = foldl feed c (xs @ [a', b'] @ ys)"
  then have "feed (feed ?c a) b = feed (feed ?c a') b'" by (auto dest: run_inj)
  then have "?c XOR (place a XOR ahead b) = ?c XOR (place a' XOR ahead b')"
    by (auto simp: feed_two dest: shifts_inj)
  then have "place a XOR ahead b = place a' XOR ahead b'"
    by (simp add: xor_left_cancel)
  with assms show False using pair_inj by blast
qed

lemma byte_changes_register:
  assumes "b \<noteq> b'"
  shows "foldl feed c (xs @ [b] @ ys) \<noteq> foldl feed c (xs @ [b'] @ ys)"
proof
  let ?c = "foldl feed c xs"
  assume "foldl feed c (xs @ [b] @ ys) = foldl feed c (xs @ [b'] @ ys)"
  then have "feed ?c b = feed ?c b'" by (auto dest: run_inj)
  then have "?c XOR place b = ?c XOR place b'" by (auto simp: feed_eq dest: shifts_inj)
  then have "place b = place b'" by (simp add: xor_left_cancel)
  with assms show False using pair_inj [of b 0 b' 0] by simp
qed

lemma absorbed: "c = place a XOR ahead b \<Longrightarrow> foldl feed c [a, b] = 0"
  by (simp add: feed_two shifts_zero)

end

section \<open>Both loops are such registers\<close>

lemma bit_0_test: "(a :: 16 word) AND 0x0001 \<noteq> 0 \<longleftrightarrow> bit a 0"
  by (simp add: and_one_eq bit_0 odd_iff_mod_2_eq_one)

lemma bit_15_test: "(a :: 16 word) AND 0x8000 \<noteq> 0 \<longleftrightarrow> bit a 15"
proof -
  have "(0x8000 :: 16 word) = mask 16 XOR mask 15" by (simp add: mask_eq_exp_minus_1)
  then have "bit (a AND 0x8000) n \<longleftrightarrow> n = 15 \<and> bit a n" for n
    by (simp only: bit_and_iff bit_xor_iff bit_mask_iff)
      (auto dest: bit_imp_le_length)
  then show ?thesis by (metis bit_0_eq bot_apply bot_bool_def bit_eqI)
qed

text \<open>What one step does to each bit of the register.\<close>

lemma bit_crc_shift_lsb:
  "bit (crc_shift_lsb poly c) n \<longleftrightarrow> (bit c (Suc n) \<noteq> (bit c 0 \<and> bit poly n))"
  by (simp only: crc_shift_lsb_def bit_0_test) (simp add: bit_xor_iff bit_drop_bit_eq)

lemma bit_crc_shift_msb:
  "bit (crc_shift_msb poly c) n \<longleftrightarrow>
     n < 16 \<and> ((0 < n \<and> bit c (n - 1)) \<noteq> (bit c 15 \<and> bit poly n))"
proof -
  have "bit (push_bit 1 c) n \<longleftrightarrow> n < 16 \<and> 0 < n \<and> bit c (n - 1)"
    by (simp only: bit_push_bit_iff) auto
  moreover have "bit poly n \<Longrightarrow> n < 16" by (auto dest: bit_imp_le_length)
  ultimately show ?thesis
    by (simp only: crc_shift_msb_def bit_15_test split: if_split) (auto simp: bit_xor_iff)
qed

lemma lsb_shift_xor:
  "crc_shift_lsb poly (a XOR b) = crc_shift_lsb poly a XOR crc_shift_lsb poly b"
  by (rule bit_word_eqI) (auto simp: bit_crc_shift_lsb bit_xor_iff)

lemma msb_shift_xor:
  "crc_shift_msb poly (a XOR b) = crc_shift_msb poly a XOR crc_shift_msb poly b"
  by (rule bit_word_eqI) (auto simp: bit_crc_shift_msb bit_xor_iff)

lemma lsb_shift_kernel:
  assumes "bit poly 15" "crc_shift_lsb poly a = 0"
  shows "a = 0"
proof (rule bit_word_eqI)
  have z: "bit a (Suc i) = (bit a 0 \<and> bit poly i)" for i
    using assms(2) bit_crc_shift_lsb [of poly a i] by simp
  have "\<not> bit a 0"
    using z [of 15] assms(1) by (auto dest: bit_imp_le_length)
  then show "bit a n \<longleftrightarrow> bit (0 :: 16 word) n" for n
    by (cases n) (simp_all add: z)
qed

lemma msb_shift_kernel:
  assumes "bit poly 0" "crc_shift_msb poly a = 0"
  shows "a = 0"
proof (rule bit_word_eqI)
  have z: "\<not> (i < 16 \<and> ((0 < i \<and> bit a (i - 1)) \<noteq> (bit a 15 \<and> bit poly i)))" for i
    using assms(2) bit_crc_shift_msb [of poly a i] by simp
  have top: "\<not> bit a 15" using z [of 0] assms(1) by simp
  fix n assume n: "n < LENGTH(16)"
  show "bit a n \<longleftrightarrow> bit (0 :: 16 word) n"
    using z [of "Suc n"] n top by (cases "n = 15") auto
qed

lemma bit_ucast_byte:
  "bit (ucast (b :: byte) :: 16 word) n \<longleftrightarrow> bit b n"
  by (auto simp: bit_ucast_iff dest: bit_imp_le_length)

lemma bit_shifted_byte:
  "bit (push_bit k (ucast (b :: byte)) :: 16 word) n \<longleftrightarrow> n < 16 \<and> k \<le> n \<and> bit b (n - k)"
  by (simp only: bit_push_bit_iff bit_ucast_byte) auto

lemma lsb_shift_clear:
  assumes "k < 8"
  shows "crc_shift_lsb poly (push_bit (Suc k) (ucast (b :: byte))) = push_bit k (ucast b)"
proof (rule bit_word_eqI)
  fix n
  have "bit b (n - k) \<Longrightarrow> n - k < 8" by (auto dest: bit_imp_le_length)
  with assms show "bit (crc_shift_lsb poly (push_bit (Suc k) (ucast b))) n \<longleftrightarrow>
      bit (push_bit k (ucast b) :: 16 word) n"
    by (simp only: bit_crc_shift_lsb bit_shifted_byte) auto
qed

lemma msb_shift_clear:
  assumes "k < 8"
  shows "crc_shift_msb poly (push_bit k (ucast (b :: byte))) = push_bit (Suc k) (ucast b)"
proof (rule bit_word_eqI)
  fix n
  have "bit b (15 - k) \<Longrightarrow> 15 - k < 8" by (auto dest: bit_imp_le_length)
  moreover have "n - 1 - k = n - Suc k" by simp
  ultimately show "bit (crc_shift_msb poly (push_bit k (ucast b))) n \<longleftrightarrow>
      bit (push_bit (Suc k) (ucast b) :: 16 word) n"
    using assms by (simp only: bit_crc_shift_msb bit_shifted_byte) auto
qed

lemma lsb_shift_ahead: "(crc_shift_lsb poly ^^ 8) (push_bit 8 (ucast (b :: byte))) = ucast b"
proof -
  have "(crc_shift_lsb poly ^^ n) (push_bit n (ucast b)) = ucast b" if "n \<le> 8" for n
    using that
  proof (induction n)
    case (Suc n)
    then show ?case by (simp only: funpow_Suc_right comp_apply lsb_shift_clear)
  qed simp
  from this [of 8] show ?thesis by (simp only:)
qed

lemma msb_shift_ahead: "(crc_shift_msb poly ^^ 8) (ucast (b :: byte)) = push_bit 8 (ucast b)"
proof -
  have "(crc_shift_msb poly ^^ n) (ucast b) = push_bit n (ucast b)" if "n \<le> 8" for n
    using that
  proof (induction n)
    case (Suc n)
    then show ?case by (simp only: funpow.simps comp_apply msb_shift_clear)
  qed simp
  from this [of 8] show ?thesis by (simp only:)
qed

lemma bit_two_bytes:
  "bit (ucast (a :: byte) XOR push_bit 8 (ucast (b :: byte)) :: 16 word) n \<longleftrightarrow>
     (if n < 8 then bit a n else bit b (n - 8))"
proof -
  have "bit a n \<Longrightarrow> n < 8" "bit b (n - 8) \<Longrightarrow> n - 8 < 8" by (auto dest: bit_imp_le_length)
  then show ?thesis by (simp only: bit_xor_iff bit_ucast_byte bit_shifted_byte) auto
qed

lemma two_bytes_inj:
  assumes "(ucast (a :: byte) XOR push_bit 8 (ucast (b :: byte)) :: 16 word) =
    ucast (a' :: byte) XOR push_bit 8 (ucast (b' :: byte))"
  shows "a = a' \<and> b = b'"
proof (intro conjI bit_word_eqI)
  have same: "(if n < 8 then bit a n else bit b (n - 8)) = (if n < 8 then bit a' n else bit b' (n - 8))"
    for n
    using arg_cong [OF assms, of "\<lambda>w. bit w n"] by (simp only: bit_two_bytes)
  fix n assume "n < LENGTH(8)"
  then show "bit a n = bit a' n" using same [of n] by simp
  show "bit b n = bit b' n" using same [of "n + 8"] by simp
qed

text \<open>The reflected registers, with generators \<open>0xA001\<close> and \<open>0x8408\<close>.\<close>

lemma reflected_register:
  assumes "bit poly 15"
  shows "crc_register (crc_shift_lsb poly) ucast (\<lambda>b. push_bit 8 (ucast b)) (crc_byte_lsb poly)"
proof
  show "crc_shift_lsb poly x = 0 \<Longrightarrow> x = 0" for x using assms by (rule lsb_shift_kernel)
  show "ucast p XOR push_bit 8 (ucast q) = (ucast p' XOR push_bit 8 (ucast q') :: 16 word) \<Longrightarrow>
      p = p' \<and> q = q'" for p q p' q' :: byte
    by (rule two_bytes_inj)
qed (simp_all only: lsb_shift_xor lsb_shift_ahead crc_byte_lsb_def)

lemma direct_register:
  assumes "bit poly 0"
  shows "crc_register (crc_shift_msb poly) (\<lambda>b. push_bit 8 (ucast b)) ucast (crc_byte_msb poly)"
proof
  show "crc_shift_msb poly x = 0 \<Longrightarrow> x = 0" for x using assms by (rule msb_shift_kernel)
  show "push_bit 8 (ucast p) XOR ucast q = (push_bit 8 (ucast p') XOR ucast q' :: 16 word) \<Longrightarrow>
      p = p' \<and> q = q'" for p q p' q' :: byte
    using two_bytes_inj [of q p q' p'] by (simp only: xor.commute)
qed (simp_all only: msb_shift_xor msb_shift_ahead crc_byte_msb_def)

interpretation ibm: crc_register "crc_shift_lsb 0xA001" ucast "\<lambda>b. push_bit 8 (ucast b)"
  "crc_byte_lsb 0xA001"
  by (rule reflected_register) simp

interpretation ccitt_true: crc_register "crc_shift_lsb 0x8408" ucast
  "\<lambda>b. push_bit 8 (ucast b)" "crc_byte_lsb 0x8408"
  by (rule reflected_register) simp

text \<open>The non-reflected register, with generator \<open>0x1021\<close>.\<close>

interpretation ccitt_false: crc_register "crc_shift_msb 0x1021" "\<lambda>b. push_bit 8 (ucast b)"
  ucast "crc_byte_msb 0x1021"
  by (rule direct_register) simp

section \<open>What the CRC functions guarantee\<close>

lemmas crc_function_defs =
  crc16_dart_ibm_ansi_init_0000_def crc16_ccitt_false_init_0000_def
  crc16_ccitt_false_init_0000_xor_ffff_def crc16_ccitt_true_init_0000_def
  crc16_ccitt_true_init_0000_xor_ffff_def crc16_lsb_first_def crc16_msb_first_def

text \<open>Evaluation of the loops on concrete messages by the simplifier.\<close>

lemma funpow_8: "(f ^^ 8) x = f (f (f (f (f (f (f (f x)))))))"
  by (simp add: eval_nat_numeral)

lemma crc_shift_lsb_odd:
  "crc_shift_lsb poly c = (if odd c then drop_bit 1 c XOR poly else drop_bit 1 c)"
  by (simp only: crc_shift_lsb_def bit_0_test bit_0)

lemmas crc_eval =
  crc_function_defs crc_byte_lsb_def crc_byte_msb_def crc_shift_lsb_odd crc_shift_msb_def
  funpow_8 crc_bytes_le_def

lemma crc_range: "0 \<le> get_crc_fn k data \<and> get_crc_fn k data \<le> 0xFFFF"
proof -
  have "uint (w :: 16 word) \<le> 65535" for w
    using uint_lt2p [of w] by simp
  then show ?thesis by (cases k) (simp_all add: crc_function_defs)
qed

lemma crc_detects_byte:
  "b \<noteq> b' \<Longrightarrow> get_crc_fn k (xs @ [b] @ ys) \<noteq> get_crc_fn k (xs @ [b'] @ ys)"
  using ibm.byte_changes_register [of b b' 0 xs ys]
    ccitt_true.byte_changes_register [of b b' 0 xs ys]
    ccitt_false.byte_changes_register [of b b' 0 xs ys]
  by (cases k) (simp_all add: crc_function_defs xor_right_cancel word_uint_eq_iff [symmetric])

lemma crc_burst_changes:
  assumes "(a, b) \<noteq> (a', b')"
  shows "get_crc_fn k (xs @ [a, b] @ ys) \<noteq> get_crc_fn k (xs @ [a', b'] @ ys)"
  using ibm.burst_changes_register [OF assms, of 0 xs ys]
    ccitt_true.burst_changes_register [OF assms, of 0 xs ys]
    ccitt_false.burst_changes_register [OF assms, of 0 xs ys]
  by (cases k) (simp_all add: crc_function_defs xor_right_cancel word_uint_eq_iff [symmetric])

text \<open>
  A corruption confined to two neighbouring bytes (any burst of up to nine bits,
  and any sixteen bits aligned to bytes) changes the checksum, whichever of the five
  named candidates computes it and wherever in the message it strikes.
\<close>

theorem crc_detects_burst:
  assumes "(a, b) \<noteq> (a', b')"
  shows "get_crc_fn k (xs @ [a, b] @ ys) \<noteq> get_crc_fn k (xs @ [a', b'] @ ys)"
  using assms by (rule crc_burst_changes)

theorem crc_detects_burst_witness:
  "get_crc_fn DART_IBM_ANSI_INIT_0000 ([0x01, 0x30] @ [0x01, 0x01] @ [0x05]) \<noteq>
   get_crc_fn DART_IBM_ANSI_INIT_0000 ([0x01, 0x30] @ [0x03, 0x81] @ [0x05])"
  by (rule crc_detects_burst) simp

lemma int_bit_high: "0 \<le> c \<Longrightarrow> c \<le> 0xFFFF \<Longrightarrow> bit (c :: int) n \<Longrightarrow> n < 16"
proof -
  assume "0 \<le> c" "c \<le> 0xFFFF" and b: "bit c n"
  then have "take_bit 16 c = c" by (simp add: take_bit_int_eq_self_iff)
  with b show "n < 16" by (metis bit_take_bit_iff)
qed

lemma low_byte_mask: "(x :: int) AND 0xFF = take_bit 8 x"
  by (simp add: take_bit_eq_mask mask_eq_exp_minus_1)

lemma crc_bytes_le_Inr:
  assumes "0 \<le> c" "c \<le> 0xFFFF"
  shows "crc_bytes_le c = Inr [word_of_int c, word_of_int (drop_bit 8 c)]"
  using assms
  by (auto simp: crc_bytes_le_def low_byte_mask word_of_int_eq_iff)

lemma crc_trailer_roundtrip:
  assumes "0 \<le> c" "c \<le> 0xFFFF" "crc_bytes_le c = Inr [lo, hi]"
  shows "crc_from_le_bytes (int_of_byte lo) (int_of_byte hi) = Inr c"
proof -
  have "int_of_byte lo = take_bit 8 c" "int_of_byte hi = take_bit 8 (drop_bit 8 c)"
    using assms by (auto simp: crc_bytes_le_Inr uint_word_of_int take_bit_eq_mod)
  moreover have "take_bit 8 c OR push_bit 8 (take_bit 8 (drop_bit 8 c)) = c"
  proof (rule bit_eqI)
    fix n show "bit (take_bit 8 c OR push_bit 8 (take_bit 8 (drop_bit 8 c))) n = bit c n"
      using int_bit_high [OF assms(1,2), of n]
      by (auto simp: bit_or_iff bit_take_bit_iff bit_push_bit_iff bit_drop_bit_eq)
  qed
  moreover have "take_bit 8 c \<le> 255" "take_bit 8 (drop_bit 8 c) \<le> 255"
    using take_bit_int_less_exp [of 8 c] take_bit_int_less_exp [of 8 "drop_bit 8 c"] by simp_all
  ultimately show ?thesis by (simp add: crc_from_le_bytes_def)
qed

lemma crc_from_le_bytes_Inr:
  "crc_from_le_bytes (int_of_byte a) (int_of_byte b) =
     Inr (int_of_byte a OR push_bit 8 (int_of_byte b))"
  by (simp add: crc_from_le_bytes_def)

text \<open>
  The residue property of the canonical checksum: running it over a message
  followed by the message's own little-endian trailer leaves the register at zero.
\<close>

theorem crc_residue_zero:
  "\<exists>trailer. crc_bytes_le (crc16_dart_ibm_ansi_init_0000 data) = Inr trailer \<and>
     crc16_dart_ibm_ansi_init_0000 (data @ trailer) = 0"
proof -
  let ?r = "foldl (crc_byte_lsb 0xA001) 0 data"
  let ?lo = "ucast ?r :: byte" and ?hi = "ucast (drop_bit 8 ?r) :: byte"
  have c: "crc16_dart_ibm_ansi_init_0000 data = uint ?r"
    by (simp add: crc_function_defs)
  have "?r = ucast ?lo XOR push_bit 8 (ucast ?hi)"
    by (rule bit_word_eqI)
      (auto simp: bit_two_bytes bit_ucast_iff bit_drop_bit_eq dest: bit_imp_le_length)
  then have "foldl (crc_byte_lsb 0xA001) ?r [?lo, ?hi] = 0" by (rule ibm.absorbed)
  then have "crc16_dart_ibm_ansi_init_0000 (data @ [?lo, ?hi]) = 0"
    by (simp add: crc_function_defs)
  moreover have "word_of_int (uint ?r) = ?lo" "word_of_int (drop_bit 8 (uint ?r)) = ?hi"
    by (rule bit_word_eqI, auto simp: bit_word_of_int_iff bit_ucast_iff bit_drop_bit_eq bit_uint_iff
      dest: bit_imp_le_length)+
  then have "crc_bytes_le (crc16_dart_ibm_ansi_init_0000 data) = Inr [?lo, ?hi]"
    using crc_range [of DART_IBM_ANSI_INIT_0000 data] unfolding c [symmetric]
    by (simp add: crc_bytes_le_Inr)
  ultimately show ?thesis by blast
qed

end
