(* ===== verification/Line_Frame.thy ===== *)
theory Line_Frame
  imports Line_Crc
begin

text \<open>
  \<open>protocol/dart/line/escaping.py\<close>, \<open>models.py\<close>, \<open>frame_builder.py\<close> and
  \<open>frame_parser.py\<close>: DLE transparency, the line frame, building a wire image and
  parsing one complete wire image.
\<close>

section \<open>DLE transparency\<close>

fun escape_dle :: "bytes \<Rightarrow> bytes" where
  "escape_dle [] = []"
| "escape_dle (b # bs) = (if b = SF then DLE # b # escape_dle bs else b # escape_dle bs)"

fun unescape_dle :: "bytes \<Rightarrow> bytes result" where
  "unescape_dle [] = Inr []"
| "unescape_dle (b # bs) =
    (if b = DLE then
       (case bs of
          [] \<Rightarrow> Inl (DleEscapeError Truncated_escape)
        | nxt # rest \<Rightarrow>
            if nxt \<noteq> SF then bind_result (unescape_dle bs) (\<lambda>out. Inr (DLE # out))
            else bind_result (unescape_dle rest) (\<lambda>out. Inr (SF # out)))
     else if b = SF then Inl (DleEscapeError Unescaped_SF)
     else bind_result (unescape_dle bs) (\<lambda>out. Inr (b # out)))"

lemma escape_dle_append [simp]: "escape_dle (xs @ ys) = escape_dle xs @ escape_dle ys"
  by (induction xs) simp_all

lemma escape_dle_Nil_iff [simp]: "escape_dle xs = [] \<longleftrightarrow> xs = []"
  by (cases xs) simp_all

lemma length_escape_dle: "length (escape_dle xs) = length xs + count_list xs SF"
  by (induction xs) simp_all

lemma last_escape_dle [simp]: "xs \<noteq> [] \<Longrightarrow> last (escape_dle xs) = last xs"
  by (induction xs) auto

lemma hd_escape_dle: "xs \<noteq> [] \<Longrightarrow> hd (escape_dle xs) \<noteq> SF"
  by (cases xs) auto

lemma unescape_escape:
  "xs = [] \<or> last xs \<noteq> DLE \<Longrightarrow> unescape_dle (escape_dle xs) = Inr xs"
proof (induction xs)
  case (Cons b bs)
  then have IH: "unescape_dle (escape_dle bs) = Inr bs" by (cases "bs = []") auto
  show ?case
  proof (cases "b = DLE")
    case True
    with Cons.prems have "bs \<noteq> []" by auto
    then obtain c cs where "escape_dle bs = c # cs" "c \<noteq> SF"
      using hd_escape_dle [of bs] by (cases "escape_dle bs") auto
    with IH True show ?thesis by simp
  qed (use IH in simp)
qed simp

lemma escape_unescape:
  "unescape_dle d = Inr xs \<Longrightarrow> d = escape_dle xs \<and> (xs = [] \<or> last xs \<noteq> DLE)"
proof (induction d arbitrary: xs rule: unescape_dle.induct)
  case (2 b bs)
  show ?case
  proof (cases "b = DLE")
    case True
    with "2.prems" obtain nxt rest where bs: "bs = nxt # rest"
      by (cases bs) auto
    show ?thesis
    proof (cases "nxt = SF")
      case True
      with "2.prems" \<open>b = DLE\<close> bs obtain out where
        "unescape_dle rest = Inr out" "xs = SF # out"
        by (auto simp: bind_result_Inr_iff)
      with "2.IH"(2) [OF \<open>b = DLE\<close> bs] True \<open>b = DLE\<close> bs show ?thesis by auto
    next
      case False
      with "2.prems" \<open>b = DLE\<close> bs obtain out where
        out: "unescape_dle bs = Inr out" "xs = DLE # out"
        by (auto simp: bind_result_Inr_iff)
      with "2.IH"(1) [OF \<open>b = DLE\<close> bs False] have "bs = escape_dle out" "out = [] \<or> last out \<noteq> DLE"
        by auto
      with out bs \<open>b = DLE\<close> show ?thesis by auto
    qed
  next
    case False
    with "2.prems" obtain out where
      out: "b \<noteq> SF" "unescape_dle bs = Inr out" "xs = b # out"
      by (auto simp: bind_result_Inr_iff split: if_splits)
    with "2.IH"(3) [OF False] have "bs = escape_dle out" "out = [] \<or> last out \<noteq> DLE"
      by auto
    with out False show ?thesis by auto
  qed
qed simp

text \<open>
  DLE escaping is a bijection between the frame bodies that do not end in a bare
  DLE and the byte strings the receiver accepts: unescaping succeeds exactly on
  escaped bodies and returns the body, and every other string is rejected.
\<close>

theorem unescape_dle_iff:
  "unescape_dle d = Inr xs \<longleftrightarrow> d = escape_dle xs \<and> \<not> (xs \<noteq> [] \<and> last xs = DLE)"
  using escape_unescape unescape_escape by blast

section \<open>Line frames\<close>

datatype parse_error_code =
  TOO_SHORT | MISSING_SF | INVALID_TERMINATOR | MALFORMED_DLE | TOO_SHORT_DATA
  | MISSING_ETX | BUFFER_TOO_LARGE

datatype parse_message =
    Shorter_than_ADR_CTRL_SF
  | Must_end_with_SF
  | Final_SF_escaped
  | Dle_message dle_cause
  | Buffer_length_exceeds nat
  | Buffer_shorter_than_ADR_CTRL
  | Data_control_without_trailer
  | Data_frame_too_short
  | Must_end_with_ETX

record parse_error =
  pe_code :: parse_error_code
  pe_message :: parse_message
  pe_raw :: bytes

record line_frame =
  lf_address :: int
  lf_control :: int
  lf_control_type :: control_type
  lf_sequence :: int
  lf_payload :: bytes
  lf_received_crc :: "int option"
  lf_computed_crc :: "int option"
  lf_crc_valid :: "bool option"
  lf_raw_frame :: bytes
  lf_unknown_control :: bool

section \<open>Building\<close>

definition validate_address :: "int \<Rightarrow> unit result" where
  "validate_address address =
    (if \<not> (0 \<le> address \<and> address \<le> 0xFF) then Inl FrameBuildError else Inr ())"

definition build_control_frame :: "int \<Rightarrow> control_type \<Rightarrow> int \<Rightarrow> bytes result" where
  "build_control_frame address ct sequence =
    (if ct = CtDATA then Inl FrameBuildError
     else if ct = CtUNKNOWN then Inl FrameBuildError
     else bind_result (validate_address address) (\<lambda>_.
       bind_result (compose_control ct sequence) (\<lambda>control.
         let buffer = [byte_of_int address, byte_of_int control] in
         if length buffer > MAX_BUFFER_SIZE then Inl FrameBuildError
         else Inr (escape_dle buffer @ [SF]))))"

definition build_poll :: "int \<Rightarrow> bytes result" where
  "build_poll address = build_control_frame address CtPOLL 0"

definition build_ack :: "int \<Rightarrow> int \<Rightarrow> bytes result" where
  "build_ack address sequence = build_control_frame address CtACK sequence"

definition build_nak :: "int \<Rightarrow> int \<Rightarrow> bytes result" where
  "build_nak address sequence = build_control_frame address CtNAK sequence"

definition build_eot :: "int \<Rightarrow> int \<Rightarrow> bytes result" where
  "build_eot address sequence = build_control_frame address CtEOT sequence"

definition build_ackpoll :: "int \<Rightarrow> int \<Rightarrow> bytes result" where
  "build_ackpoll address sequence = build_control_frame address CtACKPOLL sequence"

definition build_iap :: "int \<Rightarrow> bytes result" where
  "build_iap address = build_control_frame address CtIAP 0"

text \<open>\<open>fn = crc_fn if crc_fn is not None else get_crc_fn(crc_candidate)\<close>.\<close>

definition select_crc :: "(bytes \<Rightarrow> int) option \<Rightarrow> crc_candidate \<Rightarrow> bytes \<Rightarrow> int" where
  "select_crc crc_fn candidate =
    (case crc_fn of Some fn \<Rightarrow> fn | None \<Rightarrow> get_crc_fn candidate)"

definition build_data_frame ::
  "int \<Rightarrow> int \<Rightarrow> bytes \<Rightarrow> (bytes \<Rightarrow> int) option \<Rightarrow> crc_candidate \<Rightarrow> bytes result" where
  "build_data_frame address sequence payload crc_fn candidate =
    bind_result (validate_address address) (\<lambda>_.
      if \<not> (0 \<le> sequence \<and> sequence \<le> 0x0F) then Inl FrameBuildError
      else bind_result (compose_control CtDATA sequence) (\<lambda>control.
        let crc_input = [byte_of_int address, byte_of_int control] @ payload;
            crc = select_crc crc_fn candidate crc_input
        in bind_result (crc_bytes_le crc) (\<lambda>trailer.
          let buffer = crc_input @ trailer @ [ETX] in
          if length buffer > MAX_BUFFER_SIZE then Inl FrameBuildError
          else Inr (escape_dle buffer @ [SF]))))"

section \<open>Parsing\<close>

text \<open>
  A control byte read from a buffer is in range, so \<open>classify_control\<close>,
  \<open>extract_sequence\<close> and \<open>crc_from_le_bytes\<close> cannot raise inside the parser;
  these are their values there (\<open>classify_byte_total\<close> and its companions).
\<close>

definition classify_byte :: "byte \<Rightarrow> control_type" where
  "classify_byte b = (case classify_control (int_of_byte b) of Inr ct \<Rightarrow> ct | Inl _ \<Rightarrow> CtUNKNOWN)"

definition sequence_of_byte :: "byte \<Rightarrow> int" where
  "sequence_of_byte b = (case extract_sequence (int_of_byte b) of Inr s \<Rightarrow> s | Inl _ \<Rightarrow> 0)"

definition crc_of_bytes :: "byte \<Rightarrow> byte \<Rightarrow> int" where
  "crc_of_bytes lo hi =
    (case crc_from_le_bytes (int_of_byte lo) (int_of_byte hi) of Inr c \<Rightarrow> c | Inl _ \<Rightarrow> 0)"

lemma classify_byte_total: "classify_control (int_of_byte b) = Inr (classify_byte b)"
  using classify_control_byte [of b] by (auto simp: classify_byte_def)

lemma sequence_of_byte_total: "extract_sequence (int_of_byte b) = Inr (sequence_of_byte b)"
  using extract_sequence_byte [of b] by (auto simp: sequence_of_byte_def)

lemma sequence_of_byte_range: "0 \<le> sequence_of_byte b \<and> sequence_of_byte b \<le> 15"
  using extract_sequence_byte [of b] by (auto simp: sequence_of_byte_def)

lemma crc_of_bytes_total:
  "crc_from_le_bytes (int_of_byte lo) (int_of_byte hi) = Inr (crc_of_bytes lo hi)"
  by (simp add: crc_of_bytes_def crc_from_le_bytes_Inr)

text \<open>
  The second half of \<open>parse_frame\<close>, on the unescaped buffer.
\<close>

definition parse_buffer ::
  "bytes \<Rightarrow> bytes \<Rightarrow> (bytes \<Rightarrow> int) option \<Rightarrow> crc_candidate \<Rightarrow> parse_error + line_frame" where
  "parse_buffer raw buffer crc_fn candidate =
    (if length buffer > MAX_BUFFER_SIZE then
       Inl \<lparr>pe_code = BUFFER_TOO_LARGE, pe_message = Buffer_length_exceeds (length buffer), pe_raw = raw\<rparr>
     else if length buffer < 2 then
       Inl \<lparr>pe_code = TOO_SHORT, pe_message = Buffer_shorter_than_ADR_CTRL, pe_raw = raw\<rparr>
     else
       let address = int_of_byte (buffer ! 0);
           control = int_of_byte (buffer ! 1);
           control_type = classify_byte (buffer ! 1);
           sequence = sequence_of_byte (buffer ! 1);
           unknown = (control_type = CtUNKNOWN)
       in if length buffer = 2 then
            (if control_type = CtDATA then
               Inl \<lparr>pe_code = TOO_SHORT_DATA, pe_message = Data_control_without_trailer, pe_raw = raw\<rparr>
             else
               Inr \<lparr>lf_address = address, lf_control = control, lf_control_type = control_type,
                 lf_sequence = sequence, lf_payload = [], lf_received_crc = None,
                 lf_computed_crc = None, lf_crc_valid = None, lf_raw_frame = raw,
                 lf_unknown_control = unknown\<rparr>)
          else if length buffer < MIN_DATA_FRAME_SIZE then
            Inl \<lparr>pe_code = TOO_SHORT_DATA, pe_message = Data_frame_too_short, pe_raw = raw\<rparr>
          else if last buffer \<noteq> ETX then
            Inl \<lparr>pe_code = MISSING_ETX, pe_message = Must_end_with_ETX, pe_raw = raw\<rparr>
          else
            let n = length buffer;
                crc1 = buffer ! (n - 3);
                crc2 = buffer ! (n - 2);
                payload = drop 2 (take (n - 3) buffer);
                received_crc = crc_of_bytes crc1 crc2;
                computed_crc = select_crc crc_fn candidate ([buffer ! 0, buffer ! 1] @ payload);
                crc_valid = (computed_crc = received_crc)
            in Inr \<lparr>lf_address = address, lf_control = control, lf_control_type = control_type,
                 lf_sequence = sequence, lf_payload = payload,
                 lf_received_crc = Some received_crc, lf_computed_crc = Some computed_crc,
                 lf_crc_valid = Some crc_valid, lf_raw_frame = raw,
                 lf_unknown_control = unknown\<rparr>)"

definition parse_frame ::
  "bytes \<Rightarrow> (bytes \<Rightarrow> int) option \<Rightarrow> crc_candidate \<Rightarrow> parse_error + line_frame" where
  "parse_frame raw crc_fn candidate =
    (if length raw < 3 then
       Inl \<lparr>pe_code = TOO_SHORT, pe_message = Shorter_than_ADR_CTRL_SF, pe_raw = raw\<rparr>
     else if last raw \<noteq> SF then
       Inl \<lparr>pe_code = MISSING_SF, pe_message = Must_end_with_SF, pe_raw = raw\<rparr>
     else if length raw \<ge> 2 \<and> raw ! (length raw - 2) = 0x10 then
       Inl \<lparr>pe_code = INVALID_TERMINATOR, pe_message = Final_SF_escaped, pe_raw = raw\<rparr>
     else (case unescape_dle (butlast raw) of
         Inl (DleEscapeError cause) \<Rightarrow>
           Inl \<lparr>pe_code = MALFORMED_DLE, pe_message = Dle_message cause, pe_raw = raw\<rparr>
       | Inl _ \<Rightarrow> Inl \<lparr>pe_code = MALFORMED_DLE, pe_message = Dle_message Truncated_escape, pe_raw = raw\<rparr>
       | Inr buffer \<Rightarrow> parse_buffer raw buffer crc_fn candidate))"

section \<open>The parser on escaped buffers\<close>

lemma parse_frame_escaped:
  assumes "2 \<le> length buffer" "last buffer \<noteq> DLE"
  shows "parse_frame (escape_dle buffer @ [SF]) crc_fn candidate =
    parse_buffer (escape_dle buffer @ [SF]) buffer crc_fn candidate"
proof -
  let ?w = "escape_dle buffer"
  have ne: "buffer \<noteq> []" using assms(1) by auto
  then have w: "?w \<noteq> []" by simp
  have len: "2 \<le> length ?w" using assms(1) by (simp add: length_escape_dle)
  have "(?w @ [SF]) ! (length (?w @ [SF]) - 2) = last ?w"
    using w len by (simp add: nth_append last_conv_nth)
  also have "\<dots> = last buffer" using ne by simp
  finally have "(?w @ [SF]) ! (length (?w @ [SF]) - 2) \<noteq> 0x10"
    using assms(2) by (simp add: DLE_def)
  with len show ?thesis
    using assms(2) by (simp add: parse_frame_def unescape_escape)
qed

definition is_data_frame_of ::
  "line_frame \<Rightarrow> int \<Rightarrow> int \<Rightarrow> bytes \<Rightarrow> bytes \<Rightarrow> bool" where
  "is_data_frame_of f address sequence payload wire \<longleftrightarrow>
     lf_address f = address \<and> lf_control_type f = CtDATA \<and> lf_sequence f = sequence \<and>
     lf_payload f = payload \<and> lf_crc_valid f = Some True \<and> lf_raw_frame f = wire \<and>
     \<not> lf_unknown_control f"

definition is_control_frame_of ::
  "line_frame \<Rightarrow> int \<Rightarrow> control_type \<Rightarrow> int \<Rightarrow> bytes \<Rightarrow> bool" where
  "is_control_frame_of f address ct sequence wire \<longleftrightarrow>
     lf_address f = address \<and> lf_control_type f = ct \<and> lf_sequence f = sequence \<and>
     lf_payload f = [] \<and> lf_crc_valid f = None \<and> lf_raw_frame f = wire \<and>
     \<not> lf_unknown_control f"

lemmas frame_specs = is_data_frame_of_def is_control_frame_of_def

lemma composed_byte:
  assumes "compose_control ct s = Inr c" "composable ct s"
  shows "classify_byte (byte_of_int c) = ct" "sequence_of_byte (byte_of_int c) = s"
    "byte_of_int c \<noteq> DLE" "byte_of_int c \<noteq> SF"
proof -
  have c: "0x20 \<le> c" "c \<le> 0xEF" "classify_control c = Inr ct" "extract_sequence c = Inr s"
    using compose_control_spec [OF assms(2)] assms(1) by auto
  have r: "int_of_byte (byte_of_int c) = c" using c by (intro int_of_byte_of_int) simp_all
  show "classify_byte (byte_of_int c) = ct" by (simp add: classify_byte_def r c)
  show "sequence_of_byte (byte_of_int c) = s" by (simp add: sequence_of_byte_def r c)
  have "int_of_byte DLE = 0x10" "int_of_byte SF = 0xFA" by (simp_all add: line_consts)
  with c r show "byte_of_int c \<noteq> DLE" "byte_of_int c \<noteq> SF" by fastforce+
qed

text \<open>A DATA frame carries at most this much payload within \<open>MAX_BUFFER_SIZE\<close>.\<close>

definition max_payload :: nat where
  "max_payload = MAX_BUFFER_SIZE - MIN_DATA_FRAME_SIZE"

lemma build_data_frame_Inr:
  assumes "0 \<le> a" "a \<le> 255" "0 \<le> s" "s \<le> 15" "length p \<le> max_payload"
  obtains c lo hi where
    "compose_control CtDATA s = Inr c"
    "crc_bytes_le (get_crc_fn k ([byte_of_int a, byte_of_int c] @ p)) = Inr [lo, hi]"
    "build_data_frame a s p None k =
      Inr (escape_dle ([byte_of_int a, byte_of_int c] @ p @ [lo, hi, ETX]) @ [SF])"
proof -
  have "composable CtDATA s" using assms by (simp add: composable_def)
  then obtain c where c: "compose_control CtDATA s = Inr c"
    using compose_control_ok_iff by blast
  let ?crc = "get_crc_fn k ([byte_of_int a, byte_of_int c] @ p)"
  have rng: "0 \<le> ?crc" "?crc \<le> 0xFFFF" using crc_range by blast+
  obtain lo hi where t: "crc_bytes_le ?crc = Inr [lo, hi]"
    using crc_bytes_le_Inr [OF rng] by blast
  have "length ([byte_of_int a, byte_of_int c] @ p @ [lo, hi, ETX]) \<le> MAX_BUFFER_SIZE"
    using assms(5) by (simp add: max_payload_def line_consts)
  then have "build_data_frame a s p None k =
      Inr (escape_dle ([byte_of_int a, byte_of_int c] @ p @ [lo, hi, ETX]) @ [SF])"
    using assms c t
    by (simp add: build_data_frame_def validate_address_def select_crc_def Let_def)
  with that c t show thesis by blast
qed

lemma parse_data_buffer:
  assumes "length p \<le> max_payload"
  shows "parse_buffer raw ([x, y] @ p @ [lo, hi, ETX]) None k =
    Inr \<lparr>lf_address = int_of_byte x, lf_control = int_of_byte y,
      lf_control_type = classify_byte y, lf_sequence = sequence_of_byte y, lf_payload = p,
      lf_received_crc = Some (crc_of_bytes lo hi),
      lf_computed_crc = Some (get_crc_fn k ([x, y] @ p)),
      lf_crc_valid = Some (get_crc_fn k ([x, y] @ p) = crc_of_bytes lo hi),
      lf_raw_frame = raw, lf_unknown_control = (classify_byte y = CtUNKNOWN)\<rparr>"
  using assms
  by (simp add: parse_buffer_def max_payload_def line_consts select_crc_def Let_def nth_append)

lemma data_frame_parses:
  assumes "0 \<le> a" "a \<le> 255" "0 \<le> s" "s \<le> 15" "length p \<le> max_payload"
  shows "\<exists>wire f. build_data_frame a s p None k = Inr wire \<and>
    parse_frame wire None k = Inr f \<and> is_data_frame_of f a s p wire"
proof -
  from build_data_frame_Inr [OF assms, of k] obtain c lo hi where
    c: "compose_control CtDATA s = Inr c"
    and t: "crc_bytes_le (get_crc_fn k ([byte_of_int a, byte_of_int c] @ p)) = Inr [lo, hi]"
    and w: "build_data_frame a s p None k =
      Inr (escape_dle ([byte_of_int a, byte_of_int c] @ p @ [lo, hi, ETX]) @ [SF])"
    by blast
  have cb: "classify_byte (byte_of_int c) = CtDATA" "sequence_of_byte (byte_of_int c) = s"
    using composed_byte [OF c] assms by (simp_all add: composable_def)
  have "crc_of_bytes lo hi = get_crc_fn k ([byte_of_int a, byte_of_int c] @ p)"
    using crc_trailer_roundtrip [OF _ _ t] crc_range by (simp add: crc_of_bytes_def)
  with cb show ?thesis
    using assms(1,2) unfolding w
    by (simp add: parse_frame_escaped parse_data_buffer [OF assms(5), simplified]
        frame_specs int_of_byte_of_int del: escape_dle.simps escape_dle_append)
qed

text \<open>
  C13. Round trip of a DATA frame: every payload that fits the buffer is built, for
  every address, sequence number and CRC candidate, and parsing the wire image gives
  back exactly the address, the sequence number and the payload, with a valid CRC.
\<close>

theorem data_frame_roundtrip:
  assumes "0 \<le> a" "a \<le> 255" "0 \<le> s" "s \<le> 15" "length p \<le> max_payload"
  shows "\<exists>wire f. build_data_frame a s p None k = Inr wire \<and>
    parse_frame wire None k = Inr f \<and> is_data_frame_of f a s p wire"
  using assms by (rule data_frame_parses)

theorem data_frame_roundtrip_witness:
  "\<exists>wire f. build_data_frame 1 15 [0x10, 0xFA] None DART_IBM_ANSI_INIT_0000 = Inr wire \<and>
    parse_frame wire None DART_IBM_ANSI_INIT_0000 = Inr f \<and>
    is_data_frame_of f 1 15 [0x10, 0xFA] wire"
  by (rule data_frame_roundtrip) (simp_all add: max_payload_def line_consts)

lemma build_data_frame_Inr_guards:
  assumes "build_data_frame a s p None k = Inr wire"
  shows "0 \<le> a \<and> a \<le> 255 \<and> 0 \<le> s \<and> s \<le> 15 \<and> length p \<le> max_payload"
proof -
  from assms obtain c t where rng: "0 \<le> a" "a \<le> 255" "0 \<le> s" "s \<le> 15"
    and t: "crc_bytes_le (get_crc_fn k (byte_of_int a # byte_of_int c # p)) = Inr t"
    and len: "\<not> MAX_BUFFER_SIZE < length (byte_of_int a # byte_of_int c # p @ t @ [ETX])"
    by (auto simp: build_data_frame_def bind_result_Inr_iff validate_address_def Let_def
        select_crc_def simp del: escape_dle.simps split: if_splits)
  have "length t = 2" using t by (auto simp: crc_bytes_le_def split: if_splits)
  with rng len show ?thesis by (simp add: max_payload_def line_consts)
qed

lemma append_trailer_inj:
  "xs @ [a, b, c] = ys @ [a', b', c'] \<longleftrightarrow> xs = ys \<and> a = a' \<and> b = b' \<and> c = c'"
  by (simp add: append_eq_append_conv)

lemma escape_dle_inj:
  assumes "escape_dle xs = escape_dle ys" "last xs \<noteq> DLE" "last ys \<noteq> DLE"
  shows "xs = ys"
  by (metis assms unescape_escape sum.inject(2))

text \<open>
  The builder's guards are exact: a DATA frame is built if and only if the address is a
  byte, the sequence number a nibble and the payload fits.
\<close>

theorem build_data_frame_ok_iff:
  "(\<exists>wire. build_data_frame a s p None k = Inr wire) \<longleftrightarrow>
     0 \<le> a \<and> a \<le> 255 \<and> 0 \<le> s \<and> s \<le> 15 \<and> length p \<le> max_payload"
  using build_data_frame_Inr_guards build_data_frame_Inr by metis

lemma control_frame_parses:
  assumes "0 \<le> a" "a \<le> 255" "composable ct s" "ct \<noteq> CtDATA"
  shows "\<exists>wire f. build_control_frame a ct s = Inr wire \<and>
    parse_frame wire fn k = Inr f \<and> is_control_frame_of f a ct s wire"
proof -
  obtain c where c: "compose_control ct s = Inr c"
    using assms(3) compose_control_ok_iff by blast
  note cb = composed_byte [OF c assms(3)]
  have "ct \<noteq> CtUNKNOWN" using assms(3) by (simp add: composable_def)
  then have w: "build_control_frame a ct s = Inr (escape_dle [byte_of_int a, byte_of_int c] @ [SF])"
    using assms c by (simp add: build_control_frame_def validate_address_def MAX_BUFFER_SIZE_def)
  have p: "parse_frame (escape_dle [byte_of_int a, byte_of_int c] @ [SF]) fn k =
      parse_buffer (escape_dle [byte_of_int a, byte_of_int c] @ [SF]) [byte_of_int a, byte_of_int c] fn k"
    by (rule parse_frame_escaped) (simp_all add: cb)
  show ?thesis
    unfolding w using assms \<open>ct \<noteq> CtUNKNOWN\<close>
    by (simp add: p parse_buffer_def MAX_BUFFER_SIZE_def Let_def cb frame_specs
        int_of_byte_of_int del: escape_dle.simps)
qed

text \<open>
  Round trip of a control frame: POLL, ACK, NAK, EOT, IAP and ACKPOLL frames parse
  back to their address, type and sequence number, also at the addresses that collide
  with the framing bytes.
\<close>

theorem control_frame_roundtrip:
  assumes "0 \<le> a" "a \<le> 255" "composable ct s" "ct \<noteq> CtDATA"
  shows "\<exists>wire f. build_control_frame a ct s = Inr wire \<and>
    parse_frame wire fn k = Inr f \<and> is_control_frame_of f a ct s wire"
  using assms by (rule control_frame_parses)

theorem control_frame_roundtrip_witness:
  "\<exists>wire f. build_control_frame 0xFA CtACK 7 = Inr wire \<and>
    parse_frame wire None DART_IBM_ANSI_INIT_0000 = Inr f \<and>
    is_control_frame_of f 0xFA CtACK 7 wire"
  by (rule control_frame_roundtrip) (simp_all add: composable_def)

lemma damage_is_flagged:
  assumes sent: "build_data_frame a s p None k =
      Inr (escape_dle (xs @ [b1, b2] @ ys @ [lo, hi, ETX]) @ [SF])"
    and damage: "(b1, b2) \<noteq> (b1', b2')"
  shows "\<exists>f. parse_frame (escape_dle (xs @ [b1', b2'] @ ys @ [lo, hi, ETX]) @ [SF]) None k = Inr f \<and>
    lf_crc_valid f = Some False"
proof -
  have ok: "0 \<le> a" "a \<le> 255" "0 \<le> s" "s \<le> 15" and fits: "length p \<le> max_payload"
    using build_data_frame_Inr_guards [OF sent] by simp_all
  obtain c lo0 hi0 where c: "compose_control CtDATA s = Inr c"
    and t: "crc_bytes_le (get_crc_fn k ([byte_of_int a, byte_of_int c] @ p)) = Inr [lo0, hi0]"
    and w: "build_data_frame a s p None k =
      Inr (escape_dle ([byte_of_int a, byte_of_int c] @ p @ [lo0, hi0, ETX]) @ [SF])"
    by (rule build_data_frame_Inr [OF ok fits, of k])
  from w [symmetric, unfolded sent]
  have "escape_dle (xs @ [b1, b2] @ ys @ [lo, hi, ETX]) =
      escape_dle ([byte_of_int a, byte_of_int c] @ p @ [lo0, hi0, ETX])"
    by (simp only: sum.inject append_same_eq)
  then have "[byte_of_int a, byte_of_int c] @ p @ [lo0, hi0, ETX] = xs @ [b1, b2] @ ys @ [lo, hi, ETX]"
    by (rule escape_dle_inj [symmetric]) simp_all
  then have body: "[byte_of_int a, byte_of_int c] @ p = xs @ [b1, b2] @ ys"
    and lohi: "lo0 = lo" "hi0 = hi"
    using append_trailer_inj [of "[byte_of_int a, byte_of_int c] @ p" lo0 hi0 ETX
        "xs @ [b1, b2] @ ys" lo hi ETX] by simp_all
  have "length (xs @ [b1', b2'] @ ys) = Suc (Suc (length p))"
    using arg_cong [OF body, of length] by simp
  then obtain x y q where q: "xs @ [b1', b2'] @ ys = [x, y] @ q" "length q = length p"
    unfolding length_Suc_conv by auto
  have "crc_of_bytes lo hi = get_crc_fn k (xs @ [b1, b2] @ ys)"
    using crc_trailer_roundtrip [OF _ _ t] crc_range unfolding body lohi by (simp add: crc_of_bytes_def)
  then have bad: "get_crc_fn k ([x, y] @ q) \<noteq> crc_of_bytes lo hi"
    using crc_burst_changes [OF damage, of k xs ys] q(1) by metis
  have w: "xs @ [b1', b2'] @ ys @ [lo, hi, ETX] = [x, y] @ q @ [lo, hi, ETX]"
    using q(1) by (metis append.assoc)
  have "parse_frame (escape_dle ([x, y] @ q @ [lo, hi, ETX]) @ [SF]) None k =
      parse_buffer (escape_dle ([x, y] @ q @ [lo, hi, ETX]) @ [SF]) ([x, y] @ q @ [lo, hi, ETX]) None k"
    by (rule parse_frame_escaped) simp_all
  then show ?thesis
    using bad fits q(2) unfolding w by (auto simp del: escape_dle.simps simp: parse_data_buffer [simplified])
qed

text \<open>
  End to end error detection: if a DATA frame is damaged on the wire in two
  neighbouring bytes between the address and the end of the payload, the parser still
  delivers a frame, and always marks its CRC as invalid.
\<close>

theorem damaged_frame_is_flagged:
  assumes sent: "build_data_frame a s p None k =
      Inr (escape_dle (xs @ [b1, b2] @ ys @ [lo, hi, ETX]) @ [SF])"
    and damage: "(b1, b2) \<noteq> (b1', b2')"
  shows "\<exists>f. parse_frame (escape_dle (xs @ [b1', b2'] @ ys @ [lo, hi, ETX]) @ [SF]) None k = Inr f \<and>
    lf_crc_valid f = Some False"
  using assms by (rule damage_is_flagged)

theorem damaged_frame_is_flagged_witness:
  "\<exists>f. parse_frame [0x01, 0x30, 0x03, 0x81, 0x05, 0xA2, 0x93, 0x03, 0xFA] None DART_IBM_ANSI_INIT_0000 = Inr f \<and>
    lf_crc_valid f = Some False"
proof -
  have crc: "get_crc_fn DART_IBM_ANSI_INIT_0000 [0x01, 0x30, 0x01, 0x01, 0x05] = 0x93A2"
    by (simp add: crc_eval)
  have "compose_control CtDATA 0 = Inr 0x30"
    by (simp add: compose_control_def DATA_BASE_def)
  moreover have "crc_bytes_le 0x93A2 = Inr [0xA2, 0x93]"
    by (simp add: crc_bytes_le_def)
  ultimately have sent: "build_data_frame 1 0 [0x01, 0x01, 0x05] None DART_IBM_ANSI_INIT_0000 =
      Inr (escape_dle ([0x01, 0x30] @ [0x01, 0x01] @ [0x05] @ [0xA2, 0x93, ETX]) @ [SF])"
    by (simp add: build_data_frame_def validate_address_def select_crc_def crc MAX_BUFFER_SIZE_def
        del: get_crc_fn.simps)
  have w: "escape_dle ([0x01, 0x30] @ [0x03, 0x81] @ [0x05] @ [0xA2, 0x93, ETX]) @ [SF] =
      [0x01, 0x30, 0x03, 0x81, 0x05, 0xA2, 0x93, 0x03, 0xFA]"
    by (simp add: line_consts)
  have "((0x01::byte), (0x01::byte)) \<noteq> (0x03, 0x81)" by simp
  from damaged_frame_is_flagged [OF sent this] show ?thesis unfolding w .
qed

end
