(* ===== verification/Sim_Pump.thy ===== *)
theory Sim_Pump
  imports Pump_Guards Line_Frame Complex_Main
begin

text \<open>
  \<open>simulator/config.py\<close>, \<open>faults.py\<close>, \<open>models.py\<close> and \<open>pump.py\<close>: the virtual fueling position, its command
  handling and its filling engine. The object is a record; a method is an action on it, so that what it changed
  before an exception stays changed. \<open>uuid4()\<close> is the argument \<open>fresh\<close>, applied to the number of identifiers drawn so
  far; the simulated time \<open>now\<close> is an argument of the methods that read the clock. Decimal arithmetic is exact
  rational arithmetic, which agrees with Python's 28-digit context for the magnitudes of a sale.
\<close>

section \<open>Configuration, faults and queue entries\<close>

datatype sequence_policy = SPEC_F_TO_1 | OBSERVED_F_TO_0

definition next_sequence :: "int \<Rightarrow> sequence_policy \<Rightarrow> int result" where
  "next_sequence sequence policy =
    (if \<not> (0 \<le> sequence \<and> sequence \<le> 0x0F) then Inl ValueError
     else if sequence \<noteq> 0x0F then Inr (sequence + 1)
     else if policy = SPEC_F_TO_1 then Inr 0x01
     else Inr 0x00)"

record filling_config =
  fc_flow_rate :: rat
  fc_interval_ms :: int
  fc_volume_decimals :: nat
  fc_amount_decimals :: nat
  fc_price_decimals :: nat
  fc_preset_volume :: "int option"
  fc_preset_amount :: "int option"
  fc_natural_complete :: int

record pump_config =
  cf_pump_id :: string
  cf_dart_address :: int
  cf_nozzle_count :: nat
  cf_default_price :: int
  cf_filling :: filling_config

record simulator_config =
  sc_policy :: sequence_policy
  sc_response_timeout_ms :: int
  sc_physical_enable :: bool
  sc_active_commands :: bool
  sc_pumps :: "pump_config list"

datatype fault_kind =
    Fault_INVALID_CRC | Fault_UNEXPECTED_SEQUENCE | Fault_MALFORMED_FRAME | Fault_RESPONSE_TIMEOUT
  | Fault_UNKNOWN_ADDRESS | Fault_APPLICATION_REJECTED | Fault_INELIGIBLE_COMMAND | Fault_DUPLICATE_DATA

datatype fault_message =
    Unknown_nozzle int
  | Truncated_application
  | Unsupported_transaction int nat
  | Unknown_dcc int
  | Not_implemented pump_control_command
  | Command_blocked pump_command "blocking_reason list"
  | Frame_not_parsed parse_message
  | No_pump_at_address int
  | Invalid_crc_no_response
  | Duplicate_data_sequence int
  | Sequence_expected int int
  | Ack_for_other_sequence int int
  | No_ack_within int

record protocol_fault =
  pf_kind :: fault_kind
  pf_message :: fault_message
  pf_address :: "int option"
  pf_sequence :: "int option"
  pf_raw :: "bytes option"
  pf_at_ms :: int

datatype outbound_label = DC1_STATUS | DC3_NOZZLE_PRICE | DC2_FILL | DC5_ALARM_label | DC9_IDENTITY | DC101_TOTALS

record outbound_transaction =
  ot_payload :: bytes
  ot_label :: outbound_label

section \<open>The virtual pump\<close>

record sim_pump =
  sp_config :: pump_config
  sp_pending :: "outbound_transaction list"
  sp_prices :: "int \<rightharpoonup> int"
  sp_volume :: int
  sp_amount :: int
  sp_total_volume :: int
  sp_total_amount :: int
  sp_selected_nozzle :: "int option"
  sp_nozzle_out :: bool
  sp_price_verified :: bool
  sp_wayne_status :: wayne_status
  sp_communication_enabled :: bool
  sp_fault_code :: "int option"
  sp_last_command :: "pump_command option"
  sp_active_transaction :: "string option"
  sp_tx_sequence :: int
  sp_expected_sequence :: int
  sp_last_accepted :: "int option"
  sp_awaiting_ack :: "int option"
  sp_data_pending_since :: "int option"
  sp_filling_active :: bool
  sp_suspended :: bool
  sp_last_fill_tick :: "int option"
  sp_preset_volume :: "int option"
  sp_preset_amount :: "int option"
  sp_last_wire :: "bytes option"
  sp_context :: pump_context
  sp_uuids_drawn :: nat

text \<open>\<open>setdefault(n, default)\<close> for every nozzle of the configuration, on an empty dict.\<close>

definition default_prices :: "pump_config \<Rightarrow> int \<rightharpoonup> int" where
  "default_prices cfg n = (if 1 \<le> n \<and> n \<le> int (cf_nozzle_count cfg) then Some (cf_default_price cfg) else None)"

definition new_sim_pump :: "pump_config \<Rightarrow> sim_pump" where
  "new_sim_pump cfg =
    \<lparr>sp_config = cfg, sp_pending = [], sp_prices = default_prices cfg, sp_volume = 0, sp_amount = 0,
     sp_total_volume = 0, sp_total_amount = 0, sp_selected_nozzle = None, sp_nozzle_out = False,
     sp_price_verified = False, sp_wayne_status = Wayne_RESET, sp_communication_enabled = False,
     sp_fault_code = None, sp_last_command = None, sp_active_transaction = None, sp_tx_sequence = 0,
     sp_expected_sequence = 0, sp_last_accepted = None, sp_awaiting_ack = None,
     sp_data_pending_since = None, sp_filling_active = False, sp_suspended = False,
     sp_last_fill_tick = None, sp_preset_volume = None, sp_preset_amount = None, sp_last_wire = None,
     sp_context = new_context (cf_pump_id cfg) (cf_dart_address cfg), sp_uuids_drawn = 0\<rparr>"

abbreviation sp_state :: "sim_pump \<Rightarrow> pump_state" where
  "sp_state p \<equiv> pc_current_state (sp_context p)"

definition sync_context_fields :: "sim_pump \<Rightarrow> sim_pump" where
  "sync_context_fields p = p\<lparr>sp_context := (sp_context p)
    \<lparr>pc_selected_nozzle := sp_selected_nozzle p, pc_price_verified := sp_price_verified p,
     pc_communication_healthy := sp_communication_enabled p, pc_active_transaction := sp_active_transaction p,
     pc_fault_code := sp_fault_code p, pc_last_raw_status := Some (wayne_code (sp_wayne_status p))\<rparr>\<rparr>"

definition sim_apply_event :: "pump_event \<Rightarrow> apply_args \<Rightarrow> sim_pump \<Rightarrow> sim_pump" where
  "sim_apply_event ev args p =
    (let p1 = sync_context_fields p;
         ctx = tr_context (apply_event (sp_context p1) ev args);
         p2 = p1\<lparr>sp_context := ctx, sp_price_verified := pc_price_verified ctx\<rparr>
     in if ev = COMMUNICATION_LOST then p2\<lparr>sp_communication_enabled := False\<rparr>
        else if ev = COMMUNICATION_STARTED then p2\<lparr>sp_communication_enabled := True\<rparr>
        else p2)"

definition status_args :: "sim_pump \<Rightarrow> apply_args" where
  "status_args p = no_args\<lparr>ap_raw_status := Some (wayne_code (sp_wayne_status p))\<rparr>"

subsection \<open>Outbound helpers\<close>

definition queue_tx :: "bytes \<Rightarrow> outbound_label \<Rightarrow> (sim_pump, unit) action" where
  "queue_tx payload label = modify_act (\<lambda>p. p\<lparr>sp_pending := sp_pending p @ [\<lparr>ot_payload = payload, ot_label = label\<rparr>]\<rparr>)"

definition queue_encoded :: "bytes result \<Rightarrow> outbound_label \<Rightarrow> (sim_pump, unit) action" where
  "queue_encoded payload label = bind_act (result_act payload) (\<lambda>b. queue_tx b label)"

text \<open>\<open>selected_nozzle or 1\<close>: nozzle 0 counts as absent.\<close>

definition nozzle_or_1 :: "sim_pump \<Rightarrow> int" where
  "nozzle_or_1 p = (case sp_selected_nozzle p of None \<Rightarrow> 1 | Some n \<Rightarrow> if n = 0 then 1 else n)"

definition nozzle_price :: "sim_pump \<Rightarrow> int" where
  "nozzle_price p = (case sp_prices p (nozzle_or_1 p) of None \<Rightarrow> cf_default_price (sp_config p) | Some x \<Rightarrow> x)"

definition encode_dc3 :: "sim_pump \<Rightarrow> bytes result" where
  "encode_dc3 p = encode_dc3_nozzle_price (nozzle_price p) (nozzle_or_1 p) (sp_nozzle_out p)"

definition queue_status :: "(sim_pump, unit) action" where
  "queue_status = read_act (\<lambda>p. queue_encoded (encode_dc1_status (wayne_code (sp_wayne_status p))) DC1_STATUS)"

definition queue_status_and_nozzle :: "(sim_pump, unit) action" where
  "queue_status_and_nozzle =
    then_act queue_status (read_act (\<lambda>p. queue_encoded (encode_dc3 p) DC3_NOZZLE_PRICE))"

definition queue_fill_data :: "(sim_pump, unit) action" where
  "queue_fill_data = read_act (\<lambda>p. queue_encoded (encode_dc2_volume_amount (sp_volume p) (sp_amount p)) DC2_FILL)"

definition pop_pending_payload :: "sim_pump \<Rightarrow> bytes option \<times> sim_pump" where
  "pop_pending_payload p =
    (case sp_pending p of [] \<Rightarrow> (None, p) | item # rest \<Rightarrow> (Some (ot_payload item), p\<lparr>sp_pending := rest\<rparr>))"

definition has_pending :: "sim_pump \<Rightarrow> bool" where
  "has_pending p \<longleftrightarrow> sp_pending p \<noteq> []"

subsection \<open>Local actions\<close>

definition reset_protocol_sequences :: "sim_pump \<Rightarrow> sim_pump" where
  "reset_protocol_sequences p = p\<lparr>sp_tx_sequence := 0, sp_expected_sequence := 0, sp_last_accepted := None,
     sp_awaiting_ack := None, sp_data_pending_since := None\<rparr>"

definition enable_communication :: "sim_pump \<Rightarrow> sim_pump" where
  "enable_communication p = sim_apply_event COMMUNICATION_STARTED no_args (p\<lparr>sp_communication_enabled := True\<rparr>)"

definition disable_communication :: "sim_pump \<Rightarrow> sim_pump" where
  "disable_communication p =
    (sim_apply_event COMMUNICATION_LOST no_args (p\<lparr>sp_communication_enabled := False, sp_filling_active := False\<rparr>))
      \<lparr>sp_pending := [], sp_awaiting_ack := None, sp_data_pending_since := None\<rparr>"

definition cold_start_to_ready :: "(sim_pump, unit) action" where
  "cold_start_to_ready = then_act
    (modify_act (\<lambda>p.
       let p1 = (if sp_communication_enabled p then p else enable_communication p);
           p2 = (sim_apply_event PUMP_DISCOVERED no_args p1)\<lparr>sp_wayne_status := Wayne_RESET\<rparr>;
           p3 = (sim_apply_event RESET_OBSERVED (status_args p2) p2)\<lparr>sp_nozzle_out := False\<rparr>
       in (sim_apply_event READY_OBSERVED no_args p3)\<lparr>sp_wayne_status := Wayne_RESET\<rparr>))
    queue_status_and_nozzle"

definition restart_pump :: "bool \<Rightarrow> sim_pump \<Rightarrow> sim_pump" where
  "restart_pump preserve_totals p =
    (let was_filling = (sp_filling_active p \<or> sp_state p \<in> {FILLING, SUSPENDED, AUTHORIZED});
         p1 = reset_protocol_sequences (p\<lparr>sp_filling_active := False, sp_suspended := False, sp_nozzle_out := False,
           sp_volume := 0, sp_amount := 0, sp_preset_amount := None, sp_preset_volume := None,
           sp_fault_code := None, sp_active_transaction := None, sp_pending := []\<rparr>);
         p2 = (if preserve_totals then p1 else p1\<lparr>sp_total_volume := 0, sp_total_amount := 0\<rparr>);
         fresh_context = new_context (cf_pump_id (sp_config p)) (cf_dart_address (sp_config p))
     in if sp_communication_enabled p2 then
          let p3 = p2\<lparr>sp_context := fresh_context\<lparr>pc_current_state := DISCOVERING, pc_communication_healthy := True,
                  pc_warnings := [if was_filling then Restart_during_filling else Restart_during_idle]\<rparr>,
                sp_wayne_status := Wayne_RESET\<rparr>
          in sim_apply_event READY_OBSERVED no_args (sim_apply_event RESET_OBSERVED no_args p3)
        else p2\<lparr>sp_context := fresh_context\<rparr>)"

definition simple_fault :: "fault_kind \<Rightarrow> fault_message \<Rightarrow> sim_pump \<Rightarrow> int \<Rightarrow> protocol_fault" where
  "simple_fault kind message p now =
    \<lparr>pf_kind = kind, pf_message = message, pf_address = Some (cf_dart_address (sp_config p)),
     pf_sequence = None, pf_raw = None, pf_at_ms = now\<rparr>"

definition lift_nozzle :: "int \<Rightarrow> int \<Rightarrow> (sim_pump, protocol_fault list) action" where
  "lift_nozzle nozzle now = read_act (\<lambda>p.
    if sp_prices p nozzle = None
    then return_act [simple_fault Fault_APPLICATION_REJECTED (Unknown_nozzle nozzle) p now]
    else then_act
      (modify_act (\<lambda>p. sim_apply_event NOZZLE_LIFTED
         (no_args\<lparr>ap_selected_nozzle := Some nozzle, ap_price_verified := Some True\<rparr>)
         (sync_context_fields (p\<lparr>sp_selected_nozzle := Some nozzle, sp_nozzle_out := True, sp_price_verified := True\<rparr>))))
      (then_act queue_status_and_nozzle (return_act [])))"

definition return_nozzle :: "(sim_pump, unit) action" where
  "return_nozzle = then_act
    (modify_act (\<lambda>p. let p1 = p\<lparr>sp_nozzle_out := False\<rparr> in
       if sp_state p1 \<in> {NOZZLE_UP, AUTHORIZED} then sim_apply_event NOZZLE_RETURNED no_args p1 else p1))
    queue_status_and_nozzle"

definition inject_fault :: "int \<Rightarrow> (sim_pump, unit) action" where
  "inject_fault code = then_act
    (modify_act (\<lambda>p. sim_apply_event FAULT_OBSERVED (no_args\<lparr>ap_fault_code := Some code\<rparr>)
       (p\<lparr>sp_fault_code := Some code, sp_filling_active := False, sp_suspended := False, sp_wayne_status := Wayne_RESET\<rparr>)))
    (queue_encoded (encode_dc5_alarm code) DC5_ALARM_label)"

definition clear_fault :: "sim_pump \<Rightarrow> sim_pump" where
  "clear_fault p =
    (let p1 = (sim_apply_event FAULT_CLEARED no_args (p\<lparr>sp_fault_code := None\<rparr>))\<lparr>sp_wayne_status := Wayne_RESET\<rparr>
     in sim_apply_event READY_OBSERVED no_args (sim_apply_event RESET_OBSERVED no_args p1))"

subsection \<open>Filling engine\<close>

text \<open>\<open>to_integral_value(rounding=ROUND_DOWN)\<close>: towards zero.\<close>

definition round_down :: "rat \<Rightarrow> int" where
  "round_down r = (if r < 0 then \<lceil>r\<rceil> else \<lfloor>r\<rfloor>)"

definition amount_from_volume :: "sim_pump \<Rightarrow> int \<Rightarrow> int" where
  "amount_from_volume p volume_raw =
    (let cfg = cf_filling (sp_config p);
         price = of_int (nozzle_price p) :: rat;
         volume = of_int volume_raw / 10 ^ fc_volume_decimals cfg;
         unit = price / 10 ^ fc_price_decimals cfg
     in round_down (volume * unit * 10 ^ fc_amount_decimals cfg))"

text \<open>\<open>f"complete:{transaction}:{volume}:{amount}"\<close> with the integers in decimal.\<close>

definition decimal_text :: "int \<Rightarrow> string" where
  "decimal_text n = (if n < 0 then ''-'' else []) @
     map (\<lambda>d. char_of (48 + d)) (decimal_digits (nat \<bar>n\<bar>))"

definition completion_evidence :: "sim_pump \<Rightarrow> string" where
  "completion_evidence p = ''complete:'' @ (case sp_active_transaction p of None \<Rightarrow> ''None'' | Some t \<Rightarrow> t)
     @ '':'' @ decimal_text (sp_volume p) @ '':'' @ decimal_text (sp_amount p)"

definition completion_applies :: "sim_pump \<Rightarrow> bool" where
  "completion_applies p \<longleftrightarrow> sp_filling_active p \<or> sp_state p \<in> {FILLING, SUSPENDED, AUTHORIZED, LIMIT_REACHED}"

definition finish_sale :: "sim_pump \<Rightarrow> sim_pump" where
  "finish_sale p =
    (let p1 = p\<lparr>sp_filling_active := False, sp_suspended := False,
                sp_total_volume := sp_total_volume p + sp_volume p,
                sp_total_amount := sp_total_amount p + sp_amount p,
                sp_wayne_status := Wayne_FILLING_COMPLETED\<rparr>
     in sim_apply_event FILLING_COMPLETED
          ((status_args p1)\<lparr>ap_completion_key := Some (completion_evidence p1)\<rparr>) p1)"

definition complete_filling :: "(sim_pump, unit) action" where
  "complete_filling = read_act (\<lambda>p.
    if \<not> completion_applies p then return_act ()
    else then_act (modify_act finish_sale) (then_act queue_status_and_nozzle queue_fill_data))"

definition fill_delta :: "filling_config \<Rightarrow> int" where
  "fill_delta cfg =
    (let delta = round_down (fc_flow_rate cfg * (of_int (fc_interval_ms cfg) / 1000) * 10 ^ fc_volume_decimals cfg)
     in if delta \<le> 0 then 1 else delta)"

definition limit_volume :: "sim_pump \<Rightarrow> int" where
  "limit_volume p =
    (let cfg = cf_filling (sp_config p);
         l = (case sp_preset_volume p of Some v \<Rightarrow> Some v | None \<Rightarrow> fc_preset_volume cfg)
     in case l of Some v \<Rightarrow> v | None \<Rightarrow> fc_natural_complete cfg)"

text \<open>The new reading after one interval, and whether a limit was hit.\<close>

definition fill_reading :: "sim_pump \<Rightarrow> int \<times> int \<times> bool" where
  "fill_reading p =
    (let v0 = sp_volume p + fill_delta (cf_filling (sp_config p));
         hit_volume = (v0 \<ge> limit_volume p);
         v = (if hit_volume then limit_volume p else v0);
         a0 = amount_from_volume p v
     in case sp_preset_amount p of
          Some pa \<Rightarrow> if a0 \<ge> pa then (v, pa, True) else (v, a0, hit_volume)
        | None \<Rightarrow> (v, a0, hit_volume))"

definition has_limit :: "sim_pump \<Rightarrow> bool" where
  "has_limit p \<longleftrightarrow> sp_preset_amount p \<noteq> None \<or> sp_preset_volume p \<noteq> None \<or>
     fc_preset_amount (cf_filling (sp_config p)) \<noteq> None \<or> fc_preset_volume (cf_filling (sp_config p)) \<noteq> None"

definition reach_limit :: "sim_pump \<Rightarrow> sim_pump" where
  "reach_limit p =
    (if has_limit p then
       let p1 = p\<lparr>sp_wayne_status := Wayne_MAX_AMOUNT_VOLUME_REACHED\<rparr>
       in sim_apply_event Limit_reached_event (status_args p1) p1
     else p)"

definition fill_one_interval :: "(sim_pump, unit) action" where
  "fill_one_interval = read_act (\<lambda>p. case fill_reading p of (v, a, hit) \<Rightarrow>
    then_act (modify_act (\<lambda>p. sim_apply_event FILLING_UPDATED
        (no_args\<lparr>ap_raw_status := Some (wayne_code Wayne_FILLING)\<rparr>) (p\<lparr>sp_volume := v, sp_amount := a\<rparr>)))
    (then_act queue_fill_data
      (if hit then then_act (modify_act reach_limit) complete_filling else return_act ())))"

fun fill_intervals :: "nat \<Rightarrow> (sim_pump, unit) action" where
  "fill_intervals 0 = return_act ()"
| "fill_intervals (Suc n) = read_act (\<lambda>p.
    if \<not> sp_filling_active p \<or> sp_suspended p then return_act ()
    else then_act fill_one_interval (fill_intervals n))"

text \<open>A zero interval raises \<open>ZeroDivisionError\<close>; a negative one gives no step, as \<open>range\<close> of a negative number.\<close>

definition on_time_advance :: "int \<Rightarrow> (sim_pump, unit) action" where
  "on_time_advance now = read_act (\<lambda>p.
    if \<not> sp_filling_active p \<or> sp_suspended p then return_act ()
    else if sp_state p \<notin> {FILLING, AUTHORIZED} then return_act ()
    else (case sp_last_fill_tick p of
        None \<Rightarrow> modify_act (\<lambda>p. p\<lparr>sp_last_fill_tick := Some now\<rparr>)
      | Some tick \<Rightarrow>
          let elapsed = now - tick; interval = fc_interval_ms (cf_filling (sp_config p)) in
          if elapsed < interval then return_act ()
          else if interval = 0 then result_act (Inl ZeroDivisionError)
          else let steps = elapsed div interval in
            then_act (modify_act (\<lambda>p. p\<lparr>sp_last_fill_tick := Some (tick + steps * interval)\<rparr>))
              (fill_intervals (nat steps))))"

subsection \<open>Commands\<close>

definition execute_command ::
  "(nat \<Rightarrow> string) \<Rightarrow> int \<Rightarrow> pump_command \<Rightarrow> int option \<Rightarrow> int option \<Rightarrow> (int \<times> int) option \<Rightarrow> (sim_pump, unit) action" where
  "execute_command fresh now command volume_raw amount_raw price =
    (case command of
       SET_PRICE \<Rightarrow> (case price of
           None \<Rightarrow> result_act (Inl AssertionError)
         | Some (price_raw, nozzle) \<Rightarrow> then_act
             (modify_act (\<lambda>p. sync_context_fields
                (p\<lparr>sp_prices := (sp_prices p)(nozzle \<mapsto> price_raw), sp_price_verified := True\<rparr>)))
             queue_status_and_nozzle)
     | PRESET_VOLUME \<Rightarrow> (case volume_raw of
           None \<Rightarrow> result_act (Inl AssertionError)
         | Some v \<Rightarrow> modify_act (\<lambda>p. p\<lparr>sp_preset_volume := Some v\<rparr>))
     | PRESET_AMOUNT \<Rightarrow> (case amount_raw of
           None \<Rightarrow> result_act (Inl AssertionError)
         | Some a \<Rightarrow> modify_act (\<lambda>p. p\<lparr>sp_preset_amount := Some a\<rparr>))
     | AUTHORIZE \<Rightarrow> then_act
         (modify_act (\<lambda>p.
            let t = fresh (sp_uuids_drawn p);
                p1 = p\<lparr>sp_active_transaction := Some t, sp_uuids_drawn := Suc (sp_uuids_drawn p),
                       sp_volume := 0, sp_amount := 0, sp_wayne_status := Wayne_AUTHORIZED\<rparr>;
                p2 = sim_apply_event AUTHORIZATION_CONFIRMED ((status_args p1)\<lparr>ap_active_transaction := Some t\<rparr>) p1;
                p3 = p2\<lparr>sp_filling_active := True, sp_suspended := False, sp_last_fill_tick := Some now,
                        sp_wayne_status := Wayne_FILLING\<rparr>
            in sim_apply_event FILLING_STARTED (status_args p3) p3))
         (then_act queue_status_and_nozzle queue_fill_data)
     | STOP \<Rightarrow> complete_filling
     | SUSPEND \<Rightarrow> then_act
         (modify_act (\<lambda>p. let p1 = p\<lparr>sp_suspended := True, sp_wayne_status := Wayne_SUSPENDED\<rparr>
            in sim_apply_event SUSPENDED_OBSERVED (status_args p1) p1))
         queue_status_and_nozzle
     | RESUME \<Rightarrow> then_act
         (modify_act (\<lambda>p. let p1 = p\<lparr>sp_suspended := False, sp_wayne_status := Wayne_FILLING,
                sp_last_fill_tick := Some now\<rparr>
            in sim_apply_event RESUMED_OBSERVED (status_args p1) p1))
         queue_status_and_nozzle
     | Cmd_RESET \<Rightarrow> then_act
         (modify_act (\<lambda>p.
            let p1 = p\<lparr>sp_filling_active := False, sp_suspended := False, sp_volume := 0, sp_amount := 0,
                  sp_preset_amount := None, sp_preset_volume := None, sp_active_transaction := None,
                  sp_wayne_status := Wayne_RESET\<rparr>;
                p2 = sim_apply_event RESET_OBSERVED (status_args p1) p1
            in if \<not> sp_nozzle_out p2 then sim_apply_event READY_OBSERVED no_args p2 else p2))
         queue_status_and_nozzle
     | _ \<Rightarrow> return_act ())"

definition execute_guarded ::
  "(nat \<Rightarrow> string) \<Rightarrow> simulator_config \<Rightarrow> int \<Rightarrow> pump_command \<Rightarrow> int option \<Rightarrow> int option \<Rightarrow> int option \<Rightarrow>
   (int \<times> int) option \<Rightarrow> (sim_pump, protocol_fault list) action" where
  "execute_guarded fresh cfg now command preset_value volume_raw amount_raw price =
    then_act (modify_act sync_context_fields) (read_act (\<lambda>p.
      bind_act (result_act (evaluate_command_eligibility command (sp_context p)
          (map_option (\<lambda>v. Preset_finite \<lparr>dec_coefficient = v, dec_exponent = 0\<rparr>) preset_value)
          (sc_physical_enable cfg) (sc_active_commands cfg))) (\<lambda>el.
      then_act (modify_act (\<lambda>p. p\<lparr>sp_last_command := Some command\<rparr>))
        (if \<not> el_eligible el
         then return_act [simple_fault Fault_INELIGIBLE_COMMAND (Command_blocked command (el_blocking el)) p now]
         else then_act (execute_command fresh now command volume_raw amount_raw price) (return_act [])))))"

definition cd1_command :: "pump_control_command \<Rightarrow> pump_command option" where
  "cd1_command =
    [Command_RESET \<mapsto> Cmd_RESET, Command_AUTHORIZE \<mapsto> AUTHORIZE, Command_STOP \<mapsto> STOP,
     SUSPEND_FUELLING_POINT \<mapsto> SUSPEND, RESUME_FUELLING_POINT \<mapsto> RESUME]"

definition handle_cd1 ::
  "(nat \<Rightarrow> string) \<Rightarrow> simulator_config \<Rightarrow> int \<Rightarrow> int \<Rightarrow> (sim_pump, protocol_fault list) action" where
  "handle_cd1 fresh cfg now dcc = read_act (\<lambda>p.
    case pump_control_command_of dcc of
      Inl _ \<Rightarrow> return_act [simple_fault Fault_APPLICATION_REJECTED (Unknown_dcc dcc) p now]
    | Inr RETURN_STATUS \<Rightarrow> then_act queue_status_and_nozzle (return_act [])
    | Inr RETURN_FILLING_INFORMATION \<Rightarrow> then_act queue_fill_data (return_act [])
    | Inr RETURN_PUMP_IDENTITY \<Rightarrow>
        then_act (queue_encoded (encode_dc9_identity [0x53, 0x49, 0x4D, 0x2D, 0x57, 0x50, 0x30, 0x31]) DC9_IDENTITY)
          (return_act [])
    | Inr RETURN_PUMP_PARAMETERS \<Rightarrow> then_act queue_status (return_act [])
    | Inr c \<Rightarrow> (case cd1_command c of
          None \<Rightarrow> return_act [simple_fault Fault_APPLICATION_REJECTED (Not_implemented c) p now]
        | Some command \<Rightarrow> execute_guarded fresh cfg now command None None None None))"

definition handle_cd3_preset_volume ::
  "(nat \<Rightarrow> string) \<Rightarrow> simulator_config \<Rightarrow> int \<Rightarrow> bytes \<Rightarrow> (sim_pump, protocol_fault list) action" where
  "handle_cd3_preset_volume fresh cfg now data = bind_act (result_act (decode_packed_bcd data)) (\<lambda>v.
    execute_guarded fresh cfg now PRESET_VOLUME (Some v) (Some v) None None)"

definition handle_cd4_preset_amount ::
  "(nat \<Rightarrow> string) \<Rightarrow> simulator_config \<Rightarrow> int \<Rightarrow> bytes \<Rightarrow> (sim_pump, protocol_fault list) action" where
  "handle_cd4_preset_amount fresh cfg now data = bind_act (result_act (decode_packed_bcd data)) (\<lambda>a.
    execute_guarded fresh cfg now PRESET_AMOUNT (Some a) None (Some a) None)"

text \<open>The loop of \<open>_handle_cd5_price\<close> over the three-byte chunks, for a length divisible by three.\<close>

fun handle_cd5_from ::
  "(nat \<Rightarrow> string) \<Rightarrow> simulator_config \<Rightarrow> int \<Rightarrow> int \<Rightarrow> bytes \<Rightarrow> (sim_pump, protocol_fault list) action" where
  "handle_cd5_from fresh cfg now nozzle (a # b # c # rest) =
    bind_act (result_act (decode_packed_bcd [a, b, c])) (\<lambda>price_raw.
    bind_act (execute_guarded fresh cfg now SET_PRICE None None None (Some (price_raw, nozzle))) (\<lambda>fs.
    bind_act (handle_cd5_from fresh cfg now (nozzle + 1) rest) (\<lambda>more. return_act (fs @ more))))"
| "handle_cd5_from fresh cfg now nozzle _ = return_act []"

definition handle_one_tx ::
  "(nat \<Rightarrow> string) \<Rightarrow> simulator_config \<Rightarrow> int \<Rightarrow> byte \<Rightarrow> bytes \<Rightarrow> (sim_pump, protocol_fault list) action" where
  "handle_one_tx fresh cfg now tid data =
    (if tid = 0x01 \<and> length data = 1 then handle_cd1 fresh cfg now (uint (data ! 0))
     else if tid = 0x03 \<and> length data = 4 then handle_cd3_preset_volume fresh cfg now data
     else if tid = 0x04 \<and> length data = 4 then handle_cd4_preset_amount fresh cfg now data
     else if tid = 0x05 \<and> length data \<ge> 3 \<and> length data mod 3 = 0 then handle_cd5_from fresh cfg now 1 data
     else if tid = 0x65 \<and> length data = 1 then
       then_act (read_act (\<lambda>p. queue_encoded
           (encode_dc101_totals (uint (data ! 0)) (sp_total_amount p) (sp_total_volume p) 0) DC101_TOTALS))
         (return_act [])
     else read_act (\<lambda>p. return_act
       [simple_fault Fault_APPLICATION_REJECTED (Unsupported_transaction (uint tid) (length data)) p now]))"

fun handle_application_payload ::
  "(nat \<Rightarrow> string) \<Rightarrow> simulator_config \<Rightarrow> int \<Rightarrow> bytes \<Rightarrow> (sim_pump, protocol_fault list) action" where
  "handle_application_payload fresh cfg now (tid # lng # rest) =
    (if unat lng > length rest then
       read_act (\<lambda>p. return_act [simple_fault Fault_MALFORMED_FRAME Truncated_application p now])
     else bind_act (handle_one_tx fresh cfg now tid (take (unat lng) rest)) (\<lambda>fs.
          bind_act (handle_application_payload fresh cfg now (drop (unat lng) rest)) (\<lambda>more.
          return_act (fs @ more))))"
| "handle_application_payload fresh cfg now _ = return_act []"

end
