(* ===== verification/Sim_Filling.thy ===== *)
theory Sim_Filling
  imports Sim_Pump
begin

text \<open>
  Correctness of the virtual pump of \<open>simulator/pump.py\<close>: fuel flows only in the filling states, under every
  operation and also when an operation raises; readings stay within the limit and never fall; every sale comes to
  its end and is added to the totals once.
\<close>

section \<open>States under local events\<close>

text \<open>The pump applies events without time stamp and source, so only the table and the repetitions decide.\<close>

definition local_args :: "apply_args \<Rightarrow> bool" where
  "local_args args \<longleftrightarrow> ap_observation args = None \<and> ap_observed_at args = None \<and> \<not> ap_allow_implicit args"

definition next_state :: "pump_state \<Rightarrow> pump_event \<Rightarrow> pump_state" where
  "next_state s ev =
    (if ev = UNKNOWN_OBSERVATION \<or> (s = NOZZLE_UP \<and> ev = FILLING_STARTED) \<or> is_same_state_noop s ev then s
     else case lookup_transition s ev of None \<Rightarrow> s | Some t \<Rightarrow> t)"

lemma local_args_simps [simp]:
  "local_args no_args" "local_args (status_args p)"
  "local_args args \<Longrightarrow> local_args (args\<lparr>ap_active_transaction := x\<rparr>)"
  "local_args args \<Longrightarrow> local_args (args\<lparr>ap_completion_key := k\<rparr>)"
  "local_args args \<Longrightarrow> local_args (args\<lparr>ap_fault_code := f\<rparr>)"
  "local_args args \<Longrightarrow> local_args (args\<lparr>ap_raw_status := r\<rparr>)"
  "local_args args \<Longrightarrow> local_args (args\<lparr>ap_selected_nozzle := n\<rparr>)"
  "local_args args \<Longrightarrow> local_args (args\<lparr>ap_price_verified := b\<rparr>)"
  by (simp_all add: local_args_def no_args_def status_args_def)

lemma local_apply_state:
  assumes "local_args args" "\<not> is_duplicate_completion ctx ev args"
  shows "pc_current_state (tr_context (apply_event ctx ev args)) = next_state (pc_current_state ctx) ev"
  using assms
  by (auto simp: apply_event_def local_args_def is_stale_def is_replay_def source_hex_def next_state_def Let_def
      split: option.split)

lemma sync_fields [simp]:
  "sp_state (sync_context_fields p) = sp_state p"
  "pc_completed_keys (sp_context (sync_context_fields p)) = pc_completed_keys (sp_context p)"
  "sp_filling_active (sync_context_fields p) = sp_filling_active p"
  "sp_suspended (sync_context_fields p) = sp_suspended p"
  "sp_volume (sync_context_fields p) = sp_volume p"
  "sp_amount (sync_context_fields p) = sp_amount p"
  "sp_config (sync_context_fields p) = sp_config p"
  "sp_prices (sync_context_fields p) = sp_prices p"
  "sp_selected_nozzle (sync_context_fields p) = sp_selected_nozzle p"
  "sp_preset_volume (sync_context_fields p) = sp_preset_volume p"
  "sp_preset_amount (sync_context_fields p) = sp_preset_amount p"
  "sp_total_volume (sync_context_fields p) = sp_total_volume p"
  "sp_total_amount (sync_context_fields p) = sp_total_amount p"
  "sp_pending (sync_context_fields p) = sp_pending p"
  "sp_nozzle_out (sync_context_fields p) = sp_nozzle_out p"
  by (simp_all add: sync_context_fields_def)

lemma sim_apply_fields [simp]:
  "sp_filling_active (sim_apply_event ev args p) = sp_filling_active p"
  "sp_suspended (sim_apply_event ev args p) = sp_suspended p"
  "sp_volume (sim_apply_event ev args p) = sp_volume p"
  "sp_amount (sim_apply_event ev args p) = sp_amount p"
  "sp_config (sim_apply_event ev args p) = sp_config p"
  "sp_prices (sim_apply_event ev args p) = sp_prices p"
  "sp_selected_nozzle (sim_apply_event ev args p) = sp_selected_nozzle p"
  "sp_preset_volume (sim_apply_event ev args p) = sp_preset_volume p"
  "sp_preset_amount (sim_apply_event ev args p) = sp_preset_amount p"
  "sp_total_volume (sim_apply_event ev args p) = sp_total_volume p"
  "sp_total_amount (sim_apply_event ev args p) = sp_total_amount p"
  "sp_pending (sim_apply_event ev args p) = sp_pending p"
  "sp_nozzle_out (sim_apply_event ev args p) = sp_nozzle_out p"
  by (simp_all add: sim_apply_event_def Let_def)

lemma sim_context: "sp_context (sim_apply_event ev args p) = tr_context (apply_event (sp_context (sync_context_fields p)) ev args)"
  by (simp add: sim_apply_event_def Let_def)

lemma sim_apply_state:
  "local_args args \<Longrightarrow> ev \<noteq> FILLING_COMPLETED \<Longrightarrow>
   sp_state (sim_apply_event ev args p) = next_state (sp_state p) ev"
  using local_apply_state [of args "sp_context (sync_context_fields p)" ev]
  by (simp add: sim_context is_duplicate_completion_def)

lemma sim_complete_state:
  assumes "local_args args"
  shows "sp_state (sim_apply_event FILLING_COMPLETED args p) =
    (case ap_completion_key args of
       Some k \<Rightarrow> if k \<in> pc_completed_keys (sp_context p) then sp_state p else next_state (sp_state p) FILLING_COMPLETED
     | None \<Rightarrow> next_state (sp_state p) FILLING_COMPLETED)"
proof (cases "is_duplicate_completion (sp_context (sync_context_fields p)) FILLING_COMPLETED args")
  case True
  then have "sp_state (sim_apply_event FILLING_COMPLETED args p) = sp_state p"
    using assms
    by (simp add: sim_apply_event_def Let_def apply_event_def local_args_def is_stale_def is_replay_def source_hex_def)
  with True show ?thesis by (auto simp: is_duplicate_completion_def split: option.splits)
next
  case False
  with local_apply_state [OF assms False] show ?thesis
    by (auto simp: sim_apply_event_def Let_def is_duplicate_completion_def split: option.splits)
qed

text \<open>The transition function of the events the pump raises, as closed facts.\<close>

lemma lookup_none_iff: "lookup_transition s e = None \<longleftrightarrow> (s, e) \<notin> fst ` set TRANSITIONS"
  by (auto simp: lookup_transition_def map_of_eq_None_iff)

lemma lookup_facts:
  "lookup_transition NOZZLE_UP AUTHORIZATION_CONFIRMED = Some AUTHORIZED"
  "lookup_transition AUTHORIZED FILLING_STARTED = Some FILLING"
  "lookup_transition FILLING FILLING_COMPLETED = Some FILLING_COMPLETE"
  "lookup_transition SUSPENDED FILLING_COMPLETED = Some FILLING_COMPLETE"
  "lookup_transition LIMIT_REACHED FILLING_COMPLETED = Some FILLING_COMPLETE"
  "lookup_transition FILLING Limit_reached_event = Some LIMIT_REACHED"
  "lookup_transition FILLING SUSPENDED_OBSERVED = Some SUSPENDED"
  "lookup_transition SUSPENDED RESUMED_OBSERVED = Some FILLING"
  by (simp_all add: lookup_iff_listed TRANSITIONS_def BASE_TRANSITIONS_def)

lemma next_state_filling:
  "next_state FILLING ev =
    (case ev of FILLING_COMPLETED \<Rightarrow> FILLING_COMPLETE | SUSPENDED_OBSERVED \<Rightarrow> SUSPENDED
     | Limit_reached_event \<Rightarrow> LIMIT_REACHED | COMMUNICATION_LOST \<Rightarrow> DISCONNECTED | FAULT_OBSERVED \<Rightarrow> FAULTED
     | MAINTENANCE_ENTERED \<Rightarrow> MAINTENANCE | _ \<Rightarrow> FILLING)"
  by (cases ev) (simp_all add: next_state_def is_same_state_noop_def SAME_STATE_NOOP_EVENTS_def lookup_transition_def
      TRANSITIONS_def BASE_TRANSITIONS_def OPERATIONAL_STATES_def enum_pump_state_def)

lemma next_state_suspended:
  "next_state SUSPENDED ev =
    (case ev of RESUMED_OBSERVED \<Rightarrow> FILLING | FILLING_COMPLETED \<Rightarrow> FILLING_COMPLETE
     | Limit_reached_event \<Rightarrow> LIMIT_REACHED | COMMUNICATION_LOST \<Rightarrow> DISCONNECTED | FAULT_OBSERVED \<Rightarrow> FAULTED
     | MAINTENANCE_ENTERED \<Rightarrow> MAINTENANCE | _ \<Rightarrow> SUSPENDED)"
  by (cases ev) (simp_all add: next_state_def is_same_state_noop_def SAME_STATE_NOOP_EVENTS_def lookup_transition_def
      TRANSITIONS_def BASE_TRANSITIONS_def OPERATIONAL_STATES_def enum_pump_state_def)

lemma next_state_limit: "next_state LIMIT_REACHED FILLING_COMPLETED = FILLING_COMPLETE"
  by (simp add: next_state_def is_same_state_noop_def SAME_STATE_NOOP_EVENTS_def lookup_facts)

lemma next_state_authorize:
  "next_state (next_state NOZZLE_UP AUTHORIZATION_CONFIRMED) FILLING_STARTED = FILLING"
  by (simp add: next_state_def is_same_state_noop_def SAME_STATE_NOOP_EVENTS_def lookup_facts)

lemmas next_state_facts = next_state_filling next_state_suspended next_state_limit next_state_authorize

section \<open>Fuel flows only while filling\<close>

definition flow_safe :: "sim_pump \<Rightarrow> bool" where
  "flow_safe p \<longleftrightarrow> \<not> (sp_filling_active p \<and> sp_state p \<notin> {FILLING, SUSPENDED})"

lemma flow_safe_inactive [simp]: "\<not> sp_filling_active p \<Longrightarrow> flow_safe p"
  by (simp add: flow_safe_def)

text \<open>The events that leave the filling states are raised only where the flow has stopped.\<close>

lemma flow_safe_event:
  "flow_safe p \<Longrightarrow> local_args args \<Longrightarrow>
   ev \<notin> {FILLING_COMPLETED, Limit_reached_event, COMMUNICATION_LOST, FAULT_OBSERVED, MAINTENANCE_ENTERED} \<Longrightarrow>
   flow_safe (sim_apply_event ev args p)"
  by (auto simp: flow_safe_def sim_apply_state next_state_filling next_state_suspended split: pump_event.split)

lemma flow_safe_update [simp]:
  "flow_safe (p\<lparr>sp_pending := x1\<rparr>) = flow_safe p" "flow_safe (p\<lparr>sp_last_command := x2\<rparr>) = flow_safe p"
  "flow_safe (sync_context_fields p) = flow_safe p" "flow_safe (p\<lparr>sp_preset_volume := x3\<rparr>) = flow_safe p"
  "flow_safe (p\<lparr>sp_preset_amount := x4\<rparr>) = flow_safe p" "flow_safe (p\<lparr>sp_nozzle_out := x5\<rparr>) = flow_safe p"
  "flow_safe (p\<lparr>sp_wayne_status := x6\<rparr>) = flow_safe p" "flow_safe (p\<lparr>sp_suspended := x7\<rparr>) = flow_safe p"
  "flow_safe (p\<lparr>sp_last_fill_tick := x8\<rparr>) = flow_safe p" "flow_safe (p\<lparr>sp_prices := x9\<rparr>) = flow_safe p"
  "flow_safe (p\<lparr>sp_price_verified := x10\<rparr>) = flow_safe p" "flow_safe (p\<lparr>sp_selected_nozzle := x11\<rparr>) = flow_safe p"
  "flow_safe (p\<lparr>sp_fault_code := x12\<rparr>) = flow_safe p" "flow_safe (p\<lparr>sp_communication_enabled := x13\<rparr>) = flow_safe p"
  "flow_safe (p\<lparr>sp_volume := x14\<rparr>) = flow_safe p" "flow_safe (p\<lparr>sp_amount := x15\<rparr>) = flow_safe p"
  by (simp_all add: flow_safe_def)

text \<open>Queueing touches nothing but the queue.\<close>

lemma keeps_queues:
  assumes "\<And>p x. P (p\<lparr>sp_pending := x\<rparr>) = P p"
  shows "keeps P (queue_encoded b label)" "keeps P queue_status_and_nozzle" "keeps P queue_fill_data" "keeps P queue_status"
proof -
  show q: "keeps P (queue_encoded b label)" for b label
    unfolding queue_encoded_def queue_tx_def by (intro keeps_intros) (simp add: assms)
  show "keeps P queue_status_and_nozzle" "keeps P queue_fill_data" "keeps P queue_status"
    unfolding queue_status_and_nozzle_def queue_fill_data_def queue_status_def
    by (intro keeps_intros keeps_read_each q)+
qed

lemmas keeps_flow_queues [keeps_intros] = keeps_queues [of flow_safe, OF flow_safe_update(1)]

definition inactive :: "sim_pump \<Rightarrow> bool" where
  "inactive p \<longleftrightarrow> \<not> sp_filling_active p"

lemma inactive_safe: "inactive p \<Longrightarrow> flow_safe p"
  by (simp add: inactive_def)

lemma finish_sale_inactive [simp]: "\<not> sp_filling_active (finish_sale p)" "inactive (finish_sale p)"
  by (simp_all add: finish_sale_def Let_def inactive_def)

lemma keeps_complete: "keeps inactive complete_filling" "keeps flow_safe complete_filling"
  unfolding complete_filling_def
  by (intro keeps_intros keeps_read_each keeps_queues; simp add: inactive_def)+

lemma complete_stops: "inactive (snd (complete_filling p))"
proof (cases "sp_filling_active p")
  case True
  have "keeps inactive (then_act queue_status_and_nozzle queue_fill_data)"
    by (intro keeps_intros keeps_queues) (simp_all add: inactive_def)
  from keepsD [OF this finish_sale_inactive(2) [of p]] True show ?thesis
    by (simp add: complete_filling_def completion_applies_def del: then_act_simp)
      (simp add: then_act_def bind_act_def)
next
  case False
  then show ?thesis using keepsD [OF keeps_complete(1), of p] by (simp add: inactive_def)
qed

lemma reach_and_complete: "keeps flow_safe (then_act (modify_act reach_limit) complete_filling)"
  using complete_stops by (auto simp: keeps_def inactive_def split: prod.split)

lemma keeps_fill_one: "keeps flow_safe fill_one_interval"
proof -
  have "keeps flow_safe (then_act (modify_act (\<lambda>p. sim_apply_event FILLING_UPDATED
        (no_args\<lparr>ap_raw_status := Some (wayne_code Wayne_FILLING)\<rparr>) (p\<lparr>sp_volume := v, sp_amount := a\<rparr>)))
      (then_act queue_fill_data
        (if hit then then_act (modify_act reach_limit) complete_filling else return_act ())))" for v a hit
    by (intro keeps_intros reach_and_complete) (simp add: flow_safe_event)
  then show ?thesis
    unfolding fill_one_interval_def by (intro keeps_read_each) (simp only: simp_thms split: prod.split)
qed

lemma keeps_fill_intervals: "keeps flow_safe (fill_intervals n)"
  by (induction n) (simp_all only: fill_intervals.simps, (intro keeps_intros keeps_read_each keeps_fill_one; assumption)+)

lemma keeps_time: "keeps flow_safe (on_time_advance now)"
  unfolding on_time_advance_def Let_def
  by (intro keeps_read_each keeps_if keeps_return)
    (auto split: option.split intro!: keeps_intros keeps_fill_intervals)

lemma local_event_safe [simp]:
  "flow_safe p \<Longrightarrow> flow_safe (sim_apply_event COMMUNICATION_STARTED no_args p)"
  "flow_safe p \<Longrightarrow> flow_safe (sim_apply_event PUMP_DISCOVERED no_args p)"
  "flow_safe p \<Longrightarrow> local_args args \<Longrightarrow> flow_safe (sim_apply_event RESET_OBSERVED args p)"
  "flow_safe p \<Longrightarrow> local_args args \<Longrightarrow> flow_safe (sim_apply_event READY_OBSERVED args p)"
  "flow_safe p \<Longrightarrow> local_args args \<Longrightarrow> flow_safe (sim_apply_event NOZZLE_LIFTED args p)"
  "flow_safe p \<Longrightarrow> flow_safe (sim_apply_event NOZZLE_RETURNED no_args p)"
  "flow_safe p \<Longrightarrow> flow_safe (sim_apply_event FAULT_CLEARED no_args p)"
  "flow_safe p \<Longrightarrow> local_args args \<Longrightarrow> flow_safe (sim_apply_event SUSPENDED_OBSERVED args p)"
  "flow_safe p \<Longrightarrow> local_args args \<Longrightarrow> flow_safe (sim_apply_event RESUMED_OBSERVED args p)"
  by (simp_all add: flow_safe_event)

lemma execute_command_safe:
  assumes "flow_safe p" "command = AUTHORIZE \<Longrightarrow> sp_state p = NOZZLE_UP"
  shows "flow_safe (snd (execute_command fresh now command v a price p))"
proof (cases "command = AUTHORIZE")
  case True
  have start: "flow_safe (let t = fresh (sp_uuids_drawn p);
      p1 = p\<lparr>sp_active_transaction := Some t, sp_uuids_drawn := Suc (sp_uuids_drawn p),
             sp_volume := 0, sp_amount := 0, sp_wayne_status := Wayne_AUTHORIZED\<rparr>;
      p2 = sim_apply_event AUTHORIZATION_CONFIRMED ((status_args p1)\<lparr>ap_active_transaction := Some t\<rparr>) p1;
      p3 = p2\<lparr>sp_filling_active := True, sp_suspended := False, sp_last_fill_tick := Some now,
              sp_wayne_status := Wayne_FILLING\<rparr>
    in sim_apply_event FILLING_STARTED (status_args p3) p3)"
    using assms(2) [OF True] by (simp add: Let_def flow_safe_def sim_apply_state next_state_authorize)
  have "keeps flow_safe (then_act queue_status_and_nozzle queue_fill_data)" by (intro keeps_intros)
  from keepsD [OF this start] True show ?thesis
    by (simp add: execute_command_def del: then_act_simp) (simp add: then_act_def bind_act_def)
next
  case False
  have "keeps flow_safe (execute_command fresh now command v a price)"
    using False unfolding execute_command_def
    by (cases command)
      (auto simp: Let_def split: option.split intro!: keeps_intros keeps_complete)
  then show ?thesis using assms(1) by (rule keepsD)
qed

text \<open>The eligibility test is what makes an authorization safe.\<close>

lemma keeps_guarded: "keeps flow_safe (execute_guarded fresh cfg now command preset v a price)"
  unfolding execute_guarded_def
proof (intro keeps_then keeps_modify keeps_read, goal_cases)
  case (1 p)
  then show ?case by simp
next
  case (2 p)
  let ?preset = "map_option (\<lambda>v. Preset_finite \<lparr>dec_coefficient = v, dec_exponent = 0\<rparr>) preset"
  let ?eval = "evaluate_command_eligibility command (sp_context p) ?preset (sc_physical_enable cfg) (sc_active_commands cfg)"
  show ?case
  proof (cases ?eval)
    case (Inl e)
    with 2 show ?thesis by (simp add: bind_act_def)
  next
    case (Inr el)
    let ?p = "p\<lparr>sp_last_command := Some command\<rparr>"
    have "flow_safe (snd (execute_command fresh now command v a price ?p))" if "el_eligible el"
    proof (rule execute_command_safe)
      have "is_eligible command (sp_context p) ?preset"
        using eligibility_iff [of command "sp_context p" ?preset "sc_physical_enable cfg" "sc_active_commands cfg"]
          Inr that by simp
      then show "command = AUTHORIZE \<Longrightarrow> sp_state ?p = NOZZLE_UP"
        by (auto simp: is_eligible_def blocking_reasons_def Let_def)
    qed (use 2 in simp)
    with Inr 2 show ?thesis
      by (auto simp: bind_act_def split: prod.split sum.split)
  qed
qed

lemma keeps_cd5: "keeps flow_safe (handle_cd5_from fresh cfg now n data)"
  by (induction fresh cfg now n data rule: handle_cd5_from.induct)
    (simp_all only: handle_cd5_from.simps, (intro keeps_intros keeps_guarded; assumption)+)

lemma keeps_cd1: "keeps flow_safe (handle_cd1 fresh cfg now dcc)"
  unfolding handle_cd1_def
  by (intro keeps_read_each)
    (auto split: sum.split pump_control_command.split option.split intro!: keeps_intros keeps_guarded)

lemma keeps_one_tx: "keeps flow_safe (handle_one_tx fresh cfg now tid data)"
  unfolding handle_one_tx_def handle_cd3_preset_volume_def handle_cd4_preset_amount_def
  by (intro keeps_if keeps_cd1 keeps_cd5 keeps_bind keeps_result keeps_guarded keeps_then keeps_read_each
      keeps_flow_queues keeps_return)

lemma keeps_payload: "keeps flow_safe (handle_application_payload fresh cfg now payload)"
proof (induction fresh cfg now payload rule: handle_application_payload.induct)
  case (1 fresh cfg now tid lng rest)
  then show ?case
    unfolding handle_application_payload.simps
    by (intro keeps_if keeps_bind keeps_one_tx keeps_return keeps_read_each) simp_all
qed (simp_all only: handle_application_payload.simps keeps_return)

text \<open>Everything that can be done to a pump from outside, as one step; an exception leaves its partial effect.\<close>

datatype sim_operation =
    Sim_enable | Sim_disable | Sim_cold_start | Sim_restart bool | Sim_lift int int | Sim_return
  | Sim_fault int | Sim_clear | Sim_payload int bytes | Sim_time int

fun sim_step :: "(nat \<Rightarrow> string) \<Rightarrow> simulator_config \<Rightarrow> sim_pump \<Rightarrow> sim_operation \<Rightarrow> sim_pump" where
  "sim_step fresh cfg p Sim_enable = enable_communication p"
| "sim_step fresh cfg p Sim_disable = disable_communication p"
| "sim_step fresh cfg p Sim_cold_start = snd (cold_start_to_ready p)"
| "sim_step fresh cfg p (Sim_restart preserve) = restart_pump preserve p"
| "sim_step fresh cfg p (Sim_lift nozzle now) = snd (lift_nozzle nozzle now p)"
| "sim_step fresh cfg p Sim_return = snd (return_nozzle p)"
| "sim_step fresh cfg p (Sim_fault code) = snd (inject_fault code p)"
| "sim_step fresh cfg p Sim_clear = clear_fault p"
| "sim_step fresh cfg p (Sim_payload now bytes) = snd (handle_application_payload fresh cfg now bytes p)"
| "sim_step fresh cfg p (Sim_time now) = snd (on_time_advance now p)"

lemma enable_safe: "flow_safe p \<Longrightarrow> flow_safe (enable_communication p)"
  by (simp add: enable_communication_def)

lemma restart_inactive: "flow_safe (restart_pump b p)"
  by (rule flow_safe_inactive) (simp add: restart_pump_def reset_protocol_sequences_def Let_def)

lemma sim_step_safe: "flow_safe p \<Longrightarrow> flow_safe (sim_step fresh cfg p op)"
proof (cases op)
  case Sim_disable
  then show ?thesis by (simp add: disable_communication_def)
next
  case Sim_cold_start
  assume "flow_safe p"
  then have "flow_safe (snd (cold_start_to_ready p))"
    unfolding cold_start_to_ready_def
    by (intro keepsD [of flow_safe]) (intro keeps_intros; simp add: Let_def enable_safe)
  with Sim_cold_start show ?thesis by simp
next
  case (Sim_lift nozzle now)
  have "keeps flow_safe (lift_nozzle nozzle now)"
    unfolding lift_nozzle_def by (intro keeps_read_each keeps_intros) simp
  then show "flow_safe p \<Longrightarrow> ?thesis" using Sim_lift by (simp add: keepsD)
next
  case Sim_return
  have "keeps flow_safe return_nozzle"
    unfolding return_nozzle_def by (intro keeps_intros) (simp add: Let_def)
  then show "flow_safe p \<Longrightarrow> ?thesis" using Sim_return by (simp add: keepsD)
next
  case (Sim_fault code)
  have "keeps flow_safe (inject_fault code)"
    unfolding inject_fault_def by (intro keeps_intros) simp
  then show "flow_safe p \<Longrightarrow> ?thesis" using Sim_fault by (simp add: keepsD)
qed (simp_all add: enable_safe restart_inactive clear_fault_def Let_def keepsD [OF keeps_payload] keepsD [OF keeps_time])

interpretation flow: preserved "sim_step fresh cfg" flow_safe for fresh cfg
  by unfold_locales (rule sim_step_safe)

text \<open>
  Fuel flows only while filling: after any sequence of operations on a new pump (local actions, controller payloads,
  passing time, restarts and faults, exceptions included), an active flow implies that the state machine is in
  FILLING or SUSPENDED.
\<close>

theorem flow_only_while_filling:
  "\<not> (sp_filling_active (foldl (sim_step fresh cfg) (new_sim_pump pcfg) ops) \<and>
      sp_state (foldl (sim_step fresh cfg) (new_sim_pump pcfg) ops) \<notin> {FILLING, SUSPENDED})"
proof -
  have "flow_safe (new_sim_pump pcfg)" by (simp add: new_sim_pump_def)
  then show ?thesis by (rule flow.run_preserves [unfolded flow_safe_def [of "foldl _ _ _"]])
qed

section \<open>Readings\<close>

lemma fill_delta_pos: "0 < fill_delta cfg"
  by (simp add: fill_delta_def Let_def)

lemma fill_reading_volume:
  "fst (fill_reading p) = min (sp_volume p + fill_delta (cf_filling (sp_config p))) (limit_volume p)"
  by (simp add: fill_reading_def Let_def split: option.split)

definition reading_between :: "int \<Rightarrow> int \<Rightarrow> sim_pump \<Rightarrow> bool" where
  "reading_between lo hi p \<longleftrightarrow> lo \<le> sp_volume p \<and> sp_volume p \<le> hi \<and> limit_volume p = hi"

lemma limit_volume_cong:
  "sp_config p = sp_config q \<Longrightarrow> sp_preset_volume p = sp_preset_volume q \<Longrightarrow> limit_volume p = limit_volume q"
  by (simp add: limit_volume_def)

lemma reading_between_cong:
  "sp_config p = sp_config q \<Longrightarrow> sp_preset_volume p = sp_preset_volume q \<Longrightarrow> sp_volume p = sp_volume q \<Longrightarrow>
   reading_between lo hi p = reading_between lo hi q"
  by (simp add: reading_between_def limit_volume_cong [of p q])

lemma keeps_reading_complete: "keeps (reading_between lo hi) complete_filling"
proof -
  have "reading_between lo hi (finish_sale p) = reading_between lo hi p" for p
    by (rule reading_between_cong) (simp_all add: finish_sale_def Let_def)
  moreover have "reading_between lo hi (p\<lparr>sp_pending := x\<rparr>) = reading_between lo hi p" for p x
    by (rule reading_between_cong) simp_all
  ultimately show ?thesis
    unfolding complete_filling_def by (intro keeps_read_each keeps_intros keeps_queues) simp_all
qed

lemma keeps_reading_one: "keeps (reading_between lo hi) fill_one_interval"
proof -
  have q: "reading_between lo hi (p\<lparr>sp_pending := x\<rparr>) = reading_between lo hi p" for p x
    by (rule reading_between_cong) simp_all
  have r: "reading_between lo hi p \<Longrightarrow> reading_between lo hi (reach_limit p)" for p
    by (subst reading_between_cong [of _ p]) (simp_all add: reach_limit_def Let_def)
  have "keeps (reading_between lo hi) (then_act queue_fill_data
      (if hit then then_act (modify_act reach_limit) complete_filling else return_act ()))" for hit
    by (intro keeps_intros keeps_queues keeps_reading_complete) (simp_all add: q r)
  moreover have "reading_between lo hi (sim_apply_event ev args (p\<lparr>sp_volume := v, sp_amount := a\<rparr>))"
    if "fill_reading p = (v, a, hit)" "reading_between lo hi p" for p v a hit ev args
  proof -
    have "limit_volume (sim_apply_event ev args (p\<lparr>sp_volume := v, sp_amount := a\<rparr>)) = limit_volume p"
      by (rule limit_volume_cong) simp_all
    moreover have "v = min (sp_volume p + fill_delta (cf_filling (sp_config p))) (limit_volume p)"
      using fill_reading_volume [of p] that(1) by simp
    ultimately show ?thesis
      using that(2) fill_delta_pos [of "cf_filling (sp_config p)"] by (simp add: reading_between_def)
  qed
  ultimately show ?thesis
    unfolding fill_one_interval_def keeps_def
    by (auto simp: then_act_def bind_act_def split: prod.split)
qed

lemma keeps_reading_intervals: "keeps (reading_between lo hi) (fill_intervals n)"
  by (induction n)
    (simp_all only: fill_intervals.simps, (intro keeps_intros keeps_read_each keeps_reading_one; assumption)+)

lemma keeps_reading_time: "keeps (reading_between lo hi) (on_time_advance now)"
proof -
  have t: "reading_between lo hi (p\<lparr>sp_last_fill_tick := x\<rparr>) = reading_between lo hi p" for p x
    by (rule reading_between_cong) simp_all
  show ?thesis
    unfolding on_time_advance_def Let_def
    by (intro keeps_read_each keeps_if keeps_return)
      (auto simp: t split: option.split intro!: keeps_intros keeps_reading_intervals)
qed

text \<open>
  C40. The meter is monotone and bounded: however much time passes, the volume shown never falls and never exceeds the
  preset (or configured, or natural) limit of the sale.
\<close>

theorem reading_bounded:
  assumes "sp_volume p \<le> limit_volume p"
  shows "sp_volume p \<le> sp_volume (snd (on_time_advance now p)) \<and>
    sp_volume (snd (on_time_advance now p)) \<le> limit_volume p"
  using keepsD [OF keeps_reading_time, of "sp_volume p" "limit_volume p" p now] assms
  by (simp add: reading_between_def)

definition sample_pump :: sim_pump where
  "sample_pump = (new_sim_pump \<lparr>cf_pump_id = ''fp-1'', cf_dart_address = 1, cf_nozzle_count = 2, cf_default_price = 1175,
     cf_filling = \<lparr>fc_flow_rate = 1 / 2, fc_interval_ms = 200, fc_volume_decimals = 3, fc_amount_decimals = 2,
       fc_price_decimals = 2, fc_preset_volume = None, fc_preset_amount = None, fc_natural_complete = 40000\<rparr>\<rparr>)
     \<lparr>sp_filling_active := True, sp_last_fill_tick := Some 0\<rparr>"

theorem reading_bounded_witness:
  "sp_volume sample_pump \<le> sp_volume (snd (on_time_advance 1000 sample_pump)) \<and>
   sp_volume (snd (on_time_advance 1000 sample_pump)) \<le> limit_volume sample_pump"
  by (rule reading_bounded) (simp add: sample_pump_def new_sim_pump_def limit_volume_def)

text \<open>
  A preset amount breaks the link between amount and volume: when the price of the metered volume exceeds the preset
  amount, the amount is cut to the preset but the volume is kept, although the comment announces that the volume is
  recomputed; the sale then shows more fuel than it charges for.
\<close>

theorem preset_amount_keeps_volume:
  assumes "sp_preset_amount p = Some limit" "fill_reading p = (v, a, hit)" "limit < amount_from_volume p v"
  shows "a = limit \<and> hit \<and> amount_from_volume p v \<noteq> a \<and>
    v = min (sp_volume p + fill_delta (cf_filling (sp_config p))) (limit_volume p)"
  using assms fill_reading_volume [of p]
  by (auto simp: fill_reading_def Let_def split: if_splits)

theorem preset_amount_keeps_volume_witness:
  "(100 :: int) = 100 \<and> True \<and> amount_from_volume (sample_pump\<lparr>sp_preset_amount := Some 100\<rparr>) 100 \<noteq> 100 \<and>
   100 = min (sp_volume (sample_pump\<lparr>sp_preset_amount := Some 100\<rparr>) +
     fill_delta (cf_filling (sp_config (sample_pump\<lparr>sp_preset_amount := Some 100\<rparr>))))
     (limit_volume (sample_pump\<lparr>sp_preset_amount := Some 100\<rparr>))"
proof (rule preset_amount_keeps_volume)
  have d: "fill_delta (cf_filling (sp_config sample_pump)) = 100"
    by (simp add: sample_pump_def new_sim_pump_def fill_delta_def round_down_def)
  have fl: "\<lfloor>235 / 2 :: rat\<rfloor> = 117" by (rule floor_unique) simp_all
  have a: "amount_from_volume (sample_pump\<lparr>sp_preset_amount := Some 100\<rparr>) 100 = 117"
    by (simp add: sample_pump_def new_sim_pump_def amount_from_volume_def round_down_def nozzle_price_def
        nozzle_or_1_def default_prices_def fl)
  show "100 < amount_from_volume (sample_pump\<lparr>sp_preset_amount := Some 100\<rparr>) 100" by (simp add: a)
  show "fill_reading (sample_pump\<lparr>sp_preset_amount := Some 100\<rparr>) = (100, 100, True)"
  proof -
    have "limit_volume (sample_pump\<lparr>sp_preset_amount := Some 100\<rparr>) = 40000" "sp_volume sample_pump = 0"
      by (simp_all add: sample_pump_def new_sim_pump_def limit_volume_def)
    then show ?thesis by (simp add: fill_reading_def d a)
  qed
qed simp

section \<open>Every sale ends\<close>

text \<open>Prices and readings that fit the BCD fields of their transactions, up to the limit of the sale.\<close>

definition sale_encodable :: "sim_pump \<Rightarrow> bool" where
  "sale_encodable p \<longleftrightarrow>
     0 \<le> sp_volume p \<and> sp_volume p \<le> limit_volume p \<and> limit_volume p < 10 ^ 8 \<and>
     0 \<le> nozzle_price p \<and> nozzle_price p < 10 ^ 6 \<and>
     amount_from_volume p (limit_volume p) < 10 ^ 8 \<and>
     (case sp_preset_amount p of None \<Rightarrow> True | Some a \<Rightarrow> 0 \<le> a)"

lemma nozzle_price_cong:
  "sp_config p = sp_config q \<Longrightarrow> sp_prices p = sp_prices q \<Longrightarrow> sp_selected_nozzle p = sp_selected_nozzle q \<Longrightarrow>
   nozzle_price p = nozzle_price q"
  by (simp add: nozzle_price_def nozzle_or_1_def split: option.split)

lemma amount_cong:
  "sp_config p = sp_config q \<Longrightarrow> sp_prices p = sp_prices q \<Longrightarrow> sp_selected_nozzle p = sp_selected_nozzle q \<Longrightarrow>
   amount_from_volume p v = amount_from_volume q v"
  using nozzle_price_cong [of p q] by (simp add: amount_from_volume_def)

lemma sale_encodable_cong:
  "sp_config p = sp_config q \<Longrightarrow> sp_preset_volume p = sp_preset_volume q \<Longrightarrow> sp_volume p = sp_volume q \<Longrightarrow>
   sp_prices p = sp_prices q \<Longrightarrow> sp_selected_nozzle p = sp_selected_nozzle q \<Longrightarrow>
   sp_preset_amount p = sp_preset_amount q \<Longrightarrow> sale_encodable p = sale_encodable q"
  using limit_volume_cong [of p q] nozzle_price_cong [of p q] amount_cong [of p q "limit_volume q"]
  by (simp add: sale_encodable_def)

lemma amount_bounds:
  assumes "0 \<le> nozzle_price p" "0 \<le> v" "v \<le> w"
  shows "0 \<le> amount_from_volume p v" "amount_from_volume p v \<le> amount_from_volume p w"
proof -
  let ?c = "cf_filling (sp_config p)"
  let ?f = "\<lambda>x. of_int x / 10 ^ fc_volume_decimals ?c * (of_int (nozzle_price p) / 10 ^ fc_price_decimals ?c) *
    10 ^ fc_amount_decimals ?c :: rat"
  have nn: "0 \<le> ?f v" using assms by simp
  have "?f v \<le> ?f w" using assms by (intro mult_right_mono divide_right_mono) simp_all
  with nn show "0 \<le> amount_from_volume p v" "amount_from_volume p v \<le> amount_from_volume p w"
    by (simp_all add: amount_from_volume_def Let_def round_down_def floor_mono)
qed

lemma encode_tx_ok: "length d \<le> 255 \<Longrightarrow> 0 \<le> t \<Longrightarrow> t \<le> 255 \<Longrightarrow> \<exists>b. encode_tx t d = Inr b"
  by (auto simp: encode_tx_Inr)

lemma encode_dc2_ok:
  assumes "0 \<le> v" "v < 10 ^ 8" "0 \<le> a" "a < 10 ^ 8"
  shows "\<exists>b. encode_dc2_volume_amount v a = Inr b"
proof -
  obtain vb ab where e: "encode_packed_bcd v (Some 4) = Inr vb" "encode_packed_bcd a (Some 4) = Inr ab"
    using encodes [of v 4] encodes [of a 4] assms by auto
  have "length vb = 4" "length ab = 4" using e [THEN encode_width] by simp_all
  then show ?thesis
    using encode_tx_ok [of "vb @ ab" 2] by (simp add: encode_dc2_volume_amount_def e)
qed

lemma nozio_range:
  fixes n :: int
  shows "0 \<le> (n AND 0x0F) OR (if out then 0x10 else 0)" "(n AND 0x0F) OR (if out then 0x10 else 0) \<le> 255"
proof -
  have n: "0 \<le> n AND 0x0F" "n AND 0x0F \<le> 15" by (simp, rule AND_upper2, simp)
  then show "0 \<le> (n AND 0x0F) OR (if out then 0x10 else 0)" by simp
  have "(n AND 0x0F) OR (if out then 0x10 else 0) < 2 ^ 8"
    using n by (intro OR_upper) simp_all
  then show "(n AND 0x0F) OR (if out then 0x10 else 0) \<le> 255" by simp
qed

lemma encode_dc3_ok:
  assumes "0 \<le> price" "price < 10 ^ 6"
  shows "\<exists>b. encode_dc3_nozzle_price price nozzle out = Inr b"
proof -
  obtain pb where e: "encode_packed_bcd price (Some 3) = Inr pb"
    using encodes [of price 3] assms by auto
  then have "length pb = 3" using encode_width by fastforce
  then show ?thesis
    using encode_tx_ok [of "pb @ [word_of_int ((nozzle AND 0x0F) OR (if out then 0x10 else 0))]" 3]
      nozio_range [of nozzle out]
    unfolding encode_dc3_nozzle_price_def Let_def bytes_of_int_def by (simp add: e)
qed

text \<open>Queueing succeeds and changes the queue only.\<close>

definition queued :: "sim_pump \<Rightarrow> sim_pump \<Rightarrow> bool" where
  "queued p q \<longleftrightarrow> (\<exists>x. q = p\<lparr>sp_pending := x\<rparr>)"

lemma queue_encoded_ok: "\<exists>b. r = Inr b \<Longrightarrow> \<exists>q. queue_encoded r label p = (Inr (), q) \<and> queued p q"
  by (auto simp: queue_encoded_def bind_act_def queue_tx_def queued_def)

lemma queue_fill_ok:
  assumes "0 \<le> sp_volume p" "sp_volume p < 10 ^ 8" "0 \<le> sp_amount p" "sp_amount p < 10 ^ 8"
  shows "\<exists>q. queue_fill_data p = (Inr (), q) \<and> queued p q"
  using queue_encoded_ok [OF encode_dc2_ok [OF assms]] by (simp add: queue_fill_data_def)

lemma queue_status_ok:
  assumes "0 \<le> nozzle_price p" "nozzle_price p < 10 ^ 6"
  shows "\<exists>q. queue_status_and_nozzle p = (Inr (), q) \<and> queued p q"
proof -
  obtain q where q: "queue_status p = (Inr (), q)" "queued p q"
    using queue_encoded_ok [of "encode_dc1_status (wayne_code (sp_wayne_status p))" DC1_STATUS p]
      encode_tx_ok [of "[word_of_int (wayne_code (sp_wayne_status p) AND 0xFF)]" 1]
    by (auto simp: queue_status_def encode_dc1_status_def)
  then have "nozzle_price q = nozzle_price p" "nozzle_or_1 q = nozzle_or_1 p" "sp_nozzle_out q = sp_nozzle_out p"
    using nozzle_price_cong [of q p] by (auto simp: queued_def nozzle_or_1_def)
  then have "encode_dc3 q = encode_dc3 p" by (simp add: encode_dc3_def)
  then obtain q' where "queue_encoded (encode_dc3 q) DC3_NOZZLE_PRICE q = (Inr (), q')" "queued q q'"
    using queue_encoded_ok [OF encode_dc3_ok [OF assms]] by (metis encode_dc3_def)
  with q show ?thesis
    by (auto simp: queue_status_and_nozzle_def queued_def)
qed

definition sale_closed :: "sim_pump \<Rightarrow> sim_pump \<Rightarrow> bool" where
  "sale_closed p q \<longleftrightarrow> \<not> sp_filling_active q \<and> sp_volume q \<le> limit_volume p \<and>
     sp_total_volume q = sp_total_volume p + sp_volume q \<and> sp_total_amount q = sp_total_amount p + sp_amount q"

lemma complete_ok:
  assumes "sp_filling_active p" "0 \<le> sp_volume p" "sp_volume p < 10 ^ 8" "0 \<le> sp_amount p" "sp_amount p < 10 ^ 8"
    "0 \<le> nozzle_price p" "nozzle_price p < 10 ^ 6"
  shows "\<exists>q. complete_filling p = (Inr (), q) \<and> \<not> sp_filling_active q \<and> sp_volume q = sp_volume p \<and>
    sp_amount q = sp_amount p \<and> sp_total_volume q = sp_total_volume p + sp_volume p \<and>
    sp_total_amount q = sp_total_amount p + sp_amount p"
proof -
  let ?f = "finish_sale p"
  have f: "sp_volume ?f = sp_volume p" "sp_amount ?f = sp_amount p"
    "sp_total_volume ?f = sp_total_volume p + sp_volume p" "sp_total_amount ?f = sp_total_amount p + sp_amount p"
    by (simp_all add: finish_sale_def Let_def)
  have np: "nozzle_price ?f = nozzle_price p"
    by (rule nozzle_price_cong) (simp_all add: finish_sale_def Let_def)
  obtain q where q: "queue_status_and_nozzle ?f = (Inr (), q)" "queued ?f q"
    using queue_status_ok [of ?f] assms np by auto
  then have qf: "sp_volume q = sp_volume p" "sp_amount q = sp_amount p" using f by (auto simp: queued_def)
  obtain r where r: "queue_fill_data q = (Inr (), r)" "queued q r"
    using queue_fill_ok [of q] assms qf by auto
  have "complete_filling p = (Inr (), r)"
    using assms(1) by (simp add: complete_filling_def completion_applies_def q(1) r(1))
  with q(2) r(2) f show ?thesis
    by (auto simp: queued_def)
qed

lemma fill_reading_bounds:
  assumes "sale_encodable p" "fill_reading p = (v, a, hit)"
  shows "0 \<le> v" "v \<le> limit_volume p" "0 \<le> a" "a < 10 ^ 8" "\<not> hit \<Longrightarrow> sp_volume p < v"
proof -
  note enc = assms(1) [unfolded sale_encodable_def]
  have v: "v = min (sp_volume p + fill_delta (cf_filling (sp_config p))) (limit_volume p)"
    using fill_reading_volume [of p] assms(2) by simp
  with enc fill_delta_pos [of "cf_filling (sp_config p)"] show v0: "0 \<le> v" "v \<le> limit_volume p" by auto
  have a0: "0 \<le> amount_from_volume p v" "amount_from_volume p v < 10 ^ 8"
    using amount_bounds [of p v "limit_volume p"] enc v0 by auto
  have "a = amount_from_volume p v \<or> (\<exists>pa. sp_preset_amount p = Some pa \<and> a = pa \<and> pa \<le> amount_from_volume p v)"
    using assms(2) by (auto simp: fill_reading_def Let_def split: option.splits if_splits)
  with a0 enc show "0 \<le> a" "a < 10 ^ 8" by auto
  have "\<not> hit \<Longrightarrow> v = sp_volume p + fill_delta (cf_filling (sp_config p))"
    using assms(2) by (auto simp: fill_reading_def Let_def split: option.splits if_splits)
  with fill_delta_pos [of "cf_filling (sp_config p)"] show "\<not> hit \<Longrightarrow> sp_volume p < v" by simp
qed

text \<open>The fields a running sale depends on.\<close>

definition same_sale :: "sim_pump \<Rightarrow> sim_pump \<Rightarrow> bool" where
  "same_sale p q \<longleftrightarrow> sp_config q = sp_config p \<and> sp_prices q = sp_prices p \<and>
     sp_selected_nozzle q = sp_selected_nozzle p \<and> sp_preset_volume q = sp_preset_volume p \<and>
     sp_preset_amount q = sp_preset_amount p \<and> sp_total_volume q = sp_total_volume p \<and>
     sp_total_amount q = sp_total_amount p \<and> sp_filling_active q = sp_filling_active p \<and>
     sp_suspended q = sp_suspended p"

lemma same_sale_facts:
  assumes "same_sale p q"
  shows "limit_volume q = limit_volume p" "nozzle_price q = nozzle_price p"
    "amount_from_volume q x = amount_from_volume p x"
  using assms limit_volume_cong [of q p] nozzle_price_cong [of q p] amount_cong [of q p x]
  by (simp_all add: same_sale_def)

lemma fill_one_ok:
  assumes enc: "sale_encodable p" and act: "sp_filling_active p" "\<not> sp_suspended p"
  shows "\<exists>q. fill_one_interval p = (Inr (), q) \<and>
    (sale_closed p q \<or> (same_sale p q \<and> sale_encodable q \<and> sp_volume p < sp_volume q))"
proof -
  obtain v a hit where r: "fill_reading p = (v, a, hit)" by (cases "fill_reading p") auto
  note b = fill_reading_bounds [OF enc r]
  note e = enc [unfolded sale_encodable_def]
  let ?p1 = "sim_apply_event FILLING_UPDATED (no_args\<lparr>ap_raw_status := Some (wayne_code Wayne_FILLING)\<rparr>)
    (p\<lparr>sp_volume := v, sp_amount := a\<rparr>)"
  have v8: "v < 10 ^ 8" using b(2) e by linarith
  obtain q1 where q1: "queue_fill_data ?p1 = (Inr (), q1)" "queued ?p1 q1"
    using queue_fill_ok [of ?p1] b v8 by auto
  have s1: "same_sale p q1" "sp_volume q1 = v" "sp_amount q1 = a"
    using q1(2) by (auto simp: queued_def same_sale_def)
  show ?thesis
  proof (cases hit)
    case False
    have "fill_one_interval p = (Inr (), q1)"
      using q1(1) by (simp add: fill_one_interval_def r False)
    moreover have "sale_encodable q1"
      using e b same_sale_facts [OF s1(1)] s1 by (simp add: sale_encodable_def same_sale_def)
    ultimately show ?thesis using s1 b(5) [OF False] by auto
  next
    case True
    let ?r = "reach_limit q1"
    have s2: "same_sale p ?r" "sp_volume ?r = v" "sp_amount ?r = a"
      using s1 by (simp_all add: reach_limit_def Let_def same_sale_def)
    then have "sp_filling_active ?r" "nozzle_price ?r = nozzle_price p"
      using act same_sale_facts [OF s2(1)] by (simp_all add: same_sale_def)
    then obtain q where q: "complete_filling ?r = (Inr (), q)" "\<not> sp_filling_active q" "sp_volume q = v"
        "sp_amount q = a" "sp_total_volume q = sp_total_volume p + v" "sp_total_amount q = sp_total_amount p + a"
      using complete_ok [of ?r] s2 b v8 e by (auto simp: same_sale_def)
    have "fill_one_interval p = (Inr (), q)"
      using q1(1) by (simp add: fill_one_interval_def r True q(1))
    with q b(2) show ?thesis by (auto simp: sale_closed_def)
  qed
qed

lemma fill_intervals_stopped: "\<not> sp_filling_active p \<Longrightarrow> fill_intervals n p = (Inr (), p)"
  by (cases n) simp_all

lemma fill_intervals_close:
  "sale_encodable p \<Longrightarrow> sp_filling_active p \<Longrightarrow> \<not> sp_suspended p \<Longrightarrow>
   limit_volume p - sp_volume p < int n \<Longrightarrow>
   \<exists>q. fill_intervals n p = (Inr (), q) \<and> sale_closed p q"
proof (induction n arbitrary: p)
  case 0
  then show ?case by (simp add: sale_encodable_def)
next
  case (Suc n)
  from fill_one_ok [OF Suc.prems(1-3)] obtain q where q: "fill_one_interval p = (Inr (), q)"
    and c: "sale_closed p q \<or> (same_sale p q \<and> sale_encodable q \<and> sp_volume p < sp_volume q)" by blast
  have step: "fill_intervals (Suc n) p = fill_intervals n q"
    using Suc.prems q by simp
  from c show ?case
  proof
    assume "sale_closed p q"
    then show ?thesis using step fill_intervals_stopped [of q n] by (auto simp: sale_closed_def)
  next
    assume n: "same_sale p q \<and> sale_encodable q \<and> sp_volume p < sp_volume q"
    then have same: "same_sale p q" by simp
    have "\<exists>r. fill_intervals n q = (Inr (), r) \<and> sale_closed q r"
      using n Suc.prems same_sale_facts [OF same] by (intro Suc.IH) (auto simp: same_sale_def)
    then show ?thesis
      using step same same_sale_facts [OF same] by (auto simp: sale_closed_def same_sale_def)
  qed
qed

text \<open>
  Every sale ends and is billed once: when price and readings fit their BCD fields, a running sale is closed, without an
  exception, after at most as many update intervals as units remain to its limit, plus one; the volume stays within the
  limit, and the final volume and amount are added to the totals exactly once, however many intervals follow.
\<close>

theorem every_sale_closes:
  assumes "sale_encodable p" "sp_filling_active p" "\<not> sp_suspended p"
    and "limit_volume p - sp_volume p < int n"
  shows "\<exists>q. fill_intervals n p = (Inr (), q) \<and> \<not> sp_filling_active q \<and> sp_volume q \<le> limit_volume p \<and>
    sp_total_volume q = sp_total_volume p + sp_volume q \<and> sp_total_amount q = sp_total_amount p + sp_amount q"
  using fill_intervals_close [OF assms] by (simp add: sale_closed_def)

theorem every_sale_closes_witness:
  "\<exists>q. fill_intervals 40001 sample_pump = (Inr (), q) \<and> \<not> sp_filling_active q \<and>
    sp_volume q \<le> limit_volume sample_pump \<and>
    sp_total_volume q = sp_total_volume sample_pump + sp_volume q \<and>
    sp_total_amount q = sp_total_amount sample_pump + sp_amount q"
proof (rule every_sale_closes)
  have "limit_volume sample_pump = 40000" "sp_volume sample_pump = 0" "nozzle_price sample_pump = 1175"
    "sp_preset_amount sample_pump = None"
    by (simp_all add: sample_pump_def new_sim_pump_def limit_volume_def nozzle_price_def nozzle_or_1_def
        default_prices_def)
  moreover have "amount_from_volume sample_pump 40000 = 47000"
    by (simp add: sample_pump_def new_sim_pump_def amount_from_volume_def round_down_def nozzle_price_def
        nozzle_or_1_def default_prices_def)
  ultimately show "sale_encodable sample_pump" "limit_volume sample_pump - sp_volume sample_pump < int 40001"
    by (simp_all add: sale_encodable_def)
qed (simp_all add: sample_pump_def new_sim_pump_def)

end
