(* ===== verification/Sim_Session.thy ===== *)
theory Sim_Session
  imports Sim_Filling "HOL-Library.AList"
begin

text \<open>
  \<open>simulator/session.py\<close> and the clock of \<open>simulator/clock.py\<close>: a virtual dispenser that answers one controller frame at
  a time. The dict of pumps is an association list in its insertion order. No part of the program schedules a
  callback, so the clock is its current time. A note is a constructor for its text.
\<close>

datatype session_note =
    Communication_disabled_note int
  | Iap_restart_note
  | Ignored_control_note control_type
  | Poll_retransmit_note
  | Poll_eot_note
  | Poll_data_note int
  | Duplicate_data_note
  | Data_nak_note
  | Data_ack_note
  | Application_faults_note
  | Spurious_ack_note
  | Ack_accepted_note
  | Nak_retransmit_note int

record exchange_result =
  xr_responses :: "bytes list"
  xr_faults :: "protocol_fault list"
  xr_notes :: "session_note list"

record sim_session =
  ss_config :: simulator_config
  ss_now :: int
  ss_pumps :: "(int \<times> sim_pump) list"
  ss_faults :: "protocol_fault list"
  ss_notes :: "session_note list"

definition new_session :: "simulator_config \<Rightarrow> sim_session" where
  "new_session cfg =
    \<lparr>ss_config = cfg, ss_now = 0,
     ss_pumps = foldl (\<lambda>ps c. AList.update (cf_dart_address c) (new_sim_pump c) ps) [] (sc_pumps cfg),
     ss_faults = [], ss_notes = []\<rparr>"

definition get_pump :: "sim_session \<Rightarrow> int \<Rightarrow> sim_pump result" where
  "get_pump s address = (case map_of (ss_pumps s) address of None \<Rightarrow> Inl KeyError | Some p \<Rightarrow> Inr p)"

definition pump_by_id :: "sim_session \<Rightarrow> string \<Rightarrow> sim_pump result" where
  "pump_by_id s pid =
    (case find (\<lambda>(a, p). cf_pump_id (sp_config p) = pid) (ss_pumps s) of
       None \<Rightarrow> Inl KeyError | Some (a, p) \<Rightarrow> Inr p)"

text \<open>Running a method of the pump at an address.\<close>

definition on_pump :: "int \<Rightarrow> (sim_pump, 'a) action \<Rightarrow> (sim_session, 'a) action" where
  "on_pump address m s =
    (case map_of (ss_pumps s) address of
       None \<Rightarrow> (Inl KeyError, s)
     | Some p \<Rightarrow> (case m p of (r, p') \<Rightarrow> (r, s\<lparr>ss_pumps := AList.update address p' (ss_pumps s)\<rparr>)))"

definition record_faults :: "protocol_fault list \<Rightarrow> (sim_session, unit) action" where
  "record_faults fs = modify_act (\<lambda>s. s\<lparr>ss_faults := ss_faults s @ fs\<rparr>)"

definition record_note :: "session_note \<Rightarrow> (sim_session, unit) action" where
  "record_note n = modify_act (\<lambda>s. s\<lparr>ss_notes := ss_notes s @ [n]\<rparr>)"

definition exchange :: "bytes list \<Rightarrow> protocol_fault list \<Rightarrow> session_note list \<Rightarrow> exchange_result" where
  "exchange responses faults notes = \<lparr>xr_responses = responses, xr_faults = faults, xr_notes = notes\<rparr>"

definition line_fault :: "fault_kind \<Rightarrow> fault_message \<Rightarrow> int \<Rightarrow> int option \<Rightarrow> bytes option \<Rightarrow> int \<Rightarrow> protocol_fault" where
  "line_fault kind message address sequence raw now =
    \<lparr>pf_kind = kind, pf_message = message, pf_address = Some address, pf_sequence = sequence, pf_raw = raw,
     pf_at_ms = now\<rparr>"

section \<open>Control frames\<close>

definition pump_on_poll :: "int \<Rightarrow> (sim_pump, exchange_result) action" where
  "pump_on_poll now = read_act (\<lambda>p.
    let address = cf_dart_address (sp_config p) in
    if sp_awaiting_ack p \<noteq> None \<and> sp_last_wire p \<noteq> None
    then return_act (exchange [the (sp_last_wire p)] [] [Poll_retransmit_note])
    else if \<not> has_pending p
    then bind_act (result_act (build_eot address (sp_tx_sequence p))) (\<lambda>eot.
      return_act (exchange [eot] [] [Poll_eot_note]))
    else case pop_pending_payload p of
        (None, p') \<Rightarrow> result_act (Inl AssertionError)
      | (Some payload, p') \<Rightarrow> then_act (modify_act (\<lambda>_. p'))
          (bind_act (result_act (build_data_frame address (sp_tx_sequence p) payload None DEFAULT_CRC_CANDIDATE)) (\<lambda>wire.
           then_act (modify_act (\<lambda>p. p\<lparr>sp_awaiting_ack := Some (sp_tx_sequence p), sp_data_pending_since := Some now,
               sp_last_wire := Some wire\<rparr>))
             (return_act (exchange [wire] [] [Poll_data_note (sp_tx_sequence p)])))))"

definition pump_on_ack :: "sequence_policy \<Rightarrow> int \<Rightarrow> line_frame \<Rightarrow> (sim_pump, exchange_result) action" where
  "pump_on_ack policy now frame = read_act (\<lambda>p.
    case sp_awaiting_ack p of
      None \<Rightarrow> return_act (exchange [] [] [Spurious_ack_note])
    | Some awaiting \<Rightarrow>
        if lf_sequence frame \<noteq> awaiting
        then return_act (exchange []
          [line_fault Fault_UNEXPECTED_SEQUENCE (Ack_for_other_sequence (lf_sequence frame) awaiting)
             (cf_dart_address (sp_config p)) (Some (lf_sequence frame)) None now] [])
        else bind_act (result_act (next_sequence (sp_tx_sequence p) policy)) (\<lambda>next_seq.
          then_act (modify_act (\<lambda>p. p\<lparr>sp_tx_sequence := next_seq, sp_awaiting_ack := None,
              sp_data_pending_since := None, sp_last_wire := None\<rparr>))
            (return_act (exchange [] [] [Ack_accepted_note]))))"

section \<open>DATA frames\<close>

definition pump_on_data ::
  "(nat \<Rightarrow> string) \<Rightarrow> simulator_config \<Rightarrow> int \<Rightarrow> line_frame \<Rightarrow> (sim_pump, exchange_result) action" where
  "pump_on_data fresh cfg now frame = read_act (\<lambda>p.
    let address = cf_dart_address (sp_config p); seq = lf_sequence frame in
    if lf_crc_valid frame = Some False
    then return_act (exchange []
      [line_fault Fault_INVALID_CRC Invalid_crc_no_response address (Some seq) (Some (lf_raw_frame frame)) now] [])
    else if sp_last_accepted p = Some seq
    then bind_act (result_act (build_ack address seq)) (\<lambda>ack.
      return_act (exchange [ack]
        [line_fault Fault_DUPLICATE_DATA (Duplicate_data_sequence seq) address (Some seq) None now]
        [Duplicate_data_note]))
    else if seq \<noteq> sp_expected_sequence p
    then bind_act (result_act (build_nak address seq)) (\<lambda>nak.
      return_act (exchange [nak]
        [line_fault Fault_UNEXPECTED_SEQUENCE (Sequence_expected (sp_expected_sequence p) seq) address (Some seq) None now]
        [Data_nak_note]))
    else bind_act (handle_application_payload fresh cfg now (lf_payload frame)) (\<lambda>faults.
      then_act (modify_act (\<lambda>p. p\<lparr>sp_last_accepted := Some seq\<rparr>))
        (bind_act (result_act (next_sequence seq (sc_policy cfg))) (\<lambda>next_seq.
         then_act (modify_act (\<lambda>p. p\<lparr>sp_expected_sequence := next_seq\<rparr>))
           (bind_act (result_act (build_ack address seq)) (\<lambda>ack.
            return_act (exchange [ack] faults
              ([Data_ack_note] @ (if faults \<noteq> [] then [Application_faults_note] else [])))))))))"

text \<open>The faults of an exchange with a pump are also kept in the session.\<close>

definition with_pump :: "int \<Rightarrow> (sim_pump, exchange_result) action \<Rightarrow> (sim_session, exchange_result) action" where
  "with_pump address m = bind_act (on_pump address m) (\<lambda>x. then_act (record_faults (xr_faults x)) (return_act x))"

definition receive :: "(int \<Rightarrow> nat \<Rightarrow> string) \<Rightarrow> bytes \<Rightarrow> (sim_session, exchange_result) action" where
  "receive fresh frame_bytes = read_act (\<lambda>s.
    case parse_frame frame_bytes None DEFAULT_CRC_CANDIDATE of
      Inl err \<Rightarrow>
        let fault = \<lparr>pf_kind = Fault_MALFORMED_FRAME, pf_message = Frame_not_parsed (pe_message err), pf_address = None,
                     pf_sequence = None, pf_raw = Some frame_bytes, pf_at_ms = ss_now s\<rparr>
        in then_act (record_faults [fault]) (return_act (exchange [] [fault] []))
    | Inr frame \<Rightarrow>
        let address = lf_address frame in
        (case map_of (ss_pumps s) address of
           None \<Rightarrow>
             let fault = line_fault Fault_UNKNOWN_ADDRESS (No_pump_at_address address) address None
                   (Some frame_bytes) (ss_now s)
             in then_act (record_faults [fault]) (return_act (exchange [] [fault] []))
         | Some p \<Rightarrow>
             if \<not> sp_communication_enabled p
             then then_act (record_note (Communication_disabled_note address))
               (return_act (exchange [] [] [Communication_disabled_note address]))
             else (case lf_control_type frame of
                 CtPOLL \<Rightarrow> with_pump address (pump_on_poll (ss_now s))
               | CtDATA \<Rightarrow> with_pump address (pump_on_data (fresh address) (ss_config s) (ss_now s) frame)
               | CtACK \<Rightarrow> with_pump address (pump_on_ack (sc_policy (ss_config s)) (ss_now s) frame)
               | CtNAK \<Rightarrow>
                   let note = Nak_retransmit_note (lf_sequence frame)
                   in then_act (record_note note) (return_act (exchange [] [] [note]))
               | CtIAP \<Rightarrow> then_act (on_pump address (modify_act reset_protocol_sequences))
                   (then_act (record_note Iap_restart_note) (return_act (exchange [] [] [Iap_restart_note])))
               | ct \<Rightarrow> then_act (record_note (Ignored_control_note ct))
                   (return_act (exchange [] [] [Ignored_control_note ct])))))"

section \<open>Time\<close>

definition check_response_timeout :: "int \<Rightarrow> int \<Rightarrow> sim_pump \<Rightarrow> sim_pump \<times> protocol_fault list" where
  "check_response_timeout timeout_ms now p =
    (case (sp_awaiting_ack p, sp_data_pending_since p) of
       (Some awaiting, Some since) \<Rightarrow>
         if now - since \<ge> timeout_ms
         then (p\<lparr>sp_data_pending_since := Some now\<rparr>,
               [line_fault Fault_RESPONSE_TIMEOUT (No_ack_within timeout_ms) (cf_dart_address (sp_config p))
                  (Some awaiting) None now])
         else (p, [])
     | _ \<Rightarrow> (p, []))"

definition advance_pump :: "int \<Rightarrow> int \<Rightarrow> (sim_pump, protocol_fault list) action" where
  "advance_pump timeout_ms now =
    then_act (on_time_advance now) (\<lambda>p. case check_response_timeout timeout_ms now p of (p', fs) \<Rightarrow> (Inr fs, p'))"

fun advance_pumps :: "int list \<Rightarrow> (sim_session, unit) action" where
  "advance_pumps [] = return_act ()"
| "advance_pumps (a # as) = read_act (\<lambda>s.
    bind_act (on_pump a (advance_pump (sc_response_timeout_ms (ss_config s)) (ss_now s))) (\<lambda>fs.
      then_act (record_faults fs) (advance_pumps as)))"

definition advance_clock :: "int \<Rightarrow> (sim_session, unit) action" where
  "advance_clock ms =
    (if ms < 0 then result_act (Inl ValueError) else modify_act (\<lambda>s. s\<lparr>ss_now := ss_now s + ms\<rparr>))"

definition advance :: "int \<Rightarrow> (sim_session, unit) action" where
  "advance ms = then_act (advance_clock ms) (read_act (\<lambda>s. advance_pumps (map fst (ss_pumps s))))"

section \<open>The stop-and-wait sender\<close>

definition poll_frame :: "int \<Rightarrow> bytes" where
  "poll_frame a = (case build_poll a of Inr w \<Rightarrow> w | Inl _ \<Rightarrow> [])"

text \<open>
  A pump never loses an unacknowledged block: while it awaits an ACK every poll is answered with exactly the same
  bytes and changes nothing, and an ACK for another sequence number changes nothing either.
\<close>

theorem poll_repeats_until_ack:
  assumes "sp_awaiting_ack p = Some k" "sp_last_wire p = Some wire"
  shows "pump_on_poll now p = (Inr (exchange [wire] [] [Poll_retransmit_note]), p) \<and>
    snd (pump_on_ack policy now f p) = (if lf_sequence f = k then
      (case next_sequence (sp_tx_sequence p) policy of Inl _ \<Rightarrow> p
       | Inr n \<Rightarrow> p\<lparr>sp_tx_sequence := n, sp_awaiting_ack := None, sp_data_pending_since := None, sp_last_wire := None\<rparr>)
      else p)"
  using assms
  by (cases "next_sequence (sp_tx_sequence p) policy") (simp_all add: pump_on_poll_def pump_on_ack_def bind_act_def)

definition awaiting_pump :: sim_pump where
  "awaiting_pump = sample_pump\<lparr>sp_awaiting_ack := Some 15, sp_tx_sequence := 15, sp_last_wire := Some [1, 0x3F, 0xFA]\<rparr>"

definition ack_of :: "int \<Rightarrow> line_frame" where
  "ack_of seq = \<lparr>lf_address = 1, lf_control = 0xC0 + seq, lf_control_type = CtACK, lf_sequence = seq, lf_payload = [],
     lf_received_crc = None, lf_computed_crc = None, lf_crc_valid = None, lf_raw_frame = [], lf_unknown_control = False\<rparr>"

theorem poll_repeats_until_ack_witness:
  "pump_on_poll 0 awaiting_pump = (Inr (exchange [[1, 0x3F, 0xFA]] [] [Poll_retransmit_note]), awaiting_pump) \<and>
   snd (pump_on_ack SPEC_F_TO_1 0 (ack_of 15) awaiting_pump) = (if lf_sequence (ack_of 15) = 15 then
      (case next_sequence (sp_tx_sequence awaiting_pump) SPEC_F_TO_1 of Inl _ \<Rightarrow> awaiting_pump
       | Inr n \<Rightarrow> awaiting_pump\<lparr>sp_tx_sequence := n, sp_awaiting_ack := None, sp_data_pending_since := None,
           sp_last_wire := None\<rparr>)
      else awaiting_pump)"
  by (rule poll_repeats_until_ack) (simp_all add: awaiting_pump_def)

text \<open>
  Commands are applied at most once per sequence number: a DATA frame that repeats the last accepted sequence
  number is acknowledged and leaves the pump exactly as it was, whatever its payload, and so does one with
  a broken checksum, which is not acknowledged.
\<close>

theorem duplicate_data_not_applied:
  "snd (pump_on_data fresh cfg now f (p\<lparr>sp_last_accepted := Some (lf_sequence f)\<rparr>)) = p\<lparr>sp_last_accepted := Some (lf_sequence f)\<rparr> \<and>
   snd (pump_on_data fresh cfg now (f\<lparr>lf_crc_valid := Some False\<rparr>) p) = p"
  by (simp add: pump_on_data_def Let_def bind_act_def split: sum.split)

text \<open>
  A preset with a malformed digit kills the exchange: a DATA frame in sequence whose first transaction is a CD3 with an
  invalid BCD field raises \<open>BcdError\<close> out of the session, before the sequence number is recorded and without an ACK, so
  every retransmission of it raises again.
\<close>

theorem malformed_preset_escapes:
  assumes "lf_crc_valid f = Some True" "lf_sequence f = sp_expected_sequence p" "sp_last_accepted p \<noteq> Some (lf_sequence f)"
    and "lf_payload f = [0x03, 0x04] @ field @ rest" "length field = 4" "decode_packed_bcd field = Inl BcdError"
  shows "pump_on_data fresh cfg now f p = (Inl BcdError, p)"
proof -
  have "unat (4 :: byte) = 4" by simp
  then have "handle_application_payload fresh cfg now ([0x03, 0x04] @ field @ rest) p = (Inl BcdError, p)"
    using assms(5,6) by (simp add: bind_act_def handle_one_tx_def handle_cd3_preset_volume_def)
  with assms show ?thesis by (simp add: pump_on_data_def Let_def bind_act_def)
qed

definition preset_frame :: line_frame where
  "preset_frame = \<lparr>lf_address = 1, lf_control = 0x30, lf_control_type = CtDATA, lf_sequence = 0,
     lf_payload = [0x03, 0x04] @ [0, 0, 0x0A, 0] @ [], lf_received_crc = None, lf_computed_crc = None,
     lf_crc_valid = Some True, lf_raw_frame = [], lf_unknown_control = False\<rparr>"

theorem malformed_preset_escapes_witness:
  "pump_on_data (\<lambda>n. []) \<lparr>sc_policy = SPEC_F_TO_1, sc_response_timeout_ms = 25, sc_physical_enable = True,
      sc_active_commands = True, sc_pumps = []\<rparr> 0 preset_frame sample_pump = (Inl BcdError, sample_pump)"
  by (rule malformed_preset_escapes [where field = "[0, 0, 0x0A, 0]" and rest = "[]"])
    (simp_all add: preset_frame_def sample_pump_def new_sim_pump_def decode_packed_bcd_def high_nibble_def low_nibble_def)

end
