(* ===== verification/App_Decoder.thy ===== *)
theory App_Decoder
  imports App_Transactions
begin

text \<open>
  \<open>application/decoder.py\<close> and \<open>registry.py\<close>: dispatch on TRANS and LNG, one decoder per
  layout, and the payload decoder. A body dictionary is a \<open>decoded_body\<close>, one constructor
  per layout; the prose of a warning is a constructor with the values it quotes. Decoding
  never raises on a received payload and never drops a byte of it.
\<close>

record decode_args =
  da_pump_address :: "int option"
  da_line_sequence :: "int option"
  da_source_hex :: "string option"
  da_volume_decimals :: "int option"
  da_amount_decimals :: "int option"
  da_price_decimals :: "int option"

datatype decoded_body =
    Status_command_body int wayne_status_info "pump_control_command option"
  | Filled_body scaled_bcd scaled_bcd
  | Nozzle_price_body scaled_bcd int int bool "scaled_bcd option"
  | Prices_body "(nat \<times> scaled_bcd) list"
  | Alarm_body int
  | Counter_request_body int
  | Counters_body int "scaled_bcd option" "scaled_bcd option" "scaled_bcd option" int int int

datatype decode_warning =
    No_decoder int nat
  | Ambiguous_cd1_dc1
  | Interpreted_as_dc2
  | Invalid_bcd_dc2
  | Volume_amount_decimals_omitted
  | Interpreted_as_dc3
  | Invalid_bcd_dc3
  | Price_decimals_omitted
  | Invalid_bcd_cd5
  | Invalid_bcd_dc101
  | Dc101_decimals_omitted

record application_transaction =
  at_id :: int
  at_type :: transaction_type
  at_length :: nat
  at_payload :: bytes
  at_raw :: bytes
  at_body :: "decoded_body option"
  at_pump_address :: "int option"
  at_line_sequence :: "int option"
  at_direction :: message_direction
  at_status :: decode_status
  at_warnings :: "decode_warning list"
  at_source_hex :: "string option"
  at_offset :: nat

record decode_bundle =
  db_transactions :: "application_transaction list"
  db_trailing :: bytes
  db_warnings :: "split_warning list"

definition decode_envelope ::
  "raw_transaction \<Rightarrow> decode_args \<Rightarrow> transaction_type \<Rightarrow> message_direction \<Rightarrow> decode_status \<Rightarrow>
   decoded_body option \<Rightarrow> decode_warning list \<Rightarrow> application_transaction" where
  "decode_envelope raw_tx args ty dir status body warnings =
    \<lparr>at_id = rt_id raw_tx, at_type = ty, at_length = rt_length raw_tx,
     at_payload = rt_data raw_tx, at_raw = rt_raw raw_tx, at_body = body,
     at_pump_address = da_pump_address args, at_line_sequence = da_line_sequence args,
     at_direction = dir, at_status = status, at_warnings = warnings,
     at_source_hex = da_source_hex args, at_offset = rt_offset raw_tx\<rparr>"

text \<open>\<open>try: k(m) except BcdError: h\<close>; any other exception passes through.\<close>

definition except_bcd :: "'a result \<Rightarrow> 'b result \<Rightarrow> ('a \<Rightarrow> 'b result) \<Rightarrow> 'b result" where
  "except_bcd m h k =
    (case m of Inr x \<Rightarrow> k x | Inl e \<Rightarrow> if e = BcdError then h else Inl e)"

definition decode_unknown :: "raw_transaction \<Rightarrow> decode_args \<Rightarrow> application_transaction" where
  "decode_unknown raw_tx args =
    decode_envelope raw_tx args Transaction_UNKNOWN Direction_UNKNOWN Status_UNKNOWN None
      [No_decoder (rt_id raw_tx) (rt_length raw_tx)]"

definition decode_ambiguous_01 ::
  "raw_transaction \<Rightarrow> decode_args \<Rightarrow> application_transaction result" where
  "decode_ambiguous_01 raw_tx args =
    bind_result (py_index (rt_data raw_tx) 0) (\<lambda>b.
      let code = uint b;
          status = describe_wayne_status code;
          command = (case pump_control_command_of code of Inr c \<Rightarrow> Some c | Inl _ \<Rightarrow> None)
      in Inr (decode_envelope raw_tx args AMBIGUOUS_CD1_OR_DC1 Direction_UNKNOWN PARTIAL
                (Some (Status_command_body code status command)) [Ambiguous_cd1_dc1]))"

definition decode_dc2 :: "raw_transaction \<Rightarrow> decode_args \<Rightarrow> application_transaction result" where
  "decode_dc2 raw_tx args =
    except_bcd
      (bind_result (decode_scaled_bcd (slice 0 4 (rt_data raw_tx)) (da_volume_decimals args)) (\<lambda>v.
       bind_result (decode_scaled_bcd (slice 4 8 (rt_data raw_tx)) (da_amount_decimals args)) (\<lambda>a.
       Inr (v, a))))
      (Inr (decode_envelope raw_tx args DC2_FILLED_VOLUME_AMOUNT SLAVE_TO_MASTER MALFORMED None
              [Interpreted_as_dc2, Invalid_bcd_dc2]))
      (\<lambda>(volume, amount).
        Inr (decode_envelope raw_tx args DC2_FILLED_VOLUME_AMOUNT SLAVE_TO_MASTER DECODED
              (Some (Filled_body volume amount))
              ([Interpreted_as_dc2] @
               (if da_volume_decimals args = None \<or> da_amount_decimals args = None
                then [Volume_amount_decimals_omitted] else []))))"

definition decode_dc3_preferred ::
  "raw_transaction \<Rightarrow> decode_args \<Rightarrow> application_transaction result" where
  "decode_dc3_preferred raw_tx args =
    except_bcd (decode_scaled_bcd (slice 0 3 (rt_data raw_tx)) (da_price_decimals args))
      (Inr (decode_envelope raw_tx args DC3_NOZZLE_STATUS_PRICE SLAVE_TO_MASTER MALFORMED None
              [Interpreted_as_dc3, Invalid_bcd_dc3]))
      (\<lambda>price. bind_result (py_index (rt_data raw_tx) 3) (\<lambda>b.
        let nozio = uint b;
            nozzle = nozio AND 0x0F;
            nozzle_out = (nozio AND 0x10 \<noteq> 0);
            alt_volume = except_bcd (decode_scaled_bcd (rt_data raw_tx) None) (Inr None) (\<lambda>v. Inr (Some v))
        in bind_result alt_volume (\<lambda>alt.
          Inr (decode_envelope raw_tx args DC3_NOZZLE_STATUS_PRICE SLAVE_TO_MASTER PARTIAL
                (Some (Nozzle_price_body price nozio nozzle nozzle_out alt))
                ([Interpreted_as_dc3] @
                 (if da_price_decimals args = None then [Price_decimals_omitted] else []))))))"

text \<open>The loop of \<open>_decode_cd5\<close> over the indices of \<open>range(0, length, 3)\<close>.\<close>

fun cd5_prices :: "bytes \<Rightarrow> int option \<Rightarrow> nat list \<Rightarrow> (nat \<times> scaled_bcd) list result" where
  "cd5_prices data decimals [] = Inr []"
| "cd5_prices data decimals (index # rest) =
    bind_result (decode_scaled_bcd (slice index (index + 3) data) decimals) (\<lambda>price.
    bind_result (cd5_prices data decimals rest) (\<lambda>prices.
    Inr ((index div 3 + 1, price) # prices)))"

definition range_by_3 :: "nat \<Rightarrow> nat list" where
  "range_by_3 n = map (\<lambda>k. 3 * k) [0..<(n + 2) div 3]"

definition decode_cd5 :: "raw_transaction \<Rightarrow> decode_args \<Rightarrow> application_transaction result" where
  "decode_cd5 raw_tx args =
    except_bcd (cd5_prices (rt_data raw_tx) (da_price_decimals args) (range_by_3 (rt_length raw_tx)))
      (Inr (decode_envelope raw_tx args CD5_PRICE_UPDATE MASTER_TO_SLAVE MALFORMED None [Invalid_bcd_cd5]))
      (\<lambda>prices. Inr (decode_envelope raw_tx args CD5_PRICE_UPDATE MASTER_TO_SLAVE DECODED
         (Some (Prices_body prices))
         (if da_price_decimals args = None then [Price_decimals_omitted] else [])))"

definition decode_dc5 :: "raw_transaction \<Rightarrow> decode_args \<Rightarrow> application_transaction result" where
  "decode_dc5 raw_tx args =
    bind_result (py_index (rt_data raw_tx) 0) (\<lambda>alarm.
      Inr (decode_envelope raw_tx args DC5_ALARM SLAVE_TO_MASTER DECODED (Some (Alarm_body (uint alarm))) []))"

definition decode_cd101_request ::
  "raw_transaction \<Rightarrow> decode_args \<Rightarrow> application_transaction result" where
  "decode_cd101_request raw_tx args =
    bind_result (py_index (rt_data raw_tx) 0) (\<lambda>select.
      Inr (decode_envelope raw_tx args CD101_REQUEST_TOTALS MASTER_TO_SLAVE DECODED
             (Some (Counter_request_body (uint select))) []))"

definition maybe_decimal :: "bytes \<Rightarrow> int option \<Rightarrow> scaled_bcd option result" where
  "maybe_decimal raw decimals =
    except_bcd (decode_scaled_bcd raw decimals) (Inr None) (\<lambda>v. Inr (Some v))"

definition dc101_decimals :: "int \<Rightarrow> decode_args \<Rightarrow> int option" where
  "dc101_decimals coun args =
    (if 0x01 \<le> coun \<and> coun \<le> 0x09 then da_volume_decimals args
     else if 0x11 \<le> coun \<and> coun \<le> 0x19 then da_amount_decimals args
     else None)"

definition decode_dc101 :: "raw_transaction \<Rightarrow> decode_args \<Rightarrow> application_transaction result" where
  "decode_dc101 raw_tx args =
    bind_result (py_index (rt_data raw_tx) 0) (\<lambda>b.
      let coun = uint b; data = rt_data raw_tx in
      except_bcd
        (bind_result (decode_scaled_bcd (slice 1 6 data) None) (\<lambda>totval.
         bind_result (decode_scaled_bcd (slice 6 11 data) None) (\<lambda>totm1.
         bind_result (decode_scaled_bcd (slice 11 16 data) None) (\<lambda>totm2.
         Inr (totval, totm1, totm2)))))
        (Inr (decode_envelope raw_tx args DC101_TOTAL_COUNTERS SLAVE_TO_MASTER MALFORMED None [Invalid_bcd_dc101]))
        (\<lambda>(totval, totm1, totm2).
          let decimals = dc101_decimals coun args in
          bind_result (maybe_decimal (slice 1 6 data) decimals) (\<lambda>v0.
          bind_result (maybe_decimal (slice 6 11 data) decimals) (\<lambda>v1.
          bind_result (maybe_decimal (slice 11 16 data) decimals) (\<lambda>v2.
          Inr (decode_envelope raw_tx args DC101_TOTAL_COUNTERS SLAVE_TO_MASTER DECODED
                (Some (Counters_body coun v0 v1 v2 (sb_scaled totval) (sb_scaled totm1) (sb_scaled totm2)))
                (if decimals = None then [Dc101_decimals_omitted] else [])))))))"

definition decode_raw_transaction ::
  "raw_transaction \<Rightarrow> decode_args \<Rightarrow> application_transaction result" where
  "decode_raw_transaction raw_tx args =
    (let tid = rt_id raw_tx; lng = rt_length raw_tx in
     if tid = 0x01 \<and> lng = 1 then decode_ambiguous_01 raw_tx args
     else if tid = 0x02 \<and> lng = 8 then decode_dc2 raw_tx args
     else if tid = 0x03 \<and> lng = 4 then decode_dc3_preferred raw_tx args
     else if tid = 0x05 \<and> lng = 1 then decode_dc5 raw_tx args
     else if tid = 0x05 \<and> lng \<ge> 3 \<and> lng mod 3 = 0 then decode_cd5 raw_tx args
     else if tid = 0x65 \<and> lng = 1 then decode_cd101_request raw_tx args
     else if tid = 0x65 \<and> lng = 16 then decode_dc101 raw_tx args
     else Inr (decode_unknown raw_tx args))"

fun decode_all ::
  "raw_transaction list \<Rightarrow> decode_args \<Rightarrow> application_transaction list result" where
  "decode_all [] args = Inr []"
| "decode_all (r # rs) args =
    bind_result (decode_raw_transaction r args) (\<lambda>t.
    bind_result (decode_all rs args) (\<lambda>ts. Inr (t # ts)))"

definition decode_data_payload :: "bytes \<Rightarrow> decode_args \<Rightarrow> decode_bundle result" where
  "decode_data_payload payload args =
    (let sp = split_transactions payload in
     bind_result (decode_all (sr_transactions sp) args) (\<lambda>ts.
       Inr \<lparr>db_transactions = ts, db_trailing = sr_trailing sp, db_warnings = sr_warnings sp\<rparr>))"

section \<open>Decoding is total and keeps every byte\<close>

lemma envelope_fields [simp]:
  "at_raw (decode_envelope r args ty dir st body ws) = rt_raw r"
  "at_type (decode_envelope r args ty dir st body ws) = ty"
  "at_direction (decode_envelope r args ty dir st body ws) = dir"
  "at_id (decode_envelope r args ty dir st body ws) = rt_id r"
  "at_body (decode_envelope r args ty dir st body ws) = body"
  "at_status (decode_envelope r args ty dir st body ws) = st"
  "at_length (decode_envelope r args ty dir st body ws) = rt_length r"
  by (simp_all add: decode_envelope_def)

lemma py_index_ok: "i < length xs \<Longrightarrow> py_index xs i = Inr (xs ! i)"
  by (simp add: py_index_def)

text \<open>A decoder's outcome for a transaction, as far as the envelope is concerned.\<close>

definition envelopes :: "raw_transaction \<Rightarrow> transaction_type \<Rightarrow> message_direction \<Rightarrow>
    application_transaction result \<Rightarrow> bool" where
  "envelopes r ty dir m \<longleftrightarrow>
     (\<exists>t. m = Inr t \<and> at_raw t = rt_raw r \<and> at_id t = rt_id r \<and> at_length t = rt_length r \<and>
       at_type t = ty \<and> at_direction t = dir \<and>
       (ty = DC3_NOZZLE_STATUS_PRICE \<longrightarrow> at_status t \<noteq> DECODED))"

lemma except_bcd_envelopes:
  "(\<And>e. m = Inl e \<Longrightarrow> e = BcdError) \<Longrightarrow> envelopes r ty dir h \<Longrightarrow>
   (\<And>x. m = Inr x \<Longrightarrow> envelopes r ty dir (k x)) \<Longrightarrow> envelopes r ty dir (except_bcd m h k)"
  by (cases m) (auto simp: except_bcd_def)

lemma envelopes_Inr [simp]:
  "envelopes r ty dir (Inr (decode_envelope r args ty dir st body ws)) \<longleftrightarrow>
     (ty = DC3_NOZZLE_STATUS_PRICE \<longrightarrow> st \<noteq> DECODED)"
  by (simp add: envelopes_def)

lemma maybe_decimal_total: "\<exists>v. maybe_decimal raw d = Inr v"
  by (cases "decode_scaled_bcd raw d")
    (auto simp: maybe_decimal_def except_bcd_def dest: decode_scaled_bcd_error)

lemma cd5_prices_error: "cd5_prices data d idx = Inl e \<Longrightarrow> e = BcdError"
  by (induction idx) (auto simp: bind_result_Inl_iff dest: decode_scaled_bcd_error)

lemma decoders_envelope:
  assumes "rt_length r = length (rt_data r)"
  shows "rt_length r = 1 \<Longrightarrow> envelopes r AMBIGUOUS_CD1_OR_DC1 Direction_UNKNOWN (decode_ambiguous_01 r args)"
    and "envelopes r DC2_FILLED_VOLUME_AMOUNT SLAVE_TO_MASTER (decode_dc2 r args)"
    and "rt_length r = 4 \<Longrightarrow> envelopes r DC3_NOZZLE_STATUS_PRICE SLAVE_TO_MASTER (decode_dc3_preferred r args)"
    and "rt_length r = 1 \<Longrightarrow> envelopes r DC5_ALARM SLAVE_TO_MASTER (decode_dc5 r args)"
    and "envelopes r CD5_PRICE_UPDATE MASTER_TO_SLAVE (decode_cd5 r args)"
    and "rt_length r = 1 \<Longrightarrow> envelopes r CD101_REQUEST_TOTALS MASTER_TO_SLAVE (decode_cd101_request r args)"
    and "rt_length r = 16 \<Longrightarrow> envelopes r DC101_TOTAL_COUNTERS SLAVE_TO_MASTER (decode_dc101 r args)"
proof -
  show "rt_length r = 1 \<Longrightarrow> envelopes r AMBIGUOUS_CD1_OR_DC1 Direction_UNKNOWN (decode_ambiguous_01 r args)"
    using assms by (simp add: decode_ambiguous_01_def py_index_ok Let_def)
  show "envelopes r DC2_FILLED_VOLUME_AMOUNT SLAVE_TO_MASTER (decode_dc2 r args)"
    unfolding decode_dc2_def
    by (rule except_bcd_envelopes)
      (auto simp: bind_result_Inl_iff dest: decode_scaled_bcd_error)
  show "rt_length r = 4 \<Longrightarrow> envelopes r DC3_NOZZLE_STATUS_PRICE SLAVE_TO_MASTER (decode_dc3_preferred r args)"
    unfolding decode_dc3_preferred_def using assms maybe_decimal_total [of "rt_data r" None]
    by (intro except_bcd_envelopes)
      (auto simp: py_index_ok Let_def maybe_decimal_def dest: decode_scaled_bcd_error)
  show "rt_length r = 1 \<Longrightarrow> envelopes r DC5_ALARM SLAVE_TO_MASTER (decode_dc5 r args)"
    using assms by (simp add: decode_dc5_def py_index_ok)
  show "envelopes r CD5_PRICE_UPDATE MASTER_TO_SLAVE (decode_cd5 r args)"
    unfolding decode_cd5_def by (rule except_bcd_envelopes) (auto dest: cd5_prices_error)
  show "rt_length r = 1 \<Longrightarrow> envelopes r CD101_REQUEST_TOTALS MASTER_TO_SLAVE (decode_cd101_request r args)"
    using assms by (simp add: decode_cd101_request_def py_index_ok)
  have total: "envelopes r ty dir (bind_result (maybe_decimal raw d) k)"
    if "\<And>v. envelopes r ty dir (k v)" for ty dir raw d k
    using that maybe_decimal_total [of raw d] by auto
  show "envelopes r DC101_TOTAL_COUNTERS SLAVE_TO_MASTER (decode_dc101 r args)" if "rt_length r = 16"
  proof -
    have index: "py_index (rt_data r) 0 = Inr (rt_data r ! 0)"
      using that assms by (simp add: py_index_ok)
    show ?thesis
      unfolding decode_dc101_def index bind_result_simps Let_def
    proof (rule except_bcd_envelopes, goal_cases)
      case (1 e)
      then show ?case by (auto simp: bind_result_Inl_iff dest: decode_scaled_bcd_error)
    next
      case (3 x)
      show ?case by (cases x) (simp only: prod.case, intro total, simp)
    qed simp
  qed
qed

definition decoded_kind :: "int \<Rightarrow> nat \<Rightarrow> transaction_type \<times> message_direction" where
  "decoded_kind tid lng =
    (if tid = 0x01 \<and> lng = 1 then (AMBIGUOUS_CD1_OR_DC1, Direction_UNKNOWN)
     else if tid = 0x02 \<and> lng = 8 then (DC2_FILLED_VOLUME_AMOUNT, SLAVE_TO_MASTER)
     else if tid = 0x03 \<and> lng = 4 then (DC3_NOZZLE_STATUS_PRICE, SLAVE_TO_MASTER)
     else if tid = 0x05 \<and> lng = 1 then (DC5_ALARM, SLAVE_TO_MASTER)
     else if tid = 0x05 \<and> lng \<ge> 3 \<and> lng mod 3 = 0 then (CD5_PRICE_UPDATE, MASTER_TO_SLAVE)
     else if tid = 0x65 \<and> lng = 1 then (CD101_REQUEST_TOTALS, MASTER_TO_SLAVE)
     else if tid = 0x65 \<and> lng = 16 then (DC101_TOTAL_COUNTERS, SLAVE_TO_MASTER)
     else (Transaction_UNKNOWN, Direction_UNKNOWN))"

lemma decode_raw_total:
  assumes "rt_length r = length (rt_data r)"
  shows "envelopes r (fst (decoded_kind (rt_id r) (rt_length r)))
    (snd (decoded_kind (rt_id r) (rt_length r))) (decode_raw_transaction r args)"
  using decoders_envelope [OF assms]
  unfolding decode_raw_transaction_def decoded_kind_def decode_unknown_def Let_def
  by (simp del: One_nat_def split del: if_split split: if_split)

lemma decode_all_total:
  "list_all well_formed_transaction rs \<Longrightarrow>
    \<exists>ts. decode_all rs args = Inr ts \<and> map at_raw ts = map rt_raw rs \<and>
      list_all (\<lambda>t. (at_type t, at_direction t) = decoded_kind (at_id t) (at_length t)) ts \<and>
      list_all (\<lambda>t. \<not> (at_type t = DC3_NOZZLE_STATUS_PRICE \<and> at_status t = DECODED)) ts"
proof (induction rs)
  case (Cons r rs)
  have "rt_length r = length (rt_data r)"
    using Cons.prems by (simp add: well_formed_transaction_def)
  from decode_raw_total [OF this, of args] Cons show ?case
    by (auto simp: envelopes_def)
qed simp

lemma decode_data_payload_kinds:
  "\<exists>b. decode_data_payload p args = Inr b \<and>
    concat (map at_raw (db_transactions b)) @ db_trailing b = p \<and>
    list_all (\<lambda>t. (at_type t, at_direction t) = decoded_kind (at_id t) (at_length t)) (db_transactions b) \<and>
    list_all (\<lambda>t. \<not> (at_type t = DC3_NOZZLE_STATUS_PRICE \<and> at_status t = DECODED)) (db_transactions b)"
proof -
  have "list_all well_formed_transaction (sr_transactions (split_transactions p))"
    unfolding split_transactions_def by (rule split_from_well_formed)
  from decode_all_total [OF this, of args] obtain ts where
    ts: "decode_all (sr_transactions (split_transactions p)) args = Inr ts"
    "map at_raw ts = map rt_raw (sr_transactions (split_transactions p))"
    and kinds: "list_all (\<lambda>t. (at_type t, at_direction t) = decoded_kind (at_id t) (at_length t)) ts"
    "list_all (\<lambda>t. \<not> (at_type t = DC3_NOZZLE_STATUS_PRICE \<and> at_status t = DECODED)) ts"
    by blast
  then show ?thesis
    using split_from_lossless [of 0 p]
    by (simp add: decode_data_payload_def Let_def split_transactions_def)
qed

text \<open>
  C14. Decoding a received payload is total and lossless: whatever bytes arrive, a bundle comes
  back, no exception leaves the decoder, the raw images of the transactions followed by the
  trailing bytes are the payload, and every transaction has the type and direction its
  TRANS and LNG stand for, malformed BCD included.
\<close>

theorem decode_data_payload_total:
  "\<exists>b. decode_data_payload p args = Inr b \<and>
    concat (map at_raw (db_transactions b)) @ db_trailing b = p \<and>
    list_all (\<lambda>t. (at_type t, at_direction t) = decoded_kind (at_id t) (at_length t)) (db_transactions b)"
  using decode_data_payload_kinds [of p args] by blast

section \<open>Reports round trip\<close>

definition decimals_ok :: "int option \<Rightarrow> bool" where
  "decimals_ok d = (case d of None \<Rightarrow> True | Some n \<Rightarrow> 0 \<le> n)"

lemma decode_scaled_ok:
  "decode_packed_bcd raw = Inr v \<Longrightarrow> decimals_ok d \<Longrightarrow>
   \<exists>s. decode_scaled_bcd raw d = Inr s \<and> sb_scaled s = v"
  by (auto simp: decode_scaled_bcd_def decimals_ok_def split: option.splits)

lemma encode_packed_length:
  "encode_packed_bcd v (Some n) = Inr raw \<Longrightarrow> length raw = nat n"
  using encode_width by fastforce

lemma decode_single:
  assumes "encode_tx t data = Inr p" "decode_raw_transaction (unit_at 0 t data) args = Inr tx"
  shows "decode_data_payload p args = Inr \<lparr>db_transactions = [tx], db_trailing = [], db_warnings = []\<rparr>"
  using split_encoded [OF assms(1), of 0 "[]"] assms(2)
  by (simp add: decode_data_payload_def split_transactions_def Let_def)

definition args_ok :: "decode_args \<Rightarrow> bool" where
  "args_ok args \<longleftrightarrow> decimals_ok (da_volume_decimals args) \<and> decimals_ok (da_amount_decimals args) \<and>
     decimals_ok (da_price_decimals args)"

definition filled_report :: "int \<Rightarrow> int \<Rightarrow> decode_bundle result \<Rightarrow> bool" where
  "filled_report v a m \<longleftrightarrow> (\<exists>t V A. m = Inr \<lparr>db_transactions = [t], db_trailing = [], db_warnings = []\<rparr> \<and>
     at_type t = DC2_FILLED_VOLUME_AMOUNT \<and> at_direction t = SLAVE_TO_MASTER \<and> at_status t = DECODED \<and>
     at_body t = Some (Filled_body V A) \<and> sb_scaled V = v \<and> sb_scaled A = a)"

text \<open>
  Fill reports arrive intact: the volume and the amount that a pump encodes in a DC2
  transaction are the ones decoded from it, whatever decimal places are configured.
\<close>

theorem dc2_report_roundtrip:
  assumes "encode_dc2_volume_amount v a = Inr p" "args_ok args"
  shows "filled_report v a (decode_data_payload p args)"
proof -
  from assms(1) obtain vb ab where
    e: "encode_packed_bcd v (Some 4) = Inr vb" "encode_packed_bcd a (Some 4) = Inr ab"
    and p: "encode_tx 0x02 (vb @ ab) = Inr p"
    by (auto simp: encode_dc2_volume_amount_def bind_result_Inr_iff)
  have len: "length vb = 4" "length ab = 4"
    using e [THEN encode_packed_length] by simp_all
  obtain V where V: "decode_scaled_bcd vb (da_volume_decimals args) = Inr V" "sb_scaled V = v"
    using decode_scaled_ok [OF encode_decodes [OF e(1)]] assms(2) by (auto simp: args_ok_def)
  obtain A where A: "decode_scaled_bcd ab (da_amount_decimals args) = Inr A" "sb_scaled A = a"
    using decode_scaled_ok [OF encode_decodes [OF e(2)]] assms(2) by (auto simp: args_ok_def)
  have sl: "slice 0 4 (vb @ ab) = vb" "slice 4 8 (vb @ ab) = ab"
    using len by (simp_all add: slice_def)
  let ?tx = "decode_envelope (unit_at 0 0x02 (vb @ ab)) args DC2_FILLED_VOLUME_AMOUNT SLAVE_TO_MASTER DECODED
    (Some (Filled_body V A)) ([Interpreted_as_dc2] @
      (if da_volume_decimals args = None \<or> da_amount_decimals args = None
       then [Volume_amount_decimals_omitted] else []))"
  have "decode_dc2 (unit_at 0 0x02 (vb @ ab)) args = Inr ?tx"
    unfolding decode_dc2_def by (simp add: unit_at_def sl V(1) A(1) except_bcd_def)
  then have "decode_raw_transaction (unit_at 0 0x02 (vb @ ab)) args = Inr ?tx"
    using len by (simp add: decode_raw_transaction_def unit_at_def)
  from decode_single [OF p this] V(2) A(2) show ?thesis
    by (simp add: filled_report_def)
qed

definition no_decimals :: decode_args where
  "no_decimals = \<lparr>da_pump_address = Some 1, da_line_sequence = None, da_source_hex = None,
     da_volume_decimals = None, da_amount_decimals = None, da_price_decimals = Some 2\<rparr>"

theorem dc2_report_roundtrip_witness:
  "filled_report 1250 9875 (decode_data_payload [2, 8, 0, 0, 0x12, 0x50, 0, 0, 0x98, 0x75] no_decimals)"
proof (rule dc2_report_roundtrip)
  have two: "replicate 2 (0 :: byte) = [0, 0]" by (simp add: numeral_2_eq_2)
  have "encode_packed_bcd 1250 (Some 4) = Inr [0, 0, 0x12, 0x50]"
    "encode_packed_bcd 9875 (Some 4) = Inr [0, 0, 0x98, 0x75]"
    by (simp_all add: encode_packed_bcd_def decimal_digits.simps two)
  then show "encode_dc2_volume_amount 1250 9875 = Inr [2, 8, 0, 0, 0x12, 0x50, 0, 0, 0x98, 0x75]"
    by (simp add: encode_dc2_volume_amount_def encode_tx_def bytes_of_int_def)
  show "args_ok no_decimals" by (simp add: args_ok_def no_decimals_def decimals_ok_def)
qed

definition nozzle_report :: "int \<Rightarrow> int \<Rightarrow> bool \<Rightarrow> decode_bundle result \<Rightarrow> bool" where
  "nozzle_report price nozzle out m \<longleftrightarrow>
    (\<exists>t P nozio alt. m = Inr \<lparr>db_transactions = [t], db_trailing = [], db_warnings = []\<rparr> \<and>
       at_type t = DC3_NOZZLE_STATUS_PRICE \<and> at_status t = PARTIAL \<and>
       at_body t = Some (Nozzle_price_body P nozio nozzle out alt) \<and> sb_scaled P = price)"

lemma nozio_bits:
  fixes n :: int
  assumes "0 \<le> n" "n \<le> 15"
  shows "(n AND 0x0F) OR (if out then 0x10 else 0) = n + (if out then 16 else 0)"
    "uint (word_of_int (n + (if out then 16 else 0)) :: byte) AND 0x0F = n"
    "uint (word_of_int (n + (if out then 16 else 0)) :: byte) AND 0x10 \<noteq> 0 \<longleftrightarrow> out"
proof -
  have n: "n \<in> {0,1,2,3,4,5,6,7,8,9,10,11,12,13,14,15}"
    using assms by (simp, presburger)
  show "(n AND 0x0F) OR (if out then 0x10 else 0) = n + (if out then 16 else 0)"
    "uint (word_of_int (n + (if out then 16 else 0)) :: byte) AND 0x0F = n"
    "uint (word_of_int (n + (if out then 16 else 0)) :: byte) AND 0x10 \<noteq> 0 \<longleftrightarrow> out"
    using n by (elim insertE emptyE; cases out; simp)+
qed

text \<open>
  Nozzle reports arrive intact: price, selected nozzle and the nozzle-out flag that a pump
  encodes in a DC3 transaction are the ones decoded from it.
\<close>

theorem dc3_report_roundtrip:
  assumes "encode_dc3_nozzle_price price nozzle out = Inr p" "0 \<le> nozzle" "nozzle \<le> 15" "args_ok args"
  shows "nozzle_report price nozzle out (decode_data_payload p args)"
proof -
  define N where "N = nozzle + (if out then 16 else 0)"
  note bits = nozio_bits [OF assms(2,3), of out, folded N_def]
  from assms(1) obtain pb where e: "encode_packed_bcd price (Some 3) = Inr pb"
    and p: "encode_tx 0x03 (pb @ [word_of_int N]) = Inr p"
    unfolding encode_dc3_nozzle_price_def Let_def bits(1)
    by (auto simp: bind_result_Inr_iff bytes_of_int_def split: if_split_asm)
  have len: "length pb = 3" using encode_packed_length [OF e] by simp
  obtain P where P: "decode_scaled_bcd pb (da_price_decimals args) = Inr P" "sb_scaled P = price"
    using decode_scaled_ok [OF encode_decodes [OF e]] assms(4) by (auto simp: args_ok_def)
  obtain alt where alt:
    "except_bcd (decode_scaled_bcd (pb @ [word_of_int N]) None) (Inr None) (\<lambda>v. Inr (Some v)) = Inr alt"
    using maybe_decimal_total by (auto simp: maybe_decimal_def)
  let ?tx = "decode_envelope (unit_at 0 0x03 (pb @ [word_of_int N])) args DC3_NOZZLE_STATUS_PRICE
    SLAVE_TO_MASTER PARTIAL
    (Some (Nozzle_price_body P (uint (word_of_int N :: byte)) nozzle out alt))
    ([Interpreted_as_dc3] @ (if da_price_decimals args = None then [Price_decimals_omitted] else []))"
  have sl: "slice 0 3 (pb @ [word_of_int N]) = pb" "(pb @ [word_of_int N]) ! 3 = word_of_int N"
    using len by (simp_all add: slice_def nth_append)
  have "decode_dc3_preferred (unit_at 0 0x03 (pb @ [word_of_int N])) args =
    bind_result (py_index (pb @ [word_of_int N]) 3) (\<lambda>b.
        let nozio = uint b;
            nozzle = nozio AND 0x0F;
            nozzle_out = (nozio AND 0x10 \<noteq> 0);
            alt_volume = except_bcd (decode_scaled_bcd (pb @ [word_of_int N]) None) (Inr None) (\<lambda>v. Inr (Some v))
        in bind_result alt_volume (\<lambda>alt.
          Inr (decode_envelope (unit_at 0 0x03 (pb @ [word_of_int N])) args DC3_NOZZLE_STATUS_PRICE SLAVE_TO_MASTER PARTIAL
                (Some (Nozzle_price_body P nozio nozzle nozzle_out alt))
                ([Interpreted_as_dc3] @
                 (if da_price_decimals args = None then [Price_decimals_omitted] else [])))))"
    unfolding decode_dc3_preferred_def unit_at_def raw_transaction.simps sl(1) P(1)
    by (simp only: except_bcd_def sum.case)
  also have "\<dots> = Inr ?tx"
    using len py_index_ok [of 3 "pb @ [word_of_int N]"]
    by (simp add: sl(2) Let_def alt bits(2,3))
  finally have "decode_raw_transaction (unit_at 0 0x03 (pb @ [word_of_int N])) args = Inr ?tx"
    using len by (simp add: decode_raw_transaction_def unit_at_def)
  from decode_single [OF p this] P(2) show ?thesis
    by (simp add: nozzle_report_def)
qed

theorem dc3_report_roundtrip_witness:
  "nozzle_report 1999 2 True (decode_data_payload [3, 4, 0, 0x19, 0x99, 0x12] no_decimals)"
proof (rule dc3_report_roundtrip)
  have "encode_packed_bcd 1999 (Some 3) = Inr [0, 0x19, 0x99]"
    by (simp add: encode_packed_bcd_def decimal_digits.simps)
  then show "encode_dc3_nozzle_price 1999 2 True = Inr [3, 4, 0, 0x19, 0x99, 0x12]"
    by (simp add: encode_dc3_nozzle_price_def encode_tx_def bytes_of_int_def)
  show "args_ok no_decimals" by (simp add: args_ok_def no_decimals_def decimals_ok_def)
qed simp_all

section \<open>The registry of documented layouts\<close>

record transaction_registration =
  tr_wire_id :: int
  tr_logical_type :: transaction_type
  tr_direction :: message_direction
  tr_title :: string
  tr_pages :: string
  tr_length :: "nat option"

definition registration ::
  "int \<Rightarrow> transaction_type \<Rightarrow> message_direction \<Rightarrow> string \<Rightarrow> string \<Rightarrow> nat option \<Rightarrow> transaction_registration" where
  "registration w ty dir title pages len =
    \<lparr>tr_wire_id = w, tr_logical_type = ty, tr_direction = dir, tr_title = title, tr_pages = pages,
     tr_length = len\<rparr>"

definition REGISTRY :: "transaction_registration list" where
  "REGISTRY =
    [registration 0x01 CD1_COMMAND MASTER_TO_SLAVE ''Command to pump'' ''13'' (Some 1),
     registration 0x01 DC1_PUMP_STATUS SLAVE_TO_MASTER ''Pump status'' ''20'' (Some 1),
     registration 0x02 CD2_ALLOWED_NOZZLES MASTER_TO_SLAVE ''Allowed nozzle numbers'' ''14'' None,
     registration 0x02 DC2_FILLED_VOLUME_AMOUNT SLAVE_TO_MASTER ''Filled volume and amount'' ''20'' (Some 8),
     registration 0x03 CD3_PRESET_VOLUME MASTER_TO_SLAVE ''Preset volume'' ''14'' (Some 4),
     registration 0x03 DC3_NOZZLE_STATUS_PRICE SLAVE_TO_MASTER ''Nozzle status and filling price'' ''21'' (Some 4),
     registration 0x05 CD5_PRICE_UPDATE MASTER_TO_SLAVE ''Price update'' ''15'' None,
     registration 0x05 DC5_ALARM SLAVE_TO_MASTER ''Alarm code'' ''22'' (Some 1),
     registration 0x65 CD101_REQUEST_TOTALS MASTER_TO_SLAVE ''Request Total Counters'' ''19'' (Some 1),
     registration 0x65 DC101_TOTAL_COUNTERS SLAVE_TO_MASTER ''Total Counters'' ''25'' (Some 16)]"

definition lookup_wire_id :: "int \<Rightarrow> transaction_registration list" where
  "lookup_wire_id wire_id = filter (\<lambda>r. tr_wire_id r = wire_id) REGISTRY"

definition documented :: "int \<Rightarrow> transaction_type \<Rightarrow> message_direction \<Rightarrow> nat \<Rightarrow> bool" where
  "documented tid ty dir lng \<longleftrightarrow>
     list_ex (\<lambda>r. tr_logical_type r = ty \<and> tr_direction r = dir \<and> tr_length r \<in> {None, Some lng})
       (lookup_wire_id tid)"

text \<open>
  The decoder stays inside the documented protocol: a transaction it names (neither unknown
  nor ambiguous) has a registry entry for its TRANS byte with that type, that direction
  and a length that fits.
\<close>

theorem decoded_kinds_documented:
  "case decoded_kind tid lng of (ty, dir) \<Rightarrow>
     ty = Transaction_UNKNOWN \<or> ty = AMBIGUOUS_CD1_OR_DC1 \<or> documented tid ty dir lng"
  by (simp add: decoded_kind_def documented_def lookup_wire_id_def REGISTRY_def registration_def)

end
