(* ===== verification/Pump_Mapper.thy ===== *)
theory Pump_Mapper
  imports Pump_Machine App_Decoder
begin

text \<open>
  \<open>state_machine/wayne_mapper.py\<close> and \<open>PumpStateMachine.apply_mapped\<close>: from a decoded
  transaction to a normalized event. The keys a body dictionary has are the arguments of its
  constructor; \<open>inferences\<close>, which only documents the mapping, is not modelled, and the prose
  of a warning is a constructor.
\<close>

record mapper_context =
  mx_current_state :: "pump_state option"
  mx_previous_status :: "int option"
  mx_resolve_dc1 :: bool
  mx_resolve_cd1 :: bool
  mx_resolve_dc3 :: bool
  mx_resolve_cd3 :: bool
  mx_outstanding_cd1 :: bool
  mx_bus_direction :: "message_direction option"

definition default_mapper_context :: mapper_context where
  "default_mapper_context =
    \<lparr>mx_current_state = None, mx_previous_status = None, mx_resolve_dc1 = False, mx_resolve_cd1 = False,
     mx_resolve_dc3 = False, mx_resolve_cd3 = False, mx_outstanding_cd1 = False, mx_bus_direction = None\<rparr>"

datatype mapper_warning =
    Resolved_as_cd1 | Dc1_status_missing | Ambiguous_direction_cd1_dc1 | Dc1_without_status_byte
  | Resolved_as_cd3 | Ambiguous_direction_cd3_dc3 | Dc3_missing_nozzle_out
  | No_lifecycle_mapping transaction_type | Unknown_wayne_status int | Switched_off_unmapped

record mapped_observation =
  mp_event :: pump_event
  mp_observation :: observation_ref
  mp_raw_status :: "int option"
  mp_selected_nozzle :: "int option"
  mp_completion_key :: "string option"
  mp_allow_implicit :: bool
  mp_warnings :: "mapper_warning list"

definition mapped :: "pump_event \<Rightarrow> observation_ref \<Rightarrow> int option \<Rightarrow> mapper_warning list \<Rightarrow> mapped_observation" where
  "mapped ev obs raw ws =
    \<lparr>mp_event = ev, mp_observation = obs, mp_raw_status = raw, mp_selected_nozzle = None,
     mp_completion_key = None, mp_allow_implicit = False, mp_warnings = ws\<rparr>"

text \<open>\<open>f"complete:{frame}:{status_code}"\<close>, built only for status code 5.\<close>

definition completion_key :: "observation_ref \<Rightarrow> string" where
  "completion_key obs =
    ''complete:'' @ (case or_source_hex obs of None \<Rightarrow> '''' | Some h \<Rightarrow> h) @ '':5''"

definition status_code_to_event ::
  "int \<Rightarrow> observation_ref \<Rightarrow> int option \<Rightarrow> pump_state option \<Rightarrow> mapped_observation" where
  "status_code_to_event code obs previous current =
    (case wayne_status_of code of
       None \<Rightarrow> mapped UNKNOWN_OBSERVATION obs (Some code) [Unknown_wayne_status code]
     | Some Wayne_PUMP_NOT_PROGRAMMED \<Rightarrow> mapped CONFIGURATION_MISSING obs (Some code) []
     | Some Wayne_RESET \<Rightarrow> mapped RESET_OBSERVED obs (Some code) []
     | Some Wayne_AUTHORIZED \<Rightarrow> mapped AUTHORIZATION_CONFIRMED obs (Some code) []
     | Some Wayne_FILLING \<Rightarrow>
         if previous = Some (wayne_code Wayne_SUSPENDED) then mapped RESUMED_OBSERVED obs (Some code) []
         else if current = Some FILLING \<or> previous = Some (wayne_code Wayne_FILLING)
           then mapped FILLING_UPDATED obs (Some code) []
         else mapped FILLING_STARTED obs (Some code) []
     | Some Wayne_FILLING_COMPLETED \<Rightarrow>
         (mapped FILLING_COMPLETED obs (Some code) [])\<lparr>mp_completion_key := Some (completion_key obs)\<rparr>
     | Some Wayne_MAX_AMOUNT_VOLUME_REACHED \<Rightarrow> mapped Limit_reached_event obs (Some code) []
     | Some Wayne_SWITCHED_OFF \<Rightarrow> mapped UNKNOWN_OBSERVATION obs (Some code) [Switched_off_unmapped]
     | Some Wayne_SUSPENDED \<Rightarrow> mapped SUSPENDED_OBSERVED obs (Some code) [])"

fun body_raw_code :: "decoded_body \<Rightarrow> int option" where
  "body_raw_code (Status_command_body code _ _) = Some code"
| "body_raw_code _ = None"

definition extract_raw_status :: "application_transaction \<Rightarrow> int option" where
  "extract_raw_status tx = (case at_body tx of None \<Rightarrow> None | Some b \<Rightarrow> body_raw_code b)"

definition map_ambiguous_cd1_dc1 ::
  "application_transaction \<Rightarrow> observation_ref \<Rightarrow> mapper_context \<Rightarrow> mapped_observation" where
  "map_ambiguous_cd1_dc1 tx obs ctx =
    (let direction = (case mx_bus_direction ctx of None \<Rightarrow> at_direction tx | Some d \<Rightarrow> d);
         resolve_dc1 = (mx_resolve_dc1 ctx \<or> mx_outstanding_cd1 ctx \<or> direction = SLAVE_TO_MASTER);
         resolve_cd1 = (mx_resolve_cd1 ctx \<or> direction = MASTER_TO_SLAVE)
     in if resolve_cd1 \<and> \<not> resolve_dc1
        then mapped UNKNOWN_OBSERVATION obs (or_raw_status obs) [Resolved_as_cd1]
        else if resolve_dc1 \<and> \<not> resolve_cd1
        then (case or_raw_status obs of
            None \<Rightarrow> mapped UNKNOWN_OBSERVATION obs None [Dc1_status_missing]
          | Some code \<Rightarrow> status_code_to_event code obs (mx_previous_status ctx) (mx_current_state ctx))
        else mapped UNKNOWN_OBSERVATION obs (or_raw_status obs) [Ambiguous_direction_cd1_dc1])"

text \<open>No decoded body has the key \<open>status\<close> that \<open>_map_dc1\<close> falls back to.\<close>

definition map_dc1 ::
  "application_transaction \<Rightarrow> observation_ref \<Rightarrow> mapper_context \<Rightarrow> mapped_observation" where
  "map_dc1 tx obs ctx =
    (case or_raw_status obs of
       None \<Rightarrow> mapped UNKNOWN_OBSERVATION obs None [Dc1_without_status_byte]
     | Some code \<Rightarrow> status_code_to_event code obs (mx_previous_status ctx) (mx_current_state ctx))"

definition map_dc3 ::
  "application_transaction \<Rightarrow> observation_ref \<Rightarrow> mapper_context \<Rightarrow> mapped_observation" where
  "map_dc3 tx obs ctx =
    (if mx_resolve_cd3 ctx then mapped UNKNOWN_OBSERVATION obs None [Resolved_as_cd3]
     else
       let direction = (case mx_bus_direction ctx of None \<Rightarrow> at_direction tx | Some d \<Rightarrow> d);
           resolved = (mx_resolve_dc3 ctx \<or> (at_status tx = DECODED \<and> direction = SLAVE_TO_MASTER))
       in if \<not> resolved then mapped UNKNOWN_OBSERVATION obs None [Ambiguous_direction_cd3_dc3]
          else (case at_body tx of
              Some (Nozzle_price_body price nozio nozzle nozzle_out alt) \<Rightarrow>
                if nozzle_out then (mapped NOZZLE_LIFTED obs None [])\<lparr>mp_selected_nozzle := Some nozzle\<rparr>
                else if mx_current_state ctx \<in> {Some NOZZLE_UP, Some AUTHORIZED, Some FILLING, Some SUSPENDED}
                then (mapped NOZZLE_RETURNED obs None [])\<lparr>mp_selected_nozzle := Some nozzle\<rparr>
                else (mapped READY_OBSERVED obs None [])\<lparr>mp_selected_nozzle := Some nozzle\<rparr>
            | _ \<Rightarrow> mapped UNKNOWN_OBSERVATION obs None [Dc3_missing_nozzle_out]))"

definition map_wayne_observation ::
  "application_transaction \<Rightarrow> mapper_context \<Rightarrow> mapped_observation" where
  "map_wayne_observation tx ctx =
    (let obs = \<lparr>or_source_hex = at_source_hex tx, or_transaction_id = Some (at_id tx),
                or_transaction_type = Some (at_type tx), or_raw_status = extract_raw_status tx\<rparr>
     in case at_type tx of
          AMBIGUOUS_CD1_OR_DC1 \<Rightarrow> map_ambiguous_cd1_dc1 tx obs ctx
        | DC1_PUMP_STATUS \<Rightarrow> map_dc1 tx obs ctx
        | DC3_NOZZLE_STATUS_PRICE \<Rightarrow> map_dc3 tx obs ctx
        | DC2_FILLED_VOLUME_AMOUNT \<Rightarrow> mapped FILLING_UPDATED obs None []
        | DC5_ALARM \<Rightarrow>
            (let fault = (case at_body tx of Some (Alarm_body code) \<Rightarrow> Some code | _ \<Rightarrow> None)
             in mapped FAULT_OBSERVED (obs\<lparr>or_raw_status := fault\<rparr>) fault [])
        | DC9_PUMP_IDENTITY \<Rightarrow> mapped PUMP_DISCOVERED obs None []
        | ty \<Rightarrow> mapped UNKNOWN_OBSERVATION obs None [No_lifecycle_mapping ty])"

definition map_wayne_status_code ::
  "int \<Rightarrow> int option \<Rightarrow> pump_state option \<Rightarrow> string option \<Rightarrow> int option \<Rightarrow> mapped_observation" where
  "map_wayne_status_code code previous current source tid =
    status_code_to_event code
      \<lparr>or_source_hex = source, or_transaction_id = tid, or_transaction_type = Some DC1_PUMP_STATUS,
       or_raw_status = Some code\<rparr> previous current"

section \<open>Applying a mapped observation\<close>

definition mapped_args ::
  "mapped_observation \<Rightarrow> int option \<Rightarrow> string option \<Rightarrow> bool option \<Rightarrow> int option \<Rightarrow> bool option \<Rightarrow> apply_args" where
  "mapped_args m observed_at active price_verified fault allow =
    \<lparr>ap_observation = Some (mp_observation m), ap_observed_at = observed_at,
     ap_selected_nozzle = mp_selected_nozzle m, ap_active_transaction = active,
     ap_raw_status = mp_raw_status m, ap_price_verified = price_verified,
     ap_fault_code = (case fault of Some f \<Rightarrow> Some f
        | None \<Rightarrow> if mp_event m = FAULT_OBSERVED then mp_raw_status m else None),
     ap_completion_key = mp_completion_key m,
     ap_allow_implicit = (case allow of Some b \<Rightarrow> b | None \<Rightarrow> mp_allow_implicit m)\<rparr>"

definition apply_mapped ::
  "pump_context \<Rightarrow> mapped_observation \<Rightarrow> int option \<Rightarrow> string option \<Rightarrow> bool option \<Rightarrow> int option \<Rightarrow> bool option \<Rightarrow>
   transition_result" where
  "apply_mapped ctx m observed_at active price_verified fault allow =
    apply_event ctx (mp_event m) (mapped_args m observed_at active price_verified fault allow)"

lemma mapped_fields [simp]:
  "mp_event (mapped ev obs raw ws) = ev"
  "mp_observation (mapped ev obs raw ws) = obs"
  "mp_raw_status (mapped ev obs raw ws) = raw"
  "mp_allow_implicit (mapped ev obs raw ws) = False"
  "mp_completion_key (mapped ev obs raw ws) = None"
  by (simp_all add: mapped_def)

lemma unknown_keeps_state:
  "pc_current_state (tr_context (apply_event ctx UNKNOWN_OBSERVATION args)) = pc_current_state ctx"
  by (simp add: apply_event_def Let_def)

text \<open>
  Direction is never guessed: a decoded payload applied without caller context (a capture of the merged
  bus) does not move the pump on a status byte or a nozzle report, because CD1 and DC1, and CD3 and DC3, share
  their wire image. This holds for each transaction the decoder returns of these two kinds.
\<close>

theorem ambiguous_never_moves:
  "\<exists>b. decode_data_payload p args = Inr b \<and>
    list_all (\<lambda>tx. pc_current_state (tr_context
        (apply_mapped ctx (map_wayne_observation tx default_mapper_context) t active price fault allow)) =
      pc_current_state ctx)
    (filter (\<lambda>tx. at_type tx \<in> {AMBIGUOUS_CD1_OR_DC1, DC3_NOZZLE_STATUS_PRICE}) (db_transactions b))"
proof -
  obtain b where b: "decode_data_payload p args = Inr b"
    "\<forall>tx\<in>set (db_transactions b). (at_type tx, at_direction tx) = decoded_kind (at_id tx) (at_length tx)"
    "\<forall>tx\<in>set (db_transactions b). \<not> (at_type tx = DC3_NOZZLE_STATUS_PRICE \<and> at_status tx = DECODED)"
    using decode_data_payload_kinds [of p args] by (auto simp: list_all_iff)
  have "mp_event (map_wayne_observation tx default_mapper_context) = UNKNOWN_OBSERVATION"
    if "tx \<in> set (db_transactions b)" "at_type tx \<in> {AMBIGUOUS_CD1_OR_DC1, DC3_NOZZLE_STATUS_PRICE}" for tx
  proof (cases "at_type tx = AMBIGUOUS_CD1_OR_DC1")
    case True
    have "(at_type tx, at_direction tx) = decoded_kind (at_id tx) (at_length tx)"
      using b(2) that(1) by blast
    with True have "at_direction tx = Direction_UNKNOWN"
      by (auto simp: decoded_kind_def split: if_splits)
    with True show ?thesis
      by (simp add: map_wayne_observation_def map_ambiguous_cd1_dc1_def default_mapper_context_def)
  next
    case False
    then have ty: "at_type tx = DC3_NOZZLE_STATUS_PRICE" using that(2) by simp
    then have "at_status tx \<noteq> DECODED" using that(1) b(3) by blast
    with ty show ?thesis
      by (simp add: map_wayne_observation_def map_dc3_def default_mapper_context_def)
  qed
  with b(1) show ?thesis
    by (auto simp: list_all_iff apply_mapped_def unknown_keeps_state)
qed

section \<open>From the wire to the event\<close>

definition plain_args :: "string \<Rightarrow> decode_args" where
  "plain_args hex = \<lparr>da_pump_address = None, da_line_sequence = None, da_source_hex = Some hex,
     da_volume_decimals = None, da_amount_decimals = None, da_price_decimals = None\<rparr>"

text \<open>The context a controller gives for a frame it received from a pump, when the TRANS byte is 1.\<close>

definition dc1_context :: "int option \<Rightarrow> pump_state \<Rightarrow> mapper_context" where
  "dc1_context previous current = default_mapper_context
     \<lparr>mx_current_state := Some current, mx_previous_status := previous, mx_resolve_dc1 := True\<rparr>"

definition status_observation :: "string \<Rightarrow> int \<Rightarrow> observation_ref" where
  "status_observation hex code = \<lparr>or_source_hex = Some hex, or_transaction_id = Some 1,
     or_transaction_type = Some AMBIGUOUS_CD1_OR_DC1, or_raw_status = Some code\<rparr>"

text \<open>
  A status byte reaches the state machine unchanged: decoding the DC1 transaction a pump encodes for
  status code \<open>code\<close> gives one transaction, and the controller maps it to the event of exactly that code, with
  the frame it came from as the source.
\<close>

theorem status_reaches_machine:
  "\<exists>p tx. encode_dc1_status code = Inr p \<and>
    decode_data_payload p (plain_args hex) =
      Inr \<lparr>db_transactions = [tx], db_trailing = [], db_warnings = []\<rparr> \<and>
    map_wayne_observation tx (dc1_context previous current) =
      status_code_to_event (code AND 0xFF) (status_observation hex (code AND 0xFF)) previous (Some current)"
proof -
  let ?c = "code AND 0xFF" and ?w = "word_of_int (code AND 0xFF) :: byte"
  have "0 \<le> ?c" by simp
  moreover have "?c \<le> 255" by (rule AND_upper2) simp
  ultimately have u: "uint ?w = ?c" by (rule int_of_byte_of_int)
  have e: "encode_tx 0x01 [?w] = Inr [0x01, 0x01, ?w]"
    by (simp add: encode_tx_Inr)
  obtain cmd where d: "decode_raw_transaction (unit_at 0 0x01 [?w]) (plain_args hex) =
      Inr (decode_envelope (unit_at 0 0x01 [?w]) (plain_args hex) AMBIGUOUS_CD1_OR_DC1 Direction_UNKNOWN PARTIAL
        (Some (Status_command_body ?c (describe_wayne_status ?c) cmd)) [Ambiguous_cd1_dc1])"
    by (simp add: decode_raw_transaction_def unit_at_def decode_ambiguous_01_def py_index_def Let_def u)
  have "map_wayne_observation (decode_envelope (unit_at 0 0x01 [?w]) (plain_args hex) AMBIGUOUS_CD1_OR_DC1 Direction_UNKNOWN
        PARTIAL (Some (Status_command_body ?c (describe_wayne_status ?c) cmd)) [Ambiguous_cd1_dc1])
      (dc1_context previous current) =
      status_code_to_event ?c (status_observation hex ?c) previous (Some current)"
    by (simp add: map_wayne_observation_def decode_envelope_def map_ambiguous_cd1_dc1_def dc1_context_def
        default_mapper_context_def extract_raw_status_def status_observation_def plain_args_def unit_at_def)
  with decode_single [OF e d] e show ?thesis by (simp add: encode_dc1_status_def)
qed

section \<open>Identical completion frames\<close>

text \<open>
  A completion frame works once per pump and never again: the evidence key is the text of the frame, and a DC1
  frame holds only the address, the four-bit sequence number and the status. Once a completion from a frame has been
  applied, a later sale that ends with a byte-identical frame stays in its state whatever happened in between, although
  the sale is a different one.
\<close>

theorem identical_frame_never_completes_again:
  assumes first: "tr_reason (apply_mapped c (map_wayne_status_code 5 prev cur hex tid) t act pv fc al) = Transition_applied"
    and later: "c' = foldl step_context
      (tr_context (apply_mapped c (map_wayne_status_code 5 prev cur hex tid) t act pv fc al)) is"
  shows "pc_current_state (tr_context
      (apply_mapped c' (map_wayne_status_code 5 prev' cur' hex tid') t' act' pv' fc' al')) = pc_current_state c'"
proof -
  let ?m = "map_wayne_status_code 5 prev cur hex tid" and ?m' = "map_wayne_status_code 5 prev' cur' hex tid'"
  have w: "wayne_status_of 5 = Some Wayne_FILLING_COMPLETED" by (simp add: wayne_status_of_def)
  obtain k where k: "mp_event ?m = FILLING_COMPLETED" "mp_completion_key ?m = Some k"
    "mp_event ?m' = FILLING_COMPLETED" "mp_completion_key ?m' = Some k"
    by (simp add: map_wayne_status_code_def status_code_to_event_def w completion_key_def mapped_def)
  have "k \<in> pc_completed_keys (tr_context (apply_mapped c ?m t act pv fc al))"
    using applied_key_known [of c _ k] first k by (simp add: apply_mapped_def mapped_args_def)
  then have "k \<in> pc_completed_keys c'"
    unfolding later
  proof (induction "is" rule: rev_induct)
    case (snoc i "is")
    then show ?case
      using completed_keys_grow [of "foldl step_context (tr_context (apply_mapped c ?m t act pv fc al)) is" "fst i" "snd i"]
      by (cases i) (auto simp: step_context_pair)
  qed simp
  from known_key_not_applied [OF this, of "mapped_args ?m' t' act' pv' fc' al'"] k
  have "tr_reason (apply_event c' FILLING_COMPLETED (mapped_args ?m' t' act' pv' fc' al')) \<noteq> Transition_applied"
    by (simp add: mapped_args_def)
  then show ?thesis
    unfolding apply_mapped_def k(3)
    by (cases rule: apply_event_cases [of c' FILLING_COMPLETED "mapped_args ?m' t' act' pv' fc' al'"]) simp_all
qed

definition filling_context :: pump_context where
  "filling_context = (new_context ''pump-1'' 1)\<lparr>pc_current_state := FILLING\<rparr>"

theorem identical_frame_never_completes_again_witness:
  "pc_current_state (tr_context (apply_mapped
     (foldl step_context (tr_context (apply_mapped filling_context
        (map_wayne_status_code 5 None None (Some ''51 3c'') (Some 1)) None None None None None)) [])
     (map_wayne_status_code 5 None None (Some ''51 3c'') (Some 1)) None None None None None)) =
   pc_current_state (foldl step_context (tr_context (apply_mapped filling_context
     (map_wayne_status_code 5 None None (Some ''51 3c'') (Some 1)) None None None None None)) [])"
proof (rule identical_frame_never_completes_again)
  have t: "lookup_transition FILLING FILLING_COMPLETED = Some FILLING_COMPLETE"
    by (simp add: lookup_iff_listed TRANSITIONS_def BASE_TRANSITIONS_def)
  show "tr_reason (apply_mapped filling_context (map_wayne_status_code 5 None None (Some ''51 3c'') (Some 1))
      None None None None None) = Transition_applied"
    by (simp add: apply_mapped_def mapped_args_def map_wayne_status_code_def status_code_to_event_def wayne_status_of_def
        mapped_def apply_event_def is_stale_def is_replay_def source_hex_def is_duplicate_completion_def
        is_same_state_noop_def SAME_STATE_NOOP_EVENTS_def filling_context_def new_context_def Let_def t)
qed (rule refl)

end
