(* ===== verification/Ctl_Outbound.thy ===== *)
theory Ctl_Outbound
  imports Pump_Guards
begin

text \<open>
  \<open>controller/safety.py\<close>, \<open>controller/outbound.py\<close>, the queue items of \<open>controller/session_models.py\<close> and the
  controller modes of \<open>core/config.py\<close>: which DATA a controller may send at all, and the bounded queue it waits in.
  The queue is specified by an interface of first-in first-out queues with one view per key.
\<close>

section \<open>Safety\<close>

datatype controller_mode = LISTEN_ONLY | BENCH_CONTROL | FIELD_CONTROL | LOCKED_OUT

datatype idempotency_class = IDEMPOTENT | NON_IDEMPOTENT

record outbound_item =
  oi_correlation_id :: string
  oi_address :: int
  oi_payload :: bytes
  oi_created_at :: int
  oi_expires_at :: int
  oi_idempotency :: idempotency_class
  oi_max_retries :: int
  oi_simulator_only :: bool
  oi_command :: pump_command
  oi_sequence :: "int option"
  oi_attempts :: int

text \<open>Time in milliseconds; the identifier is drawn by the caller.\<close>

definition create_item ::
  "string \<Rightarrow> int \<Rightarrow> int \<Rightarrow> bytes \<Rightarrow> pump_command \<Rightarrow> bool \<Rightarrow> idempotency_class \<Rightarrow> int \<Rightarrow> int \<Rightarrow> outbound_item" where
  "create_item uuid now address payload command simulator_only idem ttl_ms max_retries =
    \<lparr>oi_correlation_id = uuid, oi_address = address, oi_payload = payload, oi_created_at = now,
     oi_expires_at = now + ttl_ms, oi_idempotency = idem, oi_max_retries = max_retries,
     oi_simulator_only = simulator_only, oi_command = command, oi_sequence = None, oi_attempts = 0\<rparr>"

definition is_expired :: "int \<Rightarrow> outbound_item \<Rightarrow> bool" where
  "is_expired now item \<longleftrightarrow> now \<ge> oi_expires_at item"

record safety_context =
  sx_environment :: string
  sx_mode :: controller_mode
  sx_active_enabled :: bool
  sx_require_physical :: bool
  sx_physical_present :: bool
  sx_allow_virtual_polling :: bool
  sx_allow_lab_commands :: bool

datatype safety_reason =
    Controller_locked_out
  | Field_control_not_enabled
  | Reads_must_be_simulator_only
  | Simulator_only_requires_LAB
  | Mode_blocks_reads controller_mode
  | Active_command_blocked pump_command
  | Missing_simulator_only_flag
  | Listen_only_blocks_active
  | Active_commands_enabled_false
  | Physical_enable_required
  | Non_idempotent_command
  | Polling_requires_LAB
  | Mode_polling_not_permitted controller_mode

record safety_decision =
  sd_allowed :: bool
  sd_reasons :: "safety_reason list"

definition READ_COMMANDS :: "pump_command set" where
  "READ_COMMANDS = {READ_STATUS, READ_TOTALS}"

definition safety_if :: "bool \<Rightarrow> safety_reason \<Rightarrow> safety_reason list" where
  "safety_if b r = (if b then [r] else [])"

definition evaluate_outbound_safety :: "outbound_item \<Rightarrow> safety_context \<Rightarrow> safety_decision" where
  "evaluate_outbound_safety item ctx =
    (let lab = (upper (sx_environment ctx) = ''LAB''); mode = sx_mode ctx in
     if mode = LOCKED_OUT then \<lparr>sd_allowed = False, sd_reasons = [Controller_locked_out]\<rparr>
     else if mode = FIELD_CONTROL then \<lparr>sd_allowed = False, sd_reasons = [Field_control_not_enabled]\<rparr>
     else if oi_command item \<in> READ_COMMANDS then
       (let reasons = safety_if (\<not> oi_simulator_only item) Reads_must_be_simulator_only
              @ safety_if (\<not> lab) Simulator_only_requires_LAB
              @ safety_if (mode \<notin> {LISTEN_ONLY, BENCH_CONTROL}) (Mode_blocks_reads mode)
        in \<lparr>sd_allowed = (reasons = []), sd_reasons = reasons\<rparr>)
     else if sx_allow_lab_commands ctx \<and> oi_simulator_only item \<and> lab \<and> mode \<in> {LISTEN_ONLY, BENCH_CONTROL}
     then \<lparr>sd_allowed = True, sd_reasons = []\<rparr>
     else
       (let reasons = [Active_command_blocked (oi_command item)]
              @ safety_if (\<not> oi_simulator_only item) Missing_simulator_only_flag
              @ safety_if (\<not> lab) Simulator_only_requires_LAB
              @ safety_if (mode = LISTEN_ONLY) Listen_only_blocks_active
              @ safety_if (\<not> sx_active_enabled ctx) Active_commands_enabled_false
              @ safety_if (sx_require_physical ctx \<and> \<not> sx_physical_present ctx) Physical_enable_required
              @ safety_if (oi_command item \<in> NON_IDEMPOTENT_COMMANDS) Non_idempotent_command
        in \<lparr>sd_allowed = False, sd_reasons = first_occurrences reasons {}\<rparr>))"

definition evaluate_polling_allowed :: "safety_context \<Rightarrow> safety_decision" where
  "evaluate_polling_allowed ctx =
    (let lab = (upper (sx_environment ctx) = ''LAB''); mode = sx_mode ctx in
     if mode = LOCKED_OUT then \<lparr>sd_allowed = False, sd_reasons = [Controller_locked_out]\<rparr>
     else if \<not> lab \<and> \<not> sx_allow_virtual_polling ctx
     then \<lparr>sd_allowed = False, sd_reasons = [Polling_requires_LAB]\<rparr>
     else if mode \<in> {LISTEN_ONLY, BENCH_CONTROL} \<and> (sx_allow_virtual_polling ctx \<or> lab)
     then \<lparr>sd_allowed = True, sd_reasons = []\<rparr>
     else \<lparr>sd_allowed = False, sd_reasons = [Mode_polling_not_permitted mode]\<rparr>)"

text \<open>
  The safety gate: DATA is allowed exactly when it is marked simulator-only, the environment is the lab, the
  controller listens or is on the bench, and an active (non-read) command also has the explicit lab permission. No
  setting of the enable flags opens another way, and every refusal names a reason.
\<close>

theorem outbound_allowed_iff:
  "(sd_allowed (evaluate_outbound_safety item ctx) \<longleftrightarrow>
     oi_simulator_only item \<and> upper (sx_environment ctx) = ''LAB'' \<and> sx_mode ctx \<in> {LISTEN_ONLY, BENCH_CONTROL} \<and>
     \<not> (oi_command item \<notin> READ_COMMANDS \<and> \<not> sx_allow_lab_commands ctx)) \<and>
   (sd_allowed (evaluate_outbound_safety item ctx) \<longleftrightarrow> sd_reasons (evaluate_outbound_safety item ctx) = [])"
  by (cases "sx_mode ctx") (auto simp: evaluate_outbound_safety_def Let_def safety_if_def)

section \<open>An interface of queues with a view per key\<close>

fun pop_many :: "('q \<Rightarrow> 'k \<Rightarrow> 'i option \<times> 'q) \<Rightarrow> nat \<Rightarrow> 'q \<Rightarrow> 'k \<Rightarrow> 'i option list \<times> 'q" where
  "pop_many pop 0 q k = ([], q)"
| "pop_many pop (Suc n) q k =
    (let (x, q1) = pop q k; (xs, q2) = pop_many pop n q1 k in (x # xs, q2))"

locale keyed_fifo =
  fixes push :: "'q \<Rightarrow> 'i \<Rightarrow> 'q"
    and pop :: "'q \<Rightarrow> 'k \<Rightarrow> 'i option \<times> 'q"
    and view :: "'q \<Rightarrow> 'k \<Rightarrow> 'i list"
    and key :: "'i \<Rightarrow> 'k"
    and live :: "'i \<Rightarrow> bool"
  assumes view_push: "live i \<Longrightarrow> view (push q i) k = (if key i = k then view q k @ [i] else view q k)"
    and pop_head: "fst (pop q k) = (case view q k of [] \<Rightarrow> None | i # _ \<Rightarrow> Some i)"
    and pop_view: "view (snd (pop q k)) k' = (if k' = k then tl (view q k) else view q k')"
begin

lemma view_pushes:
  "list_all live items \<Longrightarrow> view (foldl push q items) k = view q k @ filter (\<lambda>i. key i = k) items"
  by (induction items arbitrary: q) (simp_all add: view_push)

lemma pop_many_view:
  "fst (pop_many pop n q k) = map Some (take n (view q k)) @ replicate (n - length (view q k)) None"
proof (induction n arbitrary: q)
  case (Suc n)
  obtain x q1 where p: "pop q k = (x, q1)" by fastforce
  have "x = (case view q k of [] \<Rightarrow> None | i # _ \<Rightarrow> Some i)" "view q1 k = tl (view q k)"
    using pop_head [of q k] pop_view [of q k k] p by simp_all
  with Suc [of q1] p show ?case
    by (cases "view q k") (simp_all add: case_prod_unfold Let_def)
qed simp

lemma served_in_order:
  "list_all live items \<Longrightarrow> view q k = [] \<Longrightarrow> length (filter (\<lambda>i. key i = k) items) = n \<Longrightarrow>
   fst (pop_many pop n (foldl push q items) k) = map Some (filter (\<lambda>i. key i = k) items)"
  by (simp add: pop_many_view view_pushes)

end

section \<open>The outbound queue\<close>

record outbound_queue =
  oq_max_size :: nat
  oq_items :: "outbound_item list"

datatype outbound_error = Outbound_value_error | Outbound_rejected "safety_reason list" | Item_expired | Queue_full nat

definition new_queue :: "nat \<Rightarrow> outbound_error + outbound_queue" where
  "new_queue max_size =
    (if max_size < 1 then Inl Outbound_value_error else Inr \<lparr>oq_max_size = max_size, oq_items = []\<rparr>)"

definition enqueue ::
  "int \<Rightarrow> outbound_queue \<Rightarrow> outbound_item \<Rightarrow> safety_context \<Rightarrow> outbound_error + outbound_queue" where
  "enqueue now q item safety =
    (let decision = evaluate_outbound_safety item safety in
     if \<not> sd_allowed decision then Inl (Outbound_rejected (sd_reasons decision))
     else if is_expired now item then Inl Item_expired
     else if length (oq_items q) \<ge> oq_max_size q then Inl (Queue_full (oq_max_size q))
     else Inr (q\<lparr>oq_items := oq_items q @ [item]\<rparr>))"

text \<open>The loop of \<open>pop_for_address\<close>: what is selected and what is kept, in order.\<close>

fun pop_loop :: "int \<Rightarrow> int \<Rightarrow> outbound_item list \<Rightarrow> outbound_item option \<Rightarrow> outbound_item option \<times> outbound_item list" where
  "pop_loop now address [] selected = (selected, [])"
| "pop_loop now address (item # items) selected =
    (if is_expired now item then pop_loop now address items selected
     else if selected = None \<and> oi_address item = address then pop_loop now address items (Some item)
     else let (s, kept) = pop_loop now address items selected in (s, item # kept))"

definition pop_for_address :: "int \<Rightarrow> outbound_queue \<Rightarrow> int \<Rightarrow> outbound_item option \<times> outbound_queue" where
  "pop_for_address now q address =
    (let (s, kept) = pop_loop now address (oq_items q) None in (s, q\<lparr>oq_items := kept\<rparr>))"

definition peek_addresses :: "int \<Rightarrow> outbound_queue \<Rightarrow> int set" where
  "peek_addresses now q = set (map oi_address (filter (\<lambda>i. \<not> is_expired now i) (oq_items q)))"

definition queue_view :: "int \<Rightarrow> outbound_queue \<Rightarrow> int \<Rightarrow> outbound_item list" where
  "queue_view now q address = filter (\<lambda>i. \<not> is_expired now i \<and> oi_address i = address) (oq_items q)"

lemma pop_loop_selected: "pop_loop now a items (Some x) = (Some x, filter (\<lambda>i. \<not> is_expired now i) items)"
  by (induction items) simp_all

lemma pop_loop_view:
  "fst (pop_loop now a items None) =
     (case filter (\<lambda>i. \<not> is_expired now i \<and> oi_address i = a) items of [] \<Rightarrow> None | i # _ \<Rightarrow> Some i) \<and>
   filter (\<lambda>i. \<not> is_expired now i \<and> oi_address i = b) (snd (pop_loop now a items None)) =
     (if b = a then tl (filter (\<lambda>i. \<not> is_expired now i \<and> oi_address i = a) items)
      else filter (\<lambda>i. \<not> is_expired now i \<and> oi_address i = b) items)"
  by (induction items) (auto simp: pop_loop_selected case_prod_unfold Let_def)

lemma pop_loop_kept: "list_all (\<lambda>i. \<not> is_expired now i) (snd (pop_loop now a items s))"
  by (induction items arbitrary: s) (auto simp: case_prod_unfold Let_def)

definition push_item :: "outbound_queue \<Rightarrow> outbound_item \<Rightarrow> outbound_queue" where
  "push_item q item = q\<lparr>oq_items := oq_items q @ [item]\<rparr>"

interpretation outbound: keyed_fifo push_item "pop_for_address now" "queue_view now" oi_address
    "\<lambda>i. \<not> is_expired now i" for now
proof unfold_locales
  fix q i k k'
  show "\<not> is_expired now i \<Longrightarrow> queue_view now (push_item q i) k =
      (if oi_address i = k then queue_view now q k @ [i] else queue_view now q k)"
    by (simp add: queue_view_def push_item_def)
  show "fst (pop_for_address now q k) = (case queue_view now q k of [] \<Rightarrow> None | i # _ \<Rightarrow> Some i)"
    "queue_view now (snd (pop_for_address now q k)) k' =
      (if k' = k then tl (queue_view now q k) else queue_view now q k')"
    using pop_loop_view [of now k "oq_items q" k']
    by (simp_all add: pop_for_address_def queue_view_def case_prod_unfold Let_def)
qed

text \<open>
  First in, first out, per pump: items that are still live are served to each pump in the order in which they were
  queued, whatever is queued for the other pumps and whatever expired entries lie between them.
\<close>

theorem outbound_fifo:
  assumes "list_all (\<lambda>i. \<not> is_expired now i) items" "queue_view now q a = []"
  shows "fst (pop_many (pop_for_address now) (length (filter (\<lambda>i. oi_address i = a) items)) (foldl push_item q items) a) =
    map Some (filter (\<lambda>i. oi_address i = a) items)"
  using outbound.served_in_order [OF assms refl] .

definition sample_item :: "int \<Rightarrow> outbound_item" where
  "sample_item a = create_item ''id'' 0 a [1, 1, 0] READ_STATUS True IDEMPOTENT 5000 2"

theorem outbound_fifo_witness:
  "fst (pop_many (pop_for_address 10) (length (filter (\<lambda>i. oi_address i = 1) [sample_item 1, sample_item 2]))
     (foldl push_item \<lparr>oq_max_size = 32, oq_items = []\<rparr> [sample_item 1, sample_item 2]) 1) =
   map Some (filter (\<lambda>i. oi_address i = 1) [sample_item 1, sample_item 2])"
  by (rule outbound_fifo) (simp_all add: is_expired_def sample_item_def create_item_def queue_view_def)

definition queue_gated :: "safety_context \<Rightarrow> outbound_queue \<Rightarrow> bool" where
  "queue_gated safety q \<longleftrightarrow> length (oq_items q) \<le> oq_max_size q \<and>
     list_all (\<lambda>i. sd_allowed (evaluate_outbound_safety i safety)) (oq_items q)"

datatype queue_operation = Q_enqueue int outbound_item | Q_pop int int

fun queue_step :: "safety_context \<Rightarrow> outbound_queue \<Rightarrow> queue_operation \<Rightarrow> outbound_queue" where
  "queue_step safety q (Q_enqueue now item) = (case enqueue now q item safety of Inl _ \<Rightarrow> q | Inr q' \<Rightarrow> q')"
| "queue_step safety q (Q_pop now a) = snd (pop_for_address now q a)"

lemma pop_loop_subset: "set (snd (pop_loop now a items s)) \<subseteq> set items"
  "length (snd (pop_loop now a items s)) \<le> length items"
proof (induction items arbitrary: s)
  case (Cons i items)
  have sub: "set (snd (pop_loop now a items s)) \<subseteq> set (i # items)" for s
    using Cons.IH(1) [of s] by auto
  have len: "length (snd (pop_loop now a items s)) \<le> length (i # items)" for s
    using Cons.IH(2) [of s] by simp
  {
    case 1
    then show ?case using sub by (simp add: case_prod_unfold Let_def)
  next
    case 2
    then show ?case using len Cons.IH(2) [of s] by (simp add: case_prod_unfold Let_def)
  }
qed simp_all

lemma queue_step_gated: "queue_gated safety q \<Longrightarrow> queue_gated safety (queue_step safety q op)"
proof (cases op)
  case (Q_enqueue now item)
  then show "queue_gated safety q \<Longrightarrow> ?thesis"
    by (simp add: queue_gated_def enqueue_def Let_def)
next
  case (Q_pop now a)
  then show "queue_gated safety q \<Longrightarrow> ?thesis"
    using pop_loop_subset [of now a "oq_items q" None]
    by (auto simp: queue_gated_def pop_for_address_def case_prod_unfold Let_def list_all_iff)
qed

interpretation gate: preserved "queue_step safety" "queue_gated safety" for safety
  by unfold_locales (rule queue_step_gated)

text \<open>
  Nothing unsafe ever waits in the queue, and it never grows beyond its bound: after any sequence of enqueue and pop
  operations under one safety context, every entry is one the safety gate allows.
\<close>

theorem queue_only_safe_items:
  "list_all (\<lambda>i. oi_simulator_only i \<and> upper (sx_environment safety) = ''LAB'')
     (oq_items (foldl (queue_step safety) \<lparr>oq_max_size = n, oq_items = []\<rparr> ops)) \<and>
   length (oq_items (foldl (queue_step safety) \<lparr>oq_max_size = n, oq_items = []\<rparr> ops)) \<le>
     oq_max_size (foldl (queue_step safety) \<lparr>oq_max_size = n, oq_items = []\<rparr> ops)"
proof -
  have "queue_gated safety \<lparr>oq_max_size = n, oq_items = []\<rparr>" by (simp add: queue_gated_def)
  from gate.run_preserves [OF this, of ops]
  have g: "queue_gated safety (foldl (queue_step safety) \<lparr>oq_max_size = n, oq_items = []\<rparr> ops)" .
  have "sd_allowed (evaluate_outbound_safety i safety) \<Longrightarrow>
      oi_simulator_only i \<and> upper (sx_environment safety) = ''LAB''" for i
    by (auto simp: evaluate_outbound_safety_def Let_def safety_if_def split: if_splits)
  with g show ?thesis by (auto simp: queue_gated_def list_all_iff)
qed

end
