(* ===== verification/Line_Stream.thy ===== *)
theory Line_Stream
  imports Line_Frame
begin

text \<open>
  \<open>protocol/dart/line/stream.py\<close>: the assembler that cuts an arbitrary byte stream
  into frames. It never loses a byte, never holds more than its bound, and delivers
  every frame in whose buffer no SF directly follows a DLE; a frame with such a pair
  is cut in two, unlike in \<open>frame_parser.py\<close>.
\<close>

datatype assembler_event_kind = AeFRAME | AeREJECTED | AeOVERFLOW | AeNOISE

datatype assembler_message =
    Noise_message
  | Parse_message parse_message
  | Assembled_message
  | Overflow_message nat

record assembler_event =
  ae_kind :: assembler_event_kind
  ae_raw :: bytes
  ae_frame :: "line_frame option"
  ae_error :: "parse_error option"
  ae_message :: assembler_message

record assembler =
  as_max_buffer :: nat
  as_buf :: bytes
  as_after_dle :: bool

definition new_assembler :: "nat \<Rightarrow> assembler result" where
  "new_assembler max_buffer =
    (if max_buffer < 3 then Inl ValueError
     else Inr \<lparr>as_max_buffer = max_buffer, as_buf = [], as_after_dle = False\<rparr>)"

definition default_assembler :: assembler where
  "default_assembler =
     \<lparr>as_max_buffer = MAX_BUFFER_SIZE * 2, as_buf = [], as_after_dle = False\<rparr>"

definition pending_size :: "assembler \<Rightarrow> nat" where
  "pending_size s = length (as_buf s) + (if as_after_dle s then 1 else 0)"

definition reset_assembler :: "assembler \<Rightarrow> assembler \<times> bytes" where
  "reset_assembler s = (s\<lparr>as_buf := [], as_after_dle := False\<rparr>, as_buf s)"

definition check_overflow :: "assembler \<Rightarrow> assembler \<times> assembler_event list" where
  "check_overflow s =
    (if pending_size s \<le> as_max_buffer s then (s, [])
     else let (s', discarded) = reset_assembler s in
       (s', [\<lparr>ae_kind = AeOVERFLOW, ae_raw = discarded, ae_frame = None, ae_error = None,
              ae_message = Overflow_message (as_max_buffer s)\<rparr>]))"

text \<open>The event for the bytes up to an SF that ends a frame candidate.\<close>

definition candidate_event :: "bytes \<Rightarrow> assembler_event" where
  "candidate_event raw =
    (if length raw < 3 then
       \<lparr>ae_kind = AeNOISE, ae_raw = raw, ae_frame = None, ae_error = None,
        ae_message = Noise_message\<rparr>
     else (case parse_frame raw None DEFAULT_CRC_CANDIDATE of
         Inl e \<Rightarrow> \<lparr>ae_kind = AeREJECTED, ae_raw = raw, ae_frame = None, ae_error = Some e,
                   ae_message = Parse_message (pe_message e)\<rparr>
       | Inr f \<Rightarrow> \<lparr>ae_kind = AeFRAME, ae_raw = raw, ae_frame = Some f, ae_error = None,
                   ae_message = Assembled_message\<rparr>))"

definition feed_byte :: "assembler \<Rightarrow> byte \<Rightarrow> assembler \<times> assembler_event list" where
  "feed_byte s b =
    (if as_after_dle s then
       check_overflow (s\<lparr>as_after_dle := False, as_buf := as_buf s @ [b]\<rparr>)
     else if b = DLE then
       check_overflow (s\<lparr>as_buf := as_buf s @ [DLE], as_after_dle := True\<rparr>)
     else let s1 = s\<lparr>as_buf := as_buf s @ [b]\<rparr> in
       if b \<noteq> SF then check_overflow s1
       else (s1\<lparr>as_buf := [], as_after_dle := False\<rparr>, [candidate_event (as_buf s1)]))"

fun feed :: "assembler \<Rightarrow> bytes \<Rightarrow> assembler \<times> assembler_event list" where
  "feed s [] = (s, [])"
| "feed s (b # bs) =
    (let (s1, es) = feed_byte s b; (s2, es') = feed s1 bs in (s2, es @ es'))"

section \<open>No byte is lost\<close>

lemma ae_raw_candidate [simp]: "ae_raw (candidate_event raw) = raw"
  by (simp add: candidate_event_def split: sum.split)

definition raws :: "assembler_event list \<Rightarrow> bytes" where
  "raws es = concat (map ae_raw es)"

lemma raws_simps [simp]: "raws [] = []" "raws (e # es) = ae_raw e @ raws es"
  "raws (es @ es') = raws es @ raws es'"
  by (simp_all add: raws_def)

lemma check_overflow_conserves:
  "check_overflow s = (s', es) \<Longrightarrow> raws es @ as_buf s' = as_buf s"
  by (auto simp: check_overflow_def reset_assembler_def split: if_splits)

lemma feed_byte_conserves:
  "feed_byte s b = (s', es) \<Longrightarrow> raws es @ as_buf s' = as_buf s @ [b]"
  by (auto simp: feed_byte_def Let_def dest: check_overflow_conserves split: if_splits)

lemma feed_append:
  "feed s (xs @ ys) =
    (let (s1, es) = feed s xs; (s2, es') = feed s1 ys in (s2, es @ es'))"
  by (induction xs arbitrary: s) (simp_all add: case_prod_unfold Let_def)

text \<open>
  The assembler loses nothing: whatever chunks arrive and whatever events come out,
  the bytes carried by the events followed by the bytes still buffered are exactly the
  bytes that were buffered before followed by the bytes fed.
\<close>

theorem assembler_conserves_bytes:
  "raws (snd (feed s data)) @ as_buf (fst (feed s data)) = as_buf s @ data"
proof (induction data arbitrary: s)
  case Nil
  then show ?case by simp
next
  case (Cons b bs)
  obtain s1 es where 1: "feed_byte s b = (s1, es)" by fastforce
  obtain s2 es' where 2: "feed s1 bs = (s2, es')" by fastforce
  have "raws es @ raws es' @ as_buf s2 = raws es @ as_buf s1 @ bs"
    using Cons.IH [of s1] 2 by simp
  also have "\<dots> = as_buf s @ b # bs" using feed_byte_conserves [OF 1] by (metis append_Cons append_Nil append_assoc)
  finally show ?case by (simp add: 1 2)
qed

section \<open>The buffer is bounded\<close>

definition within_bound :: "assembler \<Rightarrow> bool" where
  "within_bound s \<longleftrightarrow> pending_size s \<le> as_max_buffer s"

lemma check_overflow_bound: "within_bound (fst (check_overflow s))"
  by (auto simp: within_bound_def check_overflow_def reset_assembler_def pending_size_def)

text \<open>The reads of a transport, one chunk after another.\<close>

fun feed_chunks :: "assembler \<Rightarrow> bytes list \<Rightarrow> assembler \<times> assembler_event list" where
  "feed_chunks s [] = (s, [])"
| "feed_chunks s (c # cs) =
    (let (s1, es) = feed s c; (s2, es') = feed_chunks s1 cs in (s2, es @ es'))"

text \<open>
  C31. How a stream is cut into reads does not matter: feeding chunk by chunk is the same as feeding all the bytes at
  once, in state and in events, and no byte is lost on the way: the bytes of the events and those still buffered
  are those buffered before and those fed.
\<close>

theorem chunking_does_not_matter:
  "feed_chunks s chunks = feed s (concat chunks) \<and>
   raws (snd (feed_chunks s chunks)) @ as_buf (fst (feed_chunks s chunks)) = as_buf s @ concat chunks"
proof -
  have "feed_chunks s chunks = feed s (concat chunks)"
    by (induction chunks arbitrary: s) (simp_all add: feed_append case_prod_unfold Let_def)
  then show ?thesis by (simp add: assembler_conserves_bytes)
qed

definition feed_step :: "assembler \<Rightarrow> byte \<Rightarrow> assembler" where
  "feed_step s b = fst (feed_byte s b)"

lemma feed_is_run: "fst (feed s data) = foldl feed_step s data"
  by (induction data arbitrary: s) (simp_all add: feed_step_def case_prod_unfold Let_def)

lemma feed_step_bound: "within_bound (feed_step s b)"
proof -
  have "within_bound (s\<lparr>as_buf := [], as_after_dle := False\<rparr>)" for s
    by (simp add: within_bound_def pending_size_def)
  then show ?thesis
    by (simp add: feed_step_def feed_byte_def Let_def check_overflow_bound)
qed

interpretation stream_bound: preserved feed_step within_bound
  by unfold_locales (rule feed_step_bound)

text \<open>
  Whatever is fed, in whatever chunks, the assembler never holds more than
  \<open>max_buffer\<close> bytes, so a silent or noisy line cannot exhaust memory.
\<close>

theorem assembler_stays_bounded:
  assumes "pending_size s \<le> as_max_buffer s"
  shows "pending_size (fst (feed s data)) \<le> as_max_buffer (fst (feed s data))"
  using assms unfolding feed_is_run within_bound_def [symmetric]
  by (rule stream_bound.run_preserves)

theorem assembler_stays_bounded_witness:
  "pending_size (fst (feed default_assembler [0x01, 0x10])) \<le>
     as_max_buffer (fst (feed default_assembler [0x01, 0x10]))"
  by (rule assembler_stays_bounded) (simp add: default_assembler_def pending_size_def)

section \<open>Frames are delivered\<close>

text \<open>
  The DLE automaton inside \<open>feed_byte\<close>: \<open>None\<close> when an SF would end the frame, otherwise
  whether the last byte is a pending DLE.
\<close>

fun dle_state :: "bool \<Rightarrow> bytes \<Rightarrow> bool option" where
  "dle_state d [] = Some d"
| "dle_state True (b # bs) = dle_state False bs"
| "dle_state False (b # bs) =
    (if b = DLE then dle_state True bs else if b = SF then None else dle_state False bs)"

lemma feed_silent:
  "dle_state (as_after_dle s) w = Some d \<Longrightarrow> length (as_buf s) + length w < as_max_buffer s \<Longrightarrow>
   feed s w = (s\<lparr>as_buf := as_buf s @ w, as_after_dle := d\<rparr>, [])"
proof (induction w arbitrary: s)
  case Nil
  then show ?case by simp
next
  case (Cons b bs)
  have step: "feed_byte s b =
      (s\<lparr>as_buf := as_buf s @ [b], as_after_dle := (\<not> as_after_dle s \<and> b = DLE)\<rparr>, [])"
    using Cons.prems
    by (cases "as_after_dle s")
      (auto simp: feed_byte_def check_overflow_def pending_size_def Let_def split: if_splits)
  have "dle_state (\<not> as_after_dle s \<and> b = DLE) bs = Some d"
    using Cons.prems(1) by (cases "as_after_dle s") (auto split: if_splits)
  then show ?case
    using Cons.IH [of "s\<lparr>as_buf := as_buf s @ [b], as_after_dle := (\<not> as_after_dle s \<and> b = DLE)\<rparr>"]
      Cons.prems(2)
    by (simp add: step)
qed

lemma feed_candidate:
  assumes "dle_state False w = Some False" "length w < as_max_buffer s"
    "as_buf s = []" "\<not> as_after_dle s"
  shows "feed s (w @ [SF]) = (s, [candidate_event (w @ [SF])])"
proof -
  have "feed s w = (s\<lparr>as_buf := w, as_after_dle := False\<rparr>, [])"
    using feed_silent [of s w False] assms by simp
  moreover have "s\<lparr>as_buf := [], as_after_dle := False\<rparr> = s"
    using assms(3,4) by (cases s) simp
  ultimately show ?thesis
    by (simp add: feed_append feed_byte_def)
qed

text \<open>\<open>Some SF in the buffer directly follows a DLE\<close>, the pair the assembler mistakes.\<close>

fun dle_before_sf :: "bytes \<Rightarrow> bool" where
  "dle_before_sf (a # b # bs) \<longleftrightarrow> a = DLE \<and> b = SF \<or> dle_before_sf (b # bs)"
| "dle_before_sf _ \<longleftrightarrow> False"

lemma dle_before_sf_Cons_DLE:
  "\<not> dle_before_sf (DLE # bs) \<Longrightarrow> bs \<noteq> [] \<Longrightarrow> hd bs \<noteq> SF"
  by (cases bs) auto

lemma dle_before_sf_tl: "\<not> dle_before_sf (b # bs) \<Longrightarrow> \<not> dle_before_sf bs"
  by (cases bs) auto

lemma dle_state_escape:
  "\<not> dle_before_sf x \<Longrightarrow> x = [] \<or> last x \<noteq> DLE \<Longrightarrow>
     dle_state False (escape_dle x) = Some False \<and>
     (x \<noteq> [] \<longrightarrow> hd x \<noteq> SF \<longrightarrow> dle_state True (escape_dle x) = Some False)"
proof (induction x)
  case Nil
  then show ?case by simp
next
  case (Cons b bs)
  have IH: "dle_state False (escape_dle bs) = Some False"
    "bs \<noteq> [] \<Longrightarrow> hd bs \<noteq> SF \<Longrightarrow> dle_state True (escape_dle bs) = Some False"
    using Cons.IH dle_before_sf_tl [OF Cons.prems(1)] Cons.prems(2) by (cases "bs = []"; auto)+
  show ?case
  proof (cases "b = DLE")
    case True
    with Cons.prems have ne: "bs \<noteq> []" by auto
    with Cons.prems True have "hd bs \<noteq> SF"
      using dle_before_sf_Cons_DLE [of bs] by blast
    with ne IH True show ?thesis by simp
  next
    case False
    with IH show ?thesis by simp
  qed
qed

lemma count_le_butlast: "x \<noteq> [] \<Longrightarrow> last x \<noteq> SF \<Longrightarrow> count_list x SF < length x"
proof (induction x)
  case (Cons b bs)
  then show ?case using count_le_length [of bs SF] by (cases "bs = []") auto
qed simp

lemma feed_escaped_buffer:
  assumes "\<not> dle_before_sf x" "last x \<noteq> DLE" "last x \<noteq> SF" "x \<noteq> []"
    "2 * length x \<le> as_max_buffer s"
    "as_buf s = []" "\<not> as_after_dle s"
  shows "feed s (escape_dle x @ [SF]) = (s, [candidate_event (escape_dle x @ [SF])])"
proof (rule feed_candidate)
  show "dle_state False (escape_dle x) = Some False"
    using dle_state_escape [OF assms(1)] assms(2) by simp
  show "length (escape_dle x) < as_max_buffer s"
    using count_le_butlast [of x] assms by (simp add: length_escape_dle)
qed (use assms in simp_all)

lemma feed_deliverable_frames:
  assumes "\<And>x. x \<in> set xs \<Longrightarrow> \<not> dle_before_sf x \<and> last x \<noteq> DLE \<and> last x \<noteq> SF \<and> x \<noteq> [] \<and>
      2 * length x \<le> as_max_buffer s"
    and "as_buf s = []" "\<not> as_after_dle s"
  shows "feed s (concat (map (\<lambda>x. escape_dle x @ [SF]) xs)) =
    (s, map (\<lambda>x. candidate_event (escape_dle x @ [SF])) xs)"
  using assms
proof (induction xs)
  case (Cons x xs)
  then have "feed s (escape_dle x @ [SF]) = (s, [candidate_event (escape_dle x @ [SF])])"
    by (intro feed_escaped_buffer) simp_all
  note x = this
  have "feed s (concat (map (\<lambda>x. escape_dle x @ [SF]) xs)) =
      (s, map (\<lambda>x. candidate_event (escape_dle x @ [SF])) xs)"
    using Cons by simp
  note xs = this
  have "feed s (concat (map (\<lambda>x. escape_dle x @ [SF]) (x # xs))) =
      feed s ((escape_dle x @ [SF]) @ concat (map (\<lambda>x. escape_dle x @ [SF]) xs))"
    by (simp only: list.map concat.simps)
  also have "\<dots> = (s, candidate_event (escape_dle x @ [SF]) #
      map (\<lambda>x. candidate_event (escape_dle x @ [SF])) xs)"
    by (subst feed_append) (simp only: x prod.case Let_def xs append.simps)
  finally show ?case by (simp only: list.map)
qed simp

lemma data_wire_buffer:
  assumes "build_data_frame a s p None k = Inr wire" "unescape_dle (butlast wire) = Inr x"
  shows "wire = escape_dle x @ [SF]" "last x = ETX" "x \<noteq> []" "length x \<le> MAX_BUFFER_SIZE"
    "length x = length p + 5"
proof -
  have g: "0 \<le> a" "a \<le> 255" "0 \<le> s" "s \<le> 15" "length p \<le> max_payload"
    using build_data_frame_Inr_guards [OF assms(1)] by simp_all
  obtain c lo hi where "compose_control CtDATA s = Inr c"
    "crc_bytes_le (get_crc_fn k ([byte_of_int a, byte_of_int c] @ p)) = Inr [lo, hi]"
    and w0: "build_data_frame a s p None k =
      Inr (escape_dle ([byte_of_int a, byte_of_int c] @ p @ [lo, hi, ETX]) @ [SF])"
    by (rule build_data_frame_Inr [OF g, of k])
  have w: "wire = escape_dle ([byte_of_int a, byte_of_int c] @ p @ [lo, hi, ETX]) @ [SF]"
    using assms(1) unfolding w0 by (simp only: sum.inject)
  have "unescape_dle (escape_dle ([byte_of_int a, byte_of_int c] @ p @ [lo, hi, ETX])) =
      Inr ([byte_of_int a, byte_of_int c] @ p @ [lo, hi, ETX])"
    by (rule unescape_escape) simp
  with assms(2) have "x = [byte_of_int a, byte_of_int c] @ p @ [lo, hi, ETX]"
    unfolding w by (simp only: butlast_snoc sum.inject)
  with w g show "wire = escape_dle x @ [SF]" "last x = ETX" "x \<noteq> []" "length x \<le> MAX_BUFFER_SIZE"
    "length x = length p + 5"
    by (simp_all add: max_payload_def line_consts)
qed

definition frame_event :: "bytes \<Rightarrow> line_frame \<Rightarrow> assembler_event" where
  "frame_event wire f = \<lparr>ae_kind = AeFRAME, ae_raw = wire, ae_frame = Some f, ae_error = None,
     ae_message = Assembled_message\<rparr>"

text \<open>
  Delivery: fed to an idle assembler in any chunks, the wire image of a DATA frame
  whose unescaped buffer has no SF directly after a DLE yields exactly one event, a frame
  with the sender's address, sequence number and payload and a valid CRC, and leaves
  the assembler idle.
\<close>

theorem stream_delivers_data_frame:
  assumes built: "build_data_frame a s p None DEFAULT_CRC_CANDIDATE = Inr (chunk1 @ chunk2)"
    and buffer: "unescape_dle (butlast (chunk1 @ chunk2)) = Inr x"
    and safe: "\<not> dle_before_sf x"
    and idle: "as_buf st = []" "\<not> as_after_dle st" "2 * MAX_BUFFER_SIZE \<le> as_max_buffer st"
  shows "\<exists>f. snd (feed st chunk1) @ snd (feed (fst (feed st chunk1)) chunk2) =
      [frame_event (chunk1 @ chunk2) f] \<and>
    fst (feed (fst (feed st chunk1)) chunk2) = st \<and>
    is_data_frame_of f a s p (chunk1 @ chunk2)"
proof -
  let ?wire = "chunk1 @ chunk2"
  note x = data_wire_buffer [OF built buffer]
  obtain f where f: "parse_frame ?wire None DEFAULT_CRC_CANDIDATE = Inr f" "is_data_frame_of f a s p ?wire"
    using data_frame_parses [of a s p DEFAULT_CRC_CANDIDATE] build_data_frame_Inr_guards [OF built] built
    by auto
  have "3 \<le> length ?wire" unfolding x(1) using x(5) by (simp add: length_escape_dle)
  with f have ev: "candidate_event ?wire = frame_event ?wire f"
    by (simp add: candidate_event_def frame_event_def)
  have "feed st ?wire = (st, [candidate_event ?wire])"
    unfolding x(1) using x(2-4) safe idle by (intro feed_escaped_buffer) simp_all
  with ev f(2) show ?thesis by (auto simp: feed_append case_prod_unfold Let_def)
qed

theorem stream_delivers_data_frame_witness:
  "\<exists>f. snd (feed default_assembler [0x01, 0x30, 0x01, 0x01]) @
      snd (feed (fst (feed default_assembler [0x01, 0x30, 0x01, 0x01])) [0x05, 0xA2, 0x93, 0x03, 0xFA]) =
      [frame_event ([0x01, 0x30, 0x01, 0x01] @ [0x05, 0xA2, 0x93, 0x03, 0xFA]) f] \<and>
    fst (feed (fst (feed default_assembler [0x01, 0x30, 0x01, 0x01])) [0x05, 0xA2, 0x93, 0x03, 0xFA]) =
      default_assembler \<and>
    is_data_frame_of f 1 0 [0x01, 0x01, 0x05] ([0x01, 0x30, 0x01, 0x01] @ [0x05, 0xA2, 0x93, 0x03, 0xFA])"
proof (rule stream_delivers_data_frame)
  have crc: "get_crc_fn DART_IBM_ANSI_INIT_0000 [0x01, 0x30, 0x01, 0x01, 0x05] = 0x93A2"
    by (simp add: crc_eval)
  have "compose_control CtDATA 0 = Inr 0x30"
    by (simp add: compose_control_def DATA_BASE_def)
  moreover have "crc_bytes_le 0x93A2 = Inr [0xA2, 0x93]"
    by (simp add: crc_bytes_le_def)
  ultimately show "build_data_frame 1 0 [0x01, 0x01, 0x05] None DEFAULT_CRC_CANDIDATE =
      Inr ([0x01, 0x30, 0x01, 0x01] @ [0x05, 0xA2, 0x93, 0x03, 0xFA])"
    by (simp add: build_data_frame_def validate_address_def select_crc_def crc line_consts
        DEFAULT_CRC_CANDIDATE_def del: get_crc_fn.simps)
  show "unescape_dle (butlast ([0x01, 0x30, 0x01, 0x01] @ [0x05, 0xA2, 0x93, 0x03, 0xFA])) =
      Inr [0x01, 0x30, 0x01, 0x01, 0x05, 0xA2, 0x93, 0x03]"
    by (simp add: line_consts)
qed (simp_all add: line_consts default_assembler_def)

text \<open>
  The exception to delivery: when a DLE that no other DLE precedes is followed by an SF
  in the buffer, the escaped image reads DLE DLE SF there, which the assembler takes as an
  escaped DLE and a terminator. The first event is a rejection of the truncated head, so the
  frame, which \<open>parse_frame\<close> accepts whole, is lost on the stream.
\<close>

theorem stream_splits_dle_sf:
  assumes "DLE \<notin> set pre" "SF \<notin> set pre" "pre \<noteq> []" "length pre + 2 < as_max_buffer st"
    and "as_buf st = []" "\<not> as_after_dle st"
  shows "\<exists>err rest. snd (feed st (escape_dle (pre @ [DLE, SF] @ post) @ [SF])) =
      \<lparr>ae_kind = AeREJECTED, ae_raw = pre @ [DLE, DLE, SF], ae_frame = None, ae_error = Some err,
       ae_message = Parse_message Final_SF_escaped\<rparr> # rest \<and> pe_code err = INVALID_TERMINATOR"
proof -
  have esc: "escape_dle pre = pre" using assms(2) by (induction pre) auto
  have pre: "dle_state False (pre @ ys) = dle_state False ys" for ys
    using assms(1,2) by (induction pre) auto
  have "dle_state False (pre @ [DLE, DLE]) = Some False" unfolding pre by simp
  then have "feed st ((pre @ [DLE, DLE]) @ [SF]) = (st, [candidate_event ((pre @ [DLE, DLE]) @ [SF])])"
    using assms(4-6) by (intro feed_candidate) simp_all
  then have 1: "feed st (pre @ [DLE, DLE, SF]) = (st, [candidate_event (pre @ [DLE, DLE, SF])])"
    by simp
  have "(pre @ [DLE, DLE, SF]) ! (length (pre @ [DLE, DLE, SF]) - 2) = DLE"
    by (simp add: nth_append)
  then have bad: "parse_frame (pre @ [DLE, DLE, SF]) None DEFAULT_CRC_CANDIDATE =
      Inl \<lparr>pe_code = INVALID_TERMINATOR, pe_message = Final_SF_escaped, pe_raw = pre @ [DLE, DLE, SF]\<rparr>"
    by (simp add: parse_frame_def DLE_def)
  have "escape_dle (pre @ [DLE, SF] @ post) @ [SF] = (pre @ [DLE, DLE, SF]) @ escape_dle post @ [SF]"
    using esc by simp
  then have "snd (feed st (escape_dle (pre @ [DLE, SF] @ post) @ [SF])) =
      candidate_event (pre @ [DLE, DLE, SF]) # snd (feed st (escape_dle post @ [SF]))"
    using feed_append [of st "pre @ [DLE, DLE, SF]" "escape_dle post @ [SF]"]
    by (simp only: 1) (simp add: case_prod_unfold Let_def)
  then show ?thesis by (simp add: candidate_event_def bad)
qed

theorem stream_splits_dle_sf_witness:
  "\<exists>err rest. snd (feed default_assembler (escape_dle ([0x01, 0x30] @ [DLE, SF] @ [0x00, 0x00, ETX]) @ [SF])) =
      \<lparr>ae_kind = AeREJECTED, ae_raw = [0x01, 0x30] @ [DLE, DLE, SF], ae_frame = None, ae_error = Some err,
       ae_message = Parse_message Final_SF_escaped\<rparr> # rest \<and> pe_code err = INVALID_TERMINATOR"
  by (rule stream_splits_dle_sf) (simp_all add: default_assembler_def line_consts)

end
