(* ===== verification/Ctl_Session.thy ===== *)
theory Ctl_Session
  imports Pump_Mapper Ctl_Outbound Sim_Pump Line_Stream
begin

text \<open>
  \<open>controller/session_events.py\<close>, the session records of \<open>controller/session_models.py\<close> and
  \<open>controller/pump_session.py\<close>: one DART address as the controller sees it. A subscriber of the event bus is code outside
  the session: a function of the events published so far that says whether the call raised. The bus is shared
  by the sessions of a controller; a session carries it, and whoever runs a session hands it over. The clock is read once per
  call, as the argument \<open>now\<close>. Prose (details, the last error) is a constructor with the values it quotes.
\<close>

section \<open>Events\<close>

datatype controller_event_type =
    FRAME_SENT | FRAME_RECEIVED | FRAME_REJECTED | POLL_SENT | DATA_RECEIVED | EOT_RECEIVED | ACK_SENT
  | NAK_RECEIVED | RESPONSE_TIMEOUT | PUMP_CONNECTED | PUMP_DISCONNECTED | STATE_CHANGED
  | APPLICATION_TRANSACTION_DECODED

datatype event_detail =
    Empty_detail
  | Consecutive_detail nat
  | Control_detail control_type
  | Sequence_detail int
  | Invalid_crc_detail
  | Duplicate_detail
  | Sequence_mismatch_detail int int
  | Transaction_detail transaction_type
  | State_change_detail pump_state pump_state
  | Note_detail string
  | Assembler_detail assembler_event_kind

record decoded_summary =
  du_status :: decode_status
  du_direction :: message_direction
  du_type :: transaction_type
  du_id :: int
  du_source :: "string option"
  du_raw_volume :: "int option"
  du_volume_decimals :: "int option"
  du_raw_amount :: "int option"
  du_amount_decimals :: "int option"
  du_raw_price :: "int option"
  du_price_decimals :: "int option"

record state_summary =
  sy_event :: pump_event
  sy_previous :: pump_state
  sy_state :: pump_state
  sy_version :: nat
  sy_nozzle :: "int option"
  sy_transaction :: "string option"
  sy_healthy :: bool
  sy_raw_status :: "int option"
  sy_source :: "string option"
  sy_completion_key :: "string option"

datatype event_payload =
  No_payload | Raw_hex_payload string | Decoded_payload decoded_summary | State_payload state_summary

record controller_event =
  ce_type :: controller_event_type
  ce_address :: "int option"
  ce_timestamp :: "int option"
  ce_detail :: event_detail
  ce_payload :: event_payload

type_synonym subscriber = "controller_event list \<Rightarrow> py_error option"

record event_bus =
  eb_events :: "controller_event list"
  eb_subscribers :: "(nat \<times> subscriber) list"

text \<open>A subscriber is told apart by the number of its object.\<close>

definition new_bus :: event_bus where
  "new_bus = \<lparr>eb_events = [], eb_subscribers = []\<rparr>"

definition add_subscriber :: "nat \<Rightarrow> subscriber \<Rightarrow> event_bus \<Rightarrow> event_bus" where
  "add_subscriber k f b = b\<lparr>eb_subscribers := eb_subscribers b @ [(k, f)]\<rparr>"

definition remove_subscriber :: "nat \<Rightarrow> event_bus \<Rightarrow> event_bus" where
  "remove_subscriber k b = b\<lparr>eb_subscribers := filter (\<lambda>(i, f). i \<noteq> k) (eb_subscribers b)\<rparr>"

fun notify :: "controller_event list \<Rightarrow> (nat \<times> subscriber) list \<Rightarrow> unit result" where
  "notify history [] = Inr ()"
| "notify history ((k, f) # fs) = (case f history of Some e \<Rightarrow> Inl e | None \<Rightarrow> notify history fs)"

definition publish :: "controller_event \<Rightarrow> (event_bus, unit) action" where
  "publish e b =
    (let history = eb_events b @ [e] in (notify history (eb_subscribers b), b\<lparr>eb_events := history\<rparr>))"

definition clear_events :: "event_bus \<Rightarrow> event_bus" where
  "clear_events b = b\<lparr>eb_events := []\<rparr>"

definition of_type :: "controller_event_type \<Rightarrow> event_bus \<Rightarrow> controller_event list" where
  "of_type ty b = filter (\<lambda>e. ce_type e = ty) (eb_events b)"

section \<open>The session\<close>

datatype communication_health = Comm_UNKNOWN | Comm_HEALTHY | Comm_DEGRADED | Comm_DISCONNECTED

datatype session_error =
    Error_response_timeout
  | Error_address_mismatch
  | Error_unexpected_control control_type
  | Error_nak_seq int
  | Error_invalid_crc
  | Error_seq_mismatch int int
  | Error_response_address int
  | Error_poll py_error

record session_stats =
  st_poll_count :: nat
  st_eot_count :: nat
  st_data_count :: nat
  st_ack_sent_count :: nat
  st_nak_count :: nat
  st_timeout_count :: nat
  st_crc_error_count :: nat
  st_duplicate_count :: nat
  st_sequence_error_count :: nat
  st_retry_count :: nat

record pump_session =
  cs_address :: int
  cs_pump_id :: string
  cs_tx_sequence :: int
  cs_expected_rx :: int
  cs_last_accepted_rx :: "int option"
  cs_last_poll_at :: "int option"
  cs_last_response_at :: "int option"
  cs_communication :: communication_health
  cs_consecutive_timeouts :: nat
  cs_last_valid_frame :: "bytes option"
  cs_last_raw_frame :: "bytes option"
  cs_last_error :: "session_error option"
  cs_pending_ack :: "int option"
  cs_last_state :: pump_state
  cs_stats :: session_stats
  cs_policy :: sequence_policy
  cs_context :: pump_context
  cs_completion_keys :: "string set"
  cs_bus :: event_bus

definition zero_stats :: session_stats where
  "zero_stats = \<lparr>st_poll_count = 0, st_eot_count = 0, st_data_count = 0, st_ack_sent_count = 0, st_nak_count = 0,
     st_timeout_count = 0, st_crc_error_count = 0, st_duplicate_count = 0, st_sequence_error_count = 0,
     st_retry_count = 0\<rparr>"

definition new_pump_session :: "int \<Rightarrow> string \<Rightarrow> event_bus \<Rightarrow> sequence_policy \<Rightarrow> pump_session" where
  "new_pump_session address pid bus policy =
    \<lparr>cs_address = address, cs_pump_id = pid, cs_tx_sequence = 0, cs_expected_rx = 0, cs_last_accepted_rx = None,
     cs_last_poll_at = None, cs_last_response_at = None, cs_communication = Comm_UNKNOWN,
     cs_consecutive_timeouts = 0, cs_last_valid_frame = None, cs_last_raw_frame = None, cs_last_error = None,
     cs_pending_ack = None, cs_last_state = DISCONNECTED, cs_stats = zero_stats, cs_policy = policy,
     cs_context = new_context pid address, cs_completion_keys = {}, cs_bus = bus\<rparr>"

definition count_stat :: "(session_stats \<Rightarrow> session_stats) \<Rightarrow> pump_session \<Rightarrow> pump_session" where
  "count_stat g s = s\<lparr>cs_stats := g (cs_stats s)\<rparr>"

definition set_error :: "session_error \<Rightarrow> pump_session \<Rightarrow> pump_session" where
  "set_error e s = s\<lparr>cs_last_error := Some e\<rparr>"

text \<open>\<open>self.events.publish(ControllerEvent(type, address, now, detail, payload))\<close>.\<close>

definition publish_event ::
  "int \<Rightarrow> controller_event_type \<Rightarrow> event_detail \<Rightarrow> event_payload \<Rightarrow> (pump_session, unit) action" where
  "publish_event now ty detail payload s =
    (case publish \<lparr>ce_type = ty, ce_address = Some (cs_address s), ce_timestamp = Some now, ce_detail = detail,
           ce_payload = payload\<rparr> (cs_bus s) of (r, b) \<Rightarrow> (r, s\<lparr>cs_bus := b\<rparr>))"

section \<open>State changes\<close>

definition publish_state_changed ::
  "int \<Rightarrow> pump_state \<Rightarrow> pump_state \<Rightarrow> pump_event \<Rightarrow> pump_context \<Rightarrow> string option \<Rightarrow> (pump_session, unit) action" where
  "publish_state_changed now before after ev ctx key =
    publish_event now STATE_CHANGED (State_change_detail before after)
      (State_payload \<lparr>sy_event = ev, sy_previous = before, sy_state = after, sy_version = pc_state_version ctx,
         sy_nozzle = pc_selected_nozzle ctx, sy_transaction = pc_active_transaction ctx,
         sy_healthy = pc_communication_healthy ctx, sy_raw_status = pc_last_raw_status ctx,
         sy_source = pc_last_source_hex ctx, sy_completion_key = key\<rparr>)"

definition apply_sm :: "int \<Rightarrow> pump_event \<Rightarrow> (pump_session, unit) action" where
  "apply_sm now ev = read_act (\<lambda>s.
    let before = pc_current_state (cs_context s);
        r = apply_event (cs_context s) ev no_args;
        after = pc_current_state (tr_context r)
    in then_act (modify_act (\<lambda>s. s\<lparr>cs_context := tr_context r, cs_last_state := after\<rparr>))
         (if before \<noteq> after then publish_state_changed now before after ev (tr_context r) None else return_act ()))"

text \<open>The keyword arguments of \<open>_apply_mapped\<close>: no fault code, no observation time.\<close>

definition session_args :: "mapped_observation \<Rightarrow> apply_args" where
  "session_args m = no_args\<lparr>ap_observation := Some (mp_observation m), ap_selected_nozzle := mp_selected_nozzle m,
     ap_raw_status := mp_raw_status m, ap_completion_key := mp_completion_key m, ap_allow_implicit := mp_allow_implicit m\<rparr>"

definition apply_mapped_session :: "int \<Rightarrow> mapped_observation \<Rightarrow> (pump_session, unit) action" where
  "apply_mapped_session now m = read_act (\<lambda>s.
    if truthy_string (mp_completion_key m) \<and> the (mp_completion_key m) \<in> cs_completion_keys s then return_act ()
    else
      let before = pc_current_state (cs_context s);
          r = apply_event (cs_context s) (mp_event m) (session_args m);
          after = pc_current_state (tr_context r);
          keys = (if truthy_string (mp_completion_key m) \<and> tr_accepted r \<and> \<not> tr_noop r
                  then insert (the (mp_completion_key m)) (cs_completion_keys s) else cs_completion_keys s)
      in then_act (modify_act (\<lambda>s. s\<lparr>cs_context := tr_context r, cs_last_state := after, cs_completion_keys := keys\<rparr>))
           (if before \<noteq> after
            then publish_state_changed now before after (mp_event m) (tr_context r) (mp_completion_key m)
            else return_act ()))"

definition set_communication :: "int \<Rightarrow> communication_health \<Rightarrow> (pump_session, unit) action" where
  "set_communication now health = read_act (\<lambda>s.
    let prev = cs_communication s in
    then_act (modify_act (\<lambda>s. s\<lparr>cs_communication := health\<rparr>))
      (if prev = health then return_act ()
       else then_act
         (if health = Comm_HEALTHY \<and> prev \<in> {Comm_UNKNOWN, Comm_DISCONNECTED, Comm_DEGRADED}
          then publish_event now PUMP_CONNECTED Empty_detail No_payload else return_act ())
         (if health = Comm_DISCONNECTED
          then publish_event now PUMP_DISCONNECTED Empty_detail No_payload else return_act ())))"

text \<open>Both valid responses: the pump is healthy, and a disconnected machine starts discovering.\<close>

definition start_if_disconnected :: "int \<Rightarrow> (pump_session, unit) action" where
  "start_if_disconnected now = read_act (\<lambda>s.
    if pc_current_state (cs_context s) = DISCONNECTED then apply_sm now COMMUNICATION_STARTED else return_act ())"

section \<open>Polling and timeouts\<close>

definition session_build_poll :: "int \<Rightarrow> (pump_session, bytes) action" where
  "session_build_poll now =
    then_act (modify_act (\<lambda>s. (count_stat (\<lambda>t. t\<lparr>st_poll_count := st_poll_count t + 1\<rparr>) s)\<lparr>cs_last_poll_at := Some now\<rparr>))
      (then_act (publish_event now POLL_SENT Empty_detail No_payload)
        (read_act (\<lambda>s. result_act (build_poll (cs_address s)))))"

definition on_timeout :: "int \<Rightarrow> int \<Rightarrow> (pump_session, unit) action" where
  "on_timeout now max_consecutive =
    then_act (modify_act (\<lambda>s. set_error Error_response_timeout
        ((count_stat (\<lambda>t. t\<lparr>st_timeout_count := st_timeout_count t + 1\<rparr>) s)
           \<lparr>cs_consecutive_timeouts := cs_consecutive_timeouts s + 1\<rparr>)))
      (read_act (\<lambda>s.
        then_act (publish_event now RESPONSE_TIMEOUT (Consecutive_detail (cs_consecutive_timeouts s)) No_payload)
          (if int (cs_consecutive_timeouts s) \<ge> max_consecutive
           then then_act (set_communication now Comm_DISCONNECTED) (apply_sm now COMMUNICATION_LOST)
           else if cs_consecutive_timeouts s \<ge> 2 then set_communication now Comm_DEGRADED
           else return_act ())))"

section \<open>Decoding\<close>

fun body_volume :: "decoded_body \<Rightarrow> scaled_bcd option" where
  "body_volume (Filled_body volume amount) = Some volume"
| "body_volume _ = None"

fun body_amount :: "decoded_body \<Rightarrow> scaled_bcd option" where
  "body_amount (Filled_body volume amount) = Some amount"
| "body_amount _ = None"

fun body_price :: "decoded_body \<Rightarrow> scaled_bcd option" where
  "body_price (Nozzle_price_body price nozio nozzle nozzle_out alt) = Some price"
| "body_price _ = None"

definition summary_of :: "application_transaction \<Rightarrow> decoded_summary" where
  "summary_of tx =
    (let get = (\<lambda>field. Option.bind (at_body tx) field);
         volume = get body_volume; amount = get body_amount; price = get body_price
     in \<lparr>du_status = at_status tx, du_direction = at_direction tx, du_type = at_type tx, du_id = at_id tx,
         du_source = at_source_hex tx,
         du_raw_volume = map_option sb_scaled volume, du_volume_decimals = Option.bind volume sb_decimals,
         du_raw_amount = map_option sb_scaled amount, du_amount_decimals = Option.bind amount sb_decimals,
         du_raw_price = map_option sb_scaled price, du_price_decimals = Option.bind price sb_decimals\<rparr>)"

definition session_mapper_context :: "pump_session \<Rightarrow> application_transaction \<Rightarrow> mapper_context" where
  "session_mapper_context s tx = default_mapper_context
     \<lparr>mx_current_state := Some (pc_current_state (cs_context s)),
      mx_previous_status := pc_last_raw_status (cs_context s),
      mx_resolve_dc1 := (at_id tx = 0x01), mx_resolve_dc3 := (at_id tx = 0x03),
      mx_bus_direction := Some (at_direction tx)\<rparr>"

definition apply_transaction :: "int \<Rightarrow> application_transaction \<Rightarrow> (pump_session, unit) action" where
  "apply_transaction now tx =
    then_act (publish_event now APPLICATION_TRANSACTION_DECODED (Transaction_detail (at_type tx))
        (Decoded_payload (summary_of tx)))
      (read_act (\<lambda>s. apply_mapped_session now (map_wayne_observation tx (session_mapper_context s tx))))"

fun apply_transactions :: "int \<Rightarrow> application_transaction list \<Rightarrow> (pump_session, unit) action" where
  "apply_transactions now [] = return_act ()"
| "apply_transactions now (tx # txs) = then_act (apply_transaction now tx) (apply_transactions now txs)"

definition frame_decode_args :: "int \<Rightarrow> line_frame \<Rightarrow> decode_args" where
  "frame_decode_args address frame =
    \<lparr>da_pump_address = Some address, da_line_sequence = Some (lf_sequence frame),
     da_source_hex = Some (hex_text (lf_raw_frame frame)), da_volume_decimals = None, da_amount_decimals = None,
     da_price_decimals = None\<rparr>"

definition decode_and_apply :: "int \<Rightarrow> line_frame \<Rightarrow> (pump_session, unit) action" where
  "decode_and_apply now frame = read_act (\<lambda>s.
    bind_act (result_act (decode_data_payload (lf_payload frame) (frame_decode_args (cs_address s) frame)))
      (\<lambda>bundle. apply_transactions now (db_transactions bundle)))"

section \<open>Responses\<close>

definition on_eot :: "int \<Rightarrow> line_frame \<Rightarrow> (pump_session, bytes option) action" where
  "on_eot now frame =
    then_act (modify_act (\<lambda>s. (count_stat (\<lambda>t. t\<lparr>st_eot_count := st_eot_count t + 1\<rparr>) s)
        \<lparr>cs_consecutive_timeouts := 0, cs_last_valid_frame := cs_last_raw_frame s\<rparr>))
      (then_act (set_communication now Comm_HEALTHY)
        (then_act (start_if_disconnected now)
          (then_act (publish_event now EOT_RECEIVED Empty_detail No_payload) (return_act None))))"

definition on_nak :: "int \<Rightarrow> line_frame \<Rightarrow> (pump_session, bytes option) action" where
  "on_nak now frame =
    then_act (modify_act (\<lambda>s. set_error (Error_nak_seq (lf_sequence frame))
        (count_stat (\<lambda>t. t\<lparr>st_nak_count := st_nak_count t + 1, st_retry_count := st_retry_count t + 1\<rparr>) s)))
      (then_act (publish_event now NAK_RECEIVED (Sequence_detail (lf_sequence frame)) No_payload) (return_act None))"

definition count_ack :: "pump_session \<Rightarrow> pump_session" where
  "count_ack = count_stat (\<lambda>t. t\<lparr>st_ack_sent_count := st_ack_sent_count t + 1\<rparr>)"

definition reject_data ::
  "int \<Rightarrow> session_error \<Rightarrow> event_detail \<Rightarrow> (session_stats \<Rightarrow> session_stats) \<Rightarrow> (pump_session, bytes option) action" where
  "reject_data now err detail count =
    then_act (modify_act (\<lambda>s. set_error err (count_stat count s)))
      (then_act (publish_event now FRAME_REJECTED detail No_payload) (return_act None))"

definition repeat_ack :: "int \<Rightarrow> int \<Rightarrow> (pump_session, bytes option) action" where
  "repeat_ack now sequence =
    then_act (modify_act (count_stat (\<lambda>t. t\<lparr>st_duplicate_count := st_duplicate_count t + 1\<rparr>)))
      (bind_act (read_act (\<lambda>s. result_act (build_ack (cs_address s) sequence))) (\<lambda>ack.
        then_act (modify_act count_ack)
          (then_act (publish_event now ACK_SENT Duplicate_detail No_payload) (return_act (Some ack)))))"

text \<open>A DATA frame in sequence: its content is applied, then its sequence number is recorded and acknowledged.\<close>

definition observe_data :: "int \<Rightarrow> line_frame \<Rightarrow> (pump_session, unit) action" where
  "observe_data now frame =
    then_act (modify_act (\<lambda>s. (count_stat (\<lambda>t. t\<lparr>st_data_count := st_data_count t + 1\<rparr>) s)
        \<lparr>cs_consecutive_timeouts := 0, cs_last_valid_frame := Some (lf_raw_frame frame)\<rparr>))
      (then_act (set_communication now Comm_HEALTHY)
        (then_act (start_if_disconnected now) (decode_and_apply now frame)))"

definition record_data :: "int \<Rightarrow> line_frame \<Rightarrow> (pump_session, bytes option) action" where
  "record_data now frame =
    then_act (modify_act (\<lambda>s. s\<lparr>cs_last_accepted_rx := Some (lf_sequence frame)\<rparr>))
      (bind_act (read_act (\<lambda>s. result_act (next_sequence (lf_sequence frame) (cs_policy s)))) (\<lambda>next_seq.
       then_act (modify_act (\<lambda>s. s\<lparr>cs_expected_rx := next_seq\<rparr>))
      (bind_act (read_act (\<lambda>s. result_act (build_ack (cs_address s) (lf_sequence frame)))) (\<lambda>ack.
       then_act (modify_act count_ack)
      (then_act (publish_event now DATA_RECEIVED (Sequence_detail (lf_sequence frame)) No_payload)
      (then_act (publish_event now ACK_SENT (Sequence_detail (lf_sequence frame)) No_payload)
       (return_act (Some ack))))))))"

definition accept_data :: "int \<Rightarrow> line_frame \<Rightarrow> (pump_session, bytes option) action" where
  "accept_data now frame = then_act (observe_data now frame) (record_data now frame)"

definition on_data :: "int \<Rightarrow> line_frame \<Rightarrow> (pump_session, bytes option) action" where
  "on_data now frame = read_act (\<lambda>s.
    if lf_crc_valid frame = Some False
    then reject_data now Error_invalid_crc Invalid_crc_detail (\<lambda>t. t\<lparr>st_crc_error_count := st_crc_error_count t + 1\<rparr>)
    else if cs_last_accepted_rx s = Some (lf_sequence frame) then repeat_ack now (lf_sequence frame)
    else if lf_sequence frame \<noteq> cs_expected_rx s
    then reject_data now (Error_seq_mismatch (cs_expected_rx s) (lf_sequence frame))
      (Sequence_mismatch_detail (cs_expected_rx s) (lf_sequence frame))
      (\<lambda>t. t\<lparr>st_sequence_error_count := st_sequence_error_count t + 1\<rparr>)
    else accept_data now frame)"

definition handle_response_frame :: "int \<Rightarrow> line_frame \<Rightarrow> (pump_session, bytes option) action" where
  "handle_response_frame now frame =
    then_act (modify_act (\<lambda>s. s\<lparr>cs_last_raw_frame := Some (lf_raw_frame frame), cs_last_response_at := Some now\<rparr>))
      (then_act (publish_event now FRAME_RECEIVED (Control_detail (lf_control_type frame))
          (Raw_hex_payload (hex_text (lf_raw_frame frame))))
        (read_act (\<lambda>s.
          if lf_address frame \<noteq> cs_address s
          then then_act (modify_act (set_error Error_address_mismatch)) (return_act None)
          else case lf_control_type frame of
              CtEOT \<Rightarrow> on_eot now frame
            | CtDATA \<Rightarrow> on_data now frame
            | CtNAK \<Rightarrow> on_nak now frame
            | ct \<Rightarrow> then_act (modify_act (set_error (Error_unexpected_control ct))) (return_act None))))"

section \<open>The machine under the session\<close>

text \<open>What publishing can change, and what an applied event is.\<close>

lemma publish_event_state:
  "\<exists>b. snd (publish_event now ty d p s) = s\<lparr>cs_bus := b\<rparr> \<and> eb_subscribers b = eb_subscribers (cs_bus s)"
  by (auto simp: publish_event_def publish_def Let_def)

lemma keeps_publish [keeps_intros]:
  assumes "\<And>s b. P s \<Longrightarrow> eb_subscribers b = eb_subscribers (cs_bus s) \<Longrightarrow> P (s\<lparr>cs_bus := b\<rparr>)"
  shows "keeps P (publish_event now ty d p)"
  using assms publish_event_state unfolding keeps_def by metis

definition faultless_run :: "pump_context \<Rightarrow> pump_context \<Rightarrow> bool" where
  "faultless_run c c' \<longleftrightarrow> (\<exists>is. pump_run c is c' \<and> (\<forall>i \<in> set is. ap_fault_code (snd i) = None))"

lemma faultless_run_step:
  assumes "faultless_run c c'" "ap_fault_code args = None"
  shows "faultless_run c (tr_context (apply_event c' ev args))"
proof -
  from assms(1) obtain "is" where r: "pump_run c is c'" "\<forall>i \<in> set is. ap_fault_code (snd i) = None"
    by (auto simp: faultless_run_def)
  have "pump_run c (is @ [(ev, args)]) (tr_context (apply_event c' ev args))"
    using r(1) by (simp add: pump_run_iff step_context_pair)
  moreover have "\<forall>i \<in> set (is @ [(ev, args)]). ap_fault_code (snd i) = None"
    using r(2) assms(2) by auto
  ultimately show ?thesis unfolding faultless_run_def by blast
qed

lemma faultless_run_refl: "faultless_run c c"
  using pump_run_iff [of c "[]" c] by (auto simp: faultless_run_def intro!: exI [of _ "[]"])

definition tracks_machine :: "pump_context \<Rightarrow> pump_session \<Rightarrow> bool" where
  "tracks_machine c s \<longleftrightarrow> faultless_run c (cs_context s) \<and> cs_last_state s = pc_current_state (cs_context s)"

lemma tracks_cong: "cs_context s' = cs_context s \<Longrightarrow> cs_last_state s' = cs_last_state s \<Longrightarrow>
    tracks_machine c s' = tracks_machine c s"
  by (simp add: tracks_machine_def)

lemma tracks_step: "tracks_machine c s \<Longrightarrow> ap_fault_code args = None \<Longrightarrow>
    tracks_machine c (s\<lparr>cs_context := tr_context (apply_event (cs_context s) ev args),
      cs_last_state := pc_current_state (tr_context (apply_event (cs_context s) ev args))\<rparr>)"
  by (simp add: tracks_machine_def faultless_run_step)


lemma session_update_simps [simp]:
  "cs_context (count_stat g s) = cs_context s" "cs_context (set_error e s) = cs_context s"
  "cs_last_state (count_stat g s) = cs_last_state s" "cs_last_state (set_error e s) = cs_last_state s"
  "cs_expected_rx (count_stat g s) = cs_expected_rx s" "cs_expected_rx (set_error e s) = cs_expected_rx s"
  "cs_last_accepted_rx (count_stat g s) = cs_last_accepted_rx s" "cs_last_accepted_rx (set_error e s) = cs_last_accepted_rx s"
  "cs_address (count_stat g s) = cs_address s" "cs_address (set_error e s) = cs_address s"
  "cs_policy (count_stat g s) = cs_policy s" "cs_policy (set_error e s) = cs_policy s"
  "cs_bus (count_stat g s) = cs_bus s" "cs_bus (set_error e s) = cs_bus s"
  "cs_tx_sequence (count_stat g s) = cs_tx_sequence s" "cs_tx_sequence (set_error e s) = cs_tx_sequence s"
  "cs_completion_keys (count_stat g s) = cs_completion_keys s" "cs_completion_keys (set_error e s) = cs_completion_keys s"
  "cs_communication (count_stat g s) = cs_communication s" "cs_communication (set_error e s) = cs_communication s"
  by (simp_all add: count_stat_def set_error_def)

text \<open>
  The event-applying actions keep a predicate that survives a machine step; all the others keep whatever does not look
  at the fields they write.
\<close>

locale session_invariant =
  fixes P :: "pump_session \<Rightarrow> bool"
  assumes bus: "P s \<Longrightarrow> eb_subscribers b = eb_subscribers (cs_bus s) \<Longrightarrow> P (s\<lparr>cs_bus := b\<rparr>)"
    and stats: "P s \<Longrightarrow> P (count_stat g s)"
    and error: "P s \<Longrightarrow> P (set_error e s)"
    and times: "P s \<Longrightarrow> P (s\<lparr>cs_last_poll_at := t\<rparr>)" "P s \<Longrightarrow> P (s\<lparr>cs_consecutive_timeouts := n\<rparr>)"
    and frames: "P s \<Longrightarrow> P (s\<lparr>cs_last_raw_frame := w, cs_last_response_at := t\<rparr>)"
      "P s \<Longrightarrow> P (s\<lparr>cs_consecutive_timeouts := n, cs_last_valid_frame := w\<rparr>)"
begin

lemma publish_keeps: "keeps P (publish_event now ty d p)"
  by (rule keeps_publish) (rule bus)

lemma publish_change_keeps: "keeps P (publish_state_changed now before after ev ctx key)"
  unfolding publish_state_changed_def by (rule publish_keeps)

lemma reject_keeps: "keeps P (reject_data now err d g)"
  unfolding reject_data_def by (intro keeps_intros publish_keeps error stats)

lemma repeat_ack_keeps: "keeps P (repeat_ack now k)"
  unfolding repeat_ack_def count_ack_def
  by (intro keeps_intros publish_keeps stats) (simp_all)

lemma build_poll_keeps: "keeps P (session_build_poll now)"
  unfolding session_build_poll_def
  by (intro keeps_intros publish_keeps) (auto intro: stats times)

lemma on_nak_keeps: "keeps P (on_nak now f)"
  unfolding on_nak_def by (intro keeps_intros publish_keeps error stats)

end

text \<open>Whether all a transaction, or a frame, can make of the machine is among the steps that are allowed.\<close>

definition harmless :: "(pump_event \<Rightarrow> apply_args \<Rightarrow> bool) \<Rightarrow> application_transaction \<Rightarrow> bool" where
  "harmless allowed tx \<longleftrightarrow>
     (\<forall>ctx. allowed (mp_event (map_wayne_observation tx ctx)) (session_args (map_wayne_observation tx ctx)))"

definition harmless_frame :: "(pump_event \<Rightarrow> apply_args \<Rightarrow> bool) \<Rightarrow> line_frame \<Rightarrow> bool" where
  "harmless_frame allowed f \<longleftrightarrow>
     (\<forall>a b. decode_data_payload (lf_payload f) (frame_decode_args a f) = Inr b \<longrightarrow> list_all (harmless allowed) (db_transactions b))"

locale machine_invariant = session_invariant +
  fixes allowed :: "pump_event \<Rightarrow> apply_args \<Rightarrow> bool"
  assumes step: "P s \<Longrightarrow> allowed ev args \<Longrightarrow>
      P (s\<lparr>cs_context := tr_context (apply_event (cs_context s) ev args),
           cs_last_state := pc_current_state (tr_context (apply_event (cs_context s) ev args))\<rparr>)"
    and line_events: "allowed COMMUNICATION_STARTED no_args" "allowed COMMUNICATION_LOST no_args"
    and keys: "P s \<Longrightarrow> P (s\<lparr>cs_completion_keys := K\<rparr>)"
    and comm: "P s \<Longrightarrow> P (s\<lparr>cs_communication := h\<rparr>)"
begin

lemma apply_sm_keeps:
  assumes "allowed ev no_args"
  shows "keeps P (apply_sm now ev)"
proof -
  have "P s \<Longrightarrow> P (snd (apply_sm now ev s))" for s
    using step [OF _ assms] keepsD [OF publish_change_keeps]
    by (simp add: apply_sm_def Let_def)
  then show ?thesis by (simp add: keeps_def)
qed

lemma apply_mapped_keeps:
  assumes none: "allowed (mp_event m) (session_args m)"
  shows "keeps P (apply_mapped_session now m)"
proof -
  have "P s \<Longrightarrow> P (snd (apply_mapped_session now m s))" for s
    using keys [OF step [OF _ none]] step [OF _ none] keepsD [OF publish_change_keeps]
    unfolding apply_mapped_session_def Let_def read_act_def then_act_simp modify_act_def
    by (simp split: if_splits)
  then show ?thesis by (simp add: keeps_def)
qed

lemma set_communication_keeps: "keeps P (set_communication now h)"
proof -
  have "keeps P (then_act (modify_act (\<lambda>s. s\<lparr>cs_communication := h\<rparr>)) (if prev = h then return_act ()
       else then_act
         (if h = Comm_HEALTHY \<and> prev \<in> {Comm_UNKNOWN, Comm_DISCONNECTED, Comm_DEGRADED}
          then publish_event now PUMP_CONNECTED Empty_detail No_payload else return_act ())
         (if h = Comm_DISCONNECTED
          then publish_event now PUMP_DISCONNECTED Empty_detail No_payload else return_act ())))" for prev
    by (intro keeps_intros publish_keeps comm)
  then show ?thesis unfolding set_communication_def Let_def by (intro keeps_read) (rule keepsD)
qed

lemma start_keeps: "keeps P (start_if_disconnected now)"
  unfolding start_if_disconnected_def
  by (intro keeps_read_each keeps_if apply_sm_keeps line_events keeps_return)

lemma apply_transaction_keeps: "harmless allowed tx \<Longrightarrow> keeps P (apply_transaction now tx)"
  unfolding apply_transaction_def
  by (intro keeps_then publish_keeps keeps_read_each apply_mapped_keeps) (simp add: harmless_def)

lemma apply_transactions_keeps: "list_all (harmless allowed) txs \<Longrightarrow> keeps P (apply_transactions now txs)"
  by (induction txs) (simp_all only: apply_transactions.simps keeps_return keeps_then apply_transaction_keeps list.pred_inject simp_thms)

lemma decode_and_apply_keeps: "harmless_frame allowed f \<Longrightarrow> keeps P (decode_and_apply now f)"
  unfolding decode_and_apply_def
  by (intro keeps_read) (auto simp: harmless_frame_def bind_act_def keepsD [OF apply_transactions_keeps] split: sum.split)

lemma on_eot_keeps: "keeps P (on_eot now f)"
  unfolding on_eot_def
  by (intro keeps_then keeps_modify keeps_return set_communication_keeps start_keeps publish_keeps frames(2) stats)

lemma on_timeout_keeps: "keeps P (on_timeout now m)"
  unfolding on_timeout_def
  by (intro keeps_then keeps_modify keeps_read_each keeps_if keeps_return set_communication_keeps apply_sm_keeps
      line_events publish_keeps error times(2) stats)

lemma observe_data_keeps: "harmless_frame allowed f \<Longrightarrow> keeps P (observe_data now f)"
  unfolding observe_data_def
  by (intro keeps_then keeps_modify frames(2) stats set_communication_keeps start_keeps decode_and_apply_keeps)

end

text \<open>An invariant that ignores the sequence numbers is kept by everything a session does.\<close>

datatype session_input = Build_poll int | Timeout int int | Response int line_frame

fun session_step :: "pump_session \<Rightarrow> session_input \<Rightarrow> pump_session" where
  "session_step s (Build_poll now) = snd (session_build_poll now s)"
| "session_step s (Timeout now m) = snd (on_timeout now m s)"
| "session_step s (Response now f) = snd (handle_response_frame now f s)"

fun harmless_input :: "(pump_event \<Rightarrow> apply_args \<Rightarrow> bool) \<Rightarrow> session_input \<Rightarrow> bool" where
  "harmless_input allowed (Response now f) = (lf_control_type f = CtDATA \<longrightarrow> harmless_frame allowed f)"
| "harmless_input allowed i = True"

locale sequence_free_invariant = machine_invariant +
  assumes rx: "P s \<Longrightarrow> P (s\<lparr>cs_last_accepted_rx := k\<rparr>)" "P s \<Longrightarrow> P (s\<lparr>cs_expected_rx := n\<rparr>)"
begin

lemma accept_keeps: "harmless_frame allowed f \<Longrightarrow> keeps P (accept_data now f)"
  unfolding accept_data_def record_data_def count_ack_def
  by (intro keeps_then keeps_bind keeps_modify keeps_read_each keeps_return keeps_result stats rx
      observe_data_keeps publish_keeps)

lemma on_data_keeps: "harmless_frame allowed f \<Longrightarrow> keeps P (on_data now f)"
  unfolding on_data_def
  by (intro keeps_read_each keeps_if accept_keeps reject_keeps repeat_ack_keeps)

lemma handle_keeps:
  assumes "harmless_input allowed (Response now f)"
  shows "keeps P (handle_response_frame now f)"
proof -
  have "keeps P (case lf_control_type f of CtEOT \<Rightarrow> on_eot now f | CtDATA \<Rightarrow> on_data now f | CtNAK \<Rightarrow> on_nak now f
      | ct \<Rightarrow> then_act (modify_act (set_error (Error_unexpected_control ct))) (return_act None))"
    using assms by (cases "lf_control_type f")
      (auto simp del: then_act_simp intro!: on_eot_keeps on_data_keeps on_nak_keeps keeps_then keeps_modify keeps_return error)
  then show ?thesis
    unfolding handle_response_frame_def
    by (intro keeps_then keeps_modify keeps_read_each keeps_if keeps_return publish_keeps frames(1) error)
qed

lemma session_step_keeps: "P s \<Longrightarrow> harmless_input allowed i \<Longrightarrow> P (session_step s i)"
  by (cases i) (simp_all add: keepsD [OF build_poll_keeps] keepsD [OF on_timeout_keeps] keepsD [OF handle_keeps])

end

definition no_fault :: "pump_event \<Rightarrow> apply_args \<Rightarrow> bool" where
  "no_fault ev args \<longleftrightarrow> ap_fault_code args = None"

lemma always_no_fault: "harmless_input no_fault i"
  by (cases i) (simp_all add: harmless_frame_def harmless_def no_fault_def session_args_def no_args_def list_all_iff)

interpretation tracked: sequence_free_invariant "tracks_machine c" no_fault for c
  by unfold_locales
    (simp_all add: tracks_machine_def faultless_run_step count_stat_def set_error_def no_fault_def no_args_def)

interpretation tracked_run: preserved session_step "tracks_machine c" for c
  by unfold_locales (rule tracked.session_step_keeps [OF _ always_no_fault])

lemma session_run_tracks:
  "tracks_machine (new_context pid a) (foldl session_step (new_pump_session a pid bus policy) is)"
  by (rule tracked_run.run_preserves) (simp add: tracks_machine_def new_pump_session_def faultless_run_refl new_context_def)

text \<open>
  C15. The session implements the machine: whatever polls, timeouts and frames a session handles, and whichever of its
  calls a subscriber breaks off by raising, its pump context is the result of a run of the state machine from
  the disconnected context, and the state it reports is the state of that context.
\<close>

theorem session_refines_machine:
  "let s = foldl session_step (new_pump_session a pid bus policy) is in
    (\<exists>es. pump_run (new_context pid a) es (cs_context s)) \<and> cs_last_state s = pc_current_state (cs_context s)"
  using session_run_tracks [of pid a bus policy "is"] by (auto simp: Let_def tracks_machine_def faultless_run_def)

lemma faultless_run_fault: "faultless_run c c' \<Longrightarrow> pc_fault_code c = None \<Longrightarrow> pc_fault_code c' = None"
proof -
  have "pump_run c es c' \<Longrightarrow> \<forall>i \<in> set es. ap_fault_code (snd i) = None \<Longrightarrow> pc_fault_code c = None \<Longrightarrow>
      pc_fault_code c' = None" for es
  proof (induction rule: pump_run.induct)
    case (pump_run_step c es c' ev args)
    then have "pc_fault_code c' = None" "ap_fault_code args = None" by auto
    then show ?case
      by (simp add: apply_event_def Let_def transition_context_def apply_context_fields_def differs_def split: option.split)
  qed
  then show "faultless_run c c' \<Longrightarrow> pc_fault_code c = None \<Longrightarrow> ?thesis" by (auto simp: faultless_run_def)
qed

text \<open>
  The controller never learns a fault code: \<open>_apply_mapped\<close> does not pass the alarm code on, so
  after any history of a session, alarms included, the fault code of its context is still empty, unlike in
  \<open>PumpStateMachine.apply_mapped\<close>, which records the code of a mapped alarm.
\<close>

theorem session_loses_fault_code:
  "pc_fault_code (cs_context (foldl session_step (new_pump_session a pid bus policy) is)) = None \<and>
   pc_fault_code (tr_context (apply_mapped ((new_context pid a)\<lparr>pc_current_state := READY\<rparr>)
     (mapped FAULT_OBSERVED obs (Some code) []) None None None None None)) = Some code"
proof
  show "pc_fault_code (cs_context (foldl session_step (new_pump_session a pid bus policy) is)) = None"
    using session_run_tracks [of pid a bus policy "is"] faultless_run_fault [of "new_context pid a"]
    by (simp add: tracks_machine_def new_context_def)
  have "lookup_transition READY FAULT_OBSERVED = Some FAULTED"
    by (simp add: lookup_iff_listed TRANSITIONS_def OPERATIONAL_STATES_def)
  then show "pc_fault_code (tr_context (apply_mapped ((new_context pid a)\<lparr>pc_current_state := READY\<rparr>)
     (mapped FAULT_OBSERVED obs (Some code) []) None None None None None)) = Some code"
    by (cases "or_source_hex obs") (simp_all add: apply_mapped_def mapped_args_def apply_event_def is_stale_def
        is_replay_def source_hex_def mapped_def is_duplicate_completion_def is_same_state_noop_def
        SAME_STATE_NOOP_EVENTS_def transition_context_def new_context_def)
qed

section \<open>What a DATA frame may change\<close>

definition session_core :: "pump_session \<Rightarrow> pump_context \<times> int \<times> int option \<times> int \<times> string set \<times> communication_health" where
  "session_core s = (cs_context s, cs_expected_rx s, cs_last_accepted_rx s, cs_tx_sequence s, cs_completion_keys s,
     cs_communication s)"

definition same_core :: "pump_session \<Rightarrow> pump_session \<Rightarrow> bool" where
  "same_core s0 s \<longleftrightarrow> session_core s = session_core s0 \<and> cs_address s = cs_address s0"

interpretation core: session_invariant "same_core s0" for s0
  by unfold_locales (simp_all add: same_core_def session_core_def count_stat_def set_error_def)

text \<open>The DATA frames a session applies.\<close>

definition is_fresh :: "pump_session \<Rightarrow> line_frame \<Rightarrow> bool" where
  "is_fresh s f \<longleftrightarrow> lf_address f = cs_address s \<and> lf_crc_valid f \<noteq> Some False \<and>
     cs_last_accepted_rx s \<noteq> Some (lf_sequence f) \<and> lf_sequence f = cs_expected_rx s"

lemma bind_act_Inr: "fst (bind_act m f s) = Inr y \<Longrightarrow> \<exists>x s'. m s = (Inr x, s') \<and> f x s' = (Inr y, snd (bind_act m f s))"
  by (auto simp: bind_act_def prod_eq_iff split: prod.splits sum.splits)

lemma then_act_Inr: "fst (then_act m n s) = Inr y \<Longrightarrow> \<exists>s'. m s = (Inr (), s') \<and> n s' = (Inr y, snd (then_act m n s))"
  unfolding then_act_def by (drule bind_act_Inr) auto

lemma reject_answer: "fst (reject_data now err d g s) = Inr r \<Longrightarrow> r = None"
  by (auto simp: reject_data_def case_prod_unfold split: sum.splits)

lemma repeat_answer: "fst (repeat_ack now k s) = Inr r \<Longrightarrow> \<exists>ack. r = Some ack \<and> build_ack (cs_address s) k = Inr ack"
  by (auto simp: repeat_ack_def bind_act_def case_prod_unfold split: sum.splits)

lemma on_data_stale: "\<not> is_fresh s f \<Longrightarrow> lf_address f = cs_address s \<Longrightarrow> same_core s (snd (on_data now f s))"
  using keepsD [OF core.reject_keeps, of s s] keepsD [OF core.repeat_ack_keeps, of s s]
  by (auto simp: on_data_def is_fresh_def same_core_def)

lemma handle_data_cases [consumes 1]:
  assumes "lf_control_type f = CtDATA"
  obtains (raised) e where "fst (handle_response_frame now f s) = Inl e" "same_core s (snd (handle_response_frame now f s))"
  | (mismatch) "lf_address f \<noteq> cs_address s" "fst (handle_response_frame now f s) = Inr None"
      "same_core s (snd (handle_response_frame now f s))"
  | (data) s1 where "same_core s s1" "cs_policy s1 = cs_policy s" "lf_address f = cs_address s"
      "eb_subscribers (cs_bus s1) = eb_subscribers (cs_bus s)"
      "handle_response_frame now f s = on_data now f s1"
proof -
  let ?s = "s\<lparr>cs_last_raw_frame := Some (lf_raw_frame f), cs_last_response_at := Some now\<rparr>"
  obtain r b where p: "publish_event now FRAME_RECEIVED (Control_detail (lf_control_type f))
      (Raw_hex_payload (hex_text (lf_raw_frame f))) ?s = (r, ?s\<lparr>cs_bus := b\<rparr>)"
    and b: "eb_subscribers b = eb_subscribers (cs_bus s)"
    by (auto simp: publish_event_def publish_def Let_def)
  have c: "same_core s (?s\<lparr>cs_bus := b\<rparr>)" by (simp add: same_core_def session_core_def)
  show thesis
  proof (cases r)
    case (Inl e)
    with p c show thesis by (intro raised [of e]) (simp_all add: handle_response_frame_def)
  next
    case (Inr u)
    show thesis
    proof (cases "lf_address f = cs_address s")
      case True
      with p c b Inr assms show thesis
        by (intro data [of "?s\<lparr>cs_bus := b\<rparr>"]) (simp_all add: handle_response_frame_def)
    next
      case False
      with p c Inr show thesis
        by (intro mismatch) (simp_all add: handle_response_frame_def same_core_def session_core_def set_error_def)
    qed
  qed
qed

lemma same_core_fields:
  assumes "same_core s s1"
  shows "cs_expected_rx s1 = cs_expected_rx s" "cs_last_accepted_rx s1 = cs_last_accepted_rx s" "cs_address s1 = cs_address s"
    "cs_context s1 = cs_context s" "cs_tx_sequence s1 = cs_tx_sequence s" "is_fresh s1 f = is_fresh s f"
  using assms by (simp_all add: same_core_def session_core_def is_fresh_def)

lemma same_core_sym: "same_core s s1 \<Longrightarrow> same_core s1 s2 \<Longrightarrow> same_core s s2"
  by (simp add: same_core_def)

lemma stale_data_keeps_core:
  assumes "lf_control_type f = CtDATA" "\<not> is_fresh s f"
  shows "same_core s (snd (handle_response_frame now f s))"
using assms(1)
proof (cases rule: handle_data_cases [of f now s])
  case (data s1)
  then show ?thesis
    using on_data_stale [of s1 f now] assms(2) same_core_fields [OF data(1)] same_core_sym by metis
qed simp_all

text \<open>The events on a bus but for those of some types.\<close>

definition other_events :: "controller_event_type set \<Rightarrow> event_bus \<Rightarrow> controller_event list" where
  "other_events T b = filter (\<lambda>e. ce_type e \<notin> T) (eb_events b)"

lemma publish_event_others: "ty \<in> T \<Longrightarrow>
    \<exists>b. snd (publish_event now ty d p s) = s\<lparr>cs_bus := b\<rparr> \<and> other_events T b = other_events T (cs_bus s)"
  by (auto simp: publish_event_def publish_def Let_def other_events_def)

text \<open>Only the notes a session keeps of the line differ, and what it published is of the types in \<open>T\<close>.\<close>

definition noted :: "controller_event_type set \<Rightarrow> pump_session \<Rightarrow> pump_session \<Rightarrow> bool" where
  "noted T s0 s \<longleftrightarrow>
     s = s0\<lparr>cs_last_response_at := cs_last_response_at s, cs_last_raw_frame := cs_last_raw_frame s,
            cs_last_error := cs_last_error s, cs_stats := cs_stats s, cs_bus := cs_bus s\<rparr> \<and>
     other_events T (cs_bus s) = other_events T (cs_bus s0)"

lemma noted_bus: "noted T s0 s \<Longrightarrow> other_events T b = other_events T (cs_bus s) \<Longrightarrow> noted T s0 (s\<lparr>cs_bus := b\<rparr>)"
  by (cases s, cases s0) (simp add: noted_def)

lemma noted_publish: "ty \<in> T \<Longrightarrow> keeps (noted T s0) (publish_event now ty d p)"
  unfolding keeps_def using publish_event_others [of ty T now d p] noted_bus by metis

lemma noted_update: "noted T s0 s \<Longrightarrow> noted T s0 (count_stat g s)" "noted T s0 s \<Longrightarrow> noted T s0 (set_error e s)"
  "noted T s0 s \<Longrightarrow> noted T s0 (s\<lparr>cs_last_raw_frame := w, cs_last_response_at := t\<rparr>)"
  by (cases s, cases s0, simp add: noted_def count_stat_def set_error_def)+

lemma noted_fresh: "noted T s0 s \<Longrightarrow> is_fresh s f = is_fresh s0 f \<and> cs_address s = cs_address s0"
  by (cases s, cases s0) (simp add: noted_def is_fresh_def)

definition line_notes :: "controller_event_type set" where
  "line_notes = {FRAME_RECEIVED, FRAME_REJECTED, ACK_SENT}"

lemma stale_data_noted:
  assumes "lf_control_type f = CtDATA" "\<not> is_fresh s f"
  shows "noted line_notes s (snd (handle_response_frame now f s))"
proof -
  have ty: "FRAME_RECEIVED \<in> line_notes" "FRAME_REJECTED \<in> line_notes" "ACK_SENT \<in> line_notes"
    by (simp_all add: line_notes_def)
  note intros = keeps_then keeps_bind keeps_modify keeps_return keeps_result keeps_read_each noted_update noted_publish ty
  have reject: "keeps (noted line_notes s) (reject_data now err d g)" for err d g
    unfolding reject_data_def by (intro intros)
  have repeat: "keeps (noted line_notes s) (repeat_ack now k)" for k
    unfolding repeat_ack_def count_ack_def by (intro intros)
  have stale: "noted line_notes s (snd (on_data now f s1))" if "noted line_notes s s1" "lf_address f = cs_address s1" for s1
  proof -
    have "\<not> is_fresh s1 f" using noted_fresh [OF that(1)] assms(2) by simp
    then show ?thesis
      using that keepsD [OF reject that(1)] keepsD [OF repeat that(1)] by (auto simp: on_data_def is_fresh_def)
  qed
  have "keeps (noted line_notes s) (handle_response_frame now f)"
    unfolding handle_response_frame_def
  proof (intro keeps_then keeps_modify noted_update noted_publish ty keeps_read)
    fix s1
    assume n: "noted line_notes s s1"
    show "noted line_notes s (snd ((if lf_address f \<noteq> cs_address s1
        then then_act (modify_act (set_error Error_address_mismatch)) (return_act None)
        else case lf_control_type f of CtEOT \<Rightarrow> on_eot now f | CtDATA \<Rightarrow> on_data now f | CtNAK \<Rightarrow> on_nak now f
          | ct \<Rightarrow> then_act (modify_act (set_error (Error_unexpected_control ct))) (return_act None)) s1))"
      using assms(1) stale [OF n] noted_update(2) [OF n] by simp
  qed
  then show ?thesis by (rule keepsD) (simp add: noted_def)
qed

text \<open>
  C16. A pump's report is applied at most once, and never when damaged or out of order: a DATA frame for another
  address, with a bad checksum, with the sequence number accepted last or with one that is not expected leaves every field of the
  session as it was (the machine, the sequence numbers, the completion keys, the communication health, the timeouts in a row) but
  for the notes of the line: the last frame and its time, the last error, the counters and the bus. On the bus it publishes
  only that a frame was received, that it was rejected or that it was acknowledged, never a decoded transaction or a change of
  state. All this holds even when a subscriber raises.
\<close>

theorem stale_data_changes_nothing:
  "\<not> is_fresh s f \<Longrightarrow>
   (case handle_response_frame now (f\<lparr>lf_control_type := CtDATA\<rparr>) s of (r, s') \<Rightarrow>
     s' = s\<lparr>cs_last_response_at := cs_last_response_at s', cs_last_raw_frame := cs_last_raw_frame s',
            cs_last_error := cs_last_error s', cs_stats := cs_stats s', cs_bus := cs_bus s'\<rparr> \<and>
     other_events {FRAME_RECEIVED, FRAME_REJECTED, ACK_SENT} (cs_bus s') =
     other_events {FRAME_RECEIVED, FRAME_REJECTED, ACK_SENT} (cs_bus s))"
  using stale_data_noted [of "f\<lparr>lf_control_type := CtDATA\<rparr>" s now]
  by (simp add: noted_def line_notes_def is_fresh_def case_prod_unfold)

definition data_frame :: "int \<Rightarrow> bytes \<Rightarrow> line_frame" where
  "data_frame sequence payload = \<lparr>lf_address = 1, lf_control = 0x30 + sequence, lf_control_type = CtDATA,
     lf_sequence = sequence, lf_payload = payload, lf_received_crc = None, lf_computed_crc = None,
     lf_crc_valid = Some True, lf_raw_frame = [], lf_unknown_control = False\<rparr>"

theorem stale_data_changes_nothing_witness:
  "case handle_response_frame 0 ((data_frame 5 [1, 1, 5])\<lparr>lf_control_type := CtDATA\<rparr>)
       (new_pump_session 1 ''pump-1'' new_bus SPEC_F_TO_1) of (r, s') \<Rightarrow>
     s' = (new_pump_session 1 ''pump-1'' new_bus SPEC_F_TO_1)
          \<lparr>cs_last_response_at := cs_last_response_at s', cs_last_raw_frame := cs_last_raw_frame s',
            cs_last_error := cs_last_error s', cs_stats := cs_stats s', cs_bus := cs_bus s'\<rparr> \<and>
     other_events {FRAME_RECEIVED, FRAME_REJECTED, ACK_SENT} (cs_bus s') =
     other_events {FRAME_RECEIVED, FRAME_REJECTED, ACK_SENT} (cs_bus (new_pump_session 1 ''pump-1'' new_bus SPEC_F_TO_1))"
  by (rule stale_data_changes_nothing) (simp add: is_fresh_def data_frame_def new_pump_session_def)

lemma record_data_answer:
  assumes "fst (record_data now f s) = Inr r"
  shows "\<exists>ack. r = Some ack \<and> build_ack (cs_address s) (lf_sequence f) = Inr ack \<and>
    cs_last_accepted_rx (snd (record_data now f s)) = Some (lf_sequence f)"
  using assms publish_event_state
  by (auto simp: record_data_def bind_act_def count_ack_def publish_event_def case_prod_unfold split: sum.splits)

definition any_event :: "pump_event \<Rightarrow> apply_args \<Rightarrow> bool" where
  "any_event ev args = True"

lemma always_any_event: "harmless_frame any_event f"
  by (simp add: harmless_frame_def harmless_def any_event_def list_all_iff)

interpretation address: sequence_free_invariant "\<lambda>s. cs_address s = a \<and> cs_policy s = p" any_event for a p
  by unfold_locales (simp_all add: count_stat_def set_error_def any_event_def)

lemma on_data_answer:
  assumes "fst (on_data now f s) = Inr (Some ack)"
  shows "lf_crc_valid f \<noteq> Some False \<and> build_ack (cs_address s) (lf_sequence f) = Inr ack \<and>
    cs_last_accepted_rx (snd (on_data now f s)) = Some (lf_sequence f)"
proof -
  have crc: "lf_crc_valid f \<noteq> Some False"
    using assms reject_answer by (fastforce simp: on_data_def)
  show ?thesis
  proof (cases "cs_last_accepted_rx s = Some (lf_sequence f)")
    case True
    then have "on_data now f s = repeat_ack now (lf_sequence f) s" using crc by (simp add: on_data_def)
    moreover have "same_core s (snd (repeat_ack now (lf_sequence f) s))"
      using keepsD [OF core.repeat_ack_keeps, of s s] by (simp add: same_core_def)
    ultimately show ?thesis
      using True crc repeat_answer [of now "lf_sequence f" s] assms same_core_fields(2) by fastforce
  next
    case False
    then have "on_data now f s = accept_data now f s"
      using crc assms reject_answer by (fastforce simp: on_data_def)
    then show ?thesis
      using assms then_act_Inr [of "observe_data now f" "record_data now f" s] record_data_answer [of now f]
        keepsD [OF address.observe_data_keeps [OF always_any_event], of s "cs_address s" "cs_policy s" now f] crc
      unfolding accept_data_def by (metis fst_conv snd_conv option.inject)
  qed
qed

lemma handle_answer:
  assumes "fst (handle_response_frame now f s) = Inr (Some ack)"
  shows "lf_control_type f = CtDATA \<and> lf_address f = cs_address s \<and> lf_crc_valid f \<noteq> Some False \<and>
    build_ack (cs_address s) (lf_sequence f) = Inr ack \<and>
    cs_last_accepted_rx (snd (handle_response_frame now f s)) = Some (lf_sequence f)"
proof -
  have none: "fst (on_eot now f s') \<noteq> Inr (Some ack)" "fst (on_nak now f s') \<noteq> Inr (Some ack)" for s'
    by (auto simp: on_eot_def on_nak_def split: prod.splits sum.splits)
  have "lf_control_type f = CtDATA"
    using assms none by (cases "lf_control_type f")
      (auto simp: handle_response_frame_def split: prod.splits sum.splits if_splits)
  then show ?thesis
  proof (cases rule: handle_data_cases [of f now s])
    case (data s1)
    with assms on_data_answer [of now f s1 ack] same_core_fields(3) [OF data(1)] \<open>lf_control_type f = CtDATA\<close> show ?thesis
      by simp
  qed (use assms in simp_all)
qed

text \<open>
  C17. An acknowledgement is a receipt: whenever a session answers a frame with bytes to send, the frame was a DATA frame from the
  session's own pump whose checksum did not fail, the bytes are the ACK of its sequence number, and that number is
  recorded as accepted, so that a repetition of the frame will not be applied again.
\<close>

theorem ack_is_a_receipt:
  assumes "fst (handle_response_frame now f s) = Inr (Some ack)"
  shows "lf_control_type f = CtDATA \<and> lf_address f = cs_address s \<and> lf_crc_valid f \<noteq> Some False \<and>
    build_ack (cs_address s) (lf_sequence f) = Inr ack \<and>
    cs_last_accepted_rx (snd (handle_response_frame now f s)) = Some (lf_sequence f)"
  using assms by (rule handle_answer)

section \<open>Without subscribers nothing raises\<close>

text \<open>An action that returns from every state with the property, and keeps it.\<close>

definition returns :: "('s \<Rightarrow> bool) \<Rightarrow> ('s, 'a) action \<Rightarrow> bool" where
  "returns P m \<longleftrightarrow> (\<forall>s. P s \<longrightarrow> (\<exists>x. fst (m s) = Inr x) \<and> P (snd (m s)))"

lemma returnsD: "returns P m \<Longrightarrow> P s \<Longrightarrow> \<exists>x s'. m s = (Inr x, s') \<and> P s'"
  unfolding returns_def by (metis prod.collapse)

lemma returns_bind: "returns P m \<Longrightarrow> (\<And>x. returns P (f x)) \<Longrightarrow> returns P (bind_act m f)"
  by (fastforce simp: returns_def bind_act_def split: prod.splits sum.splits)

lemma returns_then: "returns P m \<Longrightarrow> returns P n \<Longrightarrow> returns P (then_act m n)"
  unfolding then_act_def by (rule returns_bind)

lemma returns_basic:
  "returns P (return_act x)"
  "(\<And>s. P s \<Longrightarrow> P (g s)) \<Longrightarrow> returns P (modify_act g)"
  "(\<And>s. P s \<Longrightarrow> \<exists>x. r = Inr x) \<Longrightarrow> returns P (result_act r)"
  by (auto simp: returns_def)

lemma returns_read: "(\<And>s. P s \<Longrightarrow> returns P (f s)) \<Longrightarrow> returns P (read_act f)"
  by (simp add: returns_def)

lemma returns_if: "(b \<Longrightarrow> returns P m) \<Longrightarrow> (\<not> b \<Longrightarrow> returns P n) \<Longrightarrow> returns P (if b then m else n)"
  by simp

lemmas returns_intros = returns_then returns_basic returns_read returns_if

text \<open>A session nobody listens to, with its address and sequence numbers.\<close>

definition quiet :: "int \<Rightarrow> sequence_policy \<Rightarrow> int \<Rightarrow> int option \<Rightarrow> pump_session \<Rightarrow> bool" where
  "quiet a policy e k s \<longleftrightarrow> eb_subscribers (cs_bus s) = [] \<and> cs_address s = a \<and> cs_policy s = policy \<and>
     cs_expected_rx s = e \<and> cs_last_accepted_rx s = k"

interpretation quiet: machine_invariant "quiet a policy e k" any_event for a policy e k
  by unfold_locales (simp_all add: quiet_def count_stat_def set_error_def any_event_def)

lemma publish_returns: "returns (quiet a policy e k) (publish_event now ty d p)"
  by (auto simp: returns_def quiet_def publish_event_def publish_def Let_def)

lemma apply_sm_returns: "returns (quiet a policy e k) (apply_sm now ev)"
proof -
  have "\<exists>x. fst (apply_sm now ev s) = Inr x" if "quiet a policy e k s" for s
    using that by (auto simp: apply_sm_def Let_def publish_state_changed_def publish_event_def publish_def quiet_def)
  then show ?thesis
    using quiet.apply_sm_keeps [of ev a policy e k now] by (simp add: returns_def keeps_def any_event_def)
qed

lemma apply_mapped_returns: "returns (quiet a policy e k) (apply_mapped_session now m)"
proof -
  have "\<exists>x. fst (apply_mapped_session now m s) = Inr x" if "quiet a policy e k s" for s
    using that by (auto simp: apply_mapped_session_def Let_def publish_state_changed_def publish_event_def publish_def quiet_def)
  then show ?thesis
    using quiet.apply_mapped_keeps [of m a policy e k now] by (simp add: returns_def keeps_def any_event_def)
qed

lemma set_communication_returns: "returns (quiet a policy e k) (set_communication now h)"
proof -
  have "\<exists>x. fst (set_communication now h s) = Inr x" if "quiet a policy e k s" for s
    using that by (auto simp: set_communication_def Let_def publish_event_def publish_def quiet_def)
  then show ?thesis
    using quiet.set_communication_keeps [of a policy e k now h] by (simp add: returns_def keeps_def any_event_def)
qed

lemma start_returns: "returns (quiet a policy e k) (start_if_disconnected now)"
  unfolding start_if_disconnected_def by (intro returns_intros apply_sm_returns)

lemma decode_and_apply_returns: "returns (quiet a policy e k) (decode_and_apply now f)"
proof -
  have one: "returns (quiet a policy e k) (apply_transaction now tx)" for tx
    unfolding apply_transaction_def by (intro returns_intros publish_returns apply_mapped_returns)
  have all: "returns (quiet a policy e k) (apply_transactions now txs)" for txs
    by (induction txs) (simp_all only: apply_transactions.simps returns_basic returns_then one)
  have "\<exists>b. decode_data_payload (lf_payload f) (frame_decode_args (cs_address s) f) = Inr b" for s
    using decode_data_payload_kinds by blast
  then show ?thesis
    unfolding decode_and_apply_def by (intro returns_read returns_bind returns_basic all)
qed

lemma observe_data_returns: "returns (quiet a policy e k) (observe_data now f)"
  unfolding observe_data_def
  by (intro returns_then returns_basic quiet.frames(2) quiet.stats set_communication_returns start_returns decode_and_apply_returns)

lemma on_eot_returns: "returns (quiet a policy e k) (on_eot now f)"
  unfolding on_eot_def
  by (intro returns_then returns_basic quiet.frames(2) quiet.stats set_communication_returns start_returns publish_returns)

lemma on_timeout_returns: "returns (quiet a policy e k) (on_timeout now m)"
  unfolding on_timeout_def
  by (intro returns_intros quiet.error quiet.stats quiet.times set_communication_returns apply_sm_returns publish_returns)

lemma build_ack_total: "0 \<le> a \<Longrightarrow> a \<le> 255 \<Longrightarrow> 0 \<le> q \<Longrightarrow> q \<le> 15 \<Longrightarrow> \<exists>ack. build_ack a q = Inr ack"
proof -
  assume a: "0 \<le> a" "a \<le> 255" "0 \<le> q" "q \<le> 15"
  then obtain c where "compose_control CtACK q = Inr c"
    using compose_control_ok_iff [of CtACK q] by (auto simp: composable_def)
  with a show ?thesis
    by (simp add: build_ack_def build_control_frame_def validate_address_def MAX_BUFFER_SIZE_def)
qed

lemma next_sequence_total: "0 \<le> q \<Longrightarrow> q \<le> 15 \<Longrightarrow> \<exists>n. next_sequence q policy = Inr n \<and> 0 \<le> n \<and> n \<le> 15 \<and> n \<noteq> q"
  by (simp add: next_sequence_def)

lemma quiet_reject: "quiet a policy e k s \<Longrightarrow> \<exists>s'. reject_data now err d g s = (Inr None, s') \<and> quiet a policy e k s'"
  by (auto simp: reject_data_def publish_event_def publish_def quiet_def Let_def)

lemma quiet_repeat: "quiet a policy e k s \<Longrightarrow> build_ack a q = Inr ack \<Longrightarrow>
    \<exists>s'. repeat_ack now q s = (Inr (Some ack), s') \<and> quiet a policy e k s'"
  by (auto simp: repeat_ack_def bind_act_def count_ack_def publish_event_def publish_def quiet_def Let_def)

lemma quiet_accept:
  assumes "quiet a policy e k s" "build_ack a (lf_sequence f) = Inr ack" "next_sequence (lf_sequence f) policy = Inr n"
  shows "\<exists>s'. accept_data now f s = (Inr (Some ack), s') \<and> quiet a policy n (Some (lf_sequence f)) s'"
proof -
  obtain u s1 where "observe_data now f s = (Inr u, s1)" "quiet a policy e k s1"
    using returnsD [OF observe_data_returns assms(1)] by blast
  then show ?thesis
    using assms(2,3)
    by (auto simp: accept_data_def record_data_def bind_act_def count_ack_def publish_event_def publish_def quiet_def Let_def)
qed

lemma quiet_received:
  assumes "quiet a policy e k s" "lf_address f = a"
  obtains s1 where "quiet a policy e k s1" "handle_response_frame now f s =
      (case lf_control_type f of CtEOT \<Rightarrow> on_eot now f | CtDATA \<Rightarrow> on_data now f | CtNAK \<Rightarrow> on_nak now f
        | ct \<Rightarrow> then_act (modify_act (set_error (Error_unexpected_control ct))) (return_act None)) s1"
proof -
  let ?s = "s\<lparr>cs_last_raw_frame := Some (lf_raw_frame f), cs_last_response_at := Some now\<rparr>"
  have "quiet a policy e k ?s" using assms(1) by (simp add: quiet_def)
  from returnsD [OF publish_returns this] obtain u s1 where
    s1: "publish_event now FRAME_RECEIVED (Control_detail (lf_control_type f))
      (Raw_hex_payload (hex_text (lf_raw_frame f))) ?s = (Inr u, s1)" "quiet a policy e k s1" by blast
  moreover have "cs_address s1 = a" using s1(2) by (simp add: quiet_def)
  ultimately show thesis
    using assms(2) by (intro that [of s1]) (simp_all add: handle_response_frame_def)
qed

text \<open>The answer of a session without subscribers to a frame of its pump.\<close>

lemma quiet_handle_data:
  assumes "quiet a policy e k s" "lf_address f = a" "lf_control_type f = CtDATA"
    and "build_ack a (lf_sequence f) = Inr ack" "next_sequence (lf_sequence f) policy = Inr n"
  shows "\<exists>s'. if lf_crc_valid f = Some False
      then handle_response_frame now f s = (Inr None, s') \<and> quiet a policy e k s'
    else if k = Some (lf_sequence f) then handle_response_frame now f s = (Inr (Some ack), s') \<and> quiet a policy e k s'
    else if lf_sequence f = e
      then handle_response_frame now f s = (Inr (Some ack), s') \<and> quiet a policy n (Some (lf_sequence f)) s'
    else handle_response_frame now f s = (Inr None, s') \<and> quiet a policy e k s'"
proof -
  obtain s1 where q: "quiet a policy e k s1" and h: "handle_response_frame now f s = on_data now f s1"
    using quiet_received [OF assms(1,2), of now] assms(3) by auto
  have fields: "cs_expected_rx s1 = e" "cs_last_accepted_rx s1 = k" using q by (simp_all add: quiet_def)
  show ?thesis
    unfolding h on_data_def read_act_def fields
    using quiet_reject [OF q] quiet_repeat [OF q assms(4), of now] quiet_accept [OF q assms(4,5), of now]
    by (cases "lf_crc_valid f = Some False"; cases "k = Some (lf_sequence f)"; cases "lf_sequence f = e") auto
qed

lemma quiet_handle_eot:
  assumes "quiet a policy e k s" "lf_address f = a" "lf_control_type f = CtEOT"
  shows "\<exists>s'. handle_response_frame now f s = (Inr None, s') \<and> quiet a policy e k s'"
proof -
  obtain s1 where q: "quiet a policy e k s1" and h: "handle_response_frame now f s = on_eot now f s1"
    using quiet_received [OF assms(1,2), of now] assms(3) by auto
  from returnsD [OF on_eot_returns q] obtain x s' where r: "on_eot now f s1 = (Inr x, s')" "quiet a policy e k s'" by blast
  then have "x = None" by (auto simp: on_eot_def split: prod.splits sum.splits)
  with r h show ?thesis by simp
qed

theorem ack_is_a_receipt_witness:
  "\<exists>ack. build_ack 1 0 = Inr ack \<and>
    cs_last_accepted_rx (snd (handle_response_frame 0 (data_frame 0 [1, 1, 5])
      (new_pump_session 1 ''pump-1'' new_bus SPEC_F_TO_1))) = Some 0"
proof -
  let ?s = "new_pump_session 1 ''pump-1'' new_bus SPEC_F_TO_1" and ?f = "data_frame 0 [1, 1, 5]"
  have q: "quiet 1 SPEC_F_TO_1 0 None ?s" by (simp add: quiet_def new_pump_session_def new_bus_def)
  obtain ack where "build_ack 1 0 = Inr ack" using build_ack_total [of 1 0] by auto
  then have "fst (handle_response_frame 0 ?f ?s) = Inr (Some ack)"
    using quiet_handle_data [OF q, of ?f ack 1 0] by (auto simp: data_frame_def next_sequence_def)
  from ack_is_a_receipt [OF this] show ?thesis by (auto simp: data_frame_def)
qed

section \<open>Several transactions in one frame\<close>

lemma mapped_observation [simp]: "mp_observation (mapped ev obs raw ws) = obs"
  "mp_observation (m\<lparr>mp_completion_key := k\<rparr>) = mp_observation m"
  "mp_observation (m\<lparr>mp_selected_nozzle := n\<rparr>) = mp_observation m"
  by (simp_all add: mapped_def)

lemma status_observation_kept: "mp_observation (status_code_to_event code obs previous current) = obs"
  by (cases "wayne_status_of code") (simp_all add: status_code_to_event_def split: wayne_status.split)

lemma dc_observation_kept:
  "mp_observation (map_ambiguous_cd1_dc1 tx obs ctx) = obs"
  "mp_observation (map_dc1 tx obs ctx) = obs"
  "mp_observation (map_dc3 tx obs ctx) = obs"
proof -
  show "mp_observation (map_ambiguous_cd1_dc1 tx obs ctx) = obs"
    by (cases "or_raw_status obs") (simp_all add: map_ambiguous_cd1_dc1_def Let_def status_observation_kept)
  show "mp_observation (map_dc1 tx obs ctx) = obs"
    by (cases "or_raw_status obs") (simp_all add: map_dc1_def status_observation_kept)
  show "mp_observation (map_dc3 tx obs ctx) = obs"
  proof (cases "at_body tx")
    case (Some b)
    then show ?thesis by (cases b) (simp_all add: map_dc3_def Let_def)
  qed (simp add: map_dc3_def Let_def)
qed

lemma mapped_source: "or_source_hex (mp_observation (map_wayne_observation tx ctx)) = at_source_hex tx"
  by (cases "at_type tx") (simp_all add: map_wayne_observation_def Let_def dc_observation_kept)

lemma applied_records_source:
  assumes "tr_reason (apply_event c ev args) = Transition_applied" "source_hex args = Some h" "h \<noteq> []"
  shows "pc_last_source_hex (tr_context (apply_event c ev args)) = Some h"
proof (cases rule: apply_event_cases [of c ev args])
  case (applied t)
  then show ?thesis using assms(2,3) by (simp add: transition_context_def next_source_hex_def Let_def)
qed (use assms in simp)

text \<open>
  Only the first transaction of a frame counts: both carry the hex image of the frame as their source, so once
  the first has moved the machine, it takes every further transaction of the same frame for a replay, and
  a nozzle report or a completion that travels second in a DATA frame never moves the pump.
\<close>

theorem second_transaction_dropped:
  assumes "at_source_hex tx1 = Some h" "at_source_hex tx2 = Some h" "h \<noteq> []"
    and "tr_reason (apply_event c (mp_event (map_wayne_observation tx1 ctx1)) (session_args (map_wayne_observation tx1 ctx1)))
      = Transition_applied"
  defines "c1 \<equiv> tr_context (apply_event c (mp_event (map_wayne_observation tx1 ctx1)) (session_args (map_wayne_observation tx1 ctx1)))"
  shows "pc_current_state (tr_context (apply_event c1 (mp_event (map_wayne_observation tx2 ctx2))
      (session_args (map_wayne_observation tx2 ctx2)))) = pc_current_state c1"
proof -
  have src: "source_hex (session_args (map_wayne_observation tx ctx)) = at_source_hex tx" for tx ctx
    by (simp add: source_hex_def session_args_def no_args_def mapped_source)
  have "pc_last_source_hex c1 = Some h"
    unfolding c1_def by (rule applied_records_source [OF assms(4)]) (simp_all add: src assms(1,3))
  then have "is_replay c1 (session_args (map_wayne_observation tx2 ctx2))"
    by (simp add: is_replay_def src assms(2))
  moreover have "\<not> is_stale c1 (session_args (map_wayne_observation tx2 ctx2))"
    by (simp add: is_stale_def session_args_def no_args_def)
  ultimately show ?thesis by (simp add: apply_event_def Let_def)
qed

end
