(* ===== verification/Link_Delivery.thy ===== *)
theory Link_Delivery
  imports Sim_Session Ctl_Session
begin

text \<open>
  The two ends of a DART line together: a controller session (\<open>controller/pump_session.py\<close>) polls a pump
  (\<open>simulator/session.py\<close>) over a line that loses or damages frames. One exchange is the poll of
  \<open>ControllerLoop._poll_one\<close> with its answer and acknowledgement, on the wire images both ends build and parse. The
  abstract machine is a stop-and-wait protocol on payloads; the exchanges implement it, and what it guarantees,
  exactly once and in order, holds for the code.
\<close>

section \<open>The detailed line\<close>

datatype loss = Poll_lost | Reply_lost | Reply_damaged | Ack_lost | Nothing_lost

record link =
  lk_pump :: sim_pump
  lk_session :: pump_session
  lk_frames :: "line_frame list"

text \<open>
  \<open>lk_frames\<close> are the frames the controller took: those on which the session published that DATA was received. Their payloads are
  what was delivered.
\<close>

definition lk_delivered :: "link \<Rightarrow> bytes list" where
  "lk_delivered k = map lf_payload (lk_frames k)"

lemma lk_delivered_update [simp]:
  "lk_delivered (k\<lparr>lk_pump := p\<rparr>) = lk_delivered k" "lk_delivered (k\<lparr>lk_session := s\<rparr>) = lk_delivered k"
  "lk_delivered (k\<lparr>lk_frames := lk_frames k' @ [f]\<rparr>) = lk_delivered k' @ [lf_payload f]"
  "lk_delivered (k\<lparr>lk_frames := lk_frames k'\<rparr>) = lk_delivered k'"
  by (simp_all add: lk_delivered_def)

definition data_count :: "pump_session \<Rightarrow> nat" where
  "data_count s = length (of_type DATA_RECEIVED (cs_bus s))"

text \<open>The frame a controller reads after a poll, if any.\<close>

definition poll_reply :: "int \<Rightarrow> sim_pump \<Rightarrow> line_frame option \<times> sim_pump" where
  "poll_reply now p =
    (case pump_on_poll now p of
       (Inl e, p') \<Rightarrow> (None, p')
     | (Inr x, p') \<Rightarrow>
         (case xr_responses x of [] \<Rightarrow> (None, p')
          | wire # _ \<Rightarrow> (case parse_frame wire None DEFAULT_CRC_CANDIDATE of Inl e \<Rightarrow> (None, p') | Inr f \<Rightarrow> (Some f, p'))))"

text \<open>Damage that the checksum of a DATA frame shows; any other damaged answer is no answer.\<close>

definition on_the_line :: "loss \<Rightarrow> line_frame option \<Rightarrow> line_frame option" where
  "on_the_line l reply =
    (case reply of None \<Rightarrow> None
     | Some f \<Rightarrow>
         if l = Reply_lost then None
         else if l = Reply_damaged then (if lf_control_type f = CtDATA then Some (f\<lparr>lf_crc_valid := Some False\<rparr>) else None)
         else Some f)"

definition send_ack :: "sequence_policy \<Rightarrow> int \<Rightarrow> bytes \<Rightarrow> sim_pump \<Rightarrow> sim_pump" where
  "send_ack policy now ack p =
    (case parse_frame ack None DEFAULT_CRC_CANDIDATE of Inl e \<Rightarrow> p | Inr f \<Rightarrow> snd (pump_on_ack policy now f p))"

definition link_exchange :: "sequence_policy \<Rightarrow> int \<Rightarrow> loss \<Rightarrow> link \<Rightarrow> link" where
  "link_exchange policy now l k =
    (let (reply, p) = (if l = Poll_lost then (None, lk_pump k) else poll_reply now (lk_pump k)) in
     case on_the_line l reply of
       None \<Rightarrow> k\<lparr>lk_pump := p, lk_session := snd (on_timeout now 5 (lk_session k))\<rparr>
     | Some f \<Rightarrow>
         (case handle_response_frame now f (lk_session k) of (r, s) \<Rightarrow>
           k\<lparr>lk_pump := (case r of Inr (Some ack) \<Rightarrow> if l = Ack_lost then p else send_ack policy now ack p | _ \<Rightarrow> p),
             lk_session := s,
             lk_frames := (if data_count (lk_session k) < data_count s then lk_frames k @ [f] else lk_frames k)\<rparr>))"

text \<open>Between exchanges the pump queues reports.\<close>

datatype link_input = Exchange int loss | Report bytes outbound_label

fun link_step :: "sequence_policy \<Rightarrow> link \<Rightarrow> link_input \<Rightarrow> link" where
  "link_step policy k (Exchange now l) = link_exchange policy now l k"
| "link_step policy k (Report payload label) = k\<lparr>lk_pump := snd (queue_tx payload label (lk_pump k))\<rparr>"

section \<open>Stop and wait\<close>

record line_view =
  lv_queue :: "bytes list"
  lv_unacked :: "bytes option"
  lv_tx :: int
  lv_expected :: int
  lv_accepted :: "int option"
  lv_delivered :: "bytes list"

definition succ_seq :: "sequence_policy \<Rightarrow> int \<Rightarrow> int" where
  "succ_seq policy k = (case next_sequence k policy of Inr n \<Rightarrow> n | Inl e \<Rightarrow> k)"

definition abs_send :: "line_view \<Rightarrow> line_view" where
  "abs_send v = (case (lv_unacked v, lv_queue v) of
     (None, m # ms) \<Rightarrow> v\<lparr>lv_unacked := Some m, lv_queue := ms\<rparr> | _ \<Rightarrow> v)"

definition abs_accept :: "sequence_policy \<Rightarrow> bytes \<Rightarrow> line_view \<Rightarrow> line_view" where
  "abs_accept policy m v =
    (if lv_accepted v \<noteq> Some (lv_tx v) \<and> lv_tx v = lv_expected v
     then v\<lparr>lv_accepted := Some (lv_tx v), lv_expected := succ_seq policy (lv_tx v), lv_delivered := lv_delivered v @ [m]\<rparr>
     else v)"

definition abs_ack :: "sequence_policy \<Rightarrow> line_view \<Rightarrow> line_view" where
  "abs_ack policy v =
    (if lv_accepted v = Some (lv_tx v) then v\<lparr>lv_unacked := None, lv_tx := succ_seq policy (lv_tx v)\<rparr> else v)"

definition abs_exchange :: "sequence_policy \<Rightarrow> loss \<Rightarrow> line_view \<Rightarrow> line_view" where
  "abs_exchange policy l v =
    (if l = Poll_lost then v
     else let v1 = abs_send v in
       case lv_unacked v1 of None \<Rightarrow> v1
       | Some m \<Rightarrow>
           if l = Reply_lost \<or> l = Reply_damaged then v1
           else let v2 = abs_accept policy m v1 in if l = Ack_lost then v2 else abs_ack policy v2)"

fun abs_step :: "sequence_policy \<Rightarrow> line_view \<Rightarrow> link_input \<Rightarrow> line_view" where
  "abs_step policy v (Exchange now l) = abs_exchange policy l v"
| "abs_step policy v (Report payload label) = v\<lparr>lv_queue := lv_queue v @ [payload]\<rparr>"

text \<open>Everything reported is delivered, in flight or waiting; the two ends agree on the sequence number.\<close>

definition in_sync :: "sequence_policy \<Rightarrow> bytes list \<Rightarrow> line_view \<Rightarrow> bool" where
  "in_sync policy whole v \<longleftrightarrow> 0 \<le> lv_tx v \<and> lv_tx v \<le> 15 \<and>
    (if lv_accepted v = Some (lv_tx v)
     then lv_unacked v \<noteq> None \<and> lv_expected v = succ_seq policy (lv_tx v) \<and> lv_delivered v @ lv_queue v = whole
     else lv_expected v = lv_tx v \<and>
       lv_delivered v @ (case lv_unacked v of None \<Rightarrow> [] | Some m \<Rightarrow> [m]) @ lv_queue v = whole)"

definition reports :: "link_input list \<Rightarrow> bytes list" where
  "reports is = concat (map (\<lambda>i. case i of Report payload label \<Rightarrow> [payload] | _ \<Rightarrow> []) is)"

lemma reports_simps [simp]:
  "reports [] = []" "reports (is @ js) = reports is @ reports js"
  "reports (Exchange now l # is) = reports is" "reports (Report payload label # is) = payload # reports is"
  by (simp_all add: reports_def)

lemma succ_seq_range: "0 \<le> k \<Longrightarrow> k \<le> 15 \<Longrightarrow> 0 \<le> succ_seq policy k \<and> succ_seq policy k \<le> 15 \<and> succ_seq policy k \<noteq> k"
  using next_sequence_total [of k policy] by (auto simp: succ_seq_def)

lemma in_sync_send: "in_sync policy whole v \<Longrightarrow> in_sync policy whole (abs_send v)"
  by (auto simp: in_sync_def abs_send_def split: option.splits list.splits)

lemma in_sync_accept:
  "in_sync policy whole v \<Longrightarrow> lv_unacked v = Some m \<Longrightarrow>
    in_sync policy whole (abs_accept policy m v) \<and> lv_accepted (abs_accept policy m v) = Some (lv_tx v) \<and>
    lv_unacked (abs_accept policy m v) = Some m \<and> lv_tx (abs_accept policy m v) = lv_tx v \<and>
    lv_queue (abs_accept policy m v) = lv_queue v"
  by (cases "lv_accepted v = Some (lv_tx v)") (simp_all add: in_sync_def abs_accept_def)

lemma in_sync_ack: "in_sync policy whole v \<Longrightarrow> in_sync policy whole (abs_ack policy v)"
  using succ_seq_range [of "lv_tx v" policy] by (cases "lv_accepted v = Some (lv_tx v)") (simp_all add: in_sync_def abs_ack_def)

lemma in_sync_exchange: "in_sync policy whole v \<Longrightarrow> in_sync policy whole (abs_exchange policy l v)"
  using in_sync_send [of policy whole v] in_sync_accept [of policy whole "abs_send v"]
  by (auto simp: abs_exchange_def Let_def in_sync_ack split: option.split)

lemma in_sync_step: "in_sync policy whole v \<Longrightarrow> in_sync policy (whole @ reports [i]) (abs_step policy v i)"
proof (cases i)
  case (Exchange now l)
  then show "in_sync policy whole v \<Longrightarrow> ?thesis" by (simp add: in_sync_exchange)
next
  case (Report payload label)
  then show "in_sync policy whole v \<Longrightarrow> ?thesis" by (auto simp: in_sync_def)
qed

lemma in_sync_run: "in_sync policy whole v \<Longrightarrow> in_sync policy (whole @ reports is) (foldl (abs_step policy) v is)"
proof (induction "is" rule: rev_induct)
  case (snoc i "is")
  then show ?case using in_sync_step [of policy "whole @ reports is" _ i] by simp
qed simp

text \<open>An exchange without losses delivers what was in flight and leaves nothing in flight.\<close>

lemma lossless_exchange:
  assumes "in_sync policy whole v"
  defines "v' \<equiv> abs_exchange policy Nothing_lost v"
  shows "lv_unacked v' = None \<and> lv_queue v' = (if lv_unacked v = None then tl (lv_queue v) else lv_queue v)"
proof (cases "lv_unacked (abs_send v)")
  case None
  then show ?thesis
    by (auto simp: v'_def abs_exchange_def abs_send_def split: option.splits list.splits)
next
  case (Some m)
  from in_sync_accept [OF in_sync_send [OF assms(1)] Some] Some show ?thesis
    by (auto simp: v'_def abs_exchange_def abs_ack_def abs_send_def split: option.splits list.splits)
qed

lemma lossless_run:
  assumes "in_sync policy whole v" "length (lv_queue v) < length instants"
  shows "lv_delivered (foldl (abs_step policy) v (map (\<lambda>now. Exchange now Nothing_lost) instants)) = whole"
proof -
  have "length (lv_queue w) \<le> length ts \<Longrightarrow> lv_unacked w = None \<Longrightarrow> in_sync policy whole w \<Longrightarrow>
      lv_delivered (foldl (abs_step policy) w (map (\<lambda>now. Exchange now Nothing_lost) ts)) = whole" for w ts
  proof (induction ts arbitrary: w)
    case Nil
    then show ?case by (auto simp: in_sync_def split: if_splits)
  next
    case (Cons t ts)
    let ?w = "abs_exchange policy Nothing_lost w"
    have "lv_unacked ?w = None" "length (lv_queue ?w) \<le> length ts" "in_sync policy whole ?w"
      using lossless_exchange [OF Cons.prems(3)] Cons.prems in_sync_exchange by auto
    then show ?case using Cons.IH by simp
  qed
  moreover obtain t ts where "instants = t # ts" using assms(2) by (cases instants) auto
  moreover have "lv_unacked (abs_exchange policy Nothing_lost v) = None"
    "length (lv_queue (abs_exchange policy Nothing_lost v)) \<le> length (lv_queue v)"
    using lossless_exchange [OF assms(1)] by auto
  ultimately show ?thesis using assms in_sync_exchange by simp
qed


section \<open>What the bus shows of a frame\<close>

text \<open>
  The transactions of a frame, what the session publishes of each before it applies it, and what a bus shows of all of them. The
  session publishes both only in \<open>_on_data\<close>.
\<close>

definition transactions_of :: "int \<Rightarrow> line_frame \<Rightarrow> application_transaction list" where
  "transactions_of a f =
    (case decode_data_payload (lf_payload f) (frame_decode_args a f) of Inl e \<Rightarrow> [] | Inr b \<Rightarrow> db_transactions b)"

definition decoded_of :: "int \<Rightarrow> line_frame \<Rightarrow> event_payload list" where
  "decoded_of a f = map (\<lambda>tx. Decoded_payload (summary_of tx)) (transactions_of a f)"

definition decoded_on :: "pump_session \<Rightarrow> event_payload list" where
  "decoded_on s = map ce_payload (of_type APPLICATION_TRANSACTION_DECODED (cs_bus s))"

definition shows_data :: "event_payload list \<Rightarrow> nat \<Rightarrow> pump_session \<Rightarrow> bool" where
  "shows_data ds n s \<longleftrightarrow> decoded_on s = ds \<and> data_count s = n"

lemmas shows_defs = shows_data_def decoded_on_def data_count_def of_type_def

lemma shows_publish: "ty \<noteq> DATA_RECEIVED \<Longrightarrow> ty \<noteq> APPLICATION_TRANSACTION_DECODED \<Longrightarrow>
    keeps (shows_data ds n) (publish_event now ty d p)"
  by (auto simp: keeps_def shows_defs publish_event_def publish_def Let_def)

lemma shows_cong: "cs_bus s' = cs_bus s \<Longrightarrow> shows_data ds n s' = shows_data ds n s"
  by (simp add: shows_defs)

lemma shows_apply_sm: "keeps (shows_data ds n) (apply_sm now ev)"
  unfolding apply_sm_def Let_def publish_state_changed_def
  by (intro keeps_read_each keeps_then keeps_modify keeps_if keeps_return shows_publish) (simp_all add: shows_defs)

lemma shows_apply_mapped: "keeps (shows_data ds n) (apply_mapped_session now m)"
  unfolding apply_mapped_session_def Let_def publish_state_changed_def
  by (intro keeps_read_each keeps_then keeps_modify keeps_if keeps_return shows_publish) (simp_all add: shows_defs)

lemma shows_communication: "keeps (shows_data ds n) (set_communication now h)"
  unfolding set_communication_def Let_def
  by (intro keeps_read_each keeps_then keeps_modify keeps_if keeps_return shows_publish) (simp_all add: shows_defs)

lemma shows_start: "keeps (shows_data ds n) (start_if_disconnected now)"
  unfolding start_if_disconnected_def by (intro keeps_read_each keeps_if keeps_return shows_apply_sm)

lemma shows_eot: "keeps (shows_data ds n) (on_eot now f)"
  unfolding on_eot_def
  by (intro keeps_then keeps_modify keeps_return shows_publish shows_communication shows_start) (simp_all add: shows_defs)

lemma shows_nak: "keeps (shows_data ds n) (on_nak now f)"
  unfolding on_nak_def
  by (intro keeps_then keeps_modify keeps_return shows_publish) (simp_all add: shows_defs)

lemma shows_timeout: "keeps (shows_data ds n) (on_timeout now m)"
  unfolding on_timeout_def
  by (intro keeps_then keeps_modify keeps_return keeps_read_each keeps_if shows_publish shows_communication shows_apply_sm)
    (simp_all add: shows_defs)

lemma shows_reject: "keeps (shows_data ds n) (reject_data now err d g)"
  unfolding reject_data_def
  by (intro keeps_then keeps_modify keeps_return shows_publish) (simp_all add: shows_defs)

lemma shows_repeat: "keeps (shows_data ds n) (repeat_ack now q)"
  unfolding repeat_ack_def count_ack_def
  by (intro keeps_then keeps_bind keeps_modify keeps_return keeps_read_each keeps_result shows_publish) (simp_all add: shows_defs)

text \<open>A session without subscribers publishes every transaction of the payload it applies, in order.\<close>

lemma then_returns: "returns P m \<Longrightarrow> P s \<Longrightarrow> P (snd (m s)) \<and> snd (then_act m n s) = snd (n (snd (m s)))"
  unfolding returns_def by (fastforce simp: then_act_def bind_act_def split: prod.splits sum.splits)

lemma shows_transaction:
  assumes "quiet a policy e k s" "shows_data ds n s"
  shows "quiet a policy e k (snd (apply_transaction now tx s)) \<and>
    shows_data (ds @ [Decoded_payload (summary_of tx)]) n (snd (apply_transaction now tx s))"
proof -
  let ?m = "publish_event now APPLICATION_TRANSACTION_DECODED (Transaction_detail (at_type tx)) (Decoded_payload (summary_of tx))"
  let ?n = "read_act (\<lambda>s. apply_mapped_session now (map_wayne_observation tx (session_mapper_context s tx)))"
  have m: "quiet a policy e k (snd (?m s))" "snd (apply_transaction now tx s) = snd (?n (snd (?m s)))"
    using then_returns [OF publish_returns assms(1)] unfolding apply_transaction_def by blast+
  have "shows_data (ds @ [Decoded_payload (summary_of tx)]) n (snd (?m s))"
    using assms(2) by (auto simp: shows_defs publish_event_def publish_def Let_def)
  then have "shows_data (ds @ [Decoded_payload (summary_of tx)]) n (snd (?n (snd (?m s))))"
    by (rule keepsD [OF keeps_read_each [OF shows_apply_mapped]])
  moreover have "quiet a policy e k (snd (?n (snd (?m s))))"
    using apply_mapped_returns m(1) unfolding returns_def read_act_def by blast
  ultimately show ?thesis using m(2) by simp
qed

lemma shows_transactions:
  "quiet a policy e k s \<Longrightarrow> shows_data ds n s \<Longrightarrow>
    shows_data (ds @ map (\<lambda>tx. Decoded_payload (summary_of tx)) txs) n (snd (apply_transactions now txs s))"
proof (induction txs arbitrary: s ds)
  case (Cons tx txs)
  have "returns (quiet a policy e k) (apply_transaction now tx)"
    unfolding apply_transaction_def by (intro returns_intros publish_returns apply_mapped_returns)
  from then_returns [OF this Cons.prems(1), of "apply_transactions now txs"]
  have "snd (apply_transactions now (tx # txs) s) = snd (apply_transactions now txs (snd (apply_transaction now tx s)))"
    by (simp del: then_act_simp)
  then show ?case
    using Cons.IH [of "snd (apply_transaction now tx s)" "ds @ [Decoded_payload (summary_of tx)]"]
      shows_transaction [OF Cons.prems, of now tx] by simp
qed simp

lemma shows_decoded:
  assumes "quiet a policy e k s" "shows_data ds n s"
  shows "shows_data (ds @ decoded_of a f) n (snd (decode_and_apply now f s))"
proof -
  obtain b where b: "decode_data_payload (lf_payload f) (frame_decode_args a f) = Inr b"
    using decode_data_payload_kinds by blast
  have "cs_address s = a" using assms(1) by (simp add: quiet_def)
  with b shows_transactions [OF assms, of "db_transactions b" now] show ?thesis
    by (simp add: decode_and_apply_def bind_act_def decoded_of_def transactions_of_def)
qed

lemma shows_accept:
  assumes "quiet a policy e k s" "shows_data ds n s"
    and "build_ack a (lf_sequence f) = Inr ack" "next_sequence (lf_sequence f) policy = Inr m"
  shows "shows_data (ds @ decoded_of a f) (Suc n) (snd (accept_data now f s))"
proof -
  let ?g = "modify_act (\<lambda>s. (count_stat (\<lambda>t. t\<lparr>st_data_count := st_data_count t + 1\<rparr>) s)
        \<lparr>cs_consecutive_timeouts := 0, cs_last_valid_frame := Some (lf_raw_frame f)\<rparr>)"
  have g: "returns (quiet a policy e k) ?g" by (intro returns_basic quiet.frames(2) quiet.stats)
  note c = then_returns [OF set_communication_returns] and st = then_returns [OF start_returns]
  define s1 where "s1 = snd (start_if_disconnected now (snd (set_communication now Comm_HEALTHY (snd (?g s)))))"
  have q0: "quiet a policy e k (snd (?g s))" using then_returns [OF g assms(1)] by blast
  have q1: "quiet a policy e k s1" using c [OF q0] st unfolding s1_def by blast
  have o: "snd (observe_data now f s) = snd (decode_and_apply now f s1)"
    unfolding observe_data_def s1_def conjunct2 [OF then_returns [OF g assms(1)]] conjunct2 [OF c [OF q0]]
    by (rule conjunct2 [OF st]) (use c [OF q0] in blast)
  have "shows_data ds n (snd (?g s))" using assms(2) shows_cong [of "snd (?g s)" s] by simp
  then have "shows_data ds n s1" unfolding s1_def by (intro keepsD [OF shows_start] keepsD [OF shows_communication])
  from shows_decoded [OF q1 this, of f now] have d: "shows_data (ds @ decoded_of a f) n (snd (observe_data now f s))"
    by (simp add: o)
  have "quiet a policy e k (snd (observe_data now f s))"
    "snd (accept_data now f s) = snd (record_data now f (snd (observe_data now f s)))"
    using then_returns [OF observe_data_returns assms(1)] unfolding accept_data_def by blast+
  with d assms(3,4) show ?thesis
    by (auto simp: record_data_def bind_act_def count_ack_def publish_event_def publish_def quiet_def Let_def shows_defs)
qed

text \<open>What a session without subscribers shows after a frame of its pump: a fresh frame is taken and all of it is applied.\<close>

lemma shows_frame:
  assumes "quiet a policy e k s" "lf_address f = a" "shows_data ds n s"
    and ack: "lf_control_type f = CtDATA \<Longrightarrow> build_ack a (lf_sequence f) = Inr ack"
      "lf_control_type f = CtDATA \<Longrightarrow> next_sequence (lf_sequence f) policy = Inr m"
  shows "if lf_control_type f = CtDATA \<and> is_fresh s f
    then shows_data (ds @ decoded_of a f) (Suc n) (snd (handle_response_frame now f s))
    else shows_data ds n (snd (handle_response_frame now f s))"
proof -
  let ?m1 = "modify_act (\<lambda>s. s\<lparr>cs_last_raw_frame := Some (lf_raw_frame f), cs_last_response_at := Some now\<rparr>)"
  let ?m2 = "publish_event now FRAME_RECEIVED (Control_detail (lf_control_type f)) (Raw_hex_payload (hex_text (lf_raw_frame f)))"
  define s1 where "s1 = snd (?m2 (snd (?m1 s)))"
  have r: "returns (quiet a policy e k) ?m1" by (intro returns_basic quiet.frames(1))
  have q: "quiet a policy e k s1"
    using then_returns [OF r assms(1)] then_returns [OF publish_returns] unfolding s1_def by blast
  have "shows_data ds n (snd (?m1 s))" using assms(3) shows_cong [of "snd (?m1 s)" s] by simp
  then have d: "shows_data ds n s1" unfolding s1_def by (rule keepsD [OF shows_publish, rotated 2]) simp_all
  have "snd (handle_response_frame now f s) = snd ((case lf_control_type f of CtEOT \<Rightarrow> on_eot now f | CtDATA \<Rightarrow> on_data now f
        | CtNAK \<Rightarrow> on_nak now f | ct \<Rightarrow> then_act (modify_act (set_error (Error_unexpected_control ct))) (return_act None)) s1)"
  proof -
    obtain u where p: "?m2 (snd (?m1 s)) = (Inr u, s1)"
      using returnsD [OF publish_returns] then_returns [OF r assms(1)] unfolding s1_def by (metis snd_conv)
    have "cs_address s1 = a" using q by (simp add: quiet_def)
    with p assms(2) show ?thesis by (simp add: handle_response_frame_def)
  qed
  moreover have "is_fresh s1 f = is_fresh s f" using q assms(1) by (simp add: is_fresh_def quiet_def)
  moreover have "shows_data (ds @ decoded_of a f) (Suc n) (snd (on_data now f s1))"
    if "is_fresh s1 f" "lf_control_type f = CtDATA"
  proof -
    have "on_data now f s1 = accept_data now f s1" using that(1) by (auto simp: on_data_def is_fresh_def)
    then show ?thesis using shows_accept [OF q d ack] that(2) by simp
  qed
  moreover have "shows_data ds n (snd (on_data now f s1))" if "\<not> is_fresh s1 f"
    using that q assms(2) keepsD [OF shows_reject d] keepsD [OF shows_repeat d]
    by (auto simp: on_data_def is_fresh_def quiet_def)
  moreover have "shows_data ds n (set_error e1 s1)" for e1 using d shows_cong [of "set_error e1 s1" s1] by simp
  ultimately show ?thesis
    using keepsD [OF shows_eot d] keepsD [OF shows_nak d] by (cases "lf_control_type f") simp_all
qed

section \<open>The line implements stop and wait\<close>

definition unacked_payload :: "sim_pump \<Rightarrow> bytes option" where
  "unacked_payload p =
    (case (sp_awaiting_ack p, sp_last_wire p) of
       (Some k, Some w) \<Rightarrow> (case parse_frame w None DEFAULT_CRC_CANDIDATE of Inl e \<Rightarrow> None | Inr f \<Rightarrow> Some (lf_payload f))
     | _ \<Rightarrow> None)"

definition link_view :: "link \<Rightarrow> line_view" where
  "link_view k =
    \<lparr>lv_queue = map ot_payload (sp_pending (lk_pump k)), lv_unacked = unacked_payload (lk_pump k),
     lv_tx = sp_tx_sequence (lk_pump k), lv_expected = cs_expected_rx (lk_session k),
     lv_accepted = cs_last_accepted_rx (lk_session k), lv_delivered = lk_delivered k\<rparr>"

definition pump_ready :: "int \<Rightarrow> sim_pump \<Rightarrow> bool" where
  "pump_ready a p \<longleftrightarrow> cf_dart_address (sp_config p) = a \<and> 0 \<le> a \<and> a \<le> 255 \<and>
     0 \<le> sp_tx_sequence p \<and> sp_tx_sequence p \<le> 15 \<and>
     list_all (\<lambda>t. length (ot_payload t) \<le> max_payload) (sp_pending p) \<and>
     (sp_awaiting_ack p = None \<or> sp_awaiting_ack p = Some (sp_tx_sequence p) \<and>
       (\<exists>w f. sp_last_wire p = Some w \<and> parse_frame w None DEFAULT_CRC_CANDIDATE = Inr f \<and>
         is_data_frame_of f a (sp_tx_sequence p) (lf_payload f) w))"

definition link_ok :: "int \<Rightarrow> sequence_policy \<Rightarrow> link \<Rightarrow> bool" where
  "link_ok a policy k \<longleftrightarrow> pump_ready a (lk_pump k) \<and>
     quiet a policy (cs_expected_rx (lk_session k)) (cs_last_accepted_rx (lk_session k)) (lk_session k)"

fun fits :: "link_input \<Rightarrow> bool" where
  "fits (Exchange now l) = True"
| "fits (Report payload label) = (length payload \<le> max_payload)"

text \<open>What a poll gets: the block in flight again, the next block of the queue, or an EOT.\<close>

lemma poll_again:
  assumes "pump_ready a p" "sp_awaiting_ack p \<noteq> None"
  shows "\<exists>f m. unacked_payload p = Some m \<and> poll_reply now p = (Some f, p) \<and>
    lf_address f = a \<and> lf_control_type f = CtDATA \<and> lf_sequence f = sp_tx_sequence p \<and> lf_payload f = m \<and>
    lf_crc_valid f = Some True"
  using assms
  by (auto simp: pump_ready_def poll_reply_def pump_on_poll_def exchange_def unacked_payload_def is_data_frame_of_def)

lemma poll_next:
  assumes "pump_ready a p" "sp_awaiting_ack p = None" "sp_pending p = t # ts"
  shows "\<exists>f p'. poll_reply now p = (Some f, p') \<and> pump_ready a p' \<and> sp_awaiting_ack p' \<noteq> None \<and>
    unacked_payload p' = Some (ot_payload t) \<and> sp_pending p' = ts \<and> sp_tx_sequence p' = sp_tx_sequence p \<and>
    lf_address f = a \<and> lf_control_type f = CtDATA \<and> lf_sequence f = sp_tx_sequence p \<and> lf_payload f = ot_payload t \<and>
    lf_crc_valid f = Some True"
proof -
  have rng: "0 \<le> a" "a \<le> 255" "0 \<le> sp_tx_sequence p" "sp_tx_sequence p \<le> 15" "length (ot_payload t) \<le> max_payload"
    and addr: "cf_dart_address (sp_config p) = a" and pend: "list_all (\<lambda>t. length (ot_payload t) \<le> max_payload) ts"
    using assms by (simp_all add: pump_ready_def)
  obtain w f where w: "build_data_frame a (sp_tx_sequence p) (ot_payload t) None DEFAULT_CRC_CANDIDATE = Inr w"
    "parse_frame w None DEFAULT_CRC_CANDIDATE = Inr f" "is_data_frame_of f a (sp_tx_sequence p) (ot_payload t) w"
    using data_frame_parses [OF rng] by blast
  have "poll_reply now p = (Some f, p\<lparr>sp_pending := ts, sp_awaiting_ack := Some (sp_tx_sequence p),
      sp_data_pending_since := Some now, sp_last_wire := Some w\<rparr>)"
    using assms(2,3) w addr
    by (simp add: poll_reply_def pump_on_poll_def has_pending_def pop_pending_payload_def bind_act_def exchange_def Let_def)
  then show ?thesis
    using rng addr pend w by (auto simp: pump_ready_def unacked_payload_def is_data_frame_of_def)
qed

lemma poll_idle:
  assumes "pump_ready a p" "sp_awaiting_ack p = None" "sp_pending p = []"
  shows "\<exists>f. poll_reply now p = (Some f, p) \<and> lf_address f = a \<and> lf_control_type f = CtEOT"
proof -
  have rng: "0 \<le> a" "a \<le> 255" "composable CtEOT (sp_tx_sequence p)" and addr: "cf_dart_address (sp_config p) = a"
    using assms(1) by (simp_all add: pump_ready_def composable_def)
  obtain w f where "build_eot a (sp_tx_sequence p) = Inr w" "parse_frame w None DEFAULT_CRC_CANDIDATE = Inr f"
    "is_control_frame_of f a CtEOT (sp_tx_sequence p) w"
    using control_frame_parses [OF rng, of None DEFAULT_CRC_CANDIDATE] by (auto simp: build_eot_def)
  then show ?thesis
    using assms(2,3) addr
    by (auto simp: poll_reply_def pump_on_poll_def has_pending_def bind_act_def exchange_def is_control_frame_of_def)
qed

lemma ack_moves_on:
  assumes "pump_ready a p" "sp_awaiting_ack p \<noteq> None" "build_ack a (sp_tx_sequence p) = Inr ack"
  shows "pump_ready a (send_ack policy now ack p) \<and> unacked_payload (send_ack policy now ack p) = None \<and>
    sp_pending (send_ack policy now ack p) = sp_pending p \<and>
    sp_tx_sequence (send_ack policy now ack p) = succ_seq policy (sp_tx_sequence p)"
proof -
  have rng: "0 \<le> a" "a \<le> 255" "composable CtACK (sp_tx_sequence p)" and tx: "0 \<le> sp_tx_sequence p" "sp_tx_sequence p \<le> 15"
    using assms(1) by (simp_all add: pump_ready_def composable_def)
  obtain f where f: "parse_frame ack None DEFAULT_CRC_CANDIDATE = Inr f" "lf_sequence f = sp_tx_sequence p"
    using control_frame_parses [OF rng, of None DEFAULT_CRC_CANDIDATE] assms(3)
    by (auto simp: build_ack_def is_control_frame_of_def)
  obtain n where n: "next_sequence (sp_tx_sequence p) policy = Inr n" "0 \<le> n" "n \<le> 15"
    using next_sequence_total [OF tx] by blast
  have "sp_awaiting_ack p = Some (sp_tx_sequence p)" using assms(1,2) by (auto simp: pump_ready_def)
  with f n have "send_ack policy now ack p = p\<lparr>sp_tx_sequence := n, sp_awaiting_ack := None,
      sp_data_pending_since := None, sp_last_wire := None\<rparr>"
    by (simp add: send_ack_def pump_on_ack_def bind_act_def)
  with n assms(1) show ?thesis
    by (simp add: pump_ready_def unacked_payload_def succ_seq_def)
qed

text \<open>The session's side of an exchange.\<close>

lemma count_data_frame:
  assumes "quiet a policy e k s" "lf_address f = a" "lf_control_type f = CtDATA"
    and "build_ack a (lf_sequence f) = Inr ack" "next_sequence (lf_sequence f) policy = Inr m"
  shows "data_count (snd (handle_response_frame now f s)) = (if is_fresh s f then Suc (data_count s) else data_count s)"
  using shows_frame [OF assms(1,2) _ assms(4,5), of "decoded_on s" "data_count s" now] assms(3)
  by (auto simp: shows_data_def split: if_splits)

lemma count_eot_frame:
  assumes "quiet a policy e k s" "lf_address f = a" "lf_control_type f = CtEOT"
  shows "data_count (snd (handle_response_frame now f s)) = data_count s"
  using shows_frame [OF assms(1,2), of "decoded_on s" "data_count s" _ _ now] assms(3)
  by (auto simp: shows_data_def)

lemma session_times_out:
  "quiet a policy e k s \<Longrightarrow> quiet a policy e k (snd (on_timeout now m s))"
  by (rule keepsD [OF quiet.on_timeout_keeps])

lemma link_ok_timeout:
  assumes "link_ok a policy k" "pump_ready a p"
  shows "link_ok a policy (k\<lparr>lk_pump := p, lk_session := snd (on_timeout now 5 (lk_session k))\<rparr>) \<and>
    link_view (k\<lparr>lk_pump := p, lk_session := snd (on_timeout now 5 (lk_session k))\<rparr>) = link_view (k\<lparr>lk_pump := p\<rparr>)"
proof -
  have "quiet a policy (cs_expected_rx (lk_session k)) (cs_last_accepted_rx (lk_session k))
      (snd (on_timeout now 5 (lk_session k)))"
    using assms(1) session_times_out by (simp add: link_ok_def)
  moreover from this have "cs_expected_rx (snd (on_timeout now 5 (lk_session k))) = cs_expected_rx (lk_session k)"
    "cs_last_accepted_rx (snd (on_timeout now 5 (lk_session k))) = cs_last_accepted_rx (lk_session k)"
    by (simp_all add: quiet_def)
  ultimately show ?thesis using assms(2) by (simp add: link_ok_def link_view_def)
qed

lemma exchange_idle:
  assumes "link_ok a policy k" "poll_reply now (lk_pump k) = (Some f, lk_pump k)" "lf_address f = a" "lf_control_type f = CtEOT"
  shows "link_ok a policy (link_exchange policy now l k) \<and> link_view (link_exchange policy now l k) = link_view k"
proof -
  have q: "quiet a policy (cs_expected_rx (lk_session k)) (cs_last_accepted_rx (lk_session k)) (lk_session k)"
    and r: "pump_ready a (lk_pump k)" using assms(1) by (simp_all add: link_ok_def)
  obtain s where s: "handle_response_frame now f (lk_session k) = (Inr None, s)"
    "quiet a policy (cs_expected_rx (lk_session k)) (cs_last_accepted_rx (lk_session k)) s"
    using quiet_handle_eot [OF q assms(3,4)] by blast
  have "data_count s = data_count (lk_session k)" using count_eot_frame [OF q assms(3,4), of now] s(1) by simp
  moreover
  have "cs_expected_rx s = cs_expected_rx (lk_session k)" "cs_last_accepted_rx s = cs_last_accepted_rx (lk_session k)"
    using s(2) by (simp_all add: quiet_def)
  ultimately have heard: ?thesis if "l = Ack_lost \<or> l = Nothing_lost"
    using s r assms(2,4) that by (auto simp: link_exchange_def on_the_line_def link_ok_def link_view_def)
  have "link_exchange policy now l k = k\<lparr>lk_pump := lk_pump k, lk_session := snd (on_timeout now 5 (lk_session k))\<rparr>"
    if "\<not> (l = Ack_lost \<or> l = Nothing_lost)"
    using that assms(2,4) by (cases l) (simp_all add: link_exchange_def on_the_line_def)
  with link_ok_timeout [OF assms(1) r, of now] heard show ?thesis by fastforce
qed

lemma exchange_data:
  assumes ok: "link_ok a policy k" and l: "l \<noteq> Poll_lost" and reply: "poll_reply now (lk_pump k) = (Some f, p)"
    and f: "lf_address f = a" "lf_control_type f = CtDATA" "lf_sequence f = sp_tx_sequence p" "lf_payload f = m"
      "lf_crc_valid f = Some True"
    and p: "pump_ready a p" "sp_awaiting_ack p \<noteq> None" "unacked_payload p = Some m"
  shows "link_ok a policy (link_exchange policy now l k) \<and> link_view (link_exchange policy now l k) =
    (let v1 = link_view (k\<lparr>lk_pump := p\<rparr>); v2 = abs_accept policy m v1 in
     if l = Reply_lost \<or> l = Reply_damaged then v1 else if l = Ack_lost then v2 else abs_ack policy v2)"
proof -
  let ?s = "lk_session k" and ?e = "cs_expected_rx (lk_session k)" and ?k = "cs_last_accepted_rx (lk_session k)"
  have q: "quiet a policy ?e ?k ?s" using ok by (simp add: link_ok_def)
  have tx: "0 \<le> sp_tx_sequence p" "sp_tx_sequence p \<le> 15" "0 \<le> a" "a \<le> 255" using p(1) by (simp_all add: pump_ready_def)
  obtain ack where ack: "build_ack a (sp_tx_sequence p) = Inr ack" using build_ack_total tx by blast
  obtain n where n: "next_sequence (sp_tx_sequence p) policy = Inr n" using next_sequence_total tx by blast
  note moves = ack_moves_on [OF p(1,2) ack, of policy now]
  have fresh: "is_fresh ?s f \<longleftrightarrow> ?k \<noteq> Some (sp_tx_sequence p) \<and> sp_tx_sequence p = ?e"
    using q f by (simp add: is_fresh_def quiet_def)
  have count: "data_count (snd (handle_response_frame now f ?s)) =
      (if ?k \<noteq> Some (sp_tx_sequence p) \<and> sp_tx_sequence p = ?e then Suc (data_count ?s) else data_count ?s)"
    using count_data_frame [OF q, of f ack n now] f ack n fresh by simp
  show ?thesis
  proof (cases "l = Reply_lost \<or> l = Reply_damaged")
    case True
    then show ?thesis
    proof
      assume "l = Reply_lost"
      then show ?thesis
        using link_ok_timeout [OF ok p(1), of now] reply by (simp add: link_exchange_def on_the_line_def)
    next
      assume d: "l = Reply_damaged"
      let ?f = "f\<lparr>lf_crc_valid := Some False\<rparr>"
      obtain s where "handle_response_frame now ?f ?s = (Inr None, s)" "quiet a policy ?e ?k s"
        using quiet_handle_data [OF q, of ?f ack n now] f ack n by auto
      moreover from this have "cs_expected_rx s = ?e" "cs_last_accepted_rx s = ?k" by (simp_all add: quiet_def)
      moreover have "data_count s = data_count ?s"
        using count_data_frame [OF q, of ?f ack n now] f ack n \<open>handle_response_frame now ?f ?s = (Inr None, s)\<close>
        by (simp add: is_fresh_def)
      ultimately show ?thesis
        using d reply f p(1) by (simp add: link_exchange_def on_the_line_def link_ok_def link_view_def is_fresh_def)
    qed
  next
    case False
    consider (again) "?k = Some (sp_tx_sequence p)" | (next_block) "?k \<noteq> Some (sp_tx_sequence p)" "sp_tx_sequence p = ?e"
      | (other) "?k \<noteq> Some (sp_tx_sequence p)" "sp_tx_sequence p \<noteq> ?e" by blast
    then show ?thesis
    proof cases
      case again
      obtain s where s: "handle_response_frame now f ?s = (Inr (Some ack), s)" "quiet a policy ?e ?k s"
        using quiet_handle_data [OF q, of f ack n now] f ack n again by auto
      then have "cs_expected_rx s = ?e" "cs_last_accepted_rx s = ?k" by (simp_all add: quiet_def)
      with s show ?thesis
        using False l reply f p moves count again
        by (cases l) (simp_all add: link_exchange_def on_the_line_def link_ok_def link_view_def abs_accept_def abs_ack_def)
    next
      case next_block
      obtain s where s: "handle_response_frame now f ?s = (Inr (Some ack), s)" "quiet a policy n (Some (sp_tx_sequence p)) s"
        using quiet_handle_data [OF q, of f ack n now] f ack n next_block by auto
      then have "cs_expected_rx s = n" "cs_last_accepted_rx s = Some (sp_tx_sequence p)" by (simp_all add: quiet_def)
      with s show ?thesis
        using False l reply f p moves count next_block n
        by (cases l)
          (simp_all add: link_exchange_def on_the_line_def link_ok_def link_view_def abs_accept_def abs_ack_def succ_seq_def)
    next
      case other
      obtain s where s: "handle_response_frame now f ?s = (Inr None, s)" "quiet a policy ?e ?k s"
        using quiet_handle_data [OF q, of f ack n now] f ack n other by auto
      then have "cs_expected_rx s = ?e" "cs_last_accepted_rx s = ?k" by (simp_all add: quiet_def)
      with s show ?thesis
        using False l reply f p count other
        by (cases l) (simp_all add: link_exchange_def on_the_line_def link_ok_def link_view_def abs_accept_def abs_ack_def)
    qed
  qed
qed

lemma exchange_simulated:
  assumes ok: "link_ok a policy k"
  shows "link_ok a policy (link_exchange policy now l k) \<and>
    link_view (link_exchange policy now l k) = abs_exchange policy l (link_view k)"
proof (cases "l = Poll_lost")
  case True
  have r: "pump_ready a (lk_pump k)" using ok by (simp add: link_ok_def)
  have "link_exchange policy now l k = k\<lparr>lk_pump := lk_pump k, lk_session := snd (on_timeout now 5 (lk_session k))\<rparr>"
    using True by (simp add: link_exchange_def on_the_line_def)
  with link_ok_timeout [OF ok r, of now] True show ?thesis by (simp add: abs_exchange_def)
next
  case False
  have r: "pump_ready a (lk_pump k)" using ok by (simp add: link_ok_def)
  show ?thesis
  proof (cases "sp_awaiting_ack (lk_pump k) = None")
    case True
    then have none: "unacked_payload (lk_pump k) = None" by (simp add: unacked_payload_def)
    show ?thesis
    proof (cases "sp_pending (lk_pump k)")
      case Nil
      with poll_idle [OF r True Nil] exchange_idle [OF ok] show ?thesis
        using False none by (fastforce simp: abs_exchange_def abs_send_def link_view_def)
    next
      case (Cons t ts)
      from poll_next [OF r True Cons] obtain f p where p: "poll_reply now (lk_pump k) = (Some f, p)" "pump_ready a p"
        "sp_awaiting_ack p \<noteq> None" "unacked_payload p = Some (ot_payload t)" "sp_pending p = ts"
        "sp_tx_sequence p = sp_tx_sequence (lk_pump k)" "lf_address f = a" "lf_control_type f = CtDATA"
        "lf_sequence f = sp_tx_sequence (lk_pump k)" "lf_payload f = ot_payload t" "lf_crc_valid f = Some True" by blast
      have "abs_send (link_view k) = link_view (k\<lparr>lk_pump := p\<rparr>)"
        using p none Cons by (simp add: abs_send_def link_view_def)
      moreover have "lv_unacked (link_view (k\<lparr>lk_pump := p\<rparr>)) = Some (ot_payload t)" using p by (simp add: link_view_def)
      ultimately show ?thesis
        using exchange_data [OF ok False p(1,7,8) _ p(10,11,2,3,4)] False p(6,9) by (simp add: abs_exchange_def Let_def)
    qed
  next
    case awaiting: False
    from poll_again [OF r awaiting] obtain f m where p: "unacked_payload (lk_pump k) = Some m"
      "poll_reply now (lk_pump k) = (Some f, lk_pump k)" "lf_address f = a" "lf_control_type f = CtDATA"
      "lf_sequence f = sp_tx_sequence (lk_pump k)" "lf_payload f = m" "lf_crc_valid f = Some True" by blast
    have "abs_send (link_view k) = link_view k" "lv_unacked (link_view k) = Some m"
      using p(1) by (simp_all add: abs_send_def link_view_def)
    with exchange_data [OF ok False p(2,3,4,5,6,7) r awaiting p(1)] False show ?thesis
      by (simp add: abs_exchange_def Let_def)
  qed
qed

lemma report_simulated:
  assumes "link_ok a policy k" "length payload \<le> max_payload"
  shows "link_ok a policy (link_step policy k (Report payload label)) \<and>
    link_view (link_step policy k (Report payload label)) = abs_step policy (link_view k) (Report payload label)"
  using assms by (simp add: link_ok_def pump_ready_def link_view_def queue_tx_def unacked_payload_def)

interpretation line: simulation "link_step policy" "abs_step policy" link_view "link_ok a policy" fits for a policy
proof
  show "link_ok a policy c \<Longrightarrow> fits i \<Longrightarrow> link_ok a policy (link_step policy c i)" for c i
    using exchange_simulated report_simulated by (cases i) auto
  show "link_ok a policy c \<Longrightarrow> fits i \<Longrightarrow> link_view (link_step policy c i) = abs_step policy (link_view c) i" for c i
    using exchange_simulated report_simulated by (cases i) auto
qed

section \<open>Exactly once, in order\<close>

definition new_link :: "pump_config \<Rightarrow> sequence_policy \<Rightarrow> link" where
  "new_link cfg policy =
    \<lparr>lk_pump = new_sim_pump cfg, lk_session = new_pump_session (cf_dart_address cfg) (cf_pump_id cfg) new_bus policy,
     lk_frames = []\<rparr>"

lemma link_view_delivered: "lv_delivered (link_view k) = lk_delivered k"
  by (simp add: link_view_def)

lemma new_link_ok:
  assumes "0 \<le> cf_dart_address cfg" "cf_dart_address cfg \<le> 255"
  shows "link_ok (cf_dart_address cfg) policy (new_link cfg policy)" "in_sync policy [] (link_view (new_link cfg policy))"
  using assms
  by (simp_all add: link_ok_def new_link_def pump_ready_def new_sim_pump_def quiet_def new_pump_session_def new_bus_def
      in_sync_def link_view_def unacked_payload_def lk_delivered_def)

lemma link_run_in_sync:
  assumes "0 \<le> cf_dart_address cfg" "cf_dart_address cfg \<le> 255" "list_all fits is"
  shows "link_ok (cf_dart_address cfg) policy (foldl (link_step policy) (new_link cfg policy) is)"
    "in_sync policy (reports is) (link_view (foldl (link_step policy) (new_link cfg policy) is))"
  using line.run_simulated [OF new_link_ok(1) [OF assms(1,2)] assms(3), of policy]
    in_sync_run [OF new_link_ok(2) [OF assms(1,2)], of policy "is"] by simp_all

text \<open>The bus shows every frame that was taken, each applied once.\<close>

definition log_ok :: "int \<Rightarrow> link \<Rightarrow> bool" where
  "log_ok a k \<longleftrightarrow> shows_data (concat (map (decoded_of a) (lk_frames k))) (length (lk_frames k)) (lk_session k)"

lemma log_timeout:
  "log_ok a k \<Longrightarrow> log_ok a (k\<lparr>lk_pump := p, lk_session := snd (on_timeout now 5 (lk_session k))\<rparr>)"
  by (simp add: log_ok_def keepsD [OF shows_timeout])

lemma log_heard:
  assumes "log_ok a k" "link_ok a policy k" "lf_address f = a"
    and ack: "lf_control_type f = CtDATA \<Longrightarrow> build_ack a (lf_sequence f) = Inr ack"
      "lf_control_type f = CtDATA \<Longrightarrow> next_sequence (lf_sequence f) policy = Inr m"
    and s: "snd (handle_response_frame now f (lk_session k)) = s"
  shows "log_ok a (k\<lparr>lk_pump := p, lk_session := s,
    lk_frames := (if data_count (lk_session k) < data_count s then lk_frames k @ [f] else lk_frames k)\<rparr>)"
proof -
  have q: "quiet a policy (cs_expected_rx (lk_session k)) (cs_last_accepted_rx (lk_session k)) (lk_session k)"
    using assms(2) by (simp add: link_ok_def)
  have n: "data_count (lk_session k) = length (lk_frames k)" using assms(1) by (simp add: log_ok_def shows_data_def)
  have "if lf_control_type f = CtDATA \<and> is_fresh (lk_session k) f
    then shows_data (concat (map (decoded_of a) (lk_frames k)) @ decoded_of a f) (Suc (length (lk_frames k))) s
    else shows_data (concat (map (decoded_of a) (lk_frames k))) (length (lk_frames k)) s"
    using shows_frame [OF q assms(3) assms(1) [unfolded log_ok_def] ack, of now] unfolding s .
  with n show ?thesis by (auto simp: log_ok_def shows_data_def split: if_splits)
qed

lemma log_exchange:
  assumes "log_ok a k" "link_ok a policy k"
  shows "log_ok a (link_exchange policy now l k)"
proof -
  have r: "pump_ready a (lk_pump k)" using assms(2) by (simp add: link_ok_def)
  then have tx: "0 \<le> sp_tx_sequence (lk_pump k)" "sp_tx_sequence (lk_pump k) \<le> 15" "0 \<le> a" "a \<le> 255"
    by (simp_all add: pump_ready_def)
  have "\<exists>f p. poll_reply now (lk_pump k) = (Some f, p) \<and> lf_address f = a \<and>
      (lf_control_type f = CtEOT \<or> lf_control_type f = CtDATA \<and> lf_sequence f = sp_tx_sequence (lk_pump k))"
  proof (cases "sp_awaiting_ack (lk_pump k) = None")
    case True
    then show ?thesis
      using poll_idle [OF r True, of now] poll_next [OF r True, of _ _ now] by (cases "sp_pending (lk_pump k)") blast+
  next
    case False
    then show ?thesis using poll_again [OF r, of now] by blast
  qed
  then obtain f p where f: "poll_reply now (lk_pump k) = (Some f, p)" "lf_address f = a"
    "lf_control_type f = CtEOT \<or> lf_control_type f = CtDATA \<and> lf_sequence f = sp_tx_sequence (lk_pump k)" by blast
  obtain ack m where ack: "build_ack a (sp_tx_sequence (lk_pump k)) = Inr ack"
    "next_sequence (sp_tx_sequence (lk_pump k)) policy = Inr m"
    using build_ack_total next_sequence_total tx by blast
  have heard: "log_ok a (case handle_response_frame now g (lk_session k) of (r, s) \<Rightarrow> k\<lparr>lk_pump := h r, lk_session := s,
      lk_frames := (if data_count (lk_session k) < data_count s then lk_frames k @ [g] else lk_frames k)\<rparr>)"
    if "g = f \<or> g = f\<lparr>lf_crc_valid := Some False\<rparr>" for g h
  proof -
    obtain r s where s: "handle_response_frame now g (lk_session k) = (r, s)" by fastforce
    have "log_ok a (k\<lparr>lk_pump := h r, lk_session := s,
        lk_frames := (if data_count (lk_session k) < data_count s then lk_frames k @ [g] else lk_frames k)\<rparr>)"
      by (rule log_heard [OF assms, of g ack m now]) (use that f ack s in auto)
    then show ?thesis by (simp only: s prod.case)
  qed
  show ?thesis
    unfolding link_exchange_def
    using heard log_timeout [OF assms(1)] log_timeout [OF assms(1), of now "lk_pump k"] f(1) by (cases l) (auto simp: on_the_line_def Let_def split: prod.split)
qed

lemma log_step: "log_ok a k \<Longrightarrow> link_ok a policy k \<Longrightarrow> log_ok a (link_step policy k i)"
  using log_exchange by (cases i) (auto simp: log_ok_def)

lemma log_run:
  "log_ok a k \<Longrightarrow> link_ok a policy k \<Longrightarrow> list_all fits is \<Longrightarrow> log_ok a (foldl (link_step policy) k is)"
proof (induction "is" arbitrary: k)
  case (Cons i "is")
  then show ?case using log_step line.step_ok [of a policy k i] by simp
qed simp

text \<open>
  C1. Reports arrive exactly once and in order: whatever polls, answers and acknowledgements the line loses or damages, the
  payloads of the frames the controller has taken are a prefix of the payloads the pump has reported, and what is missing is still
  in the pump, at most one of it in flight. The session has published one reception for each frame it took, and it has decoded
  and handed to its machine exactly the transactions of these frames, each frame's once, in the order of the reports.
\<close>

theorem reports_arrive_once_in_order:
  assumes "0 \<le> cf_dart_address cfg" "cf_dart_address cfg \<le> 255" "list_all fits is"
  shows "\<exists>frames in_flight. length in_flight \<le> 1 \<and>
    map lf_payload frames @ in_flight @
      map ot_payload (sp_pending (lk_pump (foldl (link_step policy) (new_link cfg policy) is))) = reports is \<and>
    length (of_type DATA_RECEIVED (cs_bus (lk_session (foldl (link_step policy) (new_link cfg policy) is)))) = length frames \<and>
    map ce_payload (of_type APPLICATION_TRANSACTION_DECODED
        (cs_bus (lk_session (foldl (link_step policy) (new_link cfg policy) is)))) =
      concat (map (decoded_of (cf_dart_address cfg)) frames)"
proof -
  let ?k = "foldl (link_step policy) (new_link cfg policy) is"
  let ?none = "lv_accepted (link_view ?k) = Some (lv_tx (link_view ?k)) \<or> lv_unacked (link_view ?k) = None"
  let ?flight = "if ?none then [] else [the (lv_unacked (link_view ?k))]"
  have "lv_delivered (link_view ?k) @ ?flight @ lv_queue (link_view ?k) = reports is"
    using link_run_in_sync(2) [OF assms, of policy] by (auto simp: in_sync_def split: if_splits)
  moreover have "log_ok (cf_dart_address cfg) (new_link cfg policy)"
    by (simp add: log_ok_def shows_defs new_link_def new_pump_session_def new_bus_def)
  from log_run [OF this new_link_ok(1) [OF assms(1,2)] assms(3)] have "log_ok (cf_dart_address cfg) ?k" .
  ultimately show ?thesis
    by (intro exI [of _ "lk_frames ?k"] exI [of _ ?flight])
      (simp add: link_view_def lk_delivered_def log_ok_def shows_data_def decoded_on_def data_count_def)
qed

text \<open>
  C18. Losses only delay: after any history of losses, as many undisturbed exchanges as there are waiting reports, and one
  more, deliver everything that was ever reported.
\<close>

theorem reports_arrive_eventually:
  assumes "0 \<le> cf_dart_address cfg" "cf_dart_address cfg \<le> 255" "list_all fits is"
    and "length instants = 1 + length (sp_pending (lk_pump (foldl (link_step policy) (new_link cfg policy) is)))"
  shows "lk_delivered (foldl (link_step policy) (new_link cfg policy)
      (is @ map (\<lambda>now. Exchange now Nothing_lost) instants)) = reports is"
proof -
  let ?k = "foldl (link_step policy) (new_link cfg policy) is" and ?es = "map (\<lambda>now. Exchange now Nothing_lost) instants"
  have "list_all fits ?es" by (simp add: list_all_iff)
  from line.run_simulated [OF link_run_in_sync(1) [OF assms(1-3)] this, of policy]
  have "link_view (foldl (link_step policy) ?k ?es) = foldl (abs_step policy) (link_view ?k) ?es" by blast
  moreover have "lv_delivered (foldl (abs_step policy) (link_view ?k) ?es) = reports is"
    by (rule lossless_run [OF link_run_in_sync(2) [OF assms(1-3)]]) (simp add: assms(4) link_view_def)
  ultimately have "lv_delivered (link_view (foldl (link_step policy) ?k ?es)) = reports is" by simp
  then show ?thesis by (simp only: foldl_append link_view_delivered)
qed

definition one_pump :: pump_config where
  "one_pump = \<lparr>cf_pump_id = ''fp-1'', cf_dart_address = 1, cf_nozzle_count = 2, cf_default_price = 1175,
     cf_filling = \<lparr>fc_flow_rate = 1 / 2, fc_interval_ms = 200, fc_volume_decimals = 3, fc_amount_decimals = 2,
       fc_price_decimals = 2, fc_preset_volume = None, fc_preset_amount = None, fc_natural_complete = 40000\<rparr>\<rparr>"

theorem reports_arrive_once_in_order_witness:
  "\<exists>frames in_flight. length in_flight \<le> 1 \<and>
    map lf_payload frames @ in_flight @
      map ot_payload (sp_pending (lk_pump (foldl (link_step SPEC_F_TO_1) (new_link one_pump SPEC_F_TO_1)
        [Report [1, 1, 5] DC1_STATUS, Exchange 0 Ack_lost, Exchange 30 Reply_damaged]))) =
      reports [Report [1, 1, 5] DC1_STATUS, Exchange 0 Ack_lost, Exchange 30 Reply_damaged] \<and>
    length (of_type DATA_RECEIVED (cs_bus (lk_session (foldl (link_step SPEC_F_TO_1) (new_link one_pump SPEC_F_TO_1)
        [Report [1, 1, 5] DC1_STATUS, Exchange 0 Ack_lost, Exchange 30 Reply_damaged])))) =
      length frames \<and>
    map ce_payload (of_type APPLICATION_TRANSACTION_DECODED (cs_bus (lk_session (foldl (link_step SPEC_F_TO_1) (new_link one_pump SPEC_F_TO_1)
        [Report [1, 1, 5] DC1_STATUS, Exchange 0 Ack_lost, Exchange 30 Reply_damaged])))) =
      concat (map (decoded_of (cf_dart_address one_pump)) frames)"
  by (rule reports_arrive_once_in_order) (simp_all add: one_pump_def max_payload_def line_consts)

theorem reports_arrive_eventually_witness:
  "lk_delivered (foldl (link_step SPEC_F_TO_1) (new_link one_pump SPEC_F_TO_1)
      ([Report [1, 1, 5] DC1_STATUS] @ map (\<lambda>now. Exchange now Nothing_lost) [0, 30])) =
    reports [Report [1, 1, 5] DC1_STATUS]"
  by (rule reports_arrive_eventually)
    (simp_all add: one_pump_def max_payload_def line_consts queue_tx_def new_link_def new_sim_pump_def)

section \<open>A restart of the pump\<close>

definition stalled :: "bytes list \<Rightarrow> line_view \<Rightarrow> bool" where
  "stalled ms v \<longleftrightarrow> lv_tx v = 0 \<and> lv_expected v \<noteq> 0 \<and> lv_accepted v \<noteq> Some 0 \<and> lv_delivered v = ms"

lemma stalled_step: "stalled ms v \<Longrightarrow> stalled ms (abs_step policy v i)"
proof (cases i)
  case (Exchange now l)
  assume v: "stalled ms v"
  then have s: "stalled ms (abs_send v)" by (simp add: stalled_def abs_send_def split: option.split list.split)
  then have "abs_accept policy m (abs_send v) = abs_send v" "abs_ack policy (abs_send v) = abs_send v" for m
    by (simp_all add: stalled_def abs_accept_def abs_ack_def)
  with s v show ?thesis by (simp add: Exchange abs_exchange_def Let_def split: option.split)
qed (simp add: stalled_def)

interpretation stall: preserved "abs_step policy" "stalled ms" for policy ms
  by unfold_locales (rule stalled_step)

text \<open>
  A restart of the pump stops the line for good: an IAP (or a power cycle) puts the pump's sequence number back to 0, and a
  session that is past its first reports rejects every block numbered 0 without an ACK, so that whatever
  happens on the line afterwards, losses or none, nothing the pump reports is ever delivered again.
\<close>

theorem restart_stops_the_line:
  assumes "link_ok a policy k" "cs_expected_rx (lk_session k) \<noteq> 0" "cs_last_accepted_rx (lk_session k) \<noteq> Some 0"
    and "list_all fits is"
  shows "lk_delivered (foldl (link_step policy) (k\<lparr>lk_pump := reset_protocol_sequences (lk_pump k)\<rparr>) is) = lk_delivered k"
proof -
  let ?k = "k\<lparr>lk_pump := reset_protocol_sequences (lk_pump k)\<rparr>"
  have "link_ok a policy ?k"
    using assms(1) by (simp add: link_ok_def pump_ready_def reset_protocol_sequences_def)
  from line.run_simulated [OF this assms(4)]
  have v: "link_view (foldl (link_step policy) ?k is) = foldl (abs_step policy) (link_view ?k) is" by blast
  have "stalled (lk_delivered k) (link_view ?k)"
    using assms(2,3) by (simp add: stalled_def link_view_def reset_protocol_sequences_def)
  from stall.run_preserves [OF this] v have "stalled (lk_delivered k) (link_view (foldl (link_step policy) ?k is))" by simp
  then show ?thesis by (simp add: stalled_def link_view_delivered)
qed

definition later_link :: link where
  "later_link = (new_link one_pump SPEC_F_TO_1)\<lparr>lk_session :=
     (new_pump_session 1 ''fp-1'' new_bus SPEC_F_TO_1)\<lparr>cs_expected_rx := 3, cs_last_accepted_rx := Some 2\<rparr>\<rparr>"

theorem restart_stops_the_line_witness:
  "lk_delivered (foldl (link_step SPEC_F_TO_1) (later_link\<lparr>lk_pump := reset_protocol_sequences (lk_pump later_link)\<rparr>)
      [Report [1, 1, 5] DC1_STATUS, Exchange 0 Nothing_lost]) = lk_delivered later_link"
  by (rule restart_stops_the_line [where a = 1])
    (simp_all add: later_link_def new_link_def one_pump_def link_ok_def pump_ready_def new_sim_pump_def quiet_def
      new_pump_session_def new_bus_def max_payload_def line_consts)

end
