(* ===== verification/Link_Sale.thy ===== *)
theory Link_Sale
  imports Link_Delivery
begin

text \<open>
  A sale as the two ends of the line see it. The virtual pump (\<open>simulator/pump.py\<close>) goes from AUTHORIZED to FILLING within one
  command and reports only what it is afterwards; the session (\<open>controller/pump_session.py\<close>) enters a sale only
  through a reported authorization. So the session follows none of the pump's sales.
\<close>

section \<open>A session without a reported authorization\<close>

definition no_authorization :: "pump_event \<Rightarrow> apply_args \<Rightarrow> bool" where
  "no_authorization ev args \<longleftrightarrow> ev \<noteq> AUTHORIZATION_CONFIRMED \<and> \<not> ap_allow_implicit args"

definition outside_sale :: "pump_session \<Rightarrow> bool" where
  "outside_sale s \<longleftrightarrow> \<not> dispensing (pc_current_state (cs_context s)) \<and> cs_last_state s = pc_current_state (cs_context s)"

lemma step_outside_sale:
  assumes "\<not> dispensing (pc_current_state c)" "no_authorization ev args"
  shows "\<not> dispensing (pc_current_state (tr_context (apply_event c ev args)))"
proof (cases rule: apply_event_cases [of c ev args])
  case (applied t)
  with assms show ?thesis
    using table_facts(2-6) [of "pc_current_state c" ev] by (auto simp: dispensing_def no_authorization_def)
qed (use assms in simp)

interpretation outside: sequence_free_invariant outside_sale no_authorization
  by unfold_locales
    (simp_all add: outside_sale_def step_outside_sale count_stat_def set_error_def no_authorization_def no_args_def)

lemma session_outside_sale:
  "outside_sale s \<Longrightarrow> list_all (harmless_input no_authorization) is \<Longrightarrow> outside_sale (foldl session_step s is)"
  by (induction "is" arbitrary: s) (simp_all add: outside.session_step_keeps)

section \<open>What a payload can make of the machine\<close>

lemma mapped_never_implicit: "\<not> mp_allow_implicit (map_wayne_observation tx ctx)"
proof -
  have upd: "mp_allow_implicit (m\<lparr>mp_completion_key := k\<rparr>) = mp_allow_implicit m"
    "mp_allow_implicit (m\<lparr>mp_selected_nozzle := n\<rparr>) = mp_allow_implicit m" for m k n by simp_all
  have status: "\<not> mp_allow_implicit (status_code_to_event code obs previous current)" for code obs previous current
    by (cases "wayne_status_of code") (simp_all add: status_code_to_event_def split: wayne_status.split)
  have dc1: "\<not> mp_allow_implicit (map_dc1 tx obs ctx)" "\<not> mp_allow_implicit (map_ambiguous_cd1_dc1 tx obs ctx)" for obs
    by (cases "or_raw_status obs", simp_all add: map_dc1_def map_ambiguous_cd1_dc1_def status Let_def)+
  have dc3: "\<not> mp_allow_implicit (map_dc3 tx obs ctx)" for obs
  proof (cases "at_body tx")
    case (Some b)
    then show ?thesis by (cases b) (simp_all add: map_dc3_def Let_def)
  qed (simp add: map_dc3_def Let_def)
  show ?thesis
    by (cases "at_type tx") (simp_all add: map_wayne_observation_def Let_def dc1 dc3)
qed

lemma authorization_needs_status:
  assumes "mp_event (map_wayne_observation tx ctx) = AUTHORIZATION_CONFIRMED"
  shows "extract_raw_status tx = Some 2"
proof -
  have code: "mp_event (status_code_to_event code obs previous current) = AUTHORIZATION_CONFIRMED \<Longrightarrow> code = 2"
    for code obs previous current
    by (cases "wayne_status_of code")
      (auto simp: status_code_to_event_def wayne_status_of_def split: wayne_status.splits if_splits)
  have dc3: "mp_event (map_dc3 tx obs ctx) \<noteq> AUTHORIZATION_CONFIRMED" for obs
  proof (cases "at_body tx")
    case (Some b)
    then show ?thesis by (cases b) (simp_all add: map_dc3_def Let_def)
  qed (simp add: map_dc3_def Let_def)
  show ?thesis
    using assms dc3
    by (cases "at_type tx"; cases "extract_raw_status tx")
      (auto simp: map_wayne_observation_def map_ambiguous_cd1_dc1_def map_dc1_def Let_def dest!: code split: if_splits)
qed

lemma report_has_no_status:
  "extract_raw_status (decode_envelope r args ty dir st (Some (Filled_body v a)) ws) = None"
  "extract_raw_status (decode_envelope r args ty dir st (Some (Nozzle_price_body p n z out alt)) ws) = None"
  "extract_raw_status (decode_envelope r args ty dir st (Some (Prices_body ps)) ws) = None"
  "extract_raw_status (decode_envelope r args ty dir st (Some (Alarm_body code)) ws) = None"
  "extract_raw_status (decode_envelope r args ty dir st (Some (Counter_request_body code)) ws) = None"
  "extract_raw_status (decode_envelope r args ty dir st (Some (Counters_body s t m1 m2 i j k)) ws) = None"
  "extract_raw_status (decode_envelope r args ty dir st None ws) = None"
  by (simp_all add: extract_raw_status_def)

lemma except_bcd_Inr: "except_bcd m h k = Inr y \<Longrightarrow> h = Inr y \<or> (\<exists>x. m = Inr x \<and> k x = Inr y)"
  by (auto simp: except_bcd_def split: sum.splits if_splits)

lemma decoders_without_status:
  "decode_dc2 r args = Inr tx \<Longrightarrow> extract_raw_status tx = None"
  "decode_dc3_preferred r args = Inr tx \<Longrightarrow> extract_raw_status tx = None"
  "decode_cd5 r args = Inr tx \<Longrightarrow> extract_raw_status tx = None"
  "decode_dc5 r args = Inr tx \<Longrightarrow> extract_raw_status tx = None"
  "decode_cd101_request r args = Inr tx \<Longrightarrow> extract_raw_status tx = None"
  "decode_dc101 r args = Inr tx \<Longrightarrow> extract_raw_status tx = None"
  "extract_raw_status (decode_unknown r args) = None"
proof -
  show "decode_dc2 r args = Inr tx \<Longrightarrow> extract_raw_status tx = None"
    unfolding decode_dc2_def by (drule except_bcd_Inr) (auto simp: report_has_no_status)
  show "decode_dc3_preferred r args = Inr tx \<Longrightarrow> extract_raw_status tx = None"
    unfolding decode_dc3_preferred_def
    by (drule except_bcd_Inr) (auto simp: report_has_no_status bind_result_Inr_iff Let_def)
  show "decode_cd5 r args = Inr tx \<Longrightarrow> extract_raw_status tx = None"
    unfolding decode_cd5_def by (drule except_bcd_Inr) (auto simp: report_has_no_status)
  show "decode_dc5 r args = Inr tx \<Longrightarrow> extract_raw_status tx = None"
    unfolding decode_dc5_def by (auto simp: report_has_no_status bind_result_Inr_iff Let_def)
  show "decode_cd101_request r args = Inr tx \<Longrightarrow> extract_raw_status tx = None"
    unfolding decode_cd101_request_def by (auto simp: report_has_no_status bind_result_Inr_iff Let_def)
  show "decode_dc101 r args = Inr tx \<Longrightarrow> extract_raw_status tx = None"
    unfolding decode_dc101_def Let_def bind_result_Inr_iff
    by (elim exE conjE, drule except_bcd_Inr) (auto simp: report_has_no_status bind_result_Inr_iff)
  show "extract_raw_status (decode_unknown r args) = None"
    by (simp add: decode_unknown_def report_has_no_status)
qed

lemma decoded_status:
  assumes "decode_raw_transaction r args = Inr tx" "extract_raw_status tx = Some c"
  shows "rt_id r = 1 \<and> rt_length r = 1 \<and> 0 < length (rt_data r) \<and> c = uint (rt_data r ! 0)"
proof (cases "rt_id r = 1 \<and> rt_length r = 1")
  case True
  with assms show ?thesis
    by (auto simp: decode_raw_transaction_def decode_ambiguous_01_def py_index_def Let_def extract_raw_status_def
        decode_envelope_def bind_result_Inr_iff split: if_splits)
next
  case False
  then have "extract_raw_status tx = None"
    using assms(1) decoders_without_status
    by (auto simp: decode_raw_transaction_def Let_def split: if_splits)
  with assms(2) show ?thesis by simp
qed

text \<open>One transaction, and not the status AUTHORIZED.\<close>

definition plain_report :: "bytes \<Rightarrow> bool" where
  "plain_report payload \<longleftrightarrow> (\<exists>tid data. encode_tx tid data = Inr payload \<and> \<not> (tid = 1 \<and> data = [2]))"

lemma plain_report_harmless:
  assumes "plain_report (lf_payload f)"
  shows "harmless_frame no_authorization f"
proof -
  from assms obtain tid data where e: "encode_tx tid data = Inr (lf_payload f)" and no: "\<not> (tid = 1 \<and> data = [2])"
    by (auto simp: plain_report_def)
  have "no_authorization (mp_event (map_wayne_observation tx ctx)) (session_args (map_wayne_observation tx ctx))"
    if tx: "decode_raw_transaction (unit_at 0 tid data) args = Inr tx" for tx args ctx
  proof -
    have "extract_raw_status tx \<noteq> Some 2"
    proof
      assume "extract_raw_status tx = Some 2"
      from decoded_status [OF tx this] have t: "tid = 1" "length data = 1" "uint (data ! 0) = 2" by (simp_all add: unit_at_def)
      then obtain w where w: "data = [w]" by (cases data) auto
      with t(3) have "uint w = uint (2 :: byte)" by simp
      then have "w = 2" by (simp only: word_uint_eq_iff)
      with w t no show False by simp
    qed
    then show ?thesis
      using authorization_needs_status mapped_never_implicit
      by (auto simp: no_authorization_def session_args_def no_args_def)
  qed
  then show ?thesis
    using split_encoded [OF e, of 0 "[]"]
    by (auto simp: harmless_frame_def decode_data_payload_def split_transactions_def Let_def bind_result_Inr_iff harmless_def)
qed

section \<open>What the virtual pump reports\<close>

definition reports_plainly :: "sim_pump \<Rightarrow> bool" where
  "reports_plainly p \<longleftrightarrow> sp_wayne_status p \<noteq> Wayne_AUTHORIZED \<and> list_all (\<lambda>t. plain_report (ot_payload t)) (sp_pending p)"

lemma plain_other: "encode_tx tid data = Inr b \<Longrightarrow> tid \<noteq> 1 \<Longrightarrow> plain_report b"
  by (auto simp: plain_report_def)

lemma plain_encoders:
  "encode_dc2_volume_amount v a = Inr b \<Longrightarrow> plain_report b"
  "encode_dc3_nozzle_price x n out = Inr b \<Longrightarrow> plain_report b"
  "encode_dc5_alarm k = Inr b \<Longrightarrow> plain_report b"
  "encode_dc9_identity i = Inr b \<Longrightarrow> plain_report b"
  "encode_dc101_totals k t m1 m2 = Inr b \<Longrightarrow> plain_report b"
  unfolding encode_dc2_volume_amount_def encode_dc3_nozzle_price_def encode_dc5_alarm_def encode_dc9_identity_def
    encode_dc101_totals_def Let_def
  by (auto simp: bind_result_Inr_iff dest: plain_other)

lemma plain_status:
  assumes "encode_dc1_status (wayne_code s) = Inr b" "s \<noteq> Wayne_AUTHORIZED"
  shows "plain_report b"
proof -
  have "(word_of_int (wayne_code s AND 0xFF) :: byte) \<noteq> 2" using assms(2) by (cases s) simp_all
  then show ?thesis using assms(1) by (auto simp: encode_dc1_status_def plain_report_def)
qed

lemma plain_update [simp]:
  "reports_plainly (p\<lparr>sp_last_command := x2\<rparr>) = reports_plainly p"
  "reports_plainly (sync_context_fields p) = reports_plainly p"
  "reports_plainly (sim_apply_event ev args p) = reports_plainly p"
  "reports_plainly (p\<lparr>sp_preset_volume := x3\<rparr>) = reports_plainly p"
  "reports_plainly (p\<lparr>sp_preset_amount := x4\<rparr>) = reports_plainly p"
  "reports_plainly (p\<lparr>sp_nozzle_out := x5\<rparr>) = reports_plainly p"
  "reports_plainly (p\<lparr>sp_suspended := x7\<rparr>) = reports_plainly p"
  "reports_plainly (p\<lparr>sp_last_fill_tick := x8\<rparr>) = reports_plainly p"
  "reports_plainly (p\<lparr>sp_prices := x9\<rparr>) = reports_plainly p"
  "reports_plainly (p\<lparr>sp_price_verified := x10\<rparr>) = reports_plainly p"
  "reports_plainly (p\<lparr>sp_selected_nozzle := x11\<rparr>) = reports_plainly p"
  "reports_plainly (p\<lparr>sp_fault_code := x12\<rparr>) = reports_plainly p"
  "reports_plainly (p\<lparr>sp_communication_enabled := x13\<rparr>) = reports_plainly p"
  "reports_plainly (p\<lparr>sp_volume := x14\<rparr>) = reports_plainly p"
  "reports_plainly (p\<lparr>sp_amount := x15\<rparr>) = reports_plainly p"
  "reports_plainly (p\<lparr>sp_filling_active := x16\<rparr>) = reports_plainly p"
  "reports_plainly (p\<lparr>sp_active_transaction := x17\<rparr>) = reports_plainly p"
  by (simp_all add: reports_plainly_def sync_context_fields_def sim_apply_event_def Let_def)

text \<open>A status that is set replaces the old one.\<close>

lemma plain_status_update [simp]:
  "reports_plainly (p\<lparr>sp_wayne_status := w\<rparr>) \<longleftrightarrow> w \<noteq> Wayne_AUTHORIZED \<and> list_all (\<lambda>t. plain_report (ot_payload t)) (sp_pending p)"
  by (simp add: reports_plainly_def)

lemma plain_pending [simp]: "reports_plainly p \<Longrightarrow> list_all (\<lambda>t. plain_report (ot_payload t)) (sp_pending p)"
  by (simp add: reports_plainly_def)

lemma keeps_plain_queue: "(\<And>b. payload = Inr b \<Longrightarrow> plain_report b) \<Longrightarrow> keeps reports_plainly (queue_encoded payload label)"
  by (cases payload) (simp_all add: keeps_def queue_encoded_def queue_tx_def bind_act_def reports_plainly_def)

lemma keeps_plain_status: "keeps reports_plainly queue_status"
  unfolding queue_status_def
  by (intro keeps_read keepsD [OF keeps_plain_queue]) (auto intro: plain_status simp: reports_plainly_def)

lemma keeps_plain_queues [keeps_intros]:
  "keeps reports_plainly queue_status_and_nozzle" "keeps reports_plainly queue_fill_data"
  unfolding queue_status_and_nozzle_def queue_fill_data_def encode_dc3_def
  by (intro keeps_then keeps_plain_status keeps_read_each keeps_plain_queue; erule plain_encoders)+

lemma keeps_plain_complete: "keeps reports_plainly complete_filling"
  unfolding complete_filling_def
  by (intro keeps_read_each keeps_if keeps_then keeps_modify keeps_return keeps_plain_queues)
    (simp add: finish_sale_def Let_def)

lemma keeps_plain_fill: "keeps reports_plainly fill_one_interval"
proof -
  have "keeps reports_plainly (then_act (modify_act (\<lambda>p. sim_apply_event FILLING_UPDATED
        (no_args\<lparr>ap_raw_status := Some (wayne_code Wayne_FILLING)\<rparr>) (p\<lparr>sp_volume := v, sp_amount := a\<rparr>)))
      (then_act queue_fill_data
        (if hit then then_act (modify_act reach_limit) complete_filling else return_act ())))" for v a hit
    by (intro keeps_then keeps_modify keeps_if keeps_return keeps_plain_queues keeps_plain_complete)
      (simp_all add: reach_limit_def Let_def)
  then show ?thesis
    unfolding fill_one_interval_def by (intro keeps_read_each) (simp only: simp_thms split: prod.split)
qed

lemma keeps_plain_intervals: "keeps reports_plainly (fill_intervals n)"
  by (induction n) (simp_all only: fill_intervals.simps keeps_return, intro keeps_read_each keeps_if keeps_return keeps_then keeps_plain_fill)

lemma keeps_plain_time: "keeps reports_plainly (on_time_advance now)"
  unfolding on_time_advance_def Let_def
  by (intro keeps_read_each keeps_if keeps_return)
    (auto split: option.split intro!: keeps_intros keeps_plain_intervals)

lemma keeps_plain_execute: "keeps reports_plainly (execute_command fresh now command v a price)"
  unfolding execute_command_def
  by (cases command)
    (auto simp: Let_def split: option.split intro!: keeps_intros keeps_plain_complete)

lemma keeps_plain_guarded: "keeps reports_plainly (execute_guarded fresh cfg now command preset v a price)"
  unfolding execute_guarded_def
  by (intro keeps_then keeps_modify keeps_read_each keeps_bind keeps_result keeps_if keeps_return keeps_plain_execute) simp_all

lemma keeps_plain_cd5: "keeps reports_plainly (handle_cd5_from fresh cfg now n data)"
  by (induction fresh cfg now n data rule: handle_cd5_from.induct)
    (simp_all only: handle_cd5_from.simps, (intro keeps_intros keeps_plain_guarded; assumption)+)

lemma keeps_plain_cd1: "keeps reports_plainly (handle_cd1 fresh cfg now dcc)"
  unfolding handle_cd1_def
  by (intro keeps_read_each)
    (auto split: sum.split pump_control_command.split option.split
      intro!: keeps_intros keeps_plain_guarded keeps_plain_status keeps_plain_queue intro: plain_encoders)

lemma keeps_plain_one_tx: "keeps reports_plainly (handle_one_tx fresh cfg now tid data)"
  unfolding handle_one_tx_def handle_cd3_preset_volume_def handle_cd4_preset_amount_def
  by (intro keeps_if keeps_plain_cd1 keeps_plain_cd5 keeps_bind keeps_result keeps_plain_guarded keeps_then keeps_read_each
      keeps_plain_queue keeps_return) (erule plain_encoders)

lemma keeps_plain_payload: "keeps reports_plainly (handle_application_payload fresh cfg now payload)"
proof (induction fresh cfg now payload rule: handle_application_payload.induct)
  case (1 fresh cfg now tid lng rest)
  then show ?case
    unfolding handle_application_payload.simps
    by (intro keeps_if keeps_bind keeps_plain_one_tx keeps_return keeps_read_each) simp_all
qed (simp_all only: handle_application_payload.simps keeps_return)

lemma sim_step_plain: "reports_plainly p \<Longrightarrow> reports_plainly (sim_step fresh cfg p op)"
proof (cases op)
  case Sim_disable
  then show "reports_plainly p \<Longrightarrow> ?thesis" by (simp add: disable_communication_def reports_plainly_def sim_apply_event_def Let_def sync_context_fields_def)
next
  case Sim_cold_start
  have "keeps reports_plainly cold_start_to_ready"
    unfolding cold_start_to_ready_def
    by (intro keeps_then keeps_modify keeps_plain_queues) (simp add: Let_def enable_communication_def)
  then show "reports_plainly p \<Longrightarrow> ?thesis" using Sim_cold_start by (simp add: keepsD)
next
  case (Sim_restart b)
  then show "reports_plainly p \<Longrightarrow> ?thesis"
    by (simp add: restart_pump_def reset_protocol_sequences_def Let_def) (simp add: reports_plainly_def)
next
  case (Sim_lift nozzle now)
  have "keeps reports_plainly (lift_nozzle nozzle now)"
    unfolding lift_nozzle_def by (intro keeps_read_each keeps_if keeps_return keeps_then keeps_modify keeps_plain_queues) simp
  then show "reports_plainly p \<Longrightarrow> ?thesis" using Sim_lift by (simp add: keepsD)
next
  case Sim_return
  have "keeps reports_plainly return_nozzle"
    unfolding return_nozzle_def by (intro keeps_then keeps_modify keeps_plain_queues) (simp add: Let_def)
  then show "reports_plainly p \<Longrightarrow> ?thesis" using Sim_return by (simp add: keepsD)
next
  case (Sim_fault code)
  have "keeps reports_plainly (inject_fault code)"
    unfolding inject_fault_def by (intro keeps_then keeps_modify keeps_plain_queue; (erule plain_encoders)?) simp
  then show "reports_plainly p \<Longrightarrow> ?thesis" using Sim_fault by (simp add: keepsD)
qed (simp_all add: enable_communication_def clear_fault_def Let_def keepsD [OF keeps_plain_payload] keepsD [OF keeps_plain_time])

interpretation plain: preserved "sim_step fresh cfg" reports_plainly for fresh cfg
  by unfold_locales (rule sim_step_plain)

text \<open>The payloads a pump has waiting at some time of some history.\<close>

definition reported_by :: "pump_config \<Rightarrow> bytes \<Rightarrow> bool" where
  "reported_by pcfg payload \<longleftrightarrow> (\<exists>fresh cfg ops t.
     t \<in> set (sp_pending (foldl (sim_step fresh cfg) (new_sim_pump pcfg) ops)) \<and> ot_payload t = payload)"

lemma reported_plain: "reported_by pcfg payload \<Longrightarrow> plain_report payload"
proof -
  have "reports_plainly (foldl (sim_step fresh cfg) (new_sim_pump pcfg) ops)" for fresh cfg ops
    by (rule plain.run_preserves) (simp add: reports_plainly_def new_sim_pump_def)
  then show "reported_by pcfg payload \<Longrightarrow> ?thesis" by (auto simp: reported_by_def reports_plainly_def list_all_iff)
qed

text \<open>
  The controller never sees a sale of the virtual pump: a session that handles any polls, timeouts and frames, where
  each DATA frame carries a payload the pump reports at some time, is never authorized, filling, suspended, at a
  limit or complete, because the pump never reports the status AUTHORIZED and the session refuses to go from
  NOZZLE_UP to FILLING.
\<close>

theorem sale_is_never_seen:
  assumes "list_all (\<lambda>i. case i of Response now f \<Rightarrow> lf_control_type f = CtDATA \<longrightarrow> reported_by pcfg (lf_payload f) | _ \<Rightarrow> True) is"
  shows "\<not> dispensing (cs_last_state (foldl session_step (new_pump_session a pid bus policy) is))"
proof -
  have "harmless_input no_authorization i"
    if "case i of Response now f \<Rightarrow> lf_control_type f = CtDATA \<longrightarrow> reported_by pcfg (lf_payload f) | _ \<Rightarrow> True" for i
    using that reported_plain plain_report_harmless by (cases i) auto
  with assms have "list_all (harmless_input no_authorization) is" by (auto simp: list_all_iff)
  moreover have "outside_sale (new_pump_session a pid bus policy)"
    by (simp add: outside_sale_def new_pump_session_def new_context_def dispensing_def)
  ultimately show ?thesis using session_outside_sale by (auto simp: outside_sale_def)
qed

theorem sale_is_never_seen_witness:
  "\<not> dispensing (cs_last_state (foldl session_step (new_pump_session 1 ''fp-1'' new_bus SPEC_F_TO_1)
      [Build_poll 0, Response 5 (data_frame 0 [9, 8, 0x53, 0x49, 0x4D, 0x2D, 0x57, 0x50, 0x30, 0x31])]))"
proof (rule sale_is_never_seen [where pcfg = one_pump])
  let ?p = "foldl (sim_step (\<lambda>n. []) \<lparr>sc_policy = SPEC_F_TO_1, sc_response_timeout_ms = 25, sc_physical_enable = True,
      sc_active_commands = True, sc_pumps = []\<rparr>) (new_sim_pump one_pump) [Sim_payload 0 [1, 1, 3]]"
  have c: "pump_control_command_of 3 = Inr RETURN_PUMP_IDENTITY" by (simp add: pump_control_command_of_def)
  have e: "encode_tx 9 [0x53, 0x49, 0x4D, 0x2D, 0x57, 0x50, 0x30, 0x31] =
      Inr [9, 8, 0x53, 0x49, 0x4D, 0x2D, 0x57, 0x50, 0x30, 0x31]" by (simp add: encode_tx_Inr)
  have "\<exists>t\<in>set (sp_pending ?p). ot_payload t = [9, 8, 0x53, 0x49, 0x4D, 0x2D, 0x57, 0x50, 0x30, 0x31]"
    by (simp add: handle_one_tx_def handle_cd1_def c bind_act_def queue_encoded_def queue_tx_def encode_dc9_identity_def
        slice_def e)
  then have "reported_by one_pump [9, 8, 0x53, 0x49, 0x4D, 0x2D, 0x57, 0x50, 0x30, 0x31]"
    unfolding reported_by_def by blast
  then show "list_all (\<lambda>i. case i of Response now f \<Rightarrow> lf_control_type f = CtDATA \<longrightarrow> reported_by one_pump (lf_payload f) | _ \<Rightarrow> True)
      [Build_poll 0, Response 5 (data_frame 0 [9, 8, 0x53, 0x49, 0x4D, 0x2D, 0x57, 0x50, 0x30, 0x31])]"
    by (simp add: data_frame_def)
qed

end
