(* ===== verification/Ctl_Loop.thy ===== *)
theory Ctl_Loop
  imports Sim_Session Ctl_Session
begin

text \<open>
  \<open>controller/controller_loop.py\<close> and \<open>controller/poll_scheduler.py\<close>: the round-robin polling of the pumps of one line.
  The transport, the clock and the stop flag belong to an environment, a record of functions over its own state \<open>'w\<close>:
  the loop calls it and sees nothing else of it. How often \<open>_read_one_frame\<close> may read before its deadline is a question
  to the clock, hence to the environment; the sweeps of \<open>run\<close> are counted by fuel.
\<close>

section \<open>State\<close>

record poll_config =
  pg_addresses :: "int list"
  pg_response_timeout_ms :: int
  pg_inter_poll_delay_ms :: int
  pg_idle_sleep_ms :: int
  pg_max_retries :: nat
  pg_max_consecutive :: int
  pg_read_chunk_size :: int
  pg_policy :: sequence_policy
  pg_reconnect_delay_ms :: int

definition default_poll_config :: poll_config where
  "default_poll_config = \<lparr>pg_addresses = [1, 2], pg_response_timeout_ms = 25, pg_inter_poll_delay_ms = 5,
     pg_idle_sleep_ms = 20, pg_max_retries = 2, pg_max_consecutive = 5, pg_read_chunk_size = 256,
     pg_policy = SPEC_F_TO_1, pg_reconnect_delay_ms = 1000\<rparr>"

record 'w environment =
  en_now :: "'w \<Rightarrow> int"
  en_stop :: "'w \<Rightarrow> bool"
  en_open :: "('w, unit) action"
  en_close :: "('w, unit) action"
  en_is_open :: "'w \<Rightarrow> bool"
  en_window :: "int \<Rightarrow> 'w \<Rightarrow> nat"
  en_read :: "int \<Rightarrow> ('w, bytes) action"
  en_write :: "bytes \<Rightarrow> ('w, unit) action"
  en_drain :: "('w, unit) action"
  en_sleep :: "int \<Rightarrow> 'w \<Rightarrow> 'w"
  en_uuid :: "'w \<Rightarrow> string"

record controller_totals =
  to_poll_count :: nat
  to_eot_count :: nat
  to_data_count :: nat
  to_crc_errors :: nat
  to_timeouts :: nat
  to_nak_count :: nat
  to_duplicate_count :: nat

record 'w controller =
  cl_sessions :: "(int \<times> pump_session) list"
  cl_bus :: event_bus
  cl_assembler :: assembler
  cl_outbound :: outbound_queue
  cl_safety :: safety_context
  cl_config :: poll_config
  cl_totals :: controller_totals
  cl_world :: 'w

definition zero_totals :: controller_totals where
  "zero_totals = \<lparr>to_poll_count = 0, to_eot_count = 0, to_data_count = 0, to_crc_errors = 0, to_timeouts = 0,
     to_nak_count = 0, to_duplicate_count = 0\<rparr>"

definition new_controller ::
  "poll_config \<Rightarrow> safety_context \<Rightarrow> event_bus \<Rightarrow> outbound_queue \<Rightarrow> 'w \<Rightarrow> 'w controller" where
  "new_controller cfg safety bus queue w =
    \<lparr>cl_sessions = foldl (\<lambda>ss a. AList.update a (new_pump_session a (''pump-'' @ int_text a) bus (pg_policy cfg)) ss) []
       (pg_addresses cfg),
     cl_bus = bus, cl_assembler = default_assembler, cl_outbound = queue, cl_safety = safety, cl_config = cfg,
     cl_totals = zero_totals, cl_world = w\<rparr>"

definition default_lab_safety :: safety_context where
  "default_lab_safety = \<lparr>sx_environment = ''LAB'', sx_mode = LISTEN_ONLY, sx_active_enabled = False,
     sx_require_physical = True, sx_physical_present = False, sx_allow_virtual_polling = True,
     sx_allow_lab_commands = False\<rparr>"

text \<open>Running an action of the environment, of the shared bus, or of the session at an address.\<close>

definition in_world :: "('w, 'a) action \<Rightarrow> ('w controller, 'a) action" where
  "in_world m c = (case m (cl_world c) of (r, w) \<Rightarrow> (r, c\<lparr>cl_world := w\<rparr>))"

definition sleep :: "'w environment \<Rightarrow> int \<Rightarrow> ('w controller, unit) action" where
  "sleep env ms = modify_act (\<lambda>c. c\<lparr>cl_world := en_sleep env ms (cl_world c)\<rparr>)"

definition on_bus :: "(event_bus, 'a) action \<Rightarrow> ('w controller, 'a) action" where
  "on_bus m c = (case m (cl_bus c) of (r, b) \<Rightarrow> (r, c\<lparr>cl_bus := b\<rparr>))"

text \<open>The sessions hold one bus object: a session works on the controller's and leaves it there.\<close>

definition on_session :: "int \<Rightarrow> (pump_session, 'a) action \<Rightarrow> ('w controller, 'a) action" where
  "on_session address m c =
    (case map_of (cl_sessions c) address of
       None \<Rightarrow> (Inl KeyError, c)
     | Some s \<Rightarrow>
         (case m (s\<lparr>cs_bus := cl_bus c\<rparr>) of
            (r, s') \<Rightarrow> (r, c\<lparr>cl_sessions := AList.update address s' (cl_sessions c), cl_bus := cs_bus s'\<rparr>)))"

text \<open>A call of a session is made at the current instant.\<close>

definition call_session ::
  "'w environment \<Rightarrow> int \<Rightarrow> (int \<Rightarrow> (pump_session, 'a) action) \<Rightarrow> ('w controller, 'a) action" where
  "call_session env address m = read_act (\<lambda>c. on_session address (m (en_now env (cl_world c))))"

section \<open>Frames\<close>

definition write_frame :: "'w environment \<Rightarrow> bytes \<Rightarrow> int \<Rightarrow> string \<Rightarrow> ('w controller, unit) action" where
  "write_frame env data address note =
    then_act (in_world (en_write env data))
      (then_act (in_world (en_drain env))
        (read_act (\<lambda>c. on_bus (publish \<lparr>ce_type = FRAME_SENT, ce_address = Some address,
           ce_timestamp = Some (en_now env (cl_world c)), ce_detail = Note_detail note,
           ce_payload = Raw_hex_payload (hex_text data)\<rparr>))))"

text \<open>
  The events of one chunk: the first frame is returned, what the assembler rejects before it is published, and what
  follows it in the chunk is dropped, for the assembler has already given those events up.
\<close>

fun first_frame :: "'w environment \<Rightarrow> assembler_event list \<Rightarrow> ('w controller, line_frame option) action" where
  "first_frame env [] = return_act None"
| "first_frame env (e # es) =
    (if ae_kind e = AeFRAME \<and> ae_frame e \<noteq> None then return_act (ae_frame e)
     else if ae_kind e \<in> {AeREJECTED, AeOVERFLOW, AeNOISE}
     then then_act (read_act (\<lambda>c. on_bus (publish \<lparr>ce_type = FRAME_REJECTED, ce_address = None,
         ce_timestamp = Some (en_now env (cl_world c)), ce_detail = Assembler_detail (ae_kind e),
         ce_payload = Raw_hex_payload (hex_text (ae_raw e))\<rparr>))) (first_frame env es)
     else first_frame env es)"

definition feed_chunk :: "'w environment \<Rightarrow> bytes \<Rightarrow> ('w controller, line_frame option) action" where
  "feed_chunk env chunk = read_act (\<lambda>c.
    let (asm, es) = feed (cl_assembler c) chunk in
    then_act (modify_act (\<lambda>c. c\<lparr>cl_assembler := asm\<rparr>)) (first_frame env es))"

fun read_passes :: "'w environment \<Rightarrow> nat \<Rightarrow> ('w controller, line_frame option) action" where
  "read_passes env 0 = return_act None"
| "read_passes env (Suc n) =
    bind_act (read_act (\<lambda>c. in_world (en_read env (pg_read_chunk_size (cl_config c))))) (\<lambda>chunk.
      if chunk \<noteq> []
      then bind_act (feed_chunk env chunk) (\<lambda>f. if f \<noteq> None then return_act f else read_passes env n)
      else then_act (sleep env 1) (read_passes env n))"

definition read_one_frame :: "'w environment \<Rightarrow> int \<Rightarrow> ('w controller, line_frame option) action" where
  "read_one_frame env timeout_ms = read_act (\<lambda>c. read_passes env (en_window env timeout_ms (cl_world c)))"

section \<open>One poll\<close>

definition sum_stat :: "(session_stats \<Rightarrow> nat) \<Rightarrow> (int \<times> pump_session) list \<Rightarrow> nat" where
  "sum_stat f ss = sum_list (map (\<lambda>(a, s). f (cs_stats s)) ss)"

definition refresh_totals :: "'w controller \<Rightarrow> 'w controller" where
  "refresh_totals c = c\<lparr>cl_totals :=
    \<lparr>to_poll_count = sum_stat st_poll_count (cl_sessions c), to_eot_count = sum_stat st_eot_count (cl_sessions c),
     to_data_count = sum_stat st_data_count (cl_sessions c), to_crc_errors = sum_stat st_crc_error_count (cl_sessions c),
     to_timeouts = sum_stat st_timeout_count (cl_sessions c), to_nak_count = sum_stat st_nak_count (cl_sessions c),
     to_duplicate_count = sum_stat st_duplicate_count (cl_sessions c)\<rparr>\<rparr>"

definition response_window :: "'w environment \<Rightarrow> ('w controller, line_frame option) action" where
  "response_window env = read_act (\<lambda>c. read_one_frame env (pg_response_timeout_ms (cl_config c)))"

definition pop_outbound :: "'w environment \<Rightarrow> int \<Rightarrow> ('w controller, outbound_item option) action" where
  "pop_outbound env address c =
    (case pop_for_address (en_now env (cl_world c)) (cl_outbound c) address of (item, q) \<Rightarrow> (Inr item, c\<lparr>cl_outbound := q\<rparr>))"

definition session_field :: "int \<Rightarrow> (pump_session \<Rightarrow> 'a) \<Rightarrow> ('w controller, 'a) action" where
  "session_field address f = on_session address (read_act (\<lambda>s. return_act (f s)))"

text \<open>What the answer to an outbound DATA frame with sequence number \<open>seq\<close> does.\<close>

definition outbound_answer :: "sequence_policy \<Rightarrow> int \<Rightarrow> line_frame option \<Rightarrow> (pump_session, unit) action" where
  "outbound_answer policy seq resp =
    (case resp of
       None \<Rightarrow> modify_act (count_stat (\<lambda>t. t\<lparr>st_timeout_count := st_timeout_count t + 1\<rparr>))
     | Some f \<Rightarrow>
         if lf_control_type f = CtACK \<and> lf_sequence f = seq
         then bind_act (result_act (next_sequence seq policy)) (\<lambda>n.
           modify_act (\<lambda>s. s\<lparr>cs_tx_sequence := n\<rparr>))
         else if lf_control_type f = CtNAK
         then modify_act (count_stat (\<lambda>t. t\<lparr>st_nak_count := st_nak_count t + 1\<rparr>))
         else return_act ())"

definition maybe_send_outbound :: "'w environment \<Rightarrow> int \<Rightarrow> ('w controller, unit) action" where
  "maybe_send_outbound env address =
    bind_act (pop_outbound env address) (\<lambda>item.
      case item of
        None \<Rightarrow> return_act ()
      | Some i \<Rightarrow>
          bind_act (session_field address cs_tx_sequence) (\<lambda>seq.
          bind_act (result_act (build_data_frame address seq (oi_payload i) None DEFAULT_CRC_CANDIDATE)) (\<lambda>wire.
          then_act (write_frame env wire address ''DATA_OUT'')
          (bind_act (response_window env) (\<lambda>resp.
            read_act (\<lambda>c. on_session address (outbound_answer (pg_policy (cl_config c)) seq resp)))))))"

definition answer_frame :: "'w environment \<Rightarrow> int \<Rightarrow> line_frame \<Rightarrow> ('w controller, unit) action" where
  "answer_frame env address frame =
    bind_act (call_session env address (\<lambda>now. handle_response_frame now frame)) (\<lambda>ack.
      case ack of None \<Rightarrow> return_act () | Some wire \<Rightarrow> write_frame env wire address ''ACK'')"

definition count_timeout :: "'w environment \<Rightarrow> int \<Rightarrow> ('w controller, unit) action" where
  "count_timeout env address = read_act (\<lambda>c.
    call_session env address (\<lambda>now. on_timeout now (pg_max_consecutive (cl_config c))))"

text \<open>The retries left, each a poll and one response window.\<close>

fun retry_polls :: "'w environment \<Rightarrow> int \<Rightarrow> nat \<Rightarrow> ('w controller, unit) action" where
  "retry_polls env address 0 = return_act ()"
| "retry_polls env address (Suc n) = read_act (\<lambda>c.
    if en_stop env (cl_world c) then return_act ()
    else bind_act (call_session env address session_build_poll) (\<lambda>wire.
      then_act (write_frame env wire address ''POLL_RETRY'')
      (bind_act (response_window env) (\<lambda>frame.
        if frame \<noteq> None \<and> lf_address (the frame) = address then answer_frame env address (the frame)
        else then_act (count_timeout env address) (retry_polls env address n)))))"

definition handle_timeout_with_retries :: "'w environment \<Rightarrow> int \<Rightarrow> ('w controller, unit) action" where
  "handle_timeout_with_retries env address =
    then_act (count_timeout env address)
      (read_act (\<lambda>c. retry_polls env address (pg_max_retries (cl_config c))))"

definition poll_one :: "'w environment \<Rightarrow> int \<Rightarrow> ('w controller, unit) action" where
  "poll_one env address =
    then_act (session_field address (\<lambda>_. ()))
      (then_act (maybe_send_outbound env address)
        (bind_act (call_session env address session_build_poll) (\<lambda>wire.
          then_act (write_frame env wire address ''POLL'')
          (bind_act (response_window env) (\<lambda>frame.
            case frame of
              None \<Rightarrow> then_act (handle_timeout_with_retries env address) (modify_act refresh_totals)
            | Some f \<Rightarrow>
                if lf_address f \<noteq> address
                then then_act (on_session address (modify_act (set_error (Error_response_address (lf_address f)))))
                  (modify_act refresh_totals)
                else then_act (answer_frame env address f) (modify_act refresh_totals))))))"

section \<open>Running\<close>

text \<open>The handler of the poll's exceptions looks the session up again.\<close>

definition guarded_poll :: "'w environment \<Rightarrow> int \<Rightarrow> ('w controller, unit) action" where
  "guarded_poll env address c =
    (case poll_one env address c of
       (Inr u, c') \<Rightarrow> (Inr (), c')
     | (Inl e, c') \<Rightarrow> on_session address (modify_act (set_error (Error_poll e))) c')"

fun sweep :: "'w environment \<Rightarrow> int list \<Rightarrow> ('w controller, unit) action" where
  "sweep env [] = return_act ()"
| "sweep env (a # as) = read_act (\<lambda>c.
    if en_stop env (cl_world c) then return_act ()
    else then_act (guarded_poll env a)
      (then_act (sleep env (pg_inter_poll_delay_ms (cl_config c))) (sweep env as)))"

text \<open>\<open>_reconnect\<close>: whatever \<open>open\<close> raises is swallowed.\<close>

definition reconnect :: "'w environment \<Rightarrow> 'w controller \<Rightarrow> 'w controller" where
  "reconnect env c =
    (let c1 = snd (sleep env (pg_reconnect_delay_ms (cl_config c)) c) in snd (in_world (en_open env) c1))"

text \<open>The body of \<open>run\<close> after \<open>open\<close>; with the fuel used up the loop is still going.\<close>

fun run_loop :: "'w environment \<Rightarrow> int option \<Rightarrow> nat \<Rightarrow> 'w controller \<Rightarrow> (unit result \<times> 'w controller) option" where
  "run_loop env deadline 0 c = None"
| "run_loop env deadline (Suc n) c =
    (if en_stop env (cl_world c) then Some (Inr (), c)
     else if deadline \<noteq> None \<and> en_now env (cl_world c) \<ge> the deadline then Some (Inr (), c)
     else if \<not> en_is_open env (cl_world c) then run_loop env deadline n (reconnect env c)
     else case sweep env (pg_addresses (cl_config c)) c of
         (Inl e, c1) \<Rightarrow> Some (Inl e, c1)
       | (Inr u, c1) \<Rightarrow> run_loop env deadline n (snd (sleep env (pg_idle_sleep_ms (cl_config c1)) c1)))"

definition close_after :: "'w environment \<Rightarrow> unit result \<times> 'w controller \<Rightarrow> unit result \<times> 'w controller" where
  "close_after env rc = (case in_world (en_close env) (snd rc) of (Inl e, c) \<Rightarrow> (Inl e, c) | (Inr u, c) \<Rightarrow> (fst rc, c))"

definition run_controller ::
  "'w environment \<Rightarrow> nat \<Rightarrow> int option \<Rightarrow> 'w controller \<Rightarrow> (unit result \<times> 'w controller) option" where
  "run_controller env fuel duration_ms c =
    (if \<not> sd_allowed (evaluate_polling_allowed (cl_safety c)) then Some (Inl RuntimeError, c)
     else case in_world (en_open env) c of
         (Inl e, c1) \<Rightarrow> Some (Inl e, c1)
       | (Inr u, c1) \<Rightarrow>
           map_option (close_after env) (run_loop env (map_option (\<lambda>d. en_now env (cl_world c1) + d) duration_ms) fuel c1))"

text \<open>The payload of a status request; encoding a one-byte command cannot fail.\<close>

definition status_request_payload :: bytes where
  "status_request_payload = (case encode_cd1_command (dcc_of RETURN_STATUS) of Inr p \<Rightarrow> p | Inl e \<Rightarrow> [])"

definition enqueue_status_request ::
  "'w environment \<Rightarrow> int \<Rightarrow> 'w controller \<Rightarrow> (outbound_error + unit) \<times> 'w controller" where
  "enqueue_status_request env address c =
    (let now = en_now env (cl_world c);
         item = create_item (en_uuid env (cl_world c)) now address status_request_payload READ_STATUS True IDEMPOTENT 5000 2
     in case enqueue now (cl_outbound c) item (cl_safety c) of
          Inl e \<Rightarrow> (Inl e, c) | Inr q \<Rightarrow> (Inr (), c\<lparr>cl_outbound := q\<rparr>))"

section \<open>What every action of the loop keeps\<close>

text \<open>
  A predicate on the controller that the environment, the bus and the calls of a session keep is kept by a whole
  run; only bytes that are \<open>sendable\<close> are ever written.
\<close>

locale loop_invariant =
  fixes env :: "'w environment"
    and Q :: "'w controller \<Rightarrow> bool"
    and sendable :: "bytes \<Rightarrow> bool"
  assumes reading: "keeps Q (in_world (en_read env n))"
    and draining: "keeps Q (in_world (en_drain env))"
    and connecting: "keeps Q (in_world (en_open env))"
    and sleeping: "keeps Q (sleep env ms)"
    and writing: "sendable w \<Longrightarrow> keeps Q (in_world (en_write env w))"
    and bus: "keeps Q (on_bus (publish e))"
    and assembler: "Q c \<Longrightarrow> Q (c\<lparr>cl_assembler := asm\<rparr>)"
    and totals: "Q c \<Longrightarrow> Q (refresh_totals c)"
    and popping: "keeps Q (pop_outbound env a)"
    and polling: "keeps Q (call_session env a session_build_poll)"
    and timing: "keeps Q (call_session env a (\<lambda>now. on_timeout now m))"
    and handling: "keeps Q (call_session env a (\<lambda>now. handle_response_frame now f))"
    and field: "keeps Q (on_session a (read_act (\<lambda>s. return_act (g s :: int))))"
      "keeps Q (on_session a (read_act (\<lambda>s. return_act (u s :: unit))))"
    and erring: "keeps Q (on_session a (modify_act (set_error err)))"
    and answering: "keeps Q (on_session a (outbound_answer policy k resp))"
    and poll_sendable: "build_poll a = Inr w \<Longrightarrow> sendable w"
    and ack_sendable: "build_ack a k = Inr w \<Longrightarrow> sendable w"
    and data_sendable: "Q c \<Longrightarrow> fst (pop_outbound env a c) = Inr (Some i) \<Longrightarrow>
      build_data_frame a k (oi_payload i) None DEFAULT_CRC_CANDIDATE = Inr w \<Longrightarrow> sendable w"
begin

lemma write_frame_keeps: "sendable w \<Longrightarrow> keeps Q (write_frame env w a note)"
  unfolding write_frame_def by (intro keeps_then writing draining keeps_read_each bus)

lemma first_frame_keeps: "keeps Q (first_frame env es)"
proof (induction es)
  case (Cons e es)
  then show ?case
    by (simp only: first_frame.simps) (intro keeps_if keeps_then keeps_read_each keeps_return bus)
qed (simp only: first_frame.simps keeps_return)

lemma feed_chunk_keeps: "keeps Q (feed_chunk env chunk)"
  unfolding feed_chunk_def case_prod_unfold Let_def
  by (intro keeps_read_each keeps_then keeps_modify assembler first_frame_keeps)

lemma read_passes_keeps: "keeps Q (read_passes env n)"
proof (induction n)
  case (Suc n)
  then show ?case
    by (simp only: read_passes.simps)
      (intro keeps_bind keeps_if keeps_then keeps_read_each keeps_return reading sleeping feed_chunk_keeps)
qed (simp only: read_passes.simps keeps_return)

lemma response_window_keeps: "keeps Q (response_window env)"
  unfolding response_window_def read_one_frame_def by (intro keeps_read_each read_passes_keeps)

lemma poll_wire: "fst (call_session env a session_build_poll c) = Inr w \<Longrightarrow> sendable w"
  by (auto simp: call_session_def on_session_def session_build_poll_def split: option.splits prod.splits sum.splits
      intro: poll_sendable)

lemma ack_wire:
  assumes "fst (call_session env a (\<lambda>now. handle_response_frame now f) c) = Inr (Some w)"
  shows "sendable w"
proof -
  from assms obtain now s where "fst (handle_response_frame now f s) = Inr (Some w)"
    by (auto simp: call_session_def on_session_def prod_eq_iff split: option.splits prod.splits)
  from handle_answer [OF this] show ?thesis by (auto intro: ack_sendable)
qed

lemma maybe_send_keeps: "keeps Q (maybe_send_outbound env a)"
  unfolding maybe_send_outbound_def session_field_def
proof (intro keeps_bind_value popping keeps_case_option keeps_return field keeps_result keeps_then write_frame_keeps
    response_window_keeps keeps_read_each answering)
  fix c c' c'' x i seq w
  assume "Q c" "fst (pop_outbound env a c) = Inr x" "x = Some i"
    "fst (result_act (build_data_frame a seq (oi_payload i) None DEFAULT_CRC_CANDIDATE) c'') = Inr w"
  then show "sendable w" using data_sendable by simp
qed

lemma answer_frame_keeps: "keeps Q (answer_frame env a f)"
  unfolding answer_frame_def
  by (intro keeps_bind_value handling keeps_case_option keeps_return write_frame_keeps) (simp add: ack_wire)

lemma count_timeout_keeps: "keeps Q (count_timeout env a)"
  unfolding count_timeout_def by (intro keeps_read_each timing)

lemma retry_polls_keeps: "keeps Q (retry_polls env a n)"
proof (induction n)
  case (Suc n)
  then show ?case
    by (simp only: retry_polls.simps)
      (intro keeps_read_each keeps_if keeps_return keeps_bind_value polling keeps_then write_frame_keeps poll_wire
        response_window_keeps answer_frame_keeps count_timeout_keeps)
qed (simp only: retry_polls.simps keeps_return)

lemma poll_one_keeps: "keeps Q (poll_one env a)"
  unfolding poll_one_def session_field_def handle_timeout_with_retries_def
  by (intro keeps_then field maybe_send_keeps keeps_bind_value polling write_frame_keeps poll_wire response_window_keeps
      keeps_case_option keeps_read_each retry_polls_keeps count_timeout_keeps keeps_modify totals keeps_if erring
      answer_frame_keeps)

lemma guarded_poll_keeps: "keeps Q (guarded_poll env a)"
proof -
  have "Q (snd (guarded_poll env a c))" if "Q c" for c
  proof -
    obtain r c1 where r: "poll_one env a c = (r, c1)" by fastforce
    with keepsD [OF poll_one_keeps that, of a] have "Q c1" by simp
    then show ?thesis
      using r keepsD [OF erring, of c1] by (cases r) (simp_all add: guarded_poll_def)
  qed
  then show ?thesis by (simp add: keeps_def)
qed

lemma sweep_keeps: "keeps Q (sweep env as)"
proof (induction "as")
  case (Cons a as)
  then show ?case
    by (simp only: sweep.simps) (intro keeps_read_each keeps_if keeps_return keeps_then guarded_poll_keeps sleeping)
qed (simp only: sweep.simps keeps_return)

lemma reconnect_keeps: "Q c \<Longrightarrow> Q (reconnect env c)"
  unfolding reconnect_def Let_def by (intro keepsD [OF connecting] keepsD [OF sleeping])

lemma run_loop_keeps: "run_loop env d n c = Some rc \<Longrightarrow> Q c \<Longrightarrow> Q (snd rc)"
proof (induction n arbitrary: c)
  case (Suc n)
  obtain r c1 where sw: "sweep env (pg_addresses (cl_config c)) c = (r, c1)" by fastforce
  with keepsD [OF sweep_keeps Suc.prems(2), of "pg_addresses (cl_config c)"] have q: "Q c1" by simp
  have s: "Q (snd (sleep env ms c1))" for ms by (rule keepsD [OF sleeping q])
  have "Some rc = Some (Inr (), c) \<or> run_loop env d n (reconnect env c) = Some rc \<or> Some rc = Some (r, c1) \<or>
      (\<exists>ms. run_loop env d n (snd (sleep env ms c1)) = Some rc)"
    using Suc.prems(1) sw by (cases r) (auto split: if_splits)
  with q s Suc.prems(2) show ?case using Suc.IH reconnect_keeps by (metis option.inject snd_conv)
qed simp

end

section \<open>The sessions and their machines\<close>

definition each_session :: "(int \<Rightarrow> pump_session \<Rightarrow> bool) \<Rightarrow> 'w controller \<Rightarrow> bool" where
  "each_session P c \<longleftrightarrow> list_all (\<lambda>(a, s). P a s) (cl_sessions c)"

lemma list_all_update: "list_all Q al \<Longrightarrow> Q (k, v) \<Longrightarrow> list_all Q (AList.update k v al)"
  by (induction al) auto

lemma each_session_cong: "cl_sessions c' = cl_sessions c \<Longrightarrow> each_session P c' = each_session P c"
  by (simp add: each_session_def)

lemma on_session_each:
  assumes "keeps (P a) m" "\<And>s b. P a s \<Longrightarrow> P a (s\<lparr>cs_bus := b\<rparr>)"
  shows "keeps (each_session P) (on_session a m :: ('w controller, 'a) action)"
proof -
  have "each_session P (snd (on_session a m c))" if all: "each_session P c" for c :: "'w controller"
  proof (cases "map_of (cl_sessions c) a")
    case (Some s)
    obtain r s' where m: "m (s\<lparr>cs_bus := cl_bus c\<rparr>) = (r, s')" by fastforce
    have "P a s" using all map_of_SomeD [OF Some] by (auto simp: each_session_def list_all_iff)
    then have "P a s'" using keepsD [OF assms(1) assms(2) [of s "cl_bus c"]] m by simp
    then show ?thesis
      using all Some m by (simp add: on_session_def each_session_def list_all_update)
  qed (use all in \<open>simp add: on_session_def\<close>)
  then show ?thesis by (simp add: keeps_def)
qed

lemma controller_fields:
  "cl_sessions (snd (in_world m c)) = cl_sessions c" "cl_config (snd (in_world m c)) = cl_config c"
  "cl_sessions (snd (sleep env ms c)) = cl_sessions c" "cl_config (snd (sleep env ms c)) = cl_config c"
  "cl_sessions (snd (on_bus p c)) = cl_sessions c" "cl_config (snd (on_bus p c)) = cl_config c"
  "cl_sessions (snd (pop_outbound env a c)) = cl_sessions c" "cl_config (snd (pop_outbound env a c)) = cl_config c"
  "cl_sessions (refresh_totals c) = cl_sessions c" "cl_config (refresh_totals c) = cl_config c"
  by (simp_all add: in_world_def sleep_def on_bus_def pop_outbound_def refresh_totals_def split: prod.split)

definition machine_reached :: "int \<Rightarrow> pump_session \<Rightarrow> bool" where
  "machine_reached a s \<longleftrightarrow> tracks_machine (new_context (''pump-'' @ int_text a) a) s"

lemma outbound_answer_context:
  "cs_context (snd (outbound_answer policy k resp s)) = cs_context s"
  "cs_last_state (snd (outbound_answer policy k resp s)) = cs_last_state s"
  by (auto simp: outbound_answer_def bind_act_def split: option.split sum.split)

lemma machine_reached_eq: "machine_reached a = tracks_machine (new_context (''pump-'' @ int_text a) a)"
  by (rule ext) (simp add: machine_reached_def)

lemma machine_reached_keeps:
  "keeps (machine_reached a) (session_build_poll now)"
  "keeps (machine_reached a) (on_timeout now m)"
  "keeps (machine_reached a) (handle_response_frame now f)"
  "keeps (machine_reached a) (read_act (\<lambda>s. return_act (g s)))"
  "keeps (machine_reached a) (modify_act (set_error err))"
  "keeps (machine_reached a) (outbound_answer policy k resp)"
  "machine_reached a s \<Longrightarrow> machine_reached a (s\<lparr>cs_bus := b\<rparr>)"
  unfolding machine_reached_eq
  by (rule tracked.build_poll_keeps tracked.on_timeout_keeps tracked.handle_keeps [OF always_no_fault])+
    (simp_all add: keeps_def tracks_machine_def outbound_answer_context)

interpretation tracked_loop: loop_invariant env "each_session machine_reached" "\<lambda>_. True" for env
  by unfold_locales
    (simp_all add: on_session_each machine_reached_keeps call_session_def keeps_read keepsD keeps_read_each,
     simp_all add: keeps_def each_session_def controller_fields)

lemma new_sessions:
  "list_all (\<lambda>(a, s). P a s) ss \<Longrightarrow> (\<And>a. P a (new_pump_session a (''pump-'' @ int_text a) bus policy)) \<Longrightarrow>
    list_all (\<lambda>(a, s). P a s)
      (foldl (\<lambda>ss a. AList.update a (new_pump_session a (''pump-'' @ int_text a) bus policy) ss) ss as)"
  by (induction "as" arbitrary: ss) (simp_all add: list_all_update)

lemma new_controller_reached: "each_session machine_reached (new_controller cfg safety bus queue w)"
  unfolding each_session_def new_controller_def controller.simps
  by (rule new_sessions)
    (simp_all add: machine_reached_def tracks_machine_def new_pump_session_def faultless_run_refl new_context_def)

text \<open>The addresses served and the configuration never change.\<close>

definition serves :: "poll_config \<Rightarrow> 'w controller \<Rightarrow> bool" where
  "serves cfg c \<longleftrightarrow> cl_config c = cfg \<and> set (pg_addresses cfg) \<subseteq> dom (map_of (cl_sessions c))"

lemma on_session_serves: "keeps (serves cfg) (on_session a m :: ('w controller, 'a) action)"
proof -
  have "dom (map_of (cl_sessions c)) \<subseteq> dom (map_of (cl_sessions (snd (on_session a m c)))) \<and>
      cl_config (snd (on_session a m c)) = cl_config c" for c :: "'w controller"
    by (auto simp: on_session_def update_conv' split: option.split prod.split)
  then show ?thesis unfolding keeps_def serves_def by (metis order_trans)
qed

interpretation served_loop: loop_invariant env "serves cfg" "\<lambda>_. True" for env cfg
  by unfold_locales
    (simp_all add: on_session_serves call_session_def keeps_read keepsD keeps_read_each,
     simp_all add: keeps_def serves_def controller_fields)

lemma serves_addresses:
  "dom (map_of (foldl (\<lambda>ss a. AList.update a (f a) ss) ss as)) = dom (map_of ss) \<union> set as"
  by (induction "as" arbitrary: ss) (auto simp: update_conv')

lemma new_controller_serves: "serves cfg (new_controller cfg safety bus queue w)"
  by (simp add: serves_def new_controller_def serves_addresses)

lemma guarded_poll_returns:
  assumes "serves cfg c" "a \<in> set (pg_addresses cfg)"
  shows "fst (guarded_poll env a c) = Inr ()"
proof -
  obtain r c1 where p: "poll_one env a c = (r, c1)" by fastforce
  with keepsD [OF served_loop.poll_one_keeps assms(1), of env a] have "serves cfg c1" by simp
  then obtain s where "map_of (cl_sessions c1) a = Some s" using assms(2) by (auto simp: serves_def)
  with p show ?thesis by (cases r) (simp_all add: guarded_poll_def on_session_def)
qed

lemma sweep_returns: "serves cfg c \<Longrightarrow> set as \<subseteq> set (pg_addresses cfg) \<Longrightarrow> fst (sweep env as c) = Inr ()"
proof (induction "as" arbitrary: c)
  case (Cons a as)
  obtain r c1 where g: "guarded_poll env a c = (r, c1)" by fastforce
  with guarded_poll_returns [OF Cons.prems(1), of a env] Cons.prems(2) have "r = Inr ()" by simp
  moreover have "serves cfg (snd (sleep env (pg_inter_poll_delay_ms (cl_config c)) c1))"
    using keepsD [OF served_loop.guarded_poll_keeps Cons.prems(1), of env a] g keepsD [OF served_loop.sleeping] by simp
  moreover obtain c2 where "sleep env (pg_inter_poll_delay_ms (cl_config c)) c1 = (Inr (), c2)"
    by (simp add: sleep_def)
  ultimately show ?case using Cons.IH [of c2] Cons.prems(2) g by simp
qed simp

lemma run_loop_returns: "serves cfg c \<Longrightarrow> run_loop env d n c = Some rc \<Longrightarrow> fst rc = Inr ()"
proof (induction n arbitrary: c)
  case (Suc n)
  obtain r c1 where sw: "sweep env (pg_addresses (cl_config c)) c = (r, c1)" by fastforce
  have "cl_config c = cfg" using Suc.prems(1) by (simp add: serves_def)
  with sweep_returns [OF Suc.prems(1), of "pg_addresses (cl_config c)" env] sw have r: "r = Inr ()" by simp
  have "serves cfg c1" using keepsD [OF served_loop.sweep_keeps Suc.prems(1)] sw by (metis snd_conv)
  from keepsD [OF served_loop.sleeping this] have s: "serves cfg (snd (sleep env ms c1))" for ms .
  from Suc.prems sw r show ?case
    by (auto simp: split: if_splits intro: Suc.IH s served_loop.reconnect_keeps)
qed simp

text \<open>
  C6. The pumps of a controller are isolated from each other and from what happens on the line: whatever the transport,
  the clock, the subscribers and the pumps do, no exception leaves the sweeps, and each session's context is one its own pump state
  machine reaches from its initial state.
\<close>

theorem controller_isolates_pumps:
  "case run_loop env deadline n (new_controller cfg safety bus queue w) of
     None \<Rightarrow> True
   | Some (r, c) \<Rightarrow> r = Inr () \<and>
       list_all (\<lambda>(a, s). (\<exists>es. pump_run (new_context (''pump-'' @ int_text a) a) es (cs_context s)) \<and>
         cs_last_state s = pc_current_state (cs_context s)) (cl_sessions c)"
proof (cases "run_loop env deadline n (new_controller cfg safety bus queue w)")
  case (Some rc)
  have "list_all (\<lambda>(a, s). machine_reached a s) (cl_sessions (snd rc))"
    using tracked_loop.run_loop_keeps [OF Some new_controller_reached] by (simp add: each_session_def)
  then have "list_all (\<lambda>(a, s). (\<exists>es. pump_run (new_context (''pump-'' @ int_text a) a) es (cs_context s)) \<and>
      cs_last_state s = pc_current_state (cs_context s)) (cl_sessions (snd rc))"
    by (rule list.pred_mono_strong) (auto simp: machine_reached_def tracks_machine_def faultless_run_def)
  moreover have "fst rc = Inr ()" by (rule run_loop_returns [OF new_controller_serves Some])
  ultimately show ?thesis
    using Some by (simp add: case_prod_unfold)
qed simp

section \<open>What is written to the line\<close>

text \<open>An environment that also remembers what was written.\<close>

definition unlogged :: "('w, 'a) action \<Rightarrow> ('w \<times> bytes list, 'a) action" where
  "unlogged m v = (case m (fst v) of (r, w) \<Rightarrow> (r, (w, snd v)))"

definition logging :: "'w environment \<Rightarrow> ('w \<times> bytes list) environment" where
  "logging env =
    \<lparr>en_now = en_now env \<circ> fst, en_stop = en_stop env \<circ> fst, en_open = unlogged (en_open env),
     en_close = unlogged (en_close env), en_is_open = en_is_open env \<circ> fst, en_window = (\<lambda>ms v. en_window env ms (fst v)),
     en_read = (\<lambda>n. unlogged (en_read env n)),
     en_write = (\<lambda>data v. case en_write env data (fst v) of (r, w) \<Rightarrow> (r, (w, snd v @ [data]))),
     en_drain = unlogged (en_drain env), en_sleep = (\<lambda>ms v. (en_sleep env ms (fst v), snd v)),
     en_uuid = en_uuid env \<circ> fst\<rparr>"

definition authorised :: "safety_context \<Rightarrow> bytes \<Rightarrow> bool" where
  "authorised safety w \<longleftrightarrow> (\<exists>a. build_poll a = Inr w) \<or> (\<exists>a k. build_ack a k = Inr w) \<or>
     (\<exists>i a k. sd_allowed (evaluate_outbound_safety i safety) \<and>
       build_data_frame a k (oi_payload i) None DEFAULT_CRC_CANDIDATE = Inr w)"

definition authorised_log :: "safety_context \<Rightarrow> ('w \<times> bytes list) controller \<Rightarrow> bool" where
  "authorised_log safety c \<longleftrightarrow> queue_gated safety (cl_outbound c) \<and> list_all (authorised safety) (snd (cl_world c))"

lemma authorised_log_cong: "cl_outbound c' = cl_outbound c \<Longrightarrow> snd (cl_world c') = snd (cl_world c) \<Longrightarrow>
    authorised_log safety c' = authorised_log safety c"
  by (simp add: authorised_log_def)

lemma on_session_log: "keeps (authorised_log safety) (on_session a m)"
  by (simp add: keeps_def authorised_log_def on_session_def split: option.split prod.split)

lemma unlogged_log: "keeps (authorised_log safety) (in_world (unlogged m))"
  by (simp add: keeps_def authorised_log_def in_world_def unlogged_def split: prod.split)

lemma write_log: "authorised safety w \<Longrightarrow> keeps (authorised_log safety) (in_world (en_write (logging env) w))"
  by (simp add: keeps_def authorised_log_def in_world_def logging_def split: prod.split)

lemma pop_log: "keeps (authorised_log safety) (pop_outbound env a)"
proof -
  have "authorised_log safety (snd (pop_outbound env a c))" if "authorised_log safety c" for c
    using that queue_step_gated [of safety "cl_outbound c" "Q_pop (en_now env (cl_world c)) a"]
    by (simp add: authorised_log_def pop_outbound_def case_prod_unfold)
  then show ?thesis by (simp add: keeps_def)
qed

lemma pop_allowed:
  assumes "queue_gated safety q" "fst (pop_for_address now q a) = Some i"
  shows "sd_allowed (evaluate_outbound_safety i safety)"
proof -
  have "queue_view now q a \<noteq> [] \<and> i = hd (queue_view now q a)"
    using assms(2) outbound.pop_head [of now q a] by (cases "queue_view now q a") auto
  then have "i \<in> set (queue_view now q a)" by auto
  then show ?thesis using assms(1) by (simp add: queue_view_def queue_gated_def list_all_iff)
qed

interpretation logged_loop: loop_invariant "logging env" "authorised_log safety" "authorised safety" for env safety
proof (unfold_locales, goal_cases)
  case (19 c a i k w)
  then have "sd_allowed (evaluate_outbound_safety i safety)"
    using pop_allowed [of safety "cl_outbound c" _ a i]
    by (auto simp: authorised_log_def pop_outbound_def prod_eq_iff split: prod.splits)
  with 19 show ?case unfolding authorised_def by blast
qed (simp_all add: on_session_log call_session_def keeps_read keepsD keeps_read_each write_log pop_log,
     simp_all add: logging_def unlogged_log,
     auto simp: authorised_def keeps_def authorised_log_def sleep_def on_bus_def refresh_totals_def
       split: prod.split)

text \<open>
  C7. What reaches the line: over a whole run, with any transport, any pumps and any subscribers, every byte string the
  controller writes is a POLL, an ACK, or the DATA frame of a queue entry that the safety gate allows; the queue
  may hold whatever calls of enqueue and pop left in it.
\<close>

theorem only_authorised_writes:
  "case run_loop (logging env) deadline n (new_controller cfg safety bus (foldl (queue_step safety) \<lparr>oq_max_size = m, oq_items = []\<rparr> ops) (w, [])) of
     None \<Rightarrow> True
   | Some (r, c) \<Rightarrow> list_all (authorised safety) (snd (cl_world c))"
proof (cases "run_loop (logging env) deadline n (new_controller cfg safety bus (foldl (queue_step safety) \<lparr>oq_max_size = m, oq_items = []\<rparr> ops) (w, []))")
  case (Some rc)
  have "authorised_log safety (new_controller cfg safety bus (foldl (queue_step safety) \<lparr>oq_max_size = m, oq_items = []\<rparr> ops) (w, []))"
    using gate.run_preserves [of safety "\<lparr>oq_max_size = m, oq_items = []\<rparr>" ops]
    by (simp add: authorised_log_def new_controller_def queue_gated_def)
  from logged_loop.run_loop_keeps [OF Some this] Some show ?thesis by (simp add: authorised_log_def case_prod_unfold)
qed simp

section \<open>A run with a duration ends\<close>

text \<open>What a clock does: no call takes it back, and a sleep lasts at least as long as asked.\<close>

definition clock_forward :: "'w environment \<Rightarrow> bool" where
  "clock_forward env \<longleftrightarrow> (\<forall>w.
     en_now env w \<le> en_now env (snd (en_open env w)) \<and> en_now env w \<le> en_now env (snd (en_drain env w)) \<and>
     (\<forall>n. en_now env w \<le> en_now env (snd (en_read env n w))) \<and>
     (\<forall>data. en_now env w \<le> en_now env (snd (en_write env data w))) \<and>
     (\<forall>ms. en_now env w + max 0 ms \<le> en_now env (en_sleep env ms w)))"

definition not_before :: "'w environment \<Rightarrow> int \<Rightarrow> 'w controller \<Rightarrow> bool" where
  "not_before env t c \<longleftrightarrow> clock_forward env \<longrightarrow> t \<le> en_now env (cl_world c)"

lemma clock_sleep: "clock_forward env \<Longrightarrow> en_now env w + ms \<le> en_now env (en_sleep env ms w)"
  unfolding clock_forward_def by (metis add_left_mono max.cobounded2 order_trans)

lemma clock_sleep_forward: "clock_forward env \<Longrightarrow> en_now env w \<le> en_now env (en_sleep env ms w)"
  unfolding clock_forward_def by (metis add_increasing2 max.cobounded1 order_refl order_trans)

lemma in_world_not_before:
  "(\<And>w. clock_forward env \<Longrightarrow> en_now env w \<le> en_now env (snd (m w))) \<Longrightarrow> keeps (not_before env t) (in_world m)"
  by (simp add: keeps_def not_before_def in_world_def case_prod_unfold) (meson order_trans)

lemma on_session_world: "cl_world (snd (on_session a m c)) = cl_world c"
  by (simp add: on_session_def split: option.split prod.split)

lemma on_session_not_before: "keeps (not_before env t) (on_session a m)"
  by (simp add: keeps_def not_before_def on_session_world)

lemma sleep_not_before: "keeps (not_before env t) (sleep env ms)"
  by (simp add: keeps_def not_before_def sleep_def) (meson clock_sleep_forward order_trans)

lemma clock_world:
  "clock_forward env \<Longrightarrow> en_now env w \<le> en_now env (snd (en_open env w))"
  "clock_forward env \<Longrightarrow> en_now env w \<le> en_now env (snd (en_drain env w))"
  "clock_forward env \<Longrightarrow> en_now env w \<le> en_now env (snd (en_read env n w))"
  "clock_forward env \<Longrightarrow> en_now env w \<le> en_now env (snd (en_write env data w))"
  by (simp_all add: clock_forward_def)

interpretation clocked_loop: loop_invariant env "not_before env t" "\<lambda>_. True" for env t
  by unfold_locales
    (simp_all add: on_session_not_before call_session_def keeps_read keepsD keeps_read_each sleep_not_before
       in_world_not_before clock_world,
     simp_all add: keeps_def not_before_def on_bus_def pop_outbound_def refresh_totals_def case_prod_unfold)

lemma run_loop_ends:
  assumes "clock_forward env" "1 \<le> pg_idle_sleep_ms cfg" "1 \<le> pg_reconnect_delay_ms cfg"
  shows "serves cfg c \<Longrightarrow> d - en_now env (cl_world c) \<le> int n \<Longrightarrow> \<exists>rc. run_loop env (Some d) (Suc n) c = Some rc"
proof (induction n arbitrary: c)
  case (Suc n)
  have cfg: "cl_config c = cfg" using Suc.prems(1) by (simp add: serves_def)
  obtain r c1 where sw: "sweep env (pg_addresses cfg) c = (r, c1)" by fastforce
  with sweep_returns [OF Suc.prems(1), of "pg_addresses cfg" env] have r: "r = Inr ()" by simp
  have c1: "serves cfg c1" "not_before env (en_now env (cl_world c)) c1"
    using keepsD [OF served_loop.sweep_keeps Suc.prems(1), of env "pg_addresses cfg"]
      keepsD [OF clocked_loop.sweep_keeps, of env "en_now env (cl_world c)" c "pg_addresses cfg"] sw
    by (simp_all add: not_before_def)
  let ?c2 = "snd (sleep env (pg_idle_sleep_ms cfg) c1)"
  have "serves cfg ?c2" by (rule keepsD [OF served_loop.sleeping c1(1)])
  moreover have "en_now env (cl_world c) + 1 \<le> en_now env (cl_world ?c2)"
    using c1(2) clock_sleep [OF assms(1), of "cl_world c1" "pg_idle_sleep_ms cfg"] assms(1,2)
    by (simp add: not_before_def sleep_def)
  ultimately have polled: "\<exists>rc. run_loop env (Some d) (Suc n) ?c2 = Some rc" using Suc by simp
  let ?c3 = "reconnect env c"
  let ?w = "en_sleep env (pg_reconnect_delay_ms cfg) (cl_world c)"
  have "serves cfg ?c3" by (rule served_loop.reconnect_keeps [OF Suc.prems(1)])
  moreover have "en_now env ?w \<le> en_now env (snd (en_open env ?w))" using assms(1) by (simp add: clock_forward_def)
  then have "en_now env (cl_world c) + 1 \<le> en_now env (cl_world ?c3)"
    using clock_sleep [OF assms(1), of "cl_world c" "pg_reconnect_delay_ms cfg"] assms(3) cfg
    by (simp add: reconnect_def sleep_def in_world_def case_prod_unfold)
  ultimately have reconnected: "\<exists>rc. run_loop env (Some d) (Suc n) ?c3 = Some rc" using Suc by simp
  have cfg1: "cl_config c1 = cfg" using c1(1) by (simp add: serves_def)
  show ?case
    using polled reconnected sw r cfg cfg1
    by (subst run_loop.simps) (simp del: run_loop.simps)
qed simp

text \<open>
  C20. A run that is given a duration returns: when the clock never goes back, a sleep lasts as long as asked and both
  configured sleeps are positive, a run of d milliseconds needs at most d + 1 passes of the loop.
\<close>

theorem timed_run_ends:
  assumes "clock_forward env" "1 \<le> pg_idle_sleep_ms cfg" "1 \<le> pg_reconnect_delay_ms cfg"
  shows "\<exists>rc. run_controller env (Suc (nat d)) (Some d) (new_controller cfg safety bus queue w) = Some rc"
proof (cases "sd_allowed (evaluate_polling_allowed safety)")
  case True
  let ?c = "new_controller cfg safety bus queue w"
  obtain r c1 where o: "in_world (en_open env) ?c = (r, c1)" by fastforce
  have "serves cfg c1" using keepsD [OF served_loop.connecting new_controller_serves] o by (metis snd_conv)
  from run_loop_ends [OF assms this, of "en_now env (cl_world c1) + d" "nat d"]
  have "\<exists>rc. run_loop env (Some (en_now env (cl_world c1) + d)) (Suc (nat d)) c1 = Some rc" by simp
  with o True show ?thesis
    by (cases r) (auto simp: run_controller_def new_controller_def simp del: run_loop.simps)
qed (simp add: run_controller_def new_controller_def)

text \<open>A line without pumps: reads give nothing, time passes when the loop sleeps.\<close>

definition silent_line :: "int environment" where
  "silent_line = \<lparr>en_now = (\<lambda>t. t), en_stop = (\<lambda>t. False), en_open = return_act (), en_close = return_act (),
     en_is_open = (\<lambda>t. True), en_window = (\<lambda>ms t. nat ms), en_read = (\<lambda>n. return_act []),
     en_write = (\<lambda>data. return_act ()), en_drain = return_act (), en_sleep = (\<lambda>ms t. t + max 0 ms),
     en_uuid = (\<lambda>t. [])\<rparr>"

theorem timed_run_ends_witness:
  "\<exists>rc. run_controller silent_line (Suc (nat 100)) (Some 100)
     (new_controller default_poll_config default_lab_safety new_bus \<lparr>oq_max_size = 8, oq_items = []\<rparr> 0) = Some rc"
  by (rule timed_run_ends) (simp_all add: clock_forward_def silent_line_def default_poll_config_def)

end
