(* ===== verification/Link_Command.thy ===== *)
theory Link_Command
  imports Ctl_Loop
begin

text \<open>
  The controller loop in front of the virtual dispensers: what \<open>_maybe_send_outbound\<close> makes of a lost ACK. The
  environment is a line on which the session of the virtual pumps (\<open>simulator/session.py\<close>) answers every write at once;
  a list of flags says which answers are lost.
\<close>

section \<open>A line of virtual pumps\<close>

record pump_line =
  pl_sim :: sim_session
  pl_chunks :: "bytes list"
  pl_lost :: "bool list"

definition transmit :: "(int \<Rightarrow> nat \<Rightarrow> string) \<Rightarrow> bytes \<Rightarrow> (pump_line, unit) action" where
  "transmit fresh data v =
    (case receive fresh data (pl_sim v) of (r, sim) \<Rightarrow>
      (Inr (), v\<lparr>pl_sim := sim, pl_lost := tl (pl_lost v),
         pl_chunks := pl_chunks v @
           (case r of Inl e \<Rightarrow> [] | Inr x \<Rightarrow> if pl_lost v \<noteq> [] \<and> hd (pl_lost v) then [] else xr_responses x)\<rparr>))"

definition next_chunk :: "(pump_line, bytes) action" where
  "next_chunk v = (case pl_chunks v of [] \<Rightarrow> (Inr [], v) | ch # rest \<Rightarrow> (Inr ch, v\<lparr>pl_chunks := rest\<rparr>))"

definition pump_environment :: "(int \<Rightarrow> nat \<Rightarrow> string) \<Rightarrow> pump_line environment" where
  "pump_environment fresh =
    \<lparr>en_now = ss_now \<circ> pl_sim, en_stop = (\<lambda>v. False), en_open = return_act (), en_close = return_act (),
     en_is_open = (\<lambda>v. True), en_window = (\<lambda>ms v. nat ms), en_read = (\<lambda>n. next_chunk),
     en_write = transmit fresh, en_drain = return_act (), en_sleep = (\<lambda>ms v. v), en_uuid = (\<lambda>v. [])\<rparr>"

section \<open>One window\<close>

text \<open>A controller without subscribers and with an empty assembler, talking to one pump.\<close>

definition at_the_line :: "int \<Rightarrow> int \<Rightarrow> pump_session \<Rightarrow> sim_pump \<Rightarrow> pump_line controller \<Rightarrow> bool" where
  "at_the_line a k s p c \<longleftrightarrow> 0 \<le> a \<and> a \<le> 255 \<and> 0 \<le> k \<and> k \<le> 15 \<and>
     eb_subscribers (cl_bus c) = [] \<and> cl_assembler c = default_assembler \<and>
     0 < pg_response_timeout_ms (cl_config c) \<and> pl_chunks (cl_world c) = [] \<and>
     map_of (cl_sessions c) a = Some s \<and> cs_tx_sequence s = k \<and>
     map_of (ss_pumps (pl_sim (cl_world c))) a = Some p \<and> sp_communication_enabled p \<and> cf_dart_address (sp_config p) = a"

lemma window_silent:
  "pl_chunks (cl_world c) = [] \<Longrightarrow> read_passes (pump_environment fresh) n c = (Inr None, c)"
proof (induction n)
  case (Suc n)
  then show ?case
    by (simp add: bind_act_def in_world_def pump_environment_def next_chunk_def sleep_def)
qed simp

lemma window_frame:
  assumes "pl_chunks (cl_world c) = [wire]" "wire \<noteq> []" "0 < n"
    and "feed (cl_assembler c) wire = (cl_assembler c, [frame_event wire f])"
  shows "read_passes (pump_environment fresh) n c = (Inr (Some f), c\<lparr>cl_world := (cl_world c)\<lparr>pl_chunks := []\<rparr>\<rparr>)"
proof -
  obtain m where "n = Suc m" using assms(3) by (cases n) auto
  with assms show ?thesis
    by (simp add: bind_act_def in_world_def pump_environment_def next_chunk_def feed_chunk_def frame_event_def)
qed

lemma ack_on_the_wire:
  assumes "0 \<le> a" "a \<le> 255" "0 \<le> k" "k \<le> 15"
  obtains wire f where "build_ack a k = Inr wire" "wire \<noteq> []"
    "feed default_assembler wire = (default_assembler, [frame_event wire f])"
    "lf_control_type f = CtACK" "lf_sequence f = k"
proof -
  have comp: "composable CtACK k" using assms by (simp add: composable_def)
  obtain c where c: "compose_control CtACK k = Inr c" using comp compose_control_ok_iff by blast
  note cb = composed_byte [OF c comp]
  let ?x = "[byte_of_int a, byte_of_int c]"
  have w: "build_ack a k = Inr (escape_dle ?x @ [SF])"
    using assms c by (simp add: build_ack_def build_control_frame_def validate_address_def MAX_BUFFER_SIZE_def)
  obtain f where f: "parse_frame (escape_dle ?x @ [SF]) None DEFAULT_CRC_CANDIDATE = Inr f"
    "is_control_frame_of f a CtACK k (escape_dle ?x @ [SF])"
    using control_frame_parses [OF assms(1,2) comp, of None DEFAULT_CRC_CANDIDATE] w by (auto simp: build_ack_def)
  have fed: "feed default_assembler (escape_dle ?x @ [SF]) = (default_assembler, [candidate_event (escape_dle ?x @ [SF])])"
    by (rule feed_escaped_buffer) (simp_all add: cb default_assembler_def MAX_BUFFER_SIZE_def)
  have long: "\<not> length (escape_dle ?x @ [SF]) < 3"
    by (simp add: length_escape_dle)
  have ev: "candidate_event (escape_dle ?x @ [SF]) = frame_event (escape_dle ?x @ [SF]) f"
    unfolding candidate_event_def frame_event_def using long f(1) by (simp del: escape_dle.simps)
  have "lf_control_type f = CtACK" "lf_sequence f = k" using f(2) by (simp_all add: frame_specs)
  moreover have "escape_dle ?x @ [SF] \<noteq> []" by simp
  ultimately show thesis using that [OF w] fed unfolding ev by blast
qed

section \<open>One command\<close>

lemma write_quiet:
  assumes "eb_subscribers (cl_bus c) = []"
  shows "\<exists>b. write_frame (pump_environment fresh) wire a note c =
      (Inr (), c\<lparr>cl_world := snd (transmit fresh wire (cl_world c)), cl_bus := b\<rparr>) \<and> eb_subscribers b = []"
  using assms
  by (auto simp: write_frame_def in_world_def pump_environment_def transmit_def on_bus_def publish_def Let_def case_prod_unfold)

lemma receive_data:
  assumes "parse_frame wire None DEFAULT_CRC_CANDIDATE = Inr f" "lf_control_type f = CtDATA" "lf_address f = a"
    and "map_of (ss_pumps sim) a = Some p" "sp_communication_enabled p"
    and "pump_on_data (fresh a) (ss_config sim) (ss_now sim) f p = (Inr x, p')"
  shows "receive fresh wire sim =
    (Inr x, sim\<lparr>ss_pumps := AList.update a p' (ss_pumps sim), ss_faults := ss_faults sim @ xr_faults x\<rparr>)"
  using assms by (simp add: receive_def with_pump_def bind_act_def on_pump_def record_faults_def)

text \<open>The entry is taken, its frame written and answered, and the window opens.\<close>

definition command_frame :: "int \<Rightarrow> int \<Rightarrow> bytes \<Rightarrow> line_frame \<Rightarrow> bool" where
  "command_frame a k payload f \<longleftrightarrow> lf_address f = a \<and> lf_control_type f = CtDATA \<and> lf_sequence f = k \<and>
     lf_payload f = payload \<and> lf_crc_valid f = Some True"

definition after_command :: "int \<Rightarrow> pump_line controller \<Rightarrow> outbound_queue \<Rightarrow> sim_pump \<Rightarrow> bytes list \<Rightarrow> pump_line controller \<Rightarrow> bool" where
  "after_command a c q p' chunks c1 \<longleftrightarrow> cl_outbound c1 = q \<and> cl_config c1 = cl_config c \<and>
     cl_assembler c1 = default_assembler \<and> pl_chunks (cl_world c1) = chunks \<and>
     eb_subscribers (cl_bus c1) = [] \<and> pl_lost (cl_world c1) = tl (pl_lost (cl_world c)) \<and>
     ss_config (pl_sim (cl_world c1)) = ss_config (pl_sim (cl_world c)) \<and>
     ss_now (pl_sim (cl_world c1)) = ss_now (pl_sim (cl_world c)) \<and>
     map_of (ss_pumps (pl_sim (cl_world c1))) a = Some p' \<and>
     (\<exists>s1. map_of (cl_sessions c1) a = Some s1 \<and>
       cs_tx_sequence s1 = cs_tx_sequence (the (map_of (cl_sessions c) a)))"

lemma command_written:
  assumes "at_the_line a k s p c" "pop_for_address (ss_now (pl_sim (cl_world c))) (cl_outbound c) a = (Some i, q)"
    and "length (oi_payload i) \<le> max_payload"
    and "\<And>f. command_frame a k (oi_payload i) f \<Longrightarrow>
      pump_on_data (fresh a) (ss_config (pl_sim (cl_world c))) (ss_now (pl_sim (cl_world c))) f p = (Inr x, p')"
  obtains c1 where "maybe_send_outbound (pump_environment fresh) a c =
      bind_act (response_window (pump_environment fresh)) (\<lambda>resp.
        read_act (\<lambda>c. on_session a (outbound_answer (pg_policy (cl_config c)) k resp))) c1"
    "after_command a c q p'
       (if pl_lost (cl_world c) \<noteq> [] \<and> hd (pl_lost (cl_world c)) then [] else xr_responses x) c1"
proof -
  note line = assms(1) [unfolded at_the_line_def]
  obtain wire f where w: "build_data_frame a k (oi_payload i) None DEFAULT_CRC_CANDIDATE = Inr wire"
    "parse_frame wire None DEFAULT_CRC_CANDIDATE = Inr f" "is_data_frame_of f a k (oi_payload i) wire"
    using data_frame_parses [of a k "oi_payload i" DEFAULT_CRC_CANDIDATE] line assms(3) by blast
  have f: "command_frame a k (oi_payload i) f" using w(3) by (simp add: command_frame_def is_data_frame_of_def)
  have rc: "receive fresh wire (pl_sim (cl_world c)) = (Inr x, (pl_sim (cl_world c))
      \<lparr>ss_pumps := AList.update a p' (ss_pumps (pl_sim (cl_world c))),
       ss_faults := ss_faults (pl_sim (cl_world c)) @ xr_faults x\<rparr>)"
    using receive_data [OF w(2), of a "pl_sim (cl_world c)" p fresh x p'] f line assms(4) [OF f]
    by (simp add: command_frame_def)
  define c0 where "c0 = c\<lparr>cl_outbound := q,
      cl_sessions := AList.update a (s\<lparr>cs_bus := cl_bus c\<rparr>) (cl_sessions c), cl_bus := cl_bus c\<rparr>"
  have sub: "eb_subscribers (cl_bus c0) = []" using line by (simp add: c0_def)
  from write_quiet [OF this, of fresh wire a "''DATA_OUT''"] obtain b where
    b: "write_frame (pump_environment fresh) wire a ''DATA_OUT'' c0 =
      (Inr (), c0\<lparr>cl_world := snd (transmit fresh wire (cl_world c0)), cl_bus := b\<rparr>)" "eb_subscribers b = []" by blast
  let ?c1 = "c0\<lparr>cl_world := snd (transmit fresh wire (cl_world c0)), cl_bus := b\<rparr>"
  have pop: "pop_outbound (pump_environment fresh) a c = (Inr (Some i), c\<lparr>cl_outbound := q\<rparr>)"
    using assms(2) by (simp add: pop_outbound_def pump_environment_def)
  have tx: "session_field a cs_tx_sequence (c\<lparr>cl_outbound := q\<rparr>) = (Inr k, c0)"
    using line by (simp add: session_field_def on_session_def c0_def)
  have "maybe_send_outbound (pump_environment fresh) a c =
      bind_act (response_window (pump_environment fresh)) (\<lambda>resp.
        read_act (\<lambda>c. on_session a (outbound_answer (pg_policy (cl_config c)) k resp))) ?c1"
    unfolding maybe_send_outbound_def
    by (simp add: bind_act_def pop tx w(1) b(1))
  moreover have "after_command a c q p'
       (if pl_lost (cl_world c) \<noteq> [] \<and> hd (pl_lost (cl_world c)) then [] else xr_responses x) ?c1"
    using line rc b(2) by (simp add: after_command_def c0_def transmit_def update_conv')
  ultimately show thesis by (rule that)
qed

text \<open>The pump's answer is lost: the sequence number stays, the entry is gone.\<close>

lemma command_unanswered:
  assumes "at_the_line a k s p c" "pop_for_address (ss_now (pl_sim (cl_world c))) (cl_outbound c) a = (Some i, q)"
    and "length (oi_payload i) \<le> max_payload" "pl_lost (cl_world c) = True # later"
    and "\<And>f. command_frame a k (oi_payload i) f \<Longrightarrow>
      pump_on_data (fresh a) (ss_config (pl_sim (cl_world c))) (ss_now (pl_sim (cl_world c))) f p = (Inr x, p')"
    and "sp_communication_enabled p'" "cf_dart_address (sp_config p') = a"
  shows "\<exists>c' s'. maybe_send_outbound (pump_environment fresh) a c = (Inr (), c') \<and> at_the_line a k s' p' c' \<and>
    cl_outbound c' = q \<and> cl_config c' = cl_config c \<and> pl_lost (cl_world c') = later \<and>
    ss_now (pl_sim (cl_world c')) = ss_now (pl_sim (cl_world c))"
proof -
  note line = assms(1) [unfolded at_the_line_def]
  obtain c1 where c1: "maybe_send_outbound (pump_environment fresh) a c =
      bind_act (response_window (pump_environment fresh)) (\<lambda>resp.
        read_act (\<lambda>c. on_session a (outbound_answer (pg_policy (cl_config c)) k resp))) c1"
    "after_command a c q p' [] c1"
    using command_written [where fresh = fresh and a = a and x = x and p' = p', OF assms(1-3,5)] assms(4) by auto
  have "response_window (pump_environment fresh) c1 = (Inr None, c1)"
    using c1(2) window_silent by (simp add: response_window_def read_one_frame_def after_command_def)
  then show ?thesis
    using c1 line assms(4,6,7)
    by (auto simp: at_the_line_def bind_act_def on_session_def outbound_answer_def count_stat_def after_command_def update_conv')
qed

text \<open>The pump's ACK is heard: the sequence number advances.\<close>

lemma command_answered:
  assumes "at_the_line a k s p c" "pop_for_address (ss_now (pl_sim (cl_world c))) (cl_outbound c) a = (Some i, q)"
    and "length (oi_payload i) \<le> max_payload" "pl_lost (cl_world c) = []" "build_ack a k = Inr ack"
    and "\<And>f. command_frame a k (oi_payload i) f \<Longrightarrow>
      pump_on_data (fresh a) (ss_config (pl_sim (cl_world c))) (ss_now (pl_sim (cl_world c))) f p =
        (Inr (exchange [ack] faults notes), p')"
  shows "\<exists>c' n. maybe_send_outbound (pump_environment fresh) a c = (Inr (), c') \<and> cl_outbound c' = q \<and>
    map_of (ss_pumps (pl_sim (cl_world c'))) a = Some p' \<and>
    next_sequence k (pg_policy (cl_config c)) = Inr n \<and> cs_tx_sequence (the (map_of (cl_sessions c') a)) = n"
proof -
  note line = assms(1) [unfolded at_the_line_def]
  obtain c1 where c1: "maybe_send_outbound (pump_environment fresh) a c =
      bind_act (response_window (pump_environment fresh)) (\<lambda>resp.
        read_act (\<lambda>c. on_session a (outbound_answer (pg_policy (cl_config c)) k resp))) c1"
    "after_command a c q p' [ack] c1"
    using command_written [where fresh = fresh and a = a and x = "exchange [ack] faults notes" and p' = p', OF assms(1-3,6)]
      assms(4) by (auto simp: exchange_def)
  obtain f where ack: "ack \<noteq> []" "feed default_assembler ack = (default_assembler, [frame_event ack f])"
    "lf_control_type f = CtACK" "lf_sequence f = k"
    using ack_on_the_wire [of a k] line assms(5) by (metis sum.inject(2))
  obtain n where n: "next_sequence k (pg_policy (cl_config c)) = Inr n"
    using next_sequence_total [of k "pg_policy (cl_config c)"] line by blast
  let ?c2 = "c1\<lparr>cl_world := (cl_world c1)\<lparr>pl_chunks := []\<rparr>\<rparr>"
  have "response_window (pump_environment fresh) c1 = (Inr (Some f), ?c2)"
    using window_frame [of c1 ack "nat (pg_response_timeout_ms (cl_config c1))" f fresh] c1(2) ack line
    by (simp add: response_window_def read_one_frame_def after_command_def pump_environment_def)
  then show ?thesis
    using c1 line ack n
    by (auto simp: bind_act_def on_session_def outbound_answer_def after_command_def update_conv')
qed

lemma repetition_swallowed:
  assumes "at_the_line a k s p c" "pl_lost (cl_world c) = []" "sp_last_accepted p = Some k"
    and "pop_for_address (ss_now (pl_sim (cl_world c))) (cl_outbound c) a = (Some i, q)"
    and "length (oi_payload i) \<le> max_payload"
  shows "\<exists>c' n. maybe_send_outbound (pump_environment fresh) a c = (Inr (), c') \<and> cl_outbound c' = q \<and>
    map_of (ss_pumps (pl_sim (cl_world c'))) a = Some p \<and>
    next_sequence k (pg_policy (cl_config c)) = Inr n \<and> cs_tx_sequence (the (map_of (cl_sessions c') a)) = n"
proof -
  note line = assms(1) [unfolded at_the_line_def]
  obtain ack where ack: "build_ack a k = Inr ack" using build_ack_total [of a k] line by blast
  have "command_frame a k (oi_payload i) f \<Longrightarrow>
      pump_on_data (fresh a) (ss_config (pl_sim (cl_world c))) (ss_now (pl_sim (cl_world c))) f p =
        (Inr (exchange [ack] [line_fault Fault_DUPLICATE_DATA (Duplicate_data_sequence k) a (Some k) None
           (ss_now (pl_sim (cl_world c)))] [Duplicate_data_note]), p)" for f
    using line assms(3) ack by (simp add: command_frame_def pump_on_data_def bind_act_def Let_def)
  from command_answered [where fresh = fresh and a = a, OF assms(1,4,5,2) ack this] show ?thesis by blast
qed

text \<open>A pump that expects number k takes a command of that number: it applies it, accepts k and answers with an ACK.\<close>

lemma pump_takes_command:
  assumes "command_frame a k payload f" "0 \<le> a" "a \<le> 255" "0 \<le> k" "k \<le> 15" "cf_dart_address (sp_config p) = a"
    and "sp_expected_sequence p = k" "sp_last_accepted p \<noteq> Some k"
    and "handle_application_payload fresh cfg now payload p = (Inr faults, p1)"
    and "next_sequence k (sc_policy cfg) = Inr m" "build_ack a k = Inr ack"
  shows "pump_on_data fresh cfg now f p =
    (Inr (exchange [ack] faults ([Data_ack_note] @ (if faults \<noteq> [] then [Application_faults_note] else []))),
     p1\<lparr>sp_last_accepted := Some k, sp_expected_sequence := m\<rparr>)"
  using assms by (simp add: command_frame_def pump_on_data_def bind_act_def Let_def)

text \<open>
  C19. A lost ACK costs the next command. A pump expects the number k of the session; two commands wait, and the answer to the first
  is lost. The first write: the pump executes the first command and accepts k, the controller, which hears nothing, takes the command
  from its queue and keeps its number k. The second write: whatever the second command is, it goes out under the number k, the pump
  takes it for a repetition and is left exactly as it was, and the controller, which hears the ACK, takes the second
  command for accepted and moves on to the next number.
\<close>

theorem lost_ack_costs_next_command:
  assumes "at_the_line a k s p c" "pl_lost (cl_world c) = [True]"
    and "sp_expected_sequence p = k" "sp_last_accepted p \<noteq> Some k"
    and "pop_for_address (ss_now (pl_sim (cl_world c))) (cl_outbound c) a = (Some i1, q1)"
    and "pop_for_address (ss_now (pl_sim (cl_world c))) q1 a = (Some i2, q2)"
    and "length (oi_payload i1) \<le> max_payload" "length (oi_payload i2) \<le> max_payload"
    and "handle_application_payload (fresh a) (ss_config (pl_sim (cl_world c))) (ss_now (pl_sim (cl_world c)))
      (oi_payload i1) p = (Inr faults, p1)"
    and "sp_communication_enabled p1" "cf_dart_address (sp_config p1) = a"
  shows "\<exists>c1 c2 m n. next_sequence k (sc_policy (ss_config (pl_sim (cl_world c)))) = Inr m \<and>
    maybe_send_outbound (pump_environment fresh) a c = (Inr (), c1) \<and> cl_outbound c1 = q1 \<and>
    map_of (ss_pumps (pl_sim (cl_world c1))) a = Some (p1\<lparr>sp_last_accepted := Some k, sp_expected_sequence := m\<rparr>) \<and>
    map_option cs_tx_sequence (map_of (cl_sessions c1) a) = Some k \<and>
    maybe_send_outbound (pump_environment fresh) a c1 = (Inr (), c2) \<and> cl_outbound c2 = q2 \<and>
    map_of (ss_pumps (pl_sim (cl_world c2))) a = map_of (ss_pumps (pl_sim (cl_world c1))) a \<and>
    next_sequence k (pg_policy (cl_config c)) = Inr n \<and> cs_tx_sequence (the (map_of (cl_sessions c2) a)) = n"
proof -
  note line = assms(1) [unfolded at_the_line_def]
  obtain m ack where m: "next_sequence k (sc_policy (ss_config (pl_sim (cl_world c)))) = Inr m" and ack: "build_ack a k = Inr ack"
    using next_sequence_total build_ack_total line by metis
  let ?p = "p1\<lparr>sp_last_accepted := Some k, sp_expected_sequence := m\<rparr>"
  have takes: "command_frame a k (oi_payload i1) f \<Longrightarrow>
      pump_on_data (fresh a) (ss_config (pl_sim (cl_world c))) (ss_now (pl_sim (cl_world c))) f p =
        (Inr (exchange [ack] faults ([Data_ack_note] @ (if faults \<noteq> [] then [Application_faults_note] else []))), ?p)" for f
    by (rule pump_takes_command) (use line assms(3,4,9) m ack in auto)
  have "sp_communication_enabled ?p" "cf_dart_address (sp_config ?p) = a" using assms(10,11) by simp_all
  from command_unanswered [where fresh = fresh and a = a, OF assms(1,5,7,2) takes this] obtain c1 s1 where
    c1: "maybe_send_outbound (pump_environment fresh) a c = (Inr (), c1)" "at_the_line a k s1 ?p c1" "cl_outbound c1 = q1"
      "cl_config c1 = cl_config c" "pl_lost (cl_world c1) = []" "ss_now (pl_sim (cl_world c1)) = ss_now (pl_sim (cl_world c))"
    by blast
  have "pop_for_address (ss_now (pl_sim (cl_world c1))) (cl_outbound c1) a = (Some i2, q2)" using assms(6) c1(3,6) by simp
  from repetition_swallowed [where fresh = fresh, OF c1(2,5) _ this assms(8)] obtain c2 n where
    c2: "maybe_send_outbound (pump_environment fresh) a c1 = (Inr (), c2)" "cl_outbound c2 = q2"
      "map_of (ss_pumps (pl_sim (cl_world c2))) a = Some ?p" "next_sequence k (pg_policy (cl_config c1)) = Inr n"
      "cs_tx_sequence (the (map_of (cl_sessions c2) a)) = n" by auto
  have "map_option cs_tx_sequence (map_of (cl_sessions c1) a) = Some k" "map_of (ss_pumps (pl_sim (cl_world c1))) a = Some ?p"
    using c1(2) by (simp_all add: at_the_line_def)
  with m c1(1,3,4) c2 show ?thesis by auto
qed

definition waiting_command :: "bytes \<Rightarrow> outbound_item" where
  "waiting_command payload = create_item ''c-1'' 0 1 payload READ_STATUS True IDEMPOTENT 5000 2"

text \<open>A pump is asked for its parameters, then it is told to stop; the answer to the request is lost.\<close>

definition sample_line :: "pump_line controller" where
  "sample_line = new_controller default_poll_config default_lab_safety new_bus
     \<lparr>oq_max_size = 8, oq_items = [waiting_command [1, 1, 2], waiting_command [1, 1, 8]]\<rparr>
     \<lparr>pl_sim = \<lparr>ss_config = \<lparr>sc_policy = SPEC_F_TO_1, sc_response_timeout_ms = 25, sc_physical_enable = True,
          sc_active_commands = True, sc_pumps = []\<rparr>, ss_now = 0,
        ss_pumps = [(1, sample_pump\<lparr>sp_communication_enabled := True\<rparr>)],
        ss_faults = [], ss_notes = []\<rparr>, pl_chunks = [], pl_lost = [True]\<rparr>"

lemma waiting_command_payload: "oi_payload (waiting_command payload) = payload"
  by (simp add: waiting_command_def create_item_def)

lemma request_taken:
  obtains faults p1 where "handle_application_payload fresh cfg now [1, 1, 2] (sample_pump\<lparr>sp_communication_enabled := True\<rparr>) =
      (Inr faults, p1)" "sp_communication_enabled p1" "cf_dart_address (sp_config p1) = 1"
proof -
  have "\<exists>faults p1. handle_application_payload fresh cfg now [1, 1, 2] (sample_pump\<lparr>sp_communication_enabled := True\<rparr>) =
      (Inr faults, p1) \<and> sp_communication_enabled p1 \<and> cf_dart_address (sp_config p1) = 1"
    by (simp add: bind_act_def handle_one_tx_def handle_cd1_def pump_control_command_of_def queue_status_def queue_encoded_def
      queue_tx_def encode_dc1_status_def encode_tx_def bytes_of_int_def bind_result_def modify_act_def sample_pump_def new_sim_pump_def)
  then show thesis using that by blast
qed

theorem lost_ack_costs_next_command_witness:
  "\<exists>c1 c2 m n. next_sequence 0 SPEC_F_TO_1 = Inr m \<and>
    maybe_send_outbound (pump_environment (\<lambda>a n. [])) 1 sample_line = (Inr (), c1) \<and>
    oq_items (cl_outbound c1) = [waiting_command [1, 1, 8]] \<and>
    maybe_send_outbound (pump_environment (\<lambda>a n. [])) 1 c1 = (Inr (), c2) \<and> oq_items (cl_outbound c2) = [] \<and>
    map_of (ss_pumps (pl_sim (cl_world c2))) 1 = map_of (ss_pumps (pl_sim (cl_world c1))) 1 \<and>
    next_sequence 0 (pg_policy (cl_config sample_line)) = Inr n \<and> cs_tx_sequence (the (map_of (cl_sessions c2) 1)) = n"
proof -
  let ?s = "new_pump_session 1 (''pump-'' @ int_text 1) new_bus SPEC_F_TO_1"
  let ?p = "sample_pump\<lparr>sp_communication_enabled := True\<rparr>"
  let ?q = "\<lambda>items. \<lparr>oq_max_size = 8, oq_items = items\<rparr>"
  obtain faults p1 where p1: "handle_application_payload ((\<lambda>a n. []) 1) (ss_config (pl_sim (cl_world sample_line)))
      (ss_now (pl_sim (cl_world sample_line))) (oi_payload (waiting_command [1, 1, 2])) ?p = (Inr faults, p1)"
    "sp_communication_enabled p1" "cf_dart_address (sp_config p1) = 1"
    using request_taken [where fresh = "(\<lambda>a n. []) 1"] by (metis (no_types) waiting_command_payload)
  have "at_the_line 1 0 ?s ?p sample_line" "pl_lost (cl_world sample_line) = [True]"
    "sp_expected_sequence ?p = 0" "sp_last_accepted ?p \<noteq> Some 0"
    by (simp_all add: at_the_line_def sample_line_def new_controller_def new_bus_def default_poll_config_def sample_pump_def
        new_sim_pump_def new_pump_session_def)
  moreover have "pop_for_address (ss_now (pl_sim (cl_world sample_line))) (cl_outbound sample_line) 1 =
      (Some (waiting_command [1, 1, 2]), ?q [waiting_command [1, 1, 8]])"
    "pop_for_address (ss_now (pl_sim (cl_world sample_line))) (?q [waiting_command [1, 1, 8]]) 1 =
      (Some (waiting_command [1, 1, 8]), ?q [])"
    by (simp_all add: sample_line_def new_controller_def pop_for_address_def is_expired_def waiting_command_def create_item_def)
  moreover have "length (oi_payload (waiting_command [1, 1, x])) \<le> max_payload" for x
    by (simp add: waiting_command_def create_item_def max_payload_def MAX_BUFFER_SIZE_def MIN_DATA_FRAME_SIZE_def)
  moreover have "sc_policy (ss_config (pl_sim (cl_world sample_line))) = SPEC_F_TO_1"
    by (simp add: sample_line_def new_controller_def)
  ultimately show ?thesis
    using lost_ack_costs_next_command [of 1 0 ?s ?p sample_line "waiting_command [1, 1, 2]" "?q [waiting_command [1, 1, 8]]"
      "waiting_command [1, 1, 8]" "?q []" "\<lambda>a n. []", OF _ _ _ _ _ _ _ _ p1] by force
qed

end
