(* ===== verification/Svc_Worker.thy ===== *)
theory Svc_Worker
  imports Prelude "HOL-Library.Product_Lexorder"
begin

text \<open>
  \<open>services/persistence_worker.py\<close>: the bounded queue of persistence jobs and the task that works it off. A job is its
  priority, its number and a task \<open>'j\<close>; what a task does is a handler, an action of the handlers' state \<open>'s\<close>. The priority
  queue of \<open>asyncio\<close> is the list of its jobs in the order it hands them out. A pass is one turn of the
  worker's loop; \<open>stop\<close> is told how many passes fit into its timeout, and its cancellation falls between two jobs.
\<close>

section \<open>Model\<close>

datatype persist_priority = Priority_CRITICAL | Priority_NORMAL

fun priority_value :: "persist_priority \<Rightarrow> nat" where
  "priority_value Priority_CRITICAL = 0"
| "priority_value Priority_NORMAL = 1"

record 'j persist_job =
  pj_priority :: nat
  pj_seq :: nat
  pj_task :: 'j

definition job_key :: "'j persist_job \<Rightarrow> nat \<times> nat" where
  "job_key j = (pj_priority j, pj_seq j)"

record 'j worker =
  wk_queue :: "'j persist_job list"
  wk_maxsize :: nat
  wk_seq :: nat
  wk_running :: bool
  wk_stop :: bool
  wk_dropped_normal :: nat
  wk_processed :: nat
  wk_errors :: nat

definition new_worker :: "nat \<Rightarrow> 'j worker" where
  "new_worker maxsize = \<lparr>wk_queue = [], wk_maxsize = maxsize, wk_seq = 0, wk_running = False, wk_stop = False,
     wk_dropped_normal = 0, wk_processed = 0, wk_errors = 0\<rparr>"

definition start_worker :: "'j worker \<Rightarrow> 'j worker" where
  "start_worker w = (if wk_running w then w else w\<lparr>wk_stop := False, wk_running := True\<rparr>)"

text \<open>A queue of size 0 has no bound.\<close>

definition worker_full :: "'j worker \<Rightarrow> bool" where
  "worker_full w \<longleftrightarrow> 0 < wk_maxsize w \<and> wk_maxsize w \<le> length (wk_queue w)"

definition submit_job :: "persist_priority \<Rightarrow> 'j \<Rightarrow> ('j worker, unit) action" where
  "submit_job priority task w =
    (let w1 = w\<lparr>wk_seq := wk_seq w + 1\<rparr>;
         job = \<lparr>pj_priority = priority_value priority, pj_seq = wk_seq w + 1, pj_task = task\<rparr>
     in if worker_full w1
        then if priority = Priority_CRITICAL then (Inl QueueFullError, w1)
             else (Inr (), w1\<lparr>wk_dropped_normal := wk_dropped_normal w1 + 1\<rparr>)
        else (Inr (), w1\<lparr>wk_queue := insort_key job_key job (wk_queue w1)\<rparr>))"

definition work_pass :: "('j \<Rightarrow> ('s, unit) action) \<Rightarrow> 's \<times> 'j worker \<Rightarrow> 's \<times> 'j worker" where
  "work_pass handler sw =
    (case sw of (s, w) \<Rightarrow>
      if \<not> wk_running w \<or> wk_stop w then (s, w)
      else case wk_queue w of
          [] \<Rightarrow> (s, w)
        | j # js \<Rightarrow>
            (case handler (pj_task j) s of
               (Inl e, s') \<Rightarrow> (s', w\<lparr>wk_queue := js, wk_errors := wk_errors w + 1\<rparr>)
             | (Inr u, s') \<Rightarrow> (s', w\<lparr>wk_queue := js, wk_processed := wk_processed w + 1\<rparr>)))"

definition stop_worker :: "('j \<Rightarrow> ('s, unit) action) \<Rightarrow> bool \<Rightarrow> nat \<Rightarrow> 's \<times> 'j worker \<Rightarrow> 's \<times> 'j worker" where
  "stop_worker handler do_flush passes sw =
    (case (if do_flush then (work_pass handler ^^ passes) sw else sw) of
       (s, w) \<Rightarrow> (s, w\<lparr>wk_stop := True, wk_running := False\<rparr>))"

section \<open>Two queues\<close>

text \<open>
  What the worker promises: two first-in-first-out queues, the critical one served first. The specification is the
  list of tasks worked off and the two queues.
\<close>

datatype 'j worker_op = W_submit persist_priority 'j | W_pass

fun two_queues_step :: "nat \<Rightarrow> 'j list \<times> 'j list \<times> 'j list \<Rightarrow> 'j worker_op \<Rightarrow> 'j list \<times> 'j list \<times> 'j list" where
  "two_queues_step cap (log, cs, ns) (W_submit p j) =
    (if 0 < cap \<and> cap \<le> length cs + length ns then (log, cs, ns)
     else if p = Priority_CRITICAL then (log, cs @ [j], ns) else (log, cs, ns @ [j]))"
| "two_queues_step cap (log, c # cs, ns) W_pass = (log @ [c], cs, ns)"
| "two_queues_step cap (log, [], n # ns) W_pass = (log @ [n], [], ns)"
| "two_queues_step cap (log, [], []) W_pass = (log, [], [])"

text \<open>A handler that keeps a log and may raise.\<close>

definition logged :: "('j \<Rightarrow> py_error option) \<Rightarrow> 'j \<Rightarrow> ('j list, unit) action" where
  "logged fails j log = ((case fails j of None \<Rightarrow> Inr () | Some e \<Rightarrow> Inl e), log @ [j])"

fun worker_step :: "('j \<Rightarrow> py_error option) \<Rightarrow> 'j list \<times> 'j worker \<Rightarrow> 'j worker_op \<Rightarrow> 'j list \<times> 'j worker" where
  "worker_step fails (log, w) (W_submit p j) = (log, snd (submit_job p j w))"
| "worker_step fails (log, w) W_pass = work_pass (logged fails) (log, w)"

definition of_priority :: "persist_priority \<Rightarrow> 'j worker \<Rightarrow> 'j list" where
  "of_priority p w = map pj_task (filter (\<lambda>j. pj_priority j = priority_value p) (wk_queue w))"

definition worker_view :: "'j list \<times> 'j worker \<Rightarrow> 'j list \<times> 'j list \<times> 'j list" where
  "worker_view lw = (fst lw, of_priority Priority_CRITICAL (snd lw), of_priority Priority_NORMAL (snd lw))"

definition queue_sorted :: "nat \<Rightarrow> 'j list \<times> 'j worker \<Rightarrow> bool" where
  "queue_sorted cap lw \<longleftrightarrow> wk_running (snd lw) \<and> \<not> wk_stop (snd lw) \<and> wk_maxsize (snd lw) = cap \<and>
     (cap = 0 \<or> length (wk_queue (snd lw)) \<le> cap) \<and> sorted (map job_key (wk_queue (snd lw))) \<and>
     (\<forall>j \<in> set (wk_queue (snd lw)). pj_priority j \<le> 1 \<and> pj_seq j \<le> wk_seq (snd lw)) \<and>
     wk_processed (snd lw) + wk_errors (snd lw) = length (fst lw)"

lemma priority_value_cases: "priority_value p = 0 \<longleftrightarrow> p = Priority_CRITICAL" "priority_value p \<le> 1"
  "priority_value p = Suc 0 \<longleftrightarrow> p = Priority_NORMAL"
  by (cases p; simp)+

lemma insert_job:
  assumes "sorted (map job_key q)" "\<forall>j \<in> set q. pj_priority j \<le> 1 \<and> pj_seq j \<le> n" "pj_seq job = Suc n"
    "pj_priority job \<le> 1"
  shows "filter (\<lambda>j. pj_priority j = p) (insort_key job_key job q) =
    filter (\<lambda>j. pj_priority j = p) q @ (if pj_priority job = p then [job] else [])"
  using assms(1,2)
proof (induction q)
  case (Cons j q)
  have first: "job_key job \<le> job_key j \<longleftrightarrow> pj_priority job < pj_priority j"
    using Cons.prems(2) assms(3) by (auto simp: job_key_def less_eq_prod_def)
  have ahead: "pj_priority i \<noteq> pj_priority job" if "job_key job \<le> job_key j" "i \<in> set (j # q)" for i
  proof -
    have "job_key j \<le> job_key i" using Cons.prems(1) that(2) by auto
    then have "pj_priority j \<le> pj_priority i" by (auto simp: job_key_def less_eq_prod_def)
    with first that(1) show ?thesis by simp
  qed
  show ?case
  proof (cases "job_key job \<le> job_key j \<and> pj_priority job = p")
    case True
    have "pj_priority i \<noteq> p" if "i \<in> set (j # q)" for i using ahead [OF _ that] True by simp
    then have "filter (\<lambda>j. pj_priority j = p) (j # q) = []" by (intro filter_False) simp
    with True show ?thesis by simp
  next
    case False
    have "sorted (map job_key q)" "\<forall>j \<in> set q. pj_priority j \<le> 1 \<and> pj_seq j \<le> n" using Cons.prems by simp_all
    from Cons.IH [OF this] False show ?thesis by (cases "job_key job \<le> job_key j") simp_all
  qed
qed simp

lemma split_priorities:
  assumes "\<forall>j \<in> set (wk_queue w). pj_priority j \<le> 1"
  shows "length (of_priority Priority_CRITICAL w) + length (of_priority Priority_NORMAL w) = length (wk_queue w)"
proof -
  have "pj_priority j = 0 \<or> pj_priority j = 1" if "j \<in> set (wk_queue w)" for j using assms that by (cases "pj_priority j") auto
  then have "filter (\<lambda>j. pj_priority j = 1) (wk_queue w) = filter (\<lambda>j. pj_priority j \<noteq> 0) (wk_queue w)"
    by (intro filter_cong) force+
  then show ?thesis using sum_length_filter_compl [of "\<lambda>j. pj_priority j = 0" "wk_queue w"] by (simp add: of_priority_def)
qed

lemma submit_simulated:
  assumes "queue_sorted cap (log, w)"
  shows "queue_sorted cap (log, snd (submit_job p j w)) \<and>
    worker_view (log, snd (submit_job p j w)) = two_queues_step cap (worker_view (log, w)) (W_submit p j)"
proof -
  let ?job = "\<lparr>pj_priority = priority_value p, pj_seq = Suc (wk_seq w), pj_task = j\<rparr>"
  have q: "sorted (map job_key (wk_queue w))" "\<forall>j \<in> set (wk_queue w). pj_priority j \<le> 1 \<and> pj_seq j \<le> wk_seq w"
    and n: "length (of_priority Priority_CRITICAL w) + length (of_priority Priority_NORMAL w) = length (wk_queue w)"
    using assms split_priorities [of w] by (auto simp: queue_sorted_def)
  have f: "filter (\<lambda>j. pj_priority j = c) (insort_key job_key ?job (wk_queue w)) =
      filter (\<lambda>j. pj_priority j = c) (wk_queue w) @ (if priority_value p = c then [?job] else [])" for c
    using insert_job [OF q, of ?job c] priority_value_cases(2) by simp
  have s: "sorted (map job_key (insort_key job_key ?job (wk_queue w)))" using q(1) by (simp add: sorted_insort_key)
  have "queue_sorted cap (log, snd (submit_job p j w))"
    using assms q s by (cases p) (auto simp: queue_sorted_def submit_job_def worker_full_def Let_def set_insort_key le_SucI)
  moreover have "worker_view (log, snd (submit_job p j w)) = two_queues_step cap (worker_view (log, w)) (W_submit p j)"
    using assms n f by (cases p)
      (auto simp: submit_job_def Let_def worker_full_def worker_view_def of_priority_def queue_sorted_def)
  ultimately show ?thesis ..
qed

lemma pass_simulated:
  assumes "queue_sorted cap (log, w)"
  shows "queue_sorted cap (work_pass (logged fails) (log, w)) \<and>
    worker_view (work_pass (logged fails) (log, w)) = two_queues_step cap (worker_view (log, w)) W_pass"
proof (cases "wk_queue w")
  case Nil
  with assms show ?thesis by (simp add: work_pass_def queue_sorted_def worker_view_def of_priority_def)
next
  case (Cons j q)
  have p: "pj_priority j = 0 \<or> pj_priority j = 1 \<and> (\<forall>i \<in> set q. pj_priority i = 1)"
  proof (cases "pj_priority j = 0")
    case False
    then have "pj_priority i = 1" if "i \<in> set (j # q)" for i
    proof -
      have "pj_priority i \<le> 1" "i = j \<or> pj_priority j \<le> pj_priority i"
        using that assms Cons by (auto simp: queue_sorted_def job_key_def less_eq_prod_def)
      with False show ?thesis by auto
    qed
    then show ?thesis by simp
  qed simp
  from assms Cons have "queue_sorted cap (work_pass (logged fails) (log, w))"
    by (auto simp: work_pass_def queue_sorted_def logged_def split: option.split)
  moreover have "worker_view (work_pass (logged fails) (log, w)) = two_queues_step cap (worker_view (log, w)) W_pass"
    using p Cons assms
    by (auto simp: work_pass_def worker_view_def of_priority_def logged_def queue_sorted_def filter_empty_conv
        split: option.split)
  ultimately show ?thesis ..
qed

interpretation work: simulation "worker_step fails" "two_queues_step cap" worker_view "queue_sorted cap" "\<lambda>_. True"
  for fails :: "'j \<Rightarrow> py_error option" and cap
proof
  fix lw :: "'j list \<times> 'j worker" and op
  assume ok: "queue_sorted cap lw"
  obtain log w where lw: "lw = (log, w)" by fastforce
  show "queue_sorted cap (worker_step fails lw op)"
    and "worker_view (worker_step fails lw op) = two_queues_step cap (worker_view lw) op"
    using submit_simulated [OF ok [unfolded lw]] pass_simulated [OF ok [unfolded lw]] by (cases op; simp add: lw)+
qed

text \<open>
  The worker is two first-in-first-out queues, the critical one served first: however submissions and passes
  interleave and whichever handlers raise, the tasks worked off and the tasks waiting are those of the specification, and
  every task worked off is counted once, as processed or as an error.
\<close>

theorem worker_serves_two_queues:
  fixes fails :: "'j \<Rightarrow> py_error option"
  shows "case foldl (worker_step fails) ([], start_worker (new_worker cap)) ops of
     (log, w) \<Rightarrow> worker_view (log, w) = foldl (two_queues_step cap) ([], [], []) ops \<and>
       wk_processed w + wk_errors w = length log \<and> (cap = 0 \<or> length (wk_queue w) \<le> cap)"
proof -
  let ?st = "([] :: 'j list, start_worker (new_worker cap))"
  have "queue_sorted cap ?st" "worker_view ?st = ([], [], [])"
    by (simp_all add: queue_sorted_def start_worker_def new_worker_def worker_view_def of_priority_def)
  note run = work.run_simulated [OF this(1), of ops fails] this(2)
  obtain log w where e: "foldl (worker_step fails) ?st ops = (log, w)" by fastforce
  show ?thesis using run unfolding e by (simp add: queue_sorted_def list_all_iff)
qed

end
