(* ===== verification/Db_Store.thy ===== *)
theory Db_Store
  imports Pump_Domain "HOL-Library.AList"
begin

text \<open>
  \<open>persistence/models.py\<close> and \<open>persistence/unit_of_work.py\<close>: the tables and their constraints. A table is the
  list of its rows in insertion order. The database engine refuses a flush that breaks a key, a uniqueness constraint or a foreign key (\<open>PRAGMA foreign_keys=ON\<close>), and forgets what a failed unit of work
  wrote. A repository returns its rows themselves for the records of \<open>persistence/dto.py\<close>, which have the same fields.
  \<open>uuid4\<close> draws the next value of a supply; the clock is an argument.
\<close>

section \<open>Values\<close>

text \<open>A JSON value; a \<open>float\<close> is given by its \<open>repr\<close>.\<close>

datatype json =
  JNull | JBool bool | JInt int | JFloat string | JStr string | JList "json list" | JObj "(string \<times> json) list"

definition JOpt :: "('a \<Rightarrow> json) \<Rightarrow> 'a option \<Rightarrow> json" where
  "JOpt f x = (case x of None \<Rightarrow> JNull | Some v \<Rightarrow> f v)"

text \<open>\<open>PumpState.value\<close> and \<open>PumpState(text)\<close>, which raises on any other text; likewise for commands.\<close>

fun pump_state_value :: "pump_state \<Rightarrow> string" where
  "pump_state_value DISCONNECTED = ''DISCONNECTED''"
| "pump_state_value DISCOVERING = ''DISCOVERING''"
| "pump_state_value NOT_PROGRAMMED = ''NOT_PROGRAMMED''"
| "pump_state_value RESET = ''RESET''"
| "pump_state_value READY = ''READY''"
| "pump_state_value NOZZLE_UP = ''NOZZLE_UP''"
| "pump_state_value AUTHORIZED = ''AUTHORIZED''"
| "pump_state_value FILLING = ''FILLING''"
| "pump_state_value FILLING_COMPLETE = ''FILLING_COMPLETE''"
| "pump_state_value SUSPENDED = ''SUSPENDED''"
| "pump_state_value LIMIT_REACHED = ''LIMIT_REACHED''"
| "pump_state_value FAULTED = ''FAULTED''"
| "pump_state_value MAINTENANCE = ''MAINTENANCE''"

definition pump_state_of_value :: "string \<Rightarrow> pump_state option" where
  "pump_state_of_value t = find (\<lambda>s. pump_state_value s = t)
     [DISCONNECTED, DISCOVERING, NOT_PROGRAMMED, RESET, READY, NOZZLE_UP, AUTHORIZED, FILLING, FILLING_COMPLETE,
      SUSPENDED, LIMIT_REACHED, FAULTED, MAINTENANCE]"

fun pump_command_value :: "pump_command \<Rightarrow> string" where
  "pump_command_value READ_STATUS = ''READ_STATUS''"
| "pump_command_value READ_TOTALS = ''READ_TOTALS''"
| "pump_command_value SET_PRICE = ''SET_PRICE''"
| "pump_command_value Cmd_RESET = ''RESET''"
| "pump_command_value AUTHORIZE = ''AUTHORIZE''"
| "pump_command_value STOP = ''STOP''"
| "pump_command_value SUSPEND = ''SUSPEND''"
| "pump_command_value RESUME = ''RESUME''"
| "pump_command_value PRESET_AMOUNT = ''PRESET_AMOUNT''"
| "pump_command_value PRESET_VOLUME = ''PRESET_VOLUME''"

definition pump_command_of_value :: "string \<Rightarrow> pump_command option" where
  "pump_command_of_value t = find (\<lambda>c. pump_command_value c = t)
     [READ_STATUS, READ_TOTALS, SET_PRICE, Cmd_RESET, AUTHORIZE, STOP, SUSPEND, RESUME, PRESET_AMOUNT, PRESET_VOLUME]"

lemma pump_state_of_value [simp]: "pump_state_of_value (pump_state_value s) = Some s"
  by (cases s) (simp_all add: pump_state_of_value_def)

lemma pump_state_value_inj: "pump_state_value s = pump_state_value t \<Longrightarrow> s = t"
  by (metis option.inject pump_state_of_value)

lemma pump_state_value_nonempty [simp]: "pump_state_value s \<noteq> []"
  by (cases s) simp_all

lemma pump_command_of_value [simp]: "pump_command_of_value (pump_command_value c) = Some c"
  by (cases c) (simp_all add: pump_command_of_value_def)

section \<open>Tables\<close>

record pump_row =
  pr_id :: string
  pr_station :: string
  pr_logical :: string
  pr_address :: int
  pr_enabled :: bool
  pr_created_at :: int
  pr_updated_at :: int

record snapshot_row =
  sn_id :: string
  sn_pump :: string
  sn_state :: string
  sn_previous :: "string option"
  sn_nozzle :: "int option"
  sn_active_transaction :: "string option"
  sn_healthy :: bool
  sn_raw_status :: "int option"
  sn_source :: "string option"
  sn_version :: int
  sn_observed_at :: "int option"
  sn_persisted_at :: int

record transaction_row =
  tx_id :: string
  tx_uuid :: string
  tx_station :: string
  tx_pump :: string
  tx_nozzle :: "int option"
  tx_status :: string
  tx_raw_price :: "int option"
  tx_price_decimals :: "int option"
  tx_raw_volume :: int
  tx_volume_decimals :: "int option"
  tx_raw_amount :: int
  tx_amount_decimals :: "int option"
  tx_started_at :: "int option"
  tx_completed_at :: "int option"
  tx_closed_at :: "int option"
  tx_completion_key :: "string option"
  tx_simulated :: bool
  tx_environment :: string
  tx_created_at :: int
  tx_updated_at :: int

record transaction_event_row =
  te_id :: string
  te_transaction :: string
  te_type :: string
  te_key :: string
  te_payload :: "json option"
  te_source :: "string option"
  te_observed_at :: "int option"
  te_created_at :: int

record command_row =
  cm_correlation_id :: string
  cm_station :: string
  cm_pump :: "string option"
  cm_type :: string
  cm_status :: string
  cm_idempotency :: string
  cm_simulator_only :: bool
  cm_requested_at :: int
  cm_expires_at :: "int option"
  cm_completed_at :: "int option"
  cm_request :: "json option"
  cm_result :: "json option"
  cm_blocking :: "string list option"

record attempt_row =
  ca_id :: string
  ca_correlation_id :: string
  ca_number :: int
  ca_sequence :: "int option"
  ca_outcome :: string
  ca_error_code :: "string option"
  ca_raw_frame :: "string option"
  ca_attempted_at :: int

record alarm_row =
  al_id :: string
  al_station :: string
  al_pump :: "string option"
  al_severity :: string
  al_type :: string
  al_message :: string
  al_active :: bool
  al_first_seen_at :: int
  al_last_seen_at :: int
  al_cleared_at :: "int option"
  al_source_key :: string

record audit_row =
  au_id :: string
  au_correlation_id :: "string option"
  au_actor :: string
  au_source :: string
  au_action :: string
  au_station :: string
  au_pump :: "string option"
  au_previous_state :: "string option"
  au_resulting_state :: "string option"
  au_result :: string
  au_details :: "json option"
  au_created_at :: int
  au_previous_hash :: string
  au_record_hash :: string

record sync_row =
  sq_id :: string
  sq_entity_type :: string
  sq_entity_id :: string
  sq_event_type :: string
  sq_payload :: json
  sq_status :: string
  sq_attempts :: nat
  sq_available_at :: int
  sq_locked_at :: "int option"
  sq_last_error :: "string option"
  sq_created_at :: int
  sq_updated_at :: int
  sq_key :: string

record store =
  db_pumps :: "pump_row list"
  db_snapshots :: "snapshot_row list"
  db_transactions :: "transaction_row list"
  db_events :: "transaction_event_row list"
  db_commands :: "command_row list"
  db_attempts :: "attempt_row list"
  db_alarms :: "alarm_row list"
  db_audit :: "audit_row list"
  db_queue :: "sync_row list"
  db_supply :: "nat \<Rightarrow> string"
  db_drawn :: nat

definition empty_store :: "(nat \<Rightarrow> string) \<Rightarrow> store" where
  "empty_store supply = \<lparr>db_pumps = [], db_snapshots = [], db_transactions = [], db_events = [], db_commands = [],
     db_attempts = [], db_alarms = [], db_audit = [], db_queue = [], db_supply = supply, db_drawn = 0\<rparr>"

section \<open>Constraints\<close>

text \<open>The non-NULL values of a nullable column.\<close>

definition given :: "'a option list \<Rightarrow> 'a list" where
  "given xs = map the (filter (\<lambda>x. x \<noteq> None) xs)"

definition pumps_ok :: "store \<Rightarrow> bool" where
  "pumps_ok d \<longleftrightarrow> distinct (map pr_id (db_pumps d)) \<and>
     distinct (map (\<lambda>r. (pr_station r, pr_logical r)) (db_pumps d)) \<and>
     distinct (map (\<lambda>r. (pr_station r, pr_address r)) (db_pumps d))"

definition pump_exists :: "store \<Rightarrow> string \<Rightarrow> bool" where
  "pump_exists d p \<longleftrightarrow> p \<in> set (map pr_id (db_pumps d))"

definition snapshots_ok :: "store \<Rightarrow> bool" where
  "snapshots_ok d \<longleftrightarrow> distinct (map sn_id (db_snapshots d)) \<and> list_all (\<lambda>r. pump_exists d (sn_pump r)) (db_snapshots d)"

definition transactions_ok :: "store \<Rightarrow> bool" where
  "transactions_ok d \<longleftrightarrow> distinct (map tx_id (db_transactions d)) \<and> distinct (map tx_uuid (db_transactions d)) \<and>
     distinct (given (map tx_completion_key (db_transactions d))) \<and>
     list_all (\<lambda>r. pump_exists d (tx_pump r)) (db_transactions d)"

definition events_ok :: "store \<Rightarrow> bool" where
  "events_ok d \<longleftrightarrow> distinct (map te_id (db_events d)) \<and>
     distinct (map (\<lambda>r. (te_transaction r, te_key r)) (db_events d)) \<and>
     list_all (\<lambda>r. te_transaction r \<in> set (map tx_id (db_transactions d))) (db_events d)"

definition commands_ok :: "store \<Rightarrow> bool" where
  "commands_ok d \<longleftrightarrow> distinct (map cm_correlation_id (db_commands d)) \<and>
     list_all (pump_exists d) (given (map cm_pump (db_commands d)))"

definition attempts_ok :: "store \<Rightarrow> bool" where
  "attempts_ok d \<longleftrightarrow> distinct (map ca_id (db_attempts d)) \<and>
     list_all (\<lambda>r. ca_correlation_id r \<in> set (map cm_correlation_id (db_commands d))) (db_attempts d)"

definition alarms_ok :: "store \<Rightarrow> bool" where
  "alarms_ok d \<longleftrightarrow> distinct (map al_id (db_alarms d)) \<and>
     distinct (map (\<lambda>r. (al_station r, al_source_key r)) (db_alarms d)) \<and>
     list_all (pump_exists d) (given (map al_pump (db_alarms d)))"

definition audit_ok :: "store \<Rightarrow> bool" where
  "audit_ok d \<longleftrightarrow> distinct (map au_id (db_audit d))"

definition queue_ok :: "store \<Rightarrow> bool" where
  "queue_ok d \<longleftrightarrow> distinct (map sq_id (db_queue d)) \<and> distinct (map sq_key (db_queue d))"

definition schema_ok :: "store \<Rightarrow> bool" where
  "schema_ok d \<longleftrightarrow> pumps_ok d \<and> snapshots_ok d \<and> transactions_ok d \<and> events_ok d \<and> commands_ok d \<and> attempts_ok d \<and>
     alarms_ok d \<and> audit_ok d \<and> queue_ok d"

lemmas schema_defs = schema_ok_def pumps_ok_def snapshots_ok_def transactions_ok_def events_ok_def commands_ok_def
  attempts_ok_def alarms_ok_def audit_ok_def queue_ok_def

lemma given_simps [simp]: "given [] = []" "given (None # xs) = given xs" "given (Some x # xs) = x # given xs"
  "given (xs @ ys) = given xs @ given ys"
  by (simp_all add: given_def)

lemma set_given: "x \<in> set (given xs) \<longleftrightarrow> Some x \<in> set xs"
  by (induction xs) (auto simp: given_def)

section \<open>Sessions\<close>

definition draw_uuid :: "(store, string) action" where
  "draw_uuid d = (Inr (db_supply d (db_drawn d)), d\<lparr>db_drawn := db_drawn d + 1\<rparr>)"

definition flush :: "(store, unit) action" where
  "flush d = (if schema_ok d then (Inr (), d) else (Inl IntegrityError, d))"

text \<open>\<open>async with session.begin()\<close>: what an exception leaves behind is rolled back; identifiers drawn stay drawn.\<close>

definition unit_of_work :: "(store, 'a) action \<Rightarrow> (store, 'a) action" where
  "unit_of_work m d = (case m d of (Inl e, d') \<Rightarrow> (Inl e, d\<lparr>db_drawn := db_drawn d'\<rparr>) | (Inr x, d') \<Rightarrow> (Inr x, d'))"

text \<open>\<open>update where P set g\<close>, and \<open>order by f desc\<close>, which like the ascending order keeps ties in insertion order.\<close>

definition update_where :: "('r \<Rightarrow> bool) \<Rightarrow> ('r \<Rightarrow> 'r) \<Rightarrow> 'r list \<Rightarrow> 'r list" where
  "update_where P g rs = map (\<lambda>r. if P r then g r else r) rs"

definition sort_desc :: "('r \<Rightarrow> int) \<Rightarrow> 'r list \<Rightarrow> 'r list" where
  "sort_desc f rs = sort_key (\<lambda>r. - f r) rs"

definition page :: "nat \<Rightarrow> nat \<Rightarrow> 'r list \<Rightarrow> 'r list" where
  "page offset limit rs = take limit (drop offset rs)"

text \<open>A filter argument that is None does not filter.\<close>

definition matches :: "'a option \<Rightarrow> ('a \<Rightarrow> bool) \<Rightarrow> bool" where
  "matches arg P = (case arg of None \<Rightarrow> True | Some v \<Rightarrow> P v)"

lemma update_where_map: "(\<And>r. P r \<Longrightarrow> f (g r) = f r) \<Longrightarrow> map f (update_where P g rs) = map f rs"
  by (simp add: update_where_def)

lemma set_sort_desc [simp]: "set (sort_desc f rs) = set rs" "length (sort_desc f rs) = length rs"
  by (simp_all add: sort_desc_def)

lemma unit_of_work_returns: "m d = (Inr x, d') \<Longrightarrow> unit_of_work m d = (Inr x, d')"
  by (simp add: unit_of_work_def)

lemma flush_ok: "schema_ok d \<Longrightarrow> flush d = (Inr (), d)"
  by (simp add: flush_def)

lemma write_flush: "then_act (modify_act g) (then_act flush (return_act x)) d =
    (if schema_ok (g d) then (Inr x, g d) else (Inl IntegrityError, g d))"
  by (simp add: flush_def)

lemma flush_Inr: "fst (flush d) = Inr x \<longleftrightarrow> schema_ok d"
  by (simp add: flush_def)

section \<open>Work that keeps the constraints\<close>

text \<open>An action whose normal returns leave a consistent store; as a unit of work it always does.\<close>

definition commits :: "(store, 'a) action \<Rightarrow> bool" where
  "commits m \<longleftrightarrow> (\<forall>d. schema_ok d \<longrightarrow> (case m d of (Inl e, d') \<Rightarrow> True | (Inr x, d') \<Rightarrow> schema_ok d'))"

named_theorems commit_intros

lemma commitsD: "commits m \<Longrightarrow> schema_ok d \<Longrightarrow> m d = (Inr x, d') \<Longrightarrow> schema_ok d'"
  by (auto simp: commits_def split: prod.splits sum.splits)

lemma commits_return [commit_intros]: "commits (return_act x)"
  by (simp add: commits_def)

lemma commits_result [commit_intros]: "commits (result_act r)"
  by (simp add: commits_def split: sum.split)

lemma commits_bind [commit_intros]: "commits m \<Longrightarrow> (\<And>x. commits (f x)) \<Longrightarrow> commits (bind_act m f)"
  by (fastforce simp: commits_def bind_act_def split: prod.splits sum.splits)

lemma commits_then [commit_intros]: "commits m \<Longrightarrow> commits n \<Longrightarrow> commits (then_act m n)"
  unfolding then_act_def by (rule commits_bind)

lemma commits_read [commit_intros]: "(\<And>d. commits (f d)) \<Longrightarrow> commits (read_act f)"
  by (simp add: commits_def)

lemma commits_if [commit_intros]: "(b \<Longrightarrow> commits m) \<Longrightarrow> (\<not> b \<Longrightarrow> commits n) \<Longrightarrow> commits (if b then m else n)"
  by simp

lemma commits_option [commit_intros]:
  "commits m \<Longrightarrow> (\<And>y. commits (f y)) \<Longrightarrow> commits (case x of None \<Rightarrow> m | Some y \<Rightarrow> f y)"
  by (cases x) simp_all

lemma commits_pair [commit_intros]: "(\<And>x y. commits (f x y)) \<Longrightarrow> commits (case p of (x, y) \<Rightarrow> f x y)"
  by (cases p) simp

lemma schema_ok_drawn [simp]: "schema_ok (d\<lparr>db_drawn := n\<rparr>) = schema_ok d"
  by (simp add: schema_defs pump_exists_def [abs_def])

lemma commits_draw [commit_intros]: "commits draw_uuid"
  by (simp add: commits_def draw_uuid_def)

text \<open>A write is followed by its flush.\<close>

lemma commits_write [commit_intros]: "commits (then_act (modify_act g) (then_act flush (return_act x)))"
  by (simp add: commits_def flush_def)

lemma unit_of_work_schema: "commits m \<Longrightarrow> schema_ok d \<Longrightarrow> schema_ok (snd (unit_of_work m d))"
  by (auto simp: unit_of_work_def commits_def split: prod.splits sum.splits)

end
