(* ===== verification/Db_Ledger.thy ===== *)
theory Db_Ledger
  imports Db_Store "HOL-Library.Multiset"
begin

text \<open>
  \<open>persistence/repositories/transactions.py\<close>: the sales and their events. A sale is created once, its totals only grow,
  and it is completed under a completion key that no other sale may have.
\<close>

section \<open>Operations\<close>

text \<open>The columns \<open>create\<close> is given.\<close>

record transaction_values =
  tv_uuid :: string
  tv_station :: string
  tv_pump :: string
  tv_nozzle :: "int option"
  tv_status :: string
  tv_raw_price :: "int option"
  tv_price_decimals :: "int option"
  tv_volume_decimals :: "int option"
  tv_amount_decimals :: "int option"
  tv_simulated :: bool
  tv_environment :: string
  tv_started_at :: "int option"

definition transaction_of :: "int \<Rightarrow> string \<Rightarrow> transaction_values \<Rightarrow> transaction_row" where
  "transaction_of now rid v =
    \<lparr>tx_id = rid, tx_uuid = tv_uuid v, tx_station = tv_station v, tx_pump = tv_pump v, tx_nozzle = tv_nozzle v,
     tx_status = tv_status v, tx_raw_price = tv_raw_price v, tx_price_decimals = tv_price_decimals v, tx_raw_volume = 0,
     tx_volume_decimals = tv_volume_decimals v, tx_raw_amount = 0, tx_amount_decimals = tv_amount_decimals v,
     tx_started_at = or_else (tv_started_at v) (Some now), tx_completed_at = None, tx_closed_at = None,
     tx_completion_key = None, tx_simulated = tv_simulated v, tx_environment = tv_environment v, tx_created_at = now,
     tx_updated_at = now\<rparr>"

definition create_transaction :: "int \<Rightarrow> transaction_values \<Rightarrow> (store, transaction_row) action" where
  "create_transaction now v =
    bind_act draw_uuid (\<lambda>rid.
      let row = transaction_of now rid v
      in then_act (modify_act (\<lambda>d. d\<lparr>db_transactions := db_transactions d @ [row]\<rparr>)) (then_act flush (return_act row)))"

definition get_by_uuid :: "string \<Rightarrow> store \<Rightarrow> transaction_row option" where
  "get_by_uuid u d = find (\<lambda>r. tx_uuid r = u) (db_transactions d)"

definition get_by_completion_key :: "string \<Rightarrow> store \<Rightarrow> transaction_row option" where
  "get_by_completion_key k d = find (\<lambda>r. tx_completion_key r = Some k) (db_transactions d)"

definition list_unresolved :: "string \<Rightarrow> store \<Rightarrow> transaction_row list" where
  "list_unresolved station d =
    filter (\<lambda>r. tx_station r = station \<and> tx_status r \<in> {''ACTIVE'', ''SUSPENDED'', ''OPEN''}) (db_transactions d)"

text \<open>The row objects are found by their identifier, so the update goes to that row.\<close>

definition write_transaction :: "transaction_row \<Rightarrow> store \<Rightarrow> store" where
  "write_transaction row d = d\<lparr>db_transactions := update_where (\<lambda>x. tx_id x = tx_id row) (\<lambda>_. row) (db_transactions d)\<rparr>"

definition filled :: "int \<Rightarrow> int \<Rightarrow> int \<Rightarrow> int option \<Rightarrow> transaction_row \<Rightarrow> transaction_row" where
  "filled now volume amount price r =
    r\<lparr>tx_raw_volume := max (tx_raw_volume r) volume, tx_raw_amount := max (tx_raw_amount r) amount,
      tx_raw_price := or_else price (tx_raw_price r), tx_updated_at := now\<rparr>"

definition update_filling_row ::
  "int \<Rightarrow> string \<Rightarrow> int \<Rightarrow> int \<Rightarrow> int option \<Rightarrow> (store, transaction_row option) action" where
  "update_filling_row now u volume amount price = read_act (\<lambda>d.
    case get_by_uuid u d of
      None \<Rightarrow> return_act None
    | Some r \<Rightarrow>
        then_act (modify_act (write_transaction (filled now volume amount price r)))
          (then_act flush (return_act (Some (filled now volume amount price r)))))"

definition completed :: "int \<Rightarrow> string \<Rightarrow> int \<Rightarrow> int \<Rightarrow> transaction_row \<Rightarrow> transaction_row" where
  "completed at key volume amount r =
    r\<lparr>tx_status := ''COMPLETED'', tx_completion_key := Some key, tx_raw_volume := max (tx_raw_volume r) volume,
      tx_raw_amount := max (tx_raw_amount r) amount, tx_completed_at := Some at, tx_updated_at := at\<rparr>"

text \<open>An integrity error of the flush is raised again as a duplicate entity.\<close>

definition flush_unique :: "(store, unit) action" where
  "flush_unique d = (case flush d of (Inl e, d') \<Rightarrow> (Inl DuplicateEntityError, d') | (Inr u, d') \<Rightarrow> (Inr u, d'))"

definition complete_once ::
  "int \<Rightarrow> string \<Rightarrow> string \<Rightarrow> int \<Rightarrow> int \<Rightarrow> int option \<Rightarrow> (store, transaction_row \<times> bool) action" where
  "complete_once now u key volume amount completed_at = read_act (\<lambda>d.
    case get_by_completion_key key d of
      Some r \<Rightarrow> return_act (r, False)
    | None \<Rightarrow>
        (case get_by_uuid u d of
           None \<Rightarrow> result_act (Inl LookupError)
         | Some r \<Rightarrow>
             if tx_status r = ''COMPLETED'' \<and> truthy_string (tx_completion_key r) then return_act (r, False)
             else
               let at = (case completed_at of None \<Rightarrow> now | Some t \<Rightarrow> t);
                   row = completed at key volume amount r
               in then_act (modify_act (write_transaction row)) (then_act flush_unique (return_act (row, True)))))"

text \<open>
  \<open>add_event\<close> returns \<open>(None, False)\<close> when its flush is refused, but the session is then inactive: whatever its caller asks of it
  next, the commit at the end of the unit of work at the latest, raises \<open>PendingRollbackError\<close>, and the whole unit is rolled
  back. No caller looks at the value, so the error is raised here (the filling throttle, which is not in the database, may in
  the code have counted the message it then loses).
\<close>

definition add_transaction_event ::
  "int \<Rightarrow> string \<Rightarrow> string \<Rightarrow> string \<Rightarrow> json option \<Rightarrow> string option \<Rightarrow> int option \<Rightarrow>
   (store, transaction_event_row option \<times> bool) action" where
  "add_transaction_event now tid etype key payload source observed_at = read_act (\<lambda>d.
    if list_ex (\<lambda>r. te_transaction r = tid \<and> te_key r = key) (db_events d) then return_act (None, False)
    else bind_act draw_uuid (\<lambda>rid.
      let row = \<lparr>te_id = rid, te_transaction = tid, te_type = etype, te_key = key, te_payload = payload,
                 te_source = source, te_observed_at = observed_at, te_created_at = now\<rparr>
      in then_act (modify_act (\<lambda>d. d\<lparr>db_events := db_events d @ [row]\<rparr>))
           (\<lambda>d. case flush d of (Inl e, d') \<Rightarrow> (Inl PendingRollbackError, d') | (Inr u, d') \<Rightarrow> (Inr (Some row, True), d'))))"

definition count_completed :: "string \<Rightarrow> store \<Rightarrow> nat" where
  "count_completed station d = length (filter (\<lambda>r. tx_station r = station \<and> tx_status r = ''COMPLETED'') (db_transactions d))"

definition events_of :: "string \<Rightarrow> store \<Rightarrow> transaction_event_row list" where
  "events_of tid d = sort_key te_created_at (filter (\<lambda>r. te_transaction r = tid) (db_events d))"

record transaction_filter =
  tf_station :: "string option"
  tf_pump :: "string option"
  tf_nozzle :: "int option"
  tf_status :: "string option"
  tf_simulated :: "bool option"
  tf_environment :: "string option"
  tf_started_from :: "int option"
  tf_started_to :: "int option"
  tf_completed_from :: "int option"
  tf_completed_to :: "int option"

text \<open>A comparison with a NULL column selects nothing.\<close>

definition column_compares :: "int option \<Rightarrow> (int \<Rightarrow> bool) \<Rightarrow> bool" where
  "column_compares col P = (case col of None \<Rightarrow> False | Some v \<Rightarrow> P v)"

definition transaction_selected :: "transaction_filter \<Rightarrow> transaction_row \<Rightarrow> bool" where
  "transaction_selected f r \<longleftrightarrow>
     matches (tf_station f) (\<lambda>v. tx_station r = v) \<and> matches (tf_pump f) (\<lambda>v. tx_pump r = v) \<and>
     matches (tf_nozzle f) (\<lambda>v. tx_nozzle r = Some v) \<and> matches (tf_status f) (\<lambda>v. tx_status r = v) \<and>
     matches (tf_simulated f) (\<lambda>v. tx_simulated r = v) \<and> matches (tf_environment f) (\<lambda>v. tx_environment r = v) \<and>
     matches (tf_started_from f) (\<lambda>t. column_compares (tx_started_at r) (\<lambda>c. t \<le> c)) \<and>
     matches (tf_started_to f) (\<lambda>t. column_compares (tx_started_at r) (\<lambda>c. c \<le> t)) \<and>
     matches (tf_completed_from f) (\<lambda>t. column_compares (tx_completed_at r) (\<lambda>c. t \<le> c)) \<and>
     matches (tf_completed_to f) (\<lambda>t. column_compares (tx_completed_at r) (\<lambda>c. c \<le> t))"

text \<open>NULL is below every value.\<close>

definition sort_desc_null :: "('r \<Rightarrow> int option) \<Rightarrow> 'r list \<Rightarrow> 'r list" where
  "sort_desc_null f rs = sort_desc (\<lambda>r. the (f r)) (filter (\<lambda>r. f r \<noteq> None) rs) @ filter (\<lambda>r. f r = None) rs"

definition list_transactions :: "transaction_filter \<Rightarrow> nat \<Rightarrow> nat \<Rightarrow> store \<Rightarrow> transaction_row list \<times> nat" where
  "list_transactions f offset limit d =
    (let rows = filter (transaction_selected f) (db_transactions d)
     in (page offset limit (sort_desc tx_created_at (sort_desc_null tx_started_at rows)), length rows))"

definition get_by_id :: "string \<Rightarrow> store \<Rightarrow> transaction_row option" where
  "get_by_id t d = (case find (\<lambda>r. tx_id r = t) (db_transactions d) of None \<Rightarrow> get_by_uuid t d | Some r \<Rightarrow> Some r)"

section \<open>Rows and their identifiers\<close>

lemma commits_flush_unique [commit_intros]: "commits (then_act (modify_act g) (then_act flush_unique (return_act x)))"
  by (simp add: commits_def flush_unique_def flush_def)

lemma commits_ledger [commit_intros]:
  "commits (create_transaction now v)"
  "commits (update_filling_row now u volume amount price)"
  "commits (complete_once now u key volume amount at)"
  unfolding create_transaction_def update_filling_row_def complete_once_def Let_def
  by (intro commit_intros)+

lemma commits_event [commit_intros]: "commits (add_transaction_event now tid etype key payload source at)"
proof -
  have written: "commits (then_act (modify_act (\<lambda>d. d\<lparr>db_events := db_events d @ [row]\<rparr>))
           (\<lambda>d. case flush d of (Inl e, d') \<Rightarrow> (Inl PendingRollbackError, d') | (Inr u, d') \<Rightarrow> (Inr (Some row, True), d')))" for row
    by (simp add: commits_def flush_def)
  show ?thesis
    unfolding add_transaction_event_def Let_def
    by (intro commits_read commits_if commits_return commits_bind commits_draw written)
qed

lemma schema_ids: "schema_ok d \<Longrightarrow> distinct (map tx_id (db_transactions d)) \<and> distinct (map tx_uuid (db_transactions d)) \<and>
    distinct (given (map tx_completion_key (db_transactions d)))"
  by (simp add: schema_ok_def transactions_ok_def)

lemma distinct_map_eq: "distinct (map f xs) \<Longrightarrow> x \<in> set xs \<Longrightarrow> y \<in> set xs \<Longrightarrow> f x = f y \<Longrightarrow> x = y"
  by (metis distinct_map inj_on_def)

lemma write_transaction_set:
  assumes "distinct (map tx_id (db_transactions d))" "r \<in> set (db_transactions d)" "tx_id row = tx_id r"
  shows "set (db_transactions (write_transaction row d)) = insert row (set (db_transactions d) - {r})"
  using distinct_map_eq [OF assms(1)] assms(2,3) by (fastforce simp: write_transaction_def update_where_def)

lemma write_transaction_ids:
  "tx_id row = tx_id r \<Longrightarrow> tx_uuid row = tx_uuid r \<Longrightarrow> r \<in> set (db_transactions d) \<Longrightarrow>
    distinct (map tx_id (db_transactions d)) \<Longrightarrow> map tx_uuid (db_transactions (write_transaction row d)) = map tx_uuid (db_transactions d)"
  using distinct_map_eq [of tx_id "db_transactions d"] by (auto simp: write_transaction_def update_where_def)

lemma get_by_uuid_Some: "get_by_uuid u d = Some r \<Longrightarrow> r \<in> set (db_transactions d) \<and> tx_uuid r = u"
  by (auto simp: get_by_uuid_def find_Some_iff in_set_conv_nth)

lemma get_by_uuid_iff:
  assumes "distinct (map tx_uuid (db_transactions d))"
  shows "get_by_uuid u d = Some r \<longleftrightarrow> r \<in> set (db_transactions d) \<and> tx_uuid r = u"
proof
  assume r: "r \<in> set (db_transactions d) \<and> tx_uuid r = u"
  then obtain r' where "get_by_uuid u d = Some r'"
    by (cases "get_by_uuid u d") (auto simp: get_by_uuid_def find_None_iff)
  with get_by_uuid_Some [OF this] r distinct_map_eq [OF assms] show "get_by_uuid u d = Some r" by auto
qed (rule get_by_uuid_Some)

lemma get_by_completion_key_None: "get_by_completion_key k d = None \<longleftrightarrow> (\<forall>r \<in> set (db_transactions d). tx_completion_key r \<noteq> Some k)"
  by (auto simp: get_by_completion_key_def find_None_iff)

section \<open>Runs of the ledger\<close>

datatype ledger_op =
    L_create int transaction_values
  | L_fill int string int int "int option"
  | L_complete int string string int int "int option"

text \<open>Each operation is a unit of work of its own; the second component says which sale it newly completed.\<close>

fun ledger_step :: "store \<Rightarrow> ledger_op \<Rightarrow> store \<times> (string \<times> string) list" where
  "ledger_step d (L_create now v) = (snd (unit_of_work (create_transaction now v) d), [])"
| "ledger_step d (L_fill now u volume amount price) = (snd (unit_of_work (update_filling_row now u volume amount price) d), [])"
| "ledger_step d (L_complete now u key volume amount at) =
    (case unit_of_work (complete_once now u key volume amount at) d of
       (Inr (r, True), d') \<Rightarrow> (d', [(u, key)]) | (_, d') \<Rightarrow> (d', []))"

fun ledger_run :: "store \<Rightarrow> ledger_op list \<Rightarrow> store \<times> (string \<times> string) list" where
  "ledger_run d [] = (d, [])"
| "ledger_run d (op # ops) =
    (let (d1, news) = ledger_step d op; (d2, later) = ledger_run d1 ops in (d2, news @ later))"

definition settled :: "string \<Rightarrow> string \<Rightarrow> store \<Rightarrow> bool" where
  "settled u k d \<longleftrightarrow>
    (\<exists>r \<in> set (db_transactions d). tx_uuid r = u \<and> tx_status r = ''COMPLETED'' \<and> tx_completion_key r = Some k)"

text \<open>What a step does to the rows: nothing, a new row, or one row replaced.\<close>

definition row_step :: "transaction_row set \<Rightarrow> transaction_row set \<Rightarrow> bool" where
  "row_step R R' \<longleftrightarrow> R' = R \<or> (\<exists>r. R' = insert r R \<and> tx_raw_volume r = 0 \<and> tx_raw_amount r = 0) \<or>
    (\<exists>r r'. r \<in> R \<and> R' = insert r' (R - {r}) \<and> tx_uuid r' = tx_uuid r \<and>
       tx_raw_volume r \<le> tx_raw_volume r' \<and> tx_raw_amount r \<le> tx_raw_amount r' \<and>
       (tx_status r' = tx_status r \<and> tx_completion_key r' = tx_completion_key r \<or>
        \<not> (tx_status r = ''COMPLETED'' \<and> truthy_string (tx_completion_key r))))"

lemma uow_rows: "unit_of_work m d = (Inl e, d') \<Longrightarrow> db_transactions d' = db_transactions d"
  by (auto simp: unit_of_work_def split: prod.splits sum.splits)

lemma create_rows:
  "create_transaction now v d = (Inr r, d') \<Longrightarrow>
    db_transactions d' = db_transactions d @ [r] \<and> tx_raw_volume r = 0 \<and> tx_raw_amount r = 0 \<and> tx_uuid r = tv_uuid v"
  by (auto simp: create_transaction_def bind_act_def draw_uuid_def flush_def transaction_of_def Let_def split: if_splits)

lemma fill_rows:
  assumes "update_filling_row now u volume amount price d = (Inr x, d')" "schema_ok d"
  shows "case get_by_uuid u d of None \<Rightarrow> d' = d \<and> x = None
    | Some r \<Rightarrow> x = Some (filled now volume amount price r) \<and> d' = write_transaction (filled now volume amount price r) d \<and>
        schema_ok d' \<and>
        set (db_transactions d') = insert (filled now volume amount price r) (set (db_transactions d) - {r})"
proof (cases "get_by_uuid u d")
  case (Some r)
  have "tx_id (filled now volume amount price r) = tx_id r" by (simp add: filled_def)
  with write_transaction_set [of d r] get_by_uuid_Some [OF Some] schema_ids [OF assms(2)] assms(1) Some show ?thesis
    by (auto simp: update_filling_row_def flush_def split: if_splits)
qed (use assms in \<open>simp add: update_filling_row_def\<close>)

lemma complete_rows:
  assumes "complete_once now u key volume amount at d = (Inr (x, newly), d')" "schema_ok d"
  obtains (known) r where "get_by_completion_key key d = Some r" "x = r" "\<not> newly" "d' = d"
  | (settled) r where "get_by_completion_key key d = None" "get_by_uuid u d = Some r" "x = r" "\<not> newly" "d' = d"
      "tx_status r = ''COMPLETED''" "truthy_string (tx_completion_key r)"
  | (newly) r t where "get_by_completion_key key d = None" "get_by_uuid u d = Some r" "newly" "schema_ok d'"
      "\<not> (tx_status r = ''COMPLETED'' \<and> truthy_string (tx_completion_key r))"
      "x = completed t key volume amount r" "d' = write_transaction x d"
      "set (db_transactions d') = insert x (set (db_transactions d) - {r})"
proof (cases "get_by_completion_key key d")
  case (Some r)
  with assms(1) have "x = r" "\<not> newly" "d' = d" by (simp_all add: complete_once_def)
  then show thesis by (rule known [OF Some])
next
  case None
  show thesis
  proof (cases "get_by_uuid u d")
    case (Some r)
    show thesis
    proof (cases "tx_status r = ''COMPLETED'' \<and> truthy_string (tx_completion_key r)")
      case False
      let ?t = "case at of None \<Rightarrow> now | Some t \<Rightarrow> t"
      let ?row = "completed ?t key volume amount r"
      have "complete_once now u key volume amount at d = (if schema_ok (write_transaction ?row d)
          then (Inr (?row, True), write_transaction ?row d) else (Inl DuplicateEntityError, write_transaction ?row d))"
        using None Some False by (simp add: complete_once_def Let_def flush_unique_def flush_def)
      with assms(1) have res: "x = ?row" "newly" "schema_ok d'" "d' = write_transaction ?row d"
        by (auto split: if_splits)
      have "set (db_transactions (write_transaction ?row d)) = insert ?row (set (db_transactions d) - {r})"
        using get_by_uuid_Some [OF Some] schema_ids [OF assms(2)]
        by (intro write_transaction_set) (simp_all add: completed_def)
      with res newly [OF None Some res(2,3) False res(1)] show thesis by simp
    next
      case True
      with assms(1) None Some have "x = r" "\<not> newly" "d' = d" by (simp_all add: complete_once_def)
      then show thesis using True by (intro settled [OF None Some]) simp_all
    qed
  qed (use assms(1) None in \<open>simp add: complete_once_def\<close>)
qed

lemma step_rows:
  assumes "schema_ok d"
  shows "schema_ok (fst (ledger_step d op)) \<and> row_step (set (db_transactions d)) (set (db_transactions (fst (ledger_step d op))))"
proof (cases op)
  case (L_create now v)
  obtain res d' where u: "unit_of_work (create_transaction now v) d = (res, d')" by fastforce
  have "schema_ok d'" using unit_of_work_schema [OF commits_ledger(1) assms] u by (metis snd_conv)
  moreover have "row_step (set (db_transactions d)) (set (db_transactions d'))"
  proof (cases res)
    case (Inl e)
    with uow_rows u show ?thesis by (fastforce simp: row_step_def)
  next
    case (Inr r)
    with u have "create_transaction now v d = (Inr r, d')"
      by (auto simp: unit_of_work_def split: prod.splits sum.splits)
    from create_rows [OF this] show ?thesis by (auto simp: row_step_def)
  qed
  ultimately show ?thesis using L_create u by simp
next
  case (L_fill now u volume amount price)
  obtain res d' where w: "unit_of_work (update_filling_row now u volume amount price) d = (res, d')" by fastforce
  have ok: "schema_ok d'" using unit_of_work_schema [OF commits_ledger(2) assms] w by (metis snd_conv)
  have "row_step (set (db_transactions d)) (set (db_transactions d'))"
  proof (cases res)
    case (Inl e)
    with uow_rows w show ?thesis by (fastforce simp: row_step_def)
  next
    case (Inr x)
    with w have m: "update_filling_row now u volume amount price d = (Inr x, d')"
      by (auto simp: unit_of_work_def split: prod.splits sum.splits)
    show ?thesis
    proof (cases "get_by_uuid u d")
      case (Some r)
      then have "set (db_transactions d') = insert (filled now volume amount price r) (set (db_transactions d) - {r})"
        using fill_rows [OF m assms] by auto
      moreover have "r \<in> set (db_transactions d)" using get_by_uuid_Some [OF Some] by simp
      ultimately show ?thesis unfolding row_step_def
        by (intro disjI2 exI [of _ r] exI [of _ "filled now volume amount price r"]) (simp add: filled_def)
    qed (use fill_rows [OF m assms] in \<open>simp add: row_step_def\<close>)
  qed
  with ok w L_fill show ?thesis by simp
next
  case (L_complete now u key volume amount at)
  obtain res d' where w: "unit_of_work (complete_once now u key volume amount at) d = (res, d')" by fastforce
  have ok: "schema_ok d'" using unit_of_work_schema [OF commits_ledger(3) assms] w by (metis snd_conv)
  have "row_step (set (db_transactions d)) (set (db_transactions d'))"
  proof (cases res)
    case (Inl e)
    with uow_rows w show ?thesis by (fastforce simp: row_step_def)
  next
    case (Inr xn)
    obtain x newly where xn: "xn = (x, newly)" by fastforce
    with Inr w have m: "complete_once now u key volume amount at d = (Inr (x, newly), d')"
      by (auto simp: unit_of_work_def split: prod.splits sum.splits)
    show ?thesis
    proof (cases rule: complete_rows [OF m assms])
      case (3 r t)
      moreover have "r \<in> set (db_transactions d)" using get_by_uuid_Some [OF 3(2)] by simp
      ultimately show ?thesis unfolding row_step_def
        by (intro disjI2 exI [of _ r] exI [of _ x]) (simp add: completed_def)
    qed (simp_all add: row_step_def)
  qed
  moreover have "fst (ledger_step d op) = d'" using L_complete w by (cases res) (auto split: prod.split bool.split)
  ultimately show ?thesis using ok by simp
qed

lemma run_schema: "schema_ok d \<Longrightarrow> schema_ok (fst (ledger_run d ops))"
proof (induction ops arbitrary: d)
  case (Cons op ops)
  then show ?case using step_rows [OF Cons.prems, of op] by (simp add: case_prod_unfold Let_def)
qed simp

lemma step_settled:
  assumes "schema_ok d" "settled u k d" "k \<noteq> []"
  shows "settled u k (fst (ledger_step d op))"
  using step_rows [OF assms(1), of op] assms(2,3) unfolding row_step_def settled_def by fastforce

text \<open>What newly completes was open before, under a key nobody had, and is settled after.\<close>

lemma step_news:
  assumes "schema_ok d" "(u, k) \<in> set (snd (ledger_step d op))" "k \<noteq> []"
  shows "settled u k (fst (ledger_step d op)) \<and> snd (ledger_step d op) = [(u, k)] \<and>
    (\<forall>u' k'. settled u' k' d \<longrightarrow> k' \<noteq> [] \<longrightarrow> u' \<noteq> u \<and> k' \<noteq> k)"
proof -
  from assms(2) obtain now volume amount at where op: "op = L_complete now u k volume amount at"
    by (cases op) (auto split: prod.splits sum.splits bool.splits)
  obtain res d' where w: "unit_of_work (complete_once now u k volume amount at) d = (res, d')" by fastforce
  with assms(2) op obtain x where res: "res = Inr (x, True)"
    by (cases res) (auto split: prod.splits bool.splits)
  with w have m: "complete_once now u k volume amount at d = (Inr (x, True), d')"
    by (auto simp: unit_of_work_def split: prod.splits sum.splits)
  show ?thesis
  proof (cases rule: complete_rows [OF m assms(1)])
    case (3 r t)
    have "settled u k d'"
      using 3(6,8) get_by_uuid_Some [OF 3(2)] by (auto simp: settled_def completed_def)
    moreover have "u' \<noteq> u \<and> k' \<noteq> k" if s: "settled u' k' d" "k' \<noteq> []" for u' k'
    proof -
      obtain r' where r': "r' \<in> set (db_transactions d)" "tx_uuid r' = u'" "tx_status r' = ''COMPLETED''"
        "tx_completion_key r' = Some k'" using s(1) by (auto simp: settled_def)
      have "k' \<noteq> k" using 3(1) r' get_by_completion_key_None by blast
      moreover have "u' \<noteq> u"
      proof
        assume "u' = u"
        then have "get_by_uuid u d = Some r'"
          using get_by_uuid_iff schema_ids [OF assms(1)] r' by metis
        with 3(2,5) r' s(2) show False by simp
      qed
      ultimately show ?thesis by simp
    qed
    ultimately show ?thesis using op w res by auto
  qed simp_all
qed

lemma run_news:
  assumes "schema_ok d" "\<forall>(u, k) \<in> set D. settled u k d \<and> k \<noteq> []"
    and "\<forall>(u, k) \<in> set (snd (ledger_run d ops)). k \<noteq> []"
    and "distinct (map fst D)" "distinct (map snd D)"
  shows "distinct (map fst (D @ snd (ledger_run d ops))) \<and> distinct (map snd (D @ snd (ledger_run d ops)))"
  using assms
proof (induction ops arbitrary: d D)
  case (Cons op ops)
  obtain d1 news where st: "ledger_step d op = (d1, news)" by fastforce
  have ok: "schema_ok d1" using step_rows [OF Cons.prems(1), of op] st by simp
  have run: "snd (ledger_run d (op # ops)) = news @ snd (ledger_run d1 ops)"
    using st by (simp add: case_prod_unfold Let_def)
  have kept: "\<forall>(u, k) \<in> set D. settled u k d1 \<and> k \<noteq> []"
    using Cons.prems(1,2) step_settled [of d _ _ op] st by fastforce
  have later: "\<forall>(u, k) \<in> set (snd (ledger_run d1 ops)). k \<noteq> []" using Cons.prems(3) run by auto
  show ?case
  proof (cases news)
    case Nil
    with Cons.IH [OF ok kept later Cons.prems(4,5)] run show ?thesis by simp
  next
    case (Cons p rest)
    obtain u k where p: "p = (u, k)" by fastforce
    have "k \<noteq> []" using Cons.prems(3) run Cons p by auto
    with step_news [OF \<open>schema_ok d\<close>, of u k op] st Cons p
    have new: "settled u k d1" "news = [(u, k)]" "\<forall>u' k'. settled u' k' d \<longrightarrow> k' \<noteq> [] \<longrightarrow> u' \<noteq> u \<and> k' \<noteq> k"
      by auto
    have "\<forall>(u', k') \<in> set (D @ [(u, k)]). settled u' k' d1 \<and> k' \<noteq> []" using kept new(1) \<open>k \<noteq> []\<close> by auto
    moreover have "distinct (map fst (D @ [(u, k)]))" "distinct (map snd (D @ [(u, k)]))"
      using Cons.prems(2,4,5) new(3) by fastforce+
    ultimately show ?thesis using Cons.IH [OF ok _ later, of "D @ [(u, k)]"] run new(2) by simp
  qed
qed simp

text \<open>
  C4. Sales complete exactly once: in any sequence of creations, filling updates and completions, each its own unit
  of work, from any consistent database, no sale is reported as newly completed twice and no completion key
  completes two sales, as long as completion keys are not empty.
\<close>

theorem sales_complete_once:
  assumes "schema_ok d" "list_all (\<lambda>(u, k). k \<noteq> []) (snd (ledger_run d ops))"
  shows "distinct (map fst (snd (ledger_run d ops))) \<and> distinct (map snd (snd (ledger_run d ops)))"
  using run_news [OF assms(1), of "[]" ops] assms(2) by (simp add: list_all_iff)

definition sale_values :: "string \<Rightarrow> transaction_values" where
  "sale_values u = \<lparr>tv_uuid = u, tv_station = ''st'', tv_pump = ''p'', tv_nozzle = Some 1, tv_status = ''ACTIVE'',
     tv_raw_price = None, tv_price_decimals = None, tv_volume_decimals = None, tv_amount_decimals = None,
     tv_simulated = True, tv_environment = ''LAB'', tv_started_at = None\<rparr>"

definition one_pump :: store where
  "one_pump = (empty_store nat_text)\<lparr>db_pumps := [\<lparr>pr_id = ''p'', pr_station = ''st'', pr_logical = ''pump-1'', pr_address = 1,
     pr_enabled = True, pr_created_at = 0, pr_updated_at = 0\<rparr>]\<rparr>"

lemma one_pump_ok: "schema_ok one_pump"
  by (simp add: schema_defs one_pump_def empty_store_def)

definition sample_sales :: "ledger_op list" where
  "sample_sales = [L_create 1 (sale_values ''a''), L_fill 2 ''a'' 500 1000 None, L_complete 3 ''a'' ''k1'' 510 1020 None,
     L_complete 4 ''a'' ''k2'' 0 0 None]"

lemma sample_sales_run: "snd (ledger_run one_pump sample_sales) = [(''a'', ''k1'')]"
  by (simp add: sample_sales_def one_pump_def empty_store_def unit_of_work_def create_transaction_def bind_act_def
      draw_uuid_def Let_def flush_def schema_defs pump_exists_def transaction_of_def sale_values_def update_filling_row_def
      get_by_uuid_def filled_def write_transaction_def update_where_def complete_once_def get_by_completion_key_def
      completed_def flush_unique_def)

theorem sales_complete_once_witness:
  "distinct (map fst (snd (ledger_run one_pump sample_sales))) \<and> distinct (map snd (snd (ledger_run one_pump sample_sales)))"
  by (rule sales_complete_once [OF one_pump_ok]) (simp add: sample_sales_run)

text \<open>The totals of a sale, zero before it exists.\<close>

definition totals_of :: "string \<Rightarrow> store \<Rightarrow> int \<times> int" where
  "totals_of u d = (case get_by_uuid u d of None \<Rightarrow> (0, 0) | Some r \<Rightarrow> (tx_raw_volume r, tx_raw_amount r))"

definition never_negative :: "store \<Rightarrow> bool" where
  "never_negative d \<longleftrightarrow> (\<forall>r \<in> set (db_transactions d). 0 \<le> tx_raw_volume r \<and> 0 \<le> tx_raw_amount r)"

lemma row_step_negative: "row_step (set (db_transactions d)) (set (db_transactions d')) \<Longrightarrow> never_negative d \<Longrightarrow> never_negative d'"
  unfolding row_step_def never_negative_def by (auto; meson order_trans)

lemma row_step_totals:
  assumes "row_step (set (db_transactions d)) (set (db_transactions d'))" "schema_ok d" "schema_ok d'" "never_negative d"
  shows "fst (totals_of u d) \<le> fst (totals_of u d') \<and> snd (totals_of u d) \<le> snd (totals_of u d')"
proof (cases "get_by_uuid u d")
  case None
  have "0 \<le> fst (totals_of u d') \<and> 0 \<le> snd (totals_of u d')"
    using row_step_negative [OF assms(1,4)] get_by_uuid_Some [of u d']
    by (auto simp: totals_of_def never_negative_def split: option.split)
  with None show ?thesis by (simp add: totals_of_def)
next
  case (Some r)
  then have r: "r \<in> set (db_transactions d)" "tx_uuid r = u" using get_by_uuid_Some by auto
  have "\<exists>r' \<in> set (db_transactions d'). tx_uuid r' = u \<and> tx_raw_volume r \<le> tx_raw_volume r' \<and> tx_raw_amount r \<le> tx_raw_amount r'"
    using assms(1) r unfolding row_step_def by fastforce
  then obtain r' where r': "r' \<in> set (db_transactions d')" "tx_uuid r' = u" "tx_raw_volume r \<le> tx_raw_volume r'"
    "tx_raw_amount r \<le> tx_raw_amount r'" by blast
  then have "get_by_uuid u d' = Some r'" using get_by_uuid_iff schema_ids [OF assms(3)] by blast
  with Some r' show ?thesis by (simp add: totals_of_def)
qed

text \<open>
  The totals of a sale never go down and no sale is lost: whatever creations, filling updates and completions follow, with
  whatever readings, volume and amount of every sale are at least what they were.
\<close>

theorem sale_totals_never_shrink:
  assumes "schema_ok d" "never_negative d"
  shows "fst (totals_of u d) \<le> fst (totals_of u (fst (ledger_run d ops))) \<and>
    snd (totals_of u d) \<le> snd (totals_of u (fst (ledger_run d ops)))"
  using assms
proof (induction ops arbitrary: d)
  case (Cons op ops)
  note st = step_rows [OF Cons.prems(1), of op]
  have "never_negative (fst (ledger_step d op))" using row_step_negative st Cons.prems(2) by blast
  with Cons.IH [of "fst (ledger_step d op)"] st row_step_totals [of d "fst (ledger_step d op)" u] Cons.prems
  show ?case by (auto simp: case_prod_unfold Let_def)
qed simp

theorem sale_totals_never_shrink_witness:
  "fst (totals_of ''a'' one_pump) \<le> fst (totals_of ''a'' (fst (ledger_run one_pump sample_sales))) \<and>
   snd (totals_of ''a'' one_pump) \<le> snd (totals_of ''a'' (fst (ledger_run one_pump sample_sales)))"
  by (rule sale_totals_never_shrink [OF one_pump_ok]) (simp add: never_negative_def one_pump_def empty_store_def)

text \<open>
  A completion key that another sale already has leaves the sale open: the other sale's row comes back as if it were
  the answer, and nothing is written.
\<close>

theorem reused_key_leaves_sale_open:
  assumes "schema_ok d" "settled u1 key d" "u \<noteq> u1" "get_by_uuid u d = Some r"
  shows "\<exists>r1. complete_once now u key volume amount at d = (Inr (r1, False), d) \<and> tx_uuid r1 = u1 \<and>
    get_by_uuid u (snd (complete_once now u key volume amount at d)) = Some r"
proof -
  obtain r1 where r1: "r1 \<in> set (db_transactions d)" "tx_uuid r1 = u1" "tx_completion_key r1 = Some key"
    using assms(2) by (auto simp: settled_def)
  obtain r2 where r2: "get_by_completion_key key d = Some r2"
    using r1 get_by_completion_key_None [of key d] by (cases "get_by_completion_key key d") auto
  then have "r2 \<in> set (db_transactions d)" "tx_completion_key r2 = Some key"
    by (auto simp: get_by_completion_key_def find_Some_iff)
  moreover have "distinct (given (map tx_completion_key xs)) \<Longrightarrow> x \<in> set xs \<Longrightarrow> y \<in> set xs \<Longrightarrow>
      tx_completion_key x = Some key \<Longrightarrow> tx_completion_key y = Some key \<Longrightarrow> x = y" for xs x y
  proof (induction xs)
    case (Cons z zs)
    have "w \<in> set zs \<Longrightarrow> tx_completion_key w = Some key \<Longrightarrow> key \<in> set (given (map tx_completion_key zs))" for w
      by (simp add: set_given) (metis image_eqI)
    with Cons show ?case by (cases "tx_completion_key z") auto
  qed simp
  ultimately have "r2 = r1" using schema_ids [OF assms(1)] r1 by blast
  with r2 r1(2) assms(4) show ?thesis by (simp add: complete_once_def)
qed

definition two_sales :: store where
  "two_sales = fst (ledger_run one_pump [L_create 1 (sale_values ''a''), L_complete 3 ''a'' ''k1'' 510 1020 None,
     L_create 4 (sale_values ''b'')])"

lemma two_sales_rows: "db_transactions two_sales =
    [completed 3 ''k1'' 510 1020 (transaction_of 1 (nat_text 0) (sale_values ''a'')),
     transaction_of 4 (nat_text 1) (sale_values ''b'')]"
  by (simp add: two_sales_def one_pump_def empty_store_def unit_of_work_def create_transaction_def bind_act_def
      draw_uuid_def Let_def flush_def schema_defs pump_exists_def transaction_of_def sale_values_def
      get_by_uuid_def write_transaction_def update_where_def complete_once_def get_by_completion_key_def
      completed_def flush_unique_def nat_text.simps hex_digit_def)

theorem reused_key_leaves_sale_open_witness:
  "\<exists>r1. complete_once 9 ''b'' ''k1'' 7 7 None two_sales = (Inr (r1, False), two_sales) \<and> tx_uuid r1 = ''a'' \<and>
    get_by_uuid ''b'' (snd (complete_once 9 ''b'' ''k1'' 7 7 None two_sales)) =
      Some (transaction_of 4 (nat_text 1) (sale_values ''b''))"
proof (rule reused_key_leaves_sale_open)
  show "schema_ok two_sales" unfolding two_sales_def by (rule run_schema [OF one_pump_ok])
  show "settled ''a'' ''k1'' two_sales"
    by (simp add: settled_def two_sales_rows completed_def transaction_of_def sale_values_def)
  show "get_by_uuid ''b'' two_sales = Some (transaction_of 4 (nat_text 1) (sale_values ''b''))"
    by (simp add: get_by_uuid_def two_sales_rows completed_def transaction_of_def sale_values_def)
qed simp

section \<open>Paging\<close>

lemma pages_concat: "concat (map (\<lambda>i. page (i * limit) limit xs) [0..<n]) = take (n * limit) xs"
proof (induction n)
  case (Suc n)
  have "take (n * limit) xs @ take limit (drop (n * limit) xs) = take (n * limit + limit) xs"
    by (simp add: take_add)
  with Suc show ?case by (simp add: page_def add.commute)
qed simp

lemma mset_sort_desc: "mset (sort_desc f xs) = mset xs" "mset (sort_desc_null g xs) = mset xs"
proof -
  have m: "mset (sort_desc f ys) = mset ys" for f :: "'a \<Rightarrow> int" and ys by (simp add: sort_desc_def)
  show "mset (sort_desc f xs) = mset xs" by (rule m)
  have "mset (filter (\<lambda>r. g r \<noteq> None) xs) + mset (filter (\<lambda>r. g r = None) xs) = mset xs"
    using multiset_partition [of "mset xs" "\<lambda>r. g r \<noteq> None"] by simp
  then show "mset (sort_desc_null g xs) = mset xs" by (simp add: sort_desc_null_def m)
qed

text \<open>
  Reading the sales page by page reads each once: when the pages reach the total, the pages of
  \<open>list_filtered\<close> together hold exactly the selected rows, with their multiplicity, and every page reports that total.
\<close>

theorem pages_hold_every_sale:
  assumes "length (filter (transaction_selected f) (db_transactions d)) \<le> n * limit"
  shows "mset (concat (map (\<lambda>i. fst (list_transactions f (i * limit) limit d)) [0..<n])) =
      mset (filter (transaction_selected f) (db_transactions d)) \<and>
    snd (list_transactions f offset limit d) = length (filter (transaction_selected f) (db_transactions d))"
proof -
  let ?rows = "filter (transaction_selected f) (db_transactions d)"
  let ?sorted = "sort_desc tx_created_at (sort_desc_null tx_started_at ?rows)"
  have m: "mset ?sorted = mset ?rows" by (simp only: mset_sort_desc)
  then have "length ?sorted = length ?rows" by (metis size_mset)
  with assms have "take (n * limit) ?sorted = ?sorted" by simp
  then have "concat (map (\<lambda>i. fst (list_transactions f (i * limit) limit d)) [0..<n]) = ?sorted"
    by (simp add: list_transactions_def Let_def pages_concat)
  with m show ?thesis by (simp add: list_transactions_def Let_def)
qed

definition no_filter :: transaction_filter where
  "no_filter = \<lparr>tf_station = None, tf_pump = None, tf_nozzle = None, tf_status = None, tf_simulated = None,
     tf_environment = None, tf_started_from = None, tf_started_to = None, tf_completed_from = None, tf_completed_to = None\<rparr>"

theorem pages_hold_every_sale_witness:
  "mset (concat (map (\<lambda>i. fst (list_transactions no_filter (i * 1) 1 two_sales)) [0..<2])) =
      mset (filter (transaction_selected no_filter) (db_transactions two_sales)) \<and>
    snd (list_transactions no_filter 7 1 two_sales) = length (filter (transaction_selected no_filter) (db_transactions two_sales))"
  by (rule pages_hold_every_sale) (simp add: two_sales_rows no_filter_def transaction_selected_def matches_def)

end
