(* ===== verification/Db_Queue.thy ===== *)
theory Db_Queue
  imports Db_Store
begin

text \<open>
  \<open>persistence/repositories/sync_queue.py\<close>: the durable queue of messages for the cloud. An entry is PENDING, CLAIMED by
  a delivery worker, DELIVERED or FAILED; entries are never deleted. Instants, ages and delays are in microseconds.
\<close>

section \<open>Operations\<close>

record sync_values =
  yv_entity_type :: string
  yv_entity_id :: string
  yv_event_type :: string
  yv_payload :: json
  yv_key :: string

definition sync_entry :: "string \<Rightarrow> string \<Rightarrow> string \<Rightarrow> json \<Rightarrow> string \<Rightarrow> sync_values" where
  "sync_entry etype eid event payload key =
    \<lparr>yv_entity_type = etype, yv_entity_id = eid, yv_event_type = event, yv_payload = payload, yv_key = key\<rparr>"

definition sync_row_of :: "int \<Rightarrow> string \<Rightarrow> sync_values \<Rightarrow> int option \<Rightarrow> sync_row" where
  "sync_row_of now rid v available_at =
    \<lparr>sq_id = rid, sq_entity_type = yv_entity_type v, sq_entity_id = yv_entity_id v, sq_event_type = yv_event_type v,
     sq_payload = yv_payload v, sq_status = ''PENDING'', sq_attempts = 0,
     sq_available_at = (case available_at of None \<Rightarrow> now | Some t \<Rightarrow> t), sq_locked_at = None, sq_last_error = None,
     sq_created_at = now, sq_updated_at = now, sq_key = yv_key v\<rparr>"

definition enqueue_sync :: "int \<Rightarrow> sync_values \<Rightarrow> int option \<Rightarrow> (store, sync_row option) action" where
  "enqueue_sync now v available_at = read_act (\<lambda>d.
    if list_ex (\<lambda>r. sq_key r = yv_key v) (db_queue d) then return_act None
    else bind_act draw_uuid (\<lambda>rid.
      let row = sync_row_of now rid v available_at
      in then_act (modify_act (\<lambda>d. d\<lparr>db_queue := db_queue d @ [row]\<rparr>)) (then_act flush (return_act (Some row)))))"

definition claimable :: "int \<Rightarrow> sync_row \<Rightarrow> bool" where
  "claimable now r \<longleftrightarrow> sq_status r = ''PENDING'' \<and> sq_available_at r \<le> now \<and> sq_locked_at r = None"

definition claimed :: "int \<Rightarrow> sync_row \<Rightarrow> sync_row" where
  "claimed now r = r\<lparr>sq_status := ''CLAIMED'', sq_locked_at := Some now, sq_updated_at := now\<rparr>"

text \<open>The rows a claim takes: the oldest that are due.\<close>

definition due_rows :: "int \<Rightarrow> nat \<Rightarrow> store \<Rightarrow> sync_row list" where
  "due_rows now limit d = take limit (sort_key sq_created_at (filter (claimable now) (db_queue d)))"

definition write_queue :: "(sync_row \<Rightarrow> bool) \<Rightarrow> (sync_row \<Rightarrow> sync_row) \<Rightarrow> store \<Rightarrow> store" where
  "write_queue P g d = d\<lparr>db_queue := update_where P g (db_queue d)\<rparr>"

definition claim_batch :: "int \<Rightarrow> nat \<Rightarrow> (store, sync_row list) action" where
  "claim_batch now limit = read_act (\<lambda>d.
    let rows = due_rows now limit d
    in then_act (modify_act (write_queue (\<lambda>x. sq_id x \<in> set (map sq_id rows)) (claimed now)))
         (then_act flush (return_act (map (claimed now) rows))))"

definition delivered :: "int \<Rightarrow> sync_row \<Rightarrow> sync_row" where
  "delivered now r = r\<lparr>sq_status := ''DELIVERED'', sq_locked_at := None, sq_updated_at := now\<rparr>"

definition mark_delivered :: "int \<Rightarrow> string \<Rightarrow> (store, unit) action" where
  "mark_delivered now rid = read_act (\<lambda>d.
    if list_ex (\<lambda>r. sq_id r = rid) (db_queue d)
    then then_act (modify_act (write_queue (\<lambda>x. sq_id x = rid) (delivered now))) (then_act flush (return_act ()))
    else return_act ())"

definition stale :: "int \<Rightarrow> sync_row \<Rightarrow> bool" where
  "stale cutoff r \<longleftrightarrow> sq_status r = ''CLAIMED'' \<and> (case sq_locked_at r of None \<Rightarrow> False | Some t \<Rightarrow> t \<le> cutoff)"

definition released :: "int \<Rightarrow> sync_row \<Rightarrow> sync_row" where
  "released now r = r\<lparr>sq_status := ''PENDING'', sq_locked_at := None, sq_updated_at := now\<rparr>"

definition release_stale_locks :: "int \<Rightarrow> int \<Rightarrow> (store, nat) action" where
  "release_stale_locks now older_than = read_act (\<lambda>d.
    let n = length (filter (stale (now - older_than)) (db_queue d))
    in then_act (modify_act (write_queue (stale (now - older_than)) (released now))) (then_act flush (return_act n)))"

definition pending_count :: "store \<Rightarrow> nat" where
  "pending_count d = length (filter (\<lambda>r. sq_status r \<in> {''PENDING'', ''CLAIMED''}) (db_queue d))"

definition delivered_count :: "store \<Rightarrow> nat" where
  "delivered_count d = length (filter (\<lambda>r. sq_status r = ''DELIVERED'') (db_queue d))"

definition failed_count :: "store \<Rightarrow> nat" where
  "failed_count d = length (filter (\<lambda>r. sq_status r = ''FAILED'' \<or> sq_status r = ''PENDING'' \<and> 0 < sq_attempts r) (db_queue d))"

definition oldest_pending_age :: "int \<Rightarrow> store \<Rightarrow> int option" where
  "oldest_pending_age now d =
    (case map sq_created_at (filter (\<lambda>r. sq_status r \<in> {''PENDING'', ''CLAIMED''}) (db_queue d)) of
       [] \<Rightarrow> None | t # ts \<Rightarrow> Some (now - foldl min t ts))"

definition failed_once :: "int \<Rightarrow> string \<Rightarrow> int \<Rightarrow> nat option \<Rightarrow> sync_row \<Rightarrow> sync_row" where
  "failed_once now err backoff max_attempts r =
    (let r1 = r\<lparr>sq_attempts := sq_attempts r + 1, sq_last_error := Some err, sq_locked_at := None, sq_updated_at := now\<rparr> in
     if matches max_attempts (\<lambda>m. sq_attempts r1 \<ge> m) \<and> max_attempts \<noteq> None then r1\<lparr>sq_status := ''FAILED''\<rparr>
     else r1\<lparr>sq_status := ''PENDING'', sq_available_at := now + backoff\<rparr>)"

definition mark_failed :: "int \<Rightarrow> string \<Rightarrow> string \<Rightarrow> int \<Rightarrow> nat option \<Rightarrow> (store, unit) action" where
  "mark_failed now rid err backoff max_attempts = read_act (\<lambda>d.
    if list_ex (\<lambda>r. sq_id r = rid) (db_queue d)
    then then_act (modify_act (write_queue (\<lambda>x. sq_id x = rid) (failed_once now err backoff max_attempts)))
      (then_act flush (return_act ()))
    else return_act ())"

lemma commits_queue [commit_intros]:
  "commits (enqueue_sync now v at)" "commits (claim_batch now limit)" "commits (mark_delivered now rid)"
  "commits (release_stale_locks now age)" "commits (mark_failed now rid err backoff m)"
  unfolding enqueue_sync_def claim_batch_def mark_delivered_def release_stale_locks_def mark_failed_def Let_def
  by (intro commit_intros)+

section \<open>Nothing is lost, nothing is claimed twice\<close>

text \<open>What an update of the queue leaves alone.\<close>

definition entry_of :: "sync_row \<Rightarrow> string \<times> string \<times> string \<times> string \<times> json \<times> string \<times> int" where
  "entry_of r = (sq_id r, sq_entity_type r, sq_entity_id r, sq_event_type r, sq_payload r, sq_key r, sq_created_at r)"

lemma entry_kept [simp]:
  "entry_of (claimed now r) = entry_of r" "entry_of (delivered now r) = entry_of r" "entry_of (released now r) = entry_of r"
  "entry_of (failed_once now err backoff m r) = entry_of r"
  by (simp_all add: entry_of_def claimed_def delivered_def released_def failed_once_def Let_def)

lemma id_kept [simp]: "entry_of (g r) = entry_of r \<Longrightarrow> sq_id (g r) = sq_id r" "entry_of (g r) = entry_of r \<Longrightarrow> sq_key (g r) = sq_key r"
  by (simp_all add: entry_of_def)

lemma write_queue_entries: "(\<And>r. entry_of (g r) = entry_of r) \<Longrightarrow> map entry_of (db_queue (write_queue P g d)) = map entry_of (db_queue d)"
  by (simp add: write_queue_def update_where_map)

lemma write_queue_schema:
  assumes "\<And>r. entry_of (g r) = entry_of r"
  shows "schema_ok (write_queue P g d) = schema_ok d"
proof -
  have "map sq_id (db_queue (write_queue P g d)) = map sq_id (db_queue d)"
    "map sq_key (db_queue (write_queue P g d)) = map sq_key (db_queue d)"
    using assms by (simp_all add: write_queue_def update_where_map)
  then have "queue_ok (write_queue P g d) = queue_ok d" by (simp only: queue_ok_def)
  then show ?thesis
    by (simp add: schema_ok_def write_queue_def pumps_ok_def snapshots_ok_def transactions_ok_def events_ok_def
        commands_ok_def attempts_ok_def alarms_ok_def audit_ok_def pump_exists_def [abs_def])
qed

datatype queue_op =
    Q_enqueue int sync_values "int option"
  | Q_claim int nat
  | Q_deliver int string
  | Q_release int int
  | Q_fail int string string int "nat option"

fun queue_step :: "store \<Rightarrow> queue_op \<Rightarrow> store" where
  "queue_step d (Q_enqueue now v at) = snd (unit_of_work (enqueue_sync now v at) d)"
| "queue_step d (Q_claim now limit) = snd (unit_of_work (claim_batch now limit) d)"
| "queue_step d (Q_deliver now rid) = snd (unit_of_work (mark_delivered now rid) d)"
| "queue_step d (Q_release now age) = snd (unit_of_work (release_stale_locks now age) d)"
| "queue_step d (Q_fail now rid err backoff m) = snd (unit_of_work (mark_failed now rid err backoff m) d)"

definition known_status :: "sync_row \<Rightarrow> bool" where
  "known_status r \<longleftrightarrow> sq_status r \<in> {''PENDING'', ''CLAIMED'', ''DELIVERED'', ''FAILED''}"

definition queue_grows :: "store \<Rightarrow> store \<Rightarrow> bool" where
  "queue_grows d d' \<longleftrightarrow> (\<exists>new. map entry_of (db_queue d') = map entry_of (db_queue d) @ new)"

lemma queue_grows_refl: "db_queue d' = db_queue d \<Longrightarrow> queue_grows d d'"
  by (simp add: queue_grows_def)

lemma queue_grows_trans: "queue_grows d d1 \<Longrightarrow> queue_grows d1 d2 \<Longrightarrow> queue_grows d d2"
  by (auto simp: queue_grows_def)

lemma uow_queue_write:
  assumes "m d = (if schema_ok (write_queue P g d) then (Inr x, write_queue P g d) else (Inl IntegrityError, write_queue P g d)) \<or>
      m d = (Inr x, d)"
    and "\<And>r. entry_of (g r) = entry_of r" "\<And>r. known_status r \<Longrightarrow> known_status (g r)"
  shows "queue_grows d (snd (unit_of_work m d)) \<and>
    (list_all known_status (db_queue d) \<longrightarrow> list_all known_status (db_queue (snd (unit_of_work m d))))"
proof -
  have "db_queue (snd (unit_of_work m d)) = db_queue (write_queue P g d) \<or> db_queue (snd (unit_of_work m d)) = db_queue d"
    using assms(1) by (auto simp: unit_of_work_def)
  moreover have "queue_grows d (write_queue P g d)"
    using write_queue_entries [OF assms(2)] by (simp add: queue_grows_def)
  moreover have "list_all known_status (db_queue d) \<Longrightarrow> list_all known_status (db_queue (write_queue P g d))"
    using assms(3) by (auto simp: write_queue_def update_where_def list_all_iff)
  ultimately show ?thesis by (auto simp: queue_grows_def)
qed

lemma status_kept: "known_status (claimed now r)" "known_status (delivered now r)" "known_status (released now r)"
  "known_status (failed_once now err backoff m r)"
  by (simp_all add: known_status_def claimed_def delivered_def released_def failed_once_def Let_def)

lemma queue_step_grows:
  "queue_grows d (queue_step d op) \<and> (list_all known_status (db_queue d) \<longrightarrow> list_all known_status (db_queue (queue_step d op)))"
proof (cases op)
  case (Q_enqueue now v at)
  then show ?thesis
    by (auto simp: unit_of_work_def enqueue_sync_def bind_act_def draw_uuid_def Let_def flush_def queue_grows_def
        known_status_def sync_row_of_def)
next
  case (Q_claim now limit)
  then show ?thesis
    using uow_queue_write [of "claim_batch now limit" d "\<lambda>x. sq_id x \<in> sq_id ` set (due_rows now limit d)" "claimed now"
        "map (claimed now) (due_rows now limit d)"]
    by (simp add: claim_batch_def Let_def write_flush status_kept del: then_act_simp)
next
  case (Q_deliver now rid)
  then show ?thesis
    using uow_queue_write [of "mark_delivered now rid" d "\<lambda>x. sq_id x = rid" "delivered now"]
    by (simp add: mark_delivered_def write_flush status_kept del: then_act_simp)
next
  case (Q_release now age)
  then show ?thesis
    using uow_queue_write [of "release_stale_locks now age" d "stale (now - age)" "released now"
        "length (filter (stale (now - age)) (db_queue d))"]
    by (simp add: release_stale_locks_def Let_def write_flush status_kept del: then_act_simp)
next
  case (Q_fail now rid err backoff m)
  then show ?thesis
    using uow_queue_write [of "mark_failed now rid err backoff m" d "\<lambda>x. sq_id x = rid" "failed_once now err backoff m"]
    by (simp add: mark_failed_def write_flush status_kept del: then_act_simp)
qed

lemma queue_run_grows:
  "queue_grows d (foldl queue_step d ops) \<and>
    (list_all known_status (db_queue d) \<longrightarrow> list_all known_status (db_queue (foldl queue_step d ops)))"
proof (induction ops arbitrary: d)
  case (Cons op ops)
  with queue_step_grows [of d op] queue_grows_trans show ?case by fastforce
qed (simp add: queue_grows_refl)

text \<open>
  C24. The durable queue loses nothing: whatever enqueues, claims, deliveries, lock releases and failures happen, every
  entry stays in the queue in its place with its identity, key and payload, and always has one of the four statuses.
\<close>

theorem queue_keeps_every_entry:
  "take (length (db_queue d)) (map entry_of (db_queue (foldl queue_step d ops))) = map entry_of (db_queue d) \<and>
   list_all known_status (db_queue (foldl queue_step (empty_store supply) ops))"
  using queue_run_grows [of d ops] queue_run_grows [of "empty_store supply" ops]
  by (auto simp: queue_grows_def empty_store_def)

lemma queue_step_schema: "schema_ok d \<Longrightarrow> schema_ok (queue_step d op)"
  by (cases op) (simp_all add: unit_of_work_schema commits_queue)

definition claim_result :: "int \<Rightarrow> nat \<Rightarrow> store \<Rightarrow> sync_row list" where
  "claim_result now limit d = (case fst (unit_of_work (claim_batch now limit) d) of Inr rs \<Rightarrow> rs | Inl e \<Rightarrow> [])"

lemma claim_works:
  assumes "schema_ok d"
  shows "unit_of_work (claim_batch now limit) d = (Inr (map (claimed now) (due_rows now limit d)),
    write_queue (\<lambda>x. sq_id x \<in> set (map sq_id (due_rows now limit d))) (claimed now) d)"
  using write_queue_schema [of "claimed now" "\<lambda>x. sq_id x \<in> set (map sq_id (due_rows now limit d))" d] assms
  by (simp add: unit_of_work_def claim_batch_def Let_def write_flush del: then_act_simp)

lemma due_rows_set: "r \<in> set (due_rows now limit d) \<Longrightarrow> r \<in> set (db_queue d) \<and> claimable now r"
  by (auto simp: due_rows_def dest: in_set_takeD)

text \<open>An entry that is no longer pending.\<close>

definition taken :: "string \<Rightarrow> store \<Rightarrow> bool" where
  "taken i d \<longleftrightarrow> list_all (\<lambda>r. sq_id r = i \<longrightarrow> sq_status r \<noteq> ''PENDING'') (db_queue d) \<and> i \<in> set (map sq_id (db_queue d))"

fun keeps_claims :: "queue_op \<Rightarrow> bool" where
  "keeps_claims (Q_release now age) = False"
| "keeps_claims (Q_fail now rid err backoff m) = False"
| "keeps_claims op = True"

lemma taken_write:
  "taken i d \<Longrightarrow> (\<And>r. sq_id (g r) = sq_id r) \<Longrightarrow> (\<And>r. sq_status (g r) \<noteq> ''PENDING'') \<Longrightarrow> taken i (write_queue P g d)"
  by (auto simp: taken_def write_queue_def update_where_def list_all_iff image_iff)

lemma step_taken:
  assumes "schema_ok d" "taken i d" "keeps_claims op"
  shows "taken i (queue_step d op)"
proof (cases op)
  case (Q_enqueue now v at)
  let ?row = "sync_row_of now (db_supply d (db_drawn d)) v at"
  let ?d1 = "d\<lparr>db_drawn := Suc (db_drawn d)\<rparr>\<lparr>db_queue := db_queue d @ [?row]\<rparr>"
  have "sq_id ?row \<noteq> i" if "schema_ok ?d1"
    using that assms(2) by (auto simp: schema_ok_def queue_ok_def taken_def)
  with assms(2) Q_enqueue show ?thesis
    by (auto simp: unit_of_work_def enqueue_sync_def bind_act_def draw_uuid_def Let_def flush_def taken_def)
next
  case (Q_claim now limit)
  with claim_works [OF assms(1)] taken_write [OF assms(2), of "claimed now"] show ?thesis by (simp add: claimed_def)
next
  case (Q_deliver now rid)
  have "taken i (write_queue (\<lambda>x. sq_id x = rid) (delivered now) d)"
    by (rule taken_write [OF assms(2)]) (simp_all add: delivered_def)
  moreover have "taken i (d\<lparr>db_drawn := n\<rparr>)" for n using assms(2) by (simp add: taken_def)
  ultimately show ?thesis
    using Q_deliver assms(2)
    by (simp add: unit_of_work_def mark_delivered_def write_flush write_queue_def del: then_act_simp)
qed (use assms in simp_all)

lemma run_taken:
  "schema_ok d \<Longrightarrow> taken i d \<Longrightarrow> list_all keeps_claims ops \<Longrightarrow>
    schema_ok (foldl queue_step d ops) \<and> taken i (foldl queue_step d ops)"
  by (induction ops arbitrary: d) (simp_all add: step_taken queue_step_schema)

lemma claim_takes:
  assumes "schema_ok d" "r \<in> set (claim_result now limit d)"
  shows "taken (sq_id r) (queue_step d (Q_claim now limit))"
proof -
  from assms(2) obtain r0 where r0: "r0 \<in> set (due_rows now limit d)" "r = claimed now r0"
    by (auto simp: claim_result_def claim_works [OF assms(1)])
  then have "r0 \<in> set (db_queue d)" "sq_id r = sq_id r0" using due_rows_set by (auto simp: claimed_def)
  with r0 show ?thesis
    by (auto simp: claim_works [OF assms(1)] taken_def write_queue_def update_where_def list_all_iff claimed_def image_iff)
qed

text \<open>
  C23. Two claims never share an entry: a claim hands out at most its limit, only due entries that were pending, and as long as no
  lock is released and no failure is recorded in between, no later claim hands out an entry again, delivered or not.
\<close>

theorem claims_never_overlap:
  assumes "schema_ok d" "list_all keeps_claims ops"
  shows "length (claim_result now limit d) \<le> limit \<and>
    set (map sq_id (claim_result now limit d)) \<inter>
      set (map sq_id (claim_result now' limit' (foldl queue_step (queue_step d (Q_claim now limit)) ops))) = {}"
proof -
  let ?d1 = "queue_step d (Q_claim now limit)"
  let ?d2 = "foldl queue_step ?d1 ops"
  have "schema_ok ?d1" by (rule queue_step_schema [OF assms(1)])
  have "sq_id r \<noteq> sq_id r'" if r: "r \<in> set (claim_result now limit d)" "r' \<in> set (claim_result now' limit' ?d2)" for r r'
  proof -
    note t = run_taken [OF \<open>schema_ok ?d1\<close> claim_takes [OF assms(1) r(1)] assms(2)]
    then obtain r0 where "r0 \<in> set (due_rows now' limit' ?d2)" "r' = claimed now' r0"
      using r(2) by (auto simp: claim_result_def claim_works)
    with t due_rows_set [of r0 now' limit' ?d2] show ?thesis
      by (auto simp: taken_def claimable_def claimed_def list_all_iff)
  qed
  then have "set (map sq_id (claim_result now limit d)) \<inter> set (map sq_id (claim_result now' limit' ?d2)) = {}"
    unfolding set_map by blast
  moreover have "length (claim_result now limit d) \<le> limit"
    using assms(1) by (simp add: claim_result_def claim_works due_rows_def)
  ultimately show ?thesis by blast
qed

definition sample_entry :: sync_values where
  "sample_entry = sync_entry ''transaction'' ''t'' ''TRANSACTION_STARTED'' JNull ''k''"

theorem claims_never_overlap_witness:
  "length (claim_result 5 10 (queue_step (empty_store nat_text) (Q_enqueue 1 sample_entry None))) \<le> 10 \<and>
   set (map sq_id (claim_result 5 10 (queue_step (empty_store nat_text) (Q_enqueue 1 sample_entry None)))) \<inter>
     set (map sq_id (claim_result 6 10 (foldl queue_step
       (queue_step (queue_step (empty_store nat_text) (Q_enqueue 1 sample_entry None)) (Q_claim 5 10)) [Q_deliver 5 ''0'']))) = {}"
proof (rule claims_never_overlap)
  show "schema_ok (queue_step (empty_store nat_text) (Q_enqueue 1 sample_entry None))"
    by (rule queue_step_schema) (simp add: schema_defs empty_store_def)
qed simp

end
