(* ===== verification/Db_Repos.thy ===== *)
theory Db_Repos
  imports Db_Store
begin

text \<open>
  \<open>persistence/repositories\<close>: pumps, state snapshots, commands and alarms. Each method is an action of the store; what it
  returns is the row it wrote or found.
\<close>

section \<open>Pumps\<close>

definition upsert_pump ::
  "int \<Rightarrow> string \<Rightarrow> string \<Rightarrow> int \<Rightarrow> bool \<Rightarrow> string option \<Rightarrow> (store, pump_row) action" where
  "upsert_pump now station logical address enabled pump_id = read_act (\<lambda>d.
    case find (\<lambda>r. pr_station r = station \<and> pr_logical r = logical) (db_pumps d) of
      None \<Rightarrow>
        bind_act (if truthy_string pump_id then return_act (the pump_id) else draw_uuid) (\<lambda>rid.
          let row = \<lparr>pr_id = rid, pr_station = station, pr_logical = logical, pr_address = address, pr_enabled = enabled,
                     pr_created_at = now, pr_updated_at = now\<rparr>
          in then_act (modify_act (\<lambda>d. d\<lparr>db_pumps := db_pumps d @ [row]\<rparr>)) (then_act flush (return_act row)))
    | Some r \<Rightarrow>
        let row = r\<lparr>pr_address := address, pr_enabled := enabled, pr_updated_at := now\<rparr>
        in then_act (modify_act (\<lambda>d. d\<lparr>db_pumps :=
               update_where (\<lambda>x. pr_id x = pr_id r) (\<lambda>_. row) (db_pumps d)\<rparr>)) (then_act flush (return_act row)))"

definition pump_by_address :: "string \<Rightarrow> int \<Rightarrow> store \<Rightarrow> pump_row option" where
  "pump_by_address station address d = find (\<lambda>r. pr_station r = station \<and> pr_address r = address) (db_pumps d)"

definition pump_by_db_id :: "string \<Rightarrow> store \<Rightarrow> pump_row option" where
  "pump_by_db_id pid d = find (\<lambda>r. pr_id r = pid) (db_pumps d)"

definition pumps_of_station :: "string \<Rightarrow> store \<Rightarrow> pump_row list" where
  "pumps_of_station station d = sort_key pr_address (filter (\<lambda>r. pr_station r = station) (db_pumps d))"

section \<open>State snapshots\<close>

text \<open>\<open>order by state_version desc, persisted_at desc limit 1\<close>.\<close>

definition latest_snapshot :: "string \<Rightarrow> store \<Rightarrow> snapshot_row option" where
  "latest_snapshot pump d =
    (case sort_desc sn_version (sort_desc sn_persisted_at (filter (\<lambda>r. sn_pump r = pump) (db_snapshots d))) of
       [] \<Rightarrow> None | r # _ \<Rightarrow> Some r)"

definition snapshots_of_pump :: "string \<Rightarrow> store \<Rightarrow> snapshot_row list" where
  "snapshots_of_pump pump d = sort_key sn_version (filter (\<lambda>r. sn_pump r = pump) (db_snapshots d))"

text \<open>The columns of a snapshot the caller gives.\<close>

record snapshot_values =
  sv_state :: string
  sv_previous :: "string option"
  sv_nozzle :: "int option"
  sv_active_transaction :: "string option"
  sv_healthy :: bool
  sv_raw_status :: "int option"
  sv_source :: "string option"
  sv_version :: int
  sv_observed_at :: "int option"

definition same_snapshot :: "snapshot_values \<Rightarrow> snapshot_row \<Rightarrow> bool" where
  "same_snapshot v r \<longleftrightarrow> sn_state r = sv_state v \<and> sn_nozzle r = sv_nozzle v \<and>
     sn_active_transaction r = sv_active_transaction v \<and> sn_healthy r = sv_healthy v \<and> sn_raw_status r = sv_raw_status v"

definition insert_if_meaningful :: "int \<Rightarrow> string \<Rightarrow> snapshot_values \<Rightarrow> (store, snapshot_row option) action" where
  "insert_if_meaningful now pump v = read_act (\<lambda>d.
    let skip = (case latest_snapshot pump d of
        None \<Rightarrow> False
      | Some r \<Rightarrow> sv_version v < sn_version r \<or> sv_version v = sn_version r \<and> same_snapshot v r)
    in if skip then return_act None
       else bind_act draw_uuid (\<lambda>rid.
         let row = \<lparr>sn_id = rid, sn_pump = pump, sn_state = sv_state v, sn_previous = sv_previous v,
                    sn_nozzle = sv_nozzle v, sn_active_transaction = sv_active_transaction v, sn_healthy = sv_healthy v,
                    sn_raw_status = sv_raw_status v, sn_source = sv_source v, sn_version = sv_version v,
                    sn_observed_at = sv_observed_at v, sn_persisted_at = now\<rparr>
         in then_act (modify_act (\<lambda>d. d\<lparr>db_snapshots := db_snapshots d @ [row]\<rparr>))
              (then_act flush (return_act (Some row)))))"

section \<open>Commands\<close>

text \<open>An empty tuple of blocking reasons is stored as NULL.\<close>

definition create_command :: "command_row \<Rightarrow> (store, command_row) action" where
  "create_command given_row =
    (let row = given_row\<lparr>cm_blocking := (if cm_blocking given_row = Some [] then None else cm_blocking given_row)\<rparr> in
    then_act (modify_act (\<lambda>d. d\<lparr>db_commands := db_commands d @ [row]\<rparr>)) (then_act flush (return_act row)))"

text \<open>The columns of a new command, with the constructor's defaults.\<close>

definition new_command ::
  "string \<Rightarrow> string \<Rightarrow> string option \<Rightarrow> string \<Rightarrow> string \<Rightarrow> string \<Rightarrow> bool \<Rightarrow> int \<Rightarrow> command_row" where
  "new_command cid station pump ctype status idem simulator_only requested_at =
    \<lparr>cm_correlation_id = cid, cm_station = station, cm_pump = pump, cm_type = ctype, cm_status = status,
     cm_idempotency = idem, cm_simulator_only = simulator_only, cm_requested_at = requested_at, cm_expires_at = None,
     cm_completed_at = None, cm_request = None, cm_result = None, cm_blocking = None\<rparr>"

definition get_command :: "string \<Rightarrow> store \<Rightarrow> command_row option" where
  "get_command cid d = find (\<lambda>r. cm_correlation_id r = cid) (db_commands d)"

definition updated_command :: "string \<Rightarrow> int option \<Rightarrow> json option \<Rightarrow> command_row \<Rightarrow> command_row" where
  "updated_command status completed_at payload r =
    r\<lparr>cm_status := status, cm_completed_at := or_else completed_at (cm_completed_at r),
      cm_result := or_else payload (cm_result r)\<rparr>"

definition update_command_status ::
  "string \<Rightarrow> string \<Rightarrow> int option \<Rightarrow> json option \<Rightarrow> (store, command_row option) action" where
  "update_command_status cid status completed_at payload = read_act (\<lambda>d.
    case get_command cid d of
      None \<Rightarrow> return_act None
    | Some r \<Rightarrow>
        then_act (modify_act (\<lambda>d. d\<lparr>db_commands :=
            update_where (\<lambda>x. cm_correlation_id x = cid) (updated_command status completed_at payload) (db_commands d)\<rparr>))
          (then_act flush (return_act (Some (updated_command status completed_at payload r)))))"

definition pending_commands :: "string \<Rightarrow> store \<Rightarrow> command_row list" where
  "pending_commands station d =
    filter (\<lambda>r. cm_station r = station \<and> cm_status r \<in> {''PENDING'', ''IN_PROGRESS''}) (db_commands d)"

definition add_attempt ::
  "int \<Rightarrow> string \<Rightarrow> int \<Rightarrow> string \<Rightarrow> int option \<Rightarrow> string option \<Rightarrow> string option \<Rightarrow> int option \<Rightarrow> (store, attempt_row) action" where
  "add_attempt now cid number outcome sequence error_code raw_frame attempted_at =
    bind_act draw_uuid (\<lambda>rid.
      let row = \<lparr>ca_id = rid, ca_correlation_id = cid, ca_number = number, ca_sequence = sequence, ca_outcome = outcome,
                 ca_error_code = error_code, ca_raw_frame = raw_frame,
                 ca_attempted_at = (case attempted_at of None \<Rightarrow> now | Some t \<Rightarrow> t)\<rparr>
      in then_act (modify_act (\<lambda>d. d\<lparr>db_attempts := db_attempts d @ [row]\<rparr>)) (then_act flush (return_act row)))"

definition attempts_of :: "string \<Rightarrow> store \<Rightarrow> attempt_row list" where
  "attempts_of cid d = sort_key ca_number (filter (\<lambda>r. ca_correlation_id r = cid) (db_attempts d))"

section \<open>Alarms\<close>

definition upsert_alarm ::
  "int \<Rightarrow> string \<Rightarrow> string option \<Rightarrow> string \<Rightarrow> string \<Rightarrow> string \<Rightarrow> string \<Rightarrow> (store, alarm_row) action" where
  "upsert_alarm now station pump severity atype message source = read_act (\<lambda>d.
    case find (\<lambda>r. al_station r = station \<and> al_source_key r = source) (db_alarms d) of
      None \<Rightarrow>
        bind_act draw_uuid (\<lambda>rid.
          let row = \<lparr>al_id = rid, al_station = station, al_pump = pump, al_severity = severity, al_type = atype,
                     al_message = message, al_active = True, al_first_seen_at = now, al_last_seen_at = now,
                     al_cleared_at = None, al_source_key = source\<rparr>
          in then_act (modify_act (\<lambda>d. d\<lparr>db_alarms := db_alarms d @ [row]\<rparr>)) (then_act flush (return_act row)))
    | Some r \<Rightarrow>
        let row = r\<lparr>al_active := True, al_last_seen_at := now, al_message := message, al_severity := severity,
                    al_cleared_at := None\<rparr>
        in then_act (modify_act (\<lambda>d. d\<lparr>db_alarms := update_where (\<lambda>x. al_id x = al_id r) (\<lambda>_. row) (db_alarms d)\<rparr>))
             (then_act flush (return_act row)))"

definition get_alarm :: "string \<Rightarrow> store \<Rightarrow> alarm_row option" where
  "get_alarm aid d = find (\<lambda>r. al_id r = aid) (db_alarms d)"

record alarm_filter =
  af_station :: "string option"
  af_pump :: "string option"
  af_severity :: "string option"
  af_active :: "bool option"
  af_type :: "string option"
  af_seen_from :: "int option"
  af_seen_to :: "int option"

definition alarm_selected :: "alarm_filter \<Rightarrow> alarm_row \<Rightarrow> bool" where
  "alarm_selected f r \<longleftrightarrow> matches (af_station f) (\<lambda>v. al_station r = v) \<and> matches (af_pump f) (\<lambda>v. al_pump r = Some v) \<and>
     matches (af_severity f) (\<lambda>v. al_severity r = v) \<and> matches (af_active f) (\<lambda>v. al_active r = v) \<and>
     matches (af_type f) (\<lambda>v. al_type r = v) \<and> matches (af_seen_from f) (\<lambda>t. t \<le> al_first_seen_at r) \<and>
     matches (af_seen_to f) (\<lambda>t. al_first_seen_at r \<le> t)"

definition list_alarms :: "alarm_filter \<Rightarrow> nat \<Rightarrow> nat \<Rightarrow> store \<Rightarrow> alarm_row list \<times> nat" where
  "list_alarms f offset limit d =
    (let rows = filter (alarm_selected f) (db_alarms d)
     in (page offset limit (sort_desc al_last_seen_at rows), length rows))"

lemma commits_repos [commit_intros]:
  "commits (upsert_pump now station logical address enabled pid)"
  "commits (insert_if_meaningful now pump v)"
  "commits (create_command row)"
  "commits (update_command_status cid status at payload)"
  "commits (add_attempt now cid number outcome sequence error_code raw_frame at)"
  "commits (upsert_alarm now station alarm_pump severity atype message source)"
  unfolding upsert_pump_def insert_if_meaningful_def create_command_def update_command_status_def add_attempt_def
    upsert_alarm_def Let_def
  by (intro commit_intros)+

section \<open>State versions\<close>

lemma sort_desc_head:
  assumes "sort_desc f xs = r # rs"
  shows "r \<in> set xs \<and> (\<forall>x \<in> set xs. f x \<le> f r)"
proof -
  have "sorted (map (\<lambda>r. - f r) (sort_desc f xs))" by (simp add: sort_desc_def)
  moreover have "set (sort_desc f xs) = set xs" by simp
  ultimately show ?thesis using assms by auto
qed

lemma latest_snapshot_None: "latest_snapshot p d = None \<longleftrightarrow> filter (\<lambda>r. sn_pump r = p) (db_snapshots d) = []"
proof -
  have "sort_desc f (sort_desc g xs) = [] \<longleftrightarrow> xs = []" for f g :: "snapshot_row \<Rightarrow> int" and xs
    using set_sort_desc(1) [of f "sort_desc g xs"] set_sort_desc(1) [of g xs] by (metis set_empty)
  moreover have "latest_snapshot p d = None \<longleftrightarrow>
      sort_desc sn_version (sort_desc sn_persisted_at (filter (\<lambda>r. sn_pump r = p) (db_snapshots d))) = []"
    unfolding latest_snapshot_def by (simp split: list.split)
  ultimately show ?thesis by blast
qed

lemma latest_snapshot_Some:
  assumes "latest_snapshot p d = Some r"
  shows "r \<in> set (db_snapshots d) \<and> sn_pump r = p \<and>
    (\<forall>x \<in> set (filter (\<lambda>r. sn_pump r = p) (db_snapshots d)). sn_version x \<le> sn_version r)"
proof -
  let ?rows = "sort_desc sn_persisted_at (filter (\<lambda>r. sn_pump r = p) (db_snapshots d))"
  obtain rs where "sort_desc sn_version ?rows = r # rs"
    using assms by (auto simp: latest_snapshot_def split: list.splits)
  from sort_desc_head [OF this] show ?thesis by auto
qed

text \<open>An older version is not written.\<close>

lemma old_version_skipped:
  "latest_snapshot p d = Some r \<Longrightarrow> sv_version v < sn_version r \<Longrightarrow> insert_if_meaningful now p v d = (Inr None, d)"
  by (simp add: insert_if_meaningful_def)

definition versions_in_order :: "store \<Rightarrow> bool" where
  "versions_in_order d \<longleftrightarrow> (\<forall>p. sorted (map sn_version (filter (\<lambda>r. sn_pump r = p) (db_snapshots d))))"

definition record_snapshot :: "store \<Rightarrow> int \<times> string \<times> snapshot_values \<Rightarrow> store" where
  "record_snapshot d i = (case i of (now, p, v) \<Rightarrow> snd (unit_of_work (insert_if_meaningful now p v) d))"

lemma record_snapshot_rows:
  "db_snapshots (record_snapshot d (now, p, v)) = db_snapshots d \<or>
   (\<exists>row. db_snapshots (record_snapshot d (now, p, v)) = db_snapshots d @ [row] \<and> sn_pump row = p \<and>
     sn_version row = sv_version v \<and> (case latest_snapshot p d of None \<Rightarrow> True | Some r \<Rightarrow> sn_version r \<le> sv_version v))"
  by (auto simp: record_snapshot_def unit_of_work_def insert_if_meaningful_def bind_act_def draw_uuid_def Let_def flush_def
      split: option.split)

lemma record_snapshot_order:
  assumes "versions_in_order d"
  shows "versions_in_order (record_snapshot d i)"
proof -
  obtain now p v where i: "i = (now, p, v)" by (cases i) auto
  from record_snapshot_rows [of d now p v] show ?thesis
  proof
    assume "\<exists>row. db_snapshots (record_snapshot d (now, p, v)) = db_snapshots d @ [row] \<and> sn_pump row = p \<and>
     sn_version row = sv_version v \<and> (case latest_snapshot p d of None \<Rightarrow> True | Some r \<Rightarrow> sn_version r \<le> sv_version v)"
    then obtain row where row: "db_snapshots (record_snapshot d (now, p, v)) = db_snapshots d @ [row]" "sn_pump row = p"
      "sn_version row = sv_version v" "case latest_snapshot p d of None \<Rightarrow> True | Some r \<Rightarrow> sn_version r \<le> sv_version v"
      by blast
    have "sn_version x \<le> sn_version row" if "x \<in> set (filter (\<lambda>r. sn_pump r = p) (db_snapshots d))" for x
    proof (cases "latest_snapshot p d")
      case None
      with that show ?thesis unfolding latest_snapshot_None by auto
    next
      case (Some r)
      with latest_snapshot_Some [OF Some] that row(3,4) show ?thesis by force
    qed
    with assms row(1,2) i show ?thesis by (auto simp: versions_in_order_def sorted_append)
  qed (use assms i in \<open>simp add: versions_in_order_def\<close>)
qed

interpretation versions: preserved record_snapshot versions_in_order
  by unfold_locales (rule record_snapshot_order)

text \<open>
  The recorded state of a pump never goes back to an older version: whatever contexts are persisted, in whatever order
  they arrive, the versions of each pump's snapshots are stored in order.
\<close>

theorem snapshot_versions_in_order:
  "sorted (map sn_version (filter (\<lambda>r. sn_pump r = p) (db_snapshots (foldl record_snapshot (empty_store supply) inputs))))"
  using versions.run_preserves [of "empty_store supply" inputs]
  by (simp add: versions_in_order_def empty_store_def)

end
