(* ===== verification/Svc_Sales.thy ===== *)
theory Svc_Sales
  imports Db_Ledger Db_Queue Db_Repos Pump_Machine
begin

text \<open>
  \<open>cloud/fill_throttle.py\<close>, \<open>services/transaction_models.py\<close>, \<open>services/transaction_service.py\<close> and
  \<open>services/pump_state_service.py\<close>: what a sale and a state change write, the rows together with the messages for the
  cloud in one unit of work. The throttle's book lives beside the database and is not rolled back with it.
  \<open>datetime.isoformat\<close> is the parameter \<open>isot\<close>.
\<close>

section \<open>The filling throttle\<close>

record fill_config =
  fz_min_interval :: int
  fz_min_volume :: int
  fz_min_amount :: int

record fill_state =
  fs_published_at :: "int option"
  fs_volume :: "int option"
  fs_amount :: "int option"
  fs_first :: bool

definition new_fill_state :: fill_state where
  "new_fill_state = \<lparr>fs_published_at = None, fs_volume = None, fs_amount = None, fs_first = False\<rparr>"

definition moved_enough :: "int \<Rightarrow> int option \<Rightarrow> int \<Rightarrow> bool" where
  "moved_enough v last_value delta \<longleftrightarrow> (case last_value of None \<Rightarrow> False | Some w \<Rightarrow> \<bar>v - w\<bar> \<ge> delta)"

definition should_publish_fill :: "int \<Rightarrow> int \<Rightarrow> int \<Rightarrow> fill_state \<Rightarrow> fill_config \<Rightarrow> bool \<Rightarrow> bool" where
  "should_publish_fill now volume amount st cfg is_final \<longleftrightarrow>
    is_final \<or> \<not> fs_first st \<or> moved_enough volume (fs_volume st) (fz_min_volume cfg) \<or>
    moved_enough amount (fs_amount st) (fz_min_amount cfg) \<or>
    (case fs_published_at st of None \<Rightarrow> True | Some t \<Rightarrow> now - t \<ge> fz_min_interval cfg)"

definition advance_fill_state :: "int \<Rightarrow> int \<Rightarrow> int \<Rightarrow> fill_state" where
  "advance_fill_state now volume amount =
    \<lparr>fs_published_at = Some now, fs_volume = Some volume, fs_amount = Some amount, fs_first = True\<rparr>"

record fill_book =
  fb_config :: fill_config
  fb_states :: "(string \<times> fill_state) list"

definition decide_fill :: "string \<Rightarrow> int \<Rightarrow> int \<Rightarrow> bool \<Rightarrow> int \<Rightarrow> fill_book \<Rightarrow> bool \<times> fill_book" where
  "decide_fill u volume amount is_final now b =
    (let st = (case map_of (fb_states b) u of None \<Rightarrow> new_fill_state | Some s \<Rightarrow> s) in
     if \<not> should_publish_fill now volume amount st (fb_config b) is_final then (False, b)
     else let states = AList.update u (advance_fill_state now volume amount) (fb_states b)
       in (True, b\<lparr>fb_states := (if is_final then AList.delete u states else states)\<rparr>))"

section \<open>Services\<close>

record services =
  sv_store :: store
  sv_book :: "fill_book option"

definition in_store :: "(store, 'a) action \<Rightarrow> (services, 'a) action" where
  "in_store m s = (case m (sv_store s) of (r, d) \<Rightarrow> (r, s\<lparr>sv_store := d\<rparr>))"

definition look :: "(store \<Rightarrow> 'a) \<Rightarrow> (services, 'a) action" where
  "look f s = (Inr (f (sv_store s)), s)"

definition service_unit :: "(services, 'a) action \<Rightarrow> (services, 'a) action" where
  "service_unit m s =
    (case m s of
       (Inl e, s') \<Rightarrow> (Inl e, s'\<lparr>sv_store := (sv_store s)\<lparr>db_drawn := db_drawn (sv_store s')\<rparr>\<rparr>)
     | (Inr x, s') \<Rightarrow> (Inr x, s'))"

definition decide :: "string \<Rightarrow> int \<Rightarrow> int \<Rightarrow> bool \<Rightarrow> int \<Rightarrow> (services, bool) action" where
  "decide u volume amount is_final now s =
    (case sv_book s of
       None \<Rightarrow> (Inr False, s)
     | Some b \<Rightarrow> (case decide_fill u volume amount is_final now b of (yes, b') \<Rightarrow> (Inr yes, s\<lparr>sv_book := Some b'\<rparr>)))"

record begin_request =
  bq_station :: string
  bq_pump :: string
  bq_uuid :: string
  bq_nozzle :: "int option"
  bq_raw_price :: "int option"
  bq_price_decimals :: "int option"
  bq_volume_decimals :: "int option"
  bq_amount_decimals :: "int option"
  bq_simulated :: bool
  bq_environment :: string
  bq_started_at :: "int option"

record filling_request =
  fq_uuid :: string
  fq_volume :: int
  fq_amount :: int
  fq_price :: "int option"
  fq_event_key :: "string option"
  fq_source :: "string option"

record complete_request =
  cq_uuid :: string
  cq_key :: string
  cq_volume :: int
  cq_amount :: int
  cq_source :: "string option"
  cq_completed_at :: "int option"

definition begin_values :: "begin_request \<Rightarrow> transaction_values" where
  "begin_values q = \<lparr>tv_uuid = bq_uuid q, tv_station = bq_station q, tv_pump = bq_pump q, tv_nozzle = bq_nozzle q,
     tv_status = ''ACTIVE'', tv_raw_price = bq_raw_price q, tv_price_decimals = bq_price_decimals q,
     tv_volume_decimals = bq_volume_decimals q, tv_amount_decimals = bq_amount_decimals q,
     tv_simulated = bq_simulated q, tv_environment = bq_environment q, tv_started_at = bq_started_at q\<rparr>"

definition begin_sale :: "int \<Rightarrow> begin_request \<Rightarrow> (services, transaction_row) action" where
  "begin_sale now q =
    bind_act (look (get_by_uuid (bq_uuid q))) (\<lambda>existing.
      case existing of
        Some r \<Rightarrow> return_act r
      | None \<Rightarrow>
          bind_act (in_store (create_transaction now (begin_values q))) (\<lambda>r.
          bind_act (in_store (add_transaction_event now (tx_id r) ''STARTED'' (''started:'' @ tx_uuid r)
            (Some (JObj [(''status'', JStr ''ACTIVE'')])) None (bq_started_at q))) (\<lambda>_.
          bind_act (in_store (enqueue_sync now (sync_entry ''transaction'' (tx_uuid r) ''TRANSACTION_STARTED''
            (JObj [(''transaction_uuid'', JStr (tx_uuid r)), (''station_id'', JStr (tx_station r)),
                   (''environment'', JStr (tx_environment r)), (''simulated'', JBool (tx_simulated r))])
            (''tx-started:'' @ tx_uuid r)) None)) (\<lambda>_. return_act r))))"

definition logical_pump :: "string \<Rightarrow> store \<Rightarrow> string" where
  "logical_pump pid d = (case pump_by_db_id pid d of None \<Rightarrow> pid | Some p \<Rightarrow> pr_logical p)"

definition filling_payload :: "transaction_row \<Rightarrow> string \<Rightarrow> filling_request \<Rightarrow> json" where
  "filling_payload r logical q = JObj
    [(''transaction_uuid'', JStr (tx_uuid r)), (''station_id'', JStr (tx_station r)), (''pump_id'', JStr logical),
     (''raw_volume'', JInt (fq_volume q)), (''volume_decimals'', JOpt JInt (tx_volume_decimals r)),
     (''raw_amount'', JInt (fq_amount q)), (''amount_decimals'', JOpt JInt (tx_amount_decimals r)),
     (''environment'', JStr (tx_environment r)), (''simulated'', JBool (tx_simulated r))]"

definition update_sale :: "int \<Rightarrow> filling_request \<Rightarrow> (services, transaction_row option) action" where
  "update_sale now q =
    bind_act (in_store (update_filling_row now (fq_uuid q) (fq_volume q) (fq_amount q) (fq_price q))) (\<lambda>found.
      case found of
        None \<Rightarrow> return_act None
      | Some r \<Rightarrow>
          then_act
            (if truthy_string (fq_event_key q)
             then bind_act (in_store (add_transaction_event now (tx_id r) ''FILLING_UPDATE'' (the (fq_event_key q))
               (Some (JObj [(''raw_volume'', JInt (fq_volume q)), (''raw_amount'', JInt (fq_amount q))])) (fq_source q) None))
               (\<lambda>_. return_act ())
             else return_act ())
            (bind_act (decide (tx_uuid r) (fq_volume q) (fq_amount q) False now) (\<lambda>yes.
              if yes
              then bind_act (look (logical_pump (tx_pump r))) (\<lambda>logical.
                bind_act (in_store (enqueue_sync now (sync_entry ''transaction'' (tx_uuid r) ''FILLING_UPDATED''
                  (filling_payload r logical q)
                  (''fill:'' @ tx_uuid r @ '':'' @ int_text (fq_volume q) @ '':'' @ int_text (fq_amount q))) None))
                (\<lambda>_. return_act (Some r)))
              else return_act (Some r))))"

definition completed_payload :: "(int \<Rightarrow> string) \<Rightarrow> transaction_row \<Rightarrow> string \<Rightarrow> string \<Rightarrow> json" where
  "completed_payload isot r logical key = JObj
    [(''transaction_uuid'', JStr (tx_uuid r)), (''station_id'', JStr (tx_station r)), (''pump_id'', JStr logical),
     (''pump_db_id'', JStr (tx_pump r)), (''nozzle_id'', JOpt JInt (tx_nozzle r)), (''product'', JNull),
     (''raw_unit_price'', JOpt JInt (tx_raw_price r)), (''price_decimals'', JOpt JInt (tx_price_decimals r)),
     (''raw_volume'', JInt (tx_raw_volume r)), (''volume_decimals'', JOpt JInt (tx_volume_decimals r)),
     (''raw_amount'', JInt (tx_raw_amount r)), (''amount_decimals'', JOpt JInt (tx_amount_decimals r)),
     (''started_at'', JOpt (\<lambda>t. JStr (isot t)) (tx_started_at r)),
     (''completed_at'', JOpt (\<lambda>t. JStr (isot t)) (tx_completed_at r)), (''final_status'', JStr (tx_status r)),
     (''source_completion_key'', JStr key), (''environment'', JStr (tx_environment r)),
     (''simulated'', JBool (tx_simulated r))]"

text \<open>What follows a new completion: its event, its last word to the throttle, its message.\<close>

definition announce_completion :: "(int \<Rightarrow> string) \<Rightarrow> int \<Rightarrow> complete_request \<Rightarrow> transaction_row \<Rightarrow> (services, unit) action" where
  "announce_completion isot now q r =
    bind_act (in_store (add_transaction_event now (tx_id r) ''COMPLETED'' (''completed:'' @ cq_key q)
            (Some (JObj [(''raw_volume'', JInt (tx_raw_volume r)), (''raw_amount'', JInt (tx_raw_amount r)),
                         (''source_completion_key'', JStr (cq_key q))])) (cq_source q) (cq_completed_at q))) (\<lambda>_.
    bind_act (look (logical_pump (tx_pump r))) (\<lambda>logical.
    bind_act (decide (tx_uuid r) (tx_raw_volume r) (tx_raw_amount r) True now) (\<lambda>_.
    bind_act (in_store (enqueue_sync now (sync_entry ''transaction'' (tx_uuid r) ''TRANSACTION_COMPLETED''
            (completed_payload isot r logical (cq_key q)) (''tx-completed:'' @ cq_key q)) None))
      (\<lambda>_. return_act ()))))"

definition complete_sale :: "(int \<Rightarrow> string) \<Rightarrow> int \<Rightarrow> complete_request \<Rightarrow> (services, transaction_row \<times> bool) action" where
  "complete_sale isot now q =
    bind_act (in_store (complete_once now (cq_uuid q) (cq_key q) (cq_volume q) (cq_amount q) (cq_completed_at q)))
      (\<lambda>(r, newly). if \<not> newly then return_act (r, False)
        else then_act (announce_completion isot now q r) (return_act (r, True)))"

section \<open>State changes\<close>

definition context_values :: "pump_context \<Rightarrow> string option \<Rightarrow> int option \<Rightarrow> snapshot_values" where
  "context_values c source observed_at =
    \<lparr>sv_state = pump_state_value (pc_current_state c), sv_previous = map_option pump_state_value (pc_previous_state c),
     sv_nozzle = pc_selected_nozzle c, sv_active_transaction = pc_active_transaction c, sv_healthy = pc_communication_healthy c,
     sv_raw_status = pc_last_raw_status c, sv_source = source, sv_version = int (pc_state_version c),
     sv_observed_at = observed_at\<rparr>"

definition persist_context ::
  "int \<Rightarrow> string \<Rightarrow> pump_context \<Rightarrow> string option \<Rightarrow> int option \<Rightarrow> bool \<Rightarrow> (store, snapshot_row option) action" where
  "persist_context now pump ctx source observed_at enqueue_too =
    bind_act (insert_if_meaningful now pump (context_values ctx source observed_at)) (\<lambda>snap.
      case snap of
        None \<Rightarrow> return_act None
      | Some r \<Rightarrow>
          if enqueue_too
          then bind_act (enqueue_sync now (sync_entry ''pump_state'' pump ''STATE_CHANGED''
            (JObj [(''pump_id'', JStr pump), (''normalized_state'', JStr (sn_state r)), (''state_version'', JInt (sn_version r))])
            (''state:'' @ pump @ '':'' @ int_text (sn_version r) @ '':'' @ sn_state r)) None) (\<lambda>_. return_act (Some r))
          else return_act (Some r))"

section \<open>The throttle\<close>

lemma decide_fill_state:
  "decide_fill u volume amount False now b = (True, b') \<Longrightarrow>
    map_of (fb_states b') u = Some (advance_fill_state now volume amount) \<and> fb_config b' = fb_config b"
  by (auto simp: decide_fill_def Let_def update_conv' split: if_splits)

text \<open>
  The throttle holds back: two filling updates of one sale that are both published, with none published in between, are
  apart by the configured interval, or by the configured volume or amount; whatever is held back leaves the book as it is.
\<close>

theorem published_fills_are_apart:
  assumes "decide_fill u v1 a1 False t1 b = (True, b1)"
    and "list_all (\<lambda>(v, a, t). \<not> fst (decide_fill u v a False t b1)) held"
    and "decide_fill u v2 a2 False t2 (foldl (\<lambda>b (v, a, t). snd (decide_fill u v a False t b)) b1 held) = (True, b2)"
  shows "\<bar>v2 - v1\<bar> \<ge> fz_min_volume (fb_config b) \<or> \<bar>a2 - a1\<bar> \<ge> fz_min_amount (fb_config b) \<or>
    t2 - t1 \<ge> fz_min_interval (fb_config b)"
proof -
  have "\<not> fst (decide_fill u v a False t b1) \<Longrightarrow> snd (decide_fill u v a False t b1) = b1" for v a t
    by (auto simp: decide_fill_def Let_def)
  with assms(2) have "foldl (\<lambda>b (v, a, t). snd (decide_fill u v a False t b)) b1 held = b1"
    by (induction held) auto
  with assms(3) have "decide_fill u v2 a2 False t2 b1 = (True, b2)" by simp
  with decide_fill_state [OF assms(1)] show ?thesis
    by (auto simp: decide_fill_def Let_def should_publish_fill_def advance_fill_state_def moved_enough_def split: if_splits)
qed

definition default_book :: fill_book where
  "default_book = \<lparr>fb_config = \<lparr>fz_min_interval = 2, fz_min_volume = 100, fz_min_amount = 100\<rparr>, fb_states = []\<rparr>"

theorem published_fills_are_apart_witness:
  "\<bar>260 - (0::int)\<bar> \<ge> fz_min_volume (fb_config default_book) \<or> \<bar>20 - (0::int)\<bar> \<ge> fz_min_amount (fb_config default_book) \<or>
    1 - (0::int) \<ge> fz_min_interval (fb_config default_book)"
  by (rule published_fills_are_apart [where u = "''a''" and held = "[(50, 10, 1)]" and
        ?b1.0 = "default_book\<lparr>fb_states := [(''a'', advance_fill_state 0 0 0)]\<rparr>" and
        ?b2.0 = "default_book\<lparr>fb_states := [(''a'', advance_fill_state 1 260 20)]\<rparr>"])
    (simp_all add: decide_fill_def should_publish_fill_def default_book_def new_fill_state_def advance_fill_state_def
      moved_enough_def)

section \<open>A sale and its messages\<close>

lemma bind_act_split:
  "bind_act m f s = (r, s') \<Longrightarrow>
    (\<exists>e. m s = (Inl e, s') \<and> r = Inl e) \<or> (\<exists>x s1. m s = (Inr x, s1) \<and> f x s1 = (r, s'))"
  by (auto simp: bind_act_def split: prod.splits sum.splits)

text \<open>What an event, a look and a decision leave alone.\<close>

lemma event_leaves:
  "db_transactions (snd (add_transaction_event now tid etype key payload source at d)) = db_transactions d \<and>
   db_queue (snd (add_transaction_event now tid etype key payload source at d)) = db_queue d"
  by (simp add: add_transaction_event_def bind_act_def draw_uuid_def Let_def flush_def)

lemma decide_leaves: "\<exists>yes s'. decide u volume amount final now s = (Inr yes, s') \<and> sv_store s' = sv_store s"
  by (cases "sv_book s") (auto simp: decide_def split: prod.split)

lemma bind_act_returns:
  "bind_act m f s = (Inr y, s') \<Longrightarrow> \<exists>x s1. m s = (Inr x, s1) \<and> f x s1 = (Inr y, s')"
  by (auto simp: bind_act_def split: prod.splits sum.splits)

lemma enqueue_leaves:
  assumes "enqueue_sync now v at d = (Inr x, d')"
  shows "db_transactions d' = db_transactions d \<and> (\<exists>m \<in> set (db_queue d'). sq_key m = yv_key v) \<and>
    (\<not> list_ex (\<lambda>r. sq_key r = yv_key v) (db_queue d) \<longrightarrow>
      (\<exists>m \<in> set (db_queue d'). sq_key m = yv_key v \<and> sq_payload m = yv_payload v \<and> sq_status m = ''PENDING''))"
  using assms
  by (auto simp: enqueue_sync_def bind_act_def draw_uuid_def Let_def flush_def sync_row_of_def list_ex_iff split: if_splits)

lemma complete_once_queue: "db_queue (snd (complete_once now u key volume amount at d)) = db_queue d"
  by (auto simp: complete_once_def Let_def flush_unique_def flush_def write_transaction_def split: option.split)

lemma complete_once_old:
  assumes "complete_once now u key volume amount at d = (Inr (x, False), d')" "schema_ok d"
  shows "d' = d"
  by (cases rule: complete_rows [OF assms]) simp_all

lemma complete_once_new:
  assumes "complete_once now u key volume amount at d = (Inr (x, True), d')" "schema_ok d"
  shows "\<exists>r t. x = completed t key volume amount r \<and> get_by_uuid u d = Some r \<and>
    set (db_transactions d') = insert x (set (db_transactions d) - {r})"
  by (cases rule: complete_rows [OF assms]) auto

definition message_sent :: "string \<Rightarrow> store \<Rightarrow> bool" where
  "message_sent key d \<longleftrightarrow> list_ex (\<lambda>m. sq_key m = ''tx-completed:'' @ key) (db_queue d)"

lemma announcement:
  assumes "announce_completion isot now q r s = (Inr (), s')"
  shows "db_transactions (sv_store s') = db_transactions (sv_store s) \<and> message_sent (cq_key q) (sv_store s') \<and>
    (\<not> message_sent (cq_key q) (sv_store s) \<longrightarrow>
      (\<exists>m \<in> set (db_queue (sv_store s')). \<exists>logical. sq_key m = ''tx-completed:'' @ cq_key q \<and>
         sq_payload m = completed_payload isot r logical (cq_key q) \<and> sq_status m = ''PENDING''))"
proof -
  let ?enq = "\<lambda>logical. in_store (enqueue_sync now (sync_entry ''transaction'' (tx_uuid r) ''TRANSACTION_COMPLETED''
       (completed_payload isot r logical (cq_key q)) (''tx-completed:'' @ cq_key q)) None)"
  let ?ev = "add_transaction_event now (tx_id r) ''COMPLETED'' (''completed:'' @ cq_key q)
          (Some (JObj [(''raw_volume'', JInt (tx_raw_volume r)), (''raw_amount'', JInt (tx_raw_amount r)),
                       (''source_completion_key'', JStr (cq_key q))])) (cq_source q) (cq_completed_at q)"
  from bind_act_returns [OF assms [unfolded announce_completion_def]] obtain e1 s1 where
    ev: "in_store ?ev s = (Inr e1, s1)" and
    r1: "bind_act (look (logical_pump (tx_pump r))) (\<lambda>logical.
        bind_act (decide (tx_uuid r) (tx_raw_volume r) (tx_raw_amount r) True now) (\<lambda>_.
        bind_act (?enq logical) (\<lambda>_. return_act ()))) s1 = (Inr (), s')" by blast
  from bind_act_returns [OF r1] obtain logical where
    r2: "bind_act (decide (tx_uuid r) (tx_raw_volume r) (tx_raw_amount r) True now) (\<lambda>_.
        bind_act (?enq logical) (\<lambda>_. return_act ())) s1 = (Inr (), s')" unfolding look_def by blast
  from bind_act_returns [OF r2] obtain yes s2 where
    dec: "decide (tx_uuid r) (tx_raw_volume r) (tx_raw_amount r) True now s1 = (Inr yes, s2)" and
    r3: "bind_act (?enq logical) (\<lambda>_. return_act ()) s2 = (Inr (), s')" by blast
  from bind_act_returns [OF r3] obtain x where "?enq logical s2 = (Inr x, s')" by fastforce
  then have enq: "enqueue_sync now (sync_entry ''transaction'' (tx_uuid r) ''TRANSACTION_COMPLETED''
       (completed_payload isot r logical (cq_key q)) (''tx-completed:'' @ cq_key q)) None (sv_store s2) = (Inr x, sv_store s')"
    by (auto simp: in_store_def split: prod.splits)
  have "sv_store s2 = sv_store s1"
    using decide_leaves [of "tx_uuid r" "tx_raw_volume r" "tx_raw_amount r" True now s1] dec by auto
  moreover from ev have "?ev (sv_store s) = (Inr e1, sv_store s1)" by (auto simp: in_store_def split: prod.splits)
  ultimately have "db_transactions (sv_store s2) = db_transactions (sv_store s) \<and> db_queue (sv_store s2) = db_queue (sv_store s)"
    using event_leaves [of now _ _ _ _ _ _ "sv_store s"] by (metis snd_conv)
  with enqueue_leaves [OF enq] show ?thesis by (auto simp: message_sent_def list_ex_iff sync_entry_def)
qed

lemma complete_sale_cases:
  assumes "complete_sale isot now q s = (Inr (r, newly), s')" "schema_ok (sv_store s)"
  shows "if newly
    then settled (cq_uuid q) (cq_key q) (sv_store s') \<and> message_sent (cq_key q) (sv_store s') \<and>
      (\<not> message_sent (cq_key q) (sv_store s) \<longrightarrow>
        (\<exists>m \<in> set (db_queue (sv_store s')). \<exists>logical. sq_key m = ''tx-completed:'' @ cq_key q \<and>
           sq_payload m = completed_payload isot r logical (cq_key q) \<and> sq_status m = ''PENDING'' \<and>
           r \<in> set (db_transactions (sv_store s'))))
    else s' = s"
proof -
  let ?once = "complete_once now (cq_uuid q) (cq_key q) (cq_volume q) (cq_amount q) (cq_completed_at q)"
  from bind_act_returns [OF assms(1) [unfolded complete_sale_def]] obtain r0 n0 s1 where
    c: "in_store ?once s = (Inr (r0, n0), s1)" and
    rest: "(if \<not> n0 then return_act (r0, False)
        else then_act (announce_completion isot now q r0) (return_act (r0, True))) s1 = (Inr (r, newly), s')"
    by fastforce
  then obtain d1 where d1: "?once (sv_store s) = (Inr (r0, n0), d1)" "s1 = s\<lparr>sv_store := d1\<rparr>"
    by (auto simp: in_store_def split: prod.splits)
  show ?thesis
  proof (cases n0)
    case False
    with d1(1) have "d1 = sv_store s" by (intro complete_once_old [OF _ assms(2)]) simp
    with rest d1 False show ?thesis by simp
  next
    case True
    obtain rr t where row: "r0 = completed t (cq_key q) (cq_volume q) (cq_amount q) rr"
      "set (db_transactions d1) = insert r0 (set (db_transactions (sv_store s)) - {rr})"
      "get_by_uuid (cq_uuid q) (sv_store s) = Some rr"
      using complete_once_new [OF d1(1) [unfolded eqTrueI [OF True]] assms(2)] by blast
    have queue1: "db_queue d1 = db_queue (sv_store s)" using complete_once_queue d1(1) by (metis snd_conv)
    from rest True have a: "announce_completion isot now q r0 s1 = (Inr (), s')" "r = r0" "newly"
      by (auto split: prod.splits sum.splits)
    note an = announcement [OF a(1)]
    have "settled (cq_uuid q) (cq_key q) (sv_store s')"
      using row an d1(2) get_by_uuid_Some [OF row(3)] by (auto simp: settled_def completed_def)
    then show ?thesis using an a(2,3) row(2) queue1 d1(2) by (auto simp: message_sent_def)
  qed
qed

text \<open>
  C8. Completing a sale and announcing it are one: as a unit of work, a completion either leaves every table as it was, or it
  settles the sale under its key and the message with the final totals waits in the queue; a repeated completion changes
  nothing.
\<close>

theorem completion_is_announced:
  assumes "schema_ok (sv_store s)"
  shows "case service_unit (complete_sale isot now q) s of
     (Inl e, s') \<Rightarrow> sv_store s' = (sv_store s)\<lparr>db_drawn := db_drawn (sv_store s')\<rparr>
   | (Inr (r, newly), s') \<Rightarrow>
       if newly
       then settled (cq_uuid q) (cq_key q) (sv_store s') \<and> message_sent (cq_key q) (sv_store s') \<and>
         (message_sent (cq_key q) (sv_store s) \<or>
           (\<exists>m \<in> set (db_queue (sv_store s')). \<exists>logical. sq_key m = ''tx-completed:'' @ cq_key q \<and>
              sq_payload m = completed_payload isot r logical (cq_key q) \<and> sq_status m = ''PENDING'' \<and>
              r \<in> set (db_transactions (sv_store s'))))
       else s' = s"
proof -
  obtain res s1 where c: "complete_sale isot now q s = (res, s1)" by fastforce
  show ?thesis
  proof (cases res)
    case (Inl e)
    with c show ?thesis by (simp add: service_unit_def)
  next
    case (Inr rn)
    obtain r newly where rn: "rn = (r, newly)" by fastforce
    from c Inr rn have "complete_sale isot now q s = (Inr (r, newly), s1)" by simp
    from complete_sale_cases [OF this assms] c Inr rn show ?thesis by (auto simp: service_unit_def)
  qed
qed

theorem completion_is_announced_witness:
  "case service_unit (complete_sale int_text 9 \<lparr>cq_uuid = ''b'', cq_key = ''k2'', cq_volume = 7, cq_amount = 8, cq_source = None,
       cq_completed_at = None\<rparr>) \<lparr>sv_store = two_sales, sv_book = None\<rparr> of
     (Inl e, s') \<Rightarrow> sv_store s' = two_sales\<lparr>db_drawn := db_drawn (sv_store s')\<rparr>
   | (Inr (r, newly), s') \<Rightarrow>
       if newly
       then settled ''b'' ''k2'' (sv_store s') \<and> message_sent ''k2'' (sv_store s') \<and>
         (message_sent ''k2'' two_sales \<or>
           (\<exists>m \<in> set (db_queue (sv_store s')). \<exists>logical. sq_key m = ''tx-completed:'' @ ''k2'' \<and>
              sq_payload m = completed_payload int_text r logical ''k2'' \<and> sq_status m = ''PENDING'' \<and>
              r \<in> set (db_transactions (sv_store s'))))
       else s' = \<lparr>sv_store = two_sales, sv_book = None\<rparr>"
proof -
  have ok: "schema_ok (sv_store \<lparr>sv_store = two_sales, sv_book = None\<rparr>)"
    unfolding services.simps two_sales_def by (rule run_schema [OF one_pump_ok])
  show ?thesis
    using completion_is_announced [OF ok, where isot = int_text and now = 9 and
        q = "\<lparr>cq_uuid = ''b'', cq_key = ''k2'', cq_volume = 7, cq_amount = 8, cq_source = None, cq_completed_at = None\<rparr>"]
    unfolding services.simps complete_request.simps .
qed

end
