(* ===== verification/Live_Broker.thy ===== *)
theory Live_Broker
  imports Db_Store "HOL-Library.Sublist"
begin

text \<open>
  \<open>events/models.py\<close>, \<open>events/subscription.py\<close>, \<open>events/broker.py\<close> and the loop of the stream in
  \<open>api/routes/events.py\<close>: the live events a user interface subscribes to. A subscription has a bounded queue; a full
  queue loses the new event, or, when the new event is critical, its oldest entry. The queue holds events, and
  None once the subscription is closed. A subscription is an object that outlives its registration: the stream that reads it
  keeps it.
\<close>

section \<open>Events\<close>

datatype live_event_type =
    Live_CONNECTED | Live_HEARTBEAT | Live_PUMP_CONNECTED | Live_PUMP_DISCONNECTED | Live_PUMP_STATE_CHANGED
  | Live_NOZZLE_LIFTED | Live_AUTHORIZATION_CONFIRMED | Live_FILLING_STARTED | Live_FILLING_UPDATED
  | Live_FILLING_COMPLETED | Live_TRANSACTION_CREATED | Live_TRANSACTION_COMPLETED | Live_ALARM_RAISED
  | Live_ALARM_CLEARED | Live_PROTOCOL_ERROR | Live_PERSISTENCE_WARNING | Live_CONTROLLER_RECOVERED
  | Live_COMMAND_EVALUATED | Live_SUBSCRIBER_DROPPED

definition CRITICAL_LIVE_EVENTS :: "live_event_type set" where
  "CRITICAL_LIVE_EVENTS =
     {Live_TRANSACTION_COMPLETED, Live_ALARM_RAISED, Live_FILLING_COMPLETED, Live_CONTROLLER_RECOVERED}"

record live_event =
  le_id :: string
  le_type :: live_event_type
  le_timestamp :: int
  le_station :: string
  le_environment :: string
  le_simulated :: bool
  le_sequence :: nat
  le_pump :: "string option"
  le_transaction :: "string option"
  le_correlation :: "string option"
  le_severity :: "string option"
  le_payload :: json
  le_state_version :: "int option"

record event_filter =
  ef_station :: "string option"
  ef_pump :: "string option"
  ef_types :: "live_event_type set option"
  ef_severity :: "string option"
  ef_simulated :: "bool option"

definition accept_all :: event_filter where
  "accept_all = \<lparr>ef_station = None, ef_pump = None, ef_types = None, ef_severity = None, ef_simulated = None\<rparr>"

definition filter_matches :: "event_filter \<Rightarrow> live_event \<Rightarrow> bool" where
  "filter_matches f e \<longleftrightarrow> matches (ef_station f) (\<lambda>v. le_station e = v) \<and> matches (ef_pump f) (\<lambda>v. le_pump e = Some v) \<and>
     matches (ef_types f) (\<lambda>ts. le_type e \<in> ts) \<and> matches (ef_severity f) (\<lambda>v. le_severity e = Some v) \<and>
     matches (ef_simulated f) (\<lambda>b. le_simulated e = b)"

section \<open>Subscriptions\<close>

text \<open>A queue of size 0 has no bound.\<close>

record subscription =
  sb_id :: string
  sb_size :: nat
  sb_queue :: "live_event option list"
  sb_filter :: event_filter
  sb_kind :: string
  sb_closed :: bool
  sb_dropped :: nat

definition queue_full :: "subscription \<Rightarrow> bool" where
  "queue_full s \<longleftrightarrow> 0 < sb_size s \<and> sb_size s \<le> length (sb_queue s)"

definition close_subscription :: "subscription \<Rightarrow> subscription" where
  "close_subscription s =
    (if sb_closed s then s
     else s\<lparr>sb_closed := True, sb_queue := (if queue_full s then sb_queue s else sb_queue s @ [None])\<rparr>)"

text \<open>\<open>_subs\<close> is the list of registered identifiers; every subscription ever made is an object.\<close>

record broker =
  bk_max_sse :: nat
  bk_max_ws :: nat
  bk_queue_size :: nat
  bk_registered :: "string list"
  bk_objects :: "(string \<times> subscription) list"
  bk_seq :: nat
  bk_dropped :: nat

definition new_broker :: "nat \<Rightarrow> nat \<Rightarrow> nat \<Rightarrow> broker" where
  "new_broker max_sse max_ws queue_size = \<lparr>bk_max_sse = max_sse, bk_max_ws = max_ws, bk_queue_size = queue_size,
     bk_registered = [], bk_objects = [], bk_seq = 0, bk_dropped = 0\<rparr>"

definition on_object :: "string \<Rightarrow> (subscription \<Rightarrow> subscription) \<Rightarrow> broker \<Rightarrow> broker" where
  "on_object sid g b =
    (case map_of (bk_objects b) sid of None \<Rightarrow> b | Some s \<Rightarrow> b\<lparr>bk_objects := AList.update sid (g s) (bk_objects b)\<rparr>)"

definition active_of :: "string \<Rightarrow> broker \<Rightarrow> nat" where
  "active_of kind b = length (filter (\<lambda>sid. case map_of (bk_objects b) sid of
     None \<Rightarrow> False | Some s \<Rightarrow> sb_kind s = kind \<and> \<not> sb_closed s) (bk_registered b))"

text \<open>What a publication does to one subscription; the flag says whether the event was dropped.\<close>

definition offer :: "live_event \<Rightarrow> subscription \<Rightarrow> subscription \<times> bool" where
  "offer e s =
    (if sb_closed s \<or> \<not> filter_matches (sb_filter s) e then (s, False)
     else if \<not> queue_full s then (s\<lparr>sb_queue := sb_queue s @ [Some e]\<rparr>, False)
     else if le_type e \<in> CRITICAL_LIVE_EVENTS then (s\<lparr>sb_queue := tl (sb_queue s) @ [Some e]\<rparr>, False)
     else (s\<lparr>sb_dropped := sb_dropped s + 1\<rparr>, True))"

definition offer_to :: "live_event \<Rightarrow> broker \<Rightarrow> string \<Rightarrow> broker" where
  "offer_to e b sid =
    (case map_of (bk_objects b) sid of
       None \<Rightarrow> b
     | Some s \<Rightarrow> (case offer e s of (s', lost) \<Rightarrow>
         b\<lparr>bk_objects := AList.update sid s' (bk_objects b), bk_dropped := bk_dropped b + (if lost then 1 else 0)\<rparr>))"

definition publish_live :: "live_event \<Rightarrow> broker \<Rightarrow> broker" where
  "publish_live e b = foldl (offer_to e) b (bk_registered b)"

text \<open>The arguments of \<open>make_event\<close> and \<open>publish_typed\<close> after the type.\<close>

record live_values =
  lw_station :: string
  lw_environment :: string
  lw_simulated :: bool
  lw_pump :: "string option"
  lw_transaction :: "string option"
  lw_correlation :: "string option"
  lw_severity :: "string option"
  lw_payload :: "json option"
  lw_state_version :: "int option"

definition make_event :: "int \<Rightarrow> string \<Rightarrow> live_event_type \<Rightarrow> live_values \<Rightarrow> broker \<Rightarrow> live_event \<times> broker" where
  "make_event now eid ty v b =
    (\<lparr>le_id = eid, le_type = ty, le_timestamp = now, le_station = lw_station v, le_environment = lw_environment v,
      le_simulated = lw_simulated v, le_sequence = bk_seq b + 1, le_pump = lw_pump v, le_transaction = lw_transaction v,
      le_correlation = lw_correlation v, le_severity = lw_severity v,
      le_payload = (case lw_payload v of None \<Rightarrow> JObj [] | Some p \<Rightarrow> p), le_state_version = lw_state_version v\<rparr>,
     b\<lparr>bk_seq := bk_seq b + 1\<rparr>)"

definition publish_typed :: "int \<Rightarrow> string \<Rightarrow> live_event_type \<Rightarrow> live_values \<Rightarrow> broker \<Rightarrow> live_event \<times> broker" where
  "publish_typed now eid ty v b = (let (e, b1) = make_event now eid ty v b in (e, publish_live e b1))"

text \<open>\<open>to_dict\<close>, with \<open>isot\<close> for \<open>isoformat\<close>.\<close>

fun live_event_value :: "live_event_type \<Rightarrow> string" where
  "live_event_value Live_CONNECTED = ''CONNECTED''"
| "live_event_value Live_HEARTBEAT = ''HEARTBEAT''"
| "live_event_value Live_PUMP_CONNECTED = ''PUMP_CONNECTED''"
| "live_event_value Live_PUMP_DISCONNECTED = ''PUMP_DISCONNECTED''"
| "live_event_value Live_PUMP_STATE_CHANGED = ''PUMP_STATE_CHANGED''"
| "live_event_value Live_NOZZLE_LIFTED = ''NOZZLE_LIFTED''"
| "live_event_value Live_AUTHORIZATION_CONFIRMED = ''AUTHORIZATION_CONFIRMED''"
| "live_event_value Live_FILLING_STARTED = ''FILLING_STARTED''"
| "live_event_value Live_FILLING_UPDATED = ''FILLING_UPDATED''"
| "live_event_value Live_FILLING_COMPLETED = ''FILLING_COMPLETED''"
| "live_event_value Live_TRANSACTION_CREATED = ''TRANSACTION_CREATED''"
| "live_event_value Live_TRANSACTION_COMPLETED = ''TRANSACTION_COMPLETED''"
| "live_event_value Live_ALARM_RAISED = ''ALARM_RAISED''"
| "live_event_value Live_ALARM_CLEARED = ''ALARM_CLEARED''"
| "live_event_value Live_PROTOCOL_ERROR = ''PROTOCOL_ERROR''"
| "live_event_value Live_PERSISTENCE_WARNING = ''PERSISTENCE_WARNING''"
| "live_event_value Live_CONTROLLER_RECOVERED = ''CONTROLLER_RECOVERED''"
| "live_event_value Live_COMMAND_EVALUATED = ''COMMAND_EVALUATED''"
| "live_event_value Live_SUBSCRIBER_DROPPED = ''SUBSCRIBER_DROPPED''"

definition live_event_dict :: "(int \<Rightarrow> string) \<Rightarrow> live_event \<Rightarrow> json" where
  "live_event_dict isot e = JObj
    [(''event_id'', JStr (le_id e)), (''event_type'', JStr (live_event_value (le_type e))),
     (''timestamp'', JStr (isot (le_timestamp e))), (''station_id'', JStr (le_station e)),
     (''pump_id'', JOpt JStr (le_pump e)), (''transaction_id'', JOpt JStr (le_transaction e)),
     (''correlation_id'', JOpt JStr (le_correlation e)), (''environment'', JStr (le_environment e)),
     (''simulated'', JBool (le_simulated e)), (''severity'', JOpt JStr (le_severity e)), (''payload'', le_payload e),
     (''sequence'', JInt (int (le_sequence e))), (''state_version'', JOpt JInt (le_state_version e))]"

datatype broker_error = Subscriber_limit string

definition subscribe :: "string \<Rightarrow> string \<Rightarrow> event_filter option \<Rightarrow> broker \<Rightarrow> (broker_error + subscription) \<times> broker" where
  "subscribe sid kind flt b =
    (if kind = ''sse'' \<and> active_of ''sse'' b \<ge> bk_max_sse b then (Inl (Subscriber_limit kind), b)
     else if kind = ''ws'' \<and> active_of ''ws'' b \<ge> bk_max_ws b then (Inl (Subscriber_limit kind), b)
     else let s = \<lparr>sb_id = sid, sb_size = bk_queue_size b, sb_queue = [],
                   sb_filter = (case flt of None \<Rightarrow> accept_all | Some f \<Rightarrow> f), sb_kind = kind, sb_closed = False,
                   sb_dropped = 0\<rparr>
       in (Inr s, b\<lparr>bk_objects := AList.update sid s (bk_objects b),
             bk_registered := (if sid \<in> set (bk_registered b) then bk_registered b else bk_registered b @ [sid])\<rparr>))"

definition unsubscribe :: "string \<Rightarrow> broker \<Rightarrow> broker" where
  "unsubscribe sid b =
    (if sid \<in> set (bk_registered b)
     then on_object sid close_subscription (b\<lparr>bk_registered := removeAll sid (bk_registered b)\<rparr>) else b)"

definition close_all :: "broker \<Rightarrow> broker" where
  "close_all b = (foldl (\<lambda>b sid. on_object sid close_subscription b) b (bk_registered b))\<lparr>bk_registered := []\<rparr>"

section \<open>Streams\<close>

datatype stream_output = Stream_waits | Stream_event live_event | Stream_heartbeat live_event | Stream_ends

text \<open>One pass of \<open>EventBroker.stream\<close>; with nothing queued it goes on waiting.\<close>

definition stream_pass :: "string \<Rightarrow> broker \<Rightarrow> stream_output \<times> broker" where
  "stream_pass sid b =
    (case map_of (bk_objects b) sid of
       None \<Rightarrow> (Stream_ends, b)
     | Some s \<Rightarrow>
         if sb_closed s then (Stream_ends, unsubscribe sid b)
         else case sb_queue s of
             [] \<Rightarrow> (Stream_waits, b)
           | None # q \<Rightarrow> (Stream_ends, unsubscribe sid (on_object sid (\<lambda>s. s\<lparr>sb_queue := q\<rparr>) b))
           | Some e # q \<Rightarrow> (Stream_event e, on_object sid (\<lambda>s. s\<lparr>sb_queue := q\<rparr>) b))"

text \<open>One pass of the generator of \<open>/events/stream\<close>: with nothing queued for the keepalive time, a heartbeat.\<close>

definition sse_pass :: "int \<Rightarrow> string \<Rightarrow> live_values \<Rightarrow> bool \<Rightarrow> string \<Rightarrow> broker \<Rightarrow> stream_output \<times> broker" where
  "sse_pass now eid v disconnected sid b =
    (if disconnected then (Stream_ends, unsubscribe sid b)
     else case map_of (bk_objects b) sid of
       None \<Rightarrow> (Stream_ends, b)
     | Some s \<Rightarrow>
         case sb_queue s of
             [] \<Rightarrow> (case make_event now eid Live_HEARTBEAT v b of (hb, b1) \<Rightarrow> (Stream_heartbeat hb, b1))
           | None # q \<Rightarrow> (Stream_ends, unsubscribe sid (on_object sid (\<lambda>s. s\<lparr>sb_queue := q\<rparr>) b))
           | Some e # q \<Rightarrow> (Stream_event e, on_object sid (\<lambda>s. s\<lparr>sb_queue := q\<rparr>) b))"

section \<open>Every subscription stays in order and in bounds\<close>

datatype broker_op =
    B_publish int string live_event_type live_values
  | B_subscribe string string "event_filter option"
  | B_unsubscribe string
  | B_close_all
  | B_stream string
  | B_sse int string live_values bool string

definition record_output ::
  "string \<Rightarrow> (string \<times> live_event) list \<Rightarrow> stream_output \<times> broker \<Rightarrow> (string \<times> live_event) list \<times> broker" where
  "record_output sid log ob = ((case fst ob of Stream_event e \<Rightarrow> log @ [(sid, e)] | _ \<Rightarrow> log), snd ob)"

text \<open>A step, with a log of the events the streams have sent.\<close>

fun broker_step :: "(string \<times> live_event) list \<times> broker \<Rightarrow> broker_op \<Rightarrow> (string \<times> live_event) list \<times> broker" where
  "broker_step (log, b) (B_publish now eid ty v) = (log, snd (publish_typed now eid ty v b))"
| "broker_step (log, b) (B_subscribe sid kind flt) = (log, snd (subscribe sid kind flt b))"
| "broker_step (log, b) (B_unsubscribe sid) = (log, unsubscribe sid b)"
| "broker_step (log, b) B_close_all = (log, close_all b)"
| "broker_step (log, b) (B_stream sid) = record_output sid log (stream_pass sid b)"
| "broker_step (log, b) (B_sse now eid v gone sid) = record_output sid log (sse_pass now eid v gone sid b)"

definition sent_to :: "string \<Rightarrow> (string \<times> live_event) list \<Rightarrow> live_event list" where
  "sent_to sid log = map snd (filter (\<lambda>(i, e). i = sid) log)"

definition event_order :: "nat \<Rightarrow> live_event list \<Rightarrow> bool" where
  "event_order n es \<longleftrightarrow> sorted_wrt (<) (map le_sequence es) \<and> (\<forall>e \<in> set es. le_sequence e \<le> n)"

text \<open>What a subscriber has been sent and still has queued.\<close>

definition history_of :: "string \<Rightarrow> (string \<times> live_event) list \<times> broker \<Rightarrow> live_event list" where
  "history_of sid st = sent_to sid (fst st) @
     (case map_of (bk_objects (snd st)) sid of None \<Rightarrow> [] | Some s \<Rightarrow> given (sb_queue s))"

definition within_size :: "broker \<Rightarrow> subscription \<Rightarrow> bool" where
  "within_size b s \<longleftrightarrow> sb_size s = bk_queue_size b \<and> (0 < sb_size s \<longrightarrow> length (sb_queue s) \<le> sb_size s)"

definition broker_ok :: "(string \<times> live_event) list \<times> broker \<Rightarrow> bool" where
  "broker_ok st \<longleftrightarrow> distinct (bk_registered (snd st)) \<and> (\<forall>sid. event_order (bk_seq (snd st)) (history_of sid st)) \<and>
     (\<forall>sid s. map_of (bk_objects (snd st)) sid = Some s \<longrightarrow> within_size (snd st) s)"

lemma on_object_simps [simp]:
  "map_of (bk_objects (on_object sid g b)) x =
     (if x = sid then map_option g (map_of (bk_objects b) sid) else map_of (bk_objects b) x)"
  "bk_seq (on_object sid g b) = bk_seq b" "bk_registered (on_object sid g b) = bk_registered b"
  "bk_queue_size (on_object sid g b) = bk_queue_size b" "bk_max_sse (on_object sid g b) = bk_max_sse b"
  "bk_max_ws (on_object sid g b) = bk_max_ws b"
  by (auto simp: on_object_def update_conv' split: option.splits)

lemma offer_to_simps [simp]:
  "map_of (bk_objects (offer_to e b sid)) x =
     (if x = sid then map_option (\<lambda>s. fst (offer e s)) (map_of (bk_objects b) sid) else map_of (bk_objects b) x)"
  "bk_seq (offer_to e b sid) = bk_seq b" "bk_registered (offer_to e b sid) = bk_registered b"
  "bk_queue_size (offer_to e b sid) = bk_queue_size b" "bk_max_sse (offer_to e b sid) = bk_max_sse b"
  "bk_max_ws (offer_to e b sid) = bk_max_ws b"
  by (auto simp: offer_to_def update_conv' split: option.splits prod.splits)

lemma offers_simps:
  "distinct ids \<Longrightarrow> map_of (bk_objects (foldl (offer_to e) b ids)) x =
     (if x \<in> set ids then map_option (\<lambda>s. fst (offer e s)) (map_of (bk_objects b) x) else map_of (bk_objects b) x)"
  "bk_seq (foldl (offer_to e) b ids) = bk_seq b" "bk_registered (foldl (offer_to e) b ids) = bk_registered b"
  "bk_queue_size (foldl (offer_to e) b ids) = bk_queue_size b" "bk_max_sse (foldl (offer_to e) b ids) = bk_max_sse b"
  "bk_max_ws (foldl (offer_to e) b ids) = bk_max_ws b"
  by (induction ids arbitrary: b) auto

lemma closes_simps:
  "map_of (bk_objects (foldl (\<lambda>b sid. on_object sid close_subscription b) b ids)) x =
     (if x \<in> set ids then map_option close_subscription (map_of (bk_objects b) x) else map_of (bk_objects b) x)"
  "bk_seq (foldl (\<lambda>b sid. on_object sid close_subscription b) b ids) = bk_seq b"
  "bk_queue_size (foldl (\<lambda>b sid. on_object sid close_subscription b) b ids) = bk_queue_size b"
  "bk_max_sse (foldl (\<lambda>b sid. on_object sid close_subscription b) b ids) = bk_max_sse b"
  "bk_max_ws (foldl (\<lambda>b sid. on_object sid close_subscription b) b ids) = bk_max_ws b"
proof (induction ids arbitrary: b)
  case (Cons i ids)
  have "close_subscription (close_subscription s) = close_subscription s" for s by (simp add: close_subscription_def)
  then have twice: "map_option close_subscription (map_option close_subscription z) = map_option close_subscription z" for z
    by (cases z) simp_all
  { case 1 with Cons show ?case by (simp add: twice) }
qed (use Cons in simp_all)

lemma given_close: "given (sb_queue (close_subscription s)) = given (sb_queue s)"
  by (simp add: close_subscription_def)

lemma size_close: "within_size b s \<Longrightarrow> within_size b (close_subscription s)"
  by (auto simp: close_subscription_def within_size_def queue_full_def)

lemma event_order_append: "event_order n (xs @ ys) \<longleftrightarrow>
    event_order n xs \<and> event_order n ys \<and> (\<forall>x \<in> set xs. \<forall>y \<in> set ys. le_sequence x < le_sequence y)"
  by (auto simp: event_order_def sorted_wrt_append)

lemma event_order_new: "event_order n xs \<Longrightarrow> le_sequence e = Suc n \<Longrightarrow> event_order (Suc n) (xs @ [e])"
  by (auto simp: event_order_def sorted_wrt_append intro: le_imp_less_Suc le_SucI)

lemma event_order_mono: "event_order m es \<Longrightarrow> m \<le> n \<Longrightarrow> event_order n es"
  by (auto simp: event_order_def)

lemma given_tl: "event_order n (xs @ given q) \<Longrightarrow> event_order n (xs @ given (tl q))"
  by (cases q; cases "hd q") (auto simp: event_order_append event_order_def sorted_wrt_append)

lemma offer_order:
  assumes "event_order n (xs @ given (sb_queue s))" "le_sequence e = Suc n"
  shows "event_order (Suc n) (xs @ given (sb_queue (fst (offer e s))))"
  using event_order_mono [OF assms(1)] event_order_new [OF assms] event_order_new [OF given_tl [OF assms(1)] assms(2)]
  by (simp add: offer_def)

lemma offer_size: "within_size b s \<Longrightarrow> within_size b (fst (offer e s))"
  by (auto simp: offer_def within_size_def queue_full_def)
lemma history_other: "map_of (bk_objects b') sid = map_of (bk_objects b) sid \<Longrightarrow> history_of sid (log, b') = history_of sid (log, b)"
  by (simp add: history_of_def)

lemma event_order_sent: "broker_ok st \<Longrightarrow> event_order (bk_seq (snd st)) (sent_to sid (fst st))"
  by (force simp: broker_ok_def history_of_def event_order_append)

lemma publish_ok:
  assumes "broker_ok (log, b)"
  shows "broker_ok (log, snd (publish_typed now eid ty v b))"
proof -
  obtain e b1 where e: "make_event now eid ty v b = (e, b1)" by fastforce
  then have e1: "le_sequence e = Suc (bk_seq b)" "b1 = b\<lparr>bk_seq := bk_seq b + 1\<rparr>" by (auto simp: make_event_def)
  have d: "distinct (bk_registered b)" using assms by (simp add: broker_ok_def)
  have "event_order (Suc (bk_seq b)) (history_of sid (log, publish_live e b1))" for sid
  proof (cases "map_of (bk_objects b) sid")
    case None
    then show ?thesis using event_order_mono [OF event_order_sent [OF assms, of sid], of "Suc (bk_seq b)"] d
      by (simp add: publish_live_def history_of_def offers_simps e1(2))
  next
    case (Some s)
    have o: "event_order (bk_seq b) (sent_to sid log @ given (sb_queue s))"
      using assms Some by (auto simp: broker_ok_def history_of_def dest: spec [of _ sid])
    from offer_order [OF o e1(1)] event_order_mono [OF o, of "Suc (bk_seq b)"] show ?thesis
      using d Some by (simp add: publish_live_def history_of_def offers_simps e1(2))
  qed
  moreover have "within_size (publish_live e b1) s'" if m: "map_of (bk_objects (publish_live e b1)) sid = Some s'" for sid s'
  proof -
    obtain s where s: "map_of (bk_objects b) sid = Some s" "s' = s \<or> s' = fst (offer e s)"
      using m d by (auto simp: publish_live_def offers_simps e1(2) split: if_splits)
    then have "within_size b s" using assms by (auto simp: broker_ok_def)
    with s(2) offer_size [OF this, of e] show ?thesis
      by (auto simp: publish_live_def within_size_def offers_simps e1(2))
  qed
  ultimately show ?thesis using d e e1(2)
    by (simp add: broker_ok_def publish_typed_def publish_live_def offers_simps)
qed

lemma within_size_cong: "bk_queue_size b' = bk_queue_size b \<Longrightarrow> within_size b' = within_size b"
  by (simp add: within_size_def fun_eq_iff)

text \<open>A change that only shortens the histories and keeps the sizes.\<close>

lemma broker_ok_shrinks:
  assumes "broker_ok (log, b)" "bk_queue_size b' = bk_queue_size b" "bk_seq b \<le> bk_seq b'" "distinct (bk_registered b')"
    and "\<And>sid s'. map_of (bk_objects b') sid = Some s' \<Longrightarrow> within_size b' s' \<and>
      (given (sb_queue s') = [] \<or> (\<exists>s. map_of (bk_objects b) sid = Some s \<and> given (sb_queue s') = given (sb_queue s)))"
  shows "broker_ok (log, b')"
proof -
  have "event_order (bk_seq b') (history_of sid (log, b'))" for sid
  proof -
    note sent = event_order_mono [OF event_order_sent [OF assms(1), of sid], of "bk_seq b'"]
    have all: "event_order (bk_seq b) (history_of sid (log, b))" using assms(1) by (simp add: broker_ok_def)
    show ?thesis
      using sent event_order_mono [OF all assms(3)] assms(3) assms(5) [of sid]
      by (cases "map_of (bk_objects b') sid") (auto simp: history_of_def)
  qed
  with assms show ?thesis by (simp add: broker_ok_def)
qed

definition with_object :: "string \<Rightarrow> subscription \<Rightarrow> broker \<Rightarrow> broker" where
  "with_object sid s b = b\<lparr>bk_objects := AList.update sid s (bk_objects b),
     bk_registered := (if sid \<in> set (bk_registered b) then bk_registered b else bk_registered b @ [sid])\<rparr>"

lemma subscribe_cases:
  "snd (subscribe sid kind flt b) = b \<or>
    (\<exists>s. snd (subscribe sid kind flt b) = with_object sid s b \<and> sb_size s = bk_queue_size b \<and> sb_queue s = [] \<and>
      sb_kind s = kind \<and> \<not> sb_closed s \<and> (kind = ''sse'' \<longrightarrow> active_of ''sse'' b < bk_max_sse b) \<and>
      (kind = ''ws'' \<longrightarrow> active_of ''ws'' b < bk_max_ws b))"
  by (auto simp: subscribe_def with_object_def Let_def)

lemma with_object_ok:
  assumes "broker_ok (log, b)" "sb_size s = bk_queue_size b" "sb_queue s = []"
  shows "broker_ok (log, with_object sid s b)"
proof (rule broker_ok_shrinks [OF assms(1)])
  fix i s' assume m: "map_of (bk_objects (with_object sid s b)) i = Some s'"
  show "within_size (with_object sid s b) s' \<and> (given (sb_queue s') = [] \<or>
      (\<exists>s. map_of (bk_objects b) i = Some s \<and> given (sb_queue s') = given (sb_queue s)))"
  proof (cases "i = sid")
    case True
    with m assms(2,3) show ?thesis by (auto simp: with_object_def update_conv' within_size_def)
  next
    case False
    with m have o: "map_of (bk_objects b) i = Some s'" by (simp add: with_object_def update_conv')
    then have "within_size b s'" using assms(1) by (auto simp: broker_ok_def)
    moreover have "within_size (with_object sid s b) = within_size b" by (rule within_size_cong) (simp add: with_object_def)
    ultimately show ?thesis using o by simp
  qed
qed (use assms(1) in \<open>simp_all add: with_object_def broker_ok_def\<close>)

lemma subscribe_ok: "broker_ok (log, b) \<Longrightarrow> broker_ok (log, snd (subscribe sid kind flt b))"
  using subscribe_cases [of sid kind flt b] with_object_ok by fastforce

lemma closing_ok:
  assumes "broker_ok (log, b)" "bk_queue_size b' = bk_queue_size b" "bk_seq b' = bk_seq b" "distinct (bk_registered b')"
    and "\<And>sid. map_of (bk_objects b') sid = map_of (bk_objects b) sid \<or>
      map_of (bk_objects b') sid = map_option close_subscription (map_of (bk_objects b) sid)"
  shows "broker_ok (log, b')"
proof (rule broker_ok_shrinks [OF assms(1,2) _ assms(4)])
  fix sid s' assume m: "map_of (bk_objects b') sid = Some s'"
  then obtain s where s: "map_of (bk_objects b) sid = Some s" "s' = s \<or> s' = close_subscription s"
    using assms(5) [of sid] by (cases "map_of (bk_objects b) sid") auto
  then have "within_size b s" using assms(1) by (auto simp: broker_ok_def)
  with s size_close [OF this] show "within_size b' s' \<and> (given (sb_queue s') = [] \<or>
      (\<exists>s. map_of (bk_objects b) sid = Some s \<and> given (sb_queue s') = given (sb_queue s)))"
    by (auto simp: given_close within_size_cong [OF assms(2)])
qed (simp add: assms(3))

lemma unsubscribe_ok: "broker_ok (log, b) \<Longrightarrow> broker_ok (log, unsubscribe sid b)"
  by (rule closing_ok, assumption) (auto simp: unsubscribe_def broker_ok_def distinct_removeAll)

lemma close_all_ok: "broker_ok (log, b) \<Longrightarrow> broker_ok (log, close_all b)"
  by (erule closing_ok) (auto simp: close_all_def closes_simps)

lemma taken_ok:
  assumes "broker_ok (log, b)" "map_of (bk_objects b) sid = Some s" "sb_queue s = x # q"
  shows "broker_ok (case x of None \<Rightarrow> log | Some e \<Rightarrow> log @ [(sid, e)], on_object sid (\<lambda>s. s\<lparr>sb_queue := q\<rparr>) b)"
proof -
  have "history_of i (case x of None \<Rightarrow> log | Some e \<Rightarrow> log @ [(sid, e)], on_object sid (\<lambda>s. s\<lparr>sb_queue := q\<rparr>) b) =
      history_of i (log, b)" for i
    using assms(2,3) by (cases x) (auto simp: history_of_def sent_to_def)
  moreover have "within_size (on_object sid (\<lambda>s. s\<lparr>sb_queue := q\<rparr>) b) s'"
    if m: "map_of (bk_objects (on_object sid (\<lambda>s. s\<lparr>sb_queue := q\<rparr>) b)) i = Some s'" for i s'
  proof -
    obtain s0 where s0: "map_of (bk_objects b) i = Some s0" "s' = s0 \<or> i = sid \<and> s' = s0\<lparr>sb_queue := q\<rparr>"
      using m by (auto split: if_splits)
    then have "within_size b s0" using assms(1) by (auto simp: broker_ok_def)
    with s0 assms(2,3) show ?thesis by (auto simp: within_size_def)
  qed
  ultimately show ?thesis using assms(1) by (simp add: broker_ok_def)
qed

lemma stream_ok: "broker_ok (log, b) \<Longrightarrow> broker_ok (record_output sid log (stream_pass sid b))"
  by (auto simp: stream_pass_def record_output_def unsubscribe_ok split: option.split list.split dest: taken_ok)

lemma heartbeat_ok: "broker_ok (log, b) \<Longrightarrow> broker_ok (log, snd (make_event now eid ty v b))"
  by (rule broker_ok_shrinks, assumption)
    (auto simp: make_event_def broker_ok_def within_size_cong [of "b\<lparr>bk_seq := Suc (bk_seq b)\<rparr>" b])

lemma sse_ok: "broker_ok (log, b) \<Longrightarrow> broker_ok (record_output sid log (sse_pass now eid v gone sid b))"
  using heartbeat_ok [of log b now eid Live_HEARTBEAT v]
  by (auto simp: sse_pass_def record_output_def unsubscribe_ok split: option.split list.split prod.split dest: taken_ok)

lemma broker_step_ok: "broker_ok st \<Longrightarrow> broker_ok (broker_step st op)"
  by (cases st; cases op)
    (simp_all add: publish_ok subscribe_ok unsubscribe_ok close_all_ok stream_ok sse_ok)

interpretation live: preserved broker_step broker_ok
  by unfold_locales (rule broker_step_ok)

section \<open>Subscriber limits\<close>

definition within_limits :: "(string \<times> live_event) list \<times> broker \<Rightarrow> bool" where
  "within_limits st \<longleftrightarrow> distinct (bk_registered (snd st)) \<and> active_of ''sse'' (snd st) \<le> bk_max_sse (snd st) \<and>
     active_of ''ws'' (snd st) \<le> bk_max_ws (snd st)"

definition live_as :: "string \<Rightarrow> subscription option \<Rightarrow> bool" where
  "live_as kind x = (case x of None \<Rightarrow> False | Some s \<Rightarrow> sb_kind s = kind \<and> \<not> sb_closed s)"

lemma active_of_eq: "active_of kind b = length (filter (\<lambda>sid. live_as kind (map_of (bk_objects b) sid)) (bk_registered b))"
  by (simp add: active_of_def live_as_def)

lemma active_of_le:
  assumes "bk_registered b' = filter P (bk_registered b)"
    and "\<And>sid. live_as kind (map_of (bk_objects b') sid) \<Longrightarrow> live_as kind (map_of (bk_objects b) sid)"
  shows "active_of kind b' \<le> active_of kind b"
proof -
  have "length (filter p (filter P xs)) \<le> length (filter q xs)" if "\<And>x. p x \<Longrightarrow> q x" for p q :: "string \<Rightarrow> bool" and xs
    using that by (induction xs) (auto intro: le_SucI)
  from this [of "\<lambda>sid. live_as kind (map_of (bk_objects b') sid)"] assms show ?thesis by (simp add: active_of_eq)
qed

text \<open>A step that registers nobody and opens nothing.\<close>

lemma within_limits_shrinks:
  assumes "within_limits (log, b)" "bk_registered b' = filter P (bk_registered b)" "bk_max_sse b' = bk_max_sse b"
    "bk_max_ws b' = bk_max_ws b"
    and "\<And>kind sid. live_as kind (map_of (bk_objects b') sid) \<Longrightarrow> live_as kind (map_of (bk_objects b) sid)"
  shows "within_limits (log', b')"
  using assms active_of_le [OF assms(2), of "''sse''"] active_of_le [OF assms(2), of "''ws''"]
  by (fastforce simp: within_limits_def)

lemma live_as_maps: "live_as kind (map_option g x) \<Longrightarrow>
    (\<And>s. sb_kind (g s) = sb_kind s \<and> (sb_closed s \<longrightarrow> sb_closed (g s))) \<Longrightarrow> live_as kind x"
  by (cases x) (auto simp: live_as_def)

lemma kind_offer: "sb_kind (fst (offer e s)) = sb_kind s \<and> sb_closed (fst (offer e s)) = sb_closed s"
  by (simp add: offer_def)

lemma kind_close: "sb_kind (close_subscription s) = sb_kind s \<and> sb_closed (close_subscription s)"
  by (simp add: close_subscription_def)

lemma on_object_limits:
  assumes "within_limits (log, b)" "\<And>s. sb_kind (g s) = sb_kind s \<and> (sb_closed s \<longrightarrow> sb_closed (g s))"
  shows "within_limits (log', on_object sid g b)"
  using assms(2) live_as_maps
  by (intro within_limits_shrinks [OF assms(1), of _ "\<lambda>_. True"]) (auto split: if_splits)

lemma publish_limits:
  assumes "within_limits (log, b)"
  shows "within_limits (log', snd (publish_typed now eid ty v b))"
proof -
  obtain e b1 where e: "make_event now eid ty v b = (e, b1)" by fastforce
  then have b1: "b1 = b\<lparr>bk_seq := bk_seq b + 1\<rparr>" by (auto simp: make_event_def)
  have d: "distinct (bk_registered b)" using assms by (simp add: within_limits_def)
  have p: "snd (publish_typed now eid ty v b) = foldl (offer_to e) b1 (bk_registered b1)"
    by (simp add: publish_typed_def publish_live_def e)
  show ?thesis unfolding p
    by (rule within_limits_shrinks [OF assms, where P = "\<lambda>_. True"])
      (use d in \<open>auto simp: b1 offers_simps kind_offer split: if_splits dest: live_as_maps\<close>)
qed

lemma count_one_change: "distinct xs \<Longrightarrow> (\<And>i. i \<noteq> sid \<Longrightarrow> p i = q i) \<Longrightarrow>
    length (filter p xs) \<le> length (filter q xs) + (if sid \<in> set xs \<and> p sid then 1 else 0)"
proof (induction xs)
  case (Cons x xs)
  then show ?case by (cases "x = sid") (auto cong: filter_cong)
qed simp

lemma subscribe_limits:
  assumes "within_limits (log, b)"
  shows "within_limits (log, snd (subscribe sid kind flt b))"
proof (cases "snd (subscribe sid kind flt b) = b")
  case False
  then obtain s where s: "snd (subscribe sid kind flt b) = with_object sid s b" "sb_kind s = kind"
    "kind = ''sse'' \<longrightarrow> active_of ''sse'' b < bk_max_sse b" "kind = ''ws'' \<longrightarrow> active_of ''ws'' b < bk_max_ws b"
    using subscribe_cases [of sid kind flt b] by auto
  have d: "distinct (bk_registered b)" using assms by (simp add: within_limits_def)
  have "active_of k (with_object sid s b) \<le> active_of k b + (if k = kind then 1 else 0)" for k
  proof -
    define p where "p i = live_as k (map_of (bk_objects (with_object sid s b)) i)" for i
    have own: "p sid \<Longrightarrow> k = kind" using s(2) by (simp add: p_def with_object_def update_conv' live_as_def)
    have "length (filter p (bk_registered b)) \<le> active_of k b + (if sid \<in> set (bk_registered b) \<and> p sid then 1 else 0)"
      unfolding active_of_eq using d by (rule count_one_change) (simp add: p_def with_object_def update_conv')
    moreover have "active_of k (with_object sid s b) = length (filter p (bk_registered (with_object sid s b)))"
      by (simp add: active_of_eq p_def [abs_def])
    moreover have "bk_registered (with_object sid s b) =
        (if sid \<in> set (bk_registered b) then bk_registered b else bk_registered b @ [sid])"
      by (simp add: with_object_def)
    ultimately show ?thesis using own by (cases "sid \<in> set (bk_registered b)"; cases "p sid") simp_all
  qed
  from this [of "''sse''"] this [of "''ws''"] s assms show ?thesis
    by (auto simp: within_limits_def with_object_def split: if_splits)
qed (use assms in simp)

lemma unsubscribe_limits: "within_limits (log, b) \<Longrightarrow> within_limits (log', unsubscribe sid b)"
  by (erule within_limits_shrinks [where P = "\<lambda>i. i \<noteq> sid \<or> sid \<notin> set (bk_registered b)"])
    (auto simp: unsubscribe_def kind_close removeAll_filter_not_eq filter_id_conv split: if_splits dest: live_as_maps
      intro!: filter_cong)

lemma close_all_limits: "within_limits (log, b) \<Longrightarrow> within_limits (log', close_all b)"
  by (erule within_limits_shrinks [where P = "\<lambda>_. False"])
    (auto simp: close_all_def closes_simps kind_close split: if_splits dest: live_as_maps)

lemma stream_limits: "within_limits (log, b) \<Longrightarrow> within_limits (record_output sid log (stream_pass sid b))"
  by (auto simp: stream_pass_def record_output_def split: option.split list.split
      intro!: unsubscribe_limits on_object_limits)

lemma sse_limits: "within_limits (log, b) \<Longrightarrow> within_limits (record_output sid log (sse_pass now eid v gone sid b))"
  by (auto simp: sse_pass_def record_output_def make_event_def split: option.split list.split
      intro!: unsubscribe_limits on_object_limits elim!: within_limits_shrinks [where P = "\<lambda>_. True"])

lemma broker_step_limits: "within_limits st \<Longrightarrow> within_limits (broker_step st op)"
  by (cases st; cases op)
    (simp_all add: publish_limits subscribe_limits unsubscribe_limits close_all_limits stream_limits sse_limits)

interpretation limits: preserved broker_step within_limits
  by unfold_locales (rule broker_step_limits)

section \<open>What a subscriber asked for\<close>

text \<open>
  Beside a run, for one identifier: the filter of its last accepted request, until it is unsubscribed or everything is closed, and
  the events published while it asked, as far as its filter matches them.
\<close>

type_synonym watch = "event_filter option \<times> live_event list"

definition note_op :: "string \<Rightarrow> broker \<Rightarrow> broker_op \<Rightarrow> watch \<Rightarrow> watch" where
  "note_op sid b op w =
    (case w of (asked, wanted) \<Rightarrow> case op of
       B_publish now eid ty v \<Rightarrow>
         let e = fst (publish_typed now eid ty v b)
         in (asked, wanted @ (case asked of None \<Rightarrow> [] | Some f \<Rightarrow> if filter_matches f e then [e] else []))
     | B_subscribe i kind flt \<Rightarrow>
         if i = sid \<and> \<not> isl (fst (subscribe i kind flt b))
         then (Some (case flt of None \<Rightarrow> accept_all | Some f \<Rightarrow> f), wanted) else w
     | B_unsubscribe i \<Rightarrow> if i = sid then (None, wanted) else w
     | B_close_all \<Rightarrow> (None, wanted)
     | _ \<Rightarrow> w)"

fun watched_step :: "string \<Rightarrow> watch \<times> (string \<times> live_event) list \<times> broker \<Rightarrow> broker_op \<Rightarrow> watch \<times> (string \<times> live_event) list \<times> broker" where
  "watched_step sid (w, st) op = (note_op sid (snd st) op w, broker_step st op)"

text \<open>A registered subscription has the filter that was asked for, and its history is part of what was wanted.\<close>

definition filter_kept :: "string \<Rightarrow> event_filter option \<Rightarrow> broker \<Rightarrow> bool" where
  "filter_kept sid asked b \<longleftrightarrow> (sid \<in> set (bk_registered b) \<longrightarrow> map_option sb_filter (map_of (bk_objects b) sid) = asked \<and> asked \<noteq> None)"

definition watch_ok :: "string \<Rightarrow> watch \<times> (string \<times> live_event) list \<times> broker \<Rightarrow> bool" where
  "watch_ok sid ws \<longleftrightarrow> broker_ok (snd ws) \<and> filter_kept sid (fst (fst ws)) (snd (snd ws)) \<and>
     subseq (history_of sid (snd ws)) (snd (fst ws))"

text \<open>A change that takes nobody in, changes no filter and lengthens no history.\<close>

lemma filter_kept_shrinks:
  assumes "filter_kept sid asked b" "sid \<in> set (bk_registered b') \<Longrightarrow> sid \<in> set (bk_registered b)"
    and "map_option sb_filter (map_of (bk_objects b') sid) = map_option sb_filter (map_of (bk_objects b) sid)"
  shows "filter_kept sid asked b'"
  using assms by (auto simp: filter_kept_def)

lemma filter_close: "sb_filter (close_subscription s) = sb_filter s"
  by (simp add: close_subscription_def)

lemma filter_offer: "sb_filter (fst (offer e s)) = sb_filter s"
  by (simp add: offer_def)

lemma filter_map: "(\<And>s. sb_filter (g s) = sb_filter s) \<Longrightarrow> map_option sb_filter (map_option g x) = map_option sb_filter x"
  by (cases x) simp_all

lemma offer_history:
  assumes "subseq (xs @ given (sb_queue s)) es"
  shows "subseq (xs @ given (sb_queue (fst (offer e s)))) (es @ (if filter_matches (sb_filter s) e then [e] else []))"
proof -
  have grow: "subseq ys es \<Longrightarrow> subseq (ys @ [e]) (es @ [e])" "subseq ys es \<Longrightarrow> subseq ys (es @ zs)" for ys zs
    by (auto intro: list_emb_append_mono list_emb_append2)
  have "subseq (given (tl q)) (given q)" for q :: "live_event option list"
    by (cases q; cases "hd q") auto
  then have "subseq (xs @ given (tl (sb_queue s))) es"
    using assms subseq_order.trans by (meson list_emb_append_mono subseq_order.order_refl)
  with assms grow(1) [of "xs @ given (sb_queue s)"] grow(1) [of "xs @ given (tl (sb_queue s))"] grow(2) show ?thesis
    by (auto simp: offer_def)
qed

lemma history_after_publish:
  assumes "distinct (bk_registered b)" "fst (publish_typed now eid ty v b) = e"
  shows "map_of (bk_objects (snd (publish_typed now eid ty v b))) i =
      (if i \<in> set (bk_registered b) then map_option (\<lambda>s. fst (offer e s)) (map_of (bk_objects b) i) else map_of (bk_objects b) i)"
    "bk_registered (snd (publish_typed now eid ty v b)) = bk_registered b" "le_sequence e = Suc (bk_seq b)"
  using assms by (auto simp: publish_typed_def make_event_def publish_live_def offers_simps)

lemma publish_watched:
  assumes "watch_ok sid ((asked, es), log, b)"
  shows "watch_ok sid (watched_step sid ((asked, es), log, b) (B_publish now eid ty v))"
proof -
  define e where "e = fst (publish_typed now eid ty v b)"
  have ok: "broker_ok (log, b)" "filter_kept sid asked b" "subseq (history_of sid (log, b)) es"
    using assms by (simp_all add: watch_ok_def)
  then have d: "distinct (bk_registered b)" by (simp add: broker_ok_def)
  note after = history_after_publish [OF d, of now eid ty v e, OF e_def [symmetric]]
  have kept: "filter_kept sid asked (snd (publish_typed now eid ty v b))"
    by (rule filter_kept_shrinks [OF ok(2)]) (simp_all add: after filter_map filter_offer)
  have sub: "subseq (history_of sid (log, snd (publish_typed now eid ty v b)))
      (es @ (case asked of None \<Rightarrow> [] | Some f \<Rightarrow> if filter_matches f e then [e] else []))"
  proof (cases "sid \<in> set (bk_registered b)")
    case True
    then obtain s where s: "map_of (bk_objects b) sid = Some s" "asked = Some (sb_filter s)"
      using ok(2) by (auto simp: filter_kept_def)
    from offer_history [of "sent_to sid log" s es e] ok(3) s True show ?thesis
      by (simp add: history_of_def after)
  next
    case False
    then show ?thesis using ok(3) list_emb_prefix by (simp add: history_of_def after)
  qed
  from kept publish_ok [OF ok(1), of now eid ty v] sub [unfolded e_def] show ?thesis
    by (simp add: watch_ok_def note_op_def Let_def)
qed

lemma subscribe_watched:
  assumes "watch_ok sid ((asked, es), log, b)"
  shows "watch_ok sid (watched_step sid ((asked, es), log, b) (B_subscribe i kind flt))"
proof -
  have ok: "broker_ok (log, b)" "filter_kept sid asked b" "subseq (history_of sid (log, b)) es"
    using assms by (simp_all add: watch_ok_def)
  have "subseq (sent_to sid log) es" using ok(3) by (auto simp: history_of_def intro: subseq_order.trans list_emb_append2)
  with ok subscribe_ok [OF ok(1), of i kind flt] show ?thesis
    by (auto simp: watch_ok_def note_op_def subscribe_def Let_def filter_kept_def history_of_def update_conv')
qed

lemma closed_watched:
  assumes "watch_ok sid ((asked, es), log, b)" "broker_ok (log', b')" "history_of sid (log', b') = history_of sid (log, b)"
    "sid \<in> set (bk_registered b') \<Longrightarrow> sid \<in> set (bk_registered b) \<and> asked' = asked"
    "map_option sb_filter (map_of (bk_objects b') sid) = map_option sb_filter (map_of (bk_objects b) sid)"
  shows "watch_ok sid ((asked', es), log', b')"
  using assms by (auto simp: watch_ok_def filter_kept_def)

lemma unsubscribe_parts:
  "history_of sid (log, unsubscribe i b) = history_of sid (log, b)"
  "sid \<in> set (bk_registered (unsubscribe i b)) \<Longrightarrow> sid \<in> set (bk_registered b) \<and> i \<noteq> sid"
  "map_option sb_filter (map_of (bk_objects (unsubscribe i b)) sid) = map_option sb_filter (map_of (bk_objects b) sid)"
  by (auto simp: unsubscribe_def history_of_def given_close filter_map filter_close split: option.split if_splits)

lemma close_all_parts:
  "history_of sid (log, close_all b) = history_of sid (log, b)" "bk_registered (close_all b) = []"
  "map_option sb_filter (map_of (bk_objects (close_all b)) sid) = map_option sb_filter (map_of (bk_objects b) sid)"
  by (auto simp: close_all_def closes_simps history_of_def given_close filter_map filter_close split: option.split)

text \<open>A read moves the head of the queue to the log.\<close>

definition read_parts :: "string \<Rightarrow> (string \<times> live_event) list \<times> broker \<Rightarrow> (string \<times> live_event) list \<times> broker \<Rightarrow> bool" where
  "read_parts sid st st' \<longleftrightarrow> history_of sid st' = history_of sid st \<and>
     (sid \<in> set (bk_registered (snd st')) \<longrightarrow> sid \<in> set (bk_registered (snd st))) \<and>
     map_option sb_filter (map_of (bk_objects (snd st')) sid) = map_option sb_filter (map_of (bk_objects (snd st)) sid)"

lemma read_taken:
  assumes "map_of (bk_objects b) i = Some s"
  shows "sb_queue s = None # q \<Longrightarrow> read_parts sid (log, b) (log, on_object i (\<lambda>s. s\<lparr>sb_queue := q\<rparr>) b)"
    "sb_queue s = Some e # q \<Longrightarrow> read_parts sid (log, b) (log @ [(i, e)], on_object i (\<lambda>s. s\<lparr>sb_queue := q\<rparr>) b)"
  using assms by (auto simp: read_parts_def history_of_def sent_to_def)

lemma read_unsubscribed: "read_parts sid st (log, b) \<Longrightarrow> read_parts sid st (log, unsubscribe i b)"
  using unsubscribe_parts by (auto simp: read_parts_def)

lemma read_keeps_history: "read_parts sid st st"
  by (simp add: read_parts_def)

lemma stream_parts: "read_parts sid (log, b) (record_output i log (stream_pass i b))"
  by (auto simp: stream_pass_def record_output_def read_keeps_history split: option.split list.split
      intro: read_unsubscribed read_taken)

lemma sse_parts: "read_parts sid (log, b) (record_output i log (sse_pass now eid v gone i b))"
proof -
  have "read_parts sid (log, b) (log, snd (make_event now eid Live_HEARTBEAT v b))"
    by (simp add: read_parts_def make_event_def history_of_def)
  then show ?thesis
    by (auto simp: sse_pass_def record_output_def read_keeps_history split: option.split list.split prod.split
        intro: read_unsubscribed read_taken)
qed

lemma read_watched:
  assumes "watch_ok sid ((asked, es), st)" "read_parts sid st st'" "broker_ok st'"
  shows "watch_ok sid ((asked, es), st')"
  using assms closed_watched [of sid asked es "fst st" "snd st" "fst st'" "snd st'" asked] by (auto simp: read_parts_def)

lemma watched_step_ok: "watch_ok sid ws \<Longrightarrow> watch_ok sid (watched_step sid ws op)"
proof -
  assume w: "watch_ok sid ws"
  obtain asked es log b where ws: "ws = ((asked, es), log, b)" by (metis prod.collapse)
  note w = w [unfolded ws]
  then have ok: "broker_ok (log, b)" by (simp add: watch_ok_def)
  show "watch_ok sid (watched_step sid ws op)"
  proof (cases op)
    case (B_unsubscribe i)
    with closed_watched [OF w unsubscribe_ok [OF ok], of i] unsubscribe_parts [where sid = sid and i = i and b = b]
    show ?thesis unfolding ws by (auto simp: note_op_def)
  next
    case B_close_all
    with closed_watched [OF w close_all_ok [OF ok]] close_all_parts show ?thesis
      unfolding ws by (simp add: note_op_def)
  next
    case (B_stream i)
    with read_watched [OF w stream_parts stream_ok [OF ok]] show ?thesis unfolding ws by (simp add: note_op_def)
  next
    case (B_sse now eid v gone i)
    with read_watched [OF w sse_parts sse_ok [OF ok]] show ?thesis unfolding ws by (simp add: note_op_def)
  qed (use publish_watched [OF w] subscribe_watched [OF w] in \<open>simp_all only: ws\<close>)
qed

interpretation watched: preserved "watched_step sid" "watch_ok sid" for sid
  by unfold_locales (rule watched_step_ok)

lemma watched_run: "snd (foldl (watched_step sid) (w, st) ops) = foldl broker_step st ops"
  by (induction ops arbitrary: w st) simp_all

text \<open>Whom a publication reaches.\<close>

definition live_reaches :: "string \<Rightarrow> live_event \<Rightarrow> broker \<Rightarrow> bool" where
  "live_reaches sid e b \<longleftrightarrow> sid \<in> set (bk_registered b) \<and>
    (case map_of (bk_objects b) sid of None \<Rightarrow> False
     | Some s \<Rightarrow> \<not> sb_closed s \<and> filter_matches (sb_filter s) e \<and> (\<not> queue_full s \<or> le_type e \<in> CRITICAL_LIVE_EVENTS))"

lemma publication_reaches:
  assumes "broker_ok (log, b)" "fst (publish_typed now eid ty v b) = e"
  shows "e \<in> set (history_of sid (log, snd (publish_typed now eid ty v b))) \<longleftrightarrow> live_reaches sid e b"
proof -
  have d: "distinct (bk_registered b)" and o: "event_order (bk_seq b) (history_of sid (log, b))"
    using assms(1) by (simp_all add: broker_ok_def)
  note after = history_after_publish [OF d assms(2)]
  have new: "e \<notin> set (history_of sid (log, b))" using o after(3) by (auto simp: event_order_def)
  have part: "e \<notin> set (sent_to sid log)" "map_of (bk_objects b) sid = Some s \<Longrightarrow> e \<notin> set (given (sb_queue s))" for s
    using new by (auto simp: history_of_def)
  have tl: "e \<notin> set (given q) \<Longrightarrow> e \<notin> set (given (tl q))" for q by (cases q; cases "hd q") auto
  show ?thesis
    using new part tl
    by (cases "map_of (bk_objects b) sid") (auto simp: live_reaches_def history_of_def after offer_def)
qed

text \<open>
  C26. A subscriber receives what it asked for, in order: whatever is published, subscribed, read, unsubscribed and closed, the events
  a subscriber is sent and those queued for it form, in this order, a subsequence of the events that were published while it was
  subscribed and match the filter it asked for, with increasing sequence numbers and none twice. The next event
  published reaches it exactly when it is registered, open, its filter matches and its queue has room, or the event is
  critical. No queue outgrows its bound, and there are never more live subscribers than the limits allow.
\<close>

theorem live_events_in_order:
  "case foldl (watched_step sid) ((None, []), [], new_broker max_sse max_ws n) ops of
     ((asked, wanted), log, b) \<Rightarrow>
       subseq (history_of sid (log, b)) wanted \<and> sorted_wrt (<) (map le_sequence (history_of sid (log, b))) \<and>
       (case publish_typed now eid ty v b of (e, b') \<Rightarrow> (e \<in> set (history_of sid (log, b'))) = live_reaches sid e b) \<and>
       active_of ''sse'' b \<le> bk_max_sse b \<and> active_of ''ws'' b \<le> bk_max_ws b \<and>
       (case map_of (bk_objects b) sid of None \<Rightarrow> True
        | Some s \<Rightarrow> bk_queue_size b = 0 \<or> length (sb_queue s) \<le> bk_queue_size b)"
proof -
  let ?i = "([], new_broker max_sse max_ws n)"
  have "broker_ok ?i" "within_limits ?i" "watch_ok sid ((None, []), ?i)"
    by (simp_all add: broker_ok_def within_limits_def new_broker_def history_of_def sent_to_def event_order_def active_of_def
        watch_ok_def filter_kept_def)
  then have ok: "watch_ok sid (foldl (watched_step sid) ((None, []), ?i) ops)" "within_limits (foldl broker_step ?i ops)"
    using watched.run_preserves limits.run_preserves by blast+
  obtain asked wanted log b where st: "foldl (watched_step sid) ((None, []), ?i) ops = ((asked, wanted), log, b)"
    by (metis prod.collapse)
  then have lim: "within_limits (log, b)" using ok(2) watched_run [of sid "(None, [])" ?i ops] by simp
  have w: "broker_ok (log, b)" "subseq (history_of sid (log, b)) wanted" using ok(1) unfolding st by (simp_all add: watch_ok_def)
  have "bk_queue_size b = 0 \<or> length (sb_queue s) \<le> bk_queue_size b" if "map_of (bk_objects b) sid = Some s" for s
  proof -
    have "within_size b s" using w(1) that by (simp add: broker_ok_def)
    then show ?thesis by (auto simp: within_size_def)
  qed
  with w lim publication_reaches [OF w(1) refl, where sid = sid] show ?thesis unfolding st
    by (auto simp: broker_ok_def within_limits_def event_order_def case_prod_unfold split: option.split)
qed

text \<open>
  A critical event reaches everyone it is for: after it is published, it is the newest entry in the queue of each registered
  open subscription whose filter accepts it, also when that queue was full.
\<close>

theorem critical_event_reaches_everyone:
  assumes "ty \<in> CRITICAL_LIVE_EVENTS" "distinct (bk_registered b)" "sid \<in> set (bk_registered b)"
    and "map_of (bk_objects b) sid = Some s" "\<not> sb_closed s"
    and "filter_matches (sb_filter s) (fst (publish_typed now eid ty v b))"
  shows "\<exists>s' q. map_of (bk_objects (snd (publish_typed now eid ty v b))) sid = Some s' \<and>
    sb_queue s' = q @ [Some (fst (publish_typed now eid ty v b))]"
proof -
  obtain e b1 where e: "make_event now eid ty v b = (e, b1)" by fastforce
  then have "le_type e = ty" "bk_registered b1 = bk_registered b" "bk_objects b1 = bk_objects b"
    by (auto simp: make_event_def)
  with assms e show ?thesis
    by (auto simp: publish_typed_def publish_live_def offers_simps offer_def)
qed

definition plain_values :: live_values where
  "plain_values = \<lparr>lw_station = ''st'', lw_environment = ''LAB'', lw_simulated = True, lw_pump = None, lw_transaction = None,
     lw_correlation = None, lw_severity = None, lw_payload = None, lw_state_version = None\<rparr>"

definition one_full :: broker where
  "one_full = snd (publish_typed 0 ''e'' Live_FILLING_UPDATED plain_values (snd (subscribe ''s'' ''sse'' None (new_broker 1 1 1))))"

lemma one_full_objects: "bk_registered one_full = [''s'']"
  "map_of (bk_objects one_full) ''s'' = Some \<lparr>sb_id = ''s'', sb_size = 1,
     sb_queue = [Some (fst (make_event 0 ''e'' Live_FILLING_UPDATED plain_values (new_broker 1 1 1)))],
     sb_filter = accept_all, sb_kind = ''sse'', sb_closed = False, sb_dropped = 0\<rparr>"
  by (simp_all add: one_full_def publish_typed_def publish_live_def make_event_def subscribe_def new_broker_def offer_to_def
      offer_def filter_matches_def accept_all_def matches_def queue_full_def active_of_def Let_def)

theorem critical_event_reaches_everyone_witness:
  "\<exists>s' q. map_of (bk_objects (snd (publish_typed 1 ''f'' Live_TRANSACTION_COMPLETED plain_values one_full))) ''s'' = Some s' \<and>
    sb_queue s' = q @ [Some (fst (publish_typed 1 ''f'' Live_TRANSACTION_COMPLETED plain_values one_full))]"
  by (rule critical_event_reaches_everyone [OF _ _ _ one_full_objects(2)])
    (simp_all add: one_full_objects(1) CRITICAL_LIVE_EVENTS_def filter_matches_def accept_all_def matches_def)

text \<open>The output of the SSE generator over passes at the given instants, while its client stays.\<close>

fun sse_outputs :: "live_values \<Rightarrow> string \<Rightarrow> (int \<times> string) list \<Rightarrow> broker \<Rightarrow> stream_output list" where
  "sse_outputs v sid [] b = []"
| "sse_outputs v sid ((now, eid) # ts) b =
    (case sse_pass now eid v False sid b of (out, b') \<Rightarrow> out # sse_outputs v sid ts b')"

lemma sse_goes_on:
  assumes "map_of (bk_objects b) sid = Some s" "None \<notin> set (sb_queue s)"
  shows "Stream_ends \<notin> set (sse_outputs v sid ts b)"
  using assms
proof (induction ts arbitrary: b s)
  case (Cons t ts)
  obtain now eid where t: "t = (now, eid)" by fastforce
  show ?case
  proof (cases "sb_queue s")
    case Nil
    obtain hb b1 where hb: "make_event now eid Live_HEARTBEAT v b = (hb, b1)" by fastforce
    then have "bk_objects b1 = bk_objects b" by (auto simp: make_event_def)
    with Cons.IH [of b1 s] Cons.prems Nil hb t show ?thesis by (simp add: sse_pass_def)
  next
    case (Cons x q)
    then obtain e where "x = Some e" using \<open>None \<notin> set (sb_queue s)\<close> by (cases x) auto
    with Cons Cons.prems Cons.IH [of "on_object sid (\<lambda>s. s\<lparr>sb_queue := q\<rparr>) b" "s\<lparr>sb_queue := q\<rparr>"] t show ?thesis
      by (simp add: sse_pass_def)
  qed
qed simp

text \<open>
  A full stream is never told to end: closing a subscription whose queue is full leaves no end marker, so after
  \<open>close_all\<close> the generator of the SSE route sends what is queued and then heartbeats, for as long as its client stays.
\<close>

theorem full_stream_never_ends:
  assumes "map_of (bk_objects b) sid = Some s" "queue_full s" "None \<notin> set (sb_queue s)"
  shows "Stream_ends \<notin> set (sse_outputs v sid ts (close_all b))"
  using assms
  by (intro sse_goes_on [of _ _ "if sid \<in> set (bk_registered b) then close_subscription s else s"])
    (simp_all add: close_all_def closes_simps close_subscription_def)

theorem full_stream_never_ends_witness:
  "Stream_ends \<notin> set (sse_outputs plain_values ''s'' [(2, ''g''), (3, ''h'')] (close_all one_full))"
  by (rule full_stream_never_ends [OF one_full_objects(2)]) (simp_all add: queue_full_def)

end
