(* ===== verification/Db_Audit.thy ===== *)
theory Db_Audit
  imports Db_Store "HOL-Library.List_Lexorder" "HOL-Library.Char_ord"
begin

text \<open>
  \<open>persistence/repositories/audit.py\<close>: the audit log as a hash chain. SHA-256 is the parameter \<open>sha\<close> (a text to the text
  of its digest) and \<open>datetime.isoformat\<close> the parameter \<open>isot\<close>; the canonical JSON the hash is taken of is modelled for
  texts of code points below 256.
\<close>

section \<open>Canonical JSON\<close>

definition escaped_char :: "char \<Rightarrow> string" where
  "escaped_char c =
    (if c = CHR 0x22 then [CHR 0x5C, CHR 0x22]
     else if c = CHR 0x5C then [CHR 0x5C, CHR 0x5C]
     else if c = CHR 0x0A then [CHR 0x5C, CHR ''n'']
     else if c = CHR 0x0D then [CHR 0x5C, CHR ''r'']
     else if c = CHR 0x09 then [CHR 0x5C, CHR ''t'']
     else if c = CHR 0x08 then [CHR 0x5C, CHR ''b'']
     else if c = CHR 0x0C then [CHR 0x5C, CHR ''f'']
     else if 32 \<le> (of_char c :: nat) \<and> (of_char c :: nat) \<le> 126 then [c]
     else [CHR 0x5C, CHR ''u'', CHR ''0'', CHR ''0'', hex_digit (of_char c div 16), hex_digit (of_char c mod 16)])"

definition json_string :: "string \<Rightarrow> string" where
  "json_string s = [CHR 0x22] @ concat (map escaped_char s) @ [CHR 0x22]"

fun joined :: "string list \<Rightarrow> string" where
  "joined [] = []"
| "joined [s] = s"
| "joined (s # t # ts) = s @ '','' @ joined (t # ts)"

text \<open>\<open>json.dumps(value, sort_keys=True, separators=(",", ":"))\<close>.\<close>

fun json_text :: "json \<Rightarrow> string" where
  "json_text JNull = ''null''"
| "json_text (JBool b) = (if b then ''true'' else ''false'')"
| "json_text (JInt n) = int_text n"
| "json_text (JFloat t) = t"
| "json_text (JStr s) = json_string s"
| "json_text (JList vs) = ''['' @ joined (map json_text vs) @ '']''"
| "json_text (JObj kvs) =
    ''{'' @ joined (map (\<lambda>(k, t). json_string k @ '':'' @ t) (sort_key fst (map (\<lambda>kv. (fst kv, json_text (snd kv))) kvs))) @ ''}''"

section \<open>The chain\<close>

definition AUDIT_GENESIS_HASH :: string where
  "AUDIT_GENESIS_HASH = ''GENESIS_V1''"

text \<open>The columns the caller of \<open>append\<close> gives.\<close>

record audit_values =
  av_actor :: string
  av_source :: string
  av_action :: string
  av_station :: string
  av_result :: string
  av_correlation_id :: "string option"
  av_pump :: "string option"
  av_previous_state :: "string option"
  av_resulting_state :: "string option"
  av_details :: "json option"

definition audit_payload :: "(int \<Rightarrow> string) \<Rightarrow> audit_row \<Rightarrow> json" where
  "audit_payload isot r = JObj
    [(''id'', JStr (au_id r)), (''correlation_id'', JOpt JStr (au_correlation_id r)), (''actor'', JStr (au_actor r)),
     (''source'', JStr (au_source r)), (''action'', JStr (au_action r)), (''station_id'', JStr (au_station r)),
     (''pump_id'', JOpt JStr (au_pump r)), (''previous_state'', JOpt JStr (au_previous_state r)),
     (''resulting_state'', JOpt JStr (au_resulting_state r)), (''result'', JStr (au_result r)),
     (''details'', JOpt id (au_details r)), (''created_at'', JStr (isot (au_created_at r)))]"

definition compute_record_hash :: "(string \<Rightarrow> string) \<Rightarrow> string \<Rightarrow> json \<Rightarrow> string" where
  "compute_record_hash sha previous_hash payload = sha (previous_hash @ ''|'' @ json_text payload)"

text \<open>\<open>order by created_at desc limit 1\<close>.\<close>

definition latest_hash :: "store \<Rightarrow> string" where
  "latest_hash d = (case sort_desc au_created_at (db_audit d) of [] \<Rightarrow> AUDIT_GENESIS_HASH | r # _ \<Rightarrow> au_record_hash r)"

definition unhashed :: "int \<Rightarrow> string \<Rightarrow> string \<Rightarrow> audit_values \<Rightarrow> audit_row" where
  "unhashed now rid previous_hash v =
    \<lparr>au_id = rid, au_correlation_id = av_correlation_id v, au_actor = av_actor v, au_source = av_source v,
     au_action = av_action v, au_station = av_station v, au_pump = av_pump v, au_previous_state = av_previous_state v,
     au_resulting_state = av_resulting_state v, au_result = av_result v, au_details = av_details v,
     au_created_at = now, au_previous_hash = previous_hash, au_record_hash = []\<rparr>"

definition record_hash_of :: "(string \<Rightarrow> string) \<Rightarrow> (int \<Rightarrow> string) \<Rightarrow> audit_row \<Rightarrow> string" where
  "record_hash_of sha isot r = compute_record_hash sha (au_previous_hash r) (audit_payload isot r)"

definition append_audit :: "(string \<Rightarrow> string) \<Rightarrow> (int \<Rightarrow> string) \<Rightarrow> int \<Rightarrow> audit_values \<Rightarrow> (store, audit_row) action" where
  "append_audit sha isot now v = read_act (\<lambda>d.
    let previous_hash = latest_hash d in
    bind_act draw_uuid (\<lambda>rid.
      let r0 = unhashed now rid previous_hash v; row = r0\<lparr>au_record_hash := record_hash_of sha isot r0\<rparr>
      in then_act (modify_act (\<lambda>d. d\<lparr>db_audit := db_audit d @ [row]\<rparr>)) (then_act flush (return_act row))))"

definition list_audit :: "store \<Rightarrow> audit_row list" where
  "list_audit d = sort_key au_created_at (db_audit d)"

record audit_filter =
  uf_station :: "string option"
  uf_correlation_id :: "string option"
  uf_pump :: "string option"
  uf_action :: "string option"
  uf_result :: "string option"
  uf_created_from :: "int option"
  uf_created_to :: "int option"

definition audit_selected :: "audit_filter \<Rightarrow> audit_row \<Rightarrow> bool" where
  "audit_selected f r \<longleftrightarrow> matches (uf_station f) (\<lambda>v. au_station r = v) \<and>
     matches (uf_correlation_id f) (\<lambda>v. au_correlation_id r = Some v) \<and> matches (uf_pump f) (\<lambda>v. au_pump r = Some v) \<and>
     matches (uf_action f) (\<lambda>v. au_action r = v) \<and> matches (uf_result f) (\<lambda>v. au_result r = v) \<and>
     matches (uf_created_from f) (\<lambda>t. t \<le> au_created_at r) \<and> matches (uf_created_to f) (\<lambda>t. au_created_at r \<le> t)"

definition list_audit_filtered :: "audit_filter \<Rightarrow> nat \<Rightarrow> nat \<Rightarrow> store \<Rightarrow> audit_row list \<times> nat" where
  "list_audit_filtered f offset limit d =
    (let rows = filter (audit_selected f) (db_audit d)
     in (page offset limit (sort_desc au_created_at rows), length rows))"

datatype chain_reason = Previous_hash_mismatch | Record_hash_mismatch

record chain_report =
  cr_valid :: bool
  cr_checked :: nat
  cr_first_invalid :: "string option"
  cr_reason :: "chain_reason option"

fun verify_from :: "(string \<Rightarrow> string) \<Rightarrow> (int \<Rightarrow> string) \<Rightarrow> string \<Rightarrow> nat \<Rightarrow> audit_row list \<Rightarrow> chain_report" where
  "verify_from sha isot expected_prev idx [] =
    \<lparr>cr_valid = True, cr_checked = idx, cr_first_invalid = None, cr_reason = None\<rparr>"
| "verify_from sha isot expected_prev idx (r # rs) =
    (if au_previous_hash r \<noteq> expected_prev
     then \<lparr>cr_valid = False, cr_checked = idx, cr_first_invalid = Some (au_id r), cr_reason = Some Previous_hash_mismatch\<rparr>
     else if record_hash_of sha isot r \<noteq> au_record_hash r
     then \<lparr>cr_valid = False, cr_checked = idx, cr_first_invalid = Some (au_id r), cr_reason = Some Record_hash_mismatch\<rparr>
     else verify_from sha isot (au_record_hash r) (idx + 1) rs)"

definition verify_chain_report :: "(string \<Rightarrow> string) \<Rightarrow> (int \<Rightarrow> string) \<Rightarrow> store \<Rightarrow> chain_report" where
  "verify_chain_report sha isot d = verify_from sha isot AUDIT_GENESIS_HASH 0 (list_audit d)"

text \<open>\<open>verify_chain\<close> raises where the report says invalid.\<close>

fun verify_all :: "(string \<Rightarrow> string) \<Rightarrow> (int \<Rightarrow> string) \<Rightarrow> string \<Rightarrow> audit_row list \<Rightarrow> unit result" where
  "verify_all sha isot expected_prev [] = Inr ()"
| "verify_all sha isot expected_prev (r # rs) =
    (if au_previous_hash r \<noteq> expected_prev then Inl AuditChainError
     else if record_hash_of sha isot r \<noteq> au_record_hash r then Inl AuditChainError
     else verify_all sha isot (au_record_hash r) rs)"

definition verify_chain :: "(string \<Rightarrow> string) \<Rightarrow> (int \<Rightarrow> string) \<Rightarrow> store \<Rightarrow> unit result" where
  "verify_chain sha isot d = verify_all sha isot AUDIT_GENESIS_HASH (list_audit d)"

lemma commits_audit [commit_intros]: "commits (append_audit sha isot now v)"
  unfolding append_audit_def Let_def by (intro commit_intros)

section \<open>An untouched log verifies\<close>

lemma verify_from_append:
  "cr_valid (verify_from sha isot h n rs) \<Longrightarrow>
    verify_from sha isot h n (rs @ [r]) =
      verify_from sha isot (if rs = [] then h else au_record_hash (last rs)) (n + length rs) [r]"
  by (induction rs arbitrary: h n) (auto split: if_splits)

lemma verify_from_agrees:
  "verify_all sha isot h rs = (if cr_valid (verify_from sha isot h n rs) then Inr () else Inl AuditChainError)"
proof (induction rs arbitrary: h n)
  case (Cons r rs)
  show ?case using Cons [of "au_record_hash r" "n + 1"] by simp
qed simp

lemma verify_from_valid: "cr_valid (verify_from sha isot h n rs) \<Longrightarrow> verify_from sha isot h n rs =
    \<lparr>cr_valid = True, cr_checked = n + length rs, cr_first_invalid = None, cr_reason = None\<rparr>"
proof (induction rs arbitrary: h n)
  case (Cons r rs)
  then have "au_previous_hash r = h" "record_hash_of sha isot r = au_record_hash r"
    "cr_valid (verify_from sha isot (au_record_hash r) (n + 1) rs)" by (simp_all split: if_splits)
  with Cons.IH [OF this(3)] show ?case by simp
qed simp

text \<open>A log in the order of its instants, the last entry the latest.\<close>

definition well_kept :: "(string \<Rightarrow> string) \<Rightarrow> (int \<Rightarrow> string) \<Rightarrow> store \<Rightarrow> bool" where
  "well_kept sha isot d \<longleftrightarrow> sorted_wrt (<) (map au_created_at (db_audit d)) \<and>
     cr_valid (verify_from sha isot AUDIT_GENESIS_HASH 0 (db_audit d))"

lemma strict_sorted_sort_key: "sorted_wrt (<) (map f xs) \<Longrightarrow> sort_key f xs = xs"
  by (rule sort_key_id_if_sorted) (simp add: strict_sorted_iff)

lemma sort_desc_hd:
  assumes "sorted_wrt (<) (map f xs)" "xs \<noteq> []"
  shows "hd (sort_desc f xs) = last xs \<and> sort_desc f xs \<noteq> []"
proof -
  have ne: "sort_desc f xs \<noteq> []" using assms(2) set_sort_desc(1) [of f xs] by (metis set_empty)
  have inset: "hd (sort_desc f xs) \<in> set xs" using ne set_sort_desc(1) [of f xs] by (metis hd_in_set)
  have "sorted (map (\<lambda>r. - f r) (sort_desc f xs))" by (simp add: sort_desc_def)
  moreover have "last xs \<in> set (sort_desc f xs)" using assms(2) by simp
  ultimately have "- f (hd (sort_desc f xs)) \<le> - f (last xs)"
    using ne by (cases "sort_desc f xs") auto
  moreover have "f x \<le> f (last xs)" if "x \<in> set xs" for x
    using assms(1) that by (induction xs) (auto intro: less_imp_le)
  ultimately have "f (hd (sort_desc f xs)) = f (last xs)" using inset by force
  moreover have "inj_on f (set xs)" using assms(1) by (simp add: strict_sorted_iff distinct_map)
  ultimately show ?thesis using ne inset assms(2) by (simp add: inj_on_def)
qed

lemma latest_hash_last:
  "well_kept sha isot d \<Longrightarrow> latest_hash d = (if db_audit d = [] then AUDIT_GENESIS_HASH else au_record_hash (last (db_audit d)))"
  using sort_desc_hd [of au_created_at "db_audit d"]
  by (cases "sort_desc au_created_at (db_audit d)") (auto simp: latest_hash_def well_kept_def sort_desc_def)

text \<open>The later of two appends comes later.\<close>

fun append_all :: "(string \<Rightarrow> string) \<Rightarrow> (int \<Rightarrow> string) \<Rightarrow> (int \<times> audit_values) list \<Rightarrow> store \<Rightarrow> store" where
  "append_all sha isot [] d = d"
| "append_all sha isot ((now, v) # es) d = append_all sha isot es (snd (unit_of_work (append_audit sha isot now v) d))"

lemma append_row: "record_hash_of sha isot (r\<lparr>au_record_hash := h\<rparr>) = record_hash_of sha isot r"
  by (simp add: record_hash_of_def audit_payload_def)

lemma append_keeps:
  fixes v :: audit_values
  assumes "well_kept sha isot d" "\<forall>r \<in> set (db_audit d). au_created_at r < now"
  defines "d' \<equiv> snd (unit_of_work (append_audit sha isot now v) d)"
  shows "well_kept sha isot d' \<and> (\<forall>r \<in> set (db_audit d'). au_created_at r \<le> now)"
proof -
  let ?r0 = "unhashed now (db_supply d (db_drawn d)) (latest_hash d) v"
  let ?row = "?r0\<lparr>au_record_hash := record_hash_of sha isot ?r0\<rparr>"
  have "au_created_at ?r0 = now" "au_previous_hash ?r0 = latest_hash d" by (simp_all add: unhashed_def)
  then have r: "au_created_at ?row = now" "au_previous_hash ?row = latest_hash d"
    "record_hash_of sha isot ?row = au_record_hash ?row"
    by (simp_all add: append_row)
  have sorted: "sorted_wrt (<) (map au_created_at (db_audit d @ [?row]))"
    using assms(1,2) r(1) by (auto simp: well_kept_def strict_sorted_iff sorted_append)
  have valid: "cr_valid (verify_from sha isot AUDIT_GENESIS_HASH 0 (db_audit d @ [?row]))"
    using assms(1) r latest_hash_last [OF assms(1)] by (simp add: well_kept_def verify_from_append)
  have "db_audit d' = db_audit d @ [?row] \<or> db_audit d' = db_audit d"
    by (auto simp: d'_def unit_of_work_def append_audit_def bind_act_def draw_uuid_def Let_def flush_def)
  then show ?thesis
  proof
    assume d': "db_audit d' = db_audit d @ [?row]"
    show ?thesis using sorted valid assms(2) r(1) unfolding well_kept_def d' by auto
  next
    assume d': "db_audit d' = db_audit d"
    show ?thesis using assms(1,2) unfolding well_kept_def d' by auto
  qed
qed

lemma append_all_keeps:
  "well_kept sha isot d \<Longrightarrow> sorted_wrt (<) (map fst es) \<Longrightarrow>
    \<forall>r \<in> set (db_audit d). \<forall>e \<in> set es. au_created_at r < fst e \<Longrightarrow> well_kept sha isot (append_all sha isot es d)"
proof (induction es arbitrary: d)
  case (Cons e es)
  obtain now v where e: "e = (now, v)" by fastforce
  let ?d = "snd (unit_of_work (append_audit sha isot now v) d)"
  have k: "well_kept sha isot ?d \<and> (\<forall>r \<in> set (db_audit ?d). au_created_at r \<le> now)"
    using Cons.prems e by (intro append_keeps) auto
  have "\<forall>x \<in> set es. now < fst x" using Cons.prems(2) e by (auto simp: sorted_wrt.simps)
  with k have "\<forall>r \<in> set (db_audit ?d). \<forall>x \<in> set es. au_created_at r < fst x" by fastforce
  with Cons.IH [of ?d] k Cons.prems(2) e show ?case by (simp add: sorted_wrt.simps)
qed simp

text \<open>With identifiers that never repeat no append fails, and the log has a record of each, in their order.\<close>

definition row_of_append :: "int \<times> audit_values \<Rightarrow> audit_row \<Rightarrow> bool" where
  "row_of_append e r \<longleftrightarrow> r = (unhashed (fst e) (au_id r) (au_previous_hash r) (snd e))\<lparr>au_record_hash := au_record_hash r\<rparr>"

definition fresh_ids :: "(nat \<Rightarrow> string) \<Rightarrow> store \<Rightarrow> bool" where
  "fresh_ids supply d \<longleftrightarrow> schema_ok d \<and> db_supply d = supply \<and> (\<forall>r \<in> set (db_audit d). \<exists>n < db_drawn d. au_id r = supply n)"

lemma append_adds_row:
  fixes v :: audit_values and sha isot and now :: int
  assumes "inj supply" "fresh_ids supply d"
  defines "d' \<equiv> snd (unit_of_work (append_audit sha isot now v) d)"
  shows "fresh_ids supply d' \<and> (\<exists>row. db_audit d' = db_audit d @ [row] \<and> row_of_append (now, v) row)"
proof -
  let ?r0 = "unhashed now (supply (db_drawn d)) (latest_hash d) v"
  let ?row = "?r0\<lparr>au_record_hash := record_hash_of sha isot ?r0\<rparr>"
  let ?e = "d\<lparr>db_drawn := db_drawn d + 1, db_audit := db_audit d @ [?row]\<rparr>"
  have id: "au_id ?row = supply (db_drawn d)" by (simp add: unhashed_def)
  have new: "supply (db_drawn d) \<noteq> au_id r" if "r \<in> set (db_audit d)" for r
    using assms(1,2) that by (force simp: fresh_ids_def inj_eq)
  with id have "distinct (map au_id (db_audit ?e))" using assms(2) by (auto simp: fresh_ids_def schema_defs)
  then have ok: "schema_ok ?e" using assms(2) by (simp add: fresh_ids_def schema_defs pump_exists_def [abs_def])
  have "unit_of_work (append_audit sha isot now v) d = (Inr ?row, ?e)"
    using ok assms(2) by (simp add: unit_of_work_def append_audit_def bind_act_def draw_uuid_def Let_def flush_def fresh_ids_def
        del: schema_ok_drawn)
  then have d': "d' = ?e" by (simp add: d'_def)
  have "row_of_append (now, v) ?row" by (simp add: row_of_append_def unhashed_def)
  moreover have "fresh_ids supply ?e"
    using ok assms(2) id by (auto simp: fresh_ids_def intro: less_SucI)
  ultimately show ?thesis unfolding d' by auto
qed

lemma append_all_records:
  assumes "inj supply" "fresh_ids supply d"
  shows "\<exists>rows. db_audit (append_all sha isot es d) = db_audit d @ rows \<and> list_all2 row_of_append es rows"
  using assms(2)
proof (induction es arbitrary: d)
  case (Cons e es)
  obtain now v where e: "e = (now, v)" by fastforce
  from append_adds_row [OF assms(1) Cons.prems, of sha isot now v] obtain row where
    row: "fresh_ids supply (snd (unit_of_work (append_audit sha isot now v) d))"
    "db_audit (snd (unit_of_work (append_audit sha isot now v) d)) = db_audit d @ [row]" "row_of_append (now, v) row" by blast
  from Cons.IH [OF row(1)] row(2) obtain rows where
    "db_audit (append_all sha isot (e # es) d) = db_audit d @ row # rows" "list_all2 row_of_append es rows" by (auto simp: e)
  with row(3) show ?case by (intro exI [of _ "row # rows"]) (simp add: e)
qed simp

text \<open>
  C30. A log that was only ever appended to, at increasing instants, verifies and is complete: for every hash function the report is
  valid and has checked as many records as were appended, \<open>verify_chain\<close> does not raise, and the log lists each
  append in its order, with the instant and the columns it was given.
\<close>

theorem appended_log_verifies:
  assumes "sorted_wrt (<) (map fst es)" "inj supply"
  shows "verify_chain_report sha isot (append_all sha isot es (empty_store supply)) =
      \<lparr>cr_valid = True, cr_checked = length es, cr_first_invalid = None, cr_reason = None\<rparr> \<and>
    verify_chain sha isot (append_all sha isot es (empty_store supply)) = Inr () \<and>
    list_all2 row_of_append es (list_audit (append_all sha isot es (empty_store supply)))"
proof -
  let ?d = "append_all sha isot es (empty_store supply)"
  have "well_kept sha isot (empty_store supply)" by (simp add: well_kept_def empty_store_def)
  then have k: "well_kept sha isot ?d"
    using assms(1) by (rule append_all_keeps) (simp add: empty_store_def)
  have "fresh_ids supply (empty_store supply)" by (simp add: fresh_ids_def empty_store_def schema_defs)
  from append_all_records [OF assms(2) this, of sha isot es] have r: "list_all2 row_of_append es (db_audit ?d)"
    by (simp add: empty_store_def)
  have "list_audit ?d = db_audit ?d" using k by (simp add: list_audit_def well_kept_def strict_sorted_sort_key)
  with k r list_all2_lengthD [OF r] show ?thesis
    by (simp add: verify_chain_report_def verify_chain_def well_kept_def verify_from_valid verify_from_agrees [where n = 0])
qed

definition sample_audit :: "string \<Rightarrow> audit_values" where
  "sample_audit action = \<lparr>av_actor = ''controller'', av_source = ''transport'', av_action = action, av_station = ''st'',
     av_result = ''OK'', av_correlation_id = None, av_pump = None, av_previous_state = None, av_resulting_state = None,
     av_details = None\<rparr>"

lemma nat_text_supply: "inj nat_text"
  by (rule injI) (rule nat_text_inj)

theorem appended_log_verifies_witness:
  "verify_chain_report rev int_text (append_all rev int_text [(1, sample_audit ''A''), (2, sample_audit ''B'')] (empty_store nat_text)) =
      \<lparr>cr_valid = True, cr_checked = length [(1::int, sample_audit ''A''), (2, sample_audit ''B'')], cr_first_invalid = None,
       cr_reason = None\<rparr> \<and>
    verify_chain rev int_text (append_all rev int_text [(1, sample_audit ''A''), (2, sample_audit ''B'')] (empty_store nat_text)) =
      Inr () \<and>
    list_all2 row_of_append [(1, sample_audit ''A''), (2, sample_audit ''B'')]
      (list_audit (append_all rev int_text [(1, sample_audit ''A''), (2, sample_audit ''B'')] (empty_store nat_text)))"
  by (rule appended_log_verifies) (simp_all add: nat_text_supply)

section \<open>Where a log breaks\<close>

lemma verify_from_prefix:
  "cr_valid (verify_from sha isot h n (xs @ ys)) \<Longrightarrow>
    cr_valid (verify_from sha isot h n xs) \<and>
    cr_valid (verify_from sha isot (if xs = [] then h else au_record_hash (last xs)) (n + length xs) ys) \<and>
    verify_from sha isot h n (xs @ zs) =
      verify_from sha isot (if xs = [] then h else au_record_hash (last xs)) (n + length xs) zs"
proof (induction xs arbitrary: h n)
  case (Cons r rs)
  then have r: "au_previous_hash r = h" "record_hash_of sha isot r = au_record_hash r"
    "cr_valid (verify_from sha isot (au_record_hash r) (n + 1) (rs @ ys))" by (simp_all split: if_split_asm)
  from Cons.IH [OF r(3)] r(1,2) show ?case by (cases "rs = []") simp_all
qed simp

definition broken_at :: "nat \<Rightarrow> audit_row \<Rightarrow> chain_reason \<Rightarrow> chain_report" where
  "broken_at n r why = \<lparr>cr_valid = False, cr_checked = n, cr_first_invalid = Some (au_id r), cr_reason = Some why\<rparr>"

text \<open>
  The chain trusts the wall clock: when the clock is set back between two appends, the log no longer verifies although
  nobody touched it, for \<open>append\<close> and verification order the records by their instants.
\<close>

theorem audit_breaks_on_clock_step:
  assumes "\<And>x. length (sha x) = 64" "t' < t" "supply 0 \<noteq> supply 1"
  shows "verify_chain_report sha isot (append_all sha isot [(t, v), (t', v')] (empty_store supply)) =
    \<lparr>cr_valid = False, cr_checked = 0, cr_first_invalid = Some (supply 1), cr_reason = Some Previous_hash_mismatch\<rparr>"
proof -
  have "sha x \<noteq> ''GENESIS_V1''" for x using assms(1) [of x] by auto
  with assms(2,3) show ?thesis
    by (simp add: verify_chain_report_def list_audit_def empty_store_def unit_of_work_def append_audit_def bind_act_def
        draw_uuid_def Let_def flush_def schema_defs unhashed_def latest_hash_def sort_desc_def AUDIT_GENESIS_HASH_def
        compute_record_hash_def record_hash_of_def del: json_text.simps)
qed

theorem audit_breaks_on_clock_step_witness:
  "verify_chain_report (\<lambda>x. replicate 64 CHR ''0'') int_text
      (append_all (\<lambda>x. replicate 64 CHR ''0'') int_text [(5, sample_audit ''A''), (4, sample_audit ''B'')] (empty_store nat_text)) =
    \<lparr>cr_valid = False, cr_checked = 0, cr_first_invalid = Some (nat_text 1), cr_reason = Some Previous_hash_mismatch\<rparr>"
  by (rule audit_breaks_on_clock_step) (simp_all add: nat_text.simps hex_digit_def)

end
