(* ===== verification/Ctl_Text.thy ===== *)
theory Ctl_Text
  imports Ctl_Session Db_Store
begin

text \<open>
  The texts of controller events: the values of the enumerations, the detail strings that
  \<open>controller/pump_session.py\<close> and \<open>controller/controller_loop.py\<close> build, and the payloads as the dictionaries they are in
  the source. Whoever stores or forwards an event needs them.
\<close>

section \<open>Values of enumerations\<close>

fun control_type_value :: "control_type \<Rightarrow> string" where
  "control_type_value CtPOLL = ''POLL''"
| "control_type_value CtDATA = ''DATA''"
| "control_type_value CtIAP = ''IAP''"
| "control_type_value CtNAK = ''NAK''"
| "control_type_value CtEOT = ''EOT''"
| "control_type_value CtACK = ''ACK''"
| "control_type_value CtACKPOLL = ''ACKPOLL''"
| "control_type_value CtUNKNOWN = ''UNKNOWN''"

fun transaction_type_value :: "transaction_type \<Rightarrow> string" where
  "transaction_type_value CD1_COMMAND = ''CD1_COMMAND''"
| "transaction_type_value CD2_ALLOWED_NOZZLES = ''CD2_ALLOWED_NOZZLES''"
| "transaction_type_value CD3_PRESET_VOLUME = ''CD3_PRESET_VOLUME''"
| "transaction_type_value CD4_PRESET_AMOUNT = ''CD4_PRESET_AMOUNT''"
| "transaction_type_value CD5_PRICE_UPDATE = ''CD5_PRICE_UPDATE''"
| "transaction_type_value CD14_SUSPEND = ''CD14_SUSPEND''"
| "transaction_type_value CD15_RESUME = ''CD15_RESUME''"
| "transaction_type_value CD101_REQUEST_TOTALS = ''CD101_REQUEST_TOTALS''"
| "transaction_type_value DC1_PUMP_STATUS = ''DC1_PUMP_STATUS''"
| "transaction_type_value DC2_FILLED_VOLUME_AMOUNT = ''DC2_FILLED_VOLUME_AMOUNT''"
| "transaction_type_value DC3_NOZZLE_STATUS_PRICE = ''DC3_NOZZLE_STATUS_PRICE''"
| "transaction_type_value DC5_ALARM = ''DC5_ALARM''"
| "transaction_type_value DC7_PUMP_PARAMETERS = ''DC7_PUMP_PARAMETERS''"
| "transaction_type_value DC9_PUMP_IDENTITY = ''DC9_PUMP_IDENTITY''"
| "transaction_type_value DC101_TOTAL_COUNTERS = ''DC101_TOTAL_COUNTERS''"
| "transaction_type_value DC102_IFSF_STANDALONE = ''DC102_IFSF_STANDALONE''"
| "transaction_type_value DC103_PUMP_UNIT_PRICES = ''DC103_PUMP_UNIT_PRICES''"
| "transaction_type_value Transaction_UNKNOWN = ''UNKNOWN''"
| "transaction_type_value AMBIGUOUS_CD1_OR_DC1 = ''AMBIGUOUS_CD1_OR_DC1''"

fun direction_value :: "message_direction \<Rightarrow> string" where
  "direction_value MASTER_TO_SLAVE = ''MASTER_TO_SLAVE''"
| "direction_value SLAVE_TO_MASTER = ''SLAVE_TO_MASTER''"
| "direction_value Direction_UNKNOWN = ''UNKNOWN''"

fun decode_status_value :: "decode_status \<Rightarrow> string" where
  "decode_status_value DECODED = ''DECODED''"
| "decode_status_value PARTIAL = ''PARTIAL''"
| "decode_status_value Status_UNKNOWN = ''UNKNOWN''"
| "decode_status_value MALFORMED = ''MALFORMED''"

fun assembler_kind_value :: "assembler_event_kind \<Rightarrow> string" where
  "assembler_kind_value AeFRAME = ''FRAME''"
| "assembler_kind_value AeREJECTED = ''REJECTED''"
| "assembler_kind_value AeOVERFLOW = ''OVERFLOW''"
| "assembler_kind_value AeNOISE = ''NOISE''"

fun pump_event_value :: "pump_event \<Rightarrow> string" where
  "pump_event_value COMMUNICATION_STARTED = ''COMMUNICATION_STARTED''"
| "pump_event_value COMMUNICATION_LOST = ''COMMUNICATION_LOST''"
| "pump_event_value PUMP_DISCOVERED = ''PUMP_DISCOVERED''"
| "pump_event_value CONFIGURATION_MISSING = ''CONFIGURATION_MISSING''"
| "pump_event_value RESET_OBSERVED = ''RESET_OBSERVED''"
| "pump_event_value READY_OBSERVED = ''READY_OBSERVED''"
| "pump_event_value NOZZLE_LIFTED = ''NOZZLE_LIFTED''"
| "pump_event_value NOZZLE_RETURNED = ''NOZZLE_RETURNED''"
| "pump_event_value AUTHORIZATION_CONFIRMED = ''AUTHORIZATION_CONFIRMED''"
| "pump_event_value FILLING_STARTED = ''FILLING_STARTED''"
| "pump_event_value FILLING_UPDATED = ''FILLING_UPDATED''"
| "pump_event_value FILLING_COMPLETED = ''FILLING_COMPLETED''"
| "pump_event_value Limit_reached_event = ''LIMIT_REACHED''"
| "pump_event_value SUSPENDED_OBSERVED = ''SUSPENDED_OBSERVED''"
| "pump_event_value RESUMED_OBSERVED = ''RESUMED_OBSERVED''"
| "pump_event_value FAULT_OBSERVED = ''FAULT_OBSERVED''"
| "pump_event_value FAULT_CLEARED = ''FAULT_CLEARED''"
| "pump_event_value MAINTENANCE_ENTERED = ''MAINTENANCE_ENTERED''"
| "pump_event_value MAINTENANCE_EXITED = ''MAINTENANCE_EXITED''"
| "pump_event_value UNKNOWN_OBSERVATION = ''UNKNOWN_OBSERVATION''"

fun controller_event_value :: "controller_event_type \<Rightarrow> string" where
  "controller_event_value FRAME_SENT = ''FRAME_SENT''"
| "controller_event_value FRAME_RECEIVED = ''FRAME_RECEIVED''"
| "controller_event_value FRAME_REJECTED = ''FRAME_REJECTED''"
| "controller_event_value POLL_SENT = ''POLL_SENT''"
| "controller_event_value DATA_RECEIVED = ''DATA_RECEIVED''"
| "controller_event_value EOT_RECEIVED = ''EOT_RECEIVED''"
| "controller_event_value ACK_SENT = ''ACK_SENT''"
| "controller_event_value NAK_RECEIVED = ''NAK_RECEIVED''"
| "controller_event_value RESPONSE_TIMEOUT = ''RESPONSE_TIMEOUT''"
| "controller_event_value PUMP_CONNECTED = ''PUMP_CONNECTED''"
| "controller_event_value PUMP_DISCONNECTED = ''PUMP_DISCONNECTED''"
| "controller_event_value STATE_CHANGED = ''STATE_CHANGED''"
| "controller_event_value APPLICATION_TRANSACTION_DECODED = ''APPLICATION_TRANSACTION_DECODED''"

section \<open>Details and payloads\<close>

fun detail_text :: "event_detail \<Rightarrow> string" where
  "detail_text Empty_detail = ''''"
| "detail_text (Consecutive_detail n) = ''consecutive='' @ nat_text n"
| "detail_text (Control_detail ty) = control_type_value ty"
| "detail_text (Sequence_detail k) = ''seq='' @ int_text k"
| "detail_text Invalid_crc_detail = ''invalid_crc''"
| "detail_text Duplicate_detail = ''duplicate''"
| "detail_text (Sequence_mismatch_detail expected got) =
    ''seq_mismatch expected='' @ int_text expected @ '' got='' @ int_text got"
| "detail_text (Transaction_detail ty) = transaction_type_value ty"
| "detail_text (State_change_detail before after) = pump_state_value before @ ''->'' @ pump_state_value after"
| "detail_text (Note_detail t) = t"
| "detail_text (Assembler_detail k) = assembler_kind_value k"

fun payload_fields :: "event_payload \<Rightarrow> (string \<times> json) list" where
  "payload_fields No_payload = []"
| "payload_fields (Raw_hex_payload t) = [(''raw_hex'', JStr t)]"
| "payload_fields (Decoded_payload u) =
    [(''decode_status'', JStr (decode_status_value (du_status u))), (''direction'', JStr (direction_value (du_direction u))),
     (''transaction_type'', JStr (transaction_type_value (du_type u))), (''transaction_id'', JInt (du_id u)),
     (''source_frame_ref'', JOpt JStr (du_source u)), (''raw_volume'', JOpt JInt (du_raw_volume u)),
     (''volume_decimals'', JOpt JInt (du_volume_decimals u)), (''raw_amount'', JOpt JInt (du_raw_amount u)),
     (''amount_decimals'', JOpt JInt (du_amount_decimals u)), (''raw_price'', JOpt JInt (du_raw_price u)),
     (''price_decimals'', JOpt JInt (du_price_decimals u))]"
| "payload_fields (State_payload y) =
    [(''event'', JStr (pump_event_value (sy_event y))), (''previous_state'', JStr (pump_state_value (sy_previous y))),
     (''normalized_state'', JStr (pump_state_value (sy_state y))), (''state_version'', JInt (int (sy_version y))),
     (''selected_nozzle'', JOpt JInt (sy_nozzle y)), (''active_transaction_id'', JOpt JStr (sy_transaction y)),
     (''communication_healthy'', JBool (sy_healthy y)), (''raw_wayne_status'', JOpt JInt (sy_raw_status y)),
     (''source_frame_ref'', JOpt JStr (sy_source y)), (''completion_evidence_key'', JOpt JStr (sy_completion_key y))]"

text \<open>What \<open>payload.get\<close> finds for the fields that subscribers read.\<close>

fun payload_source :: "event_payload \<Rightarrow> string option" where
  "payload_source (Decoded_payload u) = du_source u"
| "payload_source (State_payload y) = sy_source y"
| "payload_source _ = None"

definition payload_state :: "event_payload \<Rightarrow> state_summary option" where
  "payload_state p = (case p of State_payload y \<Rightarrow> Some y | _ \<Rightarrow> None)"

definition payload_decoded :: "event_payload \<Rightarrow> decoded_summary option" where
  "payload_decoded p = (case p of Decoded_payload u \<Rightarrow> Some u | _ \<Rightarrow> None)"

text \<open>\<open>text.split("->")[-1]\<close>.\<close>

fun last_piece :: "string \<Rightarrow> string \<Rightarrow> string" where
  "last_piece acc [] = acc"
| "last_piece acc [c] = acc @ [c]"
| "last_piece acc (c # d # cs) =
    (if c = CHR ''-'' \<and> d = CHR ''>'' then last_piece [] cs else last_piece (acc @ [c]) (d # cs))"

lemma transaction_type_texts:
  "contains_text ''COMPLETE'' (upper (transaction_type_value ty)) = False"
  "contains_text ''DC2'' (upper (transaction_type_value ty)) \<longleftrightarrow> ty = DC2_FILLED_VOLUME_AMOUNT"
  by (cases ty; simp add: upper_def upper_char_def)+

text \<open>The state at the end of the detail of a state change is the state.\<close>

lemma last_piece_state_change:
  "last_piece [] (detail_text (State_change_detail before after)) = pump_state_value after"
  by (cases before; cases after; simp)

end
