(* ===== verification/Svc_Bridge.thy ===== *)
theory Svc_Bridge
  imports Svc_Worker Svc_Sales Live_Broker Db_Audit Ctl_Text
begin

text \<open>
  \<open>services/persistence_bridge.py\<close>: controller events become live events at once and, through the worker's queue, durable
  writes. A job is the handler with its payload; a handler runs as one unit of work, whose failure undoes its writes
  but neither the bridge's own map from addresses to sales nor the live events it has sent. SHA-256 and
  \<open>isoformat\<close> are the parameters \<open>sha\<close> and \<open>isot\<close>; the clock is read once per call.
\<close>

section \<open>State\<close>

record bridge =
  br_station :: string
  br_environment :: string
  br_simulated :: bool
  br_pump_ids :: "(int \<times> string) list"
  br_logical :: "(int \<times> string) list"
  br_tx :: "(int \<times> string) list"
  br_services :: services
  br_live :: "broker option"

datatype bridge_job =
    Job_state_changed "int option" event_detail event_payload
  | Job_app_decoded "int option" event_payload bool
  | Job_comm "int option" controller_event_type
  | Job_protocol_error "int option" event_detail
  | Job_rejected_command string int pump_command string "string list" bool

definition new_bridge ::
  "string \<Rightarrow> string \<Rightarrow> bool \<Rightarrow> (int \<times> string) list \<Rightarrow> (int \<times> string) list \<Rightarrow> broker option \<Rightarrow> fill_book option \<Rightarrow> store \<Rightarrow> bridge" where
  "new_bridge station environment simulated ids logical live book d = \<lparr>br_station = station, br_environment = environment,
     br_simulated = simulated, br_pump_ids = ids, br_logical = logical, br_tx = [],
     br_services = \<lparr>sv_store = d, sv_book = book\<rparr>, br_live = live\<rparr>"

definition in_services :: "(services, 'a) action \<Rightarrow> (bridge, 'a) action" where
  "in_services m b = (case m (br_services b) of (r, s) \<Rightarrow> (r, b\<lparr>br_services := s\<rparr>))"

definition in_db :: "(store, 'a) action \<Rightarrow> (bridge, 'a) action" where
  "in_db m = in_services (in_store m)"

definition rows_of :: "(store \<Rightarrow> 'a) \<Rightarrow> (bridge, 'a) action" where
  "rows_of f b = (Inr (f (sv_store (br_services b))), b)"

definition bridge_unit :: "(bridge, 'a) action \<Rightarrow> (bridge, 'a) action" where
  "bridge_unit m b =
    (case m b of
       (Inl e, b') \<Rightarrow> (Inl e, b'\<lparr>br_services := (br_services b')\<lparr>sv_store :=
          (sv_store (br_services b))\<lparr>db_drawn := db_drawn (sv_store (br_services b'))\<rparr>\<rparr>\<rparr>)
     | (Inr x, b') \<Rightarrow> (Inr x, b'))"

definition logical_of :: "bridge \<Rightarrow> int \<Rightarrow> string" where
  "logical_of b a = (case map_of (br_logical b) a of None \<Rightarrow> ''pump-'' @ int_text a | Some l \<Rightarrow> l)"

text \<open>\<open>get(address)\<close>, when it is true.\<close>

definition found_text :: "(int \<times> string) list \<Rightarrow> int \<Rightarrow> string option" where
  "found_text m a = (case map_of m a of None \<Rightarrow> None | Some t \<Rightarrow> if t = [] then None else Some t)"

definition nonempty :: "string option \<Rightarrow> string option" where
  "nonempty t = (if truthy_string t then t else None)"

section \<open>Live events\<close>

text \<open>\<open>publish_typed\<close> on the broker, when there is one.\<close>

definition publish_now ::
  "int \<Rightarrow> live_event_type \<Rightarrow> string option \<Rightarrow> string option \<Rightarrow> string option \<Rightarrow> json option \<Rightarrow> int option \<Rightarrow> (bridge, unit) action" where
  "publish_now now ty pump tx severity payload version = read_act (\<lambda>b.
    case br_live b of
      None \<Rightarrow> return_act ()
    | Some k \<Rightarrow>
        bind_act (in_db draw_uuid) (\<lambda>eid.
          modify_act (\<lambda>b. b\<lparr>br_live := Some (snd (publish_typed now eid ty
            \<lparr>lw_station = br_station b, lw_environment = br_environment b, lw_simulated = br_simulated b, lw_pump = pump,
             lw_transaction = tx, lw_correlation = None, lw_severity = severity, lw_payload = payload,
             lw_state_version = version\<rparr> k))\<rparr>)))"

fun live_type_of_state :: "pump_state \<Rightarrow> live_event_type" where
  "live_type_of_state NOZZLE_UP = Live_NOZZLE_LIFTED"
| "live_type_of_state AUTHORIZED = Live_AUTHORIZATION_CONFIRMED"
| "live_type_of_state FILLING = Live_FILLING_STARTED"
| "live_type_of_state FILLING_COMPLETE = Live_FILLING_COMPLETED"
| "live_type_of_state LIMIT_REACHED = Live_FILLING_COMPLETED"
| "live_type_of_state _ = Live_PUMP_STATE_CHANGED"

definition live_type_of :: "controller_event \<Rightarrow> live_event_type option" where
  "live_type_of e =
    (if ce_type e = PUMP_CONNECTED then Some Live_PUMP_CONNECTED
     else if ce_type e = PUMP_DISCONNECTED then Some Live_PUMP_DISCONNECTED
     else if ce_type e = FRAME_REJECTED then Some Live_PROTOCOL_ERROR
     else if ce_type e = STATE_CHANGED
     then Some (case payload_state (ce_payload e) of None \<Rightarrow> Live_PUMP_STATE_CHANGED | Some y \<Rightarrow> live_type_of_state (sy_state y))
     else None)"

definition publish_event_live :: "int \<Rightarrow> controller_event \<Rightarrow> (bridge, unit) action" where
  "publish_event_live now e = read_act (\<lambda>b.
    case live_type_of e of
      None \<Rightarrow> return_act ()
    | Some ty \<Rightarrow>
        publish_now now ty (map_option (logical_of b) (ce_address e)) (Option.bind (ce_address e) (map_of (br_tx b)))
          (if ty = Live_PROTOCOL_ERROR then Some ''WARNING'' else None)
          (Some (JObj ((''detail'', JStr (detail_text (ce_detail e))) # payload_fields (ce_payload e))))
          (map_option (\<lambda>y. int (sy_version y)) (payload_state (ce_payload e))))"

section \<open>Submission\<close>

definition job_of_event :: "controller_event \<Rightarrow> (bridge_job \<times> persist_priority) option" where
  "job_of_event e =
    (if ce_type e = STATE_CHANGED
     then Some (Job_state_changed (ce_address e) (ce_detail e) (ce_payload e), Priority_NORMAL)
     else if ce_type e = APPLICATION_TRANSACTION_DECODED
     then let shout = upper (detail_text (ce_detail e))
       in Some (Job_app_decoded (ce_address e) (ce_payload e)
              (contains_text ''DC2'' shout \<or> detail_text (ce_detail e) = ''DC2_FILLED_VOLUME_AMOUNT''),
            if contains_text ''COMPLETE'' shout then Priority_CRITICAL else Priority_NORMAL)
     else if ce_type e \<in> {PUMP_CONNECTED, PUMP_DISCONNECTED} then Some (Job_comm (ce_address e) (ce_type e), Priority_NORMAL)
     else if ce_type e = FRAME_REJECTED then Some (Job_protocol_error (ce_address e) (ce_detail e), Priority_NORMAL)
     else None)"

text \<open>The bridge and its worker; the subscriber of the event bus is an action on both.\<close>

type_synonym bridge_state = "bridge \<times> bridge_job worker"

definition submit_to_worker :: "persist_priority \<Rightarrow> bridge_job \<Rightarrow> (bridge_state, unit) action" where
  "submit_to_worker p j bw = (case bw of (b, w) \<Rightarrow> (case submit_job p j w of (r, w') \<Rightarrow> (r, (b, w'))))"

definition on_event :: "int \<Rightarrow> controller_event \<Rightarrow> (bridge_state, unit) action" where
  "on_event now e bw =
    (case publish_event_live now e (fst bw) of
       (Inl err, b') \<Rightarrow> (Inl err, (b', snd bw))
     | (Inr u, b') \<Rightarrow>
         (case job_of_event e of
            None \<Rightarrow> (Inr (), (b', snd bw))
          | Some (j, p) \<Rightarrow> submit_to_worker p j (b', snd bw)))"

definition enqueue_rejected_command ::
  "int \<Rightarrow> pump_command \<Rightarrow> string \<Rightarrow> string list \<Rightarrow> bool \<Rightarrow> string option \<Rightarrow> (bridge_state, unit) action" where
  "enqueue_rejected_command address command current_state reasons simulator_only correlation_id bw =
    (case (if truthy_string correlation_id then (Inr (the correlation_id), fst bw) else in_db draw_uuid (fst bw)) of
       (Inl err, b') \<Rightarrow> (Inl err, (b', snd bw))
     | (Inr cid, b') \<Rightarrow>
         submit_to_worker Priority_CRITICAL
           (Job_rejected_command cid address command current_state reasons simulator_only) (b', snd bw))"

section \<open>Handlers\<close>

definition handle_rejected_command ::
  "(string \<Rightarrow> string) \<Rightarrow> (int \<Rightarrow> string) \<Rightarrow> int \<Rightarrow> string \<Rightarrow> int \<Rightarrow> pump_command \<Rightarrow> string \<Rightarrow> string list \<Rightarrow> bool \<Rightarrow> (bridge, unit) action" where
  "handle_rejected_command sha isot now cid address command current_state reasons simulator_only =
    bridge_unit (read_act (\<lambda>b.
      let pump = map_of (br_pump_ids b) address; blocking = JObj [(''blocking_reasons'', JList (map JStr reasons))] in
      bind_act (in_db (create_command ((new_command cid (br_station b) pump (pump_command_value command) ''REJECTED''
          ''NON_IDEMPOTENT'' simulator_only now)
          \<lparr>cm_completed_at := Some now, cm_request := Some (JObj [(''address'', JInt address)]), cm_result := Some blocking,
           cm_blocking := Some reasons\<rparr>))) (\<lambda>_.
      bind_act (in_db (append_audit sha isot now
          \<lparr>av_actor = ''controller'', av_source = ''safety'', av_action = ''COMMAND_REJECTED:'' @ pump_command_value command,
           av_station = br_station b, av_result = ''REJECTED'', av_correlation_id = Some cid, av_pump = pump,
           av_previous_state = Some current_state, av_resulting_state = Some current_state, av_details = Some blocking\<rparr>))
        (\<lambda>_. return_act ()))))"

text \<open>A sale begins: its identifier is the reported one, the one the address already has, or a new one.\<close>

definition remember_sale :: "int \<Rightarrow> string \<Rightarrow> (bridge, unit) action" where
  "remember_sale a u = modify_act (\<lambda>b. b\<lparr>br_tx := AList.update a u (br_tx b)\<rparr>)"

definition sale_of :: "int \<Rightarrow> string option \<Rightarrow> bridge \<Rightarrow> string option" where
  "sale_of a active b = or_else (nonempty active) (found_text (br_tx b) a)"

definition begin_request_of :: "bridge \<Rightarrow> string \<Rightarrow> string \<Rightarrow> int option \<Rightarrow> begin_request" where
  "begin_request_of b pump u nozzle = \<lparr>bq_station = br_station b, bq_pump = pump, bq_uuid = u, bq_nozzle = nozzle,
     bq_raw_price = None, bq_price_decimals = None, bq_volume_decimals = None, bq_amount_decimals = None,
     bq_simulated = br_simulated b, bq_environment = br_environment b, bq_started_at = None\<rparr>"

definition open_sale :: "int \<Rightarrow> int \<Rightarrow> string \<Rightarrow> string option \<Rightarrow> int option \<Rightarrow> (bridge, unit) action" where
  "open_sale now a pump active nozzle = read_act (\<lambda>b.
    bind_act (case sale_of a active b of Some u \<Rightarrow> return_act u | None \<Rightarrow> in_db draw_uuid) (\<lambda>u.
      then_act (remember_sale a u)
      (bind_act (in_services (begin_sale now (begin_request_of b pump u nozzle))) (\<lambda>_.
        publish_now now Live_TRANSACTION_CREATED (Some (logical_of b a)) (Some u) None None None))))"

definition complete_request_of :: "string \<Rightarrow> string \<Rightarrow> string option \<Rightarrow> complete_request" where
  "complete_request_of u key source =
    \<lparr>cq_uuid = u, cq_key = key, cq_volume = 0, cq_amount = 0, cq_source = source, cq_completed_at = None\<rparr>"

definition close_sale ::
  "(int \<Rightarrow> string) \<Rightarrow> int \<Rightarrow> int \<Rightarrow> pump_state \<Rightarrow> string option \<Rightarrow> string option \<Rightarrow> string option \<Rightarrow> (bridge, unit) action" where
  "close_sale isot now a st active completion source = read_act (\<lambda>b.
    case sale_of a active b of
      None \<Rightarrow> return_act ()
    | Some u \<Rightarrow>
        let key = (case nonempty completion of Some k \<Rightarrow> k | None \<Rightarrow> ''complete:'' @ u @ '':'' @ pump_state_value st) in
        bind_act (in_services (complete_sale isot now (complete_request_of u key source))) (\<lambda>(r, newly).
          then_act (remember_sale a u)
            (if newly then publish_now now Live_TRANSACTION_COMPLETED (Some (logical_of b a)) (Some u) None
               (Some (JObj [(''source_completion_key'', JStr key)])) None
             else return_act ())))"

definition record_state ::
  "(int \<Rightarrow> string) \<Rightarrow> int \<Rightarrow> int \<Rightarrow> string \<Rightarrow> pump_state \<Rightarrow> event_payload \<Rightarrow> (bridge, unit) action" where
  "record_state isot now a pump st payload =
    bridge_unit (read_act (\<lambda>b.
      bind_act (rows_of (latest_snapshot pump)) (\<lambda>latest.
      let y = payload_state payload;
          reported = (case y of None \<Rightarrow> 0 | Some y \<Rightarrow> int (sy_version y));
          version = (if reported \<le> 0 then (case latest of None \<Rightarrow> 1 | Some r \<Rightarrow> sn_version r + 1) else reported);
          prev = map_option sy_previous y;
          active = nonempty (Option.bind y sy_transaction);
          nozzle = Option.bind y sy_nozzle;
          source = payload_source payload;
          ctx = (new_context (logical_of b a) a)\<lparr>pc_current_state := st, pc_previous_state := prev, pc_selected_nozzle := nozzle,
            pc_active_transaction := active, pc_communication_healthy := (case y of None \<Rightarrow> True | Some y \<Rightarrow> sy_healthy y),
            pc_last_raw_status := Option.bind y sy_raw_status, pc_state_version := nat version,
            pc_last_source_hex := source\<rparr>
      in bind_act (in_db (persist_context now pump ctx source (Some now) True)) (\<lambda>_.
         then_act (if st = FILLING \<and> prev \<noteq> Some FILLING then open_sale now a pump active nozzle else return_act ())
           (if st \<in> {FILLING_COMPLETE, LIMIT_REACHED}
            then close_sale isot now a st active (Option.bind y sy_completion_key) source else return_act ())))))"

definition reported_state :: "event_detail \<Rightarrow> event_payload \<Rightarrow> pump_state option" where
  "reported_state detail payload = pump_state_of_value
    (case payload_state payload of Some y \<Rightarrow> pump_state_value (sy_state y) | None \<Rightarrow> last_piece [] (detail_text detail))"

definition handle_state_changed ::
  "(int \<Rightarrow> string) \<Rightarrow> int \<Rightarrow> int option \<Rightarrow> event_detail \<Rightarrow> event_payload \<Rightarrow> (bridge, unit) action" where
  "handle_state_changed isot now address detail payload = read_act (\<lambda>b.
    case Option.bind address (found_text (br_pump_ids b)) of
      None \<Rightarrow> return_act ()
    | Some pump \<Rightarrow>
        (case reported_state detail payload of
           None \<Rightarrow> return_act ()
         | Some st \<Rightarrow> record_state isot now (the address) pump st payload))"

definition fill_request_of :: "string \<Rightarrow> decoded_summary \<Rightarrow> int \<Rightarrow> int \<Rightarrow> filling_request" where
  "fill_request_of u s volume amount = \<lparr>fq_uuid = u, fq_volume = volume, fq_amount = amount, fq_price = du_raw_price s,
     fq_event_key = Some (''fill:'' @ u @ '':'' @ int_text volume @ '':'' @ int_text amount), fq_source = du_source s\<rparr>"

definition handle_app_decoded :: "int \<Rightarrow> int option \<Rightarrow> event_payload \<Rightarrow> bool \<Rightarrow> (bridge, unit) action" where
  "handle_app_decoded now address payload is_dc2 = read_act (\<lambda>b.
    case (if is_dc2 then Option.bind address (found_text (br_tx b)) else None, payload_decoded payload) of
      (Some u, Some s) \<Rightarrow>
        (case (du_raw_volume s, du_raw_amount s) of
           (Some volume, Some amount) \<Rightarrow>
             bridge_unit (bind_act (in_services (update_sale now (fill_request_of u s volume amount))) (\<lambda>_.
               publish_now now Live_FILLING_UPDATED (map_of (br_logical b) (the address)) (Some u) None
                 (Some (JObj [(''raw_volume'', JInt volume), (''raw_amount'', JInt amount)])) None))
         | _ \<Rightarrow> return_act ())
    | _ \<Rightarrow> return_act ())"

definition handle_comm ::
  "(string \<Rightarrow> string) \<Rightarrow> (int \<Rightarrow> string) \<Rightarrow> int \<Rightarrow> int option \<Rightarrow> controller_event_type \<Rightarrow> (bridge, unit) action" where
  "handle_comm sha isot now address ty = bridge_unit (read_act (\<lambda>b.
    let pump = Option.bind address (map_of (br_pump_ids b)) in
    bind_act (in_db (append_audit sha isot now
        \<lparr>av_actor = ''controller'', av_source = ''transport'', av_action = controller_event_value ty, av_station = br_station b,
         av_result = ''OK'', av_correlation_id = None, av_pump = pump, av_previous_state = None, av_resulting_state = None,
         av_details = Some (JObj [(''address'', JOpt JInt address), (''environment'', JStr (br_environment b))])\<rparr>)) (\<lambda>_.
      if truthy_string pump
      then bind_act (rows_of (latest_snapshot (the pump))) (\<lambda>latest.
        bind_act (case latest of
            None \<Rightarrow> return_act DISCONNECTED
          | Some r \<Rightarrow> (case pump_state_of_value (sn_state r) of None \<Rightarrow> result_act (Inl ValueError) | Some s \<Rightarrow> return_act s)) (\<lambda>st.
        bind_act (in_db (persist_context now (the pump)
            ((new_context (logical_of b (the address)) (the address))\<lparr>pc_current_state := st,
               pc_communication_healthy := (ty = PUMP_CONNECTED),
               pc_state_version := (case latest of None \<Rightarrow> 1 | Some r \<Rightarrow> nat (sn_version r + 1))\<rparr>)
            None (Some now) True)) (\<lambda>_. return_act ())))
      else return_act ())))"

definition handle_protocol_error :: "int \<Rightarrow> int option \<Rightarrow> event_detail \<Rightarrow> (bridge, unit) action" where
  "handle_protocol_error now address detail = bridge_unit (read_act (\<lambda>b.
    let text = detail_text detail in
    bind_act (in_db (upsert_alarm now (br_station b) (Option.bind address (map_of (br_pump_ids b))) ''WARNING'' ''PROTOCOL_ERROR''
        (if text = [] then ''frame rejected'' else text)
        (''proto:'' @ (case address of None \<Rightarrow> ''None'' | Some a \<Rightarrow> int_text a) @ '':'' @ text))) (\<lambda>alarm.
    bind_act (in_db (enqueue_sync now (sync_entry ''alarm'' (al_id alarm) ''ALARM_ACTIVE''
        (JObj [(''alarm_id'', JStr (al_id alarm)), (''station_id'', JStr (br_station b)),
               (''environment'', JStr (br_environment b)), (''simulated'', JBool (br_simulated b)),
               (''alarm_type'', JStr (al_type alarm))])
        (''alarm:'' @ al_source_key alarm @ '':active'')) None)) (\<lambda>_. return_act ()))))"

fun run_job :: "(string \<Rightarrow> string) \<Rightarrow> (int \<Rightarrow> string) \<Rightarrow> int \<Rightarrow> bridge_job \<Rightarrow> (bridge, unit) action" where
  "run_job sha isot now (Job_state_changed address detail payload) = handle_state_changed isot now address detail payload"
| "run_job sha isot now (Job_app_decoded address payload is_dc2) = handle_app_decoded now address payload is_dc2"
| "run_job sha isot now (Job_comm address ty) = handle_comm sha isot now address ty"
| "run_job sha isot now (Job_protocol_error address detail) = handle_protocol_error now address detail"
| "run_job sha isot now (Job_rejected_command cid address command current_state reasons simulator_only) =
    handle_rejected_command sha isot now cid address command current_state reasons simulator_only"

section \<open>Which sales there are\<close>

text \<open>The stored sales are among those of \<open>U\<close>, and identifiers come from the supply \<open>f\<close>.\<close>

definition sales_within :: "string set \<Rightarrow> (nat \<Rightarrow> string) \<Rightarrow> store \<Rightarrow> bool" where
  "sales_within U f d \<longleftrightarrow> tx_uuid ` set (store.db_transactions d) \<subseteq> U \<and> db_supply d = f"

lemma keeps_flush: "keeps P flush" "keeps P flush_unique"
  by (simp_all add: keeps_def flush_def flush_unique_def)

lemma keeps_draw: "keeps (sales_within U f) draw_uuid"
  by (simp add: keeps_def draw_uuid_def sales_within_def)

lemma keeps_draw_bind:
  "(\<And>n. keeps (sales_within U f) (m (f n))) \<Longrightarrow> keeps (sales_within U f) (bind_act draw_uuid m)"
  by (rule keeps_bind_value [OF keeps_draw]) (auto simp: draw_uuid_def sales_within_def)

lemmas keeps_stored = keeps_flush keeps_draw keeps_return keeps_result keeps_bind keeps_then keeps_read_each keeps_if
  keeps_case_option keeps_modify

lemma keeps_repos [keeps_intros]:
  "keeps (sales_within U f) (insert_if_meaningful now pump v)"
  "keeps (sales_within U f) (create_command row)"
  "keeps (sales_within U f) (upsert_alarm now station alarm_pump severity atype message source)"
  "keeps (sales_within U f) (enqueue_sync now entry available)"
  "keeps (sales_within U f) (append_audit sha isot now a)"
  unfolding insert_if_meaningful_def create_command_def upsert_alarm_def enqueue_sync_def append_audit_def Let_def
  by (intro keeps_stored; simp add: sales_within_def)+

lemma keeps_event [keeps_intros]: "keeps (sales_within U f) (add_transaction_event now tid etype key payload source available)"
  unfolding add_transaction_event_def Let_def
  by (intro keeps_stored; simp add: sales_within_def keeps_def flush_def)

lemma keeps_create: "tv_uuid v \<in> U \<Longrightarrow> keeps (sales_within U f) (create_transaction now v)"
  unfolding create_transaction_def Let_def
  by (intro keeps_stored) (auto simp: sales_within_def transaction_of_def)

lemma sales_within_write: "sales_within U f d \<Longrightarrow> tx_uuid row \<in> U \<Longrightarrow> sales_within U f (write_transaction row d)"
  by (auto simp: sales_within_def write_transaction_def update_where_def)

lemma found_within: "sales_within U f d \<Longrightarrow> get_by_uuid u d = Some r \<Longrightarrow> tx_uuid r \<in> U"
  by (auto simp: sales_within_def get_by_uuid_def find_Some_iff image_subset_iff)

lemma keeps_ledger [keeps_intros]:
  "keeps (sales_within U f) (update_filling_row now u volume amount price)"
  "keeps (sales_within U f) (complete_once now u key volume amount available)"
  unfolding keeps_def update_filling_row_def complete_once_def
  by (auto simp: flush_def flush_unique_def Let_def filled_def completed_def dest: found_within split: option.split
      intro!: sales_within_write)

lemma keeps_persist [keeps_intros]: "keeps (sales_within U f) (persist_context now pump ctx source available also)"
  unfolding persist_context_def by (intro keeps_stored keeps_repos)

text \<open>The same of the services.\<close>

abbreviation services_within :: "string set \<Rightarrow> (nat \<Rightarrow> string) \<Rightarrow> services \<Rightarrow> bool" where
  "services_within U f s \<equiv> sales_within U f (sv_store s)"

lemma keeps_in_store: "keeps (sales_within U f) m \<Longrightarrow> keeps (services_within U f) (in_store m)"
  by (simp add: keeps_def in_store_def case_prod_unfold)

lemma keeps_look: "keeps P (look g)"
  by (simp add: keeps_def look_def)

lemma keeps_decide: "keeps (services_within U f) (decide u volume amount fin now)"
  by (auto simp: keeps_def decide_def split: option.split prod.split)

lemma keeps_begin: "bq_uuid q \<in> U \<Longrightarrow> keeps (services_within U f) (begin_sale now q)"
  unfolding begin_sale_def
  by (intro keeps_stored keeps_look keeps_in_store keeps_create keeps_event keeps_repos) (simp add: begin_values_def)

lemma keeps_update: "keeps (services_within U f) (update_sale now q)"
  unfolding update_sale_def
  by (intro keeps_stored keeps_look keeps_in_store keeps_decide keeps_event keeps_repos keeps_ledger)

lemma keeps_complete_sale: "keeps (services_within U f) (complete_sale isot now q)"
  unfolding complete_sale_def announce_completion_def case_prod_unfold
  by (intro keeps_stored keeps_look keeps_in_store keeps_decide keeps_event keeps_repos keeps_ledger)

text \<open>
  The sales of a bridge are those its map knows. \<open>V\<close> collects sales that must stay known; the configured addresses
  are \<open>P\<close>.
\<close>

definition known_sales :: "bridge \<Rightarrow> string set" where
  "known_sales b = ran (map_of (br_tx b))"

definition tracked :: "(int \<times> string) list \<Rightarrow> string set \<Rightarrow> bridge \<Rightarrow> bool" where
  "tracked P V b \<longleftrightarrow> br_pump_ids b = P \<and> V \<subseteq> known_sales b \<and> [] \<notin> known_sales b \<and>
     dom (map_of (br_tx b)) \<subseteq> dom (map_of P) \<and>
     (\<exists>f. (\<forall>n. f n \<noteq> []) \<and> sales_within (known_sales b) f (sv_store (br_services b)))"

lemma in_services_tracked:
  assumes "tracked P V b"
    and "\<And>f. services_within (known_sales b) f (br_services b) \<Longrightarrow>
      services_within (known_sales b) f (snd (m (br_services b)))"
  shows "tracked P V (snd (in_services m b))"
proof -
  obtain f where "\<forall>n. f n \<noteq> []" "services_within (known_sales b) f (br_services b)" using assms(1) by (auto simp: tracked_def)
  with assms(2) [of f] assms(1) show ?thesis
    by (auto simp: tracked_def in_services_def known_sales_def split: prod.split)
qed

lemma keeps_in_services: "(\<And>U f. keeps (services_within U f) m) \<Longrightarrow> keeps (tracked P V) (in_services m)"
  unfolding keeps_def by (intro allI impI in_services_tracked) blast+

lemma keeps_in_db: "(\<And>U f. keeps (sales_within U f) m) \<Longrightarrow> keeps (tracked P V) (in_db m)"
  unfolding in_db_def by (intro keeps_in_services keeps_in_store)

lemma keeps_publish_now: "keeps (tracked P V) (publish_now now ty pump tx severity payload version)"
  unfolding publish_now_def
  by (intro keeps_read_each keeps_case_option keeps_return keeps_bind keeps_in_db keeps_draw keeps_modify)
    (simp add: tracked_def known_sales_def)

lemma keeps_rows_of: "keeps P (rows_of g)"
  by (simp add: keeps_def rows_of_def)

lemma keeps_bridge_unit:
  assumes "\<And>V. keeps (tracked P V) m"
  shows "keeps (tracked P V) (bridge_unit m)"
  unfolding keeps_def
proof (intro allI impI)
  fix b assume t: "tracked P V b"
  obtain r b' where m: "m b = (r, b')" by fastforce
  have "tracked P (known_sales b) b" using t by (auto simp: tracked_def)
  from keepsD [OF assms this] have grown: "tracked P (known_sales b) b'" by (simp add: m)
  from keepsD [OF assms t] have same: "tracked P V b'" by (simp add: m)
  from t obtain f where "\<forall>n. f n \<noteq> []" "sales_within (known_sales b) f (sv_store (br_services b))" by (auto simp: tracked_def)
  then have "\<exists>f. (\<forall>n. f n \<noteq> []) \<and> sales_within (known_sales b') f ((sv_store (br_services b))\<lparr>db_drawn := k\<rparr>)" for k
    using grown by (fastforce simp: tracked_def sales_within_def)
  with same m show "tracked P V (snd (bridge_unit m b))"
    by (cases r) (auto simp: bridge_unit_def tracked_def known_sales_def)
qed

lemma sale_of_known: "tracked P V b \<Longrightarrow> \<not> truthy_string active \<Longrightarrow> sale_of a active b = map_of (br_tx b) a"
  by (auto simp: sale_of_def nonempty_def found_text_def tracked_def known_sales_def ran_def split: option.split)

lemma remember_tracked:
  assumes "tracked P V b" "map_of (br_tx b) a = None \<or> map_of (br_tx b) a = Some u" "u \<noteq> []" "a \<in> dom (map_of P)"
  shows "tracked P (insert u V) (b\<lparr>br_tx := AList.update a u (br_tx b)\<rparr>)"
proof -
  have "ran (map_of (AList.update a u (br_tx b))) = insert u (ran (map_of (br_tx b)))"
    using assms(2) by (auto simp: update_conv' ran_map_upd fun_upd_idem intro: ranI)
  with assms show ?thesis
    by (auto simp: tracked_def known_sales_def update_conv' sales_within_def)
qed

lemma tracked_weaken: "tracked P (insert u V) b \<Longrightarrow> tracked P V b"
  by (auto simp: tracked_def)

lemma keeps_in_services_begin:
  assumes "bq_uuid q \<in> V"
  shows "keeps (tracked P V) (in_services (begin_sale now q))"
  unfolding keeps_def
proof (intro allI impI)
  fix b assume t: "tracked P V b"
  then have "bq_uuid q \<in> known_sales b" using assms by (auto simp: tracked_def)
  with t show "tracked P V (snd (in_services (begin_sale now q) b))"
    by (intro in_services_tracked keepsD [OF keeps_begin])
qed

lemma keeps_open_sale:
  assumes "\<not> truthy_string active" "a \<in> dom (map_of P)"
  shows "keeps (tracked P V) (open_sale now a pump active nozzle)"
  unfolding keeps_def
proof (intro allI impI)
  fix b assume t: "tracked P V b"
  have rest: "tracked P V (snd (then_act (remember_sale a u)
      (bind_act (in_services (begin_sale now (begin_request_of b pump u nozzle))) (\<lambda>_.
        publish_now now Live_TRANSACTION_CREATED (Some (logical_of b a)) (Some u) None None None)) b1))"
    if "tracked P V b1" "map_of (br_tx b1) a = None \<or> map_of (br_tx b1) a = Some u" "u \<noteq> []" for u b1
  proof -
    note k = remember_tracked [OF that assms(2)]
    have "keeps (tracked P (insert u V)) (bind_act (in_services (begin_sale now (begin_request_of b pump u nozzle))) (\<lambda>_.
        publish_now now Live_TRANSACTION_CREATED (Some (logical_of b a)) (Some u) None None None))"
      by (intro keeps_bind keeps_in_services_begin keeps_publish_now) (simp add: begin_request_of_def)
    from tracked_weaken [OF keepsD [OF this k]] show ?thesis by (simp add: remember_sale_def)
  qed
  show "tracked P V (snd (open_sale now a pump active nozzle b))"
  proof (cases "map_of (br_tx b) a")
    case (Some u)
    then have "u \<noteq> []" using t by (auto simp: tracked_def known_sales_def ran_def)
    with rest [OF t] Some show ?thesis
      by (simp add: open_sale_def sale_of_known [OF t assms(1)] bind_act_def del: then_act_simp)
  next
    case None
    obtain u b1 where d: "in_db draw_uuid b = (Inr u, b1)" "br_tx b1 = br_tx b"
      by (auto simp: in_db_def in_services_def in_store_def draw_uuid_def)
    have "tracked P V b1" using keepsD [OF keeps_in_db [OF keeps_draw] t] d by (metis snd_conv)
    moreover have "u \<noteq> []" using t d(1)
      by (auto simp: tracked_def sales_within_def in_db_def in_services_def in_store_def draw_uuid_def)
    ultimately show ?thesis using rest [of b1 u] None d
      by (simp add: open_sale_def sale_of_known [OF t assms(1)] bind_act_def del: then_act_simp)
  qed
qed

lemma remember_again:
  assumes "tracked P V b" "map_of (br_tx b) a = Some u"
  shows "tracked P V (b\<lparr>br_tx := AList.update a u (br_tx b)\<rparr>)"
proof -
  have "u \<in> known_sales b" "a \<in> dom (map_of (br_tx b))" using assms(2) by (auto simp: known_sales_def intro: ranI)
  then have "u \<noteq> []" "a \<in> dom (map_of P)" using assms(1) by (auto simp: tracked_def)
  then show ?thesis using remember_tracked [OF assms(1)] assms(2) tracked_weaken by blast
qed

lemma keeps_close_sale:
  assumes "\<not> truthy_string active"
  shows "keeps (tracked P V) (close_sale isot now a st active completion source)"
  unfolding keeps_def
proof (intro allI impI)
  fix b assume t: "tracked P V b"
  show "tracked P V (snd (close_sale isot now a st active completion source b))"
  proof (cases "map_of (br_tx b) a")
    case None
    with t assms show ?thesis by (simp add: close_sale_def sale_of_known)
  next
    case (Some u)
    define key where "key = (case nonempty completion of Some k \<Rightarrow> k | None \<Rightarrow> ''complete:'' @ u @ '':'' @ pump_state_value st)"
    obtain res b1 where c: "in_services (complete_sale isot now (complete_request_of u key source)) b = (res, b1)" by fastforce
    have t1: "tracked P V b1" using keepsD [OF keeps_in_services [OF keeps_complete_sale] t] c by (metis snd_conv)
    have "br_tx b1 = br_tx b" using c by (auto simp: in_services_def split: prod.splits)
    then have t2: "tracked P V (b1\<lparr>br_tx := AList.update a u (br_tx b1)\<rparr>)" using remember_again [OF t1] Some by simp
    have p: "tracked P V (snd (publish_now now Live_TRANSACTION_COMPLETED x y sev pl ver
        (b1\<lparr>br_tx := AList.update a u (br_tx b1)\<rparr>)))" for x y sev pl ver
      using keepsD [OF keeps_publish_now t2] .
    show ?thesis
      using Some t1 t2 p
      by (cases res)
        (auto simp: close_sale_def sale_of_known [OF t assms] key_def [symmetric] bind_act_def c remember_sale_def
          split: prod.split)
  qed
qed

text \<open>A state change that names no sale of its own: sessions never have an active transaction.\<close>

definition names_no_sale :: "bridge_job \<Rightarrow> bool" where
  "names_no_sale j \<longleftrightarrow>
    (case j of Job_state_changed address detail payload \<Rightarrow> \<not> truthy_string (Option.bind (payload_state payload) sy_transaction)
     | _ \<Rightarrow> True)"

lemma keeps_record_state:
  assumes "\<not> truthy_string (Option.bind (payload_state payload) sy_transaction)" "a \<in> dom (map_of P)"
  shows "keeps (tracked P V) (record_state isot now a pump st payload)"
  unfolding record_state_def Let_def
  by (intro keeps_bridge_unit keeps_read_each keeps_bind keeps_then keeps_if keeps_return keeps_rows_of keeps_in_db
      keeps_persist keeps_open_sale keeps_close_sale assms(2)) (simp_all add: nonempty_def assms(1))

lemma keeps_job:
  assumes "names_no_sale j"
  shows "keeps (tracked P V) (run_job sha isot now j)"
proof (cases j)
  case (Job_state_changed address detail payload)
  have "tracked P V (snd (handle_state_changed isot now address detail payload b))" if t: "tracked P V b" for b
  proof (cases "Option.bind address (found_text (br_pump_ids b))")
    case (Some pump)
    have "the address \<in> dom (map_of P)" using Some t
      by (cases address) (auto simp: found_text_def tracked_def split: option.splits)
    then have "keeps (tracked P V) (record_state isot now (the address) pump st payload)" for st
      using assms Job_state_changed by (intro keeps_record_state) (simp_all add: names_no_sale_def)
    from keepsD [OF this t] Some t show ?thesis by (simp add: handle_state_changed_def split: option.split)
  qed (simp add: handle_state_changed_def t)
  with Job_state_changed show ?thesis by (simp add: keeps_def)
next
  case (Job_app_decoded address payload is_dc2)
  have "tracked P V (snd (handle_app_decoded now address payload is_dc2 b))" if t: "tracked P V b" for b
  proof -
    have "keeps (tracked P V) (bridge_unit (bind_act (in_services (update_sale now q)) (\<lambda>_.
        publish_now now ty pump tx severity pl version)))" for q ty pump tx severity pl version
      by (intro keeps_bridge_unit keeps_bind keeps_in_services keeps_update keeps_publish_now)
    from keepsD [OF this t] t show ?thesis
      unfolding handle_app_decoded_def by (auto split: option.split)
  qed
  with Job_app_decoded show ?thesis by (simp add: keeps_def)
next
  case (Job_comm address ty)
  have "keeps (tracked P V) (handle_comm sha isot now address ty)"
    unfolding handle_comm_def Let_def
    by (intro keeps_bridge_unit keeps_read_each keeps_bind keeps_if keeps_return keeps_rows_of keeps_in_db keeps_repos
        keeps_persist keeps_case_option keeps_result)
  with Job_comm show ?thesis by simp
next
  case (Job_protocol_error address detail)
  have "keeps (tracked P V) (handle_protocol_error now address detail)"
    unfolding handle_protocol_error_def Let_def
    by (intro keeps_bridge_unit keeps_read_each keeps_bind keeps_return keeps_in_db keeps_repos)
  with Job_protocol_error show ?thesis by simp
next
  case (Job_rejected_command cid address command current_state reasons simulator_only)
  have "keeps (tracked P V) (handle_rejected_command sha isot now cid address command current_state reasons simulator_only)"
    unfolding handle_rejected_command_def Let_def
    by (intro keeps_bridge_unit keeps_read_each keeps_bind keeps_return keeps_in_db keeps_repos)
  with Job_rejected_command show ?thesis by simp
qed

text \<open>The jobs of a worker's life, each at its instant, whatever they raise.\<close>

definition run_jobs :: "(string \<Rightarrow> string) \<Rightarrow> (int \<Rightarrow> string) \<Rightarrow> (int \<times> bridge_job) list \<Rightarrow> bridge \<Rightarrow> bridge" where
  "run_jobs sha isot jobs b = foldl (\<lambda>b (now, j). snd (run_job sha isot now j b)) b jobs"

lemma run_jobs_tracked:
  "list_all (\<lambda>(now, j). names_no_sale j) jobs \<Longrightarrow> tracked P V b \<Longrightarrow> tracked P V (run_jobs sha isot jobs b)"
  by (induction jobs arbitrary: b) (auto simp: run_jobs_def intro: keepsD [OF keeps_job])

text \<open>
  Later sales are never recorded. Whatever state changes, readings, losses and errors the controller reports, as long as no
  state change names its sale (and the controller's sessions name none), the database never holds more sales than
  there are configured pumps: the bridge keeps the identifier of an address's first sale for ever, so every later sale of
  that pump is taken for it.
\<close>

theorem later_sales_are_not_recorded:
  assumes "list_all (\<lambda>(now, j). names_no_sale j) jobs" "\<forall>n. db_supply d n \<noteq> []" "store.db_transactions d = []"
  shows "card (tx_uuid ` set (store.db_transactions (sv_store (br_services
    (run_jobs sha isot jobs (new_bridge station environment simulated ids logical live book d)))))) \<le> length ids"
proof -
  let ?b = "run_jobs sha isot jobs (new_bridge station environment simulated ids logical live book d)"
  have "tracked ids {} (new_bridge station environment simulated ids logical live book d)"
    using assms(2,3) by (auto simp: tracked_def new_bridge_def known_sales_def sales_within_def)
  from run_jobs_tracked [OF assms(1) this] have t: "tracked ids {} ?b" .
  then have "card (tx_uuid ` set (store.db_transactions (sv_store (br_services ?b)))) \<le> card (ran (map_of (br_tx ?b)))"
    by (intro card_mono finite_ran finite_dom_map_of) (auto simp: tracked_def known_sales_def sales_within_def)
  also have "\<dots> \<le> card (dom (map_of (br_tx ?b)))"
  proof -
    have "ran m = (\<lambda>k. the (m k)) ` dom m" for m :: "int \<Rightarrow> string option" by (force simp: ran_def image_def)
    then show ?thesis by (metis card_image_le finite_dom_map_of)
  qed
  also have "\<dots> \<le> card (dom (map_of ids))"
    using t by (intro card_mono finite_dom_map_of) (simp add: tracked_def)
  also have "\<dots> \<le> length ids" by (simp add: dom_map_of_conv_image_fst) (metis card_length length_map list.set_map)
  finally show ?thesis .
qed

definition sale_change :: "pump_state \<Rightarrow> pump_state \<Rightarrow> nat \<Rightarrow> string option \<Rightarrow> bridge_job" where
  "sale_change before after version key = Job_state_changed (Some 1) (State_change_detail before after)
    (State_payload \<lparr>sy_event = FILLING_UPDATED, sy_previous = before, sy_state = after, sy_version = version, sy_nozzle = Some 1,
      sy_transaction = None, sy_healthy = True, sy_raw_status = None, sy_source = None, sy_completion_key = key\<rparr>)"

definition two_sales_reported :: "(int \<times> bridge_job) list" where
  "two_sales_reported =
    [(1, sale_change AUTHORIZED FILLING 1 None), (2, sale_change FILLING FILLING_COMPLETE 2 (Some ''k1'')),
     (3, sale_change AUTHORIZED FILLING 3 None), (4, sale_change FILLING FILLING_COMPLETE 4 (Some ''k2''))]"

theorem later_sales_are_not_recorded_witness:
  "card (tx_uuid ` set (store.db_transactions (sv_store (br_services (run_jobs id (\<lambda>t. []) two_sales_reported
    (new_bridge ''st'' ''LAB'' True [(1, ''p'')] [] None None (empty_store nat_text))))))) \<le> length [(1::int, ''p'')]"
  by (rule later_sales_are_not_recorded)
    (simp_all add: two_sales_reported_def sale_change_def names_no_sale_def payload_state_def empty_store_def)

section \<open>What a full queue costs\<close>

lemma publish_now_returns: "fst (publish_now now ty pump tx severity payload version b) = Inr ()"
  by (auto simp: publish_now_def bind_act_def in_db_def in_services_def in_store_def draw_uuid_def split: option.split)

lemma publish_event_live_returns: "fst (publish_event_live now e b) = Inr ()"
  by (simp add: publish_event_live_def publish_now_returns split: option.split)

text \<open>
  No controller event is ever critical: the sessions' events, the completion of a sale among them, are submitted at normal
  priority, so a full queue drops their jobs without a word to anyone; only a rejected command is refused aloud.
\<close>

theorem full_queue_drops_every_event:
  assumes "worker_full w"
    and "ce_type e = APPLICATION_TRANSACTION_DECODED \<longrightarrow> (\<exists>ty. ce_detail e = Transaction_detail ty)"
  shows "fst (on_event now e (b, w)) = Inr () \<and> wk_queue (snd (snd (on_event now e (b, w)))) = wk_queue w \<and>
    fst (enqueue_rejected_command address command current_state reasons simulator_only cid (b, w)) = Inl QueueFullError"
proof -
  obtain b' where p: "publish_event_live now e b = (Inr (), b')" using publish_event_live_returns [of now e b] by (metis prod.collapse)
  have full: "worker_full (w\<lparr>wk_seq := n\<rparr>)" for n using assms(1) by (simp add: worker_full_def)
  have "p = Priority_NORMAL" if "job_of_event e = Some (j, p)" for j p
    using that assms(2) transaction_type_texts(1)
    by (auto simp: job_of_event_def Let_def split: if_splits)
  then have "fst (on_event now e (b, w)) = Inr () \<and> wk_queue (snd (snd (on_event now e (b, w)))) = wk_queue w"
    using full by (auto simp: on_event_def p submit_to_worker_def submit_job_def Let_def split: option.split)
  moreover have "fst (enqueue_rejected_command address command current_state reasons simulator_only cid (b, w)) = Inl QueueFullError"
    using full by (auto simp: enqueue_rejected_command_def in_db_def in_services_def in_store_def draw_uuid_def
        submit_to_worker_def submit_job_def Let_def)
  ultimately show ?thesis by blast
qed

definition completion_event :: controller_event where
  "completion_event = \<lparr>ce_type = STATE_CHANGED, ce_address = Some 1, ce_timestamp = Some 0,
     ce_detail = State_change_detail FILLING FILLING_COMPLETE, ce_payload = No_payload\<rparr>"

definition sample_bridge :: bridge where
  "sample_bridge = new_bridge ''st'' ''LAB'' True [(1, ''p'')] [] None None (empty_store nat_text)"

definition full_worker :: "bridge_job worker" where
  "full_worker = snd (submit_job Priority_NORMAL (Job_comm None PUMP_CONNECTED) (start_worker (new_worker 1)))"

theorem full_queue_drops_every_event_witness:
  "fst (on_event 0 completion_event (sample_bridge, full_worker)) = Inr () \<and>
   wk_queue (snd (snd (on_event 0 completion_event (sample_bridge, full_worker)))) = wk_queue full_worker \<and>
   fst (enqueue_rejected_command 1 AUTHORIZE ''READY'' [''not eligible''] True None (sample_bridge, full_worker)) = Inl QueueFullError"
  by (rule full_queue_drops_every_event)
    (simp_all add: full_worker_def completion_event_def submit_job_def start_worker_def new_worker_def worker_full_def Let_def)
section \<open>The database stays consistent\<close>

text \<open>An action whose normal returns leave the store that \<open>view\<close> shows consistent.\<close>

definition leaves_consistent :: "('s \<Rightarrow> store) \<Rightarrow> ('s, 'a) action \<Rightarrow> bool" where
  "leaves_consistent view m \<longleftrightarrow>
    (\<forall>s. schema_ok (view s) \<longrightarrow> (case m s of (Inl e, s') \<Rightarrow> True | (Inr x, s') \<Rightarrow> schema_ok (view s')))"

named_theorems consistent_intros

lemma consistent_basic [consistent_intros]:
  "leaves_consistent view (return_act x)" "leaves_consistent view (result_act r)"
  "(\<And>s. leaves_consistent view (f s)) \<Longrightarrow> leaves_consistent view (read_act f)"
  "leaves_consistent view m \<Longrightarrow> (\<And>x. leaves_consistent view (g x)) \<Longrightarrow> leaves_consistent view (bind_act m g)"
  by (fastforce simp: leaves_consistent_def bind_act_def split: prod.splits sum.splits)+

lemma consistent_then [consistent_intros]:
  "leaves_consistent view m \<Longrightarrow> leaves_consistent view n \<Longrightarrow> leaves_consistent view (then_act m n)"
  unfolding then_act_def by (rule consistent_basic(4))

lemma consistent_cases [consistent_intros]:
  "(b \<Longrightarrow> leaves_consistent view m) \<Longrightarrow> (\<not> b \<Longrightarrow> leaves_consistent view n) \<Longrightarrow> leaves_consistent view (if b then m else n)"
  "leaves_consistent view m \<Longrightarrow> (\<And>y. leaves_consistent view (f y)) \<Longrightarrow>
    leaves_consistent view (case x of None \<Rightarrow> m | Some y \<Rightarrow> f y)"
  "(\<And>x y. leaves_consistent view (h x y)) \<Longrightarrow> leaves_consistent view (case p of (x, y) \<Rightarrow> h x y)"
  by (simp_all split: option.split prod.split)

lemma consistent_unseen [consistent_intros]: "(\<And>s. view (g s) = view s) \<Longrightarrow> leaves_consistent view (modify_act g)"
  by (simp add: leaves_consistent_def)

abbreviation services_consistent :: "(services, 'a) action \<Rightarrow> bool" where
  "services_consistent \<equiv> leaves_consistent sv_store"

abbreviation bridge_consistent :: "(bridge, 'a) action \<Rightarrow> bool" where
  "bridge_consistent \<equiv> leaves_consistent (\<lambda>b. sv_store (br_services b))"

lemma consistent_in_store [consistent_intros]: "commits m \<Longrightarrow> services_consistent (in_store m)"
  by (fastforce simp: commits_def leaves_consistent_def in_store_def split: prod.splits sum.splits)

lemma consistent_in_services [consistent_intros]: "services_consistent m \<Longrightarrow> bridge_consistent (in_services m)"
  by (fastforce simp: leaves_consistent_def in_services_def split: prod.splits sum.splits)

lemma consistent_in_db [consistent_intros]: "commits m \<Longrightarrow> bridge_consistent (in_db m)"
  unfolding in_db_def by (intro consistent_intros)

lemma consistent_looks [consistent_intros]:
  "services_consistent (look f)" "services_consistent (decide u volume amount fin now)" "bridge_consistent (rows_of f)"
  by (simp_all add: leaves_consistent_def look_def decide_def rows_of_def split: option.split prod.split)

lemma commits_persist [commit_intros]: "commits (persist_context now pump ctx source available also)"
  unfolding persist_context_def by (intro commit_intros)

lemma consistent_services [consistent_intros]:
  "services_consistent (begin_sale now q)" "services_consistent (update_sale now f)" "services_consistent (complete_sale isot now c)"
  unfolding begin_sale_def update_sale_def complete_sale_def announce_completion_def
  by (intro consistent_intros commit_intros)+

lemma consistent_publish_now [consistent_intros]: "bridge_consistent (publish_now now ty pump tx severity payload version)"
  unfolding publish_now_def by (intro consistent_intros commit_intros) simp

lemma consistent_sales [consistent_intros]:
  "bridge_consistent (open_sale now a pump active nozzle)" "bridge_consistent (close_sale isot now a st active key source)"
  unfolding open_sale_def close_sale_def remember_sale_def Let_def
  by (intro consistent_intros commit_intros; simp)+

lemma bridge_unit_schema:
  assumes "bridge_consistent m" "schema_ok (sv_store (br_services b))"
  shows "schema_ok (sv_store (br_services (snd (bridge_unit m b))))"
  using assms by (auto simp: bridge_unit_def leaves_consistent_def split: prod.splits sum.splits)

text \<open>
  The database is well formed at every moment: no job, whatever it reports and whatever it raises, leaves a row that breaks a
  key, a uniqueness constraint or a reference.
\<close>

theorem jobs_keep_schema:
  assumes "schema_ok (sv_store (br_services b))"
  shows "schema_ok (sv_store (br_services (run_jobs sha isot jobs b)))"
proof -
  have step: "schema_ok (sv_store (br_services (snd (run_job sha isot now j b))))" if ok: "schema_ok (sv_store (br_services b))" for now j b
  proof -
    note unit = bridge_unit_schema [OF _ ok]
    show ?thesis
    proof (cases j)
      case (Job_state_changed address detail payload)
      have "schema_ok (sv_store (br_services (snd (record_state isot now a pump st payload b))))" for a pump st
        unfolding record_state_def Let_def by (intro unit consistent_intros commit_intros)
      with Job_state_changed ok show ?thesis by (simp add: handle_state_changed_def split: option.split)
    next
      case (Job_app_decoded address payload is_dc2)
      have "schema_ok (sv_store (br_services (snd (bridge_unit (bind_act (in_services (update_sale now q)) (\<lambda>_.
          publish_now now ty pump tx severity pl version)) b))))" for q ty pump tx severity pl version
        by (intro unit consistent_intros)
      with Job_app_decoded ok show ?thesis by (auto simp: handle_app_decoded_def split: option.split)
    next
      case (Job_comm address ty)
      have "schema_ok (sv_store (br_services (snd (handle_comm sha isot now address ty b))))"
        unfolding handle_comm_def Let_def by (intro unit consistent_intros commit_intros)
      with Job_comm show ?thesis by simp
    next
      case (Job_protocol_error address detail)
      have "schema_ok (sv_store (br_services (snd (handle_protocol_error now address detail b))))"
        unfolding handle_protocol_error_def Let_def by (intro unit consistent_intros commit_intros)
      with Job_protocol_error show ?thesis by simp
    next
      case (Job_rejected_command cid address command current_state reasons simulator_only)
      have "schema_ok (sv_store (br_services (snd
          (handle_rejected_command sha isot now cid address command current_state reasons simulator_only b))))"
        unfolding handle_rejected_command_def Let_def by (intro unit consistent_intros commit_intros)
      with Job_rejected_command show ?thesis by simp
    qed
  qed
  show ?thesis using assms unfolding run_jobs_def
    by (induction jobs arbitrary: b) (auto simp: step split: prod.split)
qed

theorem jobs_keep_schema_witness:
  "schema_ok (sv_store (br_services (run_jobs id (\<lambda>t. []) two_sales_reported sample_bridge)))"
  by (rule jobs_keep_schema) (simp add: sample_bridge_def new_bridge_def empty_store_def schema_defs)
end
