(* ===== verification/Svc_Recovery.thy ===== *)
theory Svc_Recovery
  imports Db_Ledger Db_Queue Db_Repos
begin

text \<open>
  \<open>services/recovery_service.py\<close>: what the service restores and settles when it starts. The version of the schema is the
  argument \<open>schema\<close>; warnings are constructors with the values they quote.
\<close>

section \<open>Model\<close>

datatype recovery_warning =
    Unknown_state_warning string string
  | Was_healthy_warning string
  | Unresolved_warning string
  | Not_replayed_warning string string
  | Never_authorize_warning
  | Pending_not_replayed_warning

record recovery_report =
  rr_schema :: int
  rr_pumps :: "string list"
  rr_unresolved :: "string list"
  rr_expired :: "string list"
  rr_reconciling :: "string list"
  rr_released :: nat
  rr_warnings :: "recovery_warning list"
  rr_contexts :: "(string \<times> pump_context) list"

definition new_report :: "int \<Rightarrow> recovery_report" where
  "new_report schema = \<lparr>rr_schema = schema, rr_pumps = [], rr_unresolved = [], rr_expired = [], rr_reconciling = [],
     rr_released = 0, rr_warnings = [], rr_contexts = []\<rparr>"

definition warn :: "recovery_warning \<Rightarrow> recovery_report \<Rightarrow> recovery_report" where
  "warn w r = r\<lparr>rr_warnings := rr_warnings r @ [w]\<rparr>"

text \<open>\<open>ensure_pumps\<close>: the pump rows of the configured addresses.\<close>

fun upsert_addresses :: "int \<Rightarrow> string \<Rightarrow> int list \<Rightarrow> (int \<times> string) list \<Rightarrow> (store, (int \<times> string) list) action" where
  "upsert_addresses now station [] mapping = return_act mapping"
| "upsert_addresses now station (a # as) mapping =
    bind_act (upsert_pump now station (''pump-'' @ int_text a) a True None) (\<lambda>row.
      upsert_addresses now station as (AList.update a (pr_id row) mapping))"

definition ensure_pumps :: "int \<Rightarrow> string \<Rightarrow> int list \<Rightarrow> (store, (int \<times> string) list) action" where
  "ensure_pumps now station addresses = unit_of_work (upsert_addresses now station addresses [])"

text \<open>The context a pump is restored to; its line is unhealthy until it is heard.\<close>

definition restored_context :: "pump_row \<Rightarrow> snapshot_row option \<Rightarrow> pump_context" where
  "restored_context p snap =
    (case snap of
       None \<Rightarrow> new_context (pr_logical p) (pr_address p)
     | Some s \<Rightarrow>
         (new_context (pr_logical p) (pr_address p))
         \<lparr>pc_current_state := (case pump_state_of_value (sn_state s) of Some st \<Rightarrow> st | None \<Rightarrow> DISCOVERING),
          pc_previous_state := (if truthy_string (sn_previous s) then pump_state_of_value (the (sn_previous s)) else None),
          pc_selected_nozzle := sn_nozzle s, pc_active_transaction := sn_active_transaction s,
          pc_communication_healthy := False, pc_last_raw_status := sn_raw_status s,
          pc_state_version := nat (sn_version s), pc_last_source_hex := sn_source s\<rparr>)"

definition restore_warnings :: "pump_row \<Rightarrow> snapshot_row option \<Rightarrow> recovery_warning list" where
  "restore_warnings p snap =
    (case snap of
       None \<Rightarrow> []
     | Some s \<Rightarrow>
         (if pump_state_of_value (sn_state s) = None then [Unknown_state_warning (sn_state s) (pr_logical p)] else []) @
         (if sn_healthy s then [Was_healthy_warning (pr_logical p)] else []))"

definition restore_pump :: "store \<Rightarrow> recovery_report \<Rightarrow> pump_row \<Rightarrow> recovery_report" where
  "restore_pump d r p =
    (let snap = latest_snapshot (pr_id p) d in
     r\<lparr>rr_pumps := rr_pumps r @ [pr_logical p], rr_warnings := rr_warnings r @ restore_warnings p snap,
       rr_contexts := AList.update (pr_logical p) (restored_context p snap) (rr_contexts r)\<rparr>)"

definition note_unresolved :: "recovery_report \<Rightarrow> transaction_row \<Rightarrow> recovery_report" where
  "note_unresolved r t = warn (Unresolved_warning (tx_uuid t)) (r\<lparr>rr_unresolved := rr_unresolved r @ [tx_uuid t]\<rparr>)"

definition command_expired :: "int \<Rightarrow> command_row \<Rightarrow> bool" where
  "command_expired now c \<longleftrightarrow> (case cm_expires_at c of None \<Rightarrow> False | Some t \<Rightarrow> t \<le> now)"

definition needs_reconciling :: "command_row \<Rightarrow> bool" where
  "needs_reconciling c \<longleftrightarrow>
    (case pump_command_of_value (cm_type c) of
       None \<Rightarrow> False
     | Some k \<Rightarrow> k \<in> NON_IDEMPOTENT_COMMANDS \<or> k \<notin> {READ_STATUS, READ_TOTALS})"

definition settle :: "int \<Rightarrow> string \<Rightarrow> string \<Rightarrow> string \<Rightarrow> (store, command_row option) action" where
  "settle now cid status reason = update_command_status cid status (Some now) (Some (JObj [(''reason'', JStr reason)]))"

definition reconcile_command :: "int \<Rightarrow> command_row \<Rightarrow> recovery_report \<Rightarrow> (store, recovery_report) action" where
  "reconcile_command now c r =
    (let cid = cm_correlation_id c in
     if command_expired now c
     then bind_act (settle now cid ''EXPIRED'' ''expired_on_restart'') (\<lambda>_.
       return_act (r\<lparr>rr_expired := rr_expired r @ [cid]\<rparr>))
     else if needs_reconciling c
     then bind_act (settle now cid ''NEEDS_RECONCILIATION'' ''non_idempotent_not_replayed_after_restart'') (\<lambda>_.
       return_act (warn (Not_replayed_warning (cm_type c) cid) (r\<lparr>rr_reconciling := rr_reconciling r @ [cid]\<rparr>)))
     else bind_act (settle now cid ''EXPIRED'' ''read_not_auto_replayed'') (\<lambda>_.
       return_act (r\<lparr>rr_expired := rr_expired r @ [cid]\<rparr>)))"

fun reconcile_commands :: "int \<Rightarrow> command_row list \<Rightarrow> recovery_report \<Rightarrow> (store, recovery_report) action" where
  "reconcile_commands now [] r = return_act r"
| "reconcile_commands now (c # cs) r = bind_act (reconcile_command now c r) (reconcile_commands now cs)"

definition recover :: "int \<Rightarrow> int \<Rightarrow> string \<Rightarrow> (store, recovery_report) action" where
  "recover schema now station =
    bind_act (unit_of_work
      (bind_act (release_stale_locks now 60000000) (\<lambda>n.
       read_act (\<lambda>d.
         let r0 = (new_report schema)\<lparr>rr_released := n\<rparr>;
             r1 = foldl (restore_pump d) r0 (pumps_of_station station d);
             r2 = foldl note_unresolved r1 (list_unresolved station d)
         in reconcile_commands now (pending_commands station d) r2)))) (\<lambda>r.
    return_act (warn Pending_not_replayed_warning (warn Never_authorize_warning r)))"

section \<open>Nothing is replayed\<close>

definition final_status :: "int \<Rightarrow> command_row \<Rightarrow> string" where
  "final_status now c =
    (if \<not> command_expired now c \<and> needs_reconciling c then ''NEEDS_RECONCILIATION'' else ''EXPIRED'')"

definition final_reason :: "int \<Rightarrow> command_row \<Rightarrow> string" where
  "final_reason now c =
    (if command_expired now c then ''expired_on_restart''
     else if needs_reconciling c then ''non_idempotent_not_replayed_after_restart'' else ''read_not_auto_replayed'')"

definition settled_command :: "int \<Rightarrow> command_row \<Rightarrow> command_row" where
  "settled_command now c =
    updated_command (final_status now c) (Some now) (Some (JObj [(''reason'', JStr (final_reason now c))])) c"

lemma settled_command_keys [simp]:
  "cm_correlation_id (settled_command now c) = cm_correlation_id c" "cm_pump (settled_command now c) = cm_pump c"
  "cm_station (settled_command now c) = cm_station c" "cm_status (settled_command now c) = final_status now c"
  by (simp_all add: settled_command_def updated_command_def)

text \<open>Settling the commands named in \<open>ids\<close>.\<close>

definition settle_all :: "int \<Rightarrow> string set \<Rightarrow> store \<Rightarrow> store" where
  "settle_all now ids d = d\<lparr>db_commands := map (\<lambda>c. if cm_correlation_id c \<in> ids then settled_command now c else c) (db_commands d)\<rparr>"

lemma settle_all_schema: "schema_ok d \<Longrightarrow> schema_ok (settle_all now ids d)"
proof -
  have k: "map cm_correlation_id (map (\<lambda>c. if cm_correlation_id c \<in> ids then settled_command now c else c) cs) =
      map cm_correlation_id cs"
    "map cm_pump (map (\<lambda>c. if cm_correlation_id c \<in> ids then settled_command now c else c) cs) = map cm_pump cs" for cs
    by simp_all
  assume "schema_ok d"
  then show ?thesis
    unfolding settle_all_def by (simp add: schema_defs pump_exists_def [abs_def] k del: map_map)
qed

lemma settle_one:
  assumes "schema_ok d" "c \<in> set (db_commands d)"
  shows "update_command_status (cm_correlation_id c) (final_status now c) (Some now)
      (Some (JObj [(''reason'', JStr (final_reason now c))])) d =
    (Inr (Some (settled_command now c)), settle_all now {cm_correlation_id c} d)"
proof -
  have dist: "distinct (map cm_correlation_id (db_commands d))" using assms(1) by (simp add: schema_defs)
  have same: "x = c" if "x \<in> set (db_commands d)" "cm_correlation_id x = cm_correlation_id c" for x
    using dist assms(2) that by (meson distinct_map inj_onD)
  have "get_command (cm_correlation_id c) d \<noteq> None" using assms(2) by (auto simp: get_command_def find_None_iff)
  then obtain x where x: "get_command (cm_correlation_id c) d = Some x" by blast
  then have "x \<in> set (db_commands d)" "cm_correlation_id x = cm_correlation_id c"
    by (auto simp: get_command_def find_Some_iff)
  with same x have g: "get_command (cm_correlation_id c) d = Some c" by simp
  have "update_where (\<lambda>x. cm_correlation_id x = cm_correlation_id c)
        (updated_command (final_status now c) (Some now) (Some (JObj [(''reason'', JStr (final_reason now c))]))) (db_commands d) =
      db_commands (settle_all now {cm_correlation_id c} d)"
    using same by (auto simp: update_where_def settle_all_def settled_command_def)
  then have "d\<lparr>db_commands := update_where (\<lambda>x. cm_correlation_id x = cm_correlation_id c)
        (updated_command (final_status now c) (Some now) (Some (JObj [(''reason'', JStr (final_reason now c))]))) (db_commands d)\<rparr> =
      settle_all now {cm_correlation_id c} d"
    by (simp add: settle_all_def)
  with g flush_ok [OF settle_all_schema [OF assms(1)]] show ?thesis
    by (simp add: update_command_status_def settled_command_def)
qed

text \<open>What the report says of pumps and open sales.\<close>

definition restored_part :: "recovery_report \<Rightarrow> (string \<times> pump_context) list \<times> string list \<times> string list \<times> nat" where
  "restored_part r = (rr_contexts r, rr_pumps r, rr_unresolved r, rr_released r)"

lemma reconcile_one:
  assumes "schema_ok d" "c \<in> set (db_commands d)"
  shows "\<exists>r'. reconcile_command now c r d = (Inr r', settle_all now {cm_correlation_id c} d) \<and>
    restored_part r' = restored_part r"
  using settle_one [OF assms, of now]
  by (auto simp: reconcile_command_def settle_def final_status_def final_reason_def bind_act_def Let_def warn_def restored_part_def)

lemma settle_all_twice: "i \<notin> ids \<Longrightarrow> settle_all now ids (settle_all now {i} d) = settle_all now (insert i ids) d"
  by (auto simp: settle_all_def)

lemma reconcile_all:
  assumes "schema_ok d" "set cs \<subseteq> set (db_commands d)" "distinct (map cm_correlation_id cs)"
  shows "\<exists>r'. reconcile_commands now cs r d = (Inr r', settle_all now (cm_correlation_id ` set cs) d) \<and>
    restored_part r' = restored_part r"
  using assms
proof (induction cs arbitrary: d r)
  case Nil
  then show ?case by (simp add: settle_all_def)
next
  case (Cons c cs)
  obtain r1 where r1: "reconcile_command now c r d = (Inr r1, settle_all now {cm_correlation_id c} d)"
    "restored_part r1 = restored_part r"
    using reconcile_one [of d c now r] Cons.prems by auto
  let ?d1 = "settle_all now {cm_correlation_id c} d"
  have "x \<in> set (db_commands ?d1)" if x: "x \<in> set cs" for x
  proof -
    have "cm_correlation_id x \<noteq> cm_correlation_id c" using Cons.prems(3) x by (metis distinct.simps(2) image_eqI list.set_map list.simps(9))
    moreover have "x \<in> set (db_commands d)" using Cons.prems(2) x by auto
    ultimately show ?thesis by (force simp: settle_all_def)
  qed
  then have "set cs \<subseteq> set (db_commands ?d1)" by blast
  from Cons.IH [OF settle_all_schema [OF Cons.prems(1)] this] Cons.prems(3) obtain r2 where
    "reconcile_commands now cs r1 ?d1 = (Inr r2, settle_all now (cm_correlation_id ` set cs) ?d1)"
    "restored_part r2 = restored_part r1" by auto
  moreover have "cm_correlation_id c \<notin> cm_correlation_id ` set cs" using Cons.prems(3) by simp
  ultimately show ?case using r1 by (simp add: bind_act_def settle_all_twice)
qed

text \<open>The queue after the stale locks are released; nothing else of it changes.\<close>

definition unlocked_queue :: "int \<Rightarrow> store \<Rightarrow> sync_row list" where
  "unlocked_queue now d = map (\<lambda>r. if stale (now - 60000000) r then released now r else r) (db_queue d)"

lemma release_works:
  assumes "schema_ok d"
  shows "release_stale_locks now 60000000 d =
      (Inr (length (filter (stale (now - 60000000)) (db_queue d))), d\<lparr>db_queue := unlocked_queue now d\<rparr>)"
    "schema_ok (d\<lparr>db_queue := unlocked_queue now d\<rparr>)"
proof -
  have q: "write_queue (stale (now - 60000000)) (released now) d = d\<lparr>db_queue := unlocked_queue now d\<rparr>"
    by (simp add: write_queue_def update_where_def unlocked_queue_def)
  have "schema_ok (write_queue (stale (now - 60000000)) (released now) d) = schema_ok d"
    by (rule write_queue_schema) simp
  with assms show ok: "schema_ok (d\<lparr>db_queue := unlocked_queue now d\<rparr>)" by (simp only: q)
  show "release_stale_locks now 60000000 d =
      (Inr (length (filter (stale (now - 60000000)) (db_queue d))), d\<lparr>db_queue := unlocked_queue now d\<rparr>)"
    using flush_ok [OF ok] q by (simp add: release_stale_locks_def Let_def)
qed

lemma restored_unhealthy: "\<not> pc_communication_healthy (restored_context p snap)"
  by (simp add: restored_context_def new_context_def split: option.split)

lemma restored_pumps:
  "map_of (rr_contexts (foldl (restore_pump d) r ps)) l =
    (case find (\<lambda>p. pr_logical p = l) (rev ps) of
       None \<Rightarrow> map_of (rr_contexts r) l
     | Some p \<Rightarrow> Some (restored_context p (latest_snapshot (pr_id p) d)))"
  by (induction ps arbitrary: r rule: rev_induct)
    (auto simp: restore_pump_def Let_def update_conv')

lemma restored_names: "rr_pumps (foldl (restore_pump d) r ps) = rr_pumps r @ map pr_logical ps"
    "rr_unresolved (foldl (restore_pump d) r ps) = rr_unresolved r" "rr_released (foldl (restore_pump d) r ps) = rr_released r"
  by (induction ps arbitrary: r) (simp_all add: restore_pump_def Let_def)

lemma unresolved_noted: "rr_contexts (foldl note_unresolved r ts) = rr_contexts r" "rr_pumps (foldl note_unresolved r ts) = rr_pumps r"
    "rr_released (foldl note_unresolved r ts) = rr_released r"
    "rr_unresolved (foldl note_unresolved r ts) = rr_unresolved r @ map tx_uuid ts"
  by (induction ts arbitrary: r) (simp_all add: note_unresolved_def warn_def)

text \<open>The pumps of a station have different names, so each is restored to its own last snapshot.\<close>

lemma station_pumps_distinct:
  assumes "schema_ok d"
  shows "distinct (map pr_logical (pumps_of_station station d))"
proof -
  have "inj_on (\<lambda>p. (pr_station p, pr_logical p)) (set (db_pumps d))" "distinct (db_pumps d)"
    using assms by (simp_all add: schema_defs distinct_map)
  then have "inj_on pr_logical (set (pumps_of_station station d))" "distinct (pumps_of_station station d)"
    by (auto simp: pumps_of_station_def inj_on_def)
  then show ?thesis by (simp add: distinct_map)
qed

lemma find_distinct: "distinct (map f ps) \<Longrightarrow> p \<in> set ps \<Longrightarrow> find (\<lambda>q. f q = f p) ps = Some p"
  by (induction ps) auto

lemma each_pump_restored:
  assumes "schema_ok d" "p \<in> set (pumps_of_station station d)"
  shows "map_of (rr_contexts (foldl (restore_pump d') r (pumps_of_station station d))) (pr_logical p) =
    Some (restored_context p (latest_snapshot (pr_id p) d'))"
proof -
  have "distinct (map pr_logical (rev (pumps_of_station station d)))"
    using station_pumps_distinct [OF assms(1)] by (metis distinct_rev rev_map)
  from find_distinct [OF this, of p] assms(2) show ?thesis by (simp add: restored_pumps)
qed

text \<open>
  C11. Recovery replays nothing and authorizes nothing. From a consistent database it succeeds. Of the database it changes the
  pending commands of the station and the stale locks of the sync queue, and nothing else at all: no sale, event, snapshot, alarm
  or audit record. An unexpired command that is not a mere read needs reconciliation, every other pending one is expired, and none is
  pending afterwards. Every pump of the station is restored, to its latest snapshot or else to a new context, and unhealthy
  until it is heard; exactly the open sales are reported as unresolved.
\<close>

theorem recovery_replays_nothing:
  assumes "schema_ok d"
  shows "\<exists>r d'. recover schema now station d = (Inr r, d') \<and> pending_commands station d' = [] \<and>
    d' = d\<lparr>db_commands := map (\<lambda>c. if c \<in> set (pending_commands station d) then settled_command now c else c) (db_commands d),
           db_queue := unlocked_queue now d\<rparr> \<and>
    rr_pumps r = map pr_logical (pumps_of_station station d) \<and>
    list_all (\<lambda>p. map_of (rr_contexts r) (pr_logical p) = Some (restored_context p (latest_snapshot (pr_id p) d)) \<and>
      \<not> pc_communication_healthy (restored_context p (latest_snapshot (pr_id p) d))) (pumps_of_station station d) \<and>
    rr_unresolved r = map tx_uuid (list_unresolved station d)"
proof -
  let ?d1 = "d\<lparr>db_queue := unlocked_queue now d\<rparr>" and ?cs = "pending_commands station d"
  define r2 where "r2 = foldl note_unresolved (foldl (restore_pump ?d1)
      ((new_report schema)\<lparr>rr_released := length (filter (stale (now - 60000000)) (db_queue d))\<rparr>) (pumps_of_station station d))
      (list_unresolved station d)"
  note rel = release_works [OF assms, of now]
  have dist: "distinct (map cm_correlation_id (db_commands d))" using assms by (simp add: schema_defs)
  then have inj: "inj_on cm_correlation_id (set (db_commands d))" by (simp add: distinct_map)
  have sub: "set ?cs \<subseteq> set (db_commands d)" by (auto simp: pending_commands_def)
  have "distinct (map cm_correlation_id ?cs)" using dist by (simp add: pending_commands_def distinct_map_filter)
  then obtain r3 where r3: "reconcile_commands now ?cs r2 ?d1 = (Inr r3, settle_all now (cm_correlation_id ` set ?cs) ?d1)"
    "restored_part r3 = restored_part r2"
    using reconcile_all [OF rel(2), of ?cs now r2] sub by auto
  have same: "pending_commands station ?d1 = ?cs" "pumps_of_station station ?d1 = pumps_of_station station d"
    "list_unresolved station ?d1 = list_unresolved station d" "latest_snapshot p ?d1 = latest_snapshot p d" for p
    by (simp_all add: pending_commands_def pumps_of_station_def list_unresolved_def latest_snapshot_def)
  let ?d' = "settle_all now (cm_correlation_id ` set ?cs) ?d1"
  have final: "?d' = d\<lparr>db_commands := map (\<lambda>c. if c \<in> set ?cs then settled_command now c else c) (db_commands d),
      db_queue := unlocked_queue now d\<rparr>"
    using inj sub by (auto simp: settle_all_def inj_on_image_mem_iff)
  have "c \<notin> set ?cs \<Longrightarrow> c \<in> set (db_commands d) \<Longrightarrow> \<not> (cm_station c = station \<and> cm_status c \<in> {''PENDING'', ''IN_PROGRESS''})" for c
    by (simp add: pending_commands_def)
  then have none: "pending_commands station ?d' = []"
    unfolding final pending_commands_def [of station "d\<lparr>db_commands := _, db_queue := _\<rparr>"]
    by (auto simp: filter_empty_conv final_status_def split: if_splits)
  let ?r = "warn Pending_not_replayed_warning (warn Never_authorize_warning r3)"
  have run: "recover schema now station d = (Inr ?r, ?d')"
    using rel(1) r3(1) by (simp add: recover_def bind_act_def unit_of_work_def same r2_def)
  have "restored_part ?r = restored_part r2" using r3(2) by (simp add: restored_part_def warn_def)
  then have report: "rr_contexts ?r = rr_contexts r2" "rr_pumps ?r = map pr_logical (pumps_of_station station d)"
    "rr_unresolved ?r = map tx_uuid (list_unresolved station d)"
    by (simp_all add: restored_part_def r2_def unresolved_noted restored_names new_report_def)
  have "list_all (\<lambda>p. map_of (rr_contexts ?r) (pr_logical p) = Some (restored_context p (latest_snapshot (pr_id p) d)) \<and>
      \<not> pc_communication_healthy (restored_context p (latest_snapshot (pr_id p) d))) (pumps_of_station station d)"
    unfolding report(1) r2_def unresolved_noted list_all_iff
    using each_pump_restored [OF assms, of _ station ?d1] same(4) restored_unhealthy by simp
  with run none final report show ?thesis by blast
qed

definition waiting_store :: store where
  "waiting_store = (empty_store nat_text)\<lparr>db_commands :=
     [new_command ''c1'' ''st'' None ''AUTHORIZE'' ''PENDING'' ''NON_IDEMPOTENT'' True 0,
      new_command ''c2'' ''st'' None ''READ_STATUS'' ''IN_PROGRESS'' ''IDEMPOTENT'' True 0]\<rparr>"

theorem recovery_replays_nothing_witness:
  "\<exists>r d'. recover 1 5 ''st'' waiting_store = (Inr r, d') \<and> pending_commands ''st'' d' = [] \<and>
    d' = waiting_store\<lparr>db_commands := map (\<lambda>c. if c \<in> set (pending_commands ''st'' waiting_store) then settled_command 5 c else c)
        (db_commands waiting_store), db_queue := unlocked_queue 5 waiting_store\<rparr> \<and>
    rr_pumps r = map pr_logical (pumps_of_station ''st'' waiting_store) \<and>
    list_all (\<lambda>p. map_of (rr_contexts r) (pr_logical p) = Some (restored_context p (latest_snapshot (pr_id p) waiting_store)) \<and>
      \<not> pc_communication_healthy (restored_context p (latest_snapshot (pr_id p) waiting_store))) (pumps_of_station ''st'' waiting_store) \<and>
    rr_unresolved r = map tx_uuid (list_unresolved ''st'' waiting_store)"
  by (rule recovery_replays_nothing) (simp add: waiting_store_def empty_store_def new_command_def schema_defs)

end
