(* ===== verification/Cmd_Gate.thy ===== *)
theory Cmd_Gate
  imports Db_Repos Db_Audit Ctl_Loop
begin

text \<open>
  What the two ways to send a command from outside share, \<open>cloud/command_intake.py\<close> and \<open>api/routes/commands.py\<close>: the
  texts of blocking reasons and warnings, the commands that have a CD1 form, the context of a pump, and the enqueueing of
  an item in the controller's outbound queue under a safety context that permits laboratory commands. The wall clock is
  given in microseconds; the controller counts milliseconds.
\<close>

section \<open>Texts of the guards\<close>

fun blocking_text :: "blocking_reason \<Rightarrow> string" where
  "blocking_text Communication_unhealthy = ''communication_unhealthy''"
| "blocking_text (State_not_eligible_for_set_price s) = ''state_'' @ pump_state_value s @ ''_not_eligible_for_set_price''"
| "blocking_text Active_or_completed_transaction_window = ''active_or_completed_transaction_window''"
| "blocking_text Active_unresolved_transaction = ''active_unresolved_transaction''"
| "blocking_text State_not_nozzle_up = ''state_not_nozzle_up''"
| "blocking_text Selected_nozzle_unknown = ''selected_nozzle_unknown''"
| "blocking_text Price_not_verified = ''price_not_verified''"
| "blocking_text Fault_present = ''fault_present''"
| "blocking_text State_not_eligible_for_stop = ''state_not_eligible_for_stop''"
| "blocking_text State_not_filling = ''state_not_filling''"
| "blocking_text State_not_suspended = ''state_not_suspended''"
| "blocking_text Reset_not_allowed_during_filling = ''reset_not_allowed_during_filling''"
| "blocking_text (State_not_explicitly_reset_eligible s) = ''state_'' @ pump_state_value s @ ''_not_explicitly_reset_eligible''"
| "blocking_text Preset_only_before_filling = ''preset_only_before_filling''"
| "blocking_text Preset_not_during_filling = ''preset_not_during_filling''"
| "blocking_text Preset_value_missing = ''preset_value_missing''"
| "blocking_text Preset_value_invalid = ''preset_value_invalid''"
| "blocking_text Preset_value_not_positive = ''preset_value_not_positive''"

fun warning_text :: "eligibility_warning \<Rightarrow> string" where
  "warning_text Active_commands_disabled = ''active_commands_enabled is false; execution remains disabled''"
| "warning_text Physical_enable_missing = ''physical_enable_present is false; execution remains disabled''"
| "warning_text No_status_poll_transmitted = ''Evaluation only; no status poll is transmitted.''"
| "warning_text No_totals_request_transmitted = ''Evaluation only; no totals request is transmitted.''"
| "warning_text Authorize_eligibility_only = ''AUTHORIZE eligibility only; active command execution remains disabled.''"
| "warning_text Requires_active_commands_enabled = ''requires_active_commands_enabled=True for any future execution path''"
| "warning_text Requires_physical_enable = ''requires_physical_enable=True for any future execution path''"

section \<open>Commands with a CD1 form\<close>

definition CD1_MAP :: "(pump_command \<times> pump_control_command) list" where
  "CD1_MAP = [(READ_STATUS, RETURN_STATUS), (Cmd_RESET, Command_RESET), (AUTHORIZE, Command_AUTHORIZE), (STOP, Command_STOP)]"

text \<open>Encoding a one-byte command cannot fail.\<close>

definition cd1_payload :: "pump_control_command \<Rightarrow> bytes" where
  "cd1_payload c = (case encode_cd1_command (dcc_of c) of Inr p \<Rightarrow> p | Inl e \<Rightarrow> [])"

definition idempotency_of :: "pump_command \<Rightarrow> idempotency_class" where
  "idempotency_of c = (if c \<in> NON_IDEMPOTENT_COMMANDS then NON_IDEMPOTENT else IDEMPOTENT)"

definition idempotency_text :: "pump_command option \<Rightarrow> string" where
  "idempotency_text c = (case c of None \<Rightarrow> ''IDEMPOTENT''
     | Some cmd \<Rightarrow> if cmd \<in> NON_IDEMPOTENT_COMMANDS then ''NON_IDEMPOTENT'' else ''IDEMPOTENT'')"

section \<open>The context of a pump\<close>

definition session_context :: "'w controller option \<Rightarrow> int \<Rightarrow> pump_context option" where
  "session_context loop address =
    (case loop of None \<Rightarrow> None | Some c \<Rightarrow> map_option cs_context (map_of (cl_sessions c) address))"

text \<open>\<open>PumpState(snap.normalized_state)\<close>, DISCONNECTED without a snapshot or for an unknown text.\<close>

definition stored_state :: "snapshot_row option \<Rightarrow> pump_state" where
  "stored_state snap =
    (case snap of None \<Rightarrow> DISCONNECTED
     | Some s \<Rightarrow> (case pump_state_of_value (sn_state s) of None \<Rightarrow> DISCONNECTED | Some st \<Rightarrow> st))"

section \<open>Queueing\<close>

definition milliseconds :: "int \<Rightarrow> int" where
  "milliseconds now = now div 1000"

definition lab_item :: "string \<Rightarrow> int \<Rightarrow> int \<Rightarrow> pump_command \<Rightarrow> pump_control_command \<Rightarrow> outbound_item" where
  "lab_item uuid now address command cd1 =
    create_item uuid (milliseconds now) address (cd1_payload cd1) command True (idempotency_of command) 5000 2"

text \<open>\<open>runtime.outbound.enqueue(item, replace(runtime.safety, allow_lab_simulator_commands=True))\<close>.\<close>

definition queue_lab_item :: "int \<Rightarrow> outbound_item \<Rightarrow> 'w controller \<Rightarrow> (outbound_error + unit) \<times> 'w controller" where
  "queue_lab_item now item c =
    (case enqueue (milliseconds now) (cl_outbound c) item ((cl_safety c)\<lparr>sx_allow_lab_commands := True\<rparr>) of
       Inl e \<Rightarrow> (Inl e, c) | Inr q \<Rightarrow> (Inr (), c\<lparr>cl_outbound := q\<rparr>))"

text \<open>The items waiting in the queue of a loop, if there is a loop.\<close>

definition waiting :: "'w controller option \<Rightarrow> outbound_item list" where
  "waiting loop = (case loop of None \<Rightarrow> [] | Some c \<Rightarrow> oq_items (cl_outbound c))"

lemma queue_lab_item_cases:
  "queue_lab_item now item c = (r, c') \<Longrightarrow>
    (case r of Inl e \<Rightarrow> c' = c
     | Inr u \<Rightarrow> oq_items (cl_outbound c') = oq_items (cl_outbound c) @ [item] \<and>
         sd_allowed (evaluate_outbound_safety item ((cl_safety c)\<lparr>sx_allow_lab_commands := True\<rparr>)) \<and>
         cl_safety c' = cl_safety c \<and> cl_sessions c' = cl_sessions c)"
  by (auto simp: queue_lab_item_def enqueue_def Let_def split: sum.splits if_splits)

definition lab_controller :: "'w controller \<Rightarrow> bool" where
  "lab_controller c \<longleftrightarrow> sx_mode (cl_safety c) \<in> {LISTEN_ONLY, BENCH_CONTROL} \<and> upper (sx_environment (cl_safety c)) = ''LAB''"

lemma queue_lab_item_works:
  assumes "lab_controller c" "length (oq_items (cl_outbound c)) < oq_max_size (cl_outbound c)"
  shows "queue_lab_item now (lab_item uuid now address command cd1) c =
    (Inr (), c\<lparr>cl_outbound := (cl_outbound c)\<lparr>oq_items := oq_items (cl_outbound c) @ [lab_item uuid now address command cd1]\<rparr>\<rparr>)"
  using assms
  by (auto simp: queue_lab_item_def enqueue_def evaluate_outbound_safety_def Let_def safety_if_def lab_item_def create_item_def
      is_expired_def lab_controller_def)

text \<open>A loop and a pump that is filling, for examples.\<close>

definition filling_pump :: store where
  "filling_pump = (empty_store nat_text)
     \<lparr>db_pumps := [\<lparr>pr_id = ''X'', pr_station = ''S'', pr_logical = ''P'', pr_address = 1, pr_enabled = True,
        pr_created_at = 0, pr_updated_at = 0\<rparr>],
      db_snapshots := [\<lparr>sn_id = ''Y'', sn_pump = ''X'', sn_state = ''FILLING'', sn_previous = None, sn_nozzle = None,
        sn_active_transaction = None, sn_healthy = True, sn_raw_status = None, sn_source = None, sn_version = 1,
        sn_observed_at = None, sn_persisted_at = 0\<rparr>]\<rparr>"

definition lab_loop :: "unit controller" where
  "lab_loop = new_controller (default_poll_config\<lparr>pg_addresses := []\<rparr>) default_lab_safety new_bus
     \<lparr>oq_max_size = 2, oq_items = []\<rparr> ()"

lemma lab_loop_is_lab: "lab_controller lab_loop" "length (oq_items (cl_outbound lab_loop)) + 2 \<le> oq_max_size (cl_outbound lab_loop)"
  by (simp_all add: lab_controller_def lab_loop_def new_controller_def default_lab_safety_def upper_def upper_char_def)

end
