(* ===== verification/Api_Commands.thy ===== *)
theory Api_Commands
  imports Cmd_Gate Live_Broker
begin

text \<open>
  \<open>api/routes/commands.py\<close>: the two routes that take a command from a client. One evaluates it and records the result,
  the other enqueues a laboratory command for the simulator. A response is the value a handler returns; an error is its
  code, its status and the blocking reasons it lists; any other exception is answered as an internal error.
\<close>

section \<open>State\<close>

datatype api_error = Api_error string nat "string list" | Api_internal py_error

record api_settings =
  st_station :: string
  st_environment :: string
  st_simulated :: bool
  st_active_enabled :: bool
  st_allow_lab :: bool
  st_mode :: controller_mode
  st_transport_kind :: string

record 'w api =
  ap_store :: store
  ap_loop :: "'w controller option"
  ap_broker :: broker
  ap_shutting_down :: bool
  ap_accepting :: bool

type_synonym ('s, 'a) handler = "'s \<Rightarrow> (api_error + 'a) \<times> 's"

definition bind_handler :: "('s, 'a) handler \<Rightarrow> ('a \<Rightarrow> ('s, 'b) handler) \<Rightarrow> ('s, 'b) handler" where
  "bind_handler m f s = (case m s of (Inl e, s') \<Rightarrow> (Inl e, s') | (Inr x, s') \<Rightarrow> f x s')"

definition return_handler :: "'a \<Rightarrow> ('s, 'a) handler" where
  "return_handler x s = (Inr x, s)"

definition raise_api :: "string \<Rightarrow> nat \<Rightarrow> string list \<Rightarrow> ('s, 'a) handler" where
  "raise_api code status reasons s = (Inl (Api_error code status reasons), s)"

text \<open>A unit of work on the store; an exception of it that nothing handles is an internal error.\<close>

definition work :: "(store, 'a) action \<Rightarrow> ('w api, 'a) handler" where
  "work m s = (case unit_of_work m (ap_store s) of
     (Inl e, d) \<Rightarrow> (Inl (Api_internal e), s\<lparr>ap_store := d\<rparr>) | (Inr x, d) \<Rightarrow> (Inr x, s\<lparr>ap_store := d\<rparr>))"

record evaluate_body =
  eb_type :: string
  eb_nozzle :: "int option"
  eb_preset :: "int option"
  eb_preset_decimals :: "int option"
  eb_correlation :: "string option"
  eb_simulator_only :: bool
  eb_expires_at :: "int option"

record lab_body =
  lb_type :: string
  lb_simulator_only :: bool
  lb_correlation :: "string option"
  lb_nozzle :: "int option"
  lb_expires_at :: "int option"

definition chosen_correlation :: "string option \<Rightarrow> string \<Rightarrow> string" where
  "chosen_correlation given_id request_id = (if truthy_string given_id then the given_id else request_id)"

section \<open>The pump a client means\<close>

definition resolve_pump :: "string \<Rightarrow> string \<Rightarrow> store \<Rightarrow> pump_row option" where
  "resolve_pump station pid d =
    (case pump_by_db_id pid d of
       Some p \<Rightarrow> Some p
     | None \<Rightarrow> find (\<lambda>p. pr_logical p = pid \<or> int_text (pr_address p) = pid) (pumps_of_station station d))"

definition snapshot_context :: "pump_row \<Rightarrow> snapshot_row option \<Rightarrow> pump_context" where
  "snapshot_context p snap =
    (let base = (new_context (pr_logical p) (pr_address p))\<lparr>pc_current_state := stored_state snap\<rparr>
     in case snap of
          None \<Rightarrow> base
        | Some s \<Rightarrow> base
            \<lparr>pc_previous_state := (if truthy_string (sn_previous s) then pump_state_of_value (the (sn_previous s)) else None),
             pc_selected_nozzle := sn_nozzle s, pc_active_transaction := sn_active_transaction s,
             pc_communication_healthy := sn_healthy s, pc_last_raw_status := sn_raw_status s,
             pc_state_version := nat (sn_version s)\<rparr>)"

definition resolve_pump_context :: "api_settings \<Rightarrow> string \<Rightarrow> ('w api, string \<times> int \<times> pump_context) handler" where
  "resolve_pump_context st pid s =
    (case resolve_pump (st_station st) pid (ap_store s) of
       None \<Rightarrow> raise_api ''PUMP_NOT_FOUND'' 404 [] s
     | Some p \<Rightarrow>
         return_handler (pr_id p, pr_address p,
           case session_context (ap_loop s) (pr_address p) of
             Some ctx \<Rightarrow> ctx | None \<Rightarrow> snapshot_context p (latest_snapshot (pr_id p) (ap_store s))) s)"

section \<open>Evaluation\<close>

definition preset_of :: "int option \<Rightarrow> preset_value option" where
  "preset_of raw = map_option (\<lambda>n. Preset_finite \<lparr>dec_coefficient = n, dec_exponent = 0\<rparr>) raw"

record evaluate_response =
  er_evaluation :: eligibility
  er_audit_id :: string
  er_correlation :: string

definition evaluated_command ::
  "api_settings \<Rightarrow> int \<Rightarrow> string \<Rightarrow> string \<Rightarrow> pump_command \<Rightarrow> evaluate_body \<Rightarrow> eligibility \<Rightarrow> command_row" where
  "evaluated_command st now cid pump command body e =
    (new_command cid (st_station st) (Some pump) (pump_command_value command)
       (if el_eligible e then ''ELIGIBLE'' else ''REJECTED'') (idempotency_text (Some command)) (eb_simulator_only body) now)
    \<lparr>cm_expires_at := eb_expires_at body, cm_completed_at := Some now,
     cm_request := Some (JObj [(''nozzle_id'', JOpt JInt (eb_nozzle body)), (''raw_preset_value'', JOpt JInt (eb_preset body)),
       (''preset_decimals'', JOpt JInt (eb_preset_decimals body))]),
     cm_result := Some (JObj [(''eligible'', JBool (el_eligible e))]),
     cm_blocking := Some (map blocking_text (el_blocking e))\<rparr>"

definition evaluated_audit ::
  "api_settings \<Rightarrow> string \<Rightarrow> string \<Rightarrow> pump_command \<Rightarrow> pump_context \<Rightarrow> eligibility \<Rightarrow> audit_values" where
  "evaluated_audit st cid pump command ctx e =
    \<lparr>av_actor = ''api'', av_source = ''command_evaluate'', av_action = ''COMMAND_EVALUATE:'' @ pump_command_value command,
     av_station = st_station st, av_result = (if el_eligible e then ''ELIGIBLE'' else ''REJECTED''),
     av_correlation_id = Some cid, av_pump = Some pump,
     av_previous_state = Some (pump_state_value (pc_current_state ctx)),
     av_resulting_state = Some (pump_state_value (pc_current_state ctx)),
     av_details = Some (JObj [(''blocking_reasons'', JList (map (JStr \<circ> blocking_text) (el_blocking e))),
       (''warnings'', JList (map (JStr \<circ> warning_text) (el_warnings e)))])\<rparr>"

definition announce_evaluation ::
  "api_settings \<Rightarrow> int \<Rightarrow> string \<Rightarrow> pump_command \<Rightarrow> pump_context \<Rightarrow> eligibility \<Rightarrow> ('w api, unit) handler" where
  "announce_evaluation st now cid command ctx e s =
    (let eid = db_supply (ap_store s) (db_drawn (ap_store s)) in
     (Inr (), s\<lparr>ap_store := snd (draw_uuid (ap_store s)),
        ap_broker := snd (publish_typed now eid Live_COMMAND_EVALUATED
          \<lparr>lw_station = st_station st, lw_environment = st_environment st, lw_simulated = st_simulated st,
           lw_pump = Some (pc_pump_id ctx), lw_transaction = None, lw_correlation = Some cid, lw_severity = None,
           lw_payload = Some (JObj [(''eligible'', JBool (el_eligible e)), (''command'', JStr (pump_command_value command)),
             (''blocking_reasons'', JList (map (JStr \<circ> blocking_text) (el_blocking e)))]),
           lw_state_version = None\<rparr> (ap_broker s))\<rparr>))"

definition evaluate_command ::
  "(string \<Rightarrow> string) \<Rightarrow> (int \<Rightarrow> string) \<Rightarrow> api_settings \<Rightarrow> int \<Rightarrow> string \<Rightarrow> string \<Rightarrow> evaluate_body \<Rightarrow> ('w api, evaluate_response) handler" where
  "evaluate_command sha isot st now request_id pid body s =
    (if ap_shutting_down s \<or> \<not> ap_accepting s then raise_api ''CONTROLLER_UNAVAILABLE'' 503 [] s
     else let cid = chosen_correlation (eb_correlation body) request_id in
       case pump_command_of_value (eb_type body) of
         None \<Rightarrow> raise_api ''VALIDATION_ERROR'' 422 [] s
       | Some command \<Rightarrow>
           bind_handler (resolve_pump_context st pid) (\<lambda>(pump, address, found).
             let ctx = (case eb_nozzle body of None \<Rightarrow> found | Some n \<Rightarrow> found\<lparr>pc_selected_nozzle := Some n\<rparr>) in
             case evaluate_command_eligibility command ctx (preset_of (eb_preset body)) False (st_active_enabled st) of
               Inl e \<Rightarrow> (\<lambda>s. (Inl (Api_internal e), s))
             | Inr e \<Rightarrow>
                 bind_handler
                   (work (bind_act (create_command (evaluated_command st now cid pump command body e)) (\<lambda>_.
                      append_audit sha isot now (evaluated_audit st cid pump command ctx e)))) (\<lambda>audit.
                 bind_handler (announce_evaluation st now cid command ctx e) (\<lambda>_.
                   return_handler \<lparr>er_evaluation = e, er_audit_id = au_id audit, er_correlation = cid\<rparr>))) s)"

section \<open>Laboratory commands\<close>

definition is_virtual_or_memory :: "string \<Rightarrow> bool" where
  "is_virtual_or_memory kind \<longleftrightarrow> kind \<in> {''memory'', ''serial_virtual''}"

definition text_if :: "bool \<Rightarrow> string \<Rightarrow> string list" where
  "text_if b t = (if b then [t] else [])"

definition lab_reasons :: "api_settings \<Rightarrow> 'w controller option \<Rightarrow> lab_body \<Rightarrow> string list" where
  "lab_reasons st loop body =
     text_if (upper (st_environment st) \<noteq> ''LAB'') ''environment_not_LAB''
   @ text_if (\<not> lb_simulator_only body) ''simulator_only_required''
   @ text_if (\<not> st_allow_lab st) ''allow_lab_simulator_commands_disabled''
   @ text_if (st_mode st = LISTEN_ONLY \<and>
         lb_type body \<notin> {pump_command_value READ_STATUS, pump_command_value READ_TOTALS} \<and> \<not> st_allow_lab st)
       ''LISTEN_ONLY_blocks_active_commands''
   @ (if loop = None then [''controller_loop_not_attached'']
      else text_if (\<not> is_virtual_or_memory (st_transport_kind st)) ''transport_not_virtual_or_memory'')"

definition queued_command :: "api_settings \<Rightarrow> int \<Rightarrow> string \<Rightarrow> string \<Rightarrow> int \<Rightarrow> pump_command \<Rightarrow> lab_body \<Rightarrow> command_row" where
  "queued_command st now cid pump address command body =
    (new_command cid (st_station st) (Some pump) (pump_command_value command) ''QUEUED'' (idempotency_text (Some command)) True now)
    \<lparr>cm_expires_at := lb_expires_at body,
     cm_request := Some (JObj [(''address'', JInt address), (''lab'', JBool True)])\<rparr>"

definition queued_audit :: "api_settings \<Rightarrow> string \<Rightarrow> string \<Rightarrow> pump_command \<Rightarrow> audit_values" where
  "queued_audit st cid pump command =
    \<lparr>av_actor = ''api'', av_source = ''lab_command'', av_action = ''LAB_COMMAND_QUEUED:'' @ pump_command_value command,
     av_station = st_station st, av_result = ''QUEUED'', av_correlation_id = Some cid, av_pump = Some pump,
     av_previous_state = None, av_resulting_state = None,
     av_details = Some (JObj [(''transport_kind'', JStr (st_transport_kind st))])\<rparr>"

text \<open>The item is drawn and enqueued.\<close>

definition enqueue_lab :: "(safety_reason \<Rightarrow> string) \<Rightarrow> int \<Rightarrow> int \<Rightarrow> pump_command \<Rightarrow> pump_control_command \<Rightarrow> ('w api, unit) handler" where
  "enqueue_lab say now address command cd1 s =
    (case ap_loop s of
       None \<Rightarrow> (Inl (Api_internal AssertionError), s)
     | Some c \<Rightarrow>
         let uuid = db_supply (ap_store s) (db_drawn (ap_store s)); s1 = s\<lparr>ap_store := snd (draw_uuid (ap_store s))\<rparr>
         in case queue_lab_item now (lab_item uuid now address command cd1) c of
              (Inr u, c') \<Rightarrow> (Inr (), s1\<lparr>ap_loop := Some c'\<rparr>)
            | (Inl (Outbound_rejected reasons), c') \<Rightarrow> raise_api ''COMMAND_BLOCKED'' 403 (map say reasons) s1
            | (Inl Item_expired, c') \<Rightarrow> raise_api ''COMMAND_BLOCKED'' 403 [''item_expired''] s1
            | (Inl (Queue_full n), c') \<Rightarrow> raise_api ''CONTROLLER_UNAVAILABLE'' 503 [] s1
            | (Inl Outbound_value_error, c') \<Rightarrow> (Inl (Api_internal ValueError), s1))"

definition lab_submit_command ::
  "(string \<Rightarrow> string) \<Rightarrow> (int \<Rightarrow> string) \<Rightarrow> (safety_reason \<Rightarrow> string) \<Rightarrow> api_settings \<Rightarrow> int \<Rightarrow> string \<Rightarrow> string \<Rightarrow> lab_body \<Rightarrow>
    ('w api, string) handler" where
  "lab_submit_command sha isot say st now request_id pid body s =
    (let cid = chosen_correlation (lb_correlation body) request_id; reasons = lab_reasons st (ap_loop s) body in
     case pump_command_of_value (lb_type body) of
       None \<Rightarrow> raise_api ''VALIDATION_ERROR'' 422 [] s
     | Some command \<Rightarrow>
         case map_of CD1_MAP command of
           None \<Rightarrow> raise_api ''SIMULATOR_ONLY_RESTRICTION'' 403
             (reasons @ [''command_'' @ pump_command_value command @ ''_not_supported_for_lab_enqueue'']) s
         | Some cd1 \<Rightarrow>
             if reasons \<noteq> [] then raise_api ''SIMULATOR_ONLY_RESTRICTION'' 403 reasons s
             else bind_handler (resolve_pump_context st pid) (\<lambda>(pump, address, ctx).
               bind_handler (enqueue_lab say now address command cd1) (\<lambda>_.
               bind_handler
                 (work (bind_act (create_command (queued_command st now cid pump address command body)) (\<lambda>_.
                   append_audit sha isot now (queued_audit st cid pump command)))) (\<lambda>_.
                 return_handler cid))) s)"

section \<open>What the routes do to the queue\<close>

lemma evaluate_keeps_loop: "ap_loop (snd (evaluate_command sha isot st now request_id pid body s)) = ap_loop s"
  by (auto simp: evaluate_command_def raise_api_def resolve_pump_context_def return_handler_def Let_def bind_handler_def
      announce_evaluation_def work_def split: option.split sum.split prod.split)

lemma enqueue_lab_queue:
  assumes "enqueue_lab say now address command cd1 s = (r, s')"
  shows "case r of Inl e \<Rightarrow> waiting (ap_loop s') = waiting (ap_loop s)
    | Inr u \<Rightarrow> \<exists>uuid. waiting (ap_loop s') = waiting (ap_loop s) @ [lab_item uuid now address command cd1]"
proof (cases "ap_loop s")
  case None
  with assms show ?thesis by (auto simp: enqueue_lab_def)
next
  case (Some c)
  define item where "item = lab_item (db_supply (ap_store s) (db_drawn (ap_store s))) now address command cd1"
  obtain q c' where queued: "queue_lab_item now item c = (q, c')" by fastforce
  from queue_lab_item_cases [OF queued] Some queued assms show ?thesis
    by (auto simp: enqueue_lab_def Let_def item_def [symmetric] raise_api_def waiting_def split: sum.splits outbound_error.splits)
      (auto simp: item_def)
qed

text \<open>
  C28. A client cannot reach a real pump: evaluating a command never touches the queue of the controller, and a submitted
  command adds at most one item, the CD1 form of the named command for the simulator, and only in the laboratory
  environment, over a virtual or memory transport, marked simulator-only and with laboratory commands allowed.
\<close>

theorem api_executes_only_in_lab:
  "ap_loop (snd (evaluate_command sha isot st now request_id pid body s)) = ap_loop s \<and>
   (case snd (lab_submit_command sha isot say st now request_id pid lab s) of s' \<Rightarrow>
     waiting (ap_loop s') = waiting (ap_loop s) \<or>
     (\<exists>i cd1. waiting (ap_loop s') = waiting (ap_loop s) @ [i] \<and> upper (st_environment st) = ''LAB'' \<and>
        lb_simulator_only lab \<and> st_allow_lab st \<and> is_virtual_or_memory (st_transport_kind st) \<and> oi_simulator_only i \<and>
        pump_command_of_value (lb_type lab) = Some (oi_command i) \<and> map_of CD1_MAP (oi_command i) = Some cd1 \<and>
        oi_payload i = cd1_payload cd1))"
proof (intro conjI evaluate_keeps_loop)
  define s' where "s' = snd (lab_submit_command sha isot say st now request_id pid lab s)"
  show "case snd (lab_submit_command sha isot say st now request_id pid lab s) of s' \<Rightarrow>
     waiting (ap_loop s') = waiting (ap_loop s) \<or>
     (\<exists>i cd1. waiting (ap_loop s') = waiting (ap_loop s) @ [i] \<and> upper (st_environment st) = ''LAB'' \<and>
        lb_simulator_only lab \<and> st_allow_lab st \<and> is_virtual_or_memory (st_transport_kind st) \<and> oi_simulator_only i \<and>
        pump_command_of_value (lb_type lab) = Some (oi_command i) \<and> map_of CD1_MAP (oi_command i) = Some cd1 \<and>
        oi_payload i = cd1_payload cd1)"
  proof (cases "\<exists>command cd1 p. pump_command_of_value (lb_type lab) = Some command \<and> map_of CD1_MAP command = Some cd1 \<and>
      lab_reasons st (ap_loop s) lab = [] \<and> resolve_pump (st_station st) pid (ap_store s) = Some p")
    case False
    then show ?thesis
      by (auto simp: lab_submit_command_def raise_api_def Let_def bind_handler_def resolve_pump_context_def split: option.split)
  next
    case True
    then obtain command cd1 p where known: "pump_command_of_value (lb_type lab) = Some command" "map_of CD1_MAP command = Some cd1"
      "lab_reasons st (ap_loop s) lab = []" "resolve_pump (st_station st) pid (ap_store s) = Some p" by blast
    obtain r s1 where step: "enqueue_lab say now (pr_address p) command cd1 s = (r, s1)" by fastforce
    have lab: "upper (st_environment st) = ''LAB''" "lb_simulator_only lab" "st_allow_lab st"
        "is_virtual_or_memory (st_transport_kind st)"
      using known(3) by (auto simp: lab_reasons_def text_if_def split: if_splits)
    have "ap_loop (snd (lab_submit_command sha isot say st now request_id pid lab s)) = ap_loop s1"
      using known step
      by (cases r) (auto simp: lab_submit_command_def Let_def bind_handler_def resolve_pump_context_def return_handler_def
          work_def split: prod.split sum.split)
    with enqueue_lab_queue [OF step] lab known(1,2) show ?thesis
      by (cases r) (auto simp: lab_item_def create_item_def)
  qed
qed

lemma create_known_command:
  assumes "get_command (cm_correlation_id row) d \<noteq> None"
  shows "\<exists>d'. create_command row d = (Inl IntegrityError, d')"
proof -
  from assms obtain r where "r \<in> set (db_commands d)" "cm_correlation_id r = cm_correlation_id row"
    by (auto simp: get_command_def find_None_iff)
  then have known: "cm_correlation_id row \<in> cm_correlation_id ` set (db_commands d)" by (metis imageI)
  have "\<not> commands_ok (d\<lparr>db_commands := db_commands d @ [row']\<rparr>)"
    if "cm_correlation_id row' = cm_correlation_id row" for row'
    using known by (simp add: commands_ok_def that)
  then show ?thesis by (simp add: create_command_def Let_def flush_def schema_ok_def)
qed

text \<open>
  Repeating a laboratory command repeats it on the pump: the route enqueues before it records, so a request whose
  correlation id is already recorded is answered with an internal error, leaves no trace in commands or audit, and its
  command is in the queue all the same.
\<close>

theorem repeated_lab_command_is_queued:
  fixes s :: "'w api"
  assumes "pump_command_of_value (lb_type body) = Some command" "map_of CD1_MAP command = Some cd1"
    and "lab_reasons st (ap_loop s) body = []" "resolve_pump (st_station st) pid (ap_store s) = Some p"
    and "queue_lab_item now (lab_item (db_supply (ap_store s) (db_drawn (ap_store s))) now (pr_address p) command cd1)
      (the (ap_loop s)) = (Inr (), c)"
    and "get_command (chosen_correlation (lb_correlation body) request_id) (ap_store s) \<noteq> None"
  shows "\<exists>s' i. lab_submit_command sha isot say st now request_id pid body s = (Inl (Api_internal IntegrityError), s') \<and>
    waiting (ap_loop s') = waiting (ap_loop s) @ [i] \<and> oi_command i = command \<and> oi_address i = pr_address p \<and>
    db_commands (ap_store s') = db_commands (ap_store s) \<and> db_audit (ap_store s') = db_audit (ap_store s)"
proof -
  define cid where "cid = chosen_correlation (lb_correlation body) request_id"
  define item where "item = lab_item (db_supply (ap_store s) (db_drawn (ap_store s))) now (pr_address p) command cd1"
  define d1 where "d1 = snd (draw_uuid (ap_store s))"
  define s1 where "s1 = s\<lparr>ap_store := d1, ap_loop := Some c\<rparr>"
  from assms(3) obtain c0 where loop: "ap_loop s = Some c0" by (auto simp: lab_reasons_def split: if_splits)
  have step: "enqueue_lab say now (pr_address p) command cd1 s = (Inr (), s1)"
    using assms(5) by (simp add: enqueue_lab_def loop Let_def s1_def d1_def)
  have row: "cm_correlation_id (queued_command st now cid (pr_id p) (pr_address p) command body) = cid"
    by (simp add: queued_command_def new_command_def)
  have "get_command cid d1 \<noteq> None" using assms(6) by (simp add: d1_def draw_uuid_def get_command_def cid_def)
  then obtain d2 where d2: "create_command (queued_command st now cid (pr_id p) (pr_address p) command body) d1 =
      (Inl IntegrityError, d2)" using create_known_command row by metis
  have "lab_submit_command sha isot say st now request_id pid body s =
      (Inl (Api_internal IntegrityError), s1\<lparr>ap_store := d1\<lparr>db_drawn := db_drawn d2\<rparr>\<rparr>)"
    using assms(1-4) step d2
    by (simp add: lab_submit_command_def Let_def bind_handler_def resolve_pump_context_def return_handler_def work_def
        unit_of_work_def bind_act_def s1_def cid_def)
  moreover have "waiting (Some c) = waiting (ap_loop s) @ [item]"
    using queue_lab_item_cases [OF assms(5)] by (simp add: waiting_def loop item_def)
  moreover have "oi_command item = command" "oi_address item = pr_address p" by (simp_all add: item_def lab_item_def create_item_def)
  ultimately show ?thesis by (simp add: s1_def d1_def draw_uuid_def)
qed

definition lab_settings :: api_settings where
  "lab_settings = \<lparr>st_station = ''S'', st_environment = ''LAB'', st_simulated = True, st_active_enabled = False,
     st_allow_lab = True, st_mode = LISTEN_ONLY, st_transport_kind = ''memory''\<rparr>"

text \<open>A pump that is filling and a STOP that was recorded before.\<close>

definition stopped_before :: "unit api" where
  "stopped_before = \<lparr>ap_store = filling_pump\<lparr>db_commands := [new_command ''C'' ''S'' (Some ''X'') ''STOP'' ''QUEUED''
       ''NON_IDEMPOTENT'' True 0]\<rparr>, ap_loop = Some lab_loop, ap_broker = new_broker 1 1 1, ap_shutting_down = False,
     ap_accepting = True\<rparr>"

definition stop_body :: lab_body where
  "stop_body = \<lparr>lb_type = ''STOP'', lb_simulator_only = True, lb_correlation = Some ''C'', lb_nozzle = None, lb_expires_at = None\<rparr>"

theorem repeated_lab_command_is_queued_witness:
  "\<exists>s' i. lab_submit_command id int_text (\<lambda>r. '''') lab_settings 0 ''R'' ''P'' stop_body stopped_before =
      (Inl (Api_internal IntegrityError), s') \<and>
    waiting (ap_loop s') = waiting (ap_loop stopped_before) @ [i] \<and> oi_command i = STOP \<and> oi_address i = 1 \<and>
    db_commands (ap_store s') = db_commands (ap_store stopped_before) \<and> db_audit (ap_store s') = db_audit (ap_store stopped_before)"
proof -
  define p where "p = \<lparr>pr_id = ''X'', pr_station = ''S'', pr_logical = ''P'', pr_address = 1, pr_enabled = True, pr_created_at = 0,
    pr_updated_at = 0\<rparr>"
  have parsed: "pump_command_of_value (lb_type stop_body) = Some STOP"
    using pump_command_of_value [of STOP] by (simp add: stop_body_def)
  have cd1: "map_of CD1_MAP STOP = Some Command_STOP" by (simp add: CD1_MAP_def)
  have reasons: "lab_reasons lab_settings (ap_loop stopped_before) stop_body = []"
    by (simp add: lab_reasons_def text_if_def lab_settings_def stop_body_def stopped_before_def upper_def upper_char_def
        is_virtual_or_memory_def)
  have pump: "resolve_pump (st_station lab_settings) ''P'' (ap_store stopped_before) = Some p"
    by (simp add: resolve_pump_def pump_by_db_id_def pumps_of_station_def lab_settings_def stopped_before_def filling_pump_def
        p_def)
  have room: "length (oq_items (cl_outbound lab_loop)) < oq_max_size (cl_outbound lab_loop)" using lab_loop_is_lab(2) by simp
  have queued: "\<exists>c. queue_lab_item 0 (lab_item (db_supply (ap_store stopped_before) (db_drawn (ap_store stopped_before))) 0
      (pr_address p) STOP Command_STOP) (the (ap_loop stopped_before)) = (Inr (), c)"
    using queue_lab_item_works [OF lab_loop_is_lab(1) room] by (simp add: stopped_before_def)
  have known: "get_command (chosen_correlation (lb_correlation stop_body) ''R'') (ap_store stopped_before) \<noteq> None"
    by (simp add: get_command_def chosen_correlation_def stop_body_def stopped_before_def new_command_def)
  have address: "pr_address p = 1" by (simp add: p_def)
  from queued obtain c where c: "queue_lab_item 0 (lab_item (db_supply (ap_store stopped_before) (db_drawn (ap_store stopped_before)))
      0 (pr_address p) STOP Command_STOP) (the (ap_loop stopped_before)) = (Inr (), c)" by blast
  show ?thesis
    using repeated_lab_command_is_queued [OF parsed cd1 reasons pump c known, of id int_text "\<lambda>r. ''''"] address by simp
qed

end
