(* ===== verification/Cloud_Topics.thy ===== *)
theory Cloud_Topics
  imports Db_Queue
begin

text \<open>
  \<open>cloud/topics.py\<close> and the topic filter of \<open>cloud/mqtt/fake.py\<close>: the names messages are published under and what a
  subscription matches.
\<close>

section \<open>Topics\<close>

definition FORBIDDEN :: "string list" where
  "FORBIDDEN = [''+'', ''#'', ''..'', ''/'', [CHR 0x5C], [CHR 0x00]]"

definition id_start :: "char \<Rightarrow> bool" where
  "id_start c \<longleftrightarrow> (let n = (of_char c :: nat) in
     65 \<le> n \<and> n \<le> 90 \<or> 97 \<le> n \<and> n \<le> 122 \<or> 48 \<le> n \<and> n \<le> 57)"

definition id_char :: "char \<Rightarrow> bool" where
  "id_char c \<longleftrightarrow> id_start c \<or> c \<in> {CHR ''.'', CHR ''_'', CHR '':'', CHR ''-''}"

text \<open>\<open>_ID_RE.fullmatch\<close>.\<close>

fun matches_id :: "string \<Rightarrow> bool" where
  "matches_id [] = False"
| "matches_id (c # cs) \<longleftrightarrow> id_start c \<and> list_all id_char cs \<and> length cs \<le> 127"

definition validate_id :: "string \<Rightarrow> string result" where
  "validate_id value =
    (if value = [] \<or> strip value = [] then Inl TopicError
     else let v = strip value in
       if list_ex (\<lambda>bad. contains_text bad v) FORBIDDEN then Inl TopicError
       else if \<not> matches_id v then Inl TopicError
       else Inr v)"

definition env_segment :: "string \<Rightarrow> string result" where
  "env_segment environment =
    (let env = upper (strip environment) in
     if env = ''LAB'' then Inr ''lab''
     else if env \<in> {''PROD'', ''PRODUCTION''} then Inr ''prod''
     else Inl TopicError)"

record topic_builder =
  tb_environment :: string
  tb_segment :: string

definition new_topics :: "string \<Rightarrow> topic_builder result" where
  "new_topics environment =
    (let env = upper (strip environment) in
     bind_result (env_segment env) (\<lambda>seg. Inr \<lparr>tb_environment = env, tb_segment = seg\<rparr>))"

definition topic_root :: "topic_builder \<Rightarrow> string" where
  "topic_root tb = ''intelipump/'' @ tb_segment tb"

definition heartbeat_topic :: "topic_builder \<Rightarrow> string \<Rightarrow> string result" where
  "heartbeat_topic tb device =
    bind_result (validate_id device) (\<lambda>d. Inr (topic_root tb @ ''/devices/'' @ d @ ''/heartbeat''))"

definition device_status_topic :: "topic_builder \<Rightarrow> string \<Rightarrow> string result" where
  "device_status_topic tb device =
    bind_result (validate_id device) (\<lambda>d. Inr (topic_root tb @ ''/devices/'' @ d @ ''/status''))"

definition pump_events_topic :: "topic_builder \<Rightarrow> string \<Rightarrow> string \<Rightarrow> string result" where
  "pump_events_topic tb station pump =
    bind_result (validate_id station) (\<lambda>s. bind_result (validate_id pump) (\<lambda>p.
      Inr (topic_root tb @ ''/stations/'' @ s @ ''/pumps/'' @ p @ ''/events'')))"

definition transactions_topic :: "topic_builder \<Rightarrow> string \<Rightarrow> string result" where
  "transactions_topic tb station =
    bind_result (validate_id station) (\<lambda>s. Inr (topic_root tb @ ''/stations/'' @ s @ ''/transactions''))"

definition alarms_topic :: "topic_builder \<Rightarrow> string \<Rightarrow> string result" where
  "alarms_topic tb station =
    bind_result (validate_id station) (\<lambda>s. Inr (topic_root tb @ ''/stations/'' @ s @ ''/alarms''))"

definition audit_topic :: "topic_builder \<Rightarrow> string \<Rightarrow> string result" where
  "audit_topic tb station =
    bind_result (validate_id station) (\<lambda>s. Inr (topic_root tb @ ''/stations/'' @ s @ ''/audit''))"

definition commands_topic :: "topic_builder \<Rightarrow> string \<Rightarrow> string result" where
  "commands_topic tb station =
    bind_result (validate_id station) (\<lambda>s. Inr (topic_root tb @ ''/stations/'' @ s @ ''/commands''))"

definition command_result_topic :: "topic_builder \<Rightarrow> string \<Rightarrow> string \<Rightarrow> string result" where
  "command_result_topic tb station correlation =
    bind_result (validate_id station) (\<lambda>s. bind_result (validate_id correlation) (\<lambda>c.
      Inr (topic_root tb @ ''/stations/'' @ s @ ''/commands/'' @ c @ ''/result'')))"

definition lab_wildcard :: "topic_builder \<Rightarrow> string result" where
  "lab_wildcard tb = (if tb_segment tb \<noteq> ''lab'' then Inl TopicError else Inr ''intelipump/lab/#'')"

section \<open>Which topics a subscription receives\<close>

text \<open>\<open>text.split("/")\<close>.\<close>

fun split_levels :: "string \<Rightarrow> string list" where
  "split_levels [] = [[]]"
| "split_levels (c # cs) =
    (if c = CHR ''/'' then [] # split_levels cs
     else case split_levels cs of [] \<Rightarrow> [[c]] | l # ls \<Rightarrow> (c # l) # ls)"

definition starts_with :: "string \<Rightarrow> string \<Rightarrow> bool" where
  "starts_with part s \<longleftrightarrow> take (length part) s = part"

definition topic_match :: "string \<Rightarrow> string \<Rightarrow> bool" where
  "topic_match subscription topic =
    (if subscription = topic then True
     else if starts_with (rev ''/#'') (rev subscription) then
       (let prefix = take (length subscription - 2) subscription in
        topic = prefix \<or> starts_with (prefix @ ''/'') topic)
     else if contains_text ''+'' subscription then
       (let sp = split_levels subscription; tp = split_levels topic in
        if length sp \<noteq> length tp then False
        else list_all (\<lambda>(a, b). a = ''+'' \<or> a = b) (zip sp tp))
     else False)"

section \<open>Topics read back\<close>

text \<open>The methods of the builder as calls, and what a reader of a topic takes it for.\<close>

datatype topic_call =
    Heartbeat_call string
  | Device_status_call string
  | Pump_events_call string string
  | Transactions_call string
  | Alarms_call string
  | Audit_call string
  | Commands_call string
  | Command_result_call string string

fun topic_of :: "topic_builder \<Rightarrow> topic_call \<Rightarrow> string result" where
  "topic_of tb (Heartbeat_call d) = heartbeat_topic tb d"
| "topic_of tb (Device_status_call d) = device_status_topic tb d"
| "topic_of tb (Pump_events_call s p) = pump_events_topic tb s p"
| "topic_of tb (Transactions_call s) = transactions_topic tb s"
| "topic_of tb (Alarms_call s) = alarms_topic tb s"
| "topic_of tb (Audit_call s) = audit_topic tb s"
| "topic_of tb (Commands_call s) = commands_topic tb s"
| "topic_of tb (Command_result_call s c) = command_result_topic tb s c"

fun stripped :: "topic_call \<Rightarrow> topic_call" where
  "stripped (Heartbeat_call d) = Heartbeat_call (strip d)"
| "stripped (Device_status_call d) = Device_status_call (strip d)"
| "stripped (Pump_events_call s p) = Pump_events_call (strip s) (strip p)"
| "stripped (Transactions_call s) = Transactions_call (strip s)"
| "stripped (Alarms_call s) = Alarms_call (strip s)"
| "stripped (Audit_call s) = Audit_call (strip s)"
| "stripped (Commands_call s) = Commands_call (strip s)"
| "stripped (Command_result_call s c) = Command_result_call (strip s) (strip c)"

definition read_levels :: "string list \<Rightarrow> (string \<times> topic_call) option" where
  "read_levels ls =
    (case ls of
       [a, seg, kind, x, leaf] \<Rightarrow>
         if a \<noteq> ''intelipump'' then None
         else if kind = ''devices'' \<and> leaf = ''heartbeat'' then Some (seg, Heartbeat_call x)
         else if kind = ''devices'' \<and> leaf = ''status'' then Some (seg, Device_status_call x)
         else if kind = ''stations'' \<and> leaf = ''transactions'' then Some (seg, Transactions_call x)
         else if kind = ''stations'' \<and> leaf = ''alarms'' then Some (seg, Alarms_call x)
         else if kind = ''stations'' \<and> leaf = ''audit'' then Some (seg, Audit_call x)
         else if kind = ''stations'' \<and> leaf = ''commands'' then Some (seg, Commands_call x)
         else None
     | [a, seg, kind, x, part, y, leaf] \<Rightarrow>
         if a \<noteq> ''intelipump'' \<or> kind \<noteq> ''stations'' then None
         else if part = ''pumps'' \<and> leaf = ''events'' then Some (seg, Pump_events_call x y)
         else if part = ''commands'' \<and> leaf = ''result'' then Some (seg, Command_result_call x y)
         else None
     | _ \<Rightarrow> None)"

lemma split_levels_last: "CHR ''/'' \<notin> set l \<Longrightarrow> split_levels l = [l]"
  by (induction l) auto

lemma split_levels_first: "CHR ''/'' \<notin> set l \<Longrightarrow> split_levels (l @ CHR ''/'' # rest) = l # split_levels rest"
  by (induction l) auto

lemma matches_id_chars: "matches_id v \<Longrightarrow> list_all id_char v"
  by (cases v) (simp_all add: id_char_def)

lemma id_char_plain: "id_char c \<Longrightarrow> c \<noteq> CHR ''/'' \<and> c \<noteq> CHR ''+'' \<and> c \<noteq> CHR ''#''"
  by (auto simp: id_char_def id_start_def Let_def)

lemma validated_plain:
  assumes "validate_id x = Inr v"
  shows "CHR ''/'' \<notin> set v" "CHR ''+'' \<notin> set v" "CHR ''#'' \<notin> set v" "v = strip x"
proof -
  from assms have "list_all id_char v"
    by (auto simp: validate_id_def Let_def matches_id_chars split: if_splits)
  then show "CHR ''/'' \<notin> set v" "CHR ''+'' \<notin> set v" "CHR ''#'' \<notin> set v"
    using id_char_plain by (auto simp: list_all_iff)
  from assms show "v = strip x" by (auto simp: validate_id_def Let_def split: if_splits)
qed

lemma new_topics_segment: "new_topics env = Inr tb \<Longrightarrow> tb_segment tb = ''lab'' \<or> tb_segment tb = ''prod''"
  by (auto simp: new_topics_def env_segment_def Let_def split: if_splits)

lemmas topic_defs = heartbeat_topic_def device_status_topic_def pump_events_topic_def transactions_topic_def
  alarms_topic_def audit_topic_def commands_topic_def command_result_topic_def topic_root_def

text \<open>A topic, level by level.\<close>

fun call_levels :: "topic_call \<Rightarrow> string list" where
  "call_levels (Heartbeat_call d) = [''devices'', d, ''heartbeat'']"
| "call_levels (Device_status_call d) = [''devices'', d, ''status'']"
| "call_levels (Pump_events_call s p) = [''stations'', s, ''pumps'', p, ''events'']"
| "call_levels (Transactions_call s) = [''stations'', s, ''transactions'']"
| "call_levels (Alarms_call s) = [''stations'', s, ''alarms'']"
| "call_levels (Audit_call s) = [''stations'', s, ''audit'']"
| "call_levels (Commands_call s) = [''stations'', s, ''commands'']"
| "call_levels (Command_result_call s c) = [''stations'', s, ''commands'', c, ''result'']"

lemma read_call_levels: "read_levels (''intelipump'' # seg # call_levels k) = Some (seg, k)"
  by (cases k) (simp_all add: read_levels_def)

text \<open>The levels of a text given as its levels joined by slashes.\<close>

fun join_levels :: "string list \<Rightarrow> string" where
  "join_levels [] = []"
| "join_levels [l] = l"
| "join_levels (l # m # ls) = l @ ''/'' @ join_levels (m # ls)"

lemma split_join: "ls \<noteq> [] \<Longrightarrow> list_all (\<lambda>l. CHR ''/'' \<notin> set l) ls \<Longrightarrow> split_levels (join_levels ls) = ls"
  by (induction ls rule: join_levels.induct) (simp_all add: split_levels_last split_levels_first)

lemma not_in_join: "c \<noteq> CHR ''/'' \<Longrightarrow> list_all (\<lambda>l. c \<notin> set l) ls \<Longrightarrow> c \<notin> set (join_levels ls)"
  by (induction ls rule: join_levels.induct) auto

lemma bind_validate:
  "bind_result (validate_id x) f = Inr t \<longleftrightarrow> validate_id x = Inr (strip x) \<and> f (strip x) = Inr t"
  by (auto simp: bind_result_Inr_iff dest: validated_plain(4))

lemma plain_strip:
  assumes "validate_id x = Inr (strip x)"
  shows "CHR ''/'' \<notin> set (strip x)" "CHR ''+'' \<notin> set (strip x)" "CHR ''#'' \<notin> set (strip x)"
  using validated_plain [OF assms] by simp_all

lemma topic_joined:
  assumes "topic_of tb k = Inr t"
  shows "t = join_levels (''intelipump'' # tb_segment tb # call_levels (stripped k))"
  using assms by (cases k) (simp_all add: topic_defs bind_validate)

lemma call_levels_plain:
  assumes "topic_of tb k = Inr t"
  shows "list_all (\<lambda>l. CHR ''/'' \<notin> set l \<and> CHR ''+'' \<notin> set l \<and> CHR ''#'' \<notin> set l) (call_levels (stripped k))"
  using assms by (cases k) (simp_all add: topic_defs bind_validate plain_strip)

lemma topic_levels:
  assumes "topic_of tb k = Inr t" "CHR ''/'' \<notin> set (tb_segment tb)"
  shows "split_levels t = ''intelipump'' # tb_segment tb # call_levels (stripped k)"
  unfolding topic_joined [OF assms(1)] using assms(2) call_levels_plain [OF assms(1)]
  by (intro split_join) (auto simp: list_all_iff)

text \<open>
  A topic says what it is: whatever ids the builder accepts, a topic it builds reads back as the environment of the
  builder, the method that was called and the ids without surrounding blanks. So an id can neither add a level nor
  make two topics meet, and no topic holds a wildcard.
\<close>

theorem topics_read_back:
  assumes "new_topics env = Inr tb" "topic_of tb k = Inr t"
  shows "read_levels (split_levels t) = Some (tb_segment tb, stripped k) \<and> CHR ''+'' \<notin> set t \<and> CHR ''#'' \<notin> set t"
proof -
  have plain: "c \<notin> set (tb_segment tb)" if "c \<in> {CHR ''/'', CHR ''+'', CHR ''#''}" for c
    using new_topics_segment [OF assms(1)] that by auto
  then have levels: "read_levels (split_levels t) = Some (tb_segment tb, stripped k)"
    using topic_levels [OF assms(2)] by (simp add: read_call_levels)
  have "list_all (\<lambda>l. CHR ''+'' \<notin> set l) (call_levels (stripped k))"
    "list_all (\<lambda>l. CHR ''#'' \<notin> set l) (call_levels (stripped k))"
    using call_levels_plain [OF assms(2)] by (simp_all add: list_all_iff)
  with plain have "CHR ''+'' \<notin> set t \<and> CHR ''#'' \<notin> set t"
    unfolding topic_joined [OF assms(2)] by (intro conjI not_in_join) simp_all
  with levels show ?thesis by blast
qed

lemmas id_defs = validate_id_def strip_def is_blank_def id_start_def id_char_def FORBIDDEN_def

theorem topics_read_back_witness:
  "read_levels (split_levels ''intelipump/lab/stations/st:1/pumps/p-2/events'') =
     Some (''lab'', Pump_events_call ''st:1'' ''p-2'')"
proof -
  have "new_topics '' LAB'' = Inr \<lparr>tb_environment = ''LAB'', tb_segment = ''lab''\<rparr>"
    by (simp add: new_topics_def env_segment_def upper_def upper_char_def strip_def is_blank_def Let_def)
  moreover have "topic_of \<lparr>tb_environment = ''LAB'', tb_segment = ''lab''\<rparr> (Pump_events_call ''st:1'' '' p-2 '') =
      Inr ''intelipump/lab/stations/st:1/pumps/p-2/events''"
    by (simp add: topic_defs id_defs)
  ultimately have "read_levels (split_levels ''intelipump/lab/stations/st:1/pumps/p-2/events'') =
      Some (''lab'', stripped (Pump_events_call ''st:1'' '' p-2 ''))"
    using topics_read_back by fastforce
  then show ?thesis by (simp add: strip_def is_blank_def)
qed

text \<open>A laboratory wildcard receives what is published in the laboratory and nothing else.\<close>

lemma lab_wildcard_match:
  assumes "new_topics env = Inr tb" "topic_of tb k = Inr t"
  shows "topic_match ''intelipump/lab/#'' t \<longleftrightarrow> tb_segment tb = ''lab''"
  using assms(2) new_topics_segment [OF assms(1)]
  by (cases k) (auto simp: topic_match_def starts_with_def topic_defs bind_validate)

end
