(* ===== verification/Cloud_Messages.thy ===== *)
theory Cloud_Messages
  imports Cloud_Topics
begin

text \<open>
  \<open>cloud/qos.py\<close>, \<open>cloud/messages.py\<close> and \<open>cloud/delivery.py\<close>: quality of service, the envelope of a message, and the
  message an entry of the queue becomes. The text of a message is its JSON value.
\<close>

section \<open>Quality of service\<close>

definition qos_table :: "(string \<times> nat) list" where
  "qos_table =
    [(''HEARTBEAT'', 0), (''DEVICE_ONLINE'', 1), (''DEVICE_OFFLINE'', 1), (''STATE_CHANGED'', 1),
     (''PUMP_STATE_CHANGED'', 1), (''FILLING_UPDATED'', 0), (''FILLING_STARTED'', 1), (''FILLING_COMPLETED'', 1),
     (''TRANSACTION_STARTED'', 1), (''TRANSACTION_COMPLETED'', 1), (''ALARM_ACTIVE'', 1), (''ALARM_RAISED'', 1),
     (''ALARM_CLEARED'', 1), (''AUDIT_EVENT'', 1), (''COMMAND_RESULT'', 1), (''COMMAND_INTAKE'', 1)]"

definition qos_for_event :: "string \<Rightarrow> nat" where
  "qos_for_event event_type = (case map_of qos_table event_type of None \<Rightarrow> 1 | Some n \<Rightarrow> n)"

section \<open>Envelopes\<close>

definition MESSAGE_SCHEMA_VERSION :: string where
  "MESSAGE_SCHEMA_VERSION = ''1.0''"

record envelope =
  nv_message_id :: string
  nv_event_type :: string
  nv_schema_version :: string
  nv_environment :: string
  nv_device :: string
  nv_station :: string
  nv_sequence :: nat
  nv_occurred_at :: string
  nv_published_at :: string
  nv_simulated :: bool
  nv_key :: string
  nv_payload :: "(string \<times> json) list"
  nv_pump :: "string option"
  nv_transaction :: "string option"
  nv_correlation :: "string option"

definition envelope_dict :: "envelope \<Rightarrow> json" where
  "envelope_dict e = JObj
    [(''messageId'', JStr (nv_message_id e)), (''eventType'', JStr (nv_event_type e)),
     (''schemaVersion'', JStr (nv_schema_version e)), (''environment'', JStr (nv_environment e)),
     (''deviceId'', JStr (nv_device e)), (''stationId'', JStr (nv_station e)), (''pumpId'', JOpt JStr (nv_pump e)),
     (''transactionId'', JOpt JStr (nv_transaction e)), (''correlationId'', JOpt JStr (nv_correlation e)),
     (''simulated'', JBool (nv_simulated e)), (''sequence'', JInt (int (nv_sequence e))),
     (''occurredAt'', JStr (nv_occurred_at e)), (''publishedAt'', JStr (nv_published_at e)),
     (''payload'', JObj (nv_payload e)), (''deduplicationKey'', JStr (nv_key e))]"

definition MONEY_VOLUME_KEYS :: "string list" where
  "MONEY_VOLUME_KEYS =
    [''raw_volume'', ''raw_amount'', ''raw_price'', ''raw_unit_price'', ''volume'', ''amount'', ''price'', ''unitPrice'',
     ''rawVolume'', ''rawAmount'', ''rawPrice'', ''rawUnitPrice'']"

definition lower_char :: "char \<Rightarrow> char" where
  "lower_char c = (if 65 \<le> (of_char c :: nat) \<and> (of_char c :: nat) \<le> 90 then char_of ((of_char c :: nat) + 32) else c)"

definition is_float :: "json \<Rightarrow> bool" where
  "is_float v = (case v of JFloat t \<Rightarrow> True | _ \<Rightarrow> False)"

definition float_money :: "string \<times> json \<Rightarrow> bool" where
  "float_money kv \<longleftrightarrow>
    fst kv \<in> set MONEY_VOLUME_KEYS \<and> is_float (snd kv) \<or>
    is_float (snd kv) \<and> map lower_char (fst kv) \<in> {''volume'', ''amount'', ''price'', ''money''}"

text \<open>The keyword arguments of \<open>build_envelope\<close>; \<open>uuid\<close> is what \<open>uuid4\<close> would draw and \<open>now\<close> the text of the present.\<close>

record envelope_values =
  ev_event_type :: string
  ev_environment :: string
  ev_device :: string
  ev_station :: string
  ev_sequence :: nat
  ev_simulated :: bool
  ev_key :: string
  ev_payload :: "(string \<times> json) list"
  ev_occurred_at :: "string option"
  ev_pump :: "string option"
  ev_transaction :: "string option"
  ev_correlation :: "string option"
  ev_message_id :: "string option"

definition or_text :: "string option \<Rightarrow> string \<Rightarrow> string" where
  "or_text t other = (if truthy_string t then the t else other)"

definition build_envelope :: "string \<Rightarrow> string \<Rightarrow> envelope_values \<Rightarrow> envelope result" where
  "build_envelope now uuid v =
    (if list_ex float_money (ev_payload v) then Inl ValueError
     else Inr
       \<lparr>nv_message_id = or_text (ev_message_id v) uuid, nv_event_type = ev_event_type v,
        nv_schema_version = MESSAGE_SCHEMA_VERSION, nv_environment = upper (ev_environment v),
        nv_device = ev_device v, nv_station = ev_station v, nv_sequence = ev_sequence v,
        nv_occurred_at = or_text (ev_occurred_at v) now, nv_published_at = now, nv_simulated = ev_simulated v,
        nv_key = ev_key v, nv_payload = ev_payload v, nv_pump = ev_pump v, nv_transaction = ev_transaction v,
        nv_correlation = ev_correlation v\<rparr>)"

section \<open>Reading a payload\<close>

text \<open>\<open>payload.get(key)\<close>, the truth value of a JSON value, and \<open>a or b\<close>.\<close>

definition field :: "(string \<times> json) list \<Rightarrow> string \<Rightarrow> json" where
  "field kvs k = (case map_of kvs k of None \<Rightarrow> JNull | Some v \<Rightarrow> v)"

fun truthy :: "json \<Rightarrow> bool" where
  "truthy JNull = False"
| "truthy (JBool b) = b"
| "truthy (JInt n) \<longleftrightarrow> n \<noteq> 0"
| "truthy (JFloat t) \<longleftrightarrow> t \<noteq> ''0.0'' \<and> t \<noteq> ''-0.0''"
| "truthy (JStr s) \<longleftrightarrow> s \<noteq> []"
| "truthy (JList vs) \<longleftrightarrow> vs \<noteq> []"
| "truthy (JObj kvs) \<longleftrightarrow> kvs \<noteq> []"

definition or_json :: "json \<Rightarrow> json \<Rightarrow> json" where
  "or_json a b = (if truthy a then a else b)"

text \<open>\<open>repr\<close> of a text and of a value, and \<open>_as_str\<close>, which is \<open>str\<close> but for \<open>None\<close>.\<close>

definition printable :: "nat \<Rightarrow> bool" where
  "printable n \<longleftrightarrow> 32 \<le> n \<and> n \<le> 126 \<or> 161 \<le> n \<and> n \<noteq> 173"

definition repr_char :: "char \<Rightarrow> char \<Rightarrow> string" where
  "repr_char quote c =
    (if c = quote \<or> c = CHR 0x5C then [CHR 0x5C, c]
     else if c = CHR 0x0A then [CHR 0x5C, CHR ''n'']
     else if c = CHR 0x0D then [CHR 0x5C, CHR ''r'']
     else if c = CHR 0x09 then [CHR 0x5C, CHR ''t'']
     else if printable (of_char c) then [c]
     else [CHR 0x5C, CHR ''x'', hex_digit (of_char c div 16), hex_digit (of_char c mod 16)])"

definition repr_text :: "string \<Rightarrow> string" where
  "repr_text s =
    (let quote = (if CHR 0x27 \<in> set s \<and> CHR 0x22 \<notin> set s then CHR 0x22 else CHR 0x27)
     in [quote] @ concat (map (repr_char quote) s) @ [quote])"

fun comma_joined :: "string list \<Rightarrow> string" where
  "comma_joined [] = []"
| "comma_joined [s] = s"
| "comma_joined (s # t # ts) = s @ '', '' @ comma_joined (t # ts)"

fun repr_json :: "json \<Rightarrow> string" where
  "repr_json JNull = ''None''"
| "repr_json (JBool b) = (if b then ''True'' else ''False'')"
| "repr_json (JInt n) = int_text n"
| "repr_json (JFloat t) = t"
| "repr_json (JStr s) = repr_text s"
| "repr_json (JList vs) = ''['' @ comma_joined (map repr_json vs) @ '']''"
| "repr_json (JObj kvs) = ''{'' @ comma_joined (map (\<lambda>kv. repr_text (fst kv) @ '': '' @ repr_json (snd kv)) kvs) @ ''}''"

definition as_str :: "json \<Rightarrow> string option" where
  "as_str v = (case v of JNull \<Rightarrow> None | JStr s \<Rightarrow> Some s | _ \<Rightarrow> Some (repr_json v))"

section \<open>The mapper\<close>

record mapper =
  mp_topics :: topic_builder
  mp_device :: string
  mp_station :: string
  mp_environment :: string
  mp_simulated :: bool
  mp_seq :: nat

definition topic_for :: "mapper \<Rightarrow> string \<Rightarrow> string option \<Rightarrow> string result" where
  "topic_for m event_type pump =
    (if starts_with ''TRANSACTION'' event_type then transactions_topic (mp_topics m) (mp_station m)
     else if starts_with ''ALARM'' event_type then alarms_topic (mp_topics m) (mp_station m)
     else if starts_with ''AUDIT'' event_type then audit_topic (mp_topics m) (mp_station m)
     else if truthy_string pump then pump_events_topic (mp_topics m) (mp_station m) (the pump)
     else transactions_topic (mp_topics m) (mp_station m))"

text \<open>
  The payload column holds an object; \<open>dict\<close> raises on another value. The sequence number is drawn after the topic is known
  and stays drawn when the envelope is refused.
\<close>

definition map_record :: "string \<Rightarrow> (nat \<Rightarrow> string) \<Rightarrow> sync_row \<Rightarrow> (mapper, string \<times> envelope \<times> nat) action" where
  "map_record now ids r = read_act (\<lambda>m.
    case sq_payload r of
      JObj kvs \<Rightarrow>
        (let pump = as_str (or_json (field kvs ''pump_id'') (field kvs ''logical_pump_id''));
             transaction = as_str (or_json (field kvs ''transaction_uuid'') (field kvs ''transaction_id''));
             n = mp_seq m + 1
         in bind_act (result_act (topic_for m (sq_event_type r) pump)) (\<lambda>topic.
              then_act (modify_act (\<lambda>m. m\<lparr>mp_seq := n\<rparr>))
                (bind_act (result_act (build_envelope now (ids n)
                    \<lparr>ev_event_type = sq_event_type r, ev_environment = mp_environment m, ev_device = mp_device m,
                     ev_station = mp_station m, ev_sequence = n,
                     ev_simulated = (case map_of kvs ''simulated'' of None \<Rightarrow> mp_simulated m | Some v \<Rightarrow> truthy v),
                     ev_key = sq_key r, ev_payload = kvs, ev_occurred_at = as_str (field kvs ''occurred_at''),
                     ev_pump = pump, ev_transaction = transaction,
                     ev_correlation = as_str (field kvs ''correlation_id''), ev_message_id = None\<rparr>))
                  (\<lambda>e. return_act (topic, e, qos_for_event (sq_event_type r))))))
    | _ \<Rightarrow> result_act (Inl TypeError))"

end
