(* ===== verification/Cloud_Sync.thy ===== *)
theory Cloud_Sync
  imports Cloud_Messages Complex_Main
begin

text \<open>
  \<open>cloud/backoff.py\<close> and \<open>cloud/sync_worker.py\<close>: the worker that claims entries of the queue, publishes them and records
  the outcome. The MQTT client is used through the interface of \<open>cloud/mqtt/base.py\<close>; it, the clock, the random jitter
  and the wording of exceptions are the environment. A float is the rational it stands for.
\<close>

section \<open>Backoff\<close>

text \<open>
  With the default arguments; \<open>u\<close> is the draw of \<open>random.uniform(-0.2, 0.2)\<close>. The product \<open>base * (2**exp)\<close> converts a
  power of two to a float, which fails from \<open>2**1024\<close> on.
\<close>

definition compute_backoff_seconds :: "nat \<Rightarrow> rat \<Rightarrow> rat result" where
  "compute_backoff_seconds attempt u =
    (let power = attempt - 1 in
     if 1024 \<le> power then Inl OverflowError
     else let delay = min 60 (1 * 2 ^ power) in Inr (max (1 / 10) (delay * (1 + u))))"

lemma backoff_bounds:
  assumes "compute_backoff_seconds attempt u = Inr b" "- (1 / 5) \<le> u" "u \<le> 1 / 5"
  shows "1 / 10 \<le> b" "b \<le> 72"
proof -
  define delay :: rat where "delay = min 60 (1 * 2 ^ (attempt - 1))"
  from assms(1) have b: "b = max (1 / 10) (delay * (1 + u))"
    by (auto simp: compute_backoff_seconds_def Let_def delay_def split: if_splits)
  have "0 \<le> delay" "delay \<le> 60" by (simp_all add: delay_def)
  then have "delay * (1 + u) \<le> 60 * (6 / 5)" using assms(2,3) by (intro mult_mono) auto
  with b show "1 / 10 \<le> b" "b \<le> 72" by auto
qed

section \<open>State\<close>

record 'w cloud =
  cd_now :: "'w \<Rightarrow> int"
  cd_connected :: "'w \<Rightarrow> bool"
  cd_publish :: "string \<Rightarrow> json \<Rightarrow> nat \<Rightarrow> bool \<Rightarrow> ('w, bool) action"
  cd_jitter :: "'w \<Rightarrow> rat"
  cd_text :: "py_error \<Rightarrow> string"
  cd_iso :: "int \<Rightarrow> string"
  cd_ids :: "nat \<Rightarrow> string"

record sync_stats =
  ys_delivered :: nat
  ys_failed :: nat
  ys_skipped :: nat
  ys_last_delivery :: "int option"
  ys_last_error :: "string option"

record 'w sync_worker =
  yw_store :: store
  yw_world :: 'w
  yw_mapper :: mapper
  yw_stats :: sync_stats

record sync_config =
  yc_batch_size :: nat
  yc_stale_lock_seconds :: int
  yc_max_attempts :: nat

definition new_stats :: sync_stats where
  "new_stats = \<lparr>ys_delivered = 0, ys_failed = 0, ys_skipped = 0, ys_last_delivery = None, ys_last_error = None\<rparr>"

definition new_sync_worker :: "mapper \<Rightarrow> store \<Rightarrow> 'w \<Rightarrow> 'w sync_worker" where
  "new_sync_worker m d w = \<lparr>yw_store = d, yw_world = w, yw_mapper = m, yw_stats = new_stats\<rparr>"

definition with_rows :: "(store, 'a) action \<Rightarrow> ('w sync_worker, 'a) action" where
  "with_rows m s = (case unit_of_work m (yw_store s) of (r, d) \<Rightarrow> (r, s\<lparr>yw_store := d\<rparr>))"

definition with_mapper :: "(mapper, 'a) action \<Rightarrow> ('w sync_worker, 'a) action" where
  "with_mapper m s = (case m (yw_mapper s) of (r, p) \<Rightarrow> (r, s\<lparr>yw_mapper := p\<rparr>))"

definition with_client :: "('w, 'a) action \<Rightarrow> ('w sync_worker, 'a) action" where
  "with_client m s = (case m (yw_world s) of (r, w) \<Rightarrow> (r, s\<lparr>yw_world := w\<rparr>))"

definition count_in :: "(sync_stats \<Rightarrow> sync_stats) \<Rightarrow> ('w sync_worker, unit) action" where
  "count_in g = modify_act (\<lambda>s. s\<lparr>yw_stats := g (yw_stats s)\<rparr>)"

text \<open>\<open>try m except h\<close>.\<close>

definition catch_act :: "('s, 'a) action \<Rightarrow> (py_error \<Rightarrow> ('s, 'a) action) \<Rightarrow> ('s, 'a) action" where
  "catch_act m h s = (case m s of (Inl e, s') \<Rightarrow> h e s' | (Inr x, s') \<Rightarrow> (Inr x, s'))"

section \<open>The cycle\<close>

definition microseconds :: "rat \<Rightarrow> int" where
  "microseconds seconds = round (seconds * 1000000)"

definition deliver_row :: "'w cloud \<Rightarrow> sync_row \<Rightarrow> ('w sync_worker, unit) action" where
  "deliver_row cd r = read_act (\<lambda>s.
    bind_act (with_mapper (map_record (cd_iso cd (cd_now cd (yw_world s))) (cd_ids cd) r)) (\<lambda>(topic, e, qos).
    bind_act (with_client (cd_publish cd topic (envelope_dict e) qos False)) (\<lambda>acknowledged.
      if qos > 0 \<and> \<not> acknowledged then result_act (Inl MqttError)
      else read_act (\<lambda>s. then_act (with_rows (mark_delivered (cd_now cd (yw_world s)) (sq_id r)))
        (count_in (\<lambda>y. y\<lparr>ys_delivered := ys_delivered y + 1,
           ys_last_delivery := Some (cd_now cd (yw_world s))\<rparr>))))))"

definition MQTT_ERRORS :: "py_error set" where
  "MQTT_ERRORS = {MqttError, MqttNotConnectedError, MqttPublishError}"

definition give_back :: "'w cloud \<Rightarrow> sync_config \<Rightarrow> sync_row \<Rightarrow> string \<Rightarrow> ('w sync_worker, unit) action" where
  "give_back cd cfg r err = read_act (\<lambda>s.
    bind_act (result_act (compute_backoff_seconds (sq_attempts r + 1) (cd_jitter cd (yw_world s)))) (\<lambda>backoff.
      with_rows (mark_failed (cd_now cd (yw_world s)) (sq_id r) err (microseconds backoff) (Some (yc_max_attempts cfg)))))"

text \<open>The handlers; the result is whether the cycle goes on.\<close>

definition after_failure :: "'w cloud \<Rightarrow> sync_config \<Rightarrow> sync_row \<Rightarrow> py_error \<Rightarrow> ('w sync_worker, bool) action" where
  "after_failure cd cfg r exc =
    (if exc \<in> MQTT_ERRORS
     then then_act (give_back cd cfg r (cd_text cd exc))
       (then_act (count_in (\<lambda>y. y\<lparr>ys_failed := ys_failed y + 1, ys_last_error := Some (cd_text cd exc)\<rparr>))
         (return_act (exc \<noteq> MqttNotConnectedError)))
     else then_act (give_back cd cfg r (''malformed:'' @ cd_text cd exc))
       (then_act (count_in (\<lambda>y. y\<lparr>ys_skipped := ys_skipped y + 1, ys_failed := ys_failed y + 1\<rparr>)) (return_act True)))"

definition handle_row :: "'w cloud \<Rightarrow> sync_config \<Rightarrow> sync_row \<Rightarrow> ('w sync_worker, bool) action" where
  "handle_row cd cfg r = catch_act (then_act (deliver_row cd r) (return_act True)) (after_failure cd cfg r)"

fun handle_rows :: "'w cloud \<Rightarrow> sync_config \<Rightarrow> sync_row list \<Rightarrow> ('w sync_worker, unit) action" where
  "handle_rows cd cfg [] = return_act ()"
| "handle_rows cd cfg (r # rs) =
    bind_act (handle_row cd cfg r) (\<lambda>go_on. if go_on then handle_rows cd cfg rs else return_act ())"

definition claim_work :: "'w cloud \<Rightarrow> sync_config \<Rightarrow> ('w sync_worker, sync_row list) action" where
  "claim_work cd cfg = read_act (\<lambda>s. let now = cd_now cd (yw_world s) in
    with_rows (bind_act (release_stale_locks now (yc_stale_lock_seconds cfg * 1000000)) (\<lambda>_.
      claim_batch now (yc_batch_size cfg))))"

definition sync_cycle :: "'w cloud \<Rightarrow> sync_config \<Rightarrow> ('w sync_worker, unit) action" where
  "sync_cycle cd cfg = read_act (\<lambda>s.
    if \<not> cd_connected cd (yw_world s) then return_act ()
    else bind_act (claim_work cd cfg) (handle_rows cd cfg))"

text \<open>One pass of \<open>_run\<close>, up to its sleep; the text of an exception stands for the name and the text the code joins.\<close>

definition sync_pass :: "'w cloud \<Rightarrow> sync_config \<Rightarrow> 'w sync_worker \<Rightarrow> 'w sync_worker" where
  "sync_pass cd cfg s =
    (if \<not> cd_connected cd (yw_world s) then s
     else case sync_cycle cd cfg s of
       (Inr u, s') \<Rightarrow> s'
     | (Inl exc, s') \<Rightarrow> s'\<lparr>yw_stats := (yw_stats s')\<lparr>ys_last_error := Some (cd_text cd exc)\<rparr>\<rparr>)"

section \<open>What is delivered was acknowledged\<close>

text \<open>A client that remembers the messages whose publication it has confirmed.\<close>

definition confirmed :: "nat \<Rightarrow> bool result \<Rightarrow> bool" where
  "confirmed qos r = (case r of Inl e \<Rightarrow> False | Inr acknowledged \<Rightarrow> acknowledged \<or> qos = 0)"

definition remembering :: "'w cloud \<Rightarrow> ('w \<times> json list) cloud" where
  "remembering cd =
    \<lparr>cd_now = cd_now cd \<circ> fst, cd_connected = cd_connected cd \<circ> fst,
     cd_publish = (\<lambda>topic msg qos retain v. case cd_publish cd topic msg qos retain (fst v) of
       (r, w) \<Rightarrow> (r, (w, if confirmed qos r then snd v @ [msg] else snd v))),
     cd_jitter = cd_jitter cd \<circ> fst, cd_text = cd_text cd, cd_iso = cd_iso cd, cd_ids = cd_ids cd\<rparr>"

definition message_field :: "json \<Rightarrow> string \<Rightarrow> json" where
  "message_field msg k = (case msg of JObj kvs \<Rightarrow> field kvs k | _ \<Rightarrow> JNull)"

definition carries :: "sync_row \<Rightarrow> json \<Rightarrow> bool" where
  "carries r msg \<longleftrightarrow> message_field msg ''deduplicationKey'' = JStr (sq_key r) \<and>
     message_field msg ''payload'' = sq_payload r \<and> message_field msg ''eventType'' = JStr (sq_event_type r)"

definition delivered_rows :: "store \<Rightarrow> sync_row list" where
  "delivered_rows d = filter (\<lambda>r. sq_status r = ''DELIVERED'') (db_queue d)"

definition covered :: "json list \<Rightarrow> store \<Rightarrow> bool" where
  "covered sent d \<longleftrightarrow> list_all (\<lambda>r. list_ex (carries r) sent) (delivered_rows d)"

lemma map_record_carries:
  assumes "map_record now ids r m = (Inr (topic, e, qos), m')"
  shows "carries r (envelope_dict e)"
proof (cases "sq_payload r")
  case (JObj kvs)
  with assms show ?thesis
    by (auto simp: map_record_def bind_act_def Let_def build_envelope_def carries_def envelope_dict_def message_field_def
        field_def split: sum.splits prod.splits if_splits)
qed (use assms in \<open>simp_all add: map_record_def\<close>)

lemma carries_entry: "entry_of r' = entry_of r \<Longrightarrow> carries r' = carries r"
  by (rule ext) (simp add: carries_def entry_of_def)

lemma covered_rows: "db_queue d' = db_queue d \<Longrightarrow> covered sent d' = covered sent d"
  by (simp add: covered_def delivered_rows_def)

lemma covered_either:
  "db_queue d' \<in> {db_queue d1, db_queue d} \<Longrightarrow> covered sent d1 \<Longrightarrow> covered sent d \<Longrightarrow> covered sent d'"
  by (auto simp: covered_def delivered_rows_def)

lemma covered_longer: "covered sent d \<Longrightarrow> covered (sent @ later) d"
  by (auto simp: covered_def list_all_iff list_ex_iff)

lemma covered_write:
  assumes "covered sent d" "\<And>r. entry_of (g r) = entry_of r"
    and "\<And>r. r \<in> set (db_queue d) \<Longrightarrow> P r \<Longrightarrow> sq_status (g r) = ''DELIVERED'' \<Longrightarrow> list_ex (carries r) sent"
  shows "covered sent (write_queue P g d)"
  using assms carries_entry [OF assms(2)]
  by (auto simp: covered_def delivered_rows_def write_queue_def update_where_def list_all_iff split: if_splits)

lemma queue_step_write:
  "db_queue (queue_step d (Q_claim now limit)) \<in>
     {db_queue (write_queue (\<lambda>x. sq_id x \<in> set (map sq_id (due_rows now limit d))) (claimed now) d), db_queue d}"
  "db_queue (queue_step d (Q_deliver now rid)) \<in> {db_queue (write_queue (\<lambda>x. sq_id x = rid) (delivered now) d), db_queue d}"
  "db_queue (queue_step d (Q_release now age)) \<in> {db_queue (write_queue (stale (now - age)) (released now) d), db_queue d}"
  "db_queue (queue_step d (Q_fail now rid err backoff m)) \<in>
     {db_queue (write_queue (\<lambda>x. sq_id x = rid) (failed_once now err backoff m) d), db_queue d}"
  by (simp_all add: unit_of_work_def claim_batch_def mark_delivered_def release_stale_locks_def mark_failed_def Let_def
      write_flush del: then_act_simp)

lemma covered_step:
  assumes "covered sent d"
    and "\<And>now rid r. op = Q_deliver now rid \<Longrightarrow> r \<in> set (db_queue d) \<Longrightarrow> sq_id r = rid \<Longrightarrow> list_ex (carries r) sent"
  shows "covered sent (queue_step d op)"
proof (cases op)
  case (Q_enqueue now v due)
  with assms(1) show ?thesis
    by (auto simp: unit_of_work_def enqueue_sync_def bind_act_def draw_uuid_def Let_def flush_def covered_def
        delivered_rows_def sync_row_of_def)
next
  case (Q_claim now limit)
  have "covered sent (write_queue (\<lambda>x. sq_id x \<in> set (map sq_id (due_rows now limit d))) (claimed now) d)"
    by (rule covered_write [OF assms(1)]) (simp, simp add: claimed_def del: id_kept)
  from covered_either [OF queue_step_write(1) this assms(1)] show ?thesis unfolding Q_claim .
next
  case (Q_deliver now rid)
  have "covered sent (write_queue (\<lambda>x. sq_id x = rid) (delivered now) d)"
    by (rule covered_write [OF assms(1)]) (simp, simp add: assms(2) [OF Q_deliver])
  from covered_either [OF queue_step_write(2) this assms(1)] show ?thesis unfolding Q_deliver .
next
  case (Q_release now age)
  have "covered sent (write_queue (stale (now - age)) (released now) d)"
    by (rule covered_write [OF assms(1)]) (simp, simp add: released_def del: id_kept)
  from covered_either [OF queue_step_write(3) this assms(1)] show ?thesis unfolding Q_release .
next
  case (Q_fail now rid err backoff m)
  have "covered sent (write_queue (\<lambda>x. sq_id x = rid) (failed_once now err backoff m) d)"
    by (rule covered_write [OF assms(1)]) (simp, auto simp: failed_once_def Let_def simp del: id_kept split: if_splits)
  from covered_either [OF queue_step_write(4) this assms(1)] show ?thesis unfolding Q_fail .
qed

text \<open>What holds while the rows of a batch are being handled.\<close>

definition sound :: "sync_row list \<Rightarrow> ('w \<times> json list) sync_worker \<Rightarrow> bool" where
  "sound rows s \<longleftrightarrow> schema_ok (yw_store s) \<and> covered (snd (yw_world s)) (yw_store s) \<and>
     entry_of ` set rows \<subseteq> entry_of ` set (db_queue (yw_store s))"

lemma sound_simps [simp]:
  "sound rows (s\<lparr>yw_mapper := m\<rparr>) = sound rows s" "sound rows (s\<lparr>yw_stats := y\<rparr>) = sound rows s"
  by (simp_all add: sound_def)

lemma sound_world: "sound rows s \<Longrightarrow> sound rows (s\<lparr>yw_world := (w, snd (yw_world s))\<rparr>)"
  "sound rows s \<Longrightarrow> sound rows (s\<lparr>yw_world := (w, snd (yw_world s) @ later)\<rparr>)"
  by (simp_all add: sound_def covered_longer)

lemma sound_fewer: "sound rows s \<Longrightarrow> set rows' \<subseteq> set rows \<Longrightarrow> sound rows' s"
  by (auto simp: sound_def)

lemma queue_step_entries: "entry_of ` set (db_queue d) \<subseteq> entry_of ` set (db_queue (queue_step d op))"
proof -
  obtain new where "map entry_of (db_queue (queue_step d op)) = map entry_of (db_queue d) @ new"
    using queue_step_grows [of d op] by (auto simp: queue_grows_def)
  then have "set (map entry_of (db_queue (queue_step d op))) = set (map entry_of (db_queue d)) \<union> set new"
    by (simp only: set_append)
  then show ?thesis by auto
qed

lemma sound_step:
  assumes "sound rows s"
    and "\<And>now rid r. op = Q_deliver now rid \<Longrightarrow> r \<in> set (db_queue (yw_store s)) \<Longrightarrow> sq_id r = rid \<Longrightarrow>
      list_ex (carries r) (snd (yw_world s))"
  shows "sound rows (s\<lparr>yw_store := queue_step (yw_store s) op\<rparr>)"
proof -
  from assms(1) have "schema_ok (yw_store s)" "covered (snd (yw_world s)) (yw_store s)"
    and rows: "entry_of ` set rows \<subseteq> entry_of ` set (db_queue (yw_store s))" by (simp_all add: sound_def)
  then have "schema_ok (queue_step (yw_store s) op)" "covered (snd (yw_world s)) (queue_step (yw_store s) op)"
    using queue_step_schema covered_step assms(2) by blast+
  with subset_trans [OF rows queue_step_entries] show ?thesis by (simp add: sound_def)
qed

lemma same_row_carried:
  assumes "sound rows s" "r \<in> set rows" "list_ex (carries r) sent" "r' \<in> set (db_queue (yw_store s))" "sq_id r' = sq_id r"
  shows "list_ex (carries r') sent"
proof -
  from assms(1,2) obtain r0 where r0: "r0 \<in> set (db_queue (yw_store s))" "entry_of r0 = entry_of r"
    by (force simp: sound_def)
  from assms(1) have "distinct (map sq_id (db_queue (yw_store s)))" by (simp add: sound_def schema_ok_def queue_ok_def)
  moreover from r0(2) have "sq_id r0 = sq_id r" by (simp add: entry_of_def)
  ultimately have "r' = r0" using r0(1) assms(4,5) by (simp add: distinct_map inj_on_def)
  with r0(2) assms(3) show ?thesis using carries_entry by metis
qed

lemma snd_with_rows:
  "snd (with_rows (mark_delivered now rid) s) = s\<lparr>yw_store := queue_step (yw_store s) (Q_deliver now rid)\<rparr>"
  "snd (with_rows (mark_failed now rid err backoff m) s) =
     s\<lparr>yw_store := queue_step (yw_store s) (Q_fail now rid err backoff m)\<rparr>"
  by (simp_all add: with_rows_def split: prod.split)

lemma give_back_sound: "keeps (sound rows) (give_back cd cfg r err)"
proof -
  have fail: "keeps (sound rows) (with_rows (mark_failed now rid err backoff m))" for now rid backoff m
    unfolding keeps_def snd_with_rows by (intro allI impI sound_step) simp_all
  show ?thesis
    unfolding give_back_def by (intro keeps_read_each keeps_bind keeps_result fail)
qed

lemma after_failure_sound: "keeps (sound rows) (after_failure cd cfg r exc)"
  unfolding after_failure_def count_in_def
  by (intro keeps_if keeps_then keeps_modify keeps_return give_back_sound) simp_all

lemma mark_delivered_sound:
  assumes "r \<in> set rows" "sound rows s" "list_ex (carries r) (snd (yw_world s))"
  shows "sound rows (snd (with_rows (mark_delivered now (sq_id r)) s))"
  unfolding snd_with_rows by (rule sound_step [OF assms(2)]) (use same_row_carried [OF assms(2,1,3)] in auto)

lemma deliver_row_sound:
  assumes "r \<in> set rows" "sound rows s"
  shows "sound rows (snd (deliver_row (remembering cd) r s))"
proof -
  let ?now = "cd_now cd (fst (yw_world s))"
  obtain res m' where map: "map_record (cd_iso cd ?now) (cd_ids cd) r (yw_mapper s) = (res, m')" by fastforce
  show ?thesis
  proof (cases res)
    case (Inl e)
    with map assms(2) show ?thesis by (simp add: deliver_row_def with_mapper_def bind_act_def remembering_def)
  next
    case (Inr out)
    then obtain topic e qos where out: "res = Inr (topic, e, qos)" by (cases out) simp
    have carried: "carries r (envelope_dict e)" using map_record_carries map out by blast
    obtain res2 w' where pub: "cd_publish cd topic (envelope_dict e) qos False (fst (yw_world s)) = (res2, w')" by fastforce
    define sent where "sent = (if confirmed qos res2 then snd (yw_world s) @ [envelope_dict e] else snd (yw_world s))"
    define s1 where "s1 = s\<lparr>yw_mapper := m', yw_world := (w', sent)\<rparr>"
    have s1: "sound rows s1" using assms(2) sound_world [of rows "s\<lparr>yw_mapper := m'\<rparr>" w'] by (simp add: s1_def sent_def)
    show ?thesis
    proof (cases "confirmed qos res2")
      case False
      with map out pub have "snd (deliver_row (remembering cd) r s) = s1"
        by (cases res2) (auto simp: deliver_row_def with_mapper_def with_client_def bind_act_def remembering_def s1_def
            sent_def confirmed_def)
      with s1 show ?thesis by simp
    next
      case True
      then obtain ack where ack: "res2 = Inr ack" "qos = 0 \<or> ack" by (auto simp: confirmed_def split: sum.splits)
      have "list_ex (carries r) (snd (yw_world s1))" using True carried by (simp add: s1_def sent_def)
      then have "sound rows (snd (with_rows (mark_delivered (cd_now cd w') (sq_id r)) s1))"
        by (rule mark_delivered_sound [OF assms(1) s1])
      moreover have "snd (deliver_row (remembering cd) r s) =
          snd (then_act (with_rows (mark_delivered (cd_now cd w') (sq_id r)))
            (count_in (\<lambda>y. y\<lparr>ys_delivered := ys_delivered y + 1, ys_last_delivery := Some (cd_now cd w')\<rparr>)) s1)"
        using map out pub ack True
        by (auto simp: deliver_row_def with_mapper_def with_client_def bind_act_def remembering_def s1_def sent_def
            simp del: then_act_simp)
      ultimately show ?thesis
        by (auto simp: count_in_def split: prod.split sum.split)
    qed
  qed
qed

lemma handle_row_sound: "r \<in> set rows \<Longrightarrow> keeps (sound rows) (handle_row (remembering cd) cfg r)"
proof -
  assume r: "r \<in> set rows"
  have "sound rows (snd (handle_row (remembering cd) cfg r s))" if s: "sound rows s" for s
  proof (cases "deliver_row (remembering cd) r s")
    case (Pair res s')
    then have "sound rows s'" using deliver_row_sound [OF r s, of cd] by simp
    with Pair show ?thesis
      using keepsD [OF after_failure_sound] by (cases res) (simp_all add: handle_row_def catch_act_def)
  qed
  then show ?thesis by (simp add: keeps_def)
qed

lemma handle_rows_sound: "set todo \<subseteq> set rows \<Longrightarrow> keeps (sound rows) (handle_rows (remembering cd) cfg todo)"
  by (induction todo) (auto intro!: keeps_intros intro: handle_row_sound)

lemma release_stale_works:
  assumes "schema_ok d"
  shows "release_stale_locks now age d = (Inr (length (filter (stale (now - age)) (db_queue d))), queue_step d (Q_release now age))"
  using write_queue_schema [of "released now" "stale (now - age)" d] assms
  by (simp add: unit_of_work_def release_stale_locks_def Let_def write_flush del: then_act_simp)

lemma claim_step_works:
  assumes "schema_ok d"
  shows "claim_batch now limit d = (Inr (map (claimed now) (due_rows now limit d)), queue_step d (Q_claim now limit))"
  using write_queue_schema [of "claimed now" "\<lambda>x. sq_id x \<in> set (map sq_id (due_rows now limit d))" d] assms
  by (simp add: unit_of_work_def claim_batch_def Let_def write_flush del: then_act_simp)

lemma claim_work_returns:
  assumes "schema_ok (yw_store s)"
  shows "claim_work cd cfg s =
    (let now = cd_now cd (yw_world s); d1 = queue_step (yw_store s) (Q_release now (yc_stale_lock_seconds cfg * 1000000)) in
     (Inr (map (claimed now) (due_rows now (yc_batch_size cfg) d1)),
      s\<lparr>yw_store := queue_step d1 (Q_claim now (yc_batch_size cfg))\<rparr>))"
  using assms queue_step_schema [OF assms]
  by (simp add: claim_work_def with_rows_def unit_of_work_def bind_act_def Let_def release_stale_works claim_step_works
      del: queue_step.simps)

lemma claim_work_sound:
  assumes "sound [] s" "claim_work cd cfg s = (res, s')"
  shows "\<exists>rows. res = Inr rows \<and> sound rows s'"
proof -
  define now where "now = cd_now cd (yw_world s)"
  define d1 where "d1 = queue_step (yw_store s) (Q_release now (yc_stale_lock_seconds cfg * 1000000))"
  define d2 where "d2 = queue_step d1 (Q_claim now (yc_batch_size cfg))"
  let ?rows = "map (claimed now) (due_rows now (yc_batch_size cfg) d1)"
  have eq: "res = Inr ?rows" "s' = s\<lparr>yw_store := d2\<rparr>"
    using assms claim_work_returns [of s cd cfg] by (simp_all add: sound_def now_def d1_def d2_def Let_def)
  have "sound [] (s\<lparr>yw_store := d1\<rparr>)" unfolding d1_def by (rule sound_step [OF assms(1)]) simp
  then have "sound [] s'" unfolding eq d2_def using sound_step [of "[]" "s\<lparr>yw_store := d1\<rparr>" "Q_claim now (yc_batch_size cfg)"]
    by (simp del: queue_step.simps)
  moreover have "entry_of ` set ?rows \<subseteq> entry_of ` set (db_queue d1)"
    by (auto simp: image_image dest: due_rows_set)
  moreover have "entry_of ` set (db_queue d1) \<subseteq> entry_of ` set (db_queue d2)"
    unfolding d2_def by (rule queue_step_entries)
  ultimately show ?thesis by (auto simp: sound_def eq)
qed

lemma sync_cycle_sound: "keeps (sound []) (sync_cycle (remembering cd) cfg)"
  unfolding sync_cycle_def
proof (intro keeps_read_each keeps_if keeps_return)
  fix u :: "('a \<times> json list) sync_worker"
  show "keeps (sound []) (bind_act (claim_work (remembering cd) cfg) (handle_rows (remembering cd) cfg))"
    unfolding keeps_def
  proof (intro allI impI)
    fix s :: "('a \<times> json list) sync_worker" assume s: "sound [] s"
    obtain res s' where claim: "claim_work (remembering cd) cfg s = (res, s')" by fastforce
    then obtain rows where rows: "res = Inr rows" "sound rows s'" using claim_work_sound [OF s] by blast
    then have "sound rows (snd (handle_rows (remembering cd) cfg rows s'))"
      using keepsD [OF handle_rows_sound] by blast
    then show "sound [] (snd (bind_act (claim_work (remembering cd) cfg) (handle_rows (remembering cd) cfg) s))"
      by (simp add: bind_act_def claim rows(1) sound_fewer)
  qed
qed

section \<open>Runs\<close>

text \<open>What happens to the queue and the worker: passes, new entries, a restart of the process, and anything in the world.\<close>

datatype 'w sync_op =
    Y_pass
  | Y_enqueue int sync_values "int option"
  | Y_restart mapper
  | Y_world "'w \<Rightarrow> 'w"

fun sync_step :: "'w cloud \<Rightarrow> sync_config \<Rightarrow> ('w \<times> json list) sync_worker \<Rightarrow> 'w sync_op \<Rightarrow> ('w \<times> json list) sync_worker" where
  "sync_step cd cfg s Y_pass = sync_pass (remembering cd) cfg s"
| "sync_step cd cfg s (Y_enqueue now v due) = s\<lparr>yw_store := queue_step (yw_store s) (Q_enqueue now v due)\<rparr>"
| "sync_step cd cfg s (Y_restart m) = new_sync_worker m (yw_store s) (yw_world s)"
| "sync_step cd cfg s (Y_world g) = s\<lparr>yw_world := (g (fst (yw_world s)), snd (yw_world s))\<rparr>"

interpretation sync: preserved "sync_step cd cfg" "sound []" for cd :: "'w cloud" and cfg
proof unfold_locales
  fix s :: "('w \<times> json list) sync_worker" and op :: "'w sync_op" assume s: "sound [] s"
  show "sound [] (sync_step cd cfg s op)"
  proof (cases op)
    case Y_pass
    obtain res s' where cycle: "sync_cycle (remembering cd) cfg s = (res, s')" by fastforce
    then have "sound [] s'" using keepsD [OF sync_cycle_sound s, of cd cfg] by simp
    with Y_pass cycle s show ?thesis by (cases res) (simp_all add: sync_pass_def)
  next
    case (Y_enqueue now v due)
    with sound_step [OF s, of "Q_enqueue now v due"] show ?thesis by (simp del: queue_step.simps)
  next
    case (Y_restart m)
    with s show ?thesis by (simp add: new_sync_worker_def sound_def)
  next
    case (Y_world g)
    with sound_world(1) [OF s] show ?thesis by simp
  qed
qed

text \<open>
  C21. Nothing is marked delivered that the cloud has not confirmed: whatever the network, the clock and the broker do, whatever
  is enqueued meanwhile and however often the process restarts, each DELIVERED entry has its own payload, event type and
  deduplication key in a message whose publication was acknowledged (or needed no acknowledgement).
\<close>

theorem delivered_were_acknowledged:
  fixes cd :: "'w cloud"
  shows "let s = foldl (sync_step cd cfg) (new_sync_worker m (empty_store supply) (w, [])) ops
     in list_all (\<lambda>r. list_ex (carries r) (snd (yw_world s))) (delivered_rows (yw_store s))"
proof -
  have "sound [] (new_sync_worker m (empty_store supply) (w, []))"
    by (simp add: sound_def new_sync_worker_def covered_def delivered_rows_def empty_store_def schema_defs)
  then have "sound [] (foldl (sync_step cd cfg) (new_sync_worker m (empty_store supply) (w, [])) ops)"
    by (rule sync.run_preserves)
  then show ?thesis by (simp add: sound_def covered_def Let_def)
qed

section \<open>A healthy link delivers\<close>

definition healthy :: "'w cloud \<Rightarrow> bool" where
  "healthy cd \<longleftrightarrow> (\<forall>w. cd_connected cd w \<and> (\<forall>topic msg qos. fst (cd_publish cd topic msg qos False w) = Inr True))"

text \<open>An entry for which there is a message.\<close>

definition mappable :: "topic_builder \<Rightarrow> string \<Rightarrow> sync_row \<Rightarrow> bool" where
  "mappable tb station r \<longleftrightarrow> (case sq_payload r of
     JObj kvs \<Rightarrow> \<not> list_ex float_money kvs \<and>
       \<not> isl (topic_for \<lparr>mp_topics = tb, mp_device = [], mp_station = station, mp_environment = [], mp_simulated = False, mp_seq = 0\<rparr>
         (sq_event_type r) (as_str (or_json (field kvs ''pump_id'') (field kvs ''logical_pump_id''))))
   | _ \<Rightarrow> False)"

lemma mappable_entry: "entry_of r = entry_of r' \<Longrightarrow> mappable tb station r \<longleftrightarrow> mappable tb station r'"
  by (simp add: mappable_def entry_of_def split: json.split)

lemma not_isl_iff: "\<not> isl x \<longleftrightarrow> (\<exists>y. x = Inr y)"
  by (cases x) simp_all

lemma topic_for_same:
  "topic_for \<lparr>mp_topics = mp_topics m, mp_device = a, mp_station = mp_station m, mp_environment = b, mp_simulated = c, mp_seq = n\<rparr> =
    topic_for m"
  by (intro ext) (simp add: topic_for_def cong: if_cong)

lemma map_record_works:
  assumes "mappable (mp_topics m) (mp_station m) r"
  shows "\<exists>topic e qos. map_record now ids r m = (Inr (topic, e, qos), m\<lparr>mp_seq := mp_seq m + 1\<rparr>)"
proof -
  from assms obtain kvs topic where kvs: "sq_payload r = JObj kvs" "\<not> list_ex float_money kvs"
    and topic: "topic_for m (sq_event_type r) (as_str (or_json (field kvs ''pump_id'') (field kvs ''logical_pump_id''))) = Inr topic"
    by (auto simp: mappable_def topic_for_same not_isl_iff split: json.splits)
  then show ?thesis by (simp add: map_record_def bind_act_def Let_def build_envelope_def)
qed

lemma mark_delivered_works:
  assumes "schema_ok (yw_store s)"
  shows "with_rows (mark_delivered now rid) s = (Inr (), s\<lparr>yw_store := queue_step (yw_store s) (Q_deliver now rid)\<rparr>)"
  using write_queue_schema [of "delivered now" "\<lambda>x. sq_id x = rid" "yw_store s"] assms
  by (simp add: with_rows_def unit_of_work_def mark_delivered_def write_flush del: then_act_simp)

lemma handle_row_delivers:
  assumes "healthy cd" "schema_ok (yw_store s)" "mappable (mp_topics (yw_mapper s)) (mp_station (yw_mapper s)) r"
  shows "\<exists>now s'. handle_row cd cfg r s = (Inr True, s') \<and> yw_store s' = queue_step (yw_store s) (Q_deliver now (sq_id r)) \<and>
    mp_topics (yw_mapper s') = mp_topics (yw_mapper s) \<and> mp_station (yw_mapper s') = mp_station (yw_mapper s)"
proof -
  obtain topic e qos where map: "map_record (cd_iso cd (cd_now cd (yw_world s))) (cd_ids cd) r (yw_mapper s) =
      (Inr (topic, e, qos), (yw_mapper s)\<lparr>mp_seq := mp_seq (yw_mapper s) + 1\<rparr>)"
    using map_record_works [OF assms(3)] by blast
  obtain w' where pub: "cd_publish cd topic (envelope_dict e) qos False (yw_world s) = (Inr True, w')"
    using assms(1) by (metis healthy_def prod.collapse)
  define s1 where "s1 = s\<lparr>yw_mapper := (yw_mapper s)\<lparr>mp_seq := mp_seq (yw_mapper s) + 1\<rparr>, yw_world := w'\<rparr>"
  have "with_rows (mark_delivered (cd_now cd w') (sq_id r)) s1 =
      (Inr (), s1\<lparr>yw_store := queue_step (yw_store s) (Q_deliver (cd_now cd w') (sq_id r))\<rparr>)"
    using mark_delivered_works [of s1] assms(2) by (simp add: s1_def del: queue_step.simps)
  then show ?thesis using map pub
    by (auto simp: handle_row_def catch_act_def deliver_row_def with_mapper_def with_client_def bind_act_def count_in_def
        s1_def simp del: queue_step.simps)
qed

definition is_delivered :: "string \<Rightarrow> store \<Rightarrow> bool" where
  "is_delivered rid d \<longleftrightarrow> list_all (\<lambda>r. sq_id r = rid \<longrightarrow> sq_status r = ''DELIVERED'') (db_queue d)"

lemma deliver_step_row:
  assumes "schema_ok d" "r' \<in> set (db_queue (queue_step d (Q_deliver now rid)))"
  shows "sq_id r' = rid \<and> sq_status r' = ''DELIVERED'' \<or> r' \<in> set (db_queue d) \<and> sq_id r' \<noteq> rid"
proof (cases "list_ex (\<lambda>r. sq_id r = rid) (db_queue d)")
  case True
  then have "queue_step d (Q_deliver now rid) = write_queue (\<lambda>x. sq_id x = rid) (delivered now) d"
    using write_queue_schema [of "delivered now" "\<lambda>x. sq_id x = rid" d] assms(1)
    by (simp add: unit_of_work_def mark_delivered_def write_flush del: then_act_simp)
  with assms(2) obtain r where "r \<in> set (db_queue d)" "r' = (if sq_id r = rid then delivered now r else r)"
    by (auto simp: write_queue_def update_where_def simp del: queue_step.simps id_kept)
  then show ?thesis by (cases "sq_id r = rid") (simp_all add: delivered_def)
next
  case False
  with assms(2) show ?thesis by (auto simp: unit_of_work_def mark_delivered_def list_ex_iff)
qed

lemma deliver_step_delivers:
  assumes "schema_ok d"
  shows "is_delivered rid (queue_step d (Q_deliver now rid))"
    "is_delivered other d \<Longrightarrow> is_delivered other (queue_step d (Q_deliver now rid))"
  unfolding is_delivered_def list_all_iff using deliver_step_row [OF assms] by blast+

lemma handle_rows_deliver:
  "healthy cd \<Longrightarrow> schema_ok (yw_store s) \<Longrightarrow>
    list_all (mappable (mp_topics (yw_mapper s)) (mp_station (yw_mapper s))) rows \<Longrightarrow>
    \<exists>s'. handle_rows cd cfg rows s = (Inr (), s') \<and> list_all (\<lambda>r. is_delivered (sq_id r) (yw_store s')) rows \<and>
      (\<forall>rid. is_delivered rid (yw_store s) \<longrightarrow> is_delivered rid (yw_store s')) \<and>
      entry_of ` set (db_queue (yw_store s)) \<subseteq> entry_of ` set (db_queue (yw_store s'))"
proof (induction rows arbitrary: s)
  case (Cons r rows)
  then obtain now s1 where s1: "handle_row cd cfg r s = (Inr True, s1)"
      "yw_store s1 = queue_step (yw_store s) (Q_deliver now (sq_id r))"
      "mp_topics (yw_mapper s1) = mp_topics (yw_mapper s)" "mp_station (yw_mapper s1) = mp_station (yw_mapper s)"
    using handle_row_delivers [of cd s r cfg] by auto
  have ok: "schema_ok (yw_store s1)" unfolding s1(2) by (rule queue_step_schema [OF Cons.prems(2)])
  obtain s' where s': "handle_rows cd cfg rows s1 = (Inr (), s')"
      "list_all (\<lambda>r. is_delivered (sq_id r) (yw_store s')) rows"
      "\<And>rid. is_delivered rid (yw_store s1) \<Longrightarrow> is_delivered rid (yw_store s')"
      "entry_of ` set (db_queue (yw_store s1)) \<subseteq> entry_of ` set (db_queue (yw_store s'))"
    using Cons.IH [OF Cons.prems(1) ok] Cons.prems(3) s1(3,4) by auto
  show ?case
  proof (intro exI conjI allI impI)
    show "handle_rows cd cfg (r # rows) s = (Inr (), s')" by (simp add: bind_act_def s1(1) s'(1))
    show "list_all (\<lambda>r. is_delivered (sq_id r) (yw_store s')) (r # rows)"
      using s'(2) s'(3) [of "sq_id r"] deliver_step_delivers(1) [OF Cons.prems(2)] by (simp add: s1(2) del: queue_step.simps)
    show "is_delivered rid (yw_store s')" if "is_delivered rid (yw_store s)" for rid
      using s'(3) deliver_step_delivers(2) [OF Cons.prems(2) that] by (simp add: s1(2) del: queue_step.simps)
    show "entry_of ` set (db_queue (yw_store s)) \<subseteq> entry_of ` set (db_queue (yw_store s'))"
      using queue_step_entries s'(4) unfolding s1(2) by (rule subset_trans)
  qed
qed simp

text \<open>
  C22. What can be delivered is delivered: on a healthy link one pass of the worker delivers the whole batch, that is the
  oldest due entries after stale claims were taken back, provided they can be expressed as messages at all.
\<close>

theorem healthy_pass_delivers:
  assumes "healthy cd" "schema_ok (yw_store s)"
    and "list_all (mappable (mp_topics (yw_mapper s)) (mp_station (yw_mapper s))) (db_queue (yw_store s))"
  shows "list_all (\<lambda>r. list_ex (\<lambda>x. sq_id x = sq_id r \<and> sq_status x = ''DELIVERED'') (db_queue (yw_store (sync_pass cd cfg s))))
    (due_rows (cd_now cd (yw_world s)) (yc_batch_size cfg)
      (queue_step (yw_store s) (Q_release (cd_now cd (yw_world s)) (yc_stale_lock_seconds cfg * 1000000))))"
proof -
  define now where "now = cd_now cd (yw_world s)"
  define d1 where "d1 = queue_step (yw_store s) (Q_release now (yc_stale_lock_seconds cfg * 1000000))"
  define d2 where "d2 = queue_step d1 (Q_claim now (yc_batch_size cfg))"
  define batch where "batch = due_rows now (yc_batch_size cfg) d1"
  have ok: "schema_ok d1" "schema_ok d2" unfolding d1_def d2_def by (intro queue_step_schema assms(2))+
  have claim: "claim_work cd cfg s = (Inr (map (claimed now) batch), s\<lparr>yw_store := d2\<rparr>)"
    using claim_work_returns [OF assms(2)] by (simp add: now_def d1_def d2_def batch_def Let_def del: queue_step.simps)
  have rows: "set batch \<subseteq> set (db_queue d1)" unfolding batch_def using due_rows_set by blast
  have "list_all (mappable (mp_topics (yw_mapper s)) (mp_station (yw_mapper s))) (map (claimed now) batch)"
    unfolding list_all_iff
  proof
    fix r assume "r \<in> set (map (claimed now) batch)"
    then obtain r1 where r1: "r1 \<in> set (db_queue d1)" "r = claimed now r1" using rows by auto
    have "map entry_of (db_queue d1) = map entry_of (db_queue (yw_store s))"
      using queue_step_write(3) [of "yw_store s" now "yc_stale_lock_seconds cfg * 1000000"]
        write_queue_entries [OF entry_kept(3)] unfolding d1_def by auto
    then have "entry_of ` set (db_queue d1) = entry_of ` set (db_queue (yw_store s))" by (metis set_map)
    with imageI [OF r1(1), of entry_of] have "entry_of r1 \<in> entry_of ` set (db_queue (yw_store s))" by blast
    then obtain r0 where "r0 \<in> set (db_queue (yw_store s))" "entry_of r1 = entry_of r0" by (rule imageE)
    then have "entry_of r = entry_of r0" using r1(2) by simp
    with assms(3) \<open>r0 \<in> set (db_queue (yw_store s))\<close> show "mappable (mp_topics (yw_mapper s)) (mp_station (yw_mapper s)) r"
      unfolding list_all_iff using mappable_entry by blast
  qed
  then have works: "list_all (mappable (mp_topics (yw_mapper (s\<lparr>yw_store := d2\<rparr>))) (mp_station (yw_mapper (s\<lparr>yw_store := d2\<rparr>))))
      (map (claimed now) batch)" by simp
  have ok2: "schema_ok (yw_store (s\<lparr>yw_store := d2\<rparr>))" using ok(2) by simp
  obtain s' where s': "handle_rows cd cfg (map (claimed now) batch) (s\<lparr>yw_store := d2\<rparr>) = (Inr (), s')"
      "list_all (\<lambda>r. is_delivered (sq_id r) (yw_store s')) (map (claimed now) batch)"
      "entry_of ` set (db_queue d2) \<subseteq> entry_of ` set (db_queue (yw_store s'))"
    using handle_rows_deliver [OF assms(1) ok2 works, of cfg] by auto
  have pass: "sync_pass cd cfg s = s'"
    using assms(1) claim s'(1) by (simp add: sync_pass_def sync_cycle_def bind_act_def healthy_def)
  have "list_ex (\<lambda>x. sq_id x = sq_id r \<and> sq_status x = ''DELIVERED'') (db_queue (yw_store s'))" if r: "r \<in> set batch" for r
  proof -
    have "entry_of r \<in> entry_of ` set (db_queue d1)" using r rows by blast
    then have "entry_of r \<in> entry_of ` set (db_queue (yw_store s'))"
      using s'(3) queue_step_entries [of d1] unfolding d2_def by blast
    then obtain x where x: "x \<in> set (db_queue (yw_store s'))" "sq_id x = sq_id r" by (auto simp: entry_of_def)
    moreover have "is_delivered (sq_id r) (yw_store s')" using s'(2) r by (auto simp: list_all_iff claimed_def)
    ultimately show ?thesis by (auto simp: is_delivered_def list_all_iff list_ex_iff)
  qed
  then show ?thesis unfolding pass by (simp add: list_all_iff batch_def now_def d1_def)
qed

definition sure_cloud :: "unit cloud" where
  "sure_cloud = \<lparr>cd_now = (\<lambda>w. 5), cd_connected = (\<lambda>w. True), cd_publish = (\<lambda>topic msg qos retain w. (Inr True, w)),
     cd_jitter = (\<lambda>w. 0), cd_text = (\<lambda>e. ''''), cd_iso = int_text, cd_ids = nat_text\<rparr>"

definition lab_mapper :: mapper where
  "lab_mapper = \<lparr>mp_topics = \<lparr>tb_environment = ''LAB'', tb_segment = ''lab''\<rparr>, mp_device = ''d'', mp_station = ''S'',
     mp_environment = ''LAB'', mp_simulated = True, mp_seq = 0\<rparr>"

definition one_message :: "unit sync_worker" where
  "one_message = new_sync_worker lab_mapper
     (queue_step (empty_store nat_text) (Q_enqueue 1 (sync_entry ''t'' ''t'' ''TRANSACTION_STARTED'' (JObj []) ''k'') None)) ()"

theorem healthy_pass_delivers_witness:
  "list_all (\<lambda>r. list_ex (\<lambda>x. sq_id x = sq_id r \<and> sq_status x = ''DELIVERED'')
      (db_queue (yw_store (sync_pass sure_cloud \<lparr>yc_batch_size = 10, yc_stale_lock_seconds = 60, yc_max_attempts = 20\<rparr> one_message))))
    (due_rows (cd_now sure_cloud (yw_world one_message)) 10
      (queue_step (yw_store one_message) (Q_release (cd_now sure_cloud (yw_world one_message)) 60000000)))"
proof -
  have healthy: "healthy sure_cloud" by (simp add: healthy_def sure_cloud_def)
  have ok: "schema_ok (yw_store one_message)"
    unfolding one_message_def new_sync_worker_def sync_worker.simps
    by (rule queue_step_schema) (simp add: schema_defs empty_store_def)
  have "db_queue (yw_store one_message) = [sync_row_of 1 (nat_text 0) (sync_entry ''t'' ''t'' ''TRANSACTION_STARTED'' (JObj []) ''k'') None]"
    by (simp add: one_message_def new_sync_worker_def unit_of_work_def enqueue_sync_def bind_act_def draw_uuid_def Let_def
        flush_def empty_store_def schema_defs)
  then have "list_all (mappable (mp_topics (yw_mapper one_message)) (mp_station (yw_mapper one_message)))
      (db_queue (yw_store one_message))"
    by (simp add: one_message_def new_sync_worker_def lab_mapper_def mappable_def sync_row_of_def sync_entry_def field_def
        or_json_def as_str_def topic_for_def starts_with_def transactions_topic_def id_defs Let_def)
  from healthy_pass_delivers [OF healthy ok this,
      of "\<lparr>yc_batch_size = 10, yc_stale_lock_seconds = 60, yc_max_attempts = 20\<rparr>"]
  show ?thesis by (simp del: queue_step.simps)
qed

end
