(* ===== verification/Cloud_Intake.thy ===== *)
theory Cloud_Intake
  imports Cloud_Sync Cmd_Gate
begin

text \<open>
  \<open>cloud/schemas.py\<close> and \<open>cloud/command_intake.py\<close>: commands that arrive from the cloud are checked, evaluated against
  the guards, in the laboratory enqueued for the simulator, recorded and answered. The client starts a task for each
  message (\<open>cloud/mqtt/client.py\<close>), so handlers interleave where they await; a handler is therefore modelled as the
  steps between its awaits, and \<open>handle_command\<close> as these steps in a row.
\<close>

section \<open>Messages\<close>

record inbound =
  ib_command_id :: string
  ib_correlation_id :: string
  ib_station :: string
  ib_pump :: string
  ib_type :: string
  ib_payload :: "(string \<times> json) list"
  ib_simulator_only :: bool
  ib_created_at :: int
  ib_expires_at :: "int option"
  ib_requested_by :: "string option"
  ib_schema_version :: string
  ib_environment :: string

definition sized :: "nat \<Rightarrow> string \<Rightarrow> bool" where
  "sized limit s \<longleftrightarrow> 1 \<le> length s \<and> length s \<le> limit"

text \<open>What \<open>CloudCommandInbound.model_validate\<close> checks of the fields.\<close>

definition inbound_valid :: "inbound \<Rightarrow> bool" where
  "inbound_valid m \<longleftrightarrow> sized 128 (ib_command_id m) \<and> sized 128 (ib_correlation_id m) \<and> sized 128 (ib_station m) \<and>
     sized 128 (ib_pump m) \<and> sized 64 (ib_type m) \<and> \<not> list_ex (\<lambda>kv. is_float (snd kv)) (ib_payload m)"

datatype intake_reason =
    Wrong_station
  | Wrong_environment
  | Unsupported_schema_version
  | Simulator_only_requires_lab
  | Expired
  | Duplicate_correlation_id
  | Duplicate_persisted_command
  | Unknown_command_type
  | Pump_not_found
  | Blocked blocking_reason
  | Enqueue_failed outbound_error

fun reason_text :: "(outbound_error \<Rightarrow> string) \<Rightarrow> intake_reason \<Rightarrow> string" where
  "reason_text say Wrong_station = ''wrong_station''"
| "reason_text say Wrong_environment = ''wrong_environment''"
| "reason_text say Unsupported_schema_version = ''unsupported_schema_version''"
| "reason_text say Simulator_only_requires_lab = ''simulator_only_requires_LAB''"
| "reason_text say Expired = ''expired''"
| "reason_text say Duplicate_correlation_id = ''duplicate_correlation_id''"
| "reason_text say Duplicate_persisted_command = ''duplicate_persisted_command''"
| "reason_text say Unknown_command_type = ''unknown_command_type''"
| "reason_text say Pump_not_found = ''pump_not_found''"
| "reason_text say (Blocked b) = blocking_text b"
| "reason_text say (Enqueue_failed e) = ''enqueue_failed:'' @ say e"

section \<open>State\<close>

record intake_config =
  ic_topics :: topic_builder
  ic_station :: string
  ic_device :: string
  ic_environment :: string
  ic_simulated :: bool
  ic_allow_lab :: bool
  ic_virtual :: bool

record ('m, 'w) intake =
  ik_store :: store
  ik_mqtt :: 'm
  ik_loop :: "'w controller option"
  ik_seen :: "string set"
  ik_active :: bool
  ik_seq :: nat

text \<open>\<open>__init__\<close>; the environment is kept in capitals.\<close>

definition new_intake :: "store \<Rightarrow> 'm \<Rightarrow> 'w controller option \<Rightarrow> ('m, 'w) intake" where
  "new_intake d m loop = \<lparr>ik_store = d, ik_mqtt = m, ik_loop = loop, ik_seen = {}, ik_active = False, ik_seq = 0\<rparr>"

definition in_rows :: "(store, 'a) action \<Rightarrow> (('m, 'w) intake, 'a) action" where
  "in_rows m s = (case unit_of_work m (ik_store s) of (r, d) \<Rightarrow> (r, s\<lparr>ik_store := d\<rparr>))"

definition in_mqtt :: "('m, 'a) action \<Rightarrow> (('m, 'w) intake, 'a) action" where
  "in_mqtt m s = (case m (ik_mqtt s) of (r, w) \<Rightarrow> (r, s\<lparr>ik_mqtt := w\<rparr>))"

text \<open>What a handler knows after its evaluation, and after its decision.\<close>

record evaluation =
  ve_reasons :: "intake_reason list"
  ve_command :: "pump_command option"
  ve_pump :: "string option"
  ve_context :: "pump_context option"
  ve_eligible :: bool
  ve_state :: string
  ve_warnings :: "eligibility_warning list"

record outcome =
  oc_evaluation :: evaluation
  oc_reasons :: "intake_reason list"
  oc_accepted :: bool
  oc_executed :: bool
  oc_status :: string
  oc_resulting_state :: "string option"

section \<open>The steps of a handler\<close>

definition intake_if :: "bool \<Rightarrow> intake_reason \<Rightarrow> intake_reason list" where
  "intake_if b r = (if b then [r] else [])"

text \<open>Up to the first await.\<close>

definition check_request :: "intake_config \<Rightarrow> int \<Rightarrow> string set \<Rightarrow> inbound \<Rightarrow> intake_reason list" where
  "check_request cfg now seen m =
     intake_if (ib_station m \<noteq> ic_station cfg) Wrong_station
   @ intake_if (upper (ib_environment m) \<noteq> ic_environment cfg) Wrong_environment
   @ intake_if (ib_schema_version m \<noteq> ''1.0'') Unsupported_schema_version
   @ intake_if (ic_environment cfg \<noteq> ''LAB'' \<and> ib_simulator_only m) Simulator_only_requires_lab
   @ intake_if (case ib_expires_at m of None \<Rightarrow> False | Some t \<Rightarrow> t \<le> now) Expired
   @ intake_if (ib_correlation_id m \<in> seen) Duplicate_correlation_id"

text \<open>The look-up of a recorded command, and the parsing of the command.\<close>

definition look_up_request :: "store \<Rightarrow> inbound \<Rightarrow> intake_reason list \<Rightarrow> intake_reason list" where
  "look_up_request d m reasons =
     reasons
   @ intake_if (get_command (ib_correlation_id m) d \<noteq> None) Duplicate_persisted_command
   @ intake_if (pump_command_of_value (ib_type m) = None) Unknown_command_type"

definition find_pump :: "intake_config \<Rightarrow> inbound \<Rightarrow> store \<Rightarrow> pump_row option" where
  "find_pump cfg m d =
    find (\<lambda>p. pr_logical p = ib_pump m \<or> pr_id p = ib_pump m \<or> int_text (pr_address p) = ib_pump m)
      (pumps_of_station (ic_station cfg) d)"

definition stored_context :: "pump_row \<Rightarrow> snapshot_row option \<Rightarrow> pump_context" where
  "stored_context p snap =
    (new_context (pr_logical p) (pr_address p))
    \<lparr>pc_current_state := stored_state snap,
     pc_communication_healthy := (case snap of None \<Rightarrow> False | Some s \<Rightarrow> sn_healthy s),
     pc_state_version := (case snap of None \<Rightarrow> 0 | Some s \<Rightarrow> nat (sn_version s))\<rparr>"

definition not_evaluated :: "intake_reason list \<Rightarrow> pump_command option \<Rightarrow> evaluation" where
  "not_evaluated reasons command =
    \<lparr>ve_reasons = reasons, ve_command = command, ve_pump = None, ve_context = None, ve_eligible = False,
     ve_state = ''UNKNOWN'', ve_warnings = []\<rparr>"

text \<open>A command without a preset value is always evaluated without an exception.\<close>

definition evaluate_request :: "intake_config \<Rightarrow> store \<Rightarrow> 'w controller option \<Rightarrow> inbound \<Rightarrow> intake_reason list \<Rightarrow> evaluation result" where
  "evaluate_request cfg d loop m reasons =
    (let parsed = pump_command_of_value (ib_type m) in
     case parsed of
       None \<Rightarrow> Inr (not_evaluated reasons parsed)
     | Some command \<Rightarrow>
         if reasons \<noteq> [] then Inr (not_evaluated reasons parsed)
         else case find_pump cfg m d of
           None \<Rightarrow> Inr (not_evaluated [Pump_not_found] parsed)
         | Some p \<Rightarrow>
             let ctx = (case session_context loop (pr_address p) of
                          Some c \<Rightarrow> c | None \<Rightarrow> stored_context p (latest_snapshot (pr_id p) d))
             in bind_result (evaluate_command_eligibility command ctx None False False) (\<lambda>e.
                  Inr \<lparr>ve_reasons = map Blocked (if el_eligible e then [] else el_blocking e), ve_command = parsed,
                       ve_pump = Some (pr_id p), ve_context = Some ctx, ve_eligible = el_eligible e,
                       ve_state = pump_state_value (el_current_state e), ve_warnings = el_warnings e\<rparr>))"

text \<open>Whether the laboratory may execute what came from outside.\<close>

definition lab_may_execute :: "intake_config \<Rightarrow> 'w controller option \<Rightarrow> inbound \<Rightarrow> bool" where
  "lab_may_execute cfg loop m \<longleftrightarrow>
    ic_environment cfg = ''LAB'' \<and> ib_simulator_only m \<and> ic_allow_lab cfg \<and> loop \<noteq> None \<and> ic_virtual cfg"

text \<open>The command that is enqueued and its CD1 form, if there is one to enqueue.\<close>

definition to_enqueue :: "intake_config \<Rightarrow> 'w controller option \<Rightarrow> inbound \<Rightarrow> evaluation \<Rightarrow> (pump_command \<times> pump_control_command) option" where
  "to_enqueue cfg loop m v =
    (case ve_command v of
       None \<Rightarrow> None
     | Some command \<Rightarrow>
         if lab_may_execute cfg loop m \<and> ve_reasons v = [] \<and>
            (command \<in> NON_IDEMPOTENT_COMMANDS \<or> command \<in> {READ_STATUS, READ_TOTALS} \<and> ve_context v \<noteq> None)
         then map_option (Pair command) (map_of CD1_MAP command)
         else None)"

definition REJECTING :: "intake_reason set" where
  "REJECTING = {Wrong_station, Wrong_environment, Unsupported_schema_version, Expired, Duplicate_correlation_id,
     Duplicate_persisted_command, Unknown_command_type, Pump_not_found}"

text \<open>\<open>accepted\<close>, \<open>rejected\<close> and the status they leave.\<close>

definition conclude :: "evaluation \<Rightarrow> intake_reason list \<Rightarrow> bool \<Rightarrow> string \<Rightarrow> outcome" where
  "conclude v reasons executed status =
    (let accepted = (reasons = [] \<or> ve_eligible v \<and> status \<in> {''QUEUED'', ''EVALUATED_ONLY''} \<and>
           set reasons \<inter> {Expired, Wrong_station, Duplicate_correlation_id, Duplicate_persisted_command} = {});
         rejected = (set reasons \<inter> REJECTING \<noteq> {})
     in \<lparr>oc_evaluation = v, oc_reasons = reasons, oc_accepted = (accepted \<and> \<not> rejected), oc_executed = executed,
         oc_status = (if rejected then ''REJECTED'' else status),
         oc_resulting_state = (if executed then Some (ve_state v) else None)\<rparr>)"

text \<open>No await from the decision to \<open>_seen.add\<close>.\<close>

definition execute_request :: "'m cloud \<Rightarrow> intake_config \<Rightarrow> inbound \<Rightarrow> evaluation \<Rightarrow> (('m, 'w) intake, outcome) action" where
  "execute_request cd cfg m v = read_act (\<lambda>s.
    bind_act
      (case to_enqueue cfg (ik_loop s) m v of
         None \<Rightarrow> return_act (conclude v (ve_reasons v) False ''EVALUATED_ONLY'')
       | Some (command, cd1) \<Rightarrow>
           let now = cd_now cd (ik_mqtt s); uuid = db_supply (ik_store s) (db_drawn (ik_store s));
               address = (case ve_context v of None \<Rightarrow> 1 | Some c \<Rightarrow> pc_dart_address c)
           in then_act (modify_act (\<lambda>s. s\<lparr>ik_store := snd (draw_uuid (ik_store s))\<rparr>))
             (case queue_lab_item now (lab_item uuid now address command cd1) (the (ik_loop s)) of
                (Inr u, c) \<Rightarrow>
                  then_act (modify_act (\<lambda>s. s\<lparr>ik_loop := Some c\<rparr>)) (return_act (conclude v (ve_reasons v) True ''QUEUED''))
              | (Inl e, c) \<Rightarrow> return_act (conclude v (ve_reasons v @ [Enqueue_failed e]) False ''ENQUEUE_FAILED'')))
      (\<lambda>out. then_act (modify_act (\<lambda>s. s\<lparr>ik_seen := insert (ib_correlation_id m) (ik_seen s)\<rparr>)) (return_act out)))"

definition recorded_command :: "intake_config \<Rightarrow> (outbound_error \<Rightarrow> string) \<Rightarrow> int \<Rightarrow> inbound \<Rightarrow> outcome \<Rightarrow> command_row" where
  "recorded_command cfg say now m out =
    (new_command (ib_correlation_id m) (ic_station cfg) (ve_pump (oc_evaluation out)) (ib_type m) (oc_status out)
       (idempotency_text (ve_command (oc_evaluation out))) (ib_simulator_only m) now)
    \<lparr>cm_expires_at := ib_expires_at m, cm_completed_at := Some now,
     cm_request := Some (JObj [(''commandId'', JStr (ib_command_id m)), (''requestedBy'', JOpt JStr (ib_requested_by m)),
       (''payload'', JObj (ib_payload m))]),
     cm_result := Some (JObj [(''accepted'', JBool (oc_accepted out)), (''executed'', JBool (oc_executed out)),
       (''execution_status'', JStr (oc_status out))]),
     cm_blocking := Some (map (reason_text say) (oc_reasons out))\<rparr>"

definition recorded_audit :: "intake_config \<Rightarrow> (outbound_error \<Rightarrow> string) \<Rightarrow> inbound \<Rightarrow> outcome \<Rightarrow> audit_values" where
  "recorded_audit cfg say m out =
    \<lparr>av_actor = or_text (ib_requested_by m) ''cloud'', av_source = ''mqtt_command'',
     av_action = ''CLOUD_COMMAND:'' @ ib_type m, av_station = ic_station cfg, av_result = oc_status out,
     av_correlation_id = Some (ib_correlation_id m), av_pump = ve_pump (oc_evaluation out),
     av_previous_state = Some (ve_state (oc_evaluation out)),
     av_resulting_state = Some (or_text (oc_resulting_state out) (ve_state (oc_evaluation out))),
     av_details = Some (JObj [(''blocking_reasons'', JList (map (JStr \<circ> reason_text say) (oc_reasons out))),
       (''executed'', JBool (oc_executed out))])\<rparr>"

definition record_request ::
  "(string \<Rightarrow> string) \<Rightarrow> (outbound_error \<Rightarrow> string) \<Rightarrow> 'm cloud \<Rightarrow> intake_config \<Rightarrow> inbound \<Rightarrow> outcome \<Rightarrow> (('m, 'w) intake, unit) action" where
  "record_request sha say cd cfg m out = read_act (\<lambda>s. let now = cd_now cd (ik_mqtt s) in
    in_rows (read_act (\<lambda>d.
      bind_act
        (if get_command (ib_correlation_id m) d = None
         then bind_act (create_command (recorded_command cfg say now m out)) (\<lambda>r. return_act ())
         else return_act ())
        (\<lambda>_. bind_act (append_audit sha (cd_iso cd) now (recorded_audit cfg say m out)) (\<lambda>a. return_act ())))))"

definition result_fields :: "intake_config \<Rightarrow> (outbound_error \<Rightarrow> string) \<Rightarrow> string \<Rightarrow> inbound \<Rightarrow> outcome \<Rightarrow> (string \<times> json) list" where
  "result_fields cfg say now m out =
    [(''commandId'', JStr (ib_command_id m)), (''correlationId'', JStr (ib_correlation_id m)),
     (''accepted'', JBool (oc_accepted out)), (''evaluated'', JBool True), (''executed'', JBool (oc_executed out)),
     (''executionStatus'', JStr (oc_status out)),
     (''blockingReasons'', JList (map (JStr \<circ> reason_text say) (oc_reasons out))),
     (''warnings'', JList (map (JStr \<circ> warning_text) (ve_warnings (oc_evaluation out)))),
     (''currentPumpState'', JStr (ve_state (oc_evaluation out))), (''resultingState'', JOpt JStr (oc_resulting_state out)),
     (''environment'', JStr (ic_environment cfg)), (''simulated'', JBool (ic_simulated cfg \<or> ib_simulator_only m)),
     (''timestamp'', JStr now)]"

definition answer_request ::
  "(outbound_error \<Rightarrow> string) \<Rightarrow> 'm cloud \<Rightarrow> intake_config \<Rightarrow> inbound \<Rightarrow> outcome \<Rightarrow> (('m, 'w) intake, json) action" where
  "answer_request say cd cfg m out = read_act (\<lambda>s.
    let now = cd_iso cd (cd_now cd (ik_mqtt s)); n = ik_seq s + 1; fields = result_fields cfg say now m out
    in then_act (modify_act (\<lambda>s. s\<lparr>ik_seq := n\<rparr>))
      (bind_act (result_act (build_envelope now (cd_ids cd n)
          \<lparr>ev_event_type = ''COMMAND_RESULT'', ev_environment = ic_environment cfg, ev_device = ic_device cfg,
           ev_station = ic_station cfg, ev_sequence = n, ev_simulated = (ic_simulated cfg \<or> ib_simulator_only m),
           ev_key = ''cmd-result:'' @ ib_correlation_id m, ev_payload = fields, ev_occurred_at = None,
           ev_pump = Some (ib_pump m), ev_transaction = None, ev_correlation = Some (ib_correlation_id m),
           ev_message_id = None\<rparr>)) (\<lambda>e.
        if \<not> cd_connected cd (ik_mqtt s) then return_act (JObj fields)
        else bind_act (result_act (command_result_topic (ic_topics cfg) (ic_station cfg) (ib_correlation_id m))) (\<lambda>topic.
          bind_act (in_mqtt (cd_publish cd topic (envelope_dict e) (qos_for_event ''COMMAND_RESULT'') False)) (\<lambda>ack.
            return_act (JObj fields))))))"

section \<open>The handler and its tasks\<close>

text \<open>A task stands at an await; \<open>run_to_await\<close> runs it to its next one.\<close>

datatype task =
    At_start inbound
  | At_lookup inbound "intake_reason list"
  | At_evaluation inbound "intake_reason list"
  | At_decision inbound evaluation
  | At_record inbound outcome
  | At_answer inbound outcome
  | At_end "json option"

record intake_setup =
  is_sha :: "string \<Rightarrow> string"
  is_say :: "outbound_error \<Rightarrow> string"
  is_config :: intake_config

fun run_to_await :: "intake_setup \<Rightarrow> 'm cloud \<Rightarrow> task \<Rightarrow> (('m, 'w) intake, task) action" where
  "run_to_await u cd (At_start m) = read_act (\<lambda>s.
     return_act (At_lookup m (check_request (is_config u) (cd_now cd (ik_mqtt s)) (ik_seen s) m)))"
| "run_to_await u cd (At_lookup m reasons) = read_act (\<lambda>s. return_act (At_evaluation m (look_up_request (ik_store s) m reasons)))"
| "run_to_await u cd (At_evaluation m reasons) = read_act (\<lambda>s.
     bind_act (result_act (evaluate_request (is_config u) (ik_store s) (ik_loop s) m reasons)) (\<lambda>v. return_act (At_decision m v)))"
| "run_to_await u cd (At_decision m v) = bind_act (execute_request cd (is_config u) m v) (\<lambda>out. return_act (At_record m out))"
| "run_to_await u cd (At_record m out) =
     then_act (record_request (is_sha u) (is_say u) cd (is_config u) m out) (return_act (At_answer m out))"
| "run_to_await u cd (At_answer m out) =
     bind_act (answer_request (is_say u) cd (is_config u) m out) (\<lambda>r. return_act (At_end (Some r)))"
| "run_to_await u cd (At_end r) = return_act (At_end r)"

text \<open>\<open>handle_command\<close> from start to end, with nothing in between.\<close>

definition handle_command :: "intake_setup \<Rightarrow> 'm cloud \<Rightarrow> inbound \<Rightarrow> (('m, 'w) intake, json) action" where
  "handle_command u cd m = read_act (\<lambda>s.
    let reasons = check_request (is_config u) (cd_now cd (ik_mqtt s)) (ik_seen s) m in
    bind_act (result_act (evaluate_request (is_config u) (ik_store s) (ik_loop s) m (look_up_request (ik_store s) m reasons))) (\<lambda>v.
    bind_act (execute_request cd (is_config u) m v) (\<lambda>out.
    then_act (record_request (is_sha u) (is_say u) cd (is_config u) m out)
      (answer_request (is_say u) cd (is_config u) m out))))"

definition intake_start :: "intake_setup \<Rightarrow> (string \<Rightarrow> ('m, unit) action) \<Rightarrow> (('m, 'w) intake, unit) action" where
  "intake_start u subscribe =
    bind_act (result_act (commands_topic (ic_topics (is_config u)) (ic_station (is_config u)))) (\<lambda>topic.
      then_act (in_mqtt (subscribe topic)) (modify_act (\<lambda>s. s\<lparr>ik_active := True\<rparr>)))"

definition intake_stop :: "intake_setup \<Rightarrow> (string \<Rightarrow> ('m, unit) action) \<Rightarrow> (('m, 'w) intake, unit) action" where
  "intake_stop u unsubscribe =
    then_act (modify_act (\<lambda>s. s\<lparr>ik_active := False\<rparr>))
      (catch_act (bind_act (result_act (commands_topic (ic_topics (is_config u)) (ic_station (is_config u)))) (\<lambda>topic.
          in_mqtt (unsubscribe topic)))
        (\<lambda>e. return_act ()))"

text \<open>\<open>_on_message\<close>: what cannot be parsed or validated, here None, is dropped.\<close>

definition on_message :: "intake_setup \<Rightarrow> 'm cloud \<Rightarrow> inbound option \<Rightarrow> (('m, 'w) intake, unit) action" where
  "on_message u cd parsed = read_act (\<lambda>s.
    if \<not> ik_active s then return_act ()
    else case parsed of
      None \<Rightarrow> return_act ()
    | Some m \<Rightarrow> if inbound_valid m then bind_act (handle_command u cd m) (\<lambda>r. return_act ()) else return_act ())"

text \<open>The tasks of several messages; one that raises is over.\<close>

fun run_task :: "intake_setup \<Rightarrow> 'm cloud \<Rightarrow> task list \<times> ('m, 'w) intake \<Rightarrow> nat \<Rightarrow> task list \<times> ('m, 'w) intake" where
  "run_task u cd (ts, s) i =
    (if i < length ts
     then case run_to_await u cd (ts ! i) s of
            (Inr t, s') \<Rightarrow> (ts[i := t], s') | (Inl e, s') \<Rightarrow> (ts[i := At_end None], s')
     else (ts, s))"

section \<open>Only the laboratory executes\<close>

text \<open>What a message has passed when no reason was found against it, and an item that a message may put in the queue.\<close>

definition vetted :: "intake_config \<Rightarrow> inbound \<Rightarrow> bool" where
  "vetted cfg m \<longleftrightarrow> ib_station m = ic_station cfg \<and> upper (ib_environment m) = ic_environment cfg \<and>
     ib_schema_version m = ''1.0''"

text \<open>
  The context a message is about: that of the running session of the pump it names, or else what was stored of it last. \<open>V\<close> are
  the databases and controllers it may be looked up in.
\<close>

definition addressed_context :: "intake_config \<Rightarrow> store \<Rightarrow> 'w controller option \<Rightarrow> inbound \<Rightarrow> pump_context option" where
  "addressed_context cfg d loop m =
    map_option (\<lambda>p. case session_context loop (pr_address p) of
        Some c \<Rightarrow> c | None \<Rightarrow> stored_context p (latest_snapshot (pr_id p) d)) (find_pump cfg m d)"

definition eligible_in :: "intake_config \<Rightarrow> (store \<times> 'w controller option) set \<Rightarrow> inbound \<Rightarrow> pump_command \<Rightarrow> pump_context \<Rightarrow> bool" where
  "eligible_in cfg V m command ctx \<longleftrightarrow>
    (\<exists>(d, loop)\<in>V. addressed_context cfg d loop m = Some ctx) \<and> is_eligible command ctx None"

definition genuine :: "intake_config \<Rightarrow> (store \<times> 'w controller option) set \<Rightarrow> inbound \<Rightarrow> outbound_item \<Rightarrow> bool" where
  "genuine cfg V m i \<longleftrightarrow>
     ic_environment cfg = ''LAB'' \<and> ic_allow_lab cfg \<and> ic_virtual cfg \<and> vetted cfg m \<and> ib_simulator_only m \<and>
     oi_simulator_only i \<and> pump_command_of_value (ib_type m) = Some (oi_command i) \<and>
     (\<exists>ctx. eligible_in cfg V m (oi_command i) ctx \<and> oi_address i = pc_dart_address ctx) \<and>
     (\<exists>cd1. map_of CD1_MAP (oi_command i) = Some cd1 \<and> oi_payload i = cd1_payload cd1)"

fun task_ok :: "intake_config \<Rightarrow> (store \<times> 'w controller option) set \<Rightarrow> task \<Rightarrow> bool" where
  "task_ok cfg V (At_lookup m reasons) \<longleftrightarrow> (reasons = [] \<longrightarrow> vetted cfg m)"
| "task_ok cfg V (At_evaluation m reasons) \<longleftrightarrow> (reasons = [] \<longrightarrow> vetted cfg m \<and> pump_command_of_value (ib_type m) \<noteq> None)"
| "task_ok cfg V (At_decision m v) \<longleftrightarrow> ve_command v = pump_command_of_value (ib_type m) \<and>
     (ve_reasons v = [] \<longrightarrow> vetted cfg m \<and>
       (\<exists>c ctx. ve_command v = Some c \<and> ve_context v = Some ctx \<and> eligible_in cfg V m c ctx))"
| "task_ok cfg V _ \<longleftrightarrow> True"

lemma check_request_vets: "check_request cfg now seen m = [] \<Longrightarrow> vetted cfg m"
  by (auto simp: check_request_def intake_if_def vetted_def split: if_splits)

lemma look_up_vets: "look_up_request d m reasons = [] \<longleftrightarrow>
    reasons = [] \<and> get_command (ib_correlation_id m) d = None \<and> pump_command_of_value (ib_type m) \<noteq> None"
  by (auto simp: look_up_request_def intake_if_def)

lemma eligible_without_preset:
  assumes "evaluate_command_eligibility command ctx None physical active = Inr e"
  shows "el_eligible e \<longleftrightarrow> is_eligible command ctx None" "el_eligible e \<or> el_blocking e \<noteq> []"
  using assms
  by (cases command; auto simp: evaluate_command_eligibility_def is_eligible_def Let_def bind_result_Inr_iff
      blocking_reasons_def)+

lemma evaluate_request_ok:
  assumes "evaluate_request cfg d loop m reasons = Inr v" "task_ok cfg V (At_evaluation m reasons)" "(d, loop) \<in> V"
  shows "task_ok cfg V (At_decision m v)"
proof (cases "pump_command_of_value (ib_type m) = None \<or> reasons \<noteq> [] \<or> find_pump cfg m d = None")
  case True
  with assms(1,2) show ?thesis
    by (auto simp: evaluate_request_def not_evaluated_def Let_def bind_result_Inr_iff split: if_splits option.splits
        dest: eligible_without_preset(2))
next
  case False
  then obtain command p where p: "pump_command_of_value (ib_type m) = Some command" "find_pump cfg m d = Some p" "reasons = []"
    by auto
  define ctx where "ctx = (case session_context loop (pr_address p) of
      Some c \<Rightarrow> c | None \<Rightarrow> stored_context p (latest_snapshot (pr_id p) d))"
  have "addressed_context cfg d loop m = Some ctx" by (simp add: addressed_context_def p(2) ctx_def)
  with assms(3) have V: "\<exists>(d, loop)\<in>V. addressed_context cfg d loop m = Some ctx" by blast
  from assms(1) obtain e where e: "evaluate_command_eligibility command ctx None False False = Inr e"
    "v = \<lparr>ve_reasons = map Blocked (if el_eligible e then [] else el_blocking e), ve_command = Some command,
       ve_pump = Some (pr_id p), ve_context = Some ctx, ve_eligible = el_eligible e,
       ve_state = pump_state_value (el_current_state e), ve_warnings = el_warnings e\<rparr>"
    by (auto simp: evaluate_request_def p Let_def bind_result_Inr_iff ctx_def [symmetric])
  from eligible_without_preset [OF e(1)] V assms(2) show ?thesis by (auto simp: e(2) p eligible_in_def)
qed

lemma to_enqueue_Some:
  assumes "to_enqueue cfg loop m v = Some (command, cd1)"
  shows "lab_may_execute cfg loop m" "ve_reasons v = []" "ve_command v = Some command" "map_of CD1_MAP command = Some cd1"
  using assms by (auto simp: to_enqueue_def split: option.splits if_splits)

lemma execute_request_queue:
  assumes "task_ok (is_config u) V (At_decision m v)" "execute_request cd (is_config u) m v s = (res, s')"
  shows "waiting (ik_loop s') = waiting (ik_loop s) \<or>
    (\<exists>i. waiting (ik_loop s') = waiting (ik_loop s) @ [i] \<and> genuine (is_config u) V m i)"
proof (cases "to_enqueue (is_config u) (ik_loop s) m v")
  case None
  with assms(2) show ?thesis by (auto simp: execute_request_def bind_act_def)
next
  case (Some p)
  then obtain command cd1 where p: "to_enqueue (is_config u) (ik_loop s) m v = Some (command, cd1)" by (cases p) simp
  note known = to_enqueue_Some [OF p]
  from known(1) obtain loop where loop: "ik_loop s = Some loop" by (auto simp: lab_may_execute_def)
  from known assms(1) obtain ctx where ctx: "ve_context v = Some ctx" "eligible_in (is_config u) V m command ctx" "vetted (is_config u) m"
    by auto
  define item where "item = lab_item (db_supply (ik_store s) (db_drawn (ik_store s))) (cd_now cd (ik_mqtt s))
    (pc_dart_address ctx) command cd1"
  obtain r loop' where queued: "queue_lab_item (cd_now cd (ik_mqtt s)) item loop = (r, loop')" by fastforce
  have genuine: "genuine (is_config u) V m item"
    using known ctx assms(1) by (auto simp: genuine_def item_def lab_item_def create_item_def lab_may_execute_def)
  from queue_lab_item_cases [OF queued] p loop ctx(1) queued assms(2) genuine show ?thesis
    by (auto simp: execute_request_def bind_act_def Let_def item_def [symmetric] waiting_def split: sum.splits)
qed

lemma in_rows_loop: "keeps (\<lambda>s. ik_loop s = L) (in_rows m)"
  by (simp add: keeps_def in_rows_def split: prod.split)

lemma in_mqtt_loop: "keeps (\<lambda>s. ik_loop s = L) (in_mqtt m)"
  by (simp add: keeps_def in_mqtt_def split: prod.split)

lemma record_request_loop: "keeps (\<lambda>s. ik_loop s = L) (record_request sha say cd cfg m out)"
  unfolding record_request_def Let_def by (intro keeps_read_each in_rows_loop)

lemma answer_request_loop: "keeps (\<lambda>s. ik_loop s = L) (answer_request say cd cfg m out)"
  unfolding answer_request_def Let_def
  by (intro keeps_read_each keeps_then keeps_modify keeps_bind keeps_if keeps_result keeps_return in_mqtt_loop) simp

lemma record_keeps_loop: "ik_loop (snd (record_request sha say cd cfg m out s)) = ik_loop s"
  by (rule keepsD [OF record_request_loop]) (rule refl)

lemma answer_keeps_loop: "ik_loop (snd (answer_request say cd cfg m out s)) = ik_loop s"
  by (rule keepsD [OF answer_request_loop]) (rule refl)

fun message_of :: "task \<Rightarrow> inbound option" where
  "message_of (At_start m) = Some m"
| "message_of (At_lookup m reasons) = Some m"
| "message_of (At_evaluation m reasons) = Some m"
| "message_of (At_decision m v) = Some m"
| "message_of (At_record m out) = Some m"
| "message_of (At_answer m out) = Some m"
| "message_of (At_end r) = None"

text \<open>One step of a task adds at most one item to the queue, and only one its message may add.\<close>

definition adds_genuine :: "intake_config \<Rightarrow> (store \<times> 'w controller option) set \<Rightarrow> inbound set \<Rightarrow> outbound_item list \<Rightarrow> outbound_item list \<Rightarrow> bool" where
  "adds_genuine cfg V ms before after \<longleftrightarrow> (\<exists>new. after = before @ new \<and> (\<forall>i\<in>set new. \<exists>m\<in>ms. genuine cfg V m i))"

lemma adds_genuine_refl: "adds_genuine cfg V ms items items"
  by (simp add: adds_genuine_def)

lemma adds_genuine_trans:
  "adds_genuine cfg V ms a b \<Longrightarrow> adds_genuine cfg V ms b c \<Longrightarrow> adds_genuine cfg V ms a c"
  by (auto simp: adds_genuine_def)

lemma advance_adds:
  assumes "task_ok (is_config u) V t" "\<And>m. message_of t = Some m \<Longrightarrow> m \<in> ms" "run_to_await u cd t s = (res, s')"
    and visited: "(ik_store s, ik_loop s) \<in> V"
  shows "adds_genuine (is_config u) V ms (waiting (ik_loop s)) (waiting (ik_loop s'))"
    "res = Inr t' \<Longrightarrow> task_ok (is_config u) V t' \<and> (message_of t' = None \<or> message_of t' = message_of t)"
proof -
  have same: "adds_genuine (is_config u) V ms (waiting (ik_loop s)) (waiting (ik_loop s'))" if "ik_loop s' = ik_loop s"
    using that by (simp add: adds_genuine_refl)
  show "adds_genuine (is_config u) V ms (waiting (ik_loop s)) (waiting (ik_loop s'))"
  proof (cases t)
    case (At_decision m' v)
    obtain r2 s2 where exec: "execute_request cd (is_config u) m' v s = (r2, s2)" by fastforce
    with At_decision assms(3) have "s2 = s'" by (cases r2) (auto simp: bind_act_def)
    have ok: "task_ok (is_config u) V (At_decision m' v)" using assms(1) unfolding At_decision .
    have mem: "m' \<in> ms" using assms(2) At_decision by simp
    from execute_request_queue [OF ok exec] show ?thesis
    proof
      assume "waiting (ik_loop s2) = waiting (ik_loop s)"
      then show ?thesis unfolding \<open>s2 = s'\<close> by (simp add: adds_genuine_refl)
    next
      assume "\<exists>i. waiting (ik_loop s2) = waiting (ik_loop s) @ [i] \<and> genuine (is_config u) V m' i"
      with mem show ?thesis unfolding \<open>s2 = s'\<close> adds_genuine_def by auto
    qed
  next
    case (At_record m' out)
    have "snd (record_request (is_sha u) (is_say u) cd (is_config u) m' out s) = s'"
      using At_record assms(3) by (auto split: prod.splits sum.splits)
    with record_keeps_loop same show ?thesis by metis
  next
    case (At_answer m' out)
    have "snd (answer_request (is_say u) cd (is_config u) m' out s) = s'"
      using At_answer assms(3) by (auto simp: bind_act_def split: prod.splits sum.splits)
    with answer_keeps_loop same show ?thesis by metis
  qed (use assms(3) same in \<open>auto simp: bind_act_def split: sum.splits\<close>)
  show "task_ok (is_config u) V t' \<and> (message_of t' = None \<or> message_of t' = message_of t)" if "res = Inr t'"
    using assms(1,3) that evaluate_request_ok [OF _ _ visited]
    by (cases t) (auto simp: bind_act_def check_request_vets look_up_vets simp del: task_ok.simps(3) split: prod.splits sum.splits)
qed

lemma run_task_adds:
  assumes "list_all (task_ok (is_config u) V) ts" "\<forall>t\<in>set ts. \<forall>m. message_of t = Some m \<longrightarrow> m \<in> ms"
    and "run_task u cd (ts, s) i = (ts', s')" and visited: "(ik_store s, ik_loop s) \<in> V"
  shows "adds_genuine (is_config u) V ms (waiting (ik_loop s)) (waiting (ik_loop s')) \<and>
    list_all (task_ok (is_config u) V) ts' \<and> (\<forall>t\<in>set ts'. \<forall>m. message_of t = Some m \<longrightarrow> m \<in> ms)"
proof (cases "i < length ts")
  case False
  with assms show ?thesis by (simp add: adds_genuine_refl)
next
  case True
  obtain res s1 where step: "run_to_await u cd (ts ! i) s = (res, s1)" by fastforce
  define t' where "t' = (case res of Inr t \<Rightarrow> t | Inl e \<Rightarrow> At_end None)"
  have eq: "ts' = ts[i := t']" "s' = s1" using assms(3) True step by (auto simp: t'_def split: sum.splits)
  have ok: "task_ok (is_config u) V (ts ! i)" using assms(1) True by (simp add: list_all_length)
  have msg: "message_of (ts ! i) = Some m \<Longrightarrow> m \<in> ms" for m using assms(2) True nth_mem by blast
  have t': "task_ok (is_config u) V t' \<and> (message_of t' = None \<or> message_of t' = message_of (ts ! i))"
    using advance_adds(2) [OF ok msg step visited] by (cases res) (simp_all add: t'_def)
  have "set ts' \<subseteq> insert t' (set ts)" unfolding eq by (rule set_update_subset_insert)
  moreover have "message_of t' = Some m \<Longrightarrow> m \<in> ms" for m using t' msg by auto
  ultimately have "\<forall>t\<in>set ts'. task_ok (is_config u) V t \<and> (\<forall>m. message_of t = Some m \<longrightarrow> m \<in> ms)"
    using t' assms(1,2) unfolding list_all_iff by blast
  with advance_adds(1) [OF ok msg step visited] show ?thesis unfolding eq(2) list_all_iff by blast
qed

text \<open>The databases and controllers the tasks have in front of them in the course of a schedule.\<close>

fun visited ::
  "intake_setup \<Rightarrow> 'm cloud \<Rightarrow> task list \<times> ('m, 'w) intake \<Rightarrow> nat list \<Rightarrow> (store \<times> 'w controller option) list" where
  "visited u cd st [] = [(ik_store (snd st), ik_loop (snd st))]"
| "visited u cd st (i # is) = (ik_store (snd st), ik_loop (snd st)) # visited u cd (run_task u cd st i) is"

lemma run_tasks_add:
  assumes "list_all (task_ok (is_config u) V) ts" "\<forall>t\<in>set ts. \<forall>m. message_of t = Some m \<longrightarrow> m \<in> ms"
    and "set (visited u cd (ts, s) is) \<subseteq> V"
  shows "adds_genuine (is_config u) V ms (waiting (ik_loop s)) (waiting (ik_loop (snd (foldl (run_task u cd) (ts, s) is))))"
  using assms
proof (induction "is" arbitrary: ts s)
  case (Cons i "is")
  obtain ts1 s1 where step: "run_task u cd (ts, s) i = (ts1, s1)" by fastforce
  have "(ik_store s, ik_loop s) \<in> V" and later: "set (visited u cd (ts1, s1) is) \<subseteq> V" using Cons.prems(3) step by simp_all
  note added = run_task_adds [OF Cons.prems(1,2) step this(1)]
  then have "adds_genuine (is_config u) V ms (waiting (ik_loop s1))
      (waiting (ik_loop (snd (foldl (run_task u cd) (ts1, s1) is))))" using Cons.IH later by blast
  with added show ?case using adds_genuine_trans step by (metis foldl_Cons)
qed (simp add: adds_genuine_refl)

text \<open>
  C9. However the handlers of however many messages interleave, what they add to the queue of the controller are
  simulator-only items, in the laboratory, over a virtual transport, with the permission for laboratory commands; each is
  the CD1 form of the command of one of the messages, which was marked simulator-only and was for this station, environment
  and schema version. The command was eligible for the pump the message names: in one of the states the run went through, the
  context of that pump (its session's, or else the stored one) allowed it, and the item goes to the address of that context.
\<close>

theorem cloud_executes_only_in_lab:
  fixes u cd and s :: "('m, 'w) intake"
  shows "case foldl (run_task u cd) (map At_start ms, s) is of (ts', s') \<Rightarrow>
    (\<exists>new. waiting (ik_loop s') = waiting (ik_loop s) @ new \<and>
      list_all (\<lambda>i. list_ex (\<lambda>m. genuine (is_config u) (set (visited u cd (map At_start ms, s) is)) m i) ms) new)"
proof -
  have "adds_genuine (is_config u) (set (visited u cd (map At_start ms, s) is)) (set ms) (waiting (ik_loop s))
      (waiting (ik_loop (snd (foldl (run_task u cd) (map At_start ms, s) is))))"
    by (rule run_tasks_add) (auto simp: list_all_iff)
  then show ?thesis
    by (auto simp: adds_genuine_def list_all_iff list_ex_iff split: prod.split)
qed

section \<open>How often a command executes\<close>

lemma execute_request_seen:
  assumes "execute_request cd cfg m v s = (res, s')"
  shows "\<exists>out. res = Inr out" "ik_seen s' = insert (ib_correlation_id m) (ik_seen s)"
    "waiting (ik_loop s') \<noteq> waiting (ik_loop s) \<Longrightarrow> ve_reasons v = []"
  using assms to_enqueue_Some(2)
  by (auto simp: execute_request_def bind_act_def Let_def split: option.splits prod.splits sum.splits)

lemma in_rows_seen: "keeps (\<lambda>s. ik_loop s = L \<and> ik_seen s = S) (in_rows m)"
  by (simp add: keeps_def in_rows_def split: prod.split)

lemma in_mqtt_seen: "keeps (\<lambda>s. ik_loop s = L \<and> ik_seen s = S) (in_mqtt m)"
  by (simp add: keeps_def in_mqtt_def split: prod.split)

lemma record_answer_keep:
  "keeps (\<lambda>s. ik_loop s = L \<and> ik_seen s = S) (then_act (record_request sha say cd cfg m out) (answer_request say cd cfg m out))"
  unfolding record_request_def answer_request_def Let_def
  by (intro keeps_read_each keeps_then keeps_modify keeps_bind keeps_if keeps_result keeps_return in_rows_seen in_mqtt_seen)
    simp

lemma evaluate_request_reasons:
  "evaluate_request cfg d loop m reasons = Inr v \<Longrightarrow> ve_reasons v = [] \<Longrightarrow> reasons = []"
  by (auto simp: evaluate_request_def not_evaluated_def Let_def split: option.splits if_splits)

lemma handle_command_once:
  assumes "s' = snd (handle_command u cd m s)"
  shows "ik_seen s \<subseteq> ik_seen s' \<and> (waiting (ik_loop s') \<noteq> waiting (ik_loop s) \<longrightarrow>
    ib_correlation_id m \<notin> ik_seen s \<and> ib_correlation_id m \<in> ik_seen s')"
proof -
  define reasons where "reasons = check_request (is_config u) (cd_now cd (ik_mqtt s)) (ik_seen s) m"
  define looked where "looked = look_up_request (ik_store s) m reasons"
  show ?thesis
  proof (cases "evaluate_request (is_config u) (ik_store s) (ik_loop s) m looked")
    case (Inl e)
    with assms show ?thesis by (simp add: handle_command_def Let_def bind_act_def reasons_def looked_def)
  next
    case (Inr v)
    obtain res s1 where exec: "execute_request cd (is_config u) m v s = (res, s1)" by fastforce
    then obtain out where out: "res = Inr out" using execute_request_seen(1) by blast
    have s': "s' = snd (then_act (record_request (is_sha u) (is_say u) cd (is_config u) m out)
        (answer_request (is_say u) cd (is_config u) m out) s1)"
      using assms Inr exec out
      by (simp add: handle_command_def Let_def bind_act_def reasons_def looked_def del: then_act_simp)
    have kept: "ik_loop s' = ik_loop s1 \<and> ik_seen s' = ik_seen s1"
      unfolding s' by (rule keepsD [OF record_answer_keep]) simp
    have new: "ib_correlation_id m \<notin> ik_seen s" if "waiting (ik_loop s1) \<noteq> waiting (ik_loop s)"
    proof -
      from execute_request_seen(3) [OF exec that] have "looked = []" using evaluate_request_reasons Inr by blast
      then have "reasons = []" by (simp add: looked_def look_up_vets)
      then show ?thesis by (auto simp: reasons_def check_request_def intake_if_def split: if_splits)
    qed
    with kept execute_request_seen(2) [OF exec] show ?thesis by auto
  qed
qed

text \<open>Handlers one after the other, and whatever else happens to the program between them; the log names the executed ones.\<close>

datatype ('m, 'w) intake_op = Handle inbound | Meanwhile "('m, 'w) intake \<Rightarrow> ('m, 'w) intake"

fun intake_run ::
  "intake_setup \<Rightarrow> 'm cloud \<Rightarrow> string list \<times> ('m, 'w) intake \<Rightarrow> ('m, 'w) intake_op \<Rightarrow> string list \<times> ('m, 'w) intake" where
  "intake_run u cd (done_ids, s) (Handle m) =
    (let s' = snd (handle_command u cd m s)
     in (if waiting (ik_loop s') \<noteq> waiting (ik_loop s) then done_ids @ [ib_correlation_id m] else done_ids, s'))"
| "intake_run u cd (done_ids, s) (Meanwhile g) = (done_ids, (g s)\<lparr>ik_seen := ik_seen s\<rparr>)"

definition seen_once :: "string list \<times> ('m, 'w) intake \<Rightarrow> bool" where
  "seen_once p \<longleftrightarrow> distinct (fst p) \<and> set (fst p) \<subseteq> ik_seen (snd p)"

interpretation once: preserved "intake_run u cd" "seen_once :: string list \<times> ('m, 'w) intake \<Rightarrow> bool"
  for u and cd :: "'m cloud"
proof unfold_locales
  fix p :: "string list \<times> ('m, 'w) intake" and op :: "('m, 'w) intake_op" assume p: "seen_once p"
  obtain done_ids s where eq: "p = (done_ids, s)" by (cases p)
  show "seen_once (intake_run u cd p op)"
  proof (cases op)
    case (Handle m)
    define s' where "s' = snd (handle_command u cd m s)"
    from handle_command_once [OF s'_def] p show ?thesis
      by (auto simp: Handle eq seen_once_def Let_def s'_def [symmetric])
  qed (use p in \<open>simp add: eq seen_once_def\<close>)
qed

text \<open>
  C10. Handled one at a time, a command executes at most once: of all messages with the same correlation id at most one ever
  adds to the queue of the controller, whatever the rest of the program does in between.
\<close>

theorem cloud_command_executes_once:
  fixes u cd and s :: "('m, 'w) intake"
  shows "distinct (fst (foldl (intake_run u cd) ([], s) ops))"
proof -
  have "seen_once ([], s)" by (simp add: seen_once_def)
  from once.run_preserves [OF this, of u cd ops] show ?thesis by (simp add: seen_once_def)
qed

section \<open>Two deliveries at once\<close>

lemma execute_request_works:
  assumes "to_enqueue cfg (ik_loop s) m v = Some (command, cd1)" "ik_loop s = Some c" "lab_controller c"
    and "length (oq_items (cl_outbound c)) < oq_max_size (cl_outbound c)" "ve_context v = Some ctx"
  shows "\<exists>i out d. execute_request cd cfg m v s =
      (Inr out, s\<lparr>ik_store := d, ik_loop := Some (c\<lparr>cl_outbound := (cl_outbound c)\<lparr>oq_items := oq_items (cl_outbound c) @ [i]\<rparr>\<rparr>),
         ik_seen := insert (ib_correlation_id m) (ik_seen s)\<rparr>) \<and>
    oi_command i = command \<and> oi_address i = pc_dart_address ctx"
proof -
  define item where "item = lab_item (db_supply (ik_store s) (db_drawn (ik_store s))) (cd_now cd (ik_mqtt s))
    (pc_dart_address ctx) command cd1"
  have "oi_command item = command" "oi_address item = pc_dart_address ctx"
    by (simp_all add: item_def lab_item_def create_item_def)
  moreover have "\<exists>out. execute_request cd cfg m v s =
      (Inr out, s\<lparr>ik_store := snd (draw_uuid (ik_store s)), ik_loop := Some (c\<lparr>cl_outbound := (cl_outbound c)\<lparr>oq_items := oq_items (cl_outbound c) @ [item]\<rparr>\<rparr>),
         ik_seen := insert (ib_correlation_id m) (ik_seen s)\<rparr>)"
    using assms by (simp add: execute_request_def bind_act_def Let_def queue_lab_item_works item_def)
  ultimately show ?thesis by blast
qed

lemma to_enqueue_context: "to_enqueue cfg loop m v = to_enqueue cfg (Some c) m v" if "loop \<noteq> None"
proof -
  from that have "lab_may_execute cfg loop m = lab_may_execute cfg (Some c) m" by (simp add: lab_may_execute_def)
  then show ?thesis by (simp add: to_enqueue_def cong: option.case_cong)
qed

text \<open>
  C27. The same message delivered twice, as the broker may do for quality of service 1, can execute twice: when its two tasks
  take turns at their awaits, both find the correlation id unseen and unrecorded, and both enqueue the command.
\<close>

theorem redelivery_executes_twice:
  fixes u cd and s :: "('m, 'w) intake"
  assumes "check_request (is_config u) (cd_now cd (ik_mqtt s)) (ik_seen s) m = []"
    and "look_up_request (ik_store s) m [] = []"
    and "evaluate_request (is_config u) (ik_store s) (ik_loop s) m [] = Inr v"
    and "to_enqueue (is_config u) (ik_loop s) m v = Some (command, cd1)" "ve_context v = Some ctx"
    and "ik_loop s = Some c" "lab_controller c"
    and "length (oq_items (cl_outbound c)) + 2 \<le> oq_max_size (cl_outbound c)"
  shows "\<exists>i j. waiting (ik_loop (snd (foldl (run_task u cd) ([At_start m, At_start m], s) [0, 1, 0, 1, 0, 1, 0, 1]))) =
      waiting (ik_loop s) @ [i, j] \<and>
    oi_command i = command \<and> oi_command j = command \<and> oi_address i = oi_address j"
proof -
  let ?cfg = "is_config u"
  have room: "length (oq_items (cl_outbound c)) < oq_max_size (cl_outbound c)" using assms(8) by simp
  from execute_request_works [OF assms(4,6,7) room assms(5), of cd]
  obtain i out1 d1 where first: "execute_request cd ?cfg m v s =
      (Inr out1, s\<lparr>ik_store := d1, ik_loop := Some (c\<lparr>cl_outbound := (cl_outbound c)\<lparr>oq_items := oq_items (cl_outbound c) @ [i]\<rparr>\<rparr>),
         ik_seen := insert (ib_correlation_id m) (ik_seen s)\<rparr>)"
    and i: "oi_command i = command" "oi_address i = pc_dart_address ctx" by blast
  define c1 where "c1 = c\<lparr>cl_outbound := (cl_outbound c)\<lparr>oq_items := oq_items (cl_outbound c) @ [i]\<rparr>\<rparr>"
  define s1 where "s1 = s\<lparr>ik_store := d1, ik_loop := Some c1, ik_seen := insert (ib_correlation_id m) (ik_seen s)\<rparr>"
  have first: "execute_request cd ?cfg m v s = (Inr out1, s1)" using first by (simp add: s1_def c1_def)
  have loop1: "ik_loop s1 = Some c1" by (simp add: s1_def)
  have again: "to_enqueue ?cfg (ik_loop s1) m v = Some (command, cd1)"
    using assms(4) to_enqueue_context [of "ik_loop s" ?cfg m v c1] assms(6) by (simp add: loop1)
  have lab1: "lab_controller c1" using assms(7) by (simp add: lab_controller_def c1_def)
  have room1: "length (oq_items (cl_outbound c1)) < oq_max_size (cl_outbound c1)" using assms(8) by (simp add: c1_def)
  from execute_request_works [OF again loop1 lab1 room1 assms(5), of cd]
  obtain j out2 d2 where second: "execute_request cd ?cfg m v s1 =
      (Inr out2, s1\<lparr>ik_store := d2, ik_loop := Some (c1\<lparr>cl_outbound := (cl_outbound c1)\<lparr>oq_items := oq_items (cl_outbound c1) @ [j]\<rparr>\<rparr>),
         ik_seen := insert (ib_correlation_id m) (ik_seen s1)\<rparr>)"
    and j: "oi_command j = command" "oi_address j = pc_dart_address ctx" by blast
  have "foldl (run_task u cd) ([At_start m, At_start m], s) [0, 1, 0, 1, 0, 1, 0, 1] =
      ([At_record m out1, At_record m out2],
       s1\<lparr>ik_store := d2, ik_loop := Some (c1\<lparr>cl_outbound := (cl_outbound c1)\<lparr>oq_items := oq_items (cl_outbound c1) @ [j]\<rparr>\<rparr>),
         ik_seen := insert (ib_correlation_id m) (ik_seen s1)\<rparr>)"
    using assms(1-3) first second by (simp add: bind_act_def)
  then have "waiting (ik_loop (snd (foldl (run_task u cd) ([At_start m, At_start m], s) [0, 1, 0, 1, 0, 1, 0, 1]))) =
      waiting (ik_loop s) @ [i, j]" using assms(6) by (simp add: waiting_def c1_def)
  with i j show ?thesis by metis
qed

definition lab_setup :: intake_setup where
  "lab_setup = \<lparr>is_sha = id, is_say = (\<lambda>e. ''''),
     is_config = \<lparr>ic_topics = \<lparr>tb_environment = ''LAB'', tb_segment = ''lab''\<rparr>, ic_station = ''S'', ic_device = ''D'',
       ic_environment = ''LAB'', ic_simulated = True, ic_allow_lab = True, ic_virtual = True\<rparr>\<rparr>"

definition stop_message :: inbound where
  "stop_message = \<lparr>ib_command_id = ''1'', ib_correlation_id = ''C'', ib_station = ''S'', ib_pump = ''P'', ib_type = ''STOP'',
     ib_payload = [], ib_simulator_only = True, ib_created_at = 0, ib_expires_at = None, ib_requested_by = None,
     ib_schema_version = ''1.0'', ib_environment = ''LAB''\<rparr>"

definition lab_state :: "(unit, unit) intake" where
  "lab_state = new_intake filling_pump () (Some lab_loop)"

lemma stop_is_checked: "check_request (is_config lab_setup) (cd_now sure_cloud (ik_mqtt lab_state)) (ik_seen lab_state) stop_message = []"
  by (simp add: check_request_def intake_if_def lab_setup_def lab_state_def new_intake_def stop_message_def upper_def upper_char_def)

lemma stop_is_new: "look_up_request (ik_store lab_state) stop_message [] = []"
  using pump_command_of_value [of STOP]
  by (simp add: look_up_request_def intake_if_def lab_state_def new_intake_def filling_pump_def empty_store_def get_command_def
      stop_message_def)

definition lab_filling_context :: pump_context where
  "lab_filling_context = (new_context ''P'' 1)\<lparr>pc_current_state := FILLING, pc_communication_healthy := True, pc_state_version := 1\<rparr>"

lemma stop_is_found:
  "find_pump (is_config lab_setup) stop_message filling_pump =
    Some \<lparr>pr_id = ''X'', pr_station = ''S'', pr_logical = ''P'', pr_address = 1, pr_enabled = True, pr_created_at = 0, pr_updated_at = 0\<rparr>"
  by (simp add: find_pump_def pumps_of_station_def filling_pump_def lab_setup_def stop_message_def)

lemma stop_is_evaluated:
  "\<exists>v. evaluate_request (is_config lab_setup) (ik_store lab_state) (ik_loop lab_state) stop_message [] = Inr v \<and>
     ve_command v = Some STOP \<and> ve_context v = Some lab_filling_context \<and> ve_reasons v = []"
  using pump_command_of_value [of STOP] pump_state_of_value [of FILLING] stop_is_found
  by (simp add: evaluate_request_def lab_state_def new_intake_def stop_message_def session_context_def lab_loop_def
      new_controller_def default_poll_config_def stored_context_def stored_state_def latest_snapshot_def filling_pump_def
      sort_desc_def lab_filling_context_def evaluate_command_eligibility_def blocking_reasons_def Let_def reason_if_def
      STOP_STATES_def)

theorem redelivery_executes_twice_witness:
  "\<exists>i j. waiting (ik_loop (snd (foldl (run_task lab_setup sure_cloud) ([At_start stop_message, At_start stop_message], lab_state)
      [0, 1, 0, 1, 0, 1, 0, 1]))) = waiting (ik_loop lab_state) @ [i, j] \<and>
    oi_command i = STOP \<and> oi_command j = STOP \<and> oi_address i = oi_address j"
proof -
  from stop_is_evaluated obtain v where v:
      "evaluate_request (is_config lab_setup) (ik_store lab_state) (ik_loop lab_state) stop_message [] = Inr v"
      "ve_command v = Some STOP" "ve_context v = Some lab_filling_context" "ve_reasons v = []" by blast
  have "to_enqueue (is_config lab_setup) (ik_loop lab_state) stop_message v = Some (STOP, Command_STOP)"
    using v by (simp add: to_enqueue_def lab_may_execute_def lab_setup_def lab_state_def new_intake_def stop_message_def
        NON_IDEMPOTENT_COMMANDS_def CD1_MAP_def)
  moreover have "ik_loop lab_state = Some lab_loop" by (simp add: lab_state_def new_intake_def)
  moreover note lab_loop_is_lab
  ultimately show ?thesis
    using redelivery_executes_twice [OF stop_is_checked stop_is_new v(1) _ v(3)] by blast
qed

end
