(* ===== verification/Cloud_Heartbeat.thy ===== *)
theory Cloud_Heartbeat
  imports Cloud_Sync
begin

text \<open>
  \<open>cloud/heartbeat.py\<close>: the periodic message that says a device is alive. What the payload provider returns is the
  record \<open>heartbeat_extras\<close>; a float is its \<open>repr\<close>. The provider is an action of the world and may raise.
\<close>

section \<open>State\<close>

record heartbeat_extras =
  hx_controller_mode :: string
  hx_status :: string
  hx_uptime :: string
  hx_database_status :: string
  hx_loop_running :: bool
  hx_transport_kind :: "string option"
  hx_transport_open :: "bool option"
  hx_configured_pumps :: int
  hx_healthy_pumps :: int
  hx_degraded_pumps :: int
  hx_disconnected_pumps :: int
  hx_pending_sync :: int
  hx_unresolved :: int

text \<open>The defaults of \<open>extras.get\<close>, used when there is no provider.\<close>

definition no_extras :: heartbeat_extras where
  "no_extras = \<lparr>hx_controller_mode = ''LISTEN_ONLY'', hx_status = ''ONLINE'', hx_uptime = ''0.0'',
     hx_database_status = ''UNKNOWN'', hx_loop_running = False, hx_transport_kind = None, hx_transport_open = None,
     hx_configured_pumps = 0, hx_healthy_pumps = 0, hx_degraded_pumps = 0, hx_disconnected_pumps = 0,
     hx_pending_sync = 0, hx_unresolved = 0\<rparr>"

record heartbeat_config =
  hc_topics :: topic_builder
  hc_device :: string
  hc_station :: string
  hc_environment :: string
  hc_simulated :: bool
  hc_version :: string
  hc_hostname :: string

record 'w heartbeat =
  hb_world :: 'w
  hb_seq :: nat
  hb_pending :: "json option"
  hb_last :: "int option"

definition new_heartbeat :: "'w \<Rightarrow> 'w heartbeat" where
  "new_heartbeat w = \<lparr>hb_world = w, hb_seq = 0, hb_pending = None, hb_last = None\<rparr>"

definition heartbeat_body :: "heartbeat_config \<Rightarrow> string \<Rightarrow> bool \<Rightarrow> heartbeat_extras \<Rightarrow> (string \<times> json) list" where
  "heartbeat_body cfg now online x =
    [(''deviceId'', JStr (hc_device cfg)), (''stationId'', JStr (hc_station cfg)),
     (''hostname'', JStr (if hc_hostname cfg = [] then ''unknown'' else hc_hostname cfg)),
     (''environment'', JStr (hc_environment cfg)), (''controllerMode'', JStr (hx_controller_mode x)),
     (''status'', JStr (hx_status x)), (''timestamp'', JStr now), (''uptimeSeconds'', JFloat (hx_uptime x)),
     (''softwareVersion'', JStr (hc_version cfg)), (''databaseStatus'', JStr (hx_database_status x)),
     (''mqttConnectionStatus'', JStr (if online then ''CONNECTED'' else ''DISCONNECTED'')),
     (''controllerLoopRunning'', JBool (hx_loop_running x)), (''transportKind'', JOpt JStr (hx_transport_kind x)),
     (''transportOpen'', JOpt JBool (hx_transport_open x)), (''configuredPumpCount'', JInt (hx_configured_pumps x)),
     (''healthyPumpCount'', JInt (hx_healthy_pumps x)), (''degradedPumpCount'', JInt (hx_degraded_pumps x)),
     (''disconnectedPumpCount'', JInt (hx_disconnected_pumps x)), (''pendingSyncCount'', JInt (hx_pending_sync x)),
     (''unresolvedTransactionCount'', JInt (hx_unresolved x)), (''simulated'', JBool (hc_simulated cfg))]"

definition in_beat :: "('w, 'a) action \<Rightarrow> ('w heartbeat, 'a) action" where
  "in_beat m s = (case m (hb_world s) of (r, w) \<Rightarrow> (r, s\<lparr>hb_world := w\<rparr>))"

section \<open>One heartbeat\<close>

definition heartbeat_values :: "heartbeat_config \<Rightarrow> nat \<Rightarrow> (string \<times> json) list \<Rightarrow> envelope_values" where
  "heartbeat_values cfg n body =
    \<lparr>ev_event_type = ''HEARTBEAT'', ev_environment = hc_environment cfg, ev_device = hc_device cfg,
     ev_station = hc_station cfg, ev_sequence = n, ev_simulated = hc_simulated cfg,
     ev_key = ''heartbeat:'' @ hc_device cfg @ '':latest'', ev_payload = body, ev_occurred_at = None, ev_pump = None,
     ev_transaction = None, ev_correlation = None, ev_message_id = None\<rparr>"

text \<open>The part after the envelope is built: keep it, or send what was kept and otherwise this one.\<close>

definition send_heartbeat :: "'w cloud \<Rightarrow> string \<Rightarrow> json \<Rightarrow> ('w heartbeat, bool) action" where
  "send_heartbeat cd topic msg = read_act (\<lambda>s.
    if \<not> cd_connected cd (hb_world s)
    then then_act (modify_act (\<lambda>s. s\<lparr>hb_pending := Some msg\<rparr>)) (return_act False)
    else let to_send = (case hb_pending s of None \<Rightarrow> msg | Some kept \<Rightarrow> kept) in
      catch_act
        (then_act (modify_act (\<lambda>s. s\<lparr>hb_pending := None\<rparr>))
          (bind_act (in_beat (cd_publish cd topic to_send (qos_for_event ''HEARTBEAT'') False)) (\<lambda>ack.
            then_act (modify_act (\<lambda>s. s\<lparr>hb_last := Some (cd_now cd (hb_world s))\<rparr>)) (return_act True))))
        (\<lambda>exc. if exc \<in> MQTT_ERRORS
          then then_act (modify_act (\<lambda>s. s\<lparr>hb_pending := Some msg\<rparr>)) (return_act False)
          else result_act (Inl exc)))"

definition publish_once :: "'w cloud \<Rightarrow> heartbeat_config \<Rightarrow> ('w, heartbeat_extras) action \<Rightarrow> ('w heartbeat, bool) action" where
  "publish_once cd cfg provider =
    bind_act (in_beat provider) (\<lambda>x. read_act (\<lambda>s.
      let n = hb_seq s + 1; now = cd_iso cd (cd_now cd (hb_world s));
          body = heartbeat_body cfg now (cd_connected cd (hb_world s)) x
      in then_act (modify_act (\<lambda>s. s\<lparr>hb_seq := n\<rparr>))
        (bind_act (result_act (build_envelope now (cd_ids cd n) (heartbeat_values cfg n body))) (\<lambda>e.
          bind_act (result_act (heartbeat_topic (hc_topics cfg) (hc_device cfg))) (\<lambda>topic.
            send_heartbeat cd topic (envelope_dict e))))))"

text \<open>
  \<open>_run\<close>: a heartbeat, then the wait, which is what happens in the world meanwhile. Nothing catches an exception, so the
  task ends with it.
\<close>

fun beat_passes ::
  "'w cloud \<Rightarrow> heartbeat_config \<Rightarrow> ('w, heartbeat_extras) action \<Rightarrow> ('w \<Rightarrow> 'w) list \<Rightarrow> ('w heartbeat, unit) action" where
  "beat_passes cd cfg provider [] = return_act ()"
| "beat_passes cd cfg provider (wait # waits) =
    bind_act (publish_once cd cfg provider) (\<lambda>sent.
      then_act (modify_act (\<lambda>s. s\<lparr>hb_world := wait (hb_world s)\<rparr>)) (beat_passes cd cfg provider waits))"

section \<open>What is kept while the line is down\<close>

lemma build_heartbeat:
  "\<exists>e. build_envelope now uuid (heartbeat_values cfg n (heartbeat_body cfg t c x)) = Inr e \<and>
     message_field (envelope_dict e) ''sequence'' = JInt (int n) \<and>
     message_field (envelope_dict e) ''payload'' = JObj (heartbeat_body cfg t c x)"
  by (simp add: build_envelope_def heartbeat_values_def heartbeat_body_def float_money_def is_float_def MONEY_VOLUME_KEYS_def
      JOpt_def lower_char_def message_field_def envelope_dict_def field_def split: option.split)

text \<open>A provider that does not publish by itself, beside the memory of what was confirmed.\<close>

definition aside :: "('w, 'a) action \<Rightarrow> ('w \<times> json list, 'a) action" where
  "aside m v = (case m (fst v) of (r, w) \<Rightarrow> (r, (w, snd v)))"

definition kept_list :: "json option \<Rightarrow> json list" where
  "kept_list kept = (case kept of None \<Rightarrow> [] | Some msg \<Rightarrow> [msg])"

text \<open>The numbers of what was sent and of what is kept grow, up to the number last drawn.\<close>

definition numbered :: "json list \<Rightarrow> nat \<Rightarrow> bool" where
  "numbered msgs n \<longleftrightarrow> (\<exists>ns. map (\<lambda>msg. message_field msg ''sequence'') msgs = map (\<lambda>k. JInt (int k)) ns \<and>
     sorted_wrt (<) ns \<and> list_all (\<lambda>k. k \<le> n) ns)"

definition beats_numbered :: "('w \<times> json list) heartbeat \<Rightarrow> bool" where
  "beats_numbered s \<longleftrightarrow> numbered (snd (hb_world s) @ kept_list (hb_pending s)) (hb_seq s)"

lemma numbered_later: "numbered msgs n \<Longrightarrow> n \<le> n' \<Longrightarrow> numbered msgs n'"
  unfolding numbered_def list_all_iff using le_trans by blast

lemma numbered_prefix: "numbered (msgs @ others) n \<Longrightarrow> numbered msgs n"
  unfolding numbered_def
  by (auto simp: append_eq_map_conv sorted_wrt_append list_all_iff)

lemma numbered_snoc:
  assumes "numbered msgs n" "message_field msg ''sequence'' = JInt (int n')" "n < n'"
  shows "numbered (msgs @ [msg]) n'"
proof -
  from assms(1) obtain ns where ns: "map (\<lambda>msg. message_field msg ''sequence'') msgs = map (\<lambda>k. JInt (int k)) ns"
      "sorted_wrt (<) ns" "list_all (\<lambda>k. k \<le> n) ns" by (auto simp: numbered_def)
  with assms(2,3) show ?thesis
    unfolding numbered_def by (intro exI [of _ "ns @ [n']"]) (auto simp: sorted_wrt_append list_all_iff)
qed

lemma send_heartbeat_numbered:
  assumes "numbered (snd (hb_world s) @ kept_list (hb_pending s)) n" "message_field msg ''sequence'' = JInt (int (hb_seq s))"
    and "n < hb_seq s"
  shows "beats_numbered (snd (send_heartbeat (remembering cd) topic msg s))"
proof -
  have sent: "numbered (snd (hb_world s)) n" using assms(1) by (rule numbered_prefix)
  note fresh = numbered_snoc [OF sent assms(2,3)]
  show ?thesis
  proof (cases "cd_connected cd (fst (hb_world s))")
    case False
    with fresh show ?thesis by (simp add: send_heartbeat_def beats_numbered_def remembering_def kept_list_def)
  next
    case True
    define out where "out = (case hb_pending s of None \<Rightarrow> msg | Some kept \<Rightarrow> kept)"
    have out: "numbered (snd (hb_world s) @ [out]) (hb_seq s)"
      using fresh assms(1,3) numbered_later [of _ n "hb_seq s"]
      by (cases "hb_pending s") (simp_all add: out_def kept_list_def)
    obtain res w' where pub: "cd_publish cd topic out (qos_for_event ''HEARTBEAT'') False (fst (hb_world s)) = (res, w')"
      by fastforce
    have qos: "qos_for_event ''HEARTBEAT'' = 0" by (simp add: qos_for_event_def qos_table_def)
    have none: "numbered (snd (hb_world s)) (hb_seq s)" using out by (rule numbered_prefix)
    show ?thesis
    proof (cases res)
      case (Inr ack)
      with True pub out qos show ?thesis
        by (simp add: send_heartbeat_def out_def [symmetric] catch_act_def bind_act_def in_beat_def remembering_def
            confirmed_def beats_numbered_def kept_list_def)
    next
      case (Inl exc)
      with True pub none fresh qos show ?thesis
        by (simp add: send_heartbeat_def out_def [symmetric] catch_act_def bind_act_def in_beat_def remembering_def
            confirmed_def beats_numbered_def kept_list_def)
    qed
  qed
qed

lemma publish_once_numbered: "keeps beats_numbered (publish_once (remembering cd) cfg (aside provider))"
  unfolding keeps_def
proof (intro allI impI)
  fix s :: "('a \<times> json list) heartbeat" assume s: "beats_numbered s"
  obtain r w' where provider: "provider (fst (hb_world s)) = (r, w')" by fastforce
  define s1 where "s1 = s\<lparr>hb_world := (w', snd (hb_world s))\<rparr>"
  show "beats_numbered (snd (publish_once (remembering cd) cfg (aside provider) s))"
  proof (cases r)
    case (Inl e)
    with provider s show ?thesis
      by (simp add: publish_once_def bind_act_def in_beat_def aside_def beats_numbered_def)
  next
    case (Inr x)
    define now where "now = cd_iso cd (cd_now cd w')"
    define n where "n = hb_seq s + 1"
    obtain e where e: "build_envelope now (cd_ids cd n) (heartbeat_values cfg n (heartbeat_body cfg now (cd_connected cd w') x)) = Inr e"
        "message_field (envelope_dict e) ''sequence'' = JInt (int n)"
      using build_heartbeat by blast
    define s2 where "s2 = s1\<lparr>hb_seq := n\<rparr>"
    have "numbered (snd (hb_world s2) @ kept_list (hb_pending s2)) (hb_seq s)"
      using s by (simp add: s2_def s1_def beats_numbered_def)
    then have sent: "beats_numbered (snd (send_heartbeat (remembering cd) topic (envelope_dict e) s2))" for topic
      by (rule send_heartbeat_numbered) (simp_all add: e(2) s2_def n_def)
    have "beats_numbered s2" using s numbered_later [of _ "hb_seq s" n] by (simp add: s2_def s1_def beats_numbered_def n_def)
    moreover have "snd (publish_once (remembering cd) cfg (aside provider) s) =
        (case heartbeat_topic (hc_topics cfg) (hc_device cfg) of
           Inl exc \<Rightarrow> s2 | Inr topic \<Rightarrow> snd (send_heartbeat (remembering cd) topic (envelope_dict e) s2))"
      using provider Inr e(1)
      by (simp add: publish_once_def bind_act_def in_beat_def aside_def Let_def remembering_def s2_def s1_def now_def n_def
          split: sum.split)
    ultimately show ?thesis using sent by (simp split: sum.split)
  qed
qed

lemma beat_passes_numbered: "keeps beats_numbered (beat_passes (remembering cd) cfg (aside provider) (map (\<lambda>g v. (g (fst v), snd v)) waits))"
proof (induction waits)
  case (Cons g waits)
  then show ?case
    unfolding list.map beat_passes.simps
    by (intro keeps_bind keeps_then keeps_modify publish_once_numbered) (simp_all add: beats_numbered_def)
qed (simp add: keeps_def)

text \<open>
  However the line comes and goes, the heartbeats that were sent have growing numbers, and the one that is kept is newer
  than all of them.
\<close>

theorem heartbeats_in_order:
  fixes cd :: "'w cloud"
  shows "beats_numbered (snd (beat_passes (remembering cd) cfg (aside provider) (map (\<lambda>g v. (g (fst v), snd v)) waits)
    (new_heartbeat (w, []))))"
  by (rule keepsD [OF beat_passes_numbered])
    (simp add: beats_numbered_def new_heartbeat_def kept_list_def numbered_def)

text \<open>
  After the line comes back the device reports its past: the heartbeat kept while it was down goes out, with its old
  time and the status DISCONNECTED, and the present one, already numbered, is thrown away.
\<close>

theorem stale_heartbeat_after_reconnect:
  fixes cd :: "'w cloud"
  assumes "\<And>w. provider w = (Inr (extras w), w)" "heartbeat_topic (hc_topics cfg) (hc_device cfg) = Inr topic"
    and "\<not> cd_connected cd w" "cd_connected cd (wait w)"
    and "\<And>msg qos. fst (cd_publish cd topic msg qos False (wait w)) = Inr True"
  shows "let s = snd (beat_passes (remembering cd) cfg (aside provider) [\<lambda>v. (wait (fst v), snd v), id] (new_heartbeat (w, [])))
    in \<exists>msg. snd (hb_world s) = [msg] \<and> message_field msg ''sequence'' = JInt 1 \<and>
      message_field msg ''payload'' = JObj (heartbeat_body cfg (cd_iso cd (cd_now cd w)) False (extras w)) \<and>
      hb_pending s = None \<and> hb_seq s = 2"
proof -
  define now where "now = (\<lambda>w. cd_iso cd (cd_now cd w))"
  obtain e1 where e1: "build_envelope (now w) (cd_ids cd 1) (heartbeat_values cfg 1 (heartbeat_body cfg (now w) False (extras w))) = Inr e1"
      "message_field (envelope_dict e1) ''sequence'' = JInt (int 1)"
      "message_field (envelope_dict e1) ''payload'' = JObj (heartbeat_body cfg (now w) False (extras w))"
    using build_heartbeat by blast
  obtain e2 where e2: "build_envelope (now (wait w)) (cd_ids cd 2)
      (heartbeat_values cfg 2 (heartbeat_body cfg (now (wait w)) True (extras (wait w)))) = Inr e2"
    using build_heartbeat by blast
  obtain w2 where pub: "cd_publish cd topic (envelope_dict e1) (qos_for_event ''HEARTBEAT'') False (wait w) = (Inr True, w2)"
    using assms(5) by (metis prod.collapse)
  define s1 :: "('w \<times> json list) heartbeat" where
    "s1 = \<lparr>hb_world = (w, []), hb_seq = 1, hb_pending = Some (envelope_dict e1), hb_last = None\<rparr>"
  define s2 where "s2 = s1\<lparr>hb_world := (wait w, [])\<rparr>"
  have first: "publish_once (remembering cd) cfg (aside provider) (new_heartbeat (w, [])) = (Inr False, s1)"
    using assms(1-3) e1(1)
    by (simp add: publish_once_def bind_act_def in_beat_def aside_def Let_def remembering_def new_heartbeat_def
        send_heartbeat_def s1_def now_def)
  have second: "publish_once (remembering cd) cfg (aside provider) s2 =
      (Inr True, s2\<lparr>hb_seq := 2, hb_pending := None, hb_world := (w2, [envelope_dict e1]), hb_last := Some (cd_now cd w2)\<rparr>)"
    using assms(1,2,4) e2 pub
    by (simp add: publish_once_def bind_act_def in_beat_def aside_def Let_def remembering_def send_heartbeat_def
        catch_act_def confirmed_def s1_def s2_def now_def numeral_2_eq_2)
  have "beat_passes (remembering cd) cfg (aside provider) [\<lambda>v. (wait (fst v), snd v), id] (new_heartbeat (w, [])) =
      (Inr (), s2\<lparr>hb_seq := 2, hb_pending := None, hb_world := (w2, [envelope_dict e1]), hb_last := Some (cd_now cd w2)\<rparr>)"
    using first second by (simp add: bind_act_def s1_def s2_def)
  with e1(2,3) show ?thesis by (simp add: now_def)
qed

definition wire :: "bool cloud" where
  "wire = \<lparr>cd_now = (\<lambda>w. 0), cd_connected = id, cd_publish = (\<lambda>topic msg qos retain w. (Inr True, w)),
     cd_jitter = (\<lambda>w. 0), cd_text = (\<lambda>e. ''''), cd_iso = int_text, cd_ids = nat_text\<rparr>"

definition lab_device :: heartbeat_config where
  "lab_device = \<lparr>hc_topics = \<lparr>tb_environment = ''LAB'', tb_segment = ''lab''\<rparr>, hc_device = ''D'', hc_station = ''S'',
     hc_environment = ''LAB'', hc_simulated = True, hc_version = ''0.1.0'', hc_hostname = ''H''\<rparr>"

theorem stale_heartbeat_after_reconnect_witness:
  "let s = snd (beat_passes (remembering wire) lab_device (aside (\<lambda>w. (Inr no_extras, w)))
       [\<lambda>v. ((\<lambda>w. True) (fst v), snd v), id] (new_heartbeat (False, [])))
    in \<exists>msg. snd (hb_world s) = [msg] \<and> message_field msg ''sequence'' = JInt 1 \<and>
      message_field msg ''payload'' = JObj (heartbeat_body lab_device (cd_iso wire (cd_now wire False)) False ((\<lambda>w. no_extras) False)) \<and>
      hb_pending s = None \<and> hb_seq s = 2"
proof (rule stale_heartbeat_after_reconnect)
  show "heartbeat_topic (hc_topics lab_device) (hc_device lab_device) = Inr ''intelipump/lab/devices/D/heartbeat''"
    by (simp add: lab_device_def heartbeat_topic_def topic_root_def id_defs)
qed (simp_all add: wire_def)

end
