(* ===== verification/Line_Pipe.thy ===== *)
theory Line_Pipe
  imports Prelude
begin

text \<open>
  \<open>protocol/dart/transport/memory.py\<close>: two transports joined by a pair of in-memory pipes. A side is \<open>Left\<close> or \<open>Right\<close>;
  each has an open flag and the rest of a chunk it has read in part, and writes into the pipe the other side reads. A
  method runs without another one in between, except that a read of an empty pipe waits ten milliseconds; it is the read
  at the end of its wait, which finds a chunk or returns nothing.
\<close>

section \<open>State\<close>

datatype side = Left | Right

fun peer :: "side \<Rightarrow> side" where
  "peer Left = Right"
| "peer Right = Left"

lemma peer_peer [simp]: "peer (peer d) = d" "peer d \<noteq> d" "d \<noteq> peer d"
  by (cases d; simp)+

lemma peer_inj [simp]: "peer d = peer d' \<longleftrightarrow> d = d'"
  by (cases d; cases d') simp_all

text \<open>A chunk in a queue, or the \<open>None\<close> that wakes a reader.\<close>

record pipe =
  pp_queue :: "bytes option list"
  pp_closed :: bool

record memory_transport =
  mt_open :: bool
  mt_buffer :: bytes
  mt_outbound :: pipe

text \<open>The inbound pipe of a side is the outbound pipe of its peer.\<close>

type_synonym memory_pair = "side \<Rightarrow> memory_transport"

definition create_memory_transport_pair :: memory_pair where
  "create_memory_transport_pair d = \<lparr>mt_open = False, mt_buffer = [], mt_outbound = \<lparr>pp_queue = [], pp_closed = False\<rparr>\<rparr>"

definition on_side :: "side \<Rightarrow> (memory_transport \<Rightarrow> memory_transport) \<Rightarrow> (memory_pair, unit) action" where
  "on_side d g = modify_act (\<lambda>m. m(d := g (m d)))"

definition map_queue :: "(bytes option list \<Rightarrow> bytes option list) \<Rightarrow> memory_transport \<Rightarrow> memory_transport" where
  "map_queue g t = t\<lparr>mt_outbound := (mt_outbound t)\<lparr>pp_queue := g (pp_queue (mt_outbound t))\<rparr>\<rparr>"

section \<open>Operations\<close>

definition mt_do_open :: "side \<Rightarrow> (memory_pair, unit) action" where
  "mt_do_open d = on_side d (\<lambda>t. t\<lparr>mt_open := True\<rparr>)"

definition mt_close :: "side \<Rightarrow> (memory_pair, unit) action" where
  "mt_close d = then_act (on_side d (\<lambda>t. t\<lparr>mt_open := False, mt_outbound := (mt_outbound t)\<lparr>pp_closed := True\<rparr>\<rparr>))
    (on_side d (map_queue (\<lambda>q. q @ [None])))"

definition mt_read :: "side \<Rightarrow> nat \<Rightarrow> (memory_pair, bytes) action" where
  "mt_read d max_bytes = read_act (\<lambda>m.
    if \<not> mt_open (m d) then result_act (Inl TransportNotOpenError)
    else if max_bytes < 1 then result_act (Inl ValueError)
    else if mt_buffer (m d) \<noteq> []
    then then_act (on_side d (\<lambda>t. t\<lparr>mt_buffer := drop max_bytes (mt_buffer t)\<rparr>))
      (return_act (take max_bytes (mt_buffer (m d))))
    else (case pp_queue (mt_outbound (m (peer d))) of
        [] \<Rightarrow> return_act []
      | item # rest \<Rightarrow> then_act (on_side (peer d) (map_queue (\<lambda>q. rest)))
          (case item of
             None \<Rightarrow> return_act []
           | Some chunk \<Rightarrow>
               if length chunk \<le> max_bytes then return_act chunk
               else then_act (on_side d (\<lambda>t. t\<lparr>mt_buffer := mt_buffer t @ drop max_bytes chunk\<rparr>))
                 (return_act (take max_bytes chunk)))))"

definition mt_write :: "side \<Rightarrow> bytes \<Rightarrow> (memory_pair, nat) action" where
  "mt_write d data = read_act (\<lambda>m.
    if \<not> mt_open (m d) then result_act (Inl TransportNotOpenError)
    else if pp_closed (mt_outbound (m d)) then result_act (Inl TransportNotOpenError)
    else then_act (on_side d (map_queue (\<lambda>q. q @ [Some data]))) (return_act (length data)))"

section \<open>A byte stream\<close>

text \<open>
  What a memory transport promises: in each direction a stream of bytes, of which a reader takes a prefix. What a side
  still has to read is the rest of its chunk and the chunks of its inbound pipe.
\<close>

definition chunk_bytes :: "bytes option list \<Rightarrow> bytes" where
  "chunk_bytes q = concat (map (case_option [] id) q)"

lemma chunk_bytes_simps [simp]:
  "chunk_bytes [] = []" "chunk_bytes (None # q) = chunk_bytes q" "chunk_bytes (Some c # q) = c @ chunk_bytes q"
  "chunk_bytes (p @ q) = chunk_bytes p @ chunk_bytes q"
  by (simp_all add: chunk_bytes_def)

definition unread :: "memory_pair \<Rightarrow> side \<Rightarrow> bytes" where
  "unread m d = mt_buffer (m d) @ chunk_bytes (pp_queue (mt_outbound (m (peer d))))"

datatype pipe_op = Open_op side | Close_op side | Read_op side nat | Write_op side bytes

datatype pipe_answer = Done "py_error option" | Bytes_read bytes | Count_written nat

fun pipe_do :: "pipe_op \<Rightarrow> memory_pair \<Rightarrow> pipe_answer \<times> memory_pair" where
  "pipe_do (Open_op d) m = (Done None, snd (mt_do_open d m))"
| "pipe_do (Close_op d) m = (Done None, snd (mt_close d m))"
| "pipe_do (Read_op d n) m = (case mt_read d n m of (Inl e, m') \<Rightarrow> (Done (Some e), m') | (Inr bs, m') \<Rightarrow> (Bytes_read bs, m'))"
| "pipe_do (Write_op d bs) m = (case mt_write d bs m of (Inl e, m') \<Rightarrow> (Done (Some e), m') | (Inr n, m') \<Rightarrow> (Count_written n, m'))"

text \<open>What an operation, given its answer, took out of the stream towards a side and what it put into it.\<close>

fun taken_out :: "side \<Rightarrow> pipe_op \<Rightarrow> pipe_answer \<Rightarrow> bytes" where
  "taken_out d (Read_op d' n) (Bytes_read bs) = (if d' = d then bs else [])"
| "taken_out d op a = []"

fun put_in :: "side \<Rightarrow> pipe_op \<Rightarrow> pipe_answer \<Rightarrow> bytes" where
  "put_in d (Write_op d' bs) (Count_written n) = (if d' = peer d then bs else [])"
| "put_in d op a = []"

lemma pipe_do_conserves:
  assumes "pipe_do op m = (a, m')"
  shows "taken_out d op a @ unread m' d = unread m d @ put_in d op a"
proof (cases op)
  case (Read_op d' n)
  with assms show ?thesis
    by (cases "d' = d"; cases "d' = peer d")
      (auto simp: mt_read_def on_side_def map_queue_def unread_def split: if_splits list.splits option.splits)
next
  case (Write_op d' bs)
  with assms show ?thesis
    by (cases "d' = d"; cases "d' = peer d")
      (auto simp: mt_write_def on_side_def map_queue_def unread_def split: if_splits)
next
  case (Open_op d')
  with assms show ?thesis by (auto simp: mt_do_open_def on_side_def unread_def)
next
  case (Close_op d')
  with assms show ?thesis by (auto simp: mt_close_def on_side_def map_queue_def unread_def)
qed

fun pipe_run :: "pipe_op list \<Rightarrow> memory_pair \<Rightarrow> pipe_answer list \<times> memory_pair" where
  "pipe_run [] m = ([], m)"
| "pipe_run (op # ops) m =
    (case pipe_do op m of (a, m') \<Rightarrow> case pipe_run ops m' of (as, m'') \<Rightarrow> (a # as, m''))"

definition read_by :: "side \<Rightarrow> pipe_op list \<Rightarrow> pipe_answer list \<Rightarrow> bytes" where
  "read_by d ops as = concat (map2 (taken_out d) ops as)"

definition written_to :: "side \<Rightarrow> pipe_op list \<Rightarrow> pipe_answer list \<Rightarrow> bytes" where
  "written_to d ops as = concat (map2 (put_in d) ops as)"

lemma pipe_run_conserves:
  "pipe_run ops m = (as, m') \<Longrightarrow> read_by d ops as @ unread m' d = unread m d @ written_to d ops as"
proof (induction ops arbitrary: m as)
  case (Cons op ops)
  then obtain a m1 as' where step: "pipe_do op m = (a, m1)" and rest: "pipe_run ops m1 = (as', m')" and as: "as = a # as'"
    by (auto split: prod.splits)
  from pipe_do_conserves [OF step, of d] Cons.IH [OF rest] show ?case
    by (simp add: as read_by_def written_to_def)
qed (simp add: read_by_def written_to_def)

text \<open>
  The memory transport is a pair of byte streams: whatever the two sides do, and however their calls interleave, what a
  side has read is what its peer has written in order, except for the bytes that are still waiting.
\<close>

theorem memory_pair_is_two_streams:
  "case pipe_run ops create_memory_transport_pair of (as, m) \<Rightarrow> \<forall>d.
     written_to d ops as = read_by d ops as @ unread m d"
proof (cases "pipe_run ops create_memory_transport_pair")
  case (Pair as m)
  have "unread create_memory_transport_pair d = []" for d
    by (simp add: unread_def create_memory_transport_pair_def)
  with pipe_run_conserves [OF Pair] Pair show ?thesis by simp
qed

section \<open>A closed transport\<close>

lemma pipe_do_stays_closed:
  "pp_closed (mt_outbound (m d)) \<Longrightarrow> pp_closed (mt_outbound (snd (pipe_do op m) d))"
  by (cases op)
    (auto simp: mt_do_open_def mt_close_def mt_read_def mt_write_def on_side_def map_queue_def split: list.split option.split)

lemma pipe_run_stays_closed:
  "pipe_run ops m = (as, m') \<Longrightarrow> pp_closed (mt_outbound (m d)) \<Longrightarrow>
    pp_closed (mt_outbound (m' d)) \<and> list_all2 (\<lambda>op a. \<forall>bs. op = Write_op d bs \<longrightarrow> a = Done (Some TransportNotOpenError)) ops as"
proof (induction ops arbitrary: m as)
  case (Cons op ops)
  then obtain a m1 as' where step: "pipe_do op m = (a, m1)" and rest: "pipe_run ops m1 = (as', m')" and as: "as = a # as'"
    by (auto split: prod.splits)
  from pipe_do_stays_closed [of m d op] Cons.prems(2) step have "pp_closed (mt_outbound (m1 d))" by simp
  with Cons.IH [OF rest] have "pp_closed (mt_outbound (m' d)) \<and>
      list_all2 (\<lambda>op a. \<forall>bs. op = Write_op d bs \<longrightarrow> a = Done (Some TransportNotOpenError)) ops as'" by blast
  moreover have "\<forall>bs. op = Write_op d bs \<longrightarrow> a = Done (Some TransportNotOpenError)"
    using step Cons.prems(2) by (auto simp: mt_write_def split: if_splits)
  ultimately show ?case by (simp add: as)
qed simp

text \<open>
  A memory transport that was closed can be opened again and then reads, but it never writes again: every later write
  raises, although its peer is open, since nothing resets the flag of the pipe.
\<close>

theorem reopened_pipe_never_writes:
  assumes "pipe_run (Close_op d # Open_op d # ops) m = (as, m')"
  shows "list_all2 (\<lambda>op a. \<forall>bs. op = Write_op d bs \<longrightarrow> a = Done (Some TransportNotOpenError)) ops (drop 2 as)"
proof -
  from assms obtain as' where rest: "pipe_run ops (snd (mt_do_open d (snd (mt_close d m)))) = (as', m')"
      and as: "as = Done None # Done None # as'"
    by (auto split: prod.splits)
  have "pp_closed (mt_outbound (snd (mt_do_open d (snd (mt_close d m))) d))"
    by (simp add: mt_close_def mt_do_open_def on_side_def map_queue_def)
  from pipe_run_stays_closed [OF rest this] show ?thesis by (simp add: as)
qed

theorem reopened_pipe_never_writes_witness:
  "list_all2 (\<lambda>op a. \<forall>bs. op = Write_op Left bs \<longrightarrow> a = Done (Some TransportNotOpenError))
     [Open_op Right, Write_op Left [1], Read_op Right 4] [Done None, Done (Some TransportNotOpenError), Bytes_read []]"
proof -
  define m' where "m' = snd (pipe_run [Close_op Left, Open_op Left, Open_op Right, Write_op Left [1], Read_op Right 4]
    create_memory_transport_pair)"
  have "pipe_run [Close_op Left, Open_op Left, Open_op Right, Write_op Left [1], Read_op Right 4] create_memory_transport_pair =
      ([Done None, Done None, Done None, Done (Some TransportNotOpenError), Bytes_read []], m')"
    by (simp add: m'_def mt_do_open_def mt_close_def mt_read_def mt_write_def on_side_def map_queue_def
        create_memory_transport_pair_def)
  from reopened_pipe_never_writes [OF this] show ?thesis by simp
qed

section \<open>Draining\<close>

text \<open>A side that is open and reads often enough has everything: enough is one read for each byte and each chunk.\<close>

definition pending_reads :: "memory_pair \<Rightarrow> side \<Rightarrow> nat" where
  "pending_reads m d = length (unread m d) + length (pp_queue (mt_outbound (m (peer d))))"

lemma read_progress:
  assumes "mt_open (m d)" "0 < n" "pending_reads m d \<noteq> 0" "pipe_do (Read_op d n) m = (a, m')"
  shows "mt_open (m' d) \<and> pending_reads m' d < pending_reads m d"
  using assms
  by (auto simp: mt_read_def on_side_def map_queue_def pending_reads_def unread_def split: list.splits option.splits if_splits)

lemma read_keeps_open: "mt_open (m d) \<Longrightarrow> mt_open (snd (pipe_do (Read_op d n) m) d)"
  by (auto simp: mt_read_def on_side_def map_queue_def split: list.split option.split)

lemma read_nothing: "pending_reads m d = 0 \<Longrightarrow> pending_reads (snd (pipe_do (Read_op d n) m)) d = 0"
  by (auto simp: mt_read_def on_side_def map_queue_def pending_reads_def unread_def split: list.split option.split)

theorem reads_drain_the_pipe:
  assumes "mt_open (m d)" "0 < n" "pending_reads m d \<le> k"
  shows "unread (snd (pipe_run (replicate k (Read_op d n)) m)) d = []"
proof -
  have "pending_reads (snd (pipe_run (replicate k (Read_op d n)) m)) d = 0"
    using assms
  proof (induction k arbitrary: m)
    case (Suc k)
    obtain a m1 where step: "pipe_do (Read_op d n) m = (a, m1)" by fastforce
    have "mt_open (m1 d)" using read_keeps_open [of m d n] Suc.prems(1) step by (metis snd_conv)
    moreover have "pending_reads m1 d \<le> k"
    proof (cases "pending_reads m d = 0")
      case True
      with read_nothing [of m d n] step show ?thesis by (metis snd_conv le0)
    next
      case False
      from read_progress [OF Suc.prems(1,2) False step] Suc.prems(3) show ?thesis by linarith
    qed
    ultimately have "pending_reads (snd (pipe_run (replicate k (Read_op d n)) m1)) d = 0"
      using Suc.IH Suc.prems(2) by blast
    with step show ?case by (cases "pipe_run (replicate k (Read_op d n)) m1") simp
  qed simp
  then show ?thesis by (simp add: pending_reads_def)
qed

theorem reads_drain_the_pipe_witness:
  "unread (snd (pipe_run (replicate 5 (Read_op Right 2))
     (create_memory_transport_pair(Right := \<lparr>mt_open = True, mt_buffer = [1, 2, 3], mt_outbound = \<lparr>pp_queue = [], pp_closed = False\<rparr>\<rparr>))))
     Right = []"
  by (rule reads_drain_the_pipe)
    (simp_all add: pending_reads_def unread_def create_memory_transport_pair_def)

end
