(* ===== verification/Bench_Capture.thy ===== *)
theory Bench_Capture
  imports Ctl_Text Complex_Main
begin

text \<open>
  \<open>hardware/capture.py\<close>: the capture of a laboratory bench, one line for each frame. A line is its JSON object, a file the
  list of its lines; the time and the text of a float are arguments. \<open>bytes.fromhex\<close> is here because the bench reads the
  bytes of a frame back from the text in an event.
\<close>

section \<open>Hexadecimal input\<close>

definition hex_value :: "char \<Rightarrow> nat option" where
  "hex_value c = (let n = (of_char c :: nat) in
     if 48 \<le> n \<and> n \<le> 57 then Some (n - 48)
     else if 97 \<le> n \<and> n \<le> 102 then Some (n - 87)
     else if 65 \<le> n \<and> n \<le> 70 then Some (n - 55) else None)"

definition is_space :: "char \<Rightarrow> bool" where
  "is_space c \<longleftrightarrow> (let n = (of_char c :: nat) in 9 \<le> n \<and> n \<le> 13 \<or> n = 32)"

text \<open>White space is skipped between bytes, not inside one.\<close>

fun from_hex :: "string \<Rightarrow> bytes result" where
  "from_hex [] = Inr []"
| "from_hex [c] = (if is_space c then Inr [] else Inl ValueError)"
| "from_hex (c # d # cs) =
    (if is_space c then from_hex (d # cs)
     else case (hex_value c, hex_value d) of
         (Some h, Some l) \<Rightarrow> bind_result (from_hex cs) (\<lambda>bs. Inr (word_of_nat (16 * h + l) # bs))
       | _ \<Rightarrow> Inl ValueError)"

definition without_blanks :: "string \<Rightarrow> string" where
  "without_blanks s = filter (\<lambda>c. c \<noteq> CHR '' '') s"

lemma less_16: "n < 16 \<Longrightarrow> n \<in> {0, 1, 2, 3, 4, 5, 6, 7, 8, 9, 10, 11, 12, 13, 14, 15 :: nat}"
  by (simp add: less_Suc_eq eval_nat_numeral)

lemma hex_digit_facts:
  "n < 16 \<Longrightarrow> hex_value (hex_digit n) = Some n \<and> \<not> is_space (hex_digit n) \<and> hex_digit n \<noteq> CHR '' ''"
  by (drule less_16) (auto simp: hex_digit_def hex_value_def is_space_def)

lemma nibbles: "unat (b :: byte) div 16 < 16" "unat b mod 16 < 16"
proof -
  have "unat b < 256" using unsigned_less [of b] by simp
  then show "unat b div 16 < 16" "unat b mod 16 < 16" by simp_all
qed

lemma from_hex_byte: "from_hex (hex_byte b @ cs) = bind_result (from_hex cs) (\<lambda>bs. Inr (b # bs))"
  using hex_digit_facts [OF nibbles(1) [of b]] hex_digit_facts [OF nibbles(2) [of b]]
  by (simp add: hex_byte_def)

lemma byte_without_blanks: "without_blanks (hex_byte b @ cs) = hex_byte b @ without_blanks cs"
  using hex_digit_facts [OF nibbles(1) [of b]] hex_digit_facts [OF nibbles(2) [of b]]
  by (simp add: hex_byte_def without_blanks_def)

lemma from_hex_text: "from_hex (without_blanks (hex_text bs)) = Inr bs"
proof (induction bs rule: hex_text.induct)
  case (2 b)
  show ?case using byte_without_blanks [of b "[]"] from_hex_byte [of b "[]"] by (simp add: without_blanks_def)
next
  case (3 b c bs)
  have "without_blanks (hex_text (b # c # bs)) = hex_byte b @ without_blanks (hex_text (c # bs))"
    using byte_without_blanks [of b "'' '' @ hex_text (c # bs)"] by (simp add: without_blanks_def)
  with 3 show ?case by (simp add: from_hex_byte)
qed (simp add: without_blanks_def)

section \<open>Records\<close>

definition SECRET_KEYS :: "string list" where
  "SECRET_KEYS = [''password'', ''passwd'', ''secret'', ''token'', ''api_key'', ''apikey'', ''credential'', ''private_key'',
     ''client_key'']"

record capture_record =
  cp_utc :: string
  cp_monotonic :: int
  cp_direction :: string
  cp_role :: string
  cp_port :: string
  cp_adapter :: "string option"
  cp_raw_hex :: string
  cp_frame_type :: "string option"
  cp_address :: "int option"
  cp_sequence :: "int option"
  cp_crc_valid :: "bool option"
  cp_latency :: "rat option"
  cp_environment :: string
  cp_simulated :: bool

definition capture_dict :: "(rat \<Rightarrow> string) \<Rightarrow> capture_record \<Rightarrow> (string \<times> json) list" where
  "capture_dict float r =
    [(''utc_timestamp'', JStr (cp_utc r)), (''monotonic_ns'', JInt (cp_monotonic r)), (''direction'', JStr (cp_direction r)),
     (''role'', JStr (cp_role r)), (''port'', JStr (cp_port r)), (''adapter_stable_id'', JOpt JStr (cp_adapter r)),
     (''raw_frame_hex'', JStr (cp_raw_hex r)), (''parsed_frame_type'', JOpt JStr (cp_frame_type r)),
     (''dart_address'', JOpt JInt (cp_address r)), (''sequence'', JOpt JInt (cp_sequence r)),
     (''crc_valid'', JOpt JBool (cp_crc_valid r)), (''latency_ms'', JOpt (\<lambda>x. JFloat (float x)) (cp_latency r)),
     (''environment'', JStr (cp_environment r)), (''simulated'', JBool (cp_simulated r))]"

definition lower_char :: "char \<Rightarrow> char" where
  "lower_char c = (if 65 \<le> (of_char c :: nat) \<and> (of_char c :: nat) \<le> 90 then char_of ((of_char c :: nat) + 32) else c)"

definition lower :: "string \<Rightarrow> string" where
  "lower s = map lower_char s"

text \<open>A key that equals a secret word also contains it.\<close>

definition secret_key :: "string \<Rightarrow> bool" where
  "secret_key key \<longleftrightarrow> lower key \<in> set SECRET_KEYS \<or> list_ex (\<lambda>s. contains_text s (lower key)) SECRET_KEYS"

text \<open>\<open>sanitize_mapping\<close>: nested dictionaries are cleaned, lists are kept as they are.\<close>

fun sanitize_mapping :: "(string \<times> json) list \<Rightarrow> (string \<times> json) list"
  and sanitize_value :: "json \<Rightarrow> json" where
  "sanitize_mapping [] = []"
| "sanitize_mapping ((k, v) # kvs) =
    (if secret_key k then sanitize_mapping kvs else (k, sanitize_value v) # sanitize_mapping kvs)"
| "sanitize_value (JObj kvs) = JObj (sanitize_mapping kvs)"
| "sanitize_value v = v"

lemma sanitized_keys: "list_all (\<lambda>(k, v). \<not> secret_key k) (sanitize_mapping kvs)"
  by (induction kvs) (auto simp: list_all_iff split: if_splits)

text \<open>No key of a capture record is secret and none of its values is a dictionary.\<close>

lemma capture_keys_are_open:
  "list_all (\<lambda>k. \<not> secret_key k) [''utc_timestamp'', ''monotonic_ns'', ''direction'', ''role'', ''port'', ''adapter_stable_id'',
     ''raw_frame_hex'', ''parsed_frame_type'', ''dart_address'', ''sequence'', ''crc_valid'', ''latency_ms'', ''environment'',
     ''simulated'']"
  by code_simp

lemma sanitize_opt: "(\<And>x. sanitize_value (f x) = f x) \<Longrightarrow> sanitize_value (JOpt f x) = JOpt f x"
  by (cases x) (simp_all add: JOpt_def)

lemma sanitize_capture: "sanitize_mapping (capture_dict float r) = capture_dict float r"
  using capture_keys_are_open by (simp add: capture_dict_def sanitize_opt)

section \<open>The writer\<close>

text \<open>
  The writer appends to \<open>.partial\<close> files, which may hold lines of an earlier run, and renames them when it is finalized.
\<close>

record capture_writer =
  cw_partial :: "(string \<times> json) list list"
  cw_sanitized_partial :: "(string \<times> json) list list option"
  cw_file :: "(string \<times> json) list list option"
  cw_sanitized_file :: "(string \<times> json) list list option"
  cw_count :: nat
  cw_closed :: bool

definition new_writer ::
  "(string \<times> json) list list \<Rightarrow> (string \<times> json) list list \<Rightarrow> bool \<Rightarrow> capture_writer" where
  "new_writer left sanitized_left copy =
    \<lparr>cw_partial = left, cw_sanitized_partial = (if copy then Some sanitized_left else None), cw_file = None,
     cw_sanitized_file = None, cw_count = 0, cw_closed = False\<rparr>"

definition append_record :: "(rat \<Rightarrow> string) \<Rightarrow> capture_record \<Rightarrow> (capture_writer, unit) action" where
  "append_record float r = read_act (\<lambda>w.
    if cw_closed w then result_act (Inl RuntimeError)
    else let payload = capture_dict float r in
      modify_act (\<lambda>w. w\<lparr>cw_partial := cw_partial w @ [payload],
        cw_sanitized_partial := map_option (\<lambda>ls. ls @ [sanitize_mapping payload]) (cw_sanitized_partial w),
        cw_count := cw_count w + 1\<rparr>))"

definition finalize_capture :: "capture_writer \<Rightarrow> capture_writer" where
  "finalize_capture w =
    (if cw_closed w then w
     else w\<lparr>cw_file := Some (cw_partial w), cw_partial := [],
       cw_sanitized_file := or_else (cw_sanitized_partial w) (cw_sanitized_file w), cw_sanitized_partial := None,
       cw_closed := True\<rparr>)"

definition write_records :: "(rat \<Rightarrow> string) \<Rightarrow> capture_record list \<Rightarrow> capture_writer \<Rightarrow> capture_writer" where
  "write_records float rs w = foldl (\<lambda>w r. snd (append_record float r w)) w rs"

lemma write_records_open:
  "\<not> cw_closed w \<Longrightarrow> write_records float rs w =
    w\<lparr>cw_partial := cw_partial w @ map (capture_dict float) rs,
      cw_sanitized_partial := map_option (\<lambda>ls. ls @ map (capture_dict float) rs) (cw_sanitized_partial w),
      cw_count := cw_count w + length rs\<rparr>"
proof (induction rs arbitrary: w)
  case Nil
  then show ?case by (cases w) (simp add: write_records_def option.map_ident)
next
  case (Cons r rs)
  let ?w = "snd (append_record float r w)"
  have "\<not> cw_closed ?w" using Cons.prems by (simp add: append_record_def Let_def)
  from Cons.IH [OF this] Cons.prems show ?case
    by (simp add: write_records_def append_record_def Let_def sanitize_capture option.map_comp comp_def)
qed

text \<open>
  A finished capture holds the lines of every record, in order, after what an earlier run had left, and its sanitized copy
  holds the same lines: no key of a record is a secret, so nothing is dropped. A closed writer takes no more.
\<close>

theorem capture_is_complete:
  "case finalize_capture (write_records float rs (new_writer left sanitized_left True)) of w \<Rightarrow>
    cw_file w = Some (left @ map (capture_dict float) rs) \<and>
    cw_sanitized_file w = Some (sanitized_left @ map (capture_dict float) rs) \<and>
    cw_count w = length rs \<and> finalize_capture w = w \<and> append_record float r w = (Inl RuntimeError, w)"
  by (simp add: write_records_open new_writer_def finalize_capture_def append_record_def)

text \<open>\<open>record_bytes\<close>.\<close>

record capture_moment =
  mo_seconds :: rat
  mo_utc :: string
  mo_monotonic :: int

definition record_bytes ::
  "(rat \<Rightarrow> string) \<Rightarrow> capture_moment \<Rightarrow> string \<Rightarrow> string \<Rightarrow> string \<Rightarrow> string option \<Rightarrow> bytes \<Rightarrow> string option \<Rightarrow> int option \<Rightarrow>
    rat option \<Rightarrow> (capture_writer, unit) action" where
  "record_bytes float now direction role port adapter raw frame_type address latency =
    append_record float \<lparr>cp_utc = mo_utc now, cp_monotonic = mo_monotonic now, cp_direction = direction, cp_role = role,
      cp_port = port, cp_adapter = adapter, cp_raw_hex = hex_text raw, cp_frame_type = frame_type, cp_address = address,
      cp_sequence = None, cp_crc_valid = None, cp_latency = latency, cp_environment = ''LAB'', cp_simulated = True\<rparr>"

end
