(* ===== verification/Bench_Ports.thy ===== *)
theory Bench_Ports
  imports Bench_Capture
begin

text \<open>
  The ports of a laboratory bench: \<open>hardware/errors.py\<close>, \<open>hardware/models.py\<close>, \<open>hardware/port_identity.py\<close>, \<open>hardware/reconnect.py\<close>, the
  look-up of \<open>hardware/serial_discovery.py\<close>, \<open>hardware/adapter_validation.py\<close>, and the settings of
  \<open>protocol/dart/transport/serial.py\<close>. What the operating system knows (real paths, devices, what opening a port gives) is
  an argument; the text of a message is left out.
\<close>

section \<open>Errors\<close>

datatype hardware_error =
    Serial_discovery_error
  | Adapter_validation_error
  | Odd_parity_unsupported_error
  | Bench_config_error
  | Bench_runtime_error
  | Port_not_found_error
  | Adapter_permission_error
  | Adapter_busy_error
  | Same_physical_adapter_error
  | Write_timeout_error
  | Stale_file_descriptor_error
  | Transport_config_error

definition raise_if :: "bool \<Rightarrow> hardware_error \<Rightarrow> hardware_error + unit" where
  "raise_if b e = (if b then Inl e else Inr ())"

fun check_all :: "(bool \<times> hardware_error) list \<Rightarrow> hardware_error + unit" where
  "check_all [] = Inr ()"
| "check_all ((b, e) # cs) = (if b then Inl e else check_all cs)"

lemma check_all_ok: "check_all cs = Inr () \<longleftrightarrow> list_all (\<lambda>c. \<not> fst c) cs"
  by (induction cs rule: check_all.induct) simp_all

section \<open>Serial settings\<close>

datatype serial_parity = Parity_ODD | Parity_EVEN | Parity_NONE | Parity_MARK | Parity_SPACE

record serial_config =
  sl_device :: string
  sl_baud_rate :: int
  sl_data_bits :: int
  sl_parity :: serial_parity
  sl_stop_bits :: int
  sl_read_chunk_size :: int
  sl_open_timeout :: rat
  sl_reconnect_delay :: rat
  sl_read_timeout :: rat
  sl_write_timeout :: rat
  sl_exclusive_open :: bool
  sl_flow_control :: bool

definition validate_serial :: "serial_config \<Rightarrow> hardware_error + unit" where
  "validate_serial c = check_all
    [(sl_device c = '''', Transport_config_error),
     (sl_baud_rate c \<notin> {9600, 19200}, Transport_config_error),
     (sl_data_bits c \<noteq> 8, Transport_config_error),
     (sl_parity c \<noteq> Parity_ODD, Transport_config_error),
     (sl_stop_bits c \<noteq> 1, Transport_config_error),
     (sl_read_chunk_size c < 1, Transport_config_error),
     (sl_open_timeout c \<le> 0, Transport_config_error),
     (sl_reconnect_delay c < 0, Transport_config_error),
     (sl_write_timeout c \<le> 0, Transport_config_error),
     (sl_flow_control c, Transport_config_error)]"

fun parity_constant :: "serial_parity \<Rightarrow> string" where
  "parity_constant Parity_ODD = ''O''"
| "parity_constant Parity_EVEN = ''E''"
| "parity_constant Parity_NONE = ''N''"
| "parity_constant Parity_MARK = ''M''"
| "parity_constant Parity_SPACE = ''S''"

definition has_prefix :: "string \<Rightarrow> string \<Rightarrow> bool" where
  "has_prefix p s \<longleftrightarrow> take (length p) s = p"

text \<open>The kind of transport a serial port claims to be.\<close>

definition serial_kind :: "string \<Rightarrow> string" where
  "serial_kind device = (if has_prefix ''/tmp/'' device \<or> has_prefix ''pty:'' device then ''serial_virtual'' else ''serial_physical'')"

definition expected_serial_config :: "string \<Rightarrow> int \<Rightarrow> bool \<Rightarrow> rat \<Rightarrow> rat \<Rightarrow> serial_config" where
  "expected_serial_config device baud_rate exclusive read_timeout write_timeout =
    \<lparr>sl_device = device, sl_baud_rate = baud_rate, sl_data_bits = 8, sl_parity = Parity_ODD, sl_stop_bits = 1,
     sl_read_chunk_size = 256, sl_open_timeout = 2, sl_reconnect_delay = 1, sl_read_timeout = read_timeout,
     sl_write_timeout = write_timeout, sl_exclusive_open = exclusive, sl_flow_control = False\<rparr>"

definition validate_config_fields :: "serial_config \<Rightarrow> hardware_error + unit" where
  "validate_config_fields c =
    (if sl_parity c \<noteq> Parity_ODD then Inl Odd_parity_unsupported_error
     else if sl_flow_control c then Inl Adapter_validation_error else validate_serial c)"

section \<open>Opening an adapter\<close>

text \<open>What opening the port gives: a port with its settings, a \<open>TypeError\<close>, or another exception with its text.\<close>

record opened_port =
  op_parity :: string
  op_baud_rate :: int
  op_data_bits :: int
  op_stop_bits :: rat
  op_flow_control :: bool

datatype open_outcome = Opened opened_port | Open_type_error | Open_failed string

datatype adapter_problem = Wrong_parity | Wrong_baud_rate | Wrong_data_bits | Wrong_stop_bits | Flow_control_on

record adapter_validation =
  vr_device :: string
  vr_ok :: bool
  vr_baud_rate :: int
  vr_data_bits :: int
  vr_parity :: serial_parity
  vr_stop_bits :: int
  vr_flow_control_disabled :: bool
  vr_read_timeout :: rat
  vr_write_timeout :: rat
  vr_exclusive :: "bool option"
  vr_errors :: "adapter_problem list"
  vr_exclusive_unsupported :: bool

definition problem_if :: "bool \<Rightarrow> adapter_problem \<Rightarrow> adapter_problem list" where
  "problem_if b p = (if b then [p] else [])"

definition port_problems :: "serial_config \<Rightarrow> opened_port \<Rightarrow> adapter_problem list" where
  "port_problems c p =
     problem_if (op_parity p \<noteq> ''O'') Wrong_parity
   @ problem_if (op_baud_rate p \<noteq> sl_baud_rate c) Wrong_baud_rate
   @ problem_if (op_data_bits p \<noteq> sl_data_bits c) Wrong_data_bits
   @ problem_if (op_stop_bits p \<noteq> of_int (sl_stop_bits c)) Wrong_stop_bits
   @ problem_if (op_flow_control p) Flow_control_on"

definition adapter_result :: "serial_config \<Rightarrow> bool \<Rightarrow> bool \<Rightarrow> opened_port \<Rightarrow> adapter_validation" where
  "adapter_result c exclusive unsupported p =
    \<lparr>vr_device = sl_device c, vr_ok = (port_problems c p = []), vr_baud_rate = sl_baud_rate c, vr_data_bits = sl_data_bits c,
     vr_parity = Parity_ODD, vr_stop_bits = sl_stop_bits c, vr_flow_control_disabled = True,
     vr_read_timeout = sl_read_timeout c, vr_write_timeout = sl_write_timeout c, vr_exclusive = Some exclusive, vr_errors = port_problems c p,
     vr_exclusive_unsupported = unsupported\<rparr>"

text \<open>
  \<open>validate_adapter_open\<close>; \<open>try_open\<close> is \<open>serial.Serial\<close> with the settings of the configuration, with or without
  \<open>exclusive\<close>. Without \<open>exclusive\<close> after a \<open>TypeError\<close>, any exception is an unsupported parity.
\<close>

definition validate_adapter_open ::
  "(bool \<Rightarrow> open_outcome) \<Rightarrow> serial_config \<Rightarrow> hardware_error + adapter_validation" where
  "validate_adapter_open try_open c = bind_result (validate_config_fields c) (\<lambda>_.
    case try_open (sl_exclusive_open c) of
      Opened p \<Rightarrow> Inr (adapter_result c (sl_exclusive_open c) False p)
    | Open_type_error \<Rightarrow>
        (case try_open False of
           Opened p \<Rightarrow> Inr (adapter_result c False True p)
         | Open_type_error \<Rightarrow> Inl Odd_parity_unsupported_error
         | Open_failed msg \<Rightarrow> Inl Odd_parity_unsupported_error)
    | Open_failed msg \<Rightarrow>
        if contains_text ''parity'' (lower msg) \<or> contains_text ''odd'' (lower msg)
        then Inl Odd_parity_unsupported_error else Inl Adapter_validation_error)"

text \<open>
  An adapter is accepted only with the settings of the line: when the validation succeeds, the port was opened with odd
  parity, 8 data bits, one stop bit, the configured rate and no flow control, and the configuration itself asked for that.
\<close>

theorem accepted_adapter_is_8O1:
  assumes "validate_adapter_open try_open c = Inr v" "vr_ok v"
  shows "\<exists>exclusive p. try_open exclusive = Opened p \<and> op_parity p = ''O'' \<and> op_data_bits p = 8 \<and> op_stop_bits p = 1 \<and>
    op_baud_rate p = sl_baud_rate c \<and> \<not> op_flow_control p \<and> sl_parity c = Parity_ODD \<and> sl_baud_rate c \<in> {9600, 19200}"
proof -
  have valid: "validate_config_fields c = Inr ()" using assms(1) by (auto simp: validate_adapter_open_def bind_result_Inr_iff)
  then have c: "sl_parity c = Parity_ODD" "sl_data_bits c = 8" "sl_stop_bits c = 1" "sl_baud_rate c \<in> {9600, 19200}"
    by (auto simp: validate_config_fields_def validate_serial_def check_all_ok split: if_splits)
  from assms(1) valid obtain exclusive p e u where p: "try_open exclusive = Opened p" "v = adapter_result c e u p"
    by (auto simp: validate_adapter_open_def split: open_outcome.splits if_splits)
  then have "port_problems c p = []" using assms(2) by (simp add: adapter_result_def)
  then show ?thesis
    using p(1) c by (intro exI [of _ exclusive] exI [of _ p]) (auto simp: port_problems_def problem_if_def split: if_splits)
qed

definition good_port :: opened_port where
  "good_port = \<lparr>op_parity = ''O'', op_baud_rate = 9600, op_data_bits = 8, op_stop_bits = 1, op_flow_control = False\<rparr>"

theorem accepted_adapter_is_8O1_witness:
  "\<exists>exclusive p. (\<lambda>x :: bool. Opened good_port) exclusive = Opened p \<and> op_parity p = ''O'' \<and> op_data_bits p = 8 \<and>
    op_stop_bits p = 1 \<and> op_baud_rate p = 9600 \<and> \<not> op_flow_control p"
proof -
  let ?c = "expected_serial_config ''A'' 9600 True (1 / 20) 2"
  have "validate_adapter_open (\<lambda>x. Opened good_port) ?c = Inr (adapter_result ?c True False good_port)"
    by (simp add: validate_adapter_open_def validate_config_fields_def validate_serial_def expected_serial_config_def)
  moreover have "vr_ok (adapter_result ?c True False good_port)"
    by (simp add: adapter_result_def port_problems_def problem_if_def good_port_def expected_serial_config_def)
  ultimately show ?thesis using accepted_adapter_is_8O1 [of "\<lambda>x. Opened good_port" ?c]
    by (simp add: expected_serial_config_def)
qed

section \<open>Devices\<close>

record serial_device =
  sd_path :: string
  sd_stable_id :: string
  sd_vid :: "nat option"
  sd_pid :: "nat option"
  sd_serial_number :: "string option"
  sd_location :: "string option"
  sd_by_id :: "string option"

record port_world =
  pw_realpath :: "string \<Rightarrow> string"
  pw_exists :: "string \<Rightarrow> bool"
  pw_devices :: "serial_device list"
  pw_by_id :: "string \<Rightarrow> string option"

text \<open>\<open>Path(text).name\<close>: the last component, trailing slashes apart.\<close>

definition path_name :: "string \<Rightarrow> string" where
  "path_name s = rev (takeWhile (\<lambda>c. c \<noteq> CHR ''/'') (dropWhile (\<lambda>c. c = CHR ''/'') (rev s)))"

fun hex_nat :: "nat \<Rightarrow> string" where
  "hex_nat n = (if n < 16 then [hex_digit n] else hex_nat (n div 16) @ [hex_digit (n mod 16)])"

declare hex_nat.simps [simp del]

definition hex4 :: "nat \<Rightarrow> string" where
  "hex4 n = replicate (4 - length (hex_nat n)) (CHR ''0'') @ hex_nat n"

definition physical_identity_key :: "port_world \<Rightarrow> serial_device \<Rightarrow> string" where
  "physical_identity_key pw d =
    (if truthy_string (sd_by_id d) then ''by-id:'' @ path_name (the (sd_by_id d))
     else if sd_vid d \<noteq> None \<and> sd_pid d \<noteq> None \<and> truthy_string (sd_serial_number d)
     then ''usb:'' @ hex4 (the (sd_vid d)) @ '':'' @ hex4 (the (sd_pid d)) @ '':'' @ the (sd_serial_number d)
     else if truthy_string (sd_location d) then ''loc:'' @ the (sd_location d)
     else ''realpath:'' @ pw_realpath pw (sd_path d))"

definition assert_distinct_physical_adapters :: "port_world \<Rightarrow> serial_device \<Rightarrow> serial_device \<Rightarrow> hardware_error + unit" where
  "assert_distinct_physical_adapters pw c s =
    (if physical_identity_key pw c = physical_identity_key pw s then Inl Same_physical_adapter_error
     else if pw_realpath pw (sd_path c) = pw_realpath pw (sd_path s) then Inl Same_physical_adapter_error else Inr ())"

definition unknown_device :: "string \<Rightarrow> serial_device" where
  "unknown_device path = \<lparr>sd_path = path, sd_stable_id = path_name path, sd_vid = None, sd_pid = None,
     sd_serial_number = None, sd_location = None, sd_by_id = (if contains_text ''/by-id/'' path then Some path else None)\<rparr>"

definition resolve_device :: "port_world \<Rightarrow> string \<Rightarrow> string option \<Rightarrow> hardware_error + serial_device" where
  "resolve_device pw path stable_id =
    (if path \<noteq> ''''
     then (case find (\<lambda>d. path = sd_path d \<or> Some path = sd_by_id d \<or> pw_realpath pw path = pw_realpath pw (sd_path d))
             (pw_devices pw) of
             Some d \<Rightarrow> Inr d | None \<Rightarrow> Inr (unknown_device path))
     else if truthy_string stable_id
     then (case find (\<lambda>d. sd_stable_id d = the stable_id \<or>
               truthy_string (sd_by_id d) \<and> path_name (the (sd_by_id d)) = the stable_id \<or>
               path_name (sd_path d) = the stable_id) (pw_devices pw) of
             Some d \<Rightarrow> Inr d | None \<Rightarrow> Inl Serial_discovery_error)
     else Inl Serial_discovery_error)"

definition prefer_stable_path :: "port_world \<Rightarrow> string \<Rightarrow> string" where
  "prefer_stable_path pw path =
    (if contains_text ''/by-id/'' path then path
     else case pw_by_id pw (pw_realpath pw path) of
         Some p \<Rightarrow> p | None \<Rightarrow> (case pw_by_id pw path of Some p \<Rightarrow> p | None \<Rightarrow> path))"

definition by_id_first :: "serial_device \<Rightarrow> serial_device" where
  "by_id_first d = (if truthy_string (sd_by_id d) then d\<lparr>sd_path := the (sd_by_id d)\<rparr> else d)"

definition is_test_path :: "string \<Rightarrow> bool" where
  "is_test_path path \<longleftrightarrow> has_prefix ''/tmp/'' path \<or> has_prefix ''pty:'' path"

definition missing_by_id :: "port_world \<Rightarrow> string \<Rightarrow> bool" where
  "missing_by_id pw path \<longleftrightarrow> \<not> is_test_path path \<and> contains_text ''/serial/by-id/'' path \<and> \<not> pw_exists pw path"

definition resolve_bench_ports ::
  "port_world \<Rightarrow> string \<Rightarrow> string \<Rightarrow> string option \<Rightarrow> string option \<Rightarrow> hardware_error + (serial_device \<times> serial_device)" where
  "resolve_bench_ports pw controller_port simulator_port controller_id simulator_id =
    (if controller_port = '''' \<or> simulator_port = '''' then Inl Bench_config_error
     else bind_result (resolve_device pw (prefer_stable_path pw controller_port) controller_id) (\<lambda>controller.
       bind_result (resolve_device pw (prefer_stable_path pw simulator_port) simulator_id) (\<lambda>simulator.
       let c = by_id_first controller; s = by_id_first simulator in
       bind_result (assert_distinct_physical_adapters pw c s) (\<lambda>_.
       bind_result (check_all [(missing_by_id pw (sd_path c), Port_not_found_error),
           (missing_by_id pw (sd_path s), Port_not_found_error)]) (\<lambda>_. Inr (c, s))))))"

definition ensure_port_present :: "port_world \<Rightarrow> string \<Rightarrow> hardware_error + unit" where
  "ensure_port_present pw path =
    (if is_test_path path then Inr () else if \<not> pw_exists pw path then Inl Port_not_found_error else Inr ())"

text \<open>
  The bench never runs controller and simulator on one adapter: two ports that are resolved have different real paths and
  different identities, whatever the operating system lists.
\<close>

theorem bench_ports_are_two_adapters:
  assumes "resolve_bench_ports pw cp sp cid sid = Inr (c, s)"
  shows "pw_realpath pw (sd_path c) \<noteq> pw_realpath pw (sd_path s) \<and> physical_identity_key pw c \<noteq> physical_identity_key pw s"
  using assms
  by (auto simp: resolve_bench_ports_def bind_result_Inr_iff Let_def assert_distinct_physical_adapters_def split: if_splits)

definition two_ports :: port_world where
  "two_ports = \<lparr>pw_realpath = id, pw_exists = (\<lambda>p. True), pw_devices = [], pw_by_id = (\<lambda>p. None)\<rparr>"

theorem bench_ports_are_two_adapters_witness:
  "pw_realpath two_ports ''/dev/a'' \<noteq> pw_realpath two_ports ''/dev/b'' \<and>
   physical_identity_key two_ports (unknown_device ''/dev/a'') \<noteq> physical_identity_key two_ports (unknown_device ''/dev/b'')"
proof -
  have "resolve_bench_ports two_ports ''/dev/a'' ''/dev/b'' None None = Inr (unknown_device ''/dev/a'', unknown_device ''/dev/b'')"
    by (simp add: resolve_bench_ports_def prefer_stable_path_def resolve_device_def two_ports_def unknown_device_def by_id_first_def
        assert_distinct_physical_adapters_def physical_identity_key_def missing_by_id_def is_test_path_def has_prefix_def)
  from bench_ports_are_two_adapters [OF this] show ?thesis by (simp add: unknown_device_def)
qed

section \<open>Classifying a failure\<close>

datatype open_exception = Exc_file_not_found | Exc_permission | Exc_other

definition classify_open_error :: "open_exception \<Rightarrow> string \<Rightarrow> hardware_error" where
  "classify_open_error exc text =
    (let msg = lower text; has = (\<lambda>part. contains_text part msg) in
     if exc = Exc_file_not_found \<or> has ''no such file'' then Port_not_found_error
     else if exc = Exc_permission \<or> has ''permission'' then Adapter_permission_error
     else if has ''busy'' \<or> has ''resource temporarily unavailable'' \<or> has ''errno 16'' then Adapter_busy_error
     else if has ''parity'' \<or> has ''odd'' then Odd_parity_unsupported_error
     else if has ''timeout'' \<and> has ''write'' then Write_timeout_error
     else if has ''bad file descriptor'' \<or> has ''errno 9'' then Stale_file_descriptor_error
     else if has ''disconnect'' \<or> has ''device not configured'' \<or> has ''errno 6'' then Stale_file_descriptor_error
     else Adapter_validation_error)"

section \<open>Reconnecting\<close>

record reconnect_policy =
  rp_min_delay :: rat
  rp_max_delay :: rat
  rp_max_attempts :: nat
  rp_jitter :: rat
  rp_attempts :: nat
  rp_delays :: "rat list"

text \<open>\<open>u\<close> is the draw of \<open>random.uniform(-jitter, jitter)\<close>; the events are the delays they name.\<close>

definition next_delay :: "rat \<Rightarrow> reconnect_policy \<Rightarrow> rat option \<times> reconnect_policy" where
  "next_delay u p =
    (if rp_max_attempts p \<le> rp_attempts p then (None, p)
     else let limit = min (rp_max_delay p) (rp_min_delay p * 2 ^ rp_attempts p);
              delay = max (rp_min_delay p) (limit * (1 + u))
          in (Some delay, p\<lparr>rp_attempts := rp_attempts p + 1, rp_delays := rp_delays p @ [delay]\<rparr>))"

definition reset_policy :: "reconnect_policy \<Rightarrow> reconnect_policy" where
  "reset_policy p = p\<lparr>rp_attempts := 0\<rparr>"

text \<open>The default policy is bounded: after ten attempts it gives up, and no delay leaves the range of half a second to 9.6 s.\<close>

definition policy_ok :: "reconnect_policy \<Rightarrow> bool" where
  "policy_ok p \<longleftrightarrow> rp_attempts p \<le> rp_max_attempts p \<and> 0 \<le> rp_min_delay p \<and> rp_min_delay p \<le> rp_max_delay p \<and>
    list_all (\<lambda>d. rp_min_delay p \<le> d \<and> d \<le> rp_max_delay p * (1 + rp_jitter p)) (rp_delays p)"

lemma next_delay_ok:
  assumes "policy_ok p" "\<bar>u\<bar> \<le> rp_jitter p" shows "policy_ok (snd (next_delay u p))"
proof (cases "rp_max_attempts p \<le> rp_attempts p")
  case False
  define limit where "limit = min (rp_max_delay p) (rp_min_delay p * 2 ^ rp_attempts p)"
  have nonneg: "0 \<le> rp_min_delay p" "rp_min_delay p \<le> rp_max_delay p" "0 \<le> rp_jitter p"
    using assms by (auto simp: policy_ok_def)
  then have limit: "0 \<le> limit" "limit \<le> rp_max_delay p" by (simp_all add: limit_def)
  have "limit * (1 + u) \<le> limit * (1 + rp_jitter p)" using limit(1) assms(2) by (intro mult_left_mono) auto
  also have "\<dots> \<le> rp_max_delay p * (1 + rp_jitter p)" using limit(2) nonneg(3) by (intro mult_right_mono) auto
  finally have "limit * (1 + u) \<le> rp_max_delay p * (1 + rp_jitter p)" .
  moreover have "rp_max_delay p * 1 \<le> rp_max_delay p * (1 + rp_jitter p)" using nonneg by (intro mult_left_mono) auto
  ultimately show ?thesis
    using assms(1) False nonneg by (auto simp: policy_ok_def next_delay_def Let_def limit_def [symmetric])
qed (use assms in \<open>simp add: next_delay_def\<close>)

definition default_policy :: reconnect_policy where
  "default_policy = \<lparr>rp_min_delay = 1 / 2, rp_max_delay = 8, rp_max_attempts = 10, rp_jitter = 1 / 5, rp_attempts = 0, rp_delays = []\<rparr>"

lemma next_delay_limits [simp]:
  "rp_max_attempts (snd (next_delay u p)) = rp_max_attempts p" "rp_min_delay (snd (next_delay u p)) = rp_min_delay p"
  "rp_max_delay (snd (next_delay u p)) = rp_max_delay p" "rp_jitter (snd (next_delay u p)) = rp_jitter p"
  by (simp_all add: next_delay_def Let_def)

lemma next_delay_attempts:
  "rp_attempts p = length (rp_delays p) \<Longrightarrow>
    rp_attempts (snd (next_delay u p)) = length (rp_delays (snd (next_delay u p))) \<and>
    rp_attempts (snd (next_delay u p)) = (if rp_max_attempts p \<le> rp_attempts p then rp_attempts p else rp_attempts p + 1)"
  by (simp add: next_delay_def Let_def)

text \<open>
  The reconnect policy of the bench is bounded: whatever the random draws, it allows ten attempts and each of them waits
  between half a second and 9.6 seconds.
\<close>

theorem reconnect_is_bounded:
  assumes "list_all (\<lambda>u. \<bar>u\<bar> \<le> 1 / 5) us"
  shows "length (rp_delays (foldl (\<lambda>p u. snd (next_delay u p)) default_policy us)) = min (length us) 10 \<and>
    list_all (\<lambda>d. 1 / 2 \<le> d \<and> d \<le> 96 / 10) (rp_delays (foldl (\<lambda>p u. snd (next_delay u p)) default_policy us))"
proof -
  have "policy_ok q \<and> rp_attempts q = length (rp_delays q) \<and> rp_max_attempts q = 10 \<and> rp_min_delay q = 1 / 2 \<and>
      rp_max_delay q = 8 \<and> rp_jitter q = 1 / 5 \<and> rp_attempts q = min (rp_attempts p + length us) 10"
    if "policy_ok p" "rp_attempts p = length (rp_delays p)" "rp_max_attempts p = 10" "rp_min_delay p = 1 / 2"
      "rp_max_delay p = 8" "rp_jitter p = 1 / 5" "list_all (\<lambda>u. \<bar>u\<bar> \<le> 1 / 5) us"
      "q = foldl (\<lambda>p u. snd (next_delay u p)) p us" for p q us
    using that
  proof (induction us arbitrary: p)
    case Nil
    moreover from Nil have "rp_attempts p \<le> 10" by (simp add: policy_ok_def)
    ultimately show ?case by simp
  next
    case (Cons u us)
    have "policy_ok (snd (next_delay u p))" using Cons.prems by (intro next_delay_ok) simp_all
    moreover note next_delay_attempts [OF Cons.prems(2), of u]
    ultimately show ?case
      using Cons.IH [of "snd (next_delay u p)"] Cons.prems(3-8) by (auto split: if_splits)
  qed
  from this [of default_policy us, OF _ _ _ _ _ _ assms refl] show ?thesis
    by (auto simp: default_policy_def policy_ok_def list_all_iff)
qed

theorem reconnect_is_bounded_witness:
  "length (rp_delays (foldl (\<lambda>p u. snd (next_delay u p)) default_policy (replicate 12 (1 / 10)))) = 10"
  using reconnect_is_bounded [of "replicate 12 (1 / 10)"] by (simp add: list_all_iff)

section \<open>The configuration of a bench\<close>

record bench_config =
  bn_name :: string
  bn_environment :: string
  bn_controller_port :: string
  bn_simulator_port :: string
  bn_controller_id :: "string option"
  bn_simulator_id :: "string option"
  bn_baud_rate :: int
  bn_parity :: string
  bn_data_bits :: int
  bn_stop_bits :: int
  bn_response_timeout_ms :: int
  bn_protocol_target_ms :: int
  bn_turnaround_delay_ms :: rat
  bn_inter_frame_delay_ms :: rat
  bn_adapter_type :: string
  bn_automatic_direction :: bool
  bn_termination :: bool
  bn_bias :: bool
  bn_ground :: bool
  bn_addresses :: "int list"
  bn_duration_s :: rat
  bn_exclusive_open :: bool

definition validate_bench :: "bench_config \<Rightarrow> hardware_error + unit" where
  "validate_bench b = check_all
    [(upper (bn_environment b) \<noteq> ''LAB'', Bench_config_error),
     (bn_controller_port b = '''' \<or> bn_simulator_port b = '''', Bench_config_error),
     (bn_controller_port b = bn_simulator_port b, Bench_config_error),
     (bn_baud_rate b \<noteq> 9600, Bench_config_error),
     (upper (bn_parity b) \<noteq> ''ODD'', Bench_config_error),
     (bn_data_bits b \<noteq> 8 \<or> bn_stop_bits b \<noteq> 1, Bench_config_error),
     (bn_addresses b = [], Bench_config_error)]"

text \<open>The two configurations of a run. Those of a valid bench pass every later check of the settings.\<close>

definition controller_serial :: "bench_config \<Rightarrow> string \<Rightarrow> serial_config" where
  "controller_serial b device = expected_serial_config device (bn_baud_rate b) (bn_exclusive_open b)
     (max (1 / 100) (of_int (bn_response_timeout_ms b) / 1000)) 2"

definition simulator_serial :: "bench_config \<Rightarrow> string \<Rightarrow> serial_config" where
  "simulator_serial b device = expected_serial_config device (bn_baud_rate b) (bn_exclusive_open b) (5 / 100) 2"

text \<open>\<open>BenchConfig\<close> with its defaults, for two ports.\<close>

definition default_bench :: "string \<Rightarrow> string \<Rightarrow> bench_config" where
  "default_bench controller_port simulator_port =
    \<lparr>bn_name = ''us-office-rs485-01'', bn_environment = ''LAB'', bn_controller_port = controller_port,
     bn_simulator_port = simulator_port, bn_controller_id = None, bn_simulator_id = None, bn_baud_rate = 9600,
     bn_parity = ''ODD'', bn_data_bits = 8, bn_stop_bits = 1, bn_response_timeout_ms = 100, bn_protocol_target_ms = 25,
     bn_turnaround_delay_ms = 2, bn_inter_frame_delay_ms = 5, bn_adapter_type = ''usb-rs485-auto'',
     bn_automatic_direction = True, bn_termination = False, bn_bias = False, bn_ground = True, bn_addresses = [1, 2],
     bn_duration_s = 30, bn_exclusive_open = True\<rparr>"

section \<open>Opening a bench\<close>

definition virtual_device :: "string \<Rightarrow> string \<Rightarrow> serial_device" where
  "virtual_device path stable_id = (unknown_device path)\<lparr>sd_stable_id := stable_id, sd_by_id := None\<rparr>"

text \<open>The devices of a run. Paths of tests that do not exist stand for themselves.\<close>

definition bench_devices :: "port_world \<Rightarrow> bool \<Rightarrow> bench_config \<Rightarrow> hardware_error + (serial_device \<times> serial_device)" where
  "bench_devices pw skip b =
    (case resolve_bench_ports pw (bn_controller_port b) (bn_simulator_port b) (bn_controller_id b) (bn_simulator_id b) of
       Inl Port_not_found_error \<Rightarrow>
         if has_prefix ''/tmp/'' (bn_controller_port b) \<or> skip
         then Inr (virtual_device (bn_controller_port b) ''virtual-controller'', virtual_device (bn_simulator_port b) ''virtual-simulator'')
         else Inl Port_not_found_error
     | r \<Rightarrow> r)"

definition bench_port_present :: "port_world \<Rightarrow> bool \<Rightarrow> string \<Rightarrow> hardware_error + unit" where
  "bench_port_present pw skip path =
    (case ensure_port_present pw path of
       Inl e \<Rightarrow> if \<not> skip \<and> \<not> has_prefix ''/tmp/'' path then Inl e else Inr ()
     | Inr u \<Rightarrow> Inr u)"

text \<open>The two adapters are opened in turn; every failure, also a wrong setting, ends the run as a \<open>BenchRuntimeError\<close>.\<close>

definition validate_both ::
  "(serial_config \<Rightarrow> bool \<Rightarrow> open_outcome) \<Rightarrow> serial_config \<Rightarrow> serial_config \<Rightarrow> hardware_error + (adapter_validation \<times> adapter_validation)" where
  "validate_both try_open c s =
    (case bind_result (validate_adapter_open (try_open c) c) (\<lambda>v.
            bind_result (validate_adapter_open (try_open s) s) (\<lambda>w. Inr (v, w))) of
       Inl e \<Rightarrow> Inl Bench_runtime_error
     | Inr (v, w) \<Rightarrow> if \<not> vr_ok v then Inl Bench_runtime_error else if \<not> vr_ok w then Inl Bench_runtime_error else Inr (v, w))"

text \<open>Everything \<open>run_rs485_bench\<close> does before it starts controller and bridge, up to the two transports.\<close>

definition open_bench ::
  "port_world \<Rightarrow> (serial_config \<Rightarrow> bool \<Rightarrow> open_outcome) \<Rightarrow> bool \<Rightarrow> bench_config \<Rightarrow>
    hardware_error + (serial_device \<times> serial_device \<times> (adapter_validation \<times> adapter_validation) option)" where
  "open_bench pw try_open skip b =
    bind_result (validate_bench b) (\<lambda>_. bind_result (bench_devices pw skip b) (\<lambda>(c, s).
    bind_result (bench_port_present pw skip (sd_path c)) (\<lambda>_. bind_result (bench_port_present pw skip (sd_path s)) (\<lambda>_.
    let ccfg = controller_serial b (sd_path c); scfg = simulator_serial b (sd_path s) in
    bind_result (if skip then Inr None else bind_result (validate_both try_open ccfg scfg) (\<lambda>vs. Inr (Some vs))) (\<lambda>vs.
    bind_result (validate_serial ccfg) (\<lambda>_. bind_result (validate_serial scfg) (\<lambda>_. Inr (c, s, vs))))))))"

lemma valid_bench_settings:
  "validate_bench b = Inr () \<Longrightarrow> device \<noteq> '''' \<Longrightarrow>
    validate_config_fields (controller_serial b device) = Inr () \<and> validate_config_fields (simulator_serial b device) = Inr ()"
  by (simp add: validate_bench_def validate_config_fields_def controller_serial_def simulator_serial_def
      expected_serial_config_def validate_serial_def split: if_splits)

text \<open>An adapter that a configuration was validated against runs with odd parity, 8 data bits, one stop bit, at its rate.\<close>

definition runs_8O1 :: "(bool \<Rightarrow> open_outcome) \<Rightarrow> int \<Rightarrow> bool" where
  "runs_8O1 try_open rate \<longleftrightarrow> (\<exists>exclusive p. try_open exclusive = Opened p \<and> op_parity p = ''O'' \<and> op_data_bits p = 8 \<and>
     op_stop_bits p = 1 \<and> op_baud_rate p = rate \<and> \<not> op_flow_control p)"

lemma validated_8O1: "validate_adapter_open (try_open c) c = Inr v \<Longrightarrow> vr_ok v \<Longrightarrow> runs_8O1 (try_open c) (sl_baud_rate c)"
  unfolding runs_8O1_def by (drule (1) accepted_adapter_is_8O1) blast

lemma validate_both_8O1:
  "validate_both try_open c s = Inr vs \<Longrightarrow> runs_8O1 (try_open c) (sl_baud_rate c) \<and> runs_8O1 (try_open s) (sl_baud_rate s)"
  by (auto simp: validate_both_def bind_result_Inr_iff split: sum.splits prod.splits if_splits intro!: validated_8O1)

definition two_adapters :: "port_world \<Rightarrow> serial_device \<Rightarrow> serial_device \<Rightarrow> bool" where
  "two_adapters pw c s \<longleftrightarrow>
    pw_realpath pw (sd_path c) \<noteq> pw_realpath pw (sd_path s) \<and> physical_identity_key pw c \<noteq> physical_identity_key pw s"

text \<open>The ports of a bench that were not found, and may be missing: paths of tests, or a run that skips the validation.\<close>

definition ports_may_be_missing :: "port_world \<Rightarrow> bool \<Rightarrow> bench_config \<Rightarrow> bool" where
  "ports_may_be_missing pw skip b \<longleftrightarrow> (has_prefix ''/tmp/'' (bn_controller_port b) \<or> skip) \<and>
    resolve_bench_ports pw (bn_controller_port b) (bn_simulator_port b) (bn_controller_id b) (bn_simulator_id b) =
      Inl Port_not_found_error"

lemma bench_devices_distinct:
  assumes "bench_devices pw skip b = Inr (c, s)"
  shows "two_adapters pw c s \<or> ports_may_be_missing pw skip b \<and> sd_path c = bn_controller_port b \<and> sd_path s = bn_simulator_port b"
proof (cases "resolve_bench_ports pw (bn_controller_port b) (bn_simulator_port b) (bn_controller_id b) (bn_simulator_id b)")
  case (Inl e)
  then show ?thesis
    using assms by (auto simp: bench_devices_def ports_may_be_missing_def virtual_device_def unknown_device_def
        split: hardware_error.splits if_splits)
next
  case (Inr r)
  then have "r = (c, s)" using assms by (simp add: bench_devices_def)
  with Inr show ?thesis using bench_ports_are_two_adapters unfolding two_adapters_def by blast
qed

lemma two_adapters_paths: "two_adapters pw c s \<Longrightarrow> sd_path c \<noteq> sd_path s"
  by (auto simp: two_adapters_def)

text \<open>
  C33. What a bench that opens is: its environment is LAB, it has addresses, and its two ports are on different paths. They are two
  different adapters, by real path and by identity, unless they were not found at all, which is passed over only for a controller
  port under /tmp/ and for a run that skips the validation of the adapters. A run that does not skip it has opened both with
  odd parity, 8 data bits, one stop bit and 9600 baud; a run that skips it has opened none.
\<close>

theorem open_bench_is_safe:
  assumes "open_bench pw try_open skip b = Inr (c, s, vs)"
  shows "upper (bn_environment b) = ''LAB'' \<and> bn_addresses b \<noteq> [] \<and> sd_path c \<noteq> sd_path s \<and>
    (two_adapters pw c s \<or> ports_may_be_missing pw skip b) \<and> (vs = None \<longleftrightarrow> skip) \<and>
    (skip \<or> runs_8O1 (try_open (controller_serial b (sd_path c))) 9600 \<and> runs_8O1 (try_open (simulator_serial b (sd_path s))) 9600)"
proof -
  have valid: "validate_bench b = Inr ()" and devices: "bench_devices pw skip b = Inr (c, s)"
    and opened: "\<not> skip \<Longrightarrow> \<exists>ws. validate_both try_open (controller_serial b (sd_path c)) (simulator_serial b (sd_path s)) = Inr ws \<and> vs = Some ws"
    and none: "skip \<Longrightarrow> vs = None"
    using assms by (auto simp: open_bench_def bind_result_Inr_iff Let_def split: if_splits)
  from valid have b: "upper (bn_environment b) = ''LAB''" "bn_addresses b \<noteq> []" "bn_baud_rate b = 9600"
    "bn_controller_port b \<noteq> bn_simulator_port b"
    by (simp_all add: validate_bench_def split: if_splits)
  have two: "(two_adapters pw c s \<or> ports_may_be_missing pw skip b) \<and> sd_path c \<noteq> sd_path s"
    using bench_devices_distinct [OF devices] two_adapters_paths [of pw c s] b(4) by auto
  show ?thesis
  proof (cases skip)
    case False
    then obtain ws where ws: "validate_both try_open (controller_serial b (sd_path c)) (simulator_serial b (sd_path s)) = Inr ws"
        "vs = Some ws" using opened by blast
    moreover have "sl_baud_rate (controller_serial b d) = 9600" "sl_baud_rate (simulator_serial b d) = 9600" for d
      by (simp_all add: controller_serial_def simulator_serial_def expected_serial_config_def b(3))
    ultimately show ?thesis
      using b validate_both_8O1 [OF ws(1)] two False by auto
  qed (use b none two in simp)
qed

theorem open_bench_is_safe_witness:
  "runs_8O1 ((\<lambda>c x. Opened good_port) (controller_serial (default_bench ''/dev/a'' ''/dev/b'') ''/dev/a'')) 9600 \<and>
   pw_realpath two_ports ''/dev/a'' \<noteq> pw_realpath two_ports ''/dev/b''"
proof -
  let ?b = "default_bench ''/dev/a'' ''/dev/b''" and ?open = "\<lambda>(c :: serial_config) (x :: bool). Opened good_port"
  have "resolve_bench_ports two_ports ''/dev/a'' ''/dev/b'' None None = Inr (unknown_device ''/dev/a'', unknown_device ''/dev/b'')"
    by (simp add: resolve_bench_ports_def prefer_stable_path_def resolve_device_def two_ports_def unknown_device_def by_id_first_def
        assert_distinct_physical_adapters_def physical_identity_key_def missing_by_id_def is_test_path_def has_prefix_def)
  then have devices: "bench_devices two_ports False ?b = Inr (unknown_device ''/dev/a'', unknown_device ''/dev/b'')"
    by (simp add: bench_devices_def default_bench_def)
  have valid: "validate_bench ?b = Inr ()" by code_simp
  have cfg: "validate_adapter_open (\<lambda>x. Opened good_port) c = Inr (adapter_result c True False good_port) \<and>
      vr_ok (adapter_result c True False good_port)"
    if "c = expected_serial_config d 9600 True t 2" "d \<noteq> ''''" for c d t
    using that by (simp add: validate_adapter_open_def validate_config_fields_def validate_serial_def expected_serial_config_def
        adapter_result_def port_problems_def problem_if_def good_port_def)
  have "\<exists>c s vs. open_bench two_ports ?open False ?b = Inr (c, s, vs) \<and> sd_path c = ''/dev/a'' \<and> sd_path s = ''/dev/b''"
    using valid devices valid_bench_settings [OF valid, of "''/dev/a''"] valid_bench_settings [OF valid, of "''/dev/b''"]
      cfg [of "controller_serial ?b ''/dev/a''" "''/dev/a''"] cfg [of "simulator_serial ?b ''/dev/b''" "''/dev/b''"]
    by (simp add: open_bench_def bench_port_present_def ensure_port_present_def is_test_path_def has_prefix_def unknown_device_def
        two_ports_def validate_both_def controller_serial_def simulator_serial_def default_bench_def validate_config_fields_def
        split: if_splits)
  then obtain c s vs where opened: "open_bench two_ports ?open False ?b = Inr (c, s, vs)" "sd_path c = ''/dev/a''" "sd_path s = ''/dev/b''"
    by blast
  from open_bench_is_safe [OF opened(1)] show ?thesis
    by (simp add: opened default_bench_def has_prefix_def two_adapters_def ports_may_be_missing_def)
qed

end
