(* ===== verification/Bench_Latency.thy ===== *)
theory Bench_Latency
  imports Bench_Capture
begin

text \<open>
  \<open>hardware/latency.py\<close> and the event subscriber of \<open>hardware/bench_runner.py\<close>: what a laboratory bench measures of a
  controller. A time in seconds or milliseconds is the rational it stands for; the clock is an argument. The standard
  deviation and the dictionaries of the report are left out.
\<close>

section \<open>Timing of an exchange\<close>

record exchange_timing =
  xt_address :: int
  xt_write_start :: "rat option"
  xt_write_complete :: "rat option"
  xt_first_byte :: "rat option"
  xt_complete :: "rat option"
  xt_ack_write :: "rat option"
  xt_next_poll :: "rat option"
  xt_kind :: "string option"
  xt_timed_out :: bool

definition new_exchange :: "int \<Rightarrow> rat \<Rightarrow> exchange_timing" where
  "new_exchange address now = \<lparr>xt_address = address, xt_write_start = Some now, xt_write_complete = None,
     xt_first_byte = None, xt_complete = None, xt_ack_write = None, xt_next_poll = None, xt_kind = None,
     xt_timed_out = False\<rparr>"

definition milliseconds_between :: "rat option \<Rightarrow> rat option \<Rightarrow> rat option" where
  "milliseconds_between t t' = (case (t, t') of (Some a, Some b) \<Rightarrow> Some ((b - a) * 1000) | _ \<Rightarrow> None)"

definition poll_to_response_ms :: "exchange_timing \<Rightarrow> rat option" where
  "poll_to_response_ms x = milliseconds_between (xt_write_start x) (xt_complete x)"

definition write_duration_ms :: "exchange_timing \<Rightarrow> rat option" where
  "write_duration_ms x = milliseconds_between (xt_write_start x) (xt_write_complete x)"

section \<open>Statistics\<close>

record timing_stats =
  tm_values :: "rat list"
  tm_timeouts :: nat
  tm_protocol_target :: rat
  tm_bench_timeout :: rat

definition add_value :: "rat \<Rightarrow> timing_stats \<Rightarrow> timing_stats" where
  "add_value v t = t\<lparr>tm_values := tm_values t @ [v]\<rparr>"

definition record_timeout :: "timing_stats \<Rightarrow> timing_stats" where
  "record_timeout t = t\<lparr>tm_timeouts := tm_timeouts t + 1\<rparr>"

text \<open>\<open>round\<close> of a float: to the nearest integer, from the middle to the even one.\<close>

definition py_round :: "rat \<Rightarrow> int" where
  "py_round x =
    (let low = \<lfloor>x\<rfloor>; d = x - of_int low
     in if d < 1 / 2 then low else if 1 / 2 < d then low + 1 else if even low then low else low + 1)"

definition percentile :: "rat \<Rightarrow> timing_stats \<Rightarrow> rat option" where
  "percentile p t =
    (if tm_values t = [] then None
     else let ordered = sort (tm_values t); n = length ordered
       in if n = 1 then Some (ordered ! 0)
          else Some (ordered ! nat (min (int n - 1) (py_round (p * (of_nat n - 1))))))"

definition minimum_ms :: "timing_stats \<Rightarrow> rat option" where
  "minimum_ms t = (if tm_values t = [] then None else Some (Min (set (tm_values t))))"

definition maximum_ms :: "timing_stats \<Rightarrow> rat option" where
  "maximum_ms t = (if tm_values t = [] then None else Some (Max (set (tm_values t))))"

definition mean_ms :: "timing_stats \<Rightarrow> rat option" where
  "mean_ms t = (if tm_values t = [] then None else Some (sum_list (tm_values t) / of_nat (length (tm_values t))))"

definition p50_ms :: "timing_stats \<Rightarrow> rat option" where "p50_ms = percentile (1 / 2)"
definition p95_ms :: "timing_stats \<Rightarrow> rat option" where "p95_ms = percentile (95 / 100)"
definition p99_ms :: "timing_stats \<Rightarrow> rat option" where "p99_ms = percentile (99 / 100)"

definition within_target_ratio :: "timing_stats \<Rightarrow> rat option" where
  "within_target_ratio t =
    (if tm_values t = [] then None
     else Some (of_nat (length (filter (\<lambda>v. v \<le> tm_protocol_target t) (tm_values t))) / of_nat (length (tm_values t))))"

lemma py_round_bounds: "\<lfloor>x\<rfloor> \<le> py_round x" "py_round x \<le> \<lfloor>x\<rfloor> + 1"
  by (simp_all add: py_round_def Let_def)

lemma py_round_mono: "x \<le> y \<Longrightarrow> py_round x \<le> py_round y"
proof (cases "\<lfloor>x\<rfloor> = \<lfloor>y\<rfloor>")
  case True
  assume "x \<le> y"
  with True show ?thesis by (auto simp: py_round_def Let_def)
next
  case False
  assume "x \<le> y"
  then have "\<lfloor>x\<rfloor> \<le> \<lfloor>y\<rfloor>" by (rule floor_mono)
  with False py_round_bounds(2) [of x] py_round_bounds(1) [of y] show ?thesis by linarith
qed

lemma py_round_of_int: "py_round (of_int n) = n"
  by (simp add: py_round_def)

text \<open>The index a percentile looks up.\<close>

definition percentile_index :: "rat \<Rightarrow> nat \<Rightarrow> nat" where
  "percentile_index p n = nat (min (int n - 1) (py_round (p * (of_nat n - 1))))"

lemma percentile_index_less: "0 < n \<Longrightarrow> percentile_index p n < n"
  by (simp add: percentile_index_def)

lemma percentile_index_mono: "p \<le> q \<Longrightarrow> 0 < n \<Longrightarrow> percentile_index p n \<le> percentile_index q n"
proof -
  assume "p \<le> q" "0 < n"
  then have "p * (of_nat n - 1) \<le> q * (of_nat n - 1)" by (intro mult_right_mono) simp_all
  from py_round_mono [OF this] show ?thesis by (simp add: percentile_index_def)
qed

lemma percentile_alt:
  assumes "tm_values t \<noteq> []"
  shows "percentile p t = Some (sort (tm_values t) ! percentile_index p (length (tm_values t)))"
proof (cases "length (tm_values t) = 1")
  case True
  with percentile_index_less [of 1 p] assms show ?thesis by (simp add: percentile_def)
qed (use assms in \<open>simp add: percentile_def percentile_index_def Let_def\<close>)

lemma sorted_between:
  fixes xs :: "rat list"
  assumes "sorted xs" "i < length xs" shows "Min (set xs) \<le> xs ! i" "xs ! i \<le> Max (set xs)"
  using assms(2) by simp_all

text \<open>
  The percentiles of a report are measured values and lie in order between the least and the greatest value, whatever was
  measured.
\<close>

theorem percentiles_are_ordered:
  assumes "tm_values t \<noteq> []"
  shows "\<exists>lo a b c hi. minimum_ms t = Some lo \<and> p50_ms t = Some a \<and> p95_ms t = Some b \<and> p99_ms t = Some c \<and>
    maximum_ms t = Some hi \<and> lo \<le> a \<and> a \<le> b \<and> b \<le> c \<and> c \<le> hi \<and> set [lo, a, b, c, hi] \<subseteq> set (tm_values t)"
proof -
  define xs where "xs = sort (tm_values t)"
  define n where "n = length (tm_values t)"
  define i where "i p = percentile_index p n" for p
  have n: "0 < n" "length xs = n" "sorted xs" "set xs = set (tm_values t)" using assms by (simp_all add: n_def xs_def)
  have at: "percentile p t = Some (xs ! i p)" for p using percentile_alt [OF assms] by (simp add: xs_def n_def i_def)
  have less: "i p < length xs" for p using percentile_index_less n by (simp add: i_def)
  have mem: "xs ! i p \<in> set (tm_values t)" for p using nth_mem [OF less] n(4) by blast
  have step: "xs ! i p \<le> xs ! i q" if "p \<le> q" for p q
    using sorted_nth_mono [OF n(3) percentile_index_mono [OF that n(1), folded i_def] less] .
  have "Min (set (tm_values t)) \<le> xs ! i (1 / 2)" "xs ! i (99 / 100) \<le> Max (set (tm_values t))"
    using mem by simp_all
  moreover have "xs ! i (1 / 2) \<le> xs ! i (95 / 100)" "xs ! i (95 / 100) \<le> xs ! i (99 / 100)" by (rule step; simp)+
  moreover have "Min (set (tm_values t)) \<in> set (tm_values t)" "Max (set (tm_values t)) \<in> set (tm_values t)"
    using assms by simp_all
  ultimately show ?thesis
    using assms mem by (simp add: minimum_ms_def maximum_ms_def p50_ms_def p95_ms_def p99_ms_def at)
qed

theorem percentiles_are_ordered_witness:
  "\<exists>lo a b c hi. minimum_ms \<lparr>tm_values = [3, 1, 2], tm_timeouts = 0, tm_protocol_target = 25, tm_bench_timeout = 100\<rparr> = Some lo \<and>
    p50_ms \<lparr>tm_values = [3, 1, 2], tm_timeouts = 0, tm_protocol_target = 25, tm_bench_timeout = 100\<rparr> = Some a \<and>
    p95_ms \<lparr>tm_values = [3, 1, 2], tm_timeouts = 0, tm_protocol_target = 25, tm_bench_timeout = 100\<rparr> = Some b \<and>
    p99_ms \<lparr>tm_values = [3, 1, 2], tm_timeouts = 0, tm_protocol_target = 25, tm_bench_timeout = 100\<rparr> = Some c \<and>
    maximum_ms \<lparr>tm_values = [3, 1, 2], tm_timeouts = 0, tm_protocol_target = 25, tm_bench_timeout = 100\<rparr> = Some hi \<and>
    lo \<le> a \<and> a \<le> b \<and> b \<le> c \<and> c \<le> hi \<and> set [lo, a, b, c, hi] \<subseteq> {3, 1, 2}"
  using percentiles_are_ordered [of "\<lparr>tm_values = [3, 1, 2], tm_timeouts = 0, tm_protocol_target = 25, tm_bench_timeout = 100\<rparr>"]
  by simp

section \<open>The tracker\<close>

record latency_tracker =
  lt_stats :: timing_stats
  lt_open :: "int \<Rightarrow> exchange_timing option"
  lt_exchanges :: "exchange_timing list"

definition new_tracker :: "rat \<Rightarrow> rat \<Rightarrow> latency_tracker" where
  "new_tracker target bench_timeout =
    \<lparr>lt_stats = \<lparr>tm_values = [], tm_timeouts = 0, tm_protocol_target = target, tm_bench_timeout = bench_timeout\<rparr>,
     lt_open = Map.empty, lt_exchanges = []\<rparr>"

definition update_open :: "int \<Rightarrow> (exchange_timing \<Rightarrow> exchange_timing) \<Rightarrow> latency_tracker \<Rightarrow> latency_tracker" where
  "update_open address g t = (case lt_open t address of None \<Rightarrow> t | Some x \<Rightarrow> t\<lparr>lt_open := (lt_open t)(address \<mapsto> g x)\<rparr>)"

definition mark_write_start :: "int \<Rightarrow> rat \<Rightarrow> latency_tracker \<Rightarrow> latency_tracker" where
  "mark_write_start address now t = t\<lparr>lt_open := (lt_open t)(address \<mapsto> new_exchange address now)\<rparr>"

definition mark_write_complete :: "int \<Rightarrow> rat \<Rightarrow> latency_tracker \<Rightarrow> latency_tracker" where
  "mark_write_complete address now = update_open address (\<lambda>x. x\<lparr>xt_write_complete := Some now\<rparr>)"

definition mark_first_response_byte :: "int \<Rightarrow> rat \<Rightarrow> latency_tracker \<Rightarrow> latency_tracker" where
  "mark_first_response_byte address now =
    update_open address (\<lambda>x. if xt_first_byte x = None then x\<lparr>xt_first_byte := Some now\<rparr> else x)"

definition mark_complete_response ::
  "int \<Rightarrow> rat \<Rightarrow> string \<Rightarrow> latency_tracker \<Rightarrow> exchange_timing option \<times> latency_tracker" where
  "mark_complete_response address now kind t =
    (case lt_open t address of
       None \<Rightarrow> (None, t)
     | Some x \<Rightarrow>
         let x = x\<lparr>xt_complete := Some now, xt_kind := Some kind\<rparr>;
             t = t\<lparr>lt_open := (lt_open t)(address \<mapsto> x)\<rparr>
         in (Some x, case poll_to_response_ms x of None \<Rightarrow> t | Some v \<Rightarrow> t\<lparr>lt_stats := add_value v (lt_stats t)\<rparr>))"

definition mark_ack_write :: "int \<Rightarrow> rat \<Rightarrow> latency_tracker \<Rightarrow> latency_tracker" where
  "mark_ack_write address now = update_open address (\<lambda>x. x\<lparr>xt_ack_write := Some now\<rparr>)"

definition pop_open :: "int \<Rightarrow> (exchange_timing \<Rightarrow> exchange_timing) \<Rightarrow> latency_tracker \<Rightarrow> latency_tracker" where
  "pop_open address g t =
    (case lt_open t address of
       None \<Rightarrow> t
     | Some x \<Rightarrow> t\<lparr>lt_open := (lt_open t)(address := None), lt_exchanges := lt_exchanges t @ [g x]\<rparr>)"

definition mark_next_poll :: "int \<Rightarrow> rat \<Rightarrow> latency_tracker \<Rightarrow> latency_tracker" where
  "mark_next_poll address now = pop_open address (\<lambda>x. x\<lparr>xt_next_poll := Some now\<rparr>)"

definition note_timeout :: "latency_tracker \<Rightarrow> latency_tracker" where
  "note_timeout t = t\<lparr>lt_stats := record_timeout (lt_stats t)\<rparr>"

definition mark_response ::
  "int \<Rightarrow> rat \<Rightarrow> string \<Rightarrow> latency_tracker \<Rightarrow> exchange_timing option \<times> latency_tracker" where
  "mark_response address now kind t =
    (if kind = ''RESPONSE_TIMEOUT''
     then let late = (\<lambda>x. x\<lparr>xt_timed_out := True, xt_kind := Some kind\<rparr>)
       in (map_option late (lt_open t address), note_timeout (pop_open address late t))
     else case mark_complete_response address now kind t of (x, t') \<Rightarrow> (x, pop_open address id t'))"

section \<open>The subscriber\<close>

record bench_subscriber =
  bs_tracker :: latency_tracker
  bs_capture :: "capture_writer option"
  bs_port :: string
  bs_stable_id :: "string option"
  bs_role :: string

text \<open>\<open>str(event.payload.get("raw_hex") or "")\<close>; only one kind of payload has this key.\<close>

fun raw_hex_of :: "event_payload \<Rightarrow> string" where
  "raw_hex_of (Raw_hex_payload t) = t"
| "raw_hex_of _ = ''''"

definition event_raw :: "controller_event \<Rightarrow> bytes result" where
  "event_raw e = (let t = raw_hex_of (ce_payload e) in if t \<noteq> '''' then from_hex (without_blanks t) else Inr [])"

definition track :: "(latency_tracker \<Rightarrow> 'a \<times> latency_tracker) \<Rightarrow> (bench_subscriber, 'a) action" where
  "track g s = (case g (bs_tracker s) of (x, t) \<Rightarrow> (Inr x, s\<lparr>bs_tracker := t\<rparr>))"

definition capture_frame ::
  "(rat \<Rightarrow> string) \<Rightarrow> capture_moment \<Rightarrow> string \<Rightarrow> string \<Rightarrow> int \<Rightarrow> rat option \<Rightarrow> bytes \<Rightarrow> (bench_subscriber, unit) action" where
  "capture_frame float now direction kind address latency raw s =
    (case bs_capture s of
       None \<Rightarrow> (Inr (), s)
     | Some w \<Rightarrow>
         if raw = [] then (Inr (), s)
         else case record_bytes float now direction (bs_role s) (bs_port s) (bs_stable_id s) raw (Some kind) (Some address)
             latency w of (r, w') \<Rightarrow> (r, s\<lparr>bs_capture := Some w'\<rparr>))"

definition bench_event :: "(rat \<Rightarrow> string) \<Rightarrow> capture_moment \<Rightarrow> controller_event \<Rightarrow> (bench_subscriber, unit) action" where
  "bench_event float now e =
    (case ce_address e of
       None \<Rightarrow> return_act ()
     | Some a \<Rightarrow> bind_act (result_act (event_raw e)) (\<lambda>raw.
         if ce_type e = POLL_SENT
         then then_act (track (\<lambda>t. ((), mark_write_complete a (mo_seconds now) (mark_write_start a (mo_seconds now) t))))
           (capture_frame float now ''TX'' ''POLL'' a None raw)
         else if ce_type e = FRAME_SENT \<and> detail_text (ce_detail e) = ''ACK''
         then then_act (track (\<lambda>t. ((), mark_ack_write a (mo_seconds now) t)))
           (capture_frame float now ''TX'' ''ACK'' a None raw)
         else if ce_type e \<in> {DATA_RECEIVED, EOT_RECEIVED, NAK_RECEIVED, FRAME_RECEIVED}
         then let kind = controller_event_value (ce_type e) in
           bind_act (track (\<lambda>t. mark_response a (mo_seconds now) kind (mark_first_response_byte a (mo_seconds now) t)))
             (\<lambda>sample. capture_frame float now ''RX'' kind a (Option.bind sample poll_to_response_ms) raw)
         else if ce_type e = RESPONSE_TIMEOUT
         then track (\<lambda>t. ((), snd (mark_response a (mo_seconds now) ''RESPONSE_TIMEOUT'' t)))
         else return_act ()))"

definition bench_step ::
  "(rat \<Rightarrow> string) \<Rightarrow> bench_subscriber \<Rightarrow> capture_moment \<times> controller_event \<Rightarrow> bench_subscriber" where
  "bench_step float s ne = snd (bench_event float (fst ne) (snd ne) s)"

section \<open>What is counted\<close>

text \<open>Every measured value belongs to one exchange that was answered, in order; a timeout may find no exchange open.\<close>

definition tracker_ok :: "latency_tracker \<Rightarrow> bool" where
  "tracker_ok t \<longleftrightarrow>
    map Some (tm_values (lt_stats t)) = map poll_to_response_ms (filter (\<lambda>x. \<not> xt_timed_out x) (lt_exchanges t)) \<and>
    length (filter xt_timed_out (lt_exchanges t)) \<le> tm_timeouts (lt_stats t) \<and>
    (\<forall>a x. lt_open t a = Some x \<longrightarrow> xt_write_start x \<noteq> None \<and> \<not> xt_timed_out x)"

lemma update_open_ok:
  "tracker_ok t \<Longrightarrow> (\<And>x. xt_write_start (g x) = xt_write_start x \<and> xt_timed_out (g x) = xt_timed_out x) \<Longrightarrow> tracker_ok (update_open a g t)"
  by (auto simp: tracker_ok_def update_open_def split: option.split)

lemma mark_write_start_ok: "tracker_ok t \<Longrightarrow> tracker_ok (mark_write_start a now t)"
  by (auto simp: tracker_ok_def mark_write_start_def new_exchange_def)

lemma mark_response_ok:
  assumes ok: "tracker_ok t" shows "tracker_ok (snd (mark_response a now kind t))"
proof (cases "lt_open t a")
  case None
  with ok show ?thesis
    by (auto simp: tracker_ok_def mark_response_def mark_complete_response_def pop_open_def note_timeout_def
        record_timeout_def)
next
  case (Some x)
  with ok obtain start where "xt_write_start x = Some start" "\<not> xt_timed_out x" by (auto simp: tracker_ok_def)
  with ok Some show ?thesis
    by (auto simp: tracker_ok_def mark_response_def mark_complete_response_def pop_open_def note_timeout_def
        record_timeout_def add_value_def poll_to_response_ms_def milliseconds_between_def Let_def)
qed

lemma capture_frame_tracker: "bs_tracker (snd (capture_frame float now d k a l raw s)) = bs_tracker s"
  by (auto simp: capture_frame_def split: option.split prod.split)

lemma track_ok:
  assumes "\<And>t. tracker_ok t \<Longrightarrow> tracker_ok (snd (g t))" shows "keeps (\<lambda>s. tracker_ok (bs_tracker s)) (track g)"
  using assms by (force simp: keeps_def track_def split: prod.split)

lemma capture_frame_ok: "keeps (\<lambda>s. tracker_ok (bs_tracker s)) (capture_frame float now d k a l raw)"
  by (simp add: keeps_def capture_frame_tracker)

lemma bench_event_ok: "keeps (\<lambda>s. tracker_ok (bs_tracker s)) (bench_event float now e)"
  unfolding bench_event_def Let_def mark_write_complete_def mark_ack_write_def mark_first_response_byte_def
  by (intro keeps_case_option keeps_return keeps_bind keeps_then keeps_if keeps_result track_ok capture_frame_ok)
    (simp_all add: update_open_ok mark_write_start_ok mark_response_ok)

interpretation bench: preserved "bench_step float" "\<lambda>s. tracker_ok (bs_tracker s)" for float
  by unfold_locales (simp add: bench_step_def keepsD [OF bench_event_ok])

text \<open>
  Whatever events a controller publishes and whenever they come, the values of the statistics are the response times of the
  exchanges that were answered, each once and in order, and there are at least as many timeouts as exchanges that timed out.
\<close>

theorem each_exchange_is_measured_once:
  "case bs_tracker (foldl (bench_step float) \<lparr>bs_tracker = new_tracker target limit, bs_capture = w, bs_port = port,
      bs_stable_id = sid, bs_role = role\<rparr> es) of t \<Rightarrow>
    map Some (tm_values (lt_stats t)) = map poll_to_response_ms (filter (\<lambda>x. \<not> xt_timed_out x) (lt_exchanges t)) \<and>
    length (filter xt_timed_out (lt_exchanges t)) \<le> tm_timeouts (lt_stats t)"
proof -
  define s where "s = foldl (bench_step float) \<lparr>bs_tracker = new_tracker target limit, bs_capture = w, bs_port = port,
      bs_stable_id = sid, bs_role = role\<rparr> es"
  have "tracker_ok (new_tracker target limit)" by (simp add: tracker_ok_def new_tracker_def)
  then have "tracker_ok (bs_tracker s)" unfolding s_def by (intro bench.run_preserves) simp
  then show ?thesis by (simp add: s_def [symmetric] tracker_ok_def)
qed

section \<open>What a session publishes about a response\<close>

definition answering :: "controller_event list \<Rightarrow> int \<Rightarrow> pump_session \<Rightarrow> bool" where
  "answering old a s \<longleftrightarrow> cs_address s = a \<and>
    (\<exists>new. eb_events (cs_bus s) = old @ new \<and> list_all (\<lambda>e. ce_type e \<noteq> POLL_SENT \<and> ce_address e = Some a) new)"

lemma answering_cong: "cs_address s' = cs_address s \<Longrightarrow> cs_bus s' = cs_bus s \<Longrightarrow> answering old a s' = answering old a s"
  by (simp add: answering_def)

lemma answering_fields [simp]:
  "answering old a (count_stat g s) = answering old a s" "answering old a (set_error e s) = answering old a s"
  "answering old a (s\<lparr>cs_consecutive_timeouts := n, cs_last_valid_frame := w\<rparr>) = answering old a s"
  "answering old a (s\<lparr>cs_communication := h\<rparr>) = answering old a s"
  "answering old a (s\<lparr>cs_completion_keys := K\<rparr>) = answering old a s"
  "answering old a (s\<lparr>cs_last_accepted_rx := k\<rparr>) = answering old a s"
  "answering old a (s\<lparr>cs_expected_rx := m\<rparr>) = answering old a s"
  "answering old a (s\<lparr>cs_context := c, cs_last_state := st\<rparr>) = answering old a s"
  "answering old a (s\<lparr>cs_context := c, cs_last_state := st, cs_completion_keys := K\<rparr>) = answering old a s"
  by (rule answering_cong; simp)+

lemma answering_publish:
  "ty \<noteq> POLL_SENT \<Longrightarrow> answering old a s \<Longrightarrow> publish_event now ty d p s = (r, s') \<Longrightarrow> answering old a s'"
  by (auto simp: answering_def publish_event_def publish_def Let_def)

lemma keeps_answering_publish: "ty \<noteq> POLL_SENT \<Longrightarrow> keeps (answering old a) (publish_event now ty d p)"
  unfolding keeps_def by (metis answering_publish prod.collapse)

lemma keeps_answering_change: "keeps (answering old a) (publish_state_changed now before after ev ctx key)"
  unfolding publish_state_changed_def by (rule keeps_answering_publish) simp

lemma keeps_answering_sm: "keeps (answering old a) (apply_sm now ev)"
  unfolding keeps_def apply_sm_def Let_def
  using keepsD [OF keeps_answering_change] by simp

lemma keeps_answering_mapped: "keeps (answering old a) (apply_mapped_session now m)"
  unfolding keeps_def apply_mapped_session_def Let_def read_act_def then_act_simp modify_act_def
  using keepsD [OF keeps_answering_change] by (simp split: if_splits)

lemma keeps_answering_communication: "keeps (answering old a) (set_communication now h)"
proof -
  have "keeps (answering old a) (then_act (modify_act (\<lambda>s. s\<lparr>cs_communication := h\<rparr>)) (if prev = h then return_act ()
       else then_act
         (if h = Comm_HEALTHY \<and> prev \<in> {Comm_UNKNOWN, Comm_DISCONNECTED, Comm_DEGRADED}
          then publish_event now PUMP_CONNECTED Empty_detail No_payload else return_act ())
         (if h = Comm_DISCONNECTED
          then publish_event now PUMP_DISCONNECTED Empty_detail No_payload else return_act ())))" for prev
    by (intro keeps_then keeps_modify keeps_if keeps_return keeps_answering_publish) simp_all
  then show ?thesis unfolding set_communication_def Let_def by (intro keeps_read) (rule keepsD)
qed

lemma keeps_answering_transactions: "keeps (answering old a) (apply_transactions now txs)"
proof (induction txs)
  case (Cons tx txs)
  have "keeps (answering old a) (apply_transaction now tx)"
    unfolding apply_transaction_def
    by (intro keeps_then keeps_answering_publish keeps_read_each keeps_answering_mapped) simp
  with Cons show ?case by (simp only: apply_transactions.simps keeps_then)
qed (simp only: apply_transactions.simps keeps_return)

lemma keeps_answering_start: "keeps (answering old a) (start_if_disconnected now)"
  unfolding start_if_disconnected_def by (intro keeps_read_each keeps_if keeps_answering_sm keeps_return)

lemma keeps_answering_data: "keeps (answering old a) (on_data now f)"
  unfolding on_data_def reject_data_def repeat_ack_def accept_data_def observe_data_def record_data_def decode_and_apply_def count_ack_def
  by (intro keeps_read_each keeps_if keeps_then keeps_bind keeps_modify keeps_result keeps_return keeps_answering_publish
      keeps_answering_communication keeps_answering_start keeps_answering_transactions) simp_all

lemma keeps_answering_rest:
  "keeps (answering old a) (case lf_control_type f of CtEOT \<Rightarrow> on_eot now f | CtDATA \<Rightarrow> on_data now f | CtNAK \<Rightarrow> on_nak now f
    | ct \<Rightarrow> then_act (modify_act (set_error (Error_unexpected_control ct))) (return_act None))"
proof -
  have "keeps (answering old a) (on_eot now f)"
    unfolding on_eot_def
    by (intro keeps_then keeps_modify keeps_return keeps_answering_publish keeps_answering_communication keeps_answering_start)
      simp_all
  moreover have "keeps (answering old a) (on_nak now f)"
    unfolding on_nak_def by (intro keeps_then keeps_modify keeps_return keeps_answering_publish) simp_all
  moreover have "keeps (answering old a) (then_act (modify_act (set_error e)) (return_act (None :: bytes option)))" for e
    by (intro keeps_then keeps_modify keeps_return) simp
  ultimately show ?thesis using keeps_answering_data by (simp del: then_act_simp split: control_type.split)
qed

text \<open>The first event about a response is FRAME_RECEIVED, and no POLL_SENT follows it.\<close>

lemma response_events:
  assumes "handle_response_frame now f s = (r, s')"
  shows "\<exists>e new. eb_events (cs_bus s') = eb_events (cs_bus s) @ e # new \<and> ce_type e = FRAME_RECEIVED \<and>
    ce_address e = Some (cs_address s) \<and> ce_payload e = Raw_hex_payload (hex_text (lf_raw_frame f)) \<and>
    list_all (\<lambda>e. ce_type e \<noteq> POLL_SENT \<and> ce_address e = Some (cs_address s)) new"
proof -
  define e where "e = \<lparr>ce_type = FRAME_RECEIVED, ce_address = Some (cs_address s), ce_timestamp = Some now,
    ce_detail = Control_detail (lf_control_type f), ce_payload = Raw_hex_payload (hex_text (lf_raw_frame f))\<rparr>"
  define s1 where "s1 = s\<lparr>cs_last_raw_frame := Some (lf_raw_frame f), cs_last_response_at := Some now\<rparr>"
  obtain x s2 where pub: "publish_event now FRAME_RECEIVED (Control_detail (lf_control_type f))
      (Raw_hex_payload (hex_text (lf_raw_frame f))) s1 = (x, s2)" by fastforce
  have s2: "answering (eb_events (cs_bus s) @ [e]) (cs_address s) s2"
    using pub by (auto simp: answering_def publish_event_def publish_def Let_def s1_def e_def)
  have addr: "cs_address s2 = cs_address s" using s2 by (simp add: answering_def)
  have "answering (eb_events (cs_bus s) @ [e]) (cs_address s) s'"
  proof (cases x)
    case (Inl err)
    with assms pub s2 show ?thesis by (simp add: handle_response_frame_def s1_def)
  next
    case (Inr u)
    with assms pub have "(if lf_address f \<noteq> cs_address s2
        then then_act (modify_act (set_error Error_address_mismatch)) (return_act None)
        else case lf_control_type f of CtEOT \<Rightarrow> on_eot now f | CtDATA \<Rightarrow> on_data now f | CtNAK \<Rightarrow> on_nak now f
          | ct \<Rightarrow> then_act (modify_act (set_error (Error_unexpected_control ct))) (return_act None)) s2 = (r, s')"
      by (simp add: handle_response_frame_def s1_def)
    with keepsD [OF keeps_answering_rest s2, of now f] s2 show ?thesis
      by (cases "lf_address f = cs_address s2") (auto simp del: then_act_simp simp: then_act_def bind_act_def)
  qed
  then show ?thesis by (auto simp: answering_def e_def)
qed

section \<open>What the bench misses\<close>

definition events_since :: "pump_session \<Rightarrow> pump_session \<Rightarrow> controller_event list" where
  "events_since s s' = drop (length (eb_events (cs_bus s))) (eb_events (cs_bus s'))"

text \<open>The event the controller publishes for a frame it has written.\<close>

definition sent_event :: "int \<Rightarrow> int \<Rightarrow> string \<Rightarrow> bytes \<Rightarrow> controller_event" where
  "sent_event now address note raw = \<lparr>ce_type = FRAME_SENT, ce_address = Some address, ce_timestamp = Some now,
     ce_detail = Note_detail note, ce_payload = Raw_hex_payload (hex_text raw)\<rparr>"

definition no_exchange :: "int \<Rightarrow> bench_subscriber \<Rightarrow> bool" where
  "no_exchange a b \<longleftrightarrow> lt_open (bs_tracker b) a = None"

lemma no_exchange_capture: "keeps (no_exchange a) (capture_frame float now d k a' l raw)"
  by (simp add: keeps_def no_exchange_def capture_frame_tracker)

lemma no_exchange_track:
  "(\<And>t. lt_open t a = None \<Longrightarrow> lt_open (snd (g t)) a = None) \<Longrightarrow> keeps (no_exchange a) (track g)"
  by (auto simp: keeps_def no_exchange_def track_def split: prod.split) (metis snd_conv)

lemma update_open_none: "lt_open t a = None \<Longrightarrow> lt_open (update_open a' g t) a = None"
  by (auto simp: update_open_def split: option.split)

lemma pop_open_none: "lt_open t a = None \<Longrightarrow> lt_open (pop_open a' g t) a = None"
  by (auto simp: pop_open_def split: option.split)

lemma mark_response_none: "lt_open t a = None \<Longrightarrow> lt_open (snd (mark_response a' now kind t)) a = None"
  by (cases "lt_open t a'")
    (auto simp: mark_response_def mark_complete_response_def note_timeout_def pop_open_def Let_def split: option.split)

lemma mark_response_closes: "lt_open (snd (mark_response a now kind t)) a = None"
  by (cases "lt_open t a")
    (auto simp: mark_response_def mark_complete_response_def note_timeout_def pop_open_def Let_def split: option.split)

lemma bench_event_no_exchange: "ce_type e \<noteq> POLL_SENT \<Longrightarrow> keeps (no_exchange a) (bench_event float now e)"
  unfolding bench_event_def Let_def mark_ack_write_def mark_first_response_byte_def
  by (intro keeps_case_option keeps_return keeps_bind keeps_then keeps_if keeps_result no_exchange_track no_exchange_capture)
    (simp_all add: update_open_none mark_response_none)

lemma hex_event_raw: "ce_payload e = Raw_hex_payload (hex_text raw) \<Longrightarrow> \<exists>x. event_raw e = Inr x"
  by (simp add: event_raw_def Let_def from_hex_text)

lemma sent_event_raw: "\<exists>x. event_raw (sent_event now a note raw) = Inr x"
  by (rule hex_event_raw [of _ raw]) (simp add: sent_event_def)

lemma frame_received_closes:
  assumes "ce_type e = FRAME_RECEIVED" "ce_address e = Some a" "ce_payload e = Raw_hex_payload (hex_text raw)"
  shows "no_exchange a (bench_step float b (now, e))"
proof -
  obtain x where raw: "event_raw e = Inr x" using hex_event_raw [OF assms(3)] by blast
  obtain y t where m: "mark_response a (mo_seconds now) ''FRAME_RECEIVED''
      (mark_first_response_byte a (mo_seconds now) (bs_tracker b)) = (y, t)" by fastforce
  have "lt_open t a = None" using mark_response_closes m by (metis snd_conv)
  then show ?thesis
    using assms m raw by (simp add: bench_step_def bench_event_def no_exchange_def track_def bind_act_def Let_def capture_frame_tracker)
qed

lemma bench_run_no_exchange:
  "no_exchange a b \<Longrightarrow> list_all (\<lambda>e. ce_type e \<noteq> POLL_SENT) (map snd nes) \<Longrightarrow> no_exchange a (foldl (bench_step float) b nes)"
  by (induction nes arbitrary: b) (simp_all add: bench_step_def keepsD [OF bench_event_no_exchange])

lemma ack_step:
  "bs_tracker (bench_step float b (m, sent_event now a ''ACK'' raw)) = mark_ack_write a (mo_seconds m) (bs_tracker b)"
proof -
  obtain x where "event_raw (sent_event now a ''ACK'' raw) = Inr x" using sent_event_raw by blast
  then show ?thesis
    by (simp add: bench_step_def bench_event_def sent_event_def bind_act_def track_def capture_frame_tracker)
qed

lemma poll_note_step: "bench_step float b (m, sent_event now a ''POLL'' raw) = b"
proof -
  obtain x where "event_raw (sent_event now a ''POLL'' raw) = Inr x" using sent_event_raw by blast
  then show ?thesis by (simp add: bench_step_def bench_event_def sent_event_def bind_act_def)
qed

lemma poll_step:
  "bs_capture (bench_step float b (m, \<lparr>ce_type = POLL_SENT, ce_address = Some a, ce_timestamp = t, ce_detail = d,
     ce_payload = No_payload\<rparr>)) = bs_capture b"
  by (simp add: bench_step_def bench_event_def event_raw_def bind_act_def track_def capture_frame_def split: option.split)

text \<open>
  The bench never measures an ACK: the first event about a response closes the exchange, so that the event of the ACK that
  follows, for whatever response and however the session answers it, finds no exchange open and changes no timing.
\<close>

theorem ack_is_never_timed:
  assumes "handle_response_frame now f s = (r, s')" "map snd nes = events_since s s'"
  shows "bs_tracker (bench_step float (foldl (bench_step float) b nes) (m, sent_event now' (cs_address s) ''ACK'' raw)) =
    bs_tracker (foldl (bench_step float) b nes)"
proof -
  obtain e new where new: "events_since s s' = e # new" "ce_type e = FRAME_RECEIVED" "ce_address e = Some (cs_address s)"
      "ce_payload e = Raw_hex_payload (hex_text (lf_raw_frame f))" "list_all (\<lambda>e. ce_type e \<noteq> POLL_SENT) new"
    using response_events [OF assms(1)] by (auto simp: events_since_def list_all_iff)
  from assms(2) new(1) obtain t ts where nes: "nes = (t, e) # ts" "map snd ts = new" by (cases nes) auto
  have "no_exchange (cs_address s) (foldl (bench_step float) b nes)"
    unfolding nes(1) foldl_Cons
    by (rule bench_run_no_exchange [OF frame_received_closes [OF new(2-4)]]) (simp add: nes(2) new(5))
  then have "mark_ack_write (cs_address s) (mo_seconds m) (bs_tracker (foldl (bench_step float) b nes)) =
      bs_tracker (foldl (bench_step float) b nes)"
    by (simp add: mark_ack_write_def update_open_def no_exchange_def)
  then show ?thesis by (simp only: ack_step)
qed

definition first_session :: pump_session where
  "first_session = new_pump_session 1 ''pump-1'' new_bus SPEC_F_TO_1"

definition first_moment :: capture_moment where
  "first_moment = \<lparr>mo_seconds = 0, mo_utc = '''', mo_monotonic = 0\<rparr>"

definition idle_bench :: bench_subscriber where
  "idle_bench = \<lparr>bs_tracker = new_tracker 25 100, bs_capture = Some (new_writer [] [] True), bs_port = ''A'',
     bs_stable_id = None, bs_role = ''controller''\<rparr>"

theorem ack_is_never_timed_witness:
  "let nes = map (Pair first_moment)
      (events_since first_session (snd (handle_response_frame 0 (data_frame 0 [1, 1, 5]) first_session)))
   in bs_tracker (bench_step (\<lambda>x. []) (foldl (bench_step (\<lambda>x. [])) idle_bench nes)
        (first_moment, sent_event 0 (cs_address first_session) ''ACK'' [1, 0xC0, 0xFA])) =
      bs_tracker (foldl (bench_step (\<lambda>x. [])) idle_bench nes)"
  unfolding Let_def
  by (rule ack_is_never_timed [OF prod.collapse [symmetric]]) (simp add: comp_def)

text \<open>
  A capture holds no POLL: neither the event of the session, which carries no bytes, nor the event of the written frame,
  which is not asked for, adds a line.
\<close>

theorem polls_are_not_captured:
  assumes "session_build_poll now s = (r, s')" "map snd nes = events_since s s' @ [sent_event now' (cs_address s) ''POLL'' raw]"
  shows "bs_capture (foldl (bench_step float) b nes) = bs_capture b"
proof -
  have "events_since s s' = [\<lparr>ce_type = POLL_SENT, ce_address = Some (cs_address s), ce_timestamp = Some now,
      ce_detail = Empty_detail, ce_payload = No_payload\<rparr>]"
    using assms(1) by (auto simp: session_build_poll_def publish_event_def publish_def Let_def events_since_def count_stat_def
        split: sum.splits)
  with assms(2) obtain t t' where nes: "nes = [(t, \<lparr>ce_type = POLL_SENT, ce_address = Some (cs_address s), ce_timestamp = Some now,
      ce_detail = Empty_detail, ce_payload = No_payload\<rparr>), (t', sent_event now' (cs_address s) ''POLL'' raw)]"
    by (auto simp: map_eq_Cons_conv)
  show ?thesis by (simp add: nes poll_note_step poll_step)
qed

theorem polls_are_not_captured_witness:
  "bs_capture (foldl (bench_step (\<lambda>x. [])) idle_bench (map (Pair first_moment)
     (events_since first_session (snd (session_build_poll 0 first_session)) @
      [sent_event 0 (cs_address first_session) ''POLL'' [1, 0x20, 0xFA]]))) = bs_capture idle_bench"
  by (rule polls_are_not_captured [OF prod.collapse [symmetric]]) (simp add: comp_def)

end
