(* ===== verification/Bench_Faults.thy ===== *)
theory Bench_Faults
  imports Sim_Session Ctl_Session Complex_Main
begin

text \<open>
  \<open>hardware/fault_injection.py\<close> and \<open>hardware/bench_faults.py\<close>: the faults a laboratory bench adds to what the simulator
  sends, in software. Each is used at most as often as its plan says. The transport, the random bytes and the pauses are
  an environment over its own state \<open>'w\<close>; a float of the plan is the rational it stands for.
\<close>

section \<open>Damage to a frame\<close>

definition corrupt_frame_byte :: "bytes \<Rightarrow> int option \<Rightarrow> bytes" where
  "corrupt_frame_byte frame index =
    (if frame = [] then frame
     else let i = (case index of Some i \<Rightarrow> i | None \<Rightarrow> int (length frame div 2));
              i = nat (max 0 (min i (int (length frame) - 1)))
          in frame[i := frame ! i XOR 0xFF])"

definition inject_noise :: "bytes \<Rightarrow> bytes \<Rightarrow> bytes" where
  "inject_noise noise frame = noise @ frame"

definition truncate_frame :: "bytes \<Rightarrow> int \<Rightarrow> bytes" where
  "truncate_frame frame keep = (if keep \<le> 0 then [] else take (nat keep) frame)"

definition split_dle_sf_chunks :: "bytes \<Rightarrow> bytes \<times> bytes" where
  "split_dle_sf_chunks frame =
    (if length frame < 2 then (frame, []) else let mid = length frame div 2 in (take mid frame, drop mid frame))"

section \<open>Plans\<close>

datatype bench_fault_kind =
    DELAYED_RESPONSE
  | DROPPED_RESPONSE
  | CORRUPTED_CRC
  | DUPLICATE_DATA
  | WRONG_SEQUENCE
  | NAK_RESPONSE
  | PARTIAL_FRAME
  | INSERTED_NOISE
  | DLE_SF_SPLIT
  | SIMULATOR_RESTART
  | ONE_ADDRESS_OFFLINE
  | ALL_ADDRESSES_OFFLINE

fun bench_fault_value :: "bench_fault_kind \<Rightarrow> string" where
  "bench_fault_value DELAYED_RESPONSE = ''DELAYED_RESPONSE''"
| "bench_fault_value DROPPED_RESPONSE = ''DROPPED_RESPONSE''"
| "bench_fault_value CORRUPTED_CRC = ''CORRUPTED_CRC''"
| "bench_fault_value DUPLICATE_DATA = ''DUPLICATE_DATA''"
| "bench_fault_value WRONG_SEQUENCE = ''WRONG_SEQUENCE''"
| "bench_fault_value NAK_RESPONSE = ''NAK''"
| "bench_fault_value PARTIAL_FRAME = ''PARTIAL_FRAME''"
| "bench_fault_value INSERTED_NOISE = ''INSERTED_NOISE''"
| "bench_fault_value DLE_SF_SPLIT = ''DLE_SF_SPLIT''"
| "bench_fault_value SIMULATOR_RESTART = ''SIMULATOR_RESTART''"
| "bench_fault_value ONE_ADDRESS_OFFLINE = ''ONE_ADDRESS_OFFLINE''"
| "bench_fault_value ALL_ADDRESSES_OFFLINE = ''ALL_ADDRESSES_OFFLINE''"

lemma bench_fault_value_inj [simp]: "bench_fault_value k = bench_fault_value k' \<longleftrightarrow> k = k'"
  by (cases k; cases k') simp_all

record bench_fault_plan =
  fp_kinds :: "bench_fault_kind list"
  fp_delay_ms :: rat
  fp_offline :: "int list"
  fp_remaining :: "(bench_fault_kind \<times> int) list"

definition left_of :: "bench_fault_kind \<Rightarrow> bench_fault_plan \<Rightarrow> int" where
  "left_of k p = (case map_of (fp_remaining p) k of None \<Rightarrow> 0 | Some n \<Rightarrow> n)"

definition set_left :: "bench_fault_kind \<Rightarrow> int \<Rightarrow> bench_fault_plan \<Rightarrow> bench_fault_plan" where
  "set_left k n p = p\<lparr>fp_remaining := AList.update k n (fp_remaining p)\<rparr>"

text \<open>\<open>__post_init__\<close> counts the kinds unless the plan comes with counts.\<close>

definition post_init :: "bench_fault_plan \<Rightarrow> bench_fault_plan" where
  "post_init p =
    (if fp_remaining p = [] \<and> fp_kinds p \<noteq> [] then foldl (\<lambda>p k. set_left k (left_of k p + 1) p) p (fp_kinds p) else p)"

definition take_fault :: "bench_fault_kind \<Rightarrow> (bench_fault_plan, bool) action" where
  "take_fault k = read_act (\<lambda>p.
    let left = left_of k p in
    if left \<le> 0 then return_act False else then_act (modify_act (set_left k (left - 1))) (return_act True))"

lemma left_of_set_left [simp]: "left_of k (set_left k' n p) = (if k = k' then n else left_of k p)"
  by (simp add: left_of_def set_left_def update_conv')

lemma take_fault_cases:
  "take_fault k p = (if left_of k p \<le> 0 then (Inr False, p) else (Inr True, set_left k (left_of k p - 1) p))"
  by (simp add: take_fault_def Let_def)

lemma post_init_counts:
  assumes "fp_remaining p = []" shows "left_of k (post_init p) = int (count_list (fp_kinds p) k)"
proof -
  have "left_of k (foldl (\<lambda>p k. set_left k (left_of k p + 1) p) p ks) = left_of k p + int (count_list ks k)" for ks
    by (induction ks arbitrary: p) simp_all
  then show ?thesis using assms by (auto simp: post_init_def left_of_def)
qed

section \<open>The injector\<close>

record 'w emitter =
  em_write :: "bytes \<Rightarrow> ('w, unit) action"
  em_drain :: "('w, unit) action"
  em_sleep :: "rat \<Rightarrow> 'w \<Rightarrow> 'w"
  em_noise :: "nat \<Rightarrow> 'w \<Rightarrow> bytes"

record 'w injector =
  ij_plan :: bench_fault_plan
  ij_applied :: "string list"
  ij_world :: 'w

definition take_plan :: "bench_fault_kind \<Rightarrow> ('w injector, bool) action" where
  "take_plan k s = (case take_fault k (ij_plan s) of (r, p) \<Rightarrow> (r, s\<lparr>ij_plan := p\<rparr>))"

definition applied :: "bench_fault_kind \<Rightarrow> ('w injector, unit) action" where
  "applied k = modify_act (\<lambda>s. s\<lparr>ij_applied := ij_applied s @ [bench_fault_value k]\<rparr>)"

definition outside :: "('w, 'a) action \<Rightarrow> ('w injector, 'a) action" where
  "outside m s = (case m (ij_world s) of (r, w) \<Rightarrow> (r, s\<lparr>ij_world := w\<rparr>))"

definition emit :: "'w emitter \<Rightarrow> bytes \<Rightarrow> ('w, unit) action" where
  "emit em data = then_act (em_write em data) (em_drain em)"

definition pause :: "'w emitter \<Rightarrow> rat \<Rightarrow> ('w injector, unit) action" where
  "pause em t = outside (modify_act (em_sleep em t))"

text \<open>\<open>if self.plan.take(k): self.applied.append(k.value); ...\<close>, and otherwise what follows.\<close>

definition when_planned ::
  "bench_fault_kind \<Rightarrow> ('w injector, unit) action \<Rightarrow> ('w injector, unit) action \<Rightarrow> ('w injector, unit) action" where
  "when_planned k m n = bind_act (take_plan k) (\<lambda>b. if b then then_act (applied k) m else n)"

definition wrong_sequence :: "bytes \<Rightarrow> bytes" where
  "wrong_sequence payload = payload[1 := payload ! 1 XOR 0x0F]"

definition nak_response :: "bytes \<Rightarrow> bytes" where
  "nak_response payload =
    (if 3 \<le> length payload then payload[1 := (payload ! 1 AND 0xF0) OR 0x05] else corrupt_frame_byte payload None)"

definition emit_one :: "'w emitter \<Rightarrow> bytes \<Rightarrow> ('w injector, unit) action" where
  "emit_one em response =
    when_planned DROPPED_RESPONSE (return_act ())
   (then_act (when_planned DELAYED_RESPONSE (read_act (\<lambda>s. pause em (fp_delay_ms (ij_plan s) / 1000))) (return_act ()))
   (when_planned CORRUPTED_CRC (outside (emit em (corrupt_frame_byte response None)))
   (when_planned INSERTED_NOISE
     (read_act (\<lambda>s. outside (emit em (inject_noise (em_noise em 3 (ij_world s)) response))))
   (when_planned PARTIAL_FRAME
     (outside (emit em (truncate_frame response (max 1 (int (length response div 2))))))
   (when_planned DLE_SF_SPLIT
     (let mid = max 1 (length response div 2) in
      then_act (outside (emit em (take mid response)))
        (then_act (pause em (5 / 1000)) (outside (emit em (drop mid response)))))
   (when_planned DUPLICATE_DATA
     (then_act (outside (emit em response)) (outside (emit em response)))
   (bind_act (take_plan WRONG_SEQUENCE) (\<lambda>b.
     if b \<and> 2 \<le> length response
     then then_act (applied WRONG_SEQUENCE) (outside (emit em (wrong_sequence response)))
     else when_planned NAK_RESPONSE (outside (emit em (nak_response response)))
    (outside (emit em response))))))))))"

fun apply_responses :: "'w emitter \<Rightarrow> bytes list \<Rightarrow> ('w injector, unit) action" where
  "apply_responses em [] = return_act ()"
| "apply_responses em (r # rs) = then_act (emit_one em r) (apply_responses em rs)"

section \<open>Faults stay within the plan\<close>

definition within_plan :: "bench_fault_plan \<Rightarrow> 'w injector \<Rightarrow> bool" where
  "within_plan p s \<longleftrightarrow>
    (\<forall>k. int (count_list (ij_applied s) (bench_fault_value k)) + max 0 (left_of k (ij_plan s)) \<le> max 0 (left_of k p))"

lemma within_planI:
  "(\<And>k. int (count_list (ij_applied s) (bench_fault_value k)) + max 0 (left_of k (ij_plan s)) \<le> max 0 (left_of k p)) \<Longrightarrow>
    within_plan p s"
  by (simp add: within_plan_def)

text \<open>A fault that is taken leaves room for one entry of its kind.\<close>

lemma take_plan_room:
  assumes "within_plan p s" "take_plan k s = (r, s')"
  shows "r = Inr True \<and> within_plan p (snd (applied k s')) \<and> within_plan p s' \<or> r = Inr False \<and> s' = s"
proof (cases "left_of k (ij_plan s) \<le> 0")
  case True
  with assms(2) show ?thesis by (auto simp: take_plan_def take_fault_cases)
next
  case False
  with assms(2) have r: "r = Inr True" and s': "s' = s\<lparr>ij_plan := set_left k (left_of k (ij_plan s) - 1) (ij_plan s)\<rparr>"
    by (auto simp: take_plan_def take_fault_cases)
  have room: "int (count_list (ij_applied s) (bench_fault_value j)) + max 0 (left_of j (ij_plan s)) \<le> max 0 (left_of j p)" for j
    using assms(1) by (simp add: within_plan_def)
  have "within_plan p (snd (applied k s'))"
  proof (rule within_planI)
    fix j show "int (count_list (ij_applied (snd (applied k s'))) (bench_fault_value j)) +
        max 0 (left_of j (ij_plan (snd (applied k s')))) \<le> max 0 (left_of j p)"
      using room [of j] False by (cases "j = k") (auto simp: s' applied_def)
  qed
  moreover have "within_plan p s'"
  proof (rule within_planI)
    fix j show "int (count_list (ij_applied s') (bench_fault_value j)) + max 0 (left_of j (ij_plan s')) \<le> max 0 (left_of j p)"
      using room [of j] False by (cases "j = k") (auto simp: s')
  qed
  ultimately show ?thesis using r by blast
qed

lemma outside_within [keeps_intros]: "keeps (within_plan p) (outside m)"
  by (auto simp: keeps_def outside_def within_plan_def split: prod.split)

lemma pause_within [keeps_intros]: "keeps (within_plan p) (pause em t)"
  unfolding pause_def by (rule outside_within)

lemma applied_then: "then_act (applied k) m s = m (snd (applied k s))"
  by (simp add: applied_def)

lemma planned_within:
  assumes "keeps (within_plan p) m" "keeps (within_plan p) n" "within_plan p s"
  shows "within_plan p (snd (bind_act (take_plan k) (\<lambda>b. if b \<and> long then then_act (applied k) m else n) s))"
proof -
  obtain r s' where t: "take_plan k s = (r, s')" by fastforce
  from take_plan_room [OF assms(3) t] show ?thesis
  proof
    assume "r = Inr True \<and> within_plan p (snd (applied k s')) \<and> within_plan p s'"
    moreover from this have "within_plan p (snd (m (snd (applied k s'))))" "within_plan p (snd (n s'))"
      using keepsD [OF assms(1)] keepsD [OF assms(2)] by blast+
    ultimately show ?thesis by (simp add: applied_then t bind_act_def del: then_act_simp)
  next
    assume "r = Inr False \<and> s' = s"
    moreover from this have "within_plan p (snd (n s))" using keepsD [OF assms(2)] assms(3) by blast
    ultimately show ?thesis by (simp add: t bind_act_def del: then_act_simp)
  qed
qed

lemma wrong_sequence_within [keeps_intros]:
  "keeps (within_plan p) m \<Longrightarrow> keeps (within_plan p) n \<Longrightarrow>
    keeps (within_plan p) (bind_act (take_plan k) (\<lambda>b. if b \<and> long then then_act (applied k) m else n))"
  using planned_within unfolding keeps_def by blast

lemma when_planned_within [keeps_intros]:
  "keeps (within_plan p) m \<Longrightarrow> keeps (within_plan p) n \<Longrightarrow> keeps (within_plan p) (when_planned k m n)"
  using wrong_sequence_within [where long = True] by (simp add: when_planned_def)

lemma emit_one_within: "keeps (within_plan p) (emit_one em r)"
  unfolding emit_one_def Let_def
  by (intro keeps_intros keeps_read_each)

lemma apply_responses_within: "keeps (within_plan p) (apply_responses em rs)"
  by (induction rs) (simp_all only: apply_responses.simps keeps_return keeps_then emit_one_within)

interpretation plan: preserved "\<lambda>s rs. snd (apply_responses em rs s)" "within_plan p" for em :: "'w emitter" and p
  by unfold_locales (rule keepsD [OF apply_responses_within])

text \<open>
  A bench applies no fault more often than its plan names it, whatever frames the simulator sends, in however many
  exchanges, and even when the transport raises in the middle of one.
\<close>

theorem faults_stay_within_plan:
  assumes "fp_remaining p = []"
  shows "count_list (ij_applied (foldl (\<lambda>s rs. snd (apply_responses em rs s))
      \<lparr>ij_plan = post_init p, ij_applied = [], ij_world = w\<rparr> batches)) (bench_fault_value k) \<le> count_list (fp_kinds p) k"
proof -
  define s0 where "s0 = \<lparr>ij_plan = post_init p, ij_applied = [], ij_world = w\<rparr>"
  define s where "s = foldl (\<lambda>s rs. snd (apply_responses em rs s)) s0 batches"
  have "within_plan (post_init p) s0" by (simp add: within_plan_def s0_def)
  from plan.run_preserves [OF this, of em batches] have "within_plan (post_init p) s" by (simp add: s_def)
  then have "int (count_list (ij_applied s) (bench_fault_value k)) + max 0 (left_of k (ij_plan s)) \<le>
      max 0 (left_of k (post_init p))" by (simp add: within_plan_def)
  then show ?thesis by (simp add: post_init_counts [OF assms] s_def s0_def)
qed

definition quiet_line :: "unit emitter" where
  "quiet_line = \<lparr>em_write = (\<lambda>bs. return_act ()), em_drain = return_act (), em_sleep = (\<lambda>t w. w), em_noise = (\<lambda>n w. [])\<rparr>"

theorem faults_stay_within_plan_witness:
  "count_list (ij_applied (foldl (\<lambda>s rs. snd (apply_responses quiet_line rs s))
      \<lparr>ij_plan = post_init \<lparr>fp_kinds = [NAK_RESPONSE], fp_delay_ms = 50, fp_offline = [], fp_remaining = []\<rparr>,
       ij_applied = [], ij_world = ()\<rparr> [[[1, 0x70, 0xFA]], [[1, 0x70, 0xFA]]])) (bench_fault_value NAK_RESPONSE) \<le> 1"
  using faults_stay_within_plan [of "\<lparr>fp_kinds = [NAK_RESPONSE], fp_delay_ms = 50, fp_offline = [], fp_remaining = []\<rparr>"
      quiet_line "()" "[[[1, 0x70, 0xFA]], [[1, 0x70, 0xFA]]]" NAK_RESPONSE] by simp

section \<open>Without a plan\<close>

fun send_all :: "'w emitter \<Rightarrow> bytes list \<Rightarrow> ('w, unit) action" where
  "send_all em [] = return_act ()"
| "send_all em (r # rs) = then_act (emit em r) (send_all em rs)"

definition exhausted :: "bench_fault_plan \<Rightarrow> bool" where
  "exhausted p \<longleftrightarrow> (\<forall>k. left_of k p \<le> 0)"

lemma take_exhausted: "exhausted (ij_plan s) \<Longrightarrow> take_plan k s = (Inr False, s)"
  by (simp add: take_plan_def take_fault_cases exhausted_def)

lemma emit_one_exhausted: "exhausted (ij_plan s) \<Longrightarrow> emit_one em r s = outside (emit em r) s"
  by (simp add: emit_one_def when_planned_def bind_act_def take_exhausted)

lemma outside_then: "then_act (outside m) (outside n) s = outside (then_act m n) s"
  by (simp add: outside_def split: prod.split sum.split)

lemma apply_exhausted: "exhausted (ij_plan s) \<Longrightarrow> apply_responses em rs s = outside (send_all em rs) s"
proof (induction rs arbitrary: s)
  case (Cons r rs)
  obtain x w where m: "emit em r (ij_world s) = (x, w)" by fastforce
  have "exhausted (ij_plan (s\<lparr>ij_world := w\<rparr>))" using Cons.prems by simp
  from Cons.IH [OF this] Cons.prems m show ?case
    by (cases x) (simp_all add: emit_one_exhausted outside_def)
qed (simp add: outside_def)

section \<open>What the faults do to a frame\<close>

text \<open>A change of the control byte of a frame whose address is not SF changes that byte of the buffer and nothing else.\<close>

lemma change_control:
  assumes "x \<noteq> SF" "c \<noteq> SF" "c' \<noteq> SF"
  shows "(escape_dle (x # c # rest) @ [SF])[1 := c'] = escape_dle (x # c' # rest) @ [SF]"
  using assms by simp

lemma data_control_flipped:
  assumes "compose_control CtDATA s = Inr c"
  shows "byte_of_int c \<noteq> SF \<and> byte_of_int c XOR 0x0F \<noteq> SF \<and> byte_of_int c XOR 0x0F \<noteq> byte_of_int c \<and>
    classify_byte (byte_of_int c XOR 0x0F) = CtDATA"
proof -
  have rng: "0 \<le> s" "s \<le> 15" and c: "c = 0x30 OR s" using assms by (auto simp: compose_control_def DATA_BASE_def split: if_splits)
  show ?thesis
    using rng unfolding c
    by (rule sequence_cases; simp add: classify_byte_def classify_control_def line_consts Let_def)
qed

lemma byte_not_SF: "0 \<le> a \<Longrightarrow> a \<le> 255 \<Longrightarrow> a \<noteq> 0xFA \<Longrightarrow> byte_of_int a \<noteq> SF"
  using byte_of_int_inj [of a "0xFA"] by (simp add: SF_def)

lemma wrong_sequence_flagged:
  assumes sent: "build_data_frame a s p None k = Inr wire" and a: "a \<noteq> 0xFA"
  shows "\<exists>f. parse_frame (wrong_sequence wire) None k = Inr f \<and> lf_crc_valid f = Some False \<and> lf_control_type f = CtDATA"
proof -
  note ok = build_data_frame_Inr_guards [OF sent]
  obtain c lo hi where c: "compose_control CtDATA s = Inr c"
    and w: "build_data_frame a s p None k =
      Inr (escape_dle ([byte_of_int a, byte_of_int c] @ p @ [lo, hi, ETX]) @ [SF])"
    using build_data_frame_Inr [of a s p k] ok by metis
  define x y y' where "x = byte_of_int a" and "y = byte_of_int c" and "y' = byte_of_int c XOR 0x0F"
  have facts: "x \<noteq> SF" "y \<noteq> SF" "y' \<noteq> SF" "y' \<noteq> y" "classify_byte y' = CtDATA"
    using byte_not_SF ok a data_control_flipped [OF c] by (simp_all add: x_def y_def y'_def)
  have wire: "wire = escape_dle (x # y # p @ [lo, hi, ETX]) @ [SF]" using w sent by (simp add: x_def y_def)
  have "wire ! 1 XOR 0x0F = y'" using facts by (simp add: wire y_def y'_def)
  then have bad: "wrong_sequence wire = escape_dle ([x, y'] @ p @ [lo, hi, ETX]) @ [SF]"
    unfolding wrong_sequence_def using change_control [OF facts(1-3), of "p @ [lo, hi, ETX]"] by (simp only: wire) simp
  have "build_data_frame a s p None k = Inr (escape_dle ([] @ [x, y] @ p @ [lo, hi, ETX]) @ [SF])"
    using w by (simp add: x_def y_def)
  moreover have "(x, y) \<noteq> (x, y')" using facts by simp
  ultimately obtain f where f: "parse_frame (wrong_sequence wire) None k = Inr f" "lf_crc_valid f = Some False"
    using damage_is_flagged [of a s p k "[]" x y p lo hi x y'] by (auto simp del: escape_dle.simps simp: bad)
  moreover have "parse_frame (wrong_sequence wire) None k =
      parse_buffer (wrong_sequence wire) ([x, y'] @ p @ [lo, hi, ETX]) None k"
    unfolding bad by (rule parse_frame_escaped) simp_all
  then have "lf_control_type f = CtDATA"
    using f(1) ok facts(5) parse_data_buffer [of p "wrong_sequence wire" x y' lo hi k] by auto
  ultimately show ?thesis by blast
qed

text \<open>
  The fault WRONG_SEQUENCE never shows the controller a wrong sequence number: it changes the control byte and leaves the
  checksum, so that a DATA frame arrives with an invalid checksum. The session counts a checksum error, its count of
  sequence errors stays, and nothing else of what it knows of the pump changes.
\<close>

theorem wrong_sequence_is_a_crc_error:
  assumes "build_data_frame a s p None k = Inr wire" "a \<noteq> 0xFA"
  shows "\<exists>f. parse_frame (wrong_sequence wire) None k = Inr f \<and> lf_crc_valid f = Some False \<and>
    (\<forall>now ses. session_core (snd (handle_response_frame now f ses)) = session_core ses \<and>
       st_sequence_error_count (cs_stats (snd (handle_response_frame now f ses))) = st_sequence_error_count (cs_stats ses))"
proof -
  obtain f where f: "parse_frame (wrong_sequence wire) None k = Inr f" "lf_crc_valid f = Some False" "lf_control_type f = CtDATA"
    using wrong_sequence_flagged [OF assms] by blast
  have "session_core (snd (handle_response_frame now f ses)) = session_core ses" for now ses
    using stale_data_keeps_core [OF f(3), of ses now] f(2) by (simp add: is_fresh_def same_core_def)
  moreover have "st_sequence_error_count (cs_stats (snd (handle_response_frame now f ses))) = st_sequence_error_count (cs_stats ses)"
    for now ses
    using f(2,3) by (auto simp: handle_response_frame_def on_data_def reject_data_def publish_event_def set_error_def count_stat_def
        split: prod.split sum.split)
  ultimately show ?thesis using f by blast
qed

theorem wrong_sequence_is_a_crc_error_witness:
  "\<exists>f. parse_frame (wrong_sequence [0x01, 0x30, 0x01, 0x01, 0x05, 0xA2, 0x93, 0x03, 0xFA]) None DART_IBM_ANSI_INIT_0000 = Inr f \<and>
    lf_crc_valid f = Some False \<and>
    (\<forall>now ses. session_core (snd (handle_response_frame now f ses)) = session_core ses \<and>
       st_sequence_error_count (cs_stats (snd (handle_response_frame now f ses))) = st_sequence_error_count (cs_stats ses))"
proof -
  have crc: "get_crc_fn DART_IBM_ANSI_INIT_0000 [0x01, 0x30, 0x01, 0x01, 0x05] = 0x93A2" by (simp add: crc_eval)
  have "compose_control CtDATA 0 = Inr 0x30" by (simp add: compose_control_def DATA_BASE_def)
  moreover have "crc_bytes_le 0x93A2 = Inr [0xA2, 0x93]" by (simp add: crc_bytes_le_def)
  ultimately have "build_data_frame 1 0 [0x01, 0x01, 0x05] None DART_IBM_ANSI_INIT_0000 =
      Inr [0x01, 0x30, 0x01, 0x01, 0x05, 0xA2, 0x93, 0x03, 0xFA]"
    by (simp add: build_data_frame_def validate_address_def select_crc_def crc MAX_BUFFER_SIZE_def line_consts
        del: get_crc_fn.simps)
  from wrong_sequence_is_a_crc_error [OF this] show ?thesis by simp
qed

lemma control_masked:
  assumes "compose_control ct s = Inr c" "ct = CtDATA \<or> ct = CtEOT \<or> ct = CtACK"
  shows "byte_of_int c \<noteq> SF \<and> (byte_of_int c AND 0xF0) OR 0x05 \<noteq> SF \<and> (byte_of_int c AND 0xF0) OR 0x05 \<noteq> DLE \<and>
    classify_byte ((byte_of_int c AND 0xF0) OR 0x05) = ct \<and> sequence_of_byte ((byte_of_int c AND 0xF0) OR 0x05) = 5"
proof -
  have rng: "0 \<le> s" "s \<le> 15" using assms by (auto simp: compose_control_def split: if_splits)
  have masked: "(byte_of_int (b OR s) AND 0xF0) OR 0x05 = byte_of_int b OR 0x05 \<and> byte_of_int (b OR s) \<noteq> SF"
    if "b \<in> {0x30, 0x70, 0xC0}" for b :: int
    using rng by (rule sequence_cases; use that in \<open>elim insertE emptyE; simp add: line_consts\<close>)
  show ?thesis
    using assms(2)
  proof (elim disjE)
    assume "ct = CtDATA"
    moreover from this have "c = 0x30 OR s" using assms by (auto simp: compose_control_def line_consts split: if_splits)
    ultimately show ?thesis using masked [of "0x30"]
      by (simp add: classify_byte_def classify_control_def sequence_of_byte_def extract_sequence_def line_consts Let_def)
  next
    assume "ct = CtEOT"
    moreover from this have "c = 0x70 OR s" using assms by (auto simp: compose_control_def line_consts split: if_splits)
    ultimately show ?thesis using masked [of "0x70"]
      by (simp add: classify_byte_def classify_control_def sequence_of_byte_def extract_sequence_def line_consts Let_def)
  next
    assume "ct = CtACK"
    moreover from this have "c = 0xC0 OR s" using assms by (auto simp: compose_control_def line_consts split: if_splits)
    ultimately show ?thesis using masked [of "0xC0"]
      by (simp add: classify_byte_def classify_control_def sequence_of_byte_def extract_sequence_def line_consts Let_def)
  qed
qed

lemma nak_response_of:
  assumes "x \<noteq> SF" "y \<noteq> SF" "(y AND 0xF0) OR 0x05 \<noteq> SF"
  shows "nak_response (escape_dle (x # y # rest) @ [SF]) = escape_dle (x # ((y AND 0xF0) OR 0x05) # rest) @ [SF]"
  using assms by (simp add: nak_response_def)

lemma masked_data_frame:
  assumes sent: "build_data_frame a s p None k = Inr wire" and a: "a \<noteq> 0xFA"
  shows "\<exists>f. parse_frame (nak_response wire) None k = Inr f \<and> lf_control_type f = CtDATA \<and> lf_sequence f = 5"
proof -
  note ok = build_data_frame_Inr_guards [OF sent]
  obtain c lo hi where c: "compose_control CtDATA s = Inr c"
    and w: "build_data_frame a s p None k =
      Inr (escape_dle ([byte_of_int a, byte_of_int c] @ p @ [lo, hi, ETX]) @ [SF])"
    using build_data_frame_Inr [of a s p k] ok by metis
  define x y' where "x = byte_of_int a" and "y' = (byte_of_int c AND 0xF0) OR 0x05"
  note facts = control_masked [OF c, folded y'_def, simplified]
  have x: "x \<noteq> SF" using byte_not_SF ok a by (simp add: x_def)
  have bad: "nak_response wire = escape_dle ([x, y'] @ p @ [lo, hi, ETX]) @ [SF]"
    using w sent nak_response_of [OF x, where y = "byte_of_int c" and rest = "p @ [lo, hi, ETX]", folded y'_def] facts
    by (simp add: x_def del: escape_dle.simps)
  have "parse_frame (nak_response wire) None k = parse_buffer (nak_response wire) ([x, y'] @ p @ [lo, hi, ETX]) None k"
    unfolding bad by (rule parse_frame_escaped) simp_all
  then show ?thesis using ok facts parse_data_buffer [of p "nak_response wire" x y' lo hi k] by auto
qed

lemma masked_control_frame:
  assumes sent: "build_control_frame a ct s = Inr wire" and a: "a \<noteq> 0xFA" and ct: "ct = CtEOT \<or> ct = CtACK"
  shows "\<exists>f. parse_frame (nak_response wire) fn k = Inr f \<and> lf_control_type f = ct \<and> lf_sequence f = 5"
proof -
  obtain c where c: "compose_control ct s = Inr c" and wire: "wire = escape_dle [byte_of_int a, byte_of_int c] @ [SF]"
    and rng: "0 \<le> a" "a \<le> 255"
    using sent by (auto simp: build_control_frame_def bind_result_Inr_iff validate_address_def Let_def
        simp del: escape_dle.simps split: if_splits)
  define x y' where "x = byte_of_int a" and "y' = (byte_of_int c AND 0xF0) OR 0x05"
  have facts: "byte_of_int c \<noteq> SF" "y' \<noteq> SF" "y' \<noteq> DLE" "classify_byte y' = ct" "sequence_of_byte y' = 5"
    using control_masked [OF c] ct by (auto simp: y'_def)
  have x: "x \<noteq> SF" using byte_not_SF rng a by (simp add: x_def)
  have bad: "nak_response wire = escape_dle [x, y'] @ [SF]"
    using nak_response_of [OF x, where y = "byte_of_int c" and rest = "[]", folded y'_def] facts
    by (simp add: wire x_def del: escape_dle.simps)
  have "parse_frame (nak_response wire) fn k = parse_buffer (nak_response wire) [x, y'] fn k"
    unfolding bad by (rule parse_frame_escaped) (simp_all add: facts)
  then show ?thesis using facts ct by (auto simp: parse_buffer_def MAX_BUFFER_SIZE_def Let_def)
qed

text \<open>
  The fault NAK never sends a NAK: it changes the sequence number in the low half of the control byte, not the type in the
  high half. Whatever a pump answers (DATA, EOT or ACK) is parsed as a frame of the same type with the sequence number 5.
\<close>

theorem nak_fault_sends_no_nak:
  assumes "build_data_frame a s p None k = Inr wire \<or> build_eot a s = Inr wire \<or> build_ack a s = Inr wire" "a \<noteq> 0xFA"
  shows "\<exists>f. parse_frame (nak_response wire) None k = Inr f \<and> lf_control_type f \<noteq> CtNAK \<and> lf_sequence f = 5"
  using assms(1)
proof (elim disjE)
  assume "build_data_frame a s p None k = Inr wire"
  from masked_data_frame [OF this assms(2)] show ?thesis by auto
next
  assume "build_eot a s = Inr wire"
  then have "build_control_frame a CtEOT s = Inr wire" by (simp add: build_eot_def)
  from masked_control_frame [OF this assms(2), where fn = None and k = k] show ?thesis by auto
next
  assume "build_ack a s = Inr wire"
  then have "build_control_frame a CtACK s = Inr wire" by (simp add: build_ack_def)
  from masked_control_frame [OF this assms(2), where fn = None and k = k] show ?thesis by auto
qed

theorem nak_fault_sends_no_nak_witness:
  "\<exists>f. parse_frame (nak_response [0x01, 0xC3, 0xFA]) None DART_IBM_ANSI_INIT_0000 = Inr f \<and> lf_control_type f \<noteq> CtNAK \<and>
    lf_sequence f = 5"
proof -
  have "build_ack 1 3 = Inr [0x01, 0xC3, 0xFA]"
    by (simp add: build_ack_def build_control_frame_def validate_address_def compose_control_def line_consts)
  then show ?thesis using nak_fault_sends_no_nak [of 1 3 "[]" DART_IBM_ANSI_INIT_0000 "[0x01, 0xC3, 0xFA]"] by simp
qed

text \<open>The fault DLE_SF_SPLIT is invisible: the assembler gives the same events for a frame in two parts as for the whole.\<close>

lemma split_is_invisible:
  "fst (split_dle_sf_chunks frame) @ snd (split_dle_sf_chunks frame) = frame"
  by (simp add: split_dle_sf_chunks_def Let_def)

end
