(* ===== verification/Sim_Bridge.thy ===== *)
theory Sim_Bridge
  imports Bench_Faults Line_Stream
begin

text \<open>
  \<open>simulator/serial_bridge.py\<close>: the virtual dispenser behind a byte transport. The bridge reads chunks, cuts them into
  frames, answers each frame, with faults when it has an injector, and lets simulated time pass. Transport, pauses and
  the stop flag are the environment; passes of the loop are counted by fuel.
\<close>

section \<open>State\<close>

record bridge_config =
  bc_read_chunk_size :: int
  bc_idle_sleep_ms :: rat
  bc_sim_time_step_ms :: int
  bc_cold_start_on_open :: bool

definition default_bridge_config :: bridge_config where
  "default_bridge_config = \<lparr>bc_read_chunk_size = 256, bc_idle_sleep_ms = 5, bc_sim_time_step_ms = 50, bc_cold_start_on_open = True\<rparr>"

record 'w bridge_line = "'w emitter" +
  bl_open :: "('w, unit) action"
  bl_close :: "('w, unit) action"
  bl_read :: "int \<Rightarrow> ('w, bytes) action"
  bl_stop :: "'w \<Rightarrow> bool"

record 'w serial_bridge =
  bg_simulator :: sim_session
  bg_config :: bridge_config
  bg_assembler :: assembler
  bg_faults :: "(bench_fault_plan \<times> string list) option"
  bg_world :: 'w

definition new_serial_bridge ::
  "simulator_config \<Rightarrow> bridge_config \<Rightarrow> (bench_fault_plan \<times> string list) option \<Rightarrow> 'w \<Rightarrow> 'w serial_bridge" where
  "new_serial_bridge sim cfg faults w =
    \<lparr>bg_simulator = new_session sim, bg_config = cfg, bg_assembler = default_assembler, bg_faults = faults, bg_world = w\<rparr>"

definition with_simulator :: "(sim_session, 'a) action \<Rightarrow> ('w serial_bridge, 'a) action" where
  "with_simulator m b = (case m (bg_simulator b) of (r, s) \<Rightarrow> (r, b\<lparr>bg_simulator := s\<rparr>))"

definition on_line :: "('w, 'a) action \<Rightarrow> ('w serial_bridge, 'a) action" where
  "on_line m b = (case m (bg_world b) of (r, w) \<Rightarrow> (r, b\<lparr>bg_world := w\<rparr>))"

definition with_injector :: "('w injector, unit) action \<Rightarrow> bench_fault_plan \<Rightarrow> string list \<Rightarrow> ('w serial_bridge, unit) action" where
  "with_injector m plan did b =
    (case m \<lparr>ij_plan = plan, ij_applied = did, ij_world = bg_world b\<rparr> of
       (r, s) \<Rightarrow> (r, b\<lparr>bg_faults := Some (ij_plan s, ij_applied s), bg_world := ij_world s\<rparr>))"

section \<open>Frames\<close>

definition handle_frame :: "(int \<Rightarrow> nat \<Rightarrow> string) \<Rightarrow> 'w bridge_line \<Rightarrow> bytes \<Rightarrow> ('w serial_bridge, unit) action" where
  "handle_frame fresh line raw =
    bind_act (with_simulator (receive fresh raw)) (\<lambda>result. read_act (\<lambda>b.
      case bg_faults b of
        Some (plan, did) \<Rightarrow> with_injector (apply_responses (emitter.truncate line) (xr_responses result)) plan did
      | None \<Rightarrow> on_line (send_all (emitter.truncate line) (xr_responses result))))"

fun handle_events :: "(int \<Rightarrow> nat \<Rightarrow> string) \<Rightarrow> 'w bridge_line \<Rightarrow> assembler_event list \<Rightarrow> ('w serial_bridge, unit) action" where
  "handle_events fresh line [] = return_act ()"
| "handle_events fresh line (e # es) =
    then_act (if ae_kind e = AeFRAME \<and> ae_frame e \<noteq> None then handle_frame fresh line (ae_raw e) else return_act ())
      (handle_events fresh line es)"

definition feed_bridge :: "bytes \<Rightarrow> ('w serial_bridge, assembler_event list) action" where
  "feed_bridge chunk b = (case feed (bg_assembler b) chunk of (a, es) \<Rightarrow> (Inr es, b\<lparr>bg_assembler := a\<rparr>))"

section \<open>Starting again\<close>

definition pump_addresses :: "sim_session \<Rightarrow> int list" where
  "pump_addresses s = map fst (ss_pumps s)"

fun each_pump :: "(sim_pump, unit) action \<Rightarrow> int list \<Rightarrow> (sim_session, unit) action" where
  "each_pump m [] = return_act ()"
| "each_pump m (a # as) = then_act (on_pump a m) (each_pump m as)"

definition soft_restart :: "('w serial_bridge, unit) action" where
  "soft_restart =
    then_act (modify_act (\<lambda>b. b\<lparr>bg_assembler := default_assembler\<rparr>))
      (with_simulator (read_act (\<lambda>s. each_pump
        (then_act (modify_act (\<lambda>p. p\<lparr>sp_communication_enabled := False\<rparr>)) cold_start_to_ready) (pump_addresses s))))"

definition start_pumps :: "('w serial_bridge, unit) action" where
  "start_pumps = read_act (\<lambda>b.
    if bc_cold_start_on_open (bg_config b)
    then with_simulator (read_act (\<lambda>s. each_pump
      (read_act (\<lambda>p. if \<not> sp_communication_enabled p then cold_start_to_ready else return_act ())) (pump_addresses s)))
    else return_act ())"

section \<open>The loop\<close>

definition bridge_pass :: "(int \<Rightarrow> nat \<Rightarrow> string) \<Rightarrow> 'w bridge_line \<Rightarrow> ('w serial_bridge, unit) action" where
  "bridge_pass fresh line = read_act (\<lambda>b.
    bind_act (on_line (bl_read line (bc_read_chunk_size (bg_config b)))) (\<lambda>chunk.
      then_act
        (if chunk \<noteq> [] then bind_act (feed_bridge chunk) (handle_events fresh line)
         else on_line (modify_act (em_sleep line (bc_idle_sleep_ms (bg_config b) / 1000))))
        (with_simulator (advance (bc_sim_time_step_ms (bg_config b))))))"

fun bridge_loop :: "(int \<Rightarrow> nat \<Rightarrow> string) \<Rightarrow> 'w bridge_line \<Rightarrow> nat \<Rightarrow> 'w serial_bridge \<Rightarrow> (unit result \<times> 'w serial_bridge) option" where
  "bridge_loop fresh line 0 b = None"
| "bridge_loop fresh line (Suc n) b =
    (if bl_stop line (bg_world b) then Some (Inr (), b)
     else case bridge_pass fresh line b of
         (Inl e, b1) \<Rightarrow> Some (Inl e, b1)
       | (Inr u, b1) \<Rightarrow> bridge_loop fresh line n b1)"

definition close_bridge :: "'w bridge_line \<Rightarrow> unit result \<times> 'w serial_bridge \<Rightarrow> unit result \<times> 'w serial_bridge" where
  "close_bridge line rb = (case on_line (bl_close line) (snd rb) of (Inl e, b) \<Rightarrow> (Inl e, b) | (Inr u, b) \<Rightarrow> (fst rb, b))"

definition run_bridge :: "(int \<Rightarrow> nat \<Rightarrow> string) \<Rightarrow> 'w bridge_line \<Rightarrow> nat \<Rightarrow> 'w serial_bridge \<Rightarrow> (unit result \<times> 'w serial_bridge) option" where
  "run_bridge fresh line fuel b =
    (case then_act (on_line (bl_open line)) start_pumps b of
       (Inl e, b1) \<Rightarrow> Some (Inl e, b1)
     | (Inr u, b1) \<Rightarrow> map_option (close_bridge line) (bridge_loop fresh line fuel b1))"

section \<open>What a bridge keeps of its pumps\<close>

definition every_pump :: "(sim_pump \<Rightarrow> bool) \<Rightarrow> sim_session \<Rightarrow> bool" where
  "every_pump P s \<longleftrightarrow> (\<forall>p \<in> snd ` set (ss_pumps s). P p)"

lemma every_pump_update: "every_pump P s \<Longrightarrow> P p \<Longrightarrow> every_pump P (s\<lparr>ss_pumps := AList.update a p (ss_pumps s)\<rparr>)"
proof -
  have "snd ` set (AList.update a p xs) \<subseteq> insert p (snd ` set xs)" for xs :: "(int \<times> sim_pump) list"
    by (induction xs) auto
  then show "every_pump P s \<Longrightarrow> P p \<Longrightarrow> ?thesis" by (fastforce simp: every_pump_def)
qed

lemma every_pump_at: "every_pump P s \<Longrightarrow> map_of (ss_pumps s) a = Some p \<Longrightarrow> P p"
  by (force simp: every_pump_def dest: map_of_SomeD)

lemma keeps_on_pump [keeps_intros]: "keeps P m \<Longrightarrow> keeps (every_pump P) (on_pump a m)"
  unfolding keeps_def
proof (intro allI impI)
  fix s assume m: "\<forall>p. P p \<longrightarrow> P (snd (m p))" and s: "every_pump P s"
  show "every_pump P (snd (on_pump a m s))"
  proof (cases "map_of (ss_pumps s) a")
    case (Some p)
    with m every_pump_at [OF s] have "P (snd (m p))" by blast
    with every_pump_update [OF s] Some show ?thesis by (cases "m p") (simp add: on_pump_def)
  qed (use s in \<open>simp add: on_pump_def\<close>)
qed

lemma every_pump_fields [simp]:
  "every_pump P (s\<lparr>ss_faults := x\<rparr>) = every_pump P s" "every_pump P (s\<lparr>ss_notes := y\<rparr>) = every_pump P s"
  "every_pump P (s\<lparr>ss_now := z\<rparr>) = every_pump P s"
  by (simp_all add: every_pump_def)

lemma keeps_record [keeps_intros]: "keeps (every_pump P) (record_faults fs)" "keeps (every_pump P) (record_note n)"
  unfolding record_faults_def record_note_def by (intro keeps_intros; simp)+

lemma keeps_with_pump: "keeps P m \<Longrightarrow> keeps (every_pump P) (with_pump a m)"
  unfolding with_pump_def by (intro keeps_intros)

text \<open>
  The operations of the session are built from four that change a pump: the answer to a poll, to an ACK and to DATA, and
  the passing of time. What these and a restart of the protocol keep, every session keeps.
\<close>

locale pump_invariant =
  fixes P :: "sim_pump \<Rightarrow> bool"
  assumes poll: "keeps P (pump_on_poll now)"
    and ack: "keeps P (pump_on_ack policy now f)"
    and data: "keeps P (pump_on_data fresh cfg now f)"
    and time: "keeps P (advance_pump timeout now)"
    and restart: "P p \<Longrightarrow> P (reset_protocol_sequences p)"
    and cold: "keeps P cold_start_to_ready"
    and disconnect: "P p \<Longrightarrow> P (p\<lparr>sp_communication_enabled := False\<rparr>)"
begin

lemma receive_keeps: "keeps (every_pump P) (receive fresh raw)"
  unfolding receive_def Let_def
proof (rule keeps_read_each)
  fix s
  show "keeps (every_pump P) (case parse_frame raw None DEFAULT_CRC_CANDIDATE of
      Inl err \<Rightarrow> then_act (record_faults [\<lparr>pf_kind = Fault_MALFORMED_FRAME, pf_message = Frame_not_parsed (pe_message err),
          pf_address = None, pf_sequence = None, pf_raw = Some raw, pf_at_ms = ss_now s\<rparr>]) (return_act (exchange []
          [\<lparr>pf_kind = Fault_MALFORMED_FRAME, pf_message = Frame_not_parsed (pe_message err), pf_address = None,
            pf_sequence = None, pf_raw = Some raw, pf_at_ms = ss_now s\<rparr>] []))
    | Inr frame \<Rightarrow> (case map_of (ss_pumps s) (lf_address frame) of
        None \<Rightarrow> then_act (record_faults [line_fault Fault_UNKNOWN_ADDRESS (No_pump_at_address (lf_address frame))
            (lf_address frame) None (Some raw) (ss_now s)]) (return_act (exchange []
            [line_fault Fault_UNKNOWN_ADDRESS (No_pump_at_address (lf_address frame)) (lf_address frame) None
              (Some raw) (ss_now s)] []))
      | Some p \<Rightarrow> if \<not> sp_communication_enabled p
          then then_act (record_note (Communication_disabled_note (lf_address frame)))
            (return_act (exchange [] [] [Communication_disabled_note (lf_address frame)]))
          else (case lf_control_type frame of
              CtPOLL \<Rightarrow> with_pump (lf_address frame) (pump_on_poll (ss_now s))
            | CtDATA \<Rightarrow> with_pump (lf_address frame)
                (pump_on_data (fresh (lf_address frame)) (ss_config s) (ss_now s) frame)
            | CtACK \<Rightarrow> with_pump (lf_address frame) (pump_on_ack (sc_policy (ss_config s)) (ss_now s) frame)
            | CtNAK \<Rightarrow> then_act (record_note (Nak_retransmit_note (lf_sequence frame)))
                (return_act (exchange [] [] [Nak_retransmit_note (lf_sequence frame)]))
            | CtIAP \<Rightarrow> then_act (on_pump (lf_address frame) (modify_act reset_protocol_sequences))
                (then_act (record_note Iap_restart_note) (return_act (exchange [] [] [Iap_restart_note])))
            | ct \<Rightarrow> then_act (record_note (Ignored_control_note ct))
                (return_act (exchange [] [] [Ignored_control_note ct])))))"
    by (auto split: sum.split option.split control_type.split
        intro!: keeps_intros keeps_with_pump poll ack data restart simp del: then_act_simp)
qed

lemma advance_pumps_keeps: "keeps (every_pump P) (advance_pumps as)"
  by (induction as) (simp_all only: advance_pumps.simps keeps_return,
    (intro keeps_read_each keeps_intros time; assumption)+)

lemma advance_keeps: "keeps (every_pump P) (advance ms)"
  unfolding advance_def advance_clock_def
  by (intro keeps_intros keeps_read_each advance_pumps_keeps) simp

lemma each_pump_keeps: "keeps P m \<Longrightarrow> keeps (every_pump P) (each_pump m as)"
  by (induction as) (simp_all only: each_pump.simps keeps_return keeps_then keeps_on_pump)

definition bridge_ok :: "'w serial_bridge \<Rightarrow> bool" where
  "bridge_ok b \<longleftrightarrow> every_pump P (bg_simulator b)"

lemma with_simulator_keeps: "keeps (every_pump P) m \<Longrightarrow> keeps bridge_ok (with_simulator m)"
  by (auto simp: keeps_def with_simulator_def bridge_ok_def split: prod.split)

lemma line_keeps: "keeps bridge_ok (on_line m)" "keeps bridge_ok (with_injector i plan did)" "keeps bridge_ok (feed_bridge c)"
  by (auto simp: keeps_def on_line_def with_injector_def feed_bridge_def bridge_ok_def split: prod.split)

lemma handle_frame_keeps: "keeps bridge_ok (handle_frame fresh line raw)"
  unfolding handle_frame_def
  by (intro keeps_bind keeps_read_each with_simulator_keeps receive_keeps) (auto split: option.split intro!: line_keeps)

lemma handle_events_keeps: "keeps bridge_ok (handle_events fresh line es)"
  by (induction es) (simp_all only: handle_events.simps keeps_return keeps_then keeps_if handle_frame_keeps)

lemma bridge_pass_keeps: "keeps bridge_ok (bridge_pass fresh line)"
  unfolding bridge_pass_def
  by (intro keeps_read_each keeps_bind keeps_then keeps_if line_keeps handle_events_keeps with_simulator_keeps advance_keeps)

lemma start_pumps_keeps: "keeps bridge_ok start_pumps"
  unfolding start_pumps_def
  by (intro keeps_read_each keeps_if keeps_return with_simulator_keeps each_pump_keeps cold)

lemma soft_restart_keeps: "keeps bridge_ok soft_restart"
proof -
  have k: "keeps P (then_act (modify_act (\<lambda>p. p\<lparr>sp_communication_enabled := False\<rparr>)) cold_start_to_ready)"
    by (intro keeps_intros disconnect cold)
  show ?thesis
    unfolding soft_restart_def
    by (intro keeps_then [OF keeps_modify] keeps_read_each with_simulator_keeps each_pump_keeps [OF k])
      (simp add: bridge_ok_def)
qed

lemma bridge_loop_keeps: "bridge_ok b \<Longrightarrow> bridge_loop fresh line n b = Some (r, b') \<Longrightarrow> bridge_ok b'"
proof (induction n arbitrary: b)
  case (Suc n)
  have "bridge_ok (snd (bridge_pass fresh line b))" using keepsD [OF bridge_pass_keeps] Suc.prems(1) by blast
  with Suc show ?case by (auto split: if_splits prod.splits sum.splits)
qed simp

lemma run_bridge_keeps:
  assumes "bridge_ok b" "run_bridge fresh line fuel b = Some (r, b')" shows "bridge_ok b'"
proof -
  have "keeps bridge_ok (then_act (on_line (bl_open line)) start_pumps)"
    by (intro keeps_then line_keeps start_pumps_keeps)
  from keepsD [OF this assms(1)] have started: "bridge_ok (snd (then_act (on_line (bl_open line)) start_pumps b))" .
  have closed: "bridge_ok (snd (on_line (bl_close line) b2))" if "bridge_ok b2" for b2
    using keepsD [OF line_keeps(1) that] .
  show ?thesis
  proof (cases "then_act (on_line (bl_open line)) start_pumps b")
    case (Pair x b1)
    with started have b1: "bridge_ok b1" by simp
    show ?thesis
    proof (cases x)
      case (Inr u)
      with assms(2) Pair obtain rb where rb: "bridge_loop fresh line fuel b1 = Some rb" "(r, b') = close_bridge line rb"
        by (auto simp: run_bridge_def simp del: then_act_simp)
      then have "bridge_ok (snd rb)" using bridge_loop_keeps [OF b1] by (metis prod.collapse)
      from closed [OF this] rb(2) show ?thesis by (auto simp: close_bridge_def split: prod.splits sum.splits)
    qed (use assms(2) Pair b1 in \<open>simp add: run_bridge_def del: then_act_simp\<close>)
  qed
qed

end

section \<open>Fuel behind a bridge\<close>

lemma flow_line_fields [simp]:
  "flow_safe (p\<lparr>sp_tx_sequence := x1\<rparr>) = flow_safe p" "flow_safe (p\<lparr>sp_awaiting_ack := x2\<rparr>) = flow_safe p"
  "flow_safe (p\<lparr>sp_data_pending_since := x3\<rparr>) = flow_safe p" "flow_safe (p\<lparr>sp_last_wire := x4\<rparr>) = flow_safe p"
  "flow_safe (p\<lparr>sp_last_accepted := x5\<rparr>) = flow_safe p" "flow_safe (p\<lparr>sp_expected_sequence := x6\<rparr>) = flow_safe p"
  by (simp_all add: flow_safe_def)

lemma popped_flow: "pop_pending_payload p = (x, p') \<Longrightarrow> flow_safe p' = flow_safe p"
  by (auto simp: pop_pending_payload_def split: list.splits)

lemma flow_poll: "keeps flow_safe (pump_on_poll now)"
  unfolding pump_on_poll_def Let_def
  by (intro keeps_read) (auto simp: bind_act_def popped_flow split: option.split prod.split sum.split)

lemma flow_ack: "keeps flow_safe (pump_on_ack policy now f)"
  unfolding pump_on_ack_def
  by (intro keeps_read) (auto simp: bind_act_def split: option.split sum.split)

lemma flow_data: "keeps flow_safe (pump_on_data fresh cfg now f)"
  unfolding pump_on_data_def Let_def
  by (intro keeps_read_each keeps_intros keeps_payload) simp_all

lemma flow_time: "keeps flow_safe (advance_pump timeout now)"
  unfolding advance_pump_def
proof (intro keeps_then keeps_time)
  show "keeps flow_safe (\<lambda>p. case check_response_timeout timeout now p of (p', fs) \<Rightarrow> (Inr fs, p'))"
    by (auto simp: keeps_def check_response_timeout_def split: option.split prod.split)
qed

interpretation bridge_flow: pump_invariant flow_safe
proof unfold_locales
  show "keeps flow_safe cold_start_to_ready"
    unfolding cold_start_to_ready_def by (intro keeps_intros) (simp add: Let_def enable_safe)
qed (simp_all add: flow_poll flow_ack flow_data flow_time reset_protocol_sequences_def)

text \<open>What can happen to a bridge: a start, a pass of its loop, a restart, and an operation at one of its pumps.\<close>

datatype bridge_op = Start_bridge | Bridge_pass | Soft_restart | At_pump int sim_operation

fun bridge_step :: "(int \<Rightarrow> nat \<Rightarrow> string) \<Rightarrow> 'w bridge_line \<Rightarrow> simulator_config \<Rightarrow> 'w serial_bridge \<Rightarrow> bridge_op \<Rightarrow> 'w serial_bridge" where
  "bridge_step fresh line sim b Start_bridge = snd (start_pumps b)"
| "bridge_step fresh line sim b Bridge_pass = snd (bridge_pass fresh line b)"
| "bridge_step fresh line sim b Soft_restart = snd (soft_restart b)"
| "bridge_step fresh line sim b (At_pump a op) =
    snd (with_simulator (on_pump a (modify_act (\<lambda>p. sim_step (fresh a) sim p op))) b)"

lemma bridge_step_flow: "bridge_flow.bridge_ok b \<Longrightarrow> bridge_flow.bridge_ok (bridge_step fresh line sim b op)"
proof (cases op)
  case (At_pump a o')
  have "keeps (every_pump flow_safe) (on_pump a (modify_act (\<lambda>p. sim_step (fresh a) sim p o')))"
    by (intro keeps_intros sim_step_safe)
  from keepsD [OF bridge_flow.with_simulator_keeps [OF this]] show "bridge_flow.bridge_ok b \<Longrightarrow> ?thesis"
    by (simp add: At_pump)
qed (simp_all add: keepsD [OF bridge_flow.start_pumps_keeps] keepsD [OF bridge_flow.bridge_pass_keeps]
    keepsD [OF bridge_flow.soft_restart_keeps])

interpretation bridged: preserved "bridge_step fresh line sim" bridge_flow.bridge_ok
  for fresh and line :: "'w bridge_line" and sim
  by unfold_locales (rule bridge_step_flow)

lemma new_session_pumps:
  assumes "\<And>c. c \<in> set (sc_pumps sim) \<Longrightarrow> P (new_sim_pump c)"
  shows "every_pump P (new_session sim)"
proof -
  have "every_pump P (s\<lparr>ss_pumps := foldl (\<lambda>ps c. AList.update (cf_dart_address c) (new_sim_pump c) ps) (ss_pumps s) cs\<rparr>)"
    if "every_pump P s" "\<And>c. c \<in> set cs \<Longrightarrow> P (new_sim_pump c)" for cs s
    using that
  proof (induction cs arbitrary: s)
    case (Cons c cs)
    have "every_pump P (s\<lparr>ss_pumps := AList.update (cf_dart_address c) (new_sim_pump c) (ss_pumps s)\<rparr>)"
      by (rule every_pump_update [OF Cons.prems(1)]) (simp add: Cons.prems(2))
    from Cons.IH [OF this] Cons.prems(2) show ?case by simp
  qed simp
  from this [of "\<lparr>ss_config = sim, ss_now = 0, ss_pumps = [], ss_faults = [], ss_notes = []\<rparr>" "sc_pumps sim"] assms
  show ?thesis by (simp add: new_session_def every_pump_def)
qed

text \<open>
  C3. Whatever bytes reach the dispenser over its line, and whatever is done at its pumps and in whatever order, with injected
  faults and exceptions, fuel flows at a pump only while its state machine is in FILLING or SUSPENDED.
\<close>

theorem fuel_behind_the_bridge:
  "list_all (\<lambda>(a, p). \<not> (sp_filling_active p \<and> sp_state p \<notin> {FILLING, SUSPENDED}))
    (ss_pumps (bg_simulator (foldl (bridge_step fresh line sim) (new_serial_bridge cfg bcfg faults w) ops)))"
proof -
  have "bridge_flow.bridge_ok (new_serial_bridge cfg bcfg faults w)"
    by (simp add: bridge_flow.bridge_ok_def new_serial_bridge_def new_session_pumps new_sim_pump_def)
  from bridged.run_preserves [OF this, of fresh line sim ops] show ?thesis
    unfolding bridge_flow.bridge_ok_def every_pump_def flow_safe_def list_all_iff by fastforce
qed

section \<open>A bridge whose plan is used up\<close>

definition forget_faults :: "'w serial_bridge \<Rightarrow> 'w serial_bridge" where
  "forget_faults b = b\<lparr>bg_faults := None\<rparr>"

definition idle_plan :: "'w serial_bridge \<Rightarrow> bool" where
  "idle_plan b \<longleftrightarrow> bg_faults b \<noteq> None \<and> exhausted (fst (the (bg_faults b)))"

lemma forget_fields [simp]:
  "bg_config (forget_faults b) = bg_config b" "bg_world (forget_faults b) = bg_world b"
  by (simp_all add: forget_faults_def)

definition blind :: "('w serial_bridge, 'a) action \<Rightarrow> bool" where
  "blind m \<longleftrightarrow> (\<forall>b. idle_plan b \<longrightarrow> idle_plan (snd (m b)) \<and> m (forget_faults b) = (fst (m b), forget_faults (snd (m b))))"

lemma blindD: "blind m \<Longrightarrow> idle_plan b \<Longrightarrow> m b = (r, b') \<Longrightarrow> idle_plan b' \<and> m (forget_faults b) = (r, forget_faults b')"
  by (auto simp: blind_def)

lemma blindI:
  "(\<And>b r b'. idle_plan b \<Longrightarrow> m b = (r, b') \<Longrightarrow> idle_plan b' \<and> m (forget_faults b) = (r, forget_faults b')) \<Longrightarrow> blind m"
  unfolding blind_def by (metis prod.collapse)

lemma blind_return: "blind (return_act x)"
  by (rule blindI) simp

lemma blind_bind:
  assumes "blind m" "\<And>x. blind (f x)" shows "blind (bind_act m f)"
proof (rule blindI)
  fix b r b' assume b: "idle_plan b" and run: "bind_act m f b = (r, b')"
  obtain x b1 where m: "m b = (x, b1)" by fastforce
  note first = blindD [OF assms(1) b m]
  show "idle_plan b' \<and> bind_act m f (forget_faults b) = (r, forget_faults b')"
  proof (cases x)
    case (Inr v)
    with run m have "f v b1 = (r, b')" by (simp add: bind_act_def)
    from blindD [OF assms(2) _ this] first Inr show ?thesis by (simp add: bind_act_def)
  qed (use run m first in \<open>simp add: bind_act_def\<close>)
qed

lemma blind_then: "blind m \<Longrightarrow> blind n \<Longrightarrow> blind (then_act m n)"
  unfolding then_act_def by (rule blind_bind)

lemma blind_read: "(\<And>b. f (forget_faults b) = f b) \<Longrightarrow> (\<And>b. blind (f b)) \<Longrightarrow> blind (read_act f)"
  by (rule blindI) (metis action_simps(3) blindD)

lemma blind_if: "blind m \<Longrightarrow> blind n \<Longrightarrow> blind (if c then m else n)"
  by simp

lemma blind_parts: "blind (with_simulator m)" "blind (on_line l)" "blind (feed_bridge c)"
  by (rule blindI; auto simp: with_simulator_def on_line_def feed_bridge_def forget_faults_def idle_plan_def split: prod.splits)+

lemma blind_answer:
  "blind (read_act (\<lambda>b. case bg_faults b of
      Some (plan, did) \<Rightarrow> with_injector (apply_responses em rs) plan did | None \<Rightarrow> on_line (send_all em rs)))"
  by (rule blindI)
    (auto simp: idle_plan_def forget_faults_def with_injector_def on_line_def apply_exhausted outside_def split: option.splits prod.splits)

lemma blind_frame: "blind (handle_frame fresh line raw)"
  unfolding handle_frame_def by (intro blind_bind blind_parts blind_answer)

lemma blind_events: "blind (handle_events fresh line es)"
  by (induction es) (simp_all only: handle_events.simps blind_return blind_then blind_if blind_frame)

lemma blind_pass: "blind (bridge_pass fresh line)"
  unfolding bridge_pass_def
  by (intro blind_read blind_bind blind_then blind_if blind_parts blind_events) (simp_all cong: if_cong)

lemma blind_start: "blind start_pumps"
  unfolding start_pumps_def by (intro blind_read blind_if blind_parts blind_return) simp

lemma blind_loop:
  "idle_plan b \<Longrightarrow> bridge_loop fresh line n (forget_faults b) =
    map_option (map_prod id forget_faults) (bridge_loop fresh line n b)"
proof (induction n arbitrary: b)
  case (Suc n)
  obtain r b1 where pass: "bridge_pass fresh line b = (r, b1)" by fastforce
  note step = blindD [OF blind_pass Suc.prems pass]
  from step pass Suc.IH [of b1] show ?case by (cases r) simp_all
qed simp

text \<open>
  A bridge whose plan of faults is used up runs exactly as one without an injector: same exchanges with the transport,
  same answers, same end.
\<close>

theorem used_up_plan_changes_nothing:
  assumes "bg_faults b = Some (plan, did)" "exhausted plan"
  shows "run_bridge fresh line fuel (b\<lparr>bg_faults := None\<rparr>) =
    map_option (map_prod id forget_faults) (run_bridge fresh line fuel b)"
proof -
  have idle: "idle_plan b" using assms by (simp add: idle_plan_def)
  have "blind (then_act (on_line (bl_open line)) start_pumps)" by (intro blind_then blind_parts blind_start)
  moreover obtain r b1 where start: "then_act (on_line (bl_open line)) start_pumps b = (r, b1)" by fastforce
  ultimately have first: "idle_plan b1 \<and> then_act (on_line (bl_open line)) start_pumps (forget_faults b) = (r, forget_faults b1)"
    using blindD idle by blast
  have close: "close_bridge line (map_prod id forget_faults rb) = map_prod id forget_faults (close_bridge line rb)" for rb
    by (cases rb) (auto simp: close_bridge_def on_line_def forget_faults_def split: prod.split sum.split)
  show ?thesis
  proof (cases r)
    case (Inr u)
    with first start blind_loop [of b1 fresh line fuel] show ?thesis
      by (simp add: run_bridge_def forget_faults_def [symmetric] option.map_comp comp_def close del: then_act_simp)
  qed (use first start in \<open>simp add: run_bridge_def forget_faults_def [symmetric] del: then_act_simp\<close>)
qed

text \<open>The simulator a bridge makes when it is given none: \<open>SimulatorConfig()\<close>.\<close>

definition default_filling :: filling_config where
  "default_filling = \<lparr>fc_flow_rate = 1 / 2, fc_interval_ms = 200, fc_volume_decimals = 3, fc_amount_decimals = 2,
     fc_price_decimals = 2, fc_preset_volume = None, fc_preset_amount = None, fc_natural_complete = 40000\<rparr>"

definition default_pump_config :: "string \<Rightarrow> int \<Rightarrow> pump_config" where
  "default_pump_config pid address = \<lparr>cf_pump_id = pid, cf_dart_address = address, cf_nozzle_count = 2,
     cf_default_price = 1175, cf_filling = default_filling\<rparr>"

definition default_simulator_config :: simulator_config where
  "default_simulator_config = \<lparr>sc_policy = SPEC_F_TO_1, sc_response_timeout_ms = 25, sc_physical_enable = True,
     sc_active_commands = True, sc_pumps = [default_pump_config ''fp-1'' 1, default_pump_config ''fp-2'' 2]\<rparr>"

definition quiet_bridge_line :: "unit bridge_line" where
  "quiet_bridge_line = \<lparr>em_write = (\<lambda>bs. return_act ()), em_drain = return_act (), em_sleep = (\<lambda>t w. w), em_noise = (\<lambda>n w. []),
     bl_open = return_act (), bl_close = return_act (), bl_read = (\<lambda>n. return_act []), bl_stop = (\<lambda>w. True)\<rparr>"

definition used_up :: bench_fault_plan where
  "used_up = \<lparr>fp_kinds = [NAK_RESPONSE], fp_delay_ms = 50, fp_offline = [], fp_remaining = [(NAK_RESPONSE, 0)]\<rparr>"

theorem used_up_plan_changes_nothing_witness:
  "run_bridge (\<lambda>a n. []) quiet_bridge_line 1 ((new_serial_bridge default_simulator_config default_bridge_config (Some (used_up, [])) ())\<lparr>bg_faults := None\<rparr>) =
    map_option (map_prod id forget_faults)
      (run_bridge (\<lambda>a n. []) quiet_bridge_line 1 (new_serial_bridge default_simulator_config default_bridge_config (Some (used_up, [])) ()))"
  by (rule used_up_plan_changes_nothing [where plan = used_up and did = "[]"])
    (simp_all add: new_serial_bridge_def exhausted_def left_of_def used_up_def)

end
