(* ===== verification/Bench_Run.thy ===== *)
theory Bench_Run
  imports Bench_Ports Bench_Latency Sim_Bridge Ctl_Loop
begin

text \<open>
  \<open>hardware/bench_runner.py\<close> around the controller and the bridge it runs, and the decision of \<open>hardware/evidence.py\<close>: the
  faults that are applied to the simulator before a run, the counters taken from the controller after it, and the verdict.
  The files of the evidence and the text of the report are left out.
\<close>

section \<open>Faults before the run\<close>

definition set_offline :: "int \<Rightarrow> sim_session \<Rightarrow> sim_session" where
  "set_offline a s = snd (on_pump a (modify_act (\<lambda>p. p\<lparr>sp_communication_enabled := False\<rparr>)) s)"

definition bench_bridge_config :: bridge_config where
  "bench_bridge_config = default_bridge_config\<lparr>bc_idle_sleep_ms := 2, bc_sim_time_step_ms := 20\<rparr>"

datatype scenario_note = Planned_fault bench_fault_kind | One_offline int | All_offline | Restarted | Applied_fault string

definition take_scenario :: "bench_fault_kind \<Rightarrow> ('w serial_bridge, bool) action" where
  "take_scenario k b =
    (case bg_faults b of
       None \<Rightarrow> (Inr False, b)
     | Some (plan, did) \<Rightarrow> (case take_fault k plan of (r, plan') \<Rightarrow> (r, b\<lparr>bg_faults := Some (plan', did)\<rparr>)))"

definition offline_address :: "'w serial_bridge \<Rightarrow> int" where
  "offline_address b = (case bg_faults b of
     None \<Rightarrow> 1 | Some (plan, did) \<Rightarrow> if fp_offline plan \<noteq> [] then hd (fp_offline plan) else 1)"

text \<open>The steps of the runner between making the bridge and starting it, with the scenarios they name.\<close>

definition apply_scenarios :: "('w serial_bridge, scenario_note list) action" where
  "apply_scenarios =
    bind_act (take_scenario ONE_ADDRESS_OFFLINE) (\<lambda>one. read_act (\<lambda>b.
      let a = offline_address b in
      then_act (modify_act (\<lambda>b. if one then b\<lparr>bg_simulator := set_offline a (bg_simulator b)\<rparr> else b))
     (bind_act (take_scenario ALL_ADDRESSES_OFFLINE) (\<lambda>every.
      then_act (modify_act (\<lambda>b. if every
          then b\<lparr>bg_simulator := foldl (\<lambda>s a. set_offline a s) (bg_simulator b) (pump_addresses (bg_simulator b))\<rparr> else b))
     (bind_act (take_scenario SIMULATOR_RESTART) (\<lambda>again.
      then_act (if again then soft_restart else return_act ())
        (return_act ((if one then [One_offline a] else []) @ (if every then [All_offline] else []) @
          (if again then [Restarted] else [])))))))))"

section \<open>Offline faults have no effect\<close>

text \<open>A pump whose price fits its report can be started: a start returns, enables the pump and keeps the price.\<close>

definition priced :: "sim_pump \<Rightarrow> bool" where
  "priced p \<longleftrightarrow> 0 \<le> nozzle_price p \<and> nozzle_price p < 10 ^ 6"

lemma event_keeps_communication:
  "ev \<noteq> COMMUNICATION_LOST \<Longrightarrow> sp_communication_enabled p \<Longrightarrow> sp_communication_enabled (sim_apply_event ev args p)"
  by (simp add: sim_apply_event_def Let_def sync_context_fields_def)

lemma event_keeps_price: "nozzle_price (sim_apply_event ev args p) = nozzle_price p"
  by (rule nozzle_price_cong) simp_all

lemma price_fields [simp]:
  "nozzle_price (p\<lparr>sp_wayne_status := x\<rparr>) = nozzle_price p" "nozzle_price (p\<lparr>sp_nozzle_out := b\<rparr>) = nozzle_price p"
  "nozzle_price (p\<lparr>sp_communication_enabled := b\<rparr>) = nozzle_price p" "nozzle_price (p\<lparr>sp_pending := ps\<rparr>) = nozzle_price p"
  by (rule nozzle_price_cong; simp)+

lemma enable_price: "nozzle_price (enable_communication p) = nozzle_price p"
  by (simp add: enable_communication_def event_keeps_price)

lemma cold_start_ok:
  assumes "priced p" shows "\<exists>q. cold_start_to_ready p = (Inr (), q) \<and> priced q \<and> sp_communication_enabled q"
proof -
  define r where "r = (let p1 = (if sp_communication_enabled p then p else enable_communication p);
           p2 = (sim_apply_event PUMP_DISCOVERED no_args p1)\<lparr>sp_wayne_status := Wayne_RESET\<rparr>;
           p3 = (sim_apply_event RESET_OBSERVED (status_args p2) p2)\<lparr>sp_nozzle_out := False\<rparr>
       in (sim_apply_event READY_OBSERVED no_args p3)\<lparr>sp_wayne_status := Wayne_RESET\<rparr>)"
  have "sp_communication_enabled (enable_communication p)"
    by (simp add: enable_communication_def event_keeps_communication)
  then have r: "sp_communication_enabled r" "nozzle_price r = nozzle_price p"
    by (simp_all add: r_def Let_def event_keeps_communication event_keeps_price enable_price)
  have start: "cold_start_to_ready p = queue_status_and_nozzle r" by (simp add: cold_start_to_ready_def r_def)
  obtain q where "queue_status_and_nozzle r = (Inr (), q)" "queued r q"
    using queue_status_ok [of r] assms r(2) by (auto simp: priced_def)
  then show ?thesis
    using assms r by (auto simp: start queued_def priced_def)
qed

text \<open>An action that returns on pumps of a kind returns on a session of such pumps, and each pump it ran on is as it leaves it.\<close>

lemma each_pump_total:
  assumes m: "\<And>p. P p \<Longrightarrow> \<exists>q. m p = (Inr (), q) \<and> P q \<and> Q q"
  shows "every_pump P s \<Longrightarrow> set as \<subseteq> dom (map_of (ss_pumps s)) \<Longrightarrow> \<forall>a \<in> B. \<exists>p. map_of (ss_pumps s) a = Some p \<and> Q p \<Longrightarrow>
    \<exists>s'. each_pump m as s = (Inr (), s') \<and> every_pump P s' \<and> pump_addresses s' = pump_addresses s \<and>
      (\<forall>a \<in> B \<union> set as. \<exists>p. map_of (ss_pumps s') a = Some p \<and> Q p)"
proof (induction as arbitrary: s B)
  case (Cons a as)
  from Cons.prems(2) obtain p where p: "map_of (ss_pumps s) a = Some p" by auto
  with m every_pump_at [OF Cons.prems(1)] obtain p' where p': "m p = (Inr (), p')" "P p'" "Q p'" by blast
  define t where "t = s\<lparr>ss_pumps := AList.update a p' (ss_pumps s)\<rparr>"
  have on: "on_pump a m s = (Inr (), t)" by (simp add: on_pump_def p p'(1) t_def)
  have t: "every_pump P t" using every_pump_update [OF Cons.prems(1) p'(2)] by (simp add: t_def)
  have "a \<in> set (map fst (ss_pumps s))" using p by (force dest: map_of_SomeD)
  then have same: "pump_addresses t = pump_addresses s" by (simp add: t_def pump_addresses_def update_keys)
  have "\<forall>b \<in> insert a B. \<exists>p. map_of (ss_pumps t) b = Some p \<and> Q p"
    using Cons.prems(3) p'(3) by (auto simp: t_def update_conv')
  moreover have "set as \<subseteq> dom (map_of (ss_pumps t))" using Cons.prems(2) by (auto simp: t_def update_conv')
  ultimately obtain s' where "each_pump m as t = (Inr (), s')" "every_pump P s'" "pump_addresses s' = pump_addresses t"
      "\<forall>b \<in> insert a B \<union> set as. \<exists>p. map_of (ss_pumps s') b = Some p \<and> Q p"
    using Cons.IH [OF t] by blast
  then show ?case using on same by (intro exI [of _ s']) simp
qed auto

lemma dom_addresses: "set (pump_addresses s) = dom (map_of (ss_pumps s))"
  by (simp add: pump_addresses_def dom_map_of_conv_image_fst)

lemma start_pumps_ok:
  assumes "bc_cold_start_on_open (bg_config b)" "every_pump priced (bg_simulator b)"
  shows "\<exists>b'. start_pumps b = (Inr (), b') \<and> pump_addresses (bg_simulator b') = pump_addresses (bg_simulator b) \<and>
    (\<forall>a \<in> set (pump_addresses (bg_simulator b)). \<exists>p. map_of (ss_pumps (bg_simulator b')) a = Some p \<and> sp_communication_enabled p)"
proof -
  let ?m = "read_act (\<lambda>p. if \<not> sp_communication_enabled p then cold_start_to_ready else return_act ())"
  have m: "\<exists>q. ?m p = (Inr (), q) \<and> priced q \<and> sp_communication_enabled q" if "priced p" for p
    using cold_start_ok [OF that] that by (cases "sp_communication_enabled p") auto
  have "\<exists>s'. each_pump ?m (pump_addresses (bg_simulator b)) (bg_simulator b) = (Inr (), s') \<and> every_pump priced s' \<and>
      pump_addresses s' = pump_addresses (bg_simulator b) \<and>
      (\<forall>a \<in> {} \<union> set (pump_addresses (bg_simulator b)). \<exists>p. map_of (ss_pumps s') a = Some p \<and> sp_communication_enabled p)"
    by (rule each_pump_total [OF m]) (simp_all add: assms(2) dom_addresses)
  then show ?thesis using assms(1) by (auto simp: start_pumps_def with_simulator_def)
qed

text \<open>What the scenarios keep: the configuration of the bridge, the prices and the addresses.\<close>

definition startable :: "bridge_config \<Rightarrow> 'w serial_bridge \<Rightarrow> bool" where
  "startable c b \<longleftrightarrow> bg_config b = c \<and> every_pump priced (bg_simulator b)"

lemma keeps_take_scenario: "keeps (startable c) (take_scenario k)"
  by (auto simp: keeps_def startable_def take_scenario_def split: prod.split option.split)

lemma keeps_startable_pumps:
  assumes "keeps priced m" shows "keeps (startable c) (with_simulator (read_act (\<lambda>s. each_pump m (as s))))"
proof -
  have each: "keeps (every_pump priced) (each_pump m xs)" for xs
    by (induction xs) (simp_all only: each_pump.simps keeps_return keeps_then keeps_on_pump [OF assms])
  then have "keeps (every_pump priced) (read_act (\<lambda>s. each_pump m (as s)))" by (rule keeps_read_each)
  then show ?thesis by (auto simp: keeps_def with_simulator_def startable_def split: prod.split)
qed

lemma keeps_cold: "keeps priced cold_start_to_ready"
  unfolding keeps_def using cold_start_ok by fastforce

lemma set_offline_priced: "every_pump priced s \<Longrightarrow> every_pump priced (set_offline a s)"
proof -
  have "keeps priced (modify_act (\<lambda>p. p\<lparr>sp_communication_enabled := False\<rparr>))"
    by (rule keeps_modify) (simp add: priced_def)
  then show "every_pump priced s \<Longrightarrow> ?thesis" unfolding set_offline_def by (rule keepsD [OF keeps_on_pump])
qed

lemma all_offline_priced: "every_pump priced s \<Longrightarrow> every_pump priced (foldl (\<lambda>s a. set_offline a s) s as)"
  by (induction as arbitrary: s) (simp_all add: set_offline_priced)

lemma scenarios_keep_startable: "keeps (startable c) apply_scenarios"
proof -
  have "keeps priced (then_act (modify_act (\<lambda>p. p\<lparr>sp_communication_enabled := False\<rparr>)) cold_start_to_ready)"
    by (rule keeps_then [OF keeps_modify keeps_cold]) (simp add: priced_def)
  note restart = keeps_startable_pumps [OF this]
  show ?thesis
    unfolding apply_scenarios_def soft_restart_def Let_def
    by (intro keeps_bind keeps_then keeps_read_each keeps_modify keeps_if keeps_return keeps_take_scenario restart)
      (auto simp: startable_def set_offline_priced all_offline_priced)
qed

text \<open>
  The faults ONE_ADDRESS_OFFLINE and ALL_ADDRESSES_OFFLINE have no effect: the runner disables the pumps before it starts the
  bridge, and the bridge, whose configuration says so by default, starts every pump that is disabled. Whatever the plan, the
  start returns and every pump of the dispenser answers.
\<close>

theorem offline_faults_are_undone:
  assumes "list_all (\<lambda>c. 0 \<le> cf_default_price c \<and> cf_default_price c < 10 ^ 6) (sc_pumps sim)"
  shows "case start_pumps (snd (apply_scenarios (new_serial_bridge sim bench_bridge_config faults w))) of (r, b) \<Rightarrow>
    r = Inr () \<and> list_all (\<lambda>a. map_option sp_communication_enabled (map_of (ss_pumps (bg_simulator b)) a) = Some True)
      (pump_addresses (bg_simulator b))"
proof -
  let ?b = "snd (apply_scenarios (new_serial_bridge sim bench_bridge_config faults w))"
  have "priced (new_sim_pump c)" if "c \<in> set (sc_pumps sim)" for c
    using assms that by (auto simp: priced_def new_sim_pump_def nozzle_price_def nozzle_or_1_def default_prices_def list_all_iff)
  then have "startable bench_bridge_config (new_serial_bridge sim bench_bridge_config faults w)"
    by (simp add: startable_def new_serial_bridge_def new_session_pumps)
  from keepsD [OF scenarios_keep_startable this] have "startable bench_bridge_config ?b" .
  then have "bc_cold_start_on_open (bg_config ?b)" "every_pump priced (bg_simulator ?b)"
    by (simp_all add: startable_def bench_bridge_config_def default_bridge_config_def)
  from start_pumps_ok [OF this] show ?thesis by (auto simp: list_all_iff)
qed

definition offline_plan :: bench_fault_plan where
  "offline_plan = post_init \<lparr>fp_kinds = [ALL_ADDRESSES_OFFLINE], fp_delay_ms = 50, fp_offline = [], fp_remaining = []\<rparr>"

theorem offline_faults_are_undone_witness:
  "case start_pumps (snd (apply_scenarios (new_serial_bridge default_simulator_config bench_bridge_config (Some (offline_plan, [])) ()))) of
     (r, b) \<Rightarrow> r = Inr () \<and> list_all (\<lambda>a. map_option sp_communication_enabled (map_of (ss_pumps (bg_simulator b)) a) = Some True)
      (pump_addresses (bg_simulator b))"
  by (rule offline_faults_are_undone) (simp add: default_simulator_config_def default_pump_config_def)

section \<open>What a bench writes\<close>

definition py_int :: "rat \<Rightarrow> int" where
  "py_int x = (if 0 \<le> x then \<lfloor>x\<rfloor> else \<lceil>x\<rceil>)"

definition bench_schedule :: "bench_config \<Rightarrow> poll_config" where
  "bench_schedule b = default_poll_config
    \<lparr>pg_addresses := bn_addresses b, pg_response_timeout_ms := bn_response_timeout_ms b,
     pg_inter_poll_delay_ms := max 1 (py_int (bn_inter_frame_delay_ms b)),
     pg_idle_sleep_ms := max 5 (py_int (bn_turnaround_delay_ms b * 2)), pg_max_retries := 1, pg_max_consecutive := 5,
     pg_reconnect_delay_ms := py_int (rp_min_delay default_policy * 1000)\<rparr>"

definition bench_controller :: "bench_config \<Rightarrow> event_bus \<Rightarrow> nat \<Rightarrow> 'w \<Rightarrow> 'w controller" where
  "bench_controller b bus capacity w = new_controller (bench_schedule b) default_lab_safety bus \<lparr>oq_max_size = capacity, oq_items = []\<rparr> w"

definition listening :: "bytes \<Rightarrow> bool" where
  "listening w \<longleftrightarrow> (\<exists>a. build_poll a = Inr w) \<or> (\<exists>a k. build_ack a k = Inr w)"

definition only_listens :: "('w \<times> bytes list) controller \<Rightarrow> bool" where
  "only_listens c \<longleftrightarrow> oq_items (cl_outbound c) = [] \<and> list_all listening (snd (cl_world c))"

lemma pop_nothing: "oq_items q = [] \<Longrightarrow> fst (pop_for_address now q a) = None \<and> oq_items (snd (pop_for_address now q a)) = []"
  by (simp add: pop_for_address_def)

lemma only_listens_session: "keeps only_listens (on_session a m)"
  by (simp add: keeps_def only_listens_def on_session_def split: option.split prod.split)

lemma only_listens_world: "keeps only_listens (in_world (unlogged m))"
  by (simp add: keeps_def only_listens_def in_world_def unlogged_def split: prod.split)

lemma only_listens_write: "listening w \<Longrightarrow> keeps only_listens (in_world (en_write (logging env) w))"
  by (simp add: keeps_def only_listens_def in_world_def logging_def split: prod.split)

lemma only_listens_pop: "keeps only_listens (pop_outbound env a)"
  by (simp add: keeps_def only_listens_def pop_outbound_def case_prod_unfold pop_nothing)

interpretation listening_loop: loop_invariant "logging env" only_listens listening for env
proof (unfold_locales, goal_cases)
  case (19 c a i k w)
  then show ?case
    using pop_nothing [of "cl_outbound c"] by (auto simp: only_listens_def pop_outbound_def case_prod_unfold)
qed (simp_all add: only_listens_session call_session_def keeps_read keepsD keeps_read_each only_listens_write only_listens_pop,
     simp_all add: logging_def only_listens_world,
     auto simp: listening_def keeps_def only_listens_def sleep_def on_bus_def refresh_totals_def split: prod.split)

lemma logging_clock: "clock_forward env \<Longrightarrow> clock_forward (logging env)"
  by (auto simp: clock_forward_def logging_def unlogged_def case_prod_unfold)

text \<open>
  C32. A bench listens and ends: with its schedule, its safety context and its empty queue, the controller of a run of d
  milliseconds returns after at most d + 1 passes, and whatever the line, the pumps and the subscribers do, everything it
  has written is a POLL or an ACK.
\<close>

theorem bench_only_listens:
  assumes "clock_forward env"
  shows "\<exists>r c. run_controller (logging env) (Suc (nat d)) (Some d) (bench_controller b bus capacity (w, [])) = Some (r, c) \<and>
    list_all listening (snd (cl_world c))"
proof -
  let ?c = "bench_controller b bus capacity (w, [])"
  obtain r c1 where o: "in_world (en_open (logging env)) ?c = (r, c1)" by fastforce
  have start: "only_listens ?c" "serves (bench_schedule b) ?c"
    by (simp add: bench_controller_def only_listens_def new_controller_def) (simp add: bench_controller_def new_controller_serves)
  have c1: "only_listens c1" "serves (bench_schedule b) c1"
    using keepsD [OF listening_loop.connecting start(1)] keepsD [OF served_loop.connecting start(2)] o by (metis snd_conv)+
  have allowed: "sd_allowed (evaluate_polling_allowed (cl_safety ?c))"
    by (simp add: bench_controller_def new_controller_def default_lab_safety_def evaluate_polling_allowed_def Let_def)
  have sleeps: "1 \<le> pg_idle_sleep_ms (bench_schedule b)" "1 \<le> pg_reconnect_delay_ms (bench_schedule b)"
    by (simp_all add: bench_schedule_def default_policy_def py_int_def)
  have "en_now (logging env) (cl_world c1) + d - en_now (logging env) (cl_world c1) \<le> int (nat d)" by simp
  from run_loop_ends [OF logging_clock [OF assms] sleeps c1(2) this] obtain rc where
    rc: "run_loop (logging env) (Some (en_now (logging env) (cl_world c1) + d)) (Suc (nat d)) c1 = Some rc" by blast
  have "only_listens (snd rc)" by (rule listening_loop.run_loop_keeps [OF rc c1(1)])
  then have "only_listens (snd (close_after (logging env) rc))"
    by (auto simp: close_after_def only_listens_def in_world_def logging_def unlogged_def split: prod.splits sum.splits)
  with allowed o rc c1(1) show ?thesis
    by (cases r; cases "close_after (logging env) rc") (auto simp: run_controller_def only_listens_def simp del: run_loop.simps)
qed

theorem bench_only_listens_witness:
  "\<exists>r c. run_controller (logging silent_line) (Suc (nat 100)) (Some 100) (bench_controller (default_bench ''A'' ''B'') new_bus 8 (0, [])) = Some (r, c) \<and>
    list_all listening (snd (cl_world c))"
  by (rule bench_only_listens) (simp add: clock_forward_def silent_line_def)

section \<open>The verdict\<close>

record bench_evidence =
  ev_poll_count :: int
  ev_data_count :: int
  ev_eot_count :: int
  ev_ack_count :: int
  ev_nak_count :: int
  ev_timeout_count :: int
  ev_crc_error_count :: int
  ev_retry_count :: int
  ev_reconnect_events :: int
  ev_success :: bool
  ev_hil_status :: string
  ev_scenarios :: "scenario_note list"

text \<open>The dictionary \<open>totals\<close> of the controller's summary, and \<open>dict.get(key, 0)\<close>.\<close>

definition summary_totals :: "controller_totals \<Rightarrow> (string \<times> int) list" where
  "summary_totals t =
    [(''poll_count'', int (to_poll_count t)), (''eot_count'', int (to_eot_count t)), (''data_count'', int (to_data_count t)),
     (''crc_errors'', int (to_crc_errors t)), (''timeouts'', int (to_timeouts t)), (''nak_count'', int (to_nak_count t)),
     (''duplicate_count'', int (to_duplicate_count t))]"

definition get_count :: "(string \<times> int) list \<Rightarrow> string \<Rightarrow> int" where
  "get_count d k = (case map_of d k of None \<Rightarrow> 0 | Some n \<Rightarrow> n)"

definition software_ok :: "bench_evidence \<Rightarrow> bool" where
  "software_ok e \<longleftrightarrow> ev_poll_count e > 0 \<and> (ev_data_count e + ev_eot_count e > 0 \<or> ev_timeout_count e > 0)"

definition hil_status :: "bool \<Rightarrow> bench_evidence \<Rightarrow> string" where
  "hil_status physical_run e =
    (if physical_run \<and> software_ok e \<and> ev_crc_error_count e = 0 then ''PASS''
     else if physical_run \<and> \<not> software_ok e then ''FAIL'' else ''NOT_RUN'')"

text \<open>What the runner makes of a run that ended; the delays of the reconnect policy are its events.\<close>

definition conclude_run ::
  "bool \<Rightarrow> controller_totals \<Rightarrow> reconnect_policy \<Rightarrow> bench_fault_plan option \<Rightarrow> scenario_note list \<Rightarrow> string list \<Rightarrow> bench_evidence" where
  "conclude_run physical_run totals policy plan scenarios did =
    (let d = summary_totals totals;
         e = \<lparr>ev_poll_count = get_count d ''poll_count'', ev_data_count = get_count d ''data_count'',
           ev_eot_count = get_count d ''eot_count'', ev_ack_count = get_count d ''data_count'',
           ev_nak_count = get_count d ''nak_count'', ev_timeout_count = get_count d ''timeouts'',
           ev_crc_error_count = get_count d ''crc_errors'', ev_retry_count = get_count d ''retry_count'',
           ev_reconnect_events = int (length (rp_delays policy)), ev_success = False, ev_hil_status = ''NOT_RUN'',
           ev_scenarios = (case plan of None \<Rightarrow> [] | Some p \<Rightarrow> map Planned_fault (fp_kinds p)) @ scenarios @ map Applied_fault did\<rparr>
     in e\<lparr>ev_success := software_ok e, ev_hil_status := hil_status physical_run e\<rparr>)"

text \<open>\<open>build_report_dict\<close>.\<close>

definition report_decision :: "bench_evidence \<Rightarrow> string" where
  "report_decision e = (if ev_hil_status e \<noteq> ''PASS'' then ev_hil_status e else if ev_success e then ''PASS'' else ''FAIL'')"

text \<open>
  The verdict of a bench, exactly: PASS when the run was physical, polls were sent, there was an answer or a timeout, and no
  checksum error; FAIL when the run was physical and no poll was sent or nothing came of any; NOT_RUN in every other case,
  which includes a physical run with a checksum error.
\<close>

theorem bench_verdict:
  "report_decision (conclude_run physical t policy plan scenarios did) =
    (if \<not> physical then ''NOT_RUN''
     else if to_poll_count t = 0 \<or> to_data_count t = 0 \<and> to_eot_count t = 0 \<and> to_timeouts t = 0 then ''FAIL''
     else if to_crc_errors t = 0 then ''PASS'' else ''NOT_RUN'')"
  by (auto simp: report_decision_def conclude_run_def hil_status_def software_ok_def summary_totals_def get_count_def Let_def)

text \<open>
  A bench on which no pump ever answers passes: with at least one poll and one timeout, no response of any kind and a
  physical run, the status is PASS, the run counts as a success, and no retry is reported however many there were.
\<close>

theorem silent_bench_passes:
  assumes "0 < to_poll_count t" "0 < to_timeouts t" "to_data_count t = 0" "to_eot_count t = 0" "to_nak_count t = 0"
    and "to_crc_errors t = 0"
  shows "ev_hil_status (conclude_run True t policy plan scenarios did) = ''PASS'' \<and>
    ev_success (conclude_run True t policy plan scenarios did) \<and>
    report_decision (conclude_run True t policy plan scenarios did) = ''PASS'' \<and>
    ev_retry_count (conclude_run True t policy plan scenarios did) = 0"
  using assms
  by (simp add: report_decision_def conclude_run_def hil_status_def software_ok_def summary_totals_def get_count_def Let_def)

theorem silent_bench_passes_witness:
  "report_decision (conclude_run True (zero_totals\<lparr>to_poll_count := 100, to_timeouts := 100\<rparr>) default_policy None [] []) = ''PASS''"
  using silent_bench_passes [of "zero_totals\<lparr>to_poll_count := 100, to_timeouts := 100\<rparr>" default_policy None "[]" "[]"]
  by (simp add: zero_totals_def)

end
