(* ===== verification/Sim_Scenarios.thy ===== *)
theory Sim_Scenarios
  imports Sim_Bridge Link_Delivery
begin

text \<open>
  \<open>simulator/scenarios.py\<close>: the scenarios of the virtual dispenser and the runner that drives them, frame by frame, through the
  session. An assertion that fails raises AssertionError; what a scenario observes is a constructor with the values it quotes.
\<close>

section \<open>The runner\<close>

record scenario_run =
  sr_session :: sim_session
  sr_seq :: "(int \<times> int) list"

datatype observation =
    Cold_started pump_state | Normal_sale_completed int int | Preset_amount_sold int | Preset_volume_sold int
  | Suspend_froze_progress | Communication_recovered | Restarted_idle | Restart_cleared_filling | Faulted_while_filling
  | Price_update_rejected

record scenario =
  sn_name :: string
  sn_build :: sim_session
  sn_run :: "(scenario_run, observation list) action"

record scenario_result =
  su_name :: string
  su_ok :: bool
  su_session :: sim_session
  su_observations :: "observation list"
  su_errors :: "py_error list"

definition run_scenario :: "scenario \<Rightarrow> scenario_result" where
  "run_scenario sc =
    (let session = sn_build sc in
     case sn_run sc \<lparr>sr_session = session, sr_seq = map (\<lambda>a. (a, 0)) (pump_addresses session)\<rparr> of
       (Inl e, r) \<Rightarrow> \<lparr>su_name = sn_name sc, su_ok = False, su_session = sr_session r, su_observations = [], su_errors = [e]\<rparr>
     | (Inr os, r) \<Rightarrow> \<lparr>su_name = sn_name sc, su_ok = True, su_session = sr_session r, su_observations = os, su_errors = []\<rparr>)"

definition in_session :: "(sim_session, 'a) action \<Rightarrow> (scenario_run, 'a) action" where
  "in_session m r = (case m (sr_session r) of (x, s) \<Rightarrow> (x, r\<lparr>sr_session := s\<rparr>))"

definition assert_that :: "bool \<Rightarrow> (scenario_run, unit) action" where
  "assert_that b = (if b then return_act () else result_act (Inl AssertionError))"

definition pump_now :: "int \<Rightarrow> (scenario_run, sim_pump) action" where
  "pump_now a = read_act (\<lambda>r. result_act (get_pump (sr_session r) a))"

definition assert_state :: "int \<Rightarrow> pump_state \<Rightarrow> (scenario_run, unit) action" where
  "assert_state a expected = bind_act (pump_now a) (\<lambda>p. assert_that (sp_state p = expected))"

definition exchange_bytes :: "(int \<Rightarrow> nat \<Rightarrow> string) \<Rightarrow> bytes result \<Rightarrow> (scenario_run, exchange_result) action" where
  "exchange_bytes fresh wire = bind_act (result_act wire) (\<lambda>w. in_session (receive fresh w))"

fun send_poll_drain :: "(int \<Rightarrow> nat \<Rightarrow> string) \<Rightarrow> int \<Rightarrow> nat \<Rightarrow> (scenario_run, line_frame list) action" where
  "send_poll_drain fresh a 0 = return_act []"
| "send_poll_drain fresh a (Suc n) =
    bind_act (exchange_bytes fresh (build_poll a)) (\<lambda>result.
    case xr_responses result of
      [] \<Rightarrow> return_act []
    | raw # rest \<Rightarrow>
        (case parse_frame raw None DEFAULT_CRC_CANDIDATE of
           Inl e \<Rightarrow> send_poll_drain fresh a n
         | Inr f \<Rightarrow>
             then_act (if lf_control_type f = CtDATA
                 then bind_act (exchange_bytes fresh (build_ack a (lf_sequence f))) (\<lambda>_. return_act ()) else return_act ())
               (if lf_control_type f = CtEOT then return_act [f]
                else bind_act (send_poll_drain fresh a n) (\<lambda>fs. return_act (f # fs)))))"

definition sequence_of :: "int \<Rightarrow> scenario_run \<Rightarrow> int" where
  "sequence_of a r = (case map_of (sr_seq r) a of None \<Rightarrow> 0 | Some n \<Rightarrow> n)"

definition send_app :: "(int \<Rightarrow> nat \<Rightarrow> string) \<Rightarrow> int \<Rightarrow> bytes result \<Rightarrow> (scenario_run, unit) action" where
  "send_app fresh a payload = bind_act (result_act payload) (\<lambda>app. read_act (\<lambda>r.
    let seq = sequence_of a r in
    bind_act (exchange_bytes fresh (build_data_frame a seq app None DEFAULT_CRC_CANDIDATE)) (\<lambda>result.
    case xr_responses result of
      [] \<Rightarrow> result_act (Inl AssertionError)
    | raw # rest \<Rightarrow>
        (case parse_frame raw None DEFAULT_CRC_CANDIDATE of
           Inl e \<Rightarrow> result_act (Inl AssertionError)
         | Inr f \<Rightarrow>
             then_act (assert_that (lf_control_type f = CtACK))
               (bind_act (result_act (next_sequence seq (sc_policy (ss_config (sr_session r))))) (\<lambda>n.
                 modify_act (\<lambda>r. r\<lparr>sr_seq := AList.update a n (sr_seq r)\<rparr>)))))))"

section \<open>Steps of a scenario\<close>

text \<open>\<open>pump_by_id\<close> returns the pump object; here its address.\<close>

definition named_pump :: "string \<Rightarrow> (scenario_run, int) action" where
  "named_pump pid = read_act (\<lambda>r. result_act (bind_result (pump_by_id (sr_session r) pid) (\<lambda>p. Inr (cf_dart_address (sp_config p)))))"

definition at_pump :: "int \<Rightarrow> (sim_pump, 'a) action \<Rightarrow> (scenario_run, 'a) action" where
  "at_pump a m = in_session (on_pump a m)"

definition lift :: "int \<Rightarrow> int \<Rightarrow> (scenario_run, unit) action" where
  "lift a nozzle = read_act (\<lambda>r. bind_act (at_pump a (lift_nozzle nozzle (ss_now (sr_session r)))) (\<lambda>_. return_act ()))"

definition send_command :: "(int \<Rightarrow> nat \<Rightarrow> string) \<Rightarrow> int \<Rightarrow> pump_control_command \<Rightarrow> (scenario_run, unit) action" where
  "send_command fresh a c = send_app fresh a (encode_cd1_command (dcc_of c))"

definition sale_over :: "sim_pump \<Rightarrow> bool" where
  "sale_over p \<longleftrightarrow> sp_state p \<in> {FILLING_COMPLETE, LIMIT_REACHED}"

text \<open>At most \<open>n\<close> times: let \<open>ms\<close> pass, poll if asked to, stop when the sale is over.\<close>

fun fill_until :: "(scenario_run, unit) action \<Rightarrow> int \<Rightarrow> int \<Rightarrow> nat \<Rightarrow> (scenario_run, unit) action" where
  "fill_until poll a ms 0 = return_act ()"
| "fill_until poll a ms (Suc n) =
    then_act (in_session (advance ms)) (then_act poll (bind_act (pump_now a) (\<lambda>p.
      if sale_over p then return_act () else fill_until poll a ms n)))"

definition drain :: "(int \<Rightarrow> nat \<Rightarrow> string) \<Rightarrow> int \<Rightarrow> (scenario_run, unit) action" where
  "drain fresh a = bind_act (send_poll_drain fresh a 32) (\<lambda>_. return_act ())"

section \<open>Sessions\<close>

definition scenario_filling :: filling_config where
  "scenario_filling = default_filling\<lparr>fc_flow_rate := 1 / 2, fc_interval_ms := 200, fc_natural_complete := 2000\<rparr>"

definition preset_filling :: filling_config where
  "preset_filling = default_filling\<lparr>fc_flow_rate := 1, fc_interval_ms := 100, fc_natural_complete := 50000\<rparr>"

definition default_session :: "filling_config \<Rightarrow> sequence_policy \<Rightarrow> sim_session" where
  "default_session fill policy = new_session (default_simulator_config\<lparr>sc_policy := policy, sc_pumps :=
    [(default_pump_config ''fp-1'' 1)\<lparr>cf_default_price := 1175, cf_filling := fill\<rparr>,
     (default_pump_config ''fp-2'' 2)\<lparr>cf_default_price := 1299, cf_filling := fill\<rparr>]\<rparr>)"

section \<open>Scenarios\<close>

definition scenario_of :: "string \<Rightarrow> filling_config \<Rightarrow> (scenario_run, observation list) action \<Rightarrow> scenario" where
  "scenario_of name fill m = \<lparr>sn_name = name, sn_build = default_session fill SPEC_F_TO_1, sn_run = m\<rparr>"

definition cold_start_scenario :: "(int \<Rightarrow> nat \<Rightarrow> string) \<Rightarrow> string \<Rightarrow> scenario" where
  "cold_start_scenario fresh pid = scenario_of ''cold_start'' scenario_filling (bind_act (named_pump pid) (\<lambda>a.
    then_act (assert_state a DISCONNECTED) (then_act (at_pump a cold_start_to_ready) (then_act (assert_state a READY)
    (then_act (drain fresh a) (bind_act (pump_now a) (\<lambda>p. return_act [Cold_started (sp_state p)])))))))"

definition normal_sale_scenario :: "(int \<Rightarrow> nat \<Rightarrow> string) \<Rightarrow> string \<Rightarrow> int \<Rightarrow> int \<Rightarrow> scenario" where
  "normal_sale_scenario fresh pid nozzle price = scenario_of ''normal_sale'' scenario_filling (bind_act (named_pump pid) (\<lambda>a.
    then_act (at_pump a cold_start_to_ready) (then_act (send_app fresh a (encode_cd5_price_update nozzle price))
    (then_act (lift a nozzle) (then_act (assert_state a NOZZLE_UP) (then_act (send_command fresh a Command_AUTHORIZE)
    (then_act (assert_state a FILLING) (then_act (fill_until (drain fresh a) a 200 50)
    (bind_act (pump_now a) (\<lambda>p. then_act (assert_that (sale_over p)) (then_act (in_session (advance 1000))
    (bind_act (pump_now a) (\<lambda>q. then_act (assert_that (sp_volume q = sp_volume p \<and> sp_amount q = sp_amount p))
    (then_act (at_pump a return_nozzle) (then_act (send_command fresh a Command_RESET) (then_act (assert_state a READY)
      (return_act [Normal_sale_completed (sp_volume p) (sp_amount p)])))))))))))))))))"

definition preset_amount_sale_scenario :: "(int \<Rightarrow> nat \<Rightarrow> string) \<Rightarrow> string \<Rightarrow> int \<Rightarrow> int \<Rightarrow> scenario" where
  "preset_amount_sale_scenario fresh pid nozzle amount = scenario_of ''preset_amount_sale'' preset_filling (bind_act (named_pump pid) (\<lambda>a.
    then_act (at_pump a cold_start_to_ready) (then_act (lift a nozzle) (then_act (send_app fresh a (encode_cd4_preset_amount amount))
    (then_act (send_command fresh a Command_AUTHORIZE) (then_act (fill_until (return_act ()) a 100 80)
    (bind_act (pump_now a) (\<lambda>p. then_act (assert_that (sp_amount p \<le> amount)) (then_act (assert_that (sale_over p))
      (return_act [Preset_amount_sold (sp_amount p)]))))))))))"

definition preset_volume_sale_scenario :: "(int \<Rightarrow> nat \<Rightarrow> string) \<Rightarrow> string \<Rightarrow> int \<Rightarrow> int \<Rightarrow> scenario" where
  "preset_volume_sale_scenario fresh pid nozzle volume = scenario_of ''preset_volume_sale'' preset_filling (bind_act (named_pump pid) (\<lambda>a.
    then_act (at_pump a cold_start_to_ready) (then_act (lift a nozzle) (then_act (send_app fresh a (encode_cd3_preset_volume volume))
    (then_act (send_command fresh a Command_AUTHORIZE) (then_act (fill_until (return_act ()) a 100 80)
    (bind_act (pump_now a) (\<lambda>p. then_act (assert_that (sp_volume p = volume)) (return_act [Preset_volume_sold (sp_volume p)])))))))))"

text \<open>The start the remaining scenarios share: a pump that fills.\<close>

definition start_filling :: "(int \<Rightarrow> nat \<Rightarrow> string) \<Rightarrow> int \<Rightarrow> (scenario_run, unit) action" where
  "start_filling fresh a = then_act (at_pump a cold_start_to_ready) (then_act (lift a 1) (send_command fresh a Command_AUTHORIZE))"

definition suspend_resume_scenario :: "(int \<Rightarrow> nat \<Rightarrow> string) \<Rightarrow> string \<Rightarrow> scenario" where
  "suspend_resume_scenario fresh pid = scenario_of ''suspend_resume'' scenario_filling (bind_act (named_pump pid) (\<lambda>a.
    then_act (start_filling fresh a) (then_act (in_session (advance 400)) (bind_act (pump_now a) (\<lambda>first.
    then_act (send_command fresh a SUSPEND_FUELLING_POINT) (then_act (assert_state a SUSPENDED) (then_act (in_session (advance 1000))
    (bind_act (pump_now a) (\<lambda>p. then_act (assert_that (sp_volume p = sp_volume first))
    (then_act (send_command fresh a RESUME_FUELLING_POINT) (then_act (assert_state a FILLING) (then_act (in_session (advance 400))
    (bind_act (pump_now a) (\<lambda>q. then_act (assert_that (sp_volume first < sp_volume q))
      (return_act [Suspend_froze_progress])))))))))))))))"

definition communication_loss_recovery_scenario :: "(int \<Rightarrow> nat \<Rightarrow> string) \<Rightarrow> string \<Rightarrow> scenario" where
  "communication_loss_recovery_scenario fresh pid = scenario_of ''communication_loss_recovery'' scenario_filling (bind_act (named_pump pid) (\<lambda>a.
    then_act (at_pump a cold_start_to_ready) (then_act (at_pump a (modify_act disable_communication))
    (then_act (assert_state a DISCONNECTED) (bind_act (exchange_bytes fresh (build_poll a)) (\<lambda>empty.
    then_act (assert_that (xr_responses empty = [])) (then_act (at_pump a (modify_act enable_communication))
    (then_act (at_pump a cold_start_to_ready) (then_act (assert_state a READY) (return_act [Communication_recovered]))))))))))"

definition restart_idle_scenario :: "string \<Rightarrow> scenario" where
  "restart_idle_scenario pid = scenario_of ''restart_idle'' scenario_filling (bind_act (named_pump pid) (\<lambda>a.
    then_act (at_pump a cold_start_to_ready) (then_act (at_pump a (modify_act (restart_pump True)))
    (then_act (assert_state a READY) (return_act [Restarted_idle])))))"

definition restart_during_filling_scenario :: "(int \<Rightarrow> nat \<Rightarrow> string) \<Rightarrow> string \<Rightarrow> scenario" where
  "restart_during_filling_scenario fresh pid = scenario_of ''restart_during_filling'' scenario_filling (bind_act (named_pump pid) (\<lambda>a.
    then_act (start_filling fresh a) (then_act (in_session (advance 400)) (then_act (assert_state a FILLING)
    (then_act (at_pump a (modify_act (restart_pump True))) (then_act (assert_state a READY) (bind_act (pump_now a) (\<lambda>p.
    then_act (assert_that (\<not> sp_filling_active p)) (return_act [Restart_cleared_filling])))))))))"

definition fault_during_filling_scenario :: "(int \<Rightarrow> nat \<Rightarrow> string) \<Rightarrow> string \<Rightarrow> scenario" where
  "fault_during_filling_scenario fresh pid = scenario_of ''fault_during_filling'' scenario_filling (bind_act (named_pump pid) (\<lambda>a.
    then_act (start_filling fresh a) (then_act (in_session (advance 200)) (then_act (at_pump a (inject_fault 7))
    (then_act (assert_state a FAULTED) (return_act [Faulted_while_filling]))))))"

definition price_change_during_filling_scenario :: "(int \<Rightarrow> nat \<Rightarrow> string) \<Rightarrow> string \<Rightarrow> scenario" where
  "price_change_during_filling_scenario fresh pid = scenario_of ''price_change_during_filling'' scenario_filling (bind_act (named_pump pid) (\<lambda>a.
    then_act (start_filling fresh a) (then_act (assert_state a FILLING) (bind_act (pump_now a) (\<lambda>first.
    then_act (send_app fresh a (encode_cd5_price_update 1 9999)) (bind_act (pump_now a) (\<lambda>p.
    then_act (assert_that (sp_prices p 1 = sp_prices first 1)) (read_act (\<lambda>r.
    then_act (assert_that (list_ex (\<lambda>f. pf_kind f = Fault_INELIGIBLE_COMMAND) (ss_faults (sr_session r))))
      (return_act [Price_update_rejected]))))))))))"

definition ALL_SCENARIOS :: "(int \<Rightarrow> nat \<Rightarrow> string) \<Rightarrow> scenario list" where
  "ALL_SCENARIOS fresh =
    [cold_start_scenario fresh ''fp-1'', normal_sale_scenario fresh ''fp-1'' 1 1175, preset_amount_sale_scenario fresh ''fp-1'' 1 500,
     preset_volume_sale_scenario fresh ''fp-1'' 1 1500, suspend_resume_scenario fresh ''fp-1'',
     communication_loss_recovery_scenario fresh ''fp-1'', restart_idle_scenario ''fp-1'',
     restart_during_filling_scenario fresh ''fp-1'', fault_during_filling_scenario fresh ''fp-1'',
     price_change_during_filling_scenario fresh ''fp-1'']"

definition list_scenarios :: "(int \<Rightarrow> nat \<Rightarrow> string) \<Rightarrow> string list" where
  "list_scenarios fresh = map sn_name (ALL_SCENARIOS fresh)"

definition get_scenario :: "(int \<Rightarrow> nat \<Rightarrow> string) \<Rightarrow> string \<Rightarrow> scenario result" where
  "get_scenario fresh name = (case find (\<lambda>s. sn_name s = name) (ALL_SCENARIOS fresh) of None \<Rightarrow> Inl KeyError | Some s \<Rightarrow> Inr s)"

section \<open>What the runner gets\<close>

text \<open>A pump that is served at an address, under the policy of the session.\<close>

definition served_at :: "int \<Rightarrow> scenario_run \<Rightarrow> sim_pump \<Rightarrow> bool" where
  "served_at a r p \<longleftrightarrow> map_of (ss_pumps (sr_session r)) a = Some p \<and> sp_communication_enabled p \<and> pump_ready a p"

lemma keeps_enabled:
  "keeps (\<lambda>p. sp_communication_enabled p) (pump_on_poll now)"
  "keeps (\<lambda>p. sp_communication_enabled p) (pump_on_ack policy now f)"
proof -
  show "keeps (\<lambda>p. sp_communication_enabled p) (pump_on_poll now)"
    by (auto simp: keeps_def pump_on_poll_def pop_pending_payload_def has_pending_def bind_act_def exchange_def Let_def
        split: list.split sum.split)
  show "keeps (\<lambda>p. sp_communication_enabled p) (pump_on_ack policy now f)"
    by (auto simp: keeps_def pump_on_ack_def bind_act_def exchange_def Let_def split: option.split sum.split)
qed

lemma receive_control:
  assumes "0 \<le> a" "a \<le> 255" "composable ct k" "ct \<noteq> CtDATA" "build_control_frame a ct k = Inr w"
  shows "\<exists>f. parse_frame w None DEFAULT_CRC_CANDIDATE = Inr f \<and> lf_address f = a \<and> lf_control_type f = ct \<and> lf_sequence f = k"
  using control_frame_parses [OF assms(1-4), of None DEFAULT_CRC_CANDIDATE] assms(5) by (auto simp: is_control_frame_of_def)

text \<open>A poll through the session is a poll of the pump.\<close>

lemma poll_through_session:
  assumes "served_at a r p" "poll_reply (ss_now (sr_session r)) p = (Some f, p')"
  shows "\<exists>x w ws s'. exchange_bytes fresh (build_poll a) r = (Inr x, r\<lparr>sr_session := s'\<rparr>) \<and> xr_responses x = w # ws \<and>
    parse_frame w None DEFAULT_CRC_CANDIDATE = Inr f \<and> map_of (ss_pumps s') a = Some p' \<and> sp_communication_enabled p' \<and>
    ss_config s' = ss_config (sr_session r)"
proof -
  let ?s = "sr_session r"
  have p: "map_of (ss_pumps ?s) a = Some p" "sp_communication_enabled p" "0 \<le> a" "a \<le> 255"
    using assms(1) by (simp_all add: served_at_def pump_ready_def)
  have "composable CtPOLL 0" by (simp add: composable_def)
  obtain wire where wire: "build_poll a = Inr wire"
    using control_frame_parses [OF p(3,4) \<open>composable CtPOLL 0\<close>, of None DEFAULT_CRC_CANDIDATE] by (auto simp: build_poll_def)
  obtain g where g: "parse_frame wire None DEFAULT_CRC_CANDIDATE = Inr g" "lf_address g = a" "lf_control_type g = CtPOLL"
    using receive_control [OF p(3,4) \<open>composable CtPOLL 0\<close>] wire by (auto simp: build_poll_def)
  obtain x w ws where x: "pump_on_poll (ss_now ?s) p = (Inr x, p')" "xr_responses x = w # ws"
      "parse_frame w None DEFAULT_CRC_CANDIDATE = Inr f"
    using assms(2) by (auto simp: poll_reply_def split: prod.splits sum.splits list.splits)
  have "sp_communication_enabled p'" using keepsD [OF keeps_enabled(1) p(2), of "ss_now ?s"] x(1) by simp
  then show ?thesis
    using p g x wire
    by (auto simp: exchange_bytes_def bind_act_def in_session_def receive_def with_pump_def on_pump_def record_faults_def update_conv')
qed

lemma ack_through_session:
  assumes "served_at a r p" "sp_awaiting_ack p \<noteq> None"
  shows "\<exists>x ack s'. exchange_bytes fresh (build_ack a (sp_tx_sequence p)) r = (Inr x, r\<lparr>sr_session := s'\<rparr>) \<and>
    build_ack a (sp_tx_sequence p) = Inr ack \<and> ss_config s' = ss_config (sr_session r) \<and>
    map_of (ss_pumps s') a = Some (send_ack (sc_policy (ss_config (sr_session r))) (ss_now (sr_session r)) ack p) \<and>
    sp_communication_enabled (send_ack (sc_policy (ss_config (sr_session r))) (ss_now (sr_session r)) ack p)"
proof -
  let ?s = "sr_session r"
  have p: "map_of (ss_pumps ?s) a = Some p" "sp_communication_enabled p" "0 \<le> a" "a \<le> 255" "0 \<le> sp_tx_sequence p"
      "sp_tx_sequence p \<le> 15" "sp_awaiting_ack p = Some (sp_tx_sequence p)"
    using assms by (auto simp: served_at_def pump_ready_def)
  then have comp: "composable CtACK (sp_tx_sequence p)" by (simp add: composable_def)
  obtain ack where ack: "build_ack a (sp_tx_sequence p) = Inr ack"
    using control_frame_parses [OF p(3,4) comp, of None DEFAULT_CRC_CANDIDATE] by (auto simp: build_ack_def)
  obtain g where g: "parse_frame ack None DEFAULT_CRC_CANDIDATE = Inr g" "lf_address g = a" "lf_control_type g = CtACK"
      "lf_sequence g = sp_tx_sequence p"
    using receive_control [OF p(3,4) comp] ack by (auto simp: build_ack_def)
  obtain n where n: "next_sequence (sp_tx_sequence p) (sc_policy (ss_config ?s)) = Inr n" using next_sequence_total [OF p(5,6)] by blast
  let ?q = "send_ack (sc_policy (ss_config ?s)) (ss_now ?s) ack p"
  obtain x where x: "pump_on_ack (sc_policy (ss_config ?s)) (ss_now ?s) g p = (Inr x, ?q)"
    using g n p(7) by (auto simp: send_ack_def pump_on_ack_def bind_act_def)
  then have "sp_communication_enabled ?q"
    using keepsD [OF keeps_enabled(2) p(2), of "sc_policy (ss_config ?s)" "ss_now ?s" g] by simp
  then show ?thesis
    using p g x ack
    by (auto simp: exchange_bytes_def bind_act_def in_session_def receive_def with_pump_def on_pump_def record_faults_def update_conv')
qed

lemma ack_leaves_idle:
  assumes "pump_ready a p" "sp_awaiting_ack p \<noteq> None" "build_ack a (sp_tx_sequence p) = Inr ack"
  shows "sp_awaiting_ack (send_ack policy now ack p) = None"
proof -
  have rng: "0 \<le> a" "a \<le> 255" "composable CtACK (sp_tx_sequence p)" "0 \<le> sp_tx_sequence p" "sp_tx_sequence p \<le> 15"
      "sp_awaiting_ack p = Some (sp_tx_sequence p)"
    using assms(1,2) by (auto simp: pump_ready_def composable_def)
  from receive_control [OF rng(1-3)] assms(3) obtain g where
    "parse_frame ack None DEFAULT_CRC_CANDIDATE = Inr g" "lf_sequence g = sp_tx_sequence p"
    by (auto simp: build_ack_def)
  moreover obtain n where "next_sequence (sp_tx_sequence p) policy = Inr n" using next_sequence_total [OF rng(4,5)] by blast
  ultimately show ?thesis using rng(6) by (simp add: send_ack_def pump_on_ack_def bind_act_def)
qed

text \<open>
  The runner drains a pump: with a limit above the number of waiting blocks it returns exactly their payloads, in order, in
  DATA frames, and an EOT at the end; afterwards nothing waits and nothing is unacknowledged.
\<close>

theorem drain_delivers_reports:
  assumes "served_at a r p" "sp_awaiting_ack p = None" "length (sp_pending p) < n"
  shows "\<exists>fs e r' q. send_poll_drain fresh a n r = (Inr (fs @ [e]), r') \<and>
    map lf_payload fs = map ot_payload (sp_pending p) \<and> list_all (\<lambda>f. lf_control_type f = CtDATA \<and> lf_crc_valid f = Some True) fs \<and>
    lf_control_type e = CtEOT \<and> served_at a r' q \<and> sp_pending q = [] \<and> sp_awaiting_ack q = None"
  using assms
proof (induction n arbitrary: r p)
  case (Suc n)
  note ready = Suc.prems(1) [unfolded served_at_def, THEN conjunct2, THEN conjunct2]
  show ?case
  proof (cases "sp_pending p")
    case Nil
    obtain f where f: "poll_reply (ss_now (sr_session r)) p = (Some f, p)" "lf_control_type f = CtEOT"
      using poll_idle [OF ready Suc.prems(2) Nil] by blast
    from poll_through_session [OF Suc.prems(1) f(1), of fresh] obtain x w ws s' where
      x: "exchange_bytes fresh (build_poll a) r = (Inr x, r\<lparr>sr_session := s'\<rparr>)" "xr_responses x = w # ws"
        "parse_frame w None DEFAULT_CRC_CANDIDATE = Inr f" "map_of (ss_pumps s') a = Some p" "sp_communication_enabled p" by blast
    have "served_at a (r\<lparr>sr_session := s'\<rparr>) p" using x(4,5) ready by (simp add: served_at_def)
    moreover have "send_poll_drain fresh a (Suc n) r = (Inr ([] @ [f]), r\<lparr>sr_session := s'\<rparr>)"
      using x f(2) by (simp add: bind_act_def)
    ultimately show ?thesis using f(2) Nil Suc.prems(2) by (intro exI [of _ "[]"] exI [of _ f] exI conjI) auto
  next
    case (Cons t ts)
    from poll_next [OF ready Suc.prems(2) Cons, of "ss_now (sr_session r)"] obtain f p1 where
      f: "poll_reply (ss_now (sr_session r)) p = (Some f, p1)" "lf_control_type f = CtDATA" "lf_sequence f = sp_tx_sequence p"
        "lf_payload f = ot_payload t" "lf_crc_valid f = Some True" and
      p1: "pump_ready a p1" "sp_awaiting_ack p1 \<noteq> None" "sp_pending p1 = ts" "sp_tx_sequence p1 = sp_tx_sequence p" by blast
    from poll_through_session [OF Suc.prems(1) f(1), of fresh] obtain x w ws s1 where
      x: "exchange_bytes fresh (build_poll a) r = (Inr x, r\<lparr>sr_session := s1\<rparr>)" "xr_responses x = w # ws"
        "parse_frame w None DEFAULT_CRC_CANDIDATE = Inr f" "map_of (ss_pumps s1) a = Some p1" "sp_communication_enabled p1" by blast
    let ?r1 = "r\<lparr>sr_session := s1\<rparr>"
    have "served_at a ?r1 p1" using x(4,5) p1(1) by (simp add: served_at_def)
    from ack_through_session [OF this p1(2), of fresh] obtain y ack s2 where
      y: "exchange_bytes fresh (build_ack a (sp_tx_sequence p1)) ?r1 = (Inr y, ?r1\<lparr>sr_session := s2\<rparr>)"
        "build_ack a (sp_tx_sequence p1) = Inr ack"
        "map_of (ss_pumps s2) a = Some (send_ack (sc_policy (ss_config s1)) (ss_now s1) ack p1)"
        "sp_communication_enabled (send_ack (sc_policy (ss_config s1)) (ss_now s1) ack p1)" by auto
    let ?q = "send_ack (sc_policy (ss_config s1)) (ss_now s1) ack p1" and ?r2 = "?r1\<lparr>sr_session := s2\<rparr>"
    note moved = ack_moves_on [OF p1(1,2) y(2), of "sc_policy (ss_config s1)" "ss_now s1"]
    have served: "served_at a ?r2 ?q" using y(3,4) moved by (simp add: served_at_def)
    have idle: "sp_awaiting_ack ?q = None" by (rule ack_leaves_idle [OF p1(1,2) y(2)])
    have "length (sp_pending ?q) < n" using moved p1(3) Cons Suc.prems(3) by simp
    from Suc.IH [OF served idle this] obtain fs e r' q where
      ih: "send_poll_drain fresh a n ?r2 = (Inr (fs @ [e]), r')" "map lf_payload fs = map ot_payload (sp_pending ?q)"
        "list_all (\<lambda>f. lf_control_type f = CtDATA \<and> lf_crc_valid f = Some True) fs" "lf_control_type e = CtEOT"
        "served_at a r' q" "sp_pending q = []" "sp_awaiting_ack q = None"
      by blast
    have "send_poll_drain fresh a (Suc n) r = (Inr ((f # fs) @ [e]), r')"
      using x y(1) f(2,3) p1(4) ih(1) by (simp add: bind_act_def then_act_def)
    moreover have "map lf_payload (f # fs) = map ot_payload (sp_pending p)" using f(4) ih(2) moved p1(3) Cons by simp
    moreover have "list_all (\<lambda>f. lf_control_type f = CtDATA \<and> lf_crc_valid f = Some True) (f # fs)" using f(2,5) ih(3) by simp
    ultimately show ?thesis using ih(4-7) by blast
  qed
qed simp

text \<open>A concrete run with one report waiting.\<close>

definition reporting_pump :: sim_pump where
  "reporting_pump = (new_sim_pump (default_pump_config ''fp-1'' 1))\<lparr>sp_communication_enabled := True,
     sp_pending := [\<lparr>ot_payload = [1, 1, 5], ot_label = DC1_STATUS\<rparr>]\<rparr>"

definition run_with :: "sim_pump \<Rightarrow> scenario_run" where
  "run_with p = \<lparr>sr_session = (new_session default_simulator_config)\<lparr>ss_pumps := [(1, p)]\<rparr>, sr_seq = [(1, 0)]\<rparr>"

theorem drain_delivers_reports_witness:
  "\<exists>fs e r' q. send_poll_drain (\<lambda>a n. []) 1 32 (run_with reporting_pump) = (Inr (fs @ [e]), r') \<and>
    map lf_payload fs = map ot_payload (sp_pending reporting_pump) \<and>
    list_all (\<lambda>f. lf_control_type f = CtDATA \<and> lf_crc_valid f = Some True) fs \<and>
    lf_control_type e = CtEOT \<and> served_at 1 r' q \<and> sp_pending q = [] \<and> sp_awaiting_ack q = None"
  by (rule drain_delivers_reports)
    (simp_all add: served_at_def run_with_def reporting_pump_def new_sim_pump_def default_pump_config_def pump_ready_def
      max_payload_def line_consts)

section \<open>Settings are frozen during a sale\<close>

text \<open>What stays of a pump in a sale: its state, its prices and its presets.\<close>

definition frozen :: "sim_pump \<Rightarrow> sim_pump \<Rightarrow> bool" where
  "frozen p q \<longleftrightarrow> sp_state q = sp_state p \<and> sp_prices q = sp_prices p \<and> sp_preset_volume q = sp_preset_volume p \<and>
     sp_preset_amount q = sp_preset_amount p"

definition in_sale :: "sim_pump \<Rightarrow> bool" where
  "in_sale p \<longleftrightarrow> sp_state p \<in> {FILLING, SUSPENDED}"

lemma frozen_fields [simp]:
  "frozen p (q\<lparr>sp_last_command := x\<rparr>) = frozen p q" "frozen p (q\<lparr>sp_last_accepted := y\<rparr>) = frozen p q"
  "frozen p (q\<lparr>sp_expected_sequence := z\<rparr>) = frozen p q" "frozen p (sync_context_fields q) = frozen p q"
  by (simp_all add: frozen_def sync_context_fields_def)

lemma setting_not_eligible:
  assumes "evaluate_command_eligibility command ctx preset ph act = Inr el" "pc_current_state ctx \<in> {FILLING, SUSPENDED}"
    "command \<in> {SET_PRICE, PRESET_VOLUME, PRESET_AMOUNT}"
  shows "\<not> el_eligible el"
proof -
  have "\<not> is_eligible command ctx preset"
    using assms(2,3) by (auto simp: is_eligible_def blocking_reasons_def Let_def reason_if_def SET_PRICE_STATES_def
        PRESET_STATES_def bind_result_Inr_iff)
  with eligibility_iff [of command ctx preset ph act] assms(1) show ?thesis by simp
qed

lemma frozen_guarded:
  assumes "in_sale p" "command \<in> {SET_PRICE, PRESET_VOLUME, PRESET_AMOUNT}"
  shows "keeps (frozen p) (execute_guarded fresh cfg now command pv v a price)"
  unfolding keeps_def
proof (intro allI impI)
  fix q assume q: "frozen p q"
  then have "pc_current_state (sp_context (sync_context_fields q)) \<in> {FILLING, SUSPENDED}"
    using assms(1) by (simp add: frozen_def in_sale_def sync_context_fields_def)
  note blocked = setting_not_eligible [OF _ this assms(2)]
  show "frozen p (snd (execute_guarded fresh cfg now command pv v a price q))"
    using q blocked by (auto simp: execute_guarded_def bind_act_def split: sum.split)
qed

lemma frozen_cd5: "in_sale p \<Longrightarrow> keeps (frozen p) (handle_cd5_from fresh cfg now nozzle data)"
  by (induction fresh cfg now nozzle data rule: handle_cd5_from.induct)
    (simp_all only: handle_cd5_from.simps keeps_return, intro keeps_bind keeps_result keeps_return frozen_guarded, simp_all)

definition setting :: "bytes result \<Rightarrow> bool" where
  "setting payload \<longleftrightarrow> (\<exists>n. payload = encode_cd3_preset_volume n) \<or> (\<exists>n. payload = encode_cd4_preset_amount n) \<or>
     (\<exists>n price. payload = encode_cd5_price_update n price)"

lemma setting_unit:
  assumes "setting (Inr app)"
  shows "\<exists>tid data. app = tid # of_nat (length data) # data \<and> length data \<le> 255 \<and>
    (tid = 3 \<and> length data = 4 \<or> tid = 4 \<and> length data = 4 \<or> tid = 5 \<and> length data = 3)"
  using assms encode_width [of _ 4] encode_width [of _ 3]
  by (auto simp: setting_def encode_cd3_preset_volume_def encode_cd4_preset_amount_def encode_cd5_price_update_def
      encode_tx_Inr bind_result_Inr_iff eq_commute [of "Inr app"])

lemma frozen_payload:
  assumes "in_sale p" "setting (Inr app)"
  shows "keeps (frozen p) (handle_application_payload fresh cfg now app)"
proof -
  obtain tid data where app: "app = tid # of_nat (length data) # data" "length data \<le> 255"
      "tid = 3 \<and> length data = 4 \<or> tid = 4 \<and> length data = 4 \<or> tid = 5 \<and> length data = 3"
    using setting_unit [OF assms(2)] by blast
  have one: "keeps (frozen p) (handle_one_tx fresh cfg now tid data)"
    unfolding handle_one_tx_def handle_cd3_preset_volume_def handle_cd4_preset_amount_def
    using app(3)
    by (elim disjE conjE; simp del: handle_cd5_from.simps)
      (intro keeps_bind keeps_result frozen_guarded [OF assms(1)] frozen_cd5 [OF assms(1)]; simp)+
  then have "keeps (frozen p) (bind_act (handle_one_tx fresh cfg now tid data) (\<lambda>fs.
      bind_act (handle_application_payload fresh cfg now []) (\<lambda>more. return_act (fs @ more))))"
    by (intro keeps_bind keeps_return) (simp_all add: keeps_return)
  then show ?thesis by (simp add: app(1) unat_length_byte [OF app(2)])
qed

text \<open>Every outcome of a DATA frame, and of the session that hands it to the pump.\<close>

lemma frozen_data:
  assumes "in_sale p" "setting (Inr (lf_payload f))" shows "keeps (frozen p) (pump_on_data fresh cfg now f)"
  unfolding pump_on_data_def Let_def
  by (intro keeps_read_each keeps_if keeps_bind keeps_then keeps_result keeps_return keeps_modify frozen_payload [OF assms]) simp_all

lemma frozen_with_pump:
  assumes "keeps (frozen p) m" "map_of (ss_pumps s) a = Some p" "with_pump a m s = (x, s')"
  shows "\<exists>q. map_of (ss_pumps s') a = Some q \<and> frozen p q"
proof -
  obtain y q where m: "m p = (y, q)" by fastforce
  with keepsD [OF assms(1), of p] have "frozen p q" by (simp add: frozen_def)
  with m assms(2,3) show ?thesis
    by (cases y) (auto simp: with_pump_def on_pump_def bind_act_def record_faults_def update_conv')
qed

lemma frozen_receive:
  assumes "in_sale p" "setting (Inr app)" "map_of (ss_pumps s) a = Some p"
    "build_data_frame a k app None DEFAULT_CRC_CANDIDATE = Inr wire" "receive fresh wire s = (x, s')"
  shows "\<exists>q. map_of (ss_pumps s') a = Some q \<and> frozen p q"
proof -
  note guards = build_data_frame_Inr_guards [OF assms(4)]
  then obtain f where f: "parse_frame wire None DEFAULT_CRC_CANDIDATE = Inr f" "lf_address f = a" "lf_control_type f = CtDATA"
      "lf_payload f = app"
    using data_frame_parses [of a k app DEFAULT_CRC_CANDIDATE] assms(4) by (auto simp: is_data_frame_of_def)
  show ?thesis
  proof (cases "sp_communication_enabled p")
    case True
    then have "with_pump a (pump_on_data (fresh a) (ss_config s) (ss_now s) f) s = (x, s')"
      using assms(3,5) f by (simp add: receive_def)
    from frozen_with_pump [OF frozen_data [OF assms(1)] assms(3) this] f(4) assms(2) show ?thesis by simp
  qed (use assms(3,5) f in \<open>auto simp: receive_def record_note_def frozen_def\<close>)
qed

text \<open>
  C34. A sale is sold at the price and with the preset it began with: whatever price or preset the controller sends to a pump that
  fills or is suspended, and whatever becomes of the message, the state, the prices and the presets of the pump stay.
\<close>

theorem settings_frozen_during_sale:
  assumes "map_of (ss_pumps (sr_session r)) a = Some p" "sp_state p \<in> {FILLING, SUSPENDED}"
    and "payload = encode_cd3_preset_volume v \<or> payload = encode_cd4_preset_amount m \<or> payload = encode_cd5_price_update n price"
    and "send_app fresh a payload r = (x, r')"
  shows "\<exists>q. map_of (ss_pumps (sr_session r')) a = Some q \<and> sp_state q = sp_state p \<and> sp_prices q = sp_prices p \<and>
    sp_preset_volume q = sp_preset_volume p \<and> sp_preset_amount q = sp_preset_amount p"
proof -
  have sale: "in_sale p" using assms(2) by (simp add: in_sale_def)
  have same: ?thesis if "sr_session r' = sr_session r" using that assms(1) by auto
  show ?thesis
  proof (cases payload)
    case (Inl e)
    with assms(4) same show ?thesis by (simp add: send_app_def bind_act_def)
  next
    case (Inr app)
    have set: "setting (Inr app)" using assms(3) Inr by (auto simp: setting_def)
    show ?thesis
    proof (cases "build_data_frame a (sequence_of a r) app None DEFAULT_CRC_CANDIDATE")
      case (Inl e)
      with Inr assms(4) same show ?thesis by (simp add: send_app_def exchange_bytes_def bind_act_def Let_def)
    next
      case wire: (Inr wire)
      obtain y s' where rc: "receive fresh wire (sr_session r) = (y, s')" by fastforce
      have "sr_session r' = s'"
        using assms(4) Inr wire rc
        by (auto simp: send_app_def exchange_bytes_def in_session_def bind_act_def assert_that_def Let_def
            split: sum.splits list.splits if_splits)
      with frozen_receive [OF sale set assms(1) wire rc] show ?thesis by (auto simp: frozen_def)
    qed
  qed
qed

definition selling_pump :: sim_pump where
  "selling_pump = reporting_pump\<lparr>sp_context := (sp_context reporting_pump)\<lparr>pc_current_state := FILLING\<rparr>, sp_filling_active := True\<rparr>"

theorem settings_frozen_during_sale_witness:
  "\<exists>q. map_of (ss_pumps (sr_session (snd (send_app (\<lambda>a n. []) 1 (encode_cd5_price_update 1 9999) (run_with selling_pump))))) 1 = Some q \<and>
    sp_state q = sp_state selling_pump \<and> sp_prices q = sp_prices selling_pump \<and>
    sp_preset_volume q = sp_preset_volume selling_pump \<and> sp_preset_amount q = sp_preset_amount selling_pump"
  by (rule settings_frozen_during_sale [where r = "run_with selling_pump" and n = 1 and price = 9999, OF _ _ _ prod.collapse [symmetric]])
    (simp_all add: run_with_def selling_pump_def)

end
