(* ===== verification/Svc_Restart.thy ===== *)
theory Svc_Restart
  imports Svc_Bridge Svc_Recovery Ctl_Loop
begin

text \<open>
  \<open>services/lab_persistence.py\<close>: what a restarted controller does before its first poll. The database is recovered, the
  worker and the bridge are made, and the recovered contexts are put into the sessions. The engine and the schema are
  SQLAlchemy's; the subscriber that \<open>attach\<close> adds to the event bus is \<open>on_event\<close> of \<open>Svc_Bridge\<close>.
\<close>

section \<open>Starting and stopping\<close>

record persistence_runtime =
  pe_recovery :: recovery_report
  pe_pump_ids :: "(int \<times> string) list"
  pe_bridge :: bridge_state

definition logical_names :: "int list \<Rightarrow> (int \<times> string) list" where
  "logical_names addresses = foldl (\<lambda>m a. AList.update a (''pump-'' @ int_text a) m) [] addresses"

text \<open>The clock is read once by each of the two services.\<close>

definition start_persistence ::
  "int \<Rightarrow> int \<Rightarrow> int \<Rightarrow> string \<Rightarrow> string \<Rightarrow> int list \<Rightarrow> bool \<Rightarrow> nat \<Rightarrow> broker option \<Rightarrow> (store, persistence_runtime) action" where
  "start_persistence schema t0 t1 station environment addresses simulated maxsize live =
    bind_act (ensure_pumps t0 station addresses) (\<lambda>pumps.
    bind_act (recover schema t1 station) (\<lambda>report.
    read_act (\<lambda>d. return_act
      \<lparr>pe_recovery = report, pe_pump_ids = pumps,
       pe_bridge = (new_bridge station environment simulated pumps (logical_names addresses) live None d,
                    start_worker (new_worker maxsize))\<rparr>)))"

text \<open>The worker is given five seconds to work off its queue, which are the passes it gets to make.\<close>

definition shutdown_persistence ::
  "(string \<Rightarrow> string) \<Rightarrow> (int \<Rightarrow> string) \<Rightarrow> int \<Rightarrow> nat \<Rightarrow> persistence_runtime \<Rightarrow> persistence_runtime" where
  "shutdown_persistence sha isot now passes r =
    r\<lparr>pe_bridge := stop_worker (run_job sha isot now) True passes (pe_bridge r)\<rparr>"

text \<open>The recovered contexts by address; of two pumps with one address the last one counts.\<close>

definition by_address :: "(string \<times> pump_context) list \<Rightarrow> int \<Rightarrow> pump_context option" where
  "by_address contexts = foldl (\<lambda>m (l, ctx). m(pc_dart_address ctx \<mapsto> ctx)) Map.empty contexts"

definition seed_session :: "pump_context \<Rightarrow> pump_session \<Rightarrow> pump_session" where
  "seed_session ctx s = s\<lparr>cs_context := ctx\<lparr>pc_communication_healthy := False\<rparr>, cs_last_state := pc_current_state ctx\<rparr>"

definition apply_recovered_contexts :: "(string \<times> pump_context) list \<Rightarrow> 'w controller \<Rightarrow> 'w controller" where
  "apply_recovered_contexts contexts c =
    c\<lparr>cl_sessions := map (\<lambda>(a, s). (a, case by_address contexts a of None \<Rightarrow> s | Some ctx \<Rightarrow> seed_session ctx s)) (cl_sessions c)\<rparr>"

lemma seeded_session:
  "map_of (cl_sessions (apply_recovered_contexts contexts c)) a =
    map_option (\<lambda>s. case by_address contexts a of None \<Rightarrow> s | Some ctx \<Rightarrow> seed_session ctx s) (map_of (cl_sessions c) a)"
proof -
  have "map_of (map (\<lambda>(k, s). (k, g k s)) al) a = map_option (g a) (map_of al a)" for g :: "int \<Rightarrow> pump_session \<Rightarrow> pump_session" and al
    by (induction al) auto
  then show ?thesis by (simp add: apply_recovered_contexts_def)
qed

section \<open>What the line tells a restored session\<close>

text \<open>No report of a pump starts or loses the communication of the machine: only the session itself applies those events.\<close>

lemma mapped_never_line:
  "mp_event (map_wayne_observation tx ctx) \<noteq> COMMUNICATION_STARTED \<and> mp_event (map_wayne_observation tx ctx) \<noteq> COMMUNICATION_LOST"
proof -
  have code: "mp_event (status_code_to_event code obs previous current) \<notin> {COMMUNICATION_STARTED, COMMUNICATION_LOST}"
    for code obs previous current
    by (cases "wayne_status_of code") (auto simp: status_code_to_event_def split: wayne_status.splits)
  have dc3: "mp_event (map_dc3 tx obs ctx) \<notin> {COMMUNICATION_STARTED, COMMUNICATION_LOST}" for obs
  proof (cases "at_body tx")
    case (Some b)
    then show ?thesis by (cases b) (simp_all add: map_dc3_def Let_def)
  qed (simp add: map_dc3_def Let_def)
  show ?thesis
    using code dc3
    by (cases "at_type tx"; cases "extract_raw_status tx")
      (auto simp: map_wayne_observation_def map_ambiguous_cd1_dc1_def map_dc1_def Let_def)
qed

lemma unhealthy_not_eligible: "\<not> pc_communication_healthy ctx \<Longrightarrow> command \<noteq> READ_STATUS \<Longrightarrow> \<not> is_eligible command ctx preset"
  by (cases command) (auto simp: is_eligible_def blocking_reasons_def Let_def bind_result_Inr_iff)

text \<open>A session that was seeded, and what it has announced since it had announced \<open>old\<close>.\<close>

definition announces_unhealthy :: "controller_event \<Rightarrow> bool" where
  "announces_unhealthy e = (case ce_payload e of State_payload y \<Rightarrow> \<not> sy_healthy y | _ \<Rightarrow> True)"

definition unheard :: "controller_event list \<Rightarrow> pump_session \<Rightarrow> bool" where
  "unheard old s \<longleftrightarrow> \<not> pc_communication_healthy (cs_context s) \<and> pc_current_state (cs_context s) \<noteq> DISCONNECTED \<and>
    (\<exists>new. eb_events (cs_bus s) = old @ new \<and> list_all announces_unhealthy new)"

lemma unheard_cong: "cs_context s' = cs_context s \<Longrightarrow> cs_bus s' = cs_bus s \<Longrightarrow> unheard old s' = unheard old s"
  by (simp add: unheard_def)

lemma unheard_fields [simp]:
  "unheard old (count_stat g s) = unheard old s" "unheard old (set_error e s) = unheard old s"
  "unheard old (s\<lparr>cs_last_poll_at := t\<rparr>) = unheard old s"
  "unheard old (s\<lparr>cs_last_raw_frame := w, cs_last_response_at := t\<rparr>) = unheard old s"
  "unheard old (s\<lparr>cs_consecutive_timeouts := n\<rparr>) = unheard old s"
  "unheard old (s\<lparr>cs_consecutive_timeouts := n, cs_last_valid_frame := w\<rparr>) = unheard old s"
  "unheard old (s\<lparr>cs_communication := h\<rparr>) = unheard old s"
  "unheard old (s\<lparr>cs_last_accepted_rx := k\<rparr>) = unheard old s"
  "unheard old (s\<lparr>cs_expected_rx := m\<rparr>) = unheard old s"
  by (rule unheard_cong; simp)+

lemma unheard_publish:
  assumes "\<And>y. p = State_payload y \<Longrightarrow> \<not> sy_healthy y"
  shows "keeps (unheard old) (publish_event now ty d p)"
  using assms
  by (cases p) (auto simp: keeps_def unheard_def publish_event_def publish_def announces_unhealthy_def Let_def split: prod.splits)

lemma unheard_step:
  assumes "\<not> pc_communication_healthy ctx" "pc_current_state ctx \<noteq> DISCONNECTED" "ev \<noteq> COMMUNICATION_STARTED" "ev \<noteq> COMMUNICATION_LOST"
  shows "\<not> pc_communication_healthy (tr_context (apply_event ctx ev args)) \<and>
    pc_current_state (tr_context (apply_event ctx ev args)) \<noteq> DISCONNECTED"
  using assms enter_DISCONNECTED [of "pc_current_state ctx" ev] unfolding apply_event_def Let_def
  by (auto split: option.split)

lemma unheard_applied:
  assumes "unheard old s" "ev \<noteq> COMMUNICATION_STARTED" "ev \<noteq> COMMUNICATION_LOST"
  shows "unheard old (s\<lparr>cs_context := tr_context (apply_event (cs_context s) ev args), cs_last_state := st, cs_completion_keys := K\<rparr>)"
  using assms unheard_step [of "cs_context s" ev args] by (simp add: unheard_def)

lemma unheard_mapped:
  "mp_event m \<noteq> COMMUNICATION_STARTED \<Longrightarrow> mp_event m \<noteq> COMMUNICATION_LOST \<Longrightarrow> keeps (unheard old) (apply_mapped_session now m)"
proof -
  assume ev: "mp_event m \<noteq> COMMUNICATION_STARTED" "mp_event m \<noteq> COMMUNICATION_LOST"
  have change: "\<not> pc_communication_healthy ctx \<Longrightarrow> keeps (unheard old) (publish_state_changed now before after e ctx key)"
    for before after e ctx key
    unfolding publish_state_changed_def by (rule unheard_publish) auto
  have "unheard old (snd (apply_mapped_session now m s))" if u: "unheard old s" for s
  proof -
    have "\<not> pc_communication_healthy (tr_context (apply_event (cs_context s) (mp_event m) (session_args m)))"
      using unheard_step [OF _ _ ev] u by (simp add: unheard_def)
    from keepsD [OF change [OF this]] unheard_applied [OF u ev] u show ?thesis
      unfolding apply_mapped_session_def Let_def read_act_def then_act_simp modify_act_def by simp
  qed
  then show ?thesis by (simp add: keeps_def)
qed

lemma unheard_transactions: "keeps (unheard old) (apply_transactions now txs)"
proof (induction txs)
  case (Cons tx txs)
  have "keeps (unheard old) (apply_transaction now tx)"
    unfolding apply_transaction_def
    by (intro keeps_then unheard_publish keeps_read_each unheard_mapped) (simp_all add: mapped_never_line)
  with Cons show ?case by (simp only: apply_transactions.simps keeps_then)
qed (simp only: apply_transactions.simps keeps_return)

lemma unheard_start: "keeps (unheard old) (start_if_disconnected now)"
  by (auto simp: keeps_def start_if_disconnected_def unheard_def)

lemma unheard_communication: "keeps (unheard old) (set_communication now h)"
proof -
  have "keeps (unheard old) (then_act (modify_act (\<lambda>s. s\<lparr>cs_communication := h\<rparr>)) (if prev = h then return_act ()
       else then_act
         (if h = Comm_HEALTHY \<and> prev \<in> {Comm_UNKNOWN, Comm_DISCONNECTED, Comm_DEGRADED}
          then publish_event now PUMP_CONNECTED Empty_detail No_payload else return_act ())
         (if h = Comm_DISCONNECTED
          then publish_event now PUMP_DISCONNECTED Empty_detail No_payload else return_act ())))" for prev
    by (intro keeps_then keeps_modify keeps_if keeps_return unheard_publish) simp_all
  then show ?thesis unfolding set_communication_def Let_def by (intro keeps_read) (rule keepsD)
qed

lemmas unheard_intros = keeps_then keeps_bind keeps_modify keeps_read_each keeps_if keeps_return keeps_result
  unheard_publish unheard_communication unheard_start unheard_transactions

lemma unheard_response: "keeps (unheard old) (handle_response_frame now f)"
proof -
  have "keeps (unheard old) (on_data now f)"
    unfolding on_data_def reject_data_def repeat_ack_def accept_data_def observe_data_def record_data_def decode_and_apply_def count_ack_def
    by (intro unheard_intros) simp_all
  moreover have "keeps (unheard old) (on_eot now f)" "keeps (unheard old) (on_nak now f)"
    "keeps (unheard old) (then_act (modify_act (set_error e)) (return_act (None :: bytes option)))" for e
    unfolding on_eot_def on_nak_def by (intro unheard_intros; simp)+
  ultimately have "keeps (unheard old) (case lf_control_type f of CtEOT \<Rightarrow> on_eot now f | CtDATA \<Rightarrow> on_data now f | CtNAK \<Rightarrow> on_nak now f
      | ct \<Rightarrow> then_act (modify_act (set_error (Error_unexpected_control ct))) (return_act None))"
    by (simp del: then_act_simp split: control_type.split)
  then show ?thesis
    unfolding handle_response_frame_def by (intro unheard_intros) simp_all
qed

lemma unheard_poll: "keeps (unheard old) (session_build_poll now)"
  unfolding session_build_poll_def by (intro unheard_intros) simp_all

lemma unheard_timeout:
  assumes "unheard old s" "int (cs_consecutive_timeouts s + 1) < m"
  shows "unheard old (snd (on_timeout now m s))"
proof -
  let ?s = "set_error Error_response_timeout
      ((count_stat (\<lambda>t. t\<lparr>st_timeout_count := st_timeout_count t + 1\<rparr>) s)\<lparr>cs_consecutive_timeouts := cs_consecutive_timeouts s + 1\<rparr>)"
  have n: "\<not> int (cs_consecutive_timeouts ?s) \<ge> m" using assms(2) by (simp add: set_error_def)
  have "keeps (unheard old) (then_act (publish_event now RESPONSE_TIMEOUT (Consecutive_detail (cs_consecutive_timeouts ?s)) No_payload)
      (if cs_consecutive_timeouts ?s \<ge> 2 then set_communication now Comm_DEGRADED else return_act ()))"
    by (intro unheard_intros) simp_all
  from keepsD [OF this, of ?s] assms(1) n show ?thesis
    unfolding on_timeout_def by (simp add: modify_act_def read_act_def)
qed

text \<open>The line holds: no poll of the run is the one at which the session gives the pump up.\<close>

fun line_holds :: "pump_session \<Rightarrow> session_input list \<Rightarrow> bool" where
  "line_holds s [] = True"
| "line_holds s (i # is) \<longleftrightarrow>
     (case i of Timeout now m \<Rightarrow> int (cs_consecutive_timeouts s + 1) < m | _ \<Rightarrow> True) \<and> line_holds (session_step s i) is"

lemma unheard_run: "unheard old s \<Longrightarrow> line_holds s is \<Longrightarrow> unheard old (foldl session_step s is)"
proof (induction "is" arbitrary: s)
  case (Cons i "is")
  have "unheard old (session_step s i)"
    using Cons.prems
    by (cases i) (simp_all add: unheard_timeout keepsD [OF unheard_poll] keepsD [OF unheard_response])
  with Cons show ?case by simp
qed simp

text \<open>
  C12. A pump the controller restarts with is not heard again. Once a session is seeded with a recovered state other than DISCONNECTED,
  nothing the pump answers makes the machine healthy, as long as the pump keeps answering: every state change is announced,
  and so stored, as unhealthy, and no command but a status read is eligible. (Only an unhealthy DISCONNECTED machine is
  started by a valid frame, and nothing calls \<open>reconcile_after_restart\<close>.)
\<close>

theorem recovered_pump_is_never_heard:
  assumes "map_of (cl_sessions (apply_recovered_contexts contexts c)) a = Some s"
    and "by_address contexts a = Some ctx" "pc_current_state ctx \<noteq> DISCONNECTED" "line_holds s is"
  shows "let s' = foldl session_step s is in
    \<not> pc_communication_healthy (cs_context s') \<and>
    (command \<noteq> READ_STATUS \<longrightarrow> \<not> is_eligible command (cs_context s') preset) \<and>
    (\<exists>new. eb_events (cs_bus s') = eb_events (cs_bus s) @ new \<and> list_all announces_unhealthy new)"
proof -
  from assms(1,2) obtain s0 where "s = seed_session ctx s0" by (auto simp: seeded_session)
  with assms(3) have "unheard (eb_events (cs_bus s)) s" by (simp add: unheard_def seed_session_def)
  from unheard_run [OF this assms(4)] have u: "unheard (eb_events (cs_bus s)) (foldl session_step s is)" .
  moreover from u have "command \<noteq> READ_STATUS \<Longrightarrow> \<not> is_eligible command (cs_context (foldl session_step s is)) preset"
    using unhealthy_not_eligible by (simp add: unheard_def)
  ultimately show ?thesis by (simp add: unheard_def Let_def)
qed

definition restored_ready :: pump_context where
  "restored_ready = (new_context ''pump-1'' 1)\<lparr>pc_current_state := READY\<rparr>"

definition restarted_controller :: "unit controller" where
  "restarted_controller = apply_recovered_contexts [(''pump-1'', restored_ready)]
     (new_controller default_poll_config default_lab_safety new_bus \<lparr>oq_max_size = 64, oq_items = []\<rparr> ())"

definition heard_frame :: line_frame where
  "heard_frame = (data_frame 1 [])\<lparr>lf_control_type := CtEOT\<rparr>"

theorem recovered_pump_is_never_heard_witness:
  "\<exists>s. map_of (cl_sessions restarted_controller) 1 = Some s \<and>
    (let s' = foldl session_step s [Timeout 1 5, Response 2 heard_frame] in
      \<not> pc_communication_healthy (cs_context s') \<and>
      \<not> is_eligible AUTHORIZE (cs_context s') None \<and>
      (\<exists>new. eb_events (cs_bus s') = eb_events (cs_bus s) @ new \<and> list_all announces_unhealthy new))"
proof -
  let ?s0 = "new_pump_session 1 (''pump-'' @ int_text 1) new_bus SPEC_F_TO_1"
  let ?s = "seed_session restored_ready ?s0"
  have s: "map_of (cl_sessions restarted_controller) 1 = Some ?s"
    by (simp add: restarted_controller_def seeded_session by_address_def restored_ready_def new_context_def new_controller_def
        default_poll_config_def)
  have c: "by_address [(''pump-1'', restored_ready)] 1 = Some restored_ready" "pc_current_state restored_ready \<noteq> DISCONNECTED"
    by (simp_all add: by_address_def restored_ready_def new_context_def)
  have "line_holds ?s [Timeout 1 5, Response 2 heard_frame]"
    by (simp add: seed_session_def new_pump_session_def)
  from s recovered_pump_is_never_heard [OF s [unfolded restarted_controller_def] c this, of AUTHORIZE None]
  show ?thesis by (auto simp: restarted_controller_def Let_def)
qed

end
