(* ===== verification/Api_Queries.thy ===== *)
theory Api_Queries
  imports Api_Commands Db_Ledger Db_Audit
begin

text \<open>
  The routes that only read: \<open>api/services/query.py\<close> with the response models, \<open>api/routes/pumps.py\<close>,
  \<open>api/routes/transactions.py\<close> and \<open>api/routes/alarms.py\<close>. A route is a function of the store, since its unit of work
  writes nothing. FastAPI has checked that a page number is at least 1. Of \<open>last_protocol_error\<close>, which is a text, the model
  keeps the constructor.
\<close>

section \<open>Amounts\<close>

text \<open>
  \<open>format(Decimal(raw).scaleb(-decimals), "f")\<close>. The columns are 64-bit integers, within the 28 digits of the decimal context. A zero
  with a positive exponent is written without trailing zeros.
\<close>

definition fixed_digits :: "nat \<Rightarrow> int \<Rightarrow> string" where
  "fixed_digits n decimals =
    (if decimals \<le> 0 then nat_text n @ (if n = 0 then [] else replicate (nat (- decimals)) CHR ''0'')
     else
       let k = nat decimals; ds = nat_text n; padded = replicate (Suc k - length ds) CHR ''0'' @ ds
       in take (length padded - k) padded @ ''.'' @ drop (length padded - k) padded)"

definition format_scaled :: "int option \<Rightarrow> int option \<Rightarrow> string option" where
  "format_scaled raw decimals =
    (case (raw, decimals) of
       (Some n, Some d) \<Rightarrow> Some ((if n < 0 then ''-'' else []) @ fixed_digits (nat \<bar>n\<bar>) d)
     | _ \<Rightarrow> None)"

section \<open>Pages\<close>

record page_meta =
  pm_page :: int
  pm_page_size :: int
  pm_total :: int
  pm_total_pages :: int

text \<open>The quotient under \<open>ceil\<close> is a float, which is exact enough for totals below 2 to the power of 53.\<close>

definition page_meta :: "int \<Rightarrow> int \<Rightarrow> int \<Rightarrow> page_meta" where
  "page_meta n per found =
    \<lparr>pm_page = n, pm_page_size = per, pm_total = found,
     pm_total_pages = (if per \<noteq> 0 then max 1 \<lceil>of_int found / (of_int per :: rat)\<rceil> else 1)\<rparr>"

definition clamp_page :: "int \<Rightarrow> int \<Rightarrow> int \<Rightarrow> int \<times> int \<times> int" where
  "clamp_page n per max_size =
    (let n = max 1 n; per = min (max 1 per) max_size in (n, per, (n - 1) * per))"

text \<open>The settings \<open>default_page_size\<close> and \<open>max_page_size\<close>, each at least 1, and \<open>page_size or default\<close>.\<close>

record page_limits =
  pl_default :: int
  pl_max :: int

definition chosen_size :: "page_limits \<Rightarrow> int option \<Rightarrow> int" where
  "chosen_size lims per = (case per of None \<Rightarrow> pl_default lims | Some n \<Rightarrow> if n = 0 then pl_default lims else n)"

section \<open>Transactions\<close>

record transaction_response =
  rt_id :: string
  rt_uuid :: string
  rt_station :: string
  rt_pump :: string
  rt_nozzle :: "int option"
  rt_status :: string
  rt_raw_price :: "int option"
  rt_price_decimals :: "int option"
  rt_price_formatted :: "string option"
  rt_raw_volume :: int
  rt_volume_decimals :: "int option"
  rt_volume_formatted :: "string option"
  rt_raw_amount :: int
  rt_amount_decimals :: "int option"
  rt_amount_formatted :: "string option"
  rt_started_at :: "int option"
  rt_completed_at :: "int option"
  rt_closed_at :: "int option"
  rt_completion_key :: "string option"
  rt_environment :: string
  rt_simulated :: bool
  rt_event_count :: nat

definition to_transaction :: "transaction_row \<Rightarrow> nat \<Rightarrow> transaction_response" where
  "to_transaction r n =
    \<lparr>rt_id = tx_id r, rt_uuid = tx_uuid r, rt_station = tx_station r, rt_pump = tx_pump r, rt_nozzle = tx_nozzle r,
     rt_status = tx_status r, rt_raw_price = tx_raw_price r, rt_price_decimals = tx_price_decimals r,
     rt_price_formatted = format_scaled (tx_raw_price r) (tx_price_decimals r), rt_raw_volume = tx_raw_volume r,
     rt_volume_decimals = tx_volume_decimals r,
     rt_volume_formatted = format_scaled (Some (tx_raw_volume r)) (tx_volume_decimals r), rt_raw_amount = tx_raw_amount r,
     rt_amount_decimals = tx_amount_decimals r,
     rt_amount_formatted = format_scaled (Some (tx_raw_amount r)) (tx_amount_decimals r), rt_started_at = tx_started_at r,
     rt_completed_at = tx_completed_at r, rt_closed_at = tx_closed_at r, rt_completion_key = tx_completion_key r,
     rt_environment = tx_environment r, rt_simulated = tx_simulated r, rt_event_count = n\<rparr>"

record transaction_event_response =
  rv_id :: string
  rv_transaction :: string
  rv_type :: string
  rv_key :: string
  rv_payload :: "json option"
  rv_source :: "string option"
  rv_observed_at :: "int option"
  rv_created_at :: int

definition to_tx_event :: "transaction_event_row \<Rightarrow> transaction_event_response" where
  "to_tx_event r = \<lparr>rv_id = te_id r, rv_transaction = te_transaction r, rv_type = te_type r, rv_key = te_key r,
     rv_payload = te_payload r, rv_source = te_source r, rv_observed_at = te_observed_at r, rv_created_at = te_created_at r\<rparr>"

definition counted :: "store \<Rightarrow> transaction_row \<Rightarrow> transaction_response" where
  "counted d r = to_transaction r (length (events_of (tx_id r) d))"

definition station_or :: "api_settings \<Rightarrow> transaction_filter \<Rightarrow> transaction_filter" where
  "station_or st f = f\<lparr>tf_station := Some (if truthy_string (tf_station f) then the (tf_station f) else st_station st)\<rparr>"

definition list_transactions_route ::
  "api_settings \<Rightarrow> page_limits \<Rightarrow> transaction_filter \<Rightarrow> int \<Rightarrow> int option \<Rightarrow> store \<Rightarrow> transaction_response list \<times> page_meta" where
  "list_transactions_route st lims f n per d =
    (case clamp_page n (chosen_size lims per) (pl_max lims) of
       (n, per, offset) \<Rightarrow>
         (case list_transactions (station_or st f) (nat offset) (nat per) d of
            (items, found) \<Rightarrow> (map (counted d) items, page_meta n per (int found))))"

definition get_transaction :: "string \<Rightarrow> store \<Rightarrow> api_error + transaction_response" where
  "get_transaction t d =
    (case get_by_id t d of None \<Rightarrow> Inl (Api_error ''TRANSACTION_NOT_FOUND'' 404 []) | Some r \<Rightarrow> Inr (counted d r))"

definition get_transaction_events :: "string \<Rightarrow> store \<Rightarrow> api_error + transaction_event_response list" where
  "get_transaction_events t d =
    (case get_by_id t d of
       None \<Rightarrow> Inl (Api_error ''TRANSACTION_NOT_FOUND'' 404 [])
     | Some r \<Rightarrow> Inr (map to_tx_event (events_of (tx_id r) d)))"

section \<open>Alarms and the audit trail\<close>

record alarm_response =
  ra_id :: string
  ra_station :: string
  ra_pump :: "string option"
  ra_severity :: string
  ra_type :: string
  ra_message :: string
  ra_active :: bool
  ra_first_seen_at :: int
  ra_last_seen_at :: int
  ra_cleared_at :: "int option"
  ra_source_key :: string

definition to_alarm :: "alarm_row \<Rightarrow> alarm_response" where
  "to_alarm r = \<lparr>ra_id = al_id r, ra_station = al_station r, ra_pump = al_pump r, ra_severity = al_severity r, ra_type = al_type r,
     ra_message = al_message r, ra_active = al_active r, ra_first_seen_at = al_first_seen_at r,
     ra_last_seen_at = al_last_seen_at r, ra_cleared_at = al_cleared_at r, ra_source_key = al_source_key r\<rparr>"

definition list_alarms_route ::
  "api_settings \<Rightarrow> page_limits \<Rightarrow> alarm_filter \<Rightarrow> int \<Rightarrow> int option \<Rightarrow> store \<Rightarrow> alarm_response list \<times> page_meta" where
  "list_alarms_route st lims f n per d =
    (case clamp_page n (chosen_size lims per) (pl_max lims) of
       (n, per, offset) \<Rightarrow>
         (case list_alarms (f\<lparr>af_station := Some (st_station st)\<rparr>) (nat offset) (nat per) d of
            (items, found) \<Rightarrow> (map to_alarm items, page_meta n per (int found))))"

definition get_alarm_route :: "string \<Rightarrow> store \<Rightarrow> api_error + alarm_response" where
  "get_alarm_route a d = (case get_alarm a d of None \<Rightarrow> Inl (Api_error ''ALARM_NOT_FOUND'' 404 []) | Some r \<Rightarrow> Inr (to_alarm r))"

record audit_response =
  rd_id :: string
  rd_correlation_id :: "string option"
  rd_actor :: string
  rd_source :: string
  rd_action :: string
  rd_station :: string
  rd_pump :: "string option"
  rd_previous_state :: "string option"
  rd_resulting_state :: "string option"
  rd_result :: string
  rd_created_at :: int
  rd_previous_hash :: string
  rd_record_hash :: string

definition to_audit :: "audit_row \<Rightarrow> audit_response" where
  "to_audit r = \<lparr>rd_id = au_id r, rd_correlation_id = au_correlation_id r, rd_actor = au_actor r, rd_source = au_source r,
     rd_action = au_action r, rd_station = au_station r, rd_pump = au_pump r, rd_previous_state = au_previous_state r,
     rd_resulting_state = au_resulting_state r, rd_result = au_result r, rd_created_at = au_created_at r,
     rd_previous_hash = au_previous_hash r, rd_record_hash = au_record_hash r\<rparr>"

definition list_audit_route ::
  "api_settings \<Rightarrow> page_limits \<Rightarrow> audit_filter \<Rightarrow> int \<Rightarrow> int option \<Rightarrow> store \<Rightarrow> audit_response list \<times> page_meta" where
  "list_audit_route st lims f n per d =
    (case clamp_page n (chosen_size lims per) (pl_max lims) of
       (n, per, offset) \<Rightarrow>
         (case list_audit_filtered (f\<lparr>uf_station := Some (st_station st)\<rparr>) (nat offset) (nat per) d of
            (items, found) \<Rightarrow> (map to_audit items, page_meta n per (int found))))"

text \<open>\<open>verify_audit\<close>: the report of the chain; an empty identifier is answered as none.\<close>

record audit_verify_response =
  ry_valid :: bool
  ry_checked :: nat
  ry_first_invalid :: "string option"
  ry_genesis :: string
  ry_reason :: "chain_reason option"

definition verify_audit :: "(string \<Rightarrow> string) \<Rightarrow> (int \<Rightarrow> string) \<Rightarrow> store \<Rightarrow> audit_verify_response" where
  "verify_audit sha isot d =
    (let r = verify_chain_report sha isot d
     in \<lparr>ry_valid = cr_valid r, ry_checked = cr_checked r,
         ry_first_invalid = (if truthy_string (cr_first_invalid r) then cr_first_invalid r else None),
         ry_genesis = AUDIT_GENESIS_HASH, ry_reason = cr_reason r\<rparr>)"

section \<open>Pumps\<close>

fun communication_value :: "communication_health \<Rightarrow> string" where
  "communication_value Comm_UNKNOWN = ''UNKNOWN''"
| "communication_value Comm_HEALTHY = ''HEALTHY''"
| "communication_value Comm_DEGRADED = ''DEGRADED''"
| "communication_value Comm_DISCONNECTED = ''DISCONNECTED''"

record pump_status_response =
  rp_logical :: string
  rp_db_id :: string
  rp_address :: int
  rp_enabled :: bool
  rp_state :: string
  rp_previous :: "string option"
  rp_communication :: string
  rp_nozzle :: "int option"
  rp_active_transaction :: "string option"
  rp_price_verified :: bool
  rp_last_status :: "int option"
  rp_version :: int
  rp_observed_at :: "int option"
  rp_transition_at :: "int option"
  rp_timeout_count :: nat
  rp_retry_count :: nat
  rp_last_error :: "session_error option"
  rp_simulated :: bool
  rp_environment :: string

text \<open>What a route adds from the session of the pump: timeouts, the \<open>retries\<close>, the last error, the health and the price flag.\<close>

record session_info =
  si_timeouts :: nat
  si_retries :: nat
  si_last_error :: "session_error option"
  si_communication :: "string option"
  si_price_verified :: bool

definition session_info :: "'w controller option \<Rightarrow> int \<Rightarrow> session_info" where
  "session_info loop address =
    (case Option.bind loop (\<lambda>c. map_of (cl_sessions c) address) of
       None \<Rightarrow> \<lparr>si_timeouts = 0, si_retries = 0, si_last_error = None, si_communication = None, si_price_verified = False\<rparr>
     | Some s \<Rightarrow> \<lparr>si_timeouts = st_timeout_count (cs_stats s), si_retries = cs_consecutive_timeouts s,
         si_last_error = cs_last_error s, si_communication = Some (communication_value (cs_communication s)),
         si_price_verified = pc_price_verified (cs_context s)\<rparr>)"

definition to_pump_status :: "api_settings \<Rightarrow> pump_row \<Rightarrow> snapshot_row option \<Rightarrow> session_info \<Rightarrow> pump_status_response" where
  "to_pump_status st p snap i =
    \<lparr>rp_logical = pr_logical p, rp_db_id = pr_id p, rp_address = pr_address p, rp_enabled = pr_enabled p,
     rp_state = (case snap of None \<Rightarrow> ''DISCONNECTED'' | Some s \<Rightarrow> sn_state s),
     rp_previous = Option.bind snap sn_previous,
     rp_communication = (case si_communication i of
        Some v \<Rightarrow> v
      | None \<Rightarrow> (case snap of None \<Rightarrow> ''DISCONNECTED'' | Some s \<Rightarrow> if sn_healthy s then ''HEALTHY'' else ''DISCONNECTED'')),
     rp_nozzle = Option.bind snap sn_nozzle, rp_active_transaction = Option.bind snap sn_active_transaction,
     rp_price_verified = si_price_verified i, rp_last_status = Option.bind snap sn_raw_status,
     rp_version = (case snap of None \<Rightarrow> 0 | Some s \<Rightarrow> sn_version s), rp_observed_at = Option.bind snap sn_observed_at,
     rp_transition_at = map_option sn_persisted_at snap, rp_timeout_count = si_timeouts i, rp_retry_count = si_retries i,
     rp_last_error = si_last_error i, rp_simulated = st_simulated st, rp_environment = st_environment st\<rparr>"

definition list_pumps :: "api_settings \<Rightarrow> 'w controller option \<Rightarrow> store \<Rightarrow> pump_status_response list" where
  "list_pumps st loop d =
    map (\<lambda>p. to_pump_status st p (latest_snapshot (pr_id p) d) (session_info loop (pr_address p)))
      (pumps_of_station (st_station st) d)"

definition pump_and_snapshot :: "api_settings \<Rightarrow> string \<Rightarrow> store \<Rightarrow> api_error + pump_row \<times> snapshot_row option" where
  "pump_and_snapshot st pid d =
    (case resolve_pump (st_station st) pid d of
       None \<Rightarrow> Inl (Api_error ''PUMP_NOT_FOUND'' 404 [])
     | Some p \<Rightarrow> Inr (p, latest_snapshot (pr_id p) d))"

definition get_pump_status :: "api_settings \<Rightarrow> 'w controller option \<Rightarrow> string \<Rightarrow> store \<Rightarrow> api_error + pump_status_response" where
  "get_pump_status st loop pid d =
    (case pump_and_snapshot st pid d of
       Inl e \<Rightarrow> Inl e
     | Inr (p, snap) \<Rightarrow> Inr (to_pump_status st p snap (session_info loop (pr_address p))))"

record pump_totals_response =
  rm_logical :: string
  rm_raw_volume :: "int option"
  rm_volume_decimals :: "int option"
  rm_volume_formatted :: "string option"
  rm_raw_amount :: "int option"
  rm_amount_decimals :: "int option"
  rm_amount_formatted :: "string option"

definition sales_of_pump :: "api_settings \<Rightarrow> pump_row \<Rightarrow> transaction_filter" where
  "sales_of_pump st p = no_filter\<lparr>tf_station := Some (st_station st), tf_pump := Some (pr_id p)\<rparr>"

definition get_pump_totals :: "api_settings \<Rightarrow> string \<Rightarrow> store \<Rightarrow> api_error + pump_totals_response" where
  "get_pump_totals st pid d =
    (case pump_and_snapshot st pid d of
       Inl e \<Rightarrow> Inl e
     | Inr (p, snap) \<Rightarrow>
         (case fst (list_transactions (sales_of_pump st p) 0 1 d) of
            [] \<Rightarrow> Inr \<lparr>rm_logical = pr_logical p, rm_raw_volume = None, rm_volume_decimals = None, rm_volume_formatted = None,
              rm_raw_amount = None, rm_amount_decimals = None, rm_amount_formatted = None\<rparr>
          | t # ts \<Rightarrow> Inr \<lparr>rm_logical = pr_logical p, rm_raw_volume = Some (tx_raw_volume t),
              rm_volume_decimals = tx_volume_decimals t,
              rm_volume_formatted = format_scaled (Some (tx_raw_volume t)) (tx_volume_decimals t),
              rm_raw_amount = Some (tx_raw_amount t), rm_amount_decimals = tx_amount_decimals t,
              rm_amount_formatted = format_scaled (Some (tx_raw_amount t)) (tx_amount_decimals t)\<rparr>))"

text \<open>A negative limit of SQLite is no limit.\<close>

definition sql_limit :: "int \<Rightarrow> store \<Rightarrow> nat" where
  "sql_limit n d = (if n < 0 then length (store.db_transactions d) else nat n)"

fun collect_events :: "int \<Rightarrow> 'e list \<Rightarrow> 'e list \<Rightarrow> 'e list" where
  "collect_events n events [] = events"
| "collect_events n events (e # es) =
    (let events = events @ [e] in if int (length events) \<ge> n then events else collect_events n events es)"

definition get_pump_events ::
  "api_settings \<Rightarrow> page_limits \<Rightarrow> string \<Rightarrow> int \<Rightarrow> store \<Rightarrow> api_error + (string \<times> string \<times> string \<times> int) list" where
  "get_pump_events st lims pid n d =
    (case pump_and_snapshot st pid d of
       Inl e \<Rightarrow> Inl e
     | Inr (p, snap) \<Rightarrow>
         Inr (collect_events n []
           (concat (map (\<lambda>t. map (\<lambda>e. (tx_uuid t, te_type e, te_key e, te_created_at e)) (events_of (tx_id t) d))
             (fst (list_transactions (sales_of_pump st p) 0 (sql_limit (min n (pl_max lims)) d) d))))))"

section \<open>Amounts are exact\<close>

text \<open>The number a decimal text stands for.\<close>

definition decimal_value :: "string \<Rightarrow> nat" where
  "decimal_value s = foldl (\<lambda>n c. n * 10 + (of_char c - 48)) 0 s"

definition text_value :: "string \<Rightarrow> rat" where
  "text_value s =
    (let neg = (s \<noteq> [] \<and> hd s = CHR ''-''); t = (if neg then tl s else s);
         whole = takeWhile (\<lambda>c. c \<noteq> CHR ''.'') t; fraction = drop (length whole + 1) t
     in (if neg then -1 else 1) * (of_nat (decimal_value (whole @ fraction)) / 10 ^ length fraction))"

definition is_digit :: "char \<Rightarrow> bool" where
  "is_digit c \<longleftrightarrow> (48::nat) \<le> of_char c \<and> of_char c \<le> (57::nat)"

lemma decimal_digit: "n < 10 \<Longrightarrow> of_char (hex_digit n) = (48 + n :: nat) \<and> is_digit (hex_digit n)"
proof -
  assume "n < 10"
  then have "n \<in> {0, 1, 2, 3, 4, 5, 6, 7, 8, 9}" by auto
  then show ?thesis by (auto simp: hex_digit_def is_digit_def)
qed

lemma decimal_value_append: "decimal_value (xs @ [c]) = decimal_value xs * 10 + (of_char c - 48)"
  by (simp add: decimal_value_def)

lemma decimal_value_nat_text: "decimal_value (nat_text n) = n \<and> list_all is_digit (nat_text n)"
proof (induction n rule: nat_text.induct)
  case (1 n)
  show ?case
  proof (cases "n < 10")
    case True
    then show ?thesis by (subst (1 2) nat_text.simps) (simp add: decimal_digit decimal_value_def)
  next
    case False
    with 1 show ?thesis by (subst (1 2) nat_text.simps) (simp add: decimal_digit decimal_value_append)
  qed
qed

lemma decimal_value_zeros: "decimal_value (replicate k CHR ''0'' @ s) = decimal_value s"
proof -
  have "foldl (\<lambda>n c. n * 10 + (of_char c - 48)) 0 (replicate k CHR ''0'') = (0::nat)" by (induction k) simp_all
  then show ?thesis by (simp add: decimal_value_def)
qed

lemma decimal_value_shift: "decimal_value (s @ replicate k CHR ''0'') = decimal_value s * 10 ^ k"
proof (induction k)
  case (Suc k)
  have "s @ replicate (Suc k) CHR ''0'' = (s @ replicate k CHR ''0'') @ [CHR ''0'']"
    by (simp only: replicate_Suc append_assoc replicate_append_same)
  with Suc show ?case by (simp only: decimal_value_append) simp
qed simp

lemma digits_read:
  assumes "list_all is_digit w" "list_all is_digit f" "w \<noteq> []"
  shows "text_value (w @ f) = of_nat (decimal_value (w @ f))"
    "text_value (''-'' @ w @ f) = - of_nat (decimal_value (w @ f))"
    "text_value (w @ ''.'' @ f) = of_nat (decimal_value (w @ f)) / 10 ^ length f"
    "text_value (''-'' @ w @ ''.'' @ f) = - (of_nat (decimal_value (w @ f)) / 10 ^ length f)"
proof -
  have dig: "is_digit c \<Longrightarrow> c \<noteq> CHR ''.'' \<and> c \<noteq> CHR ''-''" for c by (auto simp: is_digit_def)
  have all: "takeWhile (\<lambda>c. c \<noteq> CHR ''.'') w = w" "takeWhile (\<lambda>c. c \<noteq> CHR ''.'') f = f"
    using assms(1,2) dig by (auto simp: takeWhile_eq_all_conv list_all_iff)
  have cut: "takeWhile (\<lambda>c. c \<noteq> CHR ''.'') (w @ CHR ''.'' # f) = w" "takeWhile (\<lambda>c. c \<noteq> CHR ''.'') (w @ f) = w @ f"
    using assms(1) dig all by (auto simp: takeWhile_append list_all_iff)
  have hd: "hd w \<noteq> CHR ''-''" using assms(1,3) dig by (cases w) auto
  show "text_value (w @ f) = of_nat (decimal_value (w @ f))"
    "text_value (''-'' @ w @ f) = - of_nat (decimal_value (w @ f))"
    "text_value (w @ ''.'' @ f) = of_nat (decimal_value (w @ f)) / 10 ^ length f"
    "text_value (''-'' @ w @ ''.'' @ f) = - (of_nat (decimal_value (w @ f)) / 10 ^ length f)"
    using assms(3) by (simp_all add: text_value_def Let_def cut hd)
qed

lemma fixed_decimal_value:
  "\<exists>w f. fixed_digits n d = w @ (if d \<le> 0 then [] else ''.'') @ f \<and> list_all is_digit w \<and> list_all is_digit f \<and> w \<noteq> [] \<and>
    (if d \<le> 0 then f = [] else length f = nat d) \<and> decimal_value (w @ f) = n * 10 ^ nat (- d)"
proof (cases "d \<le> 0")
  case True
  let ?w = "nat_text n @ (if n = 0 then [] else replicate (nat (- d)) CHR ''0'')"
  have "list_all is_digit (replicate k CHR ''0'')" for k by (simp add: list_all_iff is_digit_def)
  then have "list_all is_digit ?w" "decimal_value ?w = n * 10 ^ nat (- d)"
    using decimal_value_nat_text by (simp_all add: decimal_value_shift)
  then show ?thesis using True by (intro exI [of _ ?w] exI [of _ "[]"]) (simp add: fixed_digits_def)
next
  case False
  let ?k = "nat d"
  define p where "p = replicate (Suc ?k - length (nat_text n)) CHR ''0'' @ nat_text n"
  let ?w = "take (length p - ?k) p" and ?f = "drop (length p - ?k) p"
  have len: "?k < length p" by (simp add: p_def)
  have digs: "list_all is_digit p" using decimal_value_nat_text [of n] by (auto simp: p_def list_all_iff is_digit_def)
  then have "list_all is_digit ?w" "list_all is_digit ?f" by (auto simp: list_all_iff dest: in_set_takeD in_set_dropD)
  moreover have "?w \<noteq> []" "length ?f = ?k" using len by auto
  moreover have "decimal_value (?w @ ?f) = n"
    using decimal_value_nat_text [of n] by (simp only: append_take_drop_id p_def decimal_value_zeros)
  moreover have "fixed_digits n d = ?w @ ''.'' @ ?f" using False by (simp add: fixed_digits_def Let_def p_def)
  ultimately show ?thesis using False by (intro exI [of _ ?w] exI [of _ ?f]) simp
qed

text \<open>
  C38. The amounts shown are exact: the text that \<open>format_scaled\<close> writes stands for the raw integer divided by ten to the power of the
  decimals, whatever their signs, and no text is written only when one of the two is unknown.
\<close>

theorem formatted_amount_is_exact:
  "case format_scaled raw decimals of
     None \<Rightarrow> raw = None \<or> decimals = None
   | Some s \<Rightarrow> (\<exists>n d. raw = Some n \<and> decimals = Some d \<and> text_value s = of_int n * 10 powi (- d))"
proof (cases "format_scaled raw decimals")
  case None
  then show ?thesis by (auto simp: format_scaled_def split: option.splits)
next
  case (Some s)
  then obtain n d where nd: "raw = Some n" "decimals = Some d" and s: "s = (if n < 0 then ''-'' else []) @ fixed_digits (nat \<bar>n\<bar>) d"
    by (auto simp: format_scaled_def split: option.splits)
  from fixed_decimal_value [of "nat \<bar>n\<bar>" d] obtain w f where
    w: "fixed_digits (nat \<bar>n\<bar>) d = w @ (if d \<le> 0 then [] else ''.'') @ f" "list_all is_digit w" "list_all is_digit f" "w \<noteq> []"
      "if d \<le> 0 then f = [] else length f = nat d" "decimal_value (w @ f) = nat \<bar>n\<bar> * 10 ^ nat (- d)" by blast
  have abs: "of_nat (nat \<bar>n\<bar>) = (if n < 0 then - of_int n else of_int n :: rat)" by simp
  have "text_value s = of_int n * 10 powi (- d)"
    using s w(1,5) digits_read [OF w(2-4)] w(6) abs
    by (cases "d \<le> 0"; cases "n < 0") (auto simp: power_int_def field_simps)
  with Some nd show ?thesis by simp
qed

section \<open>Paging\<close>

lemma upto_from_one: "[1..int n] = map (\<lambda>k. int k + 1) [0..<n]"
proof (induction n)
  case (Suc n)
  have "[1..int (Suc n)] = [1..int n] @ [int n + 1]" by (simp add: upto_rec2)
  with Suc show ?case by simp
qed simp

text \<open>The number of pages is the least that holds all.\<close>

lemma pages_suffice:
  assumes "1 \<le> per" "0 \<le> found"
  shows "found \<le> pm_total_pages (page_meta n per found) * per \<and> 1 \<le> pm_total_pages (page_meta n per found)"
proof -
  let ?q = "of_int found / (of_int per :: rat)"
  have "of_int found = ?q * of_int per" using assms(1) by simp
  also have "\<dots> \<le> of_int \<lceil>?q\<rceil> * of_int per" using assms(1) by (intro mult_right_mono) simp_all
  finally have "found \<le> \<lceil>?q\<rceil> * per" by (metis of_int_le_iff of_int_mult)
  also have "\<dots> \<le> max 1 \<lceil>?q\<rceil> * per" using assms(1) by (intro mult_right_mono) simp_all
  finally show ?thesis using assms(1) by (simp add: page_meta_def)
qed

text \<open>
  C39. The pages of the sales are the list of the sales: from page 1 to the number of pages that each of them reports, they hold one
  after the other every selected sale once, newest first, with the number of its events, and no page is longer than
  the configured maximum, whatever page size the client asks for.
\<close>

theorem route_pages_are_the_list:
  assumes "1 \<le> pl_max lims"
  shows "\<exists>rows. mset rows = mset (filter (transaction_selected (station_or st f)) (store.db_transactions d)) \<and>
    sorted_wrt (\<lambda>r r'. tx_created_at r' \<le> tx_created_at r) rows \<and>
    concat (map (\<lambda>i. fst (list_transactions_route st lims f i asked d))
      [1..pm_total_pages (snd (list_transactions_route st lims f n asked d))]) = map (counted d) rows \<and>
    int (length (fst (list_transactions_route st lims f n asked d))) \<le> pl_max lims"
proof -
  define sel where "sel = filter (transaction_selected (station_or st f)) (store.db_transactions d)"
  define rows where "rows = sort_desc tx_created_at (sort_desc_null tx_started_at sel)"
  define per where "per = min (max 1 (chosen_size lims asked)) (pl_max lims)"
  define k where "k = pm_total_pages (page_meta (max 1 n) per (int (length sel)))"
  have per: "1 \<le> per" "per \<le> pl_max lims" using assms by (auto simp: per_def)
  have m: "mset rows = mset sel" unfolding rows_def by (simp only: mset_sort_desc)
  then have len: "length rows = length sel" by (metis size_mset)
  have route: "list_transactions_route st lims f i asked d =
      (map (counted d) (page (nat ((max 1 i - 1) * per)) (nat per) rows), page_meta (max 1 i) per (int (length sel)))" for i
    by (simp add: list_transactions_route_def clamp_page_def list_transactions_def Let_def sel_def rows_def per_def)
  have k: "int (length sel) \<le> k * per" "1 \<le> k"
    using pages_suffice [OF per(1), of "int (length sel)" "max 1 n"] by (simp_all add: k_def)
  have off: "nat (int j * per) = j * nat per" for j
    using per(1) by (simp add: nat_mult_distrib)
  have "length rows \<le> nat k * nat per"
    using k per(1) by (simp add: len nat_le_iff le_nat_iff flip: nat_mult_distrib)
  then have all: "concat (map (\<lambda>j. page (j * nat per) (nat per) rows) [0..<nat k]) = rows" by (simp only: pages_concat take_all)
  have "[1..k] = map (\<lambda>j. int j + 1) [0..<nat k]" using upto_from_one [of "nat k"] k(2) by simp
  then have "concat (map (\<lambda>i. fst (list_transactions_route st lims f i asked d)) [1..k]) =
      concat (map (\<lambda>j. map (counted d) (page (j * nat per) (nat per) rows)) [0..<nat k])"
    by (simp add: route off o_def)
  also have "\<dots> = map (counted d) (concat (map (\<lambda>j. page (j * nat per) (nat per) rows) [0..<nat k]))"
    by (simp add: map_concat o_def)
  finally have pages: "concat (map (\<lambda>i. fst (list_transactions_route st lims f i asked d)) [1..k]) = map (counted d) rows"
    unfolding all .
  have "sorted (map (\<lambda>r. - tx_created_at r) rows)" by (simp add: rows_def sort_desc_def)
  then have sorted: "sorted_wrt (\<lambda>r r'. tx_created_at r' \<le> tx_created_at r) rows" by (simp add: sorted_map)
  have "int (length (fst (list_transactions_route st lims f n asked d))) \<le> pl_max lims"
    using per by (simp add: route page_def)
  with m sorted pages show ?thesis unfolding sel_def k_def by (intro exI [of _ rows]) (simp add: route sel_def)
qed

definition lab_limits :: page_limits where
  "lab_limits = \<lparr>pl_default = 25, pl_max = 1\<rparr>"

theorem route_pages_are_the_list_witness:
  "\<exists>rows. mset rows = mset (filter (transaction_selected (station_or lab_settings no_filter)) (store.db_transactions two_sales)) \<and>
    sorted_wrt (\<lambda>r r'. tx_created_at r' \<le> tx_created_at r) rows \<and>
    concat (map (\<lambda>i. fst (list_transactions_route lab_settings lab_limits no_filter i None two_sales))
      [1..pm_total_pages (snd (list_transactions_route lab_settings lab_limits no_filter 1 None two_sales))]) = map (counted two_sales) rows \<and>
    int (length (fst (list_transactions_route lab_settings lab_limits no_filter 1 None two_sales))) \<le> pl_max lab_limits"
  by (rule route_pages_are_the_list) (simp add: lab_limits_def)

section \<open>The history of a pump\<close>

lemma collected: "collect_events n es xs = es @ take (if xs = [] then 0 else max 1 (nat n - length es)) xs"
proof (induction xs arbitrary: es)
  case (Cons x xs)
  show ?case
  proof (cases "int (length es) + 1 \<ge> n")
    case True
    then have "max 1 (nat n - length es) = 1" by linarith
    with True show ?thesis by (simp add: Let_def)
  next
    case False
    then have "max 1 (nat n - length es) = Suc (nat n - length es - 1)" "max 1 (nat n - Suc (length es)) = nat n - length es - 1"
      by linarith+
    with False Cons show ?thesis by (simp add: Let_def)
  qed
qed simp

text \<open>The history is cut to the limit the client gives, and to one event when that is not positive.\<close>

theorem pump_history_is_limited:
  "case get_pump_events st lims pid n d of
     Inl e \<Rightarrow> e = Api_error ''PUMP_NOT_FOUND'' 404 [] \<and> resolve_pump (st_station st) pid d = None
   | Inr es \<Rightarrow> int (length es) \<le> max 1 n"
  by (auto simp: get_pump_events_def pump_and_snapshot_def collected split: sum.splits option.splits)

end
