(* ===== verification/Core_Config.thy ===== *)
theory Core_Config
  imports Ctl_Outbound Complex_Main
begin

text \<open>
  \<open>core/config.py\<close> and \<open>cloud/mqtt/config.py\<close>: the settings, the bounds that pydantic checks when they are read from the
  environment, the two rules of \<open>get_settings\<close>, and the configuration of the MQTT client. A float is a rational.
\<close>

section \<open>The groups of settings\<close>

record controller_settings =
  ct_mode :: controller_mode
  ct_device :: string
  ct_station :: string

record dart_settings =
  da_serial_port :: string
  da_baud_rate :: int
  da_data_bits :: int
  da_parity :: string
  da_stop_bits :: int
  da_response_timeout_ms :: int

record safety_settings =
  sf_active_enabled :: bool
  sf_remote_authorization :: bool
  sf_require_physical :: bool
  sf_allow_lab :: bool

record database_settings =
  ds_url :: string
  ds_raw_frames_days :: int
  ds_snapshot_days :: int
  ds_transaction_days :: int
  ds_audit_days :: int
  ds_delivered_days :: int

record mqtt_settings =
  ms_enabled :: bool
  ms_host :: string
  ms_port :: int
  ms_username :: "string option"
  ms_password :: "string option"
  ms_client_id :: "string option"
  ms_tls_enabled :: bool
  ms_ca_file :: "string option"
  ms_client_cert :: "string option"
  ms_client_key :: "string option"
  ms_keepalive :: int
  ms_connect_timeout :: rat
  ms_reconnect_min :: rat
  ms_reconnect_max :: rat
  ms_max_inflight :: int
  ms_clean_session :: bool
  ms_session_expiry :: int
  ms_default_qos :: int
  ms_heartbeat_interval :: rat
  ms_command_subscription :: bool
  ms_topic_environment :: "string option"
  ms_fill_min_interval :: rat
  ms_fill_min_volume :: int
  ms_fill_min_amount :: int
  ms_batch_size :: int
  ms_poll_interval :: rat
  ms_stale_lock :: int
  ms_max_attempts :: int

record http_settings =
  hs_host :: string
  hs_port :: int
  hs_max_page_size :: int
  hs_default_page_size :: int
  hs_max_sse :: int
  hs_max_ws :: int
  hs_event_queue_size :: int
  hs_keepalive :: rat
  hs_max_body :: int
  hs_start_loop :: bool
  hs_addresses :: string
  hs_simulated :: bool

record settings =
  se_environment :: string
  se_controller :: controller_settings
  se_dart :: dart_settings
  se_safety :: safety_settings
  se_database :: database_settings
  se_mqtt :: mqtt_settings
  se_api :: http_settings

section \<open>Defaults\<close>

definition default_controller :: controller_settings where
  "default_controller = \<lparr>ct_mode = LISTEN_ONLY, ct_device = ''InteliPump-Lab-pi-001'', ct_station = ''InteliPump-US-Lab''\<rparr>"

definition default_dart :: dart_settings where
  "default_dart = \<lparr>da_serial_port = ''/tmp/dart-controller'', da_baud_rate = 9600, da_data_bits = 8, da_parity = ''ODD'',
     da_stop_bits = 1, da_response_timeout_ms = 25\<rparr>"

definition default_safety :: safety_settings where
  "default_safety = \<lparr>sf_active_enabled = False, sf_remote_authorization = False, sf_require_physical = True, sf_allow_lab = False\<rparr>"

definition default_database :: database_settings where
  "default_database = \<lparr>ds_url = ''sqlite+aiosqlite:///./data/intelipump.db'', ds_raw_frames_days = 30, ds_snapshot_days = 14,
     ds_transaction_days = 365, ds_audit_days = 730, ds_delivered_days = 30\<rparr>"

definition default_mqtt :: mqtt_settings where
  "default_mqtt = \<lparr>ms_enabled = False, ms_host = ''127.0.0.1'', ms_port = 1883, ms_username = None, ms_password = None,
     ms_client_id = None, ms_tls_enabled = False, ms_ca_file = None, ms_client_cert = None, ms_client_key = None,
     ms_keepalive = 30, ms_connect_timeout = 10, ms_reconnect_min = 1, ms_reconnect_max = 60, ms_max_inflight = 20,
     ms_clean_session = True, ms_session_expiry = 0, ms_default_qos = 1, ms_heartbeat_interval = 30,
     ms_command_subscription = False, ms_topic_environment = None, ms_fill_min_interval = 2, ms_fill_min_volume = 100,
     ms_fill_min_amount = 100, ms_batch_size = 10, ms_poll_interval = 1, ms_stale_lock = 60, ms_max_attempts = 20\<rparr>"

definition default_http :: http_settings where
  "default_http = \<lparr>hs_host = ''127.0.0.1'', hs_port = 8000, hs_max_page_size = 100, hs_default_page_size = 25, hs_max_sse = 32,
     hs_max_ws = 32, hs_event_queue_size = 128, hs_keepalive = 15, hs_max_body = 1048576, hs_start_loop = False,
     hs_addresses = ''1,2'', hs_simulated = True\<rparr>"

definition default_settings :: settings where
  "default_settings = \<lparr>se_environment = ''LAB'', se_controller = default_controller, se_dart = default_dart,
     se_safety = default_safety, se_database = default_database, se_mqtt = default_mqtt, se_api = default_http\<rparr>"

section \<open>Bounds\<close>

definition dart_valid :: "dart_settings \<Rightarrow> bool" where
  "dart_valid s \<longleftrightarrow> 1 \<le> da_response_timeout_ms s \<and> da_response_timeout_ms s \<le> 1000"

definition database_valid :: "database_settings \<Rightarrow> bool" where
  "database_valid s \<longleftrightarrow> 1 \<le> ds_raw_frames_days s \<and> 1 \<le> ds_snapshot_days s \<and> 1 \<le> ds_transaction_days s \<and>
     1 \<le> ds_audit_days s \<and> 1 \<le> ds_delivered_days s"

definition mqtt_valid :: "mqtt_settings \<Rightarrow> bool" where
  "mqtt_valid s \<longleftrightarrow> 5 \<le> ms_keepalive s \<and> 1 \<le> ms_connect_timeout s \<and> 1 / 10 \<le> ms_reconnect_min s \<and> 1 \<le> ms_reconnect_max s \<and>
     1 \<le> ms_max_inflight s \<and> 0 \<le> ms_session_expiry s \<and> 0 \<le> ms_default_qos s \<and> ms_default_qos s \<le> 2 \<and>
     5 \<le> ms_heartbeat_interval s \<and> 0 \<le> ms_fill_min_interval s \<and> 0 \<le> ms_fill_min_volume s \<and> 0 \<le> ms_fill_min_amount s \<and>
     1 \<le> ms_batch_size s \<and> ms_batch_size s \<le> 100 \<and> 1 / 10 \<le> ms_poll_interval s \<and> 5 \<le> ms_stale_lock s \<and> 1 \<le> ms_max_attempts s"

definition http_valid :: "http_settings \<Rightarrow> bool" where
  "http_valid s \<longleftrightarrow> 1 \<le> hs_max_page_size s \<and> hs_max_page_size s \<le> 1000 \<and> 1 \<le> hs_default_page_size s \<and>
     hs_default_page_size s \<le> 1000 \<and> 1 \<le> hs_max_sse s \<and> 1 \<le> hs_max_ws s \<and> 8 \<le> hs_event_queue_size s \<and>
     1 \<le> hs_keepalive s \<and> 1024 \<le> hs_max_body s"

definition settings_valid :: "settings \<Rightarrow> bool" where
  "settings_valid s \<longleftrightarrow> dart_valid (se_dart s) \<and> database_valid (se_database s) \<and> mqtt_valid (se_mqtt s) \<and> http_valid (se_api s)"

section \<open>Loading\<close>

definition ends_in :: "string \<Rightarrow> string \<Rightarrow> bool" where
  "ends_in part s \<longleftrightarrow> length part \<le> length s \<and> drop (length s - length part) s = part"

text \<open>\<open>get_settings\<close>; a bound that does not hold is a \<open>ValidationError\<close>, which is a \<open>ValueError\<close>.\<close>

definition get_settings :: "settings \<Rightarrow> settings result" where
  "get_settings s =
    (if \<not> settings_valid s then Inl ValueError
     else if ct_mode (se_controller s) = LISTEN_ONLY \<and> sf_active_enabled (se_safety s) then Inl ValueError
     else if upper (se_environment s) = ''LAB'' \<and> \<not> ends_in ''-Lab'' (ct_station (se_controller s)) then Inl ValueError
     else Inr s)"

section \<open>The MQTT client\<close>

record mqtt_client_config =
  mc_host :: string
  mc_port :: int
  mc_client_id :: string
  mc_username :: "string option"
  mc_password :: "string option"
  mc_tls_enabled :: bool
  mc_ca_file :: "string option"
  mc_client_cert :: "string option"
  mc_client_key :: "string option"
  mc_keepalive :: int
  mc_connect_timeout :: rat
  mc_reconnect_min :: rat
  mc_reconnect_max :: rat
  mc_max_inflight :: int
  mc_clean_session :: bool
  mc_default_qos :: int

definition mqtt_config_from_settings :: "mqtt_settings \<Rightarrow> string \<Rightarrow> mqtt_client_config" where
  "mqtt_config_from_settings s device =
    \<lparr>mc_host = ms_host s, mc_port = ms_port s,
     mc_client_id = (if truthy_string (ms_client_id s) then the (ms_client_id s) else device @ ''-mqtt''),
     mc_username = ms_username s, mc_password = ms_password s, mc_tls_enabled = ms_tls_enabled s, mc_ca_file = ms_ca_file s,
     mc_client_cert = ms_client_cert s, mc_client_key = ms_client_key s, mc_keepalive = ms_keepalive s,
     mc_connect_timeout = ms_connect_timeout s, mc_reconnect_min = ms_reconnect_min s, mc_reconnect_max = ms_reconnect_max s,
     mc_max_inflight = ms_max_inflight s, mc_clean_session = ms_clean_session s, mc_default_qos = ms_default_qos s\<rparr>"

definition sanitized_host :: "mqtt_client_config \<Rightarrow> string" where
  "sanitized_host c = mc_host c @ '':'' @ int_text (mc_port c)"

text \<open>\<open>__repr__\<close>; \<open>repr\<close> of a text is an argument. Neither the name of the user nor the password is written.\<close>

definition config_repr :: "(string \<Rightarrow> string) \<Rightarrow> mqtt_client_config \<Rightarrow> string" where
  "config_repr rep c =
    ''MqttClientConfig(host='' @ rep (mc_host c) @ '', port='' @ int_text (mc_port c) @ '', client_id='' @ rep (mc_client_id c) @
    '', tls='' @ (if mc_tls_enabled c then ''True'' else ''False'') @ '', username='' @
    (if truthy_string (mc_username c) then ''***'' else ''None'') @ '')''"

section \<open>What loaded settings promise\<close>

text \<open>
  Settings that load are safe to run with: active commands are off while the controller only listens, a laboratory runs under a
  laboratory's station name, the pages of the interface hold at least one row, and a text of the client's configuration
  shows neither password nor user name (it does not depend on them).
\<close>

theorem loaded_settings_are_safe:
  assumes "get_settings s = Inr s'"
  shows "s' = s \<and> (sf_active_enabled (se_safety s') \<longrightarrow> ct_mode (se_controller s') \<noteq> LISTEN_ONLY) \<and>
    (upper (se_environment s') = ''LAB'' \<longrightarrow> (\<exists>name. ct_station (se_controller s') = name @ ''-Lab'')) \<and>
    1 \<le> hs_max_page_size (se_api s') \<and> 8 \<le> hs_event_queue_size (se_api s') \<and> 1 \<le> ms_batch_size (se_mqtt s') \<and>
    (truthy_string u = truthy_string (ms_username (se_mqtt s')) \<longrightarrow>
      config_repr rep (mqtt_config_from_settings (se_mqtt s') device) =
      config_repr rep (mqtt_config_from_settings ((se_mqtt s')\<lparr>ms_username := u, ms_password := p\<rparr>) device))"
proof -
  have "ends_in part t \<Longrightarrow> \<exists>name. t = name @ part" for part t
    unfolding ends_in_def by (metis append_take_drop_id)
  with assms show ?thesis
    by (auto simp: get_settings_def settings_valid_def http_valid_def mqtt_valid_def config_repr_def mqtt_config_from_settings_def
        split: if_splits)
qed

lemma default_settings_load: "get_settings default_settings = Inr default_settings"
  by (simp add: get_settings_def default_settings_def settings_valid_def dart_valid_def default_dart_def database_valid_def
      default_database_def mqtt_valid_def default_mqtt_def http_valid_def default_http_def default_controller_def
      default_safety_def ends_in_def)

theorem loaded_settings_are_safe_witness:
  "(sf_active_enabled (se_safety default_settings) \<longrightarrow> ct_mode (se_controller default_settings) \<noteq> LISTEN_ONLY) \<and>
   1 \<le> hs_max_page_size (se_api default_settings)"
  using loaded_settings_are_safe [OF default_settings_load, of None "\<lambda>t. t" "''d''" None] by blast

end
