(* ===== verification/Cloud_Client.thy ===== *)
theory Cloud_Client
  imports Core_Config "HOL-Library.AList"
begin

text \<open>
  \<open>cloud/mqtt/client.py\<close> and \<open>cloud/mqtt/models.py\<close>: the asynchronous face of the paho client. What is asked of paho is a list
  of calls; what its network thread reports are callbacks; what a callback leaves to the event loop waits in a queue. A method
  is cut where another thread or task can come between: \<open>connect\<close> at its wait, and \<open>publish\<close> after the call of paho and at its wait.
  Building the TLS context and the text of an error are not modelled.
\<close>

section \<open>State\<close>

datatype mqtt_connection_state = Mqtt_DISCONNECTED | Mqtt_CONNECTING | Mqtt_CONNECTED | Mqtt_RECONNECTING

datatype mqtt_note = Connect_timeout | Connect_rc int | Disconnect_rc int

record mqtt_message =
  mg_topic :: string
  mg_payload :: string
  mg_qos :: nat
  mg_retain :: bool

record mqtt_metadata =
  mm_state :: mqtt_connection_state
  mm_host :: string
  mm_port :: int
  mm_client_id :: string
  mm_last_connected_at :: "int option"
  mm_last_disconnected_at :: "int option"
  mm_last_error :: "mqtt_note option"
  mm_reconnect_count :: nat
  mm_tls_enabled :: bool

datatype paho_call =
    Paho_new string bool
  | Paho_credentials string "string option"
  | Paho_tls "string option" "(string \<times> string) option"
  | Paho_will mqtt_message
  | Paho_reconnect_delay int int
  | Paho_connect_async string int int
  | Paho_loop_start
  | Paho_loop_stop
  | Paho_disconnect
  | Paho_publish mqtt_message
  | Paho_subscribe string nat
  | Paho_unsubscribe string

text \<open>What a callback hands to the event loop with \<open>call_soon_threadsafe\<close>.\<close>

datatype loop_call = Set_connected | Clear_connected | Notify_connection | Set_result nat | Dispatch mqtt_message

text \<open>
  \<open>ph_pending\<close> are the keys of \<open>_pending_acks\<close>, \<open>ph_futures\<close> the futures that were put there, whether they are done.
\<close>

record paho_client =
  ph_config :: mqtt_client_config
  ph_meta :: mqtt_metadata
  ph_handler :: bool
  ph_connection_handler :: bool
  ph_client :: bool
  ph_loop :: bool
  ph_connected :: bool
  ph_will :: "mqtt_message option"
  ph_subscriptions :: "(string \<times> nat) list"
  ph_pending :: "nat set"
  ph_futures :: "nat \<Rightarrow> bool option"
  ph_calls :: "paho_call list"
  ph_scheduled :: "loop_call list"

definition new_client :: "mqtt_client_config \<Rightarrow> paho_client" where
  "new_client cfg =
    \<lparr>ph_config = cfg,
     ph_meta = \<lparr>mm_state = Mqtt_DISCONNECTED, mm_host = mc_host cfg, mm_port = mc_port cfg, mm_client_id = mc_client_id cfg,
       mm_last_connected_at = None, mm_last_disconnected_at = None, mm_last_error = None, mm_reconnect_count = 0,
       mm_tls_enabled = mc_tls_enabled cfg\<rparr>,
     ph_handler = False, ph_connection_handler = False, ph_client = False, ph_loop = False, ph_connected = False, ph_will = None,
     ph_subscriptions = [], ph_pending = {}, ph_futures = (\<lambda>_. None), ph_calls = [], ph_scheduled = []\<rparr>"

definition client_connected :: "paho_client \<Rightarrow> bool" where
  "client_connected c \<longleftrightarrow> mm_state (ph_meta c) = Mqtt_CONNECTED"

definition set_state :: "mqtt_connection_state \<Rightarrow> paho_client \<Rightarrow> paho_client" where
  "set_state st c = c\<lparr>ph_meta := (ph_meta c)\<lparr>mm_state := st\<rparr>\<rparr>"

definition call_paho :: "paho_call list \<Rightarrow> paho_client \<Rightarrow> paho_client" where
  "call_paho cs c = c\<lparr>ph_calls := ph_calls c @ cs\<rparr>"

definition schedule :: "loop_call list \<Rightarrow> paho_client \<Rightarrow> paho_client" where
  "schedule ls c = c\<lparr>ph_scheduled := ph_scheduled c @ ls\<rparr>"

definition set_message_handler :: "bool \<Rightarrow> paho_client \<Rightarrow> paho_client" where
  "set_message_handler h c = c\<lparr>ph_handler := h\<rparr>"

definition set_connection_handler :: "bool \<Rightarrow> paho_client \<Rightarrow> paho_client" where
  "set_connection_handler h c = c\<lparr>ph_connection_handler := h\<rparr>"

definition set_will :: "string \<Rightarrow> string \<Rightarrow> nat \<Rightarrow> bool \<Rightarrow> paho_client \<Rightarrow> paho_client" where
  "set_will topic payload qos retain c =
    c\<lparr>ph_will := Some \<lparr>mg_topic = topic, mg_payload = payload, mg_qos = qos, mg_retain = retain\<rparr>\<rparr>"

section \<open>Connecting\<close>

definition connect_calls :: "paho_client \<Rightarrow> paho_call list" where
  "connect_calls c = (let cfg = ph_config c in
     [Paho_new (mc_client_id cfg) (mc_clean_session cfg)] @
     (if truthy_string (mc_username cfg) then [Paho_credentials (the (mc_username cfg)) (mc_password cfg)] else []) @
     (if mc_tls_enabled cfg
      then [Paho_tls (if truthy_string (mc_ca_file cfg) then mc_ca_file cfg else None)
              (if truthy_string (mc_client_cert cfg) \<and> truthy_string (mc_client_key cfg)
               then Some (the (mc_client_cert cfg), the (mc_client_key cfg)) else None)]
      else []) @
     (case ph_will c of None \<Rightarrow> [] | Some w \<Rightarrow> [Paho_will w]) @
     [Paho_reconnect_delay (max 1 \<lfloor>mc_reconnect_min cfg\<rfloor>) (max 1 \<lfloor>mc_reconnect_max cfg\<rfloor>),
      Paho_connect_async (mc_host cfg) (mc_port cfg) (mc_keepalive cfg), Paho_loop_start])"

text \<open>Up to the wait for \<open>_connected\<close>, and after it: the event was set in time or not.\<close>

definition begin_connect :: "paho_client \<Rightarrow> paho_client" where
  "begin_connect c = call_paho (connect_calls c) ((set_state Mqtt_CONNECTING c)\<lparr>ph_loop := True, ph_client := True\<rparr>)"

definition finish_connect :: "(paho_client, unit) action" where
  "finish_connect c =
    (if ph_connected c then (Inr (), c)
     else (Inl MqttError, c\<lparr>ph_meta := (ph_meta c)\<lparr>mm_last_error := Some Connect_timeout, mm_state := Mqtt_DISCONNECTED\<rparr>\<rparr>))"

definition client_disconnect :: "int \<Rightarrow> paho_client \<Rightarrow> paho_client" where
  "client_disconnect now c =
    (let c = (if ph_client c then (call_paho [Paho_loop_stop, Paho_disconnect] c)\<lparr>ph_client := False\<rparr> else c)
     in c\<lparr>ph_connected := False,
          ph_meta := (ph_meta c)\<lparr>mm_state := Mqtt_DISCONNECTED, mm_last_disconnected_at := Some now\<rparr>\<rparr>)"

section \<open>Publishing\<close>

text \<open>Up to paho's answer, a return code and a message number; the result is the number to wait for, if any.\<close>

definition send_publication :: "int \<Rightarrow> nat \<Rightarrow> mqtt_message \<Rightarrow> (paho_client, nat option) action" where
  "send_publication rc mid m c =
    (if \<not> client_connected c \<or> \<not> ph_client c then (Inl MqttNotConnectedError, c)
     else let c = call_paho [Paho_publish m] c in
       if rc \<noteq> 0 then (Inl MqttPublishError, c) else (Inr (if mg_qos m > 0 then Some mid else None), c))"

definition register_ack :: "nat \<Rightarrow> paho_client \<Rightarrow> paho_client" where
  "register_ack mid c = c\<lparr>ph_pending := insert mid (ph_pending c), ph_futures := (ph_futures c)(mid := Some False)\<rparr>"

text \<open>The end of the wait: the future is done, or ten seconds are over.\<close>

definition await_ack :: "nat \<Rightarrow> (paho_client, bool) action" where
  "await_ack mid c =
    (if ph_futures c mid = Some True then (Inr True, c)
     else (Inl MqttPublishError, c\<lparr>ph_pending := ph_pending c - {mid}\<rparr>))"

section \<open>Subscriptions\<close>

definition client_subscribe :: "string \<Rightarrow> nat \<Rightarrow> (paho_client, unit) action" where
  "client_subscribe topic qos c =
    (if \<not> client_connected c \<or> \<not> ph_client c then (Inl MqttNotConnectedError, c)
     else (Inr (), (call_paho [Paho_subscribe topic qos] c)\<lparr>ph_subscriptions := AList.update topic qos (ph_subscriptions c)\<rparr>))"

definition client_unsubscribe :: "string \<Rightarrow> paho_client \<Rightarrow> paho_client" where
  "client_unsubscribe topic c =
    (let c = (if ph_client c then call_paho [Paho_unsubscribe topic] c else c)
     in c\<lparr>ph_subscriptions := AList.delete topic (ph_subscriptions c)\<rparr>)"

section \<open>Callbacks of the network thread\<close>

definition client_on_connect :: "int \<Rightarrow> int \<Rightarrow> paho_client \<Rightarrow> paho_client" where
  "client_on_connect now rc c =
    (if rc = 0 then
       let c = c\<lparr>ph_meta := (ph_meta c)\<lparr>mm_state := Mqtt_CONNECTED, mm_last_connected_at := Some now, mm_last_error := None\<rparr>\<rparr>
       in if ph_loop c
          then schedule ([Set_connected] @ (if ph_connection_handler c then [Notify_connection] else []))
                 (call_paho (map (\<lambda>(t, q). Paho_subscribe t q) (ph_subscriptions c)) c)
          else c
     else c\<lparr>ph_meta := (ph_meta c)\<lparr>mm_last_error := Some (Connect_rc rc), mm_state := Mqtt_DISCONNECTED\<rparr>\<rparr>)"

definition client_on_disconnect :: "int \<Rightarrow> int \<Rightarrow> paho_client \<Rightarrow> paho_client" where
  "client_on_disconnect now rc c =
    (let c = c\<lparr>ph_meta := (ph_meta c)\<lparr>mm_state := Mqtt_DISCONNECTED, mm_last_disconnected_at := Some now,
                mm_reconnect_count := mm_reconnect_count (ph_meta c) + 1, mm_last_error := Some (Disconnect_rc rc)\<rparr>\<rparr>
     in if ph_loop c
        then schedule ([Clear_connected] @ (if ph_connection_handler c then [Notify_connection] else [])) c else c)"

definition client_on_message :: "mqtt_message \<Rightarrow> paho_client \<Rightarrow> paho_client" where
  "client_on_message m c = (if \<not> ph_handler c \<or> \<not> ph_loop c then c else schedule [Dispatch m] c)"

definition client_on_publish :: "nat \<Rightarrow> paho_client \<Rightarrow> paho_client" where
  "client_on_publish mid c =
    (if mid \<in> ph_pending c
     then let c' = c\<lparr>ph_pending := ph_pending c - {mid}\<rparr>
          in if ph_futures c mid \<noteq> Some True \<and> ph_loop c then schedule [Set_result mid] c' else c'
     else c)"

text \<open>The event loop runs the first call that waits. What the handlers do is not part of the client.\<close>

definition loop_turn :: "paho_client \<Rightarrow> paho_client" where
  "loop_turn c =
    (case ph_scheduled c of
       [] \<Rightarrow> c
     | l # ls \<Rightarrow>
         let c = c\<lparr>ph_scheduled := ls\<rparr>
         in case l of
              Set_connected \<Rightarrow> c\<lparr>ph_connected := True\<rparr>
            | Clear_connected \<Rightarrow> c\<lparr>ph_connected := False\<rparr>
            | Set_result mid \<Rightarrow> c\<lparr>ph_futures := (ph_futures c)(mid := Some True)\<rparr>
            | _ \<Rightarrow> c)"

section \<open>Runs\<close>

text \<open>
  What can happen to a client: calls of its user, callbacks, and turns of the event loop. The network thread lives while there is a
  paho client; the runtime connects only a client that has none.
\<close>

datatype client_op =
    Op_connect
  | Op_finish_connect
  | Op_disconnect int
  | Op_subscribe string nat
  | Op_unsubscribe string
  | Op_send int nat mqtt_message
  | Op_register nat
  | Op_await nat
  | Op_on_connect int int
  | Op_on_disconnect int int
  | Op_on_message mqtt_message
  | Op_on_publish nat
  | Op_turn

fun client_step :: "paho_client \<Rightarrow> client_op \<Rightarrow> paho_client" where
  "client_step c Op_connect = (if ph_client c then c else begin_connect c)"
| "client_step c Op_finish_connect = snd (finish_connect c)"
| "client_step c (Op_disconnect now) = client_disconnect now c"
| "client_step c (Op_subscribe topic qos) = snd (client_subscribe topic qos c)"
| "client_step c (Op_unsubscribe topic) = client_unsubscribe topic c"
| "client_step c (Op_send rc mid m) = snd (send_publication rc mid m c)"
| "client_step c (Op_register mid) = register_ack mid c"
| "client_step c (Op_await mid) = snd (await_ack mid c)"
| "client_step c (Op_on_connect now rc) = (if ph_client c then client_on_connect now rc c else c)"
| "client_step c (Op_on_disconnect now rc) = (if ph_client c then client_on_disconnect now rc c else c)"
| "client_step c (Op_on_message m) = (if ph_client c then client_on_message m c else c)"
| "client_step c (Op_on_publish mid) = (if ph_client c then client_on_publish mid c else c)"
| "client_step c Op_turn = loop_turn c"

text \<open>
  The session at the broker: whether the client is on line, and its subscriptions. A call reaches the broker while the client is on
  line. With \<open>clean_session\<close> a session ends with its connection and a new connection starts with none; without it the broker
  keeps the subscriptions from one connection to the next. A refused connection changes no session.
\<close>

record broker_session =
  bk_online :: bool
  bk_subscriptions :: "(string \<times> nat) list"

fun at_broker :: "(string \<times> nat) list \<Rightarrow> paho_call list \<Rightarrow> (string \<times> nat) list" where
  "at_broker ts [] = ts"
| "at_broker ts (Paho_subscribe t q # cs) = at_broker (AList.update t q ts) cs"
| "at_broker ts (Paho_unsubscribe t # cs) = at_broker (AList.delete t ts) cs"
| "at_broker ts (_ # cs) = at_broker ts cs"

definition session_after :: "bool \<Rightarrow> client_op \<Rightarrow> broker_session \<Rightarrow> broker_session" where
  "session_after clean op b =
    (let ended = (if clean then [] else bk_subscriptions b)
     in case op of
          Op_on_connect now rc \<Rightarrow>
            if rc = 0 then \<lparr>bk_online = True, bk_subscriptions = ended\<rparr> else b\<lparr>bk_online := False\<rparr>
        | Op_on_disconnect now rc \<Rightarrow> \<lparr>bk_online = False, bk_subscriptions = ended\<rparr>
        | Op_disconnect now \<Rightarrow> \<lparr>bk_online = False, bk_subscriptions = ended\<rparr>
        | _ \<Rightarrow> b)"

definition link_step :: "paho_client \<times> broker_session \<Rightarrow> client_op \<Rightarrow> paho_client \<times> broker_session" where
  "link_step cb op =
    (case cb of (c, b) \<Rightarrow>
      let c' = client_step c op;
          b = (if ph_client c then session_after (mc_clean_session (ph_config c)) op b else b)
      in (c', if bk_online b
              then b\<lparr>bk_subscriptions := at_broker (bk_subscriptions b) (drop (length (ph_calls c)) (ph_calls c'))\<rparr> else b))"

text \<open>What the broker holds for a connected client: exactly the dictionary in a clean session, at least it in a persistent one.\<close>

definition broker_holds :: "paho_client \<Rightarrow> broker_session \<Rightarrow> bool" where
  "broker_holds c b =
    (if mc_clean_session (ph_config c) then map_of (bk_subscriptions b) = map_of (ph_subscriptions c)
     else map_of (ph_subscriptions c) \<subseteq>\<^sub>m map_of (bk_subscriptions b))"

definition subscriptions_agree :: "paho_client \<times> broker_session \<Rightarrow> bool" where
  "subscriptions_agree cb \<longleftrightarrow>
    (client_connected (fst cb) \<longrightarrow> ph_client (fst cb) \<and> bk_online (snd cb) \<and> broker_holds (fst cb) (snd cb)) \<and>
    (ph_client (fst cb) \<longrightarrow> ph_loop (fst cb))"

lemma at_broker_resubscribed: "map_of (at_broker ts (map (\<lambda>(t, q). Paho_subscribe t q) al)) = foldl (\<lambda>m (t, q). m(t \<mapsto> q)) (map_of ts) al"
  by (induction al arbitrary: ts) (auto simp: update_conv')

lemma resubscribed_all: "distinct (map fst al) \<Longrightarrow> foldl (\<lambda>m (t, q). m(t \<mapsto> q)) m0 al = m0 ++ map_of al"
proof (induction al arbitrary: m0)
  case (Cons x al)
  obtain t q where x: "x = (t, q)" by (cases x)
  with Cons.prems have none: "map_of al t = None" by (simp add: map_of_eq_None_iff)
  have "foldl (\<lambda>m (t, q). m(t \<mapsto> q)) m0 (x # al) = m0(t \<mapsto> q) ++ map_of al"
    using Cons.prems Cons.IH [of "m0(t \<mapsto> q)"] by (simp only: x foldl_Cons prod.case list.map distinct.simps)
  also have "\<dots> = m0 ++ map_of (x # al)" using none x by (auto simp: map_add_def fun_eq_iff split: option.split)
  finally show ?case .
qed simp

lemma connect_no_subscription: "at_broker ts (connect_calls c) = ts"
  by (simp add: connect_calls_def Let_def split: option.split)

lemma map_le_update_both: "m \<subseteq>\<^sub>m m' \<Longrightarrow> m(t \<mapsto> q) \<subseteq>\<^sub>m m'(t \<mapsto> q)"
  by (auto simp: map_le_def)

lemma map_le_delete_both: "m \<subseteq>\<^sub>m m' \<Longrightarrow> m(t := None) \<subseteq>\<^sub>m m'(t := None)"
  by (auto simp: map_le_def)

lemma client_config_kept: "ph_config (client_step c op) = ph_config c"
  by (cases op)
    (auto simp: begin_connect_def finish_connect_def client_disconnect_def client_subscribe_def client_unsubscribe_def
      send_publication_def register_ack_def await_ack_def client_on_connect_def client_on_disconnect_def client_on_message_def
      client_on_publish_def loop_turn_def call_paho_def schedule_def set_state_def Let_def split: list.split loop_call.split)

lemma agree_step:
  assumes "subscriptions_agree cb" "distinct (map fst (ph_subscriptions (fst cb)))"
  shows "subscriptions_agree (link_step cb op) \<and> distinct (map fst (ph_subscriptions (fst (link_step cb op))))"
proof -
  obtain c b where cb: "cb = (c, b)" by (cases cb)
  note defs = link_step_def subscriptions_agree_def client_connected_def call_paho_def schedule_def set_state_def Let_def
    session_after_def broker_holds_def
  show ?thesis
  proof (cases op)
    case Op_connect
    with assms show ?thesis unfolding cb by (auto simp: defs begin_connect_def)
  next
    case (Op_on_connect now rc)
    with assms show ?thesis
      unfolding cb by (auto simp: defs client_on_connect_def at_broker_resubscribed resubscribed_all)
  next
    case Op_turn
    with assms show ?thesis unfolding cb by (auto simp: defs loop_turn_def split: list.split loop_call.split)
  next
    case (Op_subscribe topic qos)
    with assms show ?thesis
      unfolding cb by (auto simp: defs client_subscribe_def update_conv' distinct_update map_le_update_both)
  next
    case (Op_unsubscribe topic)
    with assms show ?thesis
      unfolding cb by (auto simp: defs client_unsubscribe_def delete_conv' distinct_delete map_le_delete_both)
  qed (use assms in \<open>auto simp: cb defs finish_connect_def client_disconnect_def send_publication_def register_ack_def await_ack_def
      client_on_disconnect_def client_on_message_def client_on_publish_def\<close>)
qed

interpretation subscribed: preserved link_step "\<lambda>cb. subscriptions_agree cb \<and> distinct (map fst (ph_subscriptions (fst cb)))"
  by unfold_locales (use agree_step in blast)

lemma config_step: "ph_config (fst (link_step cb op)) = ph_config (fst cb)"
  by (simp add: link_step_def client_config_kept Let_def split: prod.split)

interpretation configured: preserved link_step "\<lambda>cb. ph_config (fst cb) = cfg" for cfg
  by unfold_locales (simp add: config_step)

text \<open>
  C35. The subscriptions survive every reconnect. The client starts with whatever subscriptions an earlier process left at the
  broker; whatever its user, the network and the event loop do then, whenever the client says that it is connected, it is on line
  and the broker holds every subscription in the client's dictionary with its quality of service, and in a clean session no other.
  In a persistent session the broker may hold more: what was unsubscribed while the client was off line.
\<close>

theorem subscriptions_survive_reconnects:
  "case foldl link_step (new_client cfg, \<lparr>bk_online = False, bk_subscriptions = ts\<rparr>) ops of
     (c, b) \<Rightarrow> client_connected c \<longrightarrow> bk_online b \<and>
       (if mc_clean_session cfg then map_of (bk_subscriptions b) = map_of (ph_subscriptions c)
        else map_of (ph_subscriptions c) \<subseteq>\<^sub>m map_of (bk_subscriptions b))"
proof -
  let ?i = "(new_client cfg, \<lparr>bk_online = False, bk_subscriptions = ts\<rparr>)"
  have "subscriptions_agree ?i \<and> distinct (map fst (ph_subscriptions (fst ?i)))" and c: "ph_config (fst ?i) = cfg"
    by (simp_all add: subscriptions_agree_def client_connected_def new_client_def)
  from subscribed.run_preserves [OF this(1), of ops] configured.run_preserves [OF c, of ops] show ?thesis
    by (auto simp: subscriptions_agree_def broker_holds_def split: prod.split)
qed

text \<open>A client that subscribes once, loses the connection and is connected again: the broker has the subscription back.\<close>

definition offline_broker :: "(string \<times> nat) list \<Rightarrow> broker_session" where
  "offline_broker ts = \<lparr>bk_online = False, bk_subscriptions = ts\<rparr>"

definition reconnected :: "paho_client \<times> broker_session" where
  "reconnected = foldl link_step (new_client (mqtt_config_from_settings default_mqtt ''d''), offline_broker [(''old'', 0)])
     [Op_connect, Op_on_connect 1 0, Op_subscribe ''t'' 1, Op_on_disconnect 2 1, Op_on_connect 3 0]"

lemmas run_client_defs = link_step_def new_client_def begin_connect_def call_paho_def set_state_def client_on_connect_def
  client_on_disconnect_def client_subscribe_def client_unsubscribe_def schedule_def client_connected_def session_after_def
  offline_broker_def connect_calls_def Let_def

lemma reconnected_client: "client_connected (fst reconnected)" "ph_subscriptions (fst reconnected) = [(''t'', 1)]"
  by (simp_all add: reconnected_def run_client_defs)

lemma default_clean: "mc_clean_session (mqtt_config_from_settings default_mqtt d)"
  by (simp add: mqtt_config_from_settings_def default_mqtt_def)

theorem subscriptions_survive_reconnects_witness:
  "case reconnected of (c, b) \<Rightarrow> client_connected c \<and> map_of (bk_subscriptions b) = [''t'' \<mapsto> 1]"
proof -
  obtain c b where r: "reconnected = (c, b)" by fastforce
  have "case reconnected of (c, b) \<Rightarrow> client_connected c \<longrightarrow> bk_online b \<and>
      (if mc_clean_session (mqtt_config_from_settings default_mqtt ''d'')
       then map_of (bk_subscriptions b) = map_of (ph_subscriptions c)
       else map_of (ph_subscriptions c) \<subseteq>\<^sub>m map_of (bk_subscriptions b))"
    unfolding reconnected_def offline_broker_def by (rule subscriptions_survive_reconnects)
  with reconnected_client show ?thesis by (simp add: r default_clean)
qed

text \<open>
  In a persistent session a topic that is unsubscribed while the client is off line stays subscribed: \<open>unsubscribe\<close> forgets it, so
  that nothing tells the broker at the next connection.
\<close>

lemma offline_unsubscribe_is_lost:
  assumes "\<not> mc_clean_session cfg"
  shows "case foldl link_step (new_client cfg, offline_broker [])
      [Op_connect, Op_on_connect 1 0, Op_subscribe ''t'' 1, Op_on_disconnect 2 1, Op_unsubscribe ''t'', Op_on_connect 3 0] of
    (c, b) \<Rightarrow> client_connected c \<and> ph_subscriptions c = [] \<and> bk_subscriptions b = [(''t'', 1)]"
  using assms by (auto simp: run_client_defs split: option.split)

section \<open>Acknowledgements\<close>

definition unacknowledged :: "nat \<Rightarrow> paho_client \<Rightarrow> bool" where
  "unacknowledged mid c \<longleftrightarrow> ph_futures c mid \<noteq> Some True \<and> Set_result mid \<notin> set (ph_scheduled c)"

lemma unacknowledged_step:
  assumes "unacknowledged mid c" "op \<noteq> Op_on_publish mid \<or> mid \<notin> ph_pending c"
  shows "unacknowledged mid (client_step c op)"
proof -
  note defs = unacknowledged_def call_paho_def schedule_def set_state_def Let_def
  show ?thesis
  proof (cases op)
    case Op_turn
    with assms show ?thesis by (auto simp: defs loop_turn_def split: list.split loop_call.split)
  qed (use assms in \<open>auto simp: defs begin_connect_def finish_connect_def client_disconnect_def client_subscribe_def
      client_unsubscribe_def send_publication_def register_ack_def await_ack_def client_on_connect_def client_on_disconnect_def
      client_on_message_def client_on_publish_def\<close>)
qed

lemma unregistered_step: "mid \<notin> ph_pending c \<Longrightarrow> op \<noteq> Op_register mid \<Longrightarrow> mid \<notin> ph_pending (client_step c op)"
  by (cases op) (auto simp: call_paho_def schedule_def set_state_def Let_def begin_connect_def finish_connect_def client_disconnect_def
      client_subscribe_def client_unsubscribe_def send_publication_def register_ack_def await_ack_def client_on_connect_def
      client_on_disconnect_def client_on_message_def client_on_publish_def loop_turn_def split: list.split loop_call.split)

lemma unacknowledged_before:
  "unacknowledged mid c \<Longrightarrow> mid \<notin> ph_pending c \<Longrightarrow> Op_register mid \<notin> set ops \<Longrightarrow> unacknowledged mid (foldl client_step c ops)"
  by (induction ops arbitrary: c) (auto simp: unacknowledged_step unregistered_step)

lemma unacknowledged_after:
  "unacknowledged mid c \<Longrightarrow> Op_on_publish mid \<notin> set ops \<Longrightarrow> unacknowledged mid (foldl client_step c ops)"
  by (induction ops arbitrary: c) (auto simp: unacknowledged_step)

lemma turns_deliver:
  "ph_scheduled c = ls @ [Set_result mid] \<Longrightarrow>
    ph_futures (foldl client_step c (replicate (Suc (length ls)) Op_turn)) mid = Some True"
proof (induction ls arbitrary: c)
  case (Cons l ls)
  have "ph_scheduled (loop_turn c) = ls @ [Set_result mid]"
    using Cons.prems by (simp add: loop_turn_def Let_def split: loop_call.split)
  with Cons.IH [of "loop_turn c"] show ?case by simp
qed (simp add: loop_turn_def)

text \<open>
  C37. An acknowledgement that is too quick is lost. The future for a message number is registered only after paho was called, so the
  network thread can report the acknowledgement before: then \<open>publish\<close> raises after ten seconds, whatever happens meanwhile,
  although the broker has the message, which the sync worker will publish again. Reported after the registration, the same
  acknowledgement lets \<open>publish\<close> return.
\<close>

theorem early_acknowledgement_is_lost:
  assumes "mid \<notin> ph_pending c" "ph_futures c mid = None" "Set_result mid \<notin> set (ph_scheduled c)"
    and "Op_register mid \<notin> set before" "Op_on_publish mid \<in> set before" "Op_on_publish mid \<notin> set after"
  shows "fst (await_ack mid (foldl client_step c (before @ Op_register mid # after))) = Inl MqttPublishError \<and>
    (ph_client c \<and> ph_loop c \<longrightarrow>
      fst (await_ack mid (foldl client_step c (Op_register mid # Op_on_publish mid #
        replicate (Suc (length (ph_scheduled c))) Op_turn))) = Inr True)"
proof
  have "unacknowledged mid (foldl client_step c before)"
    by (rule unacknowledged_before) (use assms in \<open>simp_all add: unacknowledged_def\<close>)
  then have "unacknowledged mid (client_step (foldl client_step c before) (Op_register mid))"
    by (rule unacknowledged_step) simp
  from unacknowledged_after [OF this assms(6)]
  show "fst (await_ack mid (foldl client_step c (before @ Op_register mid # after))) = Inl MqttPublishError"
    by (simp add: await_ack_def unacknowledged_def)
  show "ph_client c \<and> ph_loop c \<longrightarrow>
      fst (await_ack mid (foldl client_step c (Op_register mid # Op_on_publish mid #
        replicate (Suc (length (ph_scheduled c))) Op_turn))) = Inr True"
  proof
    assume "ph_client c \<and> ph_loop c"
    then have "ph_scheduled (foldl client_step c [Op_register mid, Op_on_publish mid]) = ph_scheduled c @ [Set_result mid]"
      by (simp add: register_ack_def client_on_publish_def schedule_def)
    from turns_deliver [OF this]
    show "fst (await_ack mid (foldl client_step c (Op_register mid # Op_on_publish mid #
        replicate (Suc (length (ph_scheduled c))) Op_turn))) = Inr True"
      by (simp add: await_ack_def)
  qed
qed

definition lab_client :: paho_client where
  "lab_client = foldl client_step (new_client (mqtt_config_from_settings default_mqtt ''d''))
     [Op_connect, Op_on_connect 1 0, Op_turn, Op_send 0 7 \<lparr>mg_topic = ''t'', mg_payload = ''p'', mg_qos = 1, mg_retain = False\<rparr>]"

theorem early_acknowledgement_is_lost_witness:
  "fst (await_ack 7 (foldl client_step lab_client [Op_on_publish 7, Op_register 7, Op_turn])) = Inl MqttPublishError \<and>
    fst (await_ack 7 (foldl client_step lab_client (Op_register 7 # Op_on_publish 7 #
      replicate (Suc (length (ph_scheduled lab_client))) Op_turn))) = Inr True"
proof -
  note eval = lab_client_def new_client_def begin_connect_def call_paho_def set_state_def client_on_connect_def schedule_def
    loop_turn_def send_publication_def client_connected_def Let_def
  have "7 \<notin> ph_pending lab_client" "ph_futures lab_client 7 = None" "Set_result 7 \<notin> set (ph_scheduled lab_client)"
    "ph_client lab_client \<and> ph_loop lab_client"
    by (simp_all add: eval)
  with early_acknowledgement_is_lost [of 7 lab_client "[Op_on_publish 7]" "[Op_turn]"] show ?thesis
    by (simp del: client_step.simps)
qed

end
