(* ===== verification/Cloud_Runtime.thy ===== *)
theory Cloud_Runtime
  imports Cloud_Intake Cloud_Heartbeat Cloud_Client Svc_Sales
begin

text \<open>
  \<open>cloud/runtime.py\<close>: the object that owns the MQTT client, the sync worker, the heartbeat and the command intake. The client is
  any \<open>MqttClient\<close>: a \<open>cloud\<close> with the calls the runtime makes besides. A method runs to its end; what the tasks of the workers
  and the network do in between are steps of the run.
\<close>

section \<open>State\<close>

record 'm mqtt_client =
  lk_cloud :: "'m cloud"
  lk_set_will :: "string \<Rightarrow> json \<Rightarrow> nat \<Rightarrow> bool \<Rightarrow> 'm \<Rightarrow> 'm"
  lk_connect :: "('m, unit) action"
  lk_disconnect :: "('m, unit) action"
  lk_subscribe :: "string \<Rightarrow> ('m, unit) action"
  lk_unsubscribe :: "string \<Rightarrow> ('m, unit) action"
  lk_metadata :: "'m \<Rightarrow> mqtt_metadata"

text \<open>What the runtime takes from its surroundings: hash, texts of errors, the kind of transport, version and host name.\<close>

record runtime_host =
  rh_sha :: "string \<Rightarrow> string"
  rh_say :: "outbound_error \<Rightarrow> string"
  rh_virtual :: bool
  rh_version :: string
  rh_hostname :: string

record ('m, 'w) runtime =
  rn_settings :: settings
  rn_topics :: topic_builder
  rn_store :: store
  rn_mqtt :: 'm
  rn_loop :: "'w controller option"
  rn_fill_book :: fill_book
  rn_sync :: "(sync_config \<times> 'm sync_worker) option"
  rn_heartbeat :: "(heartbeat_config \<times> 'm heartbeat) option"
  rn_intake :: "(intake_setup \<times> ('m, 'w) intake) option"
  rn_sync_running :: bool
  rn_heartbeat_running :: bool
  rn_started :: bool
  rn_online_published :: bool

definition create_runtime :: "settings \<Rightarrow> store \<Rightarrow> 'm \<Rightarrow> 'w controller option \<Rightarrow> ('m, 'w) runtime result" where
  "create_runtime st d client loop =
    (let q = se_mqtt st;
         env = upper (if truthy_string (ms_topic_environment q) then the (ms_topic_environment q) else se_environment st)
     in bind_result (new_topics env) (\<lambda>topics. Inr
       \<lparr>rn_settings = st, rn_topics = topics, rn_store = d, rn_mqtt = client, rn_loop = loop,
        rn_fill_book = \<lparr>fb_config = \<lparr>fz_min_interval = microseconds (ms_fill_min_interval q),
          fz_min_volume = ms_fill_min_volume q, fz_min_amount = ms_fill_min_amount q\<rparr>, fb_states = []\<rparr>,
        rn_sync = None, rn_heartbeat = None, rn_intake = None, rn_sync_running = False, rn_heartbeat_running = False,
        rn_started = False, rn_online_published = False\<rparr>))"

definition runtime_enabled :: "('m, 'w) runtime \<Rightarrow> bool" where
  "runtime_enabled s = ms_enabled (se_mqtt (rn_settings s))"

definition on_link :: "('m, 'a) action \<Rightarrow> (('m, 'w) runtime, 'a) action" where
  "on_link m s = (case m (rn_mqtt s) of (r, w) \<Rightarrow> (r, s\<lparr>rn_mqtt := w\<rparr>))"

text \<open>The workers share the store, the client and the controller with the runtime.\<close>

definition in_intake ::
  "(intake_setup \<Rightarrow> (('m, 'w) intake, unit) action) \<Rightarrow> (('m, 'w) runtime, unit) action" where
  "in_intake f s =
    (case rn_intake s of
       None \<Rightarrow> (Inr (), s)
     | Some (u, i) \<Rightarrow> (case f u (i\<lparr>ik_store := rn_store s, ik_mqtt := rn_mqtt s, ik_loop := rn_loop s\<rparr>) of
         (r, i') \<Rightarrow> (r, s\<lparr>rn_intake := Some (u, i'), rn_store := ik_store i', rn_mqtt := ik_mqtt i', rn_loop := ik_loop i'\<rparr>)))"

definition intake_active :: "('m, 'w) runtime \<Rightarrow> bool" where
  "intake_active s = (case rn_intake s of None \<Rightarrow> False | Some (u, i) \<Rightarrow> ik_active i)"

section \<open>Announcing the device\<close>

definition device_of :: "('m, 'w) runtime \<Rightarrow> string" where
  "device_of s = ct_device (se_controller (rn_settings s))"

definition station_of :: "('m, 'w) runtime \<Rightarrow> string" where
  "station_of s = ct_station (se_controller (rn_settings s))"

definition simulated_of :: "('m, 'w) runtime \<Rightarrow> bool" where
  "simulated_of s = hs_simulated (se_api (rn_settings s))"

definition status_topic :: "('m, 'w) runtime \<Rightarrow> string result" where
  "status_topic s = device_status_topic (rn_topics s) (device_of s)"

definition status_body :: "('m, 'w) runtime \<Rightarrow> string \<Rightarrow> (string \<times> json) list" where
  "status_body s status =
    [(''deviceId'', JStr (device_of s)), (''stationId'', JStr (station_of s)), (''status'', JStr status),
     (''environment'', JStr (tb_environment (rn_topics s))), (''simulated'', JBool (simulated_of s))]"

definition online_values :: "('m, 'w) runtime \<Rightarrow> string \<Rightarrow> envelope_values" where
  "online_values s now =
    \<lparr>ev_event_type = ''DEVICE_ONLINE'', ev_environment = tb_environment (rn_topics s), ev_device = device_of s,
     ev_station = station_of s, ev_sequence = 1, ev_simulated = simulated_of s,
     ev_key = ''status:'' @ device_of s @ '':online'', ev_payload = status_body s ''ONLINE'' @ [(''timestamp'', JStr now)],
     ev_occurred_at = None, ev_pump = None, ev_transaction = None, ev_correlation = None, ev_message_id = None\<rparr>"

definition publish_online :: "'m mqtt_client \<Rightarrow> (('m, 'w) runtime, unit) action" where
  "publish_online lk = read_act (\<lambda>s.
    let cd = lk_cloud lk; now = cd_iso cd (cd_now cd (rn_mqtt s)) in
    bind_act (result_act (build_envelope now (cd_ids cd 1) (online_values s now))) (\<lambda>e.
    catch_act
      (bind_act (result_act (status_topic s)) (\<lambda>topic.
        bind_act (on_link (cd_publish cd topic (envelope_dict e) (qos_for_event ''DEVICE_ONLINE'') True)) (\<lambda>ack.
          modify_act (\<lambda>s. s\<lparr>rn_online_published := True\<rparr>))))
      (\<lambda>exc. if exc \<in> MQTT_ERRORS then return_act () else result_act (Inl exc))))"

text \<open>\<open>_on_connection\<close>; the state is read when the handler runs.\<close>

definition on_connection :: "'m mqtt_client \<Rightarrow> (('m, 'w) runtime, unit) action" where
  "on_connection lk = read_act (\<lambda>s.
    if mm_state (lk_metadata lk (rn_mqtt s)) = Mqtt_CONNECTED
    then then_act (publish_online lk) (read_act (\<lambda>s.
      if rn_intake s \<noteq> None \<and> \<not> intake_active s \<and> ms_command_subscription (se_mqtt (rn_settings s))
      then in_intake (\<lambda>u. intake_start u (lk_subscribe lk)) else return_act ()))
    else return_act ())"

section \<open>Starting and stopping\<close>

definition make_workers :: "runtime_host \<Rightarrow> ('m, 'w) runtime \<Rightarrow> ('m, 'w) runtime" where
  "make_workers h s =
    (let q = se_mqtt (rn_settings s); environment = tb_environment (rn_topics s);
         mapper = \<lparr>mp_topics = rn_topics s, mp_device = device_of s, mp_station = station_of s, mp_environment = environment,
                   mp_simulated = simulated_of s, mp_seq = 0\<rparr>
     in s\<lparr>rn_sync := Some (\<lparr>yc_batch_size = nat (ms_batch_size q), yc_stale_lock_seconds = ms_stale_lock q,
            yc_max_attempts = nat (ms_max_attempts q)\<rparr>, new_sync_worker mapper (rn_store s) (rn_mqtt s)),
          rn_heartbeat := Some (\<lparr>hc_topics = rn_topics s, hc_device = device_of s, hc_station = station_of s,
            hc_environment = environment, hc_simulated = simulated_of s, hc_version = rh_version h, hc_hostname = rh_hostname h\<rparr>,
            new_heartbeat (rn_mqtt s)),
          rn_intake := (if ms_command_subscription q
            then Some (\<lparr>is_sha = rh_sha h, is_say = rh_say h, is_config =
                \<lparr>ic_topics = rn_topics s, ic_station = station_of s, ic_device = device_of s, ic_environment = upper environment,
                 ic_simulated = simulated_of s, ic_allow_lab = sf_allow_lab (se_safety (rn_settings s)),
                 ic_virtual = rh_virtual h\<rparr>\<rparr>, new_intake (rn_store s) (rn_mqtt s) (rn_loop s))
            else rn_intake s)\<rparr>)"

definition start_runtime :: "'m mqtt_client \<Rightarrow> runtime_host \<Rightarrow> (('m, 'w) runtime, unit) action" where
  "start_runtime lk h = read_act (\<lambda>s.
    if \<not> runtime_enabled s \<or> rn_started s then return_act ()
    else bind_act (result_act (status_topic s)) (\<lambda>topic.
      then_act (modify_act (\<lambda>s. make_workers h (s\<lparr>rn_mqtt := lk_set_will lk topic (JObj (status_body s ''OFFLINE'')) 1 True (rn_mqtt s)\<rparr>)))
      (then_act (catch_act (on_link (lk_connect lk)) (\<lambda>exc. if exc \<in> MQTT_ERRORS then return_act () else result_act (Inl exc)))
      (then_act (modify_act (\<lambda>s. s\<lparr>rn_sync_running := True, rn_heartbeat_running := True\<rparr>))
      (then_act (read_act (\<lambda>s. if cd_connected (lk_cloud lk) (rn_mqtt s)
          then in_intake (\<lambda>u. intake_start u (lk_subscribe lk)) else return_act ()))
      (then_act (read_act (\<lambda>s. if cd_connected (lk_cloud lk) (rn_mqtt s) then publish_online lk else return_act ()))
        (modify_act (\<lambda>s. s\<lparr>rn_started := True\<rparr>))))))))"

definition stop_runtime :: "'m mqtt_client \<Rightarrow> (('m, 'w) runtime, unit) action" where
  "stop_runtime lk = read_act (\<lambda>s.
    if \<not> rn_started s then return_act ()
    else then_act (modify_act (\<lambda>s. s\<lparr>rn_heartbeat_running := False, rn_sync_running := False\<rparr>))
      (then_act (in_intake (\<lambda>u. intake_stop u (lk_unsubscribe lk)))
      (then_act (catch_act (on_link (lk_disconnect lk)) (\<lambda>exc. return_act ()))
        (modify_act (\<lambda>s. s\<lparr>rn_started := False\<rparr>)))))"

section \<open>Health\<close>

record cloud_health =
  ch_enabled :: bool
  ch_connected :: bool
  ch_host :: "string option"
  ch_last_connected_at :: "string option"
  ch_last_disconnected_at :: "string option"
  ch_reconnect_count :: nat
  ch_last_error :: "mqtt_note option"
  ch_heartbeat_at :: "string option"
  ch_subscription_active :: bool
  ch_delivered :: nat
  ch_failed :: nat

definition runtime_stats :: "('m, 'w) runtime \<Rightarrow> sync_stats" where
  "runtime_stats s = (case rn_sync s of None \<Rightarrow> new_stats | Some (cfg, y) \<Rightarrow> yw_stats y)"

definition health_dict :: "'m mqtt_client \<Rightarrow> ('m, 'w) runtime \<Rightarrow> cloud_health" where
  "health_dict lk s =
    (let meta = lk_metadata lk (rn_mqtt s); iso = cd_iso (lk_cloud lk) in
     \<lparr>ch_enabled = runtime_enabled s, ch_connected = cd_connected (lk_cloud lk) (rn_mqtt s),
      ch_host = (if mm_host meta = [] then None else Some (mm_host meta @ '':'' @ int_text (mm_port meta))),
      ch_last_connected_at = map_option iso (mm_last_connected_at meta),
      ch_last_disconnected_at = map_option iso (mm_last_disconnected_at meta),
      ch_reconnect_count = mm_reconnect_count meta, ch_last_error = mm_last_error meta,
      ch_heartbeat_at = (case rn_heartbeat s of None \<Rightarrow> None | Some (cfg, b) \<Rightarrow> map_option iso (hb_last b)),
      ch_subscription_active = intake_active s, ch_delivered = ys_delivered (runtime_stats s),
      ch_failed = ys_failed (runtime_stats s)\<rparr>)"

definition pending_sync_snapshot :: "int \<Rightarrow> store \<Rightarrow> nat \<times> int option \<times> nat \<times> nat" where
  "pending_sync_snapshot now d = (pending_count d, oldest_pending_age now d, delivered_count d, failed_count d)"

section \<open>Runs\<close>

text \<open>
  A client that also remembers what the broker sees of it: wills, publications, orderly disconnects, and losses of the connection. A
  publication reaches the broker when the client was connected, whether or not it is confirmed, or when the client says so. The
  connection is lost whenever the client is no longer connected and has not disconnected itself.
\<close>

datatype link_event = Ev_will string json bool | Ev_published string json bool | Ev_disconnected | Ev_lost

definition loss_of :: "'m cloud \<Rightarrow> 'm \<Rightarrow> 'm \<Rightarrow> link_event list" where
  "loss_of cd w w' = (if cd_connected cd w \<and> \<not> cd_connected cd w' then [Ev_lost] else [])"

definition beside :: "'m cloud \<Rightarrow> ('m, 'a) action \<Rightarrow> ('m \<times> link_event list, 'a) action" where
  "beside cd m v = (case m (fst v) of (r, w) \<Rightarrow> (r, (w, snd v @ loss_of cd (fst v) w)))"

definition reaches_broker :: "'m cloud \<Rightarrow> 'm \<Rightarrow> 'a result \<Rightarrow> bool" where
  "reaches_broker cd w r = (case r of Inr x \<Rightarrow> True | Inl e \<Rightarrow> cd_connected cd w)"

definition recorded_cloud :: "'m cloud \<Rightarrow> ('m \<times> link_event list) cloud" where
  "recorded_cloud cd =
    \<lparr>cd_now = cd_now cd \<circ> fst, cd_connected = cd_connected cd \<circ> fst,
     cd_publish = (\<lambda>topic msg qos retain v. case cd_publish cd topic msg qos retain (fst v) of
       (r, w) \<Rightarrow> (r, (w, snd v @ (if reaches_broker cd (fst v) r then [Ev_published topic msg retain] else []) @ loss_of cd (fst v) w))),
     cd_jitter = cd_jitter cd \<circ> fst, cd_text = cd_text cd, cd_iso = cd_iso cd, cd_ids = cd_ids cd\<rparr>"

definition recorded :: "'m mqtt_client \<Rightarrow> ('m \<times> link_event list) mqtt_client" where
  "recorded lk =
    \<lparr>lk_cloud = recorded_cloud (lk_cloud lk),
     lk_set_will = (\<lambda>topic msg qos retain v. (lk_set_will lk topic msg qos retain (fst v), snd v @ [Ev_will topic msg retain])),
     lk_connect = beside (lk_cloud lk) (lk_connect lk),
     lk_disconnect = (\<lambda>v. case lk_disconnect lk (fst v) of
       (r, w) \<Rightarrow> (r, (w, snd v @ (case r of Inr x \<Rightarrow> [Ev_disconnected] | Inl e \<Rightarrow> loss_of (lk_cloud lk) (fst v) w)))),
     lk_subscribe = (\<lambda>topic. beside (lk_cloud lk) (lk_subscribe lk topic)),
     lk_unsubscribe = (\<lambda>topic. beside (lk_cloud lk) (lk_unsubscribe lk topic)),
     lk_metadata = lk_metadata lk \<circ> fst\<rparr>"

text \<open>
  What can happen to a runtime: its methods, a pass of the sync worker, a heartbeat, a command message, and whatever else the network
  and other parts of the program do to the client and to the store.
\<close>

datatype 'm runtime_op =
    Rt_start | Rt_stop | Rt_connection | Rt_sync | Rt_beat | Rt_message "inbound option" | Rt_world "'m \<Rightarrow> 'm" | Rt_rows "store \<Rightarrow> store"

fun runtime_step ::
  "'m mqtt_client \<Rightarrow> runtime_host \<Rightarrow> ('m, heartbeat_extras) action \<Rightarrow> ('m \<times> link_event list, 'w) runtime \<Rightarrow> 'm runtime_op \<Rightarrow>
   ('m \<times> link_event list, 'w) runtime" where
  "runtime_step lk h provider s Rt_start = snd (start_runtime (recorded lk) h s)"
| "runtime_step lk h provider s Rt_stop = snd (stop_runtime (recorded lk) s)"
| "runtime_step lk h provider s Rt_connection = snd (on_connection (recorded lk) s)"
| "runtime_step lk h provider s Rt_sync =
    (case rn_sync s of
       Some (cfg, y) \<Rightarrow>
         if rn_sync_running s
         then let y = sync_pass (recorded_cloud (lk_cloud lk)) cfg (y\<lparr>yw_world := rn_mqtt s, yw_store := rn_store s\<rparr>)
              in s\<lparr>rn_sync := Some (cfg, y), rn_mqtt := yw_world y, rn_store := yw_store y\<rparr>
         else s
     | None \<Rightarrow> s)"
| "runtime_step lk h provider s Rt_beat =
    (case rn_heartbeat s of
       Some (cfg, b) \<Rightarrow>
         if rn_heartbeat_running s
         then let b = snd (publish_once (recorded_cloud (lk_cloud lk)) cfg (beside (lk_cloud lk) provider) (b\<lparr>hb_world := rn_mqtt s\<rparr>))
              in s\<lparr>rn_heartbeat := Some (cfg, b), rn_mqtt := hb_world b\<rparr>
         else s
     | None \<Rightarrow> s)"
| "runtime_step lk h provider s (Rt_message m) = snd (in_intake (\<lambda>u. on_message u (recorded_cloud (lk_cloud lk)) m) s)"
| "runtime_step lk h provider s (Rt_world f) = (let w = fst (rn_mqtt s) in
    s\<lparr>rn_mqtt := (f w, snd (rn_mqtt s) @ loss_of (lk_cloud lk) w (f w))\<rparr>)"
| "runtime_step lk h provider s (Rt_rows f) = s\<lparr>rn_store := f (rn_store s)\<rparr>"

section \<open>What is said on the status topic\<close>

definition online_message :: "json \<Rightarrow> bool" where
  "online_message msg \<longleftrightarrow> message_field (message_field msg ''payload'') ''status'' = JStr ''ONLINE''"

definition offline_message :: "json \<Rightarrow> bool" where
  "offline_message msg \<longleftrightarrow> message_field msg ''status'' = JStr ''OFFLINE''"

text \<open>What the runtime says on the topic \<open>t\<close> is that the device is ONLINE, and its will there is OFFLINE.\<close>

definition says_online :: "bool \<Rightarrow> string \<Rightarrow> 'm \<times> link_event list \<Rightarrow> bool" where
  "says_online said t v \<longleftrightarrow> (\<forall>topic msg r. Ev_published topic msg r \<in> set (snd v) \<longrightarrow> topic = t \<longrightarrow> online_message msg \<and> r) \<and>
    (\<forall>topic msg r. Ev_will topic msg r \<in> set (snd v) \<longrightarrow> topic = t \<longrightarrow> offline_message msg) \<and>
    (said \<longrightarrow> (\<exists>msg. Ev_published t msg True \<in> set (snd v)))"

lemma says_online_publish:
  "topic \<noteq> t \<or> online_message msg \<and> retain \<Longrightarrow> keeps (says_online said t) (cd_publish (recorded_cloud cd) topic msg qos retain)"
  by (auto simp: keeps_def says_online_def recorded_cloud_def loss_of_def split: prod.split)

lemma says_online_beside: "keeps (says_online said t) (beside cd m)"
  by (auto simp: keeps_def says_online_def beside_def loss_of_def split: prod.split)

lemma says_online_world: "says_online said t (w', snd v @ loss_of cd w w'') = says_online said t v"
  by (auto simp: says_online_def loss_of_def)

text \<open>The topics of the workers are not the status topic.\<close>

lemma other_topics:
  assumes "device_status_topic tb dev = Inr t"
  shows "heartbeat_topic tb dev = Inr topic \<Longrightarrow> topic \<noteq> t" "commands_topic tb st = Inr topic \<Longrightarrow> topic \<noteq> t"
    "command_result_topic tb st c = Inr topic \<Longrightarrow> topic \<noteq> t" "mp_topics m = tb \<Longrightarrow> topic_for m ty pump = Inr topic \<Longrightarrow> topic \<noteq> t"
  using assms
  by (auto simp: device_status_topic_def heartbeat_topic_def commands_topic_def command_result_topic_def topic_for_def
      transactions_topic_def alarms_topic_def audit_topic_def pump_events_topic_def bind_result_Inr_iff split: if_splits)

lemma map_record_topic:
  "fst (map_record now ids r m) = Inr (topic, e, qos) \<Longrightarrow> \<exists>ty pump. topic_for m ty pump = Inr topic"
  by (auto simp: map_record_def bind_act_def Let_def split: json.splits sum.splits prod.splits)

lemma map_record_topics: "mp_topics (snd (map_record now ids r m)) = mp_topics m"
  by (auto simp: map_record_def bind_act_def Let_def split: json.splits sum.splits prod.splits)

definition sync_quiet :: "bool \<Rightarrow> topic_builder \<Rightarrow> string \<Rightarrow> ('m \<times> link_event list) sync_worker \<Rightarrow> bool" where
  "sync_quiet said tb t y \<longleftrightarrow> says_online said t (yw_world y) \<and> mp_topics (yw_mapper y) = tb"

lemma sync_quiet_intros:
  "keeps (sync_quiet said tb t) (with_rows m)" "keeps (sync_quiet said tb t) (count_in g)"
  "keeps (sync_quiet said tb t) (with_mapper (map_record now ids r))"
  "keeps (says_online said t) w \<Longrightarrow> keeps (sync_quiet said tb t) (with_client w)"
proof -
  show "keeps (sync_quiet said tb t) (with_mapper (map_record now ids r))"
    using map_record_topics [of now ids r]
    by (simp add: keeps_def sync_quiet_def with_mapper_def split: prod.split) (metis snd_conv)
  show "keeps (says_online said t) w \<Longrightarrow> keeps (sync_quiet said tb t) (with_client w)"
    by (simp add: keeps_def sync_quiet_def with_client_def split: prod.split) (metis snd_conv prod.collapse)
qed (simp_all add: keeps_def sync_quiet_def with_rows_def count_in_def modify_act_def split: prod.split)

lemma keeps_catch: "keeps P m \<Longrightarrow> (\<And>e. keeps P (h e)) \<Longrightarrow> keeps P (catch_act m h)"
  by (fastforce simp: keeps_def catch_act_def split: prod.splits sum.splits)

lemma deliver_quiet:
  assumes "device_status_topic tb dev = Inr t"
  shows "keeps (sync_quiet said tb t) (deliver_row (recorded_cloud cd) r)"
proof -
  have topic: "fst x \<noteq> t" if "sync_quiet said tb t y" "fst (with_mapper (map_record now ids r) y) = Inr x" for y now ids x
  proof -
    have "fst (map_record now ids r (yw_mapper y)) = Inr x" using that(2) by (simp add: with_mapper_def split: prod.splits)
    then obtain ty pump where "topic_for (yw_mapper y) ty pump = Inr (fst x)" by (metis map_record_topic prod.collapse)
    moreover have "mp_topics (yw_mapper y) = tb" using that(1) by (simp add: sync_quiet_def)
    ultimately show ?thesis using other_topics(4) [OF assms] by blast
  qed
  show ?thesis
    unfolding deliver_row_def
    apply (intro keeps_read_each keeps_bind_value [OF sync_quiet_intros(3)])
    subgoal premises prems for s y x
      using topic [OF prems] unfolding case_prod_unfold
      by (intro keeps_bind keeps_if keeps_result keeps_read_each keeps_then sync_quiet_intros says_online_publish) simp
    done
qed

lemma sync_pass_quiet:
  assumes "device_status_topic tb dev = Inr t" "sync_quiet said tb t y"
  shows "sync_quiet said tb t (sync_pass (recorded_cloud cd) cfg y)"
proof -
  have returned: "keeps (sync_quiet said tb t) (give_back (recorded_cloud cd) cfg r err)" for r err
    unfolding give_back_def by (intro keeps_read_each keeps_bind keeps_result sync_quiet_intros)
  have row: "keeps (sync_quiet said tb t) (handle_row (recorded_cloud cd) cfg r)" for r
    unfolding handle_row_def after_failure_def
    by (intro keeps_catch keeps_then keeps_if keeps_return deliver_quiet [OF assms(1)] returned sync_quiet_intros)
  have rows: "keeps (sync_quiet said tb t) (handle_rows (recorded_cloud cd) cfg rs)" for rs
  proof (induction rs)
    case (Cons r rs)
    then show ?case by (simp only: handle_rows.simps) (intro keeps_bind keeps_if keeps_return row)
  qed (simp only: handle_rows.simps keeps_return)
  have "keeps (sync_quiet said tb t) (sync_cycle (recorded_cloud cd) cfg)"
    unfolding sync_cycle_def claim_work_def Let_def
    by (intro keeps_read_each keeps_if keeps_bind keeps_return rows sync_quiet_intros)
  from keepsD [OF this assms(2)] have "sync_quiet said tb t (snd (sync_cycle (recorded_cloud cd) cfg y))" .
  with assms(2) show ?thesis
    by (simp add: sync_pass_def split: prod.split sum.split) (auto simp: sync_quiet_def)
qed

lemma heartbeat_quiet:
  assumes "device_status_topic (hc_topics cfg) (hc_device cfg) = Inr t"
  shows "keeps (\<lambda>b. says_online said t (hb_world b)) (publish_once (recorded_cloud cd) cfg (beside cd provider))"
proof -
  have beat: "keeps (says_online said t) w \<Longrightarrow> keeps (\<lambda>b. says_online said t (hb_world b)) (in_beat w)" for w
    by (simp add: keeps_def in_beat_def split: prod.split) (metis snd_conv prod.collapse)
  have send: "keeps (\<lambda>b. says_online said t (hb_world b)) (send_heartbeat (recorded_cloud cd) topic msg)" if "topic \<noteq> t" for topic msg
    unfolding send_heartbeat_def Let_def
    by (intro keeps_read_each keeps_if keeps_catch keeps_then keeps_bind keeps_modify keeps_return keeps_result beat
        says_online_publish) (use that in simp_all)
  have topic: "(\<And>topic. topic \<noteq> t \<Longrightarrow> keeps P (f topic)) \<Longrightarrow>
      keeps P (bind_act (result_act (heartbeat_topic (hc_topics cfg) (hc_device cfg))) f)" for P f
    using other_topics(1) [OF assms] by (intro keeps_bind_value [OF keeps_result]) simp
  show ?thesis
    unfolding publish_once_def Let_def
    by (intro topic send keeps_bind keeps_read_each keeps_then keeps_modify keeps_result beat says_online_beside) simp_all
qed

lemma intake_quiet:
  assumes "device_status_topic (ic_topics (is_config u)) dev = Inr t"
  shows "keeps (\<lambda>i. says_online said t (ik_mqtt i)) (on_message u (recorded_cloud cd) m)"
proof -
  let ?P = "\<lambda>i. says_online said t (ik_mqtt i)"
  have mqtt: "keeps (says_online said t) w \<Longrightarrow> keeps ?P (in_mqtt w)" for w
    by (simp add: keeps_def in_mqtt_def split: prod.split) (metis snd_conv prod.collapse)
  have rows: "keeps ?P (in_rows w)" for w
    by (simp add: keeps_def in_rows_def split: prod.split)
  have topic: "(\<And>topic. topic \<noteq> t \<Longrightarrow> keeps P (f topic)) \<Longrightarrow>
      keeps P (bind_act (result_act (command_result_topic (ic_topics (is_config u)) st c)) f)" for P f st c
    using other_topics(3) [OF assms] by (intro keeps_bind_value [OF keeps_result]) simp
  have execute: "keeps ?P (execute_request (recorded_cloud cd) cfg x v)" for cfg x v
    unfolding execute_request_def Let_def
    by (intro keeps_read_each keeps_bind keeps_then keeps_modify keeps_return)
      (auto split: option.split prod.split sum.split simp: keeps_def return_act_def modify_act_def)
  have answer: "keeps ?P (answer_request say (recorded_cloud cd) (is_config u) x out)" for say x out
    unfolding answer_request_def Let_def
    by (intro topic keeps_read_each keeps_bind keeps_then keeps_modify keeps_return keeps_result keeps_if mqtt
        says_online_publish) simp_all
  have "keeps ?P (handle_command u (recorded_cloud cd) x)" for x
    unfolding handle_command_def record_request_def Let_def
    by (intro keeps_read_each keeps_bind keeps_then keeps_result execute answer rows)
  then show ?thesis
    unfolding on_message_def by (intro keeps_read_each keeps_if keeps_return keeps_case_option keeps_bind)
qed

section \<open>The status of the device\<close>

definition quiet_runtime :: "settings \<Rightarrow> topic_builder \<Rightarrow> string \<Rightarrow> ('m \<times> link_event list, 'w) runtime \<Rightarrow> bool" where
  "quiet_runtime st tb t s \<longleftrightarrow> rn_settings s = st \<and> rn_topics s = tb \<and> says_online (rn_online_published s) t (rn_mqtt s) \<and>
    (\<forall>cfg y. rn_sync s = Some (cfg, y) \<longrightarrow> mp_topics (yw_mapper y) = tb) \<and>
    (\<forall>cfg b. rn_heartbeat s = Some (cfg, b) \<longrightarrow> hc_topics cfg = tb \<and> hc_device cfg = ct_device (se_controller st)) \<and>
    (\<forall>u i. rn_intake s = Some (u, i) \<longrightarrow> ic_topics (is_config u) = tb)"

lemma quiet_link: "(\<And>said. keeps (says_online said t) w) \<Longrightarrow> keeps (quiet_runtime st tb t) (on_link w)"
  by (simp add: keeps_def quiet_runtime_def on_link_def split: prod.split) (metis snd_conv prod.collapse)

lemma quiet_intake:
  assumes "\<And>u said. ic_topics (is_config u) = tb \<Longrightarrow> keeps (\<lambda>i. says_online said t (ik_mqtt i)) (f u)"
  shows "keeps (quiet_runtime st tb t) (in_intake f)"
proof -
  have "quiet_runtime st tb t (snd (in_intake f s))" if q: "quiet_runtime st tb t s" for s
  proof (cases "rn_intake s")
    case (Some ui)
    obtain u i where ui: "ui = (u, i)" by (cases ui)
    let ?i = "i\<lparr>ik_store := rn_store s, ik_mqtt := rn_mqtt s, ik_loop := rn_loop s\<rparr>"
    have "says_online (rn_online_published s) t (ik_mqtt (snd (f u ?i)))"
      using keepsD [OF assms, of u "rn_online_published s" ?i] q Some ui by (simp add: quiet_runtime_def)
    then show ?thesis using q Some ui by (auto simp: in_intake_def quiet_runtime_def split: prod.split)
  qed (use q in \<open>simp add: in_intake_def\<close>)
  then show ?thesis by (simp add: keeps_def)
qed

lemma quiet_intake_calls:
  "keeps (\<lambda>i. says_online said t (ik_mqtt i)) (intake_start u (lk_subscribe (recorded lk)))"
  "keeps (\<lambda>i. says_online said t (ik_mqtt i)) (intake_stop u (lk_unsubscribe (recorded lk)))"
proof -
  have mqtt: "keeps (\<lambda>i. says_online said t (ik_mqtt i)) (in_mqtt (beside (lk_cloud lk) w))" for w
    using says_online_beside [of said t "lk_cloud lk" w]
    by (simp add: keeps_def in_mqtt_def split: prod.split) (metis snd_conv prod.collapse)
  show "keeps (\<lambda>i. says_online said t (ik_mqtt i)) (intake_start u (lk_subscribe (recorded lk)))"
    "keeps (\<lambda>i. says_online said t (ik_mqtt i)) (intake_stop u (lk_unsubscribe (recorded lk)))"
    unfolding intake_start_def intake_stop_def recorded_def
    by (simp_all del: then_act_simp) (intro keeps_bind keeps_then keeps_modify keeps_result keeps_return keeps_catch mqtt; simp)+
qed

lemma online_envelope:
  "build_envelope now uuid (online_values s now') = Inr e \<Longrightarrow> online_message (envelope_dict e)"
  by (auto simp: build_envelope_def online_values_def online_message_def envelope_dict_def message_field_def field_def status_body_def
      split: if_splits)

lemma quiet_publish:
  assumes "device_status_topic tb (ct_device (se_controller st)) = Inr t"
  shows "keeps (quiet_runtime st tb t) (publish_online (recorded lk) :: (('m \<times> link_event list, 'w) runtime, unit) action)"
proof -
  have "quiet_runtime st tb t (snd (publish_online (recorded lk) s))" if q: "quiet_runtime st tb t s"
    for s :: "('m \<times> link_event list, 'w) runtime"
  proof -
    have topic: "status_topic s = Inr t" using q assms by (simp add: status_topic_def device_of_def quiet_runtime_def)
    let ?cd = "lk_cloud (recorded lk)"
    let ?now = "cd_iso ?cd (cd_now ?cd (rn_mqtt s))"
    show ?thesis
    proof (cases "build_envelope ?now (cd_ids ?cd 1) (online_values s ?now)")
      case (Inr e)
      then have on: "online_message (envelope_dict e)" by (rule online_envelope)
      obtain r w where pub0: "cd_publish (lk_cloud lk) t (envelope_dict e) (qos_for_event ''DEVICE_ONLINE'') True (fst (rn_mqtt s)) = (r, w)"
        by fastforce
      let ?evs = "(if reaches_broker (lk_cloud lk) (fst (rn_mqtt s)) r then [Ev_published t (envelope_dict e) True] else []) @
          loss_of (lk_cloud lk) (fst (rn_mqtt s)) w"
      from pub0 have pub: "cd_publish ?cd t (envelope_dict e) (qos_for_event ''DEVICE_ONLINE'') True (rn_mqtt s) =
          (r, (w, snd (rn_mqtt s) @ ?evs))"
        by (simp add: recorded_def recorded_cloud_def)
      have said: "quiet_runtime st tb t (s\<lparr>rn_mqtt := (w, snd (rn_mqtt s) @ ?evs), rn_online_published := b\<rparr>)"
        if "b = rn_online_published s \<or> (\<exists>x. r = Inr x)" for b
        using q on that by (auto simp: quiet_runtime_def says_online_def loss_of_def reaches_broker_def)
      have "snd (publish_online (recorded lk) s) = s\<lparr>rn_mqtt := (w, snd (rn_mqtt s) @ ?evs),
          rn_online_published := (case r of Inr x \<Rightarrow> True | Inl exc \<Rightarrow> rn_online_published s)\<rparr>"
        using Inr pub topic by (cases r) (simp_all add: publish_online_def Let_def bind_act_def catch_act_def on_link_def)
      with said [of True] said [of "rn_online_published s"] show ?thesis by (cases r) simp_all
    qed (use q in \<open>simp add: publish_online_def Let_def bind_act_def\<close>)
  qed
  then show ?thesis by (simp add: keeps_def)
qed

lemma quiet_will: "quiet_runtime st tb t s \<Longrightarrow> 
    quiet_runtime st tb t (make_workers h (s\<lparr>rn_mqtt := lk_set_will (recorded lk) topic (JObj (status_body s ''OFFLINE'')) q r (rn_mqtt s)\<rparr>))"
  by (auto simp: offline_message_def message_field_def field_def status_body_def quiet_runtime_def make_workers_def Let_def recorded_def says_online_def new_sync_worker_def device_of_def)

lemma quiet_fields:
  "quiet_runtime st tb t s \<Longrightarrow> quiet_runtime st tb t (s\<lparr>rn_started := b\<rparr>)"
  "quiet_runtime st tb t s \<Longrightarrow> quiet_runtime st tb t (s\<lparr>rn_heartbeat_running := b, rn_sync_running := c\<rparr>)"
  "quiet_runtime st tb t s \<Longrightarrow> quiet_runtime st tb t (s\<lparr>rn_sync_running := c, rn_heartbeat_running := b\<rparr>)"
  by (simp_all add: quiet_runtime_def)

lemma quiet_calls:
  assumes "device_status_topic tb (ct_device (se_controller st)) = Inr t"
  shows "keeps (quiet_runtime st tb t) (start_runtime (recorded lk) h)" "keeps (quiet_runtime st tb t) (stop_runtime (recorded lk))"
    "keeps (quiet_runtime st tb t) (on_connection (recorded lk))"
proof -
  have calls: "keeps (says_online said t) (lk_connect (recorded lk))" "keeps (says_online said t) (lk_disconnect (recorded lk))" for said
    by (simp add: recorded_def says_online_beside) (auto simp: recorded_def keeps_def says_online_def loss_of_def split: prod.split sum.split)
  note intros = keeps_if keeps_return keeps_bind keeps_result keeps_then keeps_modify keeps_catch keeps_read_each
    quiet_link calls quiet_intake quiet_intake_calls quiet_publish [OF assms] quiet_fields quiet_will
  show "keeps (quiet_runtime st tb t) (start_runtime (recorded lk) h)"
    unfolding start_runtime_def by (rule keeps_read_each) (intro intros)
  show "keeps (quiet_runtime st tb t) (stop_runtime (recorded lk))"
    unfolding stop_runtime_def by (rule keeps_read_each) (intro intros)
  show "keeps (quiet_runtime st tb t) (on_connection (recorded lk))"
    unfolding on_connection_def by (rule keeps_read_each) (intro intros)
qed

lemma quiet_step:
  assumes "device_status_topic tb (ct_device (se_controller st)) = Inr t" "quiet_runtime st tb t s"
  shows "quiet_runtime st tb t (runtime_step lk h provider s op)"
proof (cases op)
  case Rt_sync
  show ?thesis
  proof (cases "rn_sync s")
    case (Some cy)
    obtain cfg y where cy: "cy = (cfg, y)" by (cases cy)
    have "sync_quiet (rn_online_published s) tb t (y\<lparr>yw_world := rn_mqtt s, yw_store := rn_store s\<rparr>)"
      using assms(2) Some cy by (simp add: sync_quiet_def quiet_runtime_def)
    from sync_pass_quiet [OF assms(1) this, of "lk_cloud lk" cfg] show ?thesis
      using assms(2) Rt_sync Some cy by (auto simp: sync_quiet_def quiet_runtime_def Let_def)
  qed (use assms(2) Rt_sync in simp)
next
  case Rt_beat
  show ?thesis
  proof (cases "rn_heartbeat s")
    case (Some cb)
    obtain cfg b where cb: "cb = (cfg, b)" by (cases cb)
    have "device_status_topic (hc_topics cfg) (hc_device cfg) = Inr t"
      using assms Some cb by (auto simp: quiet_runtime_def)
    from keepsD [OF heartbeat_quiet [OF this], of "rn_online_published s" "b\<lparr>hb_world := rn_mqtt s\<rparr>" "lk_cloud lk" provider]
    show ?thesis using assms(2) Rt_beat Some cb by (auto simp: quiet_runtime_def Let_def)
  qed (use assms(2) Rt_beat in simp)
next
  case (Rt_message m)
  have "keeps (quiet_runtime st tb t) (in_intake (\<lambda>u. on_message u (recorded_cloud (lk_cloud lk)) m))"
    by (rule quiet_intake) (use intake_quiet assms(1) in blast)
  from keepsD [OF this assms(2)] show ?thesis using Rt_message by simp
next
  case Rt_start
  show ?thesis unfolding Rt_start runtime_step.simps by (rule keepsD [OF quiet_calls(1) [OF assms(1)] assms(2)])
next
  case Rt_stop
  show ?thesis unfolding Rt_stop runtime_step.simps by (rule keepsD [OF quiet_calls(2) [OF assms(1)] assms(2)])
next
  case Rt_connection
  show ?thesis unfolding Rt_connection runtime_step.simps by (rule keepsD [OF quiet_calls(3) [OF assms(1)] assms(2)])
next
  case (Rt_world f)
  with assms(2) show ?thesis by (simp add: quiet_runtime_def says_online_world Let_def)
next
  case (Rt_rows f)
  with assms(2) show ?thesis by (simp add: quiet_runtime_def)
qed

text \<open>
  What a broker keeps for the subscribers to come: the last retained message. A client has given it a will when it connects. The broker
  publishes the will when the connection is lost; a DISCONNECT discards it. The client that connects again gives it again.
\<close>

definition broker_sees :: "string \<Rightarrow> (string \<times> json \<times> bool) option \<times> json option \<Rightarrow> link_event \<Rightarrow> (string \<times> json \<times> bool) option \<times> json option" where
  "broker_sees t b ev =
    (case b of (will, kept) \<Rightarrow> case ev of
       Ev_will topic msg r \<Rightarrow> (Some (topic, msg, r), kept)
     | Ev_published topic msg r \<Rightarrow> (will, if topic = t \<and> r then Some msg else kept)
     | Ev_disconnected \<Rightarrow> (None, kept)
     | Ev_lost \<Rightarrow> (will, case will of None \<Rightarrow> kept | Some (topic, msg, r) \<Rightarrow> if topic = t \<and> r then Some msg else kept))"

definition retained :: "string \<Rightarrow> link_event list \<Rightarrow> json option" where
  "retained t events = snd (foldl (broker_sees t) (None, None) events)"

text \<open>The events after the last loss of the connection, and whether the topic was retained a message among them.\<close>

definition since_loss :: "link_event list \<Rightarrow> link_event list" where
  "since_loss events = rev (takeWhile (\<lambda>ev. ev \<noteq> Ev_lost) (rev events))"

definition announces :: "string \<Rightarrow> link_event \<Rightarrow> bool" where
  "announces t ev = (case ev of Ev_published topic msg r \<Rightarrow> topic = t \<and> r | _ \<Rightarrow> False)"

lemma will_given: "fst (foldl (broker_sees t) (None, None) events) = Some (topic, msg, r) \<Longrightarrow> Ev_will topic msg r \<in> set events"
  by (induction events rule: rev_induct) (auto simp: broker_sees_def split: link_event.splits prod.splits)

lemma retained_origin:
  "retained t events = Some msg \<Longrightarrow>
    Ev_published t msg True \<in> set events \<or> Ev_lost \<in> set events \<and> Ev_will t msg True \<in> set events"
proof (induction events rule: rev_induct)
  case (snoc ev events)
  obtain will kept where b: "foldl (broker_sees t) (None, None) events = (will, kept)" by fastforce
  have "will = Some (topic, m, r) \<Longrightarrow> Ev_will topic m r \<in> set events" for topic m r using will_given [of t events] b by simp
  with snoc b show ?case
    by (auto simp: retained_def broker_sees_def split: link_event.splits option.splits if_splits)
qed (simp add: retained_def)

lemma retained_announcement:
  "list_ex (announces t) (since_loss events) \<Longrightarrow> \<exists>msg. retained t events = Some msg \<and> Ev_published t msg True \<in> set events"
proof (induction events rule: rev_induct)
  case (snoc ev events)
  obtain will kept where b: "foldl (broker_sees t) (None, None) events = (will, kept)" by fastforce
  from snoc b show ?case
    by (cases ev) (auto simp: since_loss_def announces_def retained_def broker_sees_def)
qed (simp add: since_loss_def)

lemma never_lost: "Ev_lost \<notin> set events \<Longrightarrow> since_loss events = events"
proof -
  assume "Ev_lost \<notin> set events"
  then have "takeWhile (\<lambda>ev. ev \<noteq> Ev_lost) (rev events) = rev events" by (auto simp: takeWhile_eq_all_conv)
  then show ?thesis unfolding since_loss_def by (simp only: rev_rev_ident)
qed

lemma stop_keeps_announced: "rn_online_published (snd (stop_runtime lk s)) = rn_online_published s"
proof -
  define b where "b = rn_online_published s"
  have "keeps (\<lambda>s. rn_online_published s = b) (on_link m)" "keeps (\<lambda>s. rn_online_published s = b) (in_intake f)" for m f
    by (auto simp: keeps_def on_link_def in_intake_def split: prod.split option.split)
  then have "keeps (\<lambda>s. rn_online_published s = b) (stop_runtime lk)"
    unfolding stop_runtime_def
    by (intro keeps_read_each keeps_if keeps_return keeps_then keeps_modify keeps_catch) simp_all
  from keepsD [OF this, of s] show ?thesis by (simp add: b_def)
qed

text \<open>
  C36. A device that was stopped looks online. Whatever the runtime, its workers, the network and the clients of the command topic do
  before, and whether or not the connection is lost in between, after a stop the status that the broker retains for the device is
  ONLINE whenever the device announced itself since the connection was last lost, and so whenever it announced itself and the
  connection was never lost. The only OFFLINE status it can retain is the will, after a loss; neither a stop nor anything else the
  program does publishes one.
\<close>

theorem stopped_device_looks_online:
  assumes "create_runtime st d (m, []) loop = Inr s0" "status_topic s0 = Inr t"
  shows "let s = foldl (runtime_step lk h provider) s0 ops; s' = runtime_step lk h provider s Rt_stop; events = snd (rn_mqtt s') in
    (case retained t events of None \<Rightarrow> True | Some msg \<Rightarrow> online_message msg \<or> Ev_lost \<in> set events \<and> offline_message msg) \<and>
    (list_ex (announces t) (since_loss events) \<or> rn_online_published s \<and> Ev_lost \<notin> set events \<longrightarrow>
      (\<exists>msg. retained t events = Some msg \<and> online_message msg))"
proof -
  have topic: "device_status_topic (rn_topics s0) (ct_device (se_controller st)) = Inr t"
    and s0: "quiet_runtime st (rn_topics s0) t s0"
    using assms
    by (auto simp: create_runtime_def Let_def bind_result_Inr_iff status_topic_def device_of_def quiet_runtime_def says_online_def)
  let ?s = "foldl (runtime_step lk h provider) s0 ops"
  define s' where "s' = runtime_step lk h provider ?s Rt_stop"
  define events where "events = snd (rn_mqtt s')"
  have "quiet_runtime st (rn_topics s0) t (foldl (runtime_step lk h provider) s0 xs)" for xs
    by (induction xs rule: rev_induct) (simp_all add: s0 quiet_step [OF topic])
  from this [of "ops @ [Rt_stop]"] have quiet: "says_online (rn_online_published s') t (rn_mqtt s')"
    by (simp add: s'_def quiet_runtime_def)
  have published: "online_message msg" if "Ev_published t msg r \<in> set events" for msg r
    using quiet that by (auto simp: says_online_def events_def)
  have will: "offline_message msg" if "Ev_will t msg r \<in> set events" for msg r
    using quiet that by (auto simp: says_online_def events_def)
  have "case retained t events of None \<Rightarrow> True | Some msg \<Rightarrow> online_message msg \<or> Ev_lost \<in> set events \<and> offline_message msg"
    using retained_origin [of t events] published will by (fastforce split: option.split)
  moreover have "list_ex (announces t) (since_loss events)" if "rn_online_published ?s" "Ev_lost \<notin> set events"
  proof -
    have "rn_online_published s'" using that(1) by (simp add: s'_def stop_keeps_announced)
    then obtain msg where "Ev_published t msg True \<in> set events" using quiet by (auto simp: says_online_def events_def)
    then show ?thesis unfolding never_lost [OF that(2)] list_ex_iff by (force simp: announces_def)
  qed
  moreover have "\<exists>msg. retained t events = Some msg \<and> online_message msg" if "list_ex (announces t) (since_loss events)"
    using retained_announcement [OF that] published by blast
  ultimately show ?thesis unfolding Let_def s'_def [symmetric] events_def [symmetric] by blast
qed

definition lab_topics :: topic_builder where
  "lab_topics = \<lparr>tb_environment = ''LAB'', tb_segment = ''lab''\<rparr>"

lemma lab_topics_built: "new_topics ''LAB'' = Inr lab_topics" "upper ''LAB'' = ''LAB''"
    "device_status_topic lab_topics ''d'' = Inr ''intelipump/lab/devices/d/status''"
  by code_simp+

definition cloud_settings :: settings where
  "cloud_settings = default_settings\<lparr>se_mqtt := default_mqtt\<lparr>ms_enabled := True\<rparr>,
     se_controller := default_controller\<lparr>ct_device := ''d''\<rparr>\<rparr>"

definition sure_link :: "unit mqtt_client" where
  "sure_link = \<lparr>lk_cloud = sure_cloud, lk_set_will = (\<lambda>_ _ _ _ _. ()), lk_connect = return_act (), lk_disconnect = return_act (),
     lk_subscribe = (\<lambda>_. return_act ()), lk_unsubscribe = (\<lambda>_. return_act ()),
     lk_metadata = (\<lambda>_. ph_meta (new_client (mqtt_config_from_settings default_mqtt ''d'')))\<rparr>"

definition lab_host :: runtime_host where
  "lab_host = \<lparr>rh_sha = id, rh_say = (\<lambda>_. []), rh_virtual = True, rh_version = ''1'', rh_hostname = ''h''\<rparr>"

definition lab_runtime :: "(unit \<times> link_event list, unit) runtime" where
  "lab_runtime = (case create_runtime cloud_settings (empty_store nat_text) ((), []) None of Inr s \<Rightarrow> s)"

lemma lab_runtime_facts:
  "create_runtime cloud_settings (empty_store nat_text) ((), []) None = Inr lab_runtime"
  "status_topic lab_runtime = Inr ''intelipump/lab/devices/d/status''"
proof -
  have env: "se_environment cloud_settings = ''LAB''" "ms_topic_environment (se_mqtt cloud_settings) = None"
    "ct_device (se_controller cloud_settings) = ''d''"
    by (simp_all add: cloud_settings_def default_settings_def default_mqtt_def)
  show "create_runtime cloud_settings (empty_store nat_text) ((), []) None = Inr lab_runtime"
    by (simp add: lab_runtime_def create_runtime_def Let_def env lab_topics_built)
  have "rn_settings lab_runtime = cloud_settings" "rn_topics lab_runtime = lab_topics"
    by (simp_all add: lab_runtime_def create_runtime_def Let_def env lab_topics_built)
  then show "status_topic lab_runtime = Inr ''intelipump/lab/devices/d/status''"
    by (simp add: status_topic_def device_of_def env lab_topics_built)
qed

lemma lab_runtime_announced:
  "rn_online_published (runtime_step sure_link lab_host (return_act no_extras) lab_runtime Rt_start)"
  "rn_intake (runtime_step sure_link lab_host (return_act no_extras) lab_runtime Rt_start) = None"
  "Ev_lost \<notin> set (snd (rn_mqtt (runtime_step sure_link lab_host (return_act no_extras) lab_runtime Rt_start)))"
proof -
  have enabled: "runtime_enabled lab_runtime" "\<not> rn_started lab_runtime" "rn_settings lab_runtime = cloud_settings"
    "rn_topics lab_runtime = lab_topics" "rn_intake lab_runtime = None" "snd (rn_mqtt lab_runtime) = []"
    by (simp_all add: lab_runtime_def create_runtime_def Let_def cloud_settings_def default_settings_def default_mqtt_def
        lab_topics_built runtime_enabled_def)
  have settings: "ms_command_subscription (se_mqtt cloud_settings) = False" "ct_device (se_controller cloud_settings) = ''d''"
    by (simp_all add: cloud_settings_def default_mqtt_def)
  have online: "rn_online_published (snd (publish_online (recorded sure_link) s)) \<and>
      rn_intake (snd (publish_online (recorded sure_link) s)) = rn_intake s \<and>
      (Ev_lost \<in> set (snd (rn_mqtt (snd (publish_online (recorded sure_link) s)))) \<longleftrightarrow> Ev_lost \<in> set (snd (rn_mqtt s)))"
    if "rn_settings s = cloud_settings" "rn_topics s = lab_topics" for s :: "(unit \<times> link_event list, unit) runtime"
  proof -
    have "status_topic s = Inr ''intelipump/lab/devices/d/status''"
      using that by (simp add: status_topic_def device_of_def settings lab_topics_built)
    then show ?thesis
      by (simp add: publish_online_def Let_def build_envelope_def online_values_def status_body_def float_money_def is_float_def catch_act_def bind_act_def
          on_link_def recorded_def recorded_cloud_def sure_link_def sure_cloud_def loss_of_def)
  qed
  have calls: "lk_connect (recorded sure_link) w = (Inr (), w)" "cd_connected (lk_cloud (recorded sure_link)) w" for w
    by (simp_all add: recorded_def beside_def sure_link_def sure_cloud_def recorded_cloud_def loss_of_def prod_eq_iff split: prod.split)
  have will: "Ev_lost \<in> set (snd (lk_set_will (recorded sure_link) topic msg q r w)) \<longleftrightarrow> Ev_lost \<in> set (snd w)" for topic msg q r w
    by (simp add: recorded_def)
  let ?s = "runtime_step sure_link lab_host (return_act no_extras) lab_runtime Rt_start"
  have "rn_online_published ?s \<and> rn_intake ?s = None \<and> Ev_lost \<notin> set (snd (rn_mqtt ?s))"
    using enabled lab_runtime_facts(2)
    by (simp add: start_runtime_def calls on_link_def catch_act_def make_workers_def in_intake_def Let_def settings bind_act_def
        online will prod.case_eq_if split: sum.split)
  then show "rn_online_published ?s" "rn_intake ?s = None" "Ev_lost \<notin> set (snd (rn_mqtt ?s))" by simp_all
qed

lemma sure_link_stop:
  "rn_intake s = None \<Longrightarrow> Ev_lost \<notin> set (snd (rn_mqtt s)) \<Longrightarrow>
    Ev_lost \<notin> set (snd (rn_mqtt (runtime_step sure_link h provider s Rt_stop)))"
  by (simp add: stop_runtime_def in_intake_def on_link_def catch_act_def recorded_def sure_link_def)


theorem stopped_device_looks_online_witness:
  "let s = runtime_step sure_link lab_host (return_act no_extras) lab_runtime Rt_start;
       s' = runtime_step sure_link lab_host (return_act no_extras) s Rt_stop in
    \<exists>msg. retained ''intelipump/lab/devices/d/status'' (snd (rn_mqtt s')) = Some msg \<and> online_message msg"
  using stopped_device_looks_online [OF lab_runtime_facts, of sure_link lab_host "return_act no_extras" "[Rt_start]"]
    lab_runtime_announced(1) sure_link_stop [OF lab_runtime_announced(2,3), of lab_host "return_act no_extras"]
  by (simp add: Let_def del: runtime_step.simps)

end
