(* ===== verification/Api_Health.thy ===== *)
theory Api_Health
  imports Api_Queries Cloud_Runtime Svc_Recovery Svc_Worker Live_Broker
begin

text \<open>
  What holds the program together when it runs as a service: \<open>api/lifespan.py\<close>, \<open>api/state.py\<close>, \<open>persistence/migrations.py\<close> and the
  routes of \<open>api/routes/health.py\<close>. A failure of the database is the index of the query of a unit of work that raises, with the
  exception; the store is the database as the queries before it find it. Texts of floats are arguments.
\<close>

section \<open>The version of the schema\<close>

text \<open>\<open>int\<close> of a text of ASCII characters: blanks around it, a sign, and single underscores between digits.\<close>

fun digits_of :: "bool \<Rightarrow> nat \<Rightarrow> string \<Rightarrow> nat option" where
  "digits_of after_digit n [] = (if after_digit then Some n else None)"
| "digits_of after_digit n (c # cs) =
    (if is_digit c then digits_of True (n * 10 + (of_char c - 48)) cs
     else if c = CHR ''_'' \<and> after_digit then digits_of False n cs
     else None)"

definition python_int :: "string \<Rightarrow> int option" where
  "python_int s = (case strip s of
     [] \<Rightarrow> None
   | c # cs \<Rightarrow>
       if c = CHR ''-'' then map_option (\<lambda>n. - int n) (digits_of False 0 cs)
       else if c = CHR ''+'' then map_option int (digits_of False 0 cs)
       else map_option int (digits_of False 0 (c # cs)))"

text \<open>The row of the table \<open>controller_metadata\<close>: the value and when it was written. A transaction that raises is rolled back.\<close>

type_synonym metadata = "(string \<times> int) option"

definition SCHEMA_VERSION :: int where
  "SCHEMA_VERSION = 1"

definition init_schema :: "int \<Rightarrow> (metadata, int) action" where
  "init_schema now md =
    (case md of
       None \<Rightarrow> (Inr SCHEMA_VERSION, Some (int_text SCHEMA_VERSION, now))
     | Some (v, t) \<Rightarrow>
         (case python_int v of
            None \<Rightarrow> (Inl SchemaError, md)
          | Some current \<Rightarrow>
              if current > SCHEMA_VERSION then (Inl SchemaError, md)
              else (Inr SCHEMA_VERSION, if current < SCHEMA_VERSION then Some (int_text SCHEMA_VERSION, now) else md)))"

definition get_schema_version :: "metadata \<Rightarrow> int result" where
  "get_schema_version md =
    (case md of
       None \<Rightarrow> Inr 0
     | Some (v, t) \<Rightarrow> (case python_int v of None \<Rightarrow> Inl ValueError | Some n \<Rightarrow> Inr n))"

definition reset_lab_database :: "string \<Rightarrow> int \<Rightarrow> (metadata \<times> store, int) action" where
  "reset_lab_database environment now s =
    (if upper environment \<noteq> ''LAB'' then (Inl SchemaError, s)
     else case init_schema now None of
       (r, md) \<Rightarrow> (r, (md, (empty_store (db_supply (snd s)))\<lparr>db_drawn := db_drawn (snd s)\<rparr>)))"

section \<open>State\<close>

record metrics_state =
  me_poll_count :: int
  me_data_count :: int
  me_eot_count :: int
  me_crc_error_count :: int
  me_timeout_count :: int
  me_nak_count :: int
  me_duplicate_count :: int
  me_latency_last :: "rat option"
  me_latency_max :: "rat option"
  me_accepting :: bool

definition new_metrics :: metrics_state where
  "new_metrics = \<lparr>me_poll_count = 0, me_data_count = 0, me_eot_count = 0, me_crc_error_count = 0, me_timeout_count = 0,
     me_nak_count = 0, me_duplicate_count = 0, me_latency_last = None, me_latency_max = None, me_accepting = True\<rparr>"

definition observe_db_latency :: "rat \<Rightarrow> metrics_state \<Rightarrow> metrics_state" where
  "observe_db_latency ms m =
    m\<lparr>me_latency_last := Some ms,
      me_latency_max := (case me_latency_max m of None \<Rightarrow> Some ms | Some x \<Rightarrow> Some (if ms > x then ms else x))\<rparr>"

text \<open>
  \<open>AppState\<close>; the store stands beside it. \<open>as_task_done\<close> is the task of the controller, if there is one, and whether it is done.
\<close>

record ('m, 'w, 'j) app_state =
  as_settings :: settings
  as_broker :: broker
  as_started_at :: int
  as_recovery :: "recovery_report option"
  as_worker :: "'j worker option"
  as_loop :: "'w controller option"
  as_task_done :: "bool option"
  as_stop_requested :: bool
  as_pump_ids :: "(int \<times> string) list"
  as_metrics :: metrics_state
  as_shutting_down :: bool
  as_cloud :: "('m, 'w) runtime option"

record recovery_summary =
  rs_schema :: int
  rs_pumps :: "string list"
  rs_unresolved :: "string list"
  rs_expired :: "string list"
  rs_reconciling :: "string list"
  rs_released :: nat
  rs_warnings :: "recovery_warning list"

definition recovery_summary :: "('m, 'w, 'j) app_state \<Rightarrow> recovery_summary option" where
  "recovery_summary a = map_option (\<lambda>r.
     \<lparr>rs_schema = rr_schema r, rs_pumps = rr_pumps r, rs_unresolved = rr_unresolved r, rs_expired = rr_expired r,
      rs_reconciling = rr_reconciling r, rs_released = rr_released r, rs_warnings = take 20 (rr_warnings r)\<rparr>) (as_recovery a)"

definition loop_running :: "('m, 'w, 'j) app_state \<Rightarrow> bool" where
  "loop_running a \<longleftrightarrow> as_task_done a = Some False"

section \<open>Counting pumps\<close>

text \<open>Healthy, degraded and disconnected pumps.\<close>

definition tally :: "snapshot_row option \<Rightarrow> nat \<times> nat \<times> nat \<Rightarrow> nat \<times> nat \<times> nat" where
  "tally snap c =
    (case c of (well, weak, lost) \<Rightarrow>
      case snap of
        None \<Rightarrow> (well, weak, lost + 1)
      | Some s \<Rightarrow>
          if \<not> sn_healthy s then (well, weak, lost + 1)
          else if sn_state s \<in> {''FAULTED'', ''DISCOVERING''} then (well, weak + 1, lost)
          else (well + 1, weak, lost))"

definition pump_counts :: "store \<Rightarrow> pump_row list \<Rightarrow> nat \<times> nat \<times> nat" where
  "pump_counts d pumps = foldl (\<lambda>c p. tally (latest_snapshot (pr_id p) d) c) (0, 0, 0) pumps"

type_synonym outage = "(nat \<times> py_error) option"

text \<open>\<open>ControllerMode.value\<close>.\<close>

fun controller_mode_value :: "controller_mode \<Rightarrow> string" where
  "controller_mode_value LISTEN_ONLY = ''LISTEN_ONLY''"
| "controller_mode_value BENCH_CONTROL = ''BENCH_CONTROL''"
| "controller_mode_value FIELD_CONTROL = ''FIELD_CONTROL''"
| "controller_mode_value LOCKED_OUT = ''LOCKED_OUT''"

text \<open>The value of a variable that the k-th query assigns, after a unit of work that may have stopped before.\<close>

definition queried :: "outage \<Rightarrow> nat \<Rightarrow> 'a \<Rightarrow> 'a \<Rightarrow> 'a" where
  "queried failing k old v = (case failing of None \<Rightarrow> v | Some (n, e) \<Rightarrow> if k < n then v else old)"

section \<open>The payload of the heartbeat\<close>

text \<open>Queries: waiting messages, unresolved sales, the pumps, then the snapshot of each pump. Every exception is swallowed.\<close>

definition counts_before :: "outage \<Rightarrow> nat \<Rightarrow> store \<Rightarrow> pump_row list \<Rightarrow> nat \<times> nat \<times> nat" where
  "counts_before failing k d pumps =
    pump_counts d (case failing of None \<Rightarrow> pumps | Some (n, e) \<Rightarrow> take (n - k) pumps)"

definition heartbeat_payload ::
  "'w environment \<Rightarrow> ('w \<Rightarrow> string) \<Rightarrow> (int \<Rightarrow> string) \<Rightarrow> int \<Rightarrow> settings \<Rightarrow> (int \<times> string) list \<Rightarrow> ('m, 'w, 'j) app_state option \<Rightarrow>
   outage \<Rightarrow> store \<Rightarrow> heartbeat_extras" where
  "heartbeat_payload env kind seconds now st pump_map app failing d =
    (let station = ct_station (se_controller st); loop = Option.bind app as_loop in
     case counts_before failing 3 d (pumps_of_station station d) of (well, weak, lost) \<Rightarrow>
     \<lparr>hx_controller_mode = controller_mode_value (ct_mode (se_controller st)), hx_status = ''ONLINE'',
      hx_uptime = seconds (now - (case app of None \<Rightarrow> now | Some a \<Rightarrow> as_started_at a)), hx_database_status = ''OK'',
      hx_loop_running = (case app of None \<Rightarrow> False | Some a \<Rightarrow> loop_running a),
      hx_transport_kind = map_option (\<lambda>c. kind (cl_world c)) loop,
      hx_transport_open = map_option (\<lambda>c. en_is_open env (cl_world c)) loop,
      hx_configured_pumps = int (length pump_map), hx_healthy_pumps = int well, hx_degraded_pumps = int weak,
      hx_disconnected_pumps = int lost, hx_pending_sync = int (queried failing 0 0 (pending_count d)),
      hx_unresolved = int (queried failing 1 0 (length (list_unresolved station d)))\<rparr>)"

section \<open>The health route\<close>

datatype health_warning = Database_warning py_error | Recovery_note recovery_warning

definition no_cloud :: cloud_health where
  "no_cloud = \<lparr>ch_enabled = False, ch_connected = False, ch_host = None, ch_last_connected_at = None, ch_last_disconnected_at = None,
     ch_reconnect_count = 0, ch_last_error = None, ch_heartbeat_at = None, ch_subscription_active = False, ch_delivered = 0,
     ch_failed = 0\<rparr>"

definition cloud_of :: "'m mqtt_client \<Rightarrow> ('m, 'w, 'j) app_state \<Rightarrow> cloud_health" where
  "cloud_of lk a = (case as_cloud a of None \<Rightarrow> no_cloud | Some c \<Rightarrow> health_dict lk c)"

text \<open>\<open>fromisoformat\<close>, None for what it refuses, is an argument.\<close>

definition parse_iso :: "(string \<Rightarrow> int option) \<Rightarrow> string option \<Rightarrow> int option" where
  "parse_iso from_iso v = (if truthy_string v then from_iso (the v) else None)"

record health_response =
  hr_status :: string
  hr_environment :: string
  hr_mode :: controller_mode
  hr_device :: string
  hr_station :: string
  hr_active_commands :: bool
  hr_physical_enable :: bool
  hr_loop_running :: bool
  hr_transport_open :: "bool option"
  hr_database_status :: string
  hr_schema_version :: "int option"
  hr_queue_depth :: nat
  hr_pending_sync :: nat
  hr_unresolved :: nat
  hr_configured_pumps :: nat
  hr_healthy_pumps :: nat
  hr_degraded_pumps :: nat
  hr_disconnected_pumps :: nat
  hr_recovery :: "recovery_summary option"
  hr_uptime :: int
  hr_timestamp :: int
  hr_warnings :: "health_warning list"
  hr_mqtt_enabled :: bool
  hr_mqtt_connected :: bool
  hr_mqtt_host :: "string option"
  hr_last_connected_at :: "int option"
  hr_last_disconnected_at :: "int option"
  hr_reconnect_count :: nat
  hr_mqtt_last_error :: "mqtt_note option"
  hr_sync_age :: "int option"
  hr_sync_delivered :: nat
  hr_sync_failed :: nat
  hr_heartbeat_at :: "int option"
  hr_subscription_active :: bool

text \<open>
  Queries of the first unit of work: the version, unresolved sales, four counts of the queue, the pumps; its commit is the eighth. The
  snapshots are read in a second unit of work, outside the \<open>try\<close>; \<open>second\<close> is the exception it raises.
\<close>

definition first_failure :: "metadata \<Rightarrow> outage \<Rightarrow> outage" where
  "first_failure md failing =
    (case get_schema_version md of Inr v \<Rightarrow> failing | Inl e \<Rightarrow> (case failing of Some (0, e') \<Rightarrow> failing | _ \<Rightarrow> Some (0, e)))"

definition health_status :: "bool \<Rightarrow> string \<Rightarrow> nat \<times> nat \<times> nat \<Rightarrow> string" where
  "health_status shutting_down database_status c =
    (case c of (well, weak, lost) \<Rightarrow>
      if shutting_down then ''OFFLINE''
      else if database_status \<noteq> ''OK'' \<or> lost \<noteq> 0 \<and> well = 0 then ''DEGRADED''
      else ''ONLINE'')"

definition controller_health ::
  "'m mqtt_client \<Rightarrow> 'w environment \<Rightarrow> (string \<Rightarrow> int option) \<Rightarrow> int \<Rightarrow> rat \<Rightarrow> metadata \<Rightarrow> store \<Rightarrow> outage \<Rightarrow> py_error option \<Rightarrow>
   (('m, 'w, 'j) app_state, health_response) action" where
  "controller_health lk env from_iso now elapsed md d failing second a =
    (let st = as_settings a; station = ct_station (se_controller st); failing = first_failure md failing;
         database_status = (if failing = None then ''OK'' else ''ERROR'');
         pumps = queried failing 6 [] (pumps_of_station station d);
         a1 = a\<lparr>as_metrics := observe_db_latency elapsed (as_metrics a)\<rparr>
     in case second of
       Some e \<Rightarrow> (Inl e, a1)
     | None \<Rightarrow>
         (case pump_counts d pumps of (well, weak, lost) \<Rightarrow>
           let cloud = cloud_of lk a;
               sent_count = queried failing 4 0 (delivered_count d); gave_up = queried failing 5 0 (failed_count d)
           in (Inr
             \<lparr>hr_status = health_status (as_shutting_down a) database_status (well, weak, lost),
              hr_environment = se_environment st, hr_mode = ct_mode (se_controller st), hr_device = ct_device (se_controller st),
              hr_station = station, hr_active_commands = sf_active_enabled (se_safety st), hr_physical_enable = False,
              hr_loop_running = loop_running a,
              hr_transport_open = map_option (\<lambda>c. en_is_open env (cl_world c)) (as_loop a),
              hr_database_status = database_status,
              hr_schema_version = queried failing 0 None (case get_schema_version md of Inl e \<Rightarrow> None | Inr v \<Rightarrow> Some v),
              hr_queue_depth = (case as_worker a of None \<Rightarrow> 0 | Some w \<Rightarrow> length (wk_queue w)),
              hr_pending_sync = queried failing 2 0 (pending_count d),
              hr_unresolved = queried failing 1 0 (length (list_unresolved station d)),
              hr_configured_pumps = length pumps, hr_healthy_pumps = well, hr_degraded_pumps = weak,
              hr_disconnected_pumps = lost, hr_recovery = recovery_summary a, hr_uptime = now - as_started_at a,
              hr_timestamp = now,
              hr_warnings = (case failing of None \<Rightarrow> [] | Some (n, e) \<Rightarrow> [Database_warning e]) @
                (case as_recovery a of None \<Rightarrow> [] | Some r \<Rightarrow> map Recovery_note (take 5 (rr_warnings r))),
              hr_mqtt_enabled = ch_enabled cloud, hr_mqtt_connected = ch_connected cloud, hr_mqtt_host = ch_host cloud,
              hr_last_connected_at = parse_iso from_iso (ch_last_connected_at cloud),
              hr_last_disconnected_at = parse_iso from_iso (ch_last_disconnected_at cloud),
              hr_reconnect_count = ch_reconnect_count cloud, hr_mqtt_last_error = ch_last_error cloud,
              hr_sync_age = queried failing 3 None (oldest_pending_age now d),
              hr_sync_delivered = (case as_cloud a of None \<Rightarrow> sent_count | Some c \<Rightarrow> max sent_count (ch_delivered cloud)),
              hr_sync_failed = (case as_cloud a of None \<Rightarrow> gave_up | Some c \<Rightarrow> max gave_up (ch_failed cloud)),
              hr_heartbeat_at = parse_iso from_iso (ch_heartbeat_at cloud), hr_subscription_active = ch_subscription_active cloud\<rparr>,
             a1)))"

section \<open>The metrics route\<close>

record metrics_response =
  xr_metrics :: metrics_state
  xr_queue_depth :: nat
  xr_dropped :: nat
  xr_active_sse :: nat
  xr_active_ws :: nat
  xr_uptime :: int
  xr_mqtt_enabled :: bool
  xr_mqtt_connected :: bool
  xr_mqtt_host :: "string option"
  xr_reconnect_count :: nat
  xr_pending_sync :: "nat option"
  xr_sync_delivered :: nat
  xr_sync_failed :: nat
  xr_heartbeat_at :: "int option"
  xr_subscription_active :: bool

text \<open>The controller's summary adds the sessions up first; the response repeats the counters and latencies of the metrics.\<close>

definition take_totals :: "controller_totals \<Rightarrow> metrics_state \<Rightarrow> metrics_state" where
  "take_totals t m =
    m\<lparr>me_poll_count := int (to_poll_count t), me_data_count := int (to_data_count t), me_eot_count := int (to_eot_count t),
      me_crc_error_count := int (to_crc_errors t), me_timeout_count := int (to_timeouts t), me_nak_count := int (to_nak_count t),
      me_duplicate_count := int (to_duplicate_count t)\<rparr>"

definition controller_metrics ::
  "'m mqtt_client \<Rightarrow> (string \<Rightarrow> int option) \<Rightarrow> int \<Rightarrow> store \<Rightarrow> outage \<Rightarrow> ('m, 'w, 'j) app_state \<Rightarrow>
   metrics_response \<times> ('m, 'w, 'j) app_state" where
  "controller_metrics lk from_iso now d failing a =
    (let loop = map_option refresh_totals (as_loop a);
         m = (case loop of None \<Rightarrow> as_metrics a | Some c \<Rightarrow> take_totals (cl_totals c) (as_metrics a)); cloud = cloud_of lk a
     in (\<lparr>xr_metrics = m, xr_queue_depth = (case as_worker a of None \<Rightarrow> 0 | Some w \<Rightarrow> length (wk_queue w)),
          xr_dropped = bk_dropped (as_broker a), xr_active_sse = active_of ''sse'' (as_broker a),
          xr_active_ws = active_of ''ws'' (as_broker a), xr_uptime = now - as_started_at a, xr_mqtt_enabled = ch_enabled cloud,
          xr_mqtt_connected = ch_connected cloud, xr_mqtt_host = ch_host cloud, xr_reconnect_count = ch_reconnect_count cloud,
          xr_pending_sync = (if failing = None then Some (fst (pending_sync_snapshot now d)) else None),
          xr_sync_delivered = ch_delivered cloud, xr_sync_failed = ch_failed cloud,
          xr_heartbeat_at = parse_iso from_iso (ch_heartbeat_at cloud), xr_subscription_active = ch_subscription_active cloud\<rparr>,
         a\<lparr>as_loop := loop, as_metrics := m\<rparr>))"

section \<open>Starting and stopping the service\<close>

fun split_commas :: "string \<Rightarrow> string list" where
  "split_commas [] = [[]]"
| "split_commas (c # cs) =
    (if c = CHR '','' then [] # split_commas cs
     else case split_commas cs of [] \<Rightarrow> [[c]] | part # parts \<Rightarrow> (c # part) # parts)"

fun parse_addresses :: "string list \<Rightarrow> int list result" where
  "parse_addresses [] = Inr []"
| "parse_addresses (x # xs) =
    (if strip x = [] then parse_addresses xs
     else case python_int (strip x) of
       None \<Rightarrow> Inl ValueError
     | Some n \<Rightarrow> bind_result (parse_addresses xs) (\<lambda>ns. Inr (n # ns)))"

definition on_metadata :: "(metadata, 'a) action \<Rightarrow> (metadata \<times> store, 'a) action" where
  "on_metadata m s = (case m (fst s) of (r, md) \<Rightarrow> (r, (md, snd s)))"

definition on_rows :: "(store, 'a) action \<Rightarrow> (metadata \<times> store, 'a) action" where
  "on_rows m s = (case m (snd s) of (r, d) \<Rightarrow> (r, (fst s, d)))"

text \<open>The broker, the worker and the state of a service that has just recovered, and the event that says so.\<close>

definition new_app :: "int \<Rightarrow> settings \<Rightarrow> recovery_report \<Rightarrow> (int \<times> string) list \<Rightarrow> ('m, 'w, 'j) app_state" where
  "new_app now st report pump_map =
    \<lparr>as_settings = st,
     as_broker = new_broker (nat (hs_max_sse (se_api st))) (nat (hs_max_ws (se_api st))) (nat (hs_event_queue_size (se_api st))),
     as_started_at = now, as_recovery = Some report, as_worker = Some (start_worker (new_worker 256)), as_loop = None,
     as_task_done = None, as_stop_requested = False, as_pump_ids = pump_map, as_metrics = new_metrics, as_shutting_down = False,
     as_cloud = None\<rparr>"

definition announce_recovery :: "int \<Rightarrow> string \<Rightarrow> int \<Rightarrow> ('m, 'w, 'j) app_state \<Rightarrow> ('m, 'w, 'j) app_state" where
  "announce_recovery now eid schema a =
    (let st = as_settings a
     in a\<lparr>as_broker := snd (publish_typed now eid Live_CONTROLLER_RECOVERED
          \<lparr>lw_station = ct_station (se_controller st), lw_environment = se_environment st, lw_simulated = hs_simulated (se_api st),
           lw_pump = None, lw_transaction = None, lw_correlation = None, lw_severity = None,
           lw_payload = Some (JObj [(''schema_version'', JInt schema),
             (''pumps'', JList (case as_recovery a of None \<Rightarrow> [] | Some r \<Rightarrow> map JStr (rr_pumps r)))]),
           lw_state_version = None\<rparr> (as_broker a))\<rparr>)"

text \<open>\<open>app_lifespan\<close> up to its \<open>yield\<close>. Without MQTT the runtime is created and put aside.\<close>

definition app_start ::
  "'m mqtt_client \<Rightarrow> runtime_host \<Rightarrow> int \<Rightarrow> string \<Rightarrow> 'm \<Rightarrow> settings \<Rightarrow> (metadata \<times> store, ('m, 'w, 'j) app_state) action" where
  "app_start lk h now eid client raw =
    bind_act (result_act (get_settings raw)) (\<lambda>st.
    bind_act (on_metadata (init_schema now)) (\<lambda>schema.
    bind_act (result_act (parse_addresses (split_commas (hs_addresses (se_api st))))) (\<lambda>addresses.
    bind_act (on_rows (ensure_pumps now (ct_station (se_controller st)) (if addresses = [] then [1, 2] else addresses))) (\<lambda>pump_map.
    bind_act (on_metadata (init_schema now)) (\<lambda>again.
    bind_act (on_rows (recover again now (ct_station (se_controller st)))) (\<lambda>report.
    read_act (\<lambda>s.
    bind_act (result_act (create_runtime st (snd s) client None)) (\<lambda>cloud.
    bind_act (result_act
        (if ms_enabled (se_mqtt st)
         then case start_runtime lk h cloud of (Inl e, c) \<Rightarrow> Inl e | (Inr u, c) \<Rightarrow> Inr (Some c)
         else Inr None)) (\<lambda>running.
    return_act (announce_recovery now eid schema ((new_app now st report pump_map)\<lparr>as_cloud := running\<rparr>)))))))))))"

text \<open>After it. The worker hands its jobs to \<open>handler\<close>; \<open>passes\<close> is what it manages in five seconds.\<close>

definition app_stop ::
  "'m mqtt_client \<Rightarrow> ('j \<Rightarrow> ('s, unit) action) \<Rightarrow> nat \<Rightarrow> ('s \<times> ('m, 'w, 'j) app_state, unit) action" where
  "app_stop lk handler passes sa =
    (case sa of (s, a) \<Rightarrow>
      let a1 = a\<lparr>as_shutting_down := True, as_metrics := (as_metrics a)\<lparr>me_accepting := False\<rparr>\<rparr>;
          stopped = (case as_cloud a of None \<Rightarrow> (Inr (), None) | Some c \<Rightarrow> (case stop_runtime lk c of (r, c) \<Rightarrow> (r, Some c)))
      in case stopped of
        (Inl e, cloud) \<Rightarrow> (Inl e, (s, a1\<lparr>as_cloud := cloud\<rparr>))
      | (Inr u, cloud) \<Rightarrow>
          (case (case as_worker a of
                   None \<Rightarrow> (s, None)
                 | Some w \<Rightarrow> (case stop_worker handler True passes (s, w) of (s, w) \<Rightarrow> (s, Some w))) of
             (s, worker) \<Rightarrow> (Inr (), (s, a1\<lparr>as_cloud := cloud, as_stop_requested := (case as_loop a of None \<Rightarrow> as_stop_requested a | Some c \<Rightarrow> True),
               as_task_done := map_option (\<lambda>_. True) (as_task_done a), as_worker := worker,
               as_broker := close_all (as_broker a)\<rparr>))))"

text \<open>\<open>api/routes/controller.py\<close>: the short status.\<close>

record controller_status =
  cu_environment :: string
  cu_mode :: string
  cu_loop_running :: bool
  cu_accepting :: bool
  cu_shutting_down :: bool
  cu_uptime :: int

definition controller_status :: "int \<Rightarrow> ('m, 'w, 'j) app_state \<Rightarrow> controller_status" where
  "controller_status now a =
    \<lparr>cu_environment = se_environment (as_settings a), cu_mode = controller_mode_value (ct_mode (se_controller (as_settings a))),
     cu_loop_running = loop_running a, cu_accepting = me_accepting (as_metrics a), cu_shutting_down = as_shutting_down a,
     cu_uptime = now - as_started_at a\<rparr>"

section \<open>The schema\<close>

lemma schema_text: "python_int (int_text SCHEMA_VERSION) = Some SCHEMA_VERSION"
  by code_simp

text \<open>
  What \<open>init_schema\<close> returns is what \<open>get_schema_version\<close> reads from then on, and initialising again changes nothing; a
  database of a newer program is refused and left alone.
\<close>

theorem schema_is_recorded:
  "case init_schema now md of
     (Inr v, md') \<Rightarrow> v = SCHEMA_VERSION \<and> get_schema_version md' = Inr v \<and> init_schema later md' = (Inr v, md')
   | (Inl e, md') \<Rightarrow> e = SchemaError \<and> md' = md \<and> (\<exists>v t. md = Some (v, t) \<and> (case python_int v of None \<Rightarrow> True | Some n \<Rightarrow> n > SCHEMA_VERSION))"
  by (auto simp: init_schema_def get_schema_version_def schema_text split: option.splits)

section \<open>Health\<close>

definition counted_pumps :: "nat \<times> nat \<times> nat \<Rightarrow> nat" where
  "counted_pumps c = (case c of (well, weak, lost) \<Rightarrow> well + weak + lost)"

lemma counted_tally: "counted_pumps (tally snap c) = Suc (counted_pumps c)"
  by (simp add: counted_pumps_def tally_def split: prod.split option.split)

lemma counted_all: "counted_pumps (pump_counts d pumps) = length pumps"
  by (induction pumps rule: rev_induct) (simp_all add: pump_counts_def counted_tally, simp add: counted_pumps_def)

lemma first_failure_fails: "first_failure md (Some ne) \<noteq> None"
  by (auto simp: first_failure_def split: sum.split option.split prod.split nat.split)

text \<open>
  Every configured pump is counted once, and the station is ONLINE exactly when the program is not shutting down, the
  database answered, and some pump is healthy or none is disconnected.
\<close>

theorem health_counts_every_pump:
  "case fst (controller_health lk env from_iso now elapsed md d failing second a) of
     Inl e \<Rightarrow> second = Some e
   | Inr r \<Rightarrow> hr_healthy_pumps r + hr_degraded_pumps r + hr_disconnected_pumps r = hr_configured_pumps r \<and>
       (hr_status r = ''ONLINE'' \<longleftrightarrow> \<not> as_shutting_down a \<and> first_failure md failing = None \<and>
         (0 < hr_healthy_pumps r \<or> hr_disconnected_pumps r = 0))"
proof -
  let ?ps = "queried (first_failure md failing) 6 [] (pumps_of_station (ct_station (se_controller (as_settings a))) d)"
  obtain x y z where c: "pump_counts d ?ps = (x, y, z)" by (cases "pump_counts d ?ps")
  with counted_all [of d ?ps] have "x + y + z = length ?ps" by (simp add: counted_pumps_def)
  then show ?thesis
    by (cases second) (auto simp: controller_health_def Let_def c health_status_def)
qed

text \<open>
  The heartbeat hides what the health route shows. When a query of the database fails, the heartbeat still says
  ONLINE and that the database is OK, and counts only the pumps it had come to; for any failure the health route says ERROR and not ONLINE.
\<close>

theorem heartbeat_hides_outages:
  "let x = heartbeat_payload env kind seconds now st ids app (Some (n, e)) d in
    hx_status x = ''ONLINE'' \<and> hx_database_status x = ''OK'' \<and> hx_configured_pumps x = int (length ids) \<and>
    hx_healthy_pumps x + hx_degraded_pumps x + hx_disconnected_pumps x =
      int (min (n - 3) (length (pumps_of_station (ct_station (se_controller st)) d))) \<and>
    (\<exists>r. fst (controller_health lk env from_iso now elapsed md d (Some (n, e)) None a) = Inr r \<and>
      hr_database_status r = ''ERROR'' \<and> hr_status r \<noteq> ''ONLINE'')"
proof -
  let ?ps = "take (n - 3) (pumps_of_station (ct_station (se_controller st)) d)"
  obtain x y z where c: "pump_counts d ?ps = (x, y, z)" by (cases "pump_counts d ?ps")
  with counted_all [of d ?ps] have sum: "x + y + z = min (n - 3) (length (pumps_of_station (ct_station (se_controller st)) d))"
    by (simp add: counted_pumps_def min.commute)
  let ?f = "first_failure md (Some (n, e))"
  obtain ne where f: "?f = Some ne" using first_failure_fails [of md "(n, e)"] by blast
  have "\<exists>r. fst (controller_health lk env from_iso now elapsed md d (Some (n, e)) None a) = Inr r \<and>
      hr_database_status r = ''ERROR'' \<and> hr_status r \<noteq> ''ONLINE''"
    by (simp add: controller_health_def Let_def f health_status_def split: prod.split)
  then show ?thesis
    using sum by (simp add: heartbeat_payload_def Let_def counts_before_def c flip: of_nat_add)
qed

section \<open>The cloud of the service\<close>

lemma no_loop_link: "keeps (\<lambda>s. rn_loop s = None) (on_link m)"
  by (simp add: keeps_def on_link_def split: prod.split)

lemma no_loop_intake:
  assumes "\<And>u. keeps (\<lambda>i. ik_loop i = None) (f u)"
  shows "keeps (\<lambda>s. rn_loop s = None) (in_intake f)"
proof -
  have "ik_loop (snd (f u (i\<lparr>ik_store := d, ik_mqtt := m, ik_loop := None\<rparr>))) = None" for u i d m
    by (rule keepsD [OF assms]) simp
  then show ?thesis by (auto simp: keeps_def in_intake_def split: option.split prod.split) (metis snd_conv)
qed

lemma no_loop_calls: "keeps (\<lambda>i. ik_loop i = None) (intake_start u sub)" "keeps (\<lambda>i. ik_loop i = None) (intake_stop u unsub)"
  unfolding intake_start_def intake_stop_def
  by (intro keeps_bind keeps_then keeps_modify keeps_result keeps_return keeps_catch in_mqtt_loop; simp)+

lemma no_loop_execute:
  assumes "ik_loop i = None"
  obtains out i' where "execute_request cd cfg m v i = (Inr out, i')" "\<not> oc_executed out" "oc_status out \<noteq> ''QUEUED''" "ik_loop i' = None"
proof -
  have "to_enqueue cfg (ik_loop i) m v = None" using assms by (simp add: to_enqueue_def lab_may_execute_def split: option.split)
  with assms that show thesis by (auto simp: execute_request_def conclude_def Let_def bind_act_def)
qed

lemma no_loop_execute_keeps: "keeps (\<lambda>i. ik_loop i = None) (execute_request cd cfg m v)"
  unfolding keeps_def by (metis no_loop_execute snd_conv)

lemma no_loop_message: "keeps (\<lambda>i. ik_loop i = None) (on_message u cd m)"
  unfolding on_message_def handle_command_def Let_def
  by (intro keeps_read_each keeps_if keeps_return keeps_case_option keeps_bind keeps_then keeps_result no_loop_execute_keeps
      record_request_loop answer_request_loop)

lemma no_loop_step:
  assumes "rn_loop s = None"
  shows "rn_loop (runtime_step lk h provider s op) = None"
proof -
  have workers: "rn_loop (make_workers h (s\<lparr>rn_mqtt := w\<rparr>)) = rn_loop s" for s w
    by (simp add: make_workers_def Let_def)
  note intros = keeps_read_each keeps_if keeps_return keeps_bind keeps_then keeps_modify keeps_result keeps_catch
    no_loop_link no_loop_intake no_loop_calls
  have online: "keeps (\<lambda>s. rn_loop s = None) (publish_online k)" for k :: "('m \<times> link_event list) mqtt_client"
    unfolding publish_online_def Let_def by (intro intros) simp
  have calls: "keeps (\<lambda>s. rn_loop s = None) (start_runtime k h)" "keeps (\<lambda>s. rn_loop s = None) (stop_runtime k)"
    "keeps (\<lambda>s. rn_loop s = None) (on_connection k)" for k :: "('m \<times> link_event list) mqtt_client"
    unfolding start_runtime_def stop_runtime_def on_connection_def by (intro intros online; simp add: workers)+
  show ?thesis
  proof (cases op)
    case (Rt_message r)
    show ?thesis unfolding Rt_message runtime_step.simps
      by (rule keepsD [OF no_loop_intake]) (use assms no_loop_message in auto)
  qed (use assms in \<open>auto simp: Let_def intro: keepsD [OF calls(1)] keepsD [OF calls(2)] keepsD [OF calls(3)] split: option.split\<close>)
qed

interpretation without_controller: preserved "runtime_step lk h provider" "\<lambda>s. rn_loop s = None"
  by unfold_locales (rule no_loop_step)

lemma app_start_no_loop:
  assumes "fst (app_start (recorded lk) h now eid w raw s) = Inr a"
  shows "as_loop a = None \<and> (case as_cloud a of None \<Rightarrow> True | Some c \<Rightarrow> rn_loop c = None)"
proof -
  have created: "rn_loop c = None" if "create_runtime st d w None = Inr c" for st d c
    using that by (auto simp: create_runtime_def Let_def bind_result_Inr_iff)
  have started: "rn_loop c' = None"
    if "create_runtime st d w None = Inr c" "start_runtime (recorded lk) h c = (Inr (), c')" for st d c c'
    using no_loop_step [OF created [OF that(1)], of lk h undefined Rt_start] that(2) by simp
  show ?thesis
    using assms
    by (auto simp: app_start_def bind_act_def read_act_def result_act_def return_act_def announce_recovery_def new_app_def Let_def
        split: sum.splits prod.splits if_splits intro: started)
qed

text \<open>
  C29. A service that \<open>app_lifespan\<close> has started never executes a command from the cloud: its runtime is created without a controller
  and never gets one, so whatever happens to it, every command is at most evaluated.
\<close>

theorem service_executes_no_cloud_command:
  "case fst (app_start (recorded lk) h now eid (m, []) raw s) of
     Inl e \<Rightarrow> True
   | Inr a \<Rightarrow> as_loop a = None \<and>
       (case as_cloud a of
          None \<Rightarrow> True
        | Some c \<Rightarrow>
            (let s = foldl (runtime_step lk h provider) c ops
             in rn_loop s = None \<and>
               (\<exists>out i'. execute_request cd cfg r v (i\<lparr>ik_loop := rn_loop s\<rparr>) = (Inr out, i') \<and> \<not> oc_executed out \<and>
                  oc_status out \<noteq> ''QUEUED'' \<and> ik_loop i' = None)))"
proof -
  have run: "rn_loop (foldl (runtime_step lk h provider) c ops) = None" if "rn_loop c = None" for c
    by (rule without_controller.run_preserves) (rule that)
  have executes: "\<exists>out i'. execute_request cd cfg r v (i\<lparr>ik_loop := None\<rparr>) = (Inr out, i') \<and> \<not> oc_executed out \<and>
      oc_status out \<noteq> ''QUEUED'' \<and> ik_loop i' = None"
    by (rule no_loop_execute [of "i\<lparr>ik_loop := None\<rparr>" cd cfg r v]) auto
  show ?thesis
    by (auto simp: Let_def run executes dest: app_start_no_loop split: sum.split option.split)
qed

section \<open>Stopping\<close>

lemma intake_stops: "\<exists>i'. intake_stop u unsub i = (Inr (), i')"
  by (auto simp: intake_stop_def catch_act_def split: prod.split sum.split)

lemma in_intake_stops: "\<exists>s'. in_intake (\<lambda>u. intake_stop u unsub) s = (Inr (), s')"
proof (cases "rn_intake s")
  case (Some ui)
  then obtain u i where "rn_intake s = Some (u, i)" by (cases ui) simp
  with intake_stops [of u unsub "i\<lparr>ik_store := rn_store s, ik_mqtt := rn_mqtt s, ik_loop := rn_loop s\<rparr>"] show ?thesis
    by (auto simp: in_intake_def)
qed (simp add: in_intake_def)

lemma runtime_stops: "\<exists>c'. stop_runtime lk c = (Inr (), c') \<and> \<not> rn_started c'"
proof (cases "rn_started c")
  case True
  obtain c1 where "in_intake (\<lambda>u. intake_stop u (lk_unsubscribe lk)) (c\<lparr>rn_heartbeat_running := False, rn_sync_running := False\<rparr>) = (Inr (), c1)"
    using in_intake_stops by blast
  with True show ?thesis by (auto simp: stop_runtime_def bind_act_def catch_act_def split: prod.split sum.split)
qed (simp add: stop_runtime_def)

lemma broker_closed: "bk_registered (close_all b) = []"
  by (simp add: close_all_def)

text \<open>
  The service stops cleanly, whatever the MQTT client does: nothing is raised, no command is accepted any more, the worker, the
  controller's task and the cloud runtime have stopped, and no subscriber is left.
\<close>

theorem service_stops_cleanly:
  "case app_stop lk handler passes (s, a) of (r, s', a') \<Rightarrow>
    r = Inr () \<and> as_shutting_down a' \<and> \<not> me_accepting (as_metrics a') \<and> \<not> loop_running a' \<and> bk_registered (as_broker a') = [] \<and>
    (case as_worker a' of None \<Rightarrow> True | Some w \<Rightarrow> \<not> wk_running w \<and> wk_stop w) \<and>
    (case as_cloud a' of None \<Rightarrow> True | Some c \<Rightarrow> \<not> rn_started c)"
proof -
  have worker: "\<not> wk_running (snd (stop_worker handler True passes (s, w))) \<and> wk_stop (snd (stop_worker handler True passes (s, w)))" for w
    by (simp add: stop_worker_def split: prod.split)
  show ?thesis
  proof (cases "as_cloud a")
    case None
    then show ?thesis
      using worker by (auto simp: app_stop_def Let_def broker_closed loop_running_def split: option.split prod.split) (metis snd_conv)+
  next
    case (Some c)
    obtain c' where "stop_runtime lk c = (Inr (), c')" "\<not> rn_started c'" using runtime_stops by blast
    with Some show ?thesis
      using worker by (auto simp: app_stop_def Let_def broker_closed loop_running_def split: option.split prod.split) (metis snd_conv)+
  qed
qed

end
