(* ===== verification/Db_Tampering.thy ===== *)
theory Db_Tampering
  imports Db_Audit
begin

text \<open>
  What the hash chain of the audit log shows of a change. The hash of a record is taken of the canonical JSON of its columns; the
  first part shows that this text determines the columns, so that two different records are hashed as two different texts.
\<close>

section \<open>Canonical JSON is unambiguous\<close>

text \<open>
  A value as a JSON column keeps it: the keys of an object are different, and listed in order; the text of a float is not the text
  of an integer. A text ends where a comma or a closing bracket follows, or nothing.
\<close>

definition number_char :: "char \<Rightarrow> bool" where
  "number_char c \<longleftrightarrow> c \<in> set ''0123456789+-.e''"

definition float_text :: "string \<Rightarrow> bool" where
  "float_text t \<longleftrightarrow> list_all number_char t \<and> list_ex (\<lambda>c. c = CHR ''.'' \<or> c = CHR ''e'') t"

fun canonical_json :: "json \<Rightarrow> bool" where
  "canonical_json (JFloat t) = float_text t"
| "canonical_json (JList vs) = list_all canonical_json vs"
| "canonical_json (JObj kvs) = (sorted_wrt (<) (map fst kvs) \<and> list_all (\<lambda>v. canonical_json v) (map snd kvs))"
| "canonical_json _ = True"

definition ends_value :: "char \<Rightarrow> bool" where
  "ends_value c \<longleftrightarrow> c = CHR '','' \<or> c = CHR '']'' \<or> c = CHR ''}''"

definition stops :: "string \<Rightarrow> bool" where
  "stops r \<longleftrightarrow> (case r of [] \<Rightarrow> True | c # cs \<Rightarrow> ends_value c)"

text \<open>Strings end themselves: an escaped character can be read back from the front of a text, and none begins with a quotation mark.\<close>

definition hex_code :: "char \<Rightarrow> nat" where
  "hex_code c = (if (of_char c :: nat) < 58 then of_char c - 48 else of_char c - 87)"

lemma hex_code_digit: "n < 16 \<Longrightarrow> hex_code (hex_digit n) = n"
proof -
  assume "n < 16"
  then have "n \<in> {0, 1, 2, 3, 4, 5, 6, 7, 8, 9, 10, 11, 12, 13, 14, 15}" by (simp only: insert_iff empty_iff) arith
  then show ?thesis by (elim insertE emptyE) (simp_all add: hex_code_def hex_digit_def)
qed

lemma char_of_hex: "char_of (16 * hex_code (hex_digit (of_char c div 16)) + hex_code (hex_digit (of_char c mod 16)) :: nat) = c"
proof -
  have "(of_char c :: nat) < 256" by (rule nat_of_char_less_256)
  then have "hex_code (hex_digit (of_char c div 16)) = of_char c div 16" "hex_code (hex_digit (of_char c mod 16)) = of_char c mod 16"
    by (simp_all add: hex_code_digit less_mult_imp_div_less)
  then show ?thesis by simp
qed

definition read_escape :: "string \<Rightarrow> (char \<times> string) option" where
  "read_escape t =
    (case t of
       [] \<Rightarrow> None
     | b # r \<Rightarrow>
         if b = CHR 0x22 \<or> b = CHR 0x5C then Some (b, r)
         else if b = CHR ''n'' then Some (CHR 0x0A, r) else if b = CHR ''r'' then Some (CHR 0x0D, r)
         else if b = CHR ''t'' then Some (CHR 0x09, r) else if b = CHR ''b'' then Some (CHR 0x08, r)
         else if b = CHR ''f'' then Some (CHR 0x0C, r)
         else Some (char_of (16 * hex_code (r ! 2) + hex_code (r ! 3) :: nat), drop 4 r))"

definition read_char :: "string \<Rightarrow> (char \<times> string) option" where
  "read_char t = (case t of [] \<Rightarrow> None | a # r \<Rightarrow> if a = CHR 0x5C then read_escape r else Some (a, r))"

lemma read_escaped: "read_char (escaped_char c @ x) = Some (c, x)"
proof (cases "c \<in> {CHR 0x22, CHR 0x5C, CHR 0x0A, CHR 0x0D, CHR 0x09, CHR 0x08, CHR 0x0C}")
  case True
  then show ?thesis by (elim insertE emptyE) (simp_all add: escaped_char_def read_char_def read_escape_def)
next
  case False
  then show ?thesis
    by (simp add: escaped_char_def read_char_def read_escape_def char_of_hex)
qed

lemma escaped_char_prefix: "escaped_char c @ x = escaped_char d @ y \<Longrightarrow> c = d \<and> x = y"
proof -
  assume e: "escaped_char c @ x = escaped_char d @ y"
  have "Some (c, x) = Some (d, y)" unfolding read_escaped [of c x, symmetric] e by (rule read_escaped)
  then show ?thesis by simp
qed

lemma escaped_char_start: "escaped_char c @ x \<noteq> CHR 0x22 # y"
  by (simp add: escaped_char_def)

lemma json_string_prefix: "json_string s @ x = json_string t @ y \<Longrightarrow> s = t \<and> x = y"
proof -
  have "concat (map escaped_char s) @ CHR 0x22 # x = concat (map escaped_char t) @ CHR 0x22 # y \<Longrightarrow> s = t \<and> x = y" for s t
  proof (induction s arbitrary: t)
    case Nil
    show ?case
    proof (cases t)
      case (Cons d t')
      with Nil.prems have "escaped_char d @ (concat (map escaped_char t') @ CHR 0x22 # y) = CHR 0x22 # x" by simp
      with escaped_char_start show ?thesis by blast
    qed (use Nil.prems in simp)
  next
    case (Cons c s)
    show ?case
    proof (cases t)
      case Nil
      with Cons.prems escaped_char_start show ?thesis by simp
    next
      case (Cons d t')
      with Cons.prems have "escaped_char c @ (concat (map escaped_char s) @ CHR 0x22 # x) =
          escaped_char d @ (concat (map escaped_char t') @ CHR 0x22 # y)" by simp
      from escaped_char_prefix [OF this] \<open>t = d # t'\<close> Cons.IH [of t'] show ?thesis by simp
    qed
  qed
  then show "json_string s @ x = json_string t @ y \<Longrightarrow> s = t \<and> x = y"
    unfolding json_string_def append_assoc append.simps list.inject by blast
qed

text \<open>Numbers end at the first character that is not of a number.\<close>

lemma nat_text_digits: "list_all (\<lambda>c. c \<in> set ''0123456789'') (nat_text n)"
proof (induction n rule: nat_text.induct)
  case (1 n)
  have d: "m < 10 \<Longrightarrow> hex_digit m \<in> set ''0123456789''" for m
    by (auto simp: hex_digit_def less_Suc_eq numeral_nat)
  show ?case
  proof (cases "n < 10")
    case True
    then show ?thesis using d by (subst nat_text.simps) simp
  next
    case False
    then have "nat_text n = nat_text (n div 10) @ [hex_digit (n mod 10)]" by (subst nat_text.simps) simp
    then show ?thesis using 1 [OF False] d [of "n mod 10"] by simp
  qed
qed

lemma int_text_chars: "list_all (\<lambda>c. c \<in> set ''0123456789-'') (int_text n)"
proof -
  have "list_all (\<lambda>c. c \<in> set ''0123456789-'') (nat_text m)" for m
    by (rule list.pred_mono_strong [OF nat_text_digits]) auto
  then show ?thesis by (simp add: int_text_def)
qed

lemma number_texts: "list_all number_char (int_text n)" "\<not> float_text (int_text n)" "int_text n \<noteq> []"
proof -
  show "list_all number_char (int_text n)"
    by (rule list.pred_mono_strong [OF int_text_chars]) (auto simp: number_char_def)
  show "\<not> float_text (int_text n)"
  proof -
    have "c \<noteq> CHR ''.'' \<and> c \<noteq> CHR ''e''" if "c \<in> set ''0123456789-''" for c :: char using that by auto
    then show ?thesis using int_text_chars [of n] unfolding float_text_def list_all_iff list_ex_iff by blast
  qed
  show "int_text n \<noteq> []" by (simp add: int_text_def)
qed

lemma int_text_inj: "int_text m = int_text n \<Longrightarrow> m = n"
proof -
  have minus: "nat_text k \<noteq> CHR ''-'' # t" for k t using nat_text_digits [of k] by auto
  show "int_text m = int_text n \<Longrightarrow> m = n"
    using minus [of "nat m"] minus [of "nat n"] minus [of "nat m", THEN not_sym] minus [of "nat n", THEN not_sym]
    by (auto simp: int_text_def dest!: nat_text_inj split: if_splits)
qed

definition number_value :: "json \<Rightarrow> bool" where
  "number_value v = (case v of JInt n \<Rightarrow> True | JFloat t \<Rightarrow> True | _ \<Rightarrow> False)"

lemma number_text_end: "list_all number_char t \<Longrightarrow> stops r \<Longrightarrow> takeWhile number_char (t @ r) = t \<and> dropWhile number_char (t @ r) = r"
proof -
  have "ends_value c \<Longrightarrow> \<not> number_char c" for c by (auto simp: ends_value_def number_char_def)
  then show "list_all number_char t \<Longrightarrow> stops r \<Longrightarrow> takeWhile number_char (t @ r) = t \<and> dropWhile number_char (t @ r) = r"
    by (induction t) (auto simp: stops_def split: list.splits)
qed

lemma number_value_text:
  assumes "canonical_json v" "number_value v"
  shows "list_all number_char (json_text v)" "json_text v \<noteq> []"
  using assms number_texts by (cases v; auto simp: number_value_def float_text_def)+

lemma number_value_inj:
  assumes "canonical_json v" "canonical_json w" "number_value v" "number_value w" "json_text v = json_text w"
  shows "v = w"
  using assms number_texts(2) int_text_inj by (cases v; cases w) (auto simp: number_value_def)

text \<open>The first character tells the kinds of value apart.\<close>

datatype json_kind = Null_kind | True_kind | False_kind | Number_kind | String_kind | List_kind | Object_kind

fun kind_of :: "json \<Rightarrow> json_kind" where
  "kind_of JNull = Null_kind"
| "kind_of (JBool b) = (if b then True_kind else False_kind)"
| "kind_of (JInt n) = Number_kind"
| "kind_of (JFloat t) = Number_kind"
| "kind_of (JStr s) = String_kind"
| "kind_of (JList vs) = List_kind"
| "kind_of (JObj kvs) = Object_kind"

definition kind_at :: "char \<Rightarrow> json_kind option" where
  "kind_at c =
    (if c = CHR ''n'' then Some Null_kind else if c = CHR ''t'' then Some True_kind else if c = CHR ''f'' then Some False_kind
     else if c = CHR 0x22 then Some String_kind else if c = CHR ''['' then Some List_kind
     else if c = CHR ''{'' then Some Object_kind else if number_char c then Some Number_kind else None)"

lemma json_text_start:
  assumes "canonical_json v"
  shows "\<exists>c t. json_text v = c # t \<and> kind_at c = Some (kind_of v) \<and> \<not> ends_value c"
proof -
  have num: "number_char c \<Longrightarrow> kind_at c = Some Number_kind \<and> \<not> ends_value c" for c
    by (auto simp: number_char_def kind_at_def ends_value_def)
  have "\<exists>c t. json_text v = c # t \<and> kind_at c = Some Number_kind \<and> \<not> ends_value c" if "number_value v"
    using number_value_text [OF assms that] num by (cases "json_text v") auto
  then show ?thesis
    by (cases v) (auto simp: number_value_def kind_at_def ends_value_def json_string_def)
qed

lemma json_text_first: "canonical_json v \<Longrightarrow> \<exists>c t. json_text v = c # t \<and> \<not> ends_value c"
  using json_text_start by blast

text \<open>Lists of texts: when every element can be told from what follows it, the whole can be taken apart again.\<close>

lemma joined_text_inj:
  assumes "\<And>x y r r'. x \<in> set xs \<Longrightarrow> good y \<Longrightarrow> f x @ r = f y @ r' \<Longrightarrow> stops r \<Longrightarrow> stops r' \<Longrightarrow> x = y \<and> r = r'"
    and "\<And>x. good x \<Longrightarrow> \<exists>c t. f x = c # t \<and> \<not> ends_value c"
    and "list_all good xs" "list_all good ys" "ends_value z" "z \<noteq> CHR '',''"
    and "joined (map f xs) @ z # r = joined (map f ys) @ z # r'"
  shows "xs = ys \<and> r = r'"
  using assms
proof (induction xs arbitrary: ys)
  case Nil
  show ?case
  proof (cases ys)
    case (Cons y ys')
    with Nil.prems(2) [of y] Nil.prems(4) obtain c t where "f y = c # t" "\<not> ends_value c" by auto
    with Nil.prems(5,7) Cons show ?thesis by (cases ys') auto
  qed (use Nil.prems(7) in simp)
next
  case (Cons x xs)
  have tail: "joined (map f (a # as)) @ z # q = f a @ (case as of [] \<Rightarrow> z # q | b # bs \<Rightarrow> CHR '','' # joined (map f as) @ z # q)"
    for a as q by (cases as) simp_all
  have stop: "stops (case as of [] \<Rightarrow> z # q | b # bs \<Rightarrow> CHR '','' # joined (map f as) @ z # q)" for as :: "'a list" and q
    using Cons.prems(5) by (cases as) (simp_all add: stops_def ends_value_def)
  show ?case
  proof (cases ys)
    case Nil
    from Cons.prems(2) [of x] Cons.prems(3) obtain c t where "f x = c # t" "\<not> ends_value c" by auto
    with Cons.prems(5,7) Nil show ?thesis by (cases xs) auto
  next
    case ys: (Cons y ys')
    have "f x @ (case xs of [] \<Rightarrow> z # r | b # bs \<Rightarrow> CHR '','' # joined (map f xs) @ z # r) =
        f y @ (case ys' of [] \<Rightarrow> z # r' | b # bs \<Rightarrow> CHR '','' # joined (map f ys') @ z # r')"
      using Cons.prems(7) unfolding ys tail .
    from Cons.prems(1) [OF _ _ this stop stop] Cons.prems(4) ys have xy: "x = y"
      "(case xs of [] \<Rightarrow> z # r | b # bs \<Rightarrow> CHR '','' # joined (map f xs) @ z # r) =
       (case ys' of [] \<Rightarrow> z # r' | b # bs \<Rightarrow> CHR '','' # joined (map f ys') @ z # r')" by auto
    show ?thesis
    proof (cases "xs = [] \<or> ys' = []")
      case True
      with xy Cons.prems(6) ys show ?thesis by (auto split: list.splits)
    next
      case False
      with xy(2) have "joined (map f xs) @ z # r = joined (map f ys') @ z # r'" by (auto split: list.splits)
      with Cons.IH [of ys'] Cons.prems ys xy(1) show ?thesis by auto
    qed
  qed
qed

lemma json_object_text:
  assumes "canonical_json (JObj kvs)"
  shows "json_text (JObj kvs) = ''{'' @ joined (map (\<lambda>kv. json_string (fst kv) @ '':'' @ json_text (snd kv)) kvs) @ ''}''"
proof -
  have "sorted (map fst (map (\<lambda>kv. (fst kv, json_text (snd kv))) kvs))"
    using assms by (simp add: strict_sorted_iff comp_def)
  then have s: "sort_key fst (map (\<lambda>kv. (fst kv, json_text (snd kv))) kvs) = map (\<lambda>kv. (fst kv, json_text (snd kv))) kvs"
    by (rule sort_key_id_if_sorted)
  have m: "map (\<lambda>(k, t). json_string k @ '':'' @ t) (map (\<lambda>kv. (fst kv, json_text (snd kv))) kvs) =
      map (\<lambda>kv. json_string (fst kv) @ '':'' @ json_text (snd kv)) kvs" by simp
  show ?thesis unfolding json_text.simps(7) s m ..
qed

text \<open>The canonical text of a value can be told from what follows it, and it determines the value.\<close>

lemma same_kind:
  "canonical_json v \<Longrightarrow> canonical_json w \<Longrightarrow> json_text v @ r = json_text w @ r' \<Longrightarrow> kind_of w = kind_of v"
  using json_text_start [of v] json_text_start [of w] by auto

lemma number_json_prefix:
  assumes "canonical_json v" "canonical_json w" "json_text v @ r = json_text w @ r'" "stops r" "stops r'"
    and "number_value v" "kind_of w = Number_kind"
  shows "v = w \<and> r = r'"
proof -
  have w: "number_value w" using assms(7) by (cases w) (simp_all add: number_value_def split: if_splits)
  note v_end = number_text_end [OF number_value_text(1) [OF assms(1,6)] assms(4)]
  note w_end = number_text_end [OF number_value_text(1) [OF assms(2) w] assms(5)]
  have "json_text v = json_text w" using v_end w_end unfolding assms(3) by (elim conjE) (erule trans [OF sym], assumption)
  moreover have "r = r'" using v_end w_end unfolding assms(3) by (elim conjE) (drule sym, erule trans, assumption)
  ultimately show ?thesis using number_value_inj [OF assms(1,2,6) w] by blast
qed

lemma json_text_prefix:
  "canonical_json v \<Longrightarrow> canonical_json w \<Longrightarrow> json_text v @ r = json_text w @ r' \<Longrightarrow> stops r \<Longrightarrow> stops r' \<Longrightarrow> v = w \<and> r = r'"
proof (induction v arbitrary: w r r')
  case JNull
  then show ?case using same_kind [OF JNull(1-3)] by (cases w) (simp_all split: if_splits)
next
  case (JBool b)
  then show ?case using same_kind [OF JBool(1-3)] by (cases w) (simp_all split: if_splits)
next
  case (JStr t)
  from same_kind [OF JStr.prems(1-3)] obtain t' where w: "w = JStr t'" by (cases w) (auto split: if_splits)
  have "json_string t @ r = json_string t' @ r'" using JStr.prems(3) unfolding w by (simp only: json_text.simps)
  from json_string_prefix [OF this] w show ?case by simp
next
  case (JList vs)
  from same_kind [OF JList.prems(1-3)] obtain ws where w: "w = JList ws" by (cases w) (auto split: if_splits)
  have "vs = ws \<and> r = r'"
  proof (rule joined_text_inj [where f = json_text and good = canonical_json and z = "CHR '']''"])
    show "x = y \<and> q = q'" if "x \<in> set vs" "canonical_json y" "json_text x @ q = json_text y @ q'" "stops q" "stops q'" for x y q q'
      using JList.IH [OF that(1) _ that(2-5)] JList.prems(1) that(1) by (simp add: list_all_iff)
    show "joined (map json_text vs) @ CHR '']'' # r = joined (map json_text ws) @ CHR '']'' # r'"
      using JList.prems(3) w by simp
  qed (use JList.prems w json_text_first in \<open>simp_all add: ends_value_def del: json_text.simps\<close>)
  with w show ?case by simp
next
  case (JObj kvs)
  from same_kind [OF JObj.prems(1-3)] obtain kws where w: "w = JObj kws" by (cases w) (auto split: if_splits)
  let ?f = "\<lambda>kv. json_string (fst kv) @ '':'' @ json_text (snd kv)"
  have "kvs = kws \<and> r = r'"
  proof (rule joined_text_inj [where f = ?f and good = "\<lambda>kv. canonical_json (snd kv)" and z = "CHR ''}''"])
    fix x y :: "string \<times> json" and q q'
    assume x: "x \<in> set kvs" and y: "canonical_json (snd y)" and e: "?f x @ q = ?f y @ q'" and q: "stops q" "stops q'"
    from e have "json_string (fst x) @ ('':'' @ json_text (snd x) @ q) = json_string (fst y) @ ('':'' @ json_text (snd y) @ q')"
      by (simp only: append_assoc)
    from json_string_prefix [OF this] have k: "fst x = fst y" "json_text (snd x) @ q = json_text (snd y) @ q'" by simp_all
    have "canonical_json (snd x)" using JObj.prems(1) x by (auto simp: list_all_iff)
    from JObj.IH [OF x _ this y k(2) q] k(1) show "x = y \<and> q = q'" by (auto simp: prod_eq_iff snds.simps)
  next
    show "joined (map ?f kvs) @ CHR ''}'' # r = joined (map ?f kws) @ CHR ''}'' # r'"
      using JObj.prems(3) unfolding w json_object_text [OF JObj.prems(1)] json_object_text [OF JObj.prems(2) [unfolded w]] by simp
  qed (use JObj.prems w in \<open>auto simp: ends_value_def json_string_def list_all_iff\<close>)
  with w show ?case by simp
next
  case (JInt n)
  have "kind_of w = Number_kind" using same_kind [OF JInt(1-3)] by simp
  then show ?case using number_json_prefix [OF JInt] by (simp add: number_value_def)
next
  case (JFloat t)
  have "kind_of w = Number_kind" using same_kind [OF JFloat(1-3)] by simp
  then show ?case using number_json_prefix [OF JFloat] by (simp add: number_value_def)
qed

lemma json_text_inj: "canonical_json v \<Longrightarrow> canonical_json w \<Longrightarrow> json_text v = json_text w \<Longrightarrow> v = w"
  using json_text_prefix [of v w "[]" "[]"] by (simp add: stops_def)

section \<open>The hashed columns\<close>

text \<open>The payload of a record, its keys in order, and the text the hash of the record is taken of.\<close>

definition ordered_payload :: "(int \<Rightarrow> string) \<Rightarrow> audit_row \<Rightarrow> json" where
  "ordered_payload isot r = JObj
    [(''action'', JStr (au_action r)), (''actor'', JStr (au_actor r)), (''correlation_id'', JOpt JStr (au_correlation_id r)),
     (''created_at'', JStr (isot (au_created_at r))), (''details'', JOpt id (au_details r)), (''id'', JStr (au_id r)),
     (''previous_state'', JOpt JStr (au_previous_state r)), (''pump_id'', JOpt JStr (au_pump r)),
     (''result'', JStr (au_result r)), (''resulting_state'', JOpt JStr (au_resulting_state r)),
     (''source'', JStr (au_source r)), (''station_id'', JStr (au_station r))]"

definition hashed_text :: "(int \<Rightarrow> string) \<Rightarrow> audit_row \<Rightarrow> string" where
  "hashed_text isot r = au_previous_hash r @ ''|'' @ json_text (audit_payload isot r)"

text \<open>The details column holds a canonical value, or nothing.\<close>

definition canonical_details :: "audit_row \<Rightarrow> bool" where
  "canonical_details r = (case au_details r of None \<Rightarrow> True | Some v \<Rightarrow> v \<noteq> JNull \<and> canonical_json v)"

lemma record_hash_text: "record_hash_of sha isot r = sha (hashed_text isot r)"
  by (simp add: record_hash_of_def compute_record_hash_def hashed_text_def del: json_text.simps)

lemma ordered_keys: "sorted_wrt (<) [''action'', ''actor'', ''correlation_id'', ''created_at'', ''details'', ''id'',
    ''previous_state'', ''pump_id'', ''result'', ''resulting_state'', ''source'', ''station_id'']"
  by (simp add: less_char_def)

lemma canonical_JOpt_JStr: "canonical_json (JOpt JStr q)"
  by (cases q) (simp_all add: JOpt_def)

lemma canonical_payload: "canonical_details r \<Longrightarrow> canonical_json (ordered_payload isot r)"
  using ordered_keys
  by (auto simp: ordered_payload_def canonical_JOpt_JStr canonical_details_def JOpt_def split: option.splits)

lemma payload_text: "json_text (audit_payload isot r) = json_text (ordered_payload isot r)"
  by (simp add: audit_payload_def ordered_payload_def less_char_def)

lemma JOpt_JStr_inj: "JOpt JStr p = JOpt JStr q \<Longrightarrow> p = q"
  by (cases p; cases q) (simp_all add: JOpt_def)

lemma JOpt_details_inj: "canonical_details r \<Longrightarrow> canonical_details r' \<Longrightarrow> JOpt id (au_details r) = JOpt id (au_details r') \<Longrightarrow>
    au_details r = au_details r'"
  by (cases "au_details r"; cases "au_details r'") (auto simp: JOpt_def canonical_details_def)

text \<open>The hashed text gives every column back but the hash itself.\<close>

lemma hashed_text_determines:
  assumes "canonical_details r" "canonical_details r'"
    and "isot (au_created_at r') = isot (au_created_at r) \<Longrightarrow> au_created_at r' = au_created_at r"
    and "au_previous_hash r' = au_previous_hash r" "hashed_text isot r' = hashed_text isot r"
  shows "r' = r\<lparr>au_record_hash := au_record_hash r'\<rparr>"
proof -
  have "json_text (ordered_payload isot r') = json_text (ordered_payload isot r)"
    using assms(4,5) unfolding hashed_text_def payload_text by simp
  from json_text_inj [OF canonical_payload [OF assms(2)] canonical_payload [OF assms(1)] this]
  have "ordered_payload isot r' = ordered_payload isot r" .
  then show ?thesis
    using assms(3,4) JOpt_details_inj [OF assms(2,1)]
    by (intro audit_row.equality) (auto simp: ordered_payload_def dest: JOpt_JStr_inj)
qed

section \<open>What verification finds, and what it cannot\<close>

text \<open>The report of a log that holds one record changed in its place.\<close>

definition report_of_change :: "(string \<Rightarrow> string) \<Rightarrow> (int \<Rightarrow> string) \<Rightarrow> nat \<Rightarrow> audit_row \<Rightarrow> audit_row \<Rightarrow> audit_row \<Rightarrow> chain_report" where
  "report_of_change sha isot n r r' y =
    (if au_previous_hash r' \<noteq> au_previous_hash r then broken_at n r' Previous_hash_mismatch
     else if au_record_hash r' \<noteq> record_hash_of sha isot r' then broken_at n r' Record_hash_mismatch
     else broken_at (Suc n) y Previous_hash_mismatch)"

text \<open>The new content is only hashed to the old hash when nothing was changed.\<close>

lemma changed_hash:
  assumes "canonical_details r" "canonical_details r'"
    and "isot (au_created_at r') = isot (au_created_at r) \<Longrightarrow> au_created_at r' = au_created_at r"
    and "sha (hashed_text isot r') = sha (hashed_text isot r) \<Longrightarrow> hashed_text isot r' = hashed_text isot r"
    and "au_previous_hash r' = au_previous_hash r" "au_record_hash r' = au_record_hash r" "r' \<noteq> r"
  shows "record_hash_of sha isot r' \<noteq> record_hash_of sha isot r"
proof
  assume "record_hash_of sha isot r' = record_hash_of sha isot r"
  then have "hashed_text isot r' = hashed_text isot r" unfolding record_hash_text by (rule assms(4))
  from hashed_text_determines [OF assms(1,2,3) assms(5) this] assms(6,7) show False by simp
qed

text \<open>
  C25. Evidence of tampering. In a log that verifies, let any column of a record other than the last be changed, its hashes included,
  so that the log still reads it at the same place. The report is invalid: it names the record when the new content does not
  match the hash beside it, or the link to the record before is broken, and the next record when the hash was computed anew;
  left with its old hashes, the changed record itself is named. A record taken out of the middle is reported at the next one; but a
  log cut off at its end still verifies. SHA-256 is only asked not to give the two records' texts one digest,
  \<open>isoformat\<close> not to give their two instants one text.
\<close>

theorem tampering_is_found:
  assumes "cr_valid (verify_chain_report sha isot d)" "list_audit d = xs @ r # y # ys"
    and "list_audit d1 = xs @ r' # y # ys" "r' \<noteq> r" "canonical_details r" "canonical_details r'"
    and "isot (au_created_at r') = isot (au_created_at r) \<Longrightarrow> au_created_at r' = au_created_at r"
    and "sha (hashed_text isot r') = sha (hashed_text isot r) \<Longrightarrow> hashed_text isot r' = hashed_text isot r"
    and "list_audit d2 = xs @ y # ys" "au_record_hash r \<noteq> au_previous_hash r" "list_audit d3 = xs"
  shows "verify_chain_report sha isot d1 = report_of_change sha isot (length xs) r r' y \<and>
    (if au_previous_hash r' = au_previous_hash r \<and> au_record_hash r' = au_record_hash r
     then verify_chain_report sha isot d1 = broken_at (length xs) r' Record_hash_mismatch else True) \<and>
    verify_chain_report sha isot d2 = broken_at (length xs) y Previous_hash_mismatch \<and>
    cr_valid (verify_chain_report sha isot d3)"
proof -
  let ?e = "if xs = [] then AUDIT_GENESIS_HASH else au_record_hash (last xs)"
  note valid = assms(1) [unfolded verify_chain_report_def assms(2)]
  have prefix: "cr_valid (verify_from sha isot AUDIT_GENESIS_HASH 0 xs)"
    and "cr_valid (verify_from sha isot ?e (0 + length xs) (r # y # ys))"
    using verify_from_prefix [OF valid] by blast+
  then have r: "au_previous_hash r = ?e" "record_hash_of sha isot r = au_record_hash r" "au_previous_hash y = au_record_hash r"
    by (simp_all split: if_split_asm)
  have rest: "verify_from sha isot AUDIT_GENESIS_HASH 0 (xs @ zs) = verify_from sha isot ?e (length xs) zs" for zs
    using verify_from_prefix [OF valid, of zs] by simp
  have changed: "record_hash_of sha isot r' \<noteq> record_hash_of sha isot r"
    if "au_previous_hash r' = au_previous_hash r" "au_record_hash r' = au_record_hash r"
    using changed_hash [where sha = sha, OF assms(5,6,7,8) that assms(4)] .
  have "verify_chain_report sha isot d1 = report_of_change sha isot (length xs) r r' y"
    using r changed unfolding verify_chain_report_def assms(3) rest by (auto simp: report_of_change_def broken_at_def)
  moreover have "report_of_change sha isot (length xs) r r' y = broken_at (length xs) r' Record_hash_mismatch"
    if "au_previous_hash r' = au_previous_hash r" "au_record_hash r' = au_record_hash r"
    using changed [OF that] r(2) that by (simp add: report_of_change_def)
  moreover have "verify_chain_report sha isot d2 = broken_at (length xs) y Previous_hash_mismatch"
    using r assms(10) unfolding verify_chain_report_def assms(9) rest by (simp add: broken_at_def)
  ultimately show ?thesis using prefix by (simp add: verify_chain_report_def assms(11))
qed

text \<open>A log of three records under the digest that is the text itself, and the second record with another action.\<close>

definition sealed :: "int \<Rightarrow> string \<Rightarrow> string \<Rightarrow> audit_row" where
  "sealed t previous_hash action =
    (let r = unhashed t (int_text t) previous_hash (sample_audit action) in r\<lparr>au_record_hash := hashed_text int_text r\<rparr>)"

definition sample_first :: audit_row where "sample_first = sealed 1 AUDIT_GENESIS_HASH ''A''"
definition sample_second :: audit_row where "sample_second = sealed 2 (au_record_hash sample_first) ''B''"
definition sample_third :: audit_row where "sample_third = sealed 3 (au_record_hash sample_second) ''C''"
definition sample_changed :: audit_row where "sample_changed = sample_second\<lparr>au_action := ''X''\<rparr>"

definition log_of :: "audit_row list \<Rightarrow> store" where
  "log_of rs = (empty_store nat_text)\<lparr>db_audit := rs\<rparr>"

lemma sealed_columns: "au_created_at (sealed t h action) = t" "au_previous_hash (sealed t h action) = h"
  "au_action (sealed t h action) = action" "au_details (sealed t h action) = None"
  by (simp_all add: sealed_def Let_def unhashed_def sample_audit_def)

lemma sealed_hash: "record_hash_of id int_text (sealed t h action) = au_record_hash (sealed t h action)"
proof -
  have "record_hash_of id int_text (sealed t h action) = record_hash_of id int_text (unhashed t (int_text t) h (sample_audit action))"
    unfolding sealed_def Let_def by (rule append_row)
  then show ?thesis by (simp add: record_hash_text sealed_def Let_def del: json_text.simps)
qed

lemma sealed_longer: "length h < length (au_record_hash (sealed t h action))"
  by (simp add: sealed_def Let_def hashed_text_def unhashed_def del: json_text.simps)

lemma list_log_of: "sorted_wrt (<) (map au_created_at rs) \<Longrightarrow> list_audit (log_of rs) = rs"
  by (simp add: list_audit_def log_of_def strict_sorted_sort_key)

lemmas samples_def = sample_first_def sample_second_def sample_third_def

theorem tampering_is_found_witness:
  "verify_chain_report id int_text (log_of [sample_first, sample_changed, sample_third]) =
      report_of_change id int_text (length [sample_first]) sample_second sample_changed sample_third \<and>
    (if au_previous_hash sample_changed = au_previous_hash sample_second \<and>
        au_record_hash sample_changed = au_record_hash sample_second
     then verify_chain_report id int_text (log_of [sample_first, sample_changed, sample_third]) =
       broken_at (length [sample_first]) sample_changed Record_hash_mismatch else True) \<and>
    verify_chain_report id int_text (log_of [sample_first, sample_third]) =
      broken_at (length [sample_first]) sample_third Previous_hash_mismatch \<and>
    cr_valid (verify_chain_report id int_text (log_of [sample_first]))"
proof (rule tampering_is_found [where d = "log_of [sample_first, sample_second, sample_third]" and ys = "[]"])
  have created: "au_created_at sample_first = 1" "au_created_at sample_second = 2" "au_created_at sample_third = 3"
    "au_created_at sample_changed = 2" by (simp_all add: sealed_columns samples_def sample_changed_def)
  have kept: "list_audit (log_of [sample_first, sample_second, sample_third]) = [sample_first, sample_second, sample_third]"
    by (rule list_log_of) (simp add: created)
  have "verify_from id int_text AUDIT_GENESIS_HASH 0 [sample_first, sample_second, sample_third] =
      \<lparr>cr_valid = True, cr_checked = 3, cr_first_invalid = None, cr_reason = None\<rparr>"
    by (simp add: samples_def sealed_columns sealed_hash)
  then show "cr_valid (verify_chain_report id int_text (log_of [sample_first, sample_second, sample_third]))"
    by (simp add: verify_chain_report_def kept)
  show "list_audit (log_of [sample_first, sample_second, sample_third]) = [sample_first] @ sample_second # sample_third # []"
    by (simp add: kept)
  show "list_audit (log_of [sample_first, sample_changed, sample_third]) = [sample_first] @ sample_changed # sample_third # []"
    by (simp add: list_log_of created)
  show "list_audit (log_of [sample_first, sample_third]) = [sample_first] @ sample_third # []"
    by (simp add: list_log_of created)
  show "list_audit (log_of [sample_first]) = [sample_first]" by (simp add: list_log_of)
  show "sample_changed \<noteq> sample_second"
  proof
    assume "sample_changed = sample_second"
    then have "au_action sample_changed = au_action sample_second" by simp
    then show False by (simp add: sample_changed_def sample_second_def sealed_columns)
  qed
  show "au_record_hash sample_second \<noteq> au_previous_hash sample_second"
    using sealed_longer [of "au_record_hash sample_first" 2 "''B''"] by (auto simp: sample_second_def sealed_columns)
qed (simp_all add: sample_changed_def canonical_details_def sample_second_def sealed_columns)

end
