(* ===== verification/Spec2Isabelle.thy ===== *)
theory Spec2Isabelle
  imports Link_Sale Link_Command Svc_Bridge Svc_Recovery Api_Commands Cloud_Intake Cloud_Heartbeat Line_Pipe Bench_Run Sim_Scenarios Svc_Restart Api_Health Db_Tampering
begin

text \<open>
  A forecourt controller for Wayne dispensers on a DART line: the Python package \<open>intelipump_fdc\<close> under
  \<open>src/src/intelipump_fdc\<close>. The program has a line protocol (\<open>protocol/dart/line\<close>), an application layer in the
  payload of its DATA frames (\<open>protocol/dart/application\<close>), a normalized pump state machine
  (\<open>domain\<close>, \<open>state_machine\<close>), a virtual dispenser (\<open>simulator\<close>), a controller that polls pumps
  (\<open>controller\<close>), and around it persistence, cloud delivery and an HTTP interface. The controller reads
  bytes, cuts them into frames, decodes their transactions, maps each to an event and applies it to the state machine
  of the pump's session; what changes is published on a bus.

  Theories and what they model. Each definition carries the name of the function it translates, or that name with
  a prefix for its object.

  \<^item> \<open>Prelude\<close>: bytes, exceptions as values, actions of mutable objects, and the locales that
    lift one-step facts to runs (\<open>preserved\<close>, \<open>monotone_measure\<close>, \<open>simulation\<close>, \<open>codec\<close>).
  \<^item> \<open>Line_Control\<close>, \<open>Line_Crc\<close>, \<open>Line_Frame\<close>, \<open>Line_Stream\<close>: control bytes, the five checksums, escaping, frame builder and
    parser, and the stream assembler. Round trips, error detection, conservation of bytes, delivery.
  \<^item> \<open>App_Bcd\<close>, \<open>App_Transactions\<close>, \<open>App_Decoder\<close>: packed BCD, transaction splitter, encoders, registry and decoders. Decoding is
    total and lossless; reports survive encoding and decoding.
  \<^item> \<open>Pump_Domain\<close>, \<open>Pump_Machine\<close>, \<open>Pump_Guards\<close>, \<open>Pump_Mapper\<close>: states, events, the transition table, \<open>apply\<close>, command eligibility,
    reconciliation after a restart, and the mapping of a decoded transaction to an event. Invariants of runs,
    authorization and completion safety, exact eligibility.
  \<^item> \<open>Sim_Pump\<close>, \<open>Sim_Filling\<close>, \<open>Sim_Session\<close>: the virtual pump, its filling engine and the session that answers frames.
    Fuel flows only while filling, the meter is bounded, every sale closes, no block is lost before its ACK.
  \<^item> \<open>Ctl_Outbound\<close>, \<open>Ctl_Session\<close>, \<open>Ctl_Loop\<close>: the safety gate, the outbound queue, the event bus, the per-address session and the
    polling loop. The session implements the state machine, applies a report at most once and acknowledges only
    what it has recorded; the loop isolates its pumps, writes only what is authorised, and a timed run ends.
  \<^item> \<open>Link_Delivery\<close>, \<open>Link_Sale\<close>, \<open>Link_Command\<close>: both ends of the line together. Exactly-once in-order delivery of reports
    under losses by refinement of a stop-and-wait machine, with what the session's bus shows of every frame it took; what a
    restart and a sale of the virtual pump do to it; what a lost ACK does to a command.
  \<^item> \<open>Db_Store\<close>, \<open>Db_Repos\<close>, \<open>Db_Ledger\<close>, \<open>Db_Queue\<close>, \<open>Db_Audit\<close>, \<open>Db_Tampering\<close>: \<open>persistence\<close>, the schema with its constraints, the unit of
    work and the repositories. Sales complete once and never shrink, the message queue keeps every entry and claims
    never overlap, the audit log is complete and verifies. The canonical JSON of a record determines its columns, so the chain
    finds a change of any of them.
  \<^item> \<open>Svc_Sales\<close>: the throttle of filling updates, the transaction service and the state service. A completion and its
    message are written together or not at all.
  \<^item> \<open>Live_Broker\<close>: \<open>events\<close> and the generator of \<open>api/routes/events.py\<close>, the fan-out of live events to bounded
    subscriptions. Each subscriber receives, in order, a subsequence of the published events that match its filter; a critical event always finds room; the
    stream of a subscription that was full when it was closed never ends.
  \<^item> \<open>Svc_Worker\<close>, \<open>Ctl_Text\<close>, \<open>Svc_Bridge\<close>: \<open>services/persistence_worker.py\<close>, the texts of events that subscribers read,
    and \<open>services/persistence_bridge.py\<close>, which turns controller events into jobs and jobs into rows. The worker is two
    queues; what becomes of a second sale and of events when the queue is full.
  \<^item> \<open>Svc_Recovery\<close>: \<open>services/recovery_service.py\<close>. Recovery settles pending commands without executing them,
    releases stale locks, changes nothing else and restores every pump as not communicating.
  \<^item> \<open>Svc_Restart\<close>: \<open>services/lab_persistence.py\<close>, which starts the persistence and puts the recovered contexts into the
    sessions of a controller. A pump recovered in any state but DISCONNECTED is not taken for healthy again while it answers.

  \<^item> \<open>Cloud_Topics\<close>, \<open>Cloud_Messages\<close>, \<open>Cloud_Sync\<close>, \<open>Cloud_Heartbeat\<close>: \<open>cloud\<close>, the topics and envelopes, the worker that
    publishes the entries of the message queue, and the heartbeat, over any MQTT client. What is marked delivered was
    acknowledged; on a healthy link a batch is delivered; a reconnect sends an old heartbeat.
  \<^item> \<open>Cmd_Gate\<close>, \<open>Cloud_Intake\<close>, \<open>Api_Commands\<close>: \<open>cloud/command_intake.py\<close> and \<open>api/routes/commands.py\<close>, the two ways a
    command comes from outside. Only simulator-only laboratory commands reach the controller, however the tasks of the
    handlers interleave; handled one at a time each executes once, interleaved or repeated it may execute twice.
  \<^item> \<open>Core_Config\<close>, \<open>Cloud_Client\<close>, \<open>Cloud_Runtime\<close>: \<open>core/config.py\<close> with \<open>cloud/mqtt/config.py\<close>, \<open>cloud/mqtt/client.py\<close>
    (calls of the library out, callbacks of its thread in, and what the event loop has yet to run), and \<open>cloud/runtime.py\<close>. The
    broker keeps a session as its clean-session flag says, and publishes a will when a connection is lost. Subscriptions survive
    reconnects; an early acknowledgement is lost; the retained status of a stopped device says ONLINE unless the
    connection was lost.
  \<^item> \<open>Api_Queries\<close>: the routes that read, in \<open>api/routes\<close> and \<open>api/services/query.py\<close>. The pages of the sales list are
    the list, amounts are written exactly, the history of a pump is bounded.
  \<^item> \<open>Api_Health\<close>: the service itself, \<open>api/lifespan.py\<close> and \<open>api/state.py\<close>, with \<open>persistence/migrations.py\<close> and the routes
    that report on it. It stops cleanly, its cloud executes nothing, and its heartbeat hides what its health route shows.
  \<^item> \<open>Line_Pipe\<close>: \<open>protocol/dart/transport/memory.py\<close>, the in-memory pair of transports. It is a pair of byte streams; a
    side that was closed never writes again.
  \<^item> \<open>Bench_Faults\<close>, \<open>Sim_Bridge\<close>: \<open>hardware/bench_faults.py\<close> and \<open>simulator/serial_bridge.py\<close>, the virtual dispenser behind a
    byte transport, with planned faults. Fuel flows only in the states that allow it, whatever arrives; a used-up plan
    changes nothing; two of the faults are not what their names say.
  \<^item> \<open>Sim_Scenarios\<close>: \<open>simulator/scenarios.py\<close>, the runner that polls, acknowledges and sends blocks as a controller does, and its
    ten scenarios. The runner fetches every report in order; prices and presets are frozen during a sale.
  \<^item> \<open>Bench_Capture\<close>, \<open>Bench_Latency\<close>, \<open>Bench_Ports\<close>, \<open>Bench_Run\<close>: the rest of \<open>hardware\<close> and the settings of
    \<open>protocol/dart/transport/serial.py\<close>: captures, latency measurement, ports and adapters, and the run of a bench with
    its verdict. A bench that opens and validates runs on two accepted adapters, and it writes only POLLs and ACKs and returns; captures are
    complete; what is not measured, not captured and not tested, and when a verdict says nothing.

  Conventions. A Python \<open>int\<close> is \<open>int\<close> (\<open>nat\<close> for counters that only grow), \<open>bytes\<close> a list of \<open>8 word\<close>, a
  \<open>datetime\<close> its instant as \<open>int\<close>, \<open>Decimal\<close> a coefficient and an exponent or an exact rational. An exception that leaves a
  function is \<open>Inl\<close>; a method of a mutable object is an action that returns the new state beside its result,
  so that partial effects before an exception are kept. Text meant for people (messages, details, warnings) is a constructor with
  the values it quotes. The clock and \<open>uuid4\<close> are arguments.

  Bounds. Loops are total recursion over bytes, transactions, intervals or rows, with two exceptions. The polling loop
  counts its sweeps by fuel, None when it is used up; \<open>timed_run_ends\<close> shows that a run of d milliseconds needs at most
  d + 1. How often one response window reads is a question to the clock and so a function of the environment.

  Assumed and not modelled. The database engine refuses a flush that breaks a key, a uniqueness constraint or a foreign key,
  forgets a failed unit of work and keeps insertion order among equal sort keys, so that every theorem about stored rows holds
  of databases with their constraints; the unit of work of an event whose flush was refused is given up at that flush,
  not at the operation after it. SHA-256 and \<open>datetime.isoformat\<close> are
  parameters. Handlers of the persistence worker run one after the other, as its single task does. Operating-system input and output (serial ports, the enumeration of devices, files, command lines, logging), the web framework,
  the MQTT library (its calls and callbacks are steps of \<open>Cloud_Client\<close>), the creation of tables, the scripts outside the package, the text of reports and the display dictionaries of decoder and snapshots
  are not modelled.
\<close>

end
